(* ===== verification/Prelude.thy ===== *)
theory Prelude
  imports Complex_Main "HOL-Library.Word" "HOL-Library.AList" "HOL-Library.Signed_Division"
begin

text \<open>
  Shared ground of the development: the types that stand for the C++ machine types, the values
  that stand for undefined behaviour, pointers into hash maps, the model of
  \<^verbatim>\<open>std::unordered_map\<close>, and the sums over such a map that the aggregation invariants use.

  A C++ \<^verbatim>\<open>int\<close> or \<^verbatim>\<open>long\<close> whose overflow is undefined is an \<^typ>\<open>int\<close>; an unsigned hash is a
  word of its width; a \<^verbatim>\<open>double\<close> is an exact rational (every finite double is one), so rounding,
  NaN and infinities are outside the model.
\<close>

section \<open>Types of the model\<close>

type_synonym u32 = "32 word"
type_synonym double = rat

text \<open>\<^verbatim>\<open>DBL_MAX\<close>, the largest finite double.\<close>

definition DBL_MAX :: double where
  "DBL_MAX = (2 - 1 / 2 ^ 52) * 2 ^ 1023"

text \<open>
  A pointer to an entry of a hash map: null, to the entry of a key, or to an entry that has been
  erased since.
\<close>

datatype 'k ptr = NullPtr | PtrTo 'k | DanglingPtr

text \<open>Why an execution has no defined result; \<open>Uncaught\<close> is an exception that nobody catches,
  \<open>Deadlock\<close> a thread that spins on a lock it holds itself.\<close>

datatype fault = NullDeref | DanglingDeref | OutOfRange | OutOfFuel | Uncaught | Deadlock

type_synonym 'a res = "fault + 'a"

definition res_bind :: "'a res \<Rightarrow> ('a \<Rightarrow> 'b res) \<Rightarrow> 'b res" where
  "res_bind r f = (case r of Inl e \<Rightarrow> Inl e | Inr x \<Rightarrow> f x)"

lemma res_bind_simps [simp]:
  "res_bind (Inl e) f = Inl e"
  "res_bind (Inr x) f = f x"
  by (simp_all add: res_bind_def)

lemma res_bind_Inr_iff: "res_bind r f = Inr y \<longleftrightarrow> (\<exists>x. r = Inr x \<and> f x = Inr y)"
  by (cases r) simp_all

definition deref :: "('k \<Rightarrow> 'v option) \<Rightarrow> 'k ptr \<Rightarrow> 'v res" where
  "deref m p =
     (case p of
        NullPtr \<Rightarrow> Inl NullDeref
      | DanglingPtr \<Rightarrow> Inl DanglingDeref
      | PtrTo k \<Rightarrow> (case m k of None \<Rightarrow> Inl DanglingDeref | Some v \<Rightarrow> Inr v))"

lemma deref_PtrTo [simp]: "m k = Some v \<Longrightarrow> deref m (PtrTo k) = Inr v"
  by (simp add: deref_def)

lemma deref_bad [simp]: "deref m NullPtr = Inl NullDeref" "deref m DanglingPtr = Inl DanglingDeref"
  by (simp_all add: deref_def)

section \<open>Unordered maps\<close>

text \<open>
  A \<^verbatim>\<open>std::unordered_map\<close> is an association list with distinct keys; the order of the list is
  the iteration order, which the standard leaves open. \<^verbatim>\<open>find\<close> is \<^const>\<open>map_of\<close>, storing a value
  is \<^const>\<open>AList.update\<close>, \<^verbatim>\<open>erase\<close> is \<^const>\<open>AList.delete\<close>. \<^verbatim>\<open>operator[]\<close> first inserts a default
  value where the key is missing.
\<close>

type_synonym ('k, 'v) umap = "('k \<times> 'v) list"

definition um_ok :: "('k, 'v) umap \<Rightarrow> bool" where
  "um_ok m = distinct (map fst m)"

definition um_touch :: "'v \<Rightarrow> 'k \<Rightarrow> ('k, 'v) umap \<Rightarrow> ('k, 'v) umap" where
  "um_touch d k m = (case map_of m k of None \<Rightarrow> AList.update k d m | Some _ \<Rightarrow> m)"

definition um_has :: "'k \<Rightarrow> ('k, 'v) umap \<Rightarrow> bool" where
  "um_has k m = (map_of m k \<noteq> None)"

definition um_map :: "('v \<Rightarrow> 'w) \<Rightarrow> ('k, 'v) umap \<Rightarrow> ('k, 'w) umap" where
  "um_map f m = map (\<lambda>(k, v). (k, f v)) m"

text \<open>Erase every entry whose value satisfies a test (the \<^verbatim>\<open>vec_erase\<close> loops).\<close>

definition um_drop :: "('v \<Rightarrow> bool) \<Rightarrow> ('k, 'v) umap \<Rightarrow> ('k, 'v) umap" where
  "um_drop P m = filter (\<lambda>(k, v). \<not> P v) m"

definition um_sum :: "('v \<Rightarrow> 'a::ab_group_add) \<Rightarrow> ('k, 'v) umap \<Rightarrow> 'a" where
  "um_sum f m = sum_list (map (\<lambda>(k, v). f v) m)"

text \<open>\<open>um_lookup\<close> says what each operation on a map leaves at each key.\<close>

named_theorems um_lookup

lemma um_ok_Nil [simp]: "um_ok []"
  by (simp add: um_ok_def)

lemma um_ok_update [simp]: "um_ok m \<Longrightarrow> um_ok (AList.update k v m)"
  by (simp add: um_ok_def distinct_update)

lemma um_ok_delete [simp]: "um_ok m \<Longrightarrow> um_ok (AList.delete k m)"
  unfolding um_ok_def by (rule distinct_delete)

lemma um_ok_touch [simp]: "um_ok m \<Longrightarrow> um_ok (um_touch d k m)"
  by (simp add: um_touch_def split: option.splits)

lemma um_ok_map [simp]: "um_ok (um_map f m) = um_ok m"
  by (simp add: um_ok_def um_map_def comp_def split_def)

lemma um_ok_drop [simp]: "um_ok m \<Longrightarrow> um_ok (um_drop P m)"
  by (induction m) (auto simp: um_ok_def um_drop_def)

lemma map_of_um_map [simp, um_lookup]: "map_of (um_map f m) k = map_option f (map_of m k)"
  by (induction m) (auto simp: um_map_def)

lemma map_of_um_drop [um_lookup]:
  "um_ok m \<Longrightarrow> map_of (um_drop P m) k =
     (case map_of m k of None \<Rightarrow> None | Some v \<Rightarrow> if P v then None else Some v)"
proof (induction m)
  case (Cons e m)
  obtain j v where e: "e = (j, v)" by (cases e)
  from Cons.prems e have "um_ok m" and new: "j \<notin> fst ` set m" by (auto simp: um_ok_def)
  from new have "map_of m j = None" by (simp add: map_of_eq_None_iff)
  with Cons.IH [OF \<open>um_ok m\<close>] e show ?case by (auto simp: um_drop_def)
qed (simp add: um_drop_def)

lemma map_of_update [simp, um_lookup]:
  "map_of (AList.update k v m) j = (if j = k then Some v else map_of m j)"
  by (simp add: update_conv)

lemma map_of_delete [um_lookup]:
  "map_of (AList.delete k m) j = (if j = k then None else map_of m j)"
  by (simp add: delete_conv')

lemma map_of_um_touch [um_lookup]:
  "map_of (um_touch d k m) j =
     (if j = k \<and> map_of m k = None then Some d else map_of m j)"
  by (auto simp: um_touch_def split: option.splits)

lemma um_touch_present [simp]: "map_of m k = Some v \<Longrightarrow> um_touch d k m = m"
  by (simp add: um_touch_def)

lemma map_of_in_set: "um_ok m \<Longrightarrow> (k, v) \<in> set m \<longleftrightarrow> map_of m k = Some v"
  by (simp add: um_ok_def map_of_eq_Some_iff)

lemma update_map_of_same [simp]: "map_of m k = Some v \<Longrightarrow> AList.update k v m = m"
  by (induction m) (auto split: if_splits)

lemma update_update_same [simp]: "AList.update k v (AList.update k w m) = AList.update k v m"
  by (induction m) auto

section \<open>Sums over a map\<close>

lemma um_sum_Nil [simp]: "um_sum f [] = 0"
  by (simp add: um_sum_def)

lemma um_sum_Cons [simp]: "um_sum f ((k, v) # m) = f v + um_sum f m"
  by (simp add: um_sum_def)

lemma um_sum_insert:
  "map_of m k = None \<Longrightarrow> um_sum f (AList.update k v m) = um_sum f m + f v"
  by (induction m) (auto simp: add_ac split: if_splits)

lemma um_sum_update:
  assumes "um_ok m" "map_of m k = Some v"
  shows "um_sum f (AList.update k w m) = um_sum f m + (f w - f v)"
  using assms
proof (induction m)
  case (Cons e m)
  obtain j u where e: "e = (j, u)" by (cases e)
  from Cons.prems e have ok: "um_ok m" by (simp add: um_ok_def)
  show ?case
  proof (cases "j = k")
    case True
    with Cons.prems e show ?thesis by simp
  next
    case False
    with Cons.prems e have "map_of m k = Some v" by simp
    with Cons.IH [OF ok] e False show ?thesis by simp
  qed
qed simp

lemma um_sum_drop:
  "(\<And>k v. (k, v) \<in> set m \<Longrightarrow> P v \<Longrightarrow> f v = 0) \<Longrightarrow> um_sum f (um_drop P m) = um_sum f m"
proof (induction m)
  case (Cons e m)
  obtain j u where e: "e = (j, u)" by (cases e)
  have "um_sum f (um_drop P m) = um_sum f m"
    using Cons.prems by (intro Cons.IH) auto
  moreover have "P u \<Longrightarrow> f u = 0" using Cons.prems e by auto
  ultimately show ?case using e by (auto simp: um_drop_def)
qed (simp add: um_drop_def)

lemma um_sum_map: "um_sum f (um_map g m) = um_sum (\<lambda>v. f (g v)) m"
  by (induction m) (auto simp: um_map_def)

lemma um_sum_cong:
  "(\<And>k v. (k, v) \<in> set m \<Longrightarrow> f v = g v) \<Longrightarrow> um_sum f m = um_sum g m"
proof (induction m)
  case (Cons e m)
  obtain j u where e: "e = (j, u)" by (cases e)
  have "um_sum f m = um_sum g m" using Cons.prems by (intro Cons.IH) auto
  moreover have "f u = g u" using Cons.prems e by auto
  ultimately show ?case using e by simp
qed simp

lemma um_sum_nonneg_zero:
  fixes f :: "'v \<Rightarrow> 'a::ordered_ab_group_add"
  assumes "\<And>k v. (k, v) \<in> set m \<Longrightarrow> 0 \<le> f v" and "um_sum f m = 0" and "(k, v) \<in> set m"
  shows "f v = 0"
  using assms
proof (induction m)
  case (Cons e m)
  obtain j u where e: "e = (j, u)" by (cases e)
  have nn: "0 \<le> um_sum f m" if "\<And>k v. (k, v) \<in> set m \<Longrightarrow> 0 \<le> f v" for m
    unfolding um_sum_def by (rule sum_list_nonneg) (use that in auto)
  have tail: "0 \<le> um_sum f m" by (rule nn) (use Cons.prems(1) in auto)
  have head: "0 \<le> f u" using Cons.prems(1) e by auto
  have tot: "f u + um_sum f m = 0" using Cons.prems(2) e by simp
  have z: "f u = 0 \<and> um_sum f m = 0"
    using add_nonneg_eq_0_iff [OF head tail] tot by simp
  show ?case
  proof (cases "(k, v) = e")
    case True
    with e z show ?thesis by simp
  next
    case False
    with Cons.prems(3) have "(k, v) \<in> set m" by auto
    with Cons.IH z Cons.prems(1) show ?thesis by auto
  qed
qed simp

section \<open>Machines that may fault\<close>

text \<open>
  A run of a fallible machine stops at the first fault. A contract \<open>guarded_machine\<close> says which
  events are legal in a state and that a legal event from a state of the invariant neither
  faults nor leaves the invariant; every legal run then succeeds.
\<close>

primrec run_steps :: "('e \<Rightarrow> 's \<Rightarrow> 's res) \<Rightarrow> 'e list \<Rightarrow> 's \<Rightarrow> 's res" where
  "run_steps step [] s = Inr s"
| "run_steps step (e # es) s = res_bind (step e s) (run_steps step es)"

primrec legal_run ::
    "('e \<Rightarrow> 's \<Rightarrow> 's res) \<Rightarrow> ('e \<Rightarrow> 's \<Rightarrow> bool) \<Rightarrow> 'e list \<Rightarrow> 's \<Rightarrow> bool" where
  "legal_run step legal [] s = True"
| "legal_run step legal (e # es) s =
     (legal e s \<and> (case step e s of Inl f \<Rightarrow> True | Inr t \<Rightarrow> legal_run step legal es t))"

locale guarded_machine =
  fixes step :: "'e \<Rightarrow> 's \<Rightarrow> 's res"
    and legal :: "'e \<Rightarrow> 's \<Rightarrow> bool"
    and inv :: "'s \<Rightarrow> bool"
  assumes step_ok: "inv s \<Longrightarrow> legal e s \<Longrightarrow> \<exists>t. step e s = Inr t \<and> inv t"
begin

lemma step_inv: "inv s \<Longrightarrow> legal e s \<Longrightarrow> step e s = Inr t \<Longrightarrow> inv t"
  using step_ok by fastforce

lemma run_inv:
  "inv s \<Longrightarrow> legal_run step legal es s \<Longrightarrow> \<exists>t. run_steps step es s = Inr t \<and> inv t"
proof (induction es arbitrary: s)
  case (Cons e es)
  from Cons.prems have "legal e s" by simp
  then obtain t where t: "step e s = Inr t" "inv t"
    using step_ok Cons.prems(1) by blast
  from Cons.prems(2) t have "legal_run step legal es t" by simp
  from Cons.IH [OF t(2) this] t show ?case by simp
qed simp

lemma always_legal_run: "inv s \<Longrightarrow> (\<And>e t. inv t \<Longrightarrow> legal e t) \<Longrightarrow> legal_run step legal es s"
proof (induction es arbitrary: s)
  case (Cons e es)
  from Cons.prems have l: "legal e s" by simp
  then obtain t where t: "step e s = Inr t" "inv t" using step_ok Cons.prems(1) by blast
  with Cons l show ?case by simp
qed simp

end

end
