(* ===== verification/Trade_Types.thy ===== *)
theory Trade_Types
  imports Prelude
begin

text \<open>
  The shared vocabulary of \<^verbatim>\<open>include/ATConstants.h\<close> and \<^verbatim>\<open>include/ATStructure.h\<close>: directions and
  offsets (the characters the exchange protocols use), the bit flags of an order's state
  \<^verbatim>\<open>emOrderRtnType\<close>, and the structures that travel between the components. The structures keep
  every field of the source; their names carry a prefix (\<open>ii_\<close>, \<open>ot_\<close>, \<open>rm_\<close>, \<open>md_\<close>,
  \<open>lt_\<close>) because record fields share one name space in HOL.
\<close>

unbundle bit_operations_syntax

section \<open>Directions and offsets\<close>

definition AT_CHAR_Buy :: int where "AT_CHAR_Buy = 48"
definition AT_CHAR_Sell :: int where "AT_CHAR_Sell = 49"

definition AT_CHAR_Open :: int where "AT_CHAR_Open = 48"
definition AT_CHAR_Close :: int where "AT_CHAR_Close = 49"
definition AT_CHAR_ForceClose :: int where "AT_CHAR_ForceClose = 50"
definition AT_CHAR_CloseToday :: int where "AT_CHAR_CloseToday = 51"
definition AT_CHAR_CloseYesterday :: int where "AT_CHAR_CloseYesterday = 52"
definition AT_CHAR_ForceOff :: int where "AT_CHAR_ForceOff = 53"
definition AT_CHAR_LocalForceClose :: int where "AT_CHAR_LocalForceClose = 54"
definition AT_CHAR_Non :: int where "AT_CHAR_Non = 78"
definition AT_CHAR_Auto :: int where "AT_CHAR_Auto = 65"

lemmas dir_defs = AT_CHAR_Buy_def AT_CHAR_Sell_def
lemmas off_defs =
  AT_CHAR_Open_def AT_CHAR_Close_def AT_CHAR_ForceClose_def AT_CHAR_CloseToday_def
  AT_CHAR_CloseYesterday_def AT_CHAR_ForceOff_def AT_CHAR_LocalForceClose_def AT_CHAR_Non_def
  AT_CHAR_Auto_def

lemma dir_distinct [simp]: "AT_CHAR_Buy \<noteq> AT_CHAR_Sell" "AT_CHAR_Sell \<noteq> AT_CHAR_Buy"
  by (simp_all add: dir_defs)

lemma off_distinct [simp]:
  "AT_CHAR_Open \<noteq> AT_CHAR_CloseYesterday" "AT_CHAR_CloseYesterday \<noteq> AT_CHAR_Open"
  "AT_CHAR_Open \<noteq> AT_CHAR_CloseToday" "AT_CHAR_CloseToday \<noteq> AT_CHAR_Open"
  "AT_CHAR_CloseToday \<noteq> AT_CHAR_CloseYesterday" "AT_CHAR_CloseYesterday \<noteq> AT_CHAR_CloseToday"
  "AT_CHAR_Close \<noteq> AT_CHAR_Open" "AT_CHAR_Open \<noteq> AT_CHAR_Close"
  "AT_CHAR_Auto \<noteq> AT_CHAR_Open" "AT_CHAR_Open \<noteq> AT_CHAR_Auto"
  "AT_CHAR_Auto \<noteq> AT_CHAR_Close" "AT_CHAR_Close \<noteq> AT_CHAR_Auto"
  "AT_CHAR_Auto \<noteq> AT_CHAR_CloseToday" "AT_CHAR_CloseToday \<noteq> AT_CHAR_Auto"
  "AT_CHAR_Auto \<noteq> AT_CHAR_CloseYesterday" "AT_CHAR_CloseYesterday \<noteq> AT_CHAR_Auto"
  "AT_CHAR_Close \<noteq> AT_CHAR_CloseToday" "AT_CHAR_CloseToday \<noteq> AT_CHAR_Close"
  "AT_CHAR_Close \<noteq> AT_CHAR_CloseYesterday" "AT_CHAR_CloseYesterday \<noteq> AT_CHAR_Close"
  by (simp_all add: off_defs)

text \<open>The directions and offsets every handler of an order has a branch for.\<close>

definition dir_known :: "int \<Rightarrow> bool" where
  "dir_known dir = (dir = AT_CHAR_Buy \<or> dir = AT_CHAR_Sell)"

definition off_known :: "int \<Rightarrow> bool" where
  "off_known off = (off = AT_CHAR_Open \<or> off = AT_CHAR_CloseYesterday \<or> off = AT_CHAR_CloseToday)"

definition getDirString :: "int \<Rightarrow> string" where
  "getDirString dir =
     (if dir = AT_CHAR_Buy then ''BUY''
      else if dir = AT_CHAR_Sell then ''SELL''
      else ''Unknown dir'')"

definition getOffString :: "int \<Rightarrow> string" where
  "getOffString off =
     (if off = AT_CHAR_Open then ''OPEN''
      else if off = AT_CHAR_Close then ''CLOSE''
      else if off = AT_CHAR_ForceClose then ''FORCE_CLOSE''
      else if off = AT_CHAR_CloseToday then ''CLOSE_TD''
      else if off = AT_CHAR_CloseYesterday then ''CLOSE_YD''
      else if off = AT_CHAR_ForceOff then ''FORCE_OFF''
      else if off = AT_CHAR_LocalForceClose then ''LOCAL_FORCE_CLOSE''
      else if off = AT_CHAR_Non then ''NON''
      else if off = AT_CHAR_Auto then ''AUTO''
      else ''Unknown off'')"

section \<open>The state flags of an order\<close>

text \<open>
  \<^verbatim>\<open>enum class emOrderRtnType\<close>: the final states carry the bit of \<open>CLOSED\<close> beside their own.
  A value of flags is an \<^verbatim>\<open>int\<close> and is tested with \<^verbatim>\<open>&\<close>.
\<close>

definition ODS_NOT_SET :: int where "ODS_NOT_SET = 0"
definition ODS_CLOSED :: int where "ODS_CLOSED = 1"
definition ODS_SEND :: int where "ODS_SEND = 2"
definition ODS_TDSEND :: int where "ODS_TDSEND = 4"
definition ODS_CXLING :: int where "ODS_CXLING = 8"
definition ODS_ACCEPT :: int where "ODS_ACCEPT = 16"
definition ODS_REJECT :: int where "ODS_REJECT = 32 OR 1"
definition ODS_MARKET_ACCEPT :: int where "ODS_MARKET_ACCEPT = 64"
definition ODS_MARKET_REJECT :: int where "ODS_MARKET_REJECT = 128 OR 1"
definition ODS_EXECUTION :: int where "ODS_EXECUTION = 256"
definition ODS_CANCEL_REJECT :: int where "ODS_CANCEL_REJECT = 512"
definition ODS_CANCELED :: int where "ODS_CANCELED = 1024 OR 1"
definition ODS_ERR :: int where "ODS_ERR = 2048 OR 1"

lemmas ods_defs =
  ODS_NOT_SET_def ODS_CLOSED_def ODS_SEND_def ODS_TDSEND_def ODS_CXLING_def ODS_ACCEPT_def
  ODS_REJECT_def ODS_MARKET_ACCEPT_def ODS_MARKET_REJECT_def ODS_EXECUTION_def
  ODS_CANCEL_REJECT_def ODS_CANCELED_def ODS_ERR_def

definition getEmOrderRtnTypeString :: "int \<Rightarrow> string" where
  "getEmOrderRtnTypeString type =
     (if type = ODS_NOT_SET then ''NOT_SET;'' else '''') @
     (if type AND ODS_CLOSED \<noteq> 0 then ''CLOSED;'' else '''') @
     (if type AND ODS_SEND \<noteq> 0 then ''SEND;'' else '''') @
     (if type AND ODS_TDSEND \<noteq> 0 then ''TDSEND;'' else '''') @
     (if type AND ODS_CXLING \<noteq> 0 then ''CXLING;'' else '''') @
     (if type AND ODS_ACCEPT \<noteq> 0 then ''ACCEPT;'' else '''') @
     (if type AND ODS_REJECT = ODS_REJECT then ''REJECT;'' else '''') @
     (if type AND ODS_MARKET_ACCEPT \<noteq> 0 then ''MARKET_ACCEPT;'' else '''') @
     (if type AND ODS_MARKET_REJECT = ODS_MARKET_REJECT then ''MARKET_REJECT;'' else '''') @
     (if type AND ODS_EXECUTION \<noteq> 0 then ''EXECUTION;'' else '''') @
     (if type AND ODS_CANCEL_REJECT \<noteq> 0 then ''CANCEL_REJECT;'' else '''') @
     (if type AND ODS_CANCELED = ODS_CANCELED then ''CANCELED;'' else '''') @
     (if type AND ODS_ERR = ODS_ERR then ''ERR;'' else '''')"

text \<open>The reports that end an order before all of it traded.\<close>

definition cancel_types :: "int list" where
  "cancel_types = [ODS_REJECT, ODS_MARKET_REJECT, ODS_CANCELED]"

lemma ods_and [simp]:
  "ODS_EXECUTION AND (ODS_REJECT OR ODS_MARKET_REJECT OR ODS_CANCELED) = 0"
  "ODS_EXECUTION AND ODS_EXECUTION = ODS_EXECUTION"
  "ODS_EXECUTION AND ODS_CANCELED = 0"
  "ODS_CANCELED AND ODS_CANCELED = ODS_CANCELED"
  "ODS_CANCELED AND ODS_EXECUTION = 0"
  "ODS_EXECUTION \<noteq> 0" "ODS_CANCELED \<noteq> 0"
  by (simp_all add: ods_defs)

section \<open>Structures\<close>

record instrument_info =
  ii_instr_hash :: u32
  ii_instr :: string
  ii_exch :: int
  ii_product :: string
  ii_product_hash :: u32
  ii_vol_multiple :: int
  ii_tick_price :: double
  ii_expire_date :: string
  ii_is_trading :: bool

record order_track =
  ot_status :: int
  ot_instr_hash :: u32
  ot_instr :: string
  ot_price :: double
  ot_vol :: int
  ot_dir :: int
  ot_off :: int
  ot_vol_traded :: int
  ot_amount_traded :: double
  ot_from :: int
  ot_local_id :: int
  ot_acc_id :: int
  ot_stg_id :: int
  ot_order_ref :: int
  ot_front_id :: int
  ot_session_id :: int

record rtn_msg =
  rm_msg_type :: int
  rm_local_id :: int
  rm_instr_hash :: u32
  rm_instr :: string
  rm_price :: double
  rm_vol :: int
  rm_dir :: int
  rm_off :: int
  rm_order_ref :: int
  rm_front_id :: int
  rm_session_id :: int
  rm_errid :: int
  rm_msg :: string

text \<open>\<^verbatim>\<open>UnitedMarketData\<close>, one tick of an instrument with five levels of the book.\<close>

record market_data =
  md_instr_hash :: u32
  md_last_px :: double
  md_cum_vol :: int
  md_cum_turnover :: double
  md_avg_px :: double
  md_ask_px :: double
  md_bid_px :: double
  md_ask_vol :: int
  md_bid_vol :: int
  md_ask_px2 :: double
  md_bid_px2 :: double
  md_ask_vol2 :: int
  md_bid_vol2 :: int
  md_ask_px3 :: double
  md_bid_px3 :: double
  md_ask_vol3 :: int
  md_bid_vol3 :: int
  md_ask_px4 :: double
  md_bid_px4 :: double
  md_ask_vol4 :: int
  md_bid_vol4 :: int
  md_ask_px5 :: double
  md_bid_px5 :: double
  md_ask_vol5 :: int
  md_bid_vol5 :: int
  md_open_interest :: double
  md_exch_time :: int
  md_instr_str :: string

text \<open>The member initialisers of \<^verbatim>\<open>UnitedMarketData\<close>.\<close>

definition market_data_init :: market_data where
  "market_data_init =
     \<lparr>md_instr_hash = 0, md_last_px = 0, md_cum_vol = 0, md_cum_turnover = 0, md_avg_px = 0,
      md_ask_px = 0, md_bid_px = 0, md_ask_vol = 0, md_bid_vol = 0,
      md_ask_px2 = 0, md_bid_px2 = 0, md_ask_vol2 = 0, md_bid_vol2 = 0,
      md_ask_px3 = 0, md_bid_px3 = 0, md_ask_vol3 = 0, md_bid_vol3 = 0,
      md_ask_px4 = 0, md_bid_px4 = 0, md_ask_vol4 = 0, md_bid_vol4 = 0,
      md_ask_px5 = 0, md_bid_px5 = 0, md_ask_vol5 = 0, md_bid_vol5 = 0,
      md_open_interest = 0, md_exch_time = 0, md_instr_str = []\<rparr>"

text \<open>\<^verbatim>\<open>tLastTick\<close>, the last tick a subscriber keeps of an instrument, and its initialisers.\<close>

record last_tick =
  lt_ask_px :: double
  lt_bid_px :: double
  lt_ask_vol :: int
  lt_bid_vol :: int
  lt_ask_px2 :: double
  lt_bid_px2 :: double
  lt_ask_vol2 :: int
  lt_bid_vol2 :: int
  lt_ask_px3 :: double
  lt_bid_px3 :: double
  lt_ask_vol3 :: int
  lt_bid_vol3 :: int
  lt_ask_px4 :: double
  lt_bid_px4 :: double
  lt_ask_vol4 :: int
  lt_bid_vol4 :: int
  lt_ask_px5 :: double
  lt_bid_px5 :: double
  lt_ask_vol5 :: int
  lt_bid_vol5 :: int
  lt_last_price :: double
  lt_cum_vol :: int
  lt_exch_time :: int

definition last_tick_init :: last_tick where
  "last_tick_init =
     \<lparr>lt_ask_px = 0, lt_bid_px = 0, lt_ask_vol = 0, lt_bid_vol = 0,
      lt_ask_px2 = 0, lt_bid_px2 = 0, lt_ask_vol2 = 0, lt_bid_vol2 = 0,
      lt_ask_px3 = 0, lt_bid_px3 = 0, lt_ask_vol3 = 0, lt_bid_vol3 = 0,
      lt_ask_px4 = 0, lt_bid_px4 = 0, lt_ask_vol4 = 0, lt_bid_vol4 = 0,
      lt_ask_px5 = 0, lt_bid_px5 = 0, lt_ask_vol5 = 0, lt_bid_vol5 = 0,
      lt_last_price = 0, lt_cum_vol = 0, lt_exch_time = 0\<rparr>"

record subs_instr_info =
  base_info :: instrument_info
  lst_tick :: last_tick

end
