(* ===== verification/Murmur.thy ===== *)
theory Murmur
  imports Trade_Types
begin

text \<open>
  \<^verbatim>\<open>utility/MurmurHash2.cpp\<close>: the 32-bit hash that turns the name of an instrument or a product
  into the key of every map of the system (\<^verbatim>\<open>INSTR_NAME_TO_HASH\<close> of \<^verbatim>\<open>include/ATStructure.h\<close>),
  and its endian-neutral variant. Bytes are 8-bit words, a machine word is read little endian as
  on the x86 hosts the program runs on, and all arithmetic is that of 32-bit words.
\<close>

unbundle bit_operations_syntax

type_synonym byte = "8 word"

section \<open>The one-shot hash\<close>

definition murmur_m :: u32 where
  "murmur_m = 0x5bd1e995"

definition byte_u32 :: "byte \<Rightarrow> u32" where
  "byte_u32 b = ucast b"

text \<open>\<^verbatim>\<open>*(uint32_t*)data\<close> on a little-endian machine, and the same value assembled by shifts.\<close>

definition load_le32 :: "byte \<Rightarrow> byte \<Rightarrow> byte \<Rightarrow> byte \<Rightarrow> u32" where
  "load_le32 b0 b1 b2 b3 = word_of_int
     (uint b0 + 2 ^ 8 * uint b1 + 2 ^ 16 * uint b2 + 2 ^ 24 * uint b3)"

definition load_neutral32 :: "byte \<Rightarrow> byte \<Rightarrow> byte \<Rightarrow> byte \<Rightarrow> u32" where
  "load_neutral32 b0 b1 b2 b3 =
     byte_u32 b0 OR push_bit 8 (byte_u32 b1) OR push_bit 16 (byte_u32 b2) OR push_bit 24 (byte_u32 b3)"

text \<open>\<^verbatim>\<open>k *= m; k ^= k >> r; k *= m; h *= m; h ^= k\<close>: the loop body, also the macro \<^verbatim>\<open>mmix\<close>.\<close>

definition mmix :: "u32 \<Rightarrow> u32 \<Rightarrow> u32" where
  "mmix h k =
     (let k1 = k * murmur_m;
          k2 = k1 XOR drop_bit 24 k1;
          k3 = k2 * murmur_m
      in (h * murmur_m) XOR k3)"

text \<open>The last mixes of the hash.\<close>

definition murmur_final :: "u32 \<Rightarrow> u32" where
  "murmur_final h =
     (let h1 = h XOR drop_bit 13 h;
          h2 = h1 * murmur_m
      in h2 XOR drop_bit 15 h2)"

text \<open>The fall-through \<^verbatim>\<open>switch\<close> over the last up to three bytes.\<close>

fun murmur_tail :: "u32 \<Rightarrow> byte list \<Rightarrow> u32" where
  "murmur_tail h [b0, b1, b2] =
     (h XOR push_bit 16 (byte_u32 b2) XOR push_bit 8 (byte_u32 b1) XOR byte_u32 b0) * murmur_m"
| "murmur_tail h [b0, b1] = (h XOR push_bit 8 (byte_u32 b1) XOR byte_u32 b0) * murmur_m"
| "murmur_tail h [b0] = (h XOR byte_u32 b0) * murmur_m"
| "murmur_tail h _ = h"

fun murmur_loop :: "(byte \<Rightarrow> byte \<Rightarrow> byte \<Rightarrow> byte \<Rightarrow> u32) \<Rightarrow> u32 \<Rightarrow> byte list \<Rightarrow> u32" where
  "murmur_loop load h (b0 # b1 # b2 # b3 # bs) = murmur_loop load (mmix h (load b0 b1 b2 b3)) bs"
| "murmur_loop load h bs = murmur_tail h bs"

definition MurmurHash2 :: "byte list \<Rightarrow> u32 \<Rightarrow> u32" where
  "MurmurHash2 key seed =
     murmur_final (murmur_loop load_le32 (seed XOR of_nat (length key)) key)"

definition MurmurHashNeutral2 :: "byte list \<Rightarrow> u32 \<Rightarrow> u32" where
  "MurmurHashNeutral2 key seed =
     murmur_final (murmur_loop load_neutral32 (seed XOR of_nat (length key)) key)"

text \<open>A C string as bytes, and the hash of an instrument or product name.\<close>

definition bytes_of :: "string \<Rightarrow> byte list" where
  "bytes_of s = map of_char s"

definition INSTR_NAME_TO_HASH :: "string \<Rightarrow> u32" where
  "INSTR_NAME_TO_HASH name = MurmurHash2 (bytes_of name) 0x20180428"

definition HASH_STR :: "string \<Rightarrow> u32" where
  "HASH_STR s = MurmurHash2 (bytes_of s) 0x20180504"

end
