(* ===== verification/Trade_Base.thy ===== *)
theory Trade_Base
  imports Trade_Types Murmur
begin

text \<open>
  \<^verbatim>\<open>common/CTradeBaseInfo\<close>: the table of the instruments listed today, which every other
  component looks instruments up in, its exchange as a datagram (\<^verbatim>\<open>tIOTDBaseInfo\<close>), the expansion
  of product names to instruments, and the names of the exchanges. The consistency of a table
  (\<open>base_ok\<close>) is what the account and the risk components rely on.
\<close>

section \<open>The table\<close>

type_synonym instr_table = "(u32, instrument_info) umap"

text \<open>
  The static members of the class. \<^verbatim>\<open>switch_day_cb_\<close> is a function object; the model keeps whether
  one is set, and an operation returns the days it was called with.
\<close>

record trade_base =
  tb_is_init :: bool
  tb_trading_day :: string
  tb_instr_info :: instr_table
  tb_switch_day_cb :: bool

definition trade_base_init :: trade_base where
  "trade_base_init =
     \<lparr>tb_is_init = False, tb_trading_day = [], tb_instr_info = [], tb_switch_day_cb = False\<rparr>"

text \<open>The datagram: its array may be shorter than \<^verbatim>\<open>instr_cnt\<close> says.\<close>

record td_base_info =
  bi_trading_day :: string
  bi_instr_cnt :: int
  bi_instr :: "instrument_info list"

record sys_io_head =
  io_cmd :: int
  io_to :: int
  io_source :: int
  io_back_word :: int

definition IO_TD_RSP_BASE_INFO :: int where
  "IO_TD_RSP_BASE_INFO = 13"

definition put_info :: "instrument_info \<Rightarrow> instr_table \<Rightarrow> instr_table" where
  "put_info info m = AList.update (ii_instr_hash info) info m"

definition CTradeBaseInfo_set :: "td_base_info \<Rightarrow> trade_base \<Rightarrow> trade_base res" where
  "CTradeBaseInfo_set p tb =
     (if bi_instr_cnt p > int (length (bi_instr p)) then Inl OutOfRange
      else Inr (tb\<lparr>tb_trading_day := bi_trading_day p,
                   tb_instr_info := fold put_info (take (nat (bi_instr_cnt p)) (bi_instr p)) [],
                   tb_is_init := True\<rparr>))"

text \<open>The result, the call of the callback if there was one, and the new table.\<close>

definition CTradeBaseInfo_update ::
    "td_base_info \<Rightarrow> trade_base \<Rightarrow> (bool \<times> string option \<times> trade_base) res" where
  "CTradeBaseInfo_update p tb =
     (if tb_trading_day tb \<noteq> bi_trading_day p then
        res_bind (CTradeBaseInfo_set p tb)
          (\<lambda>tb'. Inr (True, if tb_switch_day_cb tb' then Some (tb_trading_day tb') else None, tb'))
      else Inr (False, None, tb))"

text \<open>
  \<^verbatim>\<open>strncpy(.., trading_day_.c_str(), sizeof - 1)\<close> into 12 zeroed bytes: up to the first NUL, at
  most 11 characters.
\<close>

definition c_str :: "string \<Rightarrow> string" where
  "c_str s = takeWhile (\<lambda>c. c \<noteq> CHR 0x00) s"

definition CTradeBaseInfo_toSysIOStruct ::
    "int \<Rightarrow> int \<Rightarrow> int \<Rightarrow> trade_base \<Rightarrow> sys_io_head \<times> td_base_info" where
  "CTradeBaseInfo_toSysIOStruct to source back_word tb =
     (\<lparr>io_cmd = IO_TD_RSP_BASE_INFO, io_to = to, io_source = source, io_back_word = back_word\<rparr>,
      \<lparr>bi_trading_day = take 11 (c_str (tb_trading_day tb)),
       bi_instr_cnt = int (length (tb_instr_info tb)),
       bi_instr = map snd (tb_instr_info tb)\<rparr>)"

definition CTradeBaseInfo_addInstrInfo :: "instrument_info \<Rightarrow> trade_base \<Rightarrow> trade_base" where
  "CTradeBaseInfo_addInstrInfo info tb = tb\<lparr>tb_instr_info := put_info info (tb_instr_info tb)\<rparr>"

definition CTradeBaseInfo_getInstrInfo :: "u32 \<Rightarrow> trade_base \<Rightarrow> instrument_info option" where
  "CTradeBaseInfo_getInstrInfo h tb = map_of (tb_instr_info tb) h"

section \<open>Products and instruments\<close>

definition is_all :: "string \<Rightarrow> bool" where
  "is_all s = (s = ''all'' \<or> s = ''All'')"

definition CTradeBaseInfo_getInstrInProduct :: "string \<Rightarrow> instr_table \<Rightarrow> instrument_info list" where
  "CTradeBaseInfo_getInstrInProduct product m =
     filter (\<lambda>info. product = ii_product info \<or> is_all product) (map snd m)"

definition CTradeBaseInfo_productToInstrSet :: "string list \<Rightarrow> instr_table \<Rightarrow> string set" where
  "CTradeBaseInfo_productToInstrSet product m =
     fold (\<lambda>i res. fold (\<lambda>(k, info) res.
         if i = ii_instr info \<or> i = ii_product info \<or> is_all i then insert (ii_instr info) res
         else res) m res) product {}"

definition CTradeBaseInfo_productOrInstrumentToInstrSet ::
    "string list \<Rightarrow> instr_table \<Rightarrow> string set" where
  "CTradeBaseInfo_productOrInstrumentToInstrSet product m =
     fold (\<lambda>i res. fold (\<lambda>(k, info) res.
         if i = ii_instr info \<or> i = ii_product info \<or> is_all i then insert (ii_instr info) res
         else insert i res) m res) product {}"

lemma fold_insert_if:
  "fold (\<lambda>(k, v) res. if P v then insert (f v) res else res) m A =
     A \<union> f ` {v \<in> snd ` set m. P v}"
  by (induction m arbitrary: A) (simp, auto split: if_splits)

lemma fold_insert_if_else:
  "fold (\<lambda>(k, v) res. if P v then insert (f v) res else insert x res) m A =
     A \<union> f ` {v \<in> snd ` set m. P v} \<union> {y. y = x \<and> (\<exists>v \<in> snd ` set m. \<not> P v)}"
  by (induction m arbitrary: A) (simp, auto split: if_splits)

lemma fold_union: "fold (\<lambda>i res. res \<union> g i) is A = A \<union> (\<Union>i \<in> set is. g i)"
  by (induction "is" arbitrary: A) auto

text \<open>The set an expansion has to yield: the instruments a name of the list stands for.\<close>

definition expansion :: "string list \<Rightarrow> instr_table \<Rightarrow> string set" where
  "expansion product m =
     ii_instr ` {info \<in> snd ` set m.
        \<exists>i \<in> set product. i = ii_instr info \<or> i = ii_product info \<or> is_all i}"

lemma productToInstrSet_expansion: "CTradeBaseInfo_productToInstrSet product m = expansion product m"
  unfolding CTradeBaseInfo_productToInstrSet_def fold_insert_if fold_union expansion_def by auto

lemma productOrInstrumentToInstrSet_eq:
  "CTradeBaseInfo_productOrInstrumentToInstrSet product m =
     expansion product m \<union>
     {i \<in> set product. \<not> is_all i \<and>
        (\<exists>info \<in> snd ` set m. i \<noteq> ii_instr info \<and> i \<noteq> ii_product info)}"
  unfolding CTradeBaseInfo_productOrInstrumentToInstrSet_def fold_insert_if_else Un_assoc
    fold_union expansion_def
  by auto

section \<open>Consistency\<close>

text \<open>
  Every entry stands under the hash of its own name, the hash of its product is that of the
  product's name, and a lot is not negative.
\<close>

definition info_ok :: "instrument_info \<Rightarrow> bool" where
  "info_ok info \<longleftrightarrow>
     ii_instr_hash info = INSTR_NAME_TO_HASH (ii_instr info) \<and>
     ii_product_hash info = INSTR_NAME_TO_HASH (ii_product info) \<and>
     0 \<le> ii_vol_multiple info"

definition base_ok :: "instr_table \<Rightarrow> bool" where
  "base_ok m \<longleftrightarrow> um_ok m \<and> (\<forall>(h, info) \<in> set m. h = ii_instr_hash info \<and> info_ok info)"

lemma base_okD:
  assumes "base_ok m" "map_of m h = Some info"
  shows "INSTR_NAME_TO_HASH (ii_instr info) = h"
    "INSTR_NAME_TO_HASH (ii_product info) = ii_product_hash info"
    "0 \<le> ii_vol_multiple info" "ii_instr_hash info = h"
  using assms by (auto simp: base_ok_def info_ok_def dest!: map_of_SomeD)

lemma base_ok_Nil [simp]: "base_ok []"
  by (simp add: base_ok_def)

lemma base_ok_put: "base_ok m \<Longrightarrow> info_ok info \<Longrightarrow> base_ok (put_info info m)"
  by (auto simp: base_ok_def put_info_def map_of_in_set split: if_splits)

lemma base_ok_fold: "base_ok m \<Longrightarrow> list_all info_ok infos \<Longrightarrow> base_ok (fold put_info infos m)"
  by (induction infos arbitrary: m) (auto intro: base_ok_put)

lemma base_ok_set:
  assumes "CTradeBaseInfo_set p tb = Inr tb'" "list_all info_ok (bi_instr p)"
  shows "base_ok (tb_instr_info tb')"
  using assms
  by (auto simp: CTradeBaseInfo_set_def list_all_iff split: if_splits
      intro!: base_ok_fold dest!: in_set_takeD)

text \<open>A table sent and received is the same table.\<close>

lemma fold_put_info_append:
  "distinct (map fst m @ map fst n) \<Longrightarrow> \<forall>(h, info) \<in> set n. h = ii_instr_hash info \<Longrightarrow>
   fold put_info (map snd n) m = m @ n"
proof (induction n arbitrary: m)
  case (Cons e n)
  obtain h info where e: "e = (h, info)" by (cases e)
  with Cons.prems have h: "h = ii_instr_hash info" and new: "h \<notin> fst ` set m" by auto
  have up: "put_info info m = m @ [(h, info)]"
    using new unfolding put_info_def h [symmetric] by (induction m) auto
  have "fold put_info (map snd n) (m @ [(h, info)]) = (m @ [(h, info)]) @ n"
    by (rule Cons.IH) (use Cons.prems e in auto)
  with e up show ?case by simp
qed simp

lemma set_toSysIOStruct:
  assumes "base_ok (tb_instr_info tb)" "length (tb_trading_day tb) \<le> 11"
    "CHR 0x00 \<notin> set (tb_trading_day tb)"
  shows "CTradeBaseInfo_set (snd (CTradeBaseInfo_toSysIOStruct to source bw tb)) tb0 =
     Inr (tb0\<lparr>tb_trading_day := tb_trading_day tb, tb_instr_info := tb_instr_info tb,
              tb_is_init := True\<rparr>)"
proof -
  have day: "take 11 (c_str (tb_trading_day tb)) = tb_trading_day tb"
  proof -
    have "c_str (tb_trading_day tb) = tb_trading_day tb"
      using assms(3) unfolding c_str_def by (intro takeWhile_eq_all_conv [THEN iffD2]) auto
    with assms(2) show ?thesis by simp
  qed
  have "fold put_info (map snd (tb_instr_info tb)) [] = tb_instr_info tb"
    using fold_put_info_append [of "[]" "tb_instr_info tb"] assms(1)
    by (auto simp: base_ok_def um_ok_def)
  with day show ?thesis by (simp add: CTradeBaseInfo_set_def CTradeBaseInfo_toSysIOStruct_def)
qed

section \<open>Exchanges\<close>

definition EXCHANGEID_SSE :: int where "EXCHANGEID_SSE = 100"
definition EXCHANGEID_SZE :: int where "EXCHANGEID_SZE = 101"
definition EXCHANGEID_CFFEX :: int where "EXCHANGEID_CFFEX = 102"
definition EXCHANGEID_SHFE :: int where "EXCHANGEID_SHFE = 103"
definition EXCHANGEID_DCE :: int where "EXCHANGEID_DCE = 104"
definition EXCHANGEID_CZCE :: int where "EXCHANGEID_CZCE = 105"
definition EXCHANGEID_INE :: int where "EXCHANGEID_INE = 106"
definition EXCHANGEID_SGE :: int where "EXCHANGEID_SGE = 107"

lemmas exchange_defs =
  EXCHANGEID_SSE_def EXCHANGEID_SZE_def EXCHANGEID_CFFEX_def EXCHANGEID_SHFE_def
  EXCHANGEID_DCE_def EXCHANGEID_CZCE_def EXCHANGEID_INE_def EXCHANGEID_SGE_def

definition exchangeStr2int :: "string \<Rightarrow> int" where
  "exchangeStr2int exch =
     (if exch = ''SSE'' then EXCHANGEID_SSE
      else if exch = ''SZE'' then EXCHANGEID_SZE
      else if exch = ''CFFEX'' then EXCHANGEID_CFFEX
      else if exch = ''SHFE'' then EXCHANGEID_SHFE
      else if exch = ''DCE'' then EXCHANGEID_DCE
      else if exch = ''CZCE'' then EXCHANGEID_CZCE
      else if exch = ''INE'' then EXCHANGEID_INE
      else if exch = ''SGE'' then EXCHANGEID_SGE
      else -1)"

definition exchangeint2str :: "int \<Rightarrow> string option" where
  "exchangeint2str exch =
     (if exch = EXCHANGEID_SSE then Some ''SSE''
      else if exch = EXCHANGEID_SZE then Some ''SZE''
      else if exch = EXCHANGEID_CFFEX then Some ''CFFEX''
      else if exch = EXCHANGEID_SHFE then Some ''SHFE''
      else if exch = EXCHANGEID_DCE then Some ''DCE''
      else if exch = EXCHANGEID_CZCE then Some ''CZCE''
      else if exch = EXCHANGEID_INE then Some ''INE''
      else if exch = EXCHANGEID_SGE then Some ''SGE''
      else None)"

lemma exchange_int_str_iff: "exchangeint2str e = Some s \<longleftrightarrow> exchangeStr2int s = e \<and> e \<noteq> -1"
  by (auto simp: exchangeint2str_def exchangeStr2int_def exchange_defs)

end
