(* ===== verification/Bars.thy ===== *)
theory Bars
  imports Trade_Base
begin

text \<open>
  \<^verbatim>\<open>bar/BarHelper\<close> (seconds since the start of the trading day), \<^verbatim>\<open>bar/Bar2\<close> (one bar while it is
  filled) and \<^verbatim>\<open>bar/BarMaker\<close> (the bars of an instrument for one day). A \<^verbatim>\<open>long\<close> is an \<^typ>\<open>int\<close>;
  the division of C++ truncates (\<open>sdiv\<close>, \<open>smod\<close>).
\<close>

section \<open>BarHelper\<close>

record bar_helper =
  CZCE_nano :: int
  DCE_nano :: int
  SHFE_nano :: int
  CFFEX_nano :: int
  OTHER_nano :: int
  intra_day_base_sec :: int

definition bar_helper_init :: bar_helper where
  "bar_helper_init =
     \<lparr>CZCE_nano = 0, DCE_nano = 0, SHFE_nano = 0, CFFEX_nano = 0, OTHER_nano = 0,
      intra_day_base_sec = 18 * 3600\<rparr>"

definition BarHelper_setIntraDayBaseSec :: "int \<Rightarrow> bar_helper \<Rightarrow> bar_helper" where
  "BarHelper_setIntraDayBaseSec sec bh = bh\<lparr>intra_day_base_sec := sec\<rparr>"

definition BarHelper_getBaseSec :: "bar_helper \<Rightarrow> int \<Rightarrow> int" where
  "BarHelper_getBaseSec bh nano =
     (nano sdiv 1000000000 + 8 * 3600 - intra_day_base_sec bh) sdiv 86400 * 86400 - 8 * 3600 +
       intra_day_base_sec bh"

definition BarHelper_getBaseIntervalFromBjtSec :: "bar_helper \<Rightarrow> int \<Rightarrow> int" where
  "BarHelper_getBaseIntervalFromBjtSec bh bjt_sec =
     (bjt_sec - intra_day_base_sec bh + 86400) smod 86400"

definition BarHelper_getBaseIntervalFromNano :: "bar_helper \<Rightarrow> int \<Rightarrow> int" where
  "BarHelper_getBaseIntervalFromNano bh nano =
     nano sdiv 1000000000 - BarHelper_getBaseSec bh nano"

section \<open>Bar2\<close>

record bar =
  b_instr_hash :: u32
  b_instr_str :: string
  b_cycle_sec :: int
  b_bob :: int
  b_eob :: int
  b_open :: double
  b_high :: double
  b_low :: double
  b_close :: double
  b_delta_close :: double
  b_cum_vol :: int
  b_vol :: int
  b_cum_turnover :: double
  b_turnover :: double
  b_open_int :: double
  b_delta_open_int :: double
  b_is_auction :: bool

record bar2 = bar +
  adjust_bob :: int
  adjust_eob :: int
  b_base_sec :: int
  pre_base_sec :: int
  pre_close :: double
  pre_cum_vol :: int
  pre_cum_turnover :: double
  pre_open_int :: double
  settle_sec :: int

text \<open>The member initialisers; \<^verbatim>\<open>-1\<close> wraps to the largest hash.\<close>

definition bar2_init :: bar2 where
  "bar2_init =
     \<lparr>b_instr_hash = -1, b_instr_str = [], b_cycle_sec = 0, b_bob = 0, b_eob = 0, b_open = 0,
      b_high = 0, b_low = 0, b_close = 0, b_delta_close = 0, b_cum_vol = 0, b_vol = 0,
      b_cum_turnover = 0, b_turnover = 0, b_open_int = 0, b_delta_open_int = 0,
      b_is_auction = False, adjust_bob = 0, adjust_eob = 0, b_base_sec = 0, pre_base_sec = 0,
      pre_close = 0, pre_cum_vol = 0, pre_cum_turnover = 0, pre_open_int = 0, settle_sec = 0\<rparr>"

definition Bar2_isInCurBar :: "int \<Rightarrow> bar2 \<Rightarrow> int" where
  "Bar2_isInCurBar base_sec_interval b =
     (if adjust_bob b \<le> base_sec_interval \<and> base_sec_interval < adjust_eob b then 0
      else if adjust_eob b \<le> base_sec_interval then 1
      else -1)"

definition Bar2_isNeedUpdateOpen :: "bar_helper \<Rightarrow> market_data \<Rightarrow> bar2 \<Rightarrow> bool" where
  "Bar2_isNeedUpdateOpen bh u b =
     (if b_is_auction b then
        (let sec = BarHelper_getBaseIntervalFromNano bh (md_exch_time u)
         in b_bob b \<le> sec \<and> sec < b_eob b)
      else b_open b = 0)"

definition Bar2_isNeedUpdatePre :: "bar2 \<Rightarrow> bool" where
  "Bar2_isNeedUpdatePre b = (pre_close b = 0)"

definition Bar2_isNeedUpdateOhlc :: "bar_helper \<Rightarrow> market_data \<Rightarrow> bar2 \<Rightarrow> bool" where
  "Bar2_isNeedUpdateOhlc bh u b =
     (let sec = BarHelper_getBaseIntervalFromNano bh (md_exch_time u)
      in b_bob b \<le> sec \<and> sec < b_eob b \<or> settle_sec b \<noteq> 0 \<and> sec = settle_sec b)"

definition Bar2_isNeedSettle :: "bar_helper \<Rightarrow> market_data \<Rightarrow> bar2 \<Rightarrow> bool" where
  "Bar2_isNeedSettle bh u b =
     (let sec = BarHelper_getBaseIntervalFromNano bh (md_exch_time u)
      in if b_is_auction b then b_bob b \<le> sec \<and> sec < b_eob b
         else settle_sec b \<noteq> 0 \<and> sec = settle_sec b)"

definition Bar2_updateOpen :: "market_data \<Rightarrow> bar2 \<Rightarrow> bar2" where
  "Bar2_updateOpen u b = b\<lparr>b_open := md_last_px u\<rparr>"

definition Bar2_updateBar :: "bar_helper \<Rightarrow> market_data \<Rightarrow> bar2 \<Rightarrow> bar2" where
  "Bar2_updateBar bh u b =
     b\<lparr>b_high := (if md_last_px u > b_high b then md_last_px u else b_high b),
       b_low := (if md_last_px u < b_low b \<or> b_low b = 0 then md_last_px u else b_low b),
       b_close := md_last_px u, b_cum_vol := md_cum_vol u, b_cum_turnover := md_cum_turnover u,
       b_open_int := md_open_interest u,
       b_base_sec := (if b_base_sec b = 0 then BarHelper_getBaseSec bh (md_exch_time u)
                      else b_base_sec b)\<rparr>"

definition Bar2_updatePre :: "bar_helper \<Rightarrow> market_data \<Rightarrow> bar2 \<Rightarrow> bar2" where
  "Bar2_updatePre bh u b =
     b\<lparr>pre_base_sec := BarHelper_getBaseSec bh (md_exch_time u), pre_close := md_last_px u,
       pre_cum_vol := md_cum_vol u, pre_cum_turnover := md_cum_turnover u,
       pre_open_int := md_open_interest u\<rparr>"

definition Bar2_settle :: "bar_helper \<Rightarrow> market_data \<Rightarrow> bar2 \<Rightarrow> bar2" where
  "Bar2_settle bh u b =
     (let b1 = (if b_open b = 0 then
                  b\<lparr>b_open := pre_close b, b_high := pre_close b, b_low := pre_close b,
                    b_close := pre_close b, b_cum_vol := pre_cum_vol b,
                    b_cum_turnover := pre_cum_turnover b, b_open_int := pre_open_int b,
                    b_base_sec := BarHelper_getBaseSec bh (md_exch_time u)\<rparr>
                else b)
      in b1\<lparr>b_delta_close := b_close b1 - pre_close b1, b_vol := b_cum_vol b1 - pre_cum_vol b1,
            b_turnover := b_cum_turnover b1 - pre_cum_turnover b1,
            b_delta_open_int := b_open_int b1 - pre_open_int b1,
            b_bob := (b_bob b1 + b_base_sec b1) * 1000000000,
            b_eob := (b_eob b1 + b_base_sec b1) * 1000000000\<rparr>)"

section \<open>The trading periods of a product\<close>

record time_span =
  bgn_sec :: int
  end_sec :: int
  ts_is_auction :: bool

definition mk_span :: "bar_helper \<Rightarrow> int \<Rightarrow> int \<Rightarrow> bool \<Rightarrow> time_span" where
  "mk_span bh b e auction =
     \<lparr>bgn_sec = BarHelper_getBaseIntervalFromBjtSec bh b,
      end_sec = BarHelper_getBaseIntervalFromBjtSec bh e, ts_is_auction = auction\<rparr>"

definition day_spans :: "bar_helper \<Rightarrow> time_span list" where
  "day_spans bh =
     [mk_span bh (8 * 3600 + 59 * 60) (9 * 3600) True,
      mk_span bh (9 * 3600) (10 * 3600 + 15 * 60) False,
      mk_span bh (10 * 3600 + 30 * 60) (11 * 3600 + 30 * 60) False,
      mk_span bh (13 * 3600 + 30 * 60) (15 * 3600) False]"

definition night_spans :: "bar_helper \<Rightarrow> int \<Rightarrow> time_span list" where
  "night_spans bh e =
     [mk_span bh (20 * 3600 + 59 * 60) (21 * 3600) True, mk_span bh (21 * 3600) e False]"

definition BarMaker_getTradingTimespan :: "bar_helper \<Rightarrow> string \<Rightarrow> time_span list" where
  "BarMaker_getTradingTimespan bh prd =
     (if prd \<in> set [''IC'', ''IF'', ''IH''] then
        [mk_span bh (9 * 3600 + 29 * 60) (9 * 3600 + 30 * 60) True,
         mk_span bh (9 * 3600 + 30 * 60) (11 * 3600 + 30 * 60) False,
         mk_span bh (13 * 3600) (15 * 3600) False]
      else if prd \<in> set [''T'', ''TF'', ''TS''] then
        [mk_span bh (9 * 3600 + 14 * 60) (9 * 3600 + 15 * 60) True,
         mk_span bh (9 * 3600 + 15 * 60) (11 * 3600 + 30 * 60) False,
         mk_span bh (13 * 3600) (15 * 3600 + 15 * 60) False]
      else if prd \<in> set [''AP'', ''JR'', ''LR'', ''PM'', ''RI'', ''RS'', ''SF'', ''SM'', ''WH'',
          ''bb'', ''c'', ''cs'', ''fb'', ''jd'', ''l'', ''pp'', ''v'', ''fu'', ''wr''] then
        day_spans bh
      else if prd \<in> set [''CF'', ''CY'', ''FG'', ''MA'', ''OI'', ''RM'', ''SR'', ''TA'', ''ZC'',
          ''a'', ''b'', ''i'', ''j'', ''jm'', ''m'', ''p'', ''y''] then
        night_spans bh (23 * 3600 + 30 * 60) @ day_spans bh
      else if prd \<in> set [''bu'', ''hc'', ''rb'', ''ru''] then
        night_spans bh (23 * 3600) @ day_spans bh
      else if prd \<in> set [''al'', ''cu'', ''ni'', ''pb'', ''sn'', ''zn''] then
        night_spans bh (1 * 3600) @ day_spans bh
      else if prd \<in> set [''ag'', ''au'', ''sc''] then
        night_spans bh (2 * 3600 + 30 * 60) @ day_spans bh
      else [\<lparr>bgn_sec = 0, end_sec = 24 * 3600 - 1, ts_is_auction = False\<rparr>])"

definition BarMaker_isEobOverlap :: "int \<Rightarrow> time_span list \<Rightarrow> bool" where
  "BarMaker_isEobOverlap e spans = list_ex (\<lambda>ts. end_sec ts = e) spans"

section \<open>The bars of a day\<close>

definition AT_INT_DAILY_CYCLE :: int where "AT_INT_DAILY_CYCLE = -10"
definition AT_INT_SESSION_CYCLE :: int where "AT_INT_SESSION_CYCLE = -20"

definition getDailyCycle :: int where "getDailyCycle = AT_INT_DAILY_CYCLE"
definition getSessionCycle :: int where "getSessionCycle = AT_INT_SESSION_CYCLE"

text \<open>\<^verbatim>\<open>Bar2 bar, bar2\<close> with the data of the instrument.\<close>

definition fresh_bar :: "instrument_info \<Rightarrow> int \<Rightarrow> bar2" where
  "fresh_bar info cycle_sec =
     bar2_init\<lparr>b_cycle_sec := cycle_sec, b_instr_hash := ii_instr_hash info,
       b_instr_str := take 31 (ii_instr info)\<rparr>"

definition settle_before :: "instrument_info \<Rightarrow> int \<Rightarrow> int" where
  "settle_before info eob = (if ii_exch info = EXCHANGEID_CZCE then eob - 1 else eob)"

text \<open>One bar for the day: the first loop; \<open>first\<close> says whether the iterator is at the begin.\<close>

fun daily_bar :: "instrument_info \<Rightarrow> bool \<Rightarrow> time_span list \<Rightarrow> bar2 \<Rightarrow> bar2" where
  "daily_bar info first [] b = b"
| "daily_bar info first (ts # spans) b =
     (let b1 = (if first then b\<lparr>b_bob := bgn_sec ts, adjust_bob := 0\<rparr> else b);
          b2 = b1\<lparr>b_eob := end_sec ts, adjust_eob := end_sec ts + 1,
                  settle_sec := settle_before info (end_sec ts)\<rparr>
      in daily_bar info False spans b2)"

text \<open>One bar for each period: the second loop.\<close>

fun session_bars :: "instrument_info \<Rightarrow> bool \<Rightarrow> time_span list \<Rightarrow> bar2 \<Rightarrow> bar2 list \<Rightarrow> bar2 list" where
  "session_bars info first [] b vec = vec"
| "session_bars info first (ts # spans) b vec =
     (let b1 = b\<lparr>b_bob := bgn_sec ts, adjust_bob := (if first then 0 else bgn_sec ts),
                 b_eob := end_sec ts,
                 adjust_eob := (if ts_is_auction ts then end_sec ts else end_sec ts + 1),
                 settle_sec := settle_before info (end_sec ts),
                 b_is_auction := ts_is_auction ts\<rparr>
      in session_bars info False spans b1 (vec @ [b1]))"

text \<open>
  The \<^verbatim>\<open>while\<close> loop that cuts a period into cycles; with a cycle that is not positive it does not
  end, so it has fuel.
\<close>

fun fill_span :: "nat \<Rightarrow> int \<Rightarrow> int \<Rightarrow> bar2 \<Rightarrow> bar2 list \<Rightarrow> (bar2 \<times> bar2 list) res" where
  "fill_span 0 c e b vec = Inl OutOfFuel"
| "fill_span (Suc n) c e b vec =
     (if b_bob b < e \<and> b_eob b \<le> e then
        (let b1 = b\<lparr>b_is_auction := False\<rparr>
         in fill_span n c e (b1\<lparr>b_bob := b_eob b1, b_eob := b_eob b1 + c\<rparr>) (vec @ [b1]))
      else Inr (b, vec))"

fun cycle_bars ::
    "nat \<Rightarrow> int \<Rightarrow> time_span list \<Rightarrow> bar2 \<Rightarrow> bar2 \<Rightarrow> int \<Rightarrow> bar2 list \<Rightarrow> (bar2 \<times> int \<times> bar2 list) res" where
  "cycle_bars fuel c [] b b2 leave vec = Inr (b, leave, vec)"
| "cycle_bars fuel c (ts # spans) b b2 leave vec =
     (if ts_is_auction ts then
        (let a = b2\<lparr>b_bob := bgn_sec ts, b_eob := end_sec ts, b_is_auction := True\<rparr>
         in cycle_bars fuel c spans b a leave (vec @ [a]))
      else
        (let b1 = (if leave = 0 then b\<lparr>b_bob := bgn_sec ts, b_eob := bgn_sec ts + c\<rparr>
                   else b\<lparr>b_eob := bgn_sec ts + leave\<rparr>)
         in res_bind (fill_span fuel c (end_sec ts) b1 vec) (\<lambda>(b3, vec1).
              cycle_bars fuel c spans b3 b2
                (if b_bob b3 \<noteq> end_sec ts then b_eob b3 - end_sec ts else leave) vec1)))"

definition adjust_bar :: "time_span list \<Rightarrow> bool \<Rightarrow> bar2 \<Rightarrow> bar2" where
  "adjust_bar spans first b =
     (if b_is_auction b then
        b\<lparr>adjust_bob := (if first then 0 else b_bob b - 2 * 3600), adjust_eob := b_eob b,
          settle_sec := b_eob b\<rparr>
      else if BarMaker_isEobOverlap (b_eob b) spans then
        b\<lparr>adjust_bob := b_bob b, adjust_eob := b_eob b + 1, settle_sec := b_eob b\<rparr>
      else b\<lparr>adjust_bob := b_bob b, adjust_eob := b_eob b\<rparr>)"

definition adjust_bars :: "time_span list \<Rightarrow> bar2 list \<Rightarrow> bar2 list" where
  "adjust_bars spans vec =
     (case vec of [] \<Rightarrow> [] | b # bs \<Rightarrow> adjust_bar spans True b # map (adjust_bar spans False) bs)"

definition BarMaker_generateVecBar ::
    "nat \<Rightarrow> bar_helper \<Rightarrow> instrument_info \<Rightarrow> int \<Rightarrow> bar2 list res" where
  "BarMaker_generateVecBar fuel bh info cycle_sec =
     (let bar = fresh_bar info cycle_sec; spans = BarMaker_getTradingTimespan bh (ii_product info) in
      if cycle_sec = AT_INT_DAILY_CYCLE then
        Inr [(daily_bar info True spans bar)\<lparr>b_is_auction := False\<rparr>]
      else if cycle_sec = AT_INT_SESSION_CYCLE then Inr (session_bars info True spans bar [])
      else res_bind (cycle_bars fuel cycle_sec spans bar bar 0 []) (\<lambda>(b, leave, vec).
        Inr (adjust_bars spans
          (if leave > 0 then vec @ [b\<lparr>b_eob := b_eob b - leave, b_is_auction := False\<rparr>] else vec))))"

section \<open>BarMaker\<close>

text \<open>The static member that \<^verbatim>\<open>p_exch_nano\<close> points to.\<close>

datatype exch_slot = SlotCZCE | SlotDCE | SlotSHFE | SlotCFFEX | SlotOTHER

record bar_maker =
  bm_instr :: string
  bm_instr_hash :: u32
  bm_cycle_sec :: int
  vec_bar :: "bar2 list"
  bar_idx :: int
  rtn_bar_idx :: int
  last_umd :: market_data
  p_exch_nano :: exch_slot

definition exch_slot_of :: "int \<Rightarrow> exch_slot" where
  "exch_slot_of exch =
     (if exch = EXCHANGEID_CZCE then SlotCZCE
      else if exch = EXCHANGEID_DCE then SlotDCE
      else if exch = EXCHANGEID_SHFE then SlotSHFE
      else if exch = EXCHANGEID_CFFEX then SlotCFFEX
      else SlotOTHER)"

definition BarMaker_new :: "nat \<Rightarrow> bar_helper \<Rightarrow> instrument_info \<Rightarrow> int \<Rightarrow> bar_maker res" where
  "BarMaker_new fuel bh info cycle_sec =
     res_bind (BarMaker_generateVecBar fuel bh info cycle_sec) (\<lambda>vec.
       Inr \<lparr>bm_instr = ii_instr info, bm_instr_hash = ii_instr_hash info, bm_cycle_sec = cycle_sec,
            vec_bar = vec, bar_idx = -1, rtn_bar_idx = -1, last_umd = market_data_init,
            p_exch_nano = exch_slot_of (ii_exch info)\<rparr>)"

text \<open>\<^verbatim>\<open>if (p_umd->exch_time > *p_exch_nano) *p_exch_nano = p_umd->exch_time\<close>\<close>

definition exch_nano_max :: "exch_slot \<Rightarrow> int \<Rightarrow> bar_helper \<Rightarrow> bar_helper" where
  "exch_nano_max slot t bh =
     (case slot of
        SlotCZCE \<Rightarrow> bh\<lparr>CZCE_nano := max (CZCE_nano bh) t\<rparr>
      | SlotDCE \<Rightarrow> bh\<lparr>DCE_nano := max (DCE_nano bh) t\<rparr>
      | SlotSHFE \<Rightarrow> bh\<lparr>SHFE_nano := max (SHFE_nano bh) t\<rparr>
      | SlotCFFEX \<Rightarrow> bh\<lparr>CFFEX_nano := max (CFFEX_nano bh) t\<rparr>
      | SlotOTHER \<Rightarrow> bh\<lparr>OTHER_nano := max (OTHER_nano bh) t\<rparr>)"

definition put_bar :: "int \<Rightarrow> (bar2 \<Rightarrow> bar2) \<Rightarrow> bar_maker \<Rightarrow> bar_maker" where
  "put_bar k f m =
     m\<lparr>vec_bar := (vec_bar m)[nat k := f (vec_bar m ! nat k)]\<rparr>"

text \<open>A tick in the current bar.\<close>

definition tick_in_bar :: "bar_helper \<Rightarrow> market_data \<Rightarrow> bar2 \<Rightarrow> bar2" where
  "tick_in_bar bh u b =
     (let b1 = (if Bar2_isNeedUpdateOpen bh u b then Bar2_updateOpen u b else b);
          b2 = (if Bar2_isNeedUpdatePre b1 then Bar2_updatePre bh u b1 else b1)
      in if Bar2_isNeedUpdateOhlc bh u b2 then Bar2_updateBar bh u b2 else b2)"

text \<open>
  The \<^verbatim>\<open>while (true)\<close> of \<^verbatim>\<open>OnTick\<close>; only the branch of a later bar goes round again, with a larger
  index.
\<close>

definition later_bar :: "bar_helper \<Rightarrow> market_data \<Rightarrow> bar_maker \<Rightarrow> bar_maker" where
  "later_bar bh u m =
     (let m1 = m\<lparr>bar_idx := bar_idx m + 1\<rparr>
      in if md_instr_hash (last_umd m1) \<noteq> 0
         then put_bar (bar_idx m1) (Bar2_updatePre bh (last_umd m1)) m1 else m1)"

lemma later_bar_sel [simp]:
  "length (vec_bar (later_bar bh u m)) = length (vec_bar m)"
  "bar_idx (later_bar bh u m) = bar_idx m + 1"
  by (simp_all add: later_bar_def put_bar_def Let_def)

lemma put_bar_sel [simp]:
  "length (vec_bar (put_bar k f m)) = length (vec_bar m)"
  "bar_idx (put_bar k f m) = bar_idx m" "last_umd (put_bar k f m) = last_umd m"
  "rtn_bar_idx (put_bar k f m) = rtn_bar_idx m"
  by (simp_all add: put_bar_def)

definition in_cur_bar :: "bar_helper \<Rightarrow> market_data \<Rightarrow> bar_maker \<Rightarrow> bar_maker" where
  "in_cur_bar bh u m =
     (let m1 = put_bar (bar_idx m) (tick_in_bar bh u) m in
      if Bar2_isNeedSettle bh u (vec_bar m1 ! nat (bar_idx m1)) then
        (let m2 = put_bar (bar_idx m1) (Bar2_settle bh u) m1;
             m3 = m2\<lparr>bar_idx := bar_idx m2 + 1\<rparr>
         in if bar_idx m3 < int (length (vec_bar m3))
            then put_bar (bar_idx m3) (Bar2_updatePre bh u) m3 else m3)
      else m1)"

function tick_loop :: "bar_helper \<Rightarrow> int \<Rightarrow> market_data \<Rightarrow> bar_maker \<Rightarrow> bar_maker" where
  "tick_loop bh sec u m =
     (let pos = Bar2_isInCurBar sec (vec_bar m ! nat (bar_idx m)) in
      if pos = 0 then in_cur_bar bh u m
      else if pos = 1 then
        (let m1 = put_bar (bar_idx m) (Bar2_settle bh u) m in
         if bar_idx m1 < int (length (vec_bar m1)) - 1
         then tick_loop bh sec u (later_bar bh u m1) else m1)
      else put_bar (bar_idx m) (Bar2_updatePre bh u) m)"
  by pat_completeness auto

termination
  by (relation "measure (\<lambda>(bh, sec, u, m). nat (int (length (vec_bar m)) - bar_idx m))") auto

declare tick_loop.simps [simp del]

definition BarMaker_OnTick :: "market_data \<Rightarrow> bar_helper \<times> bar_maker \<Rightarrow> bar_helper \<times> bar_maker" where
  "BarMaker_OnTick u s =
     (case s of (bh, m) \<Rightarrow>
        if md_instr_hash u \<noteq> bm_instr_hash m then (bh, m)
        else (let bh1 = exch_nano_max (p_exch_nano m) (md_exch_time u) bh;
                  m1 = (if bar_idx m = -1 then m\<lparr>bar_idx := 0\<rparr> else m)
              in if bar_idx m1 \<ge> int (length (vec_bar m1)) then (bh1, m1)
                 else (bh1, (tick_loop bh1 (BarHelper_getBaseIntervalFromNano bh1 (md_exch_time u)) u m1)
                              \<lparr>last_umd := u\<rparr>)))"

text \<open>\<^verbatim>\<open>OnFinish\<close> settles every bar that is left, with the last tick.\<close>

definition BarMaker_OnFinish :: "bar_helper \<Rightarrow> bar_maker \<Rightarrow> bar_maker" where
  "BarMaker_OnFinish bh m =
     (let m1 = (if bar_idx m = -1 then m\<lparr>bar_idx := 0\<rparr> else m);
          n = nat (bar_idx m1)
      in m1\<lparr>vec_bar := take n (vec_bar m1) @ map (Bar2_settle bh (last_umd m1)) (drop n (vec_bar m1)),
            bar_idx := max (bar_idx m1) (int (length (vec_bar m1)))\<rparr>)"

text \<open>
  \<^verbatim>\<open>GetBar\<close>: the loop runs up to the current bar and keeps the last bar it saw, or null where that
  one never opened.
\<close>

function get_bar_loop :: "bar_maker \<Rightarrow> bar2 option \<Rightarrow> bar2 option \<times> bar_maker" where
  "get_bar_loop m p =
     (if rtn_bar_idx m < bar_idx m then
        (let p1 = (if rtn_bar_idx m \<noteq> -1 then
                     (let b = vec_bar m ! nat (rtn_bar_idx m)
                      in if b_open b = 0 then None else Some b)
                   else p)
         in get_bar_loop (m\<lparr>rtn_bar_idx := rtn_bar_idx m + 1\<rparr>) p1)
      else (p, m))"
  by pat_completeness auto

termination
  by (relation "measure (\<lambda>(m, p). nat (bar_idx m - rtn_bar_idx m))") auto

declare get_bar_loop.simps [simp del]

definition BarMaker_GetBar :: "bar_maker \<Rightarrow> bar2 option \<times> bar_maker" where
  "BarMaker_GetBar m = get_bar_loop m None"

definition BarMaker_getCycle :: "bar_maker \<Rightarrow> int" where
  "BarMaker_getCycle m = bm_cycle_sec m"

definition BarMaker_getInstr :: "bar_maker \<Rightarrow> string" where
  "BarMaker_getInstr m = bm_instr m"

end
