(* ===== verification/Bar_Properties.thy ===== *)
theory Bar_Properties
  imports Bars
begin

text \<open>
  Correctness of the bars: the clock within the trading day, the cutting of the periods into bars,
  the prices of a bar as extrema of its ticks, and the finality of bars behind the current one.
  The last section states where the code goes wrong: cycles that do not divide the periods, ticks
  after the last bar, and several bars settled by one tick.
\<close>

section \<open>The clock of the day\<close>

lemma sdiv_pos:
  assumes "0 \<le> a" "0 < b"
  shows "a sdiv b = (a div b :: int)"
proof (cases "a = 0")
  case False
  with assms have "sgn a = 1" "sgn b = 1" by simp_all
  with assms show ?thesis by (simp add: signed_divide_int_def)
qed (simp add: signed_divide_int_def)

lemma smod_pos:
  assumes "0 \<le> a" "0 < b"
  shows "a smod b = (a mod b :: int)"
proof (cases "a = 0")
  case False
  with assms have "sgn a = 1" by simp
  with assms show ?thesis by (simp add: signed_modulo_int_def)
qed (simp add: signed_modulo_int_def)

lemma interval_from_nano:
  assumes "0 \<le> nano" "intra_day_base_sec bh \<le> nano div 1000000000 + 8 * 3600"
  shows "BarHelper_getBaseIntervalFromNano bh nano =
     (nano div 1000000000 + 8 * 3600 - intra_day_base_sec bh) mod 86400"
  using assms
  by (simp add: BarHelper_getBaseIntervalFromNano_def BarHelper_getBaseSec_def sdiv_pos
      minus_div_mult_eq_mod [symmetric])

text \<open>
  The interval of a moment is the interval of its time of day in Beijing, for a start of the
  trading day within the day, and lies within one day.
\<close>

theorem interval_agrees:
  assumes "86400000000000 \<le> nano" "0 \<le> intra_day_base_sec bh" "intra_day_base_sec bh \<le> 86400"
  shows "BarHelper_getBaseIntervalFromNano bh nano =
       BarHelper_getBaseIntervalFromBjtSec bh ((nano div 1000000000 + 8 * 3600) mod 86400) \<and>
     BarHelper_getBaseIntervalFromNano bh nano \<in> {0..<86400}"
proof -
  have n: "86400 \<le> nano div 1000000000" using assms(1) by linarith
  have i: "BarHelper_getBaseIntervalFromNano bh nano =
      (nano div 1000000000 + 8 * 3600 - intra_day_base_sec bh) mod 86400"
    using interval_from_nano [of nano bh] assms n by linarith
  have nn: "0 \<le> (nano div 1000000000 + 8 * 3600) mod 86400 - intra_day_base_sec bh + 86400"
    using assms(3) pos_mod_sign [of 86400 "nano div 1000000000 + 8 * 3600"] by linarith
  have "BarHelper_getBaseIntervalFromBjtSec bh ((nano div 1000000000 + 8 * 3600) mod 86400) =
      ((nano div 1000000000 + 8 * 3600) mod 86400 - intra_day_base_sec bh + 86400) mod 86400"
    unfolding BarHelper_getBaseIntervalFromBjtSec_def using nn by (simp add: smod_pos)
  also have "\<dots> = (nano div 1000000000 + 8 * 3600 - intra_day_base_sec bh) mod 86400"
    by (simp add: mod_diff_left_eq)
  finally show ?thesis using i by simp
qed

theorem interval_agrees_witness:
  "BarHelper_getBaseIntervalFromNano bar_helper_init 1558058400000000000 =
       BarHelper_getBaseIntervalFromBjtSec bar_helper_init
         ((1558058400000000000 div 1000000000 + 8 * 3600) mod 86400) \<and>
     BarHelper_getBaseIntervalFromNano bar_helper_init 1558058400000000000 \<in> {0..<86400}"
  by (rule interval_agrees) (simp_all add: bar_helper_init_def)

section \<open>Cutting the periods\<close>

definition bar_times :: "bar2 list \<Rightarrow> (int \<times> int) list" where
  "bar_times vec = map (\<lambda>b. (b_bob b, b_eob b)) vec"

text \<open>A period cut into cycles.\<close>

definition cut :: "int \<Rightarrow> int \<Rightarrow> nat \<Rightarrow> (int \<times> int) list" where
  "cut c from n = map (\<lambda>k. (from + int k * c, from + int (Suc k) * c)) [0..<n]"

definition span_times :: "int \<Rightarrow> time_span \<Rightarrow> (int \<times> int) list" where
  "span_times c ts =
     (if ts_is_auction ts then [(bgn_sec ts, end_sec ts)]
      else cut c (bgn_sec ts) (nat ((end_sec ts - bgn_sec ts) div c)))"

definition span_fits :: "nat \<Rightarrow> int \<Rightarrow> time_span \<Rightarrow> bool" where
  "span_fits fuel c ts \<longleftrightarrow> ts_is_auction ts \<or>
     bgn_sec ts \<le> end_sec ts \<and> c dvd (end_sec ts - bgn_sec ts) \<and>
     nat ((end_sec ts - bgn_sec ts) div c) < fuel"

lemma cut_Suc: "cut c from (Suc n) = (from, from + c) # cut c (from + c) n"
  by (simp add: cut_def upt_conv_Cons del: upt_Suc)
    (simp add: map_Suc_upt [symmetric] algebra_simps del: upt_Suc)

lemma fill_span_exact:
  "0 < c \<Longrightarrow> b_eob b = b_bob b + c \<Longrightarrow> e = b_bob b + int n * c \<Longrightarrow> n < fuel \<Longrightarrow>
   \<exists>b1 vs. fill_span fuel c e b vec = Inr (b1, vec @ vs) \<and> b_bob b1 = e \<and>
     bar_times vs = cut c (b_bob b) n"
proof (induction n arbitrary: b vec fuel)
  case 0
  then obtain f where "fuel = Suc f" by (cases fuel) auto
  with 0 show ?case by (simp add: bar_times_def cut_def)
next
  case (Suc n)
  then obtain f where f: "fuel = Suc f" "n < f" by (cases fuel) auto
  have go: "b_bob b < e \<and> b_eob b \<le> e"
    using Suc.prems(1,2,3) by (simp add: algebra_simps add_pos_nonneg)
  let ?b = "b\<lparr>b_is_auction := False\<rparr>"
  let ?b2 = "?b\<lparr>b_bob := b_eob b, b_eob := b_eob b + c\<rparr>"
  obtain b1 vs where r: "fill_span f c e ?b2 (vec @ [?b]) = Inr (b1, (vec @ [?b]) @ vs)"
    "b_bob b1 = e" "bar_times vs = cut c (b_eob b) n"
    using Suc.IH [of ?b2 f "vec @ [?b]"] Suc.prems f(2) by (auto simp: algebra_simps)
  have "fill_span fuel c e b vec = Inr (b1, vec @ (?b # vs))"
    using r(1) go f(1) by simp
  moreover have "bar_times (?b # vs) = cut c (b_bob b) (Suc n)"
    using r(3) Suc.prems(2) by (simp add: cut_Suc) (simp add: bar_times_def)
  ultimately show ?case using r(2) by blast
qed

lemma cycle_bars_exact:
  "0 < c \<Longrightarrow> list_all (span_fits fuel c) spans \<Longrightarrow>
   \<exists>b1 vs. cycle_bars fuel c spans b b2 0 vec = Inr (b1, 0, vec @ vs) \<and>
     bar_times vs = concat (map (span_times c) spans)"
proof (induction spans arbitrary: b b2 vec)
  case (Cons ts spans)
  show ?case
  proof (cases "ts_is_auction ts")
    case True
    let ?a = "b2\<lparr>b_bob := bgn_sec ts, b_eob := end_sec ts, b_is_auction := True\<rparr>"
    obtain b1 vs where r: "cycle_bars fuel c spans b ?a 0 (vec @ [?a]) = Inr (b1, 0, (vec @ [?a]) @ vs)"
      "bar_times vs = concat (map (span_times c) spans)"
      using Cons.IH [of b ?a "vec @ [?a]"] Cons.prems by auto
    have "cycle_bars fuel c (ts # spans) b b2 0 vec = Inr (b1, 0, vec @ (?a # vs))"
      using r(1) True by (simp add: Let_def)
    moreover have "bar_times (?a # vs) = concat (map (span_times c) (ts # spans))"
      using r(2) True by (simp add: span_times_def) (simp add: bar_times_def)
    ultimately show ?thesis by blast
  next
    case False
    let ?n = "nat ((end_sec ts - bgn_sec ts) div c)"
    let ?b = "b\<lparr>b_bob := bgn_sec ts, b_eob := bgn_sec ts + c\<rparr>"
    have fits: "bgn_sec ts \<le> end_sec ts" "c dvd (end_sec ts - bgn_sec ts)" "?n < fuel"
      using Cons.prems(2) False by (auto simp: span_fits_def)
    have "end_sec ts = bgn_sec ts + int ?n * c"
      using fits(1,2) Cons.prems(1) by (simp add: pos_imp_zdiv_nonneg_iff)
    then obtain b1 vs where r: "fill_span fuel c (end_sec ts) ?b vec = Inr (b1, vec @ vs)"
      "b_bob b1 = end_sec ts" "bar_times vs = cut c (bgn_sec ts) ?n"
      using fill_span_exact [OF Cons.prems(1), of ?b "end_sec ts" ?n fuel vec] fits(3) by auto
    obtain b3 ws where q: "cycle_bars fuel c spans b1 b2 0 (vec @ vs) = Inr (b3, 0, (vec @ vs) @ ws)"
      "bar_times ws = concat (map (span_times c) spans)"
      using Cons.IH [of b1 b2 "vec @ vs"] Cons.prems by auto
    have "cycle_bars fuel c (ts # spans) b b2 0 vec = Inr (b3, 0, vec @ (vs @ ws))"
      using r q False by (simp add: Let_def)
    moreover have "bar_times (vs @ ws) = concat (map (span_times c) (ts # spans))"
      using r(3) q(2) False by (simp add: span_times_def) (simp add: bar_times_def)
    ultimately show ?thesis by blast
  qed
qed (simp add: bar_times_def)

lemma adjust_bars_times: "bar_times (adjust_bars spans vec) = bar_times vec"
  by (cases vec) (simp_all add: adjust_bars_def bar_times_def adjust_bar_def)

text \<open>
  C34. Where the cycle divides every continuous period, the bars of the day are exactly the cycles
  of the periods, in order, with one bar for each auction; the loop needs no more steps than the
  longest period has cycles.
\<close>

theorem bars_partition_day:
  assumes "0 < c"
    and "list_all (span_fits fuel c) (BarMaker_getTradingTimespan bh (ii_product info))"
  shows "\<exists>vec. BarMaker_generateVecBar fuel bh info c = Inr vec \<and>
     bar_times vec = concat (map (span_times c) (BarMaker_getTradingTimespan bh (ii_product info)))"
proof -
  let ?bar = "fresh_bar info c" and ?spans = "BarMaker_getTradingTimespan bh (ii_product info)"
  obtain b1 vs where "cycle_bars fuel c ?spans ?bar ?bar 0 [] = Inr (b1, 0, vs)"
    "bar_times vs = concat (map (span_times c) ?spans)"
    using cycle_bars_exact [OF assms, of ?bar ?bar "[]"] by auto
  moreover have "c \<noteq> AT_INT_DAILY_CYCLE" "c \<noteq> AT_INT_SESSION_CYCLE"
    using assms(1) by (simp_all add: AT_INT_DAILY_CYCLE_def AT_INT_SESSION_CYCLE_def)
  ultimately show ?thesis
    by (simp add: BarMaker_generateVecBar_def Let_def adjust_bars_times)
qed

text \<open>An apple contract of the exchange at Zhengzhou, for the concrete cases.\<close>

definition apple :: instrument_info where
  "apple =
     \<lparr>ii_instr_hash = 7, ii_instr = ''AP905'', ii_exch = EXCHANGEID_CZCE, ii_product = ''AP'',
      ii_product_hash = 8, ii_vol_multiple = 10, ii_tick_price = 1, ii_expire_date = ''20190514'',
      ii_is_trading = True\<rparr>"

lemma apple_spans:
  "BarMaker_getTradingTimespan bar_helper_init (ii_product apple) =
     [\<lparr>bgn_sec = 53940, end_sec = 54000, ts_is_auction = True\<rparr>,
      \<lparr>bgn_sec = 54000, end_sec = 58500, ts_is_auction = False\<rparr>,
      \<lparr>bgn_sec = 59400, end_sec = 63000, ts_is_auction = False\<rparr>,
      \<lparr>bgn_sec = 70200, end_sec = 75600, ts_is_auction = False\<rparr>]"
  by (simp add: apple_def BarMaker_getTradingTimespan_def day_spans_def mk_span_def
      BarHelper_getBaseIntervalFromBjtSec_def bar_helper_init_def smod_pos)

theorem bars_partition_day_witness:
  "\<exists>vec. BarMaker_generateVecBar 10 bar_helper_init apple 900 = Inr vec \<and>
     bar_times vec = concat (map (span_times 900)
       (BarMaker_getTradingTimespan bar_helper_init (ii_product apple)))"
  by (rule bars_partition_day) (simp_all add: apple_spans span_fits_def)

text \<open>
  With a cycle of zero the loop that cuts a period that is not empty never ends: no amount of
  fuel is enough.
\<close>

theorem zero_cycle_diverges:
  assumes "b_bob b < e" "b_eob b = b_bob b"
  shows "fill_span fuel 0 e b vec = Inl OutOfFuel"
  using assms
proof (induction fuel arbitrary: b vec)
  case (Suc fuel)
  then show ?case by simp
qed simp

theorem zero_cycle_diverges_witness:
  "fill_span 1000 0 58500 (bar2_init\<lparr>b_bob := 54000, b_eob := 54000\<rparr>) [] = Inl OutOfFuel"
  by (rule zero_cycle_diverges) simp_all

text \<open>
  A cycle that does not divide the periods can leave a bar after the close: with 75 minutes
  the remainder of the second period is used up by the third, but never reset, and one more bar
  runs from the close (75600) an hour on.
\<close>

theorem stale_remainder_bar:
  "map_sum id bar_times (BarMaker_generateVecBar 10 bar_helper_init apple 4500) =
     Inr [(53940, 54000), (54000, 58500), (59400, 71100), (71100, 75600), (75600, 79200)]"
  unfolding BarMaker_generateVecBar_def Let_def apple_spans
  by (simp add: AT_INT_DAILY_CYCLE_def AT_INT_SESSION_CYCLE_def eval_nat_numeral Let_def
      adjust_bars_times) (simp add: bar_times_def)

section \<open>The prices of a bar\<close>

definition tick_sec :: "bar_helper \<Rightarrow> market_data \<Rightarrow> int" where
  "tick_sec bh u = BarHelper_getBaseIntervalFromNano bh (md_exch_time u)"

definition plain_tick :: "bar_helper \<Rightarrow> bar2 \<Rightarrow> market_data \<Rightarrow> bool" where
  "plain_tick bh b u \<longleftrightarrow> 0 < md_last_px u \<and> b_bob b \<le> tick_sec bh u \<and> tick_sec bh u < b_eob b"

definition ohlc_of :: "market_data list \<Rightarrow> bar2 \<Rightarrow> bool" where
  "ohlc_of us b \<longleftrightarrow>
     b_open b = md_last_px (hd us) \<and> b_close b = md_last_px (last us) \<and>
     b_high b = Max (md_last_px ` set us) \<and> b_low b = Min (md_last_px ` set us) \<and>
     b_cum_vol b = md_cum_vol (last us) \<and> b_cum_turnover b = md_cum_turnover (last us) \<and>
     b_open_int b = md_open_interest (last us)"

lemma tick_in_bar_frame [simp]:
  "b_bob (tick_in_bar bh u b) = b_bob b" "b_eob (tick_in_bar bh u b) = b_eob b"
  "b_is_auction (tick_in_bar bh u b) = b_is_auction b"
  by (simp_all add: tick_in_bar_def Let_def Bar2_updateOpen_def Bar2_updatePre_def Bar2_updateBar_def)

lemma tick_in_bar_px:
  assumes "plain_tick bh b u" "\<not> b_is_auction b"
  shows "b_open (tick_in_bar bh u b) = (if b_open b = 0 then md_last_px u else b_open b)"
    "b_high (tick_in_bar bh u b) = max (b_high b) (md_last_px u)"
    "b_low (tick_in_bar bh u b) = (if b_low b = 0 then md_last_px u else min (b_low b) (md_last_px u))"
    "b_close (tick_in_bar bh u b) = md_last_px u"
    "b_cum_vol (tick_in_bar bh u b) = md_cum_vol u"
    "b_cum_turnover (tick_in_bar bh u b) = md_cum_turnover u"
    "b_open_int (tick_in_bar bh u b) = md_open_interest u"
  using assms
  by (auto simp: tick_in_bar_def Let_def Bar2_isNeedUpdateOhlc_def plain_tick_def tick_sec_def
      Bar2_updateOpen_def Bar2_updatePre_def Bar2_updateBar_def Bar2_isNeedUpdateOpen_def)

lemma plain_tick_frame: "plain_tick bh (tick_in_bar bh u b) v = plain_tick bh b v"
  by (simp add: plain_tick_def)

lemma fold_tick_frame [simp]:
  "b_bob (fold (tick_in_bar bh) us b) = b_bob b" "b_eob (fold (tick_in_bar bh) us b) = b_eob b"
  "b_is_auction (fold (tick_in_bar bh) us b) = b_is_auction b"
  by (induction us arbitrary: b) simp_all

text \<open>
  C35. Ticks with positive prices inside a fresh continuous bar leave in it their first price as the
  open, their last as the close, their largest and smallest as the high and the low, and the totals
  of the last tick.
\<close>

theorem bar_holds_ohlc:
  assumes "us \<noteq> []" "list_all (plain_tick bh b) us"
    and "\<not> b_is_auction b" "b_open b = 0" "b_high b = 0" "b_low b = 0"
  shows "ohlc_of us (fold (tick_in_bar bh) us b)"
  using assms
proof (induction us rule: rev_induct)
  case (snoc u us)
  let ?r = "fold (tick_in_bar bh) us b"
  have u: "plain_tick bh ?r u" using snoc.prems(2) by (simp add: plain_tick_def)
  have au: "\<not> b_is_auction ?r" using snoc.prems(3) by simp
  have pu: "0 < md_last_px u" using u by (simp add: plain_tick_def)
  note T = tick_in_bar_px [OF u au]
  show ?case
  proof (cases "us = []")
    case True
    with T snoc.prems pu show ?thesis by (simp add: ohlc_of_def)
  next
    case False
    have IH: "ohlc_of us ?r" using snoc False by simp
    have pos: "0 < md_last_px v" if "v \<in> set us" for v
      using snoc.prems(2) that by (auto simp: list_all_iff plain_tick_def)
    have "0 < md_last_px (hd us)" using pos False by simp
    moreover have "b_low ?r \<noteq> 0"
    proof -
      have "Min (md_last_px ` set us) \<in> md_last_px ` set us" using False by (intro Min_in) auto
      then obtain v where "v \<in> set us" "Min (md_last_px ` set us) = md_last_px v" by blast
      with pos [of v] IH show ?thesis unfolding ohlc_of_def by simp
    qed
    ultimately show ?thesis
      using IH T False by (simp add: ohlc_of_def max.commute min.commute)
  qed
qed simp

definition px_tick :: "double \<Rightarrow> int \<Rightarrow> market_data" where
  "px_tick px v = market_data_init\<lparr>md_last_px := px, md_cum_vol := v,
     md_exch_time := 1558054860000000000\<rparr>"

theorem bar_holds_ohlc_witness:
  "ohlc_of [px_tick 10 1, px_tick 12 3, px_tick 9 4]
     (fold (tick_in_bar bar_helper_init) [px_tick 10 1, px_tick 12 3, px_tick 9 4]
       (bar2_init\<lparr>b_bob := 54000, b_eob := 54900\<rparr>))"
  by (rule bar_holds_ohlc)
    (simp_all add: plain_tick_def tick_sec_def px_tick_def bar2_init_def interval_from_nano
      bar_helper_init_def market_data_init_def)

section \<open>Bars that are done\<close>

lemma put_bar_nth: "j \<noteq> nat k \<Longrightarrow> vec_bar (put_bar k f m) ! j = vec_bar m ! j"
  by (simp add: put_bar_def)

lemma later_bar_nth: "int j < bar_idx m + 1 \<Longrightarrow> vec_bar (later_bar bh u m) ! j = vec_bar m ! j"
  by (simp add: later_bar_def put_bar_nth Let_def)

lemma in_cur_bar_frame:
  assumes "0 \<le> bar_idx m" "bar_idx m < int (length (vec_bar m))"
  shows "length (vec_bar (in_cur_bar bh u m)) = length (vec_bar m)"
    "bar_idx m \<le> bar_idx (in_cur_bar bh u m)"
    "bar_idx (in_cur_bar bh u m) \<le> int (length (vec_bar m))"
    "int j < bar_idx m \<Longrightarrow> vec_bar (in_cur_bar bh u m) ! j = vec_bar m ! j"
  using assms by (auto simp: in_cur_bar_def Let_def put_bar_nth)

lemma tick_loop_frame:
  "0 \<le> bar_idx m \<Longrightarrow> bar_idx m < int (length (vec_bar m)) \<Longrightarrow>
   length (vec_bar (tick_loop bh sec u m)) = length (vec_bar m) \<and>
   bar_idx m \<le> bar_idx (tick_loop bh sec u m) \<and>
   bar_idx (tick_loop bh sec u m) \<le> int (length (vec_bar m)) \<and>
   (\<forall>j. int j < bar_idx m \<longrightarrow> vec_bar (tick_loop bh sec u m) ! j = vec_bar m ! j)"
proof (induction bh sec u m rule: tick_loop.induct)
  case (1 bh sec u m)
  let ?pos = "Bar2_isInCurBar sec (vec_bar m ! nat (bar_idx m))"
  let ?m1 = "put_bar (bar_idx m) (Bar2_settle bh u) m"
  have nth1: "vec_bar ?m1 ! j = vec_bar m ! j" if "int j < bar_idx m" for j
    using that by (intro put_bar_nth) auto
  show ?case
  proof (cases "?pos = 1 \<and> bar_idx m < int (length (vec_bar m)) - 1")
    case True
    have L: "tick_loop bh sec u m = tick_loop bh sec u (later_bar bh u ?m1)"
      using True by (subst tick_loop.simps) (simp add: Let_def)
    have "length (vec_bar (tick_loop bh sec u (later_bar bh u ?m1))) = length (vec_bar m) \<and>
        bar_idx m + 1 \<le> bar_idx (tick_loop bh sec u (later_bar bh u ?m1)) \<and>
        bar_idx (tick_loop bh sec u (later_bar bh u ?m1)) \<le> int (length (vec_bar m)) \<and>
        (\<forall>j. int j < bar_idx m + 1 \<longrightarrow>
           vec_bar (tick_loop bh sec u (later_bar bh u ?m1)) ! j = vec_bar (later_bar bh u ?m1) ! j)"
      using "1.IH" [of "?pos" ?m1] True "1.prems" by simp
    with L nth1 later_bar_nth [of _ ?m1 bh u] show ?thesis by simp
  next
    case False
    have E: "tick_loop bh sec u m = (if ?pos = 0 then in_cur_bar bh u m
        else if ?pos = 1 then ?m1 else put_bar (bar_idx m) (Bar2_updatePre bh u) m)"
      using False by (subst tick_loop.simps) (simp add: Let_def)
    show ?thesis
      unfolding E using in_cur_bar_frame [OF "1.prems"] nth1 "1.prems" put_bar_nth
      by (auto split: if_splits)
  qed
qed

definition maker_ok :: "bar_maker \<Rightarrow> bool" where
  "maker_ok m \<longleftrightarrow> -1 \<le> bar_idx m \<and> bar_idx m \<le> int (length (vec_bar m))"

text \<open>
  A tick never changes a bar before the current one: the index only moves forward, at most
  past the last bar, and the bars it has passed are final.
\<close>

theorem settled_bars_final:
  assumes "maker_ok m" "BarMaker_OnTick u (bh, m) = (bh', m')"
  shows "maker_ok m' \<and> bar_idx m \<le> bar_idx m' \<and> length (vec_bar m') = length (vec_bar m) \<and>
     take (nat (bar_idx m)) (vec_bar m') = take (nat (bar_idx m)) (vec_bar m)"
proof -
  let ?m1 = "if bar_idx m = -1 then m\<lparr>bar_idx := 0\<rparr> else m"
  have idx: "0 \<le> bar_idx ?m1" "bar_idx m \<le> bar_idx ?m1" "vec_bar ?m1 = vec_bar m"
    using assms(1) by (auto simp: maker_ok_def)
  show ?thesis
  proof (cases "md_instr_hash u \<noteq> bm_instr_hash m \<or> bar_idx ?m1 \<ge> int (length (vec_bar ?m1))")
    case True
    with assms idx show ?thesis
      by (auto simp: BarMaker_OnTick_def Let_def maker_ok_def split: if_splits)
  next
    case False
    define t where "t = tick_loop bh' (BarHelper_getBaseIntervalFromNano bh' (md_exch_time u)) u ?m1"
    have m': "m' = t\<lparr>last_umd := u\<rparr>"
      using assms(2) False by (auto simp: BarMaker_OnTick_def Let_def t_def split: if_splits)
    have F: "length (vec_bar t) = length (vec_bar ?m1)" "bar_idx ?m1 \<le> bar_idx t"
      "bar_idx t \<le> int (length (vec_bar ?m1))"
      "\<And>j. int j < bar_idx ?m1 \<Longrightarrow> vec_bar t ! j = vec_bar ?m1 ! j"
      using tick_loop_frame [OF idx(1), of bh' _ u] False unfolding t_def by simp_all
    have "take (nat (bar_idx m)) (vec_bar t) = take (nat (bar_idx m)) (vec_bar m)"
      by (rule nth_equalityI) (use F idx in auto)
    with F idx m' show ?thesis by (auto simp: maker_ok_def)
  qed
qed

definition two_bars :: bar_maker where
  "two_bars =
     \<lparr>bm_instr = ''AP905'', bm_instr_hash = 7, bm_cycle_sec = 900,
      vec_bar =
        [bar2_init\<lparr>b_bob := 54000, b_eob := 54900, adjust_bob := 54000, adjust_eob := 54900\<rparr>,
         bar2_init\<lparr>b_bob := 54900, b_eob := 55800, adjust_bob := 54900, adjust_eob := 55800\<rparr>],
      bar_idx = 1, rtn_bar_idx = 1, last_umd = market_data_init, p_exch_nano = SlotCZCE\<rparr>"

theorem settled_bars_final_witness:
  "\<exists>bh' m'. BarMaker_OnTick (px_tick 10 1) (bar_helper_init, two_bars) = (bh', m') \<and>
     take 1 (vec_bar m') = take 1 (vec_bar two_bars)"
proof -
  obtain bh' m' where r: "BarMaker_OnTick (px_tick 10 1) (bar_helper_init, two_bars) = (bh', m')"
    by (cases "BarMaker_OnTick (px_tick 10 1) (bar_helper_init, two_bars)")
  have "maker_ok two_bars" by (simp add: maker_ok_def two_bars_def)
  from settled_bars_final [OF this r] r show ?thesis by (auto simp: two_bars_def)
qed

section \<open>Reading the bars\<close>

lemma get_bar_loop_last:
  "rtn_bar_idx m < bar_idx m \<Longrightarrow> -1 \<le> rtn_bar_idx m \<Longrightarrow>
   get_bar_loop m p =
     (if bar_idx m = 0 then p
      else if b_open (vec_bar m ! nat (bar_idx m - 1)) = 0 then None
      else Some (vec_bar m ! nat (bar_idx m - 1)), m\<lparr>rtn_bar_idx := bar_idx m\<rparr>)"
proof (induction m p rule: get_bar_loop.induct)
  case (1 m p)
  let ?m = "m\<lparr>rtn_bar_idx := rtn_bar_idx m + 1\<rparr>"
  show ?case
  proof (cases "rtn_bar_idx ?m < bar_idx ?m")
    case True
    have "bar_idx m \<noteq> 0" using True "1.prems" by simp
    with "1.IH" True "1.prems" show ?thesis
      by (subst get_bar_loop.simps) (simp add: Let_def)
  next
    case False
    then have e: "rtn_bar_idx m = bar_idx m - 1" using "1.prems" by simp
    have stop: "get_bar_loop ?m q = (q, ?m)" for q
      using False by (subst get_bar_loop.simps) simp
    show ?thesis
      using "1.prems" e stop by (subst get_bar_loop.simps) (auto simp: Let_def)
  qed
qed

text \<open>
  \<^verbatim>\<open>GetBar\<close> returns the bar before the current one, and nothing of the bars before it that were
  settled since the last call; the next call returns null. A caller that loops until null, as
  \<^verbatim>\<open>CStrategy::barOnFinish\<close> does, sees one bar however many are due.
\<close>

theorem get_bar_only_last:
  assumes "-1 \<le> rtn_bar_idx m" "rtn_bar_idx m < bar_idx m" "0 < bar_idx m"
  shows "BarMaker_GetBar m =
       (let b = vec_bar m ! nat (bar_idx m - 1) in
        (if b_open b = 0 then None else Some b, m\<lparr>rtn_bar_idx := bar_idx m\<rparr>)) \<and>
     fst (BarMaker_GetBar (snd (BarMaker_GetBar m))) = None"
proof -
  have stop: "get_bar_loop (m\<lparr>rtn_bar_idx := bar_idx m\<rparr>) None =
      (None, m\<lparr>rtn_bar_idx := bar_idx m\<rparr>)"
    by (subst get_bar_loop.simps) simp
  show ?thesis
    using get_bar_loop_last [OF assms(2,1)] assms(3) stop by (simp add: BarMaker_GetBar_def Let_def)
qed

theorem get_bar_only_last_witness:
  "fst (BarMaker_GetBar (two_bars\<lparr>bar_idx := 2, rtn_bar_idx := 0,
      vec_bar := map (\<lambda>b. b\<lparr>b_open := 5\<rparr>) (vec_bar two_bars)\<rparr>)) =
    Some ((vec_bar two_bars ! 1)\<lparr>b_open := 5\<rparr>)"
  by (subst conjunct1 [OF get_bar_only_last]) (simp_all add: two_bars_def Let_def)

section \<open>Ticks after the last bar\<close>

lemma late_tick:
  assumes "md_instr_hash u = bm_instr_hash m" "0 < length (vec_bar m)"
    and "bar_idx m = int (length (vec_bar m)) - 1"
    and "adjust_bob (last (vec_bar m)) \<le> adjust_eob (last (vec_bar m))"
    and "adjust_eob (last (vec_bar m)) \<le>
      BarHelper_getBaseIntervalFromNano (exch_nano_max (p_exch_nano m) (md_exch_time u) bh) (md_exch_time u)"
  shows "snd (BarMaker_OnTick u (bh, m)) =
     (put_bar (bar_idx m) (Bar2_settle (exch_nano_max (p_exch_nano m) (md_exch_time u) bh) u) m)
       \<lparr>last_umd := u\<rparr>"
proof -
  have "nat (bar_idx m) = length (vec_bar m) - 1" using assms(2,3) by simp
  then have idx: "0 \<le> bar_idx m" "vec_bar m ! nat (bar_idx m) = last (vec_bar m)"
    using assms(2,3) by (simp_all add: last_conv_nth)
  have pos: "Bar2_isInCurBar (BarHelper_getBaseIntervalFromNano
      (exch_nano_max (p_exch_nano m) (md_exch_time u) bh) (md_exch_time u))
      (vec_bar m ! nat (bar_idx m)) = 1"
    using assms(5) unfolding idx(2) Bar2_isInCurBar_def by simp
  show ?thesis
    using assms(1-3) idx(1) pos
    by (simp add: BarMaker_OnTick_def Let_def) (subst tick_loop.simps, simp add: Let_def)
qed

lemma exch_nano_max_base [simp]:
  "intra_day_base_sec (exch_nano_max slot t bh) = intra_day_base_sec bh"
  "BarHelper_getBaseSec (exch_nano_max slot t bh) = BarHelper_getBaseSec bh"
  "BarHelper_getBaseIntervalFromNano (exch_nano_max slot t bh) = BarHelper_getBaseIntervalFromNano bh"
  by (simp_all add: exch_nano_max_def BarHelper_getBaseSec_def fun_eq_iff
      BarHelper_getBaseIntervalFromNano_def split: exch_slot.splits)

lemma settle_open:
  assumes "b_open b \<noteq> 0"
  shows "b_bob (Bar2_settle bh u b) = (b_bob b + b_base_sec b) * 1000000000"
    "b_base_sec (Bar2_settle bh u b) = b_base_sec b" "b_open (Bar2_settle bh u b) = b_open b"
    "adjust_bob (Bar2_settle bh u b) = adjust_bob b" "adjust_eob (Bar2_settle bh u b) = adjust_eob b"
  using assms by (simp_all add: Bar2_settle_def Let_def)

text \<open>
  A tick after the end of the last bar settles it and leaves it current, so the next such tick
  settles it again: the times of the bar, which settling turns from seconds of the day into
  nanoseconds, are scaled twice.
\<close>

theorem last_bar_settled_twice:
  assumes "md_instr_hash u = bm_instr_hash m" "vec_bar m = bs @ [b]" "bar_idx m = int (length bs)"
    and "adjust_bob b \<le> adjust_eob b"
    and "adjust_eob b \<le> BarHelper_getBaseIntervalFromNano bh (md_exch_time u)" "b_open b \<noteq> 0"
  shows "b_bob (last (vec_bar (snd (BarMaker_OnTick u (BarMaker_OnTick u (bh, m)))))) =
     ((b_bob b + b_base_sec b) * 1000000000 + b_base_sec b) * 1000000000"
proof -
  obtain bh1 m1 where r1: "BarMaker_OnTick u (bh, m) = (bh1, m1)" by (cases "BarMaker_OnTick u (bh, m)")
  have bh1: "BarHelper_getBaseIntervalFromNano bh1 = BarHelper_getBaseIntervalFromNano bh"
    using r1 by (auto simp: BarMaker_OnTick_def Let_def split: if_splits)
  define c where "c = Bar2_settle (exch_nano_max (p_exch_nano m) (md_exch_time u) bh) u b"
  have m1: "m1 = m\<lparr>vec_bar := bs @ [c], last_umd := u\<rparr>"
    using late_tick [of u m bh] r1 assms(1-5) by (simp add: put_bar_def c_def)
  note S = settle_open [OF assms(6), of "exch_nano_max (p_exch_nano m) (md_exch_time u) bh" u,
      folded c_def]
  have "snd (BarMaker_OnTick u (bh1, m1)) =
      m1\<lparr>vec_bar := bs @ [Bar2_settle (exch_nano_max (p_exch_nano m1) (md_exch_time u) bh1) u c],
         last_umd := u\<rparr>"
    using late_tick [of u m1 bh1] assms(1,3,4,5) S by (simp add: m1 put_bar_def bh1)
  moreover have "b_open c \<noteq> 0" using S(3) assms(6) by simp
  ultimately show ?thesis by (simp add: r1 settle_open S(1,2))
qed

theorem last_bar_settled_twice_witness:
  "b_bob (last (vec_bar (snd (BarMaker_OnTick (px_tick 10 1\<lparr>md_instr_hash := 7\<rparr>)
     (BarMaker_OnTick (px_tick 10 1\<lparr>md_instr_hash := 7\<rparr>) (bar_helper_init, two_bars\<lparr>vec_bar :=
        [bar2_init, bar2_init\<lparr>b_bob := 3, b_open := 5, adjust_eob := 60\<rparr>]\<rparr>)))))) =
     ((3 + 0) * 1000000000 + 0) * 1000000000"
  by (subst last_bar_settled_twice [where bs = "[bar2_init]"
        and b = "bar2_init\<lparr>b_bob := 3, b_open := 5, adjust_eob := 60\<rparr>"])
    (simp_all add: two_bars_def px_tick_def interval_from_nano bar_helper_init_def bar2_init_def)

end
