(* ===== verification/Json_Value.thy ===== *)
theory Json_Value
  imports Prelude
begin

text \<open>
  JSON values as \<^verbatim>\<open>include/json.hpp\<close> (nlohmann 2.1.1) holds them, with the accesses the program
  makes: \<^verbatim>\<open>operator[]\<close> on a mutable value (a missing member is a fresh null, a null turns into an
  object, any other kind throws), \<^verbatim>\<open>find\<close>, assignment of a member, and the conversions to
  \<^verbatim>\<open>int\<close>, \<^verbatim>\<open>double\<close> and \<^verbatim>\<open>bool\<close>, which throw on a value of another kind. A thrown exception is
  \<^const>\<open>None\<close>. The library keeps an integer in 64 bits and \<^verbatim>\<open>get<int>\<close> casts it to 32; the model returns the
  integer itself, which is the same for every value that was stored from an \<^verbatim>\<open>int\<close>. The null members that \<^verbatim>\<open>operator[]\<close> leaves behind are not kept: nothing reads them.
  The members of an object stand in the order of insertion.

  A component that keeps its state in such a value across trading days satisfies the contract
  \<open>persistent\<close> below: reading back what was written gives the state after the day switch.
\<close>

section \<open>Values and conversions\<close>

datatype json =
    JNull
  | JBool bool
  | JInt int
  | JFloat double
  | JStr string
  | JArr "json list"
  | JObj "(string \<times> json) list"

definition json_at :: "json \<Rightarrow> string \<Rightarrow> json option" where
  "json_at j k =
     (case j of
        JNull \<Rightarrow> Some JNull
      | JObj ms \<Rightarrow> Some (case map_of ms k of None \<Rightarrow> JNull | Some v \<Rightarrow> v)
      | _ \<Rightarrow> None)"

definition json_find :: "json \<Rightarrow> string \<Rightarrow> json option" where
  "json_find j k = (case j of JObj ms \<Rightarrow> map_of ms k | _ \<Rightarrow> None)"

definition json_get_int :: "json \<Rightarrow> int option" where
  "json_get_int j =
     (case j of
        JInt i \<Rightarrow> Some i
      | JFloat r \<Rightarrow> Some (if 0 \<le> r then \<lfloor>r\<rfloor> else \<lceil>r\<rceil>)
      | JBool b \<Rightarrow> Some (if b then 1 else 0)
      | _ \<Rightarrow> None)"

definition json_get_double :: "json \<Rightarrow> double option" where
  "json_get_double j =
     (case j of
        JInt i \<Rightarrow> Some (of_int i)
      | JFloat r \<Rightarrow> Some r
      | _ \<Rightarrow> None)"

definition json_get_bool :: "json \<Rightarrow> bool option" where
  "json_get_bool j = (case j of JBool b \<Rightarrow> Some b | _ \<Rightarrow> None)"

definition json_int :: "json \<Rightarrow> string \<Rightarrow> int option" where
  "json_int j k = Option.bind (json_at j k) json_get_int"

definition json_double :: "json \<Rightarrow> string \<Rightarrow> double option" where
  "json_double j k = Option.bind (json_at j k) json_get_double"

lemma json_at_JObj [simp]:
  "json_at (JObj ms) k = Some (case map_of ms k of None \<Rightarrow> JNull | Some v \<Rightarrow> v)"
  by (simp add: json_at_def)

lemma json_get_simps [simp]:
  "json_get_int (JInt i) = Some i"
  "json_get_double (JFloat r) = Some r"
  "json_get_bool (JBool b) = Some b"
  by (simp_all add: json_get_int_def json_get_double_def json_get_bool_def)

section \<open>State that outlives the process\<close>

text \<open>
  How a \<^verbatim>\<open>from_json\<close> can end: it returns true, it returns false, or an exception leaves it. In
  every case the object it fills keeps what was assigned before.
\<close>

datatype load_result = Loaded | Rejected | Thrown

text \<open>
  \<open>switch\<close> is what the running process does at the end of a day, \<open>adopt s0 s\<close> the object \<open>s0\<close> with
  the persistent part of \<open>s\<close> (the identity of an object, its name and its links, is not stored).
\<close>

locale persistent =
  fixes to_json :: "'s \<Rightarrow> json"
    and from_json :: "json \<Rightarrow> 's \<Rightarrow> load_result \<times> 's"
    and switch :: "'s \<Rightarrow> 's"
    and adopt :: "'s \<Rightarrow> 's \<Rightarrow> 's"
  assumes reload: "from_json (to_json s) s0 = (Loaded, adopt s0 (switch s))"
    and switch_twice: "switch (switch s) = switch s"
    and adopt_self: "adopt s (switch s) = switch s"
begin

lemma reload_in_place: "from_json (to_json s) s = (Loaded, switch s)"
  by (simp add: reload adopt_self)

lemma reload_after_switch: "from_json (to_json (switch s)) s0 = from_json (to_json s) s0"
  by (simp add: reload switch_twice)

lemma reload_settled: "switch s = s \<Longrightarrow> from_json (to_json s) s = (Loaded, s)"
  using reload_in_place [of s] by simp

end

end
