(* ===== verification/Account_Units.thy ===== *)
theory Account_Units
  imports Trade_Types Json_Value
begin

text \<open>
  The four units of account keeping: \<^verbatim>\<open>account/UnitVol\<close> (positions and open orders in lots),
  \<^verbatim>\<open>account/UnitAmt\<close> (the same in money), \<^verbatim>\<open>account/UnitPnl\<close> (profit and loss) and
  \<^verbatim>\<open>account/UnitPx\<close> (prices), one definition per method. Every unit is \<open>persistent\<close>: its
  \<^verbatim>\<open>from_json\<close> of its own \<^verbatim>\<open>to_json\<close> is its \<^verbatim>\<open>onSwitchDay\<close>, so a restart from the file and a day
  switch in memory leave the same state.
\<close>

section \<open>UnitVol\<close>

record unit_vol =
  pos_long_yd_ini :: int
  pos_long_yd :: int
  pos_long_td :: int
  pos_long :: int
  pos_long_yd_cls_ing :: int
  pos_long_td_cls_ing :: int
  pos_long_td_opn_ing :: int
  pos_short_yd_ini :: int
  pos_short_yd :: int
  pos_short_td :: int
  pos_short :: int
  pos_short_yd_cls_ing :: int
  pos_short_td_cls_ing :: int
  pos_short_td_opn_ing :: int
  pos_buy :: int
  pos_sell :: int

definition unit_vol_init :: unit_vol where
  "unit_vol_init =
     \<lparr>pos_long_yd_ini = 0, pos_long_yd = 0, pos_long_td = 0, pos_long = 0,
      pos_long_yd_cls_ing = 0, pos_long_td_cls_ing = 0, pos_long_td_opn_ing = 0,
      pos_short_yd_ini = 0, pos_short_yd = 0, pos_short_td = 0, pos_short = 0,
      pos_short_yd_cls_ing = 0, pos_short_td_cls_ing = 0, pos_short_td_opn_ing = 0,
      pos_buy = 0, pos_sell = 0\<rparr>"

definition UnitVol_to_json :: "unit_vol \<Rightarrow> json" where
  "UnitVol_to_json v = JObj
     [(''pos_long_yd_ini'', JInt (pos_long_yd_ini v)),
      (''pos_long_yd_cls_ing'', JInt (pos_long_yd_cls_ing v)),
      (''pos_long_yd'', JInt (pos_long_yd v)),
      (''pos_long_td_opn_ing'', JInt (pos_long_td_opn_ing v)),
      (''pos_long_td_cls_ing'', JInt (pos_long_td_cls_ing v)),
      (''pos_long_td'', JInt (pos_long_td v)),
      (''pos_long'', JInt (pos_long v)),
      (''pos_short_yd_ini'', JInt (pos_short_yd_ini v)),
      (''pos_short_yd_cls_ing'', JInt (pos_short_yd_cls_ing v)),
      (''pos_short_yd'', JInt (pos_short_yd v)),
      (''pos_short_td_opn_ing'', JInt (pos_short_td_opn_ing v)),
      (''pos_short_td_cls_ing'', JInt (pos_short_td_cls_ing v)),
      (''pos_short_td'', JInt (pos_short_td v)),
      (''pos_short'', JInt (pos_short v)),
      (''pos_buy'', JInt (pos_buy v)),
      (''pos_sell'', JInt (pos_sell v))]"

text \<open>
  The long half is assigned before the short member is read, so a value without \<^verbatim>\<open>pos_short\<close>
  leaves the object half filled.
\<close>

definition UnitVol_from_json :: "json \<Rightarrow> unit_vol \<Rightarrow> load_result \<times> unit_vol" where
  "UnitVol_from_json j v =
     (case json_int j ''pos_long'' of
        None \<Rightarrow> (Rejected, v)
      | Some l \<Rightarrow>
          (let v1 = v\<lparr>pos_long_yd_ini := l, pos_long_yd_cls_ing := 0, pos_long_yd := l,
                      pos_long_td_opn_ing := 0, pos_long_td_cls_ing := 0, pos_long_td := 0,
                      pos_long := l\<rparr>
           in case json_int j ''pos_short'' of
                None \<Rightarrow> (Rejected, v1)
              | Some s \<Rightarrow>
                  (Loaded, v1\<lparr>pos_short_yd_ini := s, pos_short_yd_cls_ing := 0, pos_short_yd := s,
                              pos_short_td_opn_ing := 0, pos_short_td_cls_ing := 0,
                              pos_short_td := 0, pos_short := s, pos_buy := 0,
                              pos_sell := 0\<rparr>)))"

definition UnitVol_onSwitchDay :: "unit_vol \<Rightarrow> unit_vol" where
  "UnitVol_onSwitchDay v =
     v\<lparr>pos_long_yd_ini := pos_long v, pos_long_yd_cls_ing := 0, pos_long_yd := pos_long v,
       pos_long_td_opn_ing := 0, pos_long_td_cls_ing := 0, pos_long_td := 0,
       pos_short_yd_ini := pos_short v, pos_short_yd_cls_ing := 0, pos_short_yd := pos_short v,
       pos_short_td_opn_ing := 0, pos_short_td_cls_ing := 0, pos_short_td := 0,
       pos_buy := 0, pos_sell := 0\<rparr>"

definition UnitVol_onBuyOpnNew :: "int \<Rightarrow> unit_vol \<Rightarrow> unit_vol" where
  "UnitVol_onBuyOpnNew vol v = v\<lparr>pos_long_td_opn_ing := pos_long_td_opn_ing v + vol\<rparr>"

definition UnitVol_onBuyOpnCxl :: "int \<Rightarrow> unit_vol \<Rightarrow> unit_vol" where
  "UnitVol_onBuyOpnCxl vol v = v\<lparr>pos_long_td_opn_ing := pos_long_td_opn_ing v - vol\<rparr>"

definition UnitVol_onBuyOpnTrd :: "int \<Rightarrow> unit_vol \<Rightarrow> unit_vol" where
  "UnitVol_onBuyOpnTrd vol v =
     v\<lparr>pos_long_td_opn_ing := pos_long_td_opn_ing v - vol, pos_long_td := pos_long_td v + vol,
       pos_long := pos_long v + vol, pos_buy := pos_buy v + vol\<rparr>"

definition UnitVol_onSellOpnNew :: "int \<Rightarrow> unit_vol \<Rightarrow> unit_vol" where
  "UnitVol_onSellOpnNew vol v = v\<lparr>pos_short_td_opn_ing := pos_short_td_opn_ing v + vol\<rparr>"

definition UnitVol_onSellOpnCxl :: "int \<Rightarrow> unit_vol \<Rightarrow> unit_vol" where
  "UnitVol_onSellOpnCxl vol v = v\<lparr>pos_short_td_opn_ing := pos_short_td_opn_ing v - vol\<rparr>"

definition UnitVol_onSellOpnTrd :: "int \<Rightarrow> unit_vol \<Rightarrow> unit_vol" where
  "UnitVol_onSellOpnTrd vol v =
     v\<lparr>pos_short_td_opn_ing := pos_short_td_opn_ing v - vol, pos_short_td := pos_short_td v + vol,
       pos_short := pos_short v + vol, pos_sell := pos_sell v + vol\<rparr>"

definition UnitVol_onBuyClsYdNew :: "int \<Rightarrow> unit_vol \<Rightarrow> unit_vol" where
  "UnitVol_onBuyClsYdNew vol v = v\<lparr>pos_short_yd_cls_ing := pos_short_yd_cls_ing v + vol\<rparr>"

definition UnitVol_onBuyClsYdCxl :: "int \<Rightarrow> unit_vol \<Rightarrow> unit_vol" where
  "UnitVol_onBuyClsYdCxl vol v = v\<lparr>pos_short_yd_cls_ing := pos_short_yd_cls_ing v - vol\<rparr>"

definition UnitVol_onBuyClsYdTrd :: "int \<Rightarrow> unit_vol \<Rightarrow> unit_vol" where
  "UnitVol_onBuyClsYdTrd vol v =
     v\<lparr>pos_short_yd_cls_ing := pos_short_yd_cls_ing v - vol, pos_short_yd := pos_short_yd v - vol,
       pos_short := pos_short v - vol, pos_buy := pos_buy v + vol\<rparr>"

definition UnitVol_onSellClsYdNew :: "int \<Rightarrow> unit_vol \<Rightarrow> unit_vol" where
  "UnitVol_onSellClsYdNew vol v = v\<lparr>pos_long_yd_cls_ing := pos_long_yd_cls_ing v + vol\<rparr>"

definition UnitVol_onSellClsYdCxl :: "int \<Rightarrow> unit_vol \<Rightarrow> unit_vol" where
  "UnitVol_onSellClsYdCxl vol v = v\<lparr>pos_long_yd_cls_ing := pos_long_yd_cls_ing v - vol\<rparr>"

definition UnitVol_onSellClsYdTrd :: "int \<Rightarrow> unit_vol \<Rightarrow> unit_vol" where
  "UnitVol_onSellClsYdTrd vol v =
     v\<lparr>pos_long_yd_cls_ing := pos_long_yd_cls_ing v - vol, pos_long_yd := pos_long_yd v - vol,
       pos_long := pos_long v - vol, pos_sell := pos_sell v + vol\<rparr>"

definition UnitVol_onBuyClsTdNew :: "int \<Rightarrow> unit_vol \<Rightarrow> unit_vol" where
  "UnitVol_onBuyClsTdNew vol v = v\<lparr>pos_short_td_cls_ing := pos_short_td_cls_ing v + vol\<rparr>"

definition UnitVol_onBuyClsTdCxl :: "int \<Rightarrow> unit_vol \<Rightarrow> unit_vol" where
  "UnitVol_onBuyClsTdCxl vol v = v\<lparr>pos_short_td_cls_ing := pos_short_td_cls_ing v - vol\<rparr>"

definition UnitVol_onBuyClsTdTrd :: "int \<Rightarrow> unit_vol \<Rightarrow> unit_vol" where
  "UnitVol_onBuyClsTdTrd vol v =
     v\<lparr>pos_short_td_cls_ing := pos_short_td_cls_ing v - vol, pos_short_td := pos_short_td v - vol,
       pos_short := pos_short v - vol, pos_buy := pos_buy v + vol\<rparr>"

definition UnitVol_onSellClsTdNew :: "int \<Rightarrow> unit_vol \<Rightarrow> unit_vol" where
  "UnitVol_onSellClsTdNew vol v = v\<lparr>pos_long_td_cls_ing := pos_long_td_cls_ing v + vol\<rparr>"

definition UnitVol_onSellClsTdCxl :: "int \<Rightarrow> unit_vol \<Rightarrow> unit_vol" where
  "UnitVol_onSellClsTdCxl vol v = v\<lparr>pos_long_td_cls_ing := pos_long_td_cls_ing v - vol\<rparr>"

definition UnitVol_onSellClsTdTrd :: "int \<Rightarrow> unit_vol \<Rightarrow> unit_vol" where
  "UnitVol_onSellClsTdTrd vol v =
     v\<lparr>pos_long_td_cls_ing := pos_long_td_cls_ing v - vol, pos_long_td := pos_long_td v - vol,
       pos_long := pos_long v - vol, pos_sell := pos_sell v + vol\<rparr>"

lemmas vol_new_defs =
  UnitVol_onBuyOpnNew_def UnitVol_onBuyClsYdNew_def UnitVol_onBuyClsTdNew_def
  UnitVol_onSellOpnNew_def UnitVol_onSellClsYdNew_def UnitVol_onSellClsTdNew_def

lemmas vol_cxl_defs =
  UnitVol_onBuyOpnCxl_def UnitVol_onBuyClsYdCxl_def UnitVol_onBuyClsTdCxl_def
  UnitVol_onSellOpnCxl_def UnitVol_onSellClsYdCxl_def UnitVol_onSellClsTdCxl_def

lemmas vol_trd_defs =
  UnitVol_onBuyOpnTrd_def UnitVol_onBuyClsYdTrd_def UnitVol_onBuyClsTdTrd_def
  UnitVol_onSellOpnTrd_def UnitVol_onSellClsYdTrd_def UnitVol_onSellClsTdTrd_def

lemmas vol_defs = vol_new_defs vol_cxl_defs vol_trd_defs

interpretation vol: persistent UnitVol_to_json UnitVol_from_json UnitVol_onSwitchDay "\<lambda>_ v. v"
  by unfold_locales
    (simp_all add: UnitVol_to_json_def UnitVol_from_json_def UnitVol_onSwitchDay_def json_int_def)

section \<open>UnitAmt\<close>

record unit_amt =
  amt_long_yd_sub_ing :: double
  amt_long_td_add_ing :: double
  amt_long_td_sub_ing :: double
  amt_long :: double
  amt_short_yd_sub_ing :: double
  amt_short_td_add_ing :: double
  amt_short_td_sub_ing :: double
  amt_short :: double
  amt_buy :: double
  amt_sell :: double

definition unit_amt_init :: unit_amt where
  "unit_amt_init =
     \<lparr>amt_long_yd_sub_ing = 0, amt_long_td_add_ing = 0, amt_long_td_sub_ing = 0, amt_long = 0,
      amt_short_yd_sub_ing = 0, amt_short_td_add_ing = 0, amt_short_td_sub_ing = 0,
      amt_short = 0, amt_buy = 0, amt_sell = 0\<rparr>"

definition UnitAmt_to_json :: "unit_amt \<Rightarrow> json" where
  "UnitAmt_to_json a = JObj
     [(''amt_long_yd_sub_ing'', JFloat (amt_long_yd_sub_ing a)),
      (''amt_long_td_add_ing'', JFloat (amt_long_td_add_ing a)),
      (''amt_long_td_sub_ing'', JFloat (amt_long_td_sub_ing a)),
      (''amt_long'', JFloat (amt_long a)),
      (''amt_short_yd_sub_ing'', JFloat (amt_short_yd_sub_ing a)),
      (''amt_short_td_add_ing'', JFloat (amt_short_td_add_ing a)),
      (''amt_short_td_sub_ing'', JFloat (amt_short_td_sub_ing a)),
      (''amt_short'', JFloat (amt_short a)),
      (''amt_buy'', JFloat (amt_buy a)),
      (''amt_sell'', JFloat (amt_sell a))]"

definition UnitAmt_from_json :: "json \<Rightarrow> unit_amt \<Rightarrow> load_result \<times> unit_amt" where
  "UnitAmt_from_json j a =
     (let a1 = a\<lparr>amt_long_yd_sub_ing := 0, amt_long_td_add_ing := 0, amt_long_td_sub_ing := 0\<rparr>
      in case json_double j ''amt_long'' of
           None \<Rightarrow> (Rejected, a1)
         | Some l \<Rightarrow>
             (let a2 = a1\<lparr>amt_long := l, amt_short_yd_sub_ing := 0, amt_short_td_add_ing := 0,
                          amt_short_td_sub_ing := 0\<rparr>
              in case json_double j ''amt_short'' of
                   None \<Rightarrow> (Rejected, a2)
                 | Some s \<Rightarrow> (Loaded, a2\<lparr>amt_short := s, amt_buy := 0, amt_sell := 0\<rparr>)))"

definition UnitAmt_onSwitchDay :: "unit_amt \<Rightarrow> unit_amt" where
  "UnitAmt_onSwitchDay a =
     a\<lparr>amt_long_yd_sub_ing := 0, amt_long_td_add_ing := 0, amt_long_td_sub_ing := 0,
       amt_short_yd_sub_ing := 0, amt_short_td_add_ing := 0, amt_short_td_sub_ing := 0,
       amt_buy := 0, amt_sell := 0\<rparr>"

definition UnitAmt_calcAmtChangeOnPxChange :: "double \<Rightarrow> double \<Rightarrow> int \<Rightarrow> int \<Rightarrow> double" where
  "UnitAmt_calcAmtChangeOnPxChange cur_px prev_px pos vm =
     (cur_px - prev_px) * of_int pos * of_int vm"

definition UnitAmt_calcAmtChangeOnTrd :: "double \<Rightarrow> int \<Rightarrow> int \<Rightarrow> double" where
  "UnitAmt_calcAmtChangeOnTrd trd_px trd_vol vm = trd_px * of_int trd_vol * of_int vm"

definition UnitAmt_calcAmtIngChangeOnNewCxlTrd :: "double \<Rightarrow> int \<Rightarrow> int \<Rightarrow> double" where
  "UnitAmt_calcAmtIngChangeOnNewCxlTrd px vol vm = px * of_int vol * of_int vm"

definition UnitAmt_onAmtLongYdSubIngChange :: "double \<Rightarrow> unit_amt \<Rightarrow> unit_amt" where
  "UnitAmt_onAmtLongYdSubIngChange amt a = a\<lparr>amt_long_yd_sub_ing := amt_long_yd_sub_ing a + amt\<rparr>"

definition UnitAmt_onAmtLongTdAddIngChange :: "double \<Rightarrow> unit_amt \<Rightarrow> unit_amt" where
  "UnitAmt_onAmtLongTdAddIngChange amt a = a\<lparr>amt_long_td_add_ing := amt_long_td_add_ing a + amt\<rparr>"

definition UnitAmt_onAmtLongTdSubIngChange :: "double \<Rightarrow> unit_amt \<Rightarrow> unit_amt" where
  "UnitAmt_onAmtLongTdSubIngChange amt a = a\<lparr>amt_long_td_sub_ing := amt_long_td_sub_ing a + amt\<rparr>"

definition UnitAmt_onAmtLongChange :: "double \<Rightarrow> unit_amt \<Rightarrow> unit_amt" where
  "UnitAmt_onAmtLongChange amt a = a\<lparr>amt_long := amt_long a + amt\<rparr>"

definition UnitAmt_onAmtShortYdSubIngChange :: "double \<Rightarrow> unit_amt \<Rightarrow> unit_amt" where
  "UnitAmt_onAmtShortYdSubIngChange amt a =
     a\<lparr>amt_short_yd_sub_ing := amt_short_yd_sub_ing a + amt\<rparr>"

definition UnitAmt_onAmtShortTdAddIngChange :: "double \<Rightarrow> unit_amt \<Rightarrow> unit_amt" where
  "UnitAmt_onAmtShortTdAddIngChange amt a =
     a\<lparr>amt_short_td_add_ing := amt_short_td_add_ing a + amt\<rparr>"

definition UnitAmt_onAmtShortTdSubIngChange :: "double \<Rightarrow> unit_amt \<Rightarrow> unit_amt" where
  "UnitAmt_onAmtShortTdSubIngChange amt a =
     a\<lparr>amt_short_td_sub_ing := amt_short_td_sub_ing a + amt\<rparr>"

definition UnitAmt_onAmtShortChange :: "double \<Rightarrow> unit_amt \<Rightarrow> unit_amt" where
  "UnitAmt_onAmtShortChange amt a = a\<lparr>amt_short := amt_short a + amt\<rparr>"

definition UnitAmt_onAmtBuyChange :: "double \<Rightarrow> unit_amt \<Rightarrow> unit_amt" where
  "UnitAmt_onAmtBuyChange amt a = a\<lparr>amt_buy := amt_buy a + amt\<rparr>"

definition UnitAmt_onAmtSellChange :: "double \<Rightarrow> unit_amt \<Rightarrow> unit_amt" where
  "UnitAmt_onAmtSellChange amt a = a\<lparr>amt_sell := amt_sell a + amt\<rparr>"

lemmas amt_ing_defs =
  UnitAmt_onAmtLongYdSubIngChange_def UnitAmt_onAmtLongTdAddIngChange_def
  UnitAmt_onAmtLongTdSubIngChange_def UnitAmt_onAmtShortYdSubIngChange_def
  UnitAmt_onAmtShortTdAddIngChange_def UnitAmt_onAmtShortTdSubIngChange_def

lemmas amt_defs =
  amt_ing_defs UnitAmt_onAmtLongChange_def UnitAmt_onAmtShortChange_def
  UnitAmt_onAmtBuyChange_def UnitAmt_onAmtSellChange_def

lemmas amt_calc_defs =
  UnitAmt_calcAmtChangeOnPxChange_def UnitAmt_calcAmtChangeOnTrd_def
  UnitAmt_calcAmtIngChangeOnNewCxlTrd_def

interpretation amt: persistent UnitAmt_to_json UnitAmt_from_json UnitAmt_onSwitchDay "\<lambda>_ a. a"
  by unfold_locales
    (simp_all add: UnitAmt_to_json_def UnitAmt_from_json_def UnitAmt_onSwitchDay_def
      json_double_def)

section \<open>UnitPnl\<close>

record unit_pnl =
  pos_pnl :: double
  trd_pnl :: double

definition unit_pnl_init :: unit_pnl where
  "unit_pnl_init = \<lparr>pos_pnl = 0, trd_pnl = 0\<rparr>"

definition UnitPnl_to_json :: "unit_pnl \<Rightarrow> json" where
  "UnitPnl_to_json p = JObj [(''pos_pnl'', JFloat (pos_pnl p)), (''trd_pnl'', JFloat (trd_pnl p))]"

text \<open>Nothing is read from the value, so nothing can throw.\<close>

definition UnitPnl_from_json :: "json \<Rightarrow> unit_pnl \<Rightarrow> load_result \<times> unit_pnl" where
  "UnitPnl_from_json j p = (Loaded, p\<lparr>pos_pnl := 0, trd_pnl := 0\<rparr>)"

definition UnitPnl_onSwitchDay :: "unit_pnl \<Rightarrow> unit_pnl" where
  "UnitPnl_onSwitchDay p = p\<lparr>pos_pnl := 0, trd_pnl := 0\<rparr>"

definition UnitPnl_calcPosPnlChangeOnPxChange ::
    "double \<Rightarrow> double \<Rightarrow> int \<Rightarrow> int \<Rightarrow> int \<Rightarrow> double" where
  "UnitPnl_calcPosPnlChangeOnPxChange cur_px prev_px long_yd_ini short_yd_ini vm =
     (cur_px - prev_px) * of_int (long_yd_ini - short_yd_ini) * of_int vm"

definition UnitPnl_calcTrdPnlChangeOnPxChange ::
    "double \<Rightarrow> double \<Rightarrow> int \<Rightarrow> int \<Rightarrow> int \<Rightarrow> double" where
  "UnitPnl_calcTrdPnlChangeOnPxChange cur_px prev_px buy sell vm =
     (cur_px - prev_px) * of_int (buy - sell) * of_int vm"

definition UnitPnl_onPosPnlChange :: "double \<Rightarrow> unit_pnl \<Rightarrow> unit_pnl" where
  "UnitPnl_onPosPnlChange delta p = p\<lparr>pos_pnl := pos_pnl p + delta\<rparr>"

definition UnitPnl_onTrdPnlChange :: "double \<Rightarrow> unit_pnl \<Rightarrow> unit_pnl" where
  "UnitPnl_onTrdPnlChange delta p = p\<lparr>trd_pnl := trd_pnl p + delta\<rparr>"

lemmas pnl_defs = UnitPnl_onPosPnlChange_def UnitPnl_onTrdPnlChange_def

lemmas pnl_calc_defs = UnitPnl_calcPosPnlChangeOnPxChange_def UnitPnl_calcTrdPnlChangeOnPxChange_def

interpretation pnl: persistent UnitPnl_to_json UnitPnl_from_json UnitPnl_onSwitchDay "\<lambda>_ p. p"
  by unfold_locales
    (simp_all add: UnitPnl_to_json_def UnitPnl_from_json_def UnitPnl_onSwitchDay_def)

section \<open>UnitPx\<close>

record unit_px =
  stl_px_yd :: double
  last_px :: double
  avg_px_buy :: double
  avg_px_sell :: double

definition unit_px_init :: unit_px where
  "unit_px_init = \<lparr>stl_px_yd = 0, last_px = 0, avg_px_buy = 0, avg_px_sell = 0\<rparr>"

definition UnitPx_to_json :: "unit_px \<Rightarrow> json" where
  "UnitPx_to_json x = JObj
     [(''stl_px_yd'', JFloat (stl_px_yd x)), (''last_px'', JFloat (last_px x)),
      (''avg_px_buy'', JFloat (avg_px_buy x)), (''avg_px_sell'', JFloat (avg_px_sell x))]"

definition UnitPx_from_json :: "json \<Rightarrow> unit_px \<Rightarrow> load_result \<times> unit_px" where
  "UnitPx_from_json j x =
     (case json_double j ''last_px'' of
        None \<Rightarrow> (Rejected, x)
      | Some p \<Rightarrow> (Loaded, x\<lparr>stl_px_yd := p, last_px := p, avg_px_buy := 0, avg_px_sell := 0\<rparr>))"

definition UnitPx_onSwitchDay :: "unit_px \<Rightarrow> unit_px" where
  "UnitPx_onSwitchDay x = x\<lparr>stl_px_yd := last_px x, avg_px_buy := 0, avg_px_sell := 0\<rparr>"

definition UnitPx_calcAvgPx :: "double \<Rightarrow> int \<Rightarrow> int \<Rightarrow> double" where
  "UnitPx_calcAvgPx amt pos vm =
     (if pos = 0 \<or> vm = 0 then 0 else amt / of_int pos / of_int vm)"

interpretation px: persistent UnitPx_to_json UnitPx_from_json UnitPx_onSwitchDay "\<lambda>_ x. x"
  by unfold_locales
    (simp_all add: UnitPx_to_json_def UnitPx_from_json_def UnitPx_onSwitchDay_def json_double_def)

section \<open>Fields that add up\<close>

text \<open>
  A product and the account hold totals of the units of their instruments. An operation
  \<open>shifts\<close> a set of fields when it adds to each of them an amount that does not depend on the
  object; applied to an instrument and to its totals, it then keeps them in step.
\<close>

definition shifts :: "('s \<Rightarrow> 'a::ab_group_add) set \<Rightarrow> ('s \<Rightarrow> 's) \<Rightarrow> bool" where
  "shifts fs g = (\<forall>f \<in> fs. \<forall>x y. f (g x) - f x = f (g y) - f y)"

definition vol_fields :: "(unit_vol \<Rightarrow> int) set" where
  "vol_fields =
     {pos_long_yd_ini, pos_long_yd, pos_long_td, pos_long, pos_long_yd_cls_ing,
      pos_long_td_cls_ing, pos_long_td_opn_ing, pos_short_yd_ini, pos_short_yd, pos_short_td,
      pos_short, pos_short_yd_cls_ing, pos_short_td_cls_ing, pos_short_td_opn_ing, pos_buy,
      pos_sell}"

text \<open>\<^verbatim>\<open>amt_buy\<close> and \<^verbatim>\<open>amt_sell\<close> are not among them: the code keeps them per instrument only.\<close>

definition amt_fields :: "(unit_amt \<Rightarrow> double) set" where
  "amt_fields =
     {amt_long_yd_sub_ing, amt_long_td_add_ing, amt_long_td_sub_ing, amt_long,
      amt_short_yd_sub_ing, amt_short_td_add_ing, amt_short_td_sub_ing, amt_short}"

definition pnl_fields :: "(unit_pnl \<Rightarrow> double) set" where
  "pnl_fields = {pos_pnl, trd_pnl}"

lemma shiftsD: "shifts fs g \<Longrightarrow> f \<in> fs \<Longrightarrow> f (g x) - f x = f (g y) - f y"
  by (auto simp: shifts_def)

lemma shiftsI:
  "(\<And>f x y. f \<in> fs \<Longrightarrow> f (g x) - f x = f (g y) - f y) \<Longrightarrow> shifts fs g"
  by (auto simp: shifts_def)

lemma shifts_id [simp]: "shifts fs (\<lambda>x. x)"
  by (simp add: shifts_def)

lemma shifts_comp:
  assumes "shifts fs g" "shifts fs h"
  shows "shifts fs (\<lambda>x. g (h x))"
  unfolding shifts_def
proof (intro ballI allI)
  fix f x y assume f: "f \<in> fs"
  have "f (g (h x)) - f x = (f (g (h x)) - f (h x)) + (f (h x) - f x)" by simp
  also have "\<dots> = (f (g (h y)) - f (h y)) + (f (h y) - f y)"
    by (simp only: shiftsD [OF assms(1) f, of "h x" "h y"] shiftsD [OF assms(2) f, of x y])
  also have "\<dots> = f (g (h y)) - f y" by simp
  finally show "f (g (h x)) - f x = f (g (h y)) - f y" .
qed

lemma vol_shifts [simp]:
  "shifts vol_fields (UnitVol_onBuyOpnNew n)" "shifts vol_fields (UnitVol_onBuyOpnCxl n)"
  "shifts vol_fields (UnitVol_onBuyOpnTrd n)" "shifts vol_fields (UnitVol_onSellOpnNew n)"
  "shifts vol_fields (UnitVol_onSellOpnCxl n)" "shifts vol_fields (UnitVol_onSellOpnTrd n)"
  "shifts vol_fields (UnitVol_onBuyClsYdNew n)" "shifts vol_fields (UnitVol_onBuyClsYdCxl n)"
  "shifts vol_fields (UnitVol_onBuyClsYdTrd n)" "shifts vol_fields (UnitVol_onSellClsYdNew n)"
  "shifts vol_fields (UnitVol_onSellClsYdCxl n)" "shifts vol_fields (UnitVol_onSellClsYdTrd n)"
  "shifts vol_fields (UnitVol_onBuyClsTdNew n)" "shifts vol_fields (UnitVol_onBuyClsTdCxl n)"
  "shifts vol_fields (UnitVol_onBuyClsTdTrd n)" "shifts vol_fields (UnitVol_onSellClsTdNew n)"
  "shifts vol_fields (UnitVol_onSellClsTdCxl n)" "shifts vol_fields (UnitVol_onSellClsTdTrd n)"
  by (rule shiftsI; auto simp: vol_fields_def vol_defs)+

lemma amt_shifts [simp]:
  "shifts amt_fields (UnitAmt_onAmtLongYdSubIngChange x)"
  "shifts amt_fields (UnitAmt_onAmtLongTdAddIngChange x)"
  "shifts amt_fields (UnitAmt_onAmtLongTdSubIngChange x)"
  "shifts amt_fields (UnitAmt_onAmtLongChange x)"
  "shifts amt_fields (UnitAmt_onAmtShortYdSubIngChange x)"
  "shifts amt_fields (UnitAmt_onAmtShortTdAddIngChange x)"
  "shifts amt_fields (UnitAmt_onAmtShortTdSubIngChange x)"
  "shifts amt_fields (UnitAmt_onAmtShortChange x)"
  by (rule shiftsI; auto simp: amt_fields_def amt_defs)+

lemma pnl_shifts [simp]:
  "shifts pnl_fields (UnitPnl_onPosPnlChange x)" "shifts pnl_fields (UnitPnl_onTrdPnlChange x)"
  by (rule shiftsI; auto simp: pnl_fields_def pnl_defs)+

end
