(* ===== verification/Mod_Instr.thy ===== *)
theory Mod_Instr
  imports Account_Units
begin

text \<open>
  \<^verbatim>\<open>account/ModAcc\<close>, \<^verbatim>\<open>account/ModPrd\<close> and \<^verbatim>\<open>account/ModInstr\<close>: the summary of the account, of a
  product and of an instrument. An instrument reports every change to its product and to the
  account through two pointers, so its operations act on a context of three objects; reading
  through a null or dangling pointer is a fault. The lemmas show that an operation moves the
  three levels by the same amounts (\<open>moves\<close>) and keeps the books of the instrument (\<open>ins_books\<close>).
\<close>

section \<open>ModAcc\<close>

record mod_acc =
  unfilled_order_cnt :: int
  acc_amt :: unit_amt
  acc_pnl :: unit_pnl

definition mod_acc_init :: mod_acc where
  "mod_acc_init = \<lparr>unfilled_order_cnt = 0, acc_amt = unit_amt_init, acc_pnl = unit_pnl_init\<rparr>"

definition ModAcc_to_json :: "mod_acc \<Rightarrow> json" where
  "ModAcc_to_json a = JObj
     [(''unfilled_order_cnt'', JInt (unfilled_order_cnt a)),
      (''unit_amt'', UnitAmt_to_json (acc_amt a)),
      (''unit_pnl'', UnitPnl_to_json (acc_pnl a))]"

text \<open>
  The \<^verbatim>\<open>operator[]\<close> that selects a part stands outside the \<^verbatim>\<open>try\<close> of the part: on a value that is
  no object it throws out of the caller too.
\<close>

definition ModAcc_from_json :: "json \<Rightarrow> mod_acc \<Rightarrow> load_result \<times> mod_acc" where
  "ModAcc_from_json j a =
     (let a1 = a\<lparr>unfilled_order_cnt := 0\<rparr> in
      case json_at j ''unit_amt'' of
        None \<Rightarrow> (Thrown, a1)
      | Some ja \<Rightarrow>
          (case UnitAmt_from_json ja (acc_amt a1) of (r, u) \<Rightarrow>
             (let a2 = a1\<lparr>acc_amt := u\<rparr> in
              if r \<noteq> Loaded then (r, a2)
              else case json_at j ''unit_pnl'' of
                     None \<Rightarrow> (Thrown, a2)
                   | Some jp \<Rightarrow>
                       (case UnitPnl_from_json jp (acc_pnl a2) of (r, u) \<Rightarrow>
                          (r, a2\<lparr>acc_pnl := u\<rparr>)))))"

definition ModAcc_onSwitchDay :: "mod_acc \<Rightarrow> mod_acc" where
  "ModAcc_onSwitchDay a =
     a\<lparr>unfilled_order_cnt := 0, acc_amt := UnitAmt_onSwitchDay (acc_amt a),
       acc_pnl := UnitPnl_onSwitchDay (acc_pnl a)\<rparr>"

interpretation acc: persistent ModAcc_to_json ModAcc_from_json ModAcc_onSwitchDay "\<lambda>_ a. a"
  by unfold_locales
    (simp_all add: ModAcc_to_json_def ModAcc_from_json_def ModAcc_onSwitchDay_def amt.reload
      pnl.reload amt.switch_twice pnl.switch_twice Let_def)

section \<open>ModPrd\<close>

record mod_prd =
  prd_name :: string
  prd_vol :: unit_vol
  prd_amt :: unit_amt
  prd_pnl :: unit_pnl

definition mod_prd_init :: mod_prd where
  "mod_prd_init =
     \<lparr>prd_name = [], prd_vol = unit_vol_init, prd_amt = unit_amt_init, prd_pnl = unit_pnl_init\<rparr>"

text \<open>\<^verbatim>\<open>strncpy\<close> into a buffer of 32 bytes; it always succeeds.\<close>

definition ModPrd_init :: "string \<Rightarrow> mod_prd \<Rightarrow> bool \<times> mod_prd" where
  "ModPrd_init name p = (True, p\<lparr>prd_name := take 32 name\<rparr>)"

definition ModPrd_to_json :: "mod_prd \<Rightarrow> json" where
  "ModPrd_to_json p = JObj
     [(''unit_vol'', UnitVol_to_json (prd_vol p)),
      (''unit_amt'', UnitAmt_to_json (prd_amt p)),
      (''unit_pnl'', UnitPnl_to_json (prd_pnl p))]"

definition ModPrd_from_json :: "json \<Rightarrow> mod_prd \<Rightarrow> load_result \<times> mod_prd" where
  "ModPrd_from_json j p =
     (case json_at j ''unit_vol'' of
        None \<Rightarrow> (Thrown, p)
      | Some jv \<Rightarrow>
          (case UnitVol_from_json jv (prd_vol p) of (r, u) \<Rightarrow>
             (let p1 = p\<lparr>prd_vol := u\<rparr> in
              if r \<noteq> Loaded then (r, p1)
              else case json_at j ''unit_amt'' of
                None \<Rightarrow> (Thrown, p1)
              | Some ja \<Rightarrow>
                  (case UnitAmt_from_json ja (prd_amt p1) of (r, u) \<Rightarrow>
                     (let p2 = p1\<lparr>prd_amt := u\<rparr> in
                      if r \<noteq> Loaded then (r, p2)
                      else case json_at j ''unit_pnl'' of
                        None \<Rightarrow> (Thrown, p2)
                      | Some jp \<Rightarrow>
                          (case UnitPnl_from_json jp (prd_pnl p2) of (r, u) \<Rightarrow>
                             (r, p2\<lparr>prd_pnl := u\<rparr>)))))))"

definition ModPrd_onSwitchDay :: "mod_prd \<Rightarrow> mod_prd" where
  "ModPrd_onSwitchDay p =
     p\<lparr>prd_vol := UnitVol_onSwitchDay (prd_vol p), prd_amt := UnitAmt_onSwitchDay (prd_amt p),
       prd_pnl := UnitPnl_onSwitchDay (prd_pnl p)\<rparr>"

interpretation prd: persistent ModPrd_to_json ModPrd_from_json ModPrd_onSwitchDay
    "\<lambda>p0 p. p\<lparr>prd_name := prd_name p0\<rparr>"
  by unfold_locales
    (simp_all add: ModPrd_to_json_def ModPrd_from_json_def ModPrd_onSwitchDay_def vol.reload
      amt.reload pnl.reload vol.switch_twice amt.switch_twice pnl.switch_twice Let_def)

section \<open>ModInstr\<close>

record mod_instr =
  ins_vol :: unit_vol
  ins_amt :: unit_amt
  ins_px :: unit_px
  ins_pnl :: unit_pnl
  ins_p_prd :: "u32 ptr"
  ins_p_acc :: "unit ptr"
  instr_name :: string
  vol_multiple :: int

definition mod_instr_init :: mod_instr where
  "mod_instr_init =
     \<lparr>ins_vol = unit_vol_init, ins_amt = unit_amt_init, ins_px = unit_px_init,
      ins_pnl = unit_pnl_init, ins_p_prd = NullPtr, ins_p_acc = NullPtr, instr_name = [],
      vol_multiple = 0\<rparr>"

definition ModInstr_init :: "string \<Rightarrow> int \<Rightarrow> mod_instr \<Rightarrow> bool \<times> mod_instr" where
  "ModInstr_init name vm i =
     (if vm < 0 then (False, i)
      else (True, i\<lparr>instr_name := take 32 name, vol_multiple := vm\<rparr>))"

definition ModInstr_to_json :: "mod_instr \<Rightarrow> json" where
  "ModInstr_to_json i = JObj
     [(''unit_vol'', UnitVol_to_json (ins_vol i)),
      (''unit_amt'', UnitAmt_to_json (ins_amt i)),
      (''unit_px'', UnitPx_to_json (ins_px i)),
      (''unit_pnl'', UnitPnl_to_json (ins_pnl i))]"

definition ModInstr_from_json :: "json \<Rightarrow> mod_instr \<Rightarrow> load_result \<times> mod_instr" where
  "ModInstr_from_json j i =
     (case json_at j ''unit_vol'' of
        None \<Rightarrow> (Thrown, i)
      | Some jv \<Rightarrow>
          (case UnitVol_from_json jv (ins_vol i) of (r, u) \<Rightarrow>
             (let i1 = i\<lparr>ins_vol := u\<rparr> in
              if r \<noteq> Loaded then (r, i1)
              else case json_at j ''unit_amt'' of
                None \<Rightarrow> (Thrown, i1)
              | Some ja \<Rightarrow>
                  (case UnitAmt_from_json ja (ins_amt i1) of (r, u) \<Rightarrow>
                     (let i2 = i1\<lparr>ins_amt := u\<rparr> in
                      if r \<noteq> Loaded then (r, i2)
                      else case json_at j ''unit_px'' of
                        None \<Rightarrow> (Thrown, i2)
                      | Some jx \<Rightarrow>
                          (case UnitPx_from_json jx (ins_px i2) of (r, u) \<Rightarrow>
                             (let i3 = i2\<lparr>ins_px := u\<rparr> in
                              if r \<noteq> Loaded then (r, i3)
                              else case json_at j ''unit_pnl'' of
                                None \<Rightarrow> (Thrown, i3)
                              | Some jp \<Rightarrow>
                                  (case UnitPnl_from_json jp (ins_pnl i3) of (r, u) \<Rightarrow>
                                     (r, i3\<lparr>ins_pnl := u\<rparr>)))))))))"

definition ModInstr_onSwitchDay :: "mod_instr \<Rightarrow> mod_instr" where
  "ModInstr_onSwitchDay i =
     i\<lparr>ins_vol := UnitVol_onSwitchDay (ins_vol i), ins_amt := UnitAmt_onSwitchDay (ins_amt i),
       ins_px := UnitPx_onSwitchDay (ins_px i), ins_pnl := UnitPnl_onSwitchDay (ins_pnl i)\<rparr>"

text \<open>What is not stored of an instrument: its links and its meta data.\<close>

definition ins_adopt :: "mod_instr \<Rightarrow> mod_instr \<Rightarrow> mod_instr" where
  "ins_adopt i0 i =
     i\<lparr>ins_p_prd := ins_p_prd i0, ins_p_acc := ins_p_acc i0, instr_name := instr_name i0,
       vol_multiple := vol_multiple i0\<rparr>"

interpretation ins: persistent ModInstr_to_json ModInstr_from_json ModInstr_onSwitchDay ins_adopt
  by unfold_locales
    (simp_all add: ModInstr_to_json_def ModInstr_from_json_def ModInstr_onSwitchDay_def vol.reload
      amt.reload px.reload pnl.reload vol.switch_twice amt.switch_twice px.switch_twice
      pnl.switch_twice ins_adopt_def Let_def)

section \<open>The context of an operation\<close>

text \<open>An instrument with what its pointers \<^verbatim>\<open>p_prd\<close> and \<^verbatim>\<open>p_acc\<close> yield.\<close>

record mod_ctx =
  c_ins :: mod_instr
  c_prd :: "mod_prd res"
  c_acc :: "mod_acc res"

definition mk_ctx :: "mod_instr \<Rightarrow> mod_prd \<Rightarrow> mod_acc \<Rightarrow> mod_ctx" where
  "mk_ctx i p a = \<lparr>c_ins = i, c_prd = Inr p, c_acc = Inr a\<rparr>"

definition put_prd :: "(mod_prd \<Rightarrow> mod_prd) \<Rightarrow> mod_ctx \<Rightarrow> mod_ctx res" where
  "put_prd f c = res_bind (c_prd c) (\<lambda>p. Inr (c\<lparr>c_prd := Inr (f p)\<rparr>))"

definition put_acc :: "(mod_acc \<Rightarrow> mod_acc) \<Rightarrow> mod_ctx \<Rightarrow> mod_ctx res" where
  "put_acc f c = res_bind (c_acc c) (\<lambda>a. Inr (c\<lparr>c_acc := Inr (f a)\<rparr>))"

definition put_ins :: "(mod_instr \<Rightarrow> mod_instr) \<Rightarrow> mod_ctx \<Rightarrow> mod_ctx" where
  "put_ins f c = c\<lparr>c_ins := f (c_ins c)\<rparr>"

text \<open>\<^verbatim>\<open>unit_vol.f(..); p_prd->unit_vol.f(..);\<close>\<close>

definition vol_pair :: "(unit_vol \<Rightarrow> unit_vol) \<Rightarrow> mod_ctx \<Rightarrow> mod_ctx res" where
  "vol_pair f c =
     put_prd (\<lambda>p. p\<lparr>prd_vol := f (prd_vol p)\<rparr>) (put_ins (\<lambda>i. i\<lparr>ins_vol := f (ins_vol i)\<rparr>) c)"

text \<open>\<^verbatim>\<open>unit_amt.f(..); p_prd->unit_amt.f(..); p_acc->unit_amt.f(..);\<close>\<close>

definition amt_triple :: "(unit_amt \<Rightarrow> unit_amt) \<Rightarrow> mod_ctx \<Rightarrow> mod_ctx res" where
  "amt_triple f c =
     res_bind (put_prd (\<lambda>p. p\<lparr>prd_amt := f (prd_amt p)\<rparr>)
                 (put_ins (\<lambda>i. i\<lparr>ins_amt := f (ins_amt i)\<rparr>) c))
       (put_acc (\<lambda>a. a\<lparr>acc_amt := f (acc_amt a)\<rparr>))"

definition pnl_triple :: "(unit_pnl \<Rightarrow> unit_pnl) \<Rightarrow> mod_ctx \<Rightarrow> mod_ctx res" where
  "pnl_triple f c =
     res_bind (put_prd (\<lambda>p. p\<lparr>prd_pnl := f (prd_pnl p)\<rparr>)
                 (put_ins (\<lambda>i. i\<lparr>ins_pnl := f (ins_pnl i)\<rparr>) c))
       (put_acc (\<lambda>a. a\<lparr>acc_pnl := f (acc_pnl a)\<rparr>))"

definition count_unfilled :: "int \<Rightarrow> mod_ctx \<Rightarrow> mod_ctx res" where
  "count_unfilled n c = put_acc (\<lambda>a. a\<lparr>unfilled_order_cnt := unfilled_order_cnt a + n\<rparr>) c"

lemma mk_ctx_sel [simp]:
  "c_ins (mk_ctx i p a) = i" "c_prd (mk_ctx i p a) = Inr p" "c_acc (mk_ctx i p a) = Inr a"
  by (simp_all add: mk_ctx_def)

lemma mk_ctx_eq [simp]: "mk_ctx i p a = mk_ctx i' p' a' \<longleftrightarrow> i = i' \<and> p = p' \<and> a = a'"
  by (simp add: mk_ctx_def)

lemma ctx_ops_mk [simp]:
  "put_ins f (mk_ctx i p a) = mk_ctx (f i) p a"
  "put_prd g (mk_ctx i p a) = Inr (mk_ctx i (g p) a)"
  "put_acc h (mk_ctx i p a) = Inr (mk_ctx i p (h a))"
  by (simp_all add: put_ins_def put_prd_def put_acc_def mk_ctx_def)

lemma ctx_steps_mk [simp]:
  "vol_pair fv (mk_ctx i p a) =
     Inr (mk_ctx (i\<lparr>ins_vol := fv (ins_vol i)\<rparr>) (p\<lparr>prd_vol := fv (prd_vol p)\<rparr>) a)"
  "amt_triple fa (mk_ctx i p a) =
     Inr (mk_ctx (i\<lparr>ins_amt := fa (ins_amt i)\<rparr>) (p\<lparr>prd_amt := fa (prd_amt p)\<rparr>)
           (a\<lparr>acc_amt := fa (acc_amt a)\<rparr>))"
  "pnl_triple fp (mk_ctx i p a) =
     Inr (mk_ctx (i\<lparr>ins_pnl := fp (ins_pnl i)\<rparr>) (p\<lparr>prd_pnl := fp (prd_pnl p)\<rparr>)
           (a\<lparr>acc_pnl := fp (acc_pnl a)\<rparr>))"
  "count_unfilled n (mk_ctx i p a) =
     Inr (mk_ctx i p (a\<lparr>unfilled_order_cnt := unfilled_order_cnt a + n\<rparr>))"
  by (simp_all add: vol_pair_def amt_triple_def pnl_triple_def count_unfilled_def)

section \<open>Operations of an instrument\<close>

text \<open>
  \<^verbatim>\<open>ModInstr::onTickPx\<close>: each of the four changes is booked on the three levels unless it is
  zero, then the last price is replaced.
\<close>

definition ModInstr_onTickPx :: "double \<Rightarrow> mod_ctx \<Rightarrow> mod_ctx res" where
  "ModInstr_onTickPx tick_px c0 =
     (let i = c_ins c0;
          delta = UnitAmt_calcAmtChangeOnPxChange tick_px (last_px (ins_px i))
                    (pos_long (ins_vol i)) (vol_multiple i)
      in res_bind (if delta \<noteq> 0 then amt_triple (UnitAmt_onAmtLongChange delta) c0 else Inr c0)
     (\<lambda>c1.
      let i = c_ins c1;
          delta = UnitAmt_calcAmtChangeOnPxChange tick_px (last_px (ins_px i))
                    (pos_short (ins_vol i)) (vol_multiple i)
      in res_bind (if delta \<noteq> 0 then amt_triple (UnitAmt_onAmtShortChange delta) c1 else Inr c1)
     (\<lambda>c2.
      let i = c_ins c2;
          delta = UnitPnl_calcPosPnlChangeOnPxChange tick_px (last_px (ins_px i))
                    (pos_long_yd_ini (ins_vol i)) (pos_short_yd_ini (ins_vol i)) (vol_multiple i)
      in res_bind (if delta \<noteq> 0 then pnl_triple (UnitPnl_onPosPnlChange delta) c2 else Inr c2)
     (\<lambda>c3.
      let i = c_ins c3;
          delta = UnitPnl_calcTrdPnlChangeOnPxChange tick_px (last_px (ins_px i))
                    (pos_buy (ins_vol i)) (pos_sell (ins_vol i)) (vol_multiple i)
      in res_bind (if delta \<noteq> 0 then pnl_triple (UnitPnl_onTrdPnlChange delta) c3 else Inr c3)
     (\<lambda>c4. Inr (put_ins (\<lambda>i. i\<lparr>ins_px := (ins_px i)\<lparr>last_px := tick_px\<rparr>\<rparr>) c4))))))"

definition ModInstr_onNew :: "int \<Rightarrow> int \<Rightarrow> double \<Rightarrow> int \<Rightarrow> mod_ctx \<Rightarrow> mod_ctx res" where
  "ModInstr_onNew dir off px vol c0 =
     (let amt_ing_chg =
            UnitAmt_calcAmtIngChangeOnNewCxlTrd px vol (vol_multiple (c_ins c0))
      in res_bind (count_unfilled 1 c0) (\<lambda>c.
       if dir = AT_CHAR_Buy then
         (if off = AT_CHAR_Open then
            res_bind (vol_pair (UnitVol_onBuyOpnNew vol) c)
              (amt_triple (UnitAmt_onAmtLongTdAddIngChange amt_ing_chg))
          else if off = AT_CHAR_CloseYesterday then
            res_bind (vol_pair (UnitVol_onBuyClsYdNew vol) c)
              (amt_triple (UnitAmt_onAmtShortYdSubIngChange amt_ing_chg))
          else if off = AT_CHAR_CloseToday then
            res_bind (vol_pair (UnitVol_onBuyClsTdNew vol) c)
              (amt_triple (UnitAmt_onAmtShortTdSubIngChange amt_ing_chg))
          else Inr c)
       else if dir = AT_CHAR_Sell then
         (if off = AT_CHAR_Open then
            res_bind (vol_pair (UnitVol_onSellOpnNew vol) c)
              (amt_triple (UnitAmt_onAmtShortTdAddIngChange amt_ing_chg))
          else if off = AT_CHAR_CloseYesterday then
            res_bind (vol_pair (UnitVol_onSellClsYdNew vol) c)
              (amt_triple (UnitAmt_onAmtLongYdSubIngChange amt_ing_chg))
          else if off = AT_CHAR_CloseToday then
            res_bind (vol_pair (UnitVol_onSellClsTdNew vol) c)
              (amt_triple (UnitAmt_onAmtLongTdSubIngChange amt_ing_chg))
          else Inr c)
       else Inr c))"

definition ModInstr_onCxl :: "int \<Rightarrow> int \<Rightarrow> double \<Rightarrow> int \<Rightarrow> mod_ctx \<Rightarrow> mod_ctx res" where
  "ModInstr_onCxl dir off px cxl_vol c0 =
     (let amt_ing_chg =
            -1 * UnitAmt_calcAmtIngChangeOnNewCxlTrd px cxl_vol (vol_multiple (c_ins c0))
      in res_bind (count_unfilled (-1) c0) (\<lambda>c.
       if dir = AT_CHAR_Buy then
         (if off = AT_CHAR_Open then
            res_bind (vol_pair (UnitVol_onBuyOpnCxl cxl_vol) c)
              (amt_triple (UnitAmt_onAmtLongTdAddIngChange amt_ing_chg))
          else if off = AT_CHAR_CloseYesterday then
            res_bind (vol_pair (UnitVol_onBuyClsYdCxl cxl_vol) c)
              (amt_triple (UnitAmt_onAmtShortYdSubIngChange amt_ing_chg))
          else if off = AT_CHAR_CloseToday then
            res_bind (vol_pair (UnitVol_onBuyClsTdCxl cxl_vol) c)
              (amt_triple (UnitAmt_onAmtShortTdSubIngChange amt_ing_chg))
          else Inr c)
       else if dir = AT_CHAR_Sell then
         (if off = AT_CHAR_Open then
            res_bind (vol_pair (UnitVol_onSellOpnCxl cxl_vol) c)
              (amt_triple (UnitAmt_onAmtShortTdAddIngChange amt_ing_chg))
          else if off = AT_CHAR_CloseYesterday then
            res_bind (vol_pair (UnitVol_onSellClsYdCxl cxl_vol) c)
              (amt_triple (UnitAmt_onAmtLongYdSubIngChange amt_ing_chg))
          else if off = AT_CHAR_CloseToday then
            res_bind (vol_pair (UnitVol_onSellClsTdCxl cxl_vol) c)
              (amt_triple (UnitAmt_onAmtLongTdSubIngChange amt_ing_chg))
          else Inr c)
       else Inr c))"

text \<open>The ends of the two directions of \<^verbatim>\<open>onTrd\<close>: money bought or sold, and the average price.\<close>

definition book_buy :: "double \<Rightarrow> mod_ctx \<Rightarrow> mod_ctx" where
  "book_buy amt_chg c =
     put_ins (\<lambda>i. let u = UnitAmt_onAmtBuyChange amt_chg (ins_amt i) in
        i\<lparr>ins_amt := u,
          ins_px := (ins_px i)\<lparr>avg_px_buy :=
            UnitPx_calcAvgPx (amt_buy u) (pos_buy (ins_vol i)) (vol_multiple i)\<rparr>\<rparr>) c"

definition book_sell :: "double \<Rightarrow> mod_ctx \<Rightarrow> mod_ctx" where
  "book_sell amt_chg c =
     put_ins (\<lambda>i. let u = UnitAmt_onAmtSellChange amt_chg (ins_amt i) in
        i\<lparr>ins_amt := u,
          ins_px := (ins_px i)\<lparr>avg_px_sell :=
            UnitPx_calcAvgPx (amt_sell u) (pos_sell (ins_vol i)) (vol_multiple i)\<rparr>\<rparr>) c"

text \<open>The three bookings of a branch of \<^verbatim>\<open>onTrd\<close>: volume, open amount, and held amount.\<close>

definition trd_branch ::
    "(unit_vol \<Rightarrow> unit_vol) \<Rightarrow> (unit_amt \<Rightarrow> unit_amt) \<Rightarrow> (unit_amt \<Rightarrow> unit_amt) \<Rightarrow> mod_ctx \<Rightarrow>
     mod_ctx res" where
  "trd_branch fv f_ing f_held c =
     res_bind (vol_pair fv c) (\<lambda>c. res_bind (amt_triple f_ing c) (amt_triple f_held))"

definition ModInstr_onTrd ::
    "int \<Rightarrow> int \<Rightarrow> double \<Rightarrow> int \<Rightarrow> int \<Rightarrow> double \<Rightarrow> int \<Rightarrow> mod_ctx \<Rightarrow> mod_ctx res" where
  "ModInstr_onTrd dir off px vol vol_traded trd_px trd_vol c0 =
     res_bind (ModInstr_onTickPx trd_px c0) (\<lambda>c1.
      let vm = vol_multiple (c_ins c1);
          amt_ing_chg = -1 * UnitAmt_calcAmtIngChangeOnNewCxlTrd px trd_vol vm;
          amt_chg = UnitAmt_calcAmtChangeOnTrd trd_px trd_vol vm
      in res_bind (if vol = vol_traded then count_unfilled (-1) c1 else Inr c1) (\<lambda>c.
       if dir = AT_CHAR_Buy then
         res_bind
           (if off = AT_CHAR_Open then
              trd_branch (UnitVol_onBuyOpnTrd trd_vol)
                (UnitAmt_onAmtLongTdAddIngChange amt_ing_chg) (UnitAmt_onAmtLongChange amt_chg) c
            else if off = AT_CHAR_CloseYesterday then
              trd_branch (UnitVol_onBuyClsYdTrd trd_vol)
                (UnitAmt_onAmtShortYdSubIngChange amt_ing_chg)
                (UnitAmt_onAmtShortChange (-1 * amt_chg)) c
            else if off = AT_CHAR_CloseToday then
              trd_branch (UnitVol_onBuyClsTdTrd trd_vol)
                (UnitAmt_onAmtShortTdSubIngChange amt_ing_chg)
                (UnitAmt_onAmtShortChange (-1 * amt_chg)) c
            else Inr c)
           (\<lambda>c. Inr (book_buy amt_chg c))
       else if dir = AT_CHAR_Sell then
         res_bind
           (if off = AT_CHAR_Open then
              trd_branch (UnitVol_onSellOpnTrd trd_vol)
                (UnitAmt_onAmtShortTdAddIngChange amt_ing_chg) (UnitAmt_onAmtShortChange amt_chg) c
            else if off = AT_CHAR_CloseYesterday then
              trd_branch (UnitVol_onSellClsYdTrd trd_vol)
                (UnitAmt_onAmtLongYdSubIngChange amt_ing_chg)
                (UnitAmt_onAmtLongChange (-1 * amt_chg)) c
            else if off = AT_CHAR_CloseToday then
              trd_branch (UnitVol_onSellClsTdTrd trd_vol)
                (UnitAmt_onAmtLongTdSubIngChange amt_ing_chg)
                (UnitAmt_onAmtLongChange (-1 * amt_chg)) c
            else Inr c)
           (\<lambda>c. Inr (book_sell amt_chg c))
       else Inr c))"

section \<open>The three levels move together\<close>

definition moves :: "mod_ctx \<Rightarrow> mod_ctx \<Rightarrow> bool" where
  "moves c d \<longleftrightarrow>
     (\<exists>i p a i' p' a'. c = mk_ctx i p a \<and> d = mk_ctx i' p' a' \<and>
        (\<forall>f \<in> vol_fields. f (prd_vol p') - f (prd_vol p) = f (ins_vol i') - f (ins_vol i)) \<and>
        (\<forall>f \<in> amt_fields. f (prd_amt p') - f (prd_amt p) = f (ins_amt i') - f (ins_amt i) \<and>
                          f (acc_amt a') - f (acc_amt a) = f (ins_amt i') - f (ins_amt i)) \<and>
        (\<forall>f \<in> pnl_fields. f (prd_pnl p') - f (prd_pnl p) = f (ins_pnl i') - f (ins_pnl i) \<and>
                          f (acc_pnl a') - f (acc_pnl a) = f (ins_pnl i') - f (ins_pnl i)) \<and>
        prd_name p' = prd_name p \<and> ins_p_prd i' = ins_p_prd i \<and> ins_p_acc i' = ins_p_acc i \<and>
        instr_name i' = instr_name i \<and> vol_multiple i' = vol_multiple i)"

lemma moves_mk:
  "moves (mk_ctx i p a) (mk_ctx i' p' a') \<longleftrightarrow>
     (\<forall>f \<in> vol_fields. f (prd_vol p') - f (prd_vol p) = f (ins_vol i') - f (ins_vol i)) \<and>
     (\<forall>f \<in> amt_fields. f (prd_amt p') - f (prd_amt p) = f (ins_amt i') - f (ins_amt i) \<and>
                       f (acc_amt a') - f (acc_amt a) = f (ins_amt i') - f (ins_amt i)) \<and>
     (\<forall>f \<in> pnl_fields. f (prd_pnl p') - f (prd_pnl p) = f (ins_pnl i') - f (ins_pnl i) \<and>
                       f (acc_pnl a') - f (acc_pnl a) = f (ins_pnl i') - f (ins_pnl i)) \<and>
     prd_name p' = prd_name p \<and> ins_p_prd i' = ins_p_prd i \<and> ins_p_acc i' = ins_p_acc i \<and>
     instr_name i' = instr_name i \<and> vol_multiple i' = vol_multiple i"
  by (auto simp: moves_def)

lemma moves_refl [simp]: "moves (mk_ctx i p a) (mk_ctx i p a)"
  by (auto simp: moves_def)

lemma moves_trans:
  assumes "moves c d" "moves d e"
  shows "moves c e"
proof -
  have t: "w - u = z - x" if "v - u = y - x" "w - v = z - y" for u v w x y z :: "'a::ab_group_add"
    using that by (metis add_diff_cancel_left' add_diff_eq diff_add_cancel)
  show ?thesis
    using assms unfolding moves_def by (elim exE conjE) (simp, blast intro: t)
qed

text \<open>
  \<open>moved c r\<close>: the result \<open>r\<close> of an operation on \<open>c\<close> is no fault and the levels moved together.
  The rules below follow the shape of the operations.
\<close>

definition live :: "mod_ctx \<Rightarrow> bool" where
  "live c \<longleftrightarrow> (\<exists>i p a. c = mk_ctx i p a)"

definition moved :: "mod_ctx \<Rightarrow> mod_ctx res \<Rightarrow> bool" where
  "moved c r \<longleftrightarrow> (\<exists>d. r = Inr d \<and> moves c d)"

lemma live_mk [simp]: "live (mk_ctx i p a)"
  by (auto simp: live_def)

lemma moves_live: "moves c d \<Longrightarrow> live d"
  by (auto simp: moves_def)

lemma moved_Inr [intro]: "live c \<Longrightarrow> moved c (Inr c)"
  by (auto simp: moved_def live_def)

lemma moved_bind:
  assumes "moved c r" "\<And>d. live d \<Longrightarrow> moved d (g d)"
  shows "moved c (res_bind r g)"
proof -
  obtain d where d: "r = Inr d" "moves c d" using assms(1) by (auto simp: moved_def)
  obtain e where "g d = Inr e" "moves d e"
    using assms(2) [OF moves_live [OF d(2)]] by (auto simp: moved_def)
  with d show ?thesis by (auto simp: moved_def intro: moves_trans)
qed

lemma moved_if: "moved c r \<Longrightarrow> moved c s \<Longrightarrow> moved c (if b then r else s)"
  by simp

lemma moved_vol: "live c \<Longrightarrow> shifts vol_fields f \<Longrightarrow> moved c (vol_pair f c)"
  by (auto simp: moved_def moves_def live_def shiftsD)

lemma moved_amt: "live c \<Longrightarrow> shifts amt_fields f \<Longrightarrow> moved c (amt_triple f c)"
  by (auto simp: moved_def moves_mk live_def shiftsD)

lemma moved_pnl: "live c \<Longrightarrow> shifts pnl_fields f \<Longrightarrow> moved c (pnl_triple f c)"
  by (auto simp: moved_def moves_mk live_def shiftsD)

lemma moved_count: "live c \<Longrightarrow> moved c (count_unfilled n c)"
  by (auto simp: moved_def moves_def live_def)

lemma moved_book:
  "live c \<Longrightarrow> moved c (Inr (book_buy x c))" "live c \<Longrightarrow> moved c (Inr (book_sell x c))"
  by (auto simp: moved_def moves_def live_def book_buy_def book_sell_def Let_def amt_fields_def
      UnitAmt_onAmtBuyChange_def UnitAmt_onAmtSellChange_def)

lemma moved_px: "live c \<Longrightarrow> moved c (Inr (put_ins (\<lambda>i. i\<lparr>ins_px := f i\<rparr>) c))"
  by (auto simp: moved_def moves_def live_def)

lemmas moved_rules =
  moved_bind moved_if moved_vol moved_amt moved_pnl moved_count moved_book moved_px moved_Inr

lemma moved_trd_branch:
  "live c \<Longrightarrow> shifts vol_fields fv \<Longrightarrow> shifts amt_fields f1 \<Longrightarrow> shifts amt_fields f2 \<Longrightarrow>
   moved c (trd_branch fv f1 f2 c)"
  unfolding trd_branch_def by (intro moved_rules)

lemma moved_onTickPx: "live c \<Longrightarrow> moved c (ModInstr_onTickPx px c)"
  unfolding ModInstr_onTickPx_def Let_def by (intro moved_rules) simp_all

lemma moved_onNew: "live c \<Longrightarrow> moved c (ModInstr_onNew dir off px vol c)"
  unfolding ModInstr_onNew_def Let_def by (intro moved_rules) simp_all

lemma moved_onCxl: "live c \<Longrightarrow> moved c (ModInstr_onCxl dir off px vol c)"
  unfolding ModInstr_onCxl_def Let_def by (intro moved_rules) simp_all

lemma moved_onTrd: "live c \<Longrightarrow> moved c (ModInstr_onTrd dir off px vol vol_traded trd_px trd_vol c)"
  unfolding ModInstr_onTrd_def Let_def
  by (intro moved_rules moved_onTickPx moved_trd_branch) simp_all

section \<open>A tick in one step\<close>

text \<open>The four bookings of a tick, zero or not, as one update of the amounts and one of the PnL.\<close>

definition tick_amt :: "double \<Rightarrow> mod_instr \<Rightarrow> unit_amt \<Rightarrow> unit_amt" where
  "tick_amt px i u =
     u\<lparr>amt_long := amt_long u + (px - last_px (ins_px i)) * of_int (pos_long (ins_vol i)) *
                     of_int (vol_multiple i),
       amt_short := amt_short u + (px - last_px (ins_px i)) * of_int (pos_short (ins_vol i)) *
                     of_int (vol_multiple i)\<rparr>"

definition tick_pnl :: "double \<Rightarrow> mod_instr \<Rightarrow> unit_pnl \<Rightarrow> unit_pnl" where
  "tick_pnl px i u =
     u\<lparr>pos_pnl := pos_pnl u + (px - last_px (ins_px i)) *
                    of_int (pos_long_yd_ini (ins_vol i) - pos_short_yd_ini (ins_vol i)) *
                    of_int (vol_multiple i),
       trd_pnl := trd_pnl u + (px - last_px (ins_px i)) *
                    of_int (pos_buy (ins_vol i) - pos_sell (ins_vol i)) * of_int (vol_multiple i)\<rparr>"

lemma add_zero_changes:
  "UnitAmt_onAmtLongChange 0 = (\<lambda>u. u)" "UnitAmt_onAmtShortChange 0 = (\<lambda>u. u)"
  "UnitPnl_onPosPnlChange 0 = (\<lambda>u. u)" "UnitPnl_onTrdPnlChange 0 = (\<lambda>u. u)"
  by (simp_all add: fun_eq_iff amt_defs pnl_defs)

lemma skip_zero_amt:
  "f 0 = (\<lambda>u. u) \<Longrightarrow>
   (if d \<noteq> 0 then amt_triple (f d) (mk_ctx i p a) else Inr (mk_ctx i p a)) =
   amt_triple (f d) (mk_ctx i p a)"
  by simp

lemma skip_zero_pnl:
  "f 0 = (\<lambda>u. u) \<Longrightarrow>
   (if d \<noteq> 0 then pnl_triple (f d) (mk_ctx i p a) else Inr (mk_ctx i p a)) =
   pnl_triple (f d) (mk_ctx i p a)"
  by simp

lemmas skip_zero =
  skip_zero_amt [where f = UnitAmt_onAmtLongChange, OF add_zero_changes(1)]
  skip_zero_amt [where f = UnitAmt_onAmtShortChange, OF add_zero_changes(2)]
  skip_zero_pnl [where f = UnitPnl_onPosPnlChange, OF add_zero_changes(3)]
  skip_zero_pnl [where f = UnitPnl_onTrdPnlChange, OF add_zero_changes(4)]

lemma onTickPx_mk:
  "ModInstr_onTickPx px (mk_ctx i p a) =
     Inr (mk_ctx
       (i\<lparr>ins_amt := tick_amt px i (ins_amt i), ins_pnl := tick_pnl px i (ins_pnl i),
          ins_px := (ins_px i)\<lparr>last_px := px\<rparr>\<rparr>)
       (p\<lparr>prd_amt := tick_amt px i (prd_amt p), prd_pnl := tick_pnl px i (prd_pnl p)\<rparr>)
       (a\<lparr>acc_amt := tick_amt px i (acc_amt a), acc_pnl := tick_pnl px i (acc_pnl a)\<rparr>))"
  unfolding ModInstr_onTickPx_def Let_def
  by (simp only: skip_zero mk_ctx_sel ctx_steps_mk ctx_ops_mk res_bind_simps)
    (simp add: tick_amt_def tick_pnl_def amt_defs pnl_defs amt_calc_defs pnl_calc_defs)

section \<open>The books of an instrument\<close>

text \<open>
  The relations between the fields of an instrument: positions split into yesterday's and
  today's, the net position is the initial one plus what was bought less what was sold, held
  amounts are marked to the last price, position PnL is the move of the initial position since
  the settlement price, trade PnL is the marked value of today's trades less what they cost, and
  the average prices are those of today's trades.
\<close>

definition ins_books :: "mod_instr \<Rightarrow> bool" where
  "ins_books i \<longleftrightarrow>
     (let v = ins_vol i; a = ins_amt i; x = ins_px i; n = ins_pnl i; vm = of_int (vol_multiple i)
      in pos_long v = pos_long_yd v + pos_long_td v \<and>
         pos_short v = pos_short_yd v + pos_short_td v \<and>
         pos_long v - pos_short v =
           pos_long_yd_ini v - pos_short_yd_ini v + pos_buy v - pos_sell v \<and>
         amt_long a = last_px x * of_int (pos_long v) * vm \<and>
         amt_short a = last_px x * of_int (pos_short v) * vm \<and>
         pos_pnl n =
           (last_px x - stl_px_yd x) * of_int (pos_long_yd_ini v - pos_short_yd_ini v) * vm \<and>
         trd_pnl n =
           last_px x * of_int (pos_buy v - pos_sell v) * vm - (amt_buy a - amt_sell a) \<and>
         avg_px_buy x = UnitPx_calcAvgPx (amt_buy a) (pos_buy v) (vol_multiple i) \<and>
         avg_px_sell x = UnitPx_calcAvgPx (amt_sell a) (pos_sell v) (vol_multiple i))"

lemma books_tick: "ins_books i \<Longrightarrow> ModInstr_onTickPx px (mk_ctx i p a) = Inr d \<Longrightarrow> ins_books (c_ins d)"
  by (auto simp: onTickPx_mk ins_books_def Let_def tick_amt_def tick_pnl_def algebra_simps)

lemma books_new: "ins_books i \<Longrightarrow> ModInstr_onNew dir off px vol (mk_ctx i p a) = Inr d \<Longrightarrow> ins_books (c_ins d)"
  by (auto simp: ModInstr_onNew_def Let_def ins_books_def vol_new_defs amt_ing_defs split: if_splits)

lemma books_cxl: "ins_books i \<Longrightarrow> ModInstr_onCxl dir off px vol (mk_ctx i p a) = Inr d \<Longrightarrow> ins_books (c_ins d)"
  by (auto simp: ModInstr_onCxl_def Let_def ins_books_def vol_cxl_defs amt_ing_defs split: if_splits)

lemma books_trd:
  assumes "ins_books i" "dir_known dir" "off_known off"
    and "ModInstr_onTrd dir off px vol vol_traded trd_px trd_vol (mk_ctx i p a) = Inr d"
  shows "ins_books (c_ins d)"
  using assms
  by (auto simp: ModInstr_onTrd_def onTickPx_mk Let_def trd_branch_def book_buy_def book_sell_def
      dir_known_def off_known_def ins_books_def vol_trd_defs amt_defs amt_calc_defs tick_amt_def
      tick_pnl_def algebra_simps split: if_splits)

end
