(* ===== verification/Acc_Base.thy ===== *)
theory Acc_Base
  imports Mod_Instr Trade_Base "HOL-Library.Char_ord" "HOL-Library.List_Lexorder"
begin

text \<open>
  \<^verbatim>\<open>account/AccBase\<close>: an account, with its instruments, their products and its summary, the
  callbacks of the trading process, and its files. \<^verbatim>\<open>map_instr_\<close> and \<^verbatim>\<open>map_prd_\<close> are unordered
  maps keyed by the hashes of the names; the pointers between them stay valid while the entry they
  point to is not erased. The instrument table of \<^verbatim>\<open>CTradeBaseInfo\<close> is an argument.

  The file system is an argument too: a list of files with the JSON value of their text
  (\<^const>\<open>None\<close> where the text does not parse), and which paths can be created, written and read.
\<close>

section \<open>State\<close>

record acc_base =
  ab_j_conf :: json
  ab_acc_name :: string
  ab_map_instr :: "(u32, mod_instr) umap"
  ab_map_prd :: "(u32, mod_prd) umap"
  ab_mod_acc :: mod_acc

definition acc_base_init :: acc_base where
  "acc_base_init =
     \<lparr>ab_j_conf = JNull, ab_acc_name = [], ab_map_instr = [], ab_map_prd = [],
      ab_mod_acc = mod_acc_init\<rparr>"

definition AccBase_init :: "string \<Rightarrow> json \<Rightarrow> acc_base \<Rightarrow> bool \<times> acc_base" where
  "AccBase_init name j s = (True, s\<lparr>ab_j_conf := j, ab_acc_name := take 64 name\<rparr>)"

section \<open>Registration\<close>

definition AccBase_isExistModPrd :: "u32 \<Rightarrow> acc_base \<Rightarrow> bool" where
  "AccBase_isExistModPrd h s = um_has h (ab_map_prd s)"

definition AccBase_isExistModInstr :: "u32 \<Rightarrow> acc_base \<Rightarrow> bool" where
  "AccBase_isExistModInstr h s = um_has h (ab_map_instr s)"

text \<open>\<^verbatim>\<open>map_prd_[prd_hash].init(..)\<close>: the default entry stays when \<^verbatim>\<open>init\<close> fails.\<close>

definition AccBase_regModPrd :: "string \<Rightarrow> acc_base \<Rightarrow> bool \<times> acc_base" where
  "AccBase_regModPrd name s =
     (let h = INSTR_NAME_TO_HASH name in
      if AccBase_isExistModPrd h s then (True, s)
      else case ModPrd_init name mod_prd_init of (ok, p) \<Rightarrow>
             (ok, s\<lparr>ab_map_prd := AList.update h p (ab_map_prd s)\<rparr>))"

definition AccBase_regModInstr :: "instr_table \<Rightarrow> string \<Rightarrow> acc_base \<Rightarrow> bool \<times> acc_base" where
  "AccBase_regModInstr tb name s =
     (let h = INSTR_NAME_TO_HASH name in
      if AccBase_isExistModInstr h s then (True, s)
      else case map_of tb h of
             None \<Rightarrow> (False, s)
           | Some info \<Rightarrow>
               (case ModInstr_init name (ii_vol_multiple info) mod_instr_init of (ok, i) \<Rightarrow>
                  (ok, s\<lparr>ab_map_instr := AList.update h i (ab_map_instr s)\<rparr>)))"

text \<open>
  \<^verbatim>\<open>map_instr_[instr_hash].p_prd = &map_prd_[prd_hash]\<close>: both \<^verbatim>\<open>operator[]\<close> create what is missing.
\<close>

definition acc_link :: "u32 \<Rightarrow> u32 \<Rightarrow> acc_base \<Rightarrow> acc_base" where
  "acc_link h prd_hash s =
     (let prds = um_touch mod_prd_init prd_hash (ab_map_prd s);
          instrs = um_touch mod_instr_init h (ab_map_instr s);
          i = (case map_of instrs h of None \<Rightarrow> mod_instr_init | Some i \<Rightarrow> i)
      in s\<lparr>ab_map_prd := prds,
           ab_map_instr :=
             AList.update h (i\<lparr>ins_p_prd := PtrTo prd_hash, ins_p_acc := PtrTo ()\<rparr>) instrs\<rparr>)"

definition AccBase_regInstr :: "instr_table \<Rightarrow> string \<Rightarrow> acc_base \<Rightarrow> bool \<times> acc_base" where
  "AccBase_regInstr tb name s =
     (let h = INSTR_NAME_TO_HASH name in
      case map_of tb h of
        None \<Rightarrow> (False, s)
      | Some info \<Rightarrow>
          (let prd_hash = ii_product_hash info in
           case (if AccBase_isExistModPrd prd_hash s then (True, s)
                 else AccBase_regModPrd (ii_product info) s) of (ok, s1) \<Rightarrow>
             if \<not> ok then (False, s1)
             else if AccBase_isExistModInstr h s1 then (True, s1)
             else case AccBase_regModInstr tb name s1 of (ok2, s2) \<Rightarrow>
               if \<not> ok2 then (False, s2) else (True, acc_link h prd_hash s2)))"

section \<open>The callbacks\<close>

text \<open>
  An instrument with what its two pointers yield, and how the changes made through the pointers
  come back into the account.
\<close>

definition acc_ptr :: "acc_base \<Rightarrow> unit ptr \<Rightarrow> mod_acc res" where
  "acc_ptr s p = deref (\<lambda>_. Some (ab_mod_acc s)) p"

definition acc_ctx :: "u32 \<Rightarrow> acc_base \<Rightarrow> mod_ctx" where
  "acc_ctx h s =
     (let i = (case map_of (ab_map_instr s) h of None \<Rightarrow> mod_instr_init | Some i \<Rightarrow> i)
      in \<lparr>c_ins = i, c_prd = deref (map_of (ab_map_prd s)) (ins_p_prd i),
          c_acc = acc_ptr s (ins_p_acc i)\<rparr>)"

definition acc_put_ctx :: "u32 \<Rightarrow> mod_ctx \<Rightarrow> acc_base \<Rightarrow> acc_base" where
  "acc_put_ctx h c s =
     s\<lparr>ab_map_instr := AList.update h (c_ins c) (ab_map_instr s),
       ab_map_prd :=
         (case (ins_p_prd (c_ins c), c_prd c) of
            (PtrTo k, Inr p) \<Rightarrow> AList.update k p (ab_map_prd s)
          | _ \<Rightarrow> ab_map_prd s),
       ab_mod_acc := (case c_acc c of Inr a \<Rightarrow> a | Inl _ \<Rightarrow> ab_mod_acc s)\<rparr>"

text \<open>
  The frame the callbacks share: find the hash in the table, register the instrument of the entry,
  take \<^verbatim>\<open>map_instr_[hash]\<close>, act on it.
\<close>

definition acc_on_instr ::
    "instr_table \<Rightarrow> u32 \<Rightarrow> (mod_ctx \<Rightarrow> mod_ctx res) \<Rightarrow> acc_base \<Rightarrow> acc_base res" where
  "acc_on_instr tb h act s =
     (case map_of tb h of
        None \<Rightarrow> Inr s
      | Some info \<Rightarrow>
          (case AccBase_regInstr tb (ii_instr info) s of (ok, s1) \<Rightarrow>
             if \<not> ok then Inr s1
             else (let s2 = s1\<lparr>ab_map_instr := um_touch mod_instr_init h (ab_map_instr s1)\<rparr>
                   in res_bind (act (acc_ctx h s2)) (\<lambda>c. Inr (acc_put_ctx h c s2)))))"

definition AccBase_onNew ::
    "instr_table \<Rightarrow> int \<Rightarrow> int \<Rightarrow> double \<Rightarrow> int \<Rightarrow> u32 \<Rightarrow> acc_base \<Rightarrow> acc_base res" where
  "AccBase_onNew tb dir off px vol h s = acc_on_instr tb h (ModInstr_onNew dir off px vol) s"

definition AccBase_onTickPx :: "instr_table \<Rightarrow> u32 \<Rightarrow> double \<Rightarrow> acc_base \<Rightarrow> acc_base res" where
  "AccBase_onTickPx tb h tick_px s = acc_on_instr tb h (ModInstr_onTickPx tick_px) s"

definition rtn_act :: "order_track \<Rightarrow> rtn_msg \<Rightarrow> mod_ctx \<Rightarrow> mod_ctx res" where
  "rtn_act t m c =
     res_bind
       (if rm_msg_type m AND (ODS_REJECT OR ODS_MARKET_REJECT OR ODS_CANCELED) \<noteq> 0 then
          ModInstr_onCxl (ot_dir t) (ot_off t) (ot_price t) (rm_vol m) c
        else Inr c)
       (\<lambda>c1. if rm_msg_type m AND ODS_EXECUTION \<noteq> 0 then
          ModInstr_onTrd (ot_dir t) (ot_off t) (ot_price t) (ot_vol t) (ot_vol_traded t)
            (rm_price m) (rm_vol m) c1
        else Inr c1)"

definition AccBase_onRtn ::
    "instr_table \<Rightarrow> order_track \<Rightarrow> rtn_msg \<Rightarrow> acc_base \<Rightarrow> acc_base res" where
  "AccBase_onRtn tb t m s = acc_on_instr tb (ot_instr_hash t) (rtn_act t m) s"

text \<open>The average price of the trades of an order as \<^verbatim>\<open>onOrderTrack\<close> derives it.\<close>

definition track_trd_px :: "order_track \<Rightarrow> double" where
  "track_trd_px t =
     (if ot_vol_traded t = 0 then 0 else ot_amount_traded t / of_int (ot_vol_traded t))"

definition track_act :: "order_track \<Rightarrow> mod_ctx \<Rightarrow> mod_ctx res" where
  "track_act t c =
     res_bind
       (if ot_status t AND (ODS_SEND OR ODS_TDSEND) \<noteq> 0 then
          ModInstr_onNew (ot_dir t) (ot_off t) (ot_price t) (ot_vol t) c
        else Inr c)
       (\<lambda>c1. res_bind
         (if ot_status t AND ODS_CLOSED \<noteq> 0 \<and> ot_vol t \<noteq> ot_vol_traded t then
            ModInstr_onCxl (ot_dir t) (ot_off t) (ot_price t) (ot_vol t - ot_vol_traded t) c1
          else Inr c1)
       (\<lambda>c2. if ot_status t AND ODS_EXECUTION \<noteq> 0 then
            ModInstr_onTrd (ot_dir t) (ot_off t) (ot_price t) (ot_vol t) (ot_vol_traded t)
              (track_trd_px t) (ot_vol_traded t) c2
          else Inr c2))"

definition AccBase_onOrderTrack :: "instr_table \<Rightarrow> order_track \<Rightarrow> acc_base \<Rightarrow> acc_base res" where
  "AccBase_onOrderTrack tb t s = acc_on_instr tb (ot_instr_hash t) (track_act t) s"

section \<open>Day switch\<close>

definition vol_flat :: "unit_vol \<Rightarrow> bool" where
  "vol_flat v = (0 = pos_long v \<and> 0 = pos_short v)"

text \<open>A pointer to an entry that was erased dangles, even when its key is registered anew later.\<close>

definition ptr_after_erase :: "(u32, mod_prd) umap \<Rightarrow> u32 ptr \<Rightarrow> u32 ptr" where
  "ptr_after_erase prds p =
     (case p of PtrTo k \<Rightarrow> (if um_has k prds then PtrTo k else DanglingPtr) | _ \<Rightarrow> p)"

definition AccBase_onSwitchDay :: "acc_base \<Rightarrow> acc_base" where
  "AccBase_onSwitchDay s =
     (let prds = um_map ModPrd_onSwitchDay (um_drop (\<lambda>p. vol_flat (prd_vol p)) (ab_map_prd s));
          instrs = um_map (\<lambda>i. (ModInstr_onSwitchDay i)
                       \<lparr>ins_p_prd := ptr_after_erase prds (ins_p_prd i)\<rparr>)
                     (um_drop (\<lambda>i. vol_flat (ins_vol i)) (ab_map_instr s))
      in s\<lparr>ab_mod_acc := ModAcc_onSwitchDay (ab_mod_acc s), ab_map_prd := prds,
           ab_map_instr := instrs\<rparr>)"

section \<open>Queries\<close>

definition AccBase_getModAcc :: "acc_base \<Rightarrow> mod_acc" where
  "AccBase_getModAcc s = ab_mod_acc s"

definition AccBase_getModInstr :: "u32 \<Rightarrow> acc_base \<Rightarrow> mod_instr option" where
  "AccBase_getModInstr h s = map_of (ab_map_instr s) h"

definition AccBase_getModPrd :: "u32 \<Rightarrow> acc_base \<Rightarrow> mod_prd option" where
  "AccBase_getModPrd h s = map_of (ab_map_prd s) h"

definition vol_active :: "unit_vol \<Rightarrow> bool" where
  "vol_active v \<longleftrightarrow>
     0 \<noteq> pos_long v \<or> 0 \<noteq> pos_short v \<or> 0 \<noteq> pos_long_yd_cls_ing v \<or> 0 \<noteq> pos_short_yd_cls_ing v \<or>
     0 \<noteq> pos_long_td_opn_ing v \<or> 0 \<noteq> pos_short_td_opn_ing v \<or> 0 \<noteq> pos_long_td_cls_ing v \<or>
     0 \<noteq> pos_short_td_cls_ing v"

definition AccBase_getAllInstr :: "acc_base \<Rightarrow> mod_instr list" where
  "AccBase_getAllInstr s = filter (\<lambda>i. vol_active (ins_vol i)) (map snd (ab_map_instr s))"

definition AccBase_getAllPrd :: "acc_base \<Rightarrow> mod_prd list" where
  "AccBase_getAllPrd s = filter (\<lambda>p. vol_active (prd_vol p)) (map snd (ab_map_prd s))"

definition AccBase_getAccUnitAmt :: "acc_base \<Rightarrow> unit_amt" where
  "AccBase_getAccUnitAmt s = acc_amt (ab_mod_acc s)"

definition AccBase_getAccUnitPnl :: "acc_base \<Rightarrow> unit_pnl" where
  "AccBase_getAccUnitPnl s = acc_pnl (ab_mod_acc s)"

definition AccBase_getInstrUnitVol :: "u32 \<Rightarrow> acc_base \<Rightarrow> unit_vol option" where
  "AccBase_getInstrUnitVol h s = map_option ins_vol (map_of (ab_map_instr s) h)"

definition AccBase_getInstrUnitAmt :: "u32 \<Rightarrow> acc_base \<Rightarrow> unit_amt option" where
  "AccBase_getInstrUnitAmt h s = map_option ins_amt (map_of (ab_map_instr s) h)"

definition AccBase_getInstrUnitPx :: "u32 \<Rightarrow> acc_base \<Rightarrow> unit_px option" where
  "AccBase_getInstrUnitPx h s = map_option ins_px (map_of (ab_map_instr s) h)"

definition AccBase_getInstrUnitPnl :: "u32 \<Rightarrow> acc_base \<Rightarrow> unit_pnl option" where
  "AccBase_getInstrUnitPnl h s = map_option ins_pnl (map_of (ab_map_instr s) h)"

definition AccBase_getPrdUnitVol :: "u32 \<Rightarrow> acc_base \<Rightarrow> unit_vol option" where
  "AccBase_getPrdUnitVol h s = map_option prd_vol (map_of (ab_map_prd s) h)"

definition AccBase_getPrdUnitAmt :: "u32 \<Rightarrow> acc_base \<Rightarrow> unit_amt option" where
  "AccBase_getPrdUnitAmt h s = map_option prd_amt (map_of (ab_map_prd s) h)"

definition AccBase_getPrdUnitPnl :: "u32 \<Rightarrow> acc_base \<Rightarrow> unit_pnl option" where
  "AccBase_getPrdUnitPnl h s = map_option prd_pnl (map_of (ab_map_prd s) h)"

section \<open>The account as a JSON value\<close>

text \<open>\<^verbatim>\<open>j[k] = v\<close> on a value that is null or an object.\<close>

definition json_set :: "string \<Rightarrow> json \<Rightarrow> json \<Rightarrow> json" where
  "json_set k v j =
     (case j of JObj ms \<Rightarrow> JObj (AList.update k v ms) | _ \<Rightarrow> JObj [(k, v)])"

definition vol_saved :: "unit_vol \<Rightarrow> bool" where
  "vol_saved v \<longleftrightarrow>
     0 \<noteq> pos_long_yd_ini v \<or> 0 \<noteq> pos_long_yd_cls_ing v \<or> 0 \<noteq> pos_long_td_opn_ing v \<or>
     0 \<noteq> pos_long_td_cls_ing v \<or> 0 \<noteq> pos_long v \<or> 0 \<noteq> pos_short_yd_ini v \<or>
     0 \<noteq> pos_short_yd_cls_ing v \<or> 0 \<noteq> pos_short_td_opn_ing v \<or>
     0 \<noteq> pos_short_td_cls_ing v \<or> 0 \<noteq> pos_short v"

definition AccBase_to_json :: "acc_base \<Rightarrow> json" where
  "AccBase_to_json s =
     (let j_prd = fold (\<lambda>(k, p) j. if vol_saved (prd_vol p)
                          then json_set (prd_name p) (ModPrd_to_json p) j else j)
                    (ab_map_prd s) JNull;
          j_instr = fold (\<lambda>(k, i) j. if vol_saved (ins_vol i)
                            then json_set (instr_name i) (ModInstr_to_json i) j else j)
                      (ab_map_instr s) JNull
      in JObj [(''mod_acc'', ModAcc_to_json (ab_mod_acc s)), (''mod_prd'', j_prd),
               (''mod_instr'', j_instr)])"

text \<open>
  The members a loop over a value with \<^verbatim>\<open>it.key()\<close> sees, in the order of the keys; \<^verbatim>\<open>key()\<close> throws
  on an element of anything but an object.
\<close>

definition json_members :: "json \<Rightarrow> (string \<times> json) list option" where
  "json_members j =
     (case j of
        JNull \<Rightarrow> Some []
      | JArr [] \<Rightarrow> Some []
      | JObj ms \<Rightarrow> Some (sort_key fst ms)
      | _ \<Rightarrow> None)"

fun load_members ::
    "(string \<Rightarrow> json \<Rightarrow> 's \<Rightarrow> load_result \<times> 's) \<Rightarrow> (string \<times> json) list \<Rightarrow> 's \<Rightarrow> load_result \<times> 's"
  where
  "load_members f [] s = (Loaded, s)"
| "load_members f ((k, j) # ms) s =
     (case f k j s of (r, s1) \<Rightarrow> if r = Loaded then load_members f ms s1 else (r, s1))"

definition load_section ::
    "json \<Rightarrow> string \<Rightarrow> (string \<Rightarrow> json \<Rightarrow> 's \<Rightarrow> load_result \<times> 's) \<Rightarrow> 's \<Rightarrow> load_result \<times> 's" where
  "load_section j name f s =
     (case Option.bind (json_at j name) json_members of
        None \<Rightarrow> (Thrown, s)
      | Some ms \<Rightarrow> load_members f ms s)"

definition load_instr :: "instr_table \<Rightarrow> string \<Rightarrow> json \<Rightarrow> acc_base \<Rightarrow> load_result \<times> acc_base" where
  "load_instr tb k j s =
     (case AccBase_regInstr tb k s of (ok, s1) \<Rightarrow>
        if \<not> ok then (Rejected, s1)
        else (let h = INSTR_NAME_TO_HASH k;
                  instrs = um_touch mod_instr_init h (ab_map_instr s1);
                  i = (case map_of instrs h of None \<Rightarrow> mod_instr_init | Some i \<Rightarrow> i)
              in case ModInstr_from_json j i of (r, i') \<Rightarrow>
                   (r, s1\<lparr>ab_map_instr := AList.update h i' instrs\<rparr>)))"

definition load_prd :: "string \<Rightarrow> json \<Rightarrow> acc_base \<Rightarrow> load_result \<times> acc_base" where
  "load_prd k j s =
     (let h = INSTR_NAME_TO_HASH k;
          prds = um_touch mod_prd_init h (ab_map_prd s);
          p = (case map_of prds h of None \<Rightarrow> mod_prd_init | Some p \<Rightarrow> p)
      in case ModPrd_from_json j p of (r, p') \<Rightarrow>
           (r, s\<lparr>ab_map_prd := AList.update h p' prds\<rparr>))"

definition AccBase_from_json :: "instr_table \<Rightarrow> json \<Rightarrow> acc_base \<Rightarrow> load_result \<times> acc_base" where
  "AccBase_from_json tb j s =
     (case json_at j ''mod_acc'' of
        None \<Rightarrow> (Thrown, s)
      | Some ja \<Rightarrow>
          (case ModAcc_from_json ja (ab_mod_acc s) of (r, a) \<Rightarrow>
             (let s1 = s\<lparr>ab_mod_acc := a\<rparr> in
              if r \<noteq> Loaded then (r, s1)
              else case load_section j ''mod_instr'' (load_instr tb) s1 of (r2, s2) \<Rightarrow>
                if r2 \<noteq> Loaded then (r2, s2)
                else load_section j ''mod_prd'' load_prd s2)))"

section \<open>Files\<close>

type_synonym disk = "(string \<times> json option) list"

text \<open>What the process can do with a path, and the directory of the installation.\<close>

record file_env =
  fe_account_base_path :: string
  fe_create_path :: "string \<Rightarrow> bool"
  fe_can_write :: "string \<Rightarrow> bool"
  fe_can_read :: "string \<Rightarrow> bool"

definition SUB_ACCOUNT_FILE_SUFFIX :: string where
  "SUB_ACCOUNT_FILE_SUFFIX = ''.substg''"

text \<open>\<^verbatim>\<open>substr(0, find(pat))\<close>, the whole string where the pattern does not occur.\<close>

fun cut_at :: "string \<Rightarrow> string \<Rightarrow> string" where
  "cut_at pat [] = []"
| "cut_at pat (c # cs) = (if take (length pat) (c # cs) = pat then [] else c # cut_at pat cs)"

text \<open>The pattern \<^verbatim>\<open>prefix + "[0-9]*.json"\<close>, for a prefix without special characters.\<close>

definition is_digit :: "char \<Rightarrow> bool" where
  "is_digit c = (c \<in> set ''0123456789'')"

definition glob_match :: "string \<Rightarrow> string \<Rightarrow> bool" where
  "glob_match prefix path =
     (take (length prefix) path = prefix \<and>
      (case drop (length prefix) path of
         [] \<Rightarrow> False
       | d # rest \<Rightarrow>
           is_digit d \<and> length ''.json'' \<le> length rest \<and>
           drop (length rest - length ''.json'') rest = ''.json'' \<and>
           CHR ''/'' \<notin> set rest))"

text \<open>\<^verbatim>\<open>glob\<close> sorts; the loop runs backwards and takes the first path before today's.\<close>

definition latest_before :: "string \<Rightarrow> string \<Rightarrow> disk \<Rightarrow> string" where
  "latest_before prefix today d =
     (case filter (\<lambda>p. p < today) (rev (sort (filter (glob_match prefix) (map fst d)))) of
        [] \<Rightarrow> []
      | p # _ \<Rightarrow> p)"

text \<open>\<^const>\<open>None\<close> is the exception of a \<^verbatim>\<open>save_path\<close> that is no string.\<close>

definition AccBase_path_prefix :: "file_env \<Rightarrow> acc_base \<Rightarrow> string option" where
  "AccBase_path_prefix fe s =
     (case json_find (ab_j_conf s) ''save_path'' of
        Some (JStr p) \<Rightarrow> Some p
      | Some _ \<Rightarrow> None
      | None \<Rightarrow>
          Some (fe_account_base_path fe @ cut_at SUB_ACCOUNT_FILE_SUFFIX (ab_acc_name s) @ ''/''))"

definition AccBase_getJsonFilePath ::
    "file_env \<Rightarrow> disk \<Rightarrow> int \<Rightarrow> string \<Rightarrow> string \<Rightarrow> acc_base \<Rightarrow> (bool \<times> string) option" where
  "AccBase_getJsonFilePath fe d t day path s =
     (case AccBase_path_prefix fe s of
        None \<Rightarrow> None
      | Some pre \<Rightarrow>
          (if t = 0 \<and> \<not> fe_create_path fe pre then Some (False, path)
           else (let prefix = pre @ ab_acc_name s @ ''.'';
                     today_path = prefix @ day @ ''.json''
                 in if t < 0 then
                      (let p = latest_before prefix today_path d
                       in Some (True, if p = [] then path else p))
                    else Some (True, today_path))))"

text \<open>\<^const>\<open>None\<close> is an exception; otherwise the result and the files.\<close>

definition AccBase_save ::
    "file_env \<Rightarrow> string \<Rightarrow> bool \<Rightarrow> acc_base \<Rightarrow> disk \<Rightarrow> (bool \<times> disk) option" where
  "AccBase_save fe day force s d =
     (let daily = (if force then Some True
                   else case json_find (ab_j_conf s) ''save_account_daily'' of
                          None \<Rightarrow> Some True
                        | Some b \<Rightarrow> json_get_bool b)
      in case daily of
           None \<Rightarrow> None
         | Some False \<Rightarrow> Some (True, d)
         | Some True \<Rightarrow>
             (case AccBase_getJsonFilePath fe d 0 day (day @ ''.json'') s of
                None \<Rightarrow> None
              | Some (ok, path) \<Rightarrow>
                  (if \<not> ok \<or> \<not> fe_can_write fe path then Some (False, d)
                   else Some (True, AList.update path (Some (AccBase_to_json s)) d))))"

definition AccBase_load ::
    "file_env \<Rightarrow> instr_table \<Rightarrow> string \<Rightarrow> disk \<Rightarrow> acc_base \<Rightarrow> (bool \<times> acc_base) option" where
  "AccBase_load fe tb today d s =
     (case AccBase_getJsonFilePath fe d (-1) today [] s of
        None \<Rightarrow> None
      | Some (ok, path) \<Rightarrow>
          (if \<not> ok then Some (False, s)
           else if path = [] then Some (True, s)
           else if \<not> fe_can_read fe path then Some (False, s)
           else case map_of d path of
                  Some (Some j) \<Rightarrow>
                    (case AccBase_from_json tb j s of (r, s') \<Rightarrow> Some (r = Loaded, s'))
                | _ \<Rightarrow> Some (False, s)))"

end
