(* ===== verification/Acc_Inv.thy ===== *)
theory Acc_Inv
  imports Acc_Base
begin

text \<open>
  The invariant of an account: every instrument is linked to its product and to the account, keeps
  its books and holds no negative position, every field of a product is the total of the field
  over its instruments, and the amounts and the profit of the account are the totals over all
  instruments. Every callback keeps it and never follows a dead pointer, as long as trades fit
  the positions they close; the proofs go through the contract \<open>guarded_machine\<close>.
\<close>

section \<open>The invariant\<close>

definition vol_pos :: "unit_vol \<Rightarrow> bool" where
  "vol_pos v \<longleftrightarrow> 0 \<le> pos_long_yd v \<and> 0 \<le> pos_long_td v \<and> 0 \<le> pos_short_yd v \<and> 0 \<le> pos_short_td v"

definition ins_ok :: "mod_instr \<Rightarrow> bool" where
  "ins_ok i \<longleftrightarrow> ins_books i \<and> vol_pos (ins_vol i)"

definition of_prd :: "u32 \<Rightarrow> (mod_instr \<Rightarrow> 'a) \<Rightarrow> mod_instr \<Rightarrow> 'a::zero" where
  "of_prd k f i = (if ins_p_prd i = PtrTo k then f i else 0)"

definition prd_totals :: "(u32, mod_instr) umap \<Rightarrow> u32 \<Rightarrow> mod_prd \<Rightarrow> bool" where
  "prd_totals m k p \<longleftrightarrow>
     (\<forall>f \<in> vol_fields. f (prd_vol p) = um_sum (of_prd k (\<lambda>i. f (ins_vol i))) m) \<and>
     (\<forall>f \<in> amt_fields. f (prd_amt p) = um_sum (of_prd k (\<lambda>i. f (ins_amt i))) m) \<and>
     (\<forall>f \<in> pnl_fields. f (prd_pnl p) = um_sum (of_prd k (\<lambda>i. f (ins_pnl i))) m)"

definition acc_totals :: "(u32, mod_instr) umap \<Rightarrow> mod_acc \<Rightarrow> bool" where
  "acc_totals m a \<longleftrightarrow>
     (\<forall>f \<in> amt_fields. f (acc_amt a) = um_sum (\<lambda>i. f (ins_amt i)) m) \<and>
     (\<forall>f \<in> pnl_fields. f (acc_pnl a) = um_sum (\<lambda>i. f (ins_pnl i)) m)"

definition linked :: "(u32, mod_prd) umap \<Rightarrow> mod_instr \<Rightarrow> bool" where
  "linked prds i \<longleftrightarrow>
     (\<exists>k p. ins_p_prd i = PtrTo k \<and> map_of prds k = Some p) \<and> ins_p_acc i = PtrTo ()"

definition acc_inv :: "acc_base \<Rightarrow> bool" where
  "acc_inv s \<longleftrightarrow>
     um_ok (ab_map_instr s) \<and> um_ok (ab_map_prd s) \<and>
     (\<forall>(h, i) \<in> set (ab_map_instr s). linked (ab_map_prd s) i \<and> ins_ok i) \<and>
     (\<forall>(k, p) \<in> set (ab_map_prd s). prd_totals (ab_map_instr s) k p) \<and>
     acc_totals (ab_map_instr s) (ab_mod_acc s)"

lemma acc_invI:
  assumes "um_ok (ab_map_instr s)" "um_ok (ab_map_prd s)"
    and "\<And>h i. map_of (ab_map_instr s) h = Some i \<Longrightarrow> linked (ab_map_prd s) i"
    and "\<And>h i. map_of (ab_map_instr s) h = Some i \<Longrightarrow> ins_ok i"
    and "\<And>k p. map_of (ab_map_prd s) k = Some p \<Longrightarrow> prd_totals (ab_map_instr s) k p"
    and "acc_totals (ab_map_instr s) (ab_mod_acc s)"
  shows "acc_inv s"
  using assms by (auto simp: acc_inv_def map_of_in_set)

lemma acc_invD:
  assumes "acc_inv s"
  shows "um_ok (ab_map_instr s)" "um_ok (ab_map_prd s)"
    and "map_of (ab_map_instr s) h = Some i \<Longrightarrow> linked (ab_map_prd s) i"
    and "map_of (ab_map_instr s) h = Some i \<Longrightarrow> ins_ok i"
    and "map_of (ab_map_prd s) k = Some p \<Longrightarrow> prd_totals (ab_map_instr s) k p"
    and "acc_totals (ab_map_instr s) (ab_mod_acc s)"
  using assms by (auto simp: acc_inv_def dest!: map_of_SomeD)

lemma acc_inv_init [simp]: "acc_inv acc_base_init"
  by (rule acc_invI)
    (auto simp: acc_base_init_def mod_acc_init_def acc_totals_def amt_fields_def pnl_fields_def
      unit_amt_init_def unit_pnl_init_def)

section \<open>An operation on one instrument\<close>

lemma of_prd_update:
  assumes "um_ok m" "map_of m h = Some i" "ins_p_prd i' = ins_p_prd i"
  shows "um_sum (of_prd k g) (AList.update h i' m) =
     um_sum (of_prd k g) m + (if ins_p_prd i = PtrTo k then g i' - g i else (0::'a::ab_group_add))"
  using assms by (simp add: um_sum_update of_prd_def)

lemma acc_inv_put:
  assumes inv: "acc_inv s" and i: "map_of (ab_map_instr s) h = Some i"
    and k: "ins_p_prd i = PtrTo k" "map_of (ab_map_prd s) k = Some p"
    and mv: "moves (mk_ctx i p (ab_mod_acc s)) (mk_ctx i' p' a')" and ok: "ins_ok i'"
  shows "acc_inv (acc_put_ctx h (mk_ctx i' p' a') s)"
proof -
  note D = acc_invD [OF inv]
  have same: "ins_p_prd i' = ins_p_prd i" "ins_p_acc i' = ins_p_acc i"
    using mv by (auto simp: moves_mk)
  let ?m = "AList.update h i' (ab_map_instr s)"
  let ?ps = "AList.update k p' (ab_map_prd s)"
  have s': "acc_put_ctx h (mk_ctx i' p' a') s =
      s\<lparr>ab_map_instr := ?m, ab_map_prd := ?ps, ab_mod_acc := a'\<rparr>"
    using k(1) same by (simp add: acc_put_ctx_def)
  have lk: "linked ?ps j" if "linked (ab_map_prd s) j" for j
    using that by (fastforce simp: linked_def)
  have li: "linked ?ps i'" using lk [OF D(3) [OF i]] same by (simp add: linked_def)
  have tot: "prd_totals ?m j q" if "map_of (ab_map_prd s) j = Some q" "j \<noteq> k" for j q
    using D(5) [OF that(1)] that(2) k(1)
    by (simp add: prd_totals_def of_prd_update [OF D(1) i same(1)])
  have add: "y = S + d" if "x = S" "y - x = d" for x y S d :: "'a::ab_group_add"
    using that by (simp add: diff_eq_eq add.commute)
  have totk: "prd_totals ?m k p'"
    unfolding prd_totals_def of_prd_update [OF D(1) i same(1)]
    using D(5) [OF k(2), unfolded prd_totals_def] mv [unfolded moves_mk] k(1)
    by (simp add: add)
  have acc: "acc_totals ?m a'"
    unfolding acc_totals_def um_sum_update [OF D(1) i]
    using D(6) [unfolded acc_totals_def] mv [unfolded moves_mk]
    by (simp add: add)
  show ?thesis
    unfolding s'
    by (rule acc_invI) (use D lk li tot totk acc ok in \<open>auto split: if_splits\<close>)
qed

section \<open>Registration\<close>

lemma fields_init:
  "f \<in> vol_fields \<Longrightarrow> f unit_vol_init = 0" "g \<in> amt_fields \<Longrightarrow> g unit_amt_init = 0"
  "d \<in> pnl_fields \<Longrightarrow> d unit_pnl_init = 0"
  by (auto simp: vol_fields_def amt_fields_def pnl_fields_def unit_vol_init_def unit_amt_init_def
      unit_pnl_init_def)

lemma um_sum_zero: "(\<And>k v. (k, v) \<in> set m \<Longrightarrow> f v = 0) \<Longrightarrow> um_sum f m = 0"
  by (simp add: um_sum_cong [of m f "\<lambda>_. 0"]) (simp add: um_sum_def split_def sum_list_replicate)

lemma acc_inv_new_prd:
  assumes inv: "acc_inv s" and new: "map_of (ab_map_prd s) k = None"
  shows "acc_inv (s\<lparr>ab_map_prd := AList.update k (mod_prd_init\<lparr>prd_name := n\<rparr>) (ab_map_prd s)\<rparr>)"
proof -
  note D = acc_invD [OF inv]
  have "ins_p_prd i \<noteq> PtrTo k" if "(h, i) \<in> set (ab_map_instr s)" for h i
    using D(3) [of h i] that new D(1) by (auto simp: linked_def map_of_in_set)
  then have z: "um_sum (of_prd k g) (ab_map_instr s) = 0" for g :: "mod_instr \<Rightarrow> 'a::ab_group_add"
    by (intro um_sum_zero) (auto simp: of_prd_def)
  have t: "prd_totals (ab_map_instr s) k (mod_prd_init\<lparr>prd_name := n\<rparr>)"
    by (simp add: prd_totals_def z mod_prd_init_def fields_init)
  have l: "linked (AList.update k q (ab_map_prd s)) i" if "linked (ab_map_prd s) i" for q i
    using that by (fastforce simp: linked_def)
  show ?thesis
    by (rule acc_invI) (use D t l in \<open>auto split: if_splits\<close>)
qed

lemma ins_ok_init: "ins_ok (mod_instr_init\<lparr>instr_name := n, vol_multiple := vm, ins_p_prd := p, ins_p_acc := q\<rparr>)"
  by (simp add: ins_ok_def ins_books_def vol_pos_def mod_instr_init_def unit_vol_init_def
      unit_amt_init_def unit_px_init_def unit_pnl_init_def UnitPx_calcAvgPx_def)

lemma acc_inv_new_instr:
  assumes inv: "acc_inv s" and new: "map_of (ab_map_instr s) h = None"
    and k: "map_of (ab_map_prd s) k = Some p"
  shows "acc_inv (s\<lparr>ab_map_instr := AList.update h (mod_instr_init\<lparr>instr_name := n,
     vol_multiple := vm, ins_p_prd := PtrTo k, ins_p_acc := PtrTo ()\<rparr>) (ab_map_instr s)\<rparr>)"
    (is "acc_inv (s\<lparr>ab_map_instr := AList.update h ?i (ab_map_instr s)\<rparr>)")
proof -
  note D = acc_invD [OF inv]
  have l: "linked (ab_map_prd s) ?i" using k by (simp add: linked_def)
  have zf: "f \<in> vol_fields \<Longrightarrow> f (ins_vol ?i) = 0" "g \<in> amt_fields \<Longrightarrow> g (ins_amt ?i) = 0"
    "d \<in> pnl_fields \<Longrightarrow> d (ins_pnl ?i) = 0" for f g d
    by (simp_all add: mod_instr_init_def fields_init)
  note zf = zf zf [simplified]
  have t: "prd_totals (AList.update h ?i (ab_map_instr s)) j q"
    if "map_of (ab_map_prd s) j = Some q" for j q
    unfolding prd_totals_def um_sum_insert [OF new]
    using D(5) [OF that, unfolded prd_totals_def] by (simp add: of_prd_def zf)
  have a: "acc_totals (AList.update h ?i (ab_map_instr s)) (ab_mod_acc s)"
    unfolding acc_totals_def um_sum_insert [OF new]
    using D(6) [unfolded acc_totals_def] by (simp add: zf)
  show ?thesis
    by (rule acc_invI) (use D l t a ins_ok_init in \<open>auto split: if_splits\<close>)
qed

lemma regModPrd_new:
  assumes "map_of (ab_map_prd s) (INSTR_NAME_TO_HASH name) = None"
  shows "AccBase_regModPrd name s = (True, s\<lparr>ab_map_prd :=
     AList.update (INSTR_NAME_TO_HASH name) (mod_prd_init\<lparr>prd_name := take 32 name\<rparr>) (ab_map_prd s)\<rparr>)"
  using assms
  by (simp add: AccBase_regModPrd_def AccBase_isExistModPrd_def um_has_def ModPrd_init_def Let_def)

lemma reg_link_new:
  assumes "map_of (ab_map_instr s) h = None" "map_of (ab_map_prd s) k = Some p"
    and "h = INSTR_NAME_TO_HASH name" "map_of tb h = Some info" "0 \<le> ii_vol_multiple info"
  shows "(case AccBase_regModInstr tb name s of (ok2, s2) \<Rightarrow>
       if \<not> ok2 then (False, s2) else (True, acc_link h k s2)) =
     (True, s\<lparr>ab_map_instr := AList.update h (mod_instr_init\<lparr>instr_name := take 32 name,
        vol_multiple := ii_vol_multiple info, ins_p_prd := PtrTo k, ins_p_acc := PtrTo ()\<rparr>)
        (ab_map_instr s)\<rparr>)"
  using assms
  by (simp add: AccBase_regModInstr_def AccBase_isExistModInstr_def um_has_def ModInstr_init_def
      acc_link_def Let_def)

text \<open>
  Registering a listed instrument succeeds, keeps the invariant and every instrument there was,
  and leaves an entry for it; a new entry is flat.
\<close>

definition acc_vol :: "u32 \<Rightarrow> acc_base \<Rightarrow> unit_vol" where
  "acc_vol h s = (case map_of (ab_map_instr s) h of None \<Rightarrow> unit_vol_init | Some i \<Rightarrow> ins_vol i)"

text \<open>
  No callback of a day erases an entry (\<open>acc_grows\<close>), and with one table every instrument stays
  linked to the product of its entry in the table (\<open>acc_links\<close>).
\<close>

definition acc_grows :: "acc_base \<Rightarrow> acc_base \<Rightarrow> bool" where
  "acc_grows s t \<longleftrightarrow>
     (\<forall>j. um_has j (ab_map_instr s) \<longrightarrow> um_has j (ab_map_instr t)) \<and>
     (\<forall>k. um_has k (ab_map_prd s) \<longrightarrow> um_has k (ab_map_prd t))"

definition acc_links :: "instr_table \<Rightarrow> acc_base \<Rightarrow> bool" where
  "acc_links tb s \<longleftrightarrow>
     (\<forall>j i. map_of (ab_map_instr s) j = Some i \<longrightarrow>
        (\<exists>info. map_of tb j = Some info \<and> ins_p_prd i = PtrTo (ii_product_hash info)))"

definition acc_prd_vol :: "u32 \<Rightarrow> acc_base \<Rightarrow> unit_vol" where
  "acc_prd_vol k s = (case map_of (ab_map_prd s) k of None \<Rightarrow> unit_vol_init | Some p \<Rightarrow> prd_vol p)"

lemma regInstr_ok:
  assumes base: "base_ok tb" and inv: "acc_inv s" and info: "map_of tb h = Some info"
  obtains s1 where "AccBase_regInstr tb (ii_instr info) s = (True, s1)" "acc_inv s1"
    "um_has h (ab_map_instr s1)" "\<And>j. acc_vol j s1 = acc_vol j s" "ab_mod_acc s1 = ab_mod_acc s"
    "\<And>j i. map_of (ab_map_instr s) j = Some i \<Longrightarrow> map_of (ab_map_instr s1) j = Some i"
    "acc_grows s s1" "um_has (ii_product_hash info) (ab_map_prd s1)"
    "acc_links tb s \<Longrightarrow> acc_links tb s1" "\<And>k. acc_prd_vol k s1 = acc_prd_vol k s"
proof -
  note B = base_okD [OF base info]
  let ?k = "ii_product_hash info"
  define s1 where "s1 = snd (if AccBase_isExistModPrd ?k s then (True, s)
                 else AccBase_regModPrd (ii_product info) s)"
  have s1: "(if AccBase_isExistModPrd ?k s then (True, s)
                 else AccBase_regModPrd (ii_product info) s) = (True, s1)"
    and inv1: "acc_inv s1" and k1: "\<exists>p. map_of (ab_map_prd s1) ?k = Some p"
    and same1: "ab_map_instr s1 = ab_map_instr s" "ab_mod_acc s1 = ab_mod_acc s"
    and grows1: "acc_grows s s1" and prd1: "\<And>k. acc_prd_vol k s1 = acc_prd_vol k s"
    using inv acc_inv_new_prd [OF inv, of ?k] B(2)
    by (auto simp: s1_def AccBase_isExistModPrd_def um_has_def regModPrd_new acc_grows_def
        acc_prd_vol_def mod_prd_init_def)
  from k1 obtain p where p: "map_of (ab_map_prd s1) ?k = Some p" by blast
  show ?thesis
  proof (cases "map_of (ab_map_instr s1) h")
    case (Some i)
    then have "AccBase_regInstr tb (ii_instr info) s = (True, s1)"
      using s1 info B(1) by (simp add: AccBase_regInstr_def AccBase_isExistModInstr_def um_has_def)
    with Some inv1 same1 grows1 prd1 k1 that [of s1] show ?thesis
      by (simp add: um_has_def acc_vol_def acc_links_def)
  next
    case None
    note L = reg_link_new [OF None p B(1) [symmetric] info B(3)]
    let ?s = "snd (case AccBase_regModInstr tb (ii_instr info) s1 of (ok2, s2) \<Rightarrow>
       if \<not> ok2 then (False, s2) else (True, acc_link h ?k s2))"
    have "AccBase_regInstr tb (ii_instr info) s = (True, ?s)"
      using s1 info B(1) None L
      by (simp add: AccBase_regInstr_def AccBase_isExistModInstr_def um_has_def)
    moreover have "acc_inv ?s" unfolding L using acc_inv_new_instr [OF inv1 None p] by simp
    ultimately show ?thesis
      using same1 None info grows1 prd1 k1 unfolding L
      by (intro that [of ?s])
        (auto simp: L um_has_def acc_vol_def acc_prd_vol_def mod_instr_init_def acc_grows_def
          acc_links_def)
  qed
qed

section \<open>The callbacks keep the invariant\<close>

text \<open>
  What a callback does on a listed instrument: it acts on the context of the instrument, which is
  in order and holds what the account held before, and puts the outcome back.
\<close>

lemma acc_on_instr_run:
  assumes base: "base_ok tb" and inv: "acc_inv s" and info: "map_of tb h = Some info"
    and mv: "\<And>c. live c \<Longrightarrow> moved c (act c)"
  obtains i p i' p' a' t where
    "act (mk_ctx i p (ab_mod_acc s)) = Inr (mk_ctx i' p' a')" "acc_on_instr tb h act s = Inr t"
    "ins_ok i" "ins_vol i = acc_vol h s" "ins_vol i' = acc_vol h t" "ab_mod_acc t = a'"
    "\<And>j. j \<noteq> h \<Longrightarrow> acc_vol j t = acc_vol j s" "ins_ok i' \<Longrightarrow> acc_inv t"
    "acc_grows s t" "acc_links tb s \<Longrightarrow> acc_links tb t"
    "acc_links tb s \<Longrightarrow> prd_vol p = acc_prd_vol (ii_product_hash info) s"
    "acc_links tb s \<Longrightarrow> acc_prd_vol (ii_product_hash info) t = prd_vol p'"
    "\<And>k. acc_links tb s \<Longrightarrow> k \<noteq> ii_product_hash info \<Longrightarrow> acc_prd_vol k t = acc_prd_vol k s"
proof -
  obtain s1 where s1: "AccBase_regInstr tb (ii_instr info) s = (True, s1)" "acc_inv s1"
    "um_has h (ab_map_instr s1)" "\<And>j. acc_vol j s1 = acc_vol j s" "ab_mod_acc s1 = ab_mod_acc s"
    "acc_grows s s1" "acc_links tb s \<Longrightarrow> acc_links tb s1" "\<And>k. acc_prd_vol k s1 = acc_prd_vol k s"
    by (rule regInstr_ok [OF base inv info], rule that)
  from s1(3) obtain i where i: "map_of (ab_map_instr s1) h = Some i" by (auto simp: um_has_def)
  from acc_invD(3) [OF s1(2) i] obtain k p where
    k: "ins_p_prd i = PtrTo k" "map_of (ab_map_prd s1) k = Some p" "ins_p_acc i = PtrTo ()"
    by (auto simp: linked_def)
  have ctx: "acc_ctx h s1 = mk_ctx i p (ab_mod_acc s1)"
    unfolding acc_ctx_def acc_ptr_def mk_ctx_def using i k by simp
  let ?c = "mk_ctx i p (ab_mod_acc s1)"
  obtain d where d: "act ?c = Inr d" "moves ?c d"
    using mv [of ?c, OF live_mk] unfolding moved_def by blast
  obtain i' p' a' where d': "d = mk_ctx i' p' a'"
    using moves_live [OF d(2)] unfolding live_def by blast
  let ?t = "acc_put_ctx h d s1"
  have vols: "ins_vol i = acc_vol h s" "\<And>j. acc_vol j ?t = (if j = h then ins_vol i' else acc_vol j s)"
    unfolding s1(4) [symmetric] using i by (simp_all add: acc_vol_def acc_put_ctx_def d')
  have "s1\<lparr>ab_map_instr := um_touch mod_instr_init h (ab_map_instr s1)\<rparr> = s1"
    using i by simp
  then have t: "acc_on_instr tb h act s = Inr ?t"
    unfolding acc_on_instr_def using info s1(1) ctx d(1) by simp
  have a: "ab_mod_acc ?t = a'" by (simp add: acc_put_ctx_def d')
  have inv_t: "ins_ok i' \<Longrightarrow> acc_inv ?t"
    unfolding d' by (rule acc_inv_put [OF s1(2) i k(1,2) d(2) [unfolded d']])
  have same: "ins_p_prd i' = PtrTo k" using d(2) k(1) by (simp add: d' moves_mk)
  have grows: "acc_grows s ?t"
    using s1(6) by (auto simp: acc_grows_def acc_put_ctx_def d' same um_has_def)
  have links: "acc_links tb ?t" if "acc_links tb s"
    using s1(7) [OF that] i same k(1) by (fastforce simp: acc_links_def acc_put_ctx_def d')
  have kk: "k = ii_product_hash info" if "acc_links tb s"
    using s1(7) [OF that] i k(1) info by (fastforce simp: acc_links_def)
  have prds: "acc_prd_vol n ?t = (if n = k then prd_vol p' else acc_prd_vol n s)"
    "acc_prd_vol k s = prd_vol p" for n
    unfolding s1(8) [symmetric] using k(2) same by (simp_all add: acc_prd_vol_def acc_put_ctx_def d')
  show ?thesis
    by (rule that [OF d(1) [unfolded d' s1(5)] t acc_invD(4) [OF s1(2) i]])
      (use vols a inv_t grows links kk prds in simp_all)
qed

lemma acc_on_instr_ok:
  assumes base: "base_ok tb" and inv: "acc_inv s"
    and mv: "\<And>c. live c \<Longrightarrow> moved c (act c)"
    and ok: "\<And>i p a d. map_of tb h \<noteq> None \<Longrightarrow> ins_ok i \<Longrightarrow> ins_vol i = acc_vol h s \<Longrightarrow>
      act (mk_ctx i p a) = Inr d \<Longrightarrow> ins_ok (c_ins d)"
  shows "\<exists>t. acc_on_instr tb h act s = Inr t \<and> acc_inv t"
proof (cases "map_of tb h")
  case None
  with inv show ?thesis by (simp add: acc_on_instr_def)
next
  case (Some info)
  obtain i p i' p' a' t where
    r: "act (mk_ctx i p (ab_mod_acc s)) = Inr (mk_ctx i' p' a')" "acc_on_instr tb h act s = Inr t"
    "ins_ok i" "ins_vol i = acc_vol h s" "ins_ok i' \<Longrightarrow> acc_inv t"
    by (rule acc_on_instr_run [OF base inv Some, of act], erule mv, rule that)
  have "ins_ok i'" using ok [OF _ r(3,4,1)] Some by simp
  with r show ?thesis by blast
qed

text \<open>The positions held, which only a trade changes, and the trades that fit them.\<close>

definition positions :: "unit_vol \<Rightarrow> int \<times> int \<times> int \<times> int" where
  "positions v = (pos_long_yd v, pos_long_td v, pos_short_yd v, pos_short_td v)"

definition trd_fits :: "int \<Rightarrow> int \<Rightarrow> int \<Rightarrow> unit_vol \<Rightarrow> bool" where
  "trd_fits dir off n v \<longleftrightarrow>
     dir_known dir \<and> off_known off \<and> 0 \<le> n \<and>
     (dir = AT_CHAR_Buy \<and> off = AT_CHAR_CloseYesterday \<longrightarrow> n \<le> pos_short_yd v) \<and>
     (dir = AT_CHAR_Buy \<and> off = AT_CHAR_CloseToday \<longrightarrow> n \<le> pos_short_td v) \<and>
     (dir = AT_CHAR_Sell \<and> off = AT_CHAR_CloseYesterday \<longrightarrow> n \<le> pos_long_yd v) \<and>
     (dir = AT_CHAR_Sell \<and> off = AT_CHAR_CloseToday \<longrightarrow> n \<le> pos_long_td v)"

lemma positions_vol_pos: "positions v = positions w \<Longrightarrow> vol_pos v = vol_pos w"
  by (simp add: positions_def vol_pos_def)

lemma positions_fits: "positions v = positions w \<Longrightarrow> trd_fits dir off n v = trd_fits dir off n w"
  by (simp add: positions_def trd_fits_def)

lemma tick_vol: "ModInstr_onTickPx px (mk_ctx i p a) = Inr d \<Longrightarrow> ins_vol (c_ins d) = ins_vol i"
  by (auto simp: onTickPx_mk)

lemma new_positions:
  "ModInstr_onNew dir off px vol (mk_ctx i p a) = Inr d \<Longrightarrow>
   positions (ins_vol (c_ins d)) = positions (ins_vol i)"
  by (auto simp: ModInstr_onNew_def Let_def positions_def vol_new_defs split: if_splits)

lemma cxl_positions:
  "ModInstr_onCxl dir off px vol (mk_ctx i p a) = Inr d \<Longrightarrow>
   positions (ins_vol (c_ins d)) = positions (ins_vol i)"
  by (auto simp: ModInstr_onCxl_def Let_def positions_def vol_cxl_defs split: if_splits)

lemma trd_vol_pos:
  "vol_pos (ins_vol i) \<Longrightarrow> trd_fits dir off trd_vol (ins_vol i) \<Longrightarrow>
   ModInstr_onTrd dir off px vol vol_traded trd_px trd_vol (mk_ctx i p a) = Inr d \<Longrightarrow>
   vol_pos (ins_vol (c_ins d))"
  by (auto simp: ModInstr_onTrd_def onTickPx_mk Let_def trd_branch_def book_buy_def book_sell_def
      trd_fits_def dir_known_def off_known_def vol_pos_def vol_trd_defs split: if_splits)

lemma ins_ok_tick: "ins_ok i \<Longrightarrow> ModInstr_onTickPx px (mk_ctx i p a) = Inr d \<Longrightarrow> ins_ok (c_ins d)"
  by (auto simp: ins_ok_def tick_vol dest: books_tick)

lemma ins_ok_new: "ins_ok i \<Longrightarrow> ModInstr_onNew dir off px vol (mk_ctx i p a) = Inr d \<Longrightarrow> ins_ok (c_ins d)"
  by (auto simp: ins_ok_def positions_vol_pos [OF new_positions] dest: books_new)

lemma ins_ok_cxl: "ins_ok i \<Longrightarrow> ModInstr_onCxl dir off px vol (mk_ctx i p a) = Inr d \<Longrightarrow> ins_ok (c_ins d)"
  by (auto simp: ins_ok_def positions_vol_pos [OF cxl_positions] dest: books_cxl)

lemma ins_ok_trd:
  "ins_ok i \<Longrightarrow> trd_fits dir off trd_vol (ins_vol i) \<Longrightarrow>
   ModInstr_onTrd dir off px vol vol_traded trd_px trd_vol (mk_ctx i p a) = Inr d \<Longrightarrow>
   ins_ok (c_ins d)"
  by (meson books_trd ins_ok_def trd_fits_def trd_vol_pos)

text \<open>An \<open>act\<close> of several steps: each step yields a context whose instrument is in order.\<close>

lemma moved_live: "moved c r \<Longrightarrow> r = Inr d \<Longrightarrow> live d"
  using moves_live by (auto simp: moved_def)

lemma moved_rtn: "live c \<Longrightarrow> moved c (rtn_act t m c)"
  unfolding rtn_act_def by (intro moved_rules moved_onCxl moved_onTrd) 

lemma moved_track: "live c \<Longrightarrow> moved c (track_act t c)"
  unfolding track_act_def by (intro moved_rules moved_onNew moved_onCxl moved_onTrd)

text \<open>
  \<open>kept v r\<close>: if the step succeeds, its context is live, the instrument is in order, and holds
  the positions of \<open>v\<close>.
\<close>

definition kept :: "unit_vol \<Rightarrow> mod_ctx res \<Rightarrow> bool" where
  "kept v r \<longleftrightarrow> (\<forall>d. r = Inr d \<longrightarrow>
     live d \<and> ins_ok (c_ins d) \<and> positions (ins_vol (c_ins d)) = positions v)"

lemma kept_Inr: "live c \<Longrightarrow> ins_ok (c_ins c) \<Longrightarrow> positions (ins_vol (c_ins c)) = positions v \<Longrightarrow>
    kept v (Inr c)"
  by (simp add: kept_def)

lemma kept_new:
  assumes "live c" "ins_ok (c_ins c)" "positions (ins_vol (c_ins c)) = positions v"
  shows "kept v (ModInstr_onNew dir off px vol c)"
  using assms moved_live [OF moved_onNew [OF assms(1)]] unfolding kept_def live_def
  by (metis ins_ok_new mk_ctx_sel(1) new_positions)

lemma kept_cxl:
  assumes "live c" "ins_ok (c_ins c)" "positions (ins_vol (c_ins c)) = positions v"
  shows "kept v (ModInstr_onCxl dir off px vol c)"
  using assms moved_live [OF moved_onCxl [OF assms(1)]] unfolding kept_def live_def
  by (metis ins_ok_cxl mk_ctx_sel(1) cxl_positions)

definition rtn_fits :: "order_track \<Rightarrow> rtn_msg \<Rightarrow> unit_vol \<Rightarrow> bool" where
  "rtn_fits t m v \<longleftrightarrow>
     (rm_msg_type m AND ODS_EXECUTION \<noteq> 0 \<longrightarrow> trd_fits (ot_dir t) (ot_off t) (rm_vol m) v)"

definition track_fits :: "order_track \<Rightarrow> unit_vol \<Rightarrow> bool" where
  "track_fits t v \<longleftrightarrow>
     (ot_status t AND ODS_EXECUTION \<noteq> 0 \<longrightarrow> trd_fits (ot_dir t) (ot_off t) (ot_vol_traded t) v)"

lemma kept_bind:
  assumes "kept v r" "\<And>c d. live c \<Longrightarrow> ins_ok (c_ins c) \<Longrightarrow>
      positions (ins_vol (c_ins c)) = positions v \<Longrightarrow> g c = Inr d \<Longrightarrow> ins_ok (c_ins d)"
    and "res_bind r g = Inr d"
  shows "ins_ok (c_ins d)"
  using assms by (cases r) (auto simp: kept_def)

lemma ins_ok_trd_live:
  "live c \<Longrightarrow> ins_ok (c_ins c) \<Longrightarrow> positions (ins_vol (c_ins c)) = positions v \<Longrightarrow>
   trd_fits dir off n v \<Longrightarrow> ModInstr_onTrd dir off px vol vol_traded trd_px n c = Inr d \<Longrightarrow>
   ins_ok (c_ins d)"
  by (metis ins_ok_trd live_def mk_ctx_sel(1) positions_fits)

lemma ins_ok_rtn:
  assumes "ins_ok i" "rtn_fits t m (ins_vol i)" "rtn_act t m (mk_ctx i p a) = Inr d"
  shows "ins_ok (c_ins d)"
proof (rule kept_bind [OF _ _ assms(3) [unfolded rtn_act_def]])
  show "kept (ins_vol i) (if rm_msg_type m AND (ODS_REJECT OR ODS_MARKET_REJECT OR ODS_CANCELED) \<noteq> 0
    then ModInstr_onCxl (ot_dir t) (ot_off t) (ot_price t) (rm_vol m) (mk_ctx i p a)
    else Inr (mk_ctx i p a))"
    using assms(1) by (auto intro: kept_cxl kept_Inr)
qed (use assms(2) in \<open>auto simp: rtn_fits_def split: if_splits intro: ins_ok_trd_live\<close>)

lemma ins_ok_track:
  assumes "ins_ok i" "track_fits t (ins_vol i)" "track_act t (mk_ctx i p a) = Inr d"
  shows "ins_ok (c_ins d)"
proof (rule kept_bind [OF _ _ assms(3) [unfolded track_act_def]])
  show "kept (ins_vol i) (if ot_status t AND (ODS_SEND OR ODS_TDSEND) \<noteq> 0
    then ModInstr_onNew (ot_dir t) (ot_off t) (ot_price t) (ot_vol t) (mk_ctx i p a)
    else Inr (mk_ctx i p a))"
    using assms(1) by (auto intro: kept_new kept_Inr)
next
  fix c e
  assume c: "live c" "ins_ok (c_ins c)" "positions (ins_vol (c_ins c)) = positions (ins_vol i)"
    and e: "res_bind (if ot_status t AND ODS_CLOSED \<noteq> 0 \<and> ot_vol t \<noteq> ot_vol_traded t
            then ModInstr_onCxl (ot_dir t) (ot_off t) (ot_price t) (ot_vol t - ot_vol_traded t) c
            else Inr c)
          (\<lambda>c2. if ot_status t AND ODS_EXECUTION \<noteq> 0
            then ModInstr_onTrd (ot_dir t) (ot_off t) (ot_price t) (ot_vol t) (ot_vol_traded t)
                  (track_trd_px t) (ot_vol_traded t) c2
            else Inr c2) = Inr e"
  show "ins_ok (c_ins e)"
  proof (rule kept_bind [OF _ _ e])
    show "kept (ins_vol i) (if ot_status t AND ODS_CLOSED \<noteq> 0 \<and> ot_vol t \<noteq> ot_vol_traded t
            then ModInstr_onCxl (ot_dir t) (ot_off t) (ot_price t) (ot_vol t - ot_vol_traded t) c
            else Inr c)"
      using c by (auto intro: kept_cxl kept_Inr)
  qed (use assms(2) in \<open>auto simp: track_fits_def split: if_splits intro: ins_ok_trd_live\<close>)
qed

section \<open>The day switch keeps the invariant\<close>

lemma um_map_cong:
  "(\<And>k v. (k, v) \<in> set m \<Longrightarrow> f v = g v) \<Longrightarrow> um_map f m = um_map g m"
  by (auto simp: um_map_def)

lemma in_um_drop: "(k, v) \<in> set (um_drop P m) \<longleftrightarrow> (k, v) \<in> set m \<and> \<not> P v"
  by (auto simp: um_drop_def)

lemma ins_ok_pos:
  assumes "ins_ok i"
  shows "0 \<le> pos_long (ins_vol i)" "0 \<le> pos_short (ins_vol i)"
  using assms by (auto simp: ins_ok_def ins_books_def vol_pos_def Let_def)

lemma flat_product:
  assumes inv: "acc_inv s" and i: "(h, i) \<in> set (ab_map_instr s)"
    and k: "ins_p_prd i = PtrTo k" and p: "map_of (ab_map_prd s) k = Some p"
    and flat: "vol_flat (prd_vol p)"
  shows "vol_flat (ins_vol i)"
proof -
  note D = acc_invD [OF inv]
  have ok: "ins_ok j" if "(n, j) \<in> set (ab_map_instr s)" for n j
    using that D(4) [of n j] D(1) by (simp add: map_of_in_set)
  have z: "of_prd k (\<lambda>i. f (ins_vol i)) i = 0"
    if "f = pos_long \<or> f = pos_short" for f :: "unit_vol \<Rightarrow> int"
  proof (rule um_sum_nonneg_zero [OF _ _ i])
    show "um_sum (of_prd k (\<lambda>i. f (ins_vol i))) (ab_map_instr s) = 0"
      using D(5) [OF p] flat that by (auto simp: prd_totals_def vol_fields_def vol_flat_def)
  qed (use that ok ins_ok_pos in \<open>auto simp: of_prd_def\<close>)
  from z [of pos_long] z [of pos_short] k show ?thesis by (simp add: of_prd_def vol_flat_def)
qed

lemma onSwitchDay_linked:
  assumes inv: "acc_inv s"
  shows "AccBase_onSwitchDay s = s\<lparr>ab_mod_acc := ModAcc_onSwitchDay (ab_mod_acc s),
     ab_map_prd := um_map ModPrd_onSwitchDay (um_drop (\<lambda>p. vol_flat (prd_vol p)) (ab_map_prd s)),
     ab_map_instr :=
       um_map ModInstr_onSwitchDay (um_drop (\<lambda>i. vol_flat (ins_vol i)) (ab_map_instr s))\<rparr>"
proof -
  note D = acc_invD [OF inv]
  let ?ps = "um_map ModPrd_onSwitchDay (um_drop (\<lambda>p. vol_flat (prd_vol p)) (ab_map_prd s))"
  have "(ModInstr_onSwitchDay i)\<lparr>ins_p_prd := ptr_after_erase ?ps (ins_p_prd i)\<rparr> =
      ModInstr_onSwitchDay i"
    if "(h, i) \<in> set (um_drop (\<lambda>i. vol_flat (ins_vol i)) (ab_map_instr s))" for h i
  proof -
    from that have i: "(h, i) \<in> set (ab_map_instr s)" "\<not> vol_flat (ins_vol i)"
      by (simp_all add: in_um_drop)
    then obtain k p where k: "ins_p_prd i = PtrTo k" "map_of (ab_map_prd s) k = Some p"
      using D(3) [of h i] D(1) by (auto simp: linked_def map_of_in_set)
    with flat_product [OF inv i(1)] i(2) have "\<not> vol_flat (prd_vol p)" by blast
    with k D(2) have "um_has k ?ps" by (simp add: um_has_def map_of_um_drop)
    with k show ?thesis by (simp add: ptr_after_erase_def ModInstr_onSwitchDay_def)
  qed
  then have "um_map (\<lambda>i. (ModInstr_onSwitchDay i)\<lparr>ins_p_prd := ptr_after_erase ?ps (ins_p_prd i)\<rparr>)
      (um_drop (\<lambda>i. vol_flat (ins_vol i)) (ab_map_instr s)) =
      um_map ModInstr_onSwitchDay (um_drop (\<lambda>i. vol_flat (ins_vol i)) (ab_map_instr s))"
    by (rule um_map_cong)
  then show ?thesis unfolding AccBase_onSwitchDay_def Let_def by simp
qed

text \<open>After the switch a field is zero or what one of the positions or amounts was.\<close>

lemma switch_vol_field:
  "f \<in> vol_fields \<Longrightarrow> (\<lambda>v. f (UnitVol_onSwitchDay v)) \<in> {\<lambda>_. 0, pos_long, pos_short}"
  unfolding vol_fields_def by (elim insertE emptyE; simp add: UnitVol_onSwitchDay_def)

lemma switch_amt_field:
  "f \<in> amt_fields \<Longrightarrow> (\<lambda>v. f (UnitAmt_onSwitchDay v)) \<in> {\<lambda>_. 0, amt_long, amt_short}"
  unfolding amt_fields_def by (elim insertE emptyE; simp add: UnitAmt_onSwitchDay_def)

lemma switch_pnl_field: "f \<in> pnl_fields \<Longrightarrow> f (UnitPnl_onSwitchDay v) = 0"
  by (auto simp: pnl_fields_def UnitPnl_onSwitchDay_def)

lemma switch_flat_zero:
  assumes "ins_ok i" "vol_flat (ins_vol i)"
  shows "f \<in> vol_fields \<Longrightarrow> f (UnitVol_onSwitchDay (ins_vol i)) = 0"
    "g \<in> amt_fields \<Longrightarrow> g (UnitAmt_onSwitchDay (ins_amt i)) = 0"
  using assms
  by (auto simp: ins_ok_def ins_books_def vol_flat_def vol_fields_def amt_fields_def Let_def
      UnitVol_onSwitchDay_def UnitAmt_onSwitchDay_def)

lemma switched_sum:
  assumes "\<And>h i. (h, i) \<in> set m \<Longrightarrow> P i \<Longrightarrow> f (S i) = (0::'a::ab_group_add)"
    and "\<And>i. ins_p_prd (S i) = ins_p_prd i"
  shows "um_sum (of_prd k f) (um_map S (um_drop P m)) = um_sum (of_prd k (\<lambda>i. f (S i))) m"
    "um_sum f (um_map S (um_drop P m)) = um_sum (\<lambda>i. f (S i)) m"
  using assms by (simp_all add: um_sum_map um_sum_drop of_prd_def [abs_def])

lemma ins_ok_switch: "ins_ok i \<Longrightarrow> ins_ok (ModInstr_onSwitchDay i)"
  by (auto simp: ins_ok_def ins_books_def vol_pos_def Let_def ModInstr_onSwitchDay_def
      UnitVol_onSwitchDay_def UnitAmt_onSwitchDay_def UnitPx_onSwitchDay_def
      UnitPnl_onSwitchDay_def UnitPx_calcAvgPx_def)

lemma prd_totals_switch:
  assumes inv: "acc_inv s" and p: "map_of (ab_map_prd s) k = Some p"
  shows "prd_totals (um_map ModInstr_onSwitchDay
      (um_drop (\<lambda>i. vol_flat (ins_vol i)) (ab_map_instr s))) k (ModPrd_onSwitchDay p)"
proof -
  note D = acc_invD [OF inv]
  note T = D(5) [OF p, unfolded prd_totals_def]
  have ok: "ins_ok i" if "(h, i) \<in> set (ab_map_instr s)" for h i
    using that D(4) [of h i] D(1) by (simp add: map_of_in_set)
  have sel: "ins_vol (ModInstr_onSwitchDay i) = UnitVol_onSwitchDay (ins_vol i)"
    "ins_amt (ModInstr_onSwitchDay i) = UnitAmt_onSwitchDay (ins_amt i)"
    "ins_pnl (ModInstr_onSwitchDay i) = UnitPnl_onSwitchDay (ins_pnl i)"
    "ins_p_prd (ModInstr_onSwitchDay i) = ins_p_prd i" for i
    by (simp_all add: ModInstr_onSwitchDay_def)
  have zero: "um_sum (of_prd k (\<lambda>_. 0)) m = (0::'a::ab_group_add)" for m
    by (rule um_sum_zero) (simp add: of_prd_def)
  have v: "f (UnitVol_onSwitchDay (prd_vol p)) = um_sum (of_prd k (\<lambda>i. f (ins_vol i)))
      (um_map ModInstr_onSwitchDay (um_drop (\<lambda>i. vol_flat (ins_vol i)) (ab_map_instr s)))"
    if f: "f \<in> vol_fields" for f
  proof -
    have "(\<lambda>v. f (UnitVol_onSwitchDay v)) \<in> {\<lambda>_. 0, pos_long, pos_short}"
      by (rule switch_vol_field [OF f])
    then have "f (UnitVol_onSwitchDay (prd_vol p)) =
        um_sum (of_prd k (\<lambda>i. f (UnitVol_onSwitchDay (ins_vol i)))) (ab_map_instr s)"
      using T zero by (auto simp: fun_eq_iff vol_fields_def)
    then show ?thesis
      by (subst switched_sum(1)) (use ok switch_flat_zero(1) f in \<open>auto simp: sel\<close>)
  qed
  have a: "f (UnitAmt_onSwitchDay (prd_amt p)) = um_sum (of_prd k (\<lambda>i. f (ins_amt i)))
      (um_map ModInstr_onSwitchDay (um_drop (\<lambda>i. vol_flat (ins_vol i)) (ab_map_instr s)))"
    if f: "f \<in> amt_fields" for f
  proof -
    have "(\<lambda>v. f (UnitAmt_onSwitchDay v)) \<in> {\<lambda>_. 0, amt_long, amt_short}"
      by (rule switch_amt_field [OF f])
    then have "f (UnitAmt_onSwitchDay (prd_amt p)) =
        um_sum (of_prd k (\<lambda>i. f (UnitAmt_onSwitchDay (ins_amt i)))) (ab_map_instr s)"
      using T zero by (auto simp: fun_eq_iff amt_fields_def)
    then show ?thesis
      by (subst switched_sum(1)) (use ok switch_flat_zero(2) f in \<open>auto simp: sel\<close>)
  qed
  have n: "f (UnitPnl_onSwitchDay (prd_pnl p)) = um_sum (of_prd k (\<lambda>i. f (ins_pnl i)))
      (um_map ModInstr_onSwitchDay (um_drop (\<lambda>i. vol_flat (ins_vol i)) (ab_map_instr s)))"
    if f: "f \<in> pnl_fields" for f
    by (subst switched_sum(1)) (simp_all add: sel switch_pnl_field [OF f] zero)
  show ?thesis using v a n by (simp add: prd_totals_def ModPrd_onSwitchDay_def)
qed

lemma acc_totals_switch:
  assumes inv: "acc_inv s"
  shows "acc_totals (um_map ModInstr_onSwitchDay
      (um_drop (\<lambda>i. vol_flat (ins_vol i)) (ab_map_instr s))) (ModAcc_onSwitchDay (ab_mod_acc s))"
proof -
  note D = acc_invD [OF inv]
  note T = D(6) [unfolded acc_totals_def]
  have ok: "ins_ok i" if "(h, i) \<in> set (ab_map_instr s)" for h i
    using that D(4) [of h i] D(1) by (simp add: map_of_in_set)
  have sel: "ins_amt (ModInstr_onSwitchDay i) = UnitAmt_onSwitchDay (ins_amt i)"
    "ins_pnl (ModInstr_onSwitchDay i) = UnitPnl_onSwitchDay (ins_pnl i)"
    "ins_p_prd (ModInstr_onSwitchDay i) = ins_p_prd i" for i
    by (simp_all add: ModInstr_onSwitchDay_def)
  have zero: "um_sum (\<lambda>_. 0) m = (0::'a::ab_group_add)" for m
    by (rule um_sum_zero) simp
  have a: "f (UnitAmt_onSwitchDay (acc_amt (ab_mod_acc s))) = um_sum (\<lambda>i. f (ins_amt i))
      (um_map ModInstr_onSwitchDay (um_drop (\<lambda>i. vol_flat (ins_vol i)) (ab_map_instr s)))"
    if f: "f \<in> amt_fields" for f
  proof -
    have "(\<lambda>v. f (UnitAmt_onSwitchDay v)) \<in> {\<lambda>_. 0, amt_long, amt_short}"
      by (rule switch_amt_field [OF f])
    then have "f (UnitAmt_onSwitchDay (acc_amt (ab_mod_acc s))) =
        um_sum (\<lambda>i. f (UnitAmt_onSwitchDay (ins_amt i))) (ab_map_instr s)"
      using T zero by (auto simp: fun_eq_iff amt_fields_def)
    then show ?thesis
      by (subst switched_sum(2)) (use ok switch_flat_zero(2) f in \<open>auto simp: sel\<close>)
  qed
  have n: "f (UnitPnl_onSwitchDay (acc_pnl (ab_mod_acc s))) = um_sum (\<lambda>i. f (ins_pnl i))
      (um_map ModInstr_onSwitchDay (um_drop (\<lambda>i. vol_flat (ins_vol i)) (ab_map_instr s)))"
    if f: "f \<in> pnl_fields" for f
    by (subst switched_sum(2)) (simp_all add: sel switch_pnl_field [OF f] zero)
  show ?thesis using a n by (simp add: acc_totals_def ModAcc_onSwitchDay_def)
qed

lemma acc_inv_switch:
  assumes inv: "acc_inv s"
  shows "acc_inv (AccBase_onSwitchDay s)"
proof -
  note D = acc_invD [OF inv]
  let ?P = "\<lambda>p. vol_flat (prd_vol p)" and ?I = "\<lambda>i. vol_flat (ins_vol i)"
  let ?ps = "um_map ModPrd_onSwitchDay (um_drop ?P (ab_map_prd s))"
  let ?is = "um_map ModInstr_onSwitchDay (um_drop ?I (ab_map_instr s))"
  have from_prd: "\<exists>p. map_of (ab_map_prd s) k = Some p \<and> q = ModPrd_onSwitchDay p"
    if "map_of ?ps k = Some q" for k q
    using that D(2) by (auto simp: map_of_um_drop split: option.splits if_splits)
  have from_ins: "\<exists>i. map_of (ab_map_instr s) h = Some i \<and> \<not> ?I i \<and> j = ModInstr_onSwitchDay i"
    if "map_of ?is h = Some j" for h j
    using that D(1) by (auto simp: map_of_um_drop split: option.splits if_splits)
  have lk: "linked ?ps j" if j: "map_of ?is h = Some j" for h j
  proof -
    obtain i where i: "map_of (ab_map_instr s) h = Some i" "\<not> ?I i" "j = ModInstr_onSwitchDay i"
      using from_ins [OF j] by blast
    from D(3) [OF i(1)] obtain k p where
      k: "ins_p_prd i = PtrTo k" "map_of (ab_map_prd s) k = Some p" "ins_p_acc i = PtrTo ()"
      by (auto simp: linked_def)
    have "\<not> ?P p" using flat_product [OF inv map_of_SomeD [OF i(1)] k(1,2)] i(2) by blast
    with k D(2) i(3) show ?thesis
      by (simp add: linked_def map_of_um_drop ModInstr_onSwitchDay_def)
  qed
  show ?thesis
    unfolding onSwitchDay_linked [OF inv]
  proof (rule acc_invI)
    fix k q assume "map_of (ab_map_prd (s\<lparr>ab_mod_acc := ModAcc_onSwitchDay (ab_mod_acc s),
       ab_map_prd := ?ps, ab_map_instr := ?is\<rparr>)) k = Some q"
    then show "prd_totals (ab_map_instr (s\<lparr>ab_mod_acc := ModAcc_onSwitchDay (ab_mod_acc s),
       ab_map_prd := ?ps, ab_map_instr := ?is\<rparr>)) k q"
      using from_prd prd_totals_switch [OF inv] by fastforce
  next
    fix h j assume "map_of (ab_map_instr (s\<lparr>ab_mod_acc := ModAcc_onSwitchDay (ab_mod_acc s),
       ab_map_prd := ?ps, ab_map_instr := ?is\<rparr>)) h = Some j"
    then show "ins_ok j"
      using from_ins D(4) ins_ok_switch by fastforce
  qed (use D lk acc_totals_switch [OF inv] in simp_all)
qed

end
