(* ===== verification/Acc_World.thy ===== *)
theory Acc_World
  imports Acc_Inv
begin

text \<open>
  The account in its process: the events a strategy or a top account receives, as a machine over
  the instrument table and the account. The interpretation of \<open>guarded_machine\<close> gives that a run
  in which trades fit the positions they close never faults and keeps the account's invariant.

  The second part follows orders: every event of an order's life changes one entry of an abstract
  book of open orders, and the volumes an account counts as working are the totals of the book.
\<close>

section \<open>Events\<close>

datatype acc_event =
    OnNew int int double int u32
  | OnRtn order_track rtn_msg
  | OnTickPx u32 double
  | OnOrderTrack order_track
  | OnBaseInfo td_base_info
  | OnSwitchDay

record acc_world =
  aw_base :: trade_base
  aw_acc :: acc_base

definition acc_world_init :: acc_world where
  "acc_world_init = \<lparr>aw_base = trade_base_init, aw_acc = acc_base_init\<rparr>"

definition on_acc :: "(instr_table \<Rightarrow> acc_base \<Rightarrow> acc_base res) \<Rightarrow> acc_world \<Rightarrow> acc_world res" where
  "on_acc f w =
     res_bind (f (tb_instr_info (aw_base w)) (aw_acc w)) (\<lambda>s. Inr (w\<lparr>aw_acc := s\<rparr>))"

fun acc_step :: "acc_event \<Rightarrow> acc_world \<Rightarrow> acc_world res" where
  "acc_step (OnNew dir off px vol h) w = on_acc (\<lambda>tb. AccBase_onNew tb dir off px vol h) w"
| "acc_step (OnRtn t m) w = on_acc (\<lambda>tb. AccBase_onRtn tb t m) w"
| "acc_step (OnTickPx h px) w = on_acc (\<lambda>tb. AccBase_onTickPx tb h px) w"
| "acc_step (OnOrderTrack t) w = on_acc (\<lambda>tb. AccBase_onOrderTrack tb t) w"
| "acc_step (OnBaseInfo p) w =
     res_bind (CTradeBaseInfo_update p (aw_base w)) (\<lambda>(_, _, b). Inr (w\<lparr>aw_base := b\<rparr>))"
| "acc_step OnSwitchDay w = Inr (w\<lparr>aw_acc := AccBase_onSwitchDay (aw_acc w)\<rparr>)"

text \<open>
  Legal events: a trade fits the position it closes, and a table of instruments is complete and
  consistent.
\<close>

fun acc_legal :: "acc_event \<Rightarrow> acc_world \<Rightarrow> bool" where
  "acc_legal (OnRtn t m) w = rtn_fits t m (acc_vol (ot_instr_hash t) (aw_acc w))"
| "acc_legal (OnOrderTrack t) w = track_fits t (acc_vol (ot_instr_hash t) (aw_acc w))"
| "acc_legal (OnBaseInfo p) w =
     (bi_instr_cnt p \<le> int (length (bi_instr p)) \<and> list_all info_ok (bi_instr p))"
| "acc_legal _ w = True"

definition acc_world_inv :: "acc_world \<Rightarrow> bool" where
  "acc_world_inv w \<longleftrightarrow> base_ok (tb_instr_info (aw_base w)) \<and> acc_inv (aw_acc w)"

lemma acc_world_init_inv [simp]: "acc_world_inv acc_world_init"
  by (simp add: acc_world_inv_def acc_world_init_def trade_base_init_def)

lemma on_acc_ok:
  "acc_world_inv w \<Longrightarrow> \<exists>t. f (tb_instr_info (aw_base w)) (aw_acc w) = Inr t \<and> acc_inv t \<Longrightarrow>
   \<exists>t. on_acc f w = Inr t \<and> acc_world_inv t"
  by (auto simp: on_acc_def acc_world_inv_def)

lemma update_base_ok:
  assumes "base_ok (tb_instr_info b)" "bi_instr_cnt p \<le> int (length (bi_instr p))"
    "list_all info_ok (bi_instr p)"
  shows "\<exists>r c b'. CTradeBaseInfo_update p b = Inr (r, c, b') \<and> base_ok (tb_instr_info b')"
proof -
  obtain b' where b': "CTradeBaseInfo_set p b = Inr b'"
    using assms(2) by (simp add: CTradeBaseInfo_set_def)
  from base_ok_set [OF this assms(3)] have "base_ok (tb_instr_info b')" .
  with assms(1) b' show ?thesis by (auto simp: CTradeBaseInfo_update_def)
qed

lemma acc_step_ok:
  assumes inv: "acc_world_inv w" and legal: "acc_legal e w"
  shows "\<exists>t. acc_step e w = Inr t \<and> acc_world_inv t"
proof -
  have base: "base_ok (tb_instr_info (aw_base w))" and ai: "acc_inv (aw_acc w)"
    using inv by (simp_all add: acc_world_inv_def)
  note run = acc_on_instr_ok [OF base ai]
  show ?thesis
  proof (cases e)
    case (OnNew dir off px vol h)
    then show ?thesis
      by (simp, intro on_acc_ok [OF inv], unfold AccBase_onNew_def, intro run)
        (auto intro: moved_onNew ins_ok_new)
  next
    case (OnRtn t m)
    with legal show ?thesis
      by (simp, intro on_acc_ok [OF inv], unfold AccBase_onRtn_def, intro run)
        (auto intro: moved_rtn ins_ok_rtn)
  next
    case (OnTickPx h px)
    then show ?thesis
      by (simp, intro on_acc_ok [OF inv], unfold AccBase_onTickPx_def, intro run)
        (auto intro: moved_onTickPx ins_ok_tick)
  next
    case (OnOrderTrack t)
    with legal show ?thesis
      by (simp, intro on_acc_ok [OF inv], unfold AccBase_onOrderTrack_def, intro run)
        (auto intro: moved_track ins_ok_track)
  next
    case (OnBaseInfo p)
    with update_base_ok [OF base, of p] legal ai show ?thesis
      by (auto simp: acc_world_inv_def)
  next
    case OnSwitchDay
    with acc_inv_switch [OF ai] base show ?thesis by (simp add: acc_world_inv_def)
  qed
qed

interpretation account: guarded_machine acc_step acc_legal acc_world_inv
  by unfold_locales (rule acc_step_ok)

section \<open>The life of an order\<close>

text \<open>
  A book of open orders, keyed by an identity the account never sees. \<open>order_step b e b'\<close> says
  that \<open>e\<close> is an event of a life in the book: a new order enters it, a trade takes from what is
  left and the last trade closes the order, a cancel or a reject takes all that is left. At the
  day switch every open order is gone.
\<close>

record open_order =
  oo_hash :: u32
  oo_dir :: int
  oo_off :: int
  oo_px :: double
  oo_vol :: int
  oo_traded :: int

type_synonym order_book = "(int, open_order) umap"

definition oo_left :: "open_order \<Rightarrow> int" where
  "oo_left r = oo_vol r - oo_traded r"

definition order_view :: "open_order \<Rightarrow> order_track \<Rightarrow> bool" where
  "order_view r t \<longleftrightarrow>
     ot_instr_hash t = oo_hash r \<and> ot_dir t = oo_dir r \<and> ot_off t = oo_off r \<and>
     ot_price t = oo_px r \<and> ot_vol t = oo_vol r"

inductive order_step :: "instr_table \<Rightarrow> order_book \<Rightarrow> acc_event \<Rightarrow> order_book \<Rightarrow> bool"
  for tb :: instr_table
  where
    enter: "map_of b oid = None \<Longrightarrow> um_has h tb \<Longrightarrow> dir_known dir \<Longrightarrow> off_known off \<Longrightarrow> 0 < vol \<Longrightarrow>
      order_step tb b (OnNew dir off px vol h)
        (AList.update oid \<lparr>oo_hash = h, oo_dir = dir, oo_off = off, oo_px = px, oo_vol = vol,
           oo_traded = 0\<rparr> b)"
  | part: "map_of b oid = Some r \<Longrightarrow> order_view r t \<Longrightarrow> rm_msg_type m = ODS_EXECUTION \<Longrightarrow>
      0 < rm_vol m \<Longrightarrow> rm_vol m < oo_left r \<Longrightarrow> ot_vol_traded t = oo_traded r + rm_vol m \<Longrightarrow>
      order_step tb b (OnRtn t m) (AList.update oid (r\<lparr>oo_traded := ot_vol_traded t\<rparr>) b)"
  | fill: "map_of b oid = Some r \<Longrightarrow> order_view r t \<Longrightarrow> rm_msg_type m = ODS_EXECUTION \<Longrightarrow>
      rm_vol m = oo_left r \<Longrightarrow> ot_vol_traded t = oo_vol r \<Longrightarrow>
      order_step tb b (OnRtn t m) (AList.delete oid b)"
  | cancel: "map_of b oid = Some r \<Longrightarrow> order_view r t \<Longrightarrow> rm_msg_type m \<in> set cancel_types \<Longrightarrow>
      rm_vol m = oo_left r \<Longrightarrow> order_step tb b (OnRtn t m) (AList.delete oid b)"
  | tick: "order_step tb b (OnTickPx h px) b"
  | switch: "order_step tb b OnSwitchDay []"

text \<open>The field of the volumes in which an order counts as working.\<close>

definition ing_vol :: "int \<Rightarrow> int \<Rightarrow> unit_vol \<Rightarrow> int" where
  "ing_vol dir off v =
     (if dir = AT_CHAR_Buy then
        (if off = AT_CHAR_Open then pos_long_td_opn_ing v
         else if off = AT_CHAR_CloseYesterday then pos_short_yd_cls_ing v
         else pos_short_td_cls_ing v)
      else
        (if off = AT_CHAR_Open then pos_short_td_opn_ing v
         else if off = AT_CHAR_CloseYesterday then pos_long_yd_cls_ing v
         else pos_long_td_cls_ing v))"

definition book_left :: "u32 \<Rightarrow> int \<Rightarrow> int \<Rightarrow> open_order \<Rightarrow> int" where
  "book_left h dir off r =
     (if oo_hash r = h \<and> oo_dir r = dir \<and> oo_off r = off then oo_left r else 0)"

text \<open>
  The simulation relation: the account counts the orders of the book, and the working volume of
  every instrument, direction and offset is what the orders of the book have left.
\<close>

definition book_rel :: "order_book \<Rightarrow> acc_world \<Rightarrow> bool" where
  "book_rel b w \<longleftrightarrow>
     acc_world_inv w \<and> um_ok b \<and>
     (\<forall>(oid, r) \<in> set b. um_has (oo_hash r) (tb_instr_info (aw_base w)) \<and> dir_known (oo_dir r) \<and>
        off_known (oo_off r)) \<and>
     unfilled_order_cnt (ab_mod_acc (aw_acc w)) = int (length b) \<and>
     (\<forall>h dir off. dir_known dir \<longrightarrow> off_known off \<longrightarrow>
        ing_vol dir off (acc_vol h (aw_acc w)) = um_sum (book_left h dir off) b)"

text \<open>What the three order operations do to the volumes of the instrument, and to the count.\<close>

definition vol_new :: "int \<Rightarrow> int \<Rightarrow> int \<Rightarrow> unit_vol \<Rightarrow> unit_vol" where
  "vol_new dir off n =
     (if dir = AT_CHAR_Buy then
        (if off = AT_CHAR_Open then UnitVol_onBuyOpnNew n
         else if off = AT_CHAR_CloseYesterday then UnitVol_onBuyClsYdNew n
         else UnitVol_onBuyClsTdNew n)
      else
        (if off = AT_CHAR_Open then UnitVol_onSellOpnNew n
         else if off = AT_CHAR_CloseYesterday then UnitVol_onSellClsYdNew n
         else UnitVol_onSellClsTdNew n))"

definition vol_cxl :: "int \<Rightarrow> int \<Rightarrow> int \<Rightarrow> unit_vol \<Rightarrow> unit_vol" where
  "vol_cxl dir off n =
     (if dir = AT_CHAR_Buy then
        (if off = AT_CHAR_Open then UnitVol_onBuyOpnCxl n
         else if off = AT_CHAR_CloseYesterday then UnitVol_onBuyClsYdCxl n
         else UnitVol_onBuyClsTdCxl n)
      else
        (if off = AT_CHAR_Open then UnitVol_onSellOpnCxl n
         else if off = AT_CHAR_CloseYesterday then UnitVol_onSellClsYdCxl n
         else UnitVol_onSellClsTdCxl n))"

definition vol_trd :: "int \<Rightarrow> int \<Rightarrow> int \<Rightarrow> unit_vol \<Rightarrow> unit_vol" where
  "vol_trd dir off n =
     (if dir = AT_CHAR_Buy then
        (if off = AT_CHAR_Open then UnitVol_onBuyOpnTrd n
         else if off = AT_CHAR_CloseYesterday then UnitVol_onBuyClsYdTrd n
         else UnitVol_onBuyClsTdTrd n)
      else
        (if off = AT_CHAR_Open then UnitVol_onSellOpnTrd n
         else if off = AT_CHAR_CloseYesterday then UnitVol_onSellClsYdTrd n
         else UnitVol_onSellClsTdTrd n))"

lemma new_vol:
  assumes "ModInstr_onNew dir off px n (mk_ctx i p a) = Inr (mk_ctx i' p' a')"
    "dir_known dir" "off_known off"
  shows "ins_vol i' = vol_new dir off n (ins_vol i) \<and> unfilled_order_cnt a' = unfilled_order_cnt a + 1"
  using assms by (auto simp: ModInstr_onNew_def Let_def dir_known_def off_known_def vol_new_def)

lemma cxl_vol:
  assumes "ModInstr_onCxl dir off px n (mk_ctx i p a) = Inr (mk_ctx i' p' a')"
    "dir_known dir" "off_known off"
  shows "ins_vol i' = vol_cxl dir off n (ins_vol i) \<and> unfilled_order_cnt a' = unfilled_order_cnt a - 1"
  using assms by (auto simp: ModInstr_onCxl_def Let_def dir_known_def off_known_def vol_cxl_def)

lemma trd_vol:
  assumes "ModInstr_onTrd dir off px vol vol_traded trd_px n (mk_ctx i p a) = Inr (mk_ctx i' p' a')"
    "dir_known dir" "off_known off"
  shows "ins_vol i' = vol_trd dir off n (ins_vol i) \<and>
     unfilled_order_cnt a' = unfilled_order_cnt a - (if vol = vol_traded then 1 else 0)"
  using assms
  by (cases "vol = vol_traded")
    (auto simp: ModInstr_onTrd_def onTickPx_mk trd_branch_def book_buy_def book_sell_def Let_def
      dir_known_def off_known_def vol_trd_def)

lemma ing_vol_ops:
  assumes "dir_known dir" "off_known off" "dir_known d" "off_known f"
  shows "ing_vol d f (vol_new dir off n v) = ing_vol d f v + (if d = dir \<and> f = off then n else 0)"
    "ing_vol d f (vol_cxl dir off n v) = ing_vol d f v - (if d = dir \<and> f = off then n else 0)"
    "ing_vol d f (vol_trd dir off n v) = ing_vol d f v - (if d = dir \<and> f = off then n else 0)"
  using assms
  by (auto simp: dir_known_def off_known_def ing_vol_def vol_new_def vol_cxl_def vol_trd_def
      vol_defs)

lemma tick_same_vol:
  assumes "ModInstr_onTickPx px (mk_ctx i p a) = Inr (mk_ctx i' p' a')"
  shows "ins_vol i' = ins_vol i \<and> unfilled_order_cnt a' = unfilled_order_cnt a"
  using assms by (auto simp: onTickPx_mk)

section \<open>The account follows the book\<close>

lemma um_sum_delete:
  "um_ok b \<Longrightarrow> map_of b k = Some v \<Longrightarrow> um_sum f (AList.delete k b) = um_sum f b - f v"
proof (induction b)
  case (Cons e b)
  obtain j u where e: "e = (j, u)" by (cases e)
  show ?case
  proof (cases "j = k")
    case True
    with Cons.prems e have "AList.delete k b = b"
      by (simp add: um_ok_def delete_id)
    with True Cons.prems e show ?thesis by simp
  next
    case False
    with Cons e show ?thesis by (simp add: um_ok_def)
  qed
qed simp

lemma length_update_new: "map_of b k = None \<Longrightarrow> length (AList.update k v b) = Suc (length b)"
  by (induction b) (auto split: if_splits)

lemma length_update_old: "map_of b k = Some w \<Longrightarrow> length (AList.update k v b) = length b"
  by (induction b) (auto split: if_splits)

lemma length_delete:
  "um_ok b \<Longrightarrow> map_of b k = Some v \<Longrightarrow> int (length (AList.delete k b)) = int (length b) - 1"
proof (induction b)
  case (Cons e b)
  then show ?case by (cases e) (auto simp: um_ok_def delete_id split: if_splits)
qed simp

definition book_ok :: "instr_table \<Rightarrow> order_book \<Rightarrow> bool" where
  "book_ok tb b \<longleftrightarrow> um_ok b \<and>
     (\<forall>(oid, r) \<in> set b. um_has (oo_hash r) tb \<and> dir_known (oo_dir r) \<and> off_known (oo_off r))"

lemma book_ok_update:
  "book_ok tb b \<Longrightarrow> um_has (oo_hash r) tb \<and> dir_known (oo_dir r) \<and> off_known (oo_off r) \<Longrightarrow>
   book_ok tb (AList.update k r b)"
  by (auto simp: book_ok_def map_of_in_set split: if_splits)

lemma book_ok_delete: "book_ok tb b \<Longrightarrow> book_ok tb (AList.delete k b)"
  using um_ok_delete [of b k] by (auto simp: book_ok_def AList.delete_eq)

lemma book_okD:
  "book_ok tb b \<Longrightarrow> map_of b k = Some r \<Longrightarrow>
   um_has (oo_hash r) tb \<and> dir_known (oo_dir r) \<and> off_known (oo_off r)"
  by (auto simp: book_ok_def dest!: map_of_SomeD)

lemma book_relI:
  assumes "acc_world_inv w" "book_ok (tb_instr_info (aw_base w)) b"
    and "unfilled_order_cnt (ab_mod_acc (aw_acc w)) = int (length b)"
    and "\<And>h dir off. dir_known dir \<Longrightarrow> off_known off \<Longrightarrow>
      ing_vol dir off (acc_vol h (aw_acc w)) = um_sum (book_left h dir off) b"
  shows "book_rel b w"
  using assms by (simp add: book_rel_def book_ok_def)

lemma book_relD:
  assumes "book_rel b w"
  shows "acc_world_inv w" "book_ok (tb_instr_info (aw_base w)) b" "um_ok b"
    and "unfilled_order_cnt (ab_mod_acc (aw_acc w)) = int (length b)"
    and "dir_known dir \<Longrightarrow> off_known off \<Longrightarrow>
      ing_vol dir off (acc_vol h (aw_acc w)) = um_sum (book_left h dir off) b"
  using assms by (simp_all add: book_rel_def book_ok_def)

text \<open>
  One callback and one change of the book that count and work off the same amounts.
\<close>

lemma book_rel_callback:
  assumes rel: "book_rel b w" and h: "um_has h (tb_instr_info (aw_base w))"
    and mv: "\<And>c. live c \<Longrightarrow> moved c (act c)"
    and eff: "\<And>i p a i' p' a'. act (mk_ctx i p a) = Inr (mk_ctx i' p' a') \<Longrightarrow> ins_ok i \<Longrightarrow>
      ins_vol i = acc_vol h (aw_acc w) \<Longrightarrow>
      ins_ok i' \<and> unfilled_order_cnt a' = unfilled_order_cnt a + c \<and>
      (\<forall>d f. dir_known d \<longrightarrow> off_known f \<longrightarrow>
         ing_vol d f (ins_vol i') = ing_vol d f (ins_vol i) + delta d f)"
    and book: "book_ok (tb_instr_info (aw_base w)) b'" "int (length b') = int (length b) + c"
      "\<And>j d f. dir_known d \<Longrightarrow> off_known f \<Longrightarrow>
         um_sum (book_left j d f) b' = um_sum (book_left j d f) b + (if j = h then delta d f else 0)"
  shows "\<exists>w'. on_acc (\<lambda>tb. acc_on_instr tb h act) w = Inr w' \<and> book_rel b' w'"
proof -
  note R = book_relD [OF rel]
  have base: "base_ok (tb_instr_info (aw_base w))" and ai: "acc_inv (aw_acc w)"
    using R(1) by (simp_all add: acc_world_inv_def)
  from h obtain info where info: "map_of (tb_instr_info (aw_base w)) h = Some info"
    by (auto simp: um_has_def)
  obtain i p i' p' a' t where r:
    "act (mk_ctx i p (ab_mod_acc (aw_acc w))) = Inr (mk_ctx i' p' a')"
    "acc_on_instr (tb_instr_info (aw_base w)) h act (aw_acc w) = Inr t"
    "ins_ok i" "ins_vol i = acc_vol h (aw_acc w)" "ins_vol i' = acc_vol h t" "ab_mod_acc t = a'"
    "\<And>j. j \<noteq> h \<Longrightarrow> acc_vol j t = acc_vol j (aw_acc w)" "ins_ok i' \<Longrightarrow> acc_inv t"
    by (rule acc_on_instr_run [OF base ai info, of act], erule mv, rule that)
  note E = eff [OF r(1,3,4)]
  have "book_rel b' (w\<lparr>aw_acc := t\<rparr>)"
  proof (rule book_relI)
    fix j d f assume df: "dir_known d" "off_known f"
    have "ing_vol d f (acc_vol j t) =
        ing_vol d f (acc_vol j (aw_acc w)) + (if j = h then delta d f else 0)"
      using E r(4,5,7) df by (cases "j = h") auto
    with R(5) [OF df] book(3) [OF df]
    show "ing_vol d f (acc_vol j (aw_acc (w\<lparr>aw_acc := t\<rparr>))) = um_sum (book_left j d f) b'"
      by simp
  qed (use E r(6,8) R(4) base book in \<open>simp_all add: acc_world_inv_def\<close>)
  with r(2) show ?thesis by (simp add: on_acc_def)
qed

text \<open>What an execution or a cancel report makes of an instrument.\<close>

lemma rtn_act_execution:
  "rm_msg_type m = ODS_EXECUTION \<Longrightarrow>
   rtn_act t m = ModInstr_onTrd (ot_dir t) (ot_off t) (ot_price t) (ot_vol t) (ot_vol_traded t)
     (rm_price m) (rm_vol m)"
  by (simp add: rtn_act_def fun_eq_iff)

lemma rtn_act_cancel:
  "rm_msg_type m \<in> set cancel_types \<Longrightarrow>
   rtn_act t m = ModInstr_onCxl (ot_dir t) (ot_off t) (ot_price t) (rm_vol m)"
  by (auto simp: rtn_act_def cancel_types_def fun_eq_iff ods_defs res_bind_def split: sum.splits)

lemma book_rel_tick:
  assumes rel: "book_rel b w"
  shows "\<exists>w'. acc_step (OnTickPx h px) w = Inr w' \<and> book_rel b w'"
proof (cases "map_of (tb_instr_info (aw_base w)) h")
  case None
  then show ?thesis using rel by (simp add: on_acc_def AccBase_onTickPx_def acc_on_instr_def)
next
  case (Some info)
  note R = book_relD [OF rel]
  have "\<exists>w'. on_acc (\<lambda>tb. acc_on_instr tb h (ModInstr_onTickPx px)) w = Inr w' \<and> book_rel b w'"
    by (rule book_rel_callback [OF rel, where c = 0 and delta = "\<lambda>_ _. 0"])
      (use Some R in \<open>auto simp: um_has_def dest: tick_same_vol ins_ok_tick intro: moved_onTickPx\<close>)
  then show ?thesis by (simp add: AccBase_onTickPx_def on_acc_def)
qed

lemma book_rel_switch:
  assumes rel: "book_rel b w"
  shows "book_rel [] (w\<lparr>aw_acc := AccBase_onSwitchDay (aw_acc w)\<rparr>)"
proof -
  have inv: "acc_inv (aw_acc w)" and base: "base_ok (tb_instr_info (aw_base w))"
    using book_relD(1) [OF rel] by (simp_all add: acc_world_inv_def)
  have z: "ing_vol d f (UnitVol_onSwitchDay v) = 0" "ing_vol d f unit_vol_init = 0" for d f v
    by (simp_all add: ing_vol_def UnitVol_onSwitchDay_def unit_vol_init_def)
  show ?thesis
  proof (rule book_relI)
    fix h d f
    show "ing_vol d f (acc_vol h (aw_acc (w\<lparr>aw_acc := AccBase_onSwitchDay (aw_acc w)\<rparr>))) =
        um_sum (book_left h d f) []"
      using acc_invD(1) [OF inv] z
      by (simp add: acc_vol_def onSwitchDay_linked [OF inv] map_of_um_drop ModInstr_onSwitchDay_def
          split: option.splits)
  qed (use acc_inv_switch [OF inv] base in
      \<open>simp_all add: acc_world_inv_def book_ok_def AccBase_onSwitchDay_def ModAcc_onSwitchDay_def
         Let_def\<close>)
qed

lemma book_rel_enter:
  assumes rel: "book_rel b w" and new: "map_of b oid = None"
    and h: "um_has h (tb_instr_info (aw_base w))" "dir_known dir" "off_known off"
  shows "\<exists>w'. acc_step (OnNew dir off px vol h) w = Inr w' \<and>
     book_rel (AList.update oid \<lparr>oo_hash = h, oo_dir = dir, oo_off = off, oo_px = px, oo_vol = vol,
        oo_traded = 0\<rparr> b) w'"
    (is "\<exists>w'. _ \<and> book_rel (AList.update oid ?r b) w'")
proof -
  note R = book_relD [OF rel]
  have "\<exists>w'. on_acc (\<lambda>tb. acc_on_instr tb h (ModInstr_onNew dir off px vol)) w = Inr w' \<and>
      book_rel (AList.update oid ?r b) w'"
  proof (rule book_rel_callback [OF rel h(1), where c = 1
        and delta = "\<lambda>d f. if d = dir \<and> f = off then vol else 0"])
    fix i p a i' p' a'
    assume act: "ModInstr_onNew dir off px vol (mk_ctx i p a) = Inr (mk_ctx i' p' a')" "ins_ok i"
    show "ins_ok i' \<and> unfilled_order_cnt a' = unfilled_order_cnt a + 1 \<and>
        (\<forall>d f. dir_known d \<longrightarrow> off_known f \<longrightarrow> ing_vol d f (ins_vol i') =
           ing_vol d f (ins_vol i) + (if d = dir \<and> f = off then vol else 0))"
      using ins_ok_new [OF act(2,1)] new_vol [OF act(1) h(2,3)] ing_vol_ops(1) [OF h(2,3)] by simp
  next
    show "int (length (AList.update oid ?r b)) = int (length b) + 1"
      by (simp add: length_update_new new)
  next
    fix j d f
    show "um_sum (book_left j d f) (AList.update oid ?r b) =
        um_sum (book_left j d f) b + (if j = h then if d = dir \<and> f = off then vol else 0 else 0)"
      by (auto simp: um_sum_insert [OF new] book_left_def oo_left_def)
  qed (use R h in \<open>auto intro: moved_onNew book_ok_update\<close>)
  then show ?thesis by (simp add: AccBase_onNew_def on_acc_def)
qed

lemma book_rel_trade:
  assumes rel: "book_rel b w" and r: "map_of b oid = Some r" "order_view r t"
    and m: "rm_msg_type m = ODS_EXECUTION" "acc_legal (OnRtn t m) w"
    and b': "book_ok (tb_instr_info (aw_base w)) b'"
      "int (length b') = int (length b) - (if oo_vol r = ot_vol_traded t then 1 else 0)"
      "\<And>j d f. um_sum (book_left j d f) b' = um_sum (book_left j d f) b -
         (if j = oo_hash r \<and> d = oo_dir r \<and> f = oo_off r then rm_vol m else 0)"
  shows "\<exists>w'. acc_step (OnRtn t m) w = Inr w' \<and> book_rel b' w'"
proof -
  note R = book_relD [OF rel]
  note K = book_okD [OF R(2) r(1)]
  have V: "ot_instr_hash t = oo_hash r" "ot_dir t = oo_dir r" "ot_off t = oo_off r"
    "ot_price t = oo_px r" "ot_vol t = oo_vol r"
    using r(2) by (simp_all add: order_view_def)
  have fits: "trd_fits (oo_dir r) (oo_off r) (rm_vol m) (acc_vol (oo_hash r) (aw_acc w))"
    using m V by (simp add: rtn_fits_def)
  have "\<exists>w'. on_acc (\<lambda>tb. acc_on_instr tb (oo_hash r) (ModInstr_onTrd (oo_dir r) (oo_off r) (oo_px r)
      (oo_vol r) (ot_vol_traded t) (rm_price m) (rm_vol m))) w = Inr w' \<and> book_rel b' w'"
  proof (rule book_rel_callback [OF rel _ _ _ b'(1),
        where c = "- (if oo_vol r = ot_vol_traded t then 1 else 0)"
        and delta = "\<lambda>d f. - (if d = oo_dir r \<and> f = oo_off r then rm_vol m else 0)"])
    fix i p a i' p' a'
    assume act: "ModInstr_onTrd (oo_dir r) (oo_off r) (oo_px r) (oo_vol r) (ot_vol_traded t)
        (rm_price m) (rm_vol m) (mk_ctx i p a) = Inr (mk_ctx i' p' a')" "ins_ok i"
        "ins_vol i = acc_vol (oo_hash r) (aw_acc w)"
    have "ins_ok i'" using ins_ok_trd [OF act(2) fits [folded act(3)] act(1)] by simp
    moreover note trd_vol [OF act(1)] K
    ultimately show "ins_ok i' \<and>
        unfilled_order_cnt a' =
          unfilled_order_cnt a + - (if oo_vol r = ot_vol_traded t then 1 else 0) \<and>
        (\<forall>d f. dir_known d \<longrightarrow> off_known f \<longrightarrow> ing_vol d f (ins_vol i') =
           ing_vol d f (ins_vol i) + - (if d = oo_dir r \<and> f = oo_off r then rm_vol m else 0))"
      using ing_vol_ops(3) by auto
  qed (use K b'(2,3) in \<open>auto intro: moved_onTrd\<close>)
  then show ?thesis by (simp add: AccBase_onRtn_def on_acc_def rtn_act_execution [OF m(1)] V)
qed

lemma book_rel_cancel:
  assumes rel: "book_rel b w" and r: "map_of b oid = Some r" "order_view r t"
    and m: "rm_msg_type m \<in> set cancel_types" "rm_vol m = oo_left r"
  shows "\<exists>w'. acc_step (OnRtn t m) w = Inr w' \<and> book_rel (AList.delete oid b) w'"
proof -
  note R = book_relD [OF rel]
  note K = book_okD [OF R(2) r(1)]
  have V: "ot_instr_hash t = oo_hash r" "ot_dir t = oo_dir r" "ot_off t = oo_off r"
    "ot_price t = oo_px r"
    using r(2) by (simp_all add: order_view_def)
  have "\<exists>w'. on_acc (\<lambda>tb. acc_on_instr tb (oo_hash r) (ModInstr_onCxl (oo_dir r) (oo_off r) (oo_px r)
      (oo_left r))) w = Inr w' \<and> book_rel (AList.delete oid b) w'"
  proof (rule book_rel_callback [OF rel _ _ _ book_ok_delete [OF R(2)], where c = "- 1"
        and delta = "\<lambda>d f. - (if d = oo_dir r \<and> f = oo_off r then oo_left r else 0)"])
    fix i p a i' p' a'
    assume act: "ModInstr_onCxl (oo_dir r) (oo_off r) (oo_px r) (oo_left r) (mk_ctx i p a) =
        Inr (mk_ctx i' p' a')" "ins_ok i"
    show "ins_ok i' \<and> unfilled_order_cnt a' = unfilled_order_cnt a + - 1 \<and>
        (\<forall>d f. dir_known d \<longrightarrow> off_known f \<longrightarrow> ing_vol d f (ins_vol i') =
           ing_vol d f (ins_vol i) + - (if d = oo_dir r \<and> f = oo_off r then oo_left r else 0))"
      using ins_ok_cxl [OF act(2,1)] cxl_vol [OF act(1)] K ing_vol_ops(2) by auto
  next
    show "int (length (AList.delete oid b)) = int (length b) + - 1"
      using length_delete [OF R(3) r(1)] by simp
  next
    fix j d f
    show "um_sum (book_left j d f) (AList.delete oid b) = um_sum (book_left j d f) b +
        (if j = oo_hash r then - (if d = oo_dir r \<and> f = oo_off r then oo_left r else 0) else 0)"
      by (auto simp: um_sum_delete [OF R(3) r(1)] book_left_def)
  qed (use K in \<open>auto intro: moved_onCxl\<close>)
  then show ?thesis by (simp add: AccBase_onRtn_def on_acc_def rtn_act_cancel [OF m(1)] V m(2))
qed

text \<open>The simulation.\<close>

lemma book_rel_step:
  assumes "order_step (tb_instr_info (aw_base w)) b e b'" "book_rel b w" "acc_legal e w"
  shows "\<exists>w'. acc_step e w = Inr w' \<and> book_rel b' w'"
  using assms
proof cases
  case (enter oid h dir off vol px)
  then show ?thesis using book_rel_enter [OF assms(2)] by blast
next
  case (part oid r t m)
  note R = book_relD [OF assms(2)]
  note K = book_okD [OF R(2) part(3)]
  show ?thesis
    unfolding part(1)
  proof (rule book_rel_trade [OF assms(2) part(3,4,5) assms(3) [unfolded part(1)]])
    show "book_ok (tb_instr_info (aw_base w)) b'"
      unfolding part(2) by (rule book_ok_update [OF R(2)]) (use K in simp)
    show "int (length b') = int (length b) - (if oo_vol r = ot_vol_traded t then 1 else 0)"
      using part(7,8) by (auto simp: part(2) length_update_old [OF part(3)] oo_left_def)
    show "um_sum (book_left j d f) b' = um_sum (book_left j d f) b -
        (if j = oo_hash r \<and> d = oo_dir r \<and> f = oo_off r then rm_vol m else 0)" for j d f
      using part(8)
      by (auto simp: part(2) um_sum_update [OF R(3) part(3)] book_left_def oo_left_def)
  qed
next
  case (fill oid r t m)
  note R = book_relD [OF assms(2)]
  show ?thesis
    unfolding fill(1)
  proof (rule book_rel_trade [OF assms(2) fill(3,4,5) assms(3) [unfolded fill(1)]])
    show "book_ok (tb_instr_info (aw_base w)) b'"
      unfolding fill(2) by (rule book_ok_delete [OF R(2)])
    show "int (length b') = int (length b) - (if oo_vol r = ot_vol_traded t then 1 else 0)"
      using fill(7) length_delete [OF R(3) fill(3)] by (simp add: fill(2))
    show "um_sum (book_left j d f) b' = um_sum (book_left j d f) b -
        (if j = oo_hash r \<and> d = oo_dir r \<and> f = oo_off r then rm_vol m else 0)" for j d f
      using fill(6) by (auto simp: fill(2) um_sum_delete [OF R(3) fill(3)] book_left_def)
  qed
next
  case (cancel oid r t m)
  then show ?thesis using book_rel_cancel [OF assms(2)] by blast
next
  case (tick h px)
  then show ?thesis using book_rel_tick [OF assms(2)] by blast
next
  case switch
  then show ?thesis using book_rel_switch [OF assms(2)] by simp
qed

text \<open>A day of orders: a sequence of events with the books between them.\<close>

inductive order_run :: "instr_table \<Rightarrow> order_book \<Rightarrow> acc_event list \<Rightarrow> order_book \<Rightarrow> bool"
  for tb :: instr_table
  where
    order_run_Nil: "order_run tb b [] b"
  | order_run_Cons: "order_step tb b e b1 \<Longrightarrow> order_run tb b1 es b2 \<Longrightarrow> order_run tb b (e # es) b2"

lemma order_step_base:
  "order_step tb b e b' \<Longrightarrow> acc_step e w = Inr w' \<Longrightarrow> aw_base w' = aw_base w"
  by (erule order_step.cases) (auto simp: on_acc_def res_bind_Inr_iff)

lemma book_rel_run:
  assumes "order_run tb b es b'" "tb = tb_instr_info (aw_base w)" "book_rel b w"
    "legal_run acc_step acc_legal es w"
  shows "\<exists>w'. run_steps acc_step es w = Inr w' \<and> book_rel b' w'"
  using assms
proof (induction arbitrary: w rule: order_run.induct)
  case (order_run_Cons b e b1 es b2)
  obtain w1 where w1: "acc_step e w = Inr w1" "book_rel b1 w1"
    using book_rel_step [of w b e b1] order_run_Cons by auto
  with order_run_Cons.IH [of w1] order_run_Cons.prems order_step_base [OF order_run_Cons.hyps(1) w1(1)]
  show ?case by simp
qed simp

end
