(* ===== verification/Account_Properties.thy ===== *)
theory Account_Properties
  imports Acc_World
begin

text \<open>
  What an account guarantees over a whole run: no callback follows a dead pointer, the product and
  account levels are the totals of their instruments, profit and amounts are marked to the last
  price, the counters of working orders are those of the orders that are open, and a cancel undoes
  a new order. Every theorem has a witness on a small concrete account.
\<close>

section \<open>Examples\<close>

text \<open>One listed instrument, one order of two lots and its trades.\<close>

definition if_info :: instrument_info where
  "if_info =
     \<lparr>ii_instr_hash = INSTR_NAME_TO_HASH ''IF2206'', ii_instr = ''IF2206'',
      ii_exch = EXCHANGEID_CFFEX, ii_product = ''IF'',
      ii_product_hash = INSTR_NAME_TO_HASH ''IF'', ii_vol_multiple = 300,
      ii_tick_price = 1 / 5, ii_expire_date = ''20220617'', ii_is_trading = True\<rparr>"

definition if_base :: trade_base where
  "if_base = trade_base_init
     \<lparr>tb_trading_day := ''20220601'', tb_instr_info := [(INSTR_NAME_TO_HASH ''IF2206'', if_info)]\<rparr>"

definition if_track :: "int \<Rightarrow> int \<Rightarrow> order_track" where
  "if_track status traded =
     \<lparr>ot_status = status, ot_instr_hash = INSTR_NAME_TO_HASH ''IF2206'', ot_instr = ''IF2206'',
      ot_price = 4000, ot_vol = 2, ot_dir = AT_CHAR_Buy, ot_off = AT_CHAR_Open,
      ot_vol_traded = traded, ot_amount_traded = 3999 * of_int traded, ot_from = 0,
      ot_local_id = 1, ot_acc_id = 0, ot_stg_id = 0, ot_order_ref = 1, ot_front_id = 0,
      ot_session_id = 0\<rparr>"

definition if_rtn :: "int \<Rightarrow> int \<Rightarrow> rtn_msg" where
  "if_rtn type n =
     \<lparr>rm_msg_type = type, rm_local_id = 1, rm_instr_hash = INSTR_NAME_TO_HASH ''IF2206'',
      rm_instr = ''IF2206'', rm_price = 3999, rm_vol = n, rm_dir = AT_CHAR_Buy,
      rm_off = AT_CHAR_Open, rm_order_ref = 1, rm_front_id = 0, rm_session_id = 0, rm_errid = 0,
      rm_msg = []\<rparr>"

definition if_day :: "acc_event list" where
  "if_day =
     [OnNew AT_CHAR_Buy AT_CHAR_Open 4000 2 (INSTR_NAME_TO_HASH ''IF2206''),
      OnRtn (if_track ODS_EXECUTION 1) (if_rtn ODS_EXECUTION 1),
      OnTickPx (INSTR_NAME_TO_HASH ''IF2206'') 4010,
      OnRtn (if_track ODS_CANCELED 1) (if_rtn ODS_CANCELED 1)]"

definition if_world :: acc_world where
  "if_world = \<lparr>aw_base = if_base, aw_acc = acc_base_init\<rparr>"

lemma if_base_ok [simp]: "base_ok (tb_instr_info if_base)"
  by (simp add: base_ok_def um_ok_def if_base_def if_info_def info_ok_def)

lemma if_world_inv [simp]: "acc_world_inv if_world"
  by (simp add: acc_world_inv_def if_world_def)

lemma if_day_legal [simp]: "legal_run acc_step acc_legal if_day w"
  by (simp add: if_day_def rtn_fits_def trd_fits_def if_track_def if_rtn_def dir_known_def
      off_known_def split: sum.splits)

text \<open>An instrument that holds two lots bought yesterday at 3990 and one sold today at 4000.\<close>

definition if_held :: mod_instr where
  "if_held = mod_instr_init
     \<lparr>instr_name := ''IF2206'', vol_multiple := 300, ins_p_prd := PtrTo (INSTR_NAME_TO_HASH ''IF''),
      ins_p_acc := PtrTo (),
      ins_vol := unit_vol_init\<lparr>pos_long_yd_ini := 2, pos_long_yd := 2, pos_long := 2,
        pos_short_td := 1, pos_short := 1, pos_sell := 1\<rparr>,
      ins_amt := unit_amt_init\<lparr>amt_long := 4000 * 2 * 300, amt_short := 4000 * 1 * 300,
        amt_sell := 4000 * 1 * 300\<rparr>,
      ins_px := unit_px_init\<lparr>stl_px_yd := 3990, last_px := 4000, avg_px_sell := 4000\<rparr>,
      ins_pnl := unit_pnl_init\<lparr>pos_pnl := 10 * 2 * 300\<rparr>\<rparr>"

section \<open>Evaluation of the example\<close>

lemmas account_eval =
  on_acc_def AccBase_onNew_def AccBase_onRtn_def AccBase_onTickPx_def acc_on_instr_def
  AccBase_regInstr_def AccBase_isExistModPrd_def AccBase_isExistModInstr_def um_has_def
  AccBase_regModPrd_def ModPrd_init_def AccBase_regModInstr_def ModInstr_init_def acc_link_def
  um_touch_def acc_ctx_def acc_ptr_def deref_def acc_put_ctx_def rtn_act_def Let_def
  ModInstr_onNew_def ModInstr_onCxl_def ModInstr_onTrd_def trd_branch_def book_buy_def
  book_sell_def acc_base_init_def trade_base_init_def mod_acc_init_def mod_prd_init_def
  mod_instr_init_def unit_vol_init_def unit_amt_init_def unit_px_init_def unit_pnl_init_def
  vol_defs amt_defs pnl_defs amt_calc_defs pnl_calc_defs UnitPx_calcAvgPx_def tick_amt_def
  tick_pnl_def onTickPx_mk mk_ctx_def [symmetric]

definition if_instr_end :: mod_instr where
  "if_instr_end = mod_instr_init
     \<lparr>instr_name := ''IF2206'', vol_multiple := 300,
      ins_p_prd := PtrTo (INSTR_NAME_TO_HASH ''IF''), ins_p_acc := PtrTo (),
      ins_vol := unit_vol_init\<lparr>pos_long_td := 1, pos_long := 1, pos_buy := 1\<rparr>,
      ins_amt := unit_amt_init\<lparr>amt_long := 1203000, amt_buy := 1199700\<rparr>,
      ins_px := unit_px_init\<lparr>last_px := 4010, avg_px_buy := 3999\<rparr>,
      ins_pnl := unit_pnl_init\<lparr>trd_pnl := 3300\<rparr>\<rparr>"

definition if_prd_end :: mod_prd where
  "if_prd_end = mod_prd_init
     \<lparr>prd_name := ''IF'', prd_vol := unit_vol_init\<lparr>pos_long_td := 1, pos_long := 1, pos_buy := 1\<rparr>,
      prd_amt := unit_amt_init\<lparr>amt_long := 1203000\<rparr>,
      prd_pnl := unit_pnl_init\<lparr>trd_pnl := 3300\<rparr>\<rparr>"

definition if_acc_end :: acc_base where
  "if_acc_end = acc_base_init
     \<lparr>ab_map_instr := [(INSTR_NAME_TO_HASH ''IF2206'', if_instr_end)],
      ab_map_prd := [(INSTR_NAME_TO_HASH ''IF'', if_prd_end)],
      ab_mod_acc := mod_acc_init\<lparr>acc_amt := unit_amt_init\<lparr>amt_long := 1203000\<rparr>,
        acc_pnl := unit_pnl_init\<lparr>trd_pnl := 3300\<rparr>\<rparr>\<rparr>"

lemma if_day_run: "run_steps acc_step if_day if_world = Inr \<lparr>aw_base = if_base, aw_acc = if_acc_end\<rparr>"
  by (simp add: if_day_def if_world_def if_base_def if_info_def if_track_def if_rtn_def
      if_acc_end_def if_instr_end_def if_prd_end_def account_eval ods_defs)

lemma if_end_entries:
  "map_of (ab_map_instr if_acc_end) (INSTR_NAME_TO_HASH ''IF2206'') = Some if_instr_end"
  "map_of (ab_map_prd if_acc_end) (INSTR_NAME_TO_HASH ''IF'') = Some if_prd_end"
  by (simp_all add: if_acc_end_def)

lemmas if_day_reached = if_world_inv if_day_legal if_day_run

section \<open>Runs of an account\<close>

lemma reached_inv:
  assumes "acc_world_inv w0" "legal_run acc_step acc_legal es w0" "run_steps acc_step es w0 = Inr w"
  shows "acc_inv (aw_acc w)"
  using account.run_inv [OF assms(1,2)] assms(3) by (auto simp: acc_world_inv_def)

text \<open>
  C1. A run of callbacks, base information and day switches that starts with an empty process never
  dereferences a null or dangling pointer, under two conditions on what comes from outside (\<open>acc_legal\<close>):
  trades have a known direction and offset and fit the positions they close, and base information lists
  the instruments it counts, under the hashes of their names and without a negative multiplier (with one,
  the second order of the instrument faults: \<open>refused_instrument_faults_next_time\<close>). The run ends in an
  account whose instruments are all linked to their product and to the account, and hold no negative
  position.
\<close>

theorem account_run_never_faults:
  assumes "legal_run acc_step acc_legal es acc_world_init"
  shows "\<exists>w. run_steps acc_step es acc_world_init = Inr w \<and>
    (\<forall>(h, i) \<in> set (ab_map_instr (aw_acc w)). linked (ab_map_prd (aw_acc w)) i \<and>
       0 \<le> pos_long_yd (ins_vol i) \<and> 0 \<le> pos_long_td (ins_vol i) \<and>
       0 \<le> pos_short_yd (ins_vol i) \<and> 0 \<le> pos_short_td (ins_vol i))"
  using account.run_inv [OF acc_world_init_inv assms]
  by (fastforce simp: acc_world_inv_def acc_inv_def ins_ok_def vol_pos_def)

definition if_infos :: td_base_info where
  "if_infos = \<lparr>bi_trading_day = ''20220601'', bi_instr_cnt = 1, bi_instr = [if_info]\<rparr>"

theorem account_run_never_faults_witness:
  "\<exists>w. run_steps acc_step (OnBaseInfo if_infos # if_day @ [OnSwitchDay]) acc_world_init = Inr w \<and>
    (\<forall>(h, i) \<in> set (ab_map_instr (aw_acc w)). linked (ab_map_prd (aw_acc w)) i \<and>
       0 \<le> pos_long_yd (ins_vol i) \<and> 0 \<le> pos_long_td (ins_vol i) \<and>
       0 \<le> pos_short_yd (ins_vol i) \<and> 0 \<le> pos_short_td (ins_vol i))"
  by (rule account_run_never_faults)
    (simp add: if_day_def rtn_fits_def trd_fits_def if_track_def if_rtn_def dir_known_def
      off_known_def if_infos_def if_info_def info_ok_def split: sum.splits)

text \<open>
  C3. In every account a legal run reaches, each volume, amount and PnL of a product is the sum of
  the same field over the instruments linked to it, and each amount and PnL of the account is the
  sum over all instruments, although the three levels are updated by separate statements.
\<close>

theorem account_levels_are_totals:
  assumes "acc_world_inv w0" "legal_run acc_step acc_legal es w0" "run_steps acc_step es w0 = Inr w"
    and "map_of (ab_map_prd (aw_acc w)) k = Some p"
  shows "(\<forall>f \<in> vol_fields. f (prd_vol p) =
        um_sum (\<lambda>i. if ins_p_prd i = PtrTo k then f (ins_vol i) else 0) (ab_map_instr (aw_acc w))) \<and>
    (\<forall>f \<in> amt_fields. f (prd_amt p) =
        um_sum (\<lambda>i. if ins_p_prd i = PtrTo k then f (ins_amt i) else 0) (ab_map_instr (aw_acc w)) \<and>
        f (acc_amt (ab_mod_acc (aw_acc w))) = um_sum (\<lambda>i. f (ins_amt i)) (ab_map_instr (aw_acc w))) \<and>
    (\<forall>f \<in> pnl_fields. f (prd_pnl p) =
        um_sum (\<lambda>i. if ins_p_prd i = PtrTo k then f (ins_pnl i) else 0) (ab_map_instr (aw_acc w)) \<and>
        f (acc_pnl (ab_mod_acc (aw_acc w))) = um_sum (\<lambda>i. f (ins_pnl i)) (ab_map_instr (aw_acc w)))"
proof -
  have inv: "acc_inv (aw_acc w)" by (rule reached_inv [OF assms(1-3)])
  have eq: "of_prd k f = (\<lambda>i. if ins_p_prd i = PtrTo k then f i else 0)"
    for f :: "mod_instr \<Rightarrow> 'a::zero"
    by (simp add: of_prd_def fun_eq_iff)
  show ?thesis
    using acc_invD(5) [OF inv assms(4)] acc_invD(6) [OF inv]
    by (simp add: prd_totals_def acc_totals_def eq)
qed

theorem account_levels_are_totals_witness:
  "pos_long (prd_vol if_prd_end) = pos_long (ins_vol if_instr_end) \<and>
   amt_long (acc_amt (ab_mod_acc if_acc_end)) = amt_long (ins_amt if_instr_end) \<and>
   trd_pnl (acc_pnl (ab_mod_acc if_acc_end)) = 3300"
proof -
  note T = account_levels_are_totals [OF if_day_reached, simplified, OF if_end_entries(2)]
  have v: "pos_long \<in> vol_fields" "amt_long \<in> amt_fields" "trd_pnl \<in> pnl_fields"
    by (simp_all add: vol_fields_def amt_fields_def pnl_fields_def)
  have link: "ins_p_prd if_instr_end = PtrTo (INSTR_NAME_TO_HASH ''IF'')"
    by (simp add: if_instr_end_def)
  have instrs: "ab_map_instr if_acc_end = [(INSTR_NAME_TO_HASH ''IF2206'', if_instr_end)]"
    by (simp add: if_acc_end_def)
  have t: "pos_long (prd_vol if_prd_end) = pos_long (ins_vol if_instr_end)"
      "amt_long (acc_amt (ab_mod_acc if_acc_end)) = amt_long (ins_amt if_instr_end)"
      "trd_pnl (acc_pnl (ab_mod_acc if_acc_end)) = trd_pnl (ins_pnl if_instr_end)"
    using bspec [OF T [THEN conjunct1] v(1)] bspec [OF T [THEN conjunct2, THEN conjunct1] v(2)]
      bspec [OF T [THEN conjunct2, THEN conjunct2] v(3)]
    by (simp_all add: instrs link um_sum_def)
  from t show ?thesis by (simp add: if_instr_end_def unit_pnl_init_def)
qed

text \<open>
  C9. In every account a legal run reaches, each instrument is marked to market: the held amounts
  are the positions at the last price, and position PnL plus trade PnL is the value of the net
  position at the last price, less the value of the initial position at the settlement price, less
  the money spent on today's buys, plus the money got for today's sells.
\<close>

theorem instrument_marked_to_market:
  assumes "acc_world_inv w0" "legal_run acc_step acc_legal es w0" "run_steps acc_step es w0 = Inr w"
    and "map_of (ab_map_instr (aw_acc w)) h = Some i"
  shows "amt_long (ins_amt i) =
      last_px (ins_px i) * of_int (pos_long (ins_vol i)) * of_int (vol_multiple i) \<and>
    amt_short (ins_amt i) =
      last_px (ins_px i) * of_int (pos_short (ins_vol i)) * of_int (vol_multiple i) \<and>
    pos_pnl (ins_pnl i) + trd_pnl (ins_pnl i) =
      last_px (ins_px i) * of_int (pos_long (ins_vol i) - pos_short (ins_vol i)) *
        of_int (vol_multiple i) -
      stl_px_yd (ins_px i) * of_int (pos_long_yd_ini (ins_vol i) - pos_short_yd_ini (ins_vol i)) *
        of_int (vol_multiple i) - amt_buy (ins_amt i) + amt_sell (ins_amt i)"
proof -
  have books: "ins_books i"
    using acc_invD(4) [OF reached_inv [OF assms(1-3)] assms(4)] by (simp add: ins_ok_def)
  have net: "pos_long (ins_vol i) - pos_short (ins_vol i) =
      (pos_long_yd_ini (ins_vol i) - pos_short_yd_ini (ins_vol i)) +
      (pos_buy (ins_vol i) - pos_sell (ins_vol i))"
    using books by (simp add: ins_books_def Let_def)
  from books show ?thesis
    unfolding net by (simp add: ins_books_def Let_def algebra_simps)
qed

theorem instrument_marked_to_market_witness:
  "pos_pnl (ins_pnl if_instr_end) + trd_pnl (ins_pnl if_instr_end) = 4010 * 300 - 3999 * 300"
  using instrument_marked_to_market [OF if_day_reached, simplified, OF if_end_entries(1)]
  by (simp add: if_instr_end_def unit_vol_init_def unit_amt_init_def unit_px_init_def)

section \<open>The open orders\<close>

lemma book_rel_start:
  "base_ok (tb_instr_info b) \<Longrightarrow> book_rel [] \<lparr>aw_base = b, aw_acc = acc_base_init\<rparr>"
  by (rule book_relI)
    (auto simp: acc_world_inv_def book_ok_def acc_base_init_def mod_acc_init_def acc_vol_def
      ing_vol_def unit_vol_init_def um_sum_def acc_inv_init [unfolded acc_base_init_def mod_acc_init_def])

text \<open>
  C4. An account refines the book of open orders: along any sequence of new orders, partial and
  final trades, cancels, rejects, ticks and day switches, the account counts as many unfilled
  orders as the book has open, and for every instrument, direction and offset its working volume
  is what the open orders of the book have left.
\<close>

theorem account_refines_order_book:
  assumes "base_ok (tb_instr_info b)" "order_run (tb_instr_info b) [] es bk"
    and "legal_run acc_step acc_legal es \<lparr>aw_base = b, aw_acc = acc_base_init\<rparr>"
  shows "\<exists>w. run_steps acc_step es \<lparr>aw_base = b, aw_acc = acc_base_init\<rparr> = Inr w \<and>
    unfilled_order_cnt (ab_mod_acc (aw_acc w)) = int (length bk) \<and>
    (\<forall>h dir off. dir_known dir \<longrightarrow> off_known off \<longrightarrow>
       ing_vol dir off (acc_vol h (aw_acc w)) = um_sum (book_left h dir off) bk)"
  using book_rel_run [OF assms(2) _ book_rel_start [OF assms(1)] assms(3)] by (auto dest: book_relD)

lemma if_day_orders: "order_run (tb_instr_info if_base) [] if_day []"
proof -
  let ?h = "INSTR_NAME_TO_HASH ''IF2206''"
  let ?r = "\<lparr>oo_hash = ?h, oo_dir = AT_CHAR_Buy, oo_off = AT_CHAR_Open, oo_px = 4000, oo_vol = 2,
    oo_traded = 0\<rparr>"
  have "order_step (tb_instr_info if_base) [] (OnNew AT_CHAR_Buy AT_CHAR_Open 4000 2 ?h) [(1, ?r)]"
    using order_step.enter [of "[]" 1 ?h "tb_instr_info if_base" AT_CHAR_Buy AT_CHAR_Open 2 4000]
    by (simp add: if_base_def um_has_def dir_known_def off_known_def)
  moreover have "order_step (tb_instr_info if_base) [(1, ?r)]
      (OnRtn (if_track ODS_EXECUTION 1) (if_rtn ODS_EXECUTION 1)) [(1, ?r\<lparr>oo_traded := 1\<rparr>)]"
    using order_step.part [of "[(1, ?r)]" 1 ?r "if_track ODS_EXECUTION 1" "if_rtn ODS_EXECUTION 1"
        "tb_instr_info if_base"]
    by (simp add: order_view_def if_track_def if_rtn_def oo_left_def)
  moreover have "order_step (tb_instr_info if_base) [(1, ?r\<lparr>oo_traded := 1\<rparr>)]
      (OnRtn (if_track ODS_CANCELED 1) (if_rtn ODS_CANCELED 1)) []"
    using order_step.cancel [of "[(1, ?r\<lparr>oo_traded := 1\<rparr>)]" 1 "?r\<lparr>oo_traded := 1\<rparr>"
        "if_track ODS_CANCELED 1" "if_rtn ODS_CANCELED 1" "tb_instr_info if_base"]
    by (simp add: order_view_def if_track_def if_rtn_def oo_left_def cancel_types_def)
  ultimately show ?thesis
    unfolding if_day_def by (blast intro: order_run.intros order_step.tick)
qed

theorem account_refines_order_book_witness:
  "unfilled_order_cnt (ab_mod_acc if_acc_end) = 0 \<and>
   ing_vol AT_CHAR_Buy AT_CHAR_Open (acc_vol (INSTR_NAME_TO_HASH ''IF2206'') if_acc_end) = 0"
  using account_refines_order_book [OF if_base_ok if_day_orders if_day_legal]
  by (simp add: if_day_run [unfolded if_world_def] dir_known_def off_known_def um_sum_def)

section \<open>Single callbacks\<close>

text \<open>
  C11. A cancel undoes a new order: after an order is entered and all of it is cancelled, the
  instrument, its product and the account are in every field what they were before, for every
  direction, offset, price and size.
\<close>

theorem cancel_undoes_new:
  "\<exists>d. ModInstr_onNew dir off px vol (mk_ctx i p a) = Inr d \<and>
     ModInstr_onCxl dir off px vol d = Inr (mk_ctx i p a)"
  by (simp add: ModInstr_onNew_def ModInstr_onCxl_def Let_def vol_defs amt_defs amt_calc_defs)

text \<open>
  A tick moves profit by the net position: for an instrument in order, the total PnL of the
  instrument, of its product and of the account all change by the change of the price times the
  net position times the multiplier, however the position came about.
\<close>

definition pnl_total :: "unit_pnl \<Rightarrow> double" where
  "pnl_total n = pos_pnl n + trd_pnl n"

theorem tick_moves_pnl_by_net_position:
  assumes "ins_books i"
  shows "\<exists>i' p' a'. ModInstr_onTickPx px (mk_ctx i p a) = Inr (mk_ctx i' p' a') \<and>
    (\<forall>delta. delta = (px - last_px (ins_px i)) *
        of_int (pos_long (ins_vol i) - pos_short (ins_vol i)) * of_int (vol_multiple i) \<longrightarrow>
      pnl_total (ins_pnl i') = pnl_total (ins_pnl i) + delta \<and>
      pnl_total (prd_pnl p') = pnl_total (prd_pnl p) + delta \<and>
      pnl_total (acc_pnl a') = pnl_total (acc_pnl a) + delta) \<and> last_px (ins_px i') = px"
proof -
  have net: "pos_long (ins_vol i) - pos_short (ins_vol i) =
      (pos_long_yd_ini (ins_vol i) - pos_short_yd_ini (ins_vol i)) +
      (pos_buy (ins_vol i) - pos_sell (ins_vol i))"
    using assms by (simp add: ins_books_def Let_def)
  show ?thesis
    unfolding net by (simp add: onTickPx_mk tick_pnl_def pnl_total_def algebra_simps)
qed

text \<open>The example instrument, and its fields as a tick leaves them.\<close>

lemma if_held_books [simp]: "ins_books if_held"
  by (simp add: ins_books_def Let_def if_held_def unit_vol_init_def unit_amt_init_def
      unit_px_init_def unit_pnl_init_def UnitPx_calcAvgPx_def)

theorem tick_moves_pnl_by_net_position_witness:
  "\<exists>i' p' a'. ModInstr_onTickPx 4010 (mk_ctx if_held mod_prd_init mod_acc_init) =
      Inr (mk_ctx i' p' a') \<and>
    pnl_total (ins_pnl i') = 6000 + 10 * 300 \<and> pnl_total (acc_pnl a') = 10 * 300"
proof -
  have "pnl_total (ins_pnl if_held) = 6000" "pnl_total (acc_pnl mod_acc_init) = 0"
      "last_px (ins_px if_held) = 4000" "vol_multiple if_held = 300"
      "pos_long (ins_vol if_held) - pos_short (ins_vol if_held) = 1"
    by (simp_all add: pnl_total_def if_held_def unit_pnl_init_def mod_acc_init_def unit_px_init_def)
  with tick_moves_pnl_by_net_position [OF if_held_books, of 4010 mod_prd_init mod_acc_init]
  show ?thesis by fastforce
qed

text \<open>
  C12. A trade moves the net position by its size in its direction and the money bought or sold by
  its value, earns nothing at its own price (the total PnL of the three levels moves as by a tick
  to the trade's price), and closes the count of an unfilled order exactly when the order is
  filled.
\<close>

theorem trade_books_position_and_money:
  assumes "ins_books i" "dir_known dir" "off_known off"
  shows "\<exists>i' p' a'.
    ModInstr_onTrd dir off px vol vol_traded q n (mk_ctx i p a) = Inr (mk_ctx i' p' a') \<and>
    pos_long (ins_vol i') - pos_short (ins_vol i') =
      pos_long (ins_vol i) - pos_short (ins_vol i) + (if dir = AT_CHAR_Buy then n else - n) \<and>
    amt_buy (ins_amt i') - amt_sell (ins_amt i') = amt_buy (ins_amt i) - amt_sell (ins_amt i) +
      (if dir = AT_CHAR_Buy then 1 else - 1) * (q * of_int n * of_int (vol_multiple i)) \<and>
    (let delta = (q - last_px (ins_px i)) *
        of_int (pos_long (ins_vol i) - pos_short (ins_vol i)) * of_int (vol_multiple i)
     in pnl_total (ins_pnl i') = pnl_total (ins_pnl i) + delta \<and>
        pnl_total (prd_pnl p') = pnl_total (prd_pnl p) + delta \<and>
        pnl_total (acc_pnl a') = pnl_total (acc_pnl a) + delta) \<and>
    unfilled_order_cnt a' = unfilled_order_cnt a - (if vol = vol_traded then 1 else 0)"
proof -
  have net: "pos_long (ins_vol i) - pos_short (ins_vol i) =
      (pos_long_yd_ini (ins_vol i) - pos_short_yd_ini (ins_vol i)) +
      (pos_buy (ins_vol i) - pos_sell (ins_vol i))"
    using assms(1) by (simp add: ins_books_def Let_def)
  from assms(2,3) show ?thesis
    unfolding dir_known_def off_known_def
    by (elim disjE)
      (simp_all add: ModInstr_onTrd_def trd_branch_def book_buy_def book_sell_def onTickPx_mk Let_def
        vol_trd_defs amt_defs amt_calc_defs tick_amt_def tick_pnl_def pnl_total_def net,
        simp_all add: algebra_simps)
qed

theorem trade_books_position_and_money_witness:
  "\<exists>i' p' a'. ModInstr_onTrd AT_CHAR_Sell AT_CHAR_CloseYesterday 4005 1 1 4010 1
      (mk_ctx if_held mod_prd_init (mod_acc_init\<lparr>unfilled_order_cnt := 1\<rparr>)) = Inr (mk_ctx i' p' a') \<and>
    pos_long (ins_vol i') - pos_short (ins_vol i') = 0 \<and> unfilled_order_cnt a' = 0"
proof -
  have "pos_long (ins_vol if_held) - pos_short (ins_vol if_held) = 1"
    by (simp add: if_held_def)
  moreover have "dir_known AT_CHAR_Sell" "off_known AT_CHAR_CloseYesterday"
    by (simp_all add: dir_known_def off_known_def)
  ultimately show ?thesis
    using trade_books_position_and_money [OF if_held_books, of AT_CHAR_Sell AT_CHAR_CloseYesterday
        4005 1 1 4010 1 mod_prd_init "mod_acc_init\<lparr>unfilled_order_cnt := 1\<rparr>"]
    by auto
qed

section \<open>Replay at a restart\<close>

lemma res_bind_Inr_right [simp]: "res_bind r Inr = r"
  by (cases r) simp_all

lemma tick_mk: "\<exists>i' p' a'. ModInstr_onTickPx q (mk_ctx i p a) = Inr (mk_ctx i' p' a')"
  by (simp add: onTickPx_mk)

lemma tick_twice:
  "res_bind (ModInstr_onTickPx q (mk_ctx i p a)) (ModInstr_onTickPx r) = ModInstr_onTickPx r (mk_ctx i p a)"
  by (simp add: onTickPx_mk tick_amt_def tick_pnl_def algebra_simps)

lemma tick_trade:
  "res_bind (ModInstr_onTickPx q (mk_ctx i p a)) (ModInstr_onTrd dir off opx vol n px v) =
   ModInstr_onTrd dir off opx vol n px v (mk_ctx i p a)"
proof -
  obtain i' p' a' where e: "ModInstr_onTickPx q (mk_ctx i p a) = Inr (mk_ctx i' p' a')" using tick_mk by blast
  have same: "vol_multiple i' = vol_multiple i" using e by (auto simp: onTickPx_mk)
  show ?thesis using tick_twice [of q i p a px] e same
    by (simp add: ModInstr_onTrd_def Let_def)
qed

lemmas trade_defs = ModInstr_onTrd_def trd_branch_def book_buy_def book_sell_def onTickPx_mk Let_def
  vol_defs amt_defs amt_calc_defs tick_amt_def tick_pnl_def

lemma trade_mk:
  "dir_known dir \<Longrightarrow> off_known off \<Longrightarrow>
   \<exists>i' p' a'. ModInstr_onTrd dir off opx vol n px v (mk_ctx i p a) = Inr (mk_ctx i' p' a') \<and>
     last_px (ins_px i') = px"
  unfolding dir_known_def off_known_def by (elim disjE) (simp_all add: trade_defs)

lemma tick_same: "last_px (ins_px i) = q \<Longrightarrow> ModInstr_onTickPx q (mk_ctx i p a) = Inr (mk_ctx i p a)"
  by (simp add: onTickPx_mk tick_amt_def tick_pnl_def)

lemma cancel_mk:
  "dir_known dir \<Longrightarrow> off_known off \<Longrightarrow>
   \<exists>i' p' a'. ModInstr_onCxl dir off opx v (mk_ctx i p a) = Inr (mk_ctx i' p' a')"
  unfolding dir_known_def off_known_def by (elim disjE) (simp_all add: ModInstr_onCxl_def Let_def)

lemma new_mk:
  "dir_known dir \<Longrightarrow> off_known off \<Longrightarrow>
   \<exists>i' p' a'. ModInstr_onNew dir off opx v (mk_ctx i p a) = Inr (mk_ctx i' p' a')"
  unfolding dir_known_def off_known_def by (elim disjE) (simp_all add: ModInstr_onNew_def Let_def)

lemma cancel_commutes:
  assumes "dir_known dir" "off_known off"
  shows "res_bind (ModInstr_onTickPx q (mk_ctx i p a)) (ModInstr_onCxl dir off opx w) =
      res_bind (ModInstr_onCxl dir off opx w (mk_ctx i p a)) (ModInstr_onTickPx q)"
    and "res_bind (ModInstr_onTrd dir off opx vol n px v (mk_ctx i p a)) (ModInstr_onCxl dir off opx w) =
      res_bind (ModInstr_onCxl dir off opx w (mk_ctx i p a)) (ModInstr_onTrd dir off opx vol n px v)"
  using assms unfolding dir_known_def off_known_def
  by (elim disjE; simp add: trade_defs ModInstr_onCxl_def algebra_simps)+

text \<open>Two trades of an order book what one trade of both volumes at their average price and a tick do.\<close>

lemma trades_merge:
  assumes "dir_known dir" "off_known off" "n \<noteq> vol"
    and "r * of_int (v + w) = px * of_int v + py * of_int w"
  shows "res_bind (ModInstr_onTrd dir off opx vol n px v (mk_ctx i p a)) (ModInstr_onTrd dir off opx vol m py w) =
    res_bind (ModInstr_onTrd dir off opx vol m r (v + w) (mk_ctx i p a)) (ModInstr_onTickPx py)"
proof -
  have e: "r * of_int v + r * of_int w = px * of_int v + py * of_int w" using assms(4) by (simp add: distrib_left)
  then have e': "r * (of_int v * k) + r * (of_int w * k) = px * (of_int v * k) + py * (of_int w * k)" for k
    by (simp flip: mult.assoc distrib_right)
  show ?thesis
    using assms(1-3) unfolding dir_known_def off_known_def
    by (elim disjE)
      (simp_all add: trade_defs, insert e' [of "of_int (vol_multiple i)"] e, (simp_all add: algebra_simps)?)
qed

text \<open>
  The reports of an order as the account gets them: each trade with the record's volume traded so far, and
  the cancellation or rejection of the rest, where there is one.
\<close>

primrec live_trades :: "order_track \<Rightarrow> int \<Rightarrow> rtn_msg list \<Rightarrow> mod_ctx \<Rightarrow> mod_ctx res" where
  "live_trades t n [] c = Inr c"
| "live_trades t n (m # ms) c =
     res_bind (rtn_act (t\<lparr>ot_vol_traded := n + rm_vol m\<rparr>) m c) (live_trades t (n + rm_vol m) ms)"

definition live_order :: "order_track \<Rightarrow> rtn_msg list \<Rightarrow> rtn_msg option \<Rightarrow> mod_ctx \<Rightarrow> mod_ctx res" where
  "live_order t ms rest c =
     res_bind (ModInstr_onNew (ot_dir t) (ot_off t) (ot_price t) (ot_vol t) c) (\<lambda>c1.
     res_bind (live_trades t 0 ms c1) (case rest of None \<Rightarrow> Inr | Some m \<Rightarrow> rtn_act t m))"

text \<open>The record these reports leave.\<close>

definition record_of_reports :: "order_track \<Rightarrow> rtn_msg list \<Rightarrow> rtn_msg option \<Rightarrow> bool" where
  "record_of_reports t ms rest \<longleftrightarrow>
     (\<forall>m \<in> set ms. rm_msg_type m = ODS_EXECUTION \<and> 0 < rm_vol m) \<and>
     ot_vol_traded t = sum_list (map rm_vol ms) \<and> ot_vol_traded t \<le> ot_vol t \<and>
     ot_amount_traded t = sum_list (map (\<lambda>m. rm_price m * of_int (rm_vol m)) ms) \<and>
     ot_status t AND (ODS_SEND OR ODS_TDSEND) \<noteq> 0 \<and> (ot_status t AND ODS_EXECUTION \<noteq> 0 \<longleftrightarrow> ms \<noteq> []) \<and>
     (case rest of
        None \<Rightarrow> ot_vol t \<noteq> ot_vol_traded t \<longrightarrow> ot_status t AND ODS_CLOSED = 0
      | Some m \<Rightarrow> rm_msg_type m \<in> set cancel_types \<and> rm_vol m = ot_vol t - ot_vol_traded t \<and>
          ot_vol t \<noteq> ot_vol_traded t \<and> ot_status t AND ODS_CLOSED \<noteq> 0)"

lemma trades_volume: "\<forall>m \<in> set ms. 0 < rm_vol m \<Longrightarrow> ms \<noteq> [] \<Longrightarrow> 0 < sum_list (map rm_vol ms)"
  by (cases ms) (auto simp: less_imp_le intro!: add_pos_nonneg sum_list_nonneg)

lemma live_trades_once:
  assumes "dir_known (ot_dir t)" "off_known (ot_off t)"
    and "\<forall>m \<in> set ms. rm_msg_type m = ODS_EXECUTION \<and> 0 < rm_vol m" "ms \<noteq> []"
    and "n + sum_list (map rm_vol ms) \<le> ot_vol t"
  shows "live_trades t n ms (mk_ctx i p a) =
    res_bind (ModInstr_onTrd (ot_dir t) (ot_off t) (ot_price t) (ot_vol t) (n + sum_list (map rm_vol ms))
        (sum_list (map (\<lambda>m. rm_price m * of_int (rm_vol m)) ms) / of_int (sum_list (map rm_vol ms)))
        (sum_list (map rm_vol ms)) (mk_ctx i p a))
      (ModInstr_onTickPx (rm_price (last ms)))"
  using assms(3-5)
proof (induction ms arbitrary: n i p a)
  case (Cons m ms)
  let ?K = "\<lambda>n px v. ModInstr_onTrd (ot_dir t) (ot_off t) (ot_price t) (ot_vol t) n px v"
  let ?V = "sum_list (map rm_vol ms)" and ?A = "sum_list (map (\<lambda>m. rm_price m * of_int (rm_vol m)) ms)"
  have v: "rm_msg_type m = ODS_EXECUTION" "0 < rm_vol m" using Cons.prems(1) by simp_all
  obtain i' p' a' where first: "?K (n + rm_vol m) (rm_price m) (rm_vol m) (mk_ctx i p a) = Inr (mk_ctx i' p' a')"
      "last_px (ins_px i') = rm_price m"
    using trade_mk [OF assms(1,2)] by blast
  have step: "live_trades t n (m # ms) (mk_ctx i p a) = live_trades t (n + rm_vol m) ms (mk_ctx i' p' a')"
    using first(1) by (simp add: rtn_act_execution [OF v(1)])
  show ?case
  proof (cases "ms = []")
    case True
    with v(2) first step show ?thesis by (simp add: tick_same)
  next
    case False
    have pos: "0 < ?V" using trades_volume [of ms] Cons.prems(1) False by simp
    let ?r = "(rm_price m * of_int (rm_vol m) + ?A) / of_int (rm_vol m + ?V)"
    have "live_trades t (n + rm_vol m) ms (mk_ctx i' p' a') =
        res_bind (?K (n + rm_vol m + ?V) (?A / of_int ?V) ?V (mk_ctx i' p' a')) (ModInstr_onTickPx (rm_price (last ms)))"
      by (rule Cons.IH) (use Cons.prems False in \<open>simp_all add: add.assoc\<close>)
    also have "?K (n + rm_vol m + ?V) (?A / of_int ?V) ?V (mk_ctx i' p' a') =
        res_bind (?K (n + (rm_vol m + ?V)) ?r (rm_vol m + ?V) (mk_ctx i p a)) (ModInstr_onTickPx (?A / of_int ?V))"
      using trades_merge [OF assms(1,2), of "n + rm_vol m" "ot_vol t" ?r "rm_vol m" ?V "rm_price m" "?A / of_int ?V"
          "ot_price t" i p a "n + (rm_vol m + ?V)"] first(1) pos v(2) Cons.prems(3)
      by (simp add: add.assoc flip: of_int_add)
    finally have merged: "live_trades t n (m # ms) (mk_ctx i p a) =
        res_bind (res_bind (?K (n + (rm_vol m + ?V)) ?r (rm_vol m + ?V) (mk_ctx i p a)) (ModInstr_onTickPx (?A / of_int ?V)))
          (ModInstr_onTickPx (rm_price (last ms)))" unfolding step .
    obtain j q b where "?K (n + (rm_vol m + ?V)) ?r (rm_vol m + ?V) (mk_ctx i p a) = Inr (mk_ctx j q b)"
      using trade_mk [OF assms(1,2)] by blast
    with merged False show ?thesis by (simp add: tick_twice)
  qed
qed simp

text \<open>The account after a replay, and how the live account differs from it.\<close>

lemma replay_ctx:
  assumes "dir_known (ot_dir t)" "off_known (ot_off t)" "record_of_reports t ms rest"
  shows "\<exists>j q b. track_act t (mk_ctx i p a) = Inr (mk_ctx j q b) \<and> (ms \<noteq> [] \<longrightarrow> last_px (ins_px j) = track_trd_px t)"
proof -
  have ok: "ot_status t AND (ODS_SEND OR ODS_TDSEND) \<noteq> 0" "ot_status t AND ODS_EXECUTION \<noteq> 0 \<longleftrightarrow> ms \<noteq> []"
    using assms(3) by (simp_all add: record_of_reports_def)
  obtain i1 p1 a1 where new: "ModInstr_onNew (ot_dir t) (ot_off t) (ot_price t) (ot_vol t) (mk_ctx i p a) = Inr (mk_ctx i1 p1 a1)"
    using new_mk [OF assms(1,2)] by blast
  have "\<exists>i2 p2 a2. (if ot_status t AND ODS_CLOSED \<noteq> 0 \<and> ot_vol t \<noteq> ot_vol_traded t
      then ModInstr_onCxl (ot_dir t) (ot_off t) (ot_price t) (ot_vol t - ot_vol_traded t) (mk_ctx i1 p1 a1)
      else Inr (mk_ctx i1 p1 a1)) = Inr (mk_ctx i2 p2 a2)"
    using cancel_mk [OF assms(1,2)] by simp
  then obtain i2 p2 a2 where "(if ot_status t AND ODS_CLOSED \<noteq> 0 \<and> ot_vol t \<noteq> ot_vol_traded t
      then ModInstr_onCxl (ot_dir t) (ot_off t) (ot_price t) (ot_vol t - ot_vol_traded t) (mk_ctx i1 p1 a1)
      else Inr (mk_ctx i1 p1 a1)) = Inr (mk_ctx i2 p2 a2)" by blast
  with new ok trade_mk [OF assms(1,2), of "ot_price t" "ot_vol t" "ot_vol_traded t" "track_trd_px t" "ot_vol_traded t" i2 p2 a2]
  show ?thesis unfolding track_act_def by auto
qed

lemma live_ticks_replay:
  assumes "dir_known (ot_dir t)" "off_known (ot_off t)" "record_of_reports t ms rest"
  shows "live_order t ms rest (mk_ctx i p a) =
    res_bind (track_act t (mk_ctx i p a)) (if ms = [] then Inr else ModInstr_onTickPx (rm_price (last ms)))"
proof -
  let ?D = "ot_dir t" and ?O = "ot_off t" and ?V = "ot_vol_traded t"
  let ?X = "ModInstr_onCxl ?D ?O (ot_price t) (ot_vol t - ?V)"
  let ?K = "ModInstr_onTrd ?D ?O (ot_price t) (ot_vol t) ?V (track_trd_px t) ?V"
  let ?tick = "if ms = [] then Inr else ModInstr_onTickPx (rm_price (last ms))"
  note R = assms(3) [unfolded record_of_reports_def]
  obtain i1 p1 a1 where new: "ModInstr_onNew ?D ?O (ot_price t) (ot_vol t) (mk_ctx i p a) = Inr (mk_ctx i1 p1 a1)"
    using new_mk [OF assms(1,2)] by blast
  have live: "live_trades t 0 ms (mk_ctx i1 p1 a1) =
      (if ms = [] then Inr (mk_ctx i1 p1 a1) else res_bind (?K (mk_ctx i1 p1 a1)) ?tick)"
  proof (cases "ms = []")
    case False
    with trades_volume [of ms] R have "?V \<noteq> 0" by auto
    with live_trades_once [OF assms(1,2), of ms 0 i1 p1 a1] R False show ?thesis by (simp add: track_trd_px_def)
  qed simp
  obtain i2 p2 a2 where x: "?X (mk_ctx i1 p1 a1) = Inr (mk_ctx i2 p2 a2)" using cancel_mk [OF assms(1,2)] by blast
  obtain i3 p3 a3 where k: "?K (mk_ctx i1 p1 a1) = Inr (mk_ctx i3 p3 a3)" using trade_mk [OF assms(1,2)] by blast
  show ?thesis
  proof (cases rest)
    case None
    with R new live k x show ?thesis by (auto simp: live_order_def track_act_def)
  next
    case (Some m)
    then have m: "rtn_act t m = ?X" using R by (simp add: rtn_act_cancel)
    have "res_bind (ModInstr_onTickPx q (mk_ctx i3 p3 a3)) ?X = res_bind (?K (mk_ctx i2 p2 a2)) (ModInstr_onTickPx q)" for q
      using cancel_commutes [OF assms(1,2), where opx = "ot_price t" and w = "ot_vol t - ?V"] x k by (metis res_bind_simps(2))
    with Some R new live k x m show ?thesis by (auto simp: live_order_def track_act_def)
  qed
qed

text \<open>
  C13. Replaying an order of known direction and offset from the order track at a restart agrees with the live callbacks, whatever the
  order went through: any number of trades at any prices, and a rest that is still working, cancelled or
  rejected. The live instrument, product and account are those of \<^verbatim>\<open>onOrderTrack\<close> of the final record with the
  price of the last trade as a tick (the replay books one trade at the average price, which it leaves as the
  last price); so the next tick of the instrument makes both the same, and they are the same at once when
  all trades had one price.
\<close>

theorem replay_agrees_with_live:
  assumes "dir_known (ot_dir t)" "off_known (ot_off t)" "record_of_reports t ms rest"
  shows "live_order t ms rest (mk_ctx i p a) =
      res_bind (track_act t (mk_ctx i p a)) (if ms = [] then Inr else ModInstr_onTickPx (rm_price (last ms))) \<and>
    res_bind (live_order t ms rest (mk_ctx i p a)) (ModInstr_onTickPx px) =
      res_bind (track_act t (mk_ctx i p a)) (ModInstr_onTickPx px) \<and>
    ((\<forall>m \<in> set ms. rm_price m = px) \<longrightarrow> live_order t ms rest (mk_ctx i p a) = track_act t (mk_ctx i p a))"
proof -
  note first = live_ticks_replay [OF assms, of i p a]
  obtain j q b where t: "track_act t (mk_ctx i p a) = Inr (mk_ctx j q b)"
    "ms \<noteq> [] \<longrightarrow> last_px (ins_px j) = track_trd_px t" using replay_ctx [OF assms] by blast
  have tick: "res_bind (live_order t ms rest (mk_ctx i p a)) (ModInstr_onTickPx px) =
      res_bind (track_act t (mk_ctx i p a)) (ModInstr_onTickPx px)"
    using first t(1) tick_twice by (cases "ms = []") simp_all
  have same: "live_order t ms rest (mk_ctx i p a) = track_act t (mk_ctx i p a)" if px: "\<forall>m \<in> set ms. rm_price m = px"
  proof (cases "ms = []")
    case False
    note R = assms(3) [unfolded record_of_reports_def]
    have "sum_list (map (\<lambda>m. rm_price m * of_int (rm_vol m)) ms) = px * of_int (sum_list (map rm_vol ms))"
      using px by (induction ms) (simp_all add: distrib_left)
    with trades_volume [of ms] R False have "track_trd_px t = px" by (auto simp: track_trd_px_def)
    with px False have "track_trd_px t = rm_price (last ms)" by simp
    with first t False show ?thesis by (simp add: tick_same)
  qed (use first in simp)
  from first tick same show ?thesis by blast
qed

theorem replay_agrees_with_live_witness:
  "res_bind (track_act ((if_track (ODS_SEND OR ODS_EXECUTION OR ODS_CANCELED) 2)\<lparr>ot_vol := 3, ot_amount_traded := 7990\<rparr>)
      (mk_ctx if_held mod_prd_init mod_acc_init)) (ModInstr_onTickPx 4010) =
   res_bind (live_order ((if_track (ODS_SEND OR ODS_EXECUTION OR ODS_CANCELED) 2)\<lparr>ot_vol := 3, ot_amount_traded := 7990\<rparr>)
      [(if_rtn ODS_EXECUTION 1)\<lparr>rm_price := 3990\<rparr>, (if_rtn ODS_EXECUTION 1)\<lparr>rm_price := 4000\<rparr>]
      (Some (if_rtn ODS_CANCELED 1)) (mk_ctx if_held mod_prd_init mod_acc_init)) (ModInstr_onTickPx 4010)"
proof -
  let ?t = "(if_track (ODS_SEND OR ODS_EXECUTION OR ODS_CANCELED) 2)\<lparr>ot_vol := 3, ot_amount_traded := 7990\<rparr>"
  have "record_of_reports ?t [(if_rtn ODS_EXECUTION 1)\<lparr>rm_price := 3990\<rparr>, (if_rtn ODS_EXECUTION 1)\<lparr>rm_price := 4000\<rparr>]
      (Some (if_rtn ODS_CANCELED 1))"
    by (simp add: record_of_reports_def if_track_def if_rtn_def cancel_types_def ods_defs)
  moreover have "dir_known (ot_dir ?t)" "off_known (ot_off ?t)"
    by (simp_all add: if_track_def dir_known_def off_known_def)
  ultimately show ?thesis
    using replay_agrees_with_live [where px = 4010, THEN conjunct2, THEN conjunct1, symmetric] by blast
qed

section \<open>Day switch and restart\<close>

text \<open>
  C14. The day switch of an account in order keeps exactly the instruments and products that hold a
  position, each under its key and with its link; what is kept starts the day with yesterday's
  position as its position, nothing working, nothing traded, no profit, and the last price as the
  settlement price. The account stays in order.
\<close>

theorem day_switch_keeps_positions:
  assumes "acc_inv s"
  shows "acc_inv (AccBase_onSwitchDay s) \<and>
    map_of (ab_map_instr (AccBase_onSwitchDay s)) h =
      (case map_of (ab_map_instr s) h of
         None \<Rightarrow> None
       | Some i \<Rightarrow> if pos_long (ins_vol i) = 0 \<and> pos_short (ins_vol i) = 0 then None
           else Some (i\<lparr>
             ins_vol := unit_vol_init\<lparr>pos_long_yd_ini := pos_long (ins_vol i),
               pos_long_yd := pos_long (ins_vol i), pos_long := pos_long (ins_vol i),
               pos_short_yd_ini := pos_short (ins_vol i), pos_short_yd := pos_short (ins_vol i),
               pos_short := pos_short (ins_vol i)\<rparr>,
             ins_amt := unit_amt_init\<lparr>amt_long := amt_long (ins_amt i), amt_short := amt_short (ins_amt i)\<rparr>,
             ins_px := unit_px_init\<lparr>stl_px_yd := last_px (ins_px i), last_px := last_px (ins_px i)\<rparr>,
             ins_pnl := unit_pnl_init\<rparr>)) \<and>
    um_has k (ab_map_prd (AccBase_onSwitchDay s)) =
      (\<exists>p. map_of (ab_map_prd s) k = Some p \<and> (pos_long (prd_vol p) \<noteq> 0 \<or> pos_short (prd_vol p) \<noteq> 0))"
proof -
  note D = acc_invD(1,2) [OF assms]
  have "acc_inv (AccBase_onSwitchDay s)" by (rule acc_inv_switch [OF assms])
  then show ?thesis
    using D
    by (auto simp: onSwitchDay_linked [OF assms] map_of_um_drop vol_flat_def um_has_def
        ModInstr_onSwitchDay_def UnitVol_onSwitchDay_def UnitAmt_onSwitchDay_def
        UnitPx_onSwitchDay_def UnitPnl_onSwitchDay_def unit_vol_init_def unit_amt_init_def
        unit_px_init_def unit_pnl_init_def split: option.splits)
qed

lemma if_acc_end_inv: "acc_inv if_acc_end"
  using reached_inv [OF if_day_reached] by simp

theorem day_switch_keeps_positions_witness:
  "acc_inv (AccBase_onSwitchDay if_acc_end) \<and>
   um_has (INSTR_NAME_TO_HASH ''IF'') (ab_map_prd (AccBase_onSwitchDay if_acc_end)) \<and>
   map_option (\<lambda>i. (pos_long_yd (ins_vol i), stl_px_yd (ins_px i)))
     (map_of (ab_map_instr (AccBase_onSwitchDay if_acc_end)) (INSTR_NAME_TO_HASH ''IF2206'')) =
     Some (1, 4010)"
proof -
  have v: "pos_long (ins_vol if_instr_end) = 1" "last_px (ins_px if_instr_end) = 4010"
      "pos_long (prd_vol if_prd_end) = 1"
    by (simp_all add: if_instr_end_def if_prd_end_def)
  from day_switch_keeps_positions [OF if_acc_end_inv, of "INSTR_NAME_TO_HASH ''IF2206''"
      "INSTR_NAME_TO_HASH ''IF''"] v
  show ?thesis by (simp add: if_end_entries)
qed

text \<open>
  C24. Writing an instrument, a product or the account to its JSON value and reading it back into
  any object gives, in the stored fields, what the day switch makes of the running object: a
  restart from the file of the evening and a day switch cannot disagree.
\<close>

theorem reload_is_day_switch:
  "ModInstr_from_json (ModInstr_to_json i) i0 = (Loaded, (ModInstr_onSwitchDay i)
      \<lparr>ins_p_prd := ins_p_prd i0, ins_p_acc := ins_p_acc i0, instr_name := instr_name i0,
       vol_multiple := vol_multiple i0\<rparr>) \<and>
   ModPrd_from_json (ModPrd_to_json p) p0 = (Loaded, (ModPrd_onSwitchDay p)\<lparr>prd_name := prd_name p0\<rparr>) \<and>
   ModAcc_from_json (ModAcc_to_json a) a0 = (Loaded, ModAcc_onSwitchDay a)"
  using ins.reload [of i i0] prd.reload [of p p0] acc.reload [of a a0]
  by (simp add: ins_adopt_def)

text \<open>
  A listed instrument with a negative multiplier is refused by \<^verbatim>\<open>ModInstr::init\<close>, but its
  entry stays in the map of the account without its links; the first call leaves the account as
  it looks from outside, the second one finds the entry registered and dereferences the null
  pointer to the product.
\<close>

theorem refused_instrument_faults_next_time:
  assumes "map_of tb h = Some info" "INSTR_NAME_TO_HASH (ii_instr info) = h"
    and "INSTR_NAME_TO_HASH (ii_product info) = ii_product_hash info" "ii_vol_multiple info < 0"
    and "\<not> um_has h (ab_map_instr s)"
  shows "\<exists>s1. AccBase_onNew tb dir off px vol h s = Inr s1 \<and> um_has h (ab_map_instr s1) \<and>
    AccBase_onNew tb dir off px vol h s1 = Inl NullDeref"
proof -
  have bad: "AccBase_regModInstr tb (ii_instr info) t =
      (False, t\<lparr>ab_map_instr := AList.update h mod_instr_init (ab_map_instr t)\<rparr>)"
    if "\<not> um_has h (ab_map_instr t)" for t
    using that assms(1,2,4)
    by (simp add: AccBase_regModInstr_def AccBase_isExistModInstr_def ModInstr_init_def)
  let ?t = "if um_has (ii_product_hash info) (ab_map_prd s) then s
    else s\<lparr>ab_map_prd := AList.update (ii_product_hash info)
      (mod_prd_init\<lparr>prd_name := take 32 (ii_product info)\<rparr>) (ab_map_prd s)\<rparr>"
  let ?s = "?t\<lparr>ab_map_instr := AList.update h mod_instr_init (ab_map_instr s)\<rparr>"
  have prd: "um_has (ii_product_hash info) (ab_map_prd ?s)"
    by (simp add: um_has_def update_conv)
  have first: "AccBase_onNew tb dir off px vol h s = Inr ?s"
    using assms bad [of s] bad [of ?t]
    by (auto simp: AccBase_onNew_def acc_on_instr_def AccBase_regInstr_def AccBase_isExistModPrd_def
        AccBase_isExistModInstr_def AccBase_regModPrd_def ModPrd_init_def)
  have "map_of (ab_map_instr ?s) h = Some mod_instr_init"
    by (simp add: update_conv)
  with prd assms(1,2) have "AccBase_onNew tb dir off px vol h ?s = Inl NullDeref"
    by (simp add: AccBase_onNew_def acc_on_instr_def AccBase_regInstr_def AccBase_isExistModPrd_def
        AccBase_isExistModInstr_def um_has_def um_touch_def acc_ctx_def acc_ptr_def deref_def
        mod_instr_init_def ModInstr_onNew_def count_unfilled_def put_acc_def Let_def
        del: update_conv')
  with first show ?thesis by (auto simp: um_has_def update_conv)
qed

theorem refused_instrument_faults_next_time_witness:
  "\<exists>s1. AccBase_onNew [(INSTR_NAME_TO_HASH ''IF2206'', if_info\<lparr>ii_vol_multiple := - 300\<rparr>)]
      AT_CHAR_Buy AT_CHAR_Open 4000 2 (INSTR_NAME_TO_HASH ''IF2206'') acc_base_init = Inr s1 \<and>
    um_has (INSTR_NAME_TO_HASH ''IF2206'') (ab_map_instr s1) \<and>
    AccBase_onNew [(INSTR_NAME_TO_HASH ''IF2206'', if_info\<lparr>ii_vol_multiple := - 300\<rparr>)]
      AT_CHAR_Buy AT_CHAR_Open 4000 2 (INSTR_NAME_TO_HASH ''IF2206'') s1 = Inl NullDeref"
  by (rule refused_instrument_faults_next_time [where info = "if_info\<lparr>ii_vol_multiple := - 300\<rparr>"])
    (simp_all add: if_info_def acc_base_init_def um_has_def)

end
