(* ===== verification/Base_Properties.thy ===== *)
theory Base_Properties
  imports Account_Properties
begin

text \<open>
  What the components rely on that is shared by all processes: the hash of a name does not depend
  on the byte order of the machine, the table of instruments survives its journey between two
  processes, a list of products means the instruments it should, and the codes of the exchanges
  are read as they are written.
\<close>

section \<open>Hash\<close>

lemma bit_byte: "bit (push_bit n (ucast b :: u32)) k \<longleftrightarrow> n \<le> k \<and> k < 32 \<and> k < n + 8 \<and> bit b (k - n)"
  for b :: byte
  using bit_imp_le_length [of b "k - n"] by (auto simp: bit_simps)

lemma byte_disjoint:
  fixes b0 b1 b2 b3 :: byte
  shows "(ucast b0 :: u32) AND push_bit 8 (ucast b1) = 0"
    "((ucast b0 :: u32) OR push_bit 8 (ucast b1)) AND push_bit 16 (ucast b2) = 0"
    "(((ucast b0 :: u32) OR push_bit 8 (ucast b1)) OR push_bit 16 (ucast b2)) AND push_bit 24 (ucast b3) = 0"
  by (rule bit_word_eqI; use bit_byte [where n = 0] in \<open>auto simp: bit_byte bit_and_iff bit_or_iff\<close>)+

lemma le32_neutral: "load_le32 b0 b1 b2 b3 = load_neutral32 b0 b1 b2 b3"
proof -
  let ?w = "\<lambda>b. ucast (b :: byte) :: u32"
  have t: "word_of_int (2 ^ n * uint b) = push_bit n (?w b)" "word_of_int (uint b) = ?w b" for b n
    by (simp_all only: push_bit_eq_mult ucast_eq wi_hom_mult [symmetric] word_of_int_2p
        mult.commute)
  have "load_le32 b0 b1 b2 b3 =
      ?w b0 + push_bit 8 (?w b1) + push_bit 16 (?w b2) + push_bit 24 (?w b3)"
    unfolding load_le32_def by (simp only: wi_hom_add [symmetric] t)
  also have "?w b0 + push_bit 8 (?w b1) = ?w b0 OR push_bit 8 (?w b1)"
    by (rule disjunctive_add_eq_or [OF byte_disjoint(1)])
  also have "\<dots> + push_bit 16 (?w b2) = (?w b0 OR push_bit 8 (?w b1)) OR push_bit 16 (?w b2)"
    by (rule disjunctive_add_eq_or [OF byte_disjoint(2)])
  also have "\<dots> + push_bit 24 (?w b3) =
      ((?w b0 OR push_bit 8 (?w b1)) OR push_bit 16 (?w b2)) OR push_bit 24 (?w b3)"
    by (rule disjunctive_add_eq_or [OF byte_disjoint(3)])
  also have "\<dots> = load_neutral32 b0 b1 b2 b3"
    by (simp only: load_neutral32_def byte_u32_def or.assoc)
  finally show ?thesis .
qed

text \<open>
  The endian-neutral variant of the hash, which assembles each word from its bytes, gives the
  same value as the one that reads whole words on a little-endian machine, for every key and seed.
\<close>

theorem neutral_hash_agrees: "MurmurHashNeutral2 key seed = MurmurHash2 key seed"
proof -
  have "load_neutral32 = load_le32" by (simp add: fun_eq_iff le32_neutral)
  then show ?thesis by (simp add: MurmurHashNeutral2_def MurmurHash2_def)
qed

section \<open>The table of instruments\<close>

text \<open>
  C37. A table of instruments in order, with a date of at most 11 characters, that one process sends as \<^verbatim>\<open>toSysIOStruct\<close> builds it and
  another receives through \<^verbatim>\<open>update\<close> is the same table when the receiver is on another trading day: it
  takes over day and table and runs its day-switch callback, if one is set, with the day of the sender. On
  the same trading day the receiver keeps what it has, whatever was sent, and runs no callback.
\<close>

theorem base_info_round_trip:
  assumes "base_ok (tb_instr_info tb)" "length (tb_trading_day tb) \<le> 11"
    and "CHR 0x00 \<notin> set (tb_trading_day tb)"
  shows "CTradeBaseInfo_update (snd (CTradeBaseInfo_toSysIOStruct to source bw tb)) tb0 =
    (if tb_trading_day tb0 \<noteq> tb_trading_day tb
     then Inr (True, if tb_switch_day_cb tb0 then Some (tb_trading_day tb) else None,
       tb0\<lparr>tb_trading_day := tb_trading_day tb, tb_instr_info := tb_instr_info tb, tb_is_init := True\<rparr>)
     else Inr (False, None, tb0))"
proof -
  let ?p = "snd (CTradeBaseInfo_toSysIOStruct to source bw tb)"
  have s: "CTradeBaseInfo_set ?p tb0 = Inr (tb0\<lparr>tb_trading_day := tb_trading_day tb,
      tb_instr_info := tb_instr_info tb, tb_is_init := True\<rparr>)"
    by (rule set_toSysIOStruct [OF assms(1-3)])
  then have "bi_trading_day ?p = tb_trading_day tb"
    by (auto simp: CTradeBaseInfo_set_def split: if_splits dest: arg_cong [where f = tb_trading_day])
  with s show ?thesis by (simp add: CTradeBaseInfo_update_def)
qed

theorem base_info_round_trip_witness:
  "CTradeBaseInfo_update (snd (CTradeBaseInfo_toSysIOStruct 1 2 3 if_base)) trade_base_init =
    Inr (True, None, trade_base_init\<lparr>tb_trading_day := ''20220601'',
      tb_instr_info := [(INSTR_NAME_TO_HASH ''IF2206'', if_info)], tb_is_init := True\<rparr>)"
  using base_info_round_trip [of if_base 1 2 3 trade_base_init] if_base_ok
  by (simp add: if_base_def trade_base_init_def)

text \<open>
  A list of names means: the instruments with one of the names, those of the products with one
  of the names, and every instrument if the list contains the word for all.
  \<^verbatim>\<open>productToInstrSet\<close> returns exactly these; \<^verbatim>\<open>productOrInstrumentToInstrSet\<close> returns these and
  also every name of the list that at least one listed instrument does not answer to, product
  names included.
\<close>

theorem product_lists_expand:
  "CTradeBaseInfo_productToInstrSet names m =
     {ii_instr info |info. info \<in> snd ` set m \<and>
        (ii_instr info \<in> set names \<or> ii_product info \<in> set names \<or> ''all'' \<in> set names \<or> ''All'' \<in> set names)} \<and>
   CTradeBaseInfo_productOrInstrumentToInstrSet names m =
     CTradeBaseInfo_productToInstrSet names m \<union>
     {n \<in> set names - {''all'', ''All''}. \<exists>info \<in> snd ` set m. n \<noteq> ii_instr info \<and> n \<noteq> ii_product info}"
  unfolding productToInstrSet_expansion productOrInstrumentToInstrSet_eq expansion_def is_all_def
  by auto

theorem product_lists_expand_witness:
  "CTradeBaseInfo_productToInstrSet [''IF''] (tb_instr_info if_base) = {''IF2206''}"
proof -
  have "CTradeBaseInfo_productToInstrSet [''IF''] (tb_instr_info if_base) =
      {ii_instr info |info. info \<in> snd ` set (tb_instr_info if_base) \<and>
        (ii_instr info \<in> set [''IF''] \<or> ii_product info \<in> set [''IF''] \<or> ''all'' \<in> set [''IF''] \<or>
         ''All'' \<in> set [''IF''])}"
    by (rule product_lists_expand [THEN conjunct1])
  then show ?thesis by (simp add: if_base_def if_info_def)
qed

text \<open>
  The number of an exchange and its name are inverse to each other: a number has a name
  exactly when the name is read back as that number, so no two exchanges share a number and an
  unknown name is never taken for one.
\<close>

theorem exchange_codes_inverse:
  "(exchangeint2str e = Some s) = (exchangeStr2int s = e \<and> e \<noteq> -1) \<and>
   (exchangeint2str (exchangeStr2int s) = None) = (exchangeStr2int s = -1)"
  by (simp add: exchange_int_str_iff) (auto simp: exchangeint2str_def exchangeStr2int_def exchange_defs)

end
