(* ===== verification/Risk_Units.thy ===== *)
theory Risk_Units
  imports Acc_Base
begin

text \<open>
  The checks an order has to pass, one object per subject: \<^verbatim>\<open>risk/ConfUtil\<close> and the reading of
  the thresholds from the configuration, \<^verbatim>\<open>risk/RiskAcc\<close> (open orders and amounts of the
  account), \<^verbatim>\<open>risk/RiskPrd\<close> (volumes of a product), \<^verbatim>\<open>risk/RiskInstr\<close> (size, intensity and volumes
  of an instrument, and the choice of an offset) and \<^verbatim>\<open>risk/RiskInstrStg\<close> (the price). The objects
  point to volumes in the account; \<^verbatim>\<open>RiskInstrStg\<close> extends the record of its base class.
\<close>

section \<open>Reading the configuration\<close>

text \<open>
  \<^verbatim>\<open>j["/a/b"_json_pointer]\<close> on a constant value: a member that is missing is undefined behaviour
  (an assertion of the library, the end iterator without it), stepping into anything but an
  object throws.
\<close>

fun json_pointer :: "json \<Rightarrow> string list \<Rightarrow> json option res" where
  "json_pointer j [] = Inr (Some j)"
| "json_pointer (JObj ms) (k # ks) =
     (case map_of ms k of None \<Rightarrow> Inl OutOfRange | Some v \<Rightarrow> json_pointer v ks)"
| "json_pointer _ (k # ks) = Inr None"

text \<open>
  \<^verbatim>\<open>ConfUtil::getValue\<close>: the instrument first, then the product, then the default; \<^const>\<open>None\<close> is
  an exception of the conversion.
\<close>

definition getValue :: "(json \<Rightarrow> 'v option) \<Rightarrow> json \<Rightarrow> string \<Rightarrow> string \<Rightarrow> (bool \<times> 'v option) option" where
  "getValue conv j prd_str instr_str =
     (let read = (\<lambda>v. map_option (\<lambda>x. (True, Some x)) (conv v)) in
      case json_find j instr_str of
        Some v \<Rightarrow> read v
      | None \<Rightarrow>
          (case json_find j prd_str of
             Some v \<Rightarrow> read v
           | None \<Rightarrow>
               (case json_find j ''default'' of
                  Some v \<Rightarrow> read v
                | None \<Rightarrow> Some (False, None))))"

text \<open>
  One step of an \<^verbatim>\<open>init\<close>: read a threshold and assign it. The value \<^const>\<open>None\<close> stands for an
  exception (caught by the function) and for a missing field; both make \<^verbatim>\<open>init\<close> return false with
  what was assigned before.
\<close>

definition conf_step ::
    "'v option res \<Rightarrow> ('v \<Rightarrow> 's \<Rightarrow> 's) \<Rightarrow> ('s \<Rightarrow> (bool \<times> 's) res) \<Rightarrow> 's \<Rightarrow> (bool \<times> 's) res" where
  "conf_step r upd k s =
     res_bind r (\<lambda>v. case v of None \<Rightarrow> Inr (False, s) | Some x \<Rightarrow> k (upd x s))"

definition conf_at :: "(json \<Rightarrow> 'v option) \<Rightarrow> json \<Rightarrow> string list \<Rightarrow> 'v option res" where
  "conf_at conv j path = res_bind (json_pointer j path) (\<lambda>v. Inr (Option.bind v conv))"

definition conf_value ::
    "(json \<Rightarrow> 'v option) \<Rightarrow> json \<Rightarrow> string list \<Rightarrow> string \<Rightarrow> string \<Rightarrow> 'v option res" where
  "conf_value conv j path prd_str instr_str =
     res_bind (json_pointer j path)
       (\<lambda>v. Inr (Option.bind v (\<lambda>u. Option.bind (getValue conv u prd_str instr_str) snd)))"

section \<open>RiskAcc\<close>

record risk_acc =
  unfilled_ord_cnt_threshold :: int
  amt_long_threshold :: double
  amt_short_threshold :: double
  net_amt_threshold :: double
  ra_p_mod_acc :: "unit ptr"

definition risk_acc_init :: risk_acc where
  "risk_acc_init =
     \<lparr>unfilled_ord_cnt_threshold = 0, amt_long_threshold = 0, amt_short_threshold = 0,
      net_amt_threshold = 0, ra_p_mod_acc = NullPtr\<rparr>"

definition RiskAcc_init :: "json \<Rightarrow> risk_acc \<Rightarrow> (bool \<times> risk_acc) res" where
  "RiskAcc_init j_conf r =
     (conf_step (conf_at json_get_int j_conf [''RiskForGeneral'', ''allowed_max_unfilled_order_number''])
        (\<lambda>v s. s\<lparr>unfilled_ord_cnt_threshold := v\<rparr>)
      (conf_step (conf_at json_get_double j_conf [''RiskForAccount'', ''allowed_long_amount''])
        (\<lambda>v s. s\<lparr>amt_long_threshold := v\<rparr>)
      (conf_step (conf_at json_get_double j_conf [''RiskForAccount'', ''allowed_short_amount''])
        (\<lambda>v s. s\<lparr>amt_short_threshold := v\<rparr>)
      (conf_step (conf_at json_get_double j_conf [''RiskForAccount'', ''allowed_net_amount''])
        (\<lambda>v s. s\<lparr>net_amt_threshold := v\<rparr>)
      (\<lambda>s. Inr (True, s))))))
     (r\<lparr>ra_p_mod_acc := PtrTo ()\<rparr>)"

definition RiskAcc_IsUnfilledOrderCountCorrect :: "mod_acc \<Rightarrow> risk_acc \<Rightarrow> bool" where
  "RiskAcc_IsUnfilledOrderCountCorrect a r = (unfilled_order_cnt a < unfilled_ord_cnt_threshold r)"

definition RiskAcc_IsLongAmountCorrect :: "unit_amt \<Rightarrow> double \<Rightarrow> risk_acc \<Rightarrow> bool" where
  "RiskAcc_IsLongAmountCorrect u amount r =
     (amt_long u + amt_long_td_add_ing u + amount \<le> amt_long_threshold r)"

definition RiskAcc_IsShortAmountCorrect :: "unit_amt \<Rightarrow> double \<Rightarrow> risk_acc \<Rightarrow> bool" where
  "RiskAcc_IsShortAmountCorrect u amount r =
     (amt_short u + amt_short_td_add_ing u + amount \<le> amt_short_threshold r)"

definition RiskAcc_IsNetAmountCorrect :: "unit_amt \<Rightarrow> int \<Rightarrow> double \<Rightarrow> risk_acc \<Rightarrow> bool" where
  "RiskAcc_IsNetAmountCorrect u dir amount r =
     (if dir = AT_CHAR_Buy then
        amt_long u - amt_short u + amt_long_td_add_ing u + amt_short_yd_sub_ing u +
          amt_short_td_sub_ing u + amount \<le> net_amt_threshold r
      else
        amt_short u - amt_long u + amt_short_td_add_ing u + amt_short_yd_sub_ing u +
          amt_short_td_sub_ing u + amount \<le> net_amt_threshold r)"

definition RiskAcc_check ::
    "acc_base \<Rightarrow> int \<Rightarrow> int \<Rightarrow> double \<Rightarrow> int \<Rightarrow> int \<Rightarrow> risk_acc \<Rightarrow> int res" where
  "RiskAcc_check ab dir off px vol vm r =
     res_bind (acc_ptr ab (ra_p_mod_acc r)) (\<lambda>a. Inr
       (let u = acc_amt a; amount = px * of_int vol * of_int vm in
        if \<not> RiskAcc_IsUnfilledOrderCountCorrect a r then -100
        else if off = AT_CHAR_Open \<and> dir = AT_CHAR_Buy \<and>
                \<not> RiskAcc_IsLongAmountCorrect u amount r then -110
        else if off = AT_CHAR_Open \<and> dir \<noteq> AT_CHAR_Buy \<and>
                \<not> RiskAcc_IsShortAmountCorrect u amount r then -111
        else if \<not> RiskAcc_IsNetAmountCorrect u dir amount r then -112
        else 0))"

section \<open>RiskPrd\<close>

record risk_prd =
  rp_p_unit_vol :: "u32 ptr"
  rp_long_volume_threshold :: int
  rp_short_volume_threshold :: int
  rp_net_volume_threshold :: int

definition risk_prd_init :: risk_prd where
  "risk_prd_init =
     \<lparr>rp_p_unit_vol = NullPtr, rp_long_volume_threshold = 0, rp_short_volume_threshold = 0,
      rp_net_volume_threshold = 0\<rparr>"

text \<open>\<^verbatim>\<open>&ab->map_prd_[prd_hash].unit_vol\<close> creates the entry of the account where it is missing.\<close>

definition touch_prd :: "u32 \<Rightarrow> acc_base \<Rightarrow> acc_base" where
  "touch_prd h ab = ab\<lparr>ab_map_prd := um_touch mod_prd_init h (ab_map_prd ab)\<rparr>"

definition touch_instr :: "u32 \<Rightarrow> acc_base \<Rightarrow> acc_base" where
  "touch_instr h ab = ab\<lparr>ab_map_instr := um_touch mod_instr_init h (ab_map_instr ab)\<rparr>"

definition RiskPrd_read :: "json \<Rightarrow> string \<Rightarrow> risk_prd \<Rightarrow> (bool \<times> risk_prd) res" where
  "RiskPrd_read j_conf pname =
     conf_step (conf_value json_get_int j_conf [''RiskForProduct'', ''allowed_long_volume''] pname [])
       (\<lambda>v s. s\<lparr>rp_long_volume_threshold := v\<rparr>)
     (conf_step (conf_value json_get_int j_conf [''RiskForProduct'', ''allowed_short_volume''] pname [])
       (\<lambda>v s. s\<lparr>rp_short_volume_threshold := v\<rparr>)
     (conf_step (conf_value json_get_int j_conf [''RiskForProduct'', ''allowed_net_volume''] pname [])
       (\<lambda>v s. s\<lparr>rp_net_volume_threshold := v\<rparr>)
     (\<lambda>s. Inr (True, s))))"

definition RiskPrd_init ::
    "json \<Rightarrow> string \<Rightarrow> acc_base \<Rightarrow> risk_prd \<Rightarrow> (bool \<times> risk_prd \<times> acc_base) res" where
  "RiskPrd_init j_conf pname ab r =
     (let h = INSTR_NAME_TO_HASH pname in
      res_bind (RiskPrd_read j_conf pname (r\<lparr>rp_p_unit_vol := PtrTo h\<rparr>))
        (\<lambda>(ok, r'). Inr (ok, r', touch_prd h ab)))"

definition RiskPrd_IsProductLongVolumeCorrect :: "unit_vol \<Rightarrow> int \<Rightarrow> risk_prd \<Rightarrow> bool" where
  "RiskPrd_IsProductLongVolumeCorrect v vol r =
     (pos_long v + pos_long_td_opn_ing v + vol \<le> rp_long_volume_threshold r)"

definition RiskPrd_IsProductShortVolumeCorrect :: "unit_vol \<Rightarrow> int \<Rightarrow> risk_prd \<Rightarrow> bool" where
  "RiskPrd_IsProductShortVolumeCorrect v vol r =
     (pos_short v + pos_short_td_opn_ing v + vol \<le> rp_short_volume_threshold r)"

definition RiskPrd_IsProductNetVolumeCorrect :: "unit_vol \<Rightarrow> int \<Rightarrow> int \<Rightarrow> risk_prd \<Rightarrow> bool" where
  "RiskPrd_IsProductNetVolumeCorrect v dir vol r =
     (if dir = AT_CHAR_Buy then
        pos_long v - pos_short v + pos_short_yd_cls_ing v + pos_long_td_opn_ing v +
          pos_short_td_cls_ing v + vol \<le> rp_net_volume_threshold r
      else
        pos_short v - pos_long v + pos_long_yd_cls_ing v + pos_short_td_opn_ing v +
          pos_long_td_cls_ing v + vol \<le> rp_net_volume_threshold r)"

definition RiskPrd_check :: "acc_base \<Rightarrow> int \<Rightarrow> int \<Rightarrow> int \<Rightarrow> risk_prd \<Rightarrow> int res" where
  "RiskPrd_check ab dir off vol r =
     res_bind (deref (map_of (ab_map_prd ab)) (rp_p_unit_vol r)) (\<lambda>p. Inr
       (let v = prd_vol p in
        if off = AT_CHAR_Open \<and> dir = AT_CHAR_Buy \<and>
           \<not> RiskPrd_IsProductLongVolumeCorrect v vol r then -300
        else if off = AT_CHAR_Open \<and> dir \<noteq> AT_CHAR_Buy \<and>
           \<not> RiskPrd_IsProductShortVolumeCorrect v vol r then -301
        else if \<not> RiskPrd_IsProductNetVolumeCorrect v dir vol r then -302
        else 0))"

section \<open>RiskInstr\<close>

record risk_instr =
  intensity_cycle_order_count :: int
  intensity_cycle_time_record :: int
  ri_p_unit_vol :: "u32 ptr"
  intensity_cycle_order_count_threshold :: int
  intensity_cycle_time_span_threshold :: double
  is_allowed :: bool
  allowed_order_size_threshold :: int
  ri_long_volume_threshold :: int
  ri_short_volume_threshold :: int
  ri_net_volume_threshold :: int

definition risk_instr_init :: risk_instr where
  "risk_instr_init =
     \<lparr>intensity_cycle_order_count = 0, intensity_cycle_time_record = 0, ri_p_unit_vol = NullPtr,
      intensity_cycle_order_count_threshold = 0, intensity_cycle_time_span_threshold = 0,
      is_allowed = False, allowed_order_size_threshold = 0, ri_long_volume_threshold = 0,
      ri_short_volume_threshold = 0, ri_net_volume_threshold = 0\<rparr>"

text \<open>
  \<^verbatim>\<open>for (auto& i : j) vec.push_back(i)\<close>: the elements of an array, the members of an object, a
  value itself, nothing of a null; every one has to be a string.
\<close>

definition json_strings :: "json \<Rightarrow> string list option" where
  "json_strings j =
     (let str = (\<lambda>v. case v of JStr s \<Rightarrow> Some s | _ \<Rightarrow> None);
          vs = (case j of JNull \<Rightarrow> [] | JArr vs \<Rightarrow> vs | JObj ms \<Rightarrow> map snd (sort_key fst ms) | v \<Rightarrow> [v])
      in those (map str vs))"

definition RiskInstr_read ::
    "json \<Rightarrow> instr_table \<Rightarrow> instrument_info \<Rightarrow> 'a risk_instr_scheme \<Rightarrow> (bool \<times> 'a risk_instr_scheme) res"
  where
  "RiskInstr_read j_conf tb info =
     (let instr_str = ii_instr info; prd_str = ii_product info in
      conf_step (conf_at json_strings j_conf [''RiskForGeneral'', ''allowed_instrument''])
        (\<lambda>v s. if instr_str \<in> CTradeBaseInfo_productOrInstrumentToInstrSet v tb
               then s\<lparr>is_allowed := True\<rparr> else s)
      (conf_step (conf_value json_get_int j_conf [''RiskForOrder'', ''allowed_order_size''] prd_str instr_str)
        (\<lambda>v s. s\<lparr>allowed_order_size_threshold := v\<rparr>)
      (conf_step (conf_value json_get_int j_conf [''RiskForOrder'', ''intensity_cycle_order_count''] prd_str instr_str)
        (\<lambda>v s. s\<lparr>intensity_cycle_order_count_threshold := v\<rparr>)
      (conf_step (conf_value json_get_double j_conf [''RiskForOrder'', ''intensity_cycle_time_span''] prd_str instr_str)
        (\<lambda>v s. s\<lparr>intensity_cycle_time_span_threshold := v * 1000000000\<rparr>)
      (conf_step (conf_value json_get_int j_conf [''RiskForInstrument'', ''allowed_long_volume''] prd_str instr_str)
        (\<lambda>v s. s\<lparr>ri_long_volume_threshold := v\<rparr>)
      (conf_step (conf_value json_get_int j_conf [''RiskForInstrument'', ''allowed_short_volume''] prd_str instr_str)
        (\<lambda>v s. s\<lparr>ri_short_volume_threshold := v\<rparr>)
      (conf_step (conf_value json_get_int j_conf [''RiskForInstrument'', ''allowed_net_volume''] prd_str instr_str)
        (\<lambda>v s. s\<lparr>ri_net_volume_threshold := v\<rparr>)
      (\<lambda>s. Inr (True, s)))))))))"

definition RiskInstr_init ::
    "json \<Rightarrow> instr_table \<Rightarrow> instrument_info \<Rightarrow> acc_base \<Rightarrow> 'a risk_instr_scheme \<Rightarrow>
     (bool \<times> 'a risk_instr_scheme \<times> acc_base) res" where
  "RiskInstr_init j_conf tb info ab r =
     res_bind (RiskInstr_read j_conf tb info (r\<lparr>ri_p_unit_vol := PtrTo (ii_instr_hash info)\<rparr>))
       (\<lambda>(ok, r'). Inr (ok, r', touch_instr (ii_instr_hash info) ab))"

definition RiskInstr_IsIntensityNormal :: "int \<Rightarrow> 'a risk_instr_scheme \<Rightarrow> bool" where
  "RiskInstr_IsIntensityNormal exch_time r =
     (\<not> (intensity_cycle_order_count r \<ge> intensity_cycle_order_count_threshold r \<and>
         of_int (exch_time - intensity_cycle_time_record r) < intensity_cycle_time_span_threshold r))"

definition RiskInstr_IsSizeCorrect :: "int \<Rightarrow> 'a risk_instr_scheme \<Rightarrow> bool" where
  "RiskInstr_IsSizeCorrect sz r = (sz \<le> allowed_order_size_threshold r)"

definition RiskInstr_IsInstrumentLongVolumeCorrect :: "unit_vol \<Rightarrow> int \<Rightarrow> 'a risk_instr_scheme \<Rightarrow> bool" where
  "RiskInstr_IsInstrumentLongVolumeCorrect v vol r =
     (pos_long v + pos_long_td_opn_ing v + vol \<le> ri_long_volume_threshold r)"

definition RiskInstr_IsInstrumentShortVolumeCorrect :: "unit_vol \<Rightarrow> int \<Rightarrow> 'a risk_instr_scheme \<Rightarrow> bool" where
  "RiskInstr_IsInstrumentShortVolumeCorrect v vol r =
     (pos_short v + pos_short_td_opn_ing v + vol \<le> ri_short_volume_threshold r)"

definition RiskInstr_IsInstrumentNetVolumeCorrect ::
    "unit_vol \<Rightarrow> int \<Rightarrow> int \<Rightarrow> 'a risk_instr_scheme \<Rightarrow> bool" where
  "RiskInstr_IsInstrumentNetVolumeCorrect v dir vol r =
     (if dir = AT_CHAR_Buy then
        pos_long v - pos_short v + pos_short_yd_cls_ing v + pos_long_td_opn_ing v +
          pos_short_td_cls_ing v + vol \<le> ri_net_volume_threshold r
      else
        pos_short v - pos_long v + pos_long_yd_cls_ing v + pos_short_td_opn_ing v +
          pos_long_td_cls_ing v + vol \<le> ri_net_volume_threshold r)"

text \<open>What the pointer of the object yields.\<close>

definition ri_vol :: "acc_base \<Rightarrow> 'a risk_instr_scheme \<Rightarrow> unit_vol res" where
  "ri_vol ab r =
     res_bind (deref (map_of (ab_map_instr ab)) (ri_p_unit_vol r)) (\<lambda>i. Inr (ins_vol i))"

definition RiskInstr_check :: "acc_base \<Rightarrow> int \<Rightarrow> int \<Rightarrow> int \<Rightarrow> int \<Rightarrow> 'a risk_instr_scheme \<Rightarrow> int res" where
  "RiskInstr_check ab dir off vol nano r =
     (if \<not> is_allowed r then Inr (-200)
      else if \<not> RiskInstr_IsSizeCorrect vol r then Inr (-202)
      else if \<not> RiskInstr_IsIntensityNormal nano r then Inr (-203)
      else res_bind (ri_vol ab r) (\<lambda>v. Inr
        (if off = AT_CHAR_Open \<and> dir = AT_CHAR_Buy \<and>
            \<not> RiskInstr_IsInstrumentLongVolumeCorrect v vol r then -210
         else if off = AT_CHAR_Open \<and> dir \<noteq> AT_CHAR_Buy \<and>
            \<not> RiskInstr_IsInstrumentShortVolumeCorrect v vol r then -211
         else if \<not> RiskInstr_IsInstrumentNetVolumeCorrect v dir vol r then -212
         else 0)))"

text \<open>The result and the offset, which is a reference parameter.\<close>

definition RiskInstr_parseAutoOffset ::
    "acc_base \<Rightarrow> int \<Rightarrow> int \<Rightarrow> int \<Rightarrow> 'a risk_instr_scheme \<Rightarrow> (int \<times> int) res" where
  "RiskInstr_parseAutoOffset ab dir off vol r =
     (if dir = AT_CHAR_Buy then
        res_bind (ri_vol ab r) (\<lambda>v. Inr
          (if pos_short_yd v - pos_short_yd_cls_ing v \<ge> vol then (0, AT_CHAR_CloseYesterday)
           else if off \<noteq> AT_CHAR_Close \<and>
             ri_long_volume_threshold r - pos_long v - pos_long_td_opn_ing v \<ge> vol
           then (0, AT_CHAR_Open)
           else if pos_short_td v - pos_short_td_cls_ing v \<ge> vol then (0, AT_CHAR_CloseToday)
           else (-270, off)))
      else if dir = AT_CHAR_Sell then
        res_bind (ri_vol ab r) (\<lambda>v. Inr
          (if pos_long_yd v - pos_long_yd_cls_ing v \<ge> vol then (0, AT_CHAR_CloseYesterday)
           else if off \<noteq> AT_CHAR_Close \<and>
             ri_short_volume_threshold r - pos_short v - pos_short_td_opn_ing v \<ge> vol
           then (0, AT_CHAR_Open)
           else if pos_long_td v - pos_long_td_cls_ing v \<ge> vol then (0, AT_CHAR_CloseToday)
           else (-271, off)))
      else Inr (-272, off))"

definition RiskInstr_onNew :: "int \<Rightarrow> 'a risk_instr_scheme \<Rightarrow> 'a risk_instr_scheme" where
  "RiskInstr_onNew nano r =
     (let r1 = r\<lparr>intensity_cycle_order_count := intensity_cycle_order_count r + 1\<rparr> in
      if intensity_cycle_order_count r1 > intensity_cycle_order_count_threshold r1
      then r1\<lparr>intensity_cycle_order_count := 1, intensity_cycle_time_record := nano\<rparr>
      else r1)"

section \<open>RiskInstrStg\<close>

record risk_instr_stg = risk_instr +
  allowed_price_margin_threshold :: double

definition risk_instr_stg_init :: risk_instr_stg where
  "risk_instr_stg_init = risk_instr.extend risk_instr_init \<lparr>allowed_price_margin_threshold = 0\<rparr>"

text \<open>
  The test of the result of \<^verbatim>\<open>getValue\<close> is \<^verbatim>\<open>!getValue(..) * tick_price\<close>: a missing field is let
  pass when the tick price is zero. The margin is then multiplied by the tick price.
\<close>

definition RiskInstrStg_read :: "json \<Rightarrow> instrument_info \<Rightarrow> double option res" where
  "RiskInstrStg_read j_conf info =
     res_bind (json_pointer j_conf [''RiskForOrder'', ''allowed_price_tick''])
       (\<lambda>v. Inr (case Option.bind v (\<lambda>u. getValue json_get_double u (ii_product info) (ii_instr info)) of
           None \<Rightarrow> None
         | Some (True, x) \<Rightarrow> x
         | Some (False, _) \<Rightarrow> (if ii_tick_price info \<noteq> 0 then None else Some 0)))"

definition RiskInstrStg_init ::
    "json \<Rightarrow> instr_table \<Rightarrow> instrument_info \<Rightarrow> acc_base \<Rightarrow> risk_instr_stg \<Rightarrow>
     (bool \<times> risk_instr_stg \<times> acc_base) res" where
  "RiskInstrStg_init j_conf tb info ab r =
     res_bind (RiskInstrStg_read j_conf info) (\<lambda>v.
       case v of
         None \<Rightarrow> Inr (False, r, ab)
       | Some x \<Rightarrow>
           RiskInstr_init j_conf tb info ab
             (r\<lparr>allowed_price_margin_threshold := x * ii_tick_price info\<rparr>))"

definition RiskInstrStg_IsPriceCorrect :: "double \<Rightarrow> double \<Rightarrow> double \<Rightarrow> risk_instr_stg \<Rightarrow> bool" where
  "RiskInstrStg_IsPriceCorrect px ask bid r =
     (\<not> (ask \<noteq> 0 \<and> ask \<noteq> DBL_MAX \<and> px > ask + allowed_price_margin_threshold r) \<and>
      \<not> (bid \<noteq> 0 \<and> bid \<noteq> DBL_MAX \<and> px < bid - allowed_price_margin_threshold r))"

definition RiskInstrStg_check ::
    "acc_base \<Rightarrow> int \<Rightarrow> int \<Rightarrow> int \<Rightarrow> double \<Rightarrow> double \<Rightarrow> double \<Rightarrow> int \<Rightarrow> risk_instr_stg \<Rightarrow> int res" where
  "RiskInstrStg_check ab dir off vol px ask bid nano r =
     (if \<not> RiskInstrStg_IsPriceCorrect px ask bid r then Inr (-201)
      else RiskInstr_check ab dir off vol nano r)"

end
