(* ===== verification/Risk_Self_Trade.thy ===== *)
theory Risk_Self_Trade
  imports Risk_Units
begin

text \<open>
  \<^verbatim>\<open>risk/RiskInstrTop\<close>: the checks of an instrument at the account of the broker, which also refuse
  an order that could trade against a working order of the account itself. The working orders are
  nodes of a vector, linked into two intrusive treaps of boost, one per side; a treap is a
  parameter of the model (\<open>treap_ops\<close>), and \<open>treap_ok\<close> states what its documentation promises.
  The vector has room for 1024 nodes; when it grows, the nodes move and the links of a treap that
  was not empty dangle.
\<close>

section \<open>Treaps\<close>

record tnode =
  tn_order_ref :: int
  tn_price :: double
  tn_dir :: int

definition priority_order :: "tnode \<Rightarrow> tnode \<Rightarrow> bool" where
  "priority_order a b =
     (if tn_dir a = AT_CHAR_Buy then tn_price a > tn_price b else tn_price a < tn_price b)"

text \<open>
  \<^verbatim>\<open>boost::intrusive::treap\<close>: \<^verbatim>\<open>empty\<close>, \<^verbatim>\<open>push_back\<close>, \<^verbatim>\<open>erase\<close> of the nodes with the key of a node,
  and \<^verbatim>\<open>top\<close>, which is the node of the highest priority where the priority is an order (that of
  two nodes of different sides is not).
\<close>

record 't treap_ops =
  tr_new :: "'t"
  tr_is_empty :: "'t \<Rightarrow> bool"
  tr_push_back :: "tnode \<Rightarrow> 't \<Rightarrow> 't"
  tr_erase :: "tnode \<Rightarrow> 't \<Rightarrow> 't"
  tr_top :: "'t \<Rightarrow> tnode"

definition same_side :: "tnode list \<Rightarrow> bool" where
  "same_side ns \<longleftrightarrow>
     (\<forall>m \<in> set ns. tn_dir m = AT_CHAR_Buy) \<or> (\<forall>m \<in> set ns. tn_dir m \<noteq> AT_CHAR_Buy)"

definition treap_ok :: "'t treap_ops \<Rightarrow> ('t \<Rightarrow> tnode list) \<Rightarrow> bool" where
  "treap_ok ops nodes \<longleftrightarrow>
     nodes (tr_new ops) = [] \<and>
     (\<forall>t. tr_is_empty ops t = (nodes t = [])) \<and>
     (\<forall>t n. (\<forall>m \<in> set (nodes t). tn_order_ref m \<le> tn_order_ref n) \<longrightarrow>
        nodes (tr_push_back ops n t) = nodes t @ [n]) \<and>
     (\<forall>t n. nodes (tr_erase ops n t) =
        filter (\<lambda>m. tn_order_ref m \<noteq> tn_order_ref n) (nodes t)) \<and>
     (\<forall>t. nodes t \<noteq> [] \<longrightarrow> same_side (nodes t) \<longrightarrow> tr_top ops t \<in> set (nodes t) \<and>
        (\<forall>m \<in> set (nodes t). \<not> priority_order m (tr_top ops t)))"

section \<open>RiskInstrTop\<close>

record 't risk_instr_top = risk_instr +
  vec_treap_node :: "tnode list"
  vec_capacity :: nat
  ask_treap :: 't
  bid_treap :: 't
  ask_stale :: bool
  bid_stale :: bool

text \<open>The constructor reserves 1024 nodes.\<close>

definition risk_instr_top_init :: "'t treap_ops \<Rightarrow> 't risk_instr_top" where
  "risk_instr_top_init ops = risk_instr.extend risk_instr_init
     \<lparr>vec_treap_node = [], vec_capacity = 1024, ask_treap = tr_new ops, bid_treap = tr_new ops,
      ask_stale = False, bid_stale = False\<rparr>"

text \<open>The conversion from \<^verbatim>\<open>long\<close> to \<^verbatim>\<open>int\<close> of an order reference.\<close>

definition int32 :: "int \<Rightarrow> int" where
  "int32 x = (x + 2 ^ 31) mod 2 ^ 32 - 2 ^ 31"

text \<open>
  \<^verbatim>\<open>emplace_back\<close>: a full vector moves its nodes (libstdc++ doubles the capacity), after which
  what a treap links to is gone.
\<close>

definition vec_emplace_back :: "'t treap_ops \<Rightarrow> tnode \<Rightarrow> 't risk_instr_top \<Rightarrow> 't risk_instr_top" where
  "vec_emplace_back ops n r =
     (let grow = (length (vec_treap_node r) = vec_capacity r) in
      r\<lparr>vec_treap_node := vec_treap_node r @ [n],
        vec_capacity := (if grow then 2 * vec_capacity r else vec_capacity r),
        ask_stale := (ask_stale r \<or> grow \<and> \<not> tr_is_empty ops (ask_treap r)),
        bid_stale := (bid_stale r \<or> grow \<and> \<not> tr_is_empty ops (bid_treap r))\<rparr>)"

definition RiskInstrTop_onNew ::
    "'t treap_ops \<Rightarrow> int \<Rightarrow> double \<Rightarrow> int \<Rightarrow> int \<Rightarrow> 't risk_instr_top \<Rightarrow> 't risk_instr_top res" where
  "RiskInstrTop_onNew ops dir px order_ref nano r =
     (let n = \<lparr>tn_order_ref = int32 order_ref, tn_price = px, tn_dir = dir\<rparr>;
          r1 = vec_emplace_back ops n r
      in if dir = AT_CHAR_Buy then
           (if bid_stale r1 then Inl DanglingDeref
            else Inr (RiskInstr_onNew nano (r1\<lparr>bid_treap := tr_push_back ops n (bid_treap r1)\<rparr>)))
         else
           (if ask_stale r1 then Inl DanglingDeref
            else Inr (RiskInstr_onNew nano (r1\<lparr>ask_treap := tr_push_back ops n (ask_treap r1)\<rparr>))))"

definition top_erase ::
    "'t treap_ops \<Rightarrow> int \<Rightarrow> int \<Rightarrow> 't risk_instr_top \<Rightarrow> 't risk_instr_top res" where
  "top_erase ops order_ref dir r =
     (let node = \<lparr>tn_order_ref = int32 order_ref, tn_price = 0, tn_dir = AT_CHAR_Buy\<rparr> in
      if dir = AT_CHAR_Buy then
        (if bid_stale r then Inl DanglingDeref
         else Inr (r\<lparr>bid_treap := tr_erase ops node (bid_treap r)\<rparr>))
      else
        (if ask_stale r then Inl DanglingDeref
         else Inr (r\<lparr>ask_treap := tr_erase ops node (ask_treap r)\<rparr>)))"

definition RiskInstrTop_onCxl ::
    "'t treap_ops \<Rightarrow> order_track \<Rightarrow> 't risk_instr_top \<Rightarrow> 't risk_instr_top res" where
  "RiskInstrTop_onCxl ops t r = top_erase ops (ot_order_ref t) (ot_dir t) r"

definition RiskInstrTop_onTrd ::
    "'t treap_ops \<Rightarrow> order_track \<Rightarrow> 't risk_instr_top \<Rightarrow> 't risk_instr_top res" where
  "RiskInstrTop_onTrd ops t r =
     (if ot_vol_traded t = ot_vol t then top_erase ops (ot_order_ref t) (ot_dir t) r else Inr r)"

definition RiskInstrTop_check ::
    "'t treap_ops \<Rightarrow> acc_base \<Rightarrow> int \<Rightarrow> int \<Rightarrow> double \<Rightarrow> int \<Rightarrow> int \<Rightarrow> 't risk_instr_top \<Rightarrow> int res" where
  "RiskInstrTop_check ops ab dir off px vol nano r =
     (if dir = AT_CHAR_Buy then
        (if \<not> tr_is_empty ops (ask_treap r) then
           (if ask_stale r then Inl DanglingDeref
            else if px \<ge> tn_price (tr_top ops (ask_treap r)) then Inr (-230)
            else RiskInstr_check ab dir off vol nano r)
         else RiskInstr_check ab dir off vol nano r)
      else
        (if \<not> tr_is_empty ops (bid_treap r) then
           (if bid_stale r then Inl DanglingDeref
            else if px \<le> tn_price (tr_top ops (bid_treap r)) then Inr (-231)
            else RiskInstr_check ab dir off vol nano r)
         else RiskInstr_check ab dir off vol nano r))"

definition RiskInstrTop_onSwitchDay :: "'t treap_ops \<Rightarrow> 't risk_instr_top \<Rightarrow> 't risk_instr_top" where
  "RiskInstrTop_onSwitchDay ops r =
     r\<lparr>bid_treap := tr_new ops, ask_treap := tr_new ops, vec_treap_node := [],
       ask_stale := False, bid_stale := False\<rparr>"

section \<open>No order crosses a working order\<close>

datatype top_event =
    TopNew acc_base int int double int int int
  | TopCxl order_track
  | TopTrd order_track
  | TopSwitch

fun top_step :: "'t treap_ops \<Rightarrow> top_event \<Rightarrow> 't risk_instr_top \<Rightarrow> 't risk_instr_top res" where
  "top_step ops (TopNew ab dir off px vol order_ref nano) r =
     RiskInstrTop_onNew ops dir px order_ref nano r"
| "top_step ops (TopCxl t) r = RiskInstrTop_onCxl ops t r"
| "top_step ops (TopTrd t) r = RiskInstrTop_onTrd ops t r"
| "top_step ops TopSwitch r = Inr (RiskInstrTop_onSwitchDay ops r)"

text \<open>
  The top account sends an order only after \<^verbatim>\<open>check\<close> returned 0; references grow, and a day has
  at most as many orders as the vector has room for.
\<close>

fun top_legal :: "'t treap_ops \<Rightarrow> top_event \<Rightarrow> 't risk_instr_top \<Rightarrow> bool" where
  "top_legal ops (TopNew ab dir off px vol order_ref nano) r \<longleftrightarrow>
     RiskInstrTop_check ops ab dir off px vol nano r = Inr 0 \<and>
     length (vec_treap_node r) < vec_capacity r \<and>
     (\<forall>n \<in> set (vec_treap_node r). tn_order_ref n \<le> int32 order_ref)"
| "top_legal ops _ r \<longleftrightarrow> True"

definition uncrossed :: "('t \<Rightarrow> tnode list) \<Rightarrow> 't risk_instr_top \<Rightarrow> bool" where
  "uncrossed nodes r \<longleftrightarrow>
     (\<forall>b \<in> set (nodes (bid_treap r)). \<forall>a \<in> set (nodes (ask_treap r)). tn_price b < tn_price a)"

definition top_inv :: "('t \<Rightarrow> tnode list) \<Rightarrow> 't risk_instr_top \<Rightarrow> bool" where
  "top_inv nodes r \<longleftrightarrow>
     uncrossed nodes r \<and> \<not> ask_stale r \<and> \<not> bid_stale r \<and>
     (\<forall>n \<in> set (nodes (bid_treap r)). tn_dir n = AT_CHAR_Buy \<and> n \<in> set (vec_treap_node r)) \<and>
     (\<forall>n \<in> set (nodes (ask_treap r)). tn_dir n \<noteq> AT_CHAR_Buy \<and> n \<in> set (vec_treap_node r))"

lemma onNew_top_sel [simp]:
  "ask_treap (RiskInstr_onNew nano r) = ask_treap r" "bid_treap (RiskInstr_onNew nano r) = bid_treap r"
  "ask_stale (RiskInstr_onNew nano r) = ask_stale r" "bid_stale (RiskInstr_onNew nano r) = bid_stale r"
  "vec_treap_node (RiskInstr_onNew nano r) = vec_treap_node r"
  by (simp_all add: RiskInstr_onNew_def Let_def)

lemma treap_okD:
  assumes "treap_ok ops nodes"
  shows "nodes (tr_new ops) = []" "tr_is_empty ops t \<longleftrightarrow> nodes t = []"
    and "(\<And>m. m \<in> set (nodes t) \<Longrightarrow> tn_order_ref m \<le> tn_order_ref n) \<Longrightarrow>
      nodes (tr_push_back ops n t) = nodes t @ [n]"
    and "nodes (tr_erase ops n t) = filter (\<lambda>m. tn_order_ref m \<noteq> tn_order_ref n) (nodes t)"
    and "m \<in> set (nodes t) \<Longrightarrow> same_side (nodes t) \<Longrightarrow> \<not> priority_order m (tr_top ops t)"
  using assms unfolding treap_ok_def by (auto dest: length_pos_if_in_set)

text \<open>A passed check puts the price on its own side of every working order of the other side.\<close>

lemma check_uncrossed:
  assumes ok: "treap_ok ops nodes" and inv: "top_inv nodes r"
    and chk: "RiskInstrTop_check ops ab dir off px vol nano r = Inr 0"
  shows "dir = AT_CHAR_Buy \<Longrightarrow> a \<in> set (nodes (ask_treap r)) \<Longrightarrow> px < tn_price a"
    "dir \<noteq> AT_CHAR_Buy \<Longrightarrow> b \<in> set (nodes (bid_treap r)) \<Longrightarrow> tn_price b < px"
proof -
  note T = treap_okD [OF ok]
  show "px < tn_price a" if "dir = AT_CHAR_Buy" and a: "a \<in> set (nodes (ask_treap r))"
  proof -
    have "nodes (ask_treap r) \<noteq> []" using a by auto
    with chk that(1) have "px < tn_price (tr_top ops (ask_treap r))"
      by (auto simp: RiskInstrTop_check_def T(2) split: if_splits)
    moreover have "tn_dir a \<noteq> AT_CHAR_Buy" "same_side (nodes (ask_treap r))"
      using inv a by (auto simp: top_inv_def same_side_def)
    ultimately show ?thesis using T(5) [OF a] by (auto simp: priority_order_def)
  qed
  show "tn_price b < px" if "dir \<noteq> AT_CHAR_Buy" and b: "b \<in> set (nodes (bid_treap r))"
  proof -
    have "nodes (bid_treap r) \<noteq> []" using b by auto
    with chk that(1) have "tn_price (tr_top ops (bid_treap r)) < px"
      by (auto simp: RiskInstrTop_check_def T(2) split: if_splits)
    moreover have "tn_dir b = AT_CHAR_Buy" "same_side (nodes (bid_treap r))"
      using inv b by (auto simp: top_inv_def same_side_def)
    ultimately show ?thesis using T(5) [OF b] by (auto simp: priority_order_def)
  qed
qed

lemma top_inv_erase:
  assumes ok: "treap_ok ops nodes" and inv: "top_inv nodes r"
  shows "\<exists>r'. top_erase ops ref dir r = Inr r' \<and> top_inv nodes r'"
  using inv by (auto simp: top_erase_def Let_def top_inv_def uncrossed_def treap_okD(4) [OF ok])

lemma top_inv_new:
  assumes ok: "treap_ok ops nodes" and inv: "top_inv nodes r"
    and legal: "top_legal ops (TopNew ab dir off px vol ref nano) r"
  shows "\<exists>r'. RiskInstrTop_onNew ops dir px ref nano r = Inr r' \<and> top_inv nodes r'"
proof -
  note T = treap_okD [OF ok]
  let ?n = "\<lparr>tn_order_ref = int32 ref, tn_price = px, tn_dir = dir\<rparr>"
  have chk: "RiskInstrTop_check ops ab dir off px vol nano r = Inr 0"
    and room: "length (vec_treap_node r) \<noteq> vec_capacity r"
    and grows: "\<And>m. m \<in> set (vec_treap_node r) \<Longrightarrow> tn_order_ref m \<le> tn_order_ref ?n"
    using legal by auto
  have bid: "nodes (tr_push_back ops ?n (bid_treap r)) = nodes (bid_treap r) @ [?n]"
    by (rule T(3)) (use inv grows in \<open>auto simp: top_inv_def\<close>)
  have ask: "nodes (tr_push_back ops ?n (ask_treap r)) = nodes (ask_treap r) @ [?n]"
    by (rule T(3)) (use inv grows in \<open>auto simp: top_inv_def\<close>)
  show ?thesis
  proof (cases "dir = AT_CHAR_Buy")
    case True
    with inv room bid check_uncrossed(1) [OF ok inv chk True] show ?thesis
      by (auto simp: RiskInstrTop_onNew_def vec_emplace_back_def Let_def top_inv_def uncrossed_def)
  next
    case False
    with inv room ask check_uncrossed(2) [OF ok inv chk False] show ?thesis
      by (auto simp: RiskInstrTop_onNew_def vec_emplace_back_def Let_def top_inv_def uncrossed_def)
  qed
qed

lemma top_step_ok:
  assumes inv: "treap_ok ops nodes \<and> top_inv nodes r" and legal: "top_legal ops e r"
  shows "\<exists>r'. top_step ops e r = Inr r' \<and> treap_ok ops nodes \<and> top_inv nodes r'"
proof (cases e)
  case (TopNew ab dir off px vol ref nano)
  with inv legal top_inv_new [OF conjunct1 [OF inv] conjunct2 [OF inv], of ab dir off px vol ref nano]
  show ?thesis by simp
next
  case TopSwitch
  with inv treap_okD(1) [OF conjunct1 [OF inv]] show ?thesis
    by (auto simp: RiskInstrTop_onSwitchDay_def top_inv_def uncrossed_def)
qed (use inv top_inv_erase in
    \<open>auto simp: RiskInstrTop_onCxl_def RiskInstrTop_onTrd_def split: if_splits\<close>)

interpretation self_trade: guarded_machine "top_step ops" "top_legal ops"
    "\<lambda>r. treap_ok ops nodes \<and> top_inv nodes r" for ops nodes
  by unfold_locales (rule top_step_ok)

lemma top_inv_init: "treap_ok ops nodes \<Longrightarrow> top_inv nodes (risk_instr_top_init ops)"
  by (simp add: top_inv_def uncrossed_def risk_instr_top_init_def risk_instr.defs treap_okD(1))

section \<open>A treap in a list\<close>

text \<open>The list of the nodes in the order of their keys has every operation the treap promises.\<close>

fun list_top :: "tnode list \<Rightarrow> tnode" where
  "list_top [] = \<lparr>tn_order_ref = 0, tn_price = 0, tn_dir = AT_CHAR_Buy\<rparr>"
| "list_top [n] = n"
| "list_top (n # ns) = (let m = list_top ns in if priority_order m n then m else n)"

definition list_treap :: "tnode list treap_ops" where
  "list_treap =
     \<lparr>tr_new = [], tr_is_empty = (\<lambda>t. t = []), tr_push_back = (\<lambda>n t. t @ [n]),
      tr_erase = (\<lambda>n. filter (\<lambda>m. tn_order_ref m \<noteq> tn_order_ref n)), tr_top = list_top\<rparr>"

lemma list_top_in: "ns \<noteq> [] \<Longrightarrow> list_top ns \<in> set ns"
  by (induction ns rule: list_top.induct) (auto simp: Let_def)

lemma list_top_first:
  "same_side ns \<Longrightarrow> m \<in> set ns \<Longrightarrow> \<not> priority_order m (list_top ns)"
proof (induction ns arbitrary: m rule: list_top.induct)
  case (3 n n2 ns)
  have side: "same_side (n2 # ns)" using "3.prems"(1) by (auto simp: same_side_def)
  have top: "list_top (n2 # ns) \<in> set (n2 # ns)" by (rule list_top_in) simp
  have IH: "\<not> priority_order k (list_top (n2 # ns))" if "k \<in> set (n2 # ns)" for k
    using "3.IH" side that by simp
  have dirs: "tn_dir k = AT_CHAR_Buy \<longleftrightarrow> tn_dir n = AT_CHAR_Buy" if "k \<in> set (n # n2 # ns)" for k
    using "3.prems"(1) that by (auto simp: same_side_def)
  show ?case
  proof (cases "m = n")
    case True
    with dirs [of "list_top (n2 # ns)"] top show ?thesis
      unfolding list_top.simps(3) Let_def priority_order_def by (simp split: if_splits)
  next
    case False
    with "3.prems"(2) have m: "m \<in> set (n2 # ns)" by simp
    define t where "t = list_top (n2 # ns)"
    have t: "\<not> priority_order m t" "list_top (n # n2 # ns) = (if priority_order t n then t else n)"
      using IH [OF m] by (simp_all add: t_def Let_def)
    have d: "tn_dir m = AT_CHAR_Buy \<longleftrightarrow> tn_dir n = AT_CHAR_Buy"
      "tn_dir t = AT_CHAR_Buy \<longleftrightarrow> tn_dir n = AT_CHAR_Buy"
      unfolding t_def by (rule dirs; use m top in auto)+
    have "\<not> priority_order m n" if "\<not> priority_order t n"
      using that t(1) d by (cases "tn_dir n = AT_CHAR_Buy") (simp_all add: priority_order_def)
    with t show ?thesis by simp
  qed
qed (auto simp: priority_order_def)

lemma list_treap_ok: "treap_ok list_treap (\<lambda>t. t)"
  unfolding treap_ok_def
  by (simp add: list_treap_def list_top_in list_top_first)

end
