(* ===== verification/Risk.thy ===== *)
theory Risk
  imports Risk_Self_Trade
begin

text \<open>
  \<^verbatim>\<open>risk/RiskStg\<close>, the risk control of a strategy, \<^verbatim>\<open>risk/RiskTop\<close>, that of the account at the
  broker, and the texts of \<^verbatim>\<open>risk/RiskError\<close>. Both own an account and the risk objects of its
  instruments and products, which they register when an order needs them. The callbacks on the
  account are those of \<^verbatim>\<open>AccBase\<close>.
\<close>

section \<open>RiskStg\<close>

record risk_stg =
  rs_stg_name :: string
  rs_j_conf :: json
  rs_map_risk_instr :: "(u32, risk_instr_stg) umap"
  rs_map_risk_prd :: "(u32, risk_prd) umap"
  rs_risk_acc :: risk_acc
  rs_acc_base :: acc_base

definition risk_stg_init :: risk_stg where
  "risk_stg_init =
     \<lparr>rs_stg_name = [], rs_j_conf = JNull, rs_map_risk_instr = [], rs_map_risk_prd = [],
      rs_risk_acc = risk_acc_init, rs_acc_base = acc_base_init\<rparr>"

definition RiskStg_init :: "string \<Rightarrow> json \<Rightarrow> risk_stg \<Rightarrow> (bool \<times> risk_stg) res" where
  "RiskStg_init name j s =
     (case AccBase_init name j (rs_acc_base s) of (ok, ab) \<Rightarrow>
        (let s1 = s\<lparr>rs_acc_base := ab\<rparr> in
         if \<not> ok then Inr (False, s1)
         else res_bind (RiskAcc_init j (rs_risk_acc s1)) (\<lambda>(ok2, ra).
           let s2 = s1\<lparr>rs_risk_acc := ra\<rparr> in
           if \<not> ok2 then Inr (False, s2)
           else Inr (True, s2\<lparr>rs_j_conf := j, rs_stg_name := take 64 name\<rparr>))))"

definition RiskStg_isExistRiskPrd :: "u32 \<Rightarrow> risk_stg \<Rightarrow> bool" where
  "RiskStg_isExistRiskPrd h s = um_has h (rs_map_risk_prd s)"

definition RiskStg_isExistRiskInstr :: "u32 \<Rightarrow> risk_stg \<Rightarrow> bool" where
  "RiskStg_isExistRiskInstr h s = um_has h (rs_map_risk_instr s)"

text \<open>\<^verbatim>\<open>map_risk_prd_[h].init(..)\<close>: the entry stays, as far as it is filled, when \<^verbatim>\<open>init\<close> fails.\<close>

definition RiskStg_regRiskPrd :: "string \<Rightarrow> risk_stg \<Rightarrow> (bool \<times> risk_stg) res" where
  "RiskStg_regRiskPrd pname s =
     (let h = INSTR_NAME_TO_HASH pname in
      if RiskStg_isExistRiskPrd h s then Inr (True, s)
      else res_bind (RiskPrd_init (rs_j_conf s) pname (rs_acc_base s) risk_prd_init)
        (\<lambda>(ok, r, ab). Inr (ok, s\<lparr>rs_map_risk_prd := AList.update h r (rs_map_risk_prd s),
                                   rs_acc_base := ab\<rparr>)))"

definition RiskStg_regRiskInstr :: "instr_table \<Rightarrow> string \<Rightarrow> risk_stg \<Rightarrow> (bool \<times> risk_stg) res" where
  "RiskStg_regRiskInstr tb name s =
     (let h = INSTR_NAME_TO_HASH name in
      if RiskStg_isExistRiskInstr h s then Inr (True, s)
      else case map_of tb h of
        None \<Rightarrow> Inr (False, s)
      | Some info \<Rightarrow>
          res_bind (RiskInstrStg_init (rs_j_conf s) tb info (rs_acc_base s) risk_instr_stg_init)
            (\<lambda>(ok, r, ab). Inr (ok, s\<lparr>rs_map_risk_instr := AList.update h r (rs_map_risk_instr s),
                                       rs_acc_base := ab\<rparr>)))"

definition RiskStg_regInstr :: "instr_table \<Rightarrow> string \<Rightarrow> risk_stg \<Rightarrow> (bool \<times> risk_stg) res" where
  "RiskStg_regInstr tb name s =
     (case AccBase_regInstr tb name (rs_acc_base s) of (ok, ab) \<Rightarrow>
        (let s1 = s\<lparr>rs_acc_base := ab\<rparr>; h = INSTR_NAME_TO_HASH name in
         if \<not> ok then Inr (False, s1)
         else case map_of tb h of
           None \<Rightarrow> Inr (False, s1)
         | Some info \<Rightarrow>
             res_bind (if RiskStg_isExistRiskPrd (ii_product_hash info) s1 then Inr (True, s1)
                       else RiskStg_regRiskPrd (ii_product info) s1)
               (\<lambda>(ok2, s2).
                  if \<not> ok2 then Inr (False, s2)
                  else if RiskStg_isExistRiskInstr h s2 then Inr (True, s2)
                  else RiskStg_regRiskInstr tb name s2)))"

text \<open>
  The loop that registers the instrument until its hash is found. It does not end where the hash
  of the structure is not that of its name; the fuel bounds the number of its tests.
\<close>

fun RiskStg_find ::
    "nat \<Rightarrow> instr_table \<Rightarrow> instrument_info \<Rightarrow> risk_stg \<Rightarrow> (risk_instr_stg option \<times> risk_stg) res" where
  "RiskStg_find 0 tb info s = Inl OutOfFuel"
| "RiskStg_find (Suc n) tb info s =
     (case map_of (rs_map_risk_instr s) (ii_instr_hash info) of
        Some r \<Rightarrow> Inr (Some r, s)
      | None \<Rightarrow>
          res_bind (RiskStg_regInstr tb (ii_instr info) s) (\<lambda>(ok, s1).
            if \<not> ok then Inr (None, s1) else RiskStg_find n tb info s1))"

text \<open>The result, the offset (a reference parameter) and the state.\<close>

definition RiskStg_check ::
    "nat \<Rightarrow> instr_table \<Rightarrow> int \<Rightarrow> int \<Rightarrow> double \<Rightarrow> int \<Rightarrow> subs_instr_info \<Rightarrow> risk_stg \<Rightarrow>
     (int \<times> int \<times> risk_stg) res" where
  "RiskStg_check fuel tb dir off px vol subs s =
     (let info = base_info subs; tick = lst_tick subs in
      res_bind (RiskStg_find fuel tb info s) (\<lambda>(found, s1).
        case found of
          None \<Rightarrow> Inr (-403, off, s1)
        | Some r \<Rightarrow>
            (let ab = rs_acc_base s1 in
             res_bind (if off = AT_CHAR_Auto \<or> off = AT_CHAR_Close
                       then RiskInstr_parseAutoOffset ab dir off vol r else Inr (0, off))
             (\<lambda>(ret, off1).
               if ret \<noteq> 0 then Inr (ret, off1, s1)
               else res_bind (RiskInstrStg_check ab dir off1 vol px (lt_ask_px tick)
                                (lt_bid_px tick) (lt_exch_time tick) r)
             (\<lambda>ret. if ret \<noteq> 0 then Inr (ret, off1, s1)
               else res_bind (case map_of (rs_map_risk_prd s1) (ii_product_hash info) of
                                None \<Rightarrow> Inl DanglingDeref
                              | Some rp \<Rightarrow> RiskPrd_check ab dir off1 vol rp)
             (\<lambda>ret. if ret \<noteq> 0 then Inr (ret, off1, s1)
               else res_bind (RiskAcc_check ab dir off1 px vol (ii_vol_multiple info) (rs_risk_acc s1))
             (\<lambda>ret. Inr (ret, off1, s1))))))))"

definition RiskStg_onOrderTrack :: "instr_table \<Rightarrow> order_track \<Rightarrow> risk_stg \<Rightarrow> risk_stg res" where
  "RiskStg_onOrderTrack tb t s =
     res_bind (AccBase_onOrderTrack tb t (rs_acc_base s)) (\<lambda>ab. Inr (s\<lparr>rs_acc_base := ab\<rparr>))"

definition RiskStg_onNew ::
    "instr_table \<Rightarrow> int \<Rightarrow> int \<Rightarrow> double \<Rightarrow> int \<Rightarrow> u32 \<Rightarrow> int \<Rightarrow> risk_stg \<Rightarrow> risk_stg res" where
  "RiskStg_onNew tb dir off px vol h nano s =
     res_bind (AccBase_onNew tb dir off px vol h (rs_acc_base s)) (\<lambda>ab. Inr
       (let m = um_touch risk_instr_stg_init h (rs_map_risk_instr s);
            r = (case map_of m h of None \<Rightarrow> risk_instr_stg_init | Some r \<Rightarrow> r)
        in s\<lparr>rs_acc_base := ab, rs_map_risk_instr := AList.update h (RiskInstr_onNew nano r) m\<rparr>))"

definition RiskStg_onRtn :: "instr_table \<Rightarrow> order_track \<Rightarrow> rtn_msg \<Rightarrow> risk_stg \<Rightarrow> risk_stg res" where
  "RiskStg_onRtn tb t m s =
     res_bind (AccBase_onRtn tb t m (rs_acc_base s)) (\<lambda>ab. Inr (s\<lparr>rs_acc_base := ab\<rparr>))"

definition RiskStg_onTickPx :: "instr_table \<Rightarrow> u32 \<Rightarrow> double \<Rightarrow> risk_stg \<Rightarrow> risk_stg res" where
  "RiskStg_onTickPx tb h tick_px s =
     res_bind (AccBase_onTickPx tb h tick_px (rs_acc_base s)) (\<lambda>ab. Inr (s\<lparr>rs_acc_base := ab\<rparr>))"

text \<open>
  The day switch: the account first, which erases its flat entries, then the flat risk objects,
  found by reading the volumes they point to.
\<close>

fun flat_keys :: "('v \<Rightarrow> unit_vol res) \<Rightarrow> ('k, 'v) umap \<Rightarrow> 'k list res" where
  "flat_keys vol [] = Inr []"
| "flat_keys vol ((k, r) # m) =
     res_bind (vol r) (\<lambda>v. res_bind (flat_keys vol m) (\<lambda>ks.
       Inr (if vol_flat v then k # ks else ks)))"

definition rp_vol :: "acc_base \<Rightarrow> risk_prd \<Rightarrow> unit_vol res" where
  "rp_vol ab r = res_bind (deref (map_of (ab_map_prd ab)) (rp_p_unit_vol r)) (\<lambda>p. Inr (prd_vol p))"

text \<open>
  The account erased every flat entry just before, so the pointers of the risk objects to them
  dangle now; a pointer to an entry that is still there is good.
\<close>

definition RiskStg_onSwitchDay :: "risk_stg \<Rightarrow> risk_stg res" where
  "RiskStg_onSwitchDay s =
     (let ab = AccBase_onSwitchDay (rs_acc_base s) in
      res_bind (flat_keys (ri_vol ab) (rs_map_risk_instr s)) (\<lambda>ks.
      res_bind (flat_keys (rp_vol ab) (rs_map_risk_prd s)) (\<lambda>ps.
        Inr (s\<lparr>rs_acc_base := ab,
               rs_map_risk_instr := fold AList.delete ks (rs_map_risk_instr s),
               rs_map_risk_prd := fold AList.delete ps (rs_map_risk_prd s)\<rparr>))))"

text \<open>The views of the account.\<close>

definition RiskStg_getAccUnitAmt :: "risk_stg \<Rightarrow> unit_amt" where
  "RiskStg_getAccUnitAmt s = AccBase_getAccUnitAmt (rs_acc_base s)"

definition RiskStg_getAccUnitPnl :: "risk_stg \<Rightarrow> unit_pnl" where
  "RiskStg_getAccUnitPnl s = AccBase_getAccUnitPnl (rs_acc_base s)"

definition RiskStg_getInstrUnitVol :: "u32 \<Rightarrow> risk_stg \<Rightarrow> unit_vol option" where
  "RiskStg_getInstrUnitVol h s = AccBase_getInstrUnitVol h (rs_acc_base s)"

definition RiskStg_getInstrUnitAmt :: "u32 \<Rightarrow> risk_stg \<Rightarrow> unit_amt option" where
  "RiskStg_getInstrUnitAmt h s = AccBase_getInstrUnitAmt h (rs_acc_base s)"

definition RiskStg_getInstrUnitPx :: "u32 \<Rightarrow> risk_stg \<Rightarrow> unit_px option" where
  "RiskStg_getInstrUnitPx h s = AccBase_getInstrUnitPx h (rs_acc_base s)"

definition RiskStg_getInstrUnitPnl :: "u32 \<Rightarrow> risk_stg \<Rightarrow> unit_pnl option" where
  "RiskStg_getInstrUnitPnl h s = AccBase_getInstrUnitPnl h (rs_acc_base s)"

definition RiskStg_getPrdUnitVol :: "u32 \<Rightarrow> risk_stg \<Rightarrow> unit_vol option" where
  "RiskStg_getPrdUnitVol h s = AccBase_getPrdUnitVol h (rs_acc_base s)"

definition RiskStg_getPrdUnitAmt :: "u32 \<Rightarrow> risk_stg \<Rightarrow> unit_amt option" where
  "RiskStg_getPrdUnitAmt h s = AccBase_getPrdUnitAmt h (rs_acc_base s)"

definition RiskStg_getPrdUnitPnl :: "u32 \<Rightarrow> risk_stg \<Rightarrow> unit_pnl option" where
  "RiskStg_getPrdUnitPnl h s = AccBase_getPrdUnitPnl h (rs_acc_base s)"

definition RiskStg_getModInstr :: "u32 \<Rightarrow> risk_stg \<Rightarrow> mod_instr option" where
  "RiskStg_getModInstr h s = AccBase_getModInstr h (rs_acc_base s)"

text \<open>The files of the account; an exception of the JSON library is not caught.\<close>

definition RiskStg_save :: "file_env \<Rightarrow> string \<Rightarrow> bool \<Rightarrow> risk_stg \<Rightarrow> disk \<Rightarrow> (bool \<times> disk) res" where
  "RiskStg_save fe day force s d =
     (case AccBase_save fe day force (rs_acc_base s) d of None \<Rightarrow> Inl Uncaught | Some r \<Rightarrow> Inr r)"

definition RiskStg_load ::
    "file_env \<Rightarrow> instr_table \<Rightarrow> string \<Rightarrow> disk \<Rightarrow> risk_stg \<Rightarrow> (bool \<times> risk_stg) res" where
  "RiskStg_load fe tb today d s =
     (case AccBase_load fe tb today d (rs_acc_base s) of
        None \<Rightarrow> Inl Uncaught
      | Some (ok, ab) \<Rightarrow> Inr (ok, s\<lparr>rs_acc_base := ab\<rparr>))"

section \<open>RiskTop\<close>

record 't risk_top =
  rt_stg_name :: string
  rt_j_conf :: json
  rt_map_risk_instr :: "(u32, 't risk_instr_top) umap"
  rt_map_risk_prd :: "(u32, risk_prd) umap"
  rt_risk_acc :: risk_acc
  rt_acc_base :: acc_base

definition risk_top_init :: "'t risk_top" where
  "risk_top_init =
     \<lparr>rt_stg_name = [], rt_j_conf = JNull, rt_map_risk_instr = [], rt_map_risk_prd = [],
      rt_risk_acc = risk_acc_init, rt_acc_base = acc_base_init\<rparr>"

definition RiskTop_init :: "string \<Rightarrow> json \<Rightarrow> 't risk_top \<Rightarrow> (bool \<times> 't risk_top) res" where
  "RiskTop_init name j s =
     (case AccBase_init name j (rt_acc_base s) of (ok, ab) \<Rightarrow>
        (let s1 = s\<lparr>rt_acc_base := ab\<rparr> in
         if \<not> ok then Inr (False, s1)
         else res_bind (RiskAcc_init j (rt_risk_acc s1)) (\<lambda>(ok2, ra).
           let s2 = s1\<lparr>rt_risk_acc := ra\<rparr> in
           if \<not> ok2 then Inr (False, s2)
           else Inr (True, s2\<lparr>rt_j_conf := j, rt_stg_name := take 64 name\<rparr>))))"

definition RiskTop_isExistRiskPrd :: "u32 \<Rightarrow> 't risk_top \<Rightarrow> bool" where
  "RiskTop_isExistRiskPrd h s = um_has h (rt_map_risk_prd s)"

definition RiskTop_isExistRiskInstr :: "u32 \<Rightarrow> 't risk_top \<Rightarrow> bool" where
  "RiskTop_isExistRiskInstr h s = um_has h (rt_map_risk_instr s)"

definition RiskTop_regRiskPrd :: "string \<Rightarrow> 't risk_top \<Rightarrow> (bool \<times> 't risk_top) res" where
  "RiskTop_regRiskPrd pname s =
     (let h = INSTR_NAME_TO_HASH pname in
      if RiskTop_isExistRiskPrd h s then Inr (True, s)
      else res_bind (RiskPrd_init (rt_j_conf s) pname (rt_acc_base s) risk_prd_init)
        (\<lambda>(ok, r, ab). Inr (ok, s\<lparr>rt_map_risk_prd := AList.update h r (rt_map_risk_prd s),
                                   rt_acc_base := ab\<rparr>)))"

definition RiskTop_regRiskInstr ::
    "'t treap_ops \<Rightarrow> instr_table \<Rightarrow> string \<Rightarrow> 't risk_top \<Rightarrow> (bool \<times> 't risk_top) res" where
  "RiskTop_regRiskInstr ops tb name s =
     (let h = INSTR_NAME_TO_HASH name in
      if RiskTop_isExistRiskInstr h s then Inr (True, s)
      else case map_of tb h of
        None \<Rightarrow> Inr (False, s)
      | Some info \<Rightarrow>
          res_bind (RiskInstr_init (rt_j_conf s) tb info (rt_acc_base s) (risk_instr_top_init ops))
            (\<lambda>(ok, r, ab). Inr (ok, s\<lparr>rt_map_risk_instr := AList.update h r (rt_map_risk_instr s),
                                       rt_acc_base := ab\<rparr>)))"

definition RiskTop_regInstr ::
    "'t treap_ops \<Rightarrow> instr_table \<Rightarrow> string \<Rightarrow> 't risk_top \<Rightarrow> (bool \<times> 't risk_top) res" where
  "RiskTop_regInstr ops tb name s =
     (case AccBase_regInstr tb name (rt_acc_base s) of (ok, ab) \<Rightarrow>
        (let s1 = s\<lparr>rt_acc_base := ab\<rparr>; h = INSTR_NAME_TO_HASH name in
         if \<not> ok then Inr (False, s1)
         else case map_of tb h of
           None \<Rightarrow> Inr (False, s1)
         | Some info \<Rightarrow>
             res_bind (if RiskTop_isExistRiskPrd (ii_product_hash info) s1 then Inr (True, s1)
                       else RiskTop_regRiskPrd (ii_product info) s1)
               (\<lambda>(ok2, s2).
                  if \<not> ok2 then Inr (False, s2)
                  else if RiskTop_isExistRiskInstr h s2 then Inr (True, s2)
                  else RiskTop_regRiskInstr ops tb name s2)))"

fun RiskTop_find ::
    "nat \<Rightarrow> 't treap_ops \<Rightarrow> instr_table \<Rightarrow> instrument_info \<Rightarrow> 't risk_top \<Rightarrow>
     ('t risk_instr_top option \<times> 't risk_top) res" where
  "RiskTop_find 0 ops tb info s = Inl OutOfFuel"
| "RiskTop_find (Suc n) ops tb info s =
     (case map_of (rt_map_risk_instr s) (ii_instr_hash info) of
        Some r \<Rightarrow> Inr (Some r, s)
      | None \<Rightarrow>
          res_bind (RiskTop_regInstr ops tb (ii_instr info) s) (\<lambda>(ok, s1).
            if \<not> ok then Inr (None, s1) else RiskTop_find n ops tb info s1))"

text \<open>
  For an instrument that is not listed the function returns \<^verbatim>\<open>false\<close>, which is the 0 of success.
  \<open>now\<close> is the clock.
\<close>

definition RiskTop_check ::
    "nat \<Rightarrow> 't treap_ops \<Rightarrow> instr_table \<Rightarrow> int \<Rightarrow> int \<Rightarrow> int \<Rightarrow> double \<Rightarrow> int \<Rightarrow> u32 \<Rightarrow> 't risk_top \<Rightarrow>
     (int \<times> 't risk_top) res" where
  "RiskTop_check fuel ops tb now dir off px vol h s =
     (case map_of tb h of
        None \<Rightarrow> Inr (0, s)
      | Some info \<Rightarrow>
          res_bind (RiskTop_find fuel ops tb info s) (\<lambda>(found, s1).
            case found of
              None \<Rightarrow> Inr (-404, s1)
            | Some r \<Rightarrow>
                (let ab = rt_acc_base s1 in
                 if off = AT_CHAR_Auto \<or> off = AT_CHAR_Close then Inr (-405, s1)
                 else res_bind (RiskInstrTop_check ops ab dir off px vol now r)
                 (\<lambda>ret. if ret \<noteq> 0 then Inr (ret, s1)
                   else res_bind (case map_of (rt_map_risk_prd s1) (ii_product_hash info) of
                                    None \<Rightarrow> Inl DanglingDeref
                                  | Some rp \<Rightarrow> RiskPrd_check ab dir off vol rp)
                 (\<lambda>ret. if ret \<noteq> 0 then Inr (ret, s1)
                   else res_bind (RiskAcc_check ab dir off px vol (ii_vol_multiple info) (rt_risk_acc s1))
                 (\<lambda>ret. Inr (ret, s1)))))))"

definition RiskTop_onOrderTrack :: "instr_table \<Rightarrow> order_track \<Rightarrow> 't risk_top \<Rightarrow> 't risk_top res" where
  "RiskTop_onOrderTrack tb t s =
     res_bind (AccBase_onOrderTrack tb t (rt_acc_base s)) (\<lambda>ab. Inr (s\<lparr>rt_acc_base := ab\<rparr>))"

text \<open>An operation on \<^verbatim>\<open>map_risk_instr_[h]\<close>.\<close>

definition top_at ::
    "'t treap_ops \<Rightarrow> u32 \<Rightarrow> ('t risk_instr_top \<Rightarrow> 't risk_instr_top res) \<Rightarrow> 't risk_top \<Rightarrow>
     't risk_top res" where
  "top_at ops h f s =
     (let m = um_touch (risk_instr_top_init ops) h (rt_map_risk_instr s);
          r = (case map_of m h of None \<Rightarrow> risk_instr_top_init ops | Some r \<Rightarrow> r)
      in res_bind (f r) (\<lambda>r'. Inr (s\<lparr>rt_map_risk_instr := AList.update h r' m\<rparr>)))"

definition RiskTop_onNew ::
    "'t treap_ops \<Rightarrow> instr_table \<Rightarrow> int \<Rightarrow> int \<Rightarrow> int \<Rightarrow> double \<Rightarrow> int \<Rightarrow> u32 \<Rightarrow> int \<Rightarrow> 't risk_top \<Rightarrow>
     't risk_top res" where
  "RiskTop_onNew ops tb now dir off px vol h order_ref s =
     res_bind (AccBase_onNew tb dir off px vol h (rt_acc_base s)) (\<lambda>ab.
       top_at ops h (RiskInstrTop_onNew ops dir px order_ref now) (s\<lparr>rt_acc_base := ab\<rparr>))"

definition RiskTop_onRtn ::
    "'t treap_ops \<Rightarrow> instr_table \<Rightarrow> order_track \<Rightarrow> rtn_msg \<Rightarrow> 't risk_top \<Rightarrow> 't risk_top res" where
  "RiskTop_onRtn ops tb t m s =
     res_bind (AccBase_onRtn tb t m (rt_acc_base s)) (\<lambda>ab.
     res_bind (if rm_msg_type m AND ODS_CANCELED \<noteq> 0
               then top_at ops (ot_instr_hash t) (RiskInstrTop_onCxl ops t) (s\<lparr>rt_acc_base := ab\<rparr>)
               else Inr (s\<lparr>rt_acc_base := ab\<rparr>))
     (\<lambda>s1. if rm_msg_type m AND ODS_EXECUTION \<noteq> 0
           then top_at ops (ot_instr_hash t) (RiskInstrTop_onTrd ops t) s1
           else Inr s1))"

definition RiskTop_onTickPx :: "instr_table \<Rightarrow> u32 \<Rightarrow> double \<Rightarrow> 't risk_top \<Rightarrow> 't risk_top res" where
  "RiskTop_onTickPx tb h tick_px s =
     res_bind (AccBase_onTickPx tb h tick_px (rt_acc_base s)) (\<lambda>ab. Inr (s\<lparr>rt_acc_base := ab\<rparr>))"

section \<open>RiskError\<close>

definition RiskError_strerror :: "int \<Rightarrow> string" where
  "RiskError_strerror errnum =
     (if errnum = 0 then ''succ''
      else if errnum = -1 then ''stop trading flag is open or instrument not subscribed.''
      else if errnum = -100 then ''too many unfilled order''
      else if errnum = -110 then ''long amount exceeds''
      else if errnum = -111 then ''short amount exceeds''
      else if errnum = -112 then ''net amount exceeds''
      else if errnum = -200 then ''instr is not allowed''
      else if errnum = -201 then ''gap between order px and bid1/ask1 px is too big''
      else if errnum = -202 then ''order size is too big''
      else if errnum = -203 then ''abnormal intensity''
      else if errnum = -210 then ''instr long vol exceeds''
      else if errnum = -211 then ''instr short vol exceeds''
      else if errnum = -212 then ''instr net vol exceeds''
      else if errnum = -230 then ''may self trade''
      else if errnum = -231 then ''may self trade''
      else if errnum = -270 then ''can't parse auto offset''
      else if errnum = -271 then ''can't parse auto offset''
      else if errnum = -272 then ''can't parse dir''
      else if errnum = -300 then ''prd long vol exceeds''
      else if errnum = -301 then ''prd short vol exceeds''
      else if errnum = -302 then ''prd net vol exceeds''
      else if errnum = -401 then ''prd is not registered''
      else if errnum = -403 then ''instr is not registered in stg''
      else if errnum = -404 then ''instr is not registered in top''
      else if errnum = -405 then ''can't parse auto offset in top''
      else ''unknown err number'')"

end
