(* ===== verification/Risk_Limits.thy ===== *)
theory Risk_Limits
  imports Risk Acc_World
begin

text \<open>
  The order path of a strategy, what \<^verbatim>\<open>CStrategy::sendOrder\<close> (\<^verbatim>\<open>strategy/CStrategy.cpp\<close>) does to the
  risk control: an order goes out only after \<^verbatim>\<open>RiskStg::check\<close> returned 0, and is booked with
  \<^verbatim>\<open>RiskStg::onNew\<close>; the trading helper is any function that yields the identity of an order. (The
  whole strategy, with its helper, is in \<open>Stg_Core\<close>.) The machine of this theory interleaves sending
  with the reports of trades and cancels and with ticks. Its invariant states the purpose of the
  checks: whatever the working orders do, the position of an instrument or of a product stays
  within its limits (\<open>in_limits\<close>), and so does the number of open orders.
\<close>

section \<open>Exposure\<close>

text \<open>
  What the position becomes when all working orders of one side trade and none of the other: the
  four sums the checks compare with their thresholds.
\<close>

definition long_exp :: "unit_vol \<Rightarrow> int" where
  "long_exp v = pos_long v + pos_long_td_opn_ing v"

definition short_exp :: "unit_vol \<Rightarrow> int" where
  "short_exp v = pos_short v + pos_short_td_opn_ing v"

definition net_buy_exp :: "unit_vol \<Rightarrow> int" where
  "net_buy_exp v =
     pos_long v - pos_short v + pos_short_yd_cls_ing v + pos_long_td_opn_ing v + pos_short_td_cls_ing v"

definition net_sell_exp :: "unit_vol \<Rightarrow> int" where
  "net_sell_exp v =
     pos_short v - pos_long v + pos_long_yd_cls_ing v + pos_short_td_opn_ing v + pos_long_td_cls_ing v"

lemmas exp_defs = long_exp_def short_exp_def net_buy_exp_def net_sell_exp_def

text \<open>Limits: long, short and net volume. A limit below zero only refuses orders.\<close>

definition in_limits :: "int \<times> int \<times> int \<Rightarrow> unit_vol \<Rightarrow> bool" where
  "in_limits lims v \<longleftrightarrow> (case lims of (l, s, n) \<Rightarrow>
     long_exp v \<le> max 0 l \<and> short_exp v \<le> max 0 s \<and> net_buy_exp v \<le> max 0 n \<and>
     net_sell_exp v \<le> max 0 n)"

text \<open>How much more exposed \<open>w\<close> is than \<open>v\<close>.\<close>

definition exp_change :: "unit_vol \<Rightarrow> unit_vol \<Rightarrow> int \<times> int \<times> int \<times> int" where
  "exp_change v w =
     (long_exp w - long_exp v, short_exp w - short_exp v, net_buy_exp w - net_buy_exp v,
      net_sell_exp w - net_sell_exp v)"

definition no_more_exposed :: "unit_vol \<Rightarrow> unit_vol \<Rightarrow> bool" where
  "no_more_exposed v w \<longleftrightarrow> (case exp_change v w of (a, b, c, d) \<Rightarrow> a \<le> 0 \<and> b \<le> 0 \<and> c \<le> 0 \<and> d \<le> 0)"

text \<open>The order a check let pass fits under the limits.\<close>

definition order_fits :: "int \<times> int \<times> int \<Rightarrow> int \<Rightarrow> int \<Rightarrow> int \<Rightarrow> unit_vol \<Rightarrow> bool" where
  "order_fits lims dir off n v \<longleftrightarrow> (case lims of (l, s, m) \<Rightarrow>
     (off = AT_CHAR_Open \<and> dir = AT_CHAR_Buy \<longrightarrow> long_exp v + n \<le> l) \<and>
     (off = AT_CHAR_Open \<and> dir \<noteq> AT_CHAR_Buy \<longrightarrow> short_exp v + n \<le> s) \<and>
     (dir = AT_CHAR_Buy \<longrightarrow> net_buy_exp v + n \<le> m) \<and>
     (dir \<noteq> AT_CHAR_Buy \<longrightarrow> net_sell_exp v + n \<le> m))"

lemma in_limits_less: "in_limits lims v \<Longrightarrow> no_more_exposed v w \<Longrightarrow> in_limits lims w"
  by (auto simp: in_limits_def no_more_exposed_def exp_change_def split: prod.splits)

lemma in_limits_same:
  assumes "in_limits lims v" "no_more_exposed x y" "exp_change v w = exp_change x y"
  shows "in_limits lims w"
proof (rule in_limits_less [OF assms(1)])
  show "no_more_exposed v w" using assms(2) unfolding no_more_exposed_def assms(3) .
qed

lemma in_limits_new:
  assumes "in_limits lims v" "order_fits lims dir off n v" "dir_known dir" "off_known off"
    and "exp_change v w = exp_change x (vol_new dir off n x)"
  shows "in_limits lims w"
proof -
  obtain l s m where lims: "lims = (l, s, m)" by (cases lims)
  have "exp_change x (vol_new dir off n x) =
      (if dir = AT_CHAR_Buy \<and> off = AT_CHAR_Open then n else 0,
       if dir \<noteq> AT_CHAR_Buy \<and> off = AT_CHAR_Open then n else 0,
       if dir = AT_CHAR_Buy then n else 0, if dir \<noteq> AT_CHAR_Buy then n else 0)"
    using assms(3,4)
    by (auto simp: exp_change_def vol_new_def vol_new_defs exp_defs dir_known_def off_known_def)
  then show ?thesis
    using assms(1,2,5) unfolding in_limits_def order_fits_def lims exp_change_def
    by (auto split: if_splits)
qed

lemma cxl_no_more:
  "0 \<le> n \<Longrightarrow> dir_known dir \<Longrightarrow> off_known off \<Longrightarrow> no_more_exposed v (vol_cxl dir off n v)"
  by (auto simp: no_more_exposed_def exp_change_def vol_cxl_def vol_cxl_defs exp_defs dir_known_def
      off_known_def)

lemma trd_no_more:
  "0 \<le> n \<Longrightarrow> dir_known dir \<Longrightarrow> off_known off \<Longrightarrow> no_more_exposed v (vol_trd dir off n v)"
  by (auto simp: no_more_exposed_def exp_change_def vol_trd_def vol_trd_defs exp_defs dir_known_def
      off_known_def)

lemma no_more_refl: "no_more_exposed v v"
  by (simp add: no_more_exposed_def exp_change_def)

lemma no_more_trans: "no_more_exposed u v \<Longrightarrow> no_more_exposed v w \<Longrightarrow> no_more_exposed u w"
  by (auto simp: no_more_exposed_def exp_change_def)

text \<open>The product of an instrument is exposed more by as much as the instrument is.\<close>

lemma exp_change_moves:
  assumes "moves (mk_ctx i p a) (mk_ctx i' p' a')"
  shows "exp_change (prd_vol p) (prd_vol p') = exp_change (ins_vol i) (ins_vol i')"
proof -
  have d: "f (prd_vol p') = f (prd_vol p) + (f (ins_vol i') - f (ins_vol i))"
    if "f \<in> vol_fields" for f
    using assms that by (auto simp: moves_mk diff_eq_eq add.commute)
  have "pos_long \<in> vol_fields" "pos_short \<in> vol_fields" "pos_long_yd_cls_ing \<in> vol_fields"
    "pos_long_td_cls_ing \<in> vol_fields" "pos_long_td_opn_ing \<in> vol_fields"
    "pos_short_yd_cls_ing \<in> vol_fields" "pos_short_td_cls_ing \<in> vol_fields"
    "pos_short_td_opn_ing \<in> vol_fields"
    by (simp_all add: vol_fields_def)
  note this [THEN d]
  then show ?thesis by (simp add: exp_change_def exp_defs)
qed

section \<open>What the checks guarantee\<close>

definition ri_limits :: "'a risk_instr_scheme \<Rightarrow> int \<times> int \<times> int" where
  "ri_limits r = (ri_long_volume_threshold r, ri_short_volume_threshold r, ri_net_volume_threshold r)"

definition rp_limits :: "risk_prd \<Rightarrow> int \<times> int \<times> int" where
  "rp_limits r = (rp_long_volume_threshold r, rp_short_volume_threshold r, rp_net_volume_threshold r)"

lemma RiskInstr_check_fits:
  assumes "RiskInstr_check ab dir off vol nano r = Inr 0" "ri_vol ab r = Inr v"
  shows "order_fits (ri_limits r) dir off vol v"
  using assms
  by (auto simp: RiskInstr_check_def order_fits_def ri_limits_def exp_defs
      RiskInstr_IsInstrumentLongVolumeCorrect_def RiskInstr_IsInstrumentShortVolumeCorrect_def
      RiskInstr_IsInstrumentNetVolumeCorrect_def split: if_splits)

lemma RiskPrd_check_fits:
  assumes "RiskPrd_check ab dir off vol r = Inr 0" "rp_vol ab r = Inr v"
  shows "order_fits (rp_limits r) dir off vol v"
  using assms
  by (auto simp: RiskPrd_check_def rp_vol_def order_fits_def rp_limits_def exp_defs Let_def
      RiskPrd_IsProductLongVolumeCorrect_def RiskPrd_IsProductShortVolumeCorrect_def
      RiskPrd_IsProductNetVolumeCorrect_def res_bind_Inr_iff split: if_splits)

lemma RiskAcc_check_count:
  assumes "RiskAcc_check ab dir off px vol vm r = Inr 0"
  shows "unfilled_order_cnt (ab_mod_acc ab) < unfilled_ord_cnt_threshold r"
  using assms
  by (auto simp: RiskAcc_check_def acc_ptr_def deref_def res_bind_Inr_iff Let_def
      RiskAcc_IsUnfilledOrderCountCorrect_def split: if_splits ptr.splits)

section \<open>Registering keeps the limits\<close>

text \<open>A configuration in which no pointer leads to a member that is missing.\<close>

definition conf_paths :: "string list list" where
  "conf_paths =
     [[''RiskForGeneral'', ''allowed_max_unfilled_order_number''],
      [''RiskForAccount'', ''allowed_long_amount''], [''RiskForAccount'', ''allowed_short_amount''],
      [''RiskForAccount'', ''allowed_net_amount''],
      [''RiskForProduct'', ''allowed_long_volume''], [''RiskForProduct'', ''allowed_short_volume''],
      [''RiskForProduct'', ''allowed_net_volume''], [''RiskForGeneral'', ''allowed_instrument''],
      [''RiskForOrder'', ''allowed_order_size''], [''RiskForOrder'', ''intensity_cycle_order_count''],
      [''RiskForOrder'', ''intensity_cycle_time_span''],
      [''RiskForInstrument'', ''allowed_long_volume''],
      [''RiskForInstrument'', ''allowed_short_volume''],
      [''RiskForInstrument'', ''allowed_net_volume''], [''RiskForOrder'', ''allowed_price_tick'']]"

definition conf_ok :: "json \<Rightarrow> bool" where
  "conf_ok j \<longleftrightarrow> list_all (\<lambda>p. \<not> isl (json_pointer j p)) conf_paths"

text \<open>
  The price margin is configured for every listed instrument. (Where it is not, \<^verbatim>\<open>init\<close> of the
  instrument fails before it links the object to the account, and the entry stays in the map.)
\<close>

definition margin_ok :: "instr_table \<Rightarrow> json \<Rightarrow> bool" where
  "margin_ok tb j \<longleftrightarrow> list_all (\<lambda>(h, info). \<exists>x. RiskInstrStg_read j info = Inr (Some x)) tb"

lemma conf_at_ok:
  "conf_ok j \<Longrightarrow> p \<in> set conf_paths \<Longrightarrow> \<exists>v. conf_at conv j p = Inr v"
  "conf_ok j \<Longrightarrow> p \<in> set conf_paths \<Longrightarrow> \<exists>v. conf_value conv j p a b = Inr v"
  by (cases "json_pointer j p"; force simp: conf_ok_def list_all_iff conf_at_def conf_value_def)+

text \<open>A chain of readings ends, and keeps what each assignment keeps.\<close>

definition reads :: "('s \<Rightarrow> bool) \<Rightarrow> (bool \<times> 's) res \<Rightarrow> bool" where
  "reads P r \<longleftrightarrow> (\<exists>b s. r = Inr (b, s) \<and> P s)"

lemma reads_step:
  "\<exists>v. r = Inr v \<Longrightarrow> P s \<Longrightarrow> (\<And>x s. P s \<Longrightarrow> P (upd x s)) \<Longrightarrow> (\<And>s. P s \<Longrightarrow> reads P (k s)) \<Longrightarrow>
   reads P (conf_step r upd k s)"
  by (auto simp: conf_step_def reads_def split: option.splits)

lemma reads_end: "P s \<Longrightarrow> reads P (Inr (True, s))"
  unfolding reads_def by blast

lemma RiskPrd_read_keeps:
  assumes "conf_ok j" "rp_p_unit_vol r = p"
  shows "reads (\<lambda>r. rp_p_unit_vol r = p) (RiskPrd_read j pname r)"
  unfolding RiskPrd_read_def
  by (rule reads_step, rule conf_at_ok [OF assms(1)], simp add: conf_paths_def,
      (rule assms(2) | assumption), simp)+
    (rule reads_end)

lemma RiskInstr_read_keeps:
  assumes "conf_ok j" "ri_p_unit_vol r = p"
  shows "reads (\<lambda>r. ri_p_unit_vol r = p) (RiskInstr_read j tb info r)"
  unfolding RiskInstr_read_def Let_def
  by (rule reads_step, rule conf_at_ok [OF assms(1)], simp add: conf_paths_def,
      (rule assms(2) | assumption), simp)+
    (rule reads_end)

lemma touch_present:
  "um_has k (ab_map_prd ab) \<Longrightarrow> touch_prd k ab = ab"
  "um_has k (ab_map_instr ab) \<Longrightarrow> touch_instr k ab = ab"
  by (auto simp: touch_prd_def touch_instr_def um_has_def)

lemma RiskPrd_init_ok:
  assumes "conf_ok j" "um_has (INSTR_NAME_TO_HASH pname) (ab_map_prd ab)"
  shows "\<exists>ok r'. RiskPrd_init j pname ab r = Inr (ok, r', ab) \<and>
     rp_p_unit_vol r' = PtrTo (INSTR_NAME_TO_HASH pname)"
  using RiskPrd_read_keeps [OF assms(1), of "r\<lparr>rp_p_unit_vol := PtrTo (INSTR_NAME_TO_HASH pname)\<rparr>"
      "PtrTo (INSTR_NAME_TO_HASH pname)" pname] touch_present(1) [OF assms(2)]
  by (auto simp: RiskPrd_init_def Let_def reads_def)

lemma RiskInstrStg_init_ok:
  assumes "conf_ok j" "RiskInstrStg_read j info = Inr (Some x)"
    and "um_has (ii_instr_hash info) (ab_map_instr ab)"
  shows "\<exists>ok r'. RiskInstrStg_init j tb info ab r = Inr (ok, r', ab) \<and>
     ri_p_unit_vol r' = PtrTo (ii_instr_hash info)"
proof -
  let ?r = "r\<lparr>allowed_price_margin_threshold := x * ii_tick_price info,
      ri_p_unit_vol := PtrTo (ii_instr_hash info)\<rparr>"
  have "reads (\<lambda>r. ri_p_unit_vol r = PtrTo (ii_instr_hash info)) (RiskInstr_read j tb info ?r)"
    by (rule RiskInstr_read_keeps [OF assms(1)]) simp
  then show ?thesis
    using touch_present(2) [OF assms(3)]
    by (auto simp: RiskInstrStg_init_def RiskInstr_init_def reads_def assms(2))
qed

section \<open>The invariant of the risk control\<close>

definition lims_of :: "('k, 'v) umap \<Rightarrow> ('v \<Rightarrow> int \<times> int \<times> int) \<Rightarrow> 'k \<Rightarrow> int \<times> int \<times> int" where
  "lims_of m f k = (case map_of m k of None \<Rightarrow> (0, 0, 0) | Some r \<Rightarrow> f r)"

definition risk_inv :: "instr_table \<Rightarrow> risk_stg \<Rightarrow> bool" where
  "risk_inv tb s \<longleftrightarrow>
     (let ab = rs_acc_base s in
      base_ok tb \<and> acc_inv ab \<and> acc_links tb ab \<and> conf_ok (rs_j_conf s) \<and>
      margin_ok tb (rs_j_conf s) \<and> ra_p_mod_acc (rs_risk_acc s) = PtrTo () \<and>
      (\<forall>h r. map_of (rs_map_risk_instr s) h = Some r \<longrightarrow>
         ri_p_unit_vol r = PtrTo h \<and> um_has h (ab_map_instr ab) \<and>
         (\<exists>info. map_of tb h = Some info \<and> um_has (ii_product_hash info) (rs_map_risk_prd s))) \<and>
      (\<forall>k rp. map_of (rs_map_risk_prd s) k = Some rp \<longrightarrow>
         rp_p_unit_vol rp = PtrTo k \<and> um_has k (ab_map_prd ab)) \<and>
      (\<forall>h. in_limits (lims_of (rs_map_risk_instr s) ri_limits h) (acc_vol h ab)) \<and>
      (\<forall>k. in_limits (lims_of (rs_map_risk_prd s) rp_limits k) (acc_prd_vol k ab)) \<and>
      unfilled_order_cnt (ab_mod_acc ab) \<le> max 0 (unfilled_ord_cnt_threshold (rs_risk_acc s)))"

lemma risk_invD:
  assumes "risk_inv tb s"
  shows "base_ok tb" "acc_inv (rs_acc_base s)" "acc_links tb (rs_acc_base s)"
    "conf_ok (rs_j_conf s)" "margin_ok tb (rs_j_conf s)" "ra_p_mod_acc (rs_risk_acc s) = PtrTo ()"
    and "map_of (rs_map_risk_instr s) h = Some r \<Longrightarrow>
         ri_p_unit_vol r = PtrTo h \<and> um_has h (ab_map_instr (rs_acc_base s)) \<and>
         (\<exists>info. map_of tb h = Some info \<and> um_has (ii_product_hash info) (rs_map_risk_prd s))"
    and "map_of (rs_map_risk_prd s) k = Some rp \<Longrightarrow>
         rp_p_unit_vol rp = PtrTo k \<and> um_has k (ab_map_prd (rs_acc_base s))"
    and "in_limits (lims_of (rs_map_risk_instr s) ri_limits h) (acc_vol h (rs_acc_base s))"
    and "in_limits (lims_of (rs_map_risk_prd s) rp_limits k) (acc_prd_vol k (rs_acc_base s))"
    and "unfilled_order_cnt (ab_mod_acc (rs_acc_base s)) \<le>
         max 0 (unfilled_ord_cnt_threshold (rs_risk_acc s))"
  using assms by (simp_all add: risk_inv_def Let_def)

lemma risk_invI:
  assumes "base_ok tb" "acc_inv (rs_acc_base s)" "acc_links tb (rs_acc_base s)"
    "conf_ok (rs_j_conf s)" "margin_ok tb (rs_j_conf s)" "ra_p_mod_acc (rs_risk_acc s) = PtrTo ()"
    and "\<And>h r. map_of (rs_map_risk_instr s) h = Some r \<Longrightarrow>
         ri_p_unit_vol r = PtrTo h \<and> um_has h (ab_map_instr (rs_acc_base s)) \<and>
         (\<exists>info. map_of tb h = Some info \<and> um_has (ii_product_hash info) (rs_map_risk_prd s))"
    and "\<And>k rp. map_of (rs_map_risk_prd s) k = Some rp \<Longrightarrow>
         rp_p_unit_vol rp = PtrTo k \<and> um_has k (ab_map_prd (rs_acc_base s))"
    and "\<And>h. in_limits (lims_of (rs_map_risk_instr s) ri_limits h) (acc_vol h (rs_acc_base s))"
    and "\<And>k. in_limits (lims_of (rs_map_risk_prd s) rp_limits k) (acc_prd_vol k (rs_acc_base s))"
    and "unfilled_order_cnt (ab_mod_acc (rs_acc_base s)) \<le>
         max 0 (unfilled_ord_cnt_threshold (rs_risk_acc s))"
  shows "risk_inv tb s"
  unfolding risk_inv_def Let_def using assms by blast

lemma in_limits_zero: "in_limits (0, 0, 0) v \<Longrightarrow> in_limits lims v"
  by (auto simp: in_limits_def split: prod.splits)

lemma in_limits_insert:
  "in_limits (lims_of m f h) v \<Longrightarrow> map_of m k = None \<Longrightarrow> in_limits (lims_of (AList.update k r m) f h) v"
  by (auto simp: lims_of_def intro: in_limits_zero split: if_splits)

text \<open>Each part of \<^verbatim>\<open>regInstr\<close> keeps the invariant, and the volumes and the count of orders.\<close>

definition same_vols :: "acc_base \<Rightarrow> acc_base \<Rightarrow> bool" where
  "same_vols ab ab' \<longleftrightarrow> (\<forall>j. acc_vol j ab' = acc_vol j ab) \<and> ab_mod_acc ab' = ab_mod_acc ab"

lemma same_vols_refl [simp]: "same_vols ab ab"
  by (simp add: same_vols_def)

lemma risk_inv_acc_reg:
  assumes inv: "risk_inv tb s" and info: "map_of tb h = Some info"
  obtains ab where "AccBase_regInstr tb (ii_instr info) (rs_acc_base s) = (True, ab)"
    "risk_inv tb (s\<lparr>rs_acc_base := ab\<rparr>)" "um_has h (ab_map_instr ab)"
    "um_has (ii_product_hash info) (ab_map_prd ab)" "same_vols (rs_acc_base s) ab"
proof -
  note D = risk_invD [OF inv]
  obtain ab where ab: "AccBase_regInstr tb (ii_instr info) (rs_acc_base s) = (True, ab)" "acc_inv ab"
    "um_has h (ab_map_instr ab)" "\<And>j. acc_vol j ab = acc_vol j (rs_acc_base s)"
    "ab_mod_acc ab = ab_mod_acc (rs_acc_base s)" "acc_grows (rs_acc_base s) ab"
    "um_has (ii_product_hash info) (ab_map_prd ab)"
    "acc_links tb (rs_acc_base s) \<Longrightarrow> acc_links tb ab"
    "\<And>k. acc_prd_vol k ab = acc_prd_vol k (rs_acc_base s)"
    by (rule regInstr_ok [OF D(1,2) info], rule that)
  have "risk_inv tb (s\<lparr>rs_acc_base := ab\<rparr>)"
    by (rule risk_invI) (use D ab in \<open>auto simp: acc_grows_def\<close>)
  moreover have "same_vols (rs_acc_base s) ab" unfolding same_vols_def using ab(4,5) by blast
  ultimately show ?thesis using ab(1,3,7) by (intro that)
qed

lemma risk_inv_prd_reg:
  assumes inv: "risk_inv tb s" and info: "map_of tb h = Some info"
    and has: "um_has (ii_product_hash info) (ab_map_prd (rs_acc_base s))"
  shows "\<exists>ok s2. (if RiskStg_isExistRiskPrd (ii_product_hash info) s then Inr (True, s)
        else RiskStg_regRiskPrd (ii_product info) s) = Inr (ok, s2) \<and> risk_inv tb s2 \<and>
      rs_acc_base s2 = rs_acc_base s \<and> um_has (ii_product_hash info) (rs_map_risk_prd s2)"
proof (cases "map_of (rs_map_risk_prd s) (ii_product_hash info)")
  case (Some rp)
  then show ?thesis using inv by (auto simp: RiskStg_isExistRiskPrd_def um_has_def)
next
  case None
  note D = risk_invD [OF inv]
  note B = base_okD [OF D(1) info]
  obtain ok r' where r: "RiskPrd_init (rs_j_conf s) (ii_product info) (rs_acc_base s) risk_prd_init =
      Inr (ok, r', rs_acc_base s)" "rp_p_unit_vol r' = PtrTo (ii_product_hash info)"
    using RiskPrd_init_ok [OF D(4), of "ii_product info" "rs_acc_base s" risk_prd_init] has B(2)
    by auto
  let ?s = "s\<lparr>rs_map_risk_prd := AList.update (ii_product_hash info) r' (rs_map_risk_prd s)\<rparr>"
  have "risk_inv tb ?s"
    by (rule risk_invI)
      (use D r(2) has None in \<open>auto simp: um_has_def in_limits_insert split: if_splits\<close>,
        fastforce simp: um_has_def)
  moreover have "(if RiskStg_isExistRiskPrd (ii_product_hash info) s then Inr (True, s)
        else RiskStg_regRiskPrd (ii_product info) s) = Inr (ok, ?s)"
    using None r(1) B(2)
    by (simp add: RiskStg_isExistRiskPrd_def RiskStg_regRiskPrd_def um_has_def)
  ultimately show ?thesis by (auto simp: um_has_def)
qed

lemma risk_inv_instr_reg:
  assumes inv: "risk_inv tb s" and info: "map_of tb h = Some info"
    and has: "um_has h (ab_map_instr (rs_acc_base s))"
    and prd: "um_has (ii_product_hash info) (rs_map_risk_prd s)"
  shows "\<exists>ok s2. (if RiskStg_isExistRiskInstr h s then Inr (True, s)
        else RiskStg_regRiskInstr tb (ii_instr info) s) = Inr (ok, s2) \<and> risk_inv tb s2 \<and>
      rs_acc_base s2 = rs_acc_base s \<and> um_has h (rs_map_risk_instr s2)"
proof (cases "map_of (rs_map_risk_instr s) h")
  case (Some r)
  then show ?thesis using inv by (auto simp: RiskStg_isExistRiskInstr_def um_has_def)
next
  case None
  note D = risk_invD [OF inv]
  note B = base_okD [OF D(1) info]
  obtain x where x: "RiskInstrStg_read (rs_j_conf s) info = Inr (Some x)"
    using D(5) info by (auto simp: margin_ok_def list_all_iff dest!: map_of_SomeD)
  obtain ok r' where r: "RiskInstrStg_init (rs_j_conf s) tb info (rs_acc_base s) risk_instr_stg_init =
      Inr (ok, r', rs_acc_base s)" "ri_p_unit_vol r' = PtrTo h"
    using RiskInstrStg_init_ok [OF D(4) x, of "rs_acc_base s" tb risk_instr_stg_init] has B(4) by auto
  let ?s = "s\<lparr>rs_map_risk_instr := AList.update h r' (rs_map_risk_instr s)\<rparr>"
  have "risk_inv tb ?s"
    by (rule risk_invI)
      (use D r(2) has prd info None in \<open>auto simp: in_limits_insert split: if_splits\<close>)
  moreover have "(if RiskStg_isExistRiskInstr h s then Inr (True, s)
        else RiskStg_regRiskInstr tb (ii_instr info) s) = Inr (ok, ?s)"
    using None r(1) B(1) info
    by (simp add: RiskStg_isExistRiskInstr_def RiskStg_regRiskInstr_def um_has_def)
  ultimately show ?thesis by (auto simp: um_has_def)
qed

lemma risk_inv_reg:
  assumes inv: "risk_inv tb s" and info: "map_of tb h = Some info"
  shows "\<exists>ok s2. RiskStg_regInstr tb (ii_instr info) s = Inr (ok, s2) \<and> risk_inv tb s2 \<and>
     same_vols (rs_acc_base s) (rs_acc_base s2) \<and> (ok \<longrightarrow> um_has h (rs_map_risk_instr s2))"
proof -
  note B = base_okD [OF risk_invD(1) [OF inv] info]
  obtain ab where ab: "AccBase_regInstr tb (ii_instr info) (rs_acc_base s) = (True, ab)"
    "risk_inv tb (s\<lparr>rs_acc_base := ab\<rparr>)" "um_has h (ab_map_instr ab)"
    "um_has (ii_product_hash info) (ab_map_prd ab)" "same_vols (rs_acc_base s) ab"
    by (rule risk_inv_acc_reg [OF inv info], rule that)
  let ?s1 = "s\<lparr>rs_acc_base := ab\<rparr>"
  obtain ok2 s2 where s2: "(if RiskStg_isExistRiskPrd (ii_product_hash info) ?s1 then Inr (True, ?s1)
        else RiskStg_regRiskPrd (ii_product info) ?s1) = Inr (ok2, s2)" "risk_inv tb s2"
    "rs_acc_base s2 = ab" "um_has (ii_product_hash info) (rs_map_risk_prd s2)"
    using risk_inv_prd_reg [OF ab(2) info] ab(4) by auto
  obtain ok3 s3 where s3: "(if RiskStg_isExistRiskInstr h s2 then Inr (True, s2)
        else RiskStg_regRiskInstr tb (ii_instr info) s2) = Inr (ok3, s3)" "risk_inv tb s3"
    "rs_acc_base s3 = ab" "um_has h (rs_map_risk_instr s3)"
    using risk_inv_instr_reg [OF s2(2) info _ s2(4)] ab(3) s2(3) by auto
  have "RiskStg_regInstr tb (ii_instr info) s = (if \<not> ok2 then Inr (False, s2) else Inr (ok3, s3))"
    unfolding RiskStg_regInstr_def ab(1) Let_def B(1) using info s2(1) s3(1) by simp
  with s2(2,3) s3(2-4) ab(5) show ?thesis by (cases ok2) auto
qed

text \<open>Two tests suffice for the loop that looks the instrument up.\<close>

lemma risk_inv_find:
  assumes inv: "risk_inv tb s" and info: "map_of tb h = Some info"
  shows "\<exists>found s1. RiskStg_find (Suc (Suc n)) tb info s = Inr (found, s1) \<and> risk_inv tb s1 \<and>
     same_vols (rs_acc_base s) (rs_acc_base s1) \<and> (\<forall>r. found = Some r \<longrightarrow> map_of (rs_map_risk_instr s1) h = Some r)"
proof -
  have h: "ii_instr_hash info = h" using base_okD(4) [OF risk_invD(1) [OF inv] info] .
  show ?thesis
  proof (cases "map_of (rs_map_risk_instr s) h")
    case (Some r)
    with inv h show ?thesis by simp
  next
    case None
    obtain ok s2 where s2: "RiskStg_regInstr tb (ii_instr info) s = Inr (ok, s2)" "risk_inv tb s2"
      "same_vols (rs_acc_base s) (rs_acc_base s2)" "ok \<longrightarrow> um_has h (rs_map_risk_instr s2)"
      using risk_inv_reg [OF inv info] by blast
    show ?thesis
    proof (cases ok)
      case True
      with s2(4) obtain r where "map_of (rs_map_risk_instr s2) h = Some r" by (auto simp: um_has_def)
      with None s2 True h show ?thesis by simp
    qed (use None s2 h in simp)
  qed
qed

text \<open>An offset an order may ask for: a definite one, or one the check chooses.\<close>

definition off_askable :: "int \<Rightarrow> bool" where
  "off_askable off \<longleftrightarrow> off_known off \<or> off = AT_CHAR_Auto \<or> off = AT_CHAR_Close"

lemma parseAutoOffset_known:
  assumes "RiskInstr_parseAutoOffset ab dir off vol r = Inr (0, off1)"
  shows "off_known off1"
  using assms
  by (auto simp: RiskInstr_parseAutoOffset_def res_bind_Inr_iff off_known_def split: if_splits)

lemma parseAutoOffset_total:
  "ri_vol ab r = Inr v \<Longrightarrow> \<exists>x. RiskInstr_parseAutoOffset ab dir off vol r = Inr x"
  by (simp add: RiskInstr_parseAutoOffset_def)

lemma RiskInstrStg_check_total:
  "ri_vol ab r = Inr v \<Longrightarrow> \<exists>x. RiskInstrStg_check ab dir off vol px ask bid nano r = Inr x"
  by (simp add: RiskInstrStg_check_def RiskInstr_check_def)

text \<open>A close the check chose fits the position that no other working order closes.\<close>

definition close_fits :: "int \<Rightarrow> int \<Rightarrow> int \<Rightarrow> unit_vol \<Rightarrow> bool" where
  "close_fits dir off n v \<longleftrightarrow>
     (dir = AT_CHAR_Buy \<and> off = AT_CHAR_CloseYesterday \<longrightarrow> pos_short_yd_cls_ing v + n \<le> pos_short_yd v) \<and>
     (dir = AT_CHAR_Buy \<and> off = AT_CHAR_CloseToday \<longrightarrow> pos_short_td_cls_ing v + n \<le> pos_short_td v) \<and>
     (dir = AT_CHAR_Sell \<and> off = AT_CHAR_CloseYesterday \<longrightarrow> pos_long_yd_cls_ing v + n \<le> pos_long_yd v) \<and>
     (dir = AT_CHAR_Sell \<and> off = AT_CHAR_CloseToday \<longrightarrow> pos_long_td_cls_ing v + n \<le> pos_long_td v)"

lemma parseAutoOffset_fits:
  assumes "RiskInstr_parseAutoOffset ab dir off vol r = Inr (0, off1)" "ri_vol ab r = Inr v"
  shows "close_fits dir off1 vol v"
  using assms by (auto simp: RiskInstr_parseAutoOffset_def close_fits_def split: if_splits)

text \<open>
  The check never faults, and the order it lets pass fits the limits of the instrument and of the
  product, with fewer open orders than allowed.
\<close>

lemma risk_inv_check:
  assumes inv: "risk_inv tb s" and info: "map_of tb h = Some (base_info subs)"
    and off: "off_askable off"
  shows "\<exists>ret off1 s1. RiskStg_check (Suc (Suc n)) tb dir off px vol subs s = Inr (ret, off1, s1) \<and>
     risk_inv tb s1 \<and> same_vols (rs_acc_base s) (rs_acc_base s1) \<and>
     (ret = 0 \<longrightarrow> (off = AT_CHAR_Auto \<or> off = AT_CHAR_Close \<longrightarrow>
          close_fits dir off1 vol (acc_vol h (rs_acc_base s1))) \<and>
        (off \<noteq> AT_CHAR_Auto \<and> off \<noteq> AT_CHAR_Close \<longrightarrow> off1 = off) \<and> off_known off1 \<and> um_has h (rs_map_risk_instr s1) \<and>
        order_fits (lims_of (rs_map_risk_instr s1) ri_limits h) dir off1 vol (acc_vol h (rs_acc_base s1)) \<and>
        order_fits (lims_of (rs_map_risk_prd s1) rp_limits (ii_product_hash (base_info subs))) dir off1
          vol (acc_prd_vol (ii_product_hash (base_info subs)) (rs_acc_base s1)) \<and>
        unfilled_order_cnt (ab_mod_acc (rs_acc_base s1)) < unfilled_ord_cnt_threshold (rs_risk_acc s1))"
proof -
  let ?info = "base_info subs"
  obtain found s1 where f: "RiskStg_find (Suc (Suc n)) tb ?info s = Inr (found, s1)" "risk_inv tb s1"
    and same: "same_vols (rs_acc_base s) (rs_acc_base s1)" and fr: "\<And>r. found = Some r \<Longrightarrow> map_of (rs_map_risk_instr s1) h = Some r"
    using risk_inv_find [OF inv info, of n] by blast
  note F = f(1) [simplified]
  show ?thesis
  proof (cases found)
    case None
    with f same show ?thesis by (simp add: RiskStg_check_def Let_def del: RiskStg_find.simps)
  next
    case (Some r)
    note D = risk_invD [OF f(2)]
    have r: "map_of (rs_map_risk_instr s1) h = Some r" using fr Some by simp
    let ?ab = "rs_acc_base s1" and ?tick = "lst_tick subs"
    obtain i where i: "map_of (ab_map_instr ?ab) h = Some i" and pr: "ri_p_unit_vol r = PtrTo h"
      using D(7) [OF r] by (auto simp: um_has_def)
    have v: "ri_vol ?ab r = Inr (acc_vol h ?ab)" using i pr by (simp add: ri_vol_def acc_vol_def)
    obtain rp where rp: "map_of (rs_map_risk_prd s1) (ii_product_hash ?info) = Some rp"
      using D(7) [OF r] info by (auto simp: um_has_def)
    obtain p where p: "map_of (ab_map_prd ?ab) (ii_product_hash ?info) = Some p"
      and pp: "rp_p_unit_vol rp = PtrTo (ii_product_hash ?info)"
      using D(8) [OF rp] by (auto simp: um_has_def)
    have w: "rp_vol ?ab rp = Inr (acc_prd_vol (ii_product_hash ?info) ?ab)"
      using p pp by (simp add: rp_vol_def acc_prd_vol_def)
    obtain ret0 off1 where o: "(if off = AT_CHAR_Auto \<or> off = AT_CHAR_Close
        then RiskInstr_parseAutoOffset ?ab dir off vol r else Inr (0, off)) = Inr (ret0, off1)"
      using parseAutoOffset_total [OF v, of dir off vol] by force
    have known: "ret0 = 0 \<Longrightarrow> off_known off1"
      using o off parseAutoOffset_known by (auto simp: off_askable_def split: if_splits)
    have closes: "close_fits dir off1 vol (acc_vol h ?ab)"
      if "ret0 = 0" "off = AT_CHAR_Auto \<or> off = AT_CHAR_Close"
      using o parseAutoOffset_fits [OF _ v] that by auto
    have asked: "off1 = off" if "off \<noteq> AT_CHAR_Auto" "off \<noteq> AT_CHAR_Close" using o that by simp
    obtain ret1 where c1: "RiskInstrStg_check ?ab dir off1 vol px (lt_ask_px ?tick) (lt_bid_px ?tick)
        (lt_exch_time ?tick) r = Inr ret1"
      using RiskInstrStg_check_total [OF v] by blast
    obtain ret2 where c2: "RiskPrd_check ?ab dir off1 vol rp = Inr ret2"
      by (auto simp: RiskPrd_check_def p pp)
    obtain ret3 where c3: "RiskAcc_check ?ab dir off1 px vol (ii_vol_multiple ?info) (rs_risk_acc s1) =
        Inr ret3"
      by (auto simp: RiskAcc_check_def acc_ptr_def D(6))
    have res: "RiskStg_check (Suc (Suc n)) tb dir off px vol subs s =
        Inr (if ret0 \<noteq> 0 then (ret0, off1, s1) else if ret1 \<noteq> 0 then (ret1, off1, s1)
             else if ret2 \<noteq> 0 then (ret2, off1, s1) else (ret3, off1, s1))"
      unfolding RiskStg_check_def Let_def f(1) using Some o c1 c2 c3 rp by simp
    have fits1: "order_fits (lims_of (rs_map_risk_instr s1) ri_limits h) dir off1 vol (acc_vol h ?ab)"
      if "ret1 = 0"
      using RiskInstr_check_fits [OF _ v] c1 that r
      by (auto simp: RiskInstrStg_check_def lims_of_def split: if_splits)
    have fits2: "order_fits (lims_of (rs_map_risk_prd s1) rp_limits (ii_product_hash ?info)) dir off1
        vol (acc_prd_vol (ii_product_hash ?info) ?ab)" if "ret2 = 0"
      using RiskPrd_check_fits [OF _ w] c2 that rp by (simp add: lims_of_def)
    have fits3: "ret3 = 0 \<Longrightarrow> unfilled_order_cnt (ab_mod_acc ?ab) <
        unfilled_ord_cnt_threshold (rs_risk_acc s1)"
      using RiskAcc_check_count c3 by simp
    have "um_has h (rs_map_risk_instr s1)" using r by (simp add: um_has_def)
    with res f(2) same known closes asked fits1 fits2 fits3 show ?thesis by auto
  qed
qed

section \<open>The callbacks keep the limits\<close>

lemma risk_inv_callback:
  assumes inv: "risk_inv tb s" and info: "map_of tb h = Some info"
    and mv: "\<And>c. live c \<Longrightarrow> moved c (act c)"
    and eff: "\<And>i p i' p' a'. act (mk_ctx i p (ab_mod_acc (rs_acc_base s))) = Inr (mk_ctx i' p' a') \<Longrightarrow>
      ins_ok i \<Longrightarrow> ins_vol i = acc_vol h (rs_acc_base s) \<Longrightarrow>
      prd_vol p = acc_prd_vol (ii_product_hash info) (rs_acc_base s) \<Longrightarrow>
      ins_ok i' \<and> unfilled_order_cnt a' \<le> max 0 (unfilled_ord_cnt_threshold (rs_risk_acc s)) \<and>
      in_limits (lims_of (rs_map_risk_instr s) ri_limits h) (ins_vol i') \<and>
      in_limits (lims_of (rs_map_risk_prd s) rp_limits (ii_product_hash info)) (prd_vol p')"
  shows "\<exists>ab. acc_on_instr tb h act (rs_acc_base s) = Inr ab \<and> risk_inv tb (s\<lparr>rs_acc_base := ab\<rparr>)"
proof -
  note D = risk_invD [OF inv]
  obtain i p i' p' a' t where r:
    "act (mk_ctx i p (ab_mod_acc (rs_acc_base s))) = Inr (mk_ctx i' p' a')"
    "acc_on_instr tb h act (rs_acc_base s) = Inr t"
    "ins_ok i" "ins_vol i = acc_vol h (rs_acc_base s)" "ins_vol i' = acc_vol h t" "ab_mod_acc t = a'"
    "\<And>j. j \<noteq> h \<Longrightarrow> acc_vol j t = acc_vol j (rs_acc_base s)" "ins_ok i' \<Longrightarrow> acc_inv t"
    "acc_grows (rs_acc_base s) t" "acc_links tb (rs_acc_base s) \<Longrightarrow> acc_links tb t"
    "acc_links tb (rs_acc_base s) \<Longrightarrow> prd_vol p = acc_prd_vol (ii_product_hash info) (rs_acc_base s)"
    "acc_links tb (rs_acc_base s) \<Longrightarrow> acc_prd_vol (ii_product_hash info) t = prd_vol p'"
    "\<And>k. acc_links tb (rs_acc_base s) \<Longrightarrow> k \<noteq> ii_product_hash info \<Longrightarrow>
       acc_prd_vol k t = acc_prd_vol k (rs_acc_base s)"
    by (rule acc_on_instr_run [OF D(1,2) info, of act], erule mv, rule that)
  note E = eff [OF r(1,3,4) r(11) [OF D(3)]]
  have "risk_inv tb (s\<lparr>rs_acc_base := t\<rparr>)"
  proof (rule risk_invI)
    fix j
    show "in_limits (lims_of (rs_map_risk_instr (s\<lparr>rs_acc_base := t\<rparr>)) ri_limits j)
        (acc_vol j (rs_acc_base (s\<lparr>rs_acc_base := t\<rparr>)))"
      using D(9) [of j] E r(5) r(7) [of j] by (cases "j = h") simp_all
    show "in_limits (lims_of (rs_map_risk_prd (s\<lparr>rs_acc_base := t\<rparr>)) rp_limits j)
        (acc_prd_vol j (rs_acc_base (s\<lparr>rs_acc_base := t\<rparr>)))"
      using D(10) [of j] E r(12) [OF D(3)] r(13) [OF D(3), of j]
      by (cases "j = ii_product_hash info") simp_all
  next
    fix j q assume "map_of (rs_map_risk_instr (s\<lparr>rs_acc_base := t\<rparr>)) j = Some q"
    with D(7) [of j q] r(9)
    show "ri_p_unit_vol q = PtrTo j \<and> um_has j (ab_map_instr (rs_acc_base (s\<lparr>rs_acc_base := t\<rparr>))) \<and>
        (\<exists>info. map_of tb j = Some info \<and>
           um_has (ii_product_hash info) (rs_map_risk_prd (s\<lparr>rs_acc_base := t\<rparr>)))"
      by (simp add: acc_grows_def)
  next
    fix k q assume "map_of (rs_map_risk_prd (s\<lparr>rs_acc_base := t\<rparr>)) k = Some q"
    with D(8) [of k q] r(9)
    show "rp_p_unit_vol q = PtrTo k \<and> um_has k (ab_map_prd (rs_acc_base (s\<lparr>rs_acc_base := t\<rparr>)))"
      by (simp add: acc_grows_def)
  qed (use D(1,3-6) E r(6,8,10) in simp_all)
  with r(2) show ?thesis by blast
qed

lemma risk_inv_not_listed:
  "map_of tb h = None \<Longrightarrow> acc_on_instr tb h act ab = Inr ab"
  by (simp add: acc_on_instr_def)

text \<open>Reports that make the account no more exposed, with the count of open orders not above.\<close>

lemma risk_inv_report:
  assumes inv: "risk_inv tb s"
    and mv: "\<And>c. live c \<Longrightarrow> moved c (act c)"
    and eff: "\<And>i p a i' p' a'. act (mk_ctx i p a) = Inr (mk_ctx i' p' a') \<Longrightarrow> ins_ok i \<Longrightarrow>
      ins_vol i = acc_vol h (rs_acc_base s) \<Longrightarrow>
      ins_ok i' \<and> unfilled_order_cnt a' \<le> unfilled_order_cnt a \<and>
      no_more_exposed (ins_vol i) (ins_vol i')"
  shows "\<exists>ab. acc_on_instr tb h act (rs_acc_base s) = Inr ab \<and> risk_inv tb (s\<lparr>rs_acc_base := ab\<rparr>)"
proof (cases "map_of tb h")
  case None
  with inv show ?thesis by (simp add: risk_inv_not_listed)
next
  case (Some info)
  note D = risk_invD [OF inv]
  show ?thesis
  proof (rule risk_inv_callback [OF inv Some mv])
    fix i p i' p' a'
    assume a: "act (mk_ctx i p (ab_mod_acc (rs_acc_base s))) = Inr (mk_ctx i' p' a')" "ins_ok i"
      "ins_vol i = acc_vol h (rs_acc_base s)"
      "prd_vol p = acc_prd_vol (ii_product_hash info) (rs_acc_base s)"
    note E = eff [OF a(1-3)]
    have "moves (mk_ctx i p (ab_mod_acc (rs_acc_base s))) (mk_ctx i' p' a')"
      using mv [OF live_mk, of i p "ab_mod_acc (rs_acc_base s)"] a(1) by (simp add: moved_def)
    note ch = exp_change_moves [OF this]
    have l1: "in_limits (lims_of (rs_map_risk_instr s) ri_limits h) (ins_vol i')"
      using in_limits_less [OF D(9) [of h, folded a(3)]] E by blast
    have l2: "in_limits (lims_of (rs_map_risk_prd s) rp_limits (ii_product_hash info)) (prd_vol p')"
      using in_limits_same [OF D(10) [of "ii_product_hash info", folded a(4)] _ ch] E by blast
    from E l1 l2 D(11) show "ins_ok i' \<and>
        unfilled_order_cnt a' \<le> max 0 (unfilled_ord_cnt_threshold (rs_risk_acc s)) \<and>
        in_limits (lims_of (rs_map_risk_instr s) ri_limits h) (ins_vol i') \<and>
        in_limits (lims_of (rs_map_risk_prd s) rp_limits (ii_product_hash info)) (prd_vol p')"
      by simp
  qed
qed

text \<open>A report of the exchange: the offset and direction of an order, and a volume that fits.\<close>

definition report_ok :: "order_track \<Rightarrow> rtn_msg \<Rightarrow> unit_vol \<Rightarrow> bool" where
  "report_ok t m v \<longleftrightarrow>
     dir_known (ot_dir t) \<and> off_known (ot_off t) \<and> 0 \<le> rm_vol m \<and> rtn_fits t m v"

lemma rtn_less_exposed:
  assumes act: "rtn_act t m (mk_ctx i p a) = Inr (mk_ctx i' p' a')"
    and ok: "report_ok t m (ins_vol i)"
  shows "unfilled_order_cnt a' \<le> unfilled_order_cnt a" "no_more_exposed (ins_vol i) (ins_vol i')"
proof -
  have k: "dir_known (ot_dir t)" "off_known (ot_off t)" "0 \<le> rm_vol m"
    using ok by (simp_all add: report_ok_def)
  let ?cxl = "if rm_msg_type m AND (ODS_REJECT OR ODS_MARKET_REJECT OR ODS_CANCELED) \<noteq> 0
      then ModInstr_onCxl (ot_dir t) (ot_off t) (ot_price t) (rm_vol m) (mk_ctx i p a)
      else Inr (mk_ctx i p a)"
  obtain d where d: "?cxl = Inr d" "(if rm_msg_type m AND ODS_EXECUTION \<noteq> 0
      then ModInstr_onTrd (ot_dir t) (ot_off t) (ot_price t) (ot_vol t) (ot_vol_traded t)
        (rm_price m) (rm_vol m) d else Inr d) = Inr (mk_ctx i' p' a')"
    using act unfolding rtn_act_def res_bind_Inr_iff by blast
  have "live d" using d(1) moved_live [OF moved_onCxl [OF live_mk]] by (auto split: if_splits)
  then obtain i1 p1 a1 where d1: "d = mk_ctx i1 p1 a1" by (auto simp: live_def)
  have s1: "unfilled_order_cnt a1 \<le> unfilled_order_cnt a" "no_more_exposed (ins_vol i) (ins_vol i1)"
    using d(1) cxl_vol [OF _ k(1,2)] cxl_no_more [OF k(3,1,2)]
    by (auto simp: d1 no_more_refl split: if_splits)
  have s2: "unfilled_order_cnt a' \<le> unfilled_order_cnt a1" "no_more_exposed (ins_vol i1) (ins_vol i')"
    using d(2) trd_vol [OF _ k(1,2)] trd_no_more [OF k(3,1,2)]
    by (auto simp: d1 no_more_refl split: if_splits)
  show "unfilled_order_cnt a' \<le> unfilled_order_cnt a" using s1 s2 by simp
  show "no_more_exposed (ins_vol i) (ins_vol i')" using no_more_trans s1 s2 by blast
qed

lemma risk_inv_rtn:
  assumes inv: "risk_inv tb s"
    and ok: "report_ok t m (acc_vol (ot_instr_hash t) (rs_acc_base s))"
  shows "\<exists>s1. RiskStg_onRtn tb t m s = Inr s1 \<and> risk_inv tb s1"
proof -
  have "\<exists>ab. acc_on_instr tb (ot_instr_hash t) (rtn_act t m) (rs_acc_base s) = Inr ab \<and>
      risk_inv tb (s\<lparr>rs_acc_base := ab\<rparr>)"
  proof (rule risk_inv_report [OF inv moved_rtn])
    fix i p a i' p' a'
    assume a: "rtn_act t m (mk_ctx i p a) = Inr (mk_ctx i' p' a')" "ins_ok i"
      "ins_vol i = acc_vol (ot_instr_hash t) (rs_acc_base s)"
    have "rtn_fits t m (ins_vol i)" using ok a(3) by (simp add: report_ok_def)
    from ins_ok_rtn [OF a(2) this a(1)] rtn_less_exposed [OF a(1) ok [folded a(3)]]
    show "ins_ok i' \<and> unfilled_order_cnt a' \<le> unfilled_order_cnt a \<and>
        no_more_exposed (ins_vol i) (ins_vol i')" by simp
  qed
  then show ?thesis by (auto simp: RiskStg_onRtn_def AccBase_onRtn_def)
qed

lemma risk_inv_tick:
  assumes inv: "risk_inv tb s"
  shows "\<exists>s1. RiskStg_onTickPx tb h px s = Inr s1 \<and> risk_inv tb s1"
proof -
  have "\<exists>ab. acc_on_instr tb h (ModInstr_onTickPx px) (rs_acc_base s) = Inr ab \<and>
      risk_inv tb (s\<lparr>rs_acc_base := ab\<rparr>)"
  proof (rule risk_inv_report [OF inv moved_onTickPx])
    fix i p a i' p' a'
    assume a: "ModInstr_onTickPx px (mk_ctx i p a) = Inr (mk_ctx i' p' a')" "ins_ok i"
    from ins_ok_tick [OF a(2,1)] tick_same_vol [OF a(1)]
    show "ins_ok i' \<and> unfilled_order_cnt a' \<le> unfilled_order_cnt a \<and>
        no_more_exposed (ins_vol i) (ins_vol i')" by (simp add: no_more_refl)
  qed
  then show ?thesis by (auto simp: RiskStg_onTickPx_def AccBase_onTickPx_def)
qed

text \<open>Booking an order the check let pass.\<close>

lemma onNew_limits [simp]:
  "ri_limits (RiskInstr_onNew nano r) = ri_limits r"
  "ri_p_unit_vol (RiskInstr_onNew nano r) = ri_p_unit_vol r"
  by (simp_all add: RiskInstr_onNew_def ri_limits_def Let_def)

lemma risk_inv_new:
  assumes inv: "risk_inv tb s" and info: "map_of tb h = Some info"
    and k: "dir_known dir" "off_known off" and reg: "um_has h (rs_map_risk_instr s)"
    and fits: "order_fits (lims_of (rs_map_risk_instr s) ri_limits h) dir off vol
        (acc_vol h (rs_acc_base s))"
      "order_fits (lims_of (rs_map_risk_prd s) rp_limits (ii_product_hash info)) dir off vol
        (acc_prd_vol (ii_product_hash info) (rs_acc_base s))"
      "unfilled_order_cnt (ab_mod_acc (rs_acc_base s)) < unfilled_ord_cnt_threshold (rs_risk_acc s)"
  shows "\<exists>s1. RiskStg_onNew tb dir off px vol h nano s = Inr s1 \<and> risk_inv tb s1"
proof -
  note D = risk_invD [OF inv]
  have "\<exists>ab. acc_on_instr tb h (ModInstr_onNew dir off px vol) (rs_acc_base s) = Inr ab \<and>
      risk_inv tb (s\<lparr>rs_acc_base := ab\<rparr>)"
  proof (rule risk_inv_callback [OF inv info moved_onNew])
    fix i p i' p' a'
    assume a: "ModInstr_onNew dir off px vol (mk_ctx i p (ab_mod_acc (rs_acc_base s))) =
        Inr (mk_ctx i' p' a')" "ins_ok i" "ins_vol i = acc_vol h (rs_acc_base s)"
      "prd_vol p = acc_prd_vol (ii_product_hash info) (rs_acc_base s)"
    have "moves (mk_ctx i p (ab_mod_acc (rs_acc_base s))) (mk_ctx i' p' a')"
      using moved_onNew [where c = "mk_ctx i p (ab_mod_acc (rs_acc_base s))" and dir = dir and
          off = off and px = px and vol = vol] a(1)
      by (simp add: moved_def)
    note ch = exp_change_moves [OF this]
    note nv = new_vol [OF a(1) k]
    have l1: "in_limits (lims_of (rs_map_risk_instr s) ri_limits h) (ins_vol i')"
      by (rule in_limits_new [OF D(9) [of h, folded a(3)] fits(1) [folded a(3)] k, where x = "ins_vol i"])
        (simp add: nv)
    have l2: "in_limits (lims_of (rs_map_risk_prd s) rp_limits (ii_product_hash info)) (prd_vol p')"
      by (rule in_limits_new [OF D(10) [of "ii_product_hash info", folded a(4)] fits(2) [folded a(4)] k,
            where x = "ins_vol i"])
        (simp add: ch nv)
    from ins_ok_new [OF a(2,1)] l1 l2 nv fits(3) show "ins_ok i' \<and>
        unfilled_order_cnt a' \<le> max 0 (unfilled_ord_cnt_threshold (rs_risk_acc s)) \<and>
        in_limits (lims_of (rs_map_risk_instr s) ri_limits h) (ins_vol i') \<and>
        in_limits (lims_of (rs_map_risk_prd s) rp_limits (ii_product_hash info)) (prd_vol p')"
      by simp
  qed
  then obtain ab where ab: "AccBase_onNew tb dir off px vol h (rs_acc_base s) = Inr ab"
    "risk_inv tb (s\<lparr>rs_acc_base := ab\<rparr>)"
    by (auto simp: AccBase_onNew_def)
  note E = risk_invD [OF ab(2)]
  obtain r where r: "map_of (rs_map_risk_instr s) h = Some r" using reg by (auto simp: um_has_def)
  let ?s1 = "s\<lparr>rs_acc_base := ab,
      rs_map_risk_instr := AList.update h (RiskInstr_onNew nano r) (rs_map_risk_instr s)\<rparr>"
  have lims: "lims_of (AList.update h (RiskInstr_onNew nano r) (rs_map_risk_instr s)) ri_limits j =
      lims_of (rs_map_risk_instr s) ri_limits j" for j
    using r by (simp add: lims_of_def)
  have "risk_inv tb ?s1"
    by (rule risk_invI) (use E r lims in \<open>auto split: if_splits\<close>)
  then show ?thesis using ab(1) r by (simp add: RiskStg_onNew_def Let_def)
qed

section \<open>The order path of a strategy\<close>

text \<open>
  What \<^verbatim>\<open>CStrategy::sendOrder\<close> uses of a strategy; \<open>send\<close> is the call of the trading helper, which
  returns the identity of the order.
\<close>

record strategy =
  st_do_trade :: bool
  st_instr_info_map :: "(u32, subs_instr_info) umap"
  st_risk_stg :: risk_stg

definition stg_sendOrder ::
    "(string \<Rightarrow> double \<Rightarrow> int \<Rightarrow> int \<Rightarrow> int \<Rightarrow> int \<Rightarrow> int \<Rightarrow> u32 \<Rightarrow> int) \<Rightarrow> nat \<Rightarrow> instr_table \<Rightarrow>
     u32 \<Rightarrow> double \<Rightarrow> int \<Rightarrow> int \<Rightarrow> int \<Rightarrow> int \<Rightarrow> strategy \<Rightarrow> (int \<times> strategy) res" where
  "stg_sendOrder send fuel tb h price vol dir off acc_idx s =
     (if \<not> st_do_trade s then Inr (-1, s)
      else case map_of (st_instr_info_map s) h of
        None \<Rightarrow> Inr (-1, s)
      | Some subs \<Rightarrow>
          res_bind (RiskStg_check fuel tb dir off price vol subs (st_risk_stg s))
            (\<lambda>(ret, off1, rs).
               if ret \<noteq> 0 then Inr (ret, s\<lparr>st_risk_stg := rs\<rparr>)
               else res_bind (RiskStg_onNew tb dir off1 price vol h (lt_exch_time (lst_tick subs)) rs)
                 (\<lambda>rs1. Inr (send (ii_instr (base_info subs)) price vol dir off1 acc_idx 0 h,
                             s\<lparr>st_risk_stg := rs1\<rparr>))))"

datatype stg_event =
    StgSend u32 double int int int int
  | StgRtn order_track rtn_msg
  | StgTick u32 double last_tick

text \<open>The parts of the handlers of reports and ticks that concern the risk control.\<close>

definition stg_risk :: "(risk_stg \<Rightarrow> risk_stg res) \<Rightarrow> strategy \<Rightarrow> strategy res" where
  "stg_risk f s = res_bind (f (st_risk_stg s)) (\<lambda>rs. Inr (s\<lparr>st_risk_stg := rs\<rparr>))"

definition stg_last_tick :: "u32 \<Rightarrow> last_tick \<Rightarrow> strategy \<Rightarrow> strategy" where
  "stg_last_tick h lt s =
     (case map_of (st_instr_info_map s) h of
        None \<Rightarrow> s
      | Some subs \<Rightarrow>
          s\<lparr>st_instr_info_map := AList.update h (subs\<lparr>lst_tick := lt\<rparr>) (st_instr_info_map s)\<rparr>)"

fun stg_step ::
    "(string \<Rightarrow> double \<Rightarrow> int \<Rightarrow> int \<Rightarrow> int \<Rightarrow> int \<Rightarrow> int \<Rightarrow> u32 \<Rightarrow> int) \<Rightarrow> nat \<Rightarrow> instr_table \<Rightarrow>
     stg_event \<Rightarrow> strategy \<Rightarrow> strategy res" where
  "stg_step send fuel tb (StgSend h price vol dir off acc_idx) s =
     res_bind (stg_sendOrder send fuel tb h price vol dir off acc_idx s) (\<lambda>(_, s1). Inr s1)"
| "stg_step send fuel tb (StgRtn t m) s = stg_risk (RiskStg_onRtn tb t m) s"
| "stg_step send fuel tb (StgTick h px lt) s =
     stg_risk (RiskStg_onTickPx tb h px) (stg_last_tick h lt s)"

fun stg_legal :: "stg_event \<Rightarrow> strategy \<Rightarrow> bool" where
  "stg_legal (StgSend h price vol dir off acc_idx) s \<longleftrightarrow> dir_known dir \<and> off_askable off"
| "stg_legal (StgRtn t m) s \<longleftrightarrow> report_ok t m (acc_vol (ot_instr_hash t) (rs_acc_base (st_risk_stg s)))"
| "stg_legal (StgTick h px lt) s \<longleftrightarrow> True"

definition stg_inv :: "instr_table \<Rightarrow> strategy \<Rightarrow> bool" where
  "stg_inv tb s \<longleftrightarrow> risk_inv tb (st_risk_stg s) \<and>
     (\<forall>h subs. map_of (st_instr_info_map s) h = Some subs \<longrightarrow> map_of tb h = Some (base_info subs))"

lemma stg_risk_ok:
  "stg_inv tb s \<Longrightarrow> \<exists>r. f (st_risk_stg s) = Inr r \<and> risk_inv tb r \<Longrightarrow>
   \<exists>t. stg_risk f s = Inr t \<and> stg_inv tb t"
  by (auto simp: stg_risk_def stg_inv_def)

lemma stg_send_ok:
  assumes inv: "stg_inv tb s" and k: "dir_known dir" "off_askable off"
  shows "\<exists>ret t. stg_sendOrder send (Suc (Suc n)) tb h price vol dir off acc_idx s = Inr (ret, t) \<and>
     stg_inv tb t"
proof (cases "st_do_trade s")
  case False
  with inv show ?thesis by (simp add: stg_sendOrder_def)
next
  case True
  show ?thesis
  proof (cases "map_of (st_instr_info_map s) h")
    case None
    with inv show ?thesis by (simp add: stg_sendOrder_def)
  next
    case (Some subs)
    have info: "map_of tb h = Some (base_info subs)" and ri: "risk_inv tb (st_risk_stg s)"
      using inv Some by (simp_all add: stg_inv_def)
    obtain ret off1 rs where c: "RiskStg_check (Suc (Suc n)) tb dir off price vol subs (st_risk_stg s) =
        Inr (ret, off1, rs)" "risk_inv tb rs"
      and z: "ret = 0 \<longrightarrow> off_known off1 \<and> um_has h (rs_map_risk_instr rs) \<and>
        order_fits (lims_of (rs_map_risk_instr rs) ri_limits h) dir off1 vol (acc_vol h (rs_acc_base rs)) \<and>
        order_fits (lims_of (rs_map_risk_prd rs) rp_limits (ii_product_hash (base_info subs))) dir off1
          vol (acc_prd_vol (ii_product_hash (base_info subs)) (rs_acc_base rs)) \<and>
        unfilled_order_cnt (ab_mod_acc (rs_acc_base rs)) < unfilled_ord_cnt_threshold (rs_risk_acc rs)"
      using risk_inv_check [OF ri info k(2), of n dir price vol] by blast
    show ?thesis
    proof (cases "ret = 0")
      case False
      with True Some c inv show ?thesis by (simp add: stg_sendOrder_def stg_inv_def)
    next
      case zero: True
      with z have z': "off_known off1" "um_has h (rs_map_risk_instr rs)"
        "order_fits (lims_of (rs_map_risk_instr rs) ri_limits h) dir off1 vol (acc_vol h (rs_acc_base rs))"
        "order_fits (lims_of (rs_map_risk_prd rs) rp_limits (ii_product_hash (base_info subs))) dir off1
          vol (acc_prd_vol (ii_product_hash (base_info subs)) (rs_acc_base rs))"
        "unfilled_order_cnt (ab_mod_acc (rs_acc_base rs)) < unfilled_ord_cnt_threshold (rs_risk_acc rs)"
        by simp_all
      obtain rs1 where n: "RiskStg_onNew tb dir off1 price vol h (lt_exch_time (lst_tick subs)) rs =
          Inr rs1" "risk_inv tb rs1"
        using risk_inv_new [OF c(2) info k(1) z'] by blast
      with True Some c zero inv show ?thesis by (simp add: stg_sendOrder_def stg_inv_def)
    qed
  qed
qed

lemma stg_step_ok:
  assumes inv: "stg_inv tb s" and legal: "stg_legal e s" and fuel: "2 \<le> fuel"
  shows "\<exists>t. stg_step send fuel tb e s = Inr t \<and> stg_inv tb t"
proof -
  obtain n where n: "fuel = Suc (Suc n)" using fuel by (metis add_2_eq_Suc le_Suc_ex)
  have ri: "risk_inv tb (st_risk_stg s)" using inv by (simp add: stg_inv_def)
  show ?thesis
  proof (cases e)
    case (StgSend h price vol dir off acc_idx)
    with stg_send_ok [OF inv, of dir off send n h price vol acc_idx] legal n show ?thesis by auto
  next
    case (StgRtn t m)
    with stg_risk_ok [OF inv, of "RiskStg_onRtn tb t m"] risk_inv_rtn [OF ri, of t m] legal
    show ?thesis by simp
  next
    case (StgTick h px lt)
    have "stg_inv tb (stg_last_tick h lt s)" "st_risk_stg (stg_last_tick h lt s) = st_risk_stg s"
      using inv by (auto simp: stg_last_tick_def stg_inv_def split: option.splits)
    with stg_risk_ok [of tb "stg_last_tick h lt s" "RiskStg_onTickPx tb h px"] risk_inv_tick [OF ri, of h px]
    show ?thesis by (simp add: StgTick)
  qed
qed

interpretation strategy: guarded_machine "stg_step send (Suc (Suc n)) tb" stg_legal "stg_inv tb"
    for send n tb
  by unfold_locales (rule stg_step_ok, simp_all)

text \<open>A strategy at the start: a fresh account, thresholds read, instruments subscribed.\<close>

definition strategy_start :: "json \<Rightarrow> risk_acc \<Rightarrow> (u32, subs_instr_info) umap \<Rightarrow> strategy" where
  "strategy_start j ra subs =
     \<lparr>st_do_trade = True, st_instr_info_map = subs,
      st_risk_stg = risk_stg_init\<lparr>rs_j_conf := j, rs_risk_acc := ra\<rparr>\<rparr>"

lemma stg_inv_start:
  assumes "base_ok tb" "conf_ok j" "margin_ok tb j" "ra_p_mod_acc ra = PtrTo ()"
    and "\<And>h s. map_of subs h = Some s \<Longrightarrow> map_of tb h = Some (base_info s)"
  shows "stg_inv tb (strategy_start j ra subs)"
proof -
  have "risk_inv tb (risk_stg_init\<lparr>rs_j_conf := j, rs_risk_acc := ra\<rparr>)"
    by (rule risk_invI)
      (use assms(1-4) in \<open>auto simp: risk_stg_init_def acc_links_def acc_base_init_def lims_of_def
         in_limits_def acc_vol_def acc_prd_vol_def unit_vol_init_def exp_defs mod_acc_init_def
         acc_inv_init [unfolded acc_base_init_def mod_acc_init_def]\<close>)
  with assms(5) show ?thesis by (simp add: stg_inv_def strategy_start_def)
qed

end
