(* ===== verification/Risk_Properties.thy ===== *)
theory Risk_Properties
  imports Risk_Limits Account_Properties
begin

text \<open>
  What the risk control of a strategy and of the account at the broker guarantee, and where they
  do not: the limits hold along every run of the order path, the offset chosen for an order fits
  the position, the limiter of the order rate, no order crosses a working one, and the ways in
  which a day switch, a full vector or an inconsistent table end a run.
\<close>

section \<open>An example\<close>

definition conf_default :: "json \<Rightarrow> json" where
  "conf_default v = JObj [(''default'', v)]"

definition if_conf :: json where
  "if_conf = JObj
     [(''RiskForGeneral'', JObj [(''allowed_max_unfilled_order_number'', JInt 10),
        (''allowed_instrument'', JArr [JStr ''IF''])]),
      (''RiskForAccount'', JObj [(''allowed_long_amount'', JFloat 100000000),
        (''allowed_short_amount'', JFloat 100000000), (''allowed_net_amount'', JFloat 100000000)]),
      (''RiskForProduct'', JObj [(''allowed_long_volume'', conf_default (JInt 5)),
        (''allowed_short_volume'', conf_default (JInt 5)),
        (''allowed_net_volume'', conf_default (JInt 5))]),
      (''RiskForOrder'', JObj [(''allowed_order_size'', conf_default (JInt 3)),
        (''intensity_cycle_order_count'', conf_default (JInt 100)),
        (''intensity_cycle_time_span'', conf_default (JFloat 1)),
        (''allowed_price_tick'', conf_default (JFloat 10))]),
      (''RiskForInstrument'', JObj [(''allowed_long_volume'', conf_default (JInt 4)),
        (''allowed_short_volume'', conf_default (JInt 4)),
        (''allowed_net_volume'', conf_default (JInt 4))])]"

definition if_subs :: "(u32, subs_instr_info) umap" where
  "if_subs = [(INSTR_NAME_TO_HASH ''IF2206'', \<lparr>base_info = if_info, lst_tick = last_tick_init\<rparr>)]"

definition if_risk_acc :: risk_acc where
  "if_risk_acc = \<lparr>unfilled_ord_cnt_threshold = 10, amt_long_threshold = 100000000,
     amt_short_threshold = 100000000, net_amt_threshold = 100000000, ra_p_mod_acc = PtrTo ()\<rparr>"

lemma if_conf_ok [simp]: "conf_ok if_conf" "margin_ok (tb_instr_info if_base) if_conf"
  by (simp_all add: conf_ok_def conf_paths_def if_conf_def margin_ok_def if_base_def
      RiskInstrStg_read_def getValue_def conf_default_def json_find_def)

section \<open>The order path of a strategy\<close>

text \<open>
  C2. Along every run of orders sent by a strategy, reports of the exchange and ticks, from a fresh
  account under a complete configuration, no fault occurs, and however orders and reports
  interleave: position plus working open orders of every registered instrument stay within its
  long and short volume limits, the net position stays within the net limit even if all working
  orders of one side trade and none of the other, and the number of unfilled orders stays within
  its limit. (A negative limit refuses every order and counts as zero.)
\<close>

theorem strategy_stays_within_limits:
  assumes "base_ok tb" "conf_ok j" "margin_ok tb j" "ra_p_mod_acc ra = PtrTo ()"
    and "\<forall>h sub. map_of subs h = Some sub \<longrightarrow> map_of tb h = Some (base_info sub)"
    and "legal_run (stg_step send (Suc (Suc n)) tb) stg_legal es (strategy_start j ra subs)"
  shows "\<exists>s. run_steps (stg_step send (Suc (Suc n)) tb) es (strategy_start j ra subs) = Inr s \<and>
    (\<forall>h r v. map_of (rs_map_risk_instr (st_risk_stg s)) h = Some r \<longrightarrow>
       v = acc_vol h (rs_acc_base (st_risk_stg s)) \<longrightarrow>
       pos_long v + pos_long_td_opn_ing v \<le> max 0 (ri_long_volume_threshold r) \<and>
       pos_short v + pos_short_td_opn_ing v \<le> max 0 (ri_short_volume_threshold r) \<and>
       pos_long v - pos_short v + pos_long_td_opn_ing v + pos_short_yd_cls_ing v +
         pos_short_td_cls_ing v \<le> max 0 (ri_net_volume_threshold r) \<and>
       pos_short v - pos_long v + pos_short_td_opn_ing v + pos_long_yd_cls_ing v +
         pos_long_td_cls_ing v \<le> max 0 (ri_net_volume_threshold r)) \<and>
    unfilled_order_cnt (ab_mod_acc (rs_acc_base (st_risk_stg s))) \<le>
      max 0 (unfilled_ord_cnt_threshold (rs_risk_acc (st_risk_stg s)))"
proof -
  have "stg_inv tb (strategy_start j ra subs)"
    by (rule stg_inv_start) (use assms(1-5) in auto)
  from strategy.run_inv [OF this assms(6)] obtain s where
    s: "run_steps (stg_step send (Suc (Suc n)) tb) es (strategy_start j ra subs) = Inr s"
      "risk_inv tb (st_risk_stg s)"
    by (auto simp: stg_inv_def)
  note D = risk_invD(9,11) [OF s(2)]
  have "in_limits (ri_limits r) (acc_vol h (rs_acc_base (st_risk_stg s)))"
    if "map_of (rs_map_risk_instr (st_risk_stg s)) h = Some r" for h r
    using D(1) [of h] that by (simp add: lims_of_def)
  with s(1) D(2) show ?thesis
    by (auto simp: in_limits_def ri_limits_def exp_defs add.assoc add.commute add.left_commute)
qed

definition if_orders :: "stg_event list" where
  "if_orders =
     [StgTick (INSTR_NAME_TO_HASH ''IF2206'') 4000 (last_tick_init\<lparr>lt_ask_px := 4001, lt_bid_px := 3999\<rparr>),
      StgSend (INSTR_NAME_TO_HASH ''IF2206'') 4000 2 AT_CHAR_Buy AT_CHAR_Auto 0,
      StgRtn (if_track ODS_EXECUTION 1) (if_rtn ODS_EXECUTION 1),
      StgSend (INSTR_NAME_TO_HASH ''IF2206'') 4000 3 AT_CHAR_Buy AT_CHAR_Open 0]"

lemma if_orders_legal:
  "legal_run (stg_step send (Suc (Suc n)) tb) stg_legal if_orders s"
  by (simp add: if_orders_def dir_known_def off_known_def off_askable_def report_ok_def
      rtn_fits_def trd_fits_def if_track_def if_rtn_def split: sum.splits)

lemma if_start:
  "ra_p_mod_acc if_risk_acc = PtrTo ()"
  "\<forall>h sub. map_of if_subs h = Some sub \<longrightarrow> map_of (tb_instr_info if_base) h = Some (base_info sub)"
  by (simp add: if_risk_acc_def) (auto simp: if_subs_def if_base_def split: if_splits)

theorem strategy_stays_within_limits_witness:
  "\<exists>s. run_steps (stg_step (\<lambda>_ _ _ _ _ _ _ _. 1) (Suc (Suc 0)) (tb_instr_info if_base)) if_orders
      (strategy_start if_conf if_risk_acc if_subs) = Inr s \<and>
    unfilled_order_cnt (ab_mod_acc (rs_acc_base (st_risk_stg s))) \<le>
      max 0 (unfilled_ord_cnt_threshold (rs_risk_acc (st_risk_stg s)))"
  using strategy_stays_within_limits [OF if_base_ok if_conf_ok if_start if_orders_legal] by blast

text \<open>
  C10. An order passes the check of a strategy (result 0) only if every rule of \<^verbatim>\<open>RiskInstrStg::check\<close>,
  \<^verbatim>\<open>RiskPrd::check\<close> and \<^verbatim>\<open>RiskAcc::check\<close> holds for the offset the check settled on: the instrument is
  allowed, the size and the rate of orders are within their limits, the price is not further outside the
  book than the margin, the position limits (long, short and net) of instrument and product hold with the
  order added, and the account has room for one more open order, for its amount on its side when it opens,
  and in the net amount, counted with the closing orders of the short side in either direction, as
  \<^verbatim>\<open>IsNetAmountCorrect\<close> counts.
\<close>

theorem passed_check_meets_every_rule:
  assumes "RiskStg_check fuel tb dir off px vol sub s = Inr (0, off1, t)"
  shows "\<exists>r v rp pv a. RiskStg_find fuel tb (base_info sub) s = Inr (Some r, t) \<and>
    ri_vol (rs_acc_base t) r = Inr v \<and>
    map_of (rs_map_risk_prd t) (ii_product_hash (base_info sub)) = Some rp \<and>
    rp_vol (rs_acc_base t) rp = Inr pv \<and>
    acc_ptr (rs_acc_base t) (ra_p_mod_acc (rs_risk_acc t)) = Inr a \<and>
    is_allowed r \<and> vol \<le> allowed_order_size_threshold r \<and>
    RiskInstr_IsIntensityNormal (lt_exch_time (lst_tick sub)) r \<and>
    RiskInstrStg_IsPriceCorrect px (lt_ask_px (lst_tick sub)) (lt_bid_px (lst_tick sub)) r \<and>
    order_fits (ri_limits r) dir off1 vol v \<and> order_fits (rp_limits rp) dir off1 vol pv \<and>
    unfilled_order_cnt a < unfilled_ord_cnt_threshold (rs_risk_acc t) \<and>
    (off1 = AT_CHAR_Open \<and> dir = AT_CHAR_Buy \<longrightarrow>
       amt_long (acc_amt a) + amt_long_td_add_ing (acc_amt a) +
         px * of_int vol * of_int (ii_vol_multiple (base_info sub)) \<le> amt_long_threshold (rs_risk_acc t)) \<and>
    (off1 = AT_CHAR_Open \<and> dir \<noteq> AT_CHAR_Buy \<longrightarrow>
       amt_short (acc_amt a) + amt_short_td_add_ing (acc_amt a) +
         px * of_int vol * of_int (ii_vol_multiple (base_info sub)) \<le> amt_short_threshold (rs_risk_acc t)) \<and>
    (if dir = AT_CHAR_Buy
     then amt_long (acc_amt a) - amt_short (acc_amt a) + amt_long_td_add_ing (acc_amt a)
     else amt_short (acc_amt a) - amt_long (acc_amt a) + amt_short_td_add_ing (acc_amt a)) +
      amt_short_yd_sub_ing (acc_amt a) + amt_short_td_sub_ing (acc_amt a) +
      px * of_int vol * of_int (ii_vol_multiple (base_info sub)) \<le> net_amt_threshold (rs_risk_acc t)"
proof -
  obtain r rp where r: "RiskStg_find fuel tb (base_info sub) s = Inr (Some r, t)"
    and c1: "RiskInstrStg_check (rs_acc_base t) dir off1 vol px (lt_ask_px (lst_tick sub))
      (lt_bid_px (lst_tick sub)) (lt_exch_time (lst_tick sub)) r = Inr 0"
    and rp: "map_of (rs_map_risk_prd t) (ii_product_hash (base_info sub)) = Some rp"
    and c2: "RiskPrd_check (rs_acc_base t) dir off1 vol rp = Inr 0"
    and c3: "RiskAcc_check (rs_acc_base t) dir off1 px vol (ii_vol_multiple (base_info sub))
      (rs_risk_acc t) = Inr 0"
    using assms by (auto simp: RiskStg_check_def Let_def res_bind_Inr_iff split: option.splits if_splits)
  have c1': "RiskInstr_check (rs_acc_base t) dir off1 vol (lt_exch_time (lst_tick sub)) r = Inr 0"
    "RiskInstrStg_IsPriceCorrect px (lt_ask_px (lst_tick sub)) (lt_bid_px (lst_tick sub)) r"
    using c1 by (simp_all add: RiskInstrStg_check_def split: if_splits)
  then obtain v where v: "ri_vol (rs_acc_base t) r = Inr v" "is_allowed r"
    "vol \<le> allowed_order_size_threshold r" "RiskInstr_IsIntensityNormal (lt_exch_time (lst_tick sub)) r"
    by (auto simp: RiskInstr_check_def RiskInstr_IsSizeCorrect_def res_bind_Inr_iff split: if_splits)
  obtain pv where pv: "rp_vol (rs_acc_base t) rp = Inr pv"
    using c2 by (auto simp: RiskPrd_check_def rp_vol_def res_bind_Inr_iff)
  obtain a where a: "acc_ptr (rs_acc_base t) (ra_p_mod_acc (rs_risk_acc t)) = Inr a"
    using c3 by (auto simp: RiskAcc_check_def res_bind_Inr_iff)
  from c3 have "unfilled_order_cnt a < unfilled_ord_cnt_threshold (rs_risk_acc t)"
    "off1 = AT_CHAR_Open \<and> dir = AT_CHAR_Buy \<longrightarrow> RiskAcc_IsLongAmountCorrect (acc_amt a)
       (px * of_int vol * of_int (ii_vol_multiple (base_info sub))) (rs_risk_acc t)"
    "off1 = AT_CHAR_Open \<and> dir \<noteq> AT_CHAR_Buy \<longrightarrow> RiskAcc_IsShortAmountCorrect (acc_amt a)
       (px * of_int vol * of_int (ii_vol_multiple (base_info sub))) (rs_risk_acc t)"
    "RiskAcc_IsNetAmountCorrect (acc_amt a) dir
       (px * of_int vol * of_int (ii_vol_multiple (base_info sub))) (rs_risk_acc t)"
    by (auto simp: RiskAcc_check_def a Let_def RiskAcc_IsUnfilledOrderCountCorrect_def split: if_splits)
  with r a v rp pv c1' RiskInstr_check_fits [OF c1'(1) v(1)] RiskPrd_check_fits [OF c2 pv]
  show ?thesis
    by (simp add: RiskAcc_IsLongAmountCorrect_def RiskAcc_IsShortAmountCorrect_def
        RiskAcc_IsNetAmountCorrect_def split: if_splits)
qed

text \<open>A strategy that holds one lot, with its risk objects registered.\<close>

definition if_ri :: risk_instr_stg where
  "if_ri = risk_instr_stg_init
     \<lparr>ri_p_unit_vol := PtrTo (INSTR_NAME_TO_HASH ''IF2206''), is_allowed := True,
      allowed_order_size_threshold := 3, intensity_cycle_order_count_threshold := 100,
      ri_long_volume_threshold := 4, ri_short_volume_threshold := 4, ri_net_volume_threshold := 4,
      allowed_price_margin_threshold := 2\<rparr>"

definition if_rp :: risk_prd where
  "if_rp = risk_prd_init
     \<lparr>rp_p_unit_vol := PtrTo (INSTR_NAME_TO_HASH ''IF''), rp_long_volume_threshold := 5,
      rp_short_volume_threshold := 5, rp_net_volume_threshold := 5\<rparr>"

definition if_risk :: risk_stg where
  "if_risk = risk_stg_init
     \<lparr>rs_j_conf := if_conf, rs_map_risk_instr := [(INSTR_NAME_TO_HASH ''IF2206'', if_ri)],
      rs_map_risk_prd := [(INSTR_NAME_TO_HASH ''IF'', if_rp)], rs_risk_acc := if_risk_acc,
      rs_acc_base := if_acc_end\<rparr>"

definition if_sub :: subs_instr_info where
  "if_sub = \<lparr>base_info = if_info, lst_tick = last_tick_init\<lparr>lt_ask_px := 4001, lt_bid_px := 3999\<rparr>\<rparr>"

lemma if_ri_vol: "ri_vol if_acc_end if_ri = Inr (ins_vol if_instr_end)"
  by (simp add: ri_vol_def if_ri_def if_end_entries risk_instr_stg_init_def risk_instr.defs)

lemma if_rp_vol: "rp_vol if_acc_end if_rp = Inr (prd_vol if_prd_end)"
  by (simp add: rp_vol_def if_rp_def if_end_entries)

lemma if_check_passes:
  "RiskStg_check 1 tb AT_CHAR_Buy AT_CHAR_Auto 4000 2 if_sub if_risk = Inr (0, AT_CHAR_Open, if_risk)"
proof -
  have f: "RiskStg_find 1 tb if_info if_risk = Inr (Some if_ri, if_risk)"
    by (simp add: if_risk_def if_info_def)
  have a: "rs_acc_base if_risk = if_acc_end" "rs_risk_acc if_risk = if_risk_acc"
      "map_of (rs_map_risk_prd if_risk) (INSTR_NAME_TO_HASH ''IF'') = Some if_rp"
      "base_info if_sub = if_info" "ii_product_hash if_info = INSTR_NAME_TO_HASH ''IF''"
    by (simp_all add: if_risk_def if_sub_def if_info_def)
  have o: "RiskInstr_parseAutoOffset if_acc_end AT_CHAR_Buy AT_CHAR_Auto 2 if_ri = Inr (0, AT_CHAR_Open)"
    by (simp add: RiskInstr_parseAutoOffset_def if_ri_vol if_instr_end_def unit_vol_init_def)
      (simp add: if_ri_def)
  have c1: "RiskInstrStg_check if_acc_end AT_CHAR_Buy AT_CHAR_Open 2 4000 4001 3999 0 if_ri = Inr 0"
    by (simp add: RiskInstrStg_check_def RiskInstrStg_IsPriceCorrect_def RiskInstr_check_def if_ri_vol
        RiskInstr_IsSizeCorrect_def RiskInstr_IsIntensityNormal_def
        RiskInstr_IsInstrumentLongVolumeCorrect_def RiskInstr_IsInstrumentNetVolumeCorrect_def
        if_instr_end_def unit_vol_init_def)
      (simp add: if_ri_def risk_instr_stg_init_def risk_instr_init_def risk_instr.defs)
  have c2: "RiskPrd_check if_acc_end AT_CHAR_Buy AT_CHAR_Open 2 if_rp = Inr 0"
    by (simp add: RiskPrd_check_def if_rp_def if_end_entries RiskPrd_IsProductLongVolumeCorrect_def
        RiskPrd_IsProductNetVolumeCorrect_def if_prd_end_def unit_vol_init_def)
  have c3: "RiskAcc_check if_acc_end AT_CHAR_Buy AT_CHAR_Open 4000 2 300 if_risk_acc = Inr 0"
    by (simp add: RiskAcc_check_def if_risk_acc_def acc_ptr_def deref_def if_acc_end_def
        RiskAcc_IsUnfilledOrderCountCorrect_def RiskAcc_IsLongAmountCorrect_def
        RiskAcc_IsNetAmountCorrect_def mod_acc_init_def unit_amt_init_def)
  have t: "lt_ask_px (lst_tick if_sub) = 4001" "lt_bid_px (lst_tick if_sub) = 3999"
      "lt_exch_time (lst_tick if_sub) = 0" "ii_vol_multiple if_info = 300"
    by (simp_all add: if_sub_def last_tick_init_def if_info_def)
  show ?thesis
    by (simp add: RiskStg_check_def f [unfolded One_nat_def] a o c1 c2 c3 t Let_def
        del: RiskStg_find.simps)
qed

theorem passed_check_meets_every_rule_witness:
  "order_fits (4, 4, 4) AT_CHAR_Buy AT_CHAR_Open 2 (ins_vol if_instr_end) \<and>
   order_fits (5, 5, 5) AT_CHAR_Buy AT_CHAR_Open 2 (prd_vol if_prd_end)"
proof -
  have v: "rp_vol (rs_acc_base if_risk) if_rp = Inr (prd_vol if_prd_end)"
    "ri_vol (rs_acc_base if_risk) if_ri = Inr (ins_vol if_instr_end)"
    by (simp_all add: if_risk_def if_rp_vol if_ri_vol)
  have m: "map_of (rs_map_risk_prd if_risk) (ii_product_hash (base_info if_sub)) = Some if_rp"
    by (simp add: if_risk_def if_sub_def if_info_def)
  have f: "RiskStg_find 1 tb (base_info if_sub) if_risk = Inr (Some if_ri, if_risk)" for tb
    by (simp add: if_risk_def if_sub_def if_info_def)
  have l: "ri_limits if_ri = (4, 4, 4)" "rp_limits if_rp = (5, 5, 5)"
    by (simp_all add: ri_limits_def rp_limits_def if_ri_def if_rp_def)
  from passed_check_meets_every_rule [OF if_check_passes] f v m l show ?thesis
    by (auto simp del: RiskStg_find.simps)
qed

text \<open>
  The offset that is chosen for an order with an automatic offset can be executed: a result of
  0 means that the closing offset finds at least the order's volume not yet worked on in the
  position it closes, or that an opening offset keeps the position limit of its side; a position
  of yesterday is always preferred, and an order that asked to close never opens. A refusal means
  that none of them fits.
\<close>

theorem auto_offset_fits:
  assumes "ri_vol ab r = Inr v" "dir_known dir"
  shows "\<exists>ret off1. RiskInstr_parseAutoOffset ab dir off vol r = Inr (ret, off1) \<and>
    (ret = 0 \<longrightarrow> off_known off1 \<and> (off = AT_CHAR_Close \<longrightarrow> off1 \<noteq> AT_CHAR_Open) \<and>
       (off1 = AT_CHAR_CloseYesterday \<longleftrightarrow> vol \<le> (if dir = AT_CHAR_Buy
          then pos_short_yd v - pos_short_yd_cls_ing v else pos_long_yd v - pos_long_yd_cls_ing v)) \<and>
       (off1 = AT_CHAR_CloseToday \<longrightarrow> vol \<le> (if dir = AT_CHAR_Buy
          then pos_short_td v - pos_short_td_cls_ing v else pos_long_td v - pos_long_td_cls_ing v)) \<and>
       (off1 = AT_CHAR_Open \<longrightarrow> (if dir = AT_CHAR_Buy
          then long_exp v + vol \<le> ri_long_volume_threshold r
          else short_exp v + vol \<le> ri_short_volume_threshold r))) \<and>
    (ret \<noteq> 0 \<longrightarrow> off1 = off \<and>
       (if dir = AT_CHAR_Buy
        then pos_short_yd v - pos_short_yd_cls_ing v < vol \<and> pos_short_td v - pos_short_td_cls_ing v < vol
        else pos_long_yd v - pos_long_yd_cls_ing v < vol \<and> pos_long_td v - pos_long_td_cls_ing v < vol) \<and>
       (off \<noteq> AT_CHAR_Close \<longrightarrow> (if dir = AT_CHAR_Buy
          then ri_long_volume_threshold r < long_exp v + vol
          else ri_short_volume_threshold r < short_exp v + vol)))"
  using assms
  by (auto simp: RiskInstr_parseAutoOffset_def dir_known_def off_known_def exp_defs)

theorem auto_offset_fits_witness:
  "\<exists>ret off1. RiskInstr_parseAutoOffset if_acc_end AT_CHAR_Sell AT_CHAR_Close 1 if_ri = Inr (ret, off1) \<and>
     (ret = 0 \<longrightarrow> off1 \<noteq> AT_CHAR_Open)"
  using auto_offset_fits [OF if_ri_vol, of AT_CHAR_Sell AT_CHAR_Close 1] by (auto simp: dir_known_def)

section \<open>The rate of orders\<close>

text \<open>A sequence of orders at the given times, each let pass by the limiter and then counted.\<close>

fun rate_run :: "int list \<Rightarrow> 'a risk_instr_scheme \<Rightarrow> 'a risk_instr_scheme option" where
  "rate_run [] r = Some r"
| "rate_run (t # ts) r =
     (if RiskInstr_IsIntensityNormal t r then rate_run ts (RiskInstr_onNew t r) else None)"

lemma rate_run_spacing:
  assumes "rate_run ts r \<noteq> None" "intensity_cycle_order_count_threshold r = int N"
    and "intensity_cycle_order_count r = int c" "1 \<le> c" "c + d = N" "d + k * N < length ts"
  shows "intensity_cycle_time_span_threshold r \<le> of_int (ts ! (d + k * N) -
    (case k of 0 \<Rightarrow> intensity_cycle_time_record r | Suc l \<Rightarrow> ts ! (d + l * N)))"
  using assms
proof (induction ts arbitrary: r c d k)
  case (Cons t ts)
  let ?r = "RiskInstr_onNew t r"
  have ok: "RiskInstr_IsIntensityNormal t r" and run: "rate_run ts ?r \<noteq> None"
    using Cons.prems(1) by (auto split: if_splits)
  have keep: "intensity_cycle_order_count_threshold ?r = int N"
      "intensity_cycle_time_span_threshold ?r = intensity_cycle_time_span_threshold r"
    using Cons.prems(2) by (simp_all add: RiskInstr_onNew_def Let_def)
  show ?case
  proof (cases d)
    case (Suc e)
    have "intensity_cycle_order_count ?r = int (Suc c)"
        "intensity_cycle_time_record ?r = intensity_cycle_time_record r"
      using Suc Cons.prems(2,3,5) by (simp_all add: RiskInstr_onNew_def Let_def)
    then show ?thesis
      using Cons.IH [OF run keep(1), of "Suc c" e k] Suc Cons.prems(5,6) keep(2)
      by (cases k) simp_all
  next
    case 0
    with Cons.prems(5) have c: "c = N" by simp
    obtain m where m: "N = Suc m" using Cons.prems(4) c by (cases N) auto
    have new: "intensity_cycle_order_count ?r = int 1" "intensity_cycle_time_record ?r = t"
      using c Cons.prems(2,3) by (simp_all add: RiskInstr_onNew_def Let_def)
    have late: "intensity_cycle_time_span_threshold r \<le> of_int (t - intensity_cycle_time_record r)"
      using ok c Cons.prems(2,3) by (simp add: RiskInstr_IsIntensityNormal_def)
    show ?thesis
    proof (cases k)
      case 0
      with late \<open>d = 0\<close> show ?thesis by simp
    next
      case (Suc l)
      then show ?thesis
        using Cons.IH [OF run keep(1) new(1), of m l] m \<open>d = 0\<close> Cons.prems(6) keep(2) new(2)
        by (cases l) (simp_all add: add.commute add.left_commute)
    qed
  qed
qed simp

text \<open>
  C36. The limiter counts in cycles: of a sequence of orders it lets pass, the first order of every
  cycle of \<open>N\<close> orders comes no earlier than the configured span after the first order of the
  cycle before (the first cycle starts at time 0). Inside two neighbouring cycles it does not
  look, so up to \<open>2 N\<close> orders can pass within one span.
\<close>

theorem order_rate_is_limited_per_cycle:
  assumes "rate_run ts r \<noteq> None" "0 < N" "intensity_cycle_order_count_threshold r = int N"
    and "intensity_cycle_order_count r = 0" "intensity_cycle_time_record r = 0"
    and "(k + 1) * N < length ts"
  shows "intensity_cycle_time_span_threshold r \<le>
    of_int (ts ! ((k + 1) * N) - (if k = 0 then 0 else ts ! (k * N)))"
proof -
  obtain t ts' where ts: "ts = t # ts'" using assms(6) by (cases ts) auto
  let ?r = "RiskInstr_onNew t r"
  have r: "rate_run ts' ?r \<noteq> None" "intensity_cycle_order_count_threshold ?r = int N"
      "intensity_cycle_order_count ?r = int 1" "intensity_cycle_time_record ?r = 0"
      "intensity_cycle_time_span_threshold ?r = intensity_cycle_time_span_threshold r"
    using assms ts by (auto simp: RiskInstr_onNew_def Let_def split: if_splits)
  obtain m where m: "N = Suc m" using assms(2) by (cases N) auto
  show ?thesis
    using rate_run_spacing [OF r(1,2,3), of m k] r(4,5) assms(6) ts m
    by (cases k) (simp_all add: add.commute add.left_commute)
qed

theorem order_rate_is_limited_per_cycle_witness:
  "rate_run [5, 6, 1000, 1001, 2000 :: int]
      (risk_instr_init\<lparr>intensity_cycle_order_count_threshold := 2, intensity_cycle_time_span_threshold := 1000\<rparr>)
     \<noteq> None \<and> (1000 :: rat) \<le> of_int (2000 - 1000)"
proof -
  let ?r = "risk_instr_init\<lparr>intensity_cycle_order_count_threshold := 2, intensity_cycle_time_span_threshold := 1000\<rparr>"
  have run: "rate_run [5, 6, 1000, 1001, 2000] ?r \<noteq> None"
    by (simp add: RiskInstr_IsIntensityNormal_def RiskInstr_onNew_def risk_instr_init_def)
  then show ?thesis
    using order_rate_is_limited_per_cycle [OF run, of 2 1] by (simp add: risk_instr_init_def)
qed

section \<open>Self trades\<close>

text \<open>
  C7. For any treap that behaves as documented: along every run of an instrument in which the account at
  the broker sends only orders its check let pass, with growing references, and in a day no more orders
  than the vector of nodes has room for (the 1024 it reserves; the order after them makes it move its nodes, and the links
  dangle), no dangling link is followed, and every working buy order of the
  account is priced below every working sell order, so no two of its orders can trade with each other.
\<close>

theorem no_self_trade:
  assumes "treap_ok ops nodes" "vec_treap_node r0 = []" "bid_treap r0 = tr_new ops"
    and "ask_treap r0 = tr_new ops" "\<not> ask_stale r0" "\<not> bid_stale r0"
    and "legal_run (top_step ops) (top_legal ops) es r0"
  shows "\<exists>r. run_steps (top_step ops) es r0 = Inr r \<and>
    (\<forall>b \<in> set (nodes (bid_treap r)). \<forall>a \<in> set (nodes (ask_treap r)).
       tn_dir b = AT_CHAR_Buy \<and> tn_dir a \<noteq> AT_CHAR_Buy \<and> tn_price b < tn_price a)"
proof -
  have "top_inv nodes r0"
    using assms(1-6) by (simp add: top_inv_def uncrossed_def treap_okD(1))
  with self_trade.run_inv [OF _ assms(7), of nodes] assms(1) show ?thesis
    by (fastforce simp: top_inv_def uncrossed_def)
qed

definition if_top :: "tnode list risk_instr_top" where
  "if_top = (risk_instr_top_init list_treap)
     \<lparr>ri_p_unit_vol := PtrTo (INSTR_NAME_TO_HASH ''IF2206''), is_allowed := True,
      allowed_order_size_threshold := 3, intensity_cycle_order_count_threshold := 100,
      ri_long_volume_threshold := 4, ri_short_volume_threshold := 4, ri_net_volume_threshold := 4\<rparr>"

definition if_top_orders :: "top_event list" where
  "if_top_orders =
     [TopNew if_acc_end AT_CHAR_Buy AT_CHAR_Open 4000 1 1 0,
      TopNew if_acc_end AT_CHAR_Sell AT_CHAR_Open 4001 1 2 0,
      TopCxl ((if_track ODS_CANCELED 0)\<lparr>ot_order_ref := 1\<rparr>)]"

lemma if_top_check:
  "is_allowed r \<Longrightarrow> allowed_order_size_threshold r = 3 \<Longrightarrow>
   intensity_cycle_order_count r < intensity_cycle_order_count_threshold r \<Longrightarrow>
   ri_p_unit_vol r = PtrTo (INSTR_NAME_TO_HASH ''IF2206'') \<Longrightarrow> ri_long_volume_threshold r = 4 \<Longrightarrow>
   ri_short_volume_threshold r = 4 \<Longrightarrow> ri_net_volume_threshold r = 4 \<Longrightarrow> dir_known dir \<Longrightarrow>
   RiskInstr_check if_acc_end dir AT_CHAR_Open 1 0 r = Inr 0"
  by (auto simp: RiskInstr_check_def RiskInstr_IsSizeCorrect_def RiskInstr_IsIntensityNormal_def
      ri_vol_def if_end_entries RiskInstr_IsInstrumentLongVolumeCorrect_def
      RiskInstr_IsInstrumentShortVolumeCorrect_def RiskInstr_IsInstrumentNetVolumeCorrect_def
      if_instr_end_def unit_vol_init_def)

theorem no_self_trade_witness:
  "\<exists>r. run_steps (top_step list_treap) if_top_orders if_top = Inr r \<and>
    (\<forall>b \<in> set (bid_treap r). \<forall>a \<in> set (ask_treap r). tn_price b < tn_price a)"
proof -
  note defs = if_top_orders_def if_top_def risk_instr_top_init_def risk_instr.defs
    risk_instr_init_def list_treap_def RiskInstrTop_check_def RiskInstrTop_onNew_def
    vec_emplace_back_def RiskInstr_onNew_def int32_def Let_def
  have "legal_run (top_step list_treap) (top_legal list_treap) if_top_orders if_top"
    by (simp add: defs if_top_check dir_known_def split: sum.splits)
  from no_self_trade [OF list_treap_ok _ _ _ _ _ this]
  have "\<exists>r. run_steps (top_step list_treap) if_top_orders if_top = Inr r \<and>
    (\<forall>b \<in> set (bid_treap r). \<forall>a \<in> set (ask_treap r).
       tn_dir b = AT_CHAR_Buy \<and> tn_dir a \<noteq> AT_CHAR_Buy \<and> tn_price b < tn_price a)"
    by (simp add: if_top_def risk_instr_top_init_def risk_instr.defs)
  then show ?thesis by blast
qed

section \<open>Where a run ends\<close>

definition buy_orders :: "'t treap_ops \<Rightarrow> double \<Rightarrow> nat \<Rightarrow> 't risk_instr_top res" where
  "buy_orders ops px k =
     run_steps (\<lambda>i. RiskInstrTop_onNew ops AT_CHAR_Buy px (int i) 0) [0..<k] (risk_instr_top_init ops)"

lemma run_steps_snoc: "run_steps f (es @ [e]) s = res_bind (run_steps f es s) (f e)"
  by (induction es arbitrary: s) (auto simp: res_bind_def split: sum.splits)

lemma buy_orders_Suc:
  "buy_orders ops px (Suc k) = res_bind (buy_orders ops px k) (RiskInstrTop_onNew ops AT_CHAR_Buy px (int k) 0)"
  by (simp add: buy_orders_def run_steps_snoc)

lemma int32_small: "k \<le> 1024 \<Longrightarrow> int32 (int k) = int k"
  by (simp add: int32_def)

lemma buy_orders_fill:
  assumes ok: "treap_ok ops nodes"
  shows "k \<le> 1024 \<Longrightarrow> \<exists>r. buy_orders ops px k = Inr r \<and> length (vec_treap_node r) = k \<and>
    vec_capacity r = 1024 \<and> \<not> bid_stale r \<and> length (nodes (bid_treap r)) = k \<and>
    (\<forall>n \<in> set (nodes (bid_treap r)). tn_order_ref n < int k)"
proof (induction k)
  case 0
  from ok show ?case
    by (simp add: buy_orders_def risk_instr_top_init_def risk_instr.defs treap_okD(1))
next
  case (Suc k)
  then obtain r where r: "buy_orders ops px k = Inr r" "length (vec_treap_node r) = k"
    "vec_capacity r = 1024" "\<not> bid_stale r" "length (nodes (bid_treap r)) = k"
    "\<forall>n \<in> set (nodes (bid_treap r)). tn_order_ref n < int k" by auto
  let ?n = "\<lparr>tn_order_ref = int k, tn_price = px, tn_dir = AT_CHAR_Buy\<rparr>"
  have push: "nodes (tr_push_back ops ?n (bid_treap r)) = nodes (bid_treap r) @ [?n]"
    using ok r(6) unfolding treap_ok_def by (auto simp: less_imp_le)
  have "buy_orders ops px (Suc k) = RiskInstrTop_onNew ops AT_CHAR_Buy px (int k) 0 r"
    using r(1) by (simp add: buy_orders_Suc)
  with r push Suc.prems show ?case
    by (auto simp: RiskInstrTop_onNew_def Let_def vec_emplace_back_def int32_small RiskInstr_onNew_def)
qed

text \<open>
  C40. The room of the vector of working orders is a limit of the day that nothing checks: with any
  treap, 1024 buy orders of one instrument are booked, and the 1025th moves the vector's nodes and
  then follows a dangling link of the treap.
\<close>

theorem order_1025_follows_dangling_link:
  assumes "treap_ok ops nodes"
  shows "(\<exists>r. buy_orders ops px 1024 = Inr r) \<and> buy_orders ops px 1025 = Inl DanglingDeref"
proof -
  obtain r where r: "buy_orders ops px 1024 = Inr r" "length (vec_treap_node r) = 1024"
    "vec_capacity r = 1024" "\<not> bid_stale r" "length (nodes (bid_treap r)) = 1024"
    using buy_orders_fill [OF assms, of 1024 px] by auto
  have "\<not> tr_is_empty ops (bid_treap r)"
    using r(5) assms unfolding treap_ok_def by auto
  moreover have "buy_orders ops px 1025 = RiskInstrTop_onNew ops AT_CHAR_Buy px 1024 0 r"
    using r(1) buy_orders_Suc [of ops px 1024] by simp
  ultimately show ?thesis
    using r by (simp add: RiskInstrTop_onNew_def Let_def vec_emplace_back_def)
qed

theorem order_1025_follows_dangling_link_witness:
  "buy_orders list_treap 4000 1025 = Inl DanglingDeref"
  using order_1025_follows_dangling_link [OF list_treap_ok] by blast

text \<open>A scan of risk objects whose pointers dangle exactly for the keys in \<open>F\<close>, and are not flat else.\<close>

lemma flat_keys_scan:
  assumes "\<And>k r. (k, r) \<in> set m \<Longrightarrow> vol r = (if F k then Inl DanglingDeref else Inr (V k))"
    and "\<And>k. \<not> F k \<Longrightarrow> \<not> vol_flat (V k)"
  shows "flat_keys vol m = (if \<exists>k. um_has k m \<and> F k then Inl DanglingDeref else Inr [])"
  using assms(1)
proof (induction m)
  case (Cons e m)
  obtain j q where e: "e = (j, q)" by (cases e)
  have IH: "flat_keys vol m = (if \<exists>k. um_has k m \<and> F k then Inl DanglingDeref else Inr [])"
    by (rule Cons.IH, rule Cons.prems) simp
  have q: "vol q = (if F j then Inl DanglingDeref else Inr (V j))"
    by (rule Cons.prems) (simp add: e)
  have has: "um_has k (e # m) \<longleftrightarrow> k = j \<or> um_has k m" for k
    by (simp add: um_has_def e)
  show ?case
  proof (cases "F j")
    case True
    with q has e show ?thesis by auto
  next
    case False
    with q assms(2) [OF False] IH e show ?thesis unfolding has by auto
  qed
qed (simp add: um_has_def)

text \<open>What the pointers of the risk objects yield after the account's day switch.\<close>

lemma switched_vols:
  assumes inv: "risk_inv tb s"
  shows "(h, r) \<in> set (rs_map_risk_instr s) \<Longrightarrow> um_ok (rs_map_risk_instr s) \<Longrightarrow>
      ri_vol (AccBase_onSwitchDay (rs_acc_base s)) r =
        (if vol_flat (acc_vol h (rs_acc_base s)) then Inl DanglingDeref
         else Inr (UnitVol_onSwitchDay (acc_vol h (rs_acc_base s))))"
    and "(k, p) \<in> set (rs_map_risk_prd s) \<Longrightarrow> um_ok (rs_map_risk_prd s) \<Longrightarrow>
      rp_vol (AccBase_onSwitchDay (rs_acc_base s)) p =
        (if vol_flat (acc_prd_vol k (rs_acc_base s)) then Inl DanglingDeref
         else Inr (UnitVol_onSwitchDay (acc_prd_vol k (rs_acc_base s))))"
proof -
  note D = risk_invD [OF inv] and A = acc_invD(1,2) [OF risk_invD(2) [OF inv]]
  note sw = onSwitchDay_linked [OF D(2)]
  show "ri_vol (AccBase_onSwitchDay (rs_acc_base s)) r =
      (if vol_flat (acc_vol h (rs_acc_base s)) then Inl DanglingDeref
       else Inr (UnitVol_onSwitchDay (acc_vol h (rs_acc_base s))))"
    if "(h, r) \<in> set (rs_map_risk_instr s)" "um_ok (rs_map_risk_instr s)"
  proof -
    have "map_of (rs_map_risk_instr s) h = Some r" using that by (simp add: um_ok_def)
    from D(7) [OF this] A show ?thesis
      by (auto simp: ri_vol_def sw deref_def acc_vol_def um_has_def map_of_um_drop
          ModInstr_onSwitchDay_def split: option.splits)
  qed
  show "rp_vol (AccBase_onSwitchDay (rs_acc_base s)) p =
      (if vol_flat (acc_prd_vol k (rs_acc_base s)) then Inl DanglingDeref
       else Inr (UnitVol_onSwitchDay (acc_prd_vol k (rs_acc_base s))))"
    if "(k, p) \<in> set (rs_map_risk_prd s)" "um_ok (rs_map_risk_prd s)"
  proof -
    have "map_of (rs_map_risk_prd s) k = Some p" using that by (simp add: um_ok_def)
    from D(8) [OF this] A show ?thesis
      by (auto simp: rp_vol_def sw deref_def acc_prd_vol_def um_has_def map_of_um_drop
          ModPrd_onSwitchDay_def split: option.splits)
  qed
qed

lemma switched_not_flat: "\<not> vol_flat v \<Longrightarrow> \<not> vol_flat (UnitVol_onSwitchDay v)"
  by (simp add: vol_flat_def UnitVol_onSwitchDay_def)

text \<open>
  C39. The day switch of a strategy's risk control reads freed memory exactly when there is
  something for it to clean up: if one of its registered instruments or products is flat, the
  account has just erased the entry its risk object points to, and the test for a flat position
  follows the dangling pointer; if none is flat, the switch succeeds and erases no risk object.
\<close>

theorem day_switch_of_flat_instrument_dangles:
  assumes "risk_inv tb s" "um_ok (rs_map_risk_instr s)" "um_ok (rs_map_risk_prd s)"
  shows "RiskStg_onSwitchDay s =
    (if (\<exists>h. um_has h (rs_map_risk_instr s) \<and> vol_flat (acc_vol h (rs_acc_base s))) \<or>
        (\<exists>k. um_has k (rs_map_risk_prd s) \<and> vol_flat (acc_prd_vol k (rs_acc_base s)))
     then Inl DanglingDeref
     else Inr (s\<lparr>rs_acc_base := AccBase_onSwitchDay (rs_acc_base s)\<rparr>))"
proof -
  let ?ab = "AccBase_onSwitchDay (rs_acc_base s)"
  have i: "flat_keys (ri_vol ?ab) (rs_map_risk_instr s) =
      (if \<exists>h. um_has h (rs_map_risk_instr s) \<and> vol_flat (acc_vol h (rs_acc_base s))
       then Inl DanglingDeref else Inr [])"
    by (rule flat_keys_scan [OF switched_vols(1) [OF assms(1) _ assms(2)] switched_not_flat])
  have p: "flat_keys (rp_vol ?ab) (rs_map_risk_prd s) =
      (if \<exists>k. um_has k (rs_map_risk_prd s) \<and> vol_flat (acc_prd_vol k (rs_acc_base s))
       then Inl DanglingDeref else Inr [])"
    by (rule flat_keys_scan [OF switched_vols(2) [OF assms(1) _ assms(3)] switched_not_flat])
  show ?thesis by (simp add: RiskStg_onSwitchDay_def Let_def i p)
qed

text \<open>The account of the example before its first order, with the instrument registered.\<close>

definition if_acc_flat :: acc_base where
  "if_acc_flat = acc_base_init
     \<lparr>ab_map_prd := [(INSTR_NAME_TO_HASH ''IF'', mod_prd_init\<lparr>prd_name := ''IF''\<rparr>)],
      ab_map_instr := [(INSTR_NAME_TO_HASH ''IF2206'', mod_instr_init\<lparr>instr_name := ''IF2206'',
        vol_multiple := 300, ins_p_prd := PtrTo (INSTR_NAME_TO_HASH ''IF''), ins_p_acc := PtrTo ()\<rparr>)]\<rparr>"

lemma if_acc_flat_inv: "acc_inv if_acc_flat"
proof -
  let ?k = "INSTR_NAME_TO_HASH ''IF''" and ?p = "mod_prd_init\<lparr>prd_name := ''IF''\<rparr>"
  let ?s = "acc_base_init\<lparr>ab_map_prd := AList.update ?k ?p (ab_map_prd acc_base_init)\<rparr>"
  have "acc_inv ?s"
    by (rule acc_inv_new_prd [OF acc_inv_init]) (simp add: acc_base_init_def)
  from acc_inv_new_instr [OF this, where h = "INSTR_NAME_TO_HASH ''IF2206''" and k = ?k and p = ?p
      and n = "''IF2206''" and vm = 300]
  show ?thesis by (simp add: if_acc_flat_def acc_base_init_def)
qed

definition if_risk_flat :: risk_stg where
  "if_risk_flat = if_risk\<lparr>rs_acc_base := if_acc_flat\<rparr>"

lemma if_risk_flat_inv: "risk_inv (tb_instr_info if_base) if_risk_flat"
proof -
  have v: "acc_vol h if_acc_flat = unit_vol_init" "acc_prd_vol h if_acc_flat = unit_vol_init" for h
    by (simp_all add: acc_vol_def acc_prd_vol_def if_acc_flat_def mod_instr_init_def mod_prd_init_def)
  have l: "in_limits lims unit_vol_init" for lims
    by (auto simp: in_limits_def exp_defs unit_vol_init_def split: prod.splits)
  have a: "acc_links (tb_instr_info if_base) if_acc_flat" "ab_mod_acc if_acc_flat = mod_acc_init"
    by (auto simp: acc_links_def if_acc_flat_def if_base_def if_info_def acc_base_init_def
        split: if_splits)
  have t: "map_of (tb_instr_info if_base) (INSTR_NAME_TO_HASH ''IF2206'') = Some if_info"
      "ii_product_hash if_info = INSTR_NAME_TO_HASH ''IF''"
    by (simp_all add: if_base_def if_info_def)
  have c: "rs_j_conf if_risk_flat = if_conf" "rs_risk_acc if_risk_flat = if_risk_acc"
      "rs_acc_base if_risk_flat = if_acc_flat"
    by (simp_all add: if_risk_flat_def if_risk_def)
  show ?thesis
    by (rule risk_invI, unfold c v)
      (use if_acc_flat_inv [unfolded if_acc_flat_def] a [unfolded if_acc_flat_def] l in \<open>auto simp: if_risk_flat_def if_risk_def if_ri_def if_rp_def
        um_has_def if_acc_flat_def t if_risk_acc_def mod_acc_init_def
        split: if_splits\<close>)
qed

theorem day_switch_of_flat_instrument_dangles_witness:
  "RiskStg_onSwitchDay if_risk_flat = Inl DanglingDeref"
proof -
  have m: "um_ok (rs_map_risk_instr if_risk_flat)" "um_ok (rs_map_risk_prd if_risk_flat)"
      "um_has (INSTR_NAME_TO_HASH ''IF2206'') (rs_map_risk_instr if_risk_flat)"
      "rs_acc_base if_risk_flat = if_acc_flat"
    by (simp_all add: if_risk_flat_def if_risk_def um_ok_def um_has_def)
  have "vol_flat (acc_vol (INSTR_NAME_TO_HASH ''IF2206'') if_acc_flat)"
    by (simp add: acc_vol_def if_acc_flat_def mod_instr_init_def vol_flat_def unit_vol_init_def)
  with m show ?thesis
    using day_switch_of_flat_instrument_dangles [OF if_risk_flat_inv m(1,2)] by auto
qed

text \<open>
  The loop that registers an instrument until its risk object is found ends: for an instrument
  of a table in order it tests at most twice, and more fuel never changes its result.
\<close>

theorem registration_loop_terminates:
  assumes "risk_inv tb s" "map_of tb h = Some info"
  shows "\<exists>found t. risk_inv tb t \<and> (\<forall>n. RiskStg_find (2 + n) tb info s = Inr (found, t))"
proof -
  have h: "ii_instr_hash info = h" using base_okD(4) [OF risk_invD(1) [OF assms(1)] assms(2)] .
  show ?thesis
  proof (cases "map_of (rs_map_risk_instr s) h")
    case (Some r)
    with assms(1) h show ?thesis by auto
  next
    case None
    obtain ok s2 where s2: "RiskStg_regInstr tb (ii_instr info) s = Inr (ok, s2)" "risk_inv tb s2"
      "ok \<longrightarrow> um_has h (rs_map_risk_instr s2)"
      using risk_inv_reg [OF assms] by blast
    show ?thesis
    proof (cases ok)
      case True
      with s2(3) obtain r where "map_of (rs_map_risk_instr s2) h = Some r" by (auto simp: um_has_def)
      with None s2 True h show ?thesis by auto
    qed (use None s2 h in auto)
  qed
qed

theorem registration_loop_terminates_witness:
  "\<exists>found t. risk_inv (tb_instr_info if_base) t \<and>
     (\<forall>n. RiskStg_find (2 + n) (tb_instr_info if_base) if_info if_risk_flat = Inr (found, t))"
  by (rule registration_loop_terminates [OF if_risk_flat_inv, of "INSTR_NAME_TO_HASH ''IF2206''"])
    (simp add: if_base_def)

text \<open>
  The net amount check of a sell order does not see the working orders that close long
  positions: it reads the short side's amounts twice over, so for every excess there is an account
  in which the check lets a sell order pass although its net short amount, were all working sell
  orders to trade, is over the limit by that excess.
\<close>

theorem net_amount_check_ignores_sell_closes:
  "RiskAcc_IsNetAmountCorrect (u\<lparr>amt_long_yd_sub_ing := x, amt_long_td_sub_ing := y\<rparr>) AT_CHAR_Sell amount r =
     RiskAcc_IsNetAmountCorrect u AT_CHAR_Sell amount r \<and>
   (\<exists>w. RiskAcc_IsNetAmountCorrect w AT_CHAR_Sell amount r \<and>
     amt_short w - amt_long w + amt_short_td_add_ing w + amt_long_yd_sub_ing w +
       amt_long_td_sub_ing w + amount = net_amt_threshold r + excess)"
proof -
  let ?w = "unit_amt_init\<lparr>amt_long := amount - net_amt_threshold r, amt_long_td_sub_ing := excess\<rparr>"
  have "RiskAcc_IsNetAmountCorrect ?w AT_CHAR_Sell amount r"
    by (simp add: RiskAcc_IsNetAmountCorrect_def unit_amt_init_def)
  then show ?thesis
    by (auto simp: RiskAcc_IsNetAmountCorrect_def unit_amt_init_def intro!: exI [of _ ?w])
qed

end
