(* ===== verification/Td_Helper.thy ===== *)
theory Td_Helper
  imports Trade_Base
begin

text \<open>
  \<^verbatim>\<open>td/ITDHelper\<close>, the client side of order entry: the list of the orders a strategy issued,
  whose indices identify them, and the update of an order by a report. The class is abstract; its
  virtual operations \<^verbatim>\<open>doSendOrder\<close>, \<^verbatim>\<open>doDelOrder\<close> and \<^verbatim>\<open>doGetRtn\<close> are arguments of the definitions,
  and the fields of a derived class extend its record.

  An index is an \<^verbatim>\<open>int\<close> or a \<^verbatim>\<open>uint32_t\<close>; a negative one is a large number after the conversion
  to the type of the size, beyond every list.
\<close>

section \<open>The list of orders\<close>

record td_helper =
  th_order_track :: "order_track list"
  th_name :: string

text \<open>\<^verbatim>\<open>emplace_back()\<close> and \<^verbatim>\<open>emplace()\<close> value-initialise: the members without initialiser are zero.\<close>

definition order_track_init :: order_track where
  "order_track_init =
     \<lparr>ot_status = 0, ot_instr_hash = 0, ot_instr = [], ot_price = 0, ot_vol = 0, ot_dir = 0,
      ot_off = 0, ot_vol_traded = 0, ot_amount_traded = 0, ot_from = 0, ot_local_id = 0,
      ot_acc_id = 0, ot_stg_id = 0, ot_order_ref = -1, ot_front_id = -1, ot_session_id = -1\<rparr>"

definition rtn_msg_init :: rtn_msg where
  "rtn_msg_init =
     \<lparr>rm_msg_type = 0, rm_local_id = 0, rm_instr_hash = 0, rm_instr = [], rm_price = 0, rm_vol = 0,
      rm_dir = 0, rm_off = 0, rm_order_ref = 0, rm_front_id = 0, rm_session_id = 0, rm_errid = 0,
      rm_msg = []\<rparr>"

definition ITDHelper_getOrderTrackCnt :: "'a td_helper_scheme \<Rightarrow> int" where
  "ITDHelper_getOrderTrackCnt s = int (length (th_order_track s))"

definition ITDHelper_getOrderTrack :: "int \<Rightarrow> 'a td_helper_scheme \<Rightarrow> order_track res" where
  "ITDHelper_getOrderTrack idx s =
     (if 0 \<le> idx \<and> nat idx < length (th_order_track s) then Inr (th_order_track s ! nat idx)
      else Inl OutOfRange)"

definition ITDHelper_getStgIdFromRtnMsg :: "rtn_msg \<Rightarrow> 'a td_helper_scheme \<Rightarrow> int res" where
  "ITDHelper_getStgIdFromRtnMsg m s =
     res_bind (ITDHelper_getOrderTrack (rm_local_id m) s) (\<lambda>t. Inr (ot_stg_id t))"

definition upd_track ::
    "nat \<Rightarrow> (order_track \<Rightarrow> order_track) \<Rightarrow> 'a td_helper_scheme \<Rightarrow> 'a td_helper_scheme" where
  "upd_track k f s = s\<lparr>th_order_track := (th_order_track s)[k := f (th_order_track s ! k)]\<rparr>"

definition ITDHelper_sendOrder ::
    "(nat \<Rightarrow> 'a td_helper_scheme \<Rightarrow> 'a td_helper_scheme res) \<Rightarrow> string \<Rightarrow> double \<Rightarrow> int \<Rightarrow> int \<Rightarrow> int \<Rightarrow>
     int \<Rightarrow> int \<Rightarrow> u32 \<Rightarrow> 'a td_helper_scheme \<Rightarrow> (int \<times> 'a td_helper_scheme) res" where
  "ITDHelper_sendOrder doSendOrder instr price vol dir off acc_id stgid h s =
     (let track_id = length (th_order_track s);
          track = order_track_init
            \<lparr>ot_status := ODS_SEND, ot_instr_hash := h, ot_instr := take 30 (c_str instr),
             ot_price := price, ot_vol := vol, ot_dir := dir, ot_off := off, ot_stg_id := stgid,
             ot_acc_id := acc_id, ot_local_id := int track_id\<rparr>
      in res_bind (doSendOrder track_id (s\<lparr>th_order_track := th_order_track s @ [track]\<rparr>))
           (\<lambda>s1. Inr (int track_id, s1)))"

definition ITDHelper_deleteOrder ::
    "(nat \<Rightarrow> 'a td_helper_scheme \<Rightarrow> 'a td_helper_scheme res) \<Rightarrow> int \<Rightarrow> 'a td_helper_scheme \<Rightarrow>
     (int \<times> 'a td_helper_scheme) res" where
  "ITDHelper_deleteOrder doDelOrder track_id s =
     (if 0 \<le> track_id \<and> nat track_id < length (th_order_track s) then
        (let k = nat track_id; ot = th_order_track s ! k; status = ot_status ot in
         if ot_order_ref ot \<ge> 0 \<and>
            status AND (ODS_TDSEND OR ODS_EXECUTION OR ODS_ACCEPT OR ODS_MARKET_ACCEPT) \<noteq> 0 \<and>
            \<not> status AND ODS_CLOSED \<noteq> 0
         then res_bind (doDelOrder k s)
           (\<lambda>s1. Inr (0, upd_track k (\<lambda>t. t\<lparr>ot_status := ot_status t OR ODS_CXLING\<rparr>) s1))
         else Inr (-1, s))
      else Inr (-1, s))"

text \<open>The body of \<^verbatim>\<open>getRtn\<close>: what a report makes of the record of its order.\<close>

definition track_rtn :: "rtn_msg \<Rightarrow> order_track \<Rightarrow> order_track" where
  "track_rtn p track =
     (let t1 = track\<lparr>ot_status := ot_status track OR rm_msg_type p, ot_order_ref := rm_order_ref p,
                     ot_front_id := rm_front_id p, ot_session_id := rm_session_id p\<rparr>
      in if ODS_EXECUTION = rm_msg_type p then
           (let t2 = t1\<lparr>ot_vol_traded := ot_vol_traded t1 + rm_vol p,
                        ot_amount_traded := ot_amount_traded t1 + of_int (rm_vol p) * rm_price p\<rparr>
            in if ot_vol_traded t2 \<ge> ot_vol t2 then t2\<lparr>ot_status := ot_status t2 OR ODS_CLOSED\<rparr>
               else t2)
         else t1)"

definition ITDHelper_getRtn ::
    "('a td_helper_scheme \<Rightarrow> rtn_msg option \<times> 'a td_helper_scheme) \<Rightarrow> 'a td_helper_scheme \<Rightarrow>
     rtn_msg option \<times> 'a td_helper_scheme" where
  "ITDHelper_getRtn doGetRtn s =
     (case doGetRtn s of
        (None, s1) \<Rightarrow> (None, s1)
      | (Some p, s1) \<Rightarrow>
          (if 0 \<le> rm_local_id p \<and> nat (rm_local_id p) < length (th_order_track s1)
           then (Some p, upd_track (nat (rm_local_id p)) (track_rtn p) s1)
           else (None, s1)))"

definition ITDHelper_closeOrderTrack :: "'a td_helper_scheme \<Rightarrow> 'a td_helper_scheme" where
  "ITDHelper_closeOrderTrack s = s\<lparr>th_order_track := []\<rparr>"

definition ITDHelper_on_switch_day :: "string \<Rightarrow> 'a td_helper_scheme \<Rightarrow> 'a td_helper_scheme" where
  "ITDHelper_on_switch_day day s = ITDHelper_closeOrderTrack s"

section \<open>The state of an order\<close>

text \<open>
  The life of an order as its record tells it: the volume traded, and whether the order ended by a
  reject or a cancel. \<open>life_step\<close> says how a report may continue a life: executions add up to at
  most the volume, and a cancel or reject takes exactly what is left.
\<close>

definition ods_ended :: int where
  "ods_ended = 32 OR 128 OR 1024"

definition life_of :: "order_track \<Rightarrow> int \<times> bool" where
  "life_of t = (ot_vol_traded t, ot_status t AND ods_ended \<noteq> 0)"

definition track_open :: "order_track \<Rightarrow> bool" where
  "track_open t \<longleftrightarrow> \<not> snd (life_of t) \<and> fst (life_of t) < ot_vol t"

definition notice_types :: "int list" where
  "notice_types = [ODS_TDSEND, ODS_ACCEPT, ODS_MARKET_ACCEPT, ODS_CANCEL_REJECT]"

definition life_step :: "int \<Rightarrow> rtn_msg \<Rightarrow> int \<times> bool \<Rightarrow> (int \<times> bool) option" where
  "life_step vol m l =
     (case l of (traded, ended) \<Rightarrow>
        if rm_msg_type m = ODS_EXECUTION then
          (if \<not> ended \<and> 0 < rm_vol m \<and> traded + rm_vol m \<le> vol then Some (traded + rm_vol m, False)
           else None)
        else if rm_msg_type m \<in> set cancel_types then
          (if \<not> ended \<and> traded < vol \<and> rm_vol m = vol - traded then Some (traded, True) else None)
        else if rm_msg_type m \<in> set notice_types then Some l
        else None)"

fun life_run :: "int \<Rightarrow> rtn_msg list \<Rightarrow> int \<times> bool \<Rightarrow> (int \<times> bool) option" where
  "life_run vol [] l = Some l"
| "life_run vol (m # ms) l = Option.bind (life_step vol m l) (life_run vol ms)"

lemma life_run_snoc:
  "life_run vol (ms @ [m]) l = Option.bind (life_run vol ms l) (life_step vol m)"
  by (induction ms arbitrary: l) (auto split: bind_splits)

lemma life_step_types:
  "life_step vol m l = Some l' \<Longrightarrow>
   rm_msg_type m = ODS_EXECUTION \<or> rm_msg_type m \<in> set cancel_types \<or> rm_msg_type m \<in> set notice_types"
  by (auto simp: life_step_def split: prod.splits if_splits)

lemma ods_ended_or: "(a OR b) AND ods_ended = 0 \<longleftrightarrow> a AND ods_ended = 0 \<and> b AND ods_ended = 0"
  by (simp add: bit.conj_disj_distrib2 or_eq_0_iff)

lemma ods_closed_or: "(a OR b) AND ODS_CLOSED = 0 \<longleftrightarrow> a AND ODS_CLOSED = 0 \<and> b AND ODS_CLOSED = 0"
  by (simp add: bit.conj_disj_distrib2 or_eq_0_iff)

lemma ods_flags [simp]:
  "ODS_EXECUTION AND ods_ended = 0" "ODS_CLOSED AND ods_ended = 0" "ODS_CXLING AND ods_ended = 0"
  "ODS_SEND AND ods_ended = 0" "ODS_CANCEL_REJECT AND ods_ended = 0" "ODS_TDSEND AND ods_ended = 0"
  "ODS_ACCEPT AND ods_ended = 0" "ODS_MARKET_ACCEPT AND ods_ended = 0"
  "ODS_CANCELED AND ods_ended \<noteq> 0" "ODS_REJECT AND ods_ended \<noteq> 0" "ODS_MARKET_REJECT AND ods_ended \<noteq> 0"
  "ODS_CANCELED AND ODS_CLOSED \<noteq> 0" "ODS_CLOSED AND ODS_CLOSED \<noteq> 0"
  "ODS_EXECUTION AND ODS_CLOSED = 0" "ODS_SEND AND ODS_CLOSED = 0" "ODS_TDSEND AND ODS_CLOSED = 0"
  "ODS_ACCEPT AND ODS_CLOSED = 0" "ODS_MARKET_ACCEPT AND ODS_CLOSED = 0"
  "ODS_CANCEL_REJECT AND ODS_CLOSED = 0" "ODS_CLOSED \<noteq> 0"
  by (simp_all add: ods_defs ods_ended_def)

lemma report_types [simp]:
  "ODS_CANCELED \<in> set cancel_types" "ODS_EXECUTION \<notin> set cancel_types"
  "ODS_CANCELED \<noteq> ODS_EXECUTION"
  by (simp_all add: cancel_types_def ods_defs)

text \<open>A report the life admits moves the record of the order to the life's next state.\<close>

lemma track_rtn_life:
  assumes "life_step (ot_vol t) m (life_of t) = Some l"
  shows "life_of (track_rtn m t) = l"
  using assms
  by (auto simp: life_step_def life_of_def track_rtn_def Let_def ods_ended_or cancel_types_def
      notice_types_def split: if_splits)

lemma track_rtn_same [simp]:
  "ot_instr_hash (track_rtn m t) = ot_instr_hash t" "ot_instr (track_rtn m t) = ot_instr t"
  "ot_price (track_rtn m t) = ot_price t" "ot_vol (track_rtn m t) = ot_vol t"
  "ot_dir (track_rtn m t) = ot_dir t" "ot_off (track_rtn m t) = ot_off t"
  "ot_local_id (track_rtn m t) = ot_local_id t"
  by (simp_all add: track_rtn_def Let_def)

end
