(* ===== verification/Td_Fake.thy ===== *)
theory Td_Fake
  imports Td_Helper
begin

text \<open>
  \<^verbatim>\<open>td/CTDHelperFake\<close>, the helper that stands for an exchange in a replay: it matches the orders of
  one strategy against the first bid and ask of the last tick, oldest order first, and reports
  through a queue, from which \<^verbatim>\<open>getRtn\<close> takes one report at a time.
\<close>

section \<open>The state\<close>

record td_tick =
  tt_last_px :: double
  tt_ask :: double
  tt_bid :: double
  tt_ask_vol :: int
  tt_bid_vol :: int

text \<open>
  The engine's own copy of every order, the queue of reports, the last tick of every instrument
  and the identities of the working orders: a \<^verbatim>\<open>std::set<int>\<close>, so a sorted list without
  duplicates. \<open>tf_wait_count\<close> is the global \<^verbatim>\<open>g_replay_md_fake_wait_count\<close>.
\<close>

record td_fake = td_helper +
  tf_hold_result :: rtn_msg
  tf_eng_order_track :: "order_track list"
  tf_rtn_msg_queue :: "rtn_msg list"
  tf_last_tick_wall :: "(u32, td_tick) umap"
  tf_queued_track_id :: "nat list"
  tf_wait_count :: int

definition td_fake_init :: "string \<Rightarrow> int \<Rightarrow> td_fake" where
  "td_fake_init name wait =
     \<lparr>th_order_track = [], th_name = name, tf_hold_result = rtn_msg_init, tf_eng_order_track = [],
      tf_rtn_msg_queue = [], tf_last_tick_wall = [], tf_queued_track_id = [], tf_wait_count = wait\<rparr>"

definition set_insert :: "nat \<Rightarrow> nat list \<Rightarrow> nat list" where
  "set_insert k ks = (if k \<in> set ks then ks else insort k ks)"

definition set_erase :: "nat \<Rightarrow> nat list \<Rightarrow> nat list" where
  "set_erase k ks = filter (\<lambda>j. j \<noteq> k) ks"

definition upd_eng :: "nat \<Rightarrow> (order_track \<Rightarrow> order_track) \<Rightarrow> td_fake \<Rightarrow> td_fake" where
  "upd_eng k f s = s\<lparr>tf_eng_order_track := (tf_eng_order_track s)[k := f (tf_eng_order_track s ! k)]\<rparr>"

section \<open>Operations\<close>

definition fillRtnMsg :: "rtn_msg \<Rightarrow> order_track \<Rightarrow> nat \<Rightarrow> rtn_msg" where
  "fillRtnMsg rtn ot k =
     rtn\<lparr>rm_instr_hash := ot_instr_hash ot, rm_instr := ot_instr ot, rm_price := ot_price ot,
         rm_vol := ot_vol ot, rm_dir := ot_dir ot, rm_off := ot_off ot, rm_order_ref := int k,
         rm_local_id := int k\<rparr>"

text \<open>
  \<^verbatim>\<open>rtn_msg_queue_.emplace()\<close>, \<^verbatim>\<open>fillRtnMsg\<close> and the assignments to the new report that follow,
  with the counter \<^verbatim>\<open>fillRtnMsg\<close> increments.
\<close>

definition push_rtn :: "order_track \<Rightarrow> nat \<Rightarrow> (rtn_msg \<Rightarrow> rtn_msg) \<Rightarrow> td_fake \<Rightarrow> td_fake" where
  "push_rtn ot k f s =
     s\<lparr>tf_rtn_msg_queue := tf_rtn_msg_queue s @ [f (fillRtnMsg rtn_msg_init ot k)],
       tf_wait_count := tf_wait_count s + 1\<rparr>"

definition median :: "double \<Rightarrow> double \<Rightarrow> double \<Rightarrow> double" where
  "median a b c =
     (if a < b then (if b < c then b else if a < c then c else a)
      else (if c < b then b else if a < c then a else c))"

text \<open>The result, the tick (a reference parameter) and the state.\<close>

definition CTDHelperFake_makeMatch :: "nat \<Rightarrow> td_tick \<Rightarrow> td_fake \<Rightarrow> (bool \<times> td_tick \<times> td_fake) res" where
  "CTDHelperFake_makeMatch track_id tick s =
     (if track_id \<ge> length (tf_eng_order_track s) then Inl OutOfRange
      else
       (let ot = tf_eng_order_track s ! track_id;
            left = ot_vol ot - ot_vol_traded ot;
            (tick1, s1) =
              (if ot_dir ot = AT_CHAR_Buy then
                 (if tt_ask tick \<le> ot_price ot \<and> tt_ask_vol tick > 0 \<and> left > 0 then
                    (let trade = (if tt_ask_vol tick < left then tt_ask_vol tick else left);
                         ot1 = ot\<lparr>ot_vol_traded := ot_vol_traded ot + trade,
                                  ot_status := ot_status ot OR ODS_EXECUTION\<rparr>
                     in (tick\<lparr>tt_ask_vol := tt_ask_vol tick - trade\<rparr>,
                         push_rtn ot1 track_id
                           (\<lambda>m. m\<lparr>rm_vol := trade,
                                  rm_price := median (tt_ask tick) (tt_last_px tick) (ot_price ot1),
                                  rm_msg_type := ODS_EXECUTION\<rparr>)
                           (upd_eng track_id (\<lambda>_. ot1) s)))
                  else (tick, s))
               else if ot_dir ot = AT_CHAR_Sell then
                 (if tt_bid tick \<ge> ot_price ot \<and> tt_bid_vol tick > 0 \<and> left > 0 then
                    (let trade = (if tt_bid_vol tick < left then tt_bid_vol tick else left);
                         ot1 = ot\<lparr>ot_vol_traded := ot_vol_traded ot + trade,
                                  ot_status := ot_status ot OR ODS_EXECUTION\<rparr>
                     in (tick\<lparr>tt_bid_vol := tt_bid_vol tick - trade\<rparr>,
                         push_rtn ot1 track_id
                           (\<lambda>m. m\<lparr>rm_vol := trade,
                                  rm_price := median (tt_bid tick) (tt_last_px tick) (ot_price ot1),
                                  rm_msg_type := ODS_EXECUTION\<rparr>)
                           (upd_eng track_id (\<lambda>_. ot1) s)))
                  else (tick, s))
               else (tick, s));
            ot2 = tf_eng_order_track s1 ! track_id
        in if ot_vol_traded ot2 \<ge> ot_vol ot2
           then Inr (True, tick1,
                     upd_eng track_id (\<lambda>t. t\<lparr>ot_status := ot_status t OR ODS_CLOSED\<rparr>) s1)
           else Inr (False, tick1, s1)))"

definition CTDHelperFake_doSendOrder :: "nat \<Rightarrow> td_fake \<Rightarrow> td_fake res" where
  "CTDHelperFake_doSendOrder track_id s =
     (if track_id \<ge> length (th_order_track s) then Inl OutOfRange
      else
       (let ot = th_order_track s ! track_id;
            back = length (tf_eng_order_track s);
            s1 = s\<lparr>tf_eng_order_track := tf_eng_order_track s @ [ot]\<rparr>
        in if ot_dir ot \<noteq> AT_CHAR_Buy \<and> ot_dir ot \<noteq> AT_CHAR_Sell then
             Inr (upd_eng back (\<lambda>t. t\<lparr>ot_status := ot_status t OR ODS_REJECT\<rparr>)
               (push_rtn ot track_id
                 (\<lambda>m. m\<lparr>rm_msg_type := ODS_REJECT, rm_msg := ''direction is invalid.''\<rparr>) s1))
           else
             (let s2 = push_rtn ot track_id (\<lambda>m. m\<lparr>rm_msg_type := ODS_TDSEND\<rparr>) s1;
                  s3 = push_rtn ot track_id (\<lambda>m. m\<lparr>rm_msg_type := ODS_ACCEPT\<rparr>) s2;
                  s4 = push_rtn ot track_id (\<lambda>m. m\<lparr>rm_msg_type := ODS_MARKET_ACCEPT\<rparr>) s3;
                  s5 = upd_eng back (\<lambda>t. t\<lparr>ot_status := ot_status t OR
                         (ODS_TDSEND OR ODS_ACCEPT OR ODS_MARKET_ACCEPT)\<rparr>) s4;
                  s6 = s5\<lparr>tf_queued_track_id := set_insert track_id (tf_queued_track_id s5)\<rparr>
              in case map_of (tf_last_tick_wall s6) (ot_instr_hash ot) of
                   None \<Rightarrow> Inr s6
                 | Some tick \<Rightarrow>
                     res_bind (CTDHelperFake_makeMatch track_id tick s6) (\<lambda>(finished, tick1, s7). Inr
                       (let s8 = s7\<lparr>tf_last_tick_wall :=
                                      AList.update (ot_instr_hash ot) tick1 (tf_last_tick_wall s7)\<rparr>
                        in if finished
                           then s8\<lparr>tf_queued_track_id := set_erase track_id (tf_queued_track_id s8)\<rparr>
                           else s8)))))"

definition CTDHelperFake_doDelOrder :: "nat \<Rightarrow> td_fake \<Rightarrow> td_fake res" where
  "CTDHelperFake_doDelOrder track_id s =
     (if track_id \<ge> length (tf_eng_order_track s) then Inl OutOfRange
      else
       (let ot = tf_eng_order_track s ! track_id;
            s1 = (if ot_status ot AND ODS_CLOSED \<noteq> 0 \<or> ot_vol ot \<le> ot_vol_traded ot then
                    push_rtn ot track_id (\<lambda>m. m\<lparr>rm_msg_type := ODS_CANCEL_REJECT\<rparr>)
                      (upd_eng track_id (\<lambda>t. t\<lparr>ot_status := ot_status t OR ODS_CANCEL_REJECT\<rparr>) s)
                  else
                    push_rtn ot track_id
                      (\<lambda>m. m\<lparr>rm_msg_type := ODS_CANCELED, rm_vol := ot_vol ot - ot_vol_traded ot\<rparr>)
                      (upd_eng track_id (\<lambda>t. t\<lparr>ot_status := ot_status t OR ODS_CANCELED\<rparr>) s))
        in Inr (s1\<lparr>tf_queued_track_id := set_erase track_id (tf_queued_track_id s1)\<rparr>)))"

definition CTDHelperFake_doGetRtn :: "td_fake \<Rightarrow> rtn_msg option \<times> td_fake" where
  "CTDHelperFake_doGetRtn s =
     (case tf_rtn_msg_queue s of
        [] \<Rightarrow> (None, s)
      | m # ms \<Rightarrow> (Some m, s\<lparr>tf_hold_result := m, tf_rtn_msg_queue := ms\<rparr>))"

text \<open>
  The loop of \<^verbatim>\<open>on_tick\<close> over the working orders. It only erases the element it stands on, so it
  visits the elements of the set at its start.
\<close>

fun match_queue :: "nat list \<Rightarrow> string \<Rightarrow> td_tick \<Rightarrow> td_fake \<Rightarrow> (td_tick \<times> td_fake) res" where
  "match_queue [] instr tick s = Inr (tick, s)"
| "match_queue (k # ks) instr tick s =
     (if \<not> (tt_ask_vol tick \<noteq> 0 \<or> tt_bid_vol tick \<noteq> 0) then Inr (tick, s)
      else if k \<ge> length (tf_eng_order_track s) then Inl OutOfRange
      else if ot_instr (tf_eng_order_track s ! k) = instr then
        res_bind (CTDHelperFake_makeMatch k tick s) (\<lambda>(finished, tick1, s1).
          match_queue ks instr tick1
            (if finished then s1\<lparr>tf_queued_track_id := set_erase k (tf_queued_track_id s1)\<rparr> else s1))
      else match_queue ks instr tick s)"

definition CTDHelperFake_on_tick :: "market_data \<Rightarrow> td_fake \<Rightarrow> td_fake res" where
  "CTDHelperFake_on_tick pmd s =
     (let tick = \<lparr>tt_last_px = md_last_px pmd, tt_ask = md_ask_px pmd, tt_bid = md_bid_px pmd,
                  tt_ask_vol = md_ask_vol pmd, tt_bid_vol = md_bid_vol pmd\<rparr>
      in res_bind (match_queue (tf_queued_track_id s) (md_instr_str pmd) tick s) (\<lambda>(tick1, s1).
           Inr (s1\<lparr>tf_last_tick_wall := AList.update (md_instr_hash pmd) tick1 (tf_last_tick_wall s1)\<rparr>)))"

definition CTDHelperFake_on_switch_day :: "string \<Rightarrow> td_fake \<Rightarrow> td_fake" where
  "CTDHelperFake_on_switch_day day s =
     (ITDHelper_closeOrderTrack s)
       \<lparr>tf_eng_order_track := [], tf_last_tick_wall := [], tf_queued_track_id := []\<rparr>"

text \<open>The operations of the base class, with the virtual ones of this class.\<close>

definition CTDHelperFake_sendOrder ::
    "string \<Rightarrow> double \<Rightarrow> int \<Rightarrow> int \<Rightarrow> int \<Rightarrow> int \<Rightarrow> int \<Rightarrow> u32 \<Rightarrow> td_fake \<Rightarrow> (int \<times> td_fake) res" where
  "CTDHelperFake_sendOrder = ITDHelper_sendOrder CTDHelperFake_doSendOrder"

definition CTDHelperFake_deleteOrder :: "int \<Rightarrow> td_fake \<Rightarrow> (int \<times> td_fake) res" where
  "CTDHelperFake_deleteOrder = ITDHelper_deleteOrder CTDHelperFake_doDelOrder"

definition CTDHelperFake_getRtn :: "td_fake \<Rightarrow> rtn_msg option \<times> td_fake" where
  "CTDHelperFake_getRtn = ITDHelper_getRtn CTDHelperFake_doGetRtn"

end
