(* ===== verification/Td_Fake_Inv.thy ===== *)
theory Td_Fake_Inv
  imports Td_Fake
begin

text \<open>
  What the simulated exchange keeps: the client's record of an order, continued by the reports
  that are still in the queue, is the engine's record (\<open>pairs_ok\<close>), and the working orders are the
  open ones (\<open>queued_ok\<close>). The matching of one order is characterised by the volume it trades
  (\<open>match_vol\<close>) and its effect on the queue of reports.
\<close>

section \<open>The invariant\<close>

definition same_order :: "order_track \<Rightarrow> order_track \<Rightarrow> bool" where
  "same_order t e \<longleftrightarrow>
     ot_instr_hash e = ot_instr_hash t \<and> ot_instr e = ot_instr t \<and> ot_price e = ot_price t \<and>
     ot_vol e = ot_vol t \<and> ot_dir e = ot_dir t \<and> ot_off e = ot_off t"

definition reports_of :: "nat \<Rightarrow> rtn_msg list \<Rightarrow> rtn_msg list" where
  "reports_of k q = filter (\<lambda>m. rm_local_id m = int k) q"

definition eng_ok :: "order_track \<Rightarrow> bool" where
  "eng_ok e \<longleftrightarrow> dir_known (ot_dir e) \<and> 0 < ot_vol e \<and> ot_vol_traded e \<le> ot_vol e \<and>
     (ot_status e AND ODS_CLOSED \<noteq> 0 \<longleftrightarrow> snd (life_of e) \<or> ot_vol e \<le> ot_vol_traded e)"

definition pair_ok :: "nat \<Rightarrow> rtn_msg list \<Rightarrow> order_track \<Rightarrow> order_track \<Rightarrow> bool" where
  "pair_ok k q t e \<longleftrightarrow> same_order t e \<and> 0 \<le> ot_vol_traded t \<and> eng_ok e \<and>
     life_run (ot_vol e) (reports_of k q) (life_of t) = Some (life_of e)"

definition pairs_ok :: "order_track list \<Rightarrow> order_track list \<Rightarrow> rtn_msg list \<Rightarrow> bool" where
  "pairs_ok ts es q \<longleftrightarrow> length es = length ts \<and> (\<forall>k < length ts. pair_ok k q (ts ! k) (es ! k)) \<and>
     (\<forall>m \<in> set q. 0 \<le> rm_local_id m \<and> nat (rm_local_id m) < length ts)"

definition queued_ok :: "order_track list \<Rightarrow> nat list \<Rightarrow> bool" where
  "queued_ok es ks \<longleftrightarrow> sorted ks \<and> distinct ks \<and> (\<forall>k. k \<in> set ks \<longleftrightarrow> k < length es \<and> track_open (es ! k))"

definition fake_inv :: "td_fake \<Rightarrow> bool" where
  "fake_inv s \<longleftrightarrow>
     pairs_ok (th_order_track s) (tf_eng_order_track s) (tf_rtn_msg_queue s) \<and>
     queued_ok (tf_eng_order_track s) (tf_queued_track_id s)"

lemma fake_inv_init: "fake_inv (td_fake_init name wait)"
  by (simp add: fake_inv_def td_fake_init_def pairs_ok_def queued_ok_def)

lemma pairs_okD:
  assumes "pairs_ok ts es q" "k < length ts"
  shows "length es = length ts" "pair_ok k q (ts ! k) (es ! k)"
  using assms by (simp_all add: pairs_ok_def)

lemma life_step_mono: "life_step vol m l = Some l' \<Longrightarrow> fst l \<le> fst l' \<and> (snd l \<longrightarrow> snd l')"
  by (auto simp: life_step_def split: prod.splits if_splits)

lemma life_run_mono: "life_run vol ms l = Some l' \<Longrightarrow> fst l \<le> fst l' \<and> (snd l \<longrightarrow> snd l')"
proof (induction ms arbitrary: l)
  case (Cons m ms)
  then obtain x where x: "life_step vol m l = Some x" "life_run vol ms x = Some l'"
    by (auto split: bind_splits)
  from Cons.IH [OF x(2)] life_step_mono [OF x(1)] show ?case by auto
qed simp

lemma reports_of_snoc:
  "reports_of k (q @ [m]) = (if rm_local_id m = int k then reports_of k q @ [m] else reports_of k q)"
  by (simp add: reports_of_def)

text \<open>A report that continues the engine's life of its order, as the record of it changes.\<close>

lemma pairs_ok_report:
  assumes ok: "pairs_ok ts es q" and k: "k < length ts"
    and e: "same_order (es ! k) e" "eng_ok e" "rm_local_id m = int k"
      "life_step (ot_vol e) m (life_of (es ! k)) = Some (life_of e)"
  shows "pairs_ok ts (es[k := e]) (q @ [m])"
proof -
  have len: "length es = length ts" using ok by (simp add: pairs_ok_def)
  have "pair_ok j (q @ [m]) (ts ! j) (es[k := e] ! j)" if j: "j < length ts" for j
  proof (cases "j = k")
    case False
    with pairs_okD(2) [OF ok j] e(3) show ?thesis by (simp add: pair_ok_def reports_of_snoc)
  next
    case True
    with pairs_okD(2) [OF ok j] e len k show ?thesis
      by (auto simp: pair_ok_def reports_of_snoc life_run_snoc same_order_def)
  qed
  with ok len k e(3) show ?thesis by (auto simp: pairs_ok_def)
qed

text \<open>A change of the engine's record that is no step of its life.\<close>

lemma pairs_ok_silent:
  assumes "pairs_ok ts es q" "k < length ts"
    and "same_order (es ! k) e" "eng_ok e" "life_of e = life_of (es ! k)"
  shows "pairs_ok ts (es[k := e]) q"
  using assms by (auto simp: pairs_ok_def pair_ok_def same_order_def nth_list_update)

lemma queued_ok_silent:
  assumes "queued_ok es ks" "track_open e = track_open (es ! k)"
  shows "queued_ok (es[k := e]) ks"
proof -
  have "track_open (es[k := e] ! j) = track_open (es ! j)" if "j < length es" for j
    using that assms(2) by (cases "j = k") auto
  with assms(1) show ?thesis by (simp add: queued_ok_def cong: conj_cong)
qed

lemma set_erase_set [simp]: "set (set_erase k ks) = set ks - {k}"
  by (auto simp: set_erase_def)

lemma set_insert_set [simp]: "set (set_insert k ks) = insert k (set ks)"
  by (auto simp: set_insert_def set_insort_key)

lemma set_erase_ok: "sorted ks \<Longrightarrow> distinct ks \<Longrightarrow> sorted (set_erase k ks) \<and> distinct (set_erase k ks)"
  by (simp add: set_erase_def sorted_wrt_filter)

lemma set_insert_ok: "sorted ks \<Longrightarrow> distinct ks \<Longrightarrow> sorted (set_insert k ks) \<and> distinct (set_insert k ks)"
  by (simp add: set_insert_def sorted_insort distinct_insort)

lemma queued_ok_erase:
  assumes "queued_ok es ks" "\<not> track_open e"
  shows "queued_ok (es[k := e]) (set_erase k ks)"
proof -
  have "track_open (es[k := e] ! j) \<longleftrightarrow> j \<noteq> k \<and> track_open (es ! j)" if "j < length es" for j
    using that assms(2) by (cases "j = k") auto
  with assms(1) set_erase_ok [of ks k] show ?thesis
    by (auto simp: queued_ok_def simp del: nth_list_update cong: conj_cong)
qed

section \<open>Matching one order\<close>

definition match_vol :: "td_tick \<Rightarrow> order_track \<Rightarrow> int" where
  "match_vol tick ot =
     (let left = ot_vol ot - ot_vol_traded ot in
      if ot_dir ot = AT_CHAR_Buy then
        (if tt_ask tick \<le> ot_price ot \<and> tt_ask_vol tick > 0 \<and> left > 0 then min (tt_ask_vol tick) left
         else 0)
      else if ot_dir ot = AT_CHAR_Sell then
        (if tt_bid tick \<ge> ot_price ot \<and> tt_bid_vol tick > 0 \<and> left > 0 then min (tt_bid_vol tick) left
         else 0)
      else 0)"

definition match_price :: "td_tick \<Rightarrow> order_track \<Rightarrow> double" where
  "match_price tick ot =
     median (if ot_dir ot = AT_CHAR_Buy then tt_ask tick else tt_bid tick) (tt_last_px tick) (ot_price ot)"

definition match_tick :: "td_tick \<Rightarrow> order_track \<Rightarrow> td_tick" where
  "match_tick tick ot =
     (if ot_dir ot = AT_CHAR_Buy then tick\<lparr>tt_ask_vol := tt_ask_vol tick - match_vol tick ot\<rparr>
      else tick\<lparr>tt_bid_vol := tt_bid_vol tick - match_vol tick ot\<rparr>)"

definition match_msg :: "nat \<Rightarrow> td_tick \<Rightarrow> order_track \<Rightarrow> rtn_msg" where
  "match_msg k tick ot =
     (fillRtnMsg rtn_msg_init ot k)\<lparr>rm_vol := match_vol tick ot, rm_price := match_price tick ot,
        rm_msg_type := ODS_EXECUTION\<rparr>"

definition match_order :: "td_tick \<Rightarrow> order_track \<Rightarrow> order_track" where
  "match_order tick ot =
     (let ot1 = (if 0 < match_vol tick ot
                 then ot\<lparr>ot_vol_traded := ot_vol_traded ot + match_vol tick ot,
                         ot_status := ot_status ot OR ODS_EXECUTION\<rparr> else ot)
      in if ot_vol_traded ot1 \<ge> ot_vol ot1 then ot1\<lparr>ot_status := ot_status ot1 OR ODS_CLOSED\<rparr> else ot1)"

lemma match_msg_id [simp]: "rm_local_id (match_msg k tick ot) = int k"
  by (simp add: match_msg_def fillRtnMsg_def)

lemma match_vol_nonneg: "0 \<le> match_vol tick ot"
  by (auto simp: match_vol_def Let_def)

lemma makeMatch_eq:
  assumes "k < length (tf_eng_order_track s)"
  shows "CTDHelperFake_makeMatch k tick s =
    (let ot = tf_eng_order_track s ! k in
     Inr (ot_vol ot \<le> ot_vol_traded (match_order tick ot), match_tick tick ot,
       s\<lparr>tf_eng_order_track := (tf_eng_order_track s)[k := match_order tick ot],
         tf_rtn_msg_queue := tf_rtn_msg_queue s @
           (if 0 < match_vol tick ot then [match_msg k tick ot] else []),
         tf_wait_count := tf_wait_count s + (if 0 < match_vol tick ot then 1 else 0)\<rparr>))"
proof -
  let ?ot = "tf_eng_order_track s ! k"
  note defs = CTDHelperFake_makeMatch_def match_order_def match_vol_def match_price_def match_tick_def
      match_msg_def push_rtn_def upd_eng_def fillRtnMsg_def Let_def min_def
  have "\<not> k \<ge> length (tf_eng_order_track s)" using assms by simp
  note S = assms this
  consider (buy) "ot_dir ?ot = AT_CHAR_Buy" | (sell) "ot_dir ?ot = AT_CHAR_Sell"
    | (other) "ot_dir ?ot \<noteq> AT_CHAR_Buy" "ot_dir ?ot \<noteq> AT_CHAR_Sell" by blast
  then show ?thesis
  proof cases
    case buy
    show ?thesis
      by (cases "tt_ask tick \<le> ot_price ?ot \<and> tt_ask_vol tick > 0 \<and> ot_vol ?ot - ot_vol_traded ?ot > 0";
          cases "tt_ask_vol tick < ot_vol ?ot - ot_vol_traded ?ot")
        (use S buy in \<open>auto simp: defs\<close>)
  next
    case sell
    show ?thesis
      by (cases "tt_bid tick \<ge> ot_price ?ot \<and> tt_bid_vol tick > 0 \<and> ot_vol ?ot - ot_vol_traded ?ot > 0";
          cases "tt_bid_vol tick < ot_vol ?ot - ot_vol_traded ?ot")
        (use S sell in \<open>auto simp: defs\<close>)
  next
    case other
    then show ?thesis using S by (simp add: defs)
  qed
qed

lemma match_order_same:
  "same_order ot (match_order tick ot)"
  "ot_vol_traded (match_order tick ot) = ot_vol_traded ot + match_vol tick ot"
  "snd (life_of (match_order tick ot)) = snd (life_of ot)"
  "ot_status (match_order tick ot) AND ODS_CLOSED \<noteq> 0 \<longleftrightarrow>
     ot_status ot AND ODS_CLOSED \<noteq> 0 \<or> ot_vol ot \<le> ot_vol_traded (match_order tick ot)"
  using match_vol_nonneg [of tick ot]
  by (auto simp: match_order_def same_order_def life_of_def ods_ended_or ods_closed_or Let_def)

lemma match_vol_left:
  "ot_vol_traded ot \<le> ot_vol ot \<Longrightarrow> ot_vol_traded ot + match_vol tick ot \<le> ot_vol ot"
  by (auto simp: match_vol_def Let_def)

lemma match_order_ok: "eng_ok ot \<Longrightarrow> eng_ok (match_order tick ot)"
  using match_order_same [where ot = ot and tick = tick] match_vol_left [of ot tick]
    match_vol_nonneg [of tick ot]
  by (auto simp: eng_ok_def same_order_def)

lemma match_vol_open: "eng_ok ot \<Longrightarrow> 0 < match_vol tick ot \<Longrightarrow> ot_vol_traded ot < ot_vol ot"
  by (auto simp: match_vol_def Let_def split: if_splits)

lemma match_life:
  assumes "eng_ok ot" "track_open ot" "0 < match_vol tick ot"
  shows "life_step (ot_vol ot) (match_msg k tick ot) (life_of ot) = Some (life_of (match_order tick ot))"
  using assms match_order_same [where ot = ot and tick = tick] match_vol_left [of ot tick]
  by (auto simp: life_step_def life_of_def match_msg_def eng_ok_def track_open_def)

text \<open>
  Matching an open order and, where it is finished, erasing it from the working ones: the step the
  loop of \<^verbatim>\<open>on_tick\<close> and the sending of an order share.
\<close>

definition match_step :: "nat \<Rightarrow> td_tick \<Rightarrow> td_fake \<Rightarrow> (td_tick \<times> td_fake) res" where
  "match_step k tick s =
     res_bind (CTDHelperFake_makeMatch k tick s) (\<lambda>(finished, tick1, s1). Inr
       (tick1, if finished then s1\<lparr>tf_queued_track_id := set_erase k (tf_queued_track_id s1)\<rparr> else s1))"

lemma match_step_eq:
  assumes "k < length (tf_eng_order_track s)"
  shows "match_step k tick s =
    (let ot = tf_eng_order_track s ! k in
     Inr (match_tick tick ot,
       s\<lparr>tf_eng_order_track := (tf_eng_order_track s)[k := match_order tick ot],
         tf_rtn_msg_queue := tf_rtn_msg_queue s @
           (if 0 < match_vol tick ot then [match_msg k tick ot] else []),
         tf_wait_count := tf_wait_count s + (if 0 < match_vol tick ot then 1 else 0),
         tf_queued_track_id := (if ot_vol ot \<le> ot_vol_traded (match_order tick ot)
           then set_erase k (tf_queued_track_id s) else tf_queued_track_id s)\<rparr>))"
  using assms by (simp add: match_step_def makeMatch_eq Let_def)

lemma match_step_inv:
  assumes inv: "fake_inv s" and k: "k \<in> set (tf_queued_track_id s)"
  shows "\<exists>tick1 s1. match_step k tick s = Inr (tick1, s1) \<and> fake_inv s1 \<and>
     th_order_track s1 = th_order_track s"
proof -
  let ?es = "tf_eng_order_track s" and ?ot = "tf_eng_order_track s ! k"
  have ps: "pairs_ok (th_order_track s) ?es (tf_rtn_msg_queue s)"
    and qs: "queued_ok ?es (tf_queued_track_id s)"
    using inv by (simp_all add: fake_inv_def)
  have len: "length ?es = length (th_order_track s)" using ps by (simp add: pairs_ok_def)
  have kn: "k < length (th_order_track s)" and op: "track_open ?ot"
    using qs k len by (auto simp: queued_ok_def)
  have ok: "eng_ok ?ot" using pairs_okD(2) [OF ps kn] by (simp add: pair_ok_def)
  note M = match_order_same [where ot = ?ot and tick = tick]
  have vol: "ot_vol (match_order tick ?ot) = ot_vol ?ot" using M(1) by (simp add: same_order_def)
  have p: "pairs_ok (th_order_track s) (?es[k := match_order tick ?ot])
      (tf_rtn_msg_queue s @ (if 0 < match_vol tick ?ot then [match_msg k tick ?ot] else []))"
  proof (cases "0 < match_vol tick ?ot")
    case True
    have "pairs_ok (th_order_track s) (?es[k := match_order tick ?ot])
        (tf_rtn_msg_queue s @ [match_msg k tick ?ot])"
      by (rule pairs_ok_report [OF ps kn M(1) match_order_ok [OF ok]])
        (simp_all add: match_life [OF ok op True] vol)
    with True show ?thesis by simp
  next
    case False
    with match_vol_nonneg [of tick ?ot] have z: "match_vol tick ?ot = 0" by simp
    have "life_of (match_order tick ?ot) = life_of ?ot"
      using M(2,3) z by (simp add: life_of_def)
    from pairs_ok_silent [OF ps kn M(1) match_order_ok [OF ok] this] False show ?thesis by simp
  qed
  have op': "track_open (match_order tick ?ot) \<longleftrightarrow> \<not> ot_vol ?ot \<le> ot_vol_traded (match_order tick ?ot)"
    using op M(3) by (simp add: track_open_def vol) (auto simp: life_of_def)
  have q: "queued_ok (?es[k := match_order tick ?ot])
      (if ot_vol ?ot \<le> ot_vol_traded (match_order tick ?ot) then set_erase k (tf_queued_track_id s)
       else tf_queued_track_id s)"
    using queued_ok_erase [OF qs, of "match_order tick ?ot" k]
      queued_ok_silent [OF qs, of "match_order tick ?ot" k] op op' by auto
  show ?thesis
    using match_step_eq [of k s tick] kn len p q by (simp add: fake_inv_def Let_def)
qed

section \<open>The operations keep the invariant\<close>

lemma match_queue_Cons:
  "match_queue (k # ks) instr tick s =
     (if \<not> (tt_ask_vol tick \<noteq> 0 \<or> tt_bid_vol tick \<noteq> 0) then Inr (tick, s)
      else if k \<ge> length (tf_eng_order_track s) then Inl OutOfRange
      else if ot_instr (tf_eng_order_track s ! k) = instr
      then res_bind (match_step k tick s) (\<lambda>(tick1, s1). match_queue ks instr tick1 s1)
      else match_queue ks instr tick s)"
  by (auto simp: match_step_def res_bind_def split: sum.splits)

lemmas [simp del] = match_queue.simps(2)

lemma match_step_queued:
  assumes "match_step k tick s = Inr (tick1, s1)" "k < length (tf_eng_order_track s)"
  shows "set (tf_queued_track_id s) - {k} \<subseteq> set (tf_queued_track_id s1)"
  using assms by (auto simp: match_step_eq Let_def split: if_splits)

lemma match_queue_inv:
  assumes "fake_inv s" "distinct ks" "set ks \<subseteq> set (tf_queued_track_id s)"
  shows "\<exists>tick1 s1. match_queue ks instr tick s = Inr (tick1, s1) \<and> fake_inv s1 \<and>
     th_order_track s1 = th_order_track s"
  using assms
proof (induction ks arbitrary: tick s)
  case (Cons k ks)
  have k: "k \<in> set (tf_queued_track_id s)" using Cons.prems(3) by simp
  then have kn: "k < length (tf_eng_order_track s)"
    using Cons.prems(1) by (auto simp: fake_inv_def queued_ok_def)
  obtain tick1 s1 where m: "match_step k tick s = Inr (tick1, s1)" "fake_inv s1"
    "th_order_track s1 = th_order_track s"
    using match_step_inv [OF Cons.prems(1) k, of tick] by blast
  have "set ks \<subseteq> set (tf_queued_track_id s1)"
    using match_step_queued [OF m(1) kn] Cons.prems(2,3) by auto
  with Cons.IH [OF m(2), of tick1] Cons.IH [OF Cons.prems(1), of tick] Cons.prems m kn
  show ?case by (auto simp: match_queue_Cons)
qed simp

lemma fake_inv_wall [simp]: "fake_inv (s\<lparr>tf_last_tick_wall := w\<rparr>) = fake_inv s"
  by (simp add: fake_inv_def)

lemma on_tick_inv:
  assumes "fake_inv s"
  shows "\<exists>s1. CTDHelperFake_on_tick pmd s = Inr s1 \<and> fake_inv s1 \<and>
     th_order_track s1 = th_order_track s"
proof -
  let ?tick = "\<lparr>tt_last_px = md_last_px pmd, tt_ask = md_ask_px pmd, tt_bid = md_bid_px pmd,
                tt_ask_vol = md_ask_vol pmd, tt_bid_vol = md_bid_vol pmd\<rparr>"
  have "distinct (tf_queued_track_id s)" using assms by (simp add: fake_inv_def queued_ok_def)
  from match_queue_inv [OF assms this order.refl, of "md_instr_str pmd" ?tick]
  show ?thesis by (auto simp: CTDHelperFake_on_tick_def Let_def)
qed

text \<open>A new order.\<close>

definition fresh_order :: "order_track \<Rightarrow> bool" where
  "fresh_order t \<longleftrightarrow> dir_known (ot_dir t) \<and> 0 < ot_vol t \<and> ot_vol_traded t = 0 \<and> ot_status t = ODS_SEND"

lemma reports_of_none:
  assumes "pairs_ok ts es q" "length ts \<le> k"
  shows "reports_of k q = []"
  using assms by (auto simp: pairs_ok_def reports_of_def filter_empty_conv)

lemma same_order_refl [simp]: "same_order t t"
  by (simp add: same_order_def)

lemma pairs_ok_new:
  assumes ok: "pairs_ok ts es q" and t: "fresh_order t"
  shows "pairs_ok (ts @ [t]) (es @ [t]) q"
proof -
  have len: "length es = length ts" using ok by (simp add: pairs_ok_def)
  have "pair_ok (length ts) q t t"
    using t reports_of_none [OF ok order.refl]
    by (simp add: pair_ok_def eng_ok_def fresh_order_def life_of_def)
  then have "pair_ok k q ((ts @ [t]) ! k) ((es @ [t]) ! k)" if "k < length (ts @ [t])" for k
    using that pairs_okD(2) [OF ok, of k] len by (cases "k = length ts") (auto simp: nth_append)
  with ok len show ?thesis by (auto simp: pairs_ok_def)
qed

lemma pairs_ok_notice:
  assumes "pairs_ok ts es q" "k < length ts" "rm_local_id m = int k" "rm_msg_type m \<in> set notice_types"
  shows "pairs_ok ts es (q @ [m])"
proof -
  have "eng_ok (es ! k)" using pairs_okD(2) [OF assms(1,2)] by (simp add: pair_ok_def)
  moreover have "life_step (ot_vol (es ! k)) m (life_of (es ! k)) = Some (life_of (es ! k))"
    using assms(4) by (auto simp: life_step_def notice_types_def cancel_types_def ods_defs split: prod.splits)
  ultimately show ?thesis
    using pairs_ok_report [OF assms(1,2) same_order_refl _ assms(3)] by simp
qed

lemma queued_ok_new:
  assumes "queued_ok es ks" "track_open e"
  shows "queued_ok (es @ [e]) (set_insert (length es) ks)"
proof -
  have "track_open ((es @ [e]) ! j) \<longleftrightarrow> j = length es \<or> track_open (es ! j)" if "j < Suc (length es)" for j
    using that assms(2) by (cases "j = length es") (auto simp: nth_append)
  with assms(1) set_insert_ok [of ks "length es"] show ?thesis
    by (auto simp: queued_ok_def simp del: nth_append_length cong: conj_cong)
qed

lemma doSendOrder_inv:
  assumes inv: "fake_inv s" and t: "fresh_order t"
  shows "\<exists>s1. CTDHelperFake_doSendOrder (length (th_order_track s))
       (s\<lparr>th_order_track := th_order_track s @ [t]\<rparr>) = Inr s1 \<and> fake_inv s1 \<and>
     th_order_track s1 = th_order_track s @ [t]"
proof -
  let ?n = "length (th_order_track s)" and ?ts = "th_order_track s @ [t]"
  let ?q = "tf_rtn_msg_queue s" and ?es = "tf_eng_order_track s"
  let ?m = "\<lambda>ty. (fillRtnMsg rtn_msg_init t ?n)\<lparr>rm_msg_type := ty\<rparr>"
  let ?e = "t\<lparr>ot_status := ot_status t OR (ODS_TDSEND OR ODS_ACCEPT OR ODS_MARKET_ACCEPT)\<rparr>"
  have ps: "pairs_ok (th_order_track s) ?es ?q" and qs: "queued_ok ?es (tf_queued_track_id s)"
    using inv by (simp_all add: fake_inv_def)
  have len: "length ?es = ?n" using ps by (simp add: pairs_ok_def)
  have id: "rm_local_id (?m ty) = int ?n" "rm_msg_type (?m ty) = ty" for ty
    by (simp_all add: fillRtnMsg_def)
  have n: "?n < length ?ts" by simp
  have life: "life_of ?e = life_of t"
    by (simp add: life_of_def ods_ended_or)
  have p3: "pairs_ok ?ts (?es @ [t])
      (((?q @ [?m ODS_TDSEND]) @ [?m ODS_ACCEPT]) @ [?m ODS_MARKET_ACCEPT])"
    by (intro pairs_ok_notice [OF _ n id(1)] pairs_ok_new [OF ps t]) (simp_all add: id notice_types_def)
  have op: "track_open ?e"
    using t by (simp add: track_open_def life) (simp add: fresh_order_def life_of_def)
  have "eng_ok ?e"
    using t life by (auto simp: eng_ok_def fresh_order_def life_of_def ods_closed_or)
  with pairs_ok_silent [OF p3 n, of ?e] life
  have p4: "pairs_ok ?ts (?es @ [?e])
      (?q @ [?m ODS_TDSEND, ?m ODS_ACCEPT, ?m ODS_MARKET_ACCEPT])"
    by (simp add: same_order_def len nth_append list_update_append)
  let ?s6 = "s\<lparr>th_order_track := ?ts, tf_eng_order_track := ?es @ [?e],
      tf_rtn_msg_queue := ?q @ [?m ODS_TDSEND, ?m ODS_ACCEPT, ?m ODS_MARKET_ACCEPT],
      tf_queued_track_id := set_insert ?n (tf_queued_track_id s), tf_wait_count := tf_wait_count s + 3\<rparr>"
  have inv6: "fake_inv ?s6"
    using p4 queued_ok_new [OF qs op] len by (simp add: fake_inv_def)
  have dir: "(ot_dir t \<noteq> AT_CHAR_Buy \<and> ot_dir t \<noteq> AT_CHAR_Sell) = False"
    using t by (auto simp: fresh_order_def dir_known_def)
  note run = CTDHelperFake_doSendOrder_def push_rtn_def upd_eng_def Let_def nth_append list_update_append
  show ?thesis
  proof (cases "map_of (tf_last_tick_wall s) (ot_instr_hash t)")
    case None
    then have "CTDHelperFake_doSendOrder ?n (s\<lparr>th_order_track := ?ts\<rparr>) = Inr ?s6"
      using len by (simp add: run dir)
    with inv6 show ?thesis by simp
  next
    case (Some tick)
    then have "CTDHelperFake_doSendOrder ?n (s\<lparr>th_order_track := ?ts\<rparr>) =
        res_bind (match_step ?n tick ?s6) (\<lambda>(tick1, s7). Inr (s7\<lparr>tf_last_tick_wall :=
           AList.update (ot_instr_hash t) tick1 (tf_last_tick_wall s7)\<rparr>))"
      using len by (simp add: run dir match_step_def makeMatch_eq)
    with match_step_inv [OF inv6, of ?n tick] show ?thesis by auto
  qed
qed

lemma sendOrder_inv:
  assumes inv: "fake_inv s" and ok: "dir_known dir" "0 < vol"
  shows "\<exists>s1. CTDHelperFake_sendOrder instr price vol dir off acc_id stgid h s =
       Inr (int (length (th_order_track s)), s1) \<and> fake_inv s1 \<and>
     th_order_track s1 = th_order_track s @ [order_track_init
       \<lparr>ot_status := ODS_SEND, ot_instr_hash := h, ot_instr := take 30 (c_str instr), ot_price := price,
        ot_vol := vol, ot_dir := dir, ot_off := off, ot_stg_id := stgid, ot_acc_id := acc_id,
        ot_local_id := int (length (th_order_track s))\<rparr>]"
proof -
  let ?t = "order_track_init
       \<lparr>ot_status := ODS_SEND, ot_instr_hash := h, ot_instr := take 30 (c_str instr), ot_price := price,
        ot_vol := vol, ot_dir := dir, ot_off := off, ot_stg_id := stgid, ot_acc_id := acc_id,
        ot_local_id := int (length (th_order_track s))\<rparr>"
  have "fresh_order ?t" using ok by (simp add: fresh_order_def order_track_init_def)
  from doSendOrder_inv [OF inv this] show ?thesis
    by (auto simp: CTDHelperFake_sendOrder_def ITDHelper_sendOrder_def Let_def)
qed

text \<open>A cancel request.\<close>

lemma doDelOrder_inv:
  assumes inv: "fake_inv s" and k: "k < length (th_order_track s)"
  shows "\<exists>s1. CTDHelperFake_doDelOrder k s = Inr s1 \<and> fake_inv s1 \<and> th_order_track s1 = th_order_track s"
proof -
  let ?es = "tf_eng_order_track s" and ?q = "tf_rtn_msg_queue s" and ?e = "tf_eng_order_track s ! k"
  have ps: "pairs_ok (th_order_track s) ?es ?q" and qs: "queued_ok ?es (tf_queued_track_id s)"
    using inv by (simp_all add: fake_inv_def)
  have len: "length ?es = length (th_order_track s)" using ps by (simp add: pairs_ok_def)
  have ok: "eng_ok ?e" using pairs_okD(2) [OF ps k] by (simp add: pair_ok_def)
  note run = CTDHelperFake_doDelOrder_def push_rtn_def upd_eng_def Let_def
  show ?thesis
  proof (cases "ot_status ?e AND ODS_CLOSED \<noteq> 0 \<or> ot_vol ?e \<le> ot_vol_traded ?e")
    case True
    let ?e' = "?e\<lparr>ot_status := ot_status ?e OR ODS_CANCEL_REJECT\<rparr>"
    let ?m = "(fillRtnMsg rtn_msg_init ?e k)\<lparr>rm_msg_type := ODS_CANCEL_REJECT\<rparr>"
    have life: "life_of ?e' = life_of ?e" by (simp add: life_of_def ods_ended_or)
    have e': "eng_ok ?e'" "same_order ?e ?e'"
      using ok life by (auto simp: eng_ok_def ods_closed_or same_order_def)
    have p: "pairs_ok (th_order_track s) (?es[k := ?e']) (?q @ [?m])"
      by (rule pairs_ok_notice [OF pairs_ok_silent [OF ps k e'(2,1) life] k])
        (simp_all add: fillRtnMsg_def notice_types_def)
    have "\<not> track_open ?e"
      using True ok by (auto simp: track_open_def life_of_def eng_ok_def)
    with life have op: "\<not> track_open ?e'" by (simp add: track_open_def)
    show ?thesis
      using p queued_ok_erase [OF qs op, of k] True k len by (simp add: run fake_inv_def)
  next
    case False
    let ?e' = "?e\<lparr>ot_status := ot_status ?e OR ODS_CANCELED\<rparr>"
    let ?m = "(fillRtnMsg rtn_msg_init ?e k)\<lparr>rm_msg_type := ODS_CANCELED,
        rm_vol := ot_vol ?e - ot_vol_traded ?e\<rparr>"
    have "snd (life_of ?e')" by (simp add: life_of_def ods_ended_or)
    with ok have e': "eng_ok ?e'" "same_order ?e ?e'"
      by (simp_all add: eng_ok_def ods_closed_or same_order_def)
    have "\<not> snd (life_of ?e)" using ok False by (auto simp: eng_ok_def)
    then have "life_step (ot_vol ?e') ?m (life_of ?e) = Some (life_of ?e')"
      using False by (simp add: life_step_def life_of_def ods_ended_or)
    then have p: "pairs_ok (th_order_track s) (?es[k := ?e']) (?q @ [?m])"
      by (intro pairs_ok_report [OF ps k e'(2,1)]) (simp_all add: fillRtnMsg_def)
    have op: "\<not> track_open ?e'"
      by (simp add: track_open_def life_of_def ods_ended_or)
    show ?thesis
      using p queued_ok_erase [OF qs op, of k] False k len by (simp add: run fake_inv_def)
  qed
qed

text \<open>A change of the client's record that is no step of its life.\<close>

lemma fake_inv_upd_track:
  assumes "fake_inv s" "\<And>t. same_order t (f t) \<and> life_of (f t) = life_of t"
  shows "fake_inv (upd_track k f s)"
proof (cases "k < length (th_order_track s)")
  case True
  have *: "\<And>t e. same_order (f t) e = same_order t e" using assms(2) by (auto simp: same_order_def)
  have l: "life_of (f t) = life_of t" for t using assms(2) by blast
  then have "ot_vol_traded (f t) = ot_vol_traded t" for t by (simp add: life_of_def)
  with * l have "pair_ok j q (f t) e = pair_ok j q t e" for j q t e
    by (simp add: pair_ok_def)
  with assms(1) True show ?thesis
    by (simp add: fake_inv_def upd_track_def pairs_ok_def nth_list_update)
qed (use assms(1) in \<open>simp add: upd_track_def list_update_beyond\<close>)

lemma deleteOrder_inv:
  assumes inv: "fake_inv s"
  shows "\<exists>ret s1. CTDHelperFake_deleteOrder oid s = Inr (ret, s1) \<and> fake_inv s1 \<and>
     (ret = 0 \<or> ret = -1) \<and> (th_order_track s1 = th_order_track s \<or>
       0 \<le> oid \<and> th_order_track s1 = (th_order_track s)[nat oid := (th_order_track s ! nat oid)
         \<lparr>ot_status := ot_status (th_order_track s ! nat oid) OR ODS_CXLING\<rparr>])"
proof (cases "0 \<le> oid \<and> nat oid < length (th_order_track s)")
  case True
  then obtain s1 where d: "CTDHelperFake_doDelOrder (nat oid) s = Inr s1" "fake_inv s1"
    "th_order_track s1 = th_order_track s"
    using doDelOrder_inv [OF inv, of "nat oid"] by blast
  have "fake_inv (upd_track (nat oid) (\<lambda>t. t\<lparr>ot_status := ot_status t OR ODS_CXLING\<rparr>) s1)"
    by (rule fake_inv_upd_track [OF d(2)]) (simp add: same_order_def life_of_def ods_ended_or)
  with True d inv show ?thesis
    by (auto simp: CTDHelperFake_deleteOrder_def ITDHelper_deleteOrder_def Let_def upd_track_def)
qed (use inv in \<open>auto simp: CTDHelperFake_deleteOrder_def ITDHelper_deleteOrder_def\<close>)

text \<open>The client reads a report: its record of the order makes the step the report stands for.\<close>

lemma getRtn_inv:
  assumes inv: "fake_inv s"
  shows "(CTDHelperFake_getRtn s = (None, s) \<and> tf_rtn_msg_queue s = []) \<or>
    (\<exists>m k s1. CTDHelperFake_getRtn s = (Some m, s1) \<and> fake_inv s1 \<and> rm_local_id m = int k \<and>
       k < length (th_order_track s) \<and>
       th_order_track s1 = (th_order_track s)[k := track_rtn m (th_order_track s ! k)] \<and>
       tf_rtn_msg_queue s = m # tf_rtn_msg_queue s1 \<and>
       ot_vol_traded (th_order_track s ! k) \<ge> 0 \<and>
       life_step (ot_vol (th_order_track s ! k)) m (life_of (th_order_track s ! k)) =
         Some (life_of (track_rtn m (th_order_track s ! k))))"
proof (cases "tf_rtn_msg_queue s")
  case Nil
  then show ?thesis
    by (simp add: CTDHelperFake_getRtn_def ITDHelper_getRtn_def CTDHelperFake_doGetRtn_def)
next
  case (Cons m q)
  let ?ts = "th_order_track s" and ?es = "tf_eng_order_track s" and ?k = "nat (rm_local_id m)"
  have ps: "pairs_ok ?ts ?es (m # q)" and qs: "queued_ok ?es (tf_queued_track_id s)"
    using inv Cons by (simp_all add: fake_inv_def)
  have k: "0 \<le> rm_local_id m" "?k < length ?ts" "rm_local_id m = int ?k"
    using ps by (simp_all add: pairs_ok_def)
  have pk: "pair_ok ?k (m # q) (?ts ! ?k) (?es ! ?k)" using pairs_okD(2) [OF ps k(2)] .
  let ?t = "?ts ! ?k"
  have vol: "ot_vol (?es ! ?k) = ot_vol ?t" using pk by (simp add: pair_ok_def same_order_def)
  obtain l where l: "life_step (ot_vol ?t) m (life_of ?t) = Some l"
    "life_run (ot_vol ?t) (reports_of ?k q) l = Some (life_of (?es ! ?k))"
    using pk k(3) vol by (auto simp: pair_ok_def reports_of_def split: bind_splits)
  have l': "life_of (track_rtn m ?t) = l" by (rule track_rtn_life [OF l(1)])
  have "fst (life_of ?t) \<le> fst l" using life_step_mono [OF l(1)] by blast
  then have nn: "0 \<le> ot_vol_traded ?t" "0 \<le> ot_vol_traded (track_rtn m ?t)"
    using pk l' by (auto simp: pair_ok_def life_of_def)
  have "pair_ok j q (?ts[?k := track_rtn m ?t] ! j) (?es ! j)" if j: "j < length ?ts" for j
  proof (cases "j = ?k")
    case True
    with pk l(2) l' vol nn(2) k(2) show ?thesis by (simp add: pair_ok_def same_order_def)
  next
    case False
    with pairs_okD(2) [OF ps j] k(3) show ?thesis by (auto simp: pair_ok_def reports_of_def)
  qed
  with ps have "pairs_ok (?ts[?k := track_rtn m ?t]) ?es q" by (simp add: pairs_ok_def)
  with Cons k(1,2) qs l(1) l' nn(1) show ?thesis
    by (intro disjI2 exI [of _ m] exI [of _ ?k])
      (simp add: CTDHelperFake_getRtn_def ITDHelper_getRtn_def CTDHelperFake_doGetRtn_def fake_inv_def
        upd_track_def)
qed

end
