(* ===== verification/Td_Matching.thy ===== *)
theory Td_Matching
  imports Td_Fake_Inv
begin

text \<open>
  How a tick is shared out among the working orders: what the loop of \<^verbatim>\<open>on_tick\<close> guarantees about
  volumes, prices and the order in time. The two sides of the tick are treated alike: \<open>side_vol\<close> is
  what a direction can still trade against, \<open>crosses\<close> says that an order's price accepts the tick's.
\<close>

section \<open>One order\<close>

definition side_vol :: "int \<Rightarrow> td_tick \<Rightarrow> int" where
  "side_vol d tick = (if d = AT_CHAR_Buy then tt_ask_vol tick else tt_bid_vol tick)"

definition crosses :: "td_tick \<Rightarrow> order_track \<Rightarrow> bool" where
  "crosses tick ot \<longleftrightarrow>
     (if ot_dir ot = AT_CHAR_Buy then tt_ask tick \<le> ot_price ot else tt_bid tick \<ge> ot_price ot)"

lemma match_vol_side:
  "dir_known (ot_dir ot) \<Longrightarrow> match_vol tick ot =
     (if crosses tick ot \<and> 0 < side_vol (ot_dir ot) tick \<and> ot_vol_traded ot < ot_vol ot
      then min (side_vol (ot_dir ot) tick) (ot_vol ot - ot_vol_traded ot) else 0)"
  by (auto simp: match_vol_def crosses_def side_vol_def dir_known_def Let_def)

lemma side_vol_match:
  "dir_known (ot_dir ot) \<Longrightarrow> dir_known d \<Longrightarrow> side_vol d (match_tick tick ot) =
     side_vol d tick - (if d = ot_dir ot then match_vol tick ot else 0)"
  by (auto simp: side_vol_def match_tick_def dir_known_def)

lemma match_tick_prices [simp]:
  "tt_ask (match_tick tick ot) = tt_ask tick" "tt_bid (match_tick tick ot) = tt_bid tick"
  "tt_last_px (match_tick tick ot) = tt_last_px tick"
  "crosses (match_tick tick ot) o2 = crosses tick o2"
  by (simp_all add: match_tick_def crosses_def)

lemma median_between: "min a c \<le> median a b c \<and> median a b c \<le> max a c"
  by (auto simp: median_def)

text \<open>The price of a match lies between the tick's and the order's limit.\<close>

lemma match_price_between:
  assumes "dir_known (ot_dir ot)" "crosses tick ot"
  shows "if ot_dir ot = AT_CHAR_Buy then tt_ask tick \<le> match_price tick ot \<and> match_price tick ot \<le> ot_price ot
     else ot_price ot \<le> match_price tick ot \<and> match_price tick ot \<le> tt_bid tick"
  using assms median_between [of "tt_ask tick" "ot_price ot" "tt_last_px tick"]
    median_between [of "tt_bid tick" "ot_price ot" "tt_last_px tick"]
  by (auto simp: match_price_def crosses_def)

section \<open>All working orders\<close>

definition trd :: "td_fake \<Rightarrow> nat \<Rightarrow> int" where
  "trd s k = ot_vol_traded (tf_eng_order_track s ! k)"

text \<open>What the loop never changes, and that it moves volume from the tick to the orders.\<close>

definition orders_kept :: "td_fake \<Rightarrow> td_fake \<Rightarrow> bool" where
  "orders_kept s s1 \<longleftrightarrow> length (tf_eng_order_track s1) = length (tf_eng_order_track s) \<and>
     (\<forall>k < length (tf_eng_order_track s). same_order (tf_eng_order_track s ! k) (tf_eng_order_track s1 ! k))"

definition dirs_known :: "td_fake \<Rightarrow> bool" where
  "dirs_known s \<longleftrightarrow> (\<forall>e \<in> set (tf_eng_order_track s). dir_known (ot_dir e))"

lemma dirs_knownD: "dirs_known s \<Longrightarrow> k < length (tf_eng_order_track s) \<Longrightarrow> dir_known (ot_dir (tf_eng_order_track s ! k))"
  by (simp add: dirs_known_def)

lemma match_step_effect:
  assumes m: "match_step k tick s = Inr (tick1, s1)" and k: "k < length (tf_eng_order_track s)"
    and d: "dirs_known s"
  shows "orders_kept s s1" "dirs_known s1" "tick1 = match_tick tick (tf_eng_order_track s ! k)"
    and "\<And>j. trd s1 j = trd s j + (if j = k then match_vol tick (tf_eng_order_track s ! k) else 0)"
proof -
  let ?e = "tf_eng_order_track s ! k"
  have e: "tf_eng_order_track s1 = (tf_eng_order_track s)[k := match_order tick ?e]"
    and t: "tick1 = match_tick tick ?e"
    using m by (auto simp: match_step_eq [OF k] Let_def)
  show "tick1 = match_tick tick ?e" by (rule t)
  show "orders_kept s s1"
    using e k match_order_same(1) [of ?e tick] by (simp add: orders_kept_def nth_list_update)
  show "dirs_known s1"
    using d e match_order_same(1) [of ?e tick] dirs_knownD [OF d k]
    by (auto simp: dirs_known_def same_order_def dest!: set_update_subset_insert [THEN subsetD])
  show "trd s1 j = trd s j + (if j = k then match_vol tick ?e else 0)" for j
    using e k match_order_same(2) [where ot = ?e and tick = tick] by (simp add: trd_def nth_list_update)
qed

lemma same_order_trans: "same_order a b \<Longrightarrow> same_order b c \<Longrightarrow> same_order a c"
  by (simp add: same_order_def)

lemma orders_kept_trans: "orders_kept s t \<Longrightarrow> orders_kept t u \<Longrightarrow> orders_kept s u"
  unfolding orders_kept_def using same_order_trans by fastforce

lemma orders_kept_refl [simp]: "orders_kept s s"
  by (simp add: orders_kept_def)

lemma orders_keptD:
  "orders_kept s t \<Longrightarrow> k < length (tf_eng_order_track s) \<Longrightarrow>
   same_order (tf_eng_order_track s ! k) (tf_eng_order_track t ! k)"
  by (simp add: orders_kept_def)

text \<open>The cases of one round of the loop.\<close>

lemma match_queue_round:
  assumes "match_queue (k # ks) instr tick s = Inr (tick2, s2)"
  obtains (stop) "tt_ask_vol tick = 0" "tt_bid_vol tick = 0" "tick2 = tick" "s2 = s"
    | (skip) "k < length (tf_eng_order_track s)" "ot_instr (tf_eng_order_track s ! k) \<noteq> instr"
        "match_queue ks instr tick s = Inr (tick2, s2)"
    | (match) tick1 s1 where "k < length (tf_eng_order_track s)"
        "ot_instr (tf_eng_order_track s ! k) = instr" "match_step k tick s = Inr (tick1, s1)"
        "match_queue ks instr tick1 s1 = Inr (tick2, s2)"
  using assms
  by (auto simp: match_queue_Cons res_bind_Inr_iff not_le split: if_splits)

definition takes_part :: "int \<Rightarrow> string \<Rightarrow> td_tick \<Rightarrow> td_fake \<Rightarrow> nat \<Rightarrow> bool" where
  "takes_part d instr tick s k \<longleftrightarrow> k < length (tf_eng_order_track s) \<and>
     ot_instr (tf_eng_order_track s ! k) = instr \<and> ot_dir (tf_eng_order_track s ! k) = d \<and>
     crosses tick (tf_eng_order_track s ! k)"

lemma takes_part_kept:
  "orders_kept s t \<Longrightarrow> takes_part d instr (match_tick tick e) t k = takes_part d instr tick s k"
  using orders_keptD [of s t k]
  by (auto simp: takes_part_def same_order_def orders_kept_def crosses_def)

lemma match_queue_moves:
  assumes "match_queue ks instr tick s = Inr (tick2, s2)" "dirs_known s" "distinct ks" "dir_known d"
  shows "orders_kept s s2 \<and> dirs_known s2 \<and> (\<forall>k. trd s k \<le> trd s2 k) \<and> (\<forall>k. k \<notin> set ks \<longrightarrow> trd s2 k = trd s k) \<and>
     (\<forall>k. trd s k < trd s2 k \<longrightarrow> takes_part (ot_dir (tf_eng_order_track s ! k)) instr tick s k) \<and>
     side_vol d tick2 = side_vol d tick - (\<Sum>k\<leftarrow>ks. if k < length (tf_eng_order_track s) \<and>
       ot_dir (tf_eng_order_track s ! k) = d then trd s2 k - trd s k else 0)"
  using assms
proof (induction ks arbitrary: tick s)
  case (Cons k ks)
  show ?case
    using Cons.prems(1)
  proof (cases rule: match_queue_round)
    case stop
    have "(\<Sum>j\<leftarrow>xs. if P j then trd s j - trd s j else 0) = 0" for xs P
      by (induction xs) auto
    with Cons.prems(2) show ?thesis unfolding stop(3,4) by simp
  next
    case skip
    have "k \<notin> set ks" using Cons.prems(3) by simp
    with Cons.IH [OF skip(3) Cons.prems(2) _ Cons.prems(4)] Cons.prems(3) show ?thesis by simp
  next
    case (match tick1 s1)
    note E = match_step_effect [OF match(3,1) Cons.prems(2)]
    let ?e = "tf_eng_order_track s ! k"
    have IH: "orders_kept s1 s2 \<and> dirs_known s2 \<and> (\<forall>k. trd s1 k \<le> trd s2 k) \<and>
        (\<forall>k. k \<notin> set ks \<longrightarrow> trd s2 k = trd s1 k) \<and>
        (\<forall>k. trd s1 k < trd s2 k \<longrightarrow> takes_part (ot_dir (tf_eng_order_track s1 ! k)) instr tick1 s1 k) \<and>
        side_vol d tick2 = side_vol d tick1 - (\<Sum>k\<leftarrow>ks. if k < length (tf_eng_order_track s1) \<and>
          ot_dir (tf_eng_order_track s1 ! k) = d then trd s2 k - trd s1 k else 0)"
      using Cons.IH [OF match(4) E(2)] Cons.prems(3,4) by simp
    have kn: "k \<notin> set ks" using Cons.prems(3) by simp
    have dk: "dir_known (ot_dir ?e)" using dirs_knownD [OF Cons.prems(2) match(1)] .
    have same: "j < length (tf_eng_order_track s) \<Longrightarrow>
        ot_dir (tf_eng_order_track s1 ! j) = ot_dir (tf_eng_order_track s ! j)" for j
      using orders_keptD [OF E(1)] by (simp add: same_order_def)
    have len: "length (tf_eng_order_track s1) = length (tf_eng_order_track s)"
      using E(1) by (simp add: orders_kept_def)
    have sum: "(\<Sum>j\<leftarrow>ks. if j < length (tf_eng_order_track s1) \<and>
          ot_dir (tf_eng_order_track s1 ! j) = d then trd s2 j - trd s1 j else 0) =
        (\<Sum>j\<leftarrow>ks. if j < length (tf_eng_order_track s) \<and>
          ot_dir (tf_eng_order_track s ! j) = d then trd s2 j - trd s j else 0)"
      by (rule arg_cong [where f = sum_list], rule map_cong)
        (use E(4) kn len same in \<open>auto split: if_splits\<close>)
    have part: "takes_part (ot_dir (tf_eng_order_track s ! j)) instr tick s j" if "trd s j < trd s2 j" for j
    proof (cases "trd s1 j < trd s2 j")
      case True
      with IH have "takes_part (ot_dir (tf_eng_order_track s1 ! j)) instr tick1 s1 j" by blast
      then have "takes_part (ot_dir (tf_eng_order_track s1 ! j)) instr tick s j"
        unfolding E(3) takes_part_kept [OF E(1)] .
      then show ?thesis by (simp add: takes_part_def)
    next
      case False
      with that E(4) [of j] have "j = k" "0 < match_vol tick ?e" by (auto split: if_splits)
      then show ?thesis
        using match(1,2) match_vol_side [OF dk, of tick] by (auto simp: takes_part_def split: if_splits)
    qed
    have mono: "trd s j \<le> trd s2 j" for j
      using IH E(4) [of j] match_vol_nonneg [of tick ?e] by (smt (verit))
    have "side_vol d tick2 = side_vol d tick - (if d = ot_dir ?e then match_vol tick ?e else 0) -
        (\<Sum>j\<leftarrow>ks. if j < length (tf_eng_order_track s) \<and>
          ot_dir (tf_eng_order_track s ! j) = d then trd s2 j - trd s j else 0)"
      using IH sum side_vol_match [OF dk Cons.prems(4), of tick] E(3) by simp
    moreover have "trd s2 k - trd s k = match_vol tick ?e" using IH kn E(4) [of k] by simp
    ultimately show ?thesis
      using IH E(4) orders_kept_trans [OF E(1)] part mono match(1) by (auto split: if_splits)
  qed
qed simp


text \<open>The loop never takes more than the tick offers.\<close>

lemma match_queue_side:
  assumes "match_queue ks instr tick s = Inr (tick2, s2)" "dirs_known s" "dir_known d"
    and "0 \<le> side_vol d tick"
  shows "0 \<le> side_vol d tick2"
  using assms
proof (induction ks arbitrary: tick s)
  case (Cons k ks)
  show ?case
    using Cons.prems(1)
  proof (cases rule: match_queue_round)
    case stop
    with Cons.prems(4) show ?thesis by simp
  next
    case skip
    with Cons.IH [OF skip(3)] Cons.prems show ?thesis by simp
  next
    case (match tick1 s1)
    let ?e = "tf_eng_order_track s ! k"
    note E = match_step_effect [OF match(3,1) Cons.prems(2)]
    have dk: "dir_known (ot_dir ?e)" using dirs_knownD [OF Cons.prems(2) match(1)] .
    have "0 \<le> side_vol d tick1"
      using side_vol_match [OF dk Cons.prems(3), of tick] E(3) match_vol_side [OF dk, of tick]
        Cons.prems(4) by (auto split: if_splits)
    with Cons.IH [OF match(4) E(2) Cons.prems(3)] show ?thesis by simp
  qed
qed simp

text \<open>A side of the tick that is used up trades no more.\<close>

lemma match_queue_dry:
  assumes "match_queue ks instr tick s = Inr (tick2, s2)" "dirs_known s" "distinct ks" "dir_known d"
    and "side_vol d tick \<le> 0"
  shows "side_vol d tick2 \<le> 0 \<and> (\<forall>k < length (tf_eng_order_track s).
     ot_dir (tf_eng_order_track s ! k) = d \<longrightarrow> trd s2 k = trd s k)"
  using assms
proof (induction ks arbitrary: tick s)
  case (Cons k ks)
  show ?case
    using Cons.prems(1)
  proof (cases rule: match_queue_round)
    case stop
    with Cons.prems(5) show ?thesis by simp
  next
    case skip
    with Cons.IH [OF skip(3)] Cons.prems show ?thesis by simp
  next
    case (match tick1 s1)
    let ?e = "tf_eng_order_track s ! k"
    note E = match_step_effect [OF match(3,1) Cons.prems(2)]
    have dk: "dir_known (ot_dir ?e)" using dirs_knownD [OF Cons.prems(2) match(1)] .
    have z: "ot_dir ?e = d \<Longrightarrow> match_vol tick ?e = 0"
      using match_vol_side [OF dk, of tick] Cons.prems(5) by auto
    have "side_vol d tick1 \<le> 0"
      using side_vol_match [OF dk Cons.prems(4), of tick] E(3) z Cons.prems(5) by (cases "d = ot_dir ?e") auto
    with Cons.IH [OF match(4) E(2) _ Cons.prems(4)] Cons.prems(3)
    have "side_vol d tick2 \<le> 0 \<and> (\<forall>j < length (tf_eng_order_track s1).
        ot_dir (tf_eng_order_track s1 ! j) = d \<longrightarrow> trd s2 j = trd s1 j)" by simp
    moreover have "j < length (tf_eng_order_track s) \<Longrightarrow>
        ot_dir (tf_eng_order_track s1 ! j) = ot_dir (tf_eng_order_track s ! j)" for j
      using orders_keptD [OF E(1)] by (simp add: same_order_def)
    ultimately show ?thesis using E(1,4) z by (auto simp: orders_kept_def)
  qed
qed simp

text \<open>
  After the loop: an order that crosses the tick and is not full has used its side up, and an order
  only trades when every older one that crosses is full.
\<close>

lemma match_queue_fair:
  assumes "match_queue ks instr tick s = Inr (tick2, s2)" "dirs_known s" "distinct ks"
    and "k \<in> set ks" "takes_part d instr tick s k" "trd s2 k < ot_vol (tf_eng_order_track s ! k)"
  shows "side_vol d tick2 \<le> 0 \<and> (\<forall>j < length (tf_eng_order_track s). j \<in> set ks \<longrightarrow> k < j \<longrightarrow> sorted ks \<longrightarrow>
     ot_dir (tf_eng_order_track s ! j) = d \<longrightarrow> trd s2 j = trd s j)"
  using assms
proof (induction ks arbitrary: tick s)
  case (Cons i ks)
  have dk: "dir_known d"
    using Cons.prems(2,5) dirs_knownD by (auto simp: takes_part_def)
  show ?case
    using Cons.prems(1)
  proof (cases rule: match_queue_round)
    case stop
    then show ?thesis by (simp add: side_vol_def)
  next
    case skip
    then have ki: "k \<noteq> i" using Cons.prems(5) by (auto simp: takes_part_def)
    with Cons.IH [OF skip(3) Cons.prems(2)] Cons.prems(3-6) skip
      match_queue_moves [OF skip(3) Cons.prems(2) _ dk]
    show ?thesis by auto
  next
    case (match tick1 s1)
    let ?e = "tf_eng_order_track s ! i"
    note E = match_step_effect [OF match(3,1) Cons.prems(2)]
    have di: "dir_known (ot_dir ?e)" using dirs_knownD [OF Cons.prems(2) match(1)] .
    have same: "same_order (tf_eng_order_track s ! j) (tf_eng_order_track s1 ! j)"
      if "j < length (tf_eng_order_track s)" for j
      using orders_keptD [OF E(1) that] .
    have len: "length (tf_eng_order_track s1) = length (tf_eng_order_track s)"
      using E(1) by (simp add: orders_kept_def)
    have dist: "distinct ks" "i \<notin> set ks" using Cons.prems(3) by simp_all
    note mv = match_queue_moves [OF match(4) E(2) dist(1) dk]
    show ?thesis
    proof (cases "k = i")
      case True
      have ke: "ot_dir ?e = d" "crosses tick ?e" using Cons.prems(5) True by (simp_all add: takes_part_def)
      have "trd s2 i = trd s i + match_vol tick ?e" using mv E(4) [of i] dist(2) by simp
      with Cons.prems(6) True have "match_vol tick ?e < ot_vol ?e - ot_vol_traded ?e" by (simp add: trd_def)
      then have "side_vol d tick1 \<le> 0"
        using match_vol_side [OF di, of tick] side_vol_match [OF di dk, of tick] E(3) ke
        by (auto split: if_splits)
      from match_queue_dry [OF match(4) E(2) dist(1) dk this] E(4) same len True
      show ?thesis by (auto simp: same_order_def)
    next
      case False
      have k: "k < length (tf_eng_order_track s)" using Cons.prems(5) by (simp add: takes_part_def)
      have tp: "takes_part d instr tick1 s1 k"
        using Cons.prems(5) unfolding E(3) takes_part_kept [OF E(1)] .
      have "trd s2 k < ot_vol (tf_eng_order_track s1 ! k)"
        using Cons.prems(6) same [OF k] by (simp add: same_order_def)
      from Cons.IH [OF match(4) E(2) dist(1) _ tp this] Cons.prems(4) False
      have IH: "side_vol d tick2 \<le> 0 \<and> (\<forall>j < length (tf_eng_order_track s1). j \<in> set ks \<longrightarrow> k < j \<longrightarrow>
          sorted ks \<longrightarrow> ot_dir (tf_eng_order_track s1 ! j) = d \<longrightarrow> trd s2 j = trd s1 j)" by simp
      have "trd s2 j = trd s j" if "j < length (tf_eng_order_track s)" "j \<in> set (i # ks)" "k < j"
          "sorted (i # ks)" "ot_dir (tf_eng_order_track s ! j) = d" for j
      proof -
        have "k \<in> set ks" using Cons.prems(4) False by simp
        with that have "j \<noteq> i" by auto
        with that IH E(4) [of j] same [OF that(1)] len show ?thesis by (auto simp: same_order_def)
      qed
      with IH show ?thesis by blast
    qed
  qed
qed simp


text \<open>The reports of the loop: executions, each at a price between the tick's and the limit.\<close>

definition fair_report :: "td_tick \<Rightarrow> td_fake \<Rightarrow> rtn_msg \<Rightarrow> bool" where
  "fair_report tick s m \<longleftrightarrow> rm_msg_type m = ODS_EXECUTION \<and> 0 < rm_vol m \<and>
     (\<exists>k < length (tf_eng_order_track s). rm_local_id m = int k \<and>
        (if ot_dir (tf_eng_order_track s ! k) = AT_CHAR_Buy
         then tt_ask tick \<le> rm_price m \<and> rm_price m \<le> ot_price (tf_eng_order_track s ! k)
         else ot_price (tf_eng_order_track s ! k) \<le> rm_price m \<and> rm_price m \<le> tt_bid tick))"

lemma match_queue_reports:
  assumes "match_queue ks instr tick s = Inr (tick2, s2)" "dirs_known s"
  shows "\<exists>ms. tf_rtn_msg_queue s2 = tf_rtn_msg_queue s @ ms \<and> (\<forall>m \<in> set ms. fair_report tick s m)"
  using assms
proof (induction ks arbitrary: tick s)
  case (Cons k ks)
  show ?case
    using Cons.prems(1)
  proof (cases rule: match_queue_round)
    case stop
    then show ?thesis by simp
  next
    case skip
    with Cons.IH [OF skip(3) Cons.prems(2)] show ?thesis by blast
  next
    case (match tick1 s1)
    let ?e = "tf_eng_order_track s ! k"
    note E = match_step_effect [OF match(3,1) Cons.prems(2)]
    have dk: "dir_known (ot_dir ?e)" using dirs_knownD [OF Cons.prems(2) match(1)] .
    obtain ms where ms: "tf_rtn_msg_queue s2 = tf_rtn_msg_queue s1 @ ms"
      "\<forall>m \<in> set ms. fair_report tick1 s1 m"
      using Cons.IH [OF match(4) E(2)] by blast
    have kept: "fair_report tick1 s1 m \<Longrightarrow> fair_report tick s m" for m
      using E(1,3) by (auto simp: fair_report_def orders_kept_def same_order_def split: if_splits)
    have q1: "tf_rtn_msg_queue s1 = tf_rtn_msg_queue s @
        (if 0 < match_vol tick ?e then [match_msg k tick ?e] else [])"
      using match(3) by (auto simp: match_step_eq [OF match(1)] Let_def)
    have "fair_report tick s (match_msg k tick ?e)" if "0 < match_vol tick ?e"
    proof -
      have "crosses tick ?e" using that match_vol_side [OF dk, of tick] by (auto split: if_splits)
      from match_price_between [OF dk this] match(1) that show ?thesis
        by (simp add: fair_report_def match_msg_def fillRtnMsg_def split: if_splits)
    qed
    with ms q1 kept show ?thesis by auto
  qed
qed simp

lemma fake_inv_dirs: "fake_inv s \<Longrightarrow> dirs_known s"
  by (auto simp: fake_inv_def pairs_ok_def pair_ok_def eng_ok_def dirs_known_def in_set_conv_nth)

text \<open>The same for the whole of \<^verbatim>\<open>on_tick\<close>, which starts from the tick's volumes and the working set.\<close>

lemma on_tick_fair:
  assumes inv: "fake_inv s" and d: "dir_known d"
    and tick: "tick = \<lparr>tt_last_px = md_last_px pmd, tt_ask = md_ask_px pmd, tt_bid = md_bid_px pmd,
                 tt_ask_vol = md_ask_vol pmd, tt_bid_vol = md_bid_vol pmd\<rparr>"
  shows "\<exists>s1 rest ms. CTDHelperFake_on_tick pmd s = Inr s1 \<and>
    map_of (tf_last_tick_wall s1) (md_instr_hash pmd) = Some rest \<and>
    tf_rtn_msg_queue s1 = tf_rtn_msg_queue s @ ms \<and> (\<forall>m \<in> set ms. fair_report tick s m) \<and>
    (0 \<le> side_vol d tick \<longrightarrow> 0 \<le> side_vol d rest) \<and>
    side_vol d rest = side_vol d tick - (\<Sum>k\<leftarrow>tf_queued_track_id s.
      if ot_dir (tf_eng_order_track s ! k) = d then trd s1 k - trd s k else 0) \<and>
    (\<forall>k < length (tf_eng_order_track s). trd s k \<le> trd s1 k \<and> trd s1 k \<le> ot_vol (tf_eng_order_track s ! k) \<and>
       (trd s k < trd s1 k \<longrightarrow> k \<in> set (tf_queued_track_id s) \<and>
          takes_part (ot_dir (tf_eng_order_track s ! k)) (md_instr_str pmd) tick s k)) \<and>
    (\<forall>k \<in> set (tf_queued_track_id s). takes_part d (md_instr_str pmd) tick s k \<longrightarrow>
       trd s1 k < ot_vol (tf_eng_order_track s ! k) \<longrightarrow> side_vol d rest \<le> 0 \<and>
       (\<forall>j < length (tf_eng_order_track s). k < j \<longrightarrow> ot_dir (tf_eng_order_track s ! j) = d \<longrightarrow>
          trd s1 j = trd s j))"
proof -
  let ?ks = "tf_queued_track_id s"
  have q: "sorted ?ks" "distinct ?ks" "\<And>k. k \<in> set ?ks \<Longrightarrow> k < length (tf_eng_order_track s)"
    using inv by (simp_all add: fake_inv_def queued_ok_def)
  obtain rest s2 where m: "match_queue ?ks (md_instr_str pmd) tick s = Inr (rest, s2)" "fake_inv s2"
    using match_queue_inv [OF inv q(2) order.refl, of "md_instr_str pmd" tick] by blast
  let ?s1 = "s2\<lparr>tf_last_tick_wall := AList.update (md_instr_hash pmd) rest (tf_last_tick_wall s2)\<rparr>"
  have run: "CTDHelperFake_on_tick pmd s = Inr ?s1"
    using m(1) by (simp add: CTDHelperFake_on_tick_def tick)
  have trd: "trd ?s1 k = trd s2 k" for k by (simp add: trd_def)
  note mv = match_queue_moves [OF m(1) fake_inv_dirs [OF inv] q(2) d]
  have len: "length (tf_eng_order_track s2) = length (tf_eng_order_track s)"
    using mv by (simp add: orders_kept_def)
  have full: "trd s2 k \<le> ot_vol (tf_eng_order_track s ! k)" if "k < length (tf_eng_order_track s)" for k
  proof -
    have "eng_ok (tf_eng_order_track s2 ! k)"
      using that len m(2) by (auto simp: fake_inv_def pairs_ok_def pair_ok_def)
    moreover have "same_order (tf_eng_order_track s ! k) (tf_eng_order_track s2 ! k)"
      using mv that by (simp add: orders_kept_def)
    ultimately show ?thesis by (simp add: trd_def eng_ok_def same_order_def)
  qed
  have "(\<Sum>k\<leftarrow>?ks. if k < length (tf_eng_order_track s) \<and> ot_dir (tf_eng_order_track s ! k) = d
      then trd s2 k - trd s k else 0) =
    (\<Sum>k\<leftarrow>?ks. if ot_dir (tf_eng_order_track s ! k) = d then trd ?s1 k - trd s k else 0)"
    by (rule arg_cong [where f = sum_list], rule map_cong) (use q(3) in \<open>auto simp: trd\<close>)
  with mv have vol: "side_vol d rest = side_vol d tick - (\<Sum>k\<leftarrow>?ks.
      if ot_dir (tf_eng_order_track s ! k) = d then trd ?s1 k - trd s k else 0)" by simp
  obtain ms where ms: "tf_rtn_msg_queue ?s1 = tf_rtn_msg_queue s @ ms" "\<forall>m \<in> set ms. fair_report tick s m"
    using match_queue_reports [OF m(1) fake_inv_dirs [OF inv]] by auto
  have side: "0 \<le> side_vol d tick \<longrightarrow> 0 \<le> side_vol d rest"
    using match_queue_side [OF m(1) fake_inv_dirs [OF inv] d] by blast
  have moved: "\<forall>k < length (tf_eng_order_track s). trd s k \<le> trd ?s1 k \<and>
      trd ?s1 k \<le> ot_vol (tf_eng_order_track s ! k) \<and> (trd s k < trd ?s1 k \<longrightarrow> k \<in> set ?ks \<and>
        takes_part (ot_dir (tf_eng_order_track s ! k)) (md_instr_str pmd) tick s k)"
    unfolding trd using mv full by force
  have fair: "\<forall>k \<in> set ?ks. takes_part d (md_instr_str pmd) tick s k \<longrightarrow>
      trd ?s1 k < ot_vol (tf_eng_order_track s ! k) \<longrightarrow> side_vol d rest \<le> 0 \<and>
      (\<forall>j < length (tf_eng_order_track s). k < j \<longrightarrow> ot_dir (tf_eng_order_track s ! j) = d \<longrightarrow>
        trd ?s1 j = trd s j)"
    unfolding trd
    using match_queue_fair [OF m(1) fake_inv_dirs [OF inv] q(2), where d = d] q(1) mv by blast
  have "map_of (tf_last_tick_wall ?s1) (md_instr_hash pmd) = Some rest" by simp
  with run ms side vol moved fair show ?thesis by blast
qed

end
