(* ===== verification/Exchange_Properties.thy ===== *)
theory Exchange_Properties
  imports Td_Matching
begin

text \<open>
  The simulated exchange \<^verbatim>\<open>td/CTDHelperFake\<close> as a machine: a strategy sends and cancels orders and
  reads reports, the market sends ticks. Its properties: how a tick is shared out, that client and
  exchange agree up to the reports still in the queue, that they agree once these are read, and what
  a day switch leaves behind.
\<close>

section \<open>The machine\<close>

datatype td_event =
    TdSend string double int int int int int u32
  | TdDelete int
  | TdGetRtn
  | TdTick market_data

fun td_step :: "td_event \<Rightarrow> td_fake \<Rightarrow> td_fake res" where
  "td_step (TdSend instr price vol dir off acc_id stgid h) s =
     res_bind (CTDHelperFake_sendOrder instr price vol dir off acc_id stgid h s) (\<lambda>(_, s1). Inr s1)"
| "td_step (TdDelete order_id) s =
     res_bind (CTDHelperFake_deleteOrder order_id s) (\<lambda>(_, s1). Inr s1)"
| "td_step TdGetRtn s = Inr (snd (CTDHelperFake_getRtn s))"
| "td_step (TdTick pmd) s = CTDHelperFake_on_tick pmd s"

text \<open>Orders a strategy may send: of a known direction, for at least a lot.\<close>

fun td_legal :: "td_event \<Rightarrow> td_fake \<Rightarrow> bool" where
  "td_legal (TdSend instr price vol dir off acc_id stgid h) s \<longleftrightarrow> dir_known dir \<and> 0 < vol"
| "td_legal _ s \<longleftrightarrow> True"

lemma td_step_ok:
  assumes inv: "fake_inv s" and legal: "td_legal e s"
  shows "\<exists>t. td_step e s = Inr t \<and> fake_inv t"
proof (cases e)
  case (TdSend instr price vol dir off acc_id stgid h)
  with legal sendOrder_inv [OF inv, of dir vol instr price off acc_id stgid h] show ?thesis by auto
next
  case (TdDelete order_id)
  with deleteOrder_inv [OF inv, of order_id] show ?thesis by auto
next
  case TdGetRtn
  with getRtn_inv [OF inv] inv show ?thesis by auto
next
  case (TdTick pmd)
  with on_tick_inv [OF inv, of pmd] show ?thesis by auto
qed

interpretation exchange: guarded_machine td_step td_legal fake_inv
  by unfold_locales (rule td_step_ok)

section \<open>Reading reports\<close>

text \<open>The volume a list of reports executes, and whether one of them ends the order.\<close>

definition exec_vol :: "rtn_msg list \<Rightarrow> int" where
  "exec_vol ms = (\<Sum>m\<leftarrow>ms. if rm_msg_type m = ODS_EXECUTION then rm_vol m else 0)"

definition ends_order :: "rtn_msg list \<Rightarrow> bool" where
  "ends_order ms = list_ex (\<lambda>m. rm_msg_type m \<in> set cancel_types) ms"

lemma life_run_totals:
  "life_run vol ms l = Some l' \<Longrightarrow>
   fst l' = fst l + exec_vol ms \<and> (snd l' \<longleftrightarrow> snd l \<or> ends_order ms)"
proof (induction ms arbitrary: l)
  case (Cons m ms)
  then obtain x where x: "life_step vol m l = Some x" "life_run vol ms x = Some l'"
    by (auto split: bind_splits)
  from x(1) have "fst x = fst l + (if rm_msg_type m = ODS_EXECUTION then rm_vol m else 0)"
    "snd x \<longleftrightarrow> snd l \<or> rm_msg_type m \<in> set cancel_types"
    by (auto simp: life_step_def notice_types_def cancel_types_def ods_defs split: prod.splits if_splits)
  with Cons.IH [OF x(2)] show ?case by (simp add: exec_vol_def ends_order_def)
qed (simp add: exec_vol_def ends_order_def)

lemma getRtn_read:
  assumes "fake_inv s" "tf_rtn_msg_queue s = m # q"
  shows "\<exists>s1. CTDHelperFake_getRtn s = (Some m, s1) \<and> fake_inv s1 \<and> tf_rtn_msg_queue s1 = q \<and>
     tf_eng_order_track s1 = tf_eng_order_track s"
proof -
  have "tf_eng_order_track (snd (CTDHelperFake_getRtn s)) = tf_eng_order_track s"
    using assms(2)
    by (simp add: CTDHelperFake_getRtn_def ITDHelper_getRtn_def CTDHelperFake_doGetRtn_def upd_track_def)
  with getRtn_inv [OF assms(1)] assms(2) show ?thesis by auto
qed

lemma drain:
  "fake_inv s \<Longrightarrow> \<exists>s1. run_steps td_step (replicate (length (tf_rtn_msg_queue s)) TdGetRtn) s = Inr s1 \<and>
     fake_inv s1 \<and> tf_rtn_msg_queue s1 = [] \<and> tf_eng_order_track s1 = tf_eng_order_track s"
proof (induction "tf_rtn_msg_queue s" arbitrary: s)
  case (Cons m q)
  obtain s1 where s1: "CTDHelperFake_getRtn s = (Some m, s1)" "fake_inv s1" "tf_rtn_msg_queue s1 = q"
    "tf_eng_order_track s1 = tf_eng_order_track s"
    using getRtn_read [OF Cons.prems Cons.hyps(2) [symmetric]] by blast
  with Cons.hyps(1) [of s1] Cons.hyps(2) [symmetric] show ?case by simp
qed simp

lemma fake_inv_pair:
  assumes "fake_inv s" "k < length (th_order_track s)"
  shows "pair_ok k (tf_rtn_msg_queue s) (th_order_track s ! k) (tf_eng_order_track s ! k)"
  using assms pairs_okD(2) by (auto simp: fake_inv_def)

section \<open>An example\<close>

text \<open>Two buy orders of five lots, and a tick that offers seven lots below their limit.\<close>

definition ex_tick :: market_data where
  "ex_tick = market_data_init
     \<lparr>md_instr_hash := 7, md_instr_str := ''IF'', md_last_px := 99, md_ask_px := 99, md_ask_vol := 7,
      md_bid_px := 98, md_bid_vol := 4\<rparr>"

definition ex_orders :: "td_event list" where
  "ex_orders =
     [TdSend ''IF'' 100 5 AT_CHAR_Buy AT_CHAR_Open 0 0 7, TdSend ''IF'' 101 5 AT_CHAR_Buy AT_CHAR_Open 0 0 7]"

lemma ex_orders_legal: "legal_run td_step td_legal ex_orders (td_fake_init ''fake'' 0)"
  by (simp add: ex_orders_def dir_known_def split: sum.split)

lemma ex_orders_eval:
  "(case run_steps td_step ex_orders (td_fake_init ''fake'' 0) of Inl f \<Rightarrow> False | Inr s \<Rightarrow>
     length (tf_rtn_msg_queue s) = 6 \<and> tf_queued_track_id s = [0, 1] \<and>
     map (\<lambda>e. (ot_instr e, ot_dir e, ot_price e, ot_vol e, ot_vol_traded e)) (tf_eng_order_track s) =
       [(''IF'', AT_CHAR_Buy, 100, 5, 0), (''IF'', AT_CHAR_Buy, 101, 5, 0)])"
  by code_simp

lemma ex_orders_run:
  obtains s where "run_steps td_step ex_orders (td_fake_init ''fake'' 0) = Inr s"
    "length (tf_rtn_msg_queue s) = 6" "tf_queued_track_id s = [0, 1]"
    "map (\<lambda>e. (ot_instr e, ot_dir e, ot_price e, ot_vol e, ot_vol_traded e)) (tf_eng_order_track s) =
       [(''IF'', AT_CHAR_Buy, 100, 5, 0), (''IF'', AT_CHAR_Buy, 101, 5, 0)]"
  using ex_orders_eval by (auto split: sum.splits)

section \<open>Properties\<close>

text \<open>
  C22. Along every run of orders, cancels, ticks and reads the exchange never leaves its vectors, it
  keeps the same orders as its client, its working set is exactly the set of open orders, and the
  queued reports are exactly what the client has not seen: for every order the exchange's traded
  volume is the client's plus what the queue executes, and the order has ended at the exchange just
  if the client knows so or the queue says so. No order ever trades more than its volume.
\<close>

theorem reports_complete_the_client:
  assumes "legal_run td_step td_legal es (td_fake_init name wait)"
  shows "\<exists>s. run_steps td_step es (td_fake_init name wait) = Inr s \<and>
    length (tf_eng_order_track s) = length (th_order_track s) \<and>
    (\<forall>k < length (th_order_track s).
       let t = th_order_track s ! k; e = tf_eng_order_track s ! k; ms = reports_of k (tf_rtn_msg_queue s) in
       same_order t e \<and> 0 \<le> ot_vol_traded t \<and> ot_vol_traded t \<le> ot_vol_traded e \<and>
       ot_vol_traded e \<le> ot_vol e \<and> ot_vol_traded e = ot_vol_traded t + exec_vol ms \<and>
       (snd (life_of e) \<longleftrightarrow> snd (life_of t) \<or> ends_order ms) \<and>
       (k \<in> set (tf_queued_track_id s) \<longleftrightarrow> track_open e))"
proof -
  from exchange.run_inv [OF fake_inv_init assms] obtain s where
    s: "run_steps td_step es (td_fake_init name wait) = Inr s" "fake_inv s" by blast
  have len: "length (tf_eng_order_track s) = length (th_order_track s)"
    using s(2) by (simp add: fake_inv_def pairs_ok_def)
  have "let t = th_order_track s ! k; e = tf_eng_order_track s ! k; ms = reports_of k (tf_rtn_msg_queue s) in
       same_order t e \<and> 0 \<le> ot_vol_traded t \<and> ot_vol_traded t \<le> ot_vol_traded e \<and>
       ot_vol_traded e \<le> ot_vol e \<and> ot_vol_traded e = ot_vol_traded t + exec_vol ms \<and>
       (snd (life_of e) \<longleftrightarrow> snd (life_of t) \<or> ends_order ms) \<and>
       (k \<in> set (tf_queued_track_id s) \<longleftrightarrow> track_open e)" if k: "k < length (th_order_track s)" for k
  proof -
    note P = fake_inv_pair [OF s(2) k, unfolded pair_ok_def]
    then have run: "life_run (ot_vol (tf_eng_order_track s ! k)) (reports_of k (tf_rtn_msg_queue s))
        (life_of (th_order_track s ! k)) = Some (life_of (tf_eng_order_track s ! k))" by blast
    from life_run_totals [OF run] life_run_mono [OF run]
    have "ot_vol_traded (tf_eng_order_track s ! k) =
          ot_vol_traded (th_order_track s ! k) + exec_vol (reports_of k (tf_rtn_msg_queue s))"
      "ot_vol_traded (th_order_track s ! k) \<le> ot_vol_traded (tf_eng_order_track s ! k)"
      "snd (life_of (tf_eng_order_track s ! k)) \<longleftrightarrow> snd (life_of (th_order_track s ! k)) \<or>
          ends_order (reports_of k (tf_rtn_msg_queue s))"
      by (simp_all add: life_of_def)
    moreover have "k \<in> set (tf_queued_track_id s) \<longleftrightarrow> track_open (tf_eng_order_track s ! k)"
      using s(2) k len by (simp add: fake_inv_def queued_ok_def)
    ultimately show ?thesis using P by (simp add: eng_ok_def Let_def)
  qed
  with s(1) len show ?thesis by blast
qed

theorem reports_complete_the_client_witness:
  "\<exists>s. run_steps td_step ex_orders (td_fake_init ''fake'' 0) = Inr s \<and> length (th_order_track s) = 2 \<and>
     (\<forall>k < 2. ot_vol_traded (tf_eng_order_track s ! k) =
        ot_vol_traded (th_order_track s ! k) + exec_vol (reports_of k (tf_rtn_msg_queue s)))"
proof -
  obtain s where s: "run_steps td_step ex_orders (td_fake_init ''fake'' 0) = Inr s"
    "length (tf_eng_order_track s) = 2"
    by (rule ex_orders_run) (auto dest: arg_cong [where f = length])
  with reports_complete_the_client [OF ex_orders_legal] show ?thesis
    by (auto simp: Let_def)
qed

text \<open>
  C23. The client catches up: from every reachable state, reading as many reports as the queue holds
  succeeds, leaves the queue empty so that a further read finds nothing, changes no order of the
  exchange, and then the client's record of every order has the exchange's traded volume and state.
\<close>

theorem client_catches_up:
  assumes "legal_run td_step td_legal es (td_fake_init name wait)"
    and "run_steps td_step es (td_fake_init name wait) = Inr s"
  shows "\<exists>s1. run_steps td_step (replicate (length (tf_rtn_msg_queue s)) TdGetRtn) s = Inr s1 \<and>
    CTDHelperFake_getRtn s1 = (None, s1) \<and> tf_eng_order_track s1 = tf_eng_order_track s \<and>
    map life_of (th_order_track s1) = map life_of (tf_eng_order_track s)"
proof -
  from exchange.run_inv [OF fake_inv_init assms(1)] assms(2) have inv: "fake_inv s" by simp
  from drain [OF inv] obtain s1 where
    s1: "run_steps td_step (replicate (length (tf_rtn_msg_queue s)) TdGetRtn) s = Inr s1" "fake_inv s1"
      "tf_rtn_msg_queue s1 = []" "tf_eng_order_track s1 = tf_eng_order_track s" by blast
  have "map life_of (th_order_track s1) = map life_of (tf_eng_order_track s1)"
    by (rule nth_equalityI)
      (use s1(2,3) fake_inv_pair [OF s1(2)] in
        \<open>auto simp: fake_inv_def pairs_ok_def pair_ok_def reports_of_def\<close>)
  moreover have "CTDHelperFake_getRtn s1 = (None, s1)"
    using getRtn_inv [OF s1(2)] s1(3) by auto
  ultimately show ?thesis using s1(1,4) by auto
qed

theorem client_catches_up_witness:
  "\<exists>s s1. run_steps td_step ex_orders (td_fake_init ''fake'' 0) = Inr s \<and>
     run_steps td_step (replicate 6 TdGetRtn) s = Inr s1 \<and> CTDHelperFake_getRtn s1 = (None, s1) \<and>
     map life_of (th_order_track s1) = map life_of (tf_eng_order_track s)"
proof -
  obtain s where s: "run_steps td_step ex_orders (td_fake_init ''fake'' 0) = Inr s"
    "length (tf_rtn_msg_queue s) = 6"
    by (rule ex_orders_run)
  from client_catches_up [OF ex_orders_legal s(1)] s show ?thesis by auto
qed

text \<open>
  C20. A tick is shared out fairly. In every reachable state, and for both sides of the market,
  what the orders of a direction trade on a tick together is what the side of the tick loses, only
  open orders of the tick's instrument whose limit accepts its price trade, and none beyond its
  volume or the side's. The side is used up before an order that accepts the price is left with a rest, and an
  order younger than such an order trades nothing. Every report the tick adds is an execution at a
  price between the tick's and the order's limit.
\<close>

theorem tick_is_matched_fairly:
  assumes "legal_run td_step td_legal es (td_fake_init name wait)"
    and "run_steps td_step es (td_fake_init name wait) = Inr s" and "dir_known d"
    and "tick = \<lparr>tt_last_px = md_last_px pmd, tt_ask = md_ask_px pmd, tt_bid = md_bid_px pmd,
                 tt_ask_vol = md_ask_vol pmd, tt_bid_vol = md_bid_vol pmd\<rparr>"
  shows "\<exists>s1 rest ms. CTDHelperFake_on_tick pmd s = Inr s1 \<and>
    map_of (tf_last_tick_wall s1) (md_instr_hash pmd) = Some rest \<and>
    tf_rtn_msg_queue s1 = tf_rtn_msg_queue s @ ms \<and> (\<forall>m \<in> set ms. fair_report tick s m) \<and>
    (0 \<le> side_vol d tick \<longrightarrow> 0 \<le> side_vol d rest) \<and>
    side_vol d rest = side_vol d tick - (\<Sum>k\<leftarrow>tf_queued_track_id s.
      if ot_dir (tf_eng_order_track s ! k) = d then trd s1 k - trd s k else 0) \<and>
    (\<forall>k < length (tf_eng_order_track s). trd s k \<le> trd s1 k \<and> trd s1 k \<le> ot_vol (tf_eng_order_track s ! k) \<and>
       (trd s k < trd s1 k \<longrightarrow> k \<in> set (tf_queued_track_id s) \<and>
          takes_part (ot_dir (tf_eng_order_track s ! k)) (md_instr_str pmd) tick s k)) \<and>
    (\<forall>k \<in> set (tf_queued_track_id s). takes_part d (md_instr_str pmd) tick s k \<longrightarrow>
       trd s1 k < ot_vol (tf_eng_order_track s ! k) \<longrightarrow> side_vol d rest \<le> 0 \<and>
       (\<forall>j < length (tf_eng_order_track s). k < j \<longrightarrow> ot_dir (tf_eng_order_track s ! j) = d \<longrightarrow>
          trd s1 j = trd s j))"
proof -
  from exchange.run_inv [OF fake_inv_init assms(1)] assms(2) have inv: "fake_inv s" by simp
  from on_tick_fair [OF inv assms(3,4)] show ?thesis .
qed

theorem tick_is_matched_fairly_witness:
  "\<exists>s s1. run_steps td_step ex_orders (td_fake_init ''fake'' 0) = Inr s \<and>
     CTDHelperFake_on_tick ex_tick s = Inr s1 \<and> trd s1 0 = 5 \<and> trd s1 1 = 2"
proof -
  obtain s where s: "run_steps td_step ex_orders (td_fake_init ''fake'' 0) = Inr s"
    "tf_queued_track_id s = [0, 1]"
    and m: "map (\<lambda>e. (ot_instr e, ot_dir e, ot_price e, ot_vol e, ot_vol_traded e)) (tf_eng_order_track s) =
       [(''IF'', AT_CHAR_Buy, 100, 5, 0), (''IF'', AT_CHAR_Buy, 101, 5, 0)]"
    by (rule ex_orders_run)
  obtain e0 e1 where e: "tf_eng_order_track s = [e0, e1]"
    "ot_instr e0 = ''IF''" "ot_dir e0 = AT_CHAR_Buy" "ot_price e0 = 100" "ot_vol e0 = 5" "ot_vol_traded e0 = 0"
    "ot_instr e1 = ''IF''" "ot_dir e1 = AT_CHAR_Buy" "ot_price e1 = 101" "ot_vol e1 = 5" "ot_vol_traded e1 = 0"
    using m by (auto simp: map_eq_Cons_conv)
  let ?tick = "\<lparr>tt_last_px = 99, tt_ask = 99, tt_bid = 98, tt_ask_vol = 7, tt_bid_vol = 4\<rparr>"
  have k: "dir_known AT_CHAR_Buy" by (simp add: dir_known_def)
  have t: "?tick = \<lparr>tt_last_px = md_last_px ex_tick, tt_ask = md_ask_px ex_tick, tt_bid = md_bid_px ex_tick,
      tt_ask_vol = md_ask_vol ex_tick, tt_bid_vol = md_bid_vol ex_tick\<rparr>" "md_instr_str ex_tick = ''IF''"
    by (simp_all add: ex_tick_def)
  have p: "takes_part AT_CHAR_Buy ''IF'' ?tick s 0" "takes_part AT_CHAR_Buy ''IF'' ?tick s 1"
    by (simp_all add: takes_part_def e crosses_def)
  from tick_is_matched_fairly [OF ex_orders_legal s(1) k t(1)] obtain s1 rest where
    "CTDHelperFake_on_tick ex_tick s = Inr s1" "0 \<le> side_vol AT_CHAR_Buy rest"
    "side_vol AT_CHAR_Buy rest = 7 - (trd s1 0 + trd s1 1)" "trd s1 0 \<le> 5" "trd s1 1 \<le> 5"
    "trd s1 0 < 5 \<longrightarrow> side_vol AT_CHAR_Buy rest \<le> 0 \<and> trd s1 1 = 0"
    "trd s1 1 < 5 \<longrightarrow> side_vol AT_CHAR_Buy rest \<le> 0"
    using p by (auto simp: s(2) e t(2) side_vol_def trd_def)
  moreover from this have "trd s1 0 = 5" by linarith
  ultimately show ?thesis using s(1) by (intro exI [of _ s] exI [of _ s1]) auto
qed

text \<open>
  A report that is still in the queue at a day switch survives it and is applied to an order of
  the next day: the switch clears orders, ticks and working set but not the queue, identities start
  again at zero, and the first report read changes the new order of the same identity, which the exchange knows as untraded.
\<close>

theorem stale_report_hits_next_day:
  assumes "tf_rtn_msg_queue s = m # q" "rm_local_id m = 0" "dir_known dir" "0 < vol"
  shows "\<exists>s1 s2 t. CTDHelperFake_sendOrder instr price vol dir off acc_id stgid h
      (CTDHelperFake_on_switch_day day s) = Inr (0, s1) \<and>
    th_order_track s1 = [t] \<and> ot_vol t = vol \<and> ot_vol_traded t = 0 \<and>
    CTDHelperFake_getRtn s1 = (Some m, s2) \<and> th_order_track s2 = [track_rtn m t] \<and>
    (\<exists>e. tf_eng_order_track s2 = [e] \<and> ot_vol e = vol \<and> ot_vol_traded e = 0)"
proof -
  have "dir \<noteq> AT_CHAR_Buy \<and> dir \<noteq> AT_CHAR_Sell \<longleftrightarrow> False"
    using assms(3) by (auto simp: dir_known_def)
  then show ?thesis
    using assms(1,2)
    by (simp add: CTDHelperFake_sendOrder_def ITDHelper_sendOrder_def CTDHelperFake_on_switch_day_def
        ITDHelper_closeOrderTrack_def CTDHelperFake_doSendOrder_def Let_def push_rtn_def upd_eng_def
        order_track_init_def CTDHelperFake_getRtn_def ITDHelper_getRtn_def CTDHelperFake_doGetRtn_def
        upd_track_def)
qed

theorem stale_report_hits_next_day_witness:
  "\<exists>s1 s2 t. CTDHelperFake_sendOrder ''IF'' 100 5 AT_CHAR_Buy AT_CHAR_Open 0 0 7
      (CTDHelperFake_on_switch_day ''20200102'' ((td_fake_init ''fake'' 0)
        \<lparr>tf_rtn_msg_queue := [rtn_msg_init\<lparr>rm_msg_type := ODS_EXECUTION, rm_vol := 5\<rparr>]\<rparr>)) = Inr (0, s1) \<and>
    CTDHelperFake_getRtn s1 = (Some (rtn_msg_init\<lparr>rm_msg_type := ODS_EXECUTION, rm_vol := 5\<rparr>), s2) \<and>
    th_order_track s1 = [t] \<and> ot_vol_traded (th_order_track s2 ! 0) = 5 \<and>
    ot_vol_traded (tf_eng_order_track s2 ! 0) = 0"
  using stale_report_hits_next_day [of "(td_fake_init ''fake'' 0)
        \<lparr>tf_rtn_msg_queue := [rtn_msg_init\<lparr>rm_msg_type := ODS_EXECUTION, rm_vol := 5\<rparr>]\<rparr>"
      "rtn_msg_init\<lparr>rm_msg_type := ODS_EXECUTION, rm_vol := 5\<rparr>" "[]" AT_CHAR_Buy 5 "''IF''" 100 AT_CHAR_Open
      0 0 7 "''20200102''"]
  by (auto simp: rtn_msg_init_def dir_known_def track_rtn_def)

end
