(* ===== verification/Md_Helper.thy ===== *)
theory Md_Helper
  imports Trade_Base "HOL-Library.Char_ord" "HOL-Library.List_Lexorder"
begin

text \<open>
  \<^verbatim>\<open>md/IMDHelper\<close>, the client side of market data: the map of the instruments a process subscribed,
  which filters the ticks it reads. The virtual \<^verbatim>\<open>doSubscribe\<close> and \<^verbatim>\<open>doUnsubscribe\<close> are arguments
  of the definitions, the fields of a derived class extend the record. A \<^verbatim>\<open>std::set<string>\<close> is
  visited in the order of its strings, compared by bytes.
\<close>

section \<open>The helper\<close>

record md_helper =
  mh_subs_instr_hash_map :: "(u32, string) umap"
  mh_name :: string

definition instr_set_list :: "string list \<Rightarrow> instr_table \<Rightarrow> string list" where
  "instr_set_list instr tb = sorted_list_of_set (CTradeBaseInfo_productToInstrSet instr tb)"

fun add_subs :: "string list \<Rightarrow> (u32, string) umap \<Rightarrow> string list \<Rightarrow> string list \<times> (u32, string) umap" where
  "add_subs [] m new = (new, m)"
| "add_subs (i # ls) m new =
     (let hash = INSTR_NAME_TO_HASH i in
      case map_of m hash of
        Some _ \<Rightarrow> add_subs ls m new
      | None \<Rightarrow> add_subs ls (AList.update hash i m) (new @ [i]))"

fun del_subs :: "string list \<Rightarrow> (u32, string) umap \<Rightarrow> string list \<Rightarrow> string list \<times> (u32, string) umap" where
  "del_subs [] m new = (new, m)"
| "del_subs (i # ls) m new =
     (let hash = INSTR_NAME_TO_HASH i in
      case map_of m hash of
        None \<Rightarrow> del_subs ls m new
      | Some _ \<Rightarrow> del_subs ls (AList.delete hash m) (new @ [i]))"

definition IMDHelper_subscribe ::
    "(string list \<Rightarrow> 'a md_helper_scheme \<Rightarrow> bool \<times> 'a md_helper_scheme) \<Rightarrow> instr_table \<Rightarrow> string list \<Rightarrow>
     'a md_helper_scheme \<Rightarrow> bool \<times> 'a md_helper_scheme" where
  "IMDHelper_subscribe doSubscribe tb instr s =
     (case add_subs (instr_set_list instr tb) (mh_subs_instr_hash_map s) [] of
        (real_subs, m) \<Rightarrow> doSubscribe real_subs (s\<lparr>mh_subs_instr_hash_map := m\<rparr>))"

definition IMDHelper_unsubscribe ::
    "(string list \<Rightarrow> 'a md_helper_scheme \<Rightarrow> bool \<times> 'a md_helper_scheme) \<Rightarrow> instr_table \<Rightarrow> string list \<Rightarrow>
     'a md_helper_scheme \<Rightarrow> bool \<times> 'a md_helper_scheme" where
  "IMDHelper_unsubscribe doUnsubscribe tb instr s =
     (case del_subs (instr_set_list instr tb) (mh_subs_instr_hash_map s) [] of
        (real_unsubs, m) \<Rightarrow> doUnsubscribe real_unsubs (s\<lparr>mh_subs_instr_hash_map := m\<rparr>))"

definition IMDHelper_forceUnsubscribe ::
    "(string list \<Rightarrow> 'a md_helper_scheme \<Rightarrow> bool \<times> 'a md_helper_scheme) \<Rightarrow> instr_table \<Rightarrow> string list \<Rightarrow>
     'a md_helper_scheme \<Rightarrow> bool \<times> 'a md_helper_scheme" where
  "IMDHelper_forceUnsubscribe doUnsubscribe tb instr s =
     (let names = instr_set_list instr tb in
      doUnsubscribe names (s\<lparr>mh_subs_instr_hash_map :=
        fold (\<lambda>i m. AList.delete (INSTR_NAME_TO_HASH i) m) names (mh_subs_instr_hash_map s)\<rparr>))"

definition IMDHelper_getSubscribedInstrument :: "'a md_helper_scheme \<Rightarrow> string list" where
  "IMDHelper_getSubscribedInstrument s = map snd (mh_subs_instr_hash_map s)"

definition IMDHelper_reSubscribe ::
    "(string list \<Rightarrow> 'a md_helper_scheme \<Rightarrow> bool \<times> 'a md_helper_scheme) \<Rightarrow> 'a md_helper_scheme \<Rightarrow>
     bool \<times> 'a md_helper_scheme" where
  "IMDHelper_reSubscribe doSubscribe s = doSubscribe (IMDHelper_getSubscribedInstrument s) s"

definition IMDHelper_clear ::
    "(string list \<Rightarrow> 'a md_helper_scheme \<Rightarrow> bool \<times> 'a md_helper_scheme) \<Rightarrow> 'a md_helper_scheme \<Rightarrow>
     'a md_helper_scheme" where
  "IMDHelper_clear doUnsubscribe s =
     (snd (doUnsubscribe (IMDHelper_getSubscribedInstrument s) s))\<lparr>mh_subs_instr_hash_map := []\<rparr>"

definition IMDHelper_clearMap :: "'a md_helper_scheme \<Rightarrow> 'a md_helper_scheme" where
  "IMDHelper_clearMap s = s\<lparr>mh_subs_instr_hash_map := []\<rparr>"

text \<open>True for a tick that was not subscribed.\<close>

definition IMDHelper_filter :: "market_data \<Rightarrow> 'a md_helper_scheme \<Rightarrow> bool" where
  "IMDHelper_filter pmd s = (\<not> um_has (md_instr_hash pmd) (mh_subs_instr_hash_map s))"

definition IMDHelper_getInstrNameByHash :: "u32 \<Rightarrow> 'a md_helper_scheme \<Rightarrow> string option" where
  "IMDHelper_getInstrNameByHash hash s = map_of (mh_subs_instr_hash_map s) hash"

section \<open>The map of subscriptions\<close>

text \<open>
  The names asked for that were not there: subscribing adds exactly them, and the engine is asked
  for no instrument twice.
\<close>

lemma add_subs_eq:
  assumes "distinct names" "inj_on INSTR_NAME_TO_HASH (set names)"
  shows "add_subs names m new =
    (new @ filter (\<lambda>i. \<not> um_has (INSTR_NAME_TO_HASH i) m) names,
     fold (\<lambda>i m. AList.update (INSTR_NAME_TO_HASH i) i m)
       (filter (\<lambda>i. \<not> um_has (INSTR_NAME_TO_HASH i) m) names) m)"
  using assms
proof (induction names arbitrary: m new)
  case (Cons i ls)
  have other: "INSTR_NAME_TO_HASH j \<noteq> INSTR_NAME_TO_HASH i" if "j \<in> set ls" for j
    using Cons.prems that by (auto simp: inj_on_def)
  have "filter (\<lambda>j. \<not> um_has (INSTR_NAME_TO_HASH j) (AList.update (INSTR_NAME_TO_HASH i) i m)) ls =
      filter (\<lambda>j. \<not> um_has (INSTR_NAME_TO_HASH j) m) ls"
    by (rule filter_cong) (use other in \<open>auto simp: um_has_def\<close>)
  with Cons.IH [of m new] Cons.IH [of "AList.update (INSTR_NAME_TO_HASH i) i m" "new @ [i]"] Cons.prems
  show ?case by (auto simp: um_has_def Let_def)
qed simp

lemma del_subs_keeps: "um_ok m \<Longrightarrow> map_of (snd (del_subs names m new)) h =
    (if h \<in> INSTR_NAME_TO_HASH ` set names then None else map_of m h)"
proof (induction names arbitrary: m new)
  case (Cons i ls)
  have ok: "um_ok (AList.delete (INSTR_NAME_TO_HASH i) m)"
    using Cons.prems unfolding um_ok_def by (rule distinct_delete)
  show ?case
    using Cons.IH [OF Cons.prems, of new] Cons.IH [OF ok, of "new @ [i]"]
    by (auto simp: Let_def delete_conv split: option.splits)
qed simp

end
