(* ===== verification/Stg_Core.thy ===== *)
theory Stg_Core
  imports Risk Bars Td_Helper Md_Helper
begin

text \<open>
  \<^verbatim>\<open>strategy/CStrategy\<close>, the process of one strategy: its subscriptions, the order path with the
  risk control and the trading helper, the processing of ticks, reports and messages, the day
  switch and the event loop.

  The helpers are abstract classes, so their operations are arguments (\<open>stg_env\<close>), as are the
  callback slots, which the author of a strategy overrides. A callback is a program over the
  interface of the strategy (\<open>stg_prog\<close>): a tree that branches on the answers of its calls. Reading
  the clock, the shared flags and the system messages is the input of a round (\<open>cycle_in\<close>).
\<close>

section \<open>The state\<close>

text \<open>The methods of the helpers the strategy calls.\<close>

record 'h td_ops =
  tdo_sendOrder :: "string \<Rightarrow> double \<Rightarrow> int \<Rightarrow> int \<Rightarrow> int \<Rightarrow> int \<Rightarrow> int \<Rightarrow> u32 \<Rightarrow> 'h \<Rightarrow> (int \<times> 'h) res"
  tdo_deleteOrder :: "int \<Rightarrow> 'h \<Rightarrow> (int \<times> 'h) res"
  tdo_getRtn :: "'h \<Rightarrow> rtn_msg option \<times> 'h"
  tdo_order_track :: "'h \<Rightarrow> order_track list"
  tdo_on_tick :: "market_data \<Rightarrow> 'h \<Rightarrow> 'h res"
  tdo_on_time :: "int \<Rightarrow> 'h \<Rightarrow> 'h"
  tdo_on_switch_day :: "string \<Rightarrow> 'h \<Rightarrow> 'h"

record 'm md_ops =
  mdo_subscribe :: "instr_table \<Rightarrow> string list \<Rightarrow> 'm \<Rightarrow> bool \<times> 'm"
  mdo_clearMap :: "'m \<Rightarrow> 'm"

text \<open>
  The members of the class, the static state it uses (the table of instruments, the clock slots of
  the bars), the files, and what the author of the strategy keeps (\<open>cs_user\<close>).
\<close>

record ('h, 'm, 'u) cstrategy =
  cs_self_id :: int
  cs_instr_info_map :: "(u32, subs_instr_info) umap"
  cs_md :: 'm
  cs_td :: 'h
  cs_risk_stg :: risk_stg
  cs_subs_bar :: "bar_maker list"
  cs_is_exit :: bool
  cs_do_trade :: bool
  cs_trading_day :: string
  cs_acc_save_day :: string
  cs_listen_sysio :: bool
  cs_base :: trade_base
  cs_bar_helper :: bar_helper
  cs_disk :: disk
  cs_user :: 'u

section \<open>Programs over the interface\<close>

text \<open>
  What a callback can do: end with a new state of its own, look at the strategy (the getters), send
  and cancel orders, subscribe, stop.
\<close>

datatype ('s, 'u) stg_prog =
    Done 'u
  | Look "'s \<Rightarrow> ('s, 'u) stg_prog"
  | SendOrder u32 double int int int int "int \<Rightarrow> ('s, 'u) stg_prog"
  | CancelOrder int "int \<Rightarrow> ('s, 'u) stg_prog"
  | Subscribe string "bool \<Rightarrow> ('s, 'u) stg_prog"
  | SubsBar string int "bool \<Rightarrow> ('s, 'u) stg_prog"
  | Stop "('s, 'u) stg_prog"

text \<open>
  The callback slots. \<^verbatim>\<open>sys_on_subscribe\<close> runs in the middle of a subscription and only changes the
  author's state here.
\<close>

record ('s, 'u) stg_slots =
  u_sys_on_start :: "'u \<Rightarrow> ('s, 'u) stg_prog"
  u_sys_on_tick :: "market_data \<Rightarrow> 'u \<Rightarrow> ('s, 'u) stg_prog"
  u_on_tick :: "market_data \<Rightarrow> 'u \<Rightarrow> ('s, 'u) stg_prog"
  u_on_bar :: "bar2 \<Rightarrow> 'u \<Rightarrow> ('s, 'u) stg_prog"
  u_sys_on_rtn :: "rtn_msg \<Rightarrow> 'u \<Rightarrow> ('s, 'u) stg_prog"
  u_on_rtn :: "rtn_msg \<Rightarrow> 'u \<Rightarrow> ('s, 'u) stg_prog"
  u_sys_on_time :: "int \<Rightarrow> 'u \<Rightarrow> ('s, 'u) stg_prog"
  u_on_time :: "int \<Rightarrow> 'u \<Rightarrow> ('s, 'u) stg_prog"
  u_on_msg :: "string \<Rightarrow> 'u \<Rightarrow> ('s, 'u) stg_prog"
  u_sys_on_switch_day :: "string \<Rightarrow> 'u \<Rightarrow> ('s, 'u) stg_prog"
  u_on_switch_day :: "string \<Rightarrow> 'u \<Rightarrow> ('s, 'u) stg_prog"
  u_sys_on_stop :: "'u \<Rightarrow> ('s, 'u) stg_prog"
  u_sys_on_subscribe :: "string \<Rightarrow> 'u \<Rightarrow> 'u"

record ('h, 'm, 'u) stg_env =
  se_fuel :: nat
  se_td :: "'h td_ops"
  se_md :: "'m md_ops"
  se_slots :: "(('h, 'm, 'u) cstrategy, 'u) stg_slots"
  se_files :: file_env

section \<open>Subscriptions\<close>

text \<open>
  \<^verbatim>\<open>boost::split\<close> with \<^verbatim>\<open>is_any_of(",; ")\<close> and \<^verbatim>\<open>token_compress_on\<close>: a run of separators counts as
  one; a separator at an end leaves an empty token there.
\<close>

definition is_sep :: "char \<Rightarrow> bool" where
  "is_sep c = (c \<in> set '',; '')"

fun split_tokens :: "string \<Rightarrow> string \<Rightarrow> string list" where
  "split_tokens cur [] = [cur]"
| "split_tokens cur (c # cs) =
     (if is_sep c then
        (case cs of
           [] \<Rightarrow> [cur, []]
         | d # _ \<Rightarrow> if is_sep d then split_tokens cur cs else cur # split_tokens [] cs)
      else split_tokens (cur @ [c]) cs)"

text \<open>\<^verbatim>\<open>operator[]\<close> of a map of instruments inserts a value-initialised entry where the key is missing.\<close>

definition instrument_info_init :: instrument_info where
  "instrument_info_init =
     \<lparr>ii_instr_hash = 0, ii_instr = [], ii_exch = 0, ii_product = [], ii_product_hash = 0,
      ii_vol_multiple = 0, ii_tick_price = 0, ii_expire_date = [], ii_is_trading = False\<rparr>"

definition touch_info :: "u32 \<Rightarrow> trade_base \<Rightarrow> instrument_info \<times> trade_base" where
  "touch_info hash b =
     (let tb = um_touch instrument_info_init hash (tb_instr_info b) in
      (case map_of tb hash of None \<Rightarrow> instrument_info_init | Some info \<Rightarrow> info,
       b\<lparr>tb_instr_info := tb\<rparr>))"

fun subscribe_loop ::
    "('h, 'm, 'u) stg_env \<Rightarrow> string list \<Rightarrow> ('h, 'm, 'u) cstrategy \<Rightarrow>
     (bool \<times> ('h, 'm, 'u) cstrategy) res" where
  "subscribe_loop env [] s = Inr (True, s)"
| "subscribe_loop env (i # ls) s =
     (let hash = INSTR_NAME_TO_HASH i in
      case map_of (cs_instr_info_map s) hash of
        Some _ \<Rightarrow> subscribe_loop env ls s
      | None \<Rightarrow>
          (case touch_info hash (cs_base s) of (info, b) \<Rightarrow>
             (let s1 = s\<lparr>cs_base := b,
                         cs_instr_info_map := AList.update hash \<lparr>base_info = info, lst_tick = last_tick_init\<rparr>
                           (cs_instr_info_map s),
                         cs_user := u_sys_on_subscribe (se_slots env) i (cs_user s)\<rparr>
              in res_bind (RiskStg_regInstr (tb_instr_info (cs_base s1)) i (cs_risk_stg s1)) (\<lambda>(ok, r).
                   if \<not> ok then Inr (False, s1\<lparr>cs_risk_stg := r\<rparr>)
                   else subscribe_loop env ls (s1\<lparr>cs_risk_stg := r\<rparr>)))))"

definition CStrategy_subscribe ::
    "('h, 'm, 'u) stg_env \<Rightarrow> string \<Rightarrow> ('h, 'm, 'u) cstrategy \<Rightarrow> (bool \<times> ('h, 'm, 'u) cstrategy) res" where
  "CStrategy_subscribe env instruments s =
     (if instruments = [] then Inr (True, s)
      else
       (let destination = split_tokens [] instruments; tb = tb_instr_info (cs_base s) in
        case mdo_subscribe (se_md env) tb destination (cs_md s) of (ok, md) \<Rightarrow>
          (let s1 = s\<lparr>cs_md := md\<rparr> in
           if \<not> ok then Inr (False, s1)
           else if CTradeBaseInfo_productToInstrSet destination tb = {} then Inr (False, s1)
           else subscribe_loop env (instr_set_list destination tb) s1)))"

text \<open>
  The iterator after the subscription is the one of the end where the argument is no name of an
  instrument but of a product or a list; it is dereferenced all the same.
\<close>

definition CStrategy_subsBar ::
    "('h, 'm, 'u) stg_env \<Rightarrow> string \<Rightarrow> int \<Rightarrow> ('h, 'm, 'u) cstrategy \<Rightarrow>
     (bool \<times> ('h, 'm, 'u) cstrategy) res" where
  "CStrategy_subsBar env instrument interval_min s =
     (let hash = INSTR_NAME_TO_HASH instrument in
      res_bind (if um_has hash (cs_instr_info_map s) then Inr (True, s)
                else CStrategy_subscribe env instrument s) (\<lambda>(ok, s1).
        if \<not> ok then Inr (False, s1)
        else case map_of (cs_instr_info_map s1) hash of
          None \<Rightarrow> Inl DanglingDeref
        | Some sub \<Rightarrow>
            res_bind (BarMaker_new (se_fuel env) (cs_bar_helper s1) (base_info sub) interval_min)
              (\<lambda>m. Inr (True, s1\<lparr>cs_subs_bar := cs_subs_bar s1 @ [m]\<rparr>))))"

section \<open>Orders\<close>

definition CStrategy_sendOrder ::
    "('h, 'm, 'u) stg_env \<Rightarrow> u32 \<Rightarrow> double \<Rightarrow> int \<Rightarrow> int \<Rightarrow> int \<Rightarrow> int \<Rightarrow> ('h, 'm, 'u) cstrategy \<Rightarrow>
     (int \<times> ('h, 'm, 'u) cstrategy) res" where
  "CStrategy_sendOrder env instr_hash price vol dir off acc_idx s =
     (if \<not> cs_do_trade s then Inr (-1, s)
      else case map_of (cs_instr_info_map s) instr_hash of
        None \<Rightarrow> Inr (-1, s)
      | Some sub \<Rightarrow>
          (let tb = tb_instr_info (cs_base s) in
           res_bind (RiskStg_check (se_fuel env) tb dir off price vol sub (cs_risk_stg s))
             (\<lambda>(ret, off1, r).
                if ret \<noteq> 0 then Inr (ret, s\<lparr>cs_risk_stg := r\<rparr>)
                else res_bind (tdo_sendOrder (se_td env) (ii_instr (base_info sub)) price vol dir off1
                                 acc_idx 0 instr_hash (cs_td s)) (\<lambda>(ret1, td).
                     res_bind (RiskStg_onNew tb dir off1 price vol instr_hash (lt_exch_time (lst_tick sub)) r)
                       (\<lambda>r1. Inr (ret1, s\<lparr>cs_td := td, cs_risk_stg := r1\<rparr>))))))"

definition CStrategy_cancelOrder ::
    "('h, 'm, 'u) stg_env \<Rightarrow> int \<Rightarrow> ('h, 'm, 'u) cstrategy \<Rightarrow> (int \<times> ('h, 'm, 'u) cstrategy) res" where
  "CStrategy_cancelOrder env order_id s =
     res_bind (tdo_deleteOrder (se_td env) order_id (cs_td s))
       (\<lambda>(ret, td). Inr (ret, s\<lparr>cs_td := td\<rparr>))"

definition CStrategy_getLastTick :: "u32 \<Rightarrow> ('h, 'm, 'u) cstrategy \<Rightarrow> last_tick option" where
  "CStrategy_getLastTick instr_hash s = map_option lst_tick (map_of (cs_instr_info_map s) instr_hash)"

definition CStrategy_getOrderTrackCnt :: "('h, 'm, 'u) stg_env \<Rightarrow> ('h, 'm, 'u) cstrategy \<Rightarrow> int" where
  "CStrategy_getOrderTrackCnt env s = int (length (tdo_order_track (se_td env) (cs_td s)))"

definition CStrategy_getOrderTrack ::
    "('h, 'm, 'u) stg_env \<Rightarrow> int \<Rightarrow> ('h, 'm, 'u) cstrategy \<Rightarrow> order_track res" where
  "CStrategy_getOrderTrack env idx s =
     (let ts = tdo_order_track (se_td env) (cs_td s) in
      if 0 \<le> idx \<and> nat idx < length ts then Inr (ts ! nat idx) else Inl OutOfRange)"

definition CStrategy_stop :: "('h, 'm, 'u) cstrategy \<Rightarrow> ('h, 'm, 'u) cstrategy" where
  "CStrategy_stop s = s\<lparr>cs_is_exit := True\<rparr>"

primrec run_prog ::
    "('h, 'm, 'u) stg_env \<Rightarrow> (('h, 'm, 'u) cstrategy, 'u) stg_prog \<Rightarrow> ('h, 'm, 'u) cstrategy \<Rightarrow>
     ('h, 'm, 'u) cstrategy res" where
  "run_prog env (Done u) s = Inr (s\<lparr>cs_user := u\<rparr>)"
| "run_prog env (Look k) s = run_prog env (k s) s"
| "run_prog env (SendOrder h price vol dir off acc_idx k) s =
     res_bind (CStrategy_sendOrder env h price vol dir off acc_idx s) (\<lambda>(ret, s1). run_prog env (k ret) s1)"
| "run_prog env (CancelOrder order_id k) s =
     res_bind (CStrategy_cancelOrder env order_id s) (\<lambda>(ret, s1). run_prog env (k ret) s1)"
| "run_prog env (Subscribe instruments k) s =
     res_bind (CStrategy_subscribe env instruments s) (\<lambda>(ok, s1). run_prog env (k ok) s1)"
| "run_prog env (SubsBar instrument interval_min k) s =
     res_bind (CStrategy_subsBar env instrument interval_min s) (\<lambda>(ok, s1). run_prog env (k ok) s1)"
| "run_prog env (Stop p) s = run_prog env p (CStrategy_stop s)"

text \<open>A callback runs on the author's current state.\<close>

definition call_slot ::
    "('h, 'm, 'u) stg_env \<Rightarrow> ((('h, 'm, 'u) cstrategy, 'u) stg_slots \<Rightarrow> 'u \<Rightarrow> (('h, 'm, 'u) cstrategy, 'u) stg_prog) \<Rightarrow>
     ('h, 'm, 'u) cstrategy \<Rightarrow> ('h, 'm, 'u) cstrategy res" where
  "call_slot env f s = run_prog env (f (se_slots env) (cs_user s)) s"

section \<open>Bars\<close>

text \<open>
  \<^verbatim>\<open>while (nullptr != (pbar = b.GetBar())) on_bar(pbar)\<close> for the bar maker at an index. A callback
  that adds a bar maker grows the vector the loop stands in, which invalidates its iterators.
\<close>

fun get_bars ::
    "nat \<Rightarrow> ('h, 'm, 'u) stg_env \<Rightarrow> nat \<Rightarrow> ('h, 'm, 'u) cstrategy \<Rightarrow> ('h, 'm, 'u) cstrategy res" where
  "get_bars 0 env k s = Inl OutOfFuel"
| "get_bars (Suc n) env k s =
     (case BarMaker_GetBar (cs_subs_bar s ! k) of (pbar, m) \<Rightarrow>
        (let s1 = s\<lparr>cs_subs_bar := (cs_subs_bar s)[k := m]\<rparr> in
         case pbar of
           None \<Rightarrow> Inr s1
         | Some b \<Rightarrow>
             res_bind (call_slot env (\<lambda>u. u_on_bar u b) s1) (\<lambda>s2.
               if length (cs_subs_bar s2) \<noteq> length (cs_subs_bar s1) then Inl DanglingDeref
               else get_bars n env k s2)))"

fun bars_on_tick ::
    "('h, 'm, 'u) stg_env \<Rightarrow> market_data \<Rightarrow> nat list \<Rightarrow> ('h, 'm, 'u) cstrategy \<Rightarrow>
     ('h, 'm, 'u) cstrategy res" where
  "bars_on_tick env pmd [] s = Inr s"
| "bars_on_tick env pmd (k # ks) s =
     (case BarMaker_OnTick pmd (cs_bar_helper s, cs_subs_bar s ! k) of (bh, m) \<Rightarrow>
        res_bind (get_bars (se_fuel env) env k
                    (s\<lparr>cs_bar_helper := bh, cs_subs_bar := (cs_subs_bar s)[k := m]\<rparr>))
          (bars_on_tick env pmd ks))"

fun bars_on_finish ::
    "('h, 'm, 'u) stg_env \<Rightarrow> nat list \<Rightarrow> ('h, 'm, 'u) cstrategy \<Rightarrow> ('h, 'm, 'u) cstrategy res" where
  "bars_on_finish env [] s = Inr s"
| "bars_on_finish env (k # ks) s =
     res_bind (get_bars (se_fuel env) env k
       (s\<lparr>cs_subs_bar := (cs_subs_bar s)[k := BarMaker_OnFinish (cs_bar_helper s) (cs_subs_bar s ! k)]\<rparr>))
       (bars_on_finish env ks)"

definition CStrategy_barOnFinish ::
    "('h, 'm, 'u) stg_env \<Rightarrow> ('h, 'm, 'u) cstrategy \<Rightarrow> ('h, 'm, 'u) cstrategy res" where
  "CStrategy_barOnFinish env s = bars_on_finish env [0..<length (cs_subs_bar s)] s"

section \<open>Ticks, reports, messages\<close>

definition last_tick_of :: "market_data \<Rightarrow> last_tick" where
  "last_tick_of pmd =
     \<lparr>lt_ask_px = md_ask_px pmd, lt_bid_px = md_bid_px pmd, lt_ask_vol = md_ask_vol pmd,
      lt_bid_vol = md_bid_vol pmd, lt_ask_px2 = md_ask_px2 pmd, lt_bid_px2 = md_bid_px2 pmd,
      lt_ask_vol2 = md_ask_vol2 pmd, lt_bid_vol2 = md_bid_vol2 pmd, lt_ask_px3 = md_ask_px3 pmd,
      lt_bid_px3 = md_bid_px3 pmd, lt_ask_vol3 = md_ask_vol3 pmd, lt_bid_vol3 = md_bid_vol3 pmd,
      lt_ask_px4 = md_ask_px4 pmd, lt_bid_px4 = md_bid_px4 pmd, lt_ask_vol4 = md_ask_vol4 pmd,
      lt_bid_vol4 = md_bid_vol4 pmd, lt_ask_px5 = md_ask_px5 pmd, lt_bid_px5 = md_bid_px5 pmd,
      lt_ask_vol5 = md_ask_vol5 pmd, lt_bid_vol5 = md_bid_vol5 pmd, lt_last_price = md_last_px pmd,
      lt_cum_vol = md_cum_vol pmd, lt_exch_time = md_exch_time pmd\<rparr>"

definition store_tick :: "market_data \<Rightarrow> (u32, subs_instr_info) umap \<Rightarrow> (u32, subs_instr_info) umap" where
  "store_tick pmd m =
     (case map_of m (md_instr_hash pmd) of
        None \<Rightarrow> m
      | Some sub \<Rightarrow> AList.update (md_instr_hash pmd) (sub\<lparr>lst_tick := last_tick_of pmd\<rparr>) m)"

definition CStrategy_processTick ::
    "('h, 'm, 'u) stg_env \<Rightarrow> market_data \<Rightarrow> ('h, 'm, 'u) cstrategy \<Rightarrow> ('h, 'm, 'u) cstrategy res" where
  "CStrategy_processTick env pmd s =
     (let s1 = s\<lparr>cs_instr_info_map := store_tick pmd (cs_instr_info_map s)\<rparr> in
      res_bind (tdo_on_tick (se_td env) pmd (cs_td s1)) (\<lambda>td.
      res_bind (call_slot env (\<lambda>u. u_sys_on_tick u pmd) (s1\<lparr>cs_td := td\<rparr>)) (\<lambda>s2.
      res_bind (call_slot env (\<lambda>u. u_on_tick u pmd) s2) (\<lambda>s3.
        bars_on_tick env pmd [0..<length (cs_subs_bar s3)] s3))))"

text \<open>A message of the system channel, as far as the strategy tells messages apart.\<close>

datatype sys_msg =
    UserAddExecOrder int int int double int u32
  | UserCmd int string
  | OtherMsg int

fun sys_msg_to :: "sys_msg \<Rightarrow> int" where
  "sys_msg_to (UserAddExecOrder dest dir off price vol h) = dest"
| "sys_msg_to (UserCmd dest data) = dest"
| "sys_msg_to (OtherMsg dest) = dest"

text \<open>
  \<^verbatim>\<open>pmod->onTrd(..)\<close> on the instrument of the account, through the pointers of its object.
\<close>

definition onTrd_mod ::
    "int \<Rightarrow> int \<Rightarrow> double \<Rightarrow> int \<Rightarrow> u32 \<Rightarrow> risk_stg \<Rightarrow> risk_stg res" where
  "onTrd_mod dir off price vol h r =
     (case RiskStg_getModInstr h r of
        None \<Rightarrow> Inr r
      | Some _ \<Rightarrow>
          res_bind (ModInstr_onTrd dir off price vol vol price vol (acc_ctx h (rs_acc_base r)))
            (\<lambda>c. Inr (r\<lparr>rs_acc_base := acc_put_ctx h c (rs_acc_base r)\<rparr>)))"

definition CStrategy_processSysIO ::
    "('h, 'm, 'u) stg_env \<Rightarrow> int \<Rightarrow> sys_msg option \<Rightarrow> ('h, 'm, 'u) cstrategy \<Rightarrow>
     ('h, 'm, 'u) cstrategy res" where
  "CStrategy_processSysIO env nano msg s =
     (if \<not> cs_listen_sysio s then Inr s
      else case msg of
        None \<Rightarrow> Inr s
      | Some m \<Rightarrow>
          (if sys_msg_to m \<noteq> cs_self_id s then Inr s
           else case m of
             UserAddExecOrder dest dir off price vol h \<Rightarrow>
               res_bind (RiskStg_onNew (tb_instr_info (cs_base s)) dir off price vol h nano (cs_risk_stg s))
                 (\<lambda>r. res_bind (onTrd_mod dir off price vol h r) (\<lambda>r1. Inr (s\<lparr>cs_risk_stg := r1\<rparr>)))
           | UserCmd dest data \<Rightarrow> call_slot env (\<lambda>u. u_on_msg u data) s
           | OtherMsg dest \<Rightarrow> Inr s))"

section \<open>Day switch\<close>

definition CStrategy_pre_on_switch_day ::
    "('h, 'm, 'u) stg_env \<Rightarrow> string \<Rightarrow> ('h, 'm, 'u) cstrategy \<Rightarrow> ('h, 'm, 'u) cstrategy res" where
  "CStrategy_pre_on_switch_day env day s =
     res_bind (call_slot env (\<lambda>u. u_sys_on_switch_day u day) s) (\<lambda>s1.
     res_bind (CStrategy_barOnFinish env s1) (\<lambda>s2.
       let s3 = s2\<lparr>cs_md := mdo_clearMap (se_md env) (cs_md s2),
                   cs_td := tdo_on_switch_day (se_td env) day (cs_td s2),
                   cs_instr_info_map := [], cs_subs_bar := [],
                   cs_acc_save_day := (if cs_acc_save_day s2 = [] then day else cs_acc_save_day s2)\<rparr>
       in res_bind (if cs_acc_save_day s3 < day
                    then res_bind (RiskStg_save (se_files env) (cs_acc_save_day s3) False (cs_risk_stg s3)
                                     (cs_disk s3)) (\<lambda>(ok, d). Inr (s3\<lparr>cs_disk := d\<rparr>))
                    else Inr s3) (\<lambda>s4.
          res_bind (if cs_trading_day s4 \<noteq> []
                    then res_bind (RiskStg_onSwitchDay (cs_risk_stg s4)) (\<lambda>r. Inr (s4\<lparr>cs_risk_stg := r\<rparr>))
                    else Inr s4) (\<lambda>s5.
          res_bind (call_slot env (\<lambda>u. u_on_switch_day u day) s5) (\<lambda>s6.
            Inr (s6\<lparr>cs_trading_day := day,
                    cs_acc_save_day := (if cs_acc_save_day s6 < day then day else cs_acc_save_day s6)\<rparr>))))))"

section \<open>The event loop\<close>

text \<open>
  The input of a round: the clock, a message of the system channel, and the shared flags where
  another process (or a signal) writes them.
\<close>

record cycle_in =
  ci_nano :: int
  ci_sys_msg :: "sys_msg option"
  ci_stop :: bool
  ci_do_trade :: "bool option"

definition set_flags :: "cycle_in \<Rightarrow> ('h, 'm, 'u) cstrategy \<Rightarrow> ('h, 'm, 'u) cstrategy" where
  "set_flags inp s =
     s\<lparr>cs_is_exit := (cs_is_exit s \<or> ci_stop inp),
       cs_do_trade := (case ci_do_trade inp of None \<Rightarrow> cs_do_trade s | Some b \<Rightarrow> b)\<rparr>"

text \<open>One round; \<open>read\<close> is \<^verbatim>\<open>p_md_helper_->read\<close>, which may switch the day.\<close>

definition CStrategy_round ::
    "('h, 'm, 'u) stg_env \<Rightarrow> (('h, 'm, 'u) cstrategy \<Rightarrow> (market_data option \<times> ('h, 'm, 'u) cstrategy) res) \<Rightarrow>
     cycle_in \<Rightarrow> ('h, 'm, 'u) cstrategy \<Rightarrow> ('h, 'm, 'u) cstrategy res" where
  "CStrategy_round env read inp s =
     res_bind (read s) (\<lambda>(pmd, s1).
     res_bind (case pmd of None \<Rightarrow> Inr s1 | Some u \<Rightarrow> CStrategy_processTick env u s1) (\<lambda>s2.
     case tdo_getRtn (se_td env) (cs_td s2) of (prtn, td) \<Rightarrow>
       (let s3 = s2\<lparr>cs_td := td\<rparr> in
        res_bind (case prtn of
            None \<Rightarrow> Inr s3
          | Some m \<Rightarrow>
              res_bind (CStrategy_getOrderTrack env (rm_local_id m) s3) (\<lambda>t.
              res_bind (RiskStg_onRtn (tb_instr_info (cs_base s3)) t m (cs_risk_stg s3)) (\<lambda>r.
              res_bind (call_slot env (\<lambda>u. u_sys_on_rtn u m) (s3\<lparr>cs_risk_stg := r\<rparr>)) (\<lambda>s4.
                call_slot env (\<lambda>u. u_on_rtn u m) s4)))) (\<lambda>s5.
        if pmd = None \<and> prtn = None then
          (let nano = ci_nano inp; s6 = s5\<lparr>cs_td := tdo_on_time (se_td env) nano (cs_td s5)\<rparr> in
           res_bind (call_slot env (\<lambda>u. u_sys_on_time u nano) s6) (\<lambda>s7.
           res_bind (call_slot env (\<lambda>u. u_on_time u nano) s7)
             (CStrategy_processSysIO env nano (ci_sys_msg inp))))
        else Inr s5))))"

text \<open>The loop, with one input for every round it may take.\<close>

fun run_loop ::
    "('h, 'm, 'u) stg_env \<Rightarrow> (('h, 'm, 'u) cstrategy \<Rightarrow> (market_data option \<times> ('h, 'm, 'u) cstrategy) res) \<Rightarrow>
     cycle_in list \<Rightarrow> ('h, 'm, 'u) cstrategy \<Rightarrow> ('h, 'm, 'u) cstrategy res" where
  "run_loop env read [] s = (if cs_is_exit s then Inr s else Inl OutOfFuel)"
| "run_loop env read (inp # ins) s =
     (if cs_is_exit s then Inr s
      else res_bind (CStrategy_round env read inp (set_flags inp s)) (run_loop env read ins))"

definition CStrategy_run ::
    "('h, 'm, 'u) stg_env \<Rightarrow> (('h, 'm, 'u) cstrategy \<Rightarrow> (market_data option \<times> ('h, 'm, 'u) cstrategy) res) \<Rightarrow>
     cycle_in list \<Rightarrow> ('h, 'm, 'u) cstrategy \<Rightarrow> ('h, 'm, 'u) cstrategy res" where
  "CStrategy_run env read ins s =
     res_bind (call_slot env u_sys_on_start s) (\<lambda>s1.
     res_bind (CStrategy_pre_on_switch_day env (tb_trading_day (cs_base s1)) s1) (\<lambda>s2.
     res_bind (run_loop env read ins (s2\<lparr>cs_is_exit := False\<rparr>)) (\<lambda>s3.
     res_bind (CStrategy_barOnFinish env s3) (call_slot env u_sys_on_stop))))"

definition CStrategy_release ::
    "('h, 'm, 'u) stg_env \<Rightarrow> ('h, 'm, 'u) cstrategy \<Rightarrow> ('h, 'm, 'u) cstrategy res" where
  "CStrategy_release env s =
     (let s1 = s\<lparr>cs_instr_info_map := []\<rparr> in
      if cs_trading_day s1 \<noteq> [] \<and> cs_acc_save_day s1 \<le> cs_trading_day s1 then
        res_bind (RiskStg_save (se_files env) (cs_acc_save_day s1) True (cs_risk_stg s1) (cs_disk s1))
          (\<lambda>(ok, d). Inr (s1\<lparr>cs_disk := d\<rparr>))
      else Inr s1)"

text \<open>
  The part of \<^verbatim>\<open>loadConfig\<close> that sets the account up: steps 5 and 7, with the orders the trading
  helper already knows.
\<close>

fun replay_tracks :: "instr_table \<Rightarrow> order_track list \<Rightarrow> risk_stg \<Rightarrow> risk_stg res" where
  "replay_tracks tb [] r = Inr r"
| "replay_tracks tb (t # ts) r = res_bind (RiskStg_onOrderTrack tb t r) (replay_tracks tb ts)"

definition CStrategy_load_account ::
    "('h, 'm, 'u) stg_env \<Rightarrow> string \<Rightarrow> json \<Rightarrow> ('h, 'm, 'u) cstrategy \<Rightarrow>
     (bool \<times> ('h, 'm, 'u) cstrategy) res" where
  "CStrategy_load_account env name acc_conf s =
     res_bind (RiskStg_init name acc_conf risk_stg_init) (\<lambda>(ok, r).
       if \<not> ok then Inr (False, s\<lparr>cs_risk_stg := r\<rparr>)
       else res_bind (RiskStg_load (se_files env) (tb_instr_info (cs_base s)) (tb_trading_day (cs_base s))
                        (cs_disk s) r) (\<lambda>(ok2, r2).
         if \<not> ok2 then Inr (False, s\<lparr>cs_risk_stg := r2\<rparr>)
         else res_bind (replay_tracks (tb_instr_info (cs_base s))
                          (tdo_order_track (se_td env) (cs_td s)) r2) (\<lambda>r3.
           Inr (True, s\<lparr>cs_risk_stg := r3, cs_self_id := sint (HASH_STR name)\<rparr>))))"

end
