(* ===== verification/Stg_Orders.thy ===== *)
theory Stg_Orders
  imports Risk_Limits Td_Helper
begin

text \<open>
  The account of a strategy against the order list of its trading helper. The open records of the
  list are the book of open orders (\<open>book_of\<close>), so the simulation of \<open>Acc_World\<close> speaks about what the
  helper knows. The invariant \<open>orders_inv\<close> adds that the working closing orders together fit the
  positions they close, so that no report of an open order finds a position too small, and that the
  net position of every instrument is that of the start of the day plus what the orders traded.
\<close>

section \<open>The book of an order list\<close>

definition oo_of :: "order_track \<Rightarrow> open_order" where
  "oo_of t =
     \<lparr>oo_hash = ot_instr_hash t, oo_dir = ot_dir t, oo_off = ot_off t, oo_px = ot_price t,
      oo_vol = ot_vol t, oo_traded = ot_vol_traded t\<rparr>"

fun book_from :: "nat \<Rightarrow> order_track list \<Rightarrow> order_book" where
  "book_from n [] = []"
| "book_from n (t # ts) = (if track_open t then [(int n, oo_of t)] else []) @ book_from (Suc n) ts"

abbreviation book_of :: "order_track list \<Rightarrow> order_book" where
  "book_of \<equiv> book_from 0"

lemma book_from_snoc:
  "book_from n (ts @ [t]) =
     book_from n ts @ (if track_open t then [(int (n + length ts), oo_of t)] else [])"
  by (induction ts arbitrary: n) auto

lemma book_from_keys: "(j, r) \<in> set (book_from n ts) \<Longrightarrow> int n \<le> j \<and> j < int (n + length ts)"
proof (induction ts arbitrary: n)
  case (Cons t ts)
  then show ?case using Cons.IH [of "Suc n"] by (auto split: if_splits)
qed simp

lemma book_from_beyond: "int (n + length ts) \<le> j \<Longrightarrow> map_of (book_from n ts) j = None"
  using book_from_keys by (fastforce simp: map_of_eq_None_iff)

lemma book_from_before: "j < int n \<Longrightarrow> map_of (book_from n ts) j = None"
  using book_from_keys by (fastforce simp: map_of_eq_None_iff)

lemma map_of_book_from:
  "k < length ts \<Longrightarrow> map_of (book_from n ts) (int (n + k)) =
     (if track_open (ts ! k) then Some (oo_of (ts ! k)) else None)"
proof (induction ts arbitrary: n k)
  case (Cons t ts)
  show ?case
  proof (cases k)
    case 0
    then show ?thesis using book_from_before [of "int n" "Suc n" ts] by simp
  next
    case (Suc j)
    with Cons.IH [of j "Suc n"] Cons.prems show ?thesis by simp
  qed
qed simp

lemma update_append: "map_of b j = None \<Longrightarrow> AList.update j r b = b @ [(j, r)]"
  by (induction b) (auto split: if_splits)

lemma update_absent_append:
  "map_of b j = None \<Longrightarrow> AList.update j r (b @ b') = b @ AList.update j r b'"
  by (induction b) (auto split: if_splits)

lemma delete_absent_append: "map_of b j = None \<Longrightarrow> AList.delete j (b @ b') = b @ AList.delete j b'"
  by (induction b) (auto split: if_splits)

text \<open>The change of one record: the order stays open, ends, or only its flags change.\<close>

lemma book_from_update:
  assumes "k < length ts" "track_open (ts ! k)" "track_open t"
  shows "book_from n (ts[k := t]) = AList.update (int (n + k)) (oo_of t) (book_from n ts)"
  using assms
proof (induction ts arbitrary: n k)
  case (Cons u ts)
  show ?case
  proof (cases k)
    case 0
    with Cons.prems show ?thesis by simp
  next
    case (Suc j)
    with Cons.IH [of j "Suc n"] Cons.prems show ?thesis by simp
  qed
qed simp

lemma book_from_delete:
  assumes "k < length ts" "track_open (ts ! k)" "\<not> track_open t"
  shows "book_from n (ts[k := t]) = AList.delete (int (n + k)) (book_from n ts)"
  using assms
proof (induction ts arbitrary: n k)
  case (Cons u ts)
  show ?case
  proof (cases k)
    case 0
    have "AList.delete (int n) (book_from (Suc n) ts) = book_from (Suc n) ts"
      using book_from_before [of "int n" "Suc n" ts]
      by (metis delete_id lessI map_of_eq_None_iff of_nat_less_iff)
    with 0 Cons.prems show ?thesis by simp
  next
    case (Suc j)
    with Cons.IH [of j "Suc n"] Cons.prems show ?thesis by simp
  qed
qed simp

definition same_life :: "order_track \<Rightarrow> order_track \<Rightarrow> bool" where
  "same_life t u \<longleftrightarrow> oo_of u = oo_of t \<and> life_of u = life_of t"

lemma same_life_open: "same_life t u \<Longrightarrow> track_open u = track_open t"
  by (simp add: same_life_def track_open_def oo_of_def)

lemma same_life_refl [simp]: "same_life t t"
  by (simp add: same_life_def)

lemma book_from_same: "list_all2 same_life ts us \<Longrightarrow> book_from n us = book_from n ts"
  by (induction ts us arbitrary: n rule: list_all2_induct)
    (auto simp: same_life_open, auto simp: same_life_def)

section \<open>Working closes fit the positions\<close>

definition closable :: "unit_vol \<Rightarrow> bool" where
  "closable v \<longleftrightarrow>
     pos_long_yd_cls_ing v \<le> pos_long_yd v \<and> pos_long_td_cls_ing v \<le> pos_long_td v \<and>
     pos_short_yd_cls_ing v \<le> pos_short_yd v \<and> pos_short_td_cls_ing v \<le> pos_short_td v"

definition all_closable :: "acc_base \<Rightarrow> bool" where
  "all_closable ab \<longleftrightarrow> (\<forall>h. closable (acc_vol h ab))"

lemma closable_new:
  "closable v \<Longrightarrow> close_fits dir off n v \<Longrightarrow> dir_known dir \<Longrightarrow> off_known off \<Longrightarrow>
   closable (vol_new dir off n v)"
  by (auto simp: closable_def close_fits_def vol_new_def vol_new_defs dir_known_def off_known_def)

lemma closable_cxl:
  "closable v \<Longrightarrow> 0 \<le> n \<Longrightarrow> dir_known dir \<Longrightarrow> off_known off \<Longrightarrow> closable (vol_cxl dir off n v)"
  by (auto simp: closable_def vol_cxl_def vol_cxl_defs dir_known_def off_known_def)

lemma closable_trd:
  "closable v \<Longrightarrow> 0 \<le> n \<Longrightarrow> dir_known dir \<Longrightarrow> off_known off \<Longrightarrow> closable (vol_trd dir off n v)"
  by (auto simp: closable_def vol_trd_def vol_trd_defs dir_known_def off_known_def)

text \<open>A callback changes the volumes of its instrument only.\<close>

lemma vol_callback:
  assumes base: "base_ok tb" "acc_inv ab" "map_of tb h = Some info"
    and mv: "\<And>c. live c \<Longrightarrow> moved c (act c)" and run: "acc_on_instr tb h act ab = Inr ab'"
    and eff: "\<And>i p a i' p' a'. act (mk_ctx i p a) = Inr (mk_ctx i' p' a') \<Longrightarrow>
      ins_vol i = acc_vol h ab \<Longrightarrow> R (ins_vol i')"
  shows "R (acc_vol h ab')" "\<And>j. j \<noteq> h \<Longrightarrow> acc_vol j ab' = acc_vol j ab"
proof -
  obtain i p i' p' a' t where r:
    "act (mk_ctx i p (ab_mod_acc ab)) = Inr (mk_ctx i' p' a')" "acc_on_instr tb h act ab = Inr t"
    "ins_vol i = acc_vol h ab" "ins_vol i' = acc_vol h t" "\<And>j. j \<noteq> h \<Longrightarrow> acc_vol j t = acc_vol j ab"
    by (rule acc_on_instr_run [OF base, of act], erule mv, rule that)
  have t: "t = ab'" using r(2) run by simp
  from eff [OF r(1,3)] r(4) t show "R (acc_vol h ab')" by simp
  from r(5) t show "\<And>j. j \<noteq> h \<Longrightarrow> acc_vol j ab' = acc_vol j ab" by simp
qed

section \<open>Positions follow executions\<close>

definition net_vol :: "unit_vol \<Rightarrow> int" where
  "net_vol v = pos_long v - pos_short v"

definition net_of :: "u32 \<Rightarrow> order_track list \<Rightarrow> int" where
  "net_of h ts = (\<Sum>t\<leftarrow>ts. if ot_instr_hash t = h
     then (if ot_dir t = AT_CHAR_Buy then ot_vol_traded t else - ot_vol_traded t) else 0)"

lemma net_vol_ops:
  assumes "dir_known dir" "off_known off"
  shows "net_vol (vol_new dir off n v) = net_vol v" "net_vol (vol_cxl dir off n v) = net_vol v"
    "net_vol (vol_trd dir off n v) = net_vol v + (if dir = AT_CHAR_Buy then n else - n)"
  using assms
  by (auto simp: net_vol_def vol_new_def vol_new_defs vol_cxl_def vol_cxl_defs vol_trd_def vol_trd_defs
      dir_known_def off_known_def)

lemma net_of_snoc:
  "net_of h (ts @ [t]) = net_of h ts + (if ot_instr_hash t = h
     then (if ot_dir t = AT_CHAR_Buy then ot_vol_traded t else - ot_vol_traded t) else 0)"
  by (simp add: net_of_def)

lemma net_of_update:
  assumes "k < length ts" "ot_instr_hash t = ot_instr_hash (ts ! k)" "ot_dir t = ot_dir (ts ! k)"
  shows "net_of h (ts[k := t]) = net_of h ts + (if ot_instr_hash t = h
     then (if ot_dir t = AT_CHAR_Buy then ot_vol_traded t - ot_vol_traded (ts ! k)
           else ot_vol_traded (ts ! k) - ot_vol_traded t) else 0)"
  using assms
proof (induction ts arbitrary: k)
  case (Cons u ts)
  then show ?case by (cases k) (auto simp: net_of_def)
qed simp

lemma net_of_same: "list_all2 same_life ts us \<Longrightarrow> net_of h us = net_of h ts"
  by (induction ts us rule: list_all2_induct) (auto simp: net_of_def same_life_def oo_of_def)

section \<open>The invariant\<close>

definition track_ok :: "instr_table \<Rightarrow> order_track \<Rightarrow> bool" where
  "track_ok tb t \<longleftrightarrow> um_has (ot_instr_hash t) tb \<and> dir_known (ot_dir t) \<and> off_known (ot_off t) \<and>
     0 \<le> ot_vol_traded t \<and> ot_vol_traded t \<le> ot_vol t"

definition orders_inv :: "trade_base \<Rightarrow> (u32 \<Rightarrow> int) \<Rightarrow> order_track list \<Rightarrow> risk_stg \<Rightarrow> bool" where
  "orders_inv base start ts s \<longleftrightarrow>
     risk_inv (tb_instr_info base) s \<and> book_rel (book_of ts) \<lparr>aw_base = base, aw_acc = rs_acc_base s\<rparr> \<and>
     all_closable (rs_acc_base s) \<and> list_all (track_ok (tb_instr_info base)) ts \<and>
     (\<forall>h. net_vol (acc_vol h (rs_acc_base s)) = start h + net_of h ts)"

lemma orders_invD:
  assumes "orders_inv base start ts s"
  shows "risk_inv (tb_instr_info base) s" "book_rel (book_of ts) \<lparr>aw_base = base, aw_acc = rs_acc_base s\<rparr>"
    "all_closable (rs_acc_base s)" "list_all (track_ok (tb_instr_info base)) ts"
    "net_vol (acc_vol h (rs_acc_base s)) = start h + net_of h ts"
  using assms by (simp_all add: orders_inv_def)

lemma orders_inv_same_vols:
  assumes "orders_inv base start ts s" "risk_inv (tb_instr_info base) s1"
    "same_vols (rs_acc_base s) (rs_acc_base s1)"
  shows "orders_inv base start ts s1"
proof -
  note R = book_relD [OF orders_invD(2) [OF assms(1)]]
  note D = risk_invD [OF assms(2)]
  have v: "\<And>h. acc_vol h (rs_acc_base s1) = acc_vol h (rs_acc_base s)"
    and c: "ab_mod_acc (rs_acc_base s1) = ab_mod_acc (rs_acc_base s)"
    using assms(3) by (simp_all add: same_vols_def)
  have "book_rel (book_of ts) \<lparr>aw_base = base, aw_acc = rs_acc_base s1\<rparr>"
    by (rule book_relI) (use R D v c in \<open>simp_all add: acc_world_inv_def\<close>)
  with assms(1,2) v show ?thesis by (simp add: orders_inv_def all_closable_def)
qed

lemma orders_inv_same_life:
  assumes "orders_inv base start ts s" "list_all2 same_life ts us"
  shows "orders_inv base start us s"
proof -
  have "track_ok tb u = track_ok tb t" if "same_life t u" for tb t u
    using that by (simp add: same_life_def oo_of_def track_ok_def)
  with assms(2) have "list_all (track_ok (tb_instr_info base)) us =
      list_all (track_ok (tb_instr_info base)) ts"
    by (induction rule: list_all2_induct) auto
  with assms(1) book_from_same [OF assms(2)] net_of_same [OF assms(2)] show ?thesis by (simp add: orders_inv_def)
qed

text \<open>The step of the account that goes with a callback of the risk control.\<close>

lemma orders_inv_step:
  assumes inv: "orders_inv base start ts s" and risk: "risk_inv (tb_instr_info base) s1"
    and h: "map_of (tb_instr_info base) h = Some info"
    and run: "acc_on_instr (tb_instr_info base) h act (rs_acc_base s) = Inr (rs_acc_base s1)"
    and book: "\<exists>w'. on_acc (\<lambda>tb. acc_on_instr tb h act) \<lparr>aw_base = base, aw_acc = rs_acc_base s\<rparr> = Inr w' \<and>
      book_rel (book_of us) w'"
    and mv: "\<And>c. live c \<Longrightarrow> moved c (act c)"
    and eff: "\<And>i p a i' p' a'. act (mk_ctx i p a) = Inr (mk_ctx i' p' a') \<Longrightarrow>
      ins_vol i = acc_vol h (rs_acc_base s) \<Longrightarrow> closable (ins_vol i) \<Longrightarrow>
      closable (ins_vol i') \<and> net_vol (ins_vol i') = net_vol (ins_vol i) + d"
    and us: "list_all (track_ok (tb_instr_info base)) us"
      "\<And>j. net_of j us = net_of j ts + (if j = h then d else 0)"
  shows "orders_inv base start us s1"
proof -
  note D = orders_invD [OF inv]
  have c: "closable (acc_vol h (rs_acc_base s))" using D(3) by (simp add: all_closable_def)
  let ?R = "\<lambda>v. closable v \<and> net_vol v = net_vol (acc_vol h (rs_acc_base s)) + d"
  have R: "?R (acc_vol h (rs_acc_base s1))"
    by (rule vol_callback(1) [OF risk_invD(1,2) [OF D(1)] h _ run, of ?R])
      (erule mv, use eff c in force)
  have other: "acc_vol j (rs_acc_base s1) = acc_vol j (rs_acc_base s)" if "j \<noteq> h" for j
    by (rule vol_callback(2) [OF risk_invD(1,2) [OF D(1)] h _ run, of "\<lambda>_. True"])
      (erule mv, simp, rule that)
  have "all_closable (rs_acc_base s1)"
    using D(3) R other unfolding all_closable_def by metis
  moreover have "net_vol (acc_vol j (rs_acc_base s1)) = start j + net_of j us" for j
    using D(5) [of j] R other [of j] us(2) [of j] by (cases "j = h") auto
  moreover have "book_rel (book_of us) \<lparr>aw_base = base, aw_acc = rs_acc_base s1\<rparr>"
    using book run by (simp add: on_acc_def)
  ultimately show ?thesis using risk us(1) by (simp add: orders_inv_def)
qed

text \<open>Booking an order the helper has just appended to its list.\<close>

lemma orders_inv_new:
  assumes inv: "orders_inv base start ts s" and info: "map_of (tb_instr_info base) h = Some info"
    and k: "dir_known dir" "off_known off" and reg: "um_has h (rs_map_risk_instr s)"
    and fits: "order_fits (lims_of (rs_map_risk_instr s) ri_limits h) dir off vol
        (acc_vol h (rs_acc_base s))"
      "order_fits (lims_of (rs_map_risk_prd s) rp_limits (ii_product_hash info)) dir off vol
        (acc_prd_vol (ii_product_hash info) (rs_acc_base s))"
      "unfilled_order_cnt (ab_mod_acc (rs_acc_base s)) < unfilled_ord_cnt_threshold (rs_risk_acc s)"
    and close: "close_fits dir off vol (acc_vol h (rs_acc_base s))"
    and t: "oo_of t = \<lparr>oo_hash = h, oo_dir = dir, oo_off = off, oo_px = px, oo_vol = vol, oo_traded = 0\<rparr>"
      "0 < vol" "\<not> snd (life_of t)"
  shows "\<exists>s1. RiskStg_onNew (tb_instr_info base) dir off px vol h nano s = Inr s1 \<and>
     orders_inv base start (ts @ [t]) s1"
proof -
  note D = orders_invD [OF inv]
  obtain s1 where s1: "RiskStg_onNew (tb_instr_info base) dir off px vol h nano s = Inr s1"
    "risk_inv (tb_instr_info base) s1"
    using risk_inv_new [OF D(1) info k reg fits] by blast
  have run: "acc_on_instr (tb_instr_info base) h (ModInstr_onNew dir off px vol) (rs_acc_base s) =
      Inr (rs_acc_base s1)"
    using s1(1)
    by (auto simp: RiskStg_onNew_def AccBase_onNew_def res_bind_Inr_iff Let_def split: option.splits)
  have ot: "ot_instr_hash t = h" "ot_dir t = dir" "ot_off t = off" "ot_vol t = vol" "ot_vol_traded t = 0"
    using t(1) by (simp_all add: oo_of_def)
  then have op: "track_open t" using t(2,3) by (simp add: track_open_def life_of_def)
  have "book_of (ts @ [t]) = AList.update (int (length ts)) (oo_of t) (book_of ts)"
    using op update_append [OF book_from_beyond [of 0 ts "int (length ts)"]] by (simp add: book_from_snoc)
  then have book: "\<exists>w'. on_acc (\<lambda>tb. acc_on_instr tb h (ModInstr_onNew dir off px vol))
      \<lparr>aw_base = base, aw_acc = rs_acc_base s\<rparr> = Inr w' \<and> book_rel (book_of (ts @ [t])) w'"
    using book_rel_enter [OF D(2) book_from_beyond [of 0 ts "int (length ts)"] _ k, of h px vol] info t(1)
    by (simp add: um_has_def AccBase_onNew_def [abs_def] on_acc_def)
  have "orders_inv base start (ts @ [t]) s1"
  proof (rule orders_inv_step [OF inv s1(2) info run book moved_onNew, where d = 0])
    fix i p a i' p' a'
    assume "ModInstr_onNew dir off px vol (mk_ctx i p a) = Inr (mk_ctx i' p' a')"
      "ins_vol i = acc_vol h (rs_acc_base s)" "closable (ins_vol i)"
    then show "closable (ins_vol i') \<and> net_vol (ins_vol i') = net_vol (ins_vol i) + 0"
      using new_vol [OF _ k] closable_new [OF _ _ k] net_vol_ops(1) [OF k] close by auto
  qed (use D(4) ot k info t(2) in \<open>auto simp: track_ok_def um_has_def net_of_snoc\<close>)
  with s1(1) show ?thesis by blast
qed

section \<open>Reports\<close>

lemma um_sum_member:
  assumes "(k, v) \<in> set m" "\<And>j w. (j, w) \<in> set m \<Longrightarrow> (0 :: int) \<le> f w"
  shows "f v \<le> um_sum f m"
  using assms
proof (induction m)
  case (Cons e m)
  obtain j w where e: "e = (j, w)" by (cases e)
  have "0 \<le> um_sum f m" unfolding um_sum_def by (rule sum_list_nonneg) (use Cons.prems(2) in auto)
  moreover have "0 \<le> f w" using Cons.prems(2) e by auto
  moreover have "(k, v) \<in> set m \<Longrightarrow> f v \<le> um_sum f m" using Cons by auto
  ultimately show ?case using Cons.prems(1) e by auto
qed simp

lemma book_from_left: "(j, r) \<in> set (book_from n ts) \<Longrightarrow> 0 < oo_left r"
  by (induction ts arbitrary: n)
    (auto simp: track_open_def life_of_def oo_of_def oo_left_def split: if_splits)

text \<open>What an open order has left is among the working volume, so a close fits the position.\<close>

lemma open_left_le:
  assumes inv: "orders_inv base start ts s" and k: "k < length ts" "track_open (ts ! k)"
  shows "ot_vol (ts ! k) - ot_vol_traded (ts ! k) \<le>
    ing_vol (ot_dir (ts ! k)) (ot_off (ts ! k)) (acc_vol (ot_instr_hash (ts ! k)) (rs_acc_base s))"
proof -
  let ?t = "ts ! k"
  have "track_ok (tb_instr_info base) ?t" using orders_invD(4) [OF inv] k(1) by (simp add: list_all_length)
  then have d: "dir_known (ot_dir ?t)" "off_known (ot_off ?t)" by (simp_all add: track_ok_def)
  have "(int k, oo_of ?t) \<in> set (book_of ts)"
    using map_of_book_from [OF k(1), of 0] k(2) by (auto dest: map_of_SomeD)
  then have "book_left (ot_instr_hash ?t) (ot_dir ?t) (ot_off ?t) (oo_of ?t) \<le>
      um_sum (book_left (ot_instr_hash ?t) (ot_dir ?t) (ot_off ?t)) (book_of ts)"
    by (rule um_sum_member) (auto simp: book_left_def dest: book_from_left)
  with book_relD(5) [OF orders_invD(2) [OF inv] d, of "ot_instr_hash ?t"]
  show ?thesis by (simp add: book_left_def oo_of_def oo_left_def)
qed

lemma open_close_fits:
  assumes "orders_inv base start ts s" "k < length ts" "track_open (ts ! k)"
    and "0 \<le> n" "n \<le> ot_vol (ts ! k) - ot_vol_traded (ts ! k)"
  shows "trd_fits (ot_dir (ts ! k)) (ot_off (ts ! k)) n
    (acc_vol (ot_instr_hash (ts ! k)) (rs_acc_base s))"
proof -
  have "track_ok (tb_instr_info base) (ts ! k)"
    using orders_invD(4) [OF assms(1)] assms(2) by (simp add: list_all_length)
  moreover have "closable (acc_vol (ot_instr_hash (ts ! k)) (rs_acc_base s))"
    using orders_invD(3) [OF assms(1)] by (simp add: all_closable_def)
  ultimately show ?thesis
    using open_left_le [OF assms(1-3)] assms(4,5)
    by (auto simp: trd_fits_def track_ok_def closable_def ing_vol_def dir_known_def off_known_def)
qed

lemma rtn_act_notice: "rm_msg_type m \<in> set notice_types \<Longrightarrow> rtn_act t m = Inr"
  by (auto simp: rtn_act_def notice_types_def ods_defs fun_eq_iff)

text \<open>
  A report the life of the order admits: the account follows the record the helper has updated.
\<close>

lemma orders_inv_notice:
  assumes inv: "orders_inv base start ts s" and m: "rm_msg_type m \<in> set notice_types"
    and h: "um_has (ot_instr_hash t) (tb_instr_info base)"
  shows "\<exists>s1. RiskStg_onRtn (tb_instr_info base) t m s = Inr s1 \<and> orders_inv base start ts s1"
proof -
  let ?tb = "tb_instr_info base" and ?h = "ot_instr_hash t"
  note D = orders_invD [OF inv]
  note act = rtn_act_notice [OF m, of t]
  obtain info where info: "map_of ?tb ?h = Some info" using h by (auto simp: um_has_def)
  obtain ab where ab: "acc_on_instr ?tb ?h (rtn_act t m) (rs_acc_base s) = Inr ab"
    "risk_inv ?tb (s\<lparr>rs_acc_base := ab\<rparr>)"
    using risk_inv_report [OF D(1), of "rtn_act t m" ?h] moved_rtn by (auto simp: act no_more_refl)
  have mv: "live c \<Longrightarrow> moved c (Inr c)" for c using moved_rtn [of c t m] by (simp add: act)
  have book: "\<exists>w'. on_acc (\<lambda>tb. acc_on_instr tb ?h (rtn_act t m))
      \<lparr>aw_base = base, aw_acc = rs_acc_base s\<rparr> = Inr w' \<and> book_rel (book_of ts) w'"
    by (intro book_rel_callback [OF D(2), where c = 0 and delta = "\<lambda>_ _. 0"])
      (use book_relD [OF D(2)] h in \<open>auto simp: act intro: mv\<close>)
  have "orders_inv base start ts (s\<lparr>rs_acc_base := ab\<rparr>)"
    by (rule orders_inv_step [OF inv ab(2) info _ book moved_rtn, where d = 0])
      (use ab(1) D(4) in \<open>simp_all add: act\<close>)
  with ab(1) show ?thesis by (simp add: RiskStg_onRtn_def AccBase_onRtn_def)
qed

lemma orders_inv_report:
  assumes inv: "orders_inv base start ts s" and k: "k < length ts"
    and life: "life_step (ot_vol (ts ! k)) m (life_of (ts ! k)) = Some l"
  shows "\<exists>s1. RiskStg_onRtn (tb_instr_info base) (track_rtn m (ts ! k)) m s = Inr s1 \<and>
     orders_inv base start (ts[k := track_rtn m (ts ! k)]) s1"
proof (cases "rm_msg_type m \<in> set notice_types")
  case True
  have "l = life_of (ts ! k)"
    using True life by (auto simp: life_step_def notice_types_def cancel_types_def ods_defs split: prod.splits)
  then have "same_life (ts ! k) (track_rtn m (ts ! k))"
    using track_rtn_life [OF life] by (simp add: same_life_def oo_of_def) (simp add: life_of_def)
  then have "list_all2 same_life ts (ts[k := track_rtn m (ts ! k)])"
    using k by (auto simp: list_all2_conv_all_nth nth_list_update)
  moreover have "um_has (ot_instr_hash (track_rtn m (ts ! k))) (tb_instr_info base)"
    using orders_invD(4) [OF inv] k by (simp add: list_all_length track_ok_def)
  ultimately show ?thesis using orders_inv_notice [OF inv True] orders_inv_same_life by blast
next
  case False
  let ?t = "ts ! k" and ?u = "track_rtn m (ts ! k)" and ?tb = "tb_instr_info base"
  let ?w = "\<lparr>aw_base = base, aw_acc = rs_acc_base s\<rparr>"
  note D = orders_invD [OF inv]
  have ok: "track_ok ?tb ?t" using D(4) k by (simp add: list_all_length)
  have l: "life_of ?u = l" by (rule track_rtn_life [OF life])
  have op: "track_open ?t" and n: "0 \<le> rm_vol m" "rm_vol m \<le> ot_vol ?t - ot_vol_traded ?t"
    using life False by (auto simp: life_step_def track_open_def life_of_def split: if_splits)
  note book = map_of_book_from [OF k, of 0, simplified] op
  have fits: "trd_fits (ot_dir ?u) (ot_off ?u) (rm_vol m) (acc_vol (ot_instr_hash ?u) (rs_acc_base s))"
    using open_close_fits [OF inv k op n] by simp
  obtain s1 where s1: "RiskStg_onRtn ?tb ?u m s = Inr s1" "risk_inv ?tb s1"
    using risk_inv_rtn [OF D(1), of ?u m] ok n fits by (auto simp: report_ok_def rtn_fits_def track_ok_def)
  have run: "acc_on_instr ?tb (ot_instr_hash ?u) (rtn_act ?u m) (rs_acc_base s) = Inr (rs_acc_base s1)"
    using s1(1) by (auto simp: RiskStg_onRtn_def AccBase_onRtn_def res_bind_Inr_iff)
  have step: "order_step (tb_instr_info (aw_base ?w)) (book_of ts) (OnRtn ?u m) (book_of (ts[k := ?u]))"
  proof -
    have view: "order_view (oo_of ?t) ?u" by (simp add: order_view_def oo_of_def)
    have traded: "ot_vol_traded ?u = fst l" by (simp add: life_of_def flip: l)
    consider (part) "rm_msg_type m = ODS_EXECUTION" "0 < rm_vol m" "fst l = ot_vol_traded ?t + rm_vol m"
        "fst l < ot_vol ?t" "\<not> snd l"
      | (fill) "rm_msg_type m = ODS_EXECUTION" "fst l = ot_vol_traded ?t + rm_vol m" "fst l = ot_vol ?t"
      | (cancel) "rm_msg_type m \<in> set cancel_types" "rm_vol m = ot_vol ?t - ot_vol_traded ?t" "snd l"
      using life False
      by (cases "ot_vol_traded ?t + rm_vol m < ot_vol ?t")
        (auto simp: life_step_def life_of_def not_less split: if_splits)
    then show ?thesis
    proof cases
      case part
      then have "track_open ?u" by (simp add: track_open_def l)
      then have "book_of (ts[k := ?u]) =
          AList.update (int k) ((oo_of ?t)\<lparr>oo_traded := ot_vol_traded ?u\<rparr>) (book_of ts)"
        using book_from_update [OF k op, of ?u 0] by (simp add: oo_of_def)
      then show ?thesis
        using order_step.part [of "book_of ts" "int k" "oo_of ?t" ?u m] book view part traded
        by (simp add: oo_left_def oo_of_def)
    next
      case fill
      then have "\<not> track_open ?u" by (simp add: track_open_def l)
      then show ?thesis
        using order_step.fill [of "book_of ts" "int k" "oo_of ?t" ?u m] book view fill traded
          book_from_delete [OF k op, of ?u 0]
        by (simp add: oo_left_def oo_of_def)
    next
      case cancel
      then have "\<not> track_open ?u" by (simp add: track_open_def l)
      then show ?thesis
        using order_step.cancel [of "book_of ts" "int k" "oo_of ?t" ?u m] book view cancel
          book_from_delete [OF k op, of ?u 0]
        by (simp add: oo_left_def oo_of_def)
    qed
  qed
  have "\<exists>w'. acc_step (OnRtn ?u m) ?w = Inr w' \<and> book_rel (book_of (ts[k := ?u])) w'"
    by (rule book_rel_step [OF step D(2)]) (use fits in \<open>simp add: rtn_fits_def\<close>)
  then have b: "\<exists>w'. on_acc (\<lambda>tb. acc_on_instr tb (ot_instr_hash ?u) (rtn_act ?u m)) ?w = Inr w' \<and>
      book_rel (book_of (ts[k := ?u])) w'"
    by (simp add: AccBase_onRtn_def [abs_def])
  have types: "rm_msg_type m = ODS_EXECUTION \<or> rm_msg_type m \<in> set cancel_types"
    using life_step_types [OF life] False by blast
  let ?d = "if ot_dir ?t = AT_CHAR_Buy then ot_vol_traded ?u - ot_vol_traded ?t
      else ot_vol_traded ?t - ot_vol_traded ?u"
  have u: "ot_vol_traded ?u = fst l" by (simp add: life_of_def flip: l)
  have dk: "dir_known (ot_dir ?u)" "off_known (ot_off ?u)" using ok by (simp_all add: track_ok_def)
  obtain info where info: "map_of ?tb (ot_instr_hash ?u) = Some info"
    using ok by (auto simp: track_ok_def um_has_def)
  have "orders_inv base start (ts[k := ?u]) s1"
  proof (rule orders_inv_step [OF inv s1(2) info run b moved_rtn, where d = ?d])
    fix i p a i' p' a'
    assume a: "rtn_act ?u m (mk_ctx i p a) = Inr (mk_ctx i' p' a')" "closable (ins_vol i)"
    show "closable (ins_vol i') \<and> net_vol (ins_vol i') = net_vol (ins_vol i) + ?d"
      using types
    proof
      assume t: "rm_msg_type m = ODS_EXECUTION"
      then have "fst l = ot_vol_traded ?t + rm_vol m"
        using life by (auto simp: life_step_def life_of_def split: if_splits)
      with trd_vol [OF a(1) [unfolded rtn_act_execution [OF t]] dk] closable_trd [OF a(2) n(1) dk]
        net_vol_ops(3) [OF dk] u
      show ?thesis by simp
    next
      assume t: "rm_msg_type m \<in> set cancel_types"
      then have "fst l = ot_vol_traded ?t"
        using life by (auto simp: life_step_def life_of_def split: if_splits)
      with cxl_vol [OF a(1) [unfolded rtn_act_cancel [OF t]] dk] closable_cxl [OF a(2) n(1) dk]
        net_vol_ops(2) [OF dk] u
      show ?thesis by simp
    qed
  next
    have "fst l \<le> ot_vol ?t" "ot_vol_traded ?t \<le> fst l"
      using life False n ok by (auto simp: life_step_def life_of_def track_ok_def split: if_splits)
    with u have "track_ok ?tb ?u" using ok by (simp add: track_ok_def)
    with D(4) k show "list_all (track_ok ?tb) (ts[k := ?u])"
      by (auto simp: list_all_length nth_list_update)
    show "net_of j (ts[k := ?u]) = net_of j ts + (if j = ot_instr_hash ?u then ?d else 0)" for j
      using net_of_update [OF k, of ?u j] by auto
  qed
  with s1(1) show ?thesis by blast
qed

end
