(* ===== verification/Stg_Inv.thy ===== *)
theory Stg_Inv
  imports Stg_Core Stg_Orders
begin

text \<open>
  A trading day of a strategy. What the strategy relies on in its trading helper is the locale
  \<open>order_helper\<close>: operations that do not fault, an order list that grows by the orders sent, and
  reports that continue the life of their order. From that, every round of the event loop runs
  without fault and keeps \<open>stg_day_inv\<close>: the account follows the helper's order list, in the limits.

  The callbacks of the strategy are arbitrary programs over its interface, except that they send
  whole lots of a known direction, leave the choice of a closing offset to the risk control, and
  subscribe to no bars during the day (\<open>legal_prog\<close>).
\<close>

section \<open>Legal strategies\<close>

primrec legal_prog :: "('s, 'u) stg_prog \<Rightarrow> bool" where
  "legal_prog (Done u) = True"
| "legal_prog (Look k) = (\<forall>s. legal_prog (k s))"
| "legal_prog (SendOrder h price vol dir off acc_idx k) =
     (dir_known dir \<and> 0 < vol \<and> off \<in> {AT_CHAR_Open, AT_CHAR_Auto, AT_CHAR_Close} \<and>
      (\<forall>ret. legal_prog (k ret)))"
| "legal_prog (CancelOrder order_id k) = (\<forall>ret. legal_prog (k ret))"
| "legal_prog (Subscribe instruments k) = (\<forall>ok. legal_prog (k ok))"
| "legal_prog (SubsBar instrument interval_min k) = False"
| "legal_prog (Stop p) = legal_prog p"

definition legal_slots :: "('s, 'u) stg_slots \<Rightarrow> bool" where
  "legal_slots u \<longleftrightarrow>
     (\<forall>pmd x. legal_prog (u_sys_on_tick u pmd x)) \<and> (\<forall>pmd x. legal_prog (u_on_tick u pmd x)) \<and>
     (\<forall>b x. legal_prog (u_on_bar u b x)) \<and>
     (\<forall>m x. legal_prog (u_sys_on_rtn u m x)) \<and> (\<forall>m x. legal_prog (u_on_rtn u m x)) \<and>
     (\<forall>n x. legal_prog (u_sys_on_time u n x)) \<and> (\<forall>n x. legal_prog (u_on_time u n x)) \<and>
     (\<forall>d x. legal_prog (u_on_msg u d x))"

lemma legal_slotsD:
  assumes "legal_slots u"
  shows "legal_prog (u_sys_on_tick u pmd x)" "legal_prog (u_on_tick u pmd x)" "legal_prog (u_on_bar u b x)"
    "legal_prog (u_sys_on_rtn u m x)" "legal_prog (u_on_rtn u m x)" "legal_prog (u_sys_on_time u n x)"
    "legal_prog (u_on_time u n x)" "legal_prog (u_on_msg u d x)"
  using assms by (simp_all add: legal_slots_def)

text \<open>Messages that book an execution the strategy did not order go around the risk control.\<close>

fun quiet_msg :: "sys_msg option \<Rightarrow> bool" where
  "quiet_msg (Some (UserAddExecOrder dest dir off price vol h)) = False"
| "quiet_msg _ = True"

section \<open>The contract of a trading helper\<close>

locale order_helper =
  fixes ops :: "'h td_ops"
    and hinv :: "'h \<Rightarrow> bool"
  assumes send_ok: "hinv h \<Longrightarrow> dir_known dir \<Longrightarrow> 0 < vol \<Longrightarrow>
      \<exists>ret t h1. tdo_sendOrder ops instr price vol dir off acc_id stgid hash h = Inr (ret, h1) \<and> hinv h1 \<and>
        tdo_order_track ops h1 = tdo_order_track ops h @ [t] \<and> \<not> snd (life_of t) \<and>
        oo_of t = \<lparr>oo_hash = hash, oo_dir = dir, oo_off = off, oo_px = price, oo_vol = vol, oo_traded = 0\<rparr>"
    and delete_ok: "hinv h \<Longrightarrow> \<exists>ret h1. tdo_deleteOrder ops order_id h = Inr (ret, h1) \<and> hinv h1 \<and>
        list_all2 same_life (tdo_order_track ops h) (tdo_order_track ops h1)"
    and rtn_ok: "hinv h \<Longrightarrow>
      (\<exists>h1. tdo_getRtn ops h = (None, h1) \<and> hinv h1 \<and> tdo_order_track ops h1 = tdo_order_track ops h) \<or>
      (\<exists>m k l h1. tdo_getRtn ops h = (Some m, h1) \<and> hinv h1 \<and> rm_local_id m = int k \<and>
        k < length (tdo_order_track ops h) \<and>
        tdo_order_track ops h1 =
          (tdo_order_track ops h)[k := track_rtn m (tdo_order_track ops h ! k)] \<and>
        life_step (ot_vol (tdo_order_track ops h ! k)) m (life_of (tdo_order_track ops h ! k)) = Some l)"
    and tick_ok: "hinv h \<Longrightarrow> \<exists>h1. tdo_on_tick ops pmd h = Inr h1 \<and> hinv h1 \<and>
        tdo_order_track ops h1 = tdo_order_track ops h"
    and time_ok: "hinv h \<Longrightarrow> hinv (tdo_on_time ops nano h) \<and>
        tdo_order_track ops (tdo_on_time ops nano h) = tdo_order_track ops h"

text \<open>The invariant of the strategy during a day.\<close>

definition stg_day_inv :: "'h td_ops \<Rightarrow> ('h \<Rightarrow> bool) \<Rightarrow> (u32 \<Rightarrow> int) \<Rightarrow> ('h, 'm, 'u) cstrategy \<Rightarrow> bool" where
  "stg_day_inv ops hinv start s \<longleftrightarrow>
     hinv (cs_td s) \<and> orders_inv (cs_base s) start (tdo_order_track ops (cs_td s)) (cs_risk_stg s) \<and>
     (\<forall>h sub. map_of (cs_instr_info_map s) h = Some sub \<longrightarrow>
        map_of (tb_instr_info (cs_base s)) h = Some (base_info sub))"

lemma stg_day_inv_same [simp]:
  "stg_day_inv ops hinv start (s\<lparr>cs_subs_bar := x1\<rparr>) = stg_day_inv ops hinv start s"
  "stg_day_inv ops hinv start (s\<lparr>cs_bar_helper := x2\<rparr>) = stg_day_inv ops hinv start s"
  "stg_day_inv ops hinv start (s\<lparr>cs_user := x3\<rparr>) = stg_day_inv ops hinv start s"
  "stg_day_inv ops hinv start (s\<lparr>cs_is_exit := x4\<rparr>) = stg_day_inv ops hinv start s"
  "stg_day_inv ops hinv start (s\<lparr>cs_do_trade := x5\<rparr>) = stg_day_inv ops hinv start s"
  "stg_day_inv ops hinv start (s\<lparr>cs_md := x6\<rparr>) = stg_day_inv ops hinv start s"
  by (simp_all add: stg_day_inv_def)

lemma stg_day_invD:
  assumes "stg_day_inv ops hinv start s"
  shows "hinv (cs_td s)" "orders_inv (cs_base s) start (tdo_order_track ops (cs_td s)) (cs_risk_stg s)"
    "map_of (cs_instr_info_map s) h = Some sub \<Longrightarrow>
       map_of (tb_instr_info (cs_base s)) h = Some (base_info sub)"
  using assms by (simp_all add: stg_day_inv_def)

text \<open>Registering keeps the account as it is.\<close>

lemma orders_inv_reg:
  assumes "orders_inv base start ts r" "map_of (tb_instr_info base) h = Some info"
  shows "\<exists>ok r1. RiskStg_regInstr (tb_instr_info base) (ii_instr info) r = Inr (ok, r1) \<and> orders_inv base start ts r1"
  using risk_inv_reg [OF orders_invD(1) [OF assms(1)] assms(2)] orders_inv_same_vols [OF assms(1)] by blast

text \<open>The names a subscription expands to are listed.\<close>

lemma instr_set_listed:
  assumes "base_ok tb" "i \<in> set (instr_set_list names tb)"
  shows "\<exists>info. map_of tb (INSTR_NAME_TO_HASH i) = Some info \<and> ii_instr info = i"
proof -
  have "i \<in> expansion names tb"
    using assms(2) set_sorted_list_of_set [of "expansion names tb"]
    by (simp add: instr_set_list_def productToInstrSet_expansion expansion_def)
  then obtain h info where "(h, info) \<in> set tb" "ii_instr info = i" by (auto simp: expansion_def)
  moreover from this assms(1) have "map_of tb h = Some info" by (simp add: base_ok_def map_of_in_set)
  moreover note base_okD(1) [OF assms(1) this]
  ultimately show ?thesis by auto
qed

lemma subscribe_loop_ok:
  assumes "stg_day_inv ops hinv start s"
    and "\<And>i. i \<in> set names \<Longrightarrow> \<exists>info. map_of (tb_instr_info (cs_base s)) (INSTR_NAME_TO_HASH i) = Some info \<and>
      ii_instr info = i"
  shows "\<exists>ok s1. subscribe_loop env names s = Inr (ok, s1) \<and> stg_day_inv ops hinv start s1 \<and>
     cs_subs_bar s1 = cs_subs_bar s"
  using assms
proof (induction names arbitrary: s)
  case (Cons i ls)
  let ?h = "INSTR_NAME_TO_HASH i" and ?tb = "tb_instr_info (cs_base s)"
  show ?case
  proof (cases "map_of (cs_instr_info_map s) ?h")
    case (Some sub)
    with Cons.IH [OF Cons.prems(1)] Cons.prems(2) show ?thesis by simp
  next
    case None
    obtain info where info: "map_of ?tb ?h = Some info" "ii_instr info = i" using Cons.prems(2) by auto
    have touch: "touch_info ?h (cs_base s) = (info, cs_base s)"
      using info(1) by (simp add: touch_info_def)
    obtain ok r1 where r: "RiskStg_regInstr ?tb i (cs_risk_stg s) = Inr (ok, r1)"
      "orders_inv (cs_base s) start (tdo_order_track ops (cs_td s)) r1"
      using orders_inv_reg [OF stg_day_invD(2) [OF Cons.prems(1)] info(1)] info(2) by auto
    let ?s = "s\<lparr>cs_instr_info_map := AList.update ?h \<lparr>base_info = info, lst_tick = last_tick_init\<rparr>
          (cs_instr_info_map s), cs_user := u_sys_on_subscribe (se_slots env) i (cs_user s),
          cs_risk_stg := r1\<rparr>"
    have inv: "stg_day_inv ops hinv start ?s"
      using stg_day_invD [OF Cons.prems(1)] r(2) info(1) by (auto simp: stg_day_inv_def split: if_splits)
    have step: "subscribe_loop env (i # ls) s = (if \<not> ok then Inr (False, ?s) else subscribe_loop env ls ?s)"
      using None touch r(1) by (simp add: Let_def)
    show ?thesis
    proof (cases ok)
      case True
      from Cons.IH [OF inv] Cons.prems(2) True show ?thesis unfolding step by simp
    next
      case False
      with inv show ?thesis unfolding step by auto
    qed
  qed
qed auto

lemma subscribe_ok:
  assumes inv: "stg_day_inv ops hinv start s"
  shows "\<exists>ok s1. CStrategy_subscribe env instruments s = Inr (ok, s1) \<and> stg_day_inv ops hinv start s1 \<and>
     cs_subs_bar s1 = cs_subs_bar s"
proof -
  obtain ok md where md: "mdo_subscribe (se_md env) (tb_instr_info (cs_base s)) (split_tokens [] instruments)
      (cs_md s) = (ok, md)" by fastforce
  have base: "base_ok (tb_instr_info (cs_base s))"
    using risk_invD(1) [OF orders_invD(1) [OF stg_day_invD(2) [OF inv]]] .
  have inv1: "stg_day_inv ops hinv start (s\<lparr>cs_md := md\<rparr>)" using inv by simp
  from subscribe_loop_ok [OF inv1, of "instr_set_list (split_tokens [] instruments)
      (tb_instr_info (cs_base s))" env] instr_set_listed [OF base] inv inv1 md
  show ?thesis by (auto simp: CStrategy_subscribe_def Let_def)
qed

text \<open>\<^verbatim>\<open>GetBar\<close> catches up with the current bar, so a second call finds nothing.\<close>

lemma get_bar_loop_end: "get_bar_loop m p = (q, m1) \<Longrightarrow> bar_idx m1 \<le> rtn_bar_idx m1"
proof (induction m p rule: get_bar_loop.induct)
  case (1 m p)
  show ?case
  proof (cases "rtn_bar_idx m < bar_idx m")
    case True
    with 1 show ?thesis by (simp add: get_bar_loop.simps [of m p] Let_def)
  next
    case False
    with 1(2) show ?thesis by (simp add: get_bar_loop.simps [of m p])
  qed
qed

lemma GetBar_again: "BarMaker_GetBar b = (q, m) \<Longrightarrow> BarMaker_GetBar m = (None, m)"
  using get_bar_loop_end [of b None q m]
  by (simp add: BarMaker_GetBar_def get_bar_loop.simps [of m None])

context order_helper begin

section \<open>Programs\<close>

text \<open>
  A request for an instrument that was subscribed to: the risk control refuses it, or the helper takes
  it and the account books it.
\<close>

lemma place_order:
  assumes h: "hinv td" and inv: "orders_inv base start ts r0"
    and info: "map_of (tb_instr_info base) h = Some (base_info sub)" and fuel: "2 \<le> fuel"
    and ask: "dir_known dir" "0 < vol" "off \<in> {AT_CHAR_Open, AT_CHAR_Auto, AT_CHAR_Close}"
  shows "\<exists>ret off1 r. RiskStg_check fuel (tb_instr_info base) dir off price vol sub r0 = Inr (ret, off1, r) \<and>
    orders_inv base start ts r \<and>
    (ret = 0 \<longrightarrow> (\<exists>oid t td1 r1. tdo_sendOrder ops instr price vol dir off1 acc_idx stg h td = Inr (oid, td1) \<and>
       hinv td1 \<and> tdo_order_track ops td1 = tdo_order_track ops td @ [t] \<and>
       RiskStg_onNew (tb_instr_info base) dir off1 price vol h nano r = Inr r1 \<and>
       orders_inv base start (ts @ [t]) r1))"
proof -
  let ?tb = "tb_instr_info base"
  obtain n where n: "fuel = Suc (Suc n)" using fuel by (metis add_2_eq_Suc le_Suc_ex)
  have askable: "off_askable off" using ask(3) by (auto simp: off_askable_def off_known_def)
  obtain ret off1 r where c: "RiskStg_check (Suc (Suc n)) ?tb dir off price vol sub r0 =
      Inr (ret, off1, r)" "risk_inv ?tb r" "same_vols (rs_acc_base r0) (rs_acc_base r)"
    and z: "ret = 0 \<longrightarrow> (off = AT_CHAR_Auto \<or> off = AT_CHAR_Close \<longrightarrow>
          close_fits dir off1 vol (acc_vol h (rs_acc_base r))) \<and>
        (off \<noteq> AT_CHAR_Auto \<and> off \<noteq> AT_CHAR_Close \<longrightarrow> off1 = off) \<and> off_known off1 \<and>
        um_has h (rs_map_risk_instr r) \<and>
        order_fits (lims_of (rs_map_risk_instr r) ri_limits h) dir off1 vol (acc_vol h (rs_acc_base r)) \<and>
        order_fits (lims_of (rs_map_risk_prd r) rp_limits (ii_product_hash (base_info sub))) dir off1
          vol (acc_prd_vol (ii_product_hash (base_info sub)) (rs_acc_base r)) \<and>
        unfilled_order_cnt (ab_mod_acc (rs_acc_base r)) < unfilled_ord_cnt_threshold (rs_risk_acc r)"
    using risk_inv_check [OF orders_invD(1) [OF inv] info askable, of n dir price vol] by blast
  have o1: "orders_inv base start ts r" by (rule orders_inv_same_vols [OF inv c(2,3)])
  have "\<exists>oid t td1 r1. tdo_sendOrder ops instr price vol dir off1 acc_idx stg h td = Inr (oid, td1) \<and>
       hinv td1 \<and> tdo_order_track ops td1 = tdo_order_track ops td @ [t] \<and>
       RiskStg_onNew ?tb dir off1 price vol h nano r = Inr r1 \<and> orders_inv base start (ts @ [t]) r1"
    if zero: "ret = 0"
  proof -
    from z zero have z': "off_known off1" "um_has h (rs_map_risk_instr r)"
      "order_fits (lims_of (rs_map_risk_instr r) ri_limits h) dir off1 vol (acc_vol h (rs_acc_base r))"
      "order_fits (lims_of (rs_map_risk_prd r) rp_limits (ii_product_hash (base_info sub))) dir off1
          vol (acc_prd_vol (ii_product_hash (base_info sub)) (rs_acc_base r))"
      "unfilled_order_cnt (ab_mod_acc (rs_acc_base r)) < unfilled_ord_cnt_threshold (rs_risk_acc r)"
      by simp_all
    have close: "close_fits dir off1 vol (acc_vol h (rs_acc_base r))"
    proof (cases "off = AT_CHAR_Open")
      case True
      with zero z have "off1 = AT_CHAR_Open" by simp
      then show ?thesis by (simp add: close_fits_def)
    next
      case False
      with zero z ask(3) show ?thesis by auto
    qed
    obtain oid t td1 where t: "tdo_sendOrder ops instr price vol dir off1 acc_idx stg h td = Inr (oid, td1)"
      "hinv td1" "tdo_order_track ops td1 = tdo_order_track ops td @ [t]" "\<not> snd (life_of t)"
      "oo_of t = \<lparr>oo_hash = h, oo_dir = dir, oo_off = off1, oo_px = price, oo_vol = vol, oo_traded = 0\<rparr>"
      using send_ok [OF h ask(1,2), of instr price off1 acc_idx stg h] by blast
    from orders_inv_new [OF o1 info ask(1) z' close t(5) ask(2) t(4), of nano] t(1-3) show ?thesis by blast
  qed
  with c(1) o1 show ?thesis unfolding n by blast
qed

lemma sendOrder_ok:
  assumes env: "se_td env = ops" "2 \<le> se_fuel env" and inv: "stg_day_inv ops hinv start s"
    and ask: "dir_known dir" "0 < vol" "off \<in> {AT_CHAR_Open, AT_CHAR_Auto, AT_CHAR_Close}"
  shows "\<exists>ret s1. CStrategy_sendOrder env h price vol dir off acc_idx s = Inr (ret, s1) \<and>
     stg_day_inv ops hinv start s1 \<and> cs_subs_bar s1 = cs_subs_bar s"
proof (cases "cs_do_trade s \<and> um_has h (cs_instr_info_map s)")
  case False
  with inv show ?thesis by (auto simp: CStrategy_sendOrder_def um_has_def)
next
  case True
  then obtain sub where sub: "cs_do_trade s" "map_of (cs_instr_info_map s) h = Some sub"
    by (auto simp: um_has_def)
  let ?tb = "tb_instr_info (cs_base s)" and ?ts = "tdo_order_track ops (cs_td s)"
  note D = stg_day_invD [OF inv]
  obtain ret off1 r where c:
    "RiskStg_check (se_fuel env) ?tb dir off price vol sub (cs_risk_stg s) = Inr (ret, off1, r)"
    "orders_inv (cs_base s) start ?ts r"
    "ret = 0 \<Longrightarrow> \<exists>oid t td1 r1. tdo_sendOrder ops (ii_instr (base_info sub)) price vol dir off1 acc_idx 0 h (cs_td s) =
         Inr (oid, td1) \<and> hinv td1 \<and> tdo_order_track ops td1 = ?ts @ [t] \<and>
       RiskStg_onNew ?tb dir off1 price vol h (lt_exch_time (lst_tick sub)) r = Inr r1 \<and>
       orders_inv (cs_base s) start (?ts @ [t]) r1"
    using place_order [OF D(1,2) D(3) [OF sub(2)] env(2) ask] by blast
  show ?thesis
  proof (cases "ret = 0")
    case False
    with sub c D show ?thesis by (simp add: CStrategy_sendOrder_def stg_day_inv_def)
  next
    case True
    with c(3) obtain oid t td1 r1 where
      t: "tdo_sendOrder ops (ii_instr (base_info sub)) price vol dir off1 acc_idx 0 h (cs_td s) = Inr (oid, td1)"
      "hinv td1" "tdo_order_track ops td1 = ?ts @ [t]"
      "RiskStg_onNew ?tb dir off1 price vol h (lt_exch_time (lst_tick sub)) r = Inr r1"
      "orders_inv (cs_base s) start (?ts @ [t]) r1" by blast
    have "stg_day_inv ops hinv start (s\<lparr>cs_td := td1, cs_risk_stg := r1\<rparr>)"
      using D(3) t by (simp add: stg_day_inv_def)
    with sub c(1) True t env(1) show ?thesis by (simp add: CStrategy_sendOrder_def)
  qed
qed

lemma cancelOrder_ok:
  assumes env: "se_td env = ops" and inv: "stg_day_inv ops hinv start s"
  shows "\<exists>ret s1. CStrategy_cancelOrder env order_id s = Inr (ret, s1) \<and> stg_day_inv ops hinv start s1 \<and>
     cs_subs_bar s1 = cs_subs_bar s"
proof -
  note D = stg_day_invD [OF inv]
  obtain ret td where td: "tdo_deleteOrder ops order_id (cs_td s) = Inr (ret, td)" "hinv td"
    "list_all2 same_life (tdo_order_track ops (cs_td s)) (tdo_order_track ops td)"
    using delete_ok [OF D(1)] by blast
  from orders_inv_same_life [OF D(2) td(3)] td D(3) env show ?thesis
    by (simp add: CStrategy_cancelOrder_def stg_day_inv_def)
qed

lemma run_prog_ok:
  assumes env: "se_td env = ops" "2 \<le> se_fuel env"
  shows "legal_prog p \<Longrightarrow> stg_day_inv ops hinv start s \<Longrightarrow>
    \<exists>s1. run_prog env p s = Inr s1 \<and> stg_day_inv ops hinv start s1 \<and> cs_subs_bar s1 = cs_subs_bar s"
proof (induction p arbitrary: s)
  case (SendOrder h price vol dir off acc_idx k)
  then have ask: "dir_known dir" "0 < vol" "off \<in> {AT_CHAR_Open, AT_CHAR_Auto, AT_CHAR_Close}"
    and k: "\<And>ret. legal_prog (k ret)" by simp_all
  obtain ret s1 where s1: "CStrategy_sendOrder env h price vol dir off acc_idx s = Inr (ret, s1)"
    "stg_day_inv ops hinv start s1" "cs_subs_bar s1 = cs_subs_bar s"
    using sendOrder_ok [OF env SendOrder.prems(2) ask] by blast
  from SendOrder.IH [OF rangeI k s1(2), of ret] s1 show ?case by simp
next
  case (CancelOrder order_id k)
  then have k: "\<And>ret. legal_prog (k ret)" by simp
  obtain ret s1 where s1: "CStrategy_cancelOrder env order_id s = Inr (ret, s1)"
    "stg_day_inv ops hinv start s1" "cs_subs_bar s1 = cs_subs_bar s"
    using cancelOrder_ok [OF env(1) CancelOrder.prems(2)] by blast
  from CancelOrder.IH [OF rangeI k s1(2), of ret] s1 show ?case by simp
next
  case (Subscribe instruments k)
  then have k: "\<And>ok. legal_prog (k ok)" by simp
  obtain ok s1 where s1: "CStrategy_subscribe env instruments s = Inr (ok, s1)"
    "stg_day_inv ops hinv start s1" "cs_subs_bar s1 = cs_subs_bar s"
    using subscribe_ok [OF Subscribe.prems(2)] by blast
  from Subscribe.IH [OF rangeI k s1(2), of ok] s1 show ?case by simp
next
  case (Stop p)
  from Stop.IH [of "CStrategy_stop s"] Stop.prems show ?case by (simp add: CStrategy_stop_def)
qed simp_all

lemma call_slot_ok:
  assumes "se_td env = ops" "2 \<le> se_fuel env" "stg_day_inv ops hinv start s"
    and "\<And>x. legal_prog (f (se_slots env) x)"
  shows "\<exists>s1. call_slot env f s = Inr s1 \<and> stg_day_inv ops hinv start s1 \<and> cs_subs_bar s1 = cs_subs_bar s"
  unfolding call_slot_def by (rule run_prog_ok [OF assms(1,2,4,3)])

section \<open>Bars\<close>

lemma get_bars_ok:
  assumes env: "se_td env = ops" "2 \<le> se_fuel env" "legal_slots (se_slots env)"
    and inv: "stg_day_inv ops hinv start s" and k: "k < length (cs_subs_bar s)"
  shows "\<exists>s1. get_bars (se_fuel env) env k s = Inr s1 \<and> stg_day_inv ops hinv start s1 \<and>
     length (cs_subs_bar s1) = length (cs_subs_bar s)"
proof -
  obtain n where n: "se_fuel env = Suc (Suc n)" using env(2) by (metis add_2_eq_Suc le_Suc_ex)
  obtain pbar m where g: "BarMaker_GetBar (cs_subs_bar s ! k) = (pbar, m)" by fastforce
  let ?s1 = "s\<lparr>cs_subs_bar := (cs_subs_bar s)[k := m]\<rparr>"
  show ?thesis
  proof (cases pbar)
    case None
    with g n inv show ?thesis by (simp add: Let_def)
  next
    case (Some b)
    have "stg_day_inv ops hinv start ?s1" using inv by simp
    from call_slot_ok [OF env(1,2) this, of "\<lambda>u. u_on_bar u b"] legal_slotsD(3) [OF env(3)]
    obtain s2 where s2: "call_slot env (\<lambda>u. u_on_bar u b) ?s1 = Inr s2" "stg_day_inv ops hinv start s2"
      "cs_subs_bar s2 = (cs_subs_bar s)[k := m]" by auto
    have "BarMaker_GetBar m = (None, m)" by (rule GetBar_again [OF g])
    with g n Some s2 k show ?thesis by (simp add: Let_def)
  qed
qed

lemma bars_on_tick_ok:
  assumes env: "se_td env = ops" "2 \<le> se_fuel env" "legal_slots (se_slots env)"
  shows "stg_day_inv ops hinv start s \<Longrightarrow> \<forall>k \<in> set ks. k < length (cs_subs_bar s) \<Longrightarrow>
    \<exists>s1. bars_on_tick env pmd ks s = Inr s1 \<and> stg_day_inv ops hinv start s1"
proof (induction ks arbitrary: s)
  case (Cons k ks)
  obtain bh m where bh: "BarMaker_OnTick pmd (cs_bar_helper s, cs_subs_bar s ! k) = (bh, m)" by fastforce
  let ?s1 = "s\<lparr>cs_bar_helper := bh, cs_subs_bar := (cs_subs_bar s)[k := m]\<rparr>"
  have "stg_day_inv ops hinv start ?s1" "k < length (cs_subs_bar ?s1)" using Cons.prems by simp_all
  from get_bars_ok [OF env this] obtain s2 where
    s2: "get_bars (se_fuel env) env k ?s1 = Inr s2" "stg_day_inv ops hinv start s2"
      "length (cs_subs_bar s2) = length (cs_subs_bar s)" by auto
  from Cons.IH [OF s2(2)] Cons.prems(2) bh s2 show ?case by simp
qed simp

section \<open>Rounds of the event loop\<close>

lemma processTick_ok:
  assumes env: "se_td env = ops" "2 \<le> se_fuel env" "legal_slots (se_slots env)"
    and inv: "stg_day_inv ops hinv start s"
  shows "\<exists>s1. CStrategy_processTick env pmd s = Inr s1 \<and> stg_day_inv ops hinv start s1"
proof -
  note D = stg_day_invD [OF inv]
  let ?s1 = "s\<lparr>cs_instr_info_map := store_tick pmd (cs_instr_info_map s)\<rparr>"
  obtain td where td: "tdo_on_tick ops pmd (cs_td s) = Inr td" "hinv td"
    "tdo_order_track ops td = tdo_order_track ops (cs_td s)"
    using tick_ok [OF D(1)] by blast
  have "stg_day_inv ops hinv start (?s1\<lparr>cs_td := td\<rparr>)"
    using D td by (auto simp: stg_day_inv_def store_tick_def split: option.splits if_splits)
  from call_slot_ok [OF env(1,2) this, of "\<lambda>u. u_sys_on_tick u pmd"] legal_slotsD(1) [OF env(3)]
  obtain s2 where s2: "call_slot env (\<lambda>u. u_sys_on_tick u pmd) (?s1\<lparr>cs_td := td\<rparr>) = Inr s2"
    "stg_day_inv ops hinv start s2" by auto
  from call_slot_ok [OF env(1,2) this(2), of "\<lambda>u. u_on_tick u pmd"] legal_slotsD(2) [OF env(3)]
  obtain s3 where s3: "call_slot env (\<lambda>u. u_on_tick u pmd) s2 = Inr s3" "stg_day_inv ops hinv start s3" by auto
  from bars_on_tick_ok [OF env s3(2), of "[0..<length (cs_subs_bar s3)]" pmd] td(1) s2(1) s3(1) env(1)
  show ?thesis by (simp add: CStrategy_processTick_def Let_def)
qed

lemma rtn_round_ok:
  assumes env: "se_td env = ops" "2 \<le> se_fuel env" "legal_slots (se_slots env)"
    and inv: "stg_day_inv ops hinv start s" and get: "tdo_getRtn ops (cs_td s) = (prtn, td)"
  shows "\<exists>s1. (case prtn of
            None \<Rightarrow> Inr (s\<lparr>cs_td := td\<rparr>)
          | Some m \<Rightarrow>
              res_bind (CStrategy_getOrderTrack env (rm_local_id m) (s\<lparr>cs_td := td\<rparr>)) (\<lambda>t.
              res_bind (RiskStg_onRtn (tb_instr_info (cs_base s)) t m (cs_risk_stg s)) (\<lambda>r.
              res_bind (call_slot env (\<lambda>u. u_sys_on_rtn u m) (s\<lparr>cs_td := td, cs_risk_stg := r\<rparr>)) (\<lambda>s4.
                call_slot env (\<lambda>u. u_on_rtn u m) s4)))) = Inr s1 \<and> stg_day_inv ops hinv start s1"
proof -
  note D = stg_day_invD [OF inv]
  let ?ts = "tdo_order_track ops (cs_td s)"
  show ?thesis
  proof (cases prtn)
    case None
    with rtn_ok [OF D(1)] get D(2,3) show ?thesis by (auto simp: stg_day_inv_def)
  next
    case (Some m)
    obtain k l where m: "hinv td" "rm_local_id m = int k" "k < length ?ts"
      "tdo_order_track ops td = ?ts[k := track_rtn m (?ts ! k)]"
      "life_step (ot_vol (?ts ! k)) m (life_of (?ts ! k)) = Some l"
      using rtn_ok [OF D(1)] get Some by auto
    have t: "CStrategy_getOrderTrack env (rm_local_id m) (s\<lparr>cs_td := td\<rparr>) = Inr (track_rtn m (?ts ! k))"
      using m env(1) by (simp add: CStrategy_getOrderTrack_def Let_def)
    obtain r where r: "RiskStg_onRtn (tb_instr_info (cs_base s)) (track_rtn m (?ts ! k)) m (cs_risk_stg s) =
        Inr r" "orders_inv (cs_base s) start (tdo_order_track ops td) r"
      using orders_inv_report [OF D(2) m(3,5)] m(4) by auto
    have "stg_day_inv ops hinv start (s\<lparr>cs_td := td, cs_risk_stg := r\<rparr>)"
      using m(1) r(2) D(3) by (simp add: stg_day_inv_def)
    from call_slot_ok [OF env(1,2) this, of "\<lambda>u. u_sys_on_rtn u m"] legal_slotsD(4) [OF env(3)]
    obtain s4 where s4: "call_slot env (\<lambda>u. u_sys_on_rtn u m) (s\<lparr>cs_td := td, cs_risk_stg := r\<rparr>) = Inr s4"
      "stg_day_inv ops hinv start s4" by auto
    from call_slot_ok [OF env(1,2) s4(2), of "\<lambda>u. u_on_rtn u m"] legal_slotsD(5) [OF env(3)] t r(1) s4(1) Some
    show ?thesis by auto
  qed
qed

lemma processSysIO_ok:
  assumes env: "se_td env = ops" "2 \<le> se_fuel env" "legal_slots (se_slots env)"
    and inv: "stg_day_inv ops hinv start s" and msg: "quiet_msg msg"
  shows "\<exists>s1. CStrategy_processSysIO env nano msg s = Inr s1 \<and> stg_day_inv ops hinv start s1"
proof (cases msg)
  case (Some m)
  show ?thesis
  proof (cases m)
    case (UserCmd dest data)
    from call_slot_ok [OF env(1,2) inv, of "\<lambda>u. u_on_msg u data"] legal_slotsD(8) [OF env(3)]
    obtain s1 where "call_slot env (\<lambda>u. u_on_msg u data) s = Inr s1" "stg_day_inv ops hinv start s1" by auto
    with Some UserCmd inv show ?thesis by (simp add: CStrategy_processSysIO_def)
  qed (use Some msg inv in \<open>auto simp: CStrategy_processSysIO_def\<close>)
qed (use inv in \<open>simp add: CStrategy_processSysIO_def\<close>)

lemma time_round_ok:
  assumes env: "se_td env = ops" "2 \<le> se_fuel env" "legal_slots (se_slots env)"
    and inv: "stg_day_inv ops hinv start s" and msg: "quiet_msg msg"
  shows "\<exists>s1. res_bind (call_slot env (\<lambda>u. u_sys_on_time u nano)
        (s\<lparr>cs_td := tdo_on_time ops nano (cs_td s)\<rparr>)) (\<lambda>s7.
      res_bind (call_slot env (\<lambda>u. u_on_time u nano) s7) (CStrategy_processSysIO env nano msg)) = Inr s1 \<and>
    stg_day_inv ops hinv start s1"
proof -
  note D = stg_day_invD [OF inv]
  have "stg_day_inv ops hinv start (s\<lparr>cs_td := tdo_on_time ops nano (cs_td s)\<rparr>)"
    using time_ok [OF D(1)] D(2,3) by (simp add: stg_day_inv_def)
  from call_slot_ok [OF env(1,2) this, of "\<lambda>u. u_sys_on_time u nano"] legal_slotsD(6) [OF env(3)]
  obtain s7 where s7: "call_slot env (\<lambda>u. u_sys_on_time u nano)
      (s\<lparr>cs_td := tdo_on_time ops nano (cs_td s)\<rparr>) = Inr s7" "stg_day_inv ops hinv start s7" by auto
  from call_slot_ok [OF env(1,2) s7(2), of "\<lambda>u. u_on_time u nano"] legal_slotsD(7) [OF env(3)]
  obtain s8 where s8: "call_slot env (\<lambda>u. u_on_time u nano) s7 = Inr s8" "stg_day_inv ops hinv start s8" by auto
  from processSysIO_ok [OF env s8(2) msg, of nano] s7(1) s8(1) show ?thesis by simp
qed

text \<open>A round, for any reader of ticks that keeps the invariant.\<close>

lemma round_ok:
  assumes env: "se_td env = ops" "2 \<le> se_fuel env" "legal_slots (se_slots env)"
    and read: "\<exists>pmd s1. read s = Inr (pmd, s1) \<and> stg_day_inv ops hinv start s1"
    and msg: "quiet_msg (ci_sys_msg inp)"
  shows "\<exists>s1. CStrategy_round env read inp s = Inr s1 \<and> stg_day_inv ops hinv start s1"
proof -
  obtain pmd s1 where s1: "read s = Inr (pmd, s1)" "stg_day_inv ops hinv start s1" using read by blast
  obtain s2 where s2: "(case pmd of None \<Rightarrow> Inr s1 | Some u \<Rightarrow> CStrategy_processTick env u s1) = Inr s2"
    "stg_day_inv ops hinv start s2"
    using processTick_ok [OF env s1(2)] s1(2) by (cases pmd) auto
  obtain prtn td where g: "tdo_getRtn ops (cs_td s2) = (prtn, td)" by fastforce
  from rtn_round_ok [OF env s2(2) g] obtain s5 where s5: "(case prtn of
            None \<Rightarrow> Inr (s2\<lparr>cs_td := td\<rparr>)
          | Some m \<Rightarrow>
              res_bind (CStrategy_getOrderTrack env (rm_local_id m) (s2\<lparr>cs_td := td\<rparr>)) (\<lambda>t.
              res_bind (RiskStg_onRtn (tb_instr_info (cs_base s2)) t m (cs_risk_stg s2)) (\<lambda>r.
              res_bind (call_slot env (\<lambda>u. u_sys_on_rtn u m) (s2\<lparr>cs_td := td, cs_risk_stg := r\<rparr>)) (\<lambda>s4.
                call_slot env (\<lambda>u. u_on_rtn u m) s4)))) = Inr s5" "stg_day_inv ops hinv start s5" by blast
  have "CStrategy_round env read inp s = (if pmd = None \<and> prtn = None then
      res_bind (call_slot env (\<lambda>u. u_sys_on_time u (ci_nano inp))
        (s5\<lparr>cs_td := tdo_on_time ops (ci_nano inp) (cs_td s5)\<rparr>)) (\<lambda>s7.
      res_bind (call_slot env (\<lambda>u. u_on_time u (ci_nano inp)) s7)
        (CStrategy_processSysIO env (ci_nano inp) (ci_sys_msg inp))) else Inr s5)"
    using s5(1) unfolding CStrategy_round_def s1(1) res_bind_simps prod.case s2(1)
    by (cases prtn) (simp_all add: g env(1) Let_def)
  with time_round_ok [OF env s5(2) msg, of "ci_nano inp"] s5(2) show ?thesis by simp
qed

end

end
