(* ===== verification/Stg_Properties.thy ===== *)
theory Stg_Properties
  imports Stg_Inv Td_Fake_Inv Risk_Properties
begin

text \<open>
  A strategy (\<^verbatim>\<open>strategy/CStrategy\<close>) that trades a day against the simulated exchange
  (\<^verbatim>\<open>td/CTDHelperFake\<close>): the exchange fulfils the contract \<open>order_helper\<close>, so whole days of any legal
  strategy run without fault, and the account of the strategy is what its orders and their
  executions say.
\<close>

section \<open>The exchange as a trading helper\<close>

definition fake_ops :: "td_fake td_ops" where
  "fake_ops =
     \<lparr>tdo_sendOrder = CTDHelperFake_sendOrder, tdo_deleteOrder = CTDHelperFake_deleteOrder,
      tdo_getRtn = CTDHelperFake_getRtn, tdo_order_track = th_order_track,
      tdo_on_tick = CTDHelperFake_on_tick, tdo_on_time = (\<lambda>_ h. h),
      tdo_on_switch_day = CTDHelperFake_on_switch_day\<rparr>"

lemma fake_ops_sel [simp]:
  "tdo_sendOrder fake_ops = CTDHelperFake_sendOrder" "tdo_deleteOrder fake_ops = CTDHelperFake_deleteOrder"
  "tdo_getRtn fake_ops = CTDHelperFake_getRtn" "tdo_order_track fake_ops = th_order_track"
  "tdo_on_tick fake_ops = CTDHelperFake_on_tick" "tdo_on_time fake_ops = (\<lambda>_ h. h)"
  "tdo_on_switch_day fake_ops = CTDHelperFake_on_switch_day"
  by (simp_all add: fake_ops_def)

lemma same_life_cxling:
  "list_all2 same_life ts (ts[k := (ts ! k)\<lparr>ot_status := ot_status (ts ! k) OR ODS_CXLING\<rparr>])"
proof -
  have "same_life t (t\<lparr>ot_status := ot_status t OR ODS_CXLING\<rparr>)" for t
    by (simp add: same_life_def oo_of_def life_of_def ods_ended_or)
  then show ?thesis by (cases "k < length ts") (auto simp: list_all2_conv_all_nth nth_list_update)
qed

interpretation fake: order_helper fake_ops fake_inv
proof
  fix h :: td_fake and dir vol off acc_id stgid :: int and instr price hash
  assume "fake_inv h" "dir_known dir" "0 < vol"
  from sendOrder_inv [OF this, of instr price off acc_id stgid hash]
  show "\<exists>ret t h1. tdo_sendOrder fake_ops instr price vol dir off acc_id stgid hash h = Inr (ret, h1) \<and>
      fake_inv h1 \<and> tdo_order_track fake_ops h1 = tdo_order_track fake_ops h @ [t] \<and> \<not> snd (life_of t) \<and>
      oo_of t = \<lparr>oo_hash = hash, oo_dir = dir, oo_off = off, oo_px = price, oo_vol = vol, oo_traded = 0\<rparr>"
    by (auto simp: oo_of_def order_track_init_def life_of_def)
next
  fix h order_id assume "fake_inv h"
  from deleteOrder_inv [OF this, of order_id] same_life_cxling [of "th_order_track h" "nat order_id"]
  show "\<exists>ret h1. tdo_deleteOrder fake_ops order_id h = Inr (ret, h1) \<and> fake_inv h1 \<and>
      list_all2 same_life (tdo_order_track fake_ops h) (tdo_order_track fake_ops h1)"
    by (auto simp: list_all2_refl)
next
  fix h assume "fake_inv h"
  with getRtn_inv [OF this] show "(\<exists>h1. tdo_getRtn fake_ops h = (None, h1) \<and> fake_inv h1 \<and>
        tdo_order_track fake_ops h1 = tdo_order_track fake_ops h) \<or>
      (\<exists>m k l h1. tdo_getRtn fake_ops h = (Some m, h1) \<and> fake_inv h1 \<and> rm_local_id m = int k \<and>
        k < length (tdo_order_track fake_ops h) \<and>
        tdo_order_track fake_ops h1 =
          (tdo_order_track fake_ops h)[k := track_rtn m (tdo_order_track fake_ops h ! k)] \<and>
        life_step (ot_vol (tdo_order_track fake_ops h ! k)) m (life_of (tdo_order_track fake_ops h ! k)) =
          Some l)"
    unfolding fake_ops_sel by blast
next
  fix h pmd assume "fake_inv h"
  from on_tick_inv [OF this, of pmd]
  show "\<exists>h1. tdo_on_tick fake_ops pmd h = Inr h1 \<and> fake_inv h1 \<and>
      tdo_order_track fake_ops h1 = tdo_order_track fake_ops h" by simp
qed simp

section \<open>A trading day\<close>

definition fake_env ::
    "nat \<Rightarrow> 'm md_ops \<Rightarrow> ((td_fake, 'm, 'u) cstrategy, 'u) stg_slots \<Rightarrow> file_env \<Rightarrow>
     (td_fake, 'm, 'u) stg_env" where
  "fake_env n md slots fe =
     \<lparr>se_fuel = Suc (Suc n), se_td = fake_ops, se_md = md, se_slots = slots, se_files = fe\<rparr>"

text \<open>A round of the loop in which the market data helper yields a tick or none, on the same day.\<close>

definition day_step ::
    "(td_fake, 'm, 'u) stg_env \<Rightarrow> market_data option \<times> cycle_in \<Rightarrow> (td_fake, 'm, 'u) cstrategy \<Rightarrow>
     (td_fake, 'm, 'u) cstrategy res" where
  "day_step env e s =
     (case e of (pmd, inp) \<Rightarrow> CStrategy_round env (\<lambda>s. Inr (pmd, s)) inp (set_flags inp s))"

definition day_legal :: "('s, 'u) stg_slots \<Rightarrow> market_data option \<times> cycle_in \<Rightarrow> 'x \<Rightarrow> bool" where
  "day_legal slots e s \<longleftrightarrow> legal_slots slots \<and> quiet_msg (ci_sys_msg (snd e))"

interpretation trading_day: guarded_machine "day_step (fake_env n md slots fe)" "day_legal slots"
    "stg_day_inv fake_ops fake_inv start"
    for n md slots fe start
proof
  fix s :: "(td_fake, 'a, 'b) cstrategy" and e
  assume s: "stg_day_inv fake_ops fake_inv start s" and e: "day_legal slots e s"
  have inv: "stg_day_inv fake_ops fake_inv start (set_flags (snd e) s)" using s by (simp add: set_flags_def)
  have "\<exists>s1. CStrategy_round (fake_env n md slots fe) (\<lambda>s. Inr (fst e, s)) (snd e) (set_flags (snd e) s) =
      Inr s1 \<and> stg_day_inv fake_ops fake_inv start s1"
    by (rule fake.round_ok) (use e inv in \<open>simp_all add: fake_env_def day_legal_def\<close>)
  then show "\<exists>t. day_step (fake_env n md slots fe) e s = Inr t \<and> stg_day_inv fake_ops fake_inv start t"
    by (simp add: day_step_def split_def)
qed

text \<open>A portfolio without working orders is in order at the start of a day.\<close>

lemma idle_account:
  assumes "risk_inv (tb_instr_info base) r" "book_rel [] \<lparr>aw_base = base, aw_acc = rs_acc_base r\<rparr>"
  shows "orders_inv base (\<lambda>h. net_vol (acc_vol h (rs_acc_base r))) [] r"
proof -
  have "closable (acc_vol h (rs_acc_base r))" for h
  proof -
    have ing: "ing_vol d f (acc_vol h (rs_acc_base r)) = 0" if "dir_known d" "off_known f" for d f
      using book_relD(5) [OF assms(2) that, of h] by simp
    have "vol_pos (acc_vol h (rs_acc_base r))"
      using acc_invD(4) [OF risk_invD(2) [OF assms(1)], of h]
      by (auto simp: acc_vol_def ins_ok_def vol_pos_def unit_vol_init_def split: option.splits)
    then show ?thesis
      using ing [of AT_CHAR_Sell AT_CHAR_CloseYesterday] ing [of AT_CHAR_Sell AT_CHAR_CloseToday]
        ing [of AT_CHAR_Buy AT_CHAR_CloseYesterday] ing [of AT_CHAR_Buy AT_CHAR_CloseToday]
      by (simp add: closable_def vol_pos_def ing_vol_def dir_known_def off_known_def)
  qed
  with assms show ?thesis by (simp add: orders_inv_def all_closable_def net_of_def)
qed

lemma day_start_inv:
  assumes "risk_inv (tb_instr_info (cs_base s)) (cs_risk_stg s)"
    and "book_rel [] \<lparr>aw_base = cs_base s, aw_acc = rs_acc_base (cs_risk_stg s)\<rparr>"
    and "cs_td s = td_fake_init name wait"
    and "\<forall>h sub. map_of (cs_instr_info_map s) h = Some sub \<longrightarrow>
      map_of (tb_instr_info (cs_base s)) h = Some (base_info sub)"
  shows "stg_day_inv fake_ops fake_inv (\<lambda>h. net_vol (acc_vol h (rs_acc_base (cs_risk_stg s)))) s"
  using idle_account [OF assms(1,2)] assms(3,4) fake_inv_init [of name wait]
  by (simp add: stg_day_inv_def td_fake_init_def)

lemma legal_day:
  "legal_slots slots \<Longrightarrow> list_all (\<lambda>e. quiet_msg (ci_sys_msg (snd e))) es \<Longrightarrow>
   legal_run step (day_legal slots) es s"
  by (induction es arbitrary: s) (auto simp: day_legal_def split: sum.splits)

lemma um_sum_book_from:
  "um_sum (book_left h d f) (book_from n ts) =
   (\<Sum>t\<leftarrow>filter track_open ts. if ot_instr_hash t = h \<and> ot_dir t = d \<and> ot_off t = f
      then ot_vol t - ot_vol_traded t else 0)"
  by (induction ts arbitrary: n) (auto simp: book_left_def oo_of_def oo_left_def)

lemma length_book_from: "length (book_from n ts) = length (filter track_open ts)"
  by (induction ts arbitrary: n) auto

text \<open>When all reports are read, the exchange's working set is the client's open orders.\<close>

lemma working_set_read:
  assumes "fake_inv s" "tf_rtn_msg_queue s = []"
  shows "length (filter track_open (th_order_track s)) = length (tf_queued_track_id s)"
proof -
  let ?ts = "th_order_track s" and ?es = "tf_eng_order_track s"
  have len: "length ?es = length ?ts" and q: "distinct (tf_queued_track_id s)"
    and w: "set (tf_queued_track_id s) = {k. k < length ?es \<and> track_open (?es ! k)}"
    using assms(1) by (auto simp: fake_inv_def pairs_ok_def queued_ok_def)
  have "track_open (?ts ! k) = track_open (?es ! k)" if "k < length ?ts" for k
  proof -
    have "pair_ok k [] (?ts ! k) (?es ! k)"
      using assms that by (simp add: fake_inv_def pairs_ok_def)
    then show ?thesis by (simp add: pair_ok_def reports_of_def track_open_def same_order_def)
  qed
  then have "{k. k < length ?ts \<and> track_open (?ts ! k)} = set (tf_queued_track_id s)"
    unfolding w len by blast
  with q show ?thesis by (simp add: length_filter_conv_card distinct_card)
qed

section \<open>An example\<close>

text \<open>A strategy that buys two lots on every tick; one tick, three rounds for the reports.\<close>

definition if_slots :: "((td_fake, unit, unit) cstrategy, unit) stg_slots" where
  "if_slots =
     \<lparr>u_sys_on_start = Done, u_sys_on_tick = (\<lambda>_. Done),
      u_on_tick = (\<lambda>pmd u. SendOrder (md_instr_hash pmd) 4002 2 AT_CHAR_Buy AT_CHAR_Auto 0 (\<lambda>_. Done u)),
      u_on_bar = (\<lambda>_. Done), u_sys_on_rtn = (\<lambda>_. Done), u_on_rtn = (\<lambda>_. Done),
      u_sys_on_time = (\<lambda>_. Done), u_on_time = (\<lambda>_. Done), u_on_msg = (\<lambda>_. Done),
      u_sys_on_switch_day = (\<lambda>_. Done), u_on_switch_day = (\<lambda>_. Done), u_sys_on_stop = Done,
      u_sys_on_subscribe = (\<lambda>_ u. u)\<rparr>"

definition if_md_ops :: "unit md_ops" where
  "if_md_ops = \<lparr>mdo_subscribe = (\<lambda>_ _ m. (True, m)), mdo_clearMap = (\<lambda>m. m)\<rparr>"

definition if_files :: file_env where
  "if_files = \<lparr>fe_account_base_path = ''/acc'', fe_create_path = (\<lambda>_. True), fe_can_write = (\<lambda>_. True),
     fe_can_read = (\<lambda>_. True)\<rparr>"

definition if_stg :: "(td_fake, unit, unit) cstrategy" where
  "if_stg =
     \<lparr>cs_self_id = 0, cs_instr_info_map = if_subs, cs_md = (), cs_td = td_fake_init ''fake'' 0,
      cs_risk_stg = risk_stg_init\<lparr>rs_j_conf := if_conf, rs_risk_acc := if_risk_acc\<rparr>,
      cs_subs_bar = [], cs_is_exit = False, cs_do_trade = True, cs_trading_day = ''20220601'',
      cs_acc_save_day = ''20220601'', cs_listen_sysio = False, cs_base = if_base,
      cs_bar_helper = bar_helper_init, cs_disk = [], cs_user = ()\<rparr>"

definition if_tick :: market_data where
  "if_tick = market_data_init
     \<lparr>md_instr_hash := INSTR_NAME_TO_HASH ''IF2206'', md_instr_str := ''IF2206'', md_last_px := 4000,
      md_ask_px := 4001, md_ask_vol := 1, md_bid_px := 3999, md_bid_vol := 9\<rparr>"

definition if_rounds :: "(market_data option \<times> cycle_in) list" where
  "if_rounds = (let inp = \<lparr>ci_nano = 0, ci_sys_msg = None, ci_stop = False, ci_do_trade = None\<rparr>
     in [(Some if_tick, inp), (None, inp), (None, inp), (None, inp)])"

lemma if_slots_legal: "legal_slots if_slots"
  by (simp add: legal_slots_def if_slots_def dir_known_def)

lemma if_rounds_quiet: "list_all (\<lambda>e. quiet_msg (ci_sys_msg (snd e))) if_rounds"
  by (simp add: if_rounds_def Let_def)

lemma if_stg_start:
  "risk_inv (tb_instr_info (cs_base if_stg)) (cs_risk_stg if_stg)"
  "book_rel [] \<lparr>aw_base = cs_base if_stg, aw_acc = rs_acc_base (cs_risk_stg if_stg)\<rparr>"
  "cs_td if_stg = td_fake_init ''fake'' 0"
  "\<forall>h sub. map_of (cs_instr_info_map if_stg) h = Some sub \<longrightarrow>
     map_of (tb_instr_info (cs_base if_stg)) h = Some (base_info sub)"
proof -
  have "stg_inv (tb_instr_info if_base) (strategy_start if_conf if_risk_acc if_subs)"
    by (rule stg_inv_start [OF if_base_ok if_conf_ok if_start(1)]) (use if_start(2) in blast)
  then show "risk_inv (tb_instr_info (cs_base if_stg)) (cs_risk_stg if_stg)"
    by (simp add: stg_inv_def strategy_start_def if_stg_def)
  show "book_rel [] \<lparr>aw_base = cs_base if_stg, aw_acc = rs_acc_base (cs_risk_stg if_stg)\<rparr>"
    by (rule book_relI)
      (simp_all add: if_stg_def risk_stg_init_def acc_world_inv_def book_ok_def acc_vol_def ing_vol_def
        unit_vol_init_def, simp_all add: acc_base_init_def mod_acc_init_def unit_vol_init_def)
qed (use if_start(2) in \<open>simp_all add: if_stg_def\<close>)

section \<open>Properties\<close>

text \<open>
  C5. Every strategy whose callbacks are legal programs trades a whole day against the simulated
  exchange without a fault, from any portfolio without working orders, under any ticks, flags and
  messages. At the end of every run its account is what its orders say: the net position of an
  instrument is that of the morning plus what its orders traded, the working volume of every
  direction and offset is what its open orders have left, the number of unfilled orders is the
  number of open orders (and once all reports are read the size of the exchange's working set), and
  the working closes of every side fit the position they close. The limits hold throughout.
\<close>

theorem strategy_follows_exchange:
  assumes "risk_inv (tb_instr_info (cs_base s0)) (cs_risk_stg s0)"
    and "book_rel [] \<lparr>aw_base = cs_base s0, aw_acc = rs_acc_base (cs_risk_stg s0)\<rparr>"
    and "cs_td s0 = td_fake_init name wait"
    and "\<forall>h sub. map_of (cs_instr_info_map s0) h = Some sub \<longrightarrow>
      map_of (tb_instr_info (cs_base s0)) h = Some (base_info sub)"
    and "legal_slots slots" "list_all (\<lambda>e. quiet_msg (ci_sys_msg (snd e))) es"
  shows "\<exists>s ab ts. run_steps (day_step (fake_env n md slots fe)) es s0 = Inr s \<and>
    ab = rs_acc_base (cs_risk_stg s) \<and> ts = th_order_track (cs_td s) \<and> acc_inv ab \<and>
    (\<forall>h. pos_long (acc_vol h ab) - pos_short (acc_vol h ab) =
       pos_long (acc_vol h (rs_acc_base (cs_risk_stg s0))) -
       pos_short (acc_vol h (rs_acc_base (cs_risk_stg s0))) +
       (\<Sum>t\<leftarrow>ts. if ot_instr_hash t = h then
          (if ot_dir t = AT_CHAR_Buy then ot_vol_traded t else - ot_vol_traded t) else 0)) \<and>
    (\<forall>h dir off. dir_known dir \<longrightarrow> off_known off \<longrightarrow> ing_vol dir off (acc_vol h ab) =
       (\<Sum>t\<leftarrow>filter track_open ts. if ot_instr_hash t = h \<and> ot_dir t = dir \<and> ot_off t = off
          then ot_vol t - ot_vol_traded t else 0)) \<and>
    unfilled_order_cnt (ab_mod_acc ab) = int (length (filter track_open ts)) \<and>
    (tf_rtn_msg_queue (cs_td s) = [] \<longrightarrow>
       unfilled_order_cnt (ab_mod_acc ab) = int (length (tf_queued_track_id (cs_td s)))) \<and>
    (\<forall>h. closable (acc_vol h ab)) \<and>
    (\<forall>h r. map_of (rs_map_risk_instr (cs_risk_stg s)) h = Some r \<longrightarrow>
       in_limits (ri_limits r) (acc_vol h ab)) \<and>
    unfilled_order_cnt (ab_mod_acc ab) \<le> max 0 (unfilled_ord_cnt_threshold (rs_risk_acc (cs_risk_stg s)))"
proof -
  let ?start = "\<lambda>h. net_vol (acc_vol h (rs_acc_base (cs_risk_stg s0)))"
  from trading_day.run_inv [OF day_start_inv [OF assms(1-4)] legal_day [OF assms(5,6)]] obtain s where
    s: "run_steps (day_step (fake_env n md slots fe)) es s0 = Inr s"
      "stg_day_inv fake_ops fake_inv ?start s" by blast
  note D = stg_day_invD [OF s(2)]
  note O = orders_invD [OF D(2)]
  note R = book_relD [OF O(2)] and I = risk_invD [OF O(1)]
  have lim: "in_limits (ri_limits r) (acc_vol h (rs_acc_base (cs_risk_stg s)))"
    if "map_of (rs_map_risk_instr (cs_risk_stg s)) h = Some r" for h r
    using I(9) [of h] that by (simp add: lims_of_def)
  have read: "tf_rtn_msg_queue (cs_td s) = [] \<longrightarrow>
      length (filter track_open (th_order_track (cs_td s))) = length (tf_queued_track_id (cs_td s))"
    using working_set_read [OF D(1)] by blast
  show ?thesis
    by (intro exI [of _ s] exI [of _ "rs_acc_base (cs_risk_stg s)"] exI [of _ "th_order_track (cs_td s)"])
      (use s(1) I(2,11) O(3,5) R(4,5) lim read in
        \<open>auto simp: um_sum_book_from length_book_from all_closable_def net_vol_def net_of_def\<close>)
qed

theorem strategy_follows_exchange_witness:
  "\<exists>s ab. run_steps (day_step (fake_env 0 if_md_ops if_slots if_files)) if_rounds if_stg = Inr s \<and>
     ab = rs_acc_base (cs_risk_stg s) \<and> acc_inv ab \<and>
     unfilled_order_cnt (ab_mod_acc ab) = int (length (filter track_open (th_order_track (cs_td s))))"
  using strategy_follows_exchange [OF if_stg_start if_slots_legal if_rounds_quiet] by blast

end
