(* ===== verification/Io_Pages.thy ===== *)
theory Io_Pages
  imports Prelude
begin

text \<open>
  \<^verbatim>\<open>io/CIOBase\<close>, \<^verbatim>\<open>io/CRawIOWriter\<close>, \<^verbatim>\<open>io/CRawIOReader\<close> and \<^verbatim>\<open>io/CReaderPool\<close>: the channels the
  processes of the system talk over. A channel is a sequence of files (pages) with a common prefix
  and a number each, mapped into memory; one writer appends frames to the last page and opens the
  next when it is full, any number of readers follow.

  A page is its head (the fields of \<^verbatim>\<open>tPageHead\<close>) and its memory, which the model keeps per frame:
  the offset of a frame leads to the fields of \<^verbatim>\<open>tFrameHead\<close> and to the data. Memory that was never
  written is zero (the file was extended by \<^verbatim>\<open>ftruncate\<close>). A buffer pointer is null, the number of
  the mapped page, or dangling after \<^verbatim>\<open>munmap\<close>. Frames of a channel overlay each other only at the
  same offset, which is exact where the frames of a channel have one size or none is discarded.
\<close>

section \<open>Pages\<close>

definition PAGE_HEAD_SIZE :: int where "PAGE_HEAD_SIZE = 45"
definition FRAME_HEAD_SIZE :: int where "FRAME_HEAD_SIZE = 20"
definition PAGE_HEAD_VER_1 :: int where "PAGE_HEAD_VER_1 = 1"
definition FRAME_HEAD_MAGIC :: int where "FRAME_HEAD_MAGIC = 0x20180423"
definition PAGE_STATUS_WRITTING :: int where "PAGE_STATUS_WRITTING = 0"
definition PAGE_STATUS_FINISH :: int where "PAGE_STATUS_FINISH = 1"

lemmas page_consts =
  PAGE_HEAD_SIZE_def FRAME_HEAD_SIZE_def PAGE_HEAD_VER_1_def FRAME_HEAD_MAGIC_def
  PAGE_STATUS_WRITTING_def PAGE_STATUS_FINISH_def

record 'a io_frame =
  fr_magic :: int
  fr_len :: int
  fr_nano :: int
  fr_data :: 'a

record 'a io_page =
  pf_size :: int
  pg_status :: int
  pg_version :: int
  pg_size :: int
  pg_tail :: int
  pg_start_nano :: int
  pg_stop_nano :: int
  pg_last_nano :: int
  pg_mem :: "(int, 'a io_frame) umap"

text \<open>The pages under a prefix, by their numbers; a file that \<^verbatim>\<open>open\<close> just created is empty.\<close>

type_synonym 'a io_files = "(int, 'a io_page) umap"

definition empty_page :: "'a io_page" where
  "empty_page =
     \<lparr>pf_size = 0, pg_status = 0, pg_version = 0, pg_size = 0, pg_tail = 0, pg_start_nano = 0,
      pg_stop_nano = 0, pg_last_nano = 0, pg_mem = []\<rparr>"

text \<open>The memory at an offset; \<open>z\<close> is the data of zero bytes.\<close>

definition frame_at :: "'a \<Rightarrow> 'a io_page \<Rightarrow> int \<Rightarrow> 'a io_frame" where
  "frame_at z p off =
     (case map_of (pg_mem p) off of
        None \<Rightarrow> \<lparr>fr_magic = 0, fr_len = 0, fr_nano = 0, fr_data = z\<rparr>
      | Some f \<Rightarrow> f)"

definition put_frame :: "int \<Rightarrow> 'a io_frame \<Rightarrow> 'a io_page \<Rightarrow> 'a io_page" where
  "put_frame off f p = p\<lparr>pg_mem := AList.update off f (pg_mem p)\<rparr>"

definition to_u32 :: "int \<Rightarrow> int" where
  "to_u32 x = x mod 2 ^ 32"

section \<open>CIOBase\<close>

definition CIOBase_getTailNum :: "'a io_files \<Rightarrow> int" where
  "CIOBase_getTailNum files = fold (\<lambda>(n, _) num. if n > num then n else num) files (-1)"

definition INT_MAX :: int where
  "INT_MAX = 2 ^ 31 - 1"

definition CIOBase_getHeadNum :: "'a io_files \<Rightarrow> int" where
  "CIOBase_getHeadNum files =
     (let num = fold (\<lambda>(n, _) num. if n < num then n else num) files INT_MAX
      in if num < INT_MAX then num else -1)"

definition CIOBase_getPageNum :: "'a io_files \<Rightarrow> int list" where
  "CIOBase_getPageNum files = sort (map fst files)"

definition CIOBase_getUpperPageNo :: "int \<Rightarrow> 'a io_files \<Rightarrow> int" where
  "CIOBase_getUpperPageNo page_no files =
     (if page_no \<ge> 0 then
        (case dropWhile (\<lambda>n. n < page_no) (CIOBase_getPageNum files) of [] \<Rightarrow> -1 | n # _ \<Rightarrow> n)
      else CIOBase_getTailNum files)"

definition CIOBase_checkPageHead :: "int \<Rightarrow> 'a io_page \<Rightarrow> bool" where
  "CIOBase_checkPageHead sz p \<longleftrightarrow> pg_version p = PAGE_HEAD_VER_1 \<and> pg_size p = sz"

definition CIOBase_checkFrameValid :: "'a io_frame \<Rightarrow> bool" where
  "CIOBase_checkFrameValid f \<longleftrightarrow> fr_magic f = FRAME_HEAD_MAGIC"

text \<open>What the operating system grants: opening (or creating) a file, its lock, and its mapping.\<close>

record io_env =
  ie_open :: "int \<Rightarrow> bool"
  ie_lock :: "int \<Rightarrow> bool"
  ie_map :: "int \<Rightarrow> bool"

section \<open>CRawIOWriter\<close>

text \<open>
  The writer with the files of its prefix. \<open>wr_spin\<close> is \<^verbatim>\<open>g_io_spin_flag\<close>, which \<^verbatim>\<open>CSafeRawIOWriter\<close>
  takes for the time of an operation.
\<close>

record 'a io_writer =
  wr_files :: "'a io_files"
  wr_fd :: bool
  wr_buf :: "int ptr"
  wr_size :: int
  wr_page_num :: int
  wr_prefetch_tail :: int
  wr_page_size :: int
  wr_test_lock :: bool
  wr_spin :: bool

definition CRawIOWriter_new :: "int \<Rightarrow> bool \<Rightarrow> 'a io_files \<Rightarrow> 'a io_writer" where
  "CRawIOWriter_new page_size test_lock files =
     \<lparr>wr_files = files, wr_fd = False, wr_buf = NullPtr, wr_size = page_size, wr_page_num = -1,
      wr_prefetch_tail = 0, wr_page_size = page_size, wr_test_lock = test_lock, wr_spin = False\<rparr>"

definition CIOBase_unload :: "'a io_writer \<Rightarrow> 'a io_writer" where
  "CIOBase_unload w = (if wr_fd w then w\<lparr>wr_fd := False, wr_buf := DanglingPtr\<rparr> else w)"

definition CRawIOWriter_load :: "io_env \<Rightarrow> int \<Rightarrow> 'a io_writer \<Rightarrow> bool \<times> 'a io_writer" where
  "CRawIOWriter_load env num w =
     (if \<not> ie_open env num then (False, w\<lparr>wr_fd := False\<rparr>)
      else
        (let files = um_touch empty_page num (wr_files w);
             w1 = w\<lparr>wr_files := files\<rparr>
         in if wr_test_lock w \<and> \<not> ie_lock env num then (False, w1\<lparr>wr_fd := False\<rparr>)
            else case map_of files num of
              None \<Rightarrow> (False, w1\<lparr>wr_fd := False\<rparr>)
            | Some p \<Rightarrow>
                (let isnew = (pf_size p < PAGE_HEAD_SIZE);
                     sz = (if isnew then wr_page_size w else pf_size p)
                 in if \<not> ie_map env num then (False, w1\<lparr>wr_fd := False, wr_size := sz\<rparr>)
                    else
                      (let w2 = w1\<lparr>wr_files := AList.update num (p\<lparr>pf_size := sz\<rparr>) files, wr_size := sz\<rparr>
                       in if \<not> isnew \<and> \<not> CIOBase_checkPageHead sz p
                          then (False, w2\<lparr>wr_fd := False, wr_buf := DanglingPtr\<rparr>)
                          else (True, w2\<lparr>wr_fd := True, wr_buf := PtrTo num\<rparr>)))))"

text \<open>An access to the mapped page.\<close>

definition wr_page :: "'a io_writer \<Rightarrow> 'a io_page res" where
  "wr_page w = deref (map_of (wr_files w)) (wr_buf w)"

definition upd_page :: "('a io_page \<Rightarrow> 'a io_page) \<Rightarrow> 'a io_writer \<Rightarrow> 'a io_writer" where
  "upd_page f w =
     (case wr_buf w of
        PtrTo n \<Rightarrow>
          (case map_of (wr_files w) n of
             None \<Rightarrow> w
           | Some p \<Rightarrow> w\<lparr>wr_files := AList.update n (f p) (wr_files w)\<rparr>)
      | _ \<Rightarrow> w)"

text \<open>The second half of \<^verbatim>\<open>createNextPage\<close>: the head of the page that was just mapped.\<close>

definition fill_head :: "int \<Rightarrow> 'a io_writer \<Rightarrow> 'a io_writer" where
  "fill_head nano w =
     upd_page (\<lambda>p. p\<lparr>pg_status := PAGE_STATUS_WRITTING, pg_size := wr_size w, pg_tail := PAGE_HEAD_SIZE,
                     pg_start_nano := nano, pg_stop_nano := -1, pg_version := PAGE_HEAD_VER_1\<rparr>)
       (w\<lparr>wr_page_num := wr_page_num w + 1\<rparr>)"

definition CRawIOWriter_createNextPage ::
    "io_env \<Rightarrow> int \<Rightarrow> 'a io_writer \<Rightarrow> bool \<times> 'a io_writer" where
  "CRawIOWriter_createNextPage env nano w =
     (case CRawIOWriter_load env (wr_page_num w + 1) w of
        (False, w1) \<Rightarrow> (False, w1)
      | (True, w1) \<Rightarrow> (True, fill_head nano w1))"

definition CRawIOWriter_init :: "io_env \<Rightarrow> int \<Rightarrow> 'a io_writer \<Rightarrow> (bool \<times> 'a io_writer) res" where
  "CRawIOWriter_init env nano w =
     (let w1 = CIOBase_unload w;
          n = CIOBase_getTailNum (wr_files w1);
          w2 = w1\<lparr>wr_page_num := n\<rparr>
      in if n \<ge> 0 then
           (case CRawIOWriter_load env n w2 of
              (False, w3) \<Rightarrow> Inr (False, w3)
            | (True, w3) \<Rightarrow> res_bind (wr_page w3) (\<lambda>p.
                if pg_status p = PAGE_STATUS_FINISH
                then Inr (CRawIOWriter_createNextPage env nano (CIOBase_unload w3))
                else Inr (True, w3)))
         else Inr (CRawIOWriter_createNextPage env nano w2))"

text \<open>The first half of a page switch: the full page is closed.\<close>

definition close_page :: "int \<Rightarrow> 'a io_writer \<Rightarrow> 'a io_writer" where
  "close_page nano w =
     CIOBase_unload
       (upd_page (\<lambda>p. p\<lparr>pg_stop_nano := nano, pg_status := PAGE_STATUS_FINISH\<rparr>) w)"

text \<open>
  \<^verbatim>\<open>write\<close> calls itself on the new page; the fuel is for these calls, of which there is at most one
  where the data fits a page. The last test subtracts unsigned numbers of 64 bits.
\<close>

fun CRawIOWriter_write ::
    "nat \<Rightarrow> io_env \<Rightarrow> 'a \<Rightarrow> int \<Rightarrow> int \<Rightarrow> 'a io_writer \<Rightarrow> (bool \<times> 'a io_writer) res" where
  "CRawIOWriter_write 0 env data len nano w = Inl OutOfFuel"
| "CRawIOWriter_write (Suc n) env data len nano w =
     res_bind (wr_page w) (\<lambda>p.
       let tail = to_u32 (pg_tail p + FRAME_HEAD_SIZE + len) in
       if tail \<le> wr_size w then
         Inr (True,
           upd_page (\<lambda>p. (put_frame (pg_tail p)
               \<lparr>fr_magic = FRAME_HEAD_MAGIC, fr_len = len, fr_nano = nano, fr_data = data\<rparr> p)
             \<lparr>pg_last_nano := nano, pg_tail := tail\<rparr>) w)
       else
         (case CRawIOWriter_createNextPage env nano (close_page nano w) of
            (False, w1) \<Rightarrow> Inr (False, w1)
          | (True, w1) \<Rightarrow>
              if len \<le> (wr_size w1 - PAGE_HEAD_SIZE - FRAME_HEAD_SIZE) mod 2 ^ 64
              then CRawIOWriter_write n env data len nano w1
              else Inr (False, w1)))"

text \<open>The result is the offset of the frame in the mapped page, or nothing for \<^verbatim>\<open>NULL\<close>.\<close>

definition reserve :: "'a \<Rightarrow> int \<Rightarrow> 'a io_writer \<Rightarrow> int option \<times> 'a io_writer" where
  "reserve z len w =
     (case wr_page w of
        Inl _ \<Rightarrow> (None, w)
      | Inr p \<Rightarrow>
          (let tail = to_u32 (pg_tail p + FRAME_HEAD_SIZE + len); w1 = w\<lparr>wr_prefetch_tail := tail\<rparr>
           in if tail \<le> wr_size w
              then (Some (pg_tail p),
                    upd_page (\<lambda>p. put_frame (pg_tail p) ((frame_at z p (pg_tail p))\<lparr>fr_len := len\<rparr>) p) w1)
              else (None, w1)))"

definition CRawIOWriter_prefetch ::
    "io_env \<Rightarrow> 'a \<Rightarrow> int \<Rightarrow> int \<Rightarrow> 'a io_writer \<Rightarrow> (int option \<times> 'a io_writer) res" where
  "CRawIOWriter_prefetch env z len nano w =
     res_bind (wr_page w) (\<lambda>_.
       case reserve z len w of
         (Some off, w1) \<Rightarrow> Inr (Some off, w1)
       | (None, w1) \<Rightarrow>
           (case CRawIOWriter_createNextPage env nano (close_page nano w1) of
              (False, w2) \<Rightarrow> Inr (None, w2)
            | (True, w2) \<Rightarrow> Inr (reserve z len w2)))"

text \<open>What the caller does with the memory it got, and \<^verbatim>\<open>commit\<close>.\<close>

definition fill_frame :: "'a \<Rightarrow> int \<Rightarrow> ('a \<Rightarrow> 'a) \<Rightarrow> 'a io_writer \<Rightarrow> 'a io_writer" where
  "fill_frame z off f w =
     upd_page (\<lambda>p. put_frame off ((frame_at z p off)\<lparr>fr_data := f (fr_data (frame_at z p off))\<rparr>) p) w"

definition CRawIOWriter_commit :: "'a \<Rightarrow> int \<Rightarrow> 'a io_writer \<Rightarrow> 'a io_writer res" where
  "CRawIOWriter_commit z nano w =
     res_bind (wr_page w) (\<lambda>_. Inr
       (upd_page (\<lambda>p. (put_frame (pg_tail p)
            ((frame_at z p (pg_tail p))\<lparr>fr_magic := FRAME_HEAD_MAGIC, fr_nano := nano\<rparr>) p)
          \<lparr>pg_last_nano := nano, pg_tail := wr_prefetch_tail w\<rparr>) w))"

text \<open>\<^verbatim>\<open>CSafeRawIOWriter\<close>: the same under the spin lock; a thread that holds it waits for ever.\<close>

definition CSafeRawIOWriter_init :: "io_env \<Rightarrow> int \<Rightarrow> 'a io_writer \<Rightarrow> (bool \<times> 'a io_writer) res" where
  "CSafeRawIOWriter_init env nano w =
     (if wr_spin w then Inl Deadlock else CRawIOWriter_init env nano w)"

definition CSafeRawIOWriter_write ::
    "nat \<Rightarrow> io_env \<Rightarrow> 'a \<Rightarrow> int \<Rightarrow> int \<Rightarrow> 'a io_writer \<Rightarrow> (bool \<times> 'a io_writer) res" where
  "CSafeRawIOWriter_write n env data len nano w =
     (if wr_spin w then Inl Deadlock else CRawIOWriter_write n env data len nano w)"

definition CSafeRawIOWriter_prefetch ::
    "io_env \<Rightarrow> 'a \<Rightarrow> int \<Rightarrow> int \<Rightarrow> 'a io_writer \<Rightarrow> (int option \<times> 'a io_writer) res" where
  "CSafeRawIOWriter_prefetch env z len nano w =
     (if wr_spin w then Inl Deadlock
      else res_bind (CRawIOWriter_prefetch env z len nano w)
        (\<lambda>(off, w1). Inr (off, w1\<lparr>wr_spin := True\<rparr>)))"

definition CSafeRawIOWriter_commit :: "'a \<Rightarrow> int \<Rightarrow> 'a io_writer \<Rightarrow> 'a io_writer res" where
  "CSafeRawIOWriter_commit z nano w =
     res_bind (CRawIOWriter_commit z nano w) (\<lambda>w1. Inr (w1\<lparr>wr_spin := False\<rparr>))"

definition CSafeRawIOWriter_discard :: "'a io_writer \<Rightarrow> 'a io_writer" where
  "CSafeRawIOWriter_discard w = w\<lparr>wr_spin := False\<rparr>"

section \<open>CRawIOReader\<close>

record io_reader =
  rd_prefix :: string
  rd_fd :: bool
  rd_buf :: "int ptr"
  rd_cursor :: int
  rd_page_num :: int

definition CRawIOReader_new :: io_reader where
  "CRawIOReader_new =
     \<lparr>rd_prefix = [], rd_fd = False, rd_buf = NullPtr, rd_cursor = 0, rd_page_num = -1\<rparr>"

text \<open>The file system of a reader: the pages under every prefix, and which of them open and map.\<close>

record 'a io_view =
  vw_files :: "string \<Rightarrow> 'a io_files"
  vw_open :: "string \<Rightarrow> int \<Rightarrow> bool"
  vw_zero :: 'a

definition rd_unload :: "io_reader \<Rightarrow> io_reader" where
  "rd_unload r = (if rd_fd r then r\<lparr>rd_fd := False, rd_buf := DanglingPtr\<rparr> else r)"

definition CRawIOReader_load :: "'a io_view \<Rightarrow> int \<Rightarrow> io_reader \<Rightarrow> bool \<times> io_reader" where
  "CRawIOReader_load v num r =
     (case map_of (vw_files v (rd_prefix r)) num of
        None \<Rightarrow> (False, r\<lparr>rd_fd := False\<rparr>)
      | Some p \<Rightarrow>
          if \<not> vw_open v (rd_prefix r) num then (False, r\<lparr>rd_fd := False\<rparr>)
          else if pf_size p < PAGE_HEAD_SIZE then (False, r\<lparr>rd_fd := False\<rparr>)
          else if \<not> CIOBase_checkPageHead (pf_size p) p
          then (False, r\<lparr>rd_fd := False, rd_buf := DanglingPtr\<rparr>)
          else (True, r\<lparr>rd_fd := True, rd_buf := PtrTo num, rd_cursor := PAGE_HEAD_SIZE\<rparr>))"

definition rd_page :: "'a io_view \<Rightarrow> io_reader \<Rightarrow> 'a io_page res" where
  "rd_page v r = deref (map_of (vw_files v (rd_prefix r))) (rd_buf r)"

definition next_page :: "'a io_view \<Rightarrow> io_reader \<Rightarrow> bool \<times> io_reader" where
  "next_page v r =
     CRawIOReader_load v (rd_page_num r + 1) (rd_unload (r\<lparr>rd_page_num := rd_page_num r + 1\<rparr>))"

text \<open>How many pages a reader may still open: the measure of its recursion.\<close>

definition pages_ahead :: "'a io_view \<Rightarrow> io_reader \<Rightarrow> nat" where
  "pages_ahead v r =
     length (filter (\<lambda>(n, _). n > rd_page_num r \<or> n = rd_page_num r \<and> \<not> rd_fd r)
       (vw_files v (rd_prefix r)))"

lemma load_ahead:
  assumes "CRawIOReader_load v n r = (True, r1)" "n = rd_page_num r" "\<not> rd_fd r"
  shows "pages_ahead v r1 < pages_ahead v r"
proof -
  obtain p where p: "map_of (vw_files v (rd_prefix r)) n = Some p"
    using assms(1) by (auto simp: CRawIOReader_load_def split: option.splits)
  have r1: "r1 = r\<lparr>rd_fd := True, rd_buf := PtrTo n, rd_cursor := PAGE_HEAD_SIZE\<rparr>"
    using assms(1) by (auto simp: CRawIOReader_load_def split: option.splits if_splits)
  have "length (filter (\<lambda>(k, _). k > n) fs) < length (filter (\<lambda>(k, _). k > n \<or> k = n) fs)"
    if "(n, p) \<in> set fs" for fs :: "'a io_files"
    using that
  proof (induction fs)
    case (Cons e fs)
    have le: "length (filter (\<lambda>(k, _). k > n) fs) \<le> length (filter (\<lambda>(k, _). k > n \<or> k = n) fs)"
      by (induction fs) auto
    show ?case
    proof (cases "e = (n, p)")
      case True with le show ?thesis by simp
    next
      case False with Cons show ?thesis by (cases e) auto
    qed
  qed simp
  from this [OF map_of_SomeD [OF p]] show ?thesis
    using assms(2,3) by (simp add: pages_ahead_def r1)
qed

lemma next_page_ahead:
  assumes "next_page v r = (True, r1)" "rd_fd r"
  shows "pages_ahead v r1 < pages_ahead v r"
proof -
  let ?r = "rd_unload (r\<lparr>rd_page_num := rd_page_num r + 1\<rparr>)"
  have "pages_ahead v r1 < pages_ahead v ?r"
    by (rule load_ahead) (use assms in \<open>auto simp: next_page_def rd_unload_def\<close>)
  also have "pages_ahead v ?r = pages_ahead v r"
    using assms(2) by (auto simp: pages_ahead_def rd_unload_def intro!: arg_cong [of _ _ length] filter_cong)
  finally show ?thesis .
qed

text \<open>
  \<^verbatim>\<open>read\<close>. The status of the page is read first, the tail after it; between the two the writer may
  go on, so the status that was seen is an argument.
\<close>

function read_seen ::
    "'a io_view \<Rightarrow> int \<Rightarrow> io_reader \<Rightarrow> (('a \<times> int) option \<times> io_reader) res" where
  "read_seen v status r =
     (if rd_fd r then
        (case rd_page v r of
           Inl e \<Rightarrow> Inl e
         | Inr p \<Rightarrow>
             if rd_cursor r < pg_tail p then
               (let f = frame_at (vw_zero v) p (rd_cursor r) in
                if \<not> CIOBase_checkFrameValid f then Inr (None, r\<lparr>rd_cursor := pg_tail p\<rparr>)
                else Inr (Some (fr_data f, fr_len f),
                          r\<lparr>rd_cursor := rd_cursor r + FRAME_HEAD_SIZE + fr_len f\<rparr>))
             else if status = PAGE_STATUS_FINISH then
               (case next_page v r of
                  (False, r1) \<Rightarrow> Inr (None, r1)
                | (True, r1) \<Rightarrow> read_seen v (case rd_page v r1 of Inl _ \<Rightarrow> 0 | Inr p \<Rightarrow> pg_status p) r1)
             else Inr (None, r))
      else
        (case CRawIOReader_load v (rd_page_num r) r of
           (False, r1) \<Rightarrow> Inr (None, r1)
         | (True, r1) \<Rightarrow> read_seen v (case rd_page v r1 of Inl _ \<Rightarrow> 0 | Inr p \<Rightarrow> pg_status p) r1))"
  by pat_completeness auto
termination
  by (relation "measure (\<lambda>(v, s, r). pages_ahead v r)") (auto dest: next_page_ahead [OF sym] load_ahead [OF sym])

definition seen_status :: "'a io_view \<Rightarrow> io_reader \<Rightarrow> int" where
  "seen_status v r = (case rd_page v r of Inl _ \<Rightarrow> 0 | Inr p \<Rightarrow> pg_status p)"

definition CRawIOReader_read ::
    "'a io_view \<Rightarrow> io_reader \<Rightarrow> (('a \<times> int) option \<times> io_reader) res" where
  "CRawIOReader_read v r = read_seen v (seen_status v r) r"

text \<open>The other operations of a reader.\<close>

definition rd_tail :: "'a io_view \<Rightarrow> io_reader \<Rightarrow> io_reader res" where
  "rd_tail v r = res_bind (rd_page v r) (\<lambda>p. Inr (r\<lparr>rd_cursor := pg_tail p\<rparr>))"

definition CRawIOReader_passFrame :: "'a io_view \<Rightarrow> io_reader \<Rightarrow> io_reader res" where
  "CRawIOReader_passFrame v r =
     (if rd_fd r then
        res_bind (rd_page v r) (\<lambda>p.
          if rd_cursor r < pg_tail p
          then Inr (r\<lparr>rd_cursor := rd_cursor r + fr_len (frame_at (vw_zero v) p (rd_cursor r)) +
                                   FRAME_HEAD_SIZE\<rparr>)
          else if pg_status p = PAGE_STATUS_FINISH then Inr (snd (next_page v r))
          else Inr r)
      else Inr (snd (CRawIOReader_load v (rd_page_num r) r)))"

function CRawIOReader_getCurFrame ::
    "'a io_view \<Rightarrow> io_reader \<Rightarrow> ('a io_frame option \<times> io_reader) res" where
  "CRawIOReader_getCurFrame v r =
     (if rd_fd r then
        (case rd_page v r of
           Inl e \<Rightarrow> Inl e
         | Inr p \<Rightarrow>
             if rd_cursor r < pg_tail p then
               (let f = frame_at (vw_zero v) p (rd_cursor r) in
                if \<not> CIOBase_checkFrameValid f then Inr (None, r\<lparr>rd_cursor := pg_tail p\<rparr>)
                else Inr (Some f, r))
             else if pg_status p = PAGE_STATUS_FINISH then
               (case next_page v r of
                  (False, r1) \<Rightarrow> Inr (None, r1)
                | (True, r1) \<Rightarrow> CRawIOReader_getCurFrame v r1)
             else Inr (None, r))
      else
        (case CRawIOReader_load v (rd_page_num r) r of
           (False, r1) \<Rightarrow> Inr (None, r1)
         | (True, r1) \<Rightarrow> CRawIOReader_getCurFrame v r1))"
  by pat_completeness auto
termination
  by (relation "measure (\<lambda>(v, r). pages_ahead v r)")
    (auto dest: next_page_ahead [OF sym] load_ahead [OF sym])

definition CRawIOReader_passPage :: "'a io_view \<Rightarrow> io_reader \<Rightarrow> (bool \<times> io_reader) res" where
  "CRawIOReader_passPage v r =
     (if \<not> rd_fd r then Inr (CRawIOReader_load v (rd_page_num r) r)
      else res_bind (rd_page v r) (\<lambda>p.
        if pg_status p = PAGE_STATUS_FINISH then Inr (next_page v r) else Inr (False, r)))"

text \<open>
  \<^verbatim>\<open>seek\<close> steps over frames up to the tail; a frame of length 0 is its head, so a step moves forward
  wherever lengths are not negative, as an unsigned field is.
\<close>

fun skip_frames :: "nat \<Rightarrow> 'a io_view \<Rightarrow> 'a io_page \<Rightarrow> int \<Rightarrow> int" where
  "skip_frames 0 v p c = c"
| "skip_frames (Suc n) v p c =
     (if c < pg_tail p
      then skip_frames n v p (c + fr_len (frame_at (vw_zero v) p c) + FRAME_HEAD_SIZE)
      else c)"

definition CRawIOReader_seek :: "'a io_view \<Rightarrow> int \<Rightarrow> io_reader \<Rightarrow> io_reader res" where
  "CRawIOReader_seek v frame_no r =
     (if frame_no < 0 then rd_tail v r
      else res_bind (rd_page v r) (\<lambda>p.
        Inr (r\<lparr>rd_cursor := skip_frames (nat frame_no) v p PAGE_HEAD_SIZE\<rparr>)))"

text \<open>
  \<^verbatim>\<open>seekTime\<close>: first over pages whose last frame is too old, then over frames that are too old. The
  second loop has no bound of its own; it leaves the mapping where no frame is young enough.
\<close>

function pass_old_frames :: "'a io_view \<Rightarrow> 'a io_page \<Rightarrow> int \<Rightarrow> int \<Rightarrow> int res" where
  "pass_old_frames v p nano c =
     (if c \<ge> pf_size p then Inl OutOfRange
      else let f = frame_at (vw_zero v) p c in
        if fr_nano f < nano
        then pass_old_frames v p nano (c + FRAME_HEAD_SIZE + max 0 (fr_len f))
        else Inr c)"
  by pat_completeness auto
termination
  by (relation "measure (\<lambda>(v, p, nano, c). nat (pf_size p - c))") (auto simp: FRAME_HEAD_SIZE_def)

function CRawIOReader_seekTime :: "'a io_view \<Rightarrow> int \<Rightarrow> io_reader \<Rightarrow> io_reader res" where
  "CRawIOReader_seekTime v nano r =
     (if nano < 0 then rd_tail v r
      else
        (case rd_page v r of
           Inl e \<Rightarrow> Inl e
         | Inr p \<Rightarrow>
             if pg_last_nano p < nano then
               (if rd_fd r \<and> pg_status p = PAGE_STATUS_FINISH then
                  (case next_page v r of
                     (False, r1) \<Rightarrow> Inr r1
                   | (True, r1) \<Rightarrow> CRawIOReader_seekTime v nano r1)
                else if rd_fd r then Inr (r\<lparr>rd_cursor := pg_tail p\<rparr>)
                else
                  (case CRawIOReader_load v (rd_page_num r) r of
                     (False, r1) \<Rightarrow> Inr r1
                   | (True, r1) \<Rightarrow> CRawIOReader_seekTime v nano r1))
             else res_bind (pass_old_frames v p nano (rd_cursor r))
               (\<lambda>c. Inr (r\<lparr>rd_cursor := c\<rparr>))))"
  by pat_completeness auto
termination
  by (relation "measure (\<lambda>(v, nano, r). pages_ahead v r)")
    (auto dest: next_page_ahead [OF sym] load_ahead [OF sym])

definition CRawIOReader_init ::
    "'a io_view \<Rightarrow> string \<Rightarrow> int \<Rightarrow> int \<Rightarrow> io_reader \<Rightarrow> (bool \<times> io_reader) res" where
  "CRawIOReader_init v path from_page from_nano r =
     (let r1 = (rd_unload r)\<lparr>rd_prefix := path\<rparr>;
          from = (if from_page < 0 then CIOBase_getTailNum (vw_files v path) else from_page);
          r2 = r1\<lparr>rd_page_num := (if from < 0 then 0 else from)\<rparr>
      in case CRawIOReader_load v (rd_page_num r2) r2 of
           (False, r3) \<Rightarrow> Inr (True, r3)
         | (True, r3) \<Rightarrow> res_bind (CRawIOReader_seekTime v from_nano r3) (\<lambda>r4. Inr (True, r4)))"

definition CRawIOReader_init_from ::
    "'a io_view \<Rightarrow> string \<Rightarrow> int \<Rightarrow> io_reader \<Rightarrow> (bool \<times> io_reader) res" where
  "CRawIOReader_init_from v path from_nano r =
     (if from_nano < 0 then CRawIOReader_init v path (-1) from_nano r
      else CRawIOReader_init v path (CIOBase_getHeadNum (vw_files v path)) from_nano r)"

definition CRawIOReader_setReadPos :: "'a io_view \<Rightarrow> int \<Rightarrow> io_reader \<Rightarrow> io_reader res" where
  "CRawIOReader_setReadPos v nano r =
     (let again = (\<lambda>r.
        let from = CIOBase_getHeadNum (vw_files v (rd_prefix r));
            r1 = r\<lparr>rd_page_num := (if from < 0 then 0 else from)\<rparr>
        in case CRawIOReader_load v (rd_page_num r1) r1 of
             (False, r2) \<Rightarrow> Inr r2
           | (True, r2) \<Rightarrow> CRawIOReader_seekTime v nano r2)
      in if rd_fd r then
           res_bind (rd_page v r) (\<lambda>p.
             if pg_last_nano p \<le> nano then CRawIOReader_seekTime v nano r
             else again (rd_unload r))
         else again r)"

section \<open>CReaderPool\<close>

type_synonym reader_pool = "(io_reader \<times> u32) list"

definition CReaderPool_hasHash :: "u32 \<Rightarrow> reader_pool \<Rightarrow> bool" where
  "CReaderPool_hasHash h pool = list_ex (\<lambda>(_, k). k = h) pool"

definition CReaderPool_add ::
    "'a io_view \<Rightarrow> u32 \<Rightarrow> string \<Rightarrow> int \<Rightarrow> int \<Rightarrow> reader_pool \<Rightarrow> (bool \<times> reader_pool) res" where
  "CReaderPool_add v h path from_page from_nano pool =
     (if CReaderPool_hasHash h pool then Inr (False, pool)
      else res_bind (CRawIOReader_init v path from_page from_nano CRawIOReader_new) (\<lambda>(ok, r).
        if ok then Inr (True, pool @ [(r, h)]) else Inr (False, pool)))"

definition CReaderPool_add_reader :: "u32 \<Rightarrow> io_reader \<Rightarrow> reader_pool \<Rightarrow> reader_pool" where
  "CReaderPool_add_reader h r pool = (if CReaderPool_hasHash h pool then pool else pool @ [(r, h)])"

fun CReaderPool_read ::
    "'a io_view \<Rightarrow> reader_pool \<Rightarrow> (('a \<times> u32) option \<times> reader_pool) res" where
  "CReaderPool_read v [] = Inr (None, [])"
| "CReaderPool_read v ((r, h) # pool) =
     res_bind (CRawIOReader_read v r) (\<lambda>(d, r1).
       case d of
         Some (x, _) \<Rightarrow> Inr (Some (x, h), (r1, h) # pool)
       | None \<Rightarrow> res_bind (CReaderPool_read v pool) (\<lambda>(d, pool1). Inr (d, (r1, h) # pool1)))"

text \<open>The scan of \<^verbatim>\<open>seqRead\<close>: the index and time of the oldest current frame so far, and the readers.\<close>

fun oldest ::
    "'a io_view \<Rightarrow> nat \<Rightarrow> (nat option \<times> int) \<Rightarrow> reader_pool \<Rightarrow>
     ((nat option \<times> int) \<times> reader_pool) res" where
  "oldest v i best [] = Inr (best, [])"
| "oldest v i (cur, min_nano) ((r, h) # pool) =
     res_bind (CRawIOReader_getCurFrame v r) (\<lambda>(d, r1).
       res_bind
         (oldest v (Suc i)
            (case d of
               Some f \<Rightarrow> if min_nano < 0 \<or> min_nano > fr_nano f then (Some i, fr_nano f) else (cur, min_nano)
             | None \<Rightarrow> (cur, min_nano)) pool)
         (\<lambda>(best, pool1). Inr (best, (r1, h) # pool1)))"

definition CReaderPool_seqRead ::
    "'a io_view \<Rightarrow> reader_pool \<Rightarrow> (('a \<times> u32) option \<times> reader_pool) res" where
  "CReaderPool_seqRead v pool =
     res_bind (oldest v 0 (None, -1) pool) (\<lambda>((cur, _), pool1).
       case cur of
         None \<Rightarrow> Inr (None, pool1)
       | Some i \<Rightarrow>
           (case pool1 ! i of (r, h) \<Rightarrow>
              res_bind (CRawIOReader_read v r) (\<lambda>(d, r1).
                Inr (map_option (\<lambda>(x, _). (x, h)) d, pool1[i := (r1, h)]))))"

fun CReaderPool_erase :: "u32 \<Rightarrow> reader_pool \<Rightarrow> reader_pool" where
  "CReaderPool_erase h [] = []"
| "CReaderPool_erase h ((r, k) # pool) =
     (if k = h then pool else (r, k) # CReaderPool_erase h pool)"

declare read_seen.simps [simp del] CRawIOReader_getCurFrame.simps [simp del]
  CRawIOReader_seekTime.simps [simp del] pass_old_frames.simps [simp del]

end
