(* ===== verification/Io_Channel.thy ===== *)
theory Io_Channel
  imports Io_Pages
begin

text \<open>
  A channel is a queue. One writer and one reader of the same pages take their steps in any order
  (\<open>chan_step\<close>); what the reader gets is what the writer committed, in order, without loss, across
  pages, also while the writer is in the middle of a frame or of a page switch.
\<close>

section \<open>The layout of a page\<close>

text \<open>The frames between two offsets of a page.\<close>

primrec laid :: "'a io_page \<Rightarrow> int \<Rightarrow> 'a list \<Rightarrow> int \<Rightarrow> bool" where
  "laid p off [] e \<longleftrightarrow> off = e"
| "laid p off (x # xs) e \<longleftrightarrow>
     (\<exists>f. map_of (pg_mem p) off = Some f \<and> fr_magic f = FRAME_HEAD_MAGIC \<and> 0 \<le> fr_len f \<and>
        fr_data f = x \<and> laid p (off + FRAME_HEAD_SIZE + fr_len f) xs e)"

lemma laid_le: "laid p off xs e \<Longrightarrow> off + FRAME_HEAD_SIZE * int (length xs) \<le> e"
  by (induction xs arbitrary: off) (force simp: FRAME_HEAD_SIZE_def)+

lemma laid_append: "laid p off (xs @ ys) e \<longleftrightarrow> (\<exists>m. laid p off xs m \<and> laid p m ys e)"
  by (induction xs arbitrary: off) auto

lemma laid_same_end: "laid p off xs e \<Longrightarrow> laid p e ys e \<Longrightarrow> ys = []"
  using laid_le [of p e ys e] by (cases ys) (auto simp: FRAME_HEAD_SIZE_def)

lemma laid_cong:
  "laid p off xs e \<Longrightarrow> (\<And>c. c < e \<Longrightarrow> map_of (pg_mem q) c = map_of (pg_mem p) c) \<Longrightarrow> laid q off xs e"
proof (induction xs arbitrary: off)
  case (Cons x xs)
  then obtain f where f: "map_of (pg_mem p) off = Some f" "fr_magic f = FRAME_HEAD_MAGIC" "0 \<le> fr_len f"
    "fr_data f = x" "laid p (off + FRAME_HEAD_SIZE + fr_len f) xs e" by auto
  from laid_le [OF Cons.prems(1)] have "off < e" by (simp add: FRAME_HEAD_SIZE_def)
  with f Cons.prems(2) Cons.IH [OF f(5) Cons.prems(2)] show ?case by auto
qed simp

text \<open>Two prefixes of the frames of a page that end at the same offset are the same.\<close>

lemma laid_functional:
  "laid p off xs e \<Longrightarrow> laid p off ys e \<Longrightarrow> xs = ys"
proof (induction xs arbitrary: off ys)
  case Nil
  then show ?case using laid_le [of p off ys e] by (cases ys) (auto simp: FRAME_HEAD_SIZE_def)
next
  case (Cons x xs)
  then have "off \<noteq> e" using laid_le [of p off "x # xs" e] by (auto simp: FRAME_HEAD_SIZE_def)
  with Cons show ?case by (cases ys) auto
qed

definition page_ok :: "int \<Rightarrow> 'a io_page \<Rightarrow> 'a list \<Rightarrow> bool" where
  "page_ok ps p xs \<longleftrightarrow>
     pf_size p = ps \<and> pg_version p = PAGE_HEAD_VER_1 \<and> pg_size p = ps \<and>
     laid p PAGE_HEAD_SIZE xs (pg_tail p) \<and> pg_tail p \<le> ps"

text \<open>The pages \<open>0, 1, \<dots>\<close> hold the frames \<open>pgs\<close>; all but the last are finished.\<close>

definition files_ok :: "int \<Rightarrow> 'a io_files \<Rightarrow> 'a list list \<Rightarrow> bool" where
  "files_ok ps files pgs \<longleftrightarrow>
     PAGE_HEAD_SIZE \<le> ps \<and> ps < 2 ^ 31 \<and> pgs \<noteq> [] \<and>
     (\<forall>k < length pgs. \<exists>p. map_of files (int k) = Some p \<and> page_ok ps p (pgs ! k) \<and>
        (Suc k < length pgs \<longrightarrow> pg_status p = PAGE_STATUS_FINISH)) \<and>
     (\<forall>n p. map_of files n = Some p \<longrightarrow>
        0 \<le> n \<and> (n < int (length pgs) \<or> n = int (length pgs) \<and> pg_version p \<noteq> PAGE_HEAD_VER_1))"

lemma files_okD:
  assumes "files_ok ps files pgs"
  shows "PAGE_HEAD_SIZE \<le> ps" "ps < 2 ^ 31" "pgs \<noteq> []"
    and "k < length pgs \<Longrightarrow> \<exists>p. map_of files (int k) = Some p \<and> page_ok ps p (pgs ! k) \<and>
        (Suc k < length pgs \<longrightarrow> pg_status p = PAGE_STATUS_FINISH)"
    and "map_of files n = Some p \<Longrightarrow>
        0 \<le> n \<and> (n < int (length pgs) \<or> n = int (length pgs) \<and> pg_version p \<noteq> PAGE_HEAD_VER_1)"
  using assms unfolding files_ok_def by blast+

section \<open>The reader\<close>

definition finished :: "'a io_files \<Rightarrow> int \<Rightarrow> bool" where
  "finished files n \<longleftrightarrow> (\<exists>p. map_of files n = Some p \<and> pg_status p = PAGE_STATUS_FINISH)"

text \<open>What a reader has passed: all frames of the pages before its own, and those before its cursor.\<close>

definition reader_at :: "'a io_files \<Rightarrow> 'a list list \<Rightarrow> io_reader \<Rightarrow> 'a list \<Rightarrow> bool" where
  "reader_at files pgs r xs \<longleftrightarrow>
     (\<exists>k. rd_page_num r = int k \<and>
        (if rd_fd r then
           k < length pgs \<and> rd_buf r = PtrTo (int k) \<and>
           (\<exists>p fs. map_of files (int k) = Some p \<and> laid p PAGE_HEAD_SIZE fs (rd_cursor r) \<and>
              (\<exists>gs. pgs ! k = fs @ gs \<and> laid p (rd_cursor r) gs (pg_tail p)) \<and>
              xs = concat (take k pgs) @ fs)
         else k \<le> length pgs \<and> (k = length pgs \<longrightarrow> finished files (int k - 1)) \<and>
           xs = concat (take k pgs)))"

lemma reader_at_prefix:
  assumes "reader_at files pgs r xs"
  shows "\<exists>ys. concat pgs = xs @ ys"
proof (cases "rd_fd r")
  case True
  with assms obtain k fs gs where "k < length pgs" "pgs ! k = fs @ gs" "xs = concat (take k pgs) @ fs"
    by (auto simp: reader_at_def)
  then have "concat pgs = xs @ gs @ concat (drop (Suc k) pgs)"
    by (subst id_take_nth_drop [of k]) simp_all
  then show ?thesis by blast
next
  case False
  with assms obtain k where "xs = concat (take k pgs)" by (auto simp: reader_at_def)
  then have "concat pgs = xs @ concat (drop k pgs)" by (metis append_take_drop_id concat_append)
  then show ?thesis by blast
qed

text \<open>Opening page \<open>k\<close>: it succeeds exactly for a page with its head, if the system grants it.\<close>

lemma load_page:
  assumes ok: "files_ok ps (vw_files v (rd_prefix r)) pgs" and r: "rd_page_num r = int k" "\<not> rd_fd r"
    and k: "k \<le> length pgs" "k = length pgs \<longrightarrow> finished (vw_files v (rd_prefix r)) (int k - 1)"
  shows "CRawIOReader_load v (int k) r =
      (if k < length pgs \<and> vw_open v (rd_prefix r) (int k)
       then (True, r\<lparr>rd_fd := True, rd_buf := PtrTo (int k), rd_cursor := PAGE_HEAD_SIZE\<rparr>)
       else (False, snd (CRawIOReader_load v (int k) r)))"
    and "\<not> (k < length pgs \<and> vw_open v (rd_prefix r) (int k)) \<Longrightarrow>
      reader_at (vw_files v (rd_prefix r)) pgs (snd (CRawIOReader_load v (int k) r)) (concat (take k pgs))"
    and "k < length pgs \<Longrightarrow> reader_at (vw_files v (rd_prefix r)) pgs
      (r\<lparr>rd_fd := True, rd_buf := PtrTo (int k), rd_cursor := PAGE_HEAD_SIZE\<rparr>) (concat (take k pgs))"
proof -
  note D = files_okD [OF ok]
  have at: "\<exists>p. map_of (vw_files v (rd_prefix r)) (int k) = Some p \<and> page_ok ps p (pgs ! k)"
    if "k < length pgs" using D(4) [OF that] by blast
  have beyond: "pg_version p \<noteq> PAGE_HEAD_VER_1"
    if "\<not> k < length pgs" "map_of (vw_files v (rd_prefix r)) (int k) = Some p" for p
    using D(5) [OF that(2)] that(1) by auto
  show "CRawIOReader_load v (int k) r =
      (if k < length pgs \<and> vw_open v (rd_prefix r) (int k)
       then (True, r\<lparr>rd_fd := True, rd_buf := PtrTo (int k), rd_cursor := PAGE_HEAD_SIZE\<rparr>)
       else (False, snd (CRawIOReader_load v (int k) r)))"
  proof (cases "k < length pgs")
    case True
    with at [OF True] D(1) show ?thesis
      by (auto simp: CRawIOReader_load_def page_ok_def CIOBase_checkPageHead_def)
  next
    case False
    with beyond show ?thesis
      by (auto simp: CRawIOReader_load_def CIOBase_checkPageHead_def split: option.splits)
  qed
  show "reader_at (vw_files v (rd_prefix r)) pgs (snd (CRawIOReader_load v (int k) r)) (concat (take k pgs))"
    if no: "\<not> (k < length pgs \<and> vw_open v (rd_prefix r) (int k))"
  proof -
    have "\<not> rd_fd (snd (CRawIOReader_load v (int k) r)) \<and>
        rd_page_num (snd (CRawIOReader_load v (int k) r)) = int k"
      using no at beyond r
      by (cases "k < length pgs") (auto simp: CRawIOReader_load_def CIOBase_checkPageHead_def split: option.splits)
    with k show ?thesis by (auto simp: reader_at_def)
  qed
  show "reader_at (vw_files v (rd_prefix r)) pgs
      (r\<lparr>rd_fd := True, rd_buf := PtrTo (int k), rd_cursor := PAGE_HEAD_SIZE\<rparr>) (concat (take k pgs))"
    if "k < length pgs"
    using at [OF that] that r by (auto simp: reader_at_def page_ok_def)
qed

lemma load_prefix [simp]: "rd_prefix (snd (CRawIOReader_load v n r)) = rd_prefix r"
  by (simp add: CRawIOReader_load_def split: option.splits)

text \<open>
  One \<^verbatim>\<open>read\<close> moves the reader by what it returns. With a status that is not older than the call and
  pages that open, it returns nothing only when there is nothing left.
\<close>

lemma read_seen_ok:
  assumes "files_ok ps (vw_files v (rd_prefix r)) pgs"
    and "reader_at (vw_files v (rd_prefix r)) pgs r xs"
    and "status = PAGE_STATUS_FINISH \<longrightarrow> rd_fd r \<longrightarrow> seen_status v r = PAGE_STATUS_FINISH"
  shows "\<exists>d r1. read_seen v status r = Inr (d, r1) \<and> rd_prefix r1 = rd_prefix r \<and>
    reader_at (vw_files v (rd_prefix r)) pgs r1 (xs @ (case d of None \<Rightarrow> [] | Some (x, _) \<Rightarrow> [x])) \<and>
    (d = None \<longrightarrow> (rd_fd r \<longrightarrow> status = seen_status v r) \<longrightarrow> (\<forall>n. vw_open v (rd_prefix r) n) \<longrightarrow>
       xs = concat pgs)"
  using assms
proof (induction v status r arbitrary: xs rule: read_seen.induct)
  case (1 v status r)
  let ?F = "vw_files v (rd_prefix r)"
  note D = files_okD [OF "1.prems"(1)]
  note sim = read_seen.simps [of v status r]
  obtain k where k: "rd_page_num r = int k" using "1.prems"(2) by (auto simp: reader_at_def)
  show ?case
  proof (cases "rd_fd r")
    case True
    then obtain p fs gs where p: "k < length pgs" "rd_buf r = PtrTo (int k)" "map_of ?F (int k) = Some p"
      "laid p PAGE_HEAD_SIZE fs (rd_cursor r)" "pgs ! k = fs @ gs" "laid p (rd_cursor r) gs (pg_tail p)"
      "xs = concat (take k pgs) @ fs"
      using "1.prems"(2) k by (auto simp: reader_at_def)
    have page: "rd_page v r = Inr p" using p(2,3) by (simp add: rd_page_def)
    have seen: "seen_status v r = pg_status p" by (simp add: seen_status_def page)
    show ?thesis
    proof (cases gs)
      case (Cons x hs)
      then obtain f where f: "map_of (pg_mem p) (rd_cursor r) = Some f" "fr_magic f = FRAME_HEAD_MAGIC"
        "0 \<le> fr_len f" "fr_data f = x" "laid p (rd_cursor r + FRAME_HEAD_SIZE + fr_len f) hs (pg_tail p)"
        using p(6) by auto
      have lt: "rd_cursor r < pg_tail p"
        using laid_le [OF p(6)] Cons by (simp add: FRAME_HEAD_SIZE_def)
      let ?r = "r\<lparr>rd_cursor := rd_cursor r + FRAME_HEAD_SIZE + fr_len f\<rparr>"
      have "read_seen v status r = Inr (Some (x, fr_len f), ?r)"
        using True lt f by (simp add: sim page frame_at_def CIOBase_checkFrameValid_def)
      moreover have "reader_at ?F pgs ?r (xs @ [x])"
      proof -
        have "laid p PAGE_HEAD_SIZE (fs @ [x]) (rd_cursor r + FRAME_HEAD_SIZE + fr_len f)"
          using p(4) f(1-4) by (auto simp: laid_append)
        with True k p(1-3,5,7) f(5) Cons show ?thesis
          unfolding reader_at_def by (intro exI [of _ k]) (auto intro!: exI [of _ "fs @ [x]"])
      qed
      ultimately show ?thesis by simp
    next
      case Nil
      have c: "rd_cursor r = pg_tail p" using p(6) Nil by simp
      have all: "xs = concat (take (Suc k) pgs)"
        using p(1,5,7) Nil by (simp add: take_Suc_conv_app_nth)
      show ?thesis
      proof (cases "status = PAGE_STATUS_FINISH")
        case False
        have "read_seen v status r = Inr (None, r)" using True False c by (simp add: sim page)
        moreover have "xs = concat pgs" if "status = seen_status v r"
        proof -
          have "\<not> Suc k < length pgs" using D(4) [OF p(1)] p(3) False that seen by auto
          with p(1) have "length pgs = Suc k" by simp
          with all show ?thesis by simp
        qed
        ultimately show ?thesis using "1.prems"(2) True by simp
      next
        case fin: True
        let ?r = "rd_unload (r\<lparr>rd_page_num := rd_page_num r + 1\<rparr>)"
        have r: "rd_page_num ?r = int (Suc k)" "\<not> rd_fd ?r" "rd_prefix ?r = rd_prefix r"
          using True k by (simp_all add: rd_unload_def)
        have np: "next_page v r = CRawIOReader_load v (int (Suc k)) ?r"
          by (simp add: next_page_def k add_ac)
        have Sk: "Suc k \<le> length pgs" using p(1) by simp
        have "finished ?F (int k)" using p(3) "1.prems"(3) True fin seen by (auto simp: finished_def)
        moreover have "int (Suc k) - 1 = int k" by simp
        ultimately have last: "Suc k = length pgs \<longrightarrow> finished ?F (int (Suc k) - 1)" by (simp only: simp_thms)
        note L = load_page [OF _ r(1,2) Sk, of ps v, unfolded r(3), OF "1.prems"(1) last]
        show ?thesis
        proof (cases "Suc k < length pgs \<and> vw_open v (rd_prefix r) (int (Suc k))")
          case True2: True
          let ?r1 = "?r\<lparr>rd_fd := True, rd_buf := PtrTo (int (Suc k)), rd_cursor := PAGE_HEAD_SIZE\<rparr>"
          have np1: "next_page v r = (True, ?r1)" using L(1) True2 np by simp
          have pre: "rd_prefix ?r1 = rd_prefix r" using r(3) by simp
          have eq: "read_seen v status r = read_seen v (seen_status v ?r1) ?r1"
            unfolding sim using True fin c np1 by (simp add: page seen_status_def)
          have IH: "\<exists>d r1. read_seen v (seen_status v ?r1) ?r1 = Inr (d, r1) \<and> rd_prefix r1 = rd_prefix ?r1 \<and>
              reader_at (vw_files v (rd_prefix ?r1)) pgs r1 (xs @ (case d of None \<Rightarrow> [] | Some (x, _) \<Rightarrow> [x])) \<and>
              (d = None \<longrightarrow> (rd_fd ?r1 \<longrightarrow> seen_status v ?r1 = seen_status v ?r1) \<longrightarrow>
                 (\<forall>n. vw_open v (rd_prefix ?r1) n) \<longrightarrow> xs = concat pgs)"
          proof (rule "1.IH"(1) [OF True page _ fin np1 [symmetric] refl, folded seen_status_def])
            show "\<not> rd_cursor r < pg_tail p" using c by simp
            show "files_ok ps (vw_files v (rd_prefix ?r1)) pgs" using "1.prems"(1) pre by simp
            show "reader_at (vw_files v (rd_prefix ?r1)) pgs ?r1 xs"
              using L(3) True2 pre all by simp
          qed simp
          then show ?thesis unfolding eq pre by blast
        next
          case False
          have np1: "next_page v r = (False, snd (CRawIOReader_load v (int (Suc k)) ?r))"
            using L(1) False np by simp
          have "read_seen v status r = Inr (None, snd (CRawIOReader_load v (int (Suc k)) ?r))"
            unfolding sim using True fin c np1 by (simp add: page)
          moreover have "xs = concat pgs" if "\<forall>n. vw_open v (rd_prefix r) n"
            using False that all Sk by simp
          ultimately show ?thesis using L(2) False all r(3) by simp
        qed
      qed
    qed
  next
    case False
    then have kk: "k \<le> length pgs" "xs = concat (take k pgs)"
      "k = length pgs \<longrightarrow> finished ?F (int k - 1)"
      using "1.prems"(2) k by (auto simp: reader_at_def)
    note L = load_page [OF "1.prems"(1) k False kk(1,3)]
    show ?thesis
    proof (cases "k < length pgs \<and> vw_open v (rd_prefix r) (int k)")
      case True
      let ?r1 = "r\<lparr>rd_fd := True, rd_buf := PtrTo (int k), rd_cursor := PAGE_HEAD_SIZE\<rparr>"
      have ld: "CRawIOReader_load v (rd_page_num r) r = (True, ?r1)" using L(1) True k by simp
      have eq: "read_seen v status r = read_seen v (seen_status v ?r1) ?r1"
        unfolding sim using False ld by (simp add: seen_status_def)
      have IH: "\<exists>d r1. read_seen v (seen_status v ?r1) ?r1 = Inr (d, r1) \<and> rd_prefix r1 = rd_prefix ?r1 \<and>
          reader_at (vw_files v (rd_prefix ?r1)) pgs r1 (xs @ (case d of None \<Rightarrow> [] | Some (x, _) \<Rightarrow> [x])) \<and>
          (d = None \<longrightarrow> (rd_fd ?r1 \<longrightarrow> seen_status v ?r1 = seen_status v ?r1) \<longrightarrow>
             (\<forall>n. vw_open v (rd_prefix ?r1) n) \<longrightarrow> xs = concat pgs)"
        by (rule "1.IH"(2) [OF False ld [symmetric] refl, folded seen_status_def])
          (use "1.prems"(1) L(3) True kk(2) in auto)
      then show ?thesis unfolding eq by fastforce
    next
      case no: False
      have ld: "CRawIOReader_load v (rd_page_num r) r = (False, snd (CRawIOReader_load v (int k) r))"
        using L(1) no k by simp
      have "read_seen v status r = Inr (None, snd (CRawIOReader_load v (int k) r))"
        using False ld by (simp add: sim)
      moreover have "xs = concat pgs" if "\<forall>n. vw_open v (rd_prefix r) n"
        using no that kk by simp
      ultimately show ?thesis using L(2) no kk(2) by simp
    qed
  qed
qed

section \<open>The writer\<close>

text \<open>
  Where a writer is: ready, between \<^verbatim>\<open>prefetch\<close> and \<^verbatim>\<open>commit\<close>, after it closed a full page, or after
  it mapped the next one and before it filled the head of that.
\<close>

datatype phase = Ready | Filling | Closed | Mapped

definition open_at :: "int \<Rightarrow> 'a io_writer \<Rightarrow> 'a list list \<Rightarrow> 'a io_page \<Rightarrow> bool" where
  "open_at ps w pgs p \<longleftrightarrow>
     wr_fd w \<and> wr_buf w = PtrTo (int (length pgs) - 1) \<and> wr_size w = ps \<and>
     map_of (wr_files w) (int (length pgs) - 1) = Some p \<and> pg_status p \<noteq> PAGE_STATUS_FINISH \<and>
     map_of (wr_files w) (int (length pgs)) = None"

fun phase_ok :: "int \<Rightarrow> 'a io_writer \<Rightarrow> 'a list list \<Rightarrow> phase \<Rightarrow> bool" where
  "phase_ok ps w pgs Ready \<longleftrightarrow> (\<exists>p. open_at ps w pgs p)"
| "phase_ok ps w pgs Filling \<longleftrightarrow>
     (\<exists>p f. open_at ps w pgs p \<and> map_of (pg_mem p) (pg_tail p) = Some f \<and> 0 \<le> fr_len f \<and>
        wr_prefetch_tail w = pg_tail p + FRAME_HEAD_SIZE + fr_len f \<and> wr_prefetch_tail w \<le> ps)"
| "phase_ok ps w pgs Closed \<longleftrightarrow>
     \<not> wr_fd w \<and> finished (wr_files w) (int (length pgs) - 1) \<and>
     map_of (wr_files w) (int (length pgs)) = None"
| "phase_ok ps w pgs Mapped \<longleftrightarrow>
     wr_fd w \<and> wr_buf w = PtrTo (int (length pgs)) \<and> wr_size w = ps \<and>
     finished (wr_files w) (int (length pgs) - 1) \<and>
     (\<exists>p. map_of (wr_files w) (int (length pgs)) = Some p \<and> pf_size p = ps)"

definition writer_at :: "int \<Rightarrow> phase \<Rightarrow> 'a io_writer \<Rightarrow> 'a list list \<Rightarrow> bool" where
  "writer_at ps ph w pgs \<longleftrightarrow>
     files_ok ps (wr_files w) pgs \<and> wr_page_size w = ps \<and> wr_page_num w = int (length pgs) - 1 \<and>
     phase_ok ps w pgs ph"

text \<open>What a step of the writer does to the pages is invisible behind the cursor of a reader.\<close>

definition grows :: "'a io_files \<Rightarrow> 'a list list \<Rightarrow> 'a io_files \<Rightarrow> 'a list list \<Rightarrow> bool" where
  "grows files pgs files1 pgs1 \<longleftrightarrow> length pgs \<le> length pgs1 \<and>
     (\<forall>k < length pgs. \<forall>p. map_of files (int k) = Some p \<longrightarrow>
        (\<exists>p1 ys. map_of files1 (int k) = Some p1 \<and> pgs1 ! k = pgs ! k @ ys \<and>
           laid p1 (pg_tail p) ys (pg_tail p1) \<and>
           (\<forall>c < pg_tail p. map_of (pg_mem p1) c = map_of (pg_mem p) c) \<and>
           (pg_status p = PAGE_STATUS_FINISH \<longrightarrow> pg_status p1 = PAGE_STATUS_FINISH \<and> ys = [])))"

lemma reader_grows:
  assumes r: "reader_at files pgs r xs" and ok: "files_ok ps files pgs" and g: "grows files pgs files1 pgs1"
  shows "reader_at files1 pgs1 r xs"
proof -
  note D = files_okD [OF ok]
  have step: "\<exists>p1 ys. map_of files1 (int k) = Some p1 \<and> pgs1 ! k = pgs ! k @ ys \<and>
      laid p1 (pg_tail p) ys (pg_tail p1) \<and> (\<forall>c < pg_tail p. map_of (pg_mem p1) c = map_of (pg_mem p) c) \<and>
      (pg_status p = PAGE_STATUS_FINISH \<longrightarrow> pg_status p1 = PAGE_STATUS_FINISH \<and> ys = [])"
    if "k < length pgs" "map_of files (int k) = Some p" for k p
    using g that unfolding grows_def by blast
  have same: "pgs1 ! k = pgs ! k" if "k < length pgs" "finished files (int k)" for k
    using step [OF that(1)] that(2) by (auto simp: finished_def)
  have before: "finished files (int j)" if "Suc j < length pgs" for j
    using D(4) [of j] that by (auto simp: finished_def)
  have take: "take k pgs1 = take k pgs" if "k \<le> length pgs" "k = length pgs \<longrightarrow> finished files (int k - 1)" for k
  proof (rule nth_take_lemma)
    show "k \<le> length pgs1" using that g by (simp add: grows_def)
    show "k \<le> length pgs" by (rule that(1))
    fix i show "i < k \<longrightarrow> pgs1 ! i = pgs ! i"
    proof
      assume i: "i < k"
      have "finished files (int i)"
      proof (cases "Suc i < length pgs")
        case False
        with i that(1) have "k = length pgs" "int i = int k - 1" by auto
        with that(2) show ?thesis by simp
      qed (rule before)
      with same [of i] i that(1) show "pgs1 ! i = pgs ! i" by simp
    qed
  qed
  obtain k where k: "rd_page_num r = int k" using r by (auto simp: reader_at_def)
  show ?thesis
  proof (cases "rd_fd r")
    case True
    then obtain p fs gs where p: "k < length pgs" "rd_buf r = PtrTo (int k)" "map_of files (int k) = Some p"
      "laid p PAGE_HEAD_SIZE fs (rd_cursor r)" "pgs ! k = fs @ gs" "laid p (rd_cursor r) gs (pg_tail p)"
      "xs = concat (take k pgs) @ fs"
      using r k by (auto simp: reader_at_def)
    obtain p1 ys where p1: "map_of files1 (int k) = Some p1" "pgs1 ! k = pgs ! k @ ys"
      "laid p1 (pg_tail p) ys (pg_tail p1)" "\<forall>c < pg_tail p. map_of (pg_mem p1) c = map_of (pg_mem p) c"
      using step [OF p(1,3)] by blast
    have c: "rd_cursor r \<le> pg_tail p" using laid_le [OF p(6)] by (simp add: FRAME_HEAD_SIZE_def)
    have "laid p1 PAGE_HEAD_SIZE fs (rd_cursor r)"
      by (rule laid_cong [OF p(4)]) (use p1(4) c in auto)
    moreover have "laid p1 (rd_cursor r) (gs @ ys) (pg_tail p1)"
      unfolding laid_append using laid_cong [OF p(6), of p1] p1(3,4) by auto
    ultimately show ?thesis
      using True k p p1 g take [of k] unfolding reader_at_def
      by (intro exI [of _ k]) (auto simp: grows_def intro!: exI [of _ fs])
  next
    case False
    then have kk: "k \<le> length pgs" "xs = concat (take k pgs)"
      "k = length pgs \<longrightarrow> finished files (int k - 1)"
      using r k by (auto simp: reader_at_def)
    have "k = length pgs1 \<longrightarrow> finished files1 (int k - 1)"
    proof
      assume "k = length pgs1"
      with kk(1) g have e: "k = length pgs" by (simp add: grows_def)
      with D(3) obtain j where j: "k = Suc j" by (cases pgs) auto
      from j have jj: "int k - 1 = int j" by simp
      with kk(3) e have "finished files (int j)" by metis
      with step [of j] e j show "finished files1 (int k - 1)" unfolding jj by (auto simp: finished_def)
    qed
    with False k kk take [OF kk(1,3)] g show ?thesis
      unfolding reader_at_def by (intro exI [of _ k]) (auto simp: grows_def)
  qed
qed

definition keeps_readers :: "'a io_files \<Rightarrow> 'a list list \<Rightarrow> 'a io_files \<Rightarrow> 'a list list \<Rightarrow> bool" where
  "keeps_readers files pgs files1 pgs1 \<longleftrightarrow>
     (\<forall>r xs. reader_at files pgs r xs \<longrightarrow> reader_at files1 pgs1 r xs)"

lemma grows_keeps: "files_ok ps files pgs \<Longrightarrow> grows files pgs files1 pgs1 \<Longrightarrow> keeps_readers files pgs files1 pgs1"
  unfolding keeps_readers_def using reader_grows by blast

lemma keeps_trans:
  "keeps_readers f0 p0 f1 p1 \<Longrightarrow> keeps_readers f1 p1 f2 p2 \<Longrightarrow> keeps_readers f0 p0 f2 p2"
  unfolding keeps_readers_def by blast

text \<open>A change of the last page that keeps its frames, or appends some.\<close>

lemma change_last:
  assumes ok: "files_ok ps files pgs" and p: "map_of files (int (length pgs) - 1) = Some p"
    and free: "map_of files (int (length pgs)) = None \<or>
      (\<exists>q. map_of files (int (length pgs)) = Some q \<and> pg_version q \<noteq> PAGE_HEAD_VER_1)"
    and q: "page_ok ps q (last pgs @ ys)" "laid q (pg_tail p) ys (pg_tail q)"
      "\<And>c. c < pg_tail p \<Longrightarrow> map_of (pg_mem q) c = map_of (pg_mem p) c"
    and fin: "pg_status p = PAGE_STATUS_FINISH \<Longrightarrow> pg_status q = PAGE_STATUS_FINISH \<and> ys = []"
  shows "files_ok ps (AList.update (int (length pgs) - 1) q files) (butlast pgs @ [last pgs @ ys])"
    and "grows files pgs (AList.update (int (length pgs) - 1) q files) (butlast pgs @ [last pgs @ ys])"
    and "concat (butlast pgs @ [last pgs @ ys]) = concat pgs @ ys"
    and "length (butlast pgs @ [last pgs @ ys]) = length pgs"
proof -
  note D = files_okD [OF ok]
  let ?pgs = "butlast pgs @ [last pgs @ ys]"
  show len: "length ?pgs = length pgs" using D(3) by simp
  obtain m where m: "length pgs = Suc m" using D(3) by (cases pgs) auto
  have nm: "int (length pgs) - 1 = int m" using m by simp
  have at: "?pgs ! k = (if k = m then last pgs @ ys else pgs ! k)" if "k < length pgs" for k
    using that m by (auto simp: nth_append nth_butlast)
  have lst: "last pgs = pgs ! m" using m D(3) by (simp add: last_conv_nth)
  show "files_ok ps (AList.update (int (length pgs) - 1) q files) ?pgs"
    unfolding files_ok_def len
  proof (intro conjI allI impI)
    fix k assume k: "k < length pgs"
    then show "\<exists>p. map_of (AList.update (int (length pgs) - 1) q files) (int k) = Some p \<and>
        page_ok ps p (?pgs ! k) \<and> (Suc k < length pgs \<longrightarrow> pg_status p = PAGE_STATUS_FINISH)"
      using D(4) [OF k] q(1) m at [OF k] nm by (cases "k = m") auto
  next
    fix n :: int and p'
    assume "map_of (AList.update (int (length pgs) - 1) q files) n = Some p'"
    then show "0 \<le> n" "n < int (length pgs) \<or> n = int (length pgs) \<and> pg_version p' \<noteq> PAGE_HEAD_VER_1"
      using D(5) [of n] nm m by (auto split: if_splits)
  qed (use D(1-3) in auto)
  show "grows files pgs (AList.update (int (length pgs) - 1) q files) ?pgs"
    unfolding grows_def len
  proof (intro conjI allI impI order_refl)
    fix k p' assume k: "k < length pgs" and p': "map_of files (int k) = Some p'"
    show "\<exists>p1 ys'. map_of (AList.update (int (length pgs) - 1) q files) (int k) = Some p1 \<and>
        ?pgs ! k = pgs ! k @ ys' \<and> laid p1 (pg_tail p') ys' (pg_tail p1) \<and>
        (\<forall>c < pg_tail p'. map_of (pg_mem p1) c = map_of (pg_mem p') c) \<and>
        (pg_status p' = PAGE_STATUS_FINISH \<longrightarrow> pg_status p1 = PAGE_STATUS_FINISH \<and> ys' = [])"
    proof (cases "k = m")
      case True
      with p' p nm have "p' = p" by simp
      with True q(2,3) fin at [OF k] nm lst show ?thesis by (intro exI [of _ q] exI [of _ ys]) auto
    next
      case False
      with p' at [OF k] nm show ?thesis by (intro exI [of _ p'] exI [of _ "[]"]) auto
    qed
  qed
  have "concat pgs = concat (butlast pgs) @ last pgs"
    using D(3) by (metis append_butlast_last_id concat.simps concat_append append_Nil2)
  then show "concat ?pgs = concat pgs @ ys" by simp
qed

lemma grows_same: "(\<And>k. k < length pgs \<Longrightarrow> map_of files1 (int k) = map_of files (int k)) \<Longrightarrow>
  length pgs \<le> length pgs1 \<Longrightarrow> (\<And>k. k < length pgs \<Longrightarrow> pgs1 ! k = pgs ! k) \<Longrightarrow>
  grows files pgs files1 pgs1"
  unfolding grows_def by auto

section \<open>The steps of the writer\<close>

lemma open_page:
  assumes "open_at ps w pgs p"
  shows "wr_page w = Inr p"
    and "upd_page f w = w\<lparr>wr_files := AList.update (int (length pgs) - 1) (f p) (wr_files w)\<rparr>"
  using assms by (simp_all add: open_at_def wr_page_def upd_page_def)

lemma open_page_ok:
  assumes "files_ok ps (wr_files w) pgs" "open_at ps w pgs p"
  shows "page_ok ps p (last pgs)" "PAGE_HEAD_SIZE \<le> pg_tail p" "pg_tail p \<le> ps"
proof -
  note D = files_okD [OF assms(1)]
  obtain m where m: "length pgs = Suc m" using D(3) by (cases pgs) auto
  with assms(2) D(4) [of m] have "page_ok ps p (pgs ! m)" by (auto simp: open_at_def)
  with m D(3) show "page_ok ps p (last pgs)" by (simp add: last_conv_nth)
  then show "PAGE_HEAD_SIZE \<le> pg_tail p" "pg_tail p \<le> ps"
    using laid_le [of p PAGE_HEAD_SIZE "last pgs" "pg_tail p"]
    by (auto simp: page_ok_def FRAME_HEAD_SIZE_def)
qed

lemma to_u32_small [simp]: "0 \<le> x \<Longrightarrow> x < 2 ^ 32 \<Longrightarrow> to_u32 x = x"
  by (simp add: to_u32_def)

text \<open>An update of the open page that keeps it open: what the three steps of a frame have in common.\<close>

lemma frame_step:
  assumes w: "files_ok ps (wr_files w) pgs" "open_at ps w pgs p" "wr_page_size w = ps"
      "wr_page_num w = int (length pgs) - 1"
    and q: "page_ok ps q (last pgs @ ys)" "laid q (pg_tail p) ys (pg_tail q)"
      "\<And>c. c < pg_tail p \<Longrightarrow> map_of (pg_mem q) c = map_of (pg_mem p) c" "pg_status q = pg_status p"
    and w1: "w1 = w\<lparr>wr_files := AList.update (int (length pgs) - 1) q (wr_files w), wr_prefetch_tail := t\<rparr>"
  shows "files_ok ps (wr_files w1) (butlast pgs @ [last pgs @ ys])"
    and "open_at ps w1 (butlast pgs @ [last pgs @ ys]) q"
    and "wr_page_size w1 = ps" "wr_page_num w1 = int (length (butlast pgs @ [last pgs @ ys])) - 1"
    and "grows (wr_files w) pgs (wr_files w1) (butlast pgs @ [last pgs @ ys])"
proof -
  have p: "map_of (wr_files w) (int (length pgs) - 1) = Some p" "pg_status p \<noteq> PAGE_STATUS_FINISH"
    "map_of (wr_files w) (int (length pgs)) = None"
    using w(2) by (auto simp: open_at_def)
  note C = change_last [OF w(1) p(1) disjI1 [OF p(3)] q(1,2,3)]
  show "files_ok ps (wr_files w1) (butlast pgs @ [last pgs @ ys])"
    "grows (wr_files w) pgs (wr_files w1) (butlast pgs @ [last pgs @ ys])"
    using C(1,2) p(2) w1 by auto
  show "open_at ps w1 (butlast pgs @ [last pgs @ ys]) q" "wr_page_size w1 = ps"
    "wr_page_num w1 = int (length (butlast pgs @ [last pgs @ ys])) - 1"
    using C(4) w(2-4) w1 p(2) q(4) by (auto simp: open_at_def)
qed

lemma laid_put:
  "laid p off xs e \<Longrightarrow> e \<le> c \<Longrightarrow> laid (put_frame c f p) off xs e"
  by (rule laid_cong) (auto simp: put_frame_def)

lemma put_frame_sel [simp]:
  "pf_size (put_frame c f p) = pf_size p" "pg_version (put_frame c f p) = pg_version p"
  "pg_size (put_frame c f p) = pg_size p" "pg_tail (put_frame c f p) = pg_tail p"
  "pg_status (put_frame c f p) = pg_status p"
  "map_of (pg_mem (put_frame c f p)) d = (if d = c then Some f else map_of (pg_mem p) d)"
  by (simp_all add: put_frame_def)

lemma same_last: "pgs \<noteq> [] \<Longrightarrow> butlast pgs @ [last pgs @ []] = pgs"
  by simp

lemma writer_atD:
  assumes "writer_at ps ph w pgs"
  shows "files_ok ps (wr_files w) pgs" "wr_page_size w = ps" "wr_page_num w = int (length pgs) - 1"
    "phase_ok ps w pgs ph" "pgs \<noteq> []"
  using assms files_okD(3) by (auto simp: writer_at_def)

lemma reserve_ok:
  assumes w: "writer_at ps Ready w pgs" and p: "wr_page w = Inr p"
    and len: "0 \<le> len" "pg_tail p + FRAME_HEAD_SIZE + len \<le> ps"
  shows "\<exists>w1. reserve z len w = (Some (pg_tail p), w1) \<and> writer_at ps Filling w1 pgs \<and>
    grows (wr_files w) pgs (wr_files w1) pgs \<and> wr_page w1 =
      Inr (put_frame (pg_tail p) ((frame_at z p (pg_tail p))\<lparr>fr_len := len\<rparr>) p) \<and> wr_spin w1 = wr_spin w"
proof -
  note W = writer_atD [OF w]
  from W(4) p obtain op: "open_at ps w pgs p" using open_page(1) by fastforce
  note P = open_page_ok [OF W(1) op] and ps = files_okD(2) [OF W(1)]
  let ?q = "put_frame (pg_tail p) ((frame_at z p (pg_tail p))\<lparr>fr_len := len\<rparr>) p"
  define w1 where "w1 = w\<lparr>wr_files := AList.update (int (length pgs) - 1) ?q (wr_files w),
    wr_prefetch_tail := pg_tail p + FRAME_HEAD_SIZE + len\<rparr>"
  have u: "to_u32 (pg_tail p + FRAME_HEAD_SIZE + len) = pg_tail p + FRAME_HEAD_SIZE + len"
    using P len ps by (simp add: page_consts)
  have op1: "open_at ps (w\<lparr>wr_prefetch_tail := pg_tail p + FRAME_HEAD_SIZE + len\<rparr>) pgs p"
    using op by (simp add: open_at_def)
  have r: "reserve z len w = (Some (pg_tail p), w1)"
    using op len u open_page(2) [OF op1] p by (simp add: reserve_def w1_def open_at_def)
  have "page_ok ps ?q (last pgs @ [])"
    using P(1) by (auto simp: page_ok_def intro: laid_put)
  note F = frame_step [OF W(1) op W(2,3) this _ _ _ w1_def, simplified, unfolded same_last [OF W(5)] append_Nil2
      append_butlast_last_id [OF W(5)]]
  have "phase_ok ps w1 pgs Filling"
    using F(2) len by (auto simp: w1_def)
  then have "writer_at ps Filling w1 pgs" using F(1) W(2,3) by (simp add: writer_at_def w1_def)
  with r F(5) op F(2) show ?thesis by (auto simp: open_page(1) w1_def)
qed

text \<open>The memory of the frame that is being filled.\<close>

definition frame_buf :: "'a \<Rightarrow> 'a io_writer \<Rightarrow> 'a" where
  "frame_buf z w = (case wr_page w of Inl _ \<Rightarrow> z | Inr p \<Rightarrow> fr_data (frame_at z p (pg_tail p)))"

lemma fill_ok:
  assumes w: "writer_at ps Filling w pgs" and p: "wr_page w = Inr p"
  shows "writer_at ps Filling (fill_frame z (pg_tail p) f w) pgs"
    and "grows (wr_files w) pgs (wr_files (fill_frame z (pg_tail p) f w)) pgs"
    and "frame_buf z (fill_frame z (pg_tail p) f w) = f (frame_buf z w)"
    and "wr_spin (fill_frame z (pg_tail p) f w) = wr_spin w"
proof -
  note W = writer_atD [OF w]
  from W(4) p obtain fr where op: "open_at ps w pgs p" and fr: "map_of (pg_mem p) (pg_tail p) = Some fr"
    "0 \<le> fr_len fr" "wr_prefetch_tail w = pg_tail p + FRAME_HEAD_SIZE + fr_len fr" "wr_prefetch_tail w \<le> ps"
    using open_page(1) by fastforce
  note P = open_page_ok [OF W(1) op]
  let ?fr = "(frame_at z p (pg_tail p))\<lparr>fr_data := f (fr_data (frame_at z p (pg_tail p)))\<rparr>"
  let ?q = "put_frame (pg_tail p) ?fr p"
  define w1 where "w1 = w\<lparr>wr_files := AList.update (int (length pgs) - 1) ?q (wr_files w),
    wr_prefetch_tail := wr_prefetch_tail w\<rparr>"
  have fill: "fill_frame z (pg_tail p) f w = w1"
    by (simp add: fill_frame_def open_page(2) [OF op] w1_def)
  have "page_ok ps ?q (last pgs @ [])"
    using P(1) by (auto simp: page_ok_def intro: laid_put)
  note F = frame_step [OF W(1) op W(2,3) this _ _ _ w1_def, simplified, unfolded same_last [OF W(5)] append_Nil2
      append_butlast_last_id [OF W(5)]]
  have "phase_ok ps w1 pgs Filling"
    using F(2) fr by (auto simp: w1_def frame_at_def)
  then show "writer_at ps Filling (fill_frame z (pg_tail p) f w) pgs"
    using F(1) W(2,3) by (simp add: writer_at_def fill) (simp add: w1_def)
  show "grows (wr_files w) pgs (wr_files (fill_frame z (pg_tail p) f w)) pgs" using F(5) fill by simp
  show "frame_buf z (fill_frame z (pg_tail p) f w) = f (frame_buf z w)"
    using F(2) p by (simp add: frame_buf_def fill open_page(1)) (simp add: frame_at_def)
  show "wr_spin (fill_frame z (pg_tail p) f w) = wr_spin w" by (simp add: fill w1_def)
qed

lemma commit_ok:
  assumes w: "writer_at ps Filling w pgs"
  shows "\<exists>w1 pgs1. CRawIOWriter_commit z nano w = Inr w1 \<and> writer_at ps Ready w1 pgs1 \<and>
    grows (wr_files w) pgs (wr_files w1) pgs1 \<and> concat pgs1 = concat pgs @ [frame_buf z w] \<and>
    wr_spin w1 = wr_spin w"
proof -
  note W = writer_atD [OF w]
  from W(4) obtain p fr where op: "open_at ps w pgs p" and fr: "map_of (pg_mem p) (pg_tail p) = Some fr"
    "0 \<le> fr_len fr" "wr_prefetch_tail w = pg_tail p + FRAME_HEAD_SIZE + fr_len fr" "wr_prefetch_tail w \<le> ps"
    by auto
  note P = open_page_ok [OF W(1) op]
  have p: "wr_page w = Inr p" by (rule open_page(1) [OF op])
  let ?fr = "fr\<lparr>fr_magic := FRAME_HEAD_MAGIC, fr_nano := nano\<rparr>"
  let ?q = "(put_frame (pg_tail p) ?fr p)\<lparr>pg_last_nano := nano, pg_tail := wr_prefetch_tail w\<rparr>"
  define w1 where "w1 = w\<lparr>wr_files := AList.update (int (length pgs) - 1) ?q (wr_files w),
    wr_prefetch_tail := wr_prefetch_tail w\<rparr>"
  let ?ys = "[fr_data fr]"
  have c: "CRawIOWriter_commit z nano w = Inr w1"
    by (simp add: CRawIOWriter_commit_def p open_page(2) [OF op] w1_def frame_at_def fr(1))
  have keep: "laid ?q off xs e" if "laid p off xs e" "e \<le> pg_tail p" for off xs e
    by (rule laid_cong [OF that(1)]) (use that(2) in auto)
  have new: "laid ?q (pg_tail p) ?ys (pg_tail ?q)" using fr(2,3) by simp
  have "page_ok ps ?q (last pgs @ ?ys)"
    using P(1) fr(4) keep new unfolding page_ok_def by (auto simp: laid_append simp del: laid.simps)
  note F = frame_step [OF W(1) op W(2,3) this new _ _ w1_def]
  have "writer_at ps Ready w1 (butlast pgs @ [last pgs @ ?ys])"
    using F(1-4) by (auto simp: writer_at_def)
  moreover have "concat (butlast pgs @ [last pgs @ ?ys]) = concat pgs @ [frame_buf z w]"
  proof -
    have "concat pgs = concat (butlast pgs) @ last pgs"
      using W(5) by (metis append_butlast_last_id concat.simps concat_append append_Nil2)
    then show ?thesis by (simp add: frame_buf_def p frame_at_def fr(1))
  qed
  ultimately show ?thesis using c F(5)
    by (intro exI [of _ w1] exI [of _ "butlast pgs @ [last pgs @ ?ys]"]) (auto simp: w1_def)
qed

lemma close_ok:
  assumes w: "writer_at ps Ready w pgs"
  shows "writer_at ps Closed (close_page nano w) pgs"
    and "grows (wr_files w) pgs (wr_files (close_page nano w)) pgs"
    and "wr_test_lock (close_page nano w) = wr_test_lock w" "wr_spin (close_page nano w) = wr_spin w"
proof -
  note W = writer_atD [OF w]
  from W(4) obtain p where op: "open_at ps w pgs p" by auto
  note P = open_page_ok [OF W(1) op]
  have p: "map_of (wr_files w) (int (length pgs) - 1) = Some p"
    "map_of (wr_files w) (int (length pgs)) = None"
    using op by (auto simp: open_at_def)
  let ?q = "p\<lparr>pg_stop_nano := nano, pg_status := PAGE_STATUS_FINISH\<rparr>"
  have c: "close_page nano w = w\<lparr>wr_files := AList.update (int (length pgs) - 1) ?q (wr_files w),
      wr_fd := False, wr_buf := DanglingPtr\<rparr>"
    using op by (simp add: close_page_def open_page(2) [OF op] CIOBase_unload_def open_at_def)
  have q: "page_ok ps ?q (last pgs @ [])"
    using P(1) by (auto simp: page_ok_def intro: laid_cong)
  note C = change_last [OF W(1) p(1) disjI1 [OF p(2)] q, simplified, unfolded append_butlast_last_id [OF W(5)]]
  show "writer_at ps Closed (close_page nano w) pgs"
    using C(1) W(2,3) p(2) by (simp add: writer_at_def c finished_def)
  show "grows (wr_files w) pgs (wr_files (close_page nano w)) pgs" using C(2) by (simp add: c)
  show "wr_test_lock (close_page nano w) = wr_test_lock w" "wr_spin (close_page nano w) = wr_spin w"
    by (simp_all add: c)
qed

definition grants :: "io_env \<Rightarrow> bool" where
  "grants env \<longleftrightarrow> (\<forall>n. ie_open env n \<and> ie_lock env n \<and> ie_map env n)"

lemma map_ok:
  assumes w: "writer_at ps Closed w pgs" and env: "grants env"
  shows "\<exists>w1. CRawIOWriter_load env (wr_page_num w + 1) w = (True, w1) \<and> writer_at ps Mapped w1 pgs \<and>
    grows (wr_files w) pgs (wr_files w1) pgs \<and> wr_spin w1 = wr_spin w"
proof -
  note W = writer_atD [OF w] and D = files_okD [OF writer_atD(1) [OF w]]
  have none: "map_of (wr_files w) (int (length pgs)) = None" and fin: "finished (wr_files w) (int (length pgs) - 1)"
    using W(4) by auto
  let ?p = "empty_page\<lparr>pf_size := ps\<rparr>"
  define w1 where "w1 = w\<lparr>wr_files := AList.update (int (length pgs)) ?p (wr_files w), wr_size := ps,
    wr_fd := True, wr_buf := PtrTo (int (length pgs))\<rparr>"
  have ld: "CRawIOWriter_load env (wr_page_num w + 1) w = (True, w1)"
    using env none W(2,3)
    by (simp add: CRawIOWriter_load_def grants_def um_touch_def empty_page_def PAGE_HEAD_SIZE_def w1_def)
  have "files_ok ps (wr_files w1) pgs"
    unfolding files_ok_def
  proof (intro conjI allI impI)
    fix k assume k: "k < length pgs"
    then show "\<exists>p. map_of (wr_files w1) (int k) = Some p \<and> page_ok ps p (pgs ! k) \<and>
        (Suc k < length pgs \<longrightarrow> pg_status p = PAGE_STATUS_FINISH)"
      using D(4) [OF k] by (auto simp: w1_def)
  next
    fix n q assume "map_of (wr_files w1) n = Some q"
    then show "0 \<le> n" "n < int (length pgs) \<or> n = int (length pgs) \<and> pg_version q \<noteq> PAGE_HEAD_VER_1"
      using D(5) [of n q] by (auto simp: w1_def empty_page_def PAGE_HEAD_VER_1_def split: if_splits)
  qed (use D(1-3) in auto)
  then have "writer_at ps Mapped w1 pgs"
    using W(2,3) fin by (auto simp: writer_at_def finished_def) (auto simp: w1_def)
  moreover have "grows (wr_files w) pgs (wr_files w1) pgs"
    by (rule grows_same) (auto simp: w1_def)
  ultimately show ?thesis using ld by (auto simp: w1_def)
qed

lemma head_ok:
  assumes w: "writer_at ps Mapped w pgs"
  shows "writer_at ps Ready (fill_head nano w) (pgs @ [[]])"
    and "grows (wr_files w) pgs (wr_files (fill_head nano w)) (pgs @ [[]])"
    and "wr_spin (fill_head nano w) = wr_spin w"
proof -
  note W = writer_atD [OF w] and D = files_okD [OF writer_atD(1) [OF w]]
  from W(4) obtain p where p: "map_of (wr_files w) (int (length pgs)) = Some p" "pf_size p = ps"
    and fd: "wr_fd w" "wr_buf w = PtrTo (int (length pgs))" "wr_size w = ps"
    and fin: "finished (wr_files w) (int (length pgs) - 1)" by auto
  let ?q = "p\<lparr>pg_status := PAGE_STATUS_WRITTING, pg_size := ps, pg_tail := PAGE_HEAD_SIZE,
      pg_start_nano := nano, pg_stop_nano := -1, pg_version := PAGE_HEAD_VER_1\<rparr>"
  have h: "fill_head nano w = w\<lparr>wr_page_num := wr_page_num w + 1,
      wr_files := AList.update (int (length pgs)) ?q (wr_files w)\<rparr>"
    using p fd by (simp add: fill_head_def upd_page_def)
  have lastfin: "pg_status q = PAGE_STATUS_FINISH"
    if "map_of (wr_files w) (int (length pgs) - 1) = Some q" for q
    using fin that by (auto simp: finished_def)
  have "files_ok ps (wr_files (fill_head nano w)) (pgs @ [[]])"
    unfolding files_ok_def
  proof (intro conjI allI impI)
    fix k assume k: "k < length (pgs @ [[]])"
    show "\<exists>p. map_of (wr_files (fill_head nano w)) (int k) = Some p \<and> page_ok ps p ((pgs @ [[]]) ! k) \<and>
        (Suc k < length (pgs @ [[]]) \<longrightarrow> pg_status p = PAGE_STATUS_FINISH)"
    proof (cases "k = length pgs")
      case True
      with p D(1) show ?thesis by (simp add: h page_ok_def)
    next
      case False
      with k have kl: "k < length pgs" by simp
      from D(4) [OF this] obtain q where q: "map_of (wr_files w) (int k) = Some q" "page_ok ps q (pgs ! k)"
        "Suc k < length pgs \<longrightarrow> pg_status q = PAGE_STATUS_FINISH" by blast
      have "pg_status q = PAGE_STATUS_FINISH"
      proof (cases "Suc k < length pgs")
        case False
        with kl have "int k = int (length pgs) - 1" by simp
        with q(1) lastfin show ?thesis by simp
      qed (use q(3) in blast)
      with q kl show ?thesis by (simp add: h nth_append)
    qed
  next
    fix n q assume "map_of (wr_files (fill_head nano w)) n = Some q"
    then show "0 \<le> n" "n < int (length (pgs @ [[]])) \<or>
        n = int (length (pgs @ [[]])) \<and> pg_version q \<noteq> PAGE_HEAD_VER_1"
      using D(5) [of n q] by (auto simp: h split: if_splits)
  qed (use D(1-3) in auto)
  moreover have "map_of (wr_files w) (1 + int (length pgs)) = None"
    using D(5) [of "1 + int (length pgs)"] by (cases "map_of (wr_files w) (1 + int (length pgs))") auto
  then have "open_at ps (fill_head nano w) (pgs @ [[]]) ?q"
    using fd by (simp add: open_at_def h) (simp add: page_consts)
  then have "phase_ok ps (fill_head nano w) (pgs @ [[]]) Ready" unfolding phase_ok.simps by blast
  ultimately show "writer_at ps Ready (fill_head nano w) (pgs @ [[]])"
    using W(2,3) by (simp add: writer_at_def) (simp add: h)
  show "grows (wr_files w) pgs (wr_files (fill_head nano w)) (pgs @ [[]])"
    by (rule grows_same) (auto simp: h nth_append)
  show "wr_spin (fill_head nano w) = wr_spin w" by (simp add: h)
qed

text \<open>
  \<^verbatim>\<open>prefetch\<close> as a whole, and a frame from \<^verbatim>\<open>prefetch\<close> to \<^verbatim>\<open>commit\<close>: what the sender filled in is
  appended to what was sent.
\<close>

lemma createNextPage_ok:
  assumes w: "writer_at ps Closed w pgs" and env: "grants env"
  shows "\<exists>w1. CRawIOWriter_createNextPage env nano w = (True, w1) \<and> writer_at ps Ready w1 (pgs @ [[]]) \<and>
    wr_spin w1 = wr_spin w \<and> keeps_readers (wr_files w) pgs (wr_files w1) (pgs @ [[]])"
proof -
  from map_ok [OF w env] obtain w1 where w1: "CRawIOWriter_load env (wr_page_num w + 1) w = (True, w1)"
      "writer_at ps Mapped w1 pgs" "grows (wr_files w) pgs (wr_files w1) pgs" "wr_spin w1 = wr_spin w" by blast
  have "keeps_readers (wr_files w) pgs (wr_files w1) pgs"
    by (rule grows_keeps [OF writer_atD(1) [OF w] w1(3)])
  from keeps_trans [OF this grows_keeps [OF writer_atD(1) [OF w1(2)] head_ok(2) [OF w1(2), of nano]]]
  show ?thesis using w1 head_ok(1,3) [OF w1(2), of nano] by (simp add: CRawIOWriter_createNextPage_def)
qed

lemma prefetch_ok:
  assumes w: "writer_at ps Ready w pgs" and env: "grants env"
    and len: "0 \<le> len" "PAGE_HEAD_SIZE + FRAME_HEAD_SIZE + len \<le> ps"
  shows "\<exists>off w1 pgs1 p. CRawIOWriter_prefetch env z len nano w = Inr (Some off, w1) \<and>
    writer_at ps Filling w1 pgs1 \<and> concat pgs1 = concat pgs \<and> wr_page w1 = Inr p \<and> off = pg_tail p \<and>
    wr_spin w1 = wr_spin w"
proof -
  note W = writer_atD [OF w]
  from W(4) obtain p where op: "open_at ps w pgs p" by auto
  note P = open_page_ok [OF W(1) op] and ps = files_okD(2) [OF W(1)]
  have p: "wr_page w = Inr p" by (rule open_page(1) [OF op])
  let ?t = "pg_tail p + FRAME_HEAD_SIZE + len"
  show ?thesis
  proof (cases "?t \<le> ps")
    case True
    from reserve_ok [OF w p len(1) True, of z] p show ?thesis
      by (fastforce simp: CRawIOWriter_prefetch_def)
  next
    case False
    let ?w = "w\<lparr>wr_prefetch_tail := to_u32 ?t\<rparr>"
    have t: "to_u32 ?t = ?t"
    proof (rule to_u32_small)
      show "0 \<le> ?t" using P(2) len(1) by (simp add: page_consts)
    qed (use P(3) len ps in \<open>simp add: page_consts\<close>)
    have r: "reserve z len w = (None, ?w)"
      using False p t op by (simp add: reserve_def open_at_def)
    have "writer_at ps Ready ?w pgs" using w by (auto simp: writer_at_def open_at_def)
    from close_ok [OF this, of nano] obtain w1 where
      w1: "w1 = close_page nano ?w" "writer_at ps Closed w1 pgs" "wr_spin w1 = wr_spin w" by simp
    from createNextPage_ok [OF w1(2) env, of nano] obtain w2 where
      w2: "CRawIOWriter_createNextPage env nano w1 = (True, w2)" "writer_at ps Ready w2 (pgs @ [[]])"
        "wr_spin w2 = wr_spin w" using w1(3) by auto
    from writer_atD(4) [OF w2(2)] obtain q where oq: "open_at ps w2 (pgs @ [[]]) q" by auto
    note q = open_page(1) [OF oq] and Q = open_page_ok [OF writer_atD(1) [OF w2(2)] oq]
    have "pg_tail q = PAGE_HEAD_SIZE" using Q(1) by (simp add: page_ok_def)
    with len have fit: "pg_tail q + FRAME_HEAD_SIZE + len \<le> ps" by simp
    from reserve_ok [OF w2(2) q len(1) fit, of z] p r w1(1) w2(1,3) show ?thesis
      by (fastforce simp: CRawIOWriter_prefetch_def)
  qed
qed

lemma concat_snoc: "pgs \<noteq> [] \<Longrightarrow> concat (butlast pgs @ [last pgs @ ys]) = concat pgs @ ys"
  by (metis append.assoc append_Nil2 append_butlast_last_id concat.simps(1,2) concat_append)

lemma write_fits:
  assumes w: "writer_at ps Ready w pgs" and p: "wr_page w = Inr p"
    and len: "0 \<le> len" "pg_tail p + FRAME_HEAD_SIZE + len \<le> ps"
  shows "\<exists>w1 pgs1. CRawIOWriter_write (Suc n) env data len nano w = Inr (True, w1) \<and>
    writer_at ps Ready w1 pgs1 \<and> concat pgs1 = concat pgs @ [data] \<and> wr_spin w1 = wr_spin w \<and>
    keeps_readers (wr_files w) pgs (wr_files w1) pgs1"
proof -
  note W = writer_atD [OF w]
  from W(4) p obtain op: "open_at ps w pgs p" using open_page(1) by fastforce
  note P = open_page_ok [OF W(1) op] and ps = files_okD(2) [OF W(1)]
  let ?t = "pg_tail p + FRAME_HEAD_SIZE + len"
  let ?fr = "\<lparr>fr_magic = FRAME_HEAD_MAGIC, fr_len = len, fr_nano = nano, fr_data = data\<rparr>"
  let ?q = "(put_frame (pg_tail p) ?fr p)\<lparr>pg_last_nano := nano, pg_tail := ?t\<rparr>"
  define w1 where "w1 = w\<lparr>wr_files := AList.update (int (length pgs) - 1) ?q (wr_files w),
    wr_prefetch_tail := wr_prefetch_tail w\<rparr>"
  have u: "to_u32 ?t = ?t"
    by (rule to_u32_small) (use P len ps in \<open>simp_all add: page_consts\<close>)
  have c: "CRawIOWriter_write (Suc n) env data len nano w = Inr (True, w1)"
    using op len u by (simp add: p open_page(2) [OF op] w1_def open_at_def)
  have keep: "laid ?q off xs e" if "laid p off xs e" "e \<le> pg_tail p" for off xs e
    by (rule laid_cong [OF that(1)]) (use that(2) in auto)
  have new: "laid ?q (pg_tail p) [data] (pg_tail ?q)" using len(1) by simp
  have "page_ok ps ?q (last pgs @ [data])"
    using P(1) len(2) keep new unfolding page_ok_def by (auto simp: laid_append simp del: laid.simps)
  note F = frame_step [OF W(1) op W(2,3) this new _ _ w1_def]
  have "writer_at ps Ready w1 (butlast pgs @ [last pgs @ [data]])"
    using F(1-4) by (auto simp: writer_at_def)
  moreover have "keeps_readers (wr_files w) pgs (wr_files w1) (butlast pgs @ [last pgs @ [data]])"
    by (rule grows_keeps [OF W(1) F(5)]) simp_all
  moreover have "wr_spin w1 = wr_spin w" by (simp add: w1_def)
  ultimately show ?thesis using c concat_snoc [OF W(5), of "[data]"] by metis
qed

lemma write_ok:
  assumes w: "writer_at ps Ready w pgs" and env: "grants env"
    and len: "0 \<le> len" "PAGE_HEAD_SIZE + FRAME_HEAD_SIZE + len \<le> ps"
  shows "\<exists>w1 pgs1. CRawIOWriter_write (Suc (Suc n)) env data len nano w = Inr (True, w1) \<and>
    writer_at ps Ready w1 pgs1 \<and> concat pgs1 = concat pgs @ [data] \<and> wr_spin w1 = wr_spin w \<and>
    keeps_readers (wr_files w) pgs (wr_files w1) pgs1"
proof -
  note W = writer_atD [OF w]
  from W(4) obtain p where op: "open_at ps w pgs p" by auto
  note P = open_page_ok [OF W(1) op] and ps = files_okD(2) [OF W(1)]
  have p: "wr_page w = Inr p" by (rule open_page(1) [OF op])
  let ?t = "pg_tail p + FRAME_HEAD_SIZE + len"
  show ?thesis
  proof (cases "?t \<le> ps")
    case True
    from write_fits [OF w p len(1) True] show ?thesis .
  next
    case False
    have t: "to_u32 ?t = ?t"
      by (rule to_u32_small) (use P len ps in \<open>simp_all add: page_consts\<close>)
    from close_ok [OF w, of nano] obtain w1 where
      w1: "w1 = close_page nano w" "writer_at ps Closed w1 pgs" "wr_spin w1 = wr_spin w"
        "grows (wr_files w) pgs (wr_files w1) pgs" by simp
    from createNextPage_ok [OF w1(2) env, of nano] obtain w2 where
      w2: "CRawIOWriter_createNextPage env nano w1 = (True, w2)" "writer_at ps Ready w2 (pgs @ [[]])"
        "wr_spin w2 = wr_spin w" "keeps_readers (wr_files w1) pgs (wr_files w2) (pgs @ [[]])"
      using w1(3) by auto
    note keep = keeps_trans [OF grows_keeps [OF W(1) w1(4)] w2(4)]
    from writer_atD(4) [OF w2(2)] obtain q where oq: "open_at ps w2 (pgs @ [[]]) q" by auto
    note q = open_page(1) [OF oq] and Q = open_page_ok [OF writer_atD(1) [OF w2(2)] oq]
    have "pg_tail q = PAGE_HEAD_SIZE" using Q(1) by (simp add: page_ok_def)
    with len have fit: "pg_tail q + FRAME_HEAD_SIZE + len \<le> ps" by simp
    have size: "wr_size w2 = ps" "wr_size w = ps" using oq op by (simp_all add: open_at_def)
    have room: "len \<le> (ps - PAGE_HEAD_SIZE - FRAME_HEAD_SIZE) mod 2 ^ 64"
      using len ps by (simp add: page_consts)
    have "CRawIOWriter_write (Suc (Suc n)) env data len nano w = CRawIOWriter_write (Suc n) env data len nano w2"
      using False t size room w2(1) w1(1) by (simp add: p del: CRawIOWriter_write.simps(2))
        (subst CRawIOWriter_write.simps, simp add: p)
    moreover from write_fits [OF w2(2) q len(1) fit, of n env data nano] obtain w3 pgs3 where
      w3: "CRawIOWriter_write (Suc n) env data len nano w2 = Inr (True, w3)" "writer_at ps Ready w3 pgs3"
        "concat pgs3 = concat (pgs @ [[]]) @ [data]" "wr_spin w3 = wr_spin w2"
        "keeps_readers (wr_files w2) (pgs @ [[]]) (wr_files w3) pgs3" by blast
    ultimately show ?thesis using keeps_trans [OF keep w3(5)] w2(3) by auto
  qed
qed

section \<open>Opening a channel\<close>

lemma tail_num_fold:
  "a \<le> fold (\<lambda>(n, _) num. if n > num then n else num) files a \<and>
   (\<forall>n \<in> fst ` set files. n \<le> fold (\<lambda>(n, _) num. if n > num then n else num) files a) \<and>
   (fold (\<lambda>(n, _) num. if n > num then n else num) files (a :: int) \<in> insert a (fst ` set files))"
proof (induction files arbitrary: a)
  case (Cons e files)
  obtain n p where e: "e = (n, p)" by (cases e)
  show ?case using Cons.IH [of n] Cons.IH [of a] by (auto simp: e)
qed simp

lemma getTailNum_files:
  assumes ok: "files_ok ps files pgs"
  shows "CIOBase_getTailNum files =
    (if map_of files (int (length pgs)) = None then int (length pgs) - 1 else int (length pgs))"
proof -
  note D = files_okD [OF ok]
  let ?t = "CIOBase_getTailNum files"
  obtain m where m: "length pgs = Suc m" using D(3) by (cases pgs) auto
  have key: "n \<in> fst ` set files \<longleftrightarrow> map_of files n \<noteq> None" for n
    by (simp add: map_of_eq_None_iff)
  note T = tail_num_fold [where files = files and a = "-1", folded CIOBase_getTailNum_def]
  have t: "n \<le> ?t" if "map_of files n \<noteq> None" for n using T that key by blast
  have "?t = -1 \<or> map_of files ?t \<noteq> None" using T key by blast
  moreover have "int m \<le> ?t" using D(4) [of m] m by (intro t) auto
  ultimately have mem: "map_of files ?t \<noteq> None" by auto
  then have "?t \<le> int (length pgs)" using D(5) [of ?t] by fastforce
  with mem t [of "int (length pgs)"] \<open>int m \<le> ?t\<close> m show ?thesis
    by (cases "?t = int (length pgs)"; cases "map_of files (int (length pgs))") auto
qed

lemma writer_init_ok:
  assumes "PAGE_HEAD_SIZE \<le> ps" "ps < 2 ^ 31" "grants env"
  shows "\<exists>w. CRawIOWriter_init env nano (CRawIOWriter_new ps t []) = Inr (True, w) \<and>
    writer_at ps Ready w [[]] \<and> \<not> wr_spin w"
proof -
  let ?p = "empty_page\<lparr>pf_size := ps, pg_status := PAGE_STATUS_WRITTING, pg_size := ps,
    pg_tail := PAGE_HEAD_SIZE, pg_start_nano := nano, pg_stop_nano := -1, pg_version := PAGE_HEAD_VER_1\<rparr>"
  let ?w = "(CRawIOWriter_new ps t [])\<lparr>wr_files := [(0, ?p)], wr_fd := True, wr_buf := PtrTo 0,
    wr_page_num := 0\<rparr>"
  have "CRawIOWriter_init env nano (CRawIOWriter_new ps t []) = Inr (True, ?w)"
    using assms
    by (simp add: CRawIOWriter_init_def CRawIOWriter_new_def CIOBase_unload_def CIOBase_getTailNum_def
        CRawIOWriter_createNextPage_def CRawIOWriter_load_def grants_def um_touch_def empty_page_def
        fill_head_def upd_page_def PAGE_HEAD_SIZE_def)
  moreover have "open_at ps ?w [[]] ?p"
    by (simp add: open_at_def CRawIOWriter_new_def page_consts)
  moreover have "files_ok ps (wr_files ?w) [[]]"
    using assms(1,2) by (simp add: files_ok_def page_ok_def)
  ultimately show ?thesis
    by (intro exI [of _ ?w]) (auto simp: writer_at_def CRawIOWriter_new_def)
qed

definition view_of :: "'a \<Rightarrow> (int \<Rightarrow> bool) \<Rightarrow> 'a io_files \<Rightarrow> 'a io_view" where
  "view_of z opn files = \<lparr>vw_files = (\<lambda>_. files), vw_open = (\<lambda>_. opn), vw_zero = z\<rparr>"

lemma view_of_sel [simp]:
  "vw_files (view_of z opn files) s = files" "vw_open (view_of z opn files) s = opn"
  "vw_zero (view_of z opn files) = z"
  by (simp_all add: view_of_def)

text \<open>A reader that starts at the tail has passed everything sent before.\<close>

lemma attach_ok:
  assumes w: "writer_at ps ph w pgs"
  shows "\<exists>r. CRawIOReader_init (view_of z (\<lambda>_. True) (wr_files w)) path (-1) (-1) CRawIOReader_new =
      Inr (True, r) \<and> reader_at (wr_files w) pgs r (concat pgs)"
proof -
  note W = writer_atD [OF w] and D = files_okD [OF writer_atD(1) [OF w]]
  obtain m where m: "length pgs = Suc m" using D(3) by (cases pgs) auto
  let ?v = "view_of z (\<lambda>_. True) (wr_files w)"
  note T = getTailNum_files [OF W(1)]
  show ?thesis
  proof (cases "map_of (wr_files w) (int (length pgs))")
    case None
    from D(4) [of m] m obtain p where p: "map_of (wr_files w) (int m) = Some p" "page_ok ps p (pgs ! m)" by auto
    let ?r = "\<lparr>rd_prefix = path, rd_fd = True, rd_buf = PtrTo (int m), rd_cursor = pg_tail p,
      rd_page_num = int m\<rparr>"
    have "CRawIOReader_init ?v path (-1) (-1) CRawIOReader_new = Inr (True, ?r)"
      using T None m p D(1)
      by (simp add: CRawIOReader_init_def CRawIOReader_new_def rd_unload_def CRawIOReader_load_def
          page_ok_def CIOBase_checkPageHead_def CRawIOReader_seekTime.simps rd_tail_def rd_page_def Let_def)
    moreover have "reader_at (wr_files w) pgs ?r (concat pgs)"
    proof -
      have "concat pgs = concat (take m pgs) @ pgs ! m"
        using m by (metis append_Nil2 concat.simps concat_append lessI take_Suc_conv_app_nth take_all_iff order_refl)
      with p m show ?thesis unfolding reader_at_def
        by (intro exI [of _ m]) (auto simp: page_ok_def intro!: exI [of _ "pgs ! m"])
    qed
    ultimately show ?thesis by blast
  next
    case (Some q)
    then have q: "pg_version q \<noteq> PAGE_HEAD_VER_1" using D(5) [of "int (length pgs)" q] by auto
    have fin: "finished (wr_files w) (int (length pgs) - 1)"
      using W(4) Some by (cases ph) (auto simp: open_at_def)
    let ?start = "CRawIOReader_new\<lparr>rd_prefix := path, rd_page_num := int (length pgs)\<rparr>"
    let ?r = "snd (CRawIOReader_load ?v (int (length pgs)) ?start)"
    note L = load_page [of ps ?v ?start pgs "length pgs", OF _ _ _ order_refl]
    have "fst (CRawIOReader_load ?v (int (length pgs)) ?start) = False"
      by (rule arg_cong [where f = fst, OF L(1), THEN trans])
        (use W(1) fin in \<open>simp_all add: CRawIOReader_new_def\<close>)
    then obtain x where x: "CRawIOReader_load ?v (int (length pgs)) ?start = (False, x)" by (metis prod.collapse)
    then have "CRawIOReader_init ?v path (-1) (-1) CRawIOReader_new = Inr (True, x)"
      using T Some by (simp add: CRawIOReader_init_def CRawIOReader_new_def rd_unload_def Let_def)
    then have "CRawIOReader_init ?v path (-1) (-1) CRawIOReader_new = Inr (True, ?r)" by (simp only: x snd_conv)
    moreover have "reader_at (wr_files w) pgs ?r (concat pgs)"
      using L(2) W(1) fin by (simp add: CRawIOReader_new_def)
    ultimately show ?thesis by blast
  qed
qed

section \<open>Writer and reader together\<close>

record 'a io_world =
  iow_writer :: "'a io_writer"
  iow_phase :: phase
  iow_reader :: io_reader
  iow_seen :: "int option"
  iow_log :: "'a list"
  iow_skip :: nat
  iow_got :: "'a list"

text \<open>
  The steps. Reserving a frame, filling it, committing it, closing the page, mapping the next and
  filling its head are the parts \<^verbatim>\<open>prefetch\<close> and \<^verbatim>\<open>commit\<close> consist of; a read looks at the status and
  then reads on, and the system may refuse to open a page. \<open>iow_log\<close>, \<open>iow_skip\<close> and \<open>iow_got\<close> record
  what was committed, how much of it before the reader came, and what the reader got.
\<close>

datatype 'a io_event =
    Reserve int
  | FillIn "'a \<Rightarrow> 'a"
  | CommitFrame int
  | ClosePage int
  | MapPage
  | FillHead int
  | Attach string
  | LookStatus
  | ReadOn "int \<Rightarrow> bool"

fun chan_step :: "io_env \<Rightarrow> 'a \<Rightarrow> 'a io_event \<Rightarrow> 'a io_world \<Rightarrow> 'a io_world res" where
  "chan_step env z (Reserve len) s =
     Inr (s\<lparr>iow_writer := snd (reserve z len (iow_writer s)), iow_phase := Filling\<rparr>)"
| "chan_step env z (FillIn f) s =
     res_bind (wr_page (iow_writer s)) (\<lambda>p.
       Inr (s\<lparr>iow_writer := fill_frame z (pg_tail p) f (iow_writer s)\<rparr>))"
| "chan_step env z (CommitFrame nano) s =
     res_bind (CRawIOWriter_commit z nano (iow_writer s)) (\<lambda>w.
       Inr (s\<lparr>iow_writer := w, iow_phase := Ready, iow_log := iow_log s @ [frame_buf z (iow_writer s)]\<rparr>))"
| "chan_step env z (ClosePage nano) s =
     Inr (s\<lparr>iow_writer := close_page nano (iow_writer s), iow_phase := Closed\<rparr>)"
| "chan_step env z MapPage s =
     (case CRawIOWriter_load env (wr_page_num (iow_writer s) + 1) (iow_writer s) of (ok, w) \<Rightarrow>
        Inr (s\<lparr>iow_writer := w, iow_phase := (if ok then Mapped else Closed)\<rparr>))"
| "chan_step env z (FillHead nano) s =
     Inr (s\<lparr>iow_writer := fill_head nano (iow_writer s), iow_phase := Ready\<rparr>)"
| "chan_step env z (Attach path) s =
     res_bind (CRawIOReader_init (view_of z (\<lambda>_. True) (wr_files (iow_writer s))) path (-1) (-1) CRawIOReader_new)
       (\<lambda>(_, r). Inr (s\<lparr>iow_reader := r, iow_seen := None, iow_skip := length (iow_log s), iow_got := []\<rparr>))"
| "chan_step env z LookStatus s =
     Inr (s\<lparr>iow_seen := Some (seen_status (view_of z (\<lambda>_. True) (wr_files (iow_writer s))) (iow_reader s))\<rparr>)"
| "chan_step env z (ReadOn opn) s =
     (let v = view_of z opn (wr_files (iow_writer s));
          st = (case iow_seen s of None \<Rightarrow> seen_status v (iow_reader s) | Some st \<Rightarrow> st)
      in res_bind (read_seen v st (iow_reader s)) (\<lambda>(d, r).
           Inr (s\<lparr>iow_reader := r, iow_seen := None,
                  iow_got := iow_got s @ (case d of None \<Rightarrow> [] | Some (x, _) \<Rightarrow> [x])\<rparr>)))"

fun chan_legal :: "'a io_event \<Rightarrow> 'a io_world \<Rightarrow> bool" where
  "chan_legal (Reserve len) s \<longleftrightarrow>
     iow_phase s = Ready \<and> 0 \<le> len \<and>
     (case wr_page (iow_writer s) of
        Inl _ \<Rightarrow> False | Inr p \<Rightarrow> pg_tail p + FRAME_HEAD_SIZE + len \<le> wr_size (iow_writer s))"
| "chan_legal (FillIn f) s \<longleftrightarrow> iow_phase s = Filling"
| "chan_legal (CommitFrame nano) s \<longleftrightarrow> iow_phase s = Filling"
| "chan_legal (ClosePage nano) s \<longleftrightarrow> iow_phase s = Ready"
| "chan_legal MapPage s \<longleftrightarrow> iow_phase s = Closed"
| "chan_legal (FillHead nano) s \<longleftrightarrow> iow_phase s = Mapped"
| "chan_legal _ s \<longleftrightarrow> True"

definition chan_inv :: "int \<Rightarrow> 'a \<Rightarrow> 'a io_world \<Rightarrow> bool" where
  "chan_inv ps z s \<longleftrightarrow>
     (\<exists>pgs. writer_at ps (iow_phase s) (iow_writer s) pgs \<and> concat pgs = iow_log s \<and>
        iow_skip s \<le> length (iow_log s) \<and>
        reader_at (wr_files (iow_writer s)) pgs (iow_reader s) (take (iow_skip s) (iow_log s) @ iow_got s) \<and>
        (iow_seen s = Some PAGE_STATUS_FINISH \<longrightarrow> rd_fd (iow_reader s) \<longrightarrow>
           seen_status (view_of z (\<lambda>_. True) (wr_files (iow_writer s))) (iow_reader s) = PAGE_STATUS_FINISH))"

lemma seen_status_view:
  "seen_status (view_of z opn files) r = (case deref (map_of files) (rd_buf r) of Inl _ \<Rightarrow> 0 | Inr p \<Rightarrow> pg_status p)"
  by (simp add: seen_status_def rd_page_def)

lemma seen_grows:
  assumes g: "grows files pgs files1 pgs1" and r: "reader_at files pgs r xs" and ok: "files_ok ps files pgs"
    and s: "rd_fd r" "seen_status (view_of z opn files) r = PAGE_STATUS_FINISH"
  shows "seen_status (view_of z opn files1) r = PAGE_STATUS_FINISH"
proof -
  obtain k p where k: "rd_buf r = PtrTo (int k)" "k < length pgs" "map_of files (int k) = Some p"
    using r s(1) by (auto simp: reader_at_def)
  with s(2) have "pg_status p = PAGE_STATUS_FINISH" by (simp add: seen_status_view)
  with g k show ?thesis by (fastforce simp: grows_def seen_status_view)
qed

text \<open>What a step of the writer has to show.\<close>

lemma writer_step_inv:
  assumes s: "chan_inv ps z s"
    and step: "\<And>pgs. writer_at ps (iow_phase s) (iow_writer s) pgs \<Longrightarrow> concat pgs = iow_log s \<Longrightarrow>
      \<exists>w1 pgs1. s1 = s\<lparr>iow_writer := w1, iow_phase := nph, iow_log := iow_log s @ new\<rparr> \<and>
        writer_at ps nph w1 pgs1 \<and> grows (wr_files (iow_writer s)) pgs (wr_files w1) pgs1 \<and>
        concat pgs1 = concat pgs @ new"
  shows "chan_inv ps z s1"
proof -
  from s obtain pgs where pgs: "writer_at ps (iow_phase s) (iow_writer s) pgs" "concat pgs = iow_log s"
    "iow_skip s \<le> length (iow_log s)"
    "reader_at (wr_files (iow_writer s)) pgs (iow_reader s) (take (iow_skip s) (iow_log s) @ iow_got s)"
    "iow_seen s = Some PAGE_STATUS_FINISH \<longrightarrow> rd_fd (iow_reader s) \<longrightarrow>
      seen_status (view_of z (\<lambda>_. True) (wr_files (iow_writer s))) (iow_reader s) = PAGE_STATUS_FINISH"
    by (auto simp: chan_inv_def)
  from step [OF pgs(1,2)] obtain w1 pgs1 where w1:
    "s1 = s\<lparr>iow_writer := w1, iow_phase := nph, iow_log := iow_log s @ new\<rparr>"
    "writer_at ps nph w1 pgs1" "grows (wr_files (iow_writer s)) pgs (wr_files w1) pgs1"
    "concat pgs1 = concat pgs @ new" by blast
  note ok = writer_atD(1) [OF pgs(1)]
  note R = reader_grows [OF pgs(4) ok w1(3)]
  have "take (iow_skip s) (iow_log s @ new) = take (iow_skip s) (iow_log s)" using pgs(3) by simp
  with w1 R pgs(2,3,5) seen_grows [OF w1(3) pgs(4) ok, of z "\<lambda>_. True"] show ?thesis
    unfolding chan_inv_def by (intro exI [of _ pgs1]) auto
qed

lemma read_inv:
  assumes s: "chan_inv ps z s"
    and st: "st = seen_status (view_of z opn (wr_files (iow_writer s))) (iow_reader s) \<or> iow_seen s = Some st"
  shows "\<exists>d r. read_seen (view_of z opn (wr_files (iow_writer s))) st (iow_reader s) = Inr (d, r) \<and>
    chan_inv ps z (s\<lparr>iow_reader := r, iow_seen := None,
      iow_got := iow_got s @ (case d of None \<Rightarrow> [] | Some (x, _) \<Rightarrow> [x])\<rparr>) \<and>
    (d = None \<longrightarrow> st = seen_status (view_of z opn (wr_files (iow_writer s))) (iow_reader s) \<longrightarrow>
       (\<forall>n. opn n) \<longrightarrow> take (iow_skip s) (iow_log s) @ iow_got s = iow_log s)"
proof -
  from s obtain pgs where pgs: "writer_at ps (iow_phase s) (iow_writer s) pgs" "concat pgs = iow_log s"
    "iow_skip s \<le> length (iow_log s)"
    "reader_at (wr_files (iow_writer s)) pgs (iow_reader s) (take (iow_skip s) (iow_log s) @ iow_got s)"
    "iow_seen s = Some PAGE_STATUS_FINISH \<longrightarrow> rd_fd (iow_reader s) \<longrightarrow>
      seen_status (view_of z (\<lambda>_. True) (wr_files (iow_writer s))) (iow_reader s) = PAGE_STATUS_FINISH"
    by (auto simp: chan_inv_def)
  let ?v = "view_of z opn (wr_files (iow_writer s))" and ?xs = "take (iow_skip s) (iow_log s) @ iow_got s"
  have same: "seen_status ?v (iow_reader s) =
      seen_status (view_of z (\<lambda>_. True) (wr_files (iow_writer s))) (iow_reader s)"
    by (simp add: seen_status_view)
  have "\<exists>d r1. read_seen ?v st (iow_reader s) = Inr (d, r1) \<and> rd_prefix r1 = rd_prefix (iow_reader s) \<and>
      reader_at (vw_files ?v (rd_prefix (iow_reader s))) pgs r1
        (?xs @ (case d of None \<Rightarrow> [] | Some (x, _) \<Rightarrow> [x])) \<and>
      (d = None \<longrightarrow> (rd_fd (iow_reader s) \<longrightarrow> st = seen_status ?v (iow_reader s)) \<longrightarrow>
         (\<forall>n. vw_open ?v (rd_prefix (iow_reader s)) n) \<longrightarrow> ?xs = concat pgs)"
    by (rule read_seen_ok [where ps = ps])
      (use writer_atD(1) [OF pgs(1)] pgs(4,5) st same in auto)
  then obtain d r1 where d: "read_seen ?v st (iow_reader s) = Inr (d, r1)"
    "reader_at (wr_files (iow_writer s)) pgs r1 (?xs @ (case d of None \<Rightarrow> [] | Some (x, _) \<Rightarrow> [x]))"
    "d = None \<longrightarrow> (rd_fd (iow_reader s) \<longrightarrow> st = seen_status ?v (iow_reader s)) \<longrightarrow> (\<forall>n. opn n) \<longrightarrow>
      ?xs = iow_log s"
    unfolding view_of_sel pgs(2) by blast
  have "chan_inv ps z (s\<lparr>iow_reader := r1, iow_seen := None,
      iow_got := iow_got s @ (case d of None \<Rightarrow> [] | Some (x, _) \<Rightarrow> [x])\<rparr>)"
    unfolding chan_inv_def using pgs(1-3) d(2) by (intro exI [of _ pgs]) auto
  with d show ?thesis by blast
qed

lemma chan_step_inv:
  assumes s: "chan_inv ps z s" and e: "chan_legal e s" and env: "grants env"
  shows "\<exists>t. chan_step env z e s = Inr t \<and> chan_inv ps z t"
proof (cases e)
  case (Reserve len)
  have "chan_inv ps z (s\<lparr>iow_writer := snd (reserve z len (iow_writer s)), iow_phase := Filling\<rparr>)"
  proof (rule writer_step_inv [OF s, where nph = Filling and new = "[]"])
    fix pgs assume w: "writer_at ps (iow_phase s) (iow_writer s) pgs" "concat pgs = iow_log s"
    with e Reserve obtain p where p: "writer_at ps Ready (iow_writer s) pgs" "wr_page (iow_writer s) = Inr p"
      "0 \<le> len" "pg_tail p + FRAME_HEAD_SIZE + len \<le> wr_size (iow_writer s)"
      by (auto split: sum.splits)
    moreover have "wr_size (iow_writer s) = ps" using writer_atD(4) [OF p(1)] by (auto simp: open_at_def)
    ultimately show "\<exists>w1 pgs1. s\<lparr>iow_writer := snd (reserve z len (iow_writer s)), iow_phase := Filling\<rparr> =
          s\<lparr>iow_writer := w1, iow_phase := Filling, iow_log := iow_log s @ []\<rparr> \<and>
        writer_at ps Filling w1 pgs1 \<and> grows (wr_files (iow_writer s)) pgs (wr_files w1) pgs1 \<and>
        concat pgs1 = concat pgs @ []"
      using reserve_ok [OF p(1-3), of z] by force
  qed
  with Reserve show ?thesis by simp
next
  case (FillIn f)
  from s obtain pgs where w: "writer_at ps (iow_phase s) (iow_writer s) pgs" by (auto simp: chan_inv_def)
  with e FillIn have "writer_at ps Filling (iow_writer s) pgs" by simp
  then obtain p where p: "wr_page (iow_writer s) = Inr p"
    using writer_atD(4) [of ps Filling] open_page(1) by fastforce
  have "chan_inv ps z (s\<lparr>iow_writer := fill_frame z (pg_tail p) f (iow_writer s)\<rparr>)"
  proof (rule writer_step_inv [OF s, where nph = Filling and new = "[]"])
    fix pgs assume "writer_at ps (iow_phase s) (iow_writer s) pgs"
    with e FillIn have "writer_at ps Filling (iow_writer s) pgs" "iow_phase s = Filling" by simp_all
    then show "\<exists>w1 pgs1. s\<lparr>iow_writer := fill_frame z (pg_tail p) f (iow_writer s)\<rparr> =
          s\<lparr>iow_writer := w1, iow_phase := Filling, iow_log := iow_log s @ []\<rparr> \<and>
        writer_at ps Filling w1 pgs1 \<and> grows (wr_files (iow_writer s)) pgs (wr_files w1) pgs1 \<and>
        concat pgs1 = concat pgs @ []"
      using fill_ok(1,2) [OF _ p, of ps pgs z f] by (cases s) auto
  qed
  with FillIn p show ?thesis by simp
next
  case (CommitFrame nano)
  from s obtain pgs where "writer_at ps (iow_phase s) (iow_writer s) pgs" by (auto simp: chan_inv_def)
  with e CommitFrame have "writer_at ps Filling (iow_writer s) pgs" by simp
  from commit_ok [OF this, of z nano] obtain w1 where c: "CRawIOWriter_commit z nano (iow_writer s) = Inr w1" by blast
  have "chan_inv ps z (s\<lparr>iow_writer := w1, iow_phase := Ready,
      iow_log := iow_log s @ [frame_buf z (iow_writer s)]\<rparr>)"
  proof (rule writer_step_inv [OF s, where nph = Ready and new = "[frame_buf z (iow_writer s)]"])
    fix pgs assume "writer_at ps (iow_phase s) (iow_writer s) pgs"
    with e CommitFrame have "writer_at ps Filling (iow_writer s) pgs" by simp
    from commit_ok [OF this, of z nano] c
    show "\<exists>w2 pgs1. s\<lparr>iow_writer := w1, iow_phase := Ready,
          iow_log := iow_log s @ [frame_buf z (iow_writer s)]\<rparr> =
          s\<lparr>iow_writer := w2, iow_phase := Ready, iow_log := iow_log s @ [frame_buf z (iow_writer s)]\<rparr> \<and>
        writer_at ps Ready w2 pgs1 \<and> grows (wr_files (iow_writer s)) pgs (wr_files w2) pgs1 \<and>
        concat pgs1 = concat pgs @ [frame_buf z (iow_writer s)]"
      by auto
  qed
  with CommitFrame c show ?thesis by simp
next
  case (ClosePage nano)
  have "chan_inv ps z (s\<lparr>iow_writer := close_page nano (iow_writer s), iow_phase := Closed\<rparr>)"
  proof (rule writer_step_inv [OF s, where nph = Closed and new = "[]"])
    fix pgs assume "writer_at ps (iow_phase s) (iow_writer s) pgs"
    with e ClosePage have "writer_at ps Ready (iow_writer s) pgs" by simp
    from close_ok(1,2) [OF this, of nano]
    show "\<exists>w1 pgs1. s\<lparr>iow_writer := close_page nano (iow_writer s), iow_phase := Closed\<rparr> =
          s\<lparr>iow_writer := w1, iow_phase := Closed, iow_log := iow_log s @ []\<rparr> \<and>
        writer_at ps Closed w1 pgs1 \<and> grows (wr_files (iow_writer s)) pgs (wr_files w1) pgs1 \<and>
        concat pgs1 = concat pgs @ []"
      by (cases s) auto
  qed
  with ClosePage show ?thesis by simp
next
  case MapPage
  from s obtain pgs where "writer_at ps (iow_phase s) (iow_writer s) pgs" by (auto simp: chan_inv_def)
  with e MapPage have "writer_at ps Closed (iow_writer s) pgs" by simp
  from map_ok [OF this env] obtain w1 where
    c: "CRawIOWriter_load env (wr_page_num (iow_writer s) + 1) (iow_writer s) = (True, w1)" by blast
  have "chan_inv ps z (s\<lparr>iow_writer := w1, iow_phase := Mapped\<rparr>)"
  proof (rule writer_step_inv [OF s, where nph = Mapped and new = "[]"])
    fix pgs assume "writer_at ps (iow_phase s) (iow_writer s) pgs"
    with e MapPage have "writer_at ps Closed (iow_writer s) pgs" by simp
    from map_ok [OF this env] c
    show "\<exists>w2 pgs1. s\<lparr>iow_writer := w1, iow_phase := Mapped\<rparr> =
          s\<lparr>iow_writer := w2, iow_phase := Mapped, iow_log := iow_log s @ []\<rparr> \<and>
        writer_at ps Mapped w2 pgs1 \<and> grows (wr_files (iow_writer s)) pgs (wr_files w2) pgs1 \<and>
        concat pgs1 = concat pgs @ []"
      by (cases s) auto
  qed
  with MapPage c show ?thesis by simp
next
  case (FillHead nano)
  have "chan_inv ps z (s\<lparr>iow_writer := fill_head nano (iow_writer s), iow_phase := Ready\<rparr>)"
  proof (rule writer_step_inv [OF s, where nph = Ready and new = "[]"])
    fix pgs assume "writer_at ps (iow_phase s) (iow_writer s) pgs"
    with e FillHead have "writer_at ps Mapped (iow_writer s) pgs" by simp
    from head_ok(1,2) [OF this, of nano]
    show "\<exists>w1 pgs1. s\<lparr>iow_writer := fill_head nano (iow_writer s), iow_phase := Ready\<rparr> =
          s\<lparr>iow_writer := w1, iow_phase := Ready, iow_log := iow_log s @ []\<rparr> \<and>
        writer_at ps Ready w1 pgs1 \<and> grows (wr_files (iow_writer s)) pgs (wr_files w1) pgs1 \<and>
        concat pgs1 = concat pgs @ []"
      by (intro exI [of _ "fill_head nano (iow_writer s)"] exI [of _ "pgs @ [[]]"]) (cases s, auto)
  qed
  with FillHead show ?thesis by simp
next
  case (Attach path)
  from s obtain pgs where pgs: "writer_at ps (iow_phase s) (iow_writer s) pgs" "concat pgs = iow_log s"
    by (auto simp: chan_inv_def)
  from attach_ok [OF pgs(1), of z path] pgs Attach show ?thesis by (auto simp: chan_inv_def)
next
  case LookStatus
  with s show ?thesis by (auto simp: chan_inv_def)
next
  case (ReadOn opn)
  with read_inv [OF s, of "case iow_seen s of
        None \<Rightarrow> seen_status (view_of z opn (wr_files (iow_writer s))) (iow_reader s) | Some st \<Rightarrow> st" opn]
  show ?thesis by (auto simp: Let_def split: option.splits)
qed

interpretation channel: guarded_machine "chan_step env z" chan_legal "\<lambda>s. grants env \<and> chan_inv ps z s"
  for env z ps
proof
  fix s :: "'a io_world" and e
  assume "grants env \<and> chan_inv ps z s" "chan_legal e s"
  then show "\<exists>t. chan_step env z e s = Inr t \<and> grants env \<and> chan_inv ps z t"
    using chan_step_inv [of ps z s e env] by blast
qed

text \<open>A new writer, and a reader of nothing yet.\<close>

definition chan_start :: "io_env \<Rightarrow> int \<Rightarrow> int \<Rightarrow> 'a \<Rightarrow> 'a io_world res" where
  "chan_start env ps nano z =
     res_bind (CRawIOWriter_init env nano (CRawIOWriter_new ps True [])) (\<lambda>(_, w).
       Inr \<lparr>iow_writer = w, iow_phase = Ready, iow_reader = CRawIOReader_new\<lparr>rd_page_num := 0\<rparr>,
            iow_seen = None, iow_log = [], iow_skip = 0, iow_got = []\<rparr>)"

lemma chan_start_inv:
  assumes "PAGE_HEAD_SIZE \<le> ps" "ps < 2 ^ 31" "grants env"
  shows "\<exists>s. chan_start env ps nano z = Inr s \<and> chan_inv ps z s"
proof -
  from writer_init_ok [OF assms, of nano True] obtain w :: "'a io_writer" where
    w: "CRawIOWriter_init env nano (CRawIOWriter_new ps True []) = Inr (True, w)" "writer_at ps Ready w [[]]"
    by auto
  have "reader_at (wr_files w) [[]] (CRawIOReader_new\<lparr>rd_page_num := 0\<rparr>) []"
    by (simp add: reader_at_def CRawIOReader_new_def)
  with w(2) have "chan_inv ps z \<lparr>iow_writer = w, iow_phase = Ready,
      iow_reader = CRawIOReader_new\<lparr>rd_page_num := 0\<rparr>, iow_seen = None, iow_log = [], iow_skip = 0, iow_got = []\<rparr>"
    unfolding chan_inv_def by (intro exI [of _ "[[]]"]) simp
  with w(1) show ?thesis by (simp add: chan_start_def)
qed

section \<open>Pools of readers\<close>

text \<open>A current frame is what the next \<^verbatim>\<open>read\<close> returns.\<close>

lemma getCur_read:
  "CRawIOReader_getCurFrame v r = Inr (Some f, r1) \<Longrightarrow>
   CRawIOReader_read v r1 =
     Inr (Some (fr_data f, fr_len f), r1\<lparr>rd_cursor := rd_cursor r1 + FRAME_HEAD_SIZE + fr_len f\<rparr>)"
proof (induction v r rule: CRawIOReader_getCurFrame.induct)
  case (1 v r)
  note sim = CRawIOReader_getCurFrame.simps [of v r]
  show ?case
  proof (cases "rd_fd r")
    case True
    obtain p where p: "rd_page v r = Inr p"
      using "1.prems" True unfolding sim by (cases "rd_page v r") auto
    show ?thesis
    proof (cases "rd_cursor r < pg_tail p")
      case lt: True
      let ?f = "frame_at (vw_zero v) p (rd_cursor r)"
      have "CIOBase_checkFrameValid ?f" "r1 = r" "f = ?f"
        using "1.prems" True p lt unfolding sim by (auto simp: Let_def split: if_splits)
      with True p lt show ?thesis
        unfolding CRawIOReader_read_def read_seen.simps [of v _ r1] by (simp add: Let_def)
    next
      case False
      then have fin: "pg_status p = PAGE_STATUS_FINISH"
        using "1.prems" True p unfolding sim by (auto split: if_splits)
      obtain r2 where np: "next_page v r = (True, r2)" "CRawIOReader_getCurFrame v r2 = Inr (Some f, r1)"
        using "1.prems" True p False fin unfolding sim by (auto split: prod.splits bool.splits)
      show ?thesis by (rule "1.IH"(1) [OF True p False fin np(1) [symmetric] refl np(2)])
    qed
  next
    case False
    obtain r2 where ld: "CRawIOReader_load v (rd_page_num r) r = (True, r2)"
      "CRawIOReader_getCurFrame v r2 = Inr (Some f, r1)"
      using "1.prems" False unfolding sim by (auto split: prod.splits bool.splits)
    show ?thesis by (rule "1.IH"(2) [OF False ld(1) [symmetric] refl ld(2)])
  qed
qed

lemma oldest_ok:
  assumes "oldest v i (cur, m) pool = Inr ((c, t), pool1)"
    and "\<forall>e \<in> set pool. \<forall>f r. CRawIOReader_getCurFrame v (fst e) = Inr (Some f, r) \<longrightarrow> 0 \<le> fr_nano f"
    and "(cur = None) = (m < 0)"
  shows "(c = None) = (t < 0) \<and> length pool1 = length pool \<and>
    (\<forall>j < length pool. \<exists>d r. CRawIOReader_getCurFrame v (fst (pool ! j)) = Inr (d, r) \<and>
       pool1 ! j = (r, snd (pool ! j)) \<and> (\<forall>f. d = Some f \<longrightarrow> 0 \<le> t \<and> t \<le> fr_nano f)) \<and>
    (m \<ge> 0 \<longrightarrow> 0 \<le> t \<and> t \<le> m) \<and>
    (c = cur \<and> t = m \<or>
     (\<exists>j f r. j < length pool \<and> c = Some (i + j) \<and>
        CRawIOReader_getCurFrame v (fst (pool ! j)) = Inr (Some f, r) \<and> t = fr_nano f))"
  using assms
proof (induction pool arbitrary: i cur m pool1)
  case (Cons e pool)
  obtain r h where e: "e = (r, h)" by (cases e)
  from Cons.prems(1) obtain d r1 pool2 where d: "CRawIOReader_getCurFrame v r = Inr (d, r1)"
    and rest: "oldest v (Suc i)
      (case d of Some f \<Rightarrow> if m < 0 \<or> m > fr_nano f then (Some i, fr_nano f) else (cur, m) | None \<Rightarrow> (cur, m)) pool
      = Inr ((c, t), pool2)"
    and pool1: "pool1 = (r1, h) # pool2"
    by (auto simp: e res_bind_Inr_iff)
  define cm where "cm = (case d of Some f \<Rightarrow> if m < 0 \<or> m > fr_nano f then (Some i, fr_nano f) else (cur, m)
    | None \<Rightarrow> (cur, m))"
  have nn: "0 \<le> fr_nano f" if "d = Some f" for f using Cons.prems(2) d that e by simp
  have cm: "(fst cm = None) = (snd cm < 0)" "m \<ge> 0 \<Longrightarrow> 0 \<le> snd cm \<and> snd cm \<le> m"
    "\<And>f. d = Some f \<Longrightarrow> 0 \<le> snd cm \<and> snd cm \<le> fr_nano f"
    "cm = (cur, m) \<or> (\<exists>f. d = Some f \<and> cm = (Some i, fr_nano f))"
    using nn Cons.prems(3) by (auto simp: cm_def split: option.splits)
  have "oldest v (Suc i) (fst cm, snd cm) pool = Inr ((c, t), pool2)" using rest by (simp add: cm_def)
  note X = Cons.IH [OF this _ cm(1)]
  have "\<forall>e \<in> set pool. \<forall>f r. CRawIOReader_getCurFrame v (fst e) = Inr (Some f, r) \<longrightarrow> 0 \<le> fr_nano f"
    using Cons.prems(2) by simp
  note X = X [OF this]
  have IH: "(c = None) = (t < 0)" "length pool2 = length pool"
    "\<forall>j < length pool. \<exists>d r. CRawIOReader_getCurFrame v (fst (pool ! j)) = Inr (d, r) \<and>
       pool2 ! j = (r, snd (pool ! j)) \<and> (\<forall>f. d = Some f \<longrightarrow> 0 \<le> t \<and> t \<le> fr_nano f)"
    "snd cm \<ge> 0 \<longrightarrow> 0 \<le> t \<and> t \<le> snd cm"
    "c = fst cm \<and> t = snd cm \<or>
     (\<exists>j f r. j < length pool \<and> c = Some (Suc i + j) \<and>
        CRawIOReader_getCurFrame v (fst (pool ! j)) = Inr (Some f, r) \<and> t = fr_nano f)"
    using X by blast+
  have all: "\<exists>d r. CRawIOReader_getCurFrame v (fst ((e # pool) ! j)) = Inr (d, r) \<and>
      pool1 ! j = (r, snd ((e # pool) ! j)) \<and> (\<forall>f. d = Some f \<longrightarrow> 0 \<le> t \<and> t \<le> fr_nano f)"
    if "j < length (e # pool)" for j
  proof (cases j)
    case 0
    have "0 \<le> t \<and> t \<le> fr_nano f" if "d = Some f" for f
      using cm(3) [OF that] IH(4) by auto
    with 0 d e pool1 show ?thesis by auto
  next
    case (Suc k) with that IH(3) pool1 show ?thesis by simp
  qed
  have best: "c = cur \<and> t = m \<or>
     (\<exists>j f r. j < length (e # pool) \<and> c = Some (i + j) \<and>
        CRawIOReader_getCurFrame v (fst ((e # pool) ! j)) = Inr (Some f, r) \<and> t = fr_nano f)"
    using IH(5)
  proof
    assume "c = fst cm \<and> t = snd cm"
    with cm(4) d e show ?thesis by (elim disjE exE) (auto intro!: exI [of _ 0])
  next
    assume "\<exists>j f r. j < length pool \<and> c = Some (Suc i + j) \<and>
        CRawIOReader_getCurFrame v (fst (pool ! j)) = Inr (Some f, r) \<and> t = fr_nano f"
    then obtain j f r where "j < length pool" "c = Some (Suc i + j)"
      "CRawIOReader_getCurFrame v (fst (pool ! j)) = Inr (Some f, r)" "t = fr_nano f" by blast
    then show ?thesis by (intro disjI2 exI [of _ "Suc j"] exI [of _ f] exI [of _ r]) simp
  qed
  have "m \<ge> 0 \<longrightarrow> 0 \<le> t \<and> t \<le> m" using cm(2) IH(4) by auto
  with IH(1,2) all best pool1 show ?case by simp
qed simp

end
