(* ===== verification/Io_Properties.thy ===== *)
theory Io_Properties
  imports Io_Channel
begin

text \<open>
  What the channels promise to the processes: a channel is a queue, \<^verbatim>\<open>write\<close> is \<^verbatim>\<open>prefetch\<close> and
  \<^verbatim>\<open>commit\<close>, and a pool of readers merges its channels by time.
\<close>

section \<open>Examples\<close>

definition all_granted :: io_env where
  "all_granted = \<lparr>ie_open = (\<lambda>_. True), ie_lock = (\<lambda>_. True), ie_map = (\<lambda>_. True)\<rparr>"

lemma all_granted: "grants all_granted"
  by (simp add: grants_def all_granted_def)

text \<open>
  Pages with room for two frames; the third frame goes to a second page, a reader that came after
  the first frame looks at the status before the switch and reads on after it.
\<close>

definition if_traffic :: "nat io_event list" where
  "if_traffic =
     [Reserve 4, FillIn (\<lambda>_. 7), CommitFrame 100, Attach ''td'', Reserve 4, FillIn (\<lambda>_. 8),
      LookStatus, CommitFrame 101, ReadOn (\<lambda>_. True), LookStatus, ClosePage 102, MapPage,
      ReadOn (\<lambda>_. True), ReadOn (\<lambda>_. True), FillHead 103, Reserve 4, FillIn (\<lambda>_. 9), CommitFrame 104]"

definition if_channel :: "nat io_world" where
  "if_channel = (case chan_start all_granted 100 1 0 of Inr s \<Rightarrow> s)"

lemma if_channel: "chan_start all_granted 100 1 0 = Inr if_channel"
  using chan_start_inv [OF _ _ all_granted, of 100 1 "0::nat"] by (auto simp: if_channel_def PAGE_HEAD_SIZE_def)

lemma if_traffic_legal: "legal_run (chan_step all_granted 0) chan_legal if_traffic if_channel"
  unfolding if_traffic_def if_channel_def by code_simp

section \<open>The next frame\<close>

lemma chan_split: "chan_inv ps z s \<Longrightarrow> \<exists>rest. drop (iow_skip s) (iow_log s) = iow_got s @ rest"
proof -
  assume "chan_inv ps z s"
  then obtain ys where "iow_log s = take (iow_skip s) (iow_log s) @ iow_got s @ ys"
    unfolding chan_inv_def using reader_at_prefix by (metis append.assoc)
  then show ?thesis by (metis append_take_drop_id same_append_eq)
qed

lemma next_frame:
  assumes s: "chan_inv ps z s" and rest: "drop (iow_skip s) (iow_log s) = iow_got s @ rest"
  shows "\<exists>d r. CRawIOReader_read (view_of z (\<lambda>_. True) (wr_files (iow_writer s))) (iow_reader s) = Inr (d, r) \<and>
    chan_inv ps z (s\<lparr>iow_reader := r, iow_seen := None,
      iow_got := iow_got s @ (case d of None \<Rightarrow> [] | Some (x, _) \<Rightarrow> [x])\<rparr>) \<and>
    map_option fst d = (case rest of [] \<Rightarrow> None | x # _ \<Rightarrow> Some x)"
proof -
  let ?v = "view_of z (\<lambda>_. True) (wr_files (iow_writer s))"
  from read_inv [OF s disjI1 [OF refl], of "\<lambda>_. True"] obtain d r where
    d: "CRawIOReader_read ?v (iow_reader s) = Inr (d, r)"
      "chan_inv ps z (s\<lparr>iow_reader := r, iow_seen := None,
         iow_got := iow_got s @ (case d of None \<Rightarrow> [] | Some (x, _) \<Rightarrow> [x])\<rparr>)"
      "d = None \<Longrightarrow> take (iow_skip s) (iow_log s) @ iow_got s = iow_log s"
    unfolding CRawIOReader_read_def by blast
  have "map_option fst d = (case rest of [] \<Rightarrow> None | x # _ \<Rightarrow> Some x)"
  proof (cases d)
    case None
    with d(3) have "drop (iow_skip s) (iow_log s) = iow_got s"
      by (metis append_take_drop_id same_append_eq)
    with rest None show ?thesis by simp
  next
    case (Some y)
    obtain x len where y: "y = (x, len)" by (cases y)
    from chan_split [OF d(2)] Some y rest obtain rest1 where "iow_got s @ rest = iow_got s @ x # rest1" by auto
    with Some y show ?thesis by simp
  qed
  with d show ?thesis by blast
qed

section \<open>Properties\<close>

text \<open>
  C25. A channel of pages is a queue. Whatever the order of the steps of its writer and of a reader
  (frames half filled, pages closed and not yet replaced, statuses read before a page switch and
  used after it, pages the system refuses to open), no step faults, what the reader got is the
  beginning of what was committed since it came, and its next \<^verbatim>\<open>read\<close> returns the next frame, and
  nothing only when there is none.
\<close>

theorem channel_is_fifo:
  assumes "PAGE_HEAD_SIZE \<le> ps" "ps < 2 ^ 31" "grants env" "chan_start env ps nano z = Inr s0"
    and "legal_run (chan_step env z) chan_legal es s0"
  shows "\<exists>s rest. run_steps (chan_step env z) es s0 = Inr s \<and>
    drop (iow_skip s) (iow_log s) = iow_got s @ rest \<and>
    (\<exists>d r. CRawIOReader_read (view_of z (\<lambda>_. True) (wr_files (iow_writer s))) (iow_reader s) = Inr (d, r) \<and>
       map_option fst d = (case rest of [] \<Rightarrow> None | x # _ \<Rightarrow> Some x))"
proof -
  have "grants env \<and> chan_inv ps z s0" using chan_start_inv [OF assms(1-3), of nano z] assms(3,4) by auto
  from channel.run_inv [OF this assms(5)] obtain s where
    s: "run_steps (chan_step env z) es s0 = Inr s" "chan_inv ps z s" by blast
  obtain rest where rest: "drop (iow_skip s) (iow_log s) = iow_got s @ rest" using chan_split [OF s(2)] by blast
  from next_frame [OF s(2) rest] s(1) rest show ?thesis by blast
qed

theorem channel_is_fifo_witness:
  "\<exists>s rest. run_steps (chan_step all_granted 0) if_traffic if_channel = Inr s \<and>
    drop (iow_skip s) (iow_log s) = iow_got s @ rest \<and>
    (\<exists>d r. CRawIOReader_read (view_of 0 (\<lambda>_. True) (wr_files (iow_writer s))) (iow_reader s) = Inr (d, r) \<and>
       map_option fst d = (case rest of [] \<Rightarrow> None | x # _ \<Rightarrow> Some x))"
  by (rule channel_is_fifo [OF _ _ all_granted if_channel if_traffic_legal])
    (simp_all add: PAGE_HEAD_SIZE_def)

text \<open>
  C33. \<^verbatim>\<open>CReaderPool::seqRead\<close> merges its channels by time: the frame it returns is the current frame
  of one of its readers and no other reader's current frame is older; only that reader moves on,
  and nothing is returned only when no reader has a frame.
\<close>

theorem pool_merges_by_time:
  assumes "CReaderPool_seqRead v pool = Inr (d, pool1)"
    and "\<forall>e \<in> set pool. \<forall>f r. CRawIOReader_getCurFrame v (fst e) = Inr (Some f, r) \<longrightarrow> 0 \<le> fr_nano f"
  shows "length pool1 = length pool \<and>
    (case d of
       None \<Rightarrow> \<forall>j < length pool. \<exists>r. CRawIOReader_getCurFrame v (fst (pool ! j)) = Inr (None, r) \<and>
         pool1 ! j = (r, snd (pool ! j))
     | Some (x, h) \<Rightarrow>
         \<exists>i f r. i < length pool \<and> h = snd (pool ! i) \<and> x = fr_data f \<and>
           CRawIOReader_getCurFrame v (fst (pool ! i)) = Inr (Some f, r) \<and>
           pool1 ! i = (r\<lparr>rd_cursor := rd_cursor r + FRAME_HEAD_SIZE + fr_len f\<rparr>, h) \<and>
           (\<forall>j < length pool. \<exists>g r1. CRawIOReader_getCurFrame v (fst (pool ! j)) = Inr (g, r1) \<and>
              (j \<noteq> i \<longrightarrow> pool1 ! j = (r1, snd (pool ! j))) \<and>
              (\<forall>f1. g = Some f1 \<longrightarrow> fr_nano f \<le> fr_nano f1)))"
proof -
  from assms(1) obtain c t pool2 where o: "oldest v 0 (None, -1) pool = Inr ((c, t), pool2)"
    by (auto simp: CReaderPool_seqRead_def res_bind_Inr_iff)
  have O: "(c = None) = (t < 0)" "length pool2 = length pool"
    "\<forall>j < length pool. \<exists>d r. CRawIOReader_getCurFrame v (fst (pool ! j)) = Inr (d, r) \<and>
       pool2 ! j = (r, snd (pool ! j)) \<and> (\<forall>f. d = Some f \<longrightarrow> 0 \<le> t \<and> t \<le> fr_nano f)"
    "c = None \<and> t = -1 \<or> (\<exists>j f r. j < length pool \<and> c = Some (0 + j) \<and>
       CRawIOReader_getCurFrame v (fst (pool ! j)) = Inr (Some f, r) \<and> t = fr_nano f)"
    using oldest_ok [OF o assms(2)] by auto
  show ?thesis
  proof (cases c)
    case None
    with assms(1) o have "d = None" "pool1 = pool2" by (simp_all add: CReaderPool_seqRead_def)
    moreover have "\<exists>r. CRawIOReader_getCurFrame v (fst (pool ! j)) = Inr (None, r) \<and>
        pool2 ! j = (r, snd (pool ! j))" if "j < length pool" for j
    proof -
      from O(3) that obtain d r where d: "CRawIOReader_getCurFrame v (fst (pool ! j)) = Inr (d, r)"
        "pool2 ! j = (r, snd (pool ! j))" "\<forall>f. d = Some f \<longrightarrow> 0 \<le> t" by blast
      with O(1) None have "d = None" by (cases d) auto
      with d show ?thesis by simp
    qed
    ultimately show ?thesis using O(2) by simp
  next
    case (Some i)
    with O(4) obtain f r where i: "i < length pool"
      "CRawIOReader_getCurFrame v (fst (pool ! i)) = Inr (Some f, r)" "t = fr_nano f" by auto
    with O(3) have p2: "pool2 ! i = (r, snd (pool ! i))" by fastforce
    have d: "d = Some (fr_data f, snd (pool ! i))"
      "pool1 = pool2[i := (r\<lparr>rd_cursor := rd_cursor r + FRAME_HEAD_SIZE + fr_len f\<rparr>, snd (pool ! i))]"
      using assms(1) o Some p2 getCur_read [OF i(2)] by (auto simp: CReaderPool_seqRead_def)
    have "\<exists>g r1. CRawIOReader_getCurFrame v (fst (pool ! j)) = Inr (g, r1) \<and>
        (j \<noteq> i \<longrightarrow> pool1 ! j = (r1, snd (pool ! j))) \<and> (\<forall>f1. g = Some f1 \<longrightarrow> fr_nano f \<le> fr_nano f1)"
      if "j < length pool" for j
    proof -
      from O(3) that obtain g r1 where "CRawIOReader_getCurFrame v (fst (pool ! j)) = Inr (g, r1)"
        "pool2 ! j = (r1, snd (pool ! j))" "\<forall>f1. g = Some f1 \<longrightarrow> t \<le> fr_nano f1" by blast
      then show ?thesis using i(3) O(2) that d(2) by (intro exI [of _ g] exI [of _ r1]) simp
    qed
    with d i O(2) show ?thesis by (auto intro!: exI [of _ i] exI [of _ f] exI [of _ r])
  qed
qed

text \<open>Two channels with a frame each; the later channel's frame is older.\<close>

definition if_page :: "int \<Rightarrow> nat \<Rightarrow> nat io_page" where
  "if_page nano x =
     empty_page\<lparr>pf_size := 100, pg_version := PAGE_HEAD_VER_1, pg_size := 100, pg_tail := 69,
       pg_last_nano := nano,
       pg_mem := [(45, \<lparr>fr_magic = FRAME_HEAD_MAGIC, fr_len = 4, fr_nano = nano, fr_data = x\<rparr>)]\<rparr>"

definition if_view :: "nat io_view" where
  "if_view = \<lparr>vw_files = (\<lambda>s. if s = ''a'' then [(0, if_page 20 1)] else [(0, if_page 10 2)]),
     vw_open = (\<lambda>_ _. True), vw_zero = 0\<rparr>"

definition if_pool :: reader_pool where
  "if_pool =
     [(CRawIOReader_new\<lparr>rd_prefix := ''a'', rd_page_num := 0\<rparr>, 1),
      (CRawIOReader_new\<lparr>rd_prefix := ''b'', rd_page_num := 0\<rparr>, 2)]"

definition if_pool_after :: reader_pool where
  "if_pool_after =
     [(\<lparr>rd_prefix = ''a'', rd_fd = True, rd_buf = PtrTo 0, rd_cursor = 45, rd_page_num = 0\<rparr>, 1),
      (\<lparr>rd_prefix = ''b'', rd_fd = True, rd_buf = PtrTo 0, rd_cursor = 69, rd_page_num = 0\<rparr>, 2)]"

lemma if_pool_read: "CReaderPool_seqRead if_view if_pool = Inr (Some (2, 2), if_pool_after)"
  by code_simp

lemma if_pool_times:
  "\<forall>e \<in> set if_pool. \<forall>f r. CRawIOReader_getCurFrame if_view (fst e) = Inr (Some f, r) \<longrightarrow> 0 \<le> fr_nano f"
proof -
  have "\<forall>e \<in> set if_pool. (case CRawIOReader_getCurFrame if_view (fst e) of
      Inr (Some f, r) \<Rightarrow> 0 \<le> fr_nano f | _ \<Rightarrow> True)" by code_simp
  then show ?thesis by fastforce
qed

theorem pool_merges_by_time_witness:
  "\<exists>i f r. i < length if_pool \<and> 2 = snd (if_pool ! i) \<and> 2 = fr_data f \<and>
     CRawIOReader_getCurFrame if_view (fst (if_pool ! i)) = Inr (Some f, r) \<and>
     if_pool_after ! i = (r\<lparr>rd_cursor := rd_cursor r + FRAME_HEAD_SIZE + fr_len f\<rparr>, 2) \<and>
     (\<forall>j < length if_pool. \<exists>g r1. CRawIOReader_getCurFrame if_view (fst (if_pool ! j)) = Inr (g, r1) \<and>
        (j \<noteq> i \<longrightarrow> if_pool_after ! j = (r1, snd (if_pool ! j))) \<and>
        (\<forall>f1. g = Some f1 \<longrightarrow> fr_nano f \<le> fr_nano f1))"
  using conjunct2 [OF pool_merges_by_time [OF if_pool_read if_pool_times]]
  unfolding option.case prod.case .

end
