(* ===== verification/Td_Engine.thy ===== *)
theory Td_Engine
  imports Risk Td_Helper Io_Channel
begin

text \<open>
  \<^verbatim>\<open>td/ITDEngine\<close>, the process of the accounts at a broker: it takes the orders of its clients from
  their channels, checks them against the top-level risk control of the account, tracks every order
  under the number it sends it with, and forwards the reports of the broker to the client an order
  came from. The broker's interface is a derived class; its operations are arguments here and
  definitions of \<open>Td_Ctp\<close>.
\<close>

section \<open>Messages\<close>

record input_order =
  in_extra_nano :: int
  in_from :: int
  in_local_id :: int
  in_acc_idx :: int
  in_instr_hash :: u32
  in_instr :: string
  in_price :: double
  in_vol :: int
  in_dir :: int
  in_off :: int
  in_stg_id :: int

record order_action =
  oa_from :: int
  oa_local_id :: int
  oa_acc_idx :: int
  oa_order_ref :: int
  oa_front_id :: int
  oa_session_id :: int
  oa_instr_hash :: u32
  oa_instr :: string

text \<open>\<^verbatim>\<open>tIOOrderRtn\<close>, 192 bytes: 4 for each of its own fields and 184 for the message with its padding.\<close>

record io_order_rtn =
  or_cmd :: int
  or_to :: int
  or_rtn_msg :: rtn_msg

definition RTN_SIZE :: int where "RTN_SIZE = 192"

definition IO_ORDER_RTN :: int where "IO_ORDER_RTN = 6"
definition IO_TD_START :: int where "IO_TD_START = 7"

definition zero_rtn :: io_order_rtn where
  "zero_rtn = \<lparr>or_cmd = 0, or_to = 0, or_rtn_msg = rtn_msg_init\<rparr>"

text \<open>
  What arrives: orders and cancels on the channels of the clients, commands on that of the system
  (with the fields \<^verbatim>\<open>to\<close>, \<^verbatim>\<open>source\<close> and \<^verbatim>\<open>back_word\<close> of \<^verbatim>\<open>tSysIOHead\<close>).
\<close>

datatype td_command =
    AddClient string
  | RemoveClient
  | Quit
  | ReqBaseInfo
  | ReqOrderTrack
  | AddExecOrder u32 int int double int int
  | OtherCommand

datatype td_frame =
    OrderFrame input_order
  | ActionFrame order_action
  | SysFrame int int int td_command
  | OtherFrame

datatype td_sys_out =
    AckAddClient int int int
  | RspBaseInfo "sys_io_head \<times> td_base_info"
  | RspOrderTrack int int int int "order_track list"

section \<open>State\<close>

definition MMAP_ORDER_TRACK_SIZE :: int where
  "MMAP_ORDER_TRACK_SIZE = 256 * 1024"

text \<open>
  \<^verbatim>\<open>CIDQueue\<close> with \<open>N = 4\<close>: a ring of the last four numbers, in memory whose initial content the
  code does not read.
\<close>

record id_queue =
  iq_front :: int
  iq_id :: "int list"

definition id_queue_init :: id_queue where
  "id_queue_init = \<lparr>iq_front = 0, iq_id = [0, 0, 0, 0]\<rparr>"

definition CIDQueue_test :: "int \<Rightarrow> id_queue \<Rightarrow> bool \<times> id_queue" where
  "CIDQueue_test m q =
     (let s = (if iq_front q < 4 then iq_front q else 4) in
      if m \<in> set (take (nat s) (iq_id q)) then (True, q)
      else (False, q\<lparr>iq_id := (iq_id q)[nat (iq_front q AND 3) := m], iq_front := iq_front q + 1\<rparr>))"

record 't td_engine =
  te_name :: string
  te_do_running :: bool
  te_self_id :: int
  te_read_pool :: reader_pool
  te_writer :: "io_order_rtn io_writer"
  te_acc_utilis :: "'t risk_top list"
  te_request_id :: int
  te_request_id_start :: int
  te_request_id_end :: int
  te_track_mapped :: bool
  te_track_day :: string
  te_request_track :: "int \<Rightarrow> order_track"
  te_otidfilter :: "int \<Rightarrow> id_queue"
  te_base :: trade_base
  te_sys_out :: "td_sys_out list"

text \<open>
  What a handler reads elsewhere: the treap of the risk control, the bound of the registration loop
  (\<open>RiskTop_find\<close>), what the system grants for the engine's pages, and the clock.
\<close>

record 't eng_env =
  en_ops :: "'t treap_ops"
  en_fuel :: nat
  en_io :: io_env
  en_now :: int

definition ITDEngine_checkRequestId :: "int \<Rightarrow> ('t, 'a) td_engine_scheme \<Rightarrow> bool" where
  "ITDEngine_checkRequestId i s \<longleftrightarrow> te_request_id_start s \<le> i \<and> i \<le> te_request_id_end s"

definition track_slot :: "int \<Rightarrow> int" where
  "track_slot i = i AND (MMAP_ORDER_TRACK_SIZE - 1)"

text \<open>Before \<^verbatim>\<open>loadOrderTrack\<close> the array is a null pointer.\<close>

definition ITDEngine_get_request_track :: "int \<Rightarrow> ('t, 'a) td_engine_scheme \<Rightarrow> order_track res" where
  "ITDEngine_get_request_track i s =
     (if te_track_mapped s then Inr (te_request_track s (track_slot i)) else Inl NullDeref)"

definition upd_request_track ::
    "int \<Rightarrow> (order_track \<Rightarrow> order_track) \<Rightarrow> ('t, 'a) td_engine_scheme \<Rightarrow> ('t, 'a) td_engine_scheme" where
  "upd_request_track i f s =
     s\<lparr>te_request_track := (te_request_track s)
        (track_slot i := f (te_request_track s (track_slot i)))\<rparr>"

definition ITDEngine_testOtId ::
    "int \<Rightarrow> int \<Rightarrow> ('t, 'a) td_engine_scheme \<Rightarrow> bool \<times> ('t, 'a) td_engine_scheme" where
  "ITDEngine_testOtId otid mid s =
     (case CIDQueue_test mid (te_otidfilter s (track_slot otid)) of (seen, q) \<Rightarrow>
        (seen, s\<lparr>te_otidfilter := (te_otidfilter s)(track_slot otid := q)\<rparr>))"

section \<open>Reports to the clients\<close>

text \<open>
  \<^verbatim>\<open>prefetch\<close>, what the handler stores through the pointer, and \<^verbatim>\<open>commit\<close>; storing through the null
  pointer of a failed \<^verbatim>\<open>prefetch\<close> is a fault. The offset of the frame stands for the pointer.
\<close>

definition rtn_prefetch ::
    "'t eng_env \<Rightarrow> ('t, 'a) td_engine_scheme \<Rightarrow> (int \<times> ('t, 'a) td_engine_scheme) res" where
  "rtn_prefetch env s =
     res_bind (CSafeRawIOWriter_prefetch (en_io env) zero_rtn RTN_SIZE (en_now env) (te_writer s)) (\<lambda>(off, w).
       case off of
         None \<Rightarrow> Inl NullDeref
       | Some off \<Rightarrow> Inr (off, s\<lparr>te_writer := w\<rparr>))"

definition rtn_fill ::
    "int \<Rightarrow> (io_order_rtn \<Rightarrow> io_order_rtn) \<Rightarrow> ('t, 'a) td_engine_scheme \<Rightarrow> ('t, 'a) td_engine_scheme" where
  "rtn_fill off f s = s\<lparr>te_writer := fill_frame zero_rtn off f (te_writer s)\<rparr>"

definition rtn_commit ::
    "'t eng_env \<Rightarrow> ('t, 'a) td_engine_scheme \<Rightarrow> ('t, 'a) td_engine_scheme res" where
  "rtn_commit env s =
     res_bind (CSafeRawIOWriter_commit zero_rtn (en_now env) (te_writer s)) (\<lambda>w. Inr (s\<lparr>te_writer := w\<rparr>))"

text \<open>The message in the frame, which the handlers go on to read after \<^verbatim>\<open>commit\<close>.\<close>

definition rtn_at :: "int \<Rightarrow> ('t, 'a) td_engine_scheme \<Rightarrow> io_order_rtn res" where
  "rtn_at off s =
     res_bind (wr_page (te_writer s)) (\<lambda>p. Inr (fr_data (frame_at zero_rtn p off)))"

definition put_rtn ::
    "'t eng_env \<Rightarrow> (io_order_rtn \<Rightarrow> io_order_rtn) \<Rightarrow> ('t, 'a) td_engine_scheme \<Rightarrow>
     (rtn_msg \<times> ('t, 'a) td_engine_scheme) res" where
  "put_rtn env f s =
     res_bind (rtn_prefetch env s) (\<lambda>(off, s1).
     res_bind (rtn_at off (rtn_fill off f s1)) (\<lambda>m.
     res_bind (rtn_commit env (rtn_fill off f s1)) (\<lambda>s2. Inr (or_rtn_msg m, s2))))"

definition ITDEngine_writeErrRtn_order ::
    "'t eng_env \<Rightarrow> input_order \<Rightarrow> int \<Rightarrow> string \<Rightarrow> int \<Rightarrow> ('t, 'a) td_engine_scheme \<Rightarrow>
     ('t, 'a) td_engine_scheme res" where
  "ITDEngine_writeErrRtn_order env data errid msg msgtp s =
     res_bind (put_rtn env (\<lambda>p.
       \<lparr>or_cmd = IO_ORDER_RTN, or_to = in_from data,
        or_rtn_msg =
          \<lparr>rm_msg_type = msgtp, rm_local_id = in_local_id data, rm_instr_hash = in_instr_hash data,
           rm_instr = in_instr data, rm_price = in_price data, rm_vol = in_vol data,
           rm_dir = in_dir data, rm_off = in_off data, rm_order_ref = -1, rm_front_id = -1,
           rm_session_id = -1, rm_errid = errid, rm_msg = take 80 (c_str msg)\<rparr>\<rparr>) s)
       (\<lambda>(_, s1). Inr s1)"

text \<open>A cancel has no price, volume, direction and offset: the memory of the frame keeps what it held.\<close>

definition ITDEngine_writeErrRtn_action ::
    "'t eng_env \<Rightarrow> order_action \<Rightarrow> int \<Rightarrow> string \<Rightarrow> int \<Rightarrow> ('t, 'a) td_engine_scheme \<Rightarrow>
     ('t, 'a) td_engine_scheme res" where
  "ITDEngine_writeErrRtn_action env data errid msg msgtp s =
     res_bind (put_rtn env (\<lambda>p.
       \<lparr>or_cmd = IO_ORDER_RTN, or_to = oa_from data,
        or_rtn_msg = (or_rtn_msg p)
          \<lparr>rm_msg_type := msgtp, rm_local_id := oa_local_id data, rm_instr_hash := oa_instr_hash data,
           rm_instr := oa_instr data, rm_order_ref := oa_order_ref data, rm_front_id := oa_front_id data,
           rm_session_id := oa_session_id data, rm_errid := errid, rm_msg := take 80 (c_str msg)\<rparr>\<rparr>) s)
       (\<lambda>(_, s1). Inr s1)"

text \<open>The fields \<^verbatim>\<open>writeRtnFromTrack\<close> stores; the caller adds the type and commits.\<close>

definition ITDEngine_writeRtnFromTrack :: "order_track \<Rightarrow> io_order_rtn \<Rightarrow> io_order_rtn" where
  "ITDEngine_writeRtnFromTrack t p =
     \<lparr>or_cmd = IO_ORDER_RTN, or_to = ot_from t,
      or_rtn_msg = (or_rtn_msg p)
        \<lparr>rm_local_id := ot_local_id t, rm_instr := take 30 (c_str (ot_instr t)),
         rm_instr_hash := INSTR_NAME_TO_HASH (take 30 (c_str (ot_instr t))),
         rm_price := ot_price t, rm_vol := ot_vol t, rm_dir := ot_dir t, rm_off := ot_off t,
         rm_order_ref := ot_order_ref t, rm_front_id := ot_front_id t,
         rm_session_id := ot_session_id t\<rparr>\<rparr>"

section \<open>Accounts\<close>

text \<open>\<^verbatim>\<open>acc_utilis_[acc_idx]\<close>, without a check of the index.\<close>

definition upd_acc ::
    "int \<Rightarrow> ('t risk_top \<Rightarrow> 't risk_top res) \<Rightarrow> ('t, 'a) td_engine_scheme \<Rightarrow>
     ('t, 'a) td_engine_scheme res" where
  "upd_acc idx f s =
     (if 0 \<le> idx \<and> nat idx < length (te_acc_utilis s)
      then res_bind (f (te_acc_utilis s ! nat idx))
        (\<lambda>r. Inr (s\<lparr>te_acc_utilis := (te_acc_utilis s)[nat idx := r]\<rparr>))
      else Inl OutOfRange)"

definition ITDEngine_engine_on_rtn ::
    "'t eng_env \<Rightarrow> int \<Rightarrow> order_track \<Rightarrow> rtn_msg \<Rightarrow> ('t, 'a) td_engine_scheme \<Rightarrow>
     ('t, 'a) td_engine_scheme res" where
  "ITDEngine_engine_on_rtn env acc_idx t m s =
     upd_acc acc_idx (RiskTop_onRtn (en_ops env) (tb_instr_info (te_base s)) t m) s"

definition ITDEngine_engine_req_order_action ::
    "(order_action \<Rightarrow> ('t, 'a) td_engine_scheme \<Rightarrow> ('t, 'a) td_engine_scheme res) \<Rightarrow> 't eng_env \<Rightarrow>
     order_action \<Rightarrow> ('t, 'a) td_engine_scheme \<Rightarrow> ('t, 'a) td_engine_scheme res" where
  "ITDEngine_engine_req_order_action req_order_action env data s =
     (if 0 \<le> oa_acc_idx data \<and> nat (oa_acc_idx data) < length (te_acc_utilis s)
      then req_order_action data s
      else ITDEngine_writeErrRtn_action env data (-1) ''account idx err.'' ODS_ERR s)"

fun save_all ::
    "file_env \<Rightarrow> string \<Rightarrow> 't risk_top list \<Rightarrow> disk \<Rightarrow> disk res" where
  "save_all fe day [] d = Inr d"
| "save_all fe day (r # rs) d =
     (case AccBase_save fe day True (rt_acc_base r) d of
        None \<Rightarrow> Inl Uncaught
      | Some (_, d1) \<Rightarrow> save_all fe day rs d1)"

definition ITDEngine_engine_on_close ::
    "file_env \<Rightarrow> ('t, 'a) td_engine_scheme \<Rightarrow> disk \<Rightarrow> disk res" where
  "ITDEngine_engine_on_close fe s d =
     save_all fe (tb_trading_day (te_base s)) (te_acc_utilis s) d"

text \<open>\<^verbatim>\<open>initAccountUtilis\<close>: for every account its configuration, the stored summary, the orders
  tracked so far and the registration of all instruments.\<close>

fun fold_res :: "('b \<Rightarrow> 's \<Rightarrow> (bool \<times> 's) res) \<Rightarrow> 'b list \<Rightarrow> 's \<Rightarrow> (bool \<times> 's) res" where
  "fold_res f [] s = Inr (True, s)"
| "fold_res f (x # xs) s =
     res_bind (f x s) (\<lambda>(ok, s1). if ok then fold_res f xs s1 else Inr (False, s1))"

definition digit :: "nat \<Rightarrow> char" where
  "digit n = char_of (48 + n mod 10)"

fun show_nat :: "nat \<Rightarrow> string" where
  "show_nat n = (if n < 10 then [digit n] else show_nat (n div 10) @ [digit n])"

declare show_nat.simps [simp del]

text \<open>
  \<^verbatim>\<open>conf = acc_conf[i]\<close> where \<^verbatim>\<open>i < acc_conf.size()\<close>, else the default; nothing is an exception.
\<close>

definition account_conf :: "json \<Rightarrow> nat \<Rightarrow> json option" where
  "account_conf j i =
     (case (json_at j ''Account'', json_at j ''AccountDefault'') of
        (Some acc_conf, Some dflt) \<Rightarrow>
          (case acc_conf of
             JNull \<Rightarrow> Some dflt
           | JArr js \<Rightarrow> Some (if i < length js then js ! i else dflt)
           | JObj ms \<Rightarrow> if i < length ms then None else Some dflt
           | _ \<Rightarrow> if i < 1 then None else Some dflt)
      | _ \<Rightarrow> None)"

text \<open>The orders tracked so far, as long as an operation allows.\<close>

definition replay_tracks_top ::
    "('t, 'a) td_engine_scheme \<Rightarrow> 't risk_top \<Rightarrow> (bool \<times> 't risk_top) res" where
  "replay_tracks_top s r =
     fold_res (\<lambda>k r.
         res_bind (ITDEngine_get_request_track k s) (\<lambda>t.
           res_bind (RiskTop_onOrderTrack (tb_instr_info (te_base s)) t r) (\<lambda>r1. Inr (True, r1))))
       [te_request_id_start s..te_request_id s - 1] r"

definition init_account ::
    "'t eng_env \<Rightarrow> file_env \<Rightarrow> json \<Rightarrow> disk \<Rightarrow> ('t, 'a) td_engine_scheme \<Rightarrow> nat \<Rightarrow> (bool \<times> 't risk_top) res" where
  "init_account env fe j d s i =
     (case account_conf j i of
        None \<Rightarrow> Inl Uncaught
      | Some conf \<Rightarrow>
          (let tb = tb_instr_info (te_base s) in
           res_bind (RiskTop_init (te_name s @ ''.sub'' @ show_nat i) conf risk_top_init) (\<lambda>(ok, r).
             if \<not> ok then Inr (False, r)
             else case AccBase_load fe tb (tb_trading_day (te_base s)) d (rt_acc_base r) of
               None \<Rightarrow> Inl Uncaught
             | Some (ok2, ab) \<Rightarrow>
                 if \<not> ok2 then Inr (False, r\<lparr>rt_acc_base := ab\<rparr>)
                 else
                   res_bind (replay_tracks_top s (r\<lparr>rt_acc_base := ab\<rparr>)) (\<lambda>(_, r1).
                     fold_res (\<lambda>(_, info). RiskTop_regInstr (en_ops env) tb (ii_instr info)) tb r1))))"

definition ITDEngine_initAccountUtilis ::
    "'t eng_env \<Rightarrow> file_env \<Rightarrow> json \<Rightarrow> disk \<Rightarrow> nat \<Rightarrow> ('t, 'a) td_engine_scheme \<Rightarrow>
     (bool \<times> ('t, 'a) td_engine_scheme) res" where
  "ITDEngine_initAccountUtilis env fe j d acc_cnt s =
     fold_res (\<lambda>i s.
         res_bind (init_account env fe j d s i) (\<lambda>(ok, r).
           Inr (ok, s\<lparr>te_acc_utilis := te_acc_utilis s @ [r]\<rparr>)))
       [0..<acc_cnt] s"

section \<open>Start\<close>

text \<open>The file of the order tracks: whether it maps, and the tracks it holds from earlier runs.\<close>

definition ITDEngine_loadOrderTrack ::
    "bool \<Rightarrow> string \<Rightarrow> (int \<Rightarrow> order_track) \<Rightarrow> ('t, 'a) td_engine_scheme \<Rightarrow>
     bool \<times> ('t, 'a) td_engine_scheme" where
  "ITDEngine_loadOrderTrack maps day tracks s =
     (if maps then (True, s\<lparr>te_track_mapped := True, te_track_day := day, te_request_track := tracks\<rparr>)
      else (False, s))"

definition ITDEngine_writeStartSignal ::
    "'t eng_env \<Rightarrow> ('t, 'a) td_engine_scheme \<Rightarrow> ('t, 'a) td_engine_scheme res" where
  "ITDEngine_writeStartSignal env s =
     res_bind (CSafeRawIOWriter_write 2 (en_io env) (zero_rtn\<lparr>or_cmd := IO_TD_START\<rparr>) 4 (en_now env) (te_writer s))
       (\<lambda>(_, w). Inr (s\<lparr>te_writer := w\<rparr>))"

definition json_range :: "json \<Rightarrow> (int \<times> int) option" where
  "json_range j =
     (case Option.bind (json_at j ''TDEngine'') (\<lambda>t. json_at t ''request_id_range'') of
        Some (JArr (a # b # _)) \<Rightarrow>
          (case (json_get_int a, json_get_int b) of (Some x, Some y) \<Rightarrow> Some (x, y) | _ \<Rightarrow> None)
      | _ \<Rightarrow> None)"

text \<open>
  \<^verbatim>\<open>initEngine\<close> with the virtual operations of the derived class, the loaded track file and whether
  the directory of the channel can be created; the reader of the system channel starts at its end.
\<close>

definition ITDEngine_initEngine ::
    "(json \<Rightarrow> ('t, 'a) td_engine_scheme \<Rightarrow> (bool \<times> ('t, 'a) td_engine_scheme) res) \<Rightarrow>
     (('t, 'a) td_engine_scheme \<Rightarrow> (bool \<times> ('t, 'a) td_engine_scheme) res) \<Rightarrow>
     (('t, 'a) td_engine_scheme \<Rightarrow> (bool \<times> ('t, 'a) td_engine_scheme) res) \<Rightarrow>
     bool \<times> string \<times> (int \<Rightarrow> order_track) \<Rightarrow> bool \<Rightarrow> td_frame io_view \<Rightarrow>
     't eng_env \<Rightarrow> file_env \<Rightarrow> json \<Rightarrow> disk \<Rightarrow> nat \<Rightarrow> ('t, 'a) td_engine_scheme \<Rightarrow>
     (bool \<times> ('t, 'a) td_engine_scheme) res" where
  "ITDEngine_initEngine init getBaseInfo updateOrderTrack ot path_ok v env fe j d acc_cnt s =
     (case json_range j of
        None \<Rightarrow> Inl Uncaught
      | Some (first, last_id) \<Rightarrow>
          res_bind (init j (s\<lparr>te_request_id_start := first, te_request_id_end := last_id, te_request_id := first\<rparr>))
            (\<lambda>(ok, s1). if \<not> ok then Inr (False, s1) else
          res_bind (getBaseInfo s1) (\<lambda>(ok, s2). if \<not> ok then Inr (False, s2) else
          (case ITDEngine_loadOrderTrack (fst ot) (fst (snd ot)) (snd (snd ot)) s2 of (ok, s3) \<Rightarrow>
             if \<not> ok then Inr (False, s3) else
          res_bind (updateOrderTrack s3) (\<lambda>(ok, s4). if \<not> ok then Inr (False, s4) else
          res_bind (ITDEngine_initAccountUtilis env fe j d acc_cnt s4) (\<lambda>(ok, s5). if \<not> ok then Inr (False, s5) else
          (let s6 = s5\<lparr>te_self_id := sint (HASH_STR (te_name s5))\<rparr> in
             if \<not> path_ok then Inr (False, s6) else
          res_bind (CSafeRawIOWriter_init (en_io env) (en_now env) (te_writer s6)) (\<lambda>(ok, w).
             if \<not> ok then Inr (False, s6\<lparr>te_writer := w\<rparr>) else
          res_bind (CRawIOReader_init v ''system'' (-1) (-1) CRawIOReader_new) (\<lambda>(_, r).
             Inr (True, s6\<lparr>te_writer := w,
               te_read_pool := CReaderPool_add_reader 0 r (te_read_pool s6)\<rparr>))))))))))"

section \<open>The event loop\<close>

definition ITDEngine_rspOrderTrack :: "int \<Rightarrow> int \<Rightarrow> ('t, 'a) td_engine_scheme \<Rightarrow>
    ('t, 'a) td_engine_scheme res" where
  "ITDEngine_rspOrderTrack source back_word s =
     (if te_request_id_start s < te_request_id s \<and> \<not> te_track_mapped s then Inl NullDeref
      else
        (let ts = filter (\<lambda>t. ot_from t = source)
               (map (\<lambda>i. te_request_track s (track_slot i)) [te_request_id_start s..te_request_id s - 1])
         in Inr (s\<lparr>te_sys_out := te_sys_out s @
              [RspOrderTrack source (te_self_id s) back_word (int (length ts)) ts]\<rparr>)))"

text \<open>The branch for an execution entered by hand: it goes to the account only.\<close>

definition add_exec_order ::
    "'t eng_env \<Rightarrow> u32 \<Rightarrow> int \<Rightarrow> int \<Rightarrow> double \<Rightarrow> int \<Rightarrow> int \<Rightarrow> ('t, 'a) td_engine_scheme \<Rightarrow>
     ('t, 'a) td_engine_scheme res" where
  "add_exec_order env h dir off price vol acc_idx s =
     (let tb = tb_instr_info (te_base s) in
      upd_acc acc_idx (\<lambda>r.
        res_bind (RiskTop_onNew (en_ops env) tb (en_now env) dir off price vol h (-1) r) (\<lambda>r1.
          case AccBase_getModInstr h (rt_acc_base r1) of
            None \<Rightarrow> Inr r1
          | Some i \<Rightarrow>
              res_bind (ModInstr_onTrd dir off price vol vol price vol (acc_ctx h (rt_acc_base r1)))
                (\<lambda>c. Inr (r1\<lparr>rt_acc_base := acc_put_ctx h c (rt_acc_base r1)\<rparr>)))) s)"

definition td_dispatch ::
    "(input_order \<Rightarrow> ('t, 'a) td_engine_scheme \<Rightarrow> ('t, 'a) td_engine_scheme res) \<Rightarrow>
     (order_action \<Rightarrow> ('t, 'a) td_engine_scheme \<Rightarrow> ('t, 'a) td_engine_scheme res) \<Rightarrow>
     td_frame io_view \<Rightarrow> 't eng_env \<Rightarrow> td_frame \<Rightarrow> u32 \<Rightarrow> ('t, 'a) td_engine_scheme \<Rightarrow>
     ('t, 'a) td_engine_scheme res" where
  "td_dispatch req_order_insert req_order_action v env p ioid s =
     (if ioid \<noteq> 0 then
        (case p of
           OrderFrame data \<Rightarrow> req_order_insert data s
         | ActionFrame data \<Rightarrow> ITDEngine_engine_req_order_action req_order_action env data s
         | _ \<Rightarrow> Inr s)
      else
        (case p of
           SysFrame to source back_word cmd \<Rightarrow>
             if to \<noteq> te_self_id s then Inr s
             else
               (case cmd of
                  AddClient path \<Rightarrow>
                    res_bind (CReaderPool_add v (word_of_int source) path (-1) (-1) (te_read_pool s)) (\<lambda>(_, pool).
                      Inr (s\<lparr>te_read_pool := pool,
                             te_sys_out := te_sys_out s @ [AckAddClient source (te_self_id s) back_word]\<rparr>))
                | RemoveClient \<Rightarrow>
                    Inr (s\<lparr>te_read_pool := CReaderPool_erase (word_of_int source) (te_read_pool s)\<rparr>)
                | Quit \<Rightarrow> Inr (s\<lparr>te_do_running := False\<rparr>)
                | ReqBaseInfo \<Rightarrow>
                    Inr (s\<lparr>te_sys_out := te_sys_out s @
                      [RspBaseInfo (CTradeBaseInfo_toSysIOStruct source (te_self_id s) back_word (te_base s))]\<rparr>)
                | ReqOrderTrack \<Rightarrow> ITDEngine_rspOrderTrack source back_word s
                | AddExecOrder h dir off price vol acc_idx \<Rightarrow>
                    add_exec_order env h dir off price vol acc_idx s
                | OtherCommand \<Rightarrow> Inr s)
         | _ \<Rightarrow> Inr s))"

text \<open>One round of \<^verbatim>\<open>listening\<close>: the oldest frame of the pool, if there is one.\<close>

definition td_round ::
    "(input_order \<Rightarrow> ('t, 'a) td_engine_scheme \<Rightarrow> ('t, 'a) td_engine_scheme res) \<Rightarrow>
     (order_action \<Rightarrow> ('t, 'a) td_engine_scheme \<Rightarrow> ('t, 'a) td_engine_scheme res) \<Rightarrow>
     td_frame io_view \<Rightarrow> 't eng_env \<Rightarrow> ('t, 'a) td_engine_scheme \<Rightarrow> ('t, 'a) td_engine_scheme res" where
  "td_round req_order_insert req_order_action v env s =
     res_bind (CReaderPool_seqRead v (te_read_pool s)) (\<lambda>(d, pool).
       case d of
         None \<Rightarrow> Inr (s\<lparr>te_read_pool := pool\<rparr>)
       | Some (p, ioid) \<Rightarrow>
           td_dispatch req_order_insert req_order_action v env p ioid (s\<lparr>te_read_pool := pool\<rparr>))"

text \<open>
  \<^verbatim>\<open>listening\<close>: the start signal, rounds until the engine is told to quit, and the accounts saved.
  The list holds what each round finds (the channels and the system's answers); the result is the
  disk once the loop has ended, and nothing while it goes on.
\<close>

fun td_loop ::
    "(td_frame io_view \<Rightarrow> 't eng_env \<Rightarrow> ('t, 'a) td_engine_scheme \<Rightarrow> ('t, 'a) td_engine_scheme res) \<Rightarrow>
     file_env \<Rightarrow> disk \<Rightarrow> (td_frame io_view \<times> 't eng_env) list \<Rightarrow> ('t, 'a) td_engine_scheme \<Rightarrow>
     (disk option \<times> ('t, 'a) td_engine_scheme) res" where
  "td_loop rnd fe d [] s =
     (if te_do_running s then Inr (None, s)
      else res_bind (ITDEngine_engine_on_close fe s d) (\<lambda>d1. Inr (Some d1, s)))"
| "td_loop rnd fe d ((v, env) # rs) s =
     (if te_do_running s then res_bind (rnd v env s) (td_loop rnd fe d rs)
      else res_bind (ITDEngine_engine_on_close fe s d) (\<lambda>d1. Inr (Some d1, s)))"

definition ITDEngine_listening ::
    "(td_frame io_view \<Rightarrow> 't eng_env \<Rightarrow> ('t, 'a) td_engine_scheme \<Rightarrow> ('t, 'a) td_engine_scheme res) \<Rightarrow>
     't eng_env \<Rightarrow> file_env \<Rightarrow> disk \<Rightarrow> (td_frame io_view \<times> 't eng_env) list \<Rightarrow>
     ('t, 'a) td_engine_scheme \<Rightarrow> (disk option \<times> ('t, 'a) td_engine_scheme) res" where
  "ITDEngine_listening rnd env fe d rs s =
     res_bind (ITDEngine_writeStartSignal env s) (\<lambda>s1.
       td_loop rnd fe d rs (s1\<lparr>te_do_running := True\<rparr>))"

end
