(* ===== verification/Td_Ctp.thy ===== *)
theory Td_Ctp
  imports Td_Engine
begin

text \<open>
  \<^verbatim>\<open>td/CTDEngineCtp\<close>, the engine on the CTP interface: connection and login of every account, the
  two requests (insert an order, cancel it) and the callbacks of the interface.

  The interface is a vendor library: what the code hands to it is recorded as a request
  (\<open>ct_sent\<close>), its return codes and its callbacks are inputs, and of its structures the model has
  the fields the code reads or computes. A waiting loop is the sequence of callbacks that arrive
  while it waits (\<open>during\<close>). \<^verbatim>\<open>UserID\<close> is read as the number its first eight bytes make.
\<close>

section \<open>Numbers in text\<close>

text \<open>\<^verbatim>\<open>int2string\<close> of \<^verbatim>\<open>utility/utils.cpp\<close>: the digits are produced backwards and turned round.\<close>

fun digits_rev :: "nat \<Rightarrow> string" where
  "digits_rev n = (if n < 10 then [digit n] else digit n # digits_rev (n div 10))"

declare digits_rev.simps [simp del]

definition int2string :: "int \<Rightarrow> string" where
  "int2string val =
     (if val < 0 then CHR ''-'' # rev (digits_rev (nat (- val))) else rev (digits_rev (nat val)))"

text \<open>The standard \<^verbatim>\<open>atoi\<close> and \<^verbatim>\<open>strtoll\<close> with base 0, which reads \<^verbatim>\<open>0x..\<close> as hexadecimal and \<^verbatim>\<open>0..\<close> as octal.\<close>

definition is_space :: "char \<Rightarrow> bool" where
  "is_space c \<longleftrightarrow> c = CHR '' '' \<or> (9 \<le> (of_char c :: nat) \<and> (of_char c :: nat) \<le> 13)"

definition digit_val :: "char \<Rightarrow> nat" where
  "digit_val c =
     (let n = of_char c :: nat in
      if 48 \<le> n \<and> n \<le> 57 then n - 48
      else if 97 \<le> n \<and> n \<le> 122 then n - 87
      else if 65 \<le> n \<and> n \<le> 90 then n - 55
      else 99)"

fun parse_base :: "nat \<Rightarrow> int \<Rightarrow> string \<Rightarrow> int" where
  "parse_base b acc [] = acc"
| "parse_base b acc (c # cs) =
     (if digit_val c < b then parse_base b (acc * int b + int (digit_val c)) cs else acc)"

definition parse_sign :: "(string \<Rightarrow> int) \<Rightarrow> string \<Rightarrow> int" where
  "parse_sign f s =
     (case dropWhile is_space s of
        [] \<Rightarrow> f []
      | c # cs \<Rightarrow> if c = CHR ''-'' then - f cs else if c = CHR ''+'' then f cs else f (c # cs))"

definition atoi :: "string \<Rightarrow> int" where
  "atoi s = parse_sign (parse_base 10 0) s"

fun parse_any :: "string \<Rightarrow> int" where
  "parse_any (c # d # e # cs) =
     (if c = CHR ''0'' then
        (if (d = CHR ''x'' \<or> d = CHR ''X'') \<and> digit_val e < 16 then parse_base 16 0 (e # cs)
         else parse_base 8 0 (d # e # cs))
      else parse_base 10 0 (c # d # e # cs))"
| "parse_any (c # cs) = (if c = CHR ''0'' then parse_base 8 0 cs else parse_base 10 0 (c # cs))"
| "parse_any [] = 0"

definition strtoll0 :: "string \<Rightarrow> int" where
  "strtoll0 s = parse_sign parse_any s"

section \<open>Structures of the interface\<close>

record ctp_input_order =
  ci_BrokerID :: string
  ci_InvestorID :: string
  ci_UserID :: int
  ci_OrderRef :: string
  ci_InstrumentID :: string
  ci_Direction :: int
  ci_CombOffsetFlag :: int
  ci_LimitPrice :: double
  ci_VolumeTotalOriginal :: int

record ctp_order_action =
  ca_BrokerID :: string
  ca_InvestorID :: string
  ca_UserID :: int
  ca_OrderRef :: string
  ca_InstrumentID :: string
  ca_FrontID :: int
  ca_SessionID :: int

text \<open>The states of an order the code names; the vendor's codes for them are characters.\<close>

datatype order_status =
    OST_AllTraded
  | OST_PartTradedQueueing
  | OST_PartTradedNotQueueing
  | OST_NoTradeQueueing
  | OST_Canceled
  | OST_Unknown
  | OST_Other int

record ctp_order =
  co_UserID :: int
  co_OrderRef :: string
  co_InstrumentID :: string
  co_Direction :: int
  co_LimitPrice :: double
  co_VolumeTotalOriginal :: int
  co_VolumeTraded :: int
  co_VolumeTotal :: int
  co_OrderStatus :: order_status
  co_StatusMsg :: string
  co_FrontID :: int
  co_SessionID :: int

record ctp_trade =
  cd_UserID :: int
  cd_OrderRef :: string
  cd_TradeID :: string
  cd_InstrumentID :: string
  cd_Price :: double
  cd_Volume :: int
  cd_Direction :: int
  cd_OffsetFlag :: int

record ctp_instrument =
  cn_InstrumentID :: string
  cn_ExchangeID :: string
  cn_ProductID :: string
  cn_VolumeMultiple :: int
  cn_PriceTick :: double
  cn_ExpireDate :: string
  cn_IsTrading :: bool

record ctp_login =
  cl_FrontID :: int
  cl_SessionID :: int
  cl_MaxOrderRef :: string

text \<open>\<^verbatim>\<open>CThostFtdcRspInfoField\<close>, where the pointer is not null: \<^verbatim>\<open>ErrorID\<close> and \<^verbatim>\<open>ErrorMsg\<close>.\<close>

type_synonym rsp_info = "(int \<times> string) option"

definition rsp_failed :: "rsp_info \<Rightarrow> bool" where
  "rsp_failed info = (case info of None \<Rightarrow> False | Some (e, _) \<Rightarrow> e \<noteq> 0)"

datatype ctp_request =
    ReqAuthenticate int string string string string string int
  | ReqUserLogin int string string string string int
  | ReqSettlementInfoConfirm int string string int
  | ReqUserLogout int string string int
  | ReqQryInstrument int int
  | ReqQryOrder int string string int
  | ReqQryTrade int string string int
  | ReqOrderInsert int ctp_input_order int
  | ReqOrderAction int ctp_order_action int

section \<open>State\<close>

record account_unit =
  au_input_order :: ctp_input_order
  au_action_order :: ctp_order_action
  au_api :: bool
  au_front_id :: int
  au_session_id :: int
  au_initialized :: bool
  au_connected :: bool
  au_authenticated :: bool
  au_settle_confirmed :: bool
  au_logged_in :: bool
  au_settle_rid :: int
  au_login_rid :: int
  au_auth_rid :: int
  au_broker_id :: string
  au_user_id :: string
  au_passwd :: string
  au_user_product_info :: string

record 't td_ctp = "'t td_engine" +
  ct_int_user_id :: int
  ct_user_product_info :: string
  ct_curAccountIdx :: int
  ct_account_units :: "account_unit list"
  ct_auth_code :: string
  ct_app_id :: string
  ct_query_complete_flag :: bool
  ct_max_ref_id :: int
  ct_sent :: "ctp_request list"

definition upd_unit :: "int \<Rightarrow> (account_unit \<Rightarrow> account_unit) \<Rightarrow> 't td_ctp \<Rightarrow> 't td_ctp res" where
  "upd_unit idx f s =
     (if 0 \<le> idx \<and> nat idx < length (ct_account_units s)
      then Inr (s\<lparr>ct_account_units := (ct_account_units s)[nat idx := f (ct_account_units s ! nat idx)]\<rparr>)
      else Inl OutOfRange)"

definition upd_units :: "(account_unit \<Rightarrow> account_unit) \<Rightarrow> 't td_ctp \<Rightarrow> 't td_ctp" where
  "upd_units f s = s\<lparr>ct_account_units := map f (ct_account_units s)\<rparr>"

text \<open>A call through the \<^verbatim>\<open>api\<close> pointer of an account; \<open>ret\<close> is what the interface returns.\<close>

definition api_call ::
    "(ctp_request \<Rightarrow> int) \<Rightarrow> int \<Rightarrow> ctp_request \<Rightarrow> 't td_ctp \<Rightarrow> (int \<times> 't td_ctp) res" where
  "api_call ret idx req s =
     (if \<not> (0 \<le> idx \<and> nat idx < length (ct_account_units s)) then Inl OutOfRange
      else if \<not> au_api (ct_account_units s ! nat idx) then Inl NullDeref
      else Inr (ret req, s\<lparr>ct_sent := ct_sent s @ [req]\<rparr>))"

text \<open>\<^verbatim>\<open>load_account\<close>: the account of the configuration, nothing connected.\<close>

definition CTDEngineCtp_load_account :: "string \<Rightarrow> string \<Rightarrow> string \<Rightarrow> 't td_ctp \<Rightarrow> account_unit" where
  "CTDEngineCtp_load_account broker_id user_id password s =
     \<lparr>au_input_order =
        \<lparr>ci_BrokerID = broker_id, ci_InvestorID = user_id, ci_UserID = ct_int_user_id s, ci_OrderRef = [],
         ci_InstrumentID = [], ci_Direction = 0, ci_CombOffsetFlag = 0, ci_LimitPrice = 0,
         ci_VolumeTotalOriginal = 0\<rparr>,
      au_action_order =
        \<lparr>ca_BrokerID = broker_id, ca_InvestorID = user_id, ca_UserID = ct_int_user_id s, ca_OrderRef = [],
         ca_InstrumentID = [], ca_FrontID = 0, ca_SessionID = 0\<rparr>,
      au_api = False, au_front_id = -1, au_session_id = -1, au_initialized = False, au_connected = False,
      au_authenticated = False, au_settle_confirmed = False, au_logged_in = False,
      au_settle_rid = 0, au_login_rid = 0, au_auth_rid = 0,
      au_broker_id = broker_id, au_user_id = user_id, au_passwd = password,
      au_user_product_info = ct_user_product_info s\<rparr>"

definition CTDEngineCtp_is_connected :: "'t td_ctp \<Rightarrow> bool" where
  "CTDEngineCtp_is_connected s = list_all au_connected (ct_account_units s)"

definition CTDEngineCtp_is_logged_in :: "'t td_ctp \<Rightarrow> bool" where
  "CTDEngineCtp_is_logged_in s =
     list_all (\<lambda>u. au_authenticated u \<and> au_logged_in u \<and> au_settle_confirmed u) (ct_account_units s)"

definition CTDEngineCtp_release_api :: "'t td_ctp \<Rightarrow> 't td_ctp" where
  "CTDEngineCtp_release_api s =
     upd_units (\<lambda>u. u\<lparr>au_api := False, au_initialized := False, au_connected := False,
       au_authenticated := False, au_settle_confirmed := False, au_logged_in := False\<rparr>) s"

text \<open>\<^verbatim>\<open>logout\<close> goes on whatever the calls return.\<close>

fun logout_from :: "(ctp_request \<Rightarrow> int) \<Rightarrow> nat \<Rightarrow> nat \<Rightarrow> 't td_ctp \<Rightarrow> 't td_ctp res" where
  "logout_from ret idx 0 s = Inr s"
| "logout_from ret idx (Suc n) s =
     (let u = ct_account_units s ! idx; rid = te_request_id s in
      res_bind
        (if au_logged_in u then
           res_bind (upd_unit (int idx) (\<lambda>u. u\<lparr>au_login_rid := rid\<rparr>) s) (\<lambda>s1.
           res_bind (api_call ret (int idx) (ReqUserLogout (int idx) (au_broker_id u) (au_user_id u) rid)
                       (s1\<lparr>te_request_id := rid + 1\<rparr>)) (\<lambda>(_, s2). Inr s2))
         else Inr s)
        (\<lambda>s1. res_bind (upd_unit (int idx) (\<lambda>u. u\<lparr>au_authenticated := False, au_settle_confirmed := False,
                            au_logged_in := False\<rparr>) s1) (\<lambda>s2.
              logout_from ret (Suc idx) n s2)))"

definition CTDEngineCtp_logout :: "(ctp_request \<Rightarrow> int) \<Rightarrow> 't td_ctp \<Rightarrow> 't td_ctp res" where
  "CTDEngineCtp_logout ret s = logout_from ret 0 (length (ct_account_units s)) s"

definition CTDEngineCtp_release :: "(ctp_request \<Rightarrow> int) \<Rightarrow> 't td_ctp \<Rightarrow> 't td_ctp res" where
  "CTDEngineCtp_release ret s =
     res_bind (CTDEngineCtp_logout ret s) (\<lambda>s1. Inr (CTDEngineCtp_release_api s1))"

definition ITDEngine_stop :: "(ctp_request \<Rightarrow> int) \<Rightarrow> 't td_ctp \<Rightarrow> 't td_ctp res" where
  "ITDEngine_stop ret s = CTDEngineCtp_release ret (s\<lparr>te_do_running := False\<rparr>)"

section \<open>Callbacks of the connection\<close>

definition CTDEngineCtp_OnFrontConnected :: "'t td_ctp \<Rightarrow> 't td_ctp res" where
  "CTDEngineCtp_OnFrontConnected s = upd_unit (ct_curAccountIdx s) (\<lambda>u. u\<lparr>au_connected := True\<rparr>) s"

definition CTDEngineCtp_OnFrontDisconnected :: "(ctp_request \<Rightarrow> int) \<Rightarrow> 't td_ctp \<Rightarrow> 't td_ctp res" where
  "CTDEngineCtp_OnFrontDisconnected ret s =
     ITDEngine_stop ret
       (upd_units (\<lambda>u. u\<lparr>au_connected := False, au_authenticated := False, au_settle_confirmed := False,
          au_logged_in := False\<rparr>) s)"

definition CTDEngineCtp_OnRspAuthenticate :: "rsp_info \<Rightarrow> int \<Rightarrow> 't td_ctp \<Rightarrow> 't td_ctp" where
  "CTDEngineCtp_OnRspAuthenticate info rid s =
     (if \<not> ITDEngine_checkRequestId rid s then s
      else if rsp_failed info then s
      else upd_units (\<lambda>u. if au_auth_rid u = rid then u\<lparr>au_authenticated := True\<rparr> else u) s)"

definition CTDEngineCtp_OnRspUserLogin :: "ctp_login \<Rightarrow> rsp_info \<Rightarrow> int \<Rightarrow> 't td_ctp \<Rightarrow> 't td_ctp" where
  "CTDEngineCtp_OnRspUserLogin login info rid s =
     (if \<not> ITDEngine_checkRequestId rid s then s
      else if rsp_failed info then s
      else
        (let s1 = upd_units (\<lambda>u.
               if au_login_rid u = rid then
                 u\<lparr>au_action_order := (au_action_order u)\<lparr>ca_FrontID := cl_FrontID login,
                     ca_SessionID := cl_SessionID login\<rparr>,
                   au_front_id := cl_FrontID login, au_session_id := cl_SessionID login,
                   au_logged_in := True\<rparr>
               else u) s;
             max_ref = atoi (cl_MaxOrderRef login) + 1
         in s1\<lparr>te_request_id := (if max_ref > te_request_id s1 then max_ref else te_request_id s1)\<rparr>))"

definition CTDEngineCtp_OnRspSettlementInfoConfirm :: "rsp_info \<Rightarrow> int \<Rightarrow> 't td_ctp \<Rightarrow> 't td_ctp" where
  "CTDEngineCtp_OnRspSettlementInfoConfirm info rid s =
     (if \<not> ITDEngine_checkRequestId rid s then s
      else if rsp_failed info then s
      else upd_units (\<lambda>u. if au_settle_rid u = rid then u\<lparr>au_settle_confirmed := True\<rparr> else u) s)"

text \<open>Here an \<^verbatim>\<open>ErrorID\<close> of 0 counts as the error.\<close>

definition CTDEngineCtp_OnRspUserLogout :: "rsp_info \<Rightarrow> int \<Rightarrow> 't td_ctp \<Rightarrow> 't td_ctp" where
  "CTDEngineCtp_OnRspUserLogout info rid s =
     (if \<not> ITDEngine_checkRequestId rid s then s
      else if info \<noteq> None \<and> \<not> rsp_failed info then s
      else upd_units (\<lambda>u. if au_login_rid u = rid
             then u\<lparr>au_logged_in := False, au_authenticated := False, au_settle_confirmed := False\<rparr>
             else u) s)"

definition CTDEngineCtp_OnRspQryInstrument ::
    "ctp_instrument option \<Rightarrow> rsp_info \<Rightarrow> int \<Rightarrow> bool \<Rightarrow> 't td_ctp \<Rightarrow> 't td_ctp" where
  "CTDEngineCtp_OnRspQryInstrument instr info rid is_last s =
     (if \<not> ITDEngine_checkRequestId rid s then s
      else if rsp_failed info then s
      else
        (let s1 =
               (case instr of
                  None \<Rightarrow> s
                | Some i \<Rightarrow>
                    (let h = INSTR_NAME_TO_HASH (c_str (cn_InstrumentID i));
                         product = take 31 (c_str (cn_ProductID i));
                         nfo = \<lparr>ii_instr_hash = h, ii_instr = take 31 (c_str (cn_InstrumentID i)),
                                ii_exch = exchangeStr2int (c_str (cn_ExchangeID i)), ii_product = product,
                                ii_product_hash = INSTR_NAME_TO_HASH product,
                                ii_vol_multiple = cn_VolumeMultiple i, ii_tick_price = cn_PriceTick i,
                                ii_expire_date = take 9 (c_str (cn_ExpireDate i)),
                                ii_is_trading = cn_IsTrading i\<rparr>
                     in s\<lparr>te_base := (te_base s)\<lparr>tb_instr_info :=
                          AList.update h nfo (tb_instr_info (te_base s))\<rparr>\<rparr>))
         in if is_last then s1\<lparr>te_base := (te_base s1)\<lparr>tb_is_init := True\<rparr>\<rparr> else s1))"

section \<open>Reports\<close>

text \<open>The fields every report of a tracked order has: those of its record, with the broker's name of the instrument.\<close>

definition track_fields :: "order_track \<Rightarrow> string \<Rightarrow> int \<Rightarrow> io_order_rtn \<Rightarrow> io_order_rtn" where
  "track_fields t instr order_ref p =
     (let name = take 31 (c_str instr) in
      \<lparr>or_cmd = IO_ORDER_RTN, or_to = ot_from t,
       or_rtn_msg = (or_rtn_msg p)
         \<lparr>rm_local_id := ot_local_id t, rm_instr := name,
          rm_instr_hash := INSTR_NAME_TO_HASH name, rm_price := ot_price t, rm_vol := ot_vol t,
          rm_dir := ot_dir t, rm_off := ot_off t, rm_order_ref := order_ref,
          rm_front_id := ot_front_id t, rm_session_id := ot_session_id t\<rparr>\<rparr>)"

definition set_type :: "int \<Rightarrow> io_order_rtn \<Rightarrow> io_order_rtn" where
  "set_type msgtp p = p\<lparr>or_rtn_msg := (or_rtn_msg p)\<lparr>rm_msg_type := msgtp\<rparr>\<rparr>"

definition track_report :: "int \<Rightarrow> order_track \<Rightarrow> string \<Rightarrow> int \<Rightarrow> io_order_rtn \<Rightarrow> io_order_rtn" where
  "track_report msgtp t instr order_ref p = set_type msgtp (track_fields t instr order_ref p)"

definition error_report :: "int \<times> string \<Rightarrow> io_order_rtn \<Rightarrow> io_order_rtn" where
  "error_report e p =
     p\<lparr>or_rtn_msg := (or_rtn_msg p)\<lparr>rm_errid := fst e, rm_msg := take 80 (c_str (snd e))\<rparr>\<rparr>"

text \<open>A report about a tracked order: its flag in the record, the message, the risk control.\<close>

definition forward ::
    "'t eng_env \<Rightarrow> int \<Rightarrow> int \<Rightarrow> (order_track \<Rightarrow> io_order_rtn \<Rightarrow> io_order_rtn) \<Rightarrow> 't td_ctp \<Rightarrow> 't td_ctp res" where
  "forward env rid flag fill s =
     (let s1 = upd_request_track rid (\<lambda>t. t\<lparr>ot_status := ot_status t OR flag\<rparr>) s in
      res_bind (ITDEngine_get_request_track rid s1) (\<lambda>t.
      res_bind (put_rtn env (fill t) s1) (\<lambda>(m, s2).
        ITDEngine_engine_on_rtn env (ot_acc_id t) t m s2)))"

definition CTDEngineCtp_OnRspOrderInsert ::
    "'t eng_env \<Rightarrow> ctp_input_order \<Rightarrow> rsp_info \<Rightarrow> int \<Rightarrow> 't td_ctp \<Rightarrow> 't td_ctp res" where
  "CTDEngineCtp_OnRspOrderInsert env order info rid s =
     (if \<not> ITDEngine_checkRequestId rid s then Inr s
      else res_bind (ITDEngine_get_request_track rid s) (\<lambda>t.
        case info of
          None \<Rightarrow> Inr s
        | Some e \<Rightarrow>
            if \<not> (ot_from t \<noteq> 0 \<and> ci_UserID order = ct_int_user_id s) then Inr s
            else if ot_status t AND ODS_REJECT \<noteq> 0 then Inr s
            else forward env rid ODS_REJECT
              (\<lambda>t p. error_report e (track_report ODS_REJECT t (ci_InstrumentID order) rid p)) s))"

definition CTDEngineCtp_OnRspOrderAction ::
    "'t eng_env \<Rightarrow> ctp_order_action \<Rightarrow> rsp_info \<Rightarrow> int \<Rightarrow> 't td_ctp \<Rightarrow> 't td_ctp res" where
  "CTDEngineCtp_OnRspOrderAction env act info rid s =
     (if \<not> ITDEngine_checkRequestId rid s then Inr s
      else res_bind (ITDEngine_get_request_track rid s) (\<lambda>t.
        case info of
          None \<Rightarrow> Inr s
        | Some e \<Rightarrow>
            if \<not> (ot_from t \<noteq> 0 \<and> ca_UserID act = ct_int_user_id s) then Inr s
            else forward env rid ODS_CANCEL_REJECT
              (\<lambda>t p. error_report e (track_report ODS_CANCEL_REJECT t (ca_InstrumentID act) rid p)) s))"

text \<open>
  \<^verbatim>\<open>OnRtnOrder\<close>. The frame is fetched first and filled; for a state that was reported before it is
  discarded, otherwise the record gets the flag and the frame its type. For a state the \<^verbatim>\<open>switch\<close> does
  not name, the frame is committed with the type its memory held.
\<close>

definition order_finish :: "'t eng_env \<Rightarrow> int \<Rightarrow> int \<Rightarrow> 't td_ctp \<Rightarrow> 't td_ctp res" where
  "order_finish env rid off s =
     res_bind (rtn_at off s) (\<lambda>m.
     res_bind (rtn_commit env s) (\<lambda>s1.
     res_bind (ITDEngine_get_request_track rid s1) (\<lambda>t.
       ITDEngine_engine_on_rtn env (ot_acc_id t) t (or_rtn_msg m) s1)))"

definition order_flag ::
    "'t eng_env \<Rightarrow> int \<Rightarrow> int \<Rightarrow> int \<Rightarrow> (io_order_rtn \<Rightarrow> io_order_rtn) \<Rightarrow> 't td_ctp \<Rightarrow> 't td_ctp res" where
  "order_flag env rid off flag fill s =
     res_bind (ITDEngine_get_request_track rid s) (\<lambda>t.
       if ot_status t AND flag \<noteq> 0
       then Inr (s\<lparr>te_writer := CSafeRawIOWriter_discard (te_writer s)\<rparr>)
       else order_finish env rid off
         (rtn_fill off (\<lambda>p. fill (set_type flag p))
           (upd_request_track rid (\<lambda>t. t\<lparr>ot_status := ot_status t OR flag\<rparr>) s)))"

definition canceled_rest :: "ctp_order \<Rightarrow> io_order_rtn \<Rightarrow> io_order_rtn" where
  "canceled_rest order p =
     p\<lparr>or_rtn_msg := (or_rtn_msg p)\<lparr>rm_vol := co_VolumeTotal order,
         rm_msg := take 80 (c_str (co_StatusMsg order))\<rparr>\<rparr>"

definition CTDEngineCtp_OnRtnOrder ::
    "'t eng_env \<Rightarrow> ctp_order \<Rightarrow> 't td_ctp \<Rightarrow> 't td_ctp res" where
  "CTDEngineCtp_OnRtnOrder env order s =
     (if co_UserID order \<noteq> ct_int_user_id s then Inr s
      else
        (let rid = atoi (co_OrderRef order) in
         if \<not> ITDEngine_checkRequestId rid s then Inr s
         else
           res_bind (ITDEngine_get_request_track rid s) (\<lambda>t.
           res_bind (rtn_prefetch env s) (\<lambda>(off, s1).
             let s2 = rtn_fill off (track_fields t (co_InstrumentID order) rid) s1 in
             case co_OrderStatus order of
               OST_Unknown \<Rightarrow> order_flag env rid off ODS_ACCEPT (\<lambda>p. p) s2
             | OST_Canceled \<Rightarrow> order_flag env rid off ODS_CANCELED (canceled_rest order) s2
             | OST_PartTradedNotQueueing \<Rightarrow> order_flag env rid off ODS_CANCELED (canceled_rest order) s2
             | OST_AllTraded \<Rightarrow>
                 order_flag env rid off ODS_MARKET_ACCEPT (\<lambda>p. p)
                   (upd_request_track rid (\<lambda>t. t\<lparr>ot_status := ot_status t OR ODS_CLOSED\<rparr>) s2)
             | OST_NoTradeQueueing \<Rightarrow> order_flag env rid off ODS_MARKET_ACCEPT (\<lambda>p. p) s2
             | OST_PartTradedQueueing \<Rightarrow> order_flag env rid off ODS_MARKET_ACCEPT (\<lambda>p. p) s2
             | OST_Other c \<Rightarrow> order_finish env rid off s2))))"

text \<open>What a trade does to the record of its order, and what is reported of it.\<close>

definition trade_booked :: "ctp_trade \<Rightarrow> order_track \<Rightarrow> order_track" where
  "trade_booked trade t =
     (let t1 = t\<lparr>ot_status := ot_status t OR ODS_EXECUTION,
                 ot_vol_traded := ot_vol_traded t + cd_Volume trade\<rparr>
      in if ot_vol_traded t1 \<ge> ot_vol t1
         then t1\<lparr>ot_status := ot_status t1 OR ODS_CLOSED\<rparr> else t1)"

definition trade_report :: "ctp_trade \<Rightarrow> int \<Rightarrow> order_track \<Rightarrow> io_order_rtn \<Rightarrow> io_order_rtn" where
  "trade_report trade rid t p =
     set_type ODS_EXECUTION
       (let q = track_fields t (cd_InstrumentID trade) rid p in
        q\<lparr>or_rtn_msg := (or_rtn_msg q)
           \<lparr>rm_price := cd_Price trade, rm_vol := cd_Volume trade,
            rm_dir := cd_Direction trade, rm_off := cd_OffsetFlag trade\<rparr>\<rparr>)"

definition trade_paid :: "ctp_trade \<Rightarrow> order_track \<Rightarrow> order_track" where
  "trade_paid trade t =
     t\<lparr>ot_amount_traded := ot_amount_traded t + cd_Price trade * of_int (cd_Volume trade)\<rparr>"

definition CTDEngineCtp_OnRtnTrade ::
    "'t eng_env \<Rightarrow> ctp_trade \<Rightarrow> 't td_ctp \<Rightarrow> 't td_ctp res" where
  "CTDEngineCtp_OnRtnTrade env trade s =
     (if cd_UserID trade \<noteq> ct_int_user_id s then Inr s
      else
        (let rid = atoi (cd_OrderRef trade) in
         if \<not> ITDEngine_checkRequestId rid s then Inr s
         else
           (case ITDEngine_testOtId rid (strtoll0 (cd_TradeID trade)) s of (seen, s1) \<Rightarrow>
              if seen then Inr s1
              else
                res_bind (ITDEngine_get_request_track rid s1) (\<lambda>t0.
                  if ot_from t0 = 0 then Inr s1
                  else
                    (let s2 = upd_request_track rid (trade_booked trade) s1
                     in res_bind (ITDEngine_get_request_track rid s2) (\<lambda>t.
                        res_bind (put_rtn env (trade_report trade rid t) s2) (\<lambda>(m, s3).
                          let s4 = upd_request_track rid (trade_paid trade) s3
                          in res_bind (ITDEngine_get_request_track rid s4) (\<lambda>t.
                               ITDEngine_engine_on_rtn env (ot_acc_id t) t m s4))))))))"

definition CTDEngineCtp_OnErrRtnOrderInsert ::
    "'t eng_env \<Rightarrow> ctp_input_order \<Rightarrow> int \<times> string \<Rightarrow> 't td_ctp \<Rightarrow> 't td_ctp res" where
  "CTDEngineCtp_OnErrRtnOrderInsert env order e s =
     (if ci_UserID order \<noteq> ct_int_user_id s then Inr s
      else
        (let rid = atoi (ci_OrderRef order) in
         if \<not> ITDEngine_checkRequestId rid s then Inr s
         else res_bind (ITDEngine_get_request_track rid s) (\<lambda>t.
           if ot_from t = 0 then Inr s
           else if ot_status t AND ODS_MARKET_REJECT \<noteq> 0 then Inr s
           else forward env rid ODS_MARKET_REJECT
             (\<lambda>t p. error_report e (track_report ODS_MARKET_REJECT t (ci_InstrumentID order) rid p)) s)))"

definition CTDEngineCtp_OnErrRtnOrderAction ::
    "'t eng_env \<Rightarrow> ctp_order_action \<Rightarrow> int \<times> string \<Rightarrow> 't td_ctp \<Rightarrow> 't td_ctp res" where
  "CTDEngineCtp_OnErrRtnOrderAction env act e s =
     (if ca_UserID act \<noteq> ct_int_user_id s then Inr s
      else
        (let rid = atoi (ca_OrderRef act) in
         if \<not> ITDEngine_checkRequestId rid s then Inr s
         else res_bind (ITDEngine_get_request_track rid s) (\<lambda>t.
           if ot_from t = 0 then Inr s
           else forward env rid ODS_CANCEL_REJECT
             (\<lambda>t p. error_report e (track_report ODS_CANCEL_REJECT t (ca_InstrumentID act) rid p)) s)))"

section \<open>Requests of the clients\<close>

text \<open>
  \<^verbatim>\<open>req_order_insert\<close>, cut at the call of the interface, because its callbacks may run before the
  call returns: before it the checks and the order that is sent, after it the record, the answer
  and the risk control. \<open>None\<close> means that the client got an error and nothing is sent.
\<close>

definition insert_begin ::
    "'t eng_env \<Rightarrow> input_order \<Rightarrow> 't td_ctp \<Rightarrow> (ctp_request option \<times> 't td_ctp) res" where
  "insert_begin env data s =
     (let idx = in_acc_idx data in
      if \<not> (0 \<le> idx \<and> nat idx < length (te_acc_utilis s)) then
        res_bind (ITDEngine_writeErrRtn_order env data (-1) ''account idx err.'' ODS_ERR s) (\<lambda>s1. Inr (None, s1))
      else
        res_bind (RiskTop_check (en_fuel env) (en_ops env) (tb_instr_info (te_base s)) (en_now env)
            (in_dir data) (in_off data) (in_price data) (in_vol data) (in_instr_hash data)
            (te_acc_utilis s ! nat idx)) (\<lambda>(ret, r).
          let s1 = s\<lparr>te_acc_utilis := (te_acc_utilis s)[nat idx := r]\<rparr> in
          if ret \<noteq> 0 then
            res_bind (ITDEngine_writeErrRtn_order env data ret ''risk check failed'' ODS_ERR s1)
              (\<lambda>s2. Inr (None, s2))
          else if \<not> nat idx < length (ct_account_units s1) then Inl OutOfRange
          else
            (let u = ct_account_units s1 ! nat idx;
                 order = (au_input_order u)
                   \<lparr>ci_OrderRef := int2string (te_request_id s1), ci_InstrumentID := in_instr data,
                    ci_VolumeTotalOriginal := in_vol data, ci_CombOffsetFlag := in_off data,
                    ci_Direction := in_dir data, ci_LimitPrice := in_price data\<rparr>
             in res_bind (upd_unit idx (\<lambda>u. u\<lparr>au_input_order := order\<rparr>) s1)
                  (\<lambda>s2. Inr (Some (ReqOrderInsert idx order (te_request_id s2)), s2)))))"

definition insert_record :: "input_order \<Rightarrow> account_unit \<Rightarrow> int \<Rightarrow> order_track \<Rightarrow> order_track" where
  "insert_record data u rid t =
     t\<lparr>ot_status := ODS_TDSEND, ot_instr_hash := in_instr_hash data, ot_instr := in_instr data,
       ot_price := in_price data, ot_vol := in_vol data, ot_dir := in_dir data,
       ot_off := in_off data, ot_vol_traded := 0, ot_from := in_from data,
       ot_local_id := in_local_id data, ot_acc_id := in_acc_idx data, ot_order_ref := rid,
       ot_front_id := au_front_id u, ot_session_id := au_session_id u, ot_stg_id := in_stg_id data\<rparr>"

definition insert_ack :: "input_order \<Rightarrow> account_unit \<Rightarrow> int \<Rightarrow> io_order_rtn \<Rightarrow> io_order_rtn" where
  "insert_ack data u rid p =
     \<lparr>or_cmd = IO_ORDER_RTN, or_to = in_from data,
      or_rtn_msg = (or_rtn_msg p)
        \<lparr>rm_msg_type := ODS_TDSEND, rm_local_id := in_local_id data,
         rm_instr_hash := in_instr_hash data, rm_instr := in_instr data,
         rm_price := in_price data, rm_vol := in_vol data, rm_dir := in_dir data,
         rm_off := in_off data, rm_order_ref := rid, rm_front_id := au_front_id u,
         rm_session_id := au_session_id u\<rparr>\<rparr>"

definition insert_end ::
    "'t eng_env \<Rightarrow> input_order \<Rightarrow> int \<Rightarrow> 't td_ctp \<Rightarrow> 't td_ctp res" where
  "insert_end env data ret s =
     (let idx = in_acc_idx data; rid = te_request_id s in
      if ret \<noteq> 0 then ITDEngine_writeErrRtn_order env data ret ''ctp ReqOrderInsert api failed.'' ODS_ERR s
      else if \<not> nat idx < length (ct_account_units s) then Inl OutOfRange
      else
        (let u = ct_account_units s ! nat idx in
         res_bind (ITDEngine_get_request_track rid s) (\<lambda>_.
         res_bind (put_rtn env (insert_ack data u rid)
             (upd_request_track rid (insert_record data u rid) s)) (\<lambda>(_, s2).
           upd_acc idx (RiskTop_onNew (en_ops env) (tb_instr_info (te_base s2)) (en_now env) (in_dir data)
               (in_off data) (in_price data) (in_vol data) (in_instr_hash data) rid)
             (s2\<lparr>te_request_id := rid + 1\<rparr>)))))"

definition CTDEngineCtp_req_order_insert ::
    "(ctp_request \<Rightarrow> int) \<Rightarrow> 't eng_env \<Rightarrow> input_order \<Rightarrow> 't td_ctp \<Rightarrow> 't td_ctp res" where
  "CTDEngineCtp_req_order_insert api env data s =
     res_bind (insert_begin env data s) (\<lambda>(req, s1).
       case req of
         None \<Rightarrow> Inr s1
       | Some q \<Rightarrow>
           res_bind (api_call api (in_acc_idx data) q s1) (\<lambda>(ret, s2). insert_end env data ret s2))"

definition CTDEngineCtp_req_order_action ::
    "(ctp_request \<Rightarrow> int) \<Rightarrow> 't eng_env \<Rightarrow> order_action \<Rightarrow> 't td_ctp \<Rightarrow> 't td_ctp res" where
  "CTDEngineCtp_req_order_action api env data s =
     (let rid = oa_order_ref data; idx = oa_acc_idx data in
      if \<not> ITDEngine_checkRequestId rid s then
        ITDEngine_writeErrRtn_action env data (-1)
          ''cancel order reject by TDEngine: order_ref range err.'' ODS_CANCEL_REJECT s
      else
        res_bind (ITDEngine_get_request_track rid s) (\<lambda>t.
          if ot_front_id t = oa_front_id data \<and> ot_session_id t = oa_session_id data then
            (if \<not> (0 \<le> idx \<and> nat idx < length (ct_account_units s)) then Inl OutOfRange
             else
               (let order = (au_action_order (ct_account_units s ! nat idx))
                      \<lparr>ca_OrderRef := int2string rid, ca_FrontID := oa_front_id data,
                       ca_SessionID := oa_session_id data, ca_InstrumentID := oa_instr data\<rparr>
                in res_bind (upd_unit idx (\<lambda>u. u\<lparr>au_action_order := order\<rparr>) s) (\<lambda>s1.
                   res_bind (api_call api idx (ReqOrderAction idx order rid) s1) (\<lambda>(ret, s2).
                     if ret = 0
                     then Inr (upd_request_track rid (\<lambda>t. t\<lparr>ot_status := ot_status t OR ODS_CXLING\<rparr>) s2)
                     else ITDEngine_writeErrRtn_action env data ret ''ctp ReqOrderAction api failed.''
                            ODS_CANCEL_REJECT s2))))
          else ITDEngine_writeErrRtn_action env data (-1) ''cancel order reject by TDEngine.''
                 ODS_CANCEL_REJECT s))"

section \<open>Orders of earlier runs\<close>

text \<open>
  \<^verbatim>\<open>OnRspQryOrder\<close>. The state of the order is overwritten by a flag of the program, a number that is
  none of the vendor's codes, before the \<^verbatim>\<open>switch\<close> over it, so \<^verbatim>\<open>status\<close> is left as it was.
\<close>

definition query_status :: "order_status \<Rightarrow> int \<Rightarrow> int" where
  "query_status st status =
     (case st of
        OST_Unknown \<Rightarrow> status OR ODS_ACCEPT
      | OST_Canceled \<Rightarrow> status OR ODS_CANCELED
      | OST_PartTradedNotQueueing \<Rightarrow> status OR ODS_CANCELED
      | OST_NoTradeQueueing \<Rightarrow> status OR ODS_MARKET_ACCEPT
      | OST_AllTraded \<Rightarrow> status OR ODS_CLOSED OR ODS_EXECUTION
      | OST_PartTradedQueueing \<Rightarrow> status OR ODS_EXECUTION
      | OST_Other _ \<Rightarrow> status)"

definition CTDEngineCtp_OnRspQryOrder ::
    "ctp_order option \<Rightarrow> int \<Rightarrow> bool \<Rightarrow> 't td_ctp \<Rightarrow> 't td_ctp res" where
  "CTDEngineCtp_OnRspQryOrder order nRequestID is_last s =
     (if \<not> ITDEngine_checkRequestId nRequestID s then Inr s
      else
        (let s1 = (if is_last then s\<lparr>ct_query_complete_flag := True\<rparr> else s) in
         case order of
           None \<Rightarrow> Inr s1
         | Some o1 \<Rightarrow>
             if co_UserID o1 \<noteq> ct_int_user_id s1 then Inr s1
             else
               (let ref = atoi (co_OrderRef o1) in
                if \<not> ITDEngine_checkRequestId ref s1 then Inr s1
                else
                  res_bind (ITDEngine_get_request_track ref s1) (\<lambda>_.
                    let o2 = o1\<lparr>co_OrderStatus := OST_Other ODS_TDSEND\<rparr>;
                        name = take 31 (c_str (co_InstrumentID o2));
                        s2 = upd_request_track ref (\<lambda>t. t
                          \<lparr>ot_status := query_status (co_OrderStatus o2) (ot_status t), ot_instr := name,
                           ot_instr_hash := INSTR_NAME_TO_HASH name, ot_price := co_LimitPrice o2,
                           ot_vol := co_VolumeTotalOriginal o2, ot_dir := co_Direction o2,
                           ot_vol_traded := co_VolumeTraded o2, ot_acc_id := ct_curAccountIdx s1,
                           ot_order_ref := ref, ot_front_id := co_FrontID o2,
                           ot_session_id := co_SessionID o2\<rparr>) s1
                    in Inr (s2\<lparr>ct_max_ref_id := (if ref > ct_max_ref_id s2 then ref else ct_max_ref_id s2)\<rparr>)))))"

definition CTDEngineCtp_OnRspQryTrade ::
    "ctp_trade option \<Rightarrow> int \<Rightarrow> bool \<Rightarrow> 't td_ctp \<Rightarrow> 't td_ctp res" where
  "CTDEngineCtp_OnRspQryTrade trade nRequestID is_last s =
     (if \<not> ITDEngine_checkRequestId nRequestID s then Inr s
      else
        (let s1 = (if is_last then s\<lparr>ct_query_complete_flag := True\<rparr> else s) in
         case trade of
           None \<Rightarrow> Inr s1
         | Some d \<Rightarrow>
             if cd_UserID d \<noteq> ct_int_user_id s1 then Inr s1
             else
               (let ref = atoi (cd_OrderRef d) in
                if \<not> ITDEngine_checkRequestId ref s1 then Inr s1
                else
                  res_bind (ITDEngine_get_request_track ref s1) (\<lambda>_.
                    Inr (upd_request_track ref (\<lambda>t.
                      t\<lparr>ot_amount_traded := ot_amount_traded t + cd_Price d * of_int (cd_Volume d)\<rparr>) s1)))))"

section \<open>Callbacks as inputs\<close>

datatype ctp_callback =
    FrontConnected
  | FrontDisconnected
  | RspAuthenticate rsp_info int
  | RspUserLogin ctp_login rsp_info int
  | RspSettlementInfoConfirm rsp_info int
  | RspUserLogout rsp_info int
  | RspQryInstrument "ctp_instrument option" rsp_info int bool
  | RspOrderInsert ctp_input_order rsp_info int
  | RspOrderAction ctp_order_action rsp_info int
  | RtnOrder ctp_order
  | RtnTrade ctp_trade
  | ErrRtnOrderInsert ctp_input_order int string
  | ErrRtnOrderAction ctp_order_action int string
  | RspQryOrder "ctp_order option" int bool
  | RspQryTrade "ctp_trade option" int bool

fun run_callback ::
    "(ctp_request \<Rightarrow> int) \<Rightarrow> 't eng_env \<Rightarrow> ctp_callback \<Rightarrow> 't td_ctp \<Rightarrow> 't td_ctp res" where
  "run_callback api env FrontConnected s = CTDEngineCtp_OnFrontConnected s"
| "run_callback api env FrontDisconnected s = CTDEngineCtp_OnFrontDisconnected api s"
| "run_callback api env (RspAuthenticate info rid) s = Inr (CTDEngineCtp_OnRspAuthenticate info rid s)"
| "run_callback api env (RspUserLogin l info rid) s = Inr (CTDEngineCtp_OnRspUserLogin l info rid s)"
| "run_callback api env (RspSettlementInfoConfirm info rid) s =
     Inr (CTDEngineCtp_OnRspSettlementInfoConfirm info rid s)"
| "run_callback api env (RspUserLogout info rid) s = Inr (CTDEngineCtp_OnRspUserLogout info rid s)"
| "run_callback api env (RspQryInstrument i info rid is_last) s =
     Inr (CTDEngineCtp_OnRspQryInstrument i info rid is_last s)"
| "run_callback api env (RspOrderInsert order info rid) s = CTDEngineCtp_OnRspOrderInsert env order info rid s"
| "run_callback api env (RspOrderAction act info rid) s = CTDEngineCtp_OnRspOrderAction env act info rid s"
| "run_callback api env (RtnOrder order) s = CTDEngineCtp_OnRtnOrder env order s"
| "run_callback api env (RtnTrade trade) s = CTDEngineCtp_OnRtnTrade env trade s"
| "run_callback api env (ErrRtnOrderInsert order e m) s = CTDEngineCtp_OnErrRtnOrderInsert env order (e, m) s"
| "run_callback api env (ErrRtnOrderAction act e m) s = CTDEngineCtp_OnErrRtnOrderAction env act (e, m) s"
| "run_callback api env (RspQryOrder order rid is_last) s = CTDEngineCtp_OnRspQryOrder order rid is_last s"
| "run_callback api env (RspQryTrade trade rid is_last) s = CTDEngineCtp_OnRspQryTrade trade rid is_last s"

section \<open>Start of the engine\<close>

text \<open>
  A synchronous request: the call, then the loop that waits for the answer. \<open>during\<close> are the
  callbacks that arrive in that time; after it the loop ended by its flag or by its timeout.
\<close>

definition request_and_wait ::
    "(ctp_request \<Rightarrow> int) \<Rightarrow> (ctp_request \<Rightarrow> ctp_callback list) \<Rightarrow> 't eng_env \<Rightarrow> int \<Rightarrow> ctp_request \<Rightarrow>
     't td_ctp \<Rightarrow> (int \<times> 't td_ctp) res" where
  "request_and_wait api during env idx q s =
     res_bind (api_call api idx q s) (\<lambda>(ret, s1).
     res_bind (run_steps (run_callback api env) (during q) s1) (\<lambda>s2. Inr (ret, s2)))"

text \<open>\<^verbatim>\<open>connect\<close>: \<open>created\<close> says whether the interface hands out an object, \<open>during\<close> what follows \<^verbatim>\<open>Init\<close>.\<close>

fun connect_from ::
    "(nat \<Rightarrow> bool) \<Rightarrow> (nat \<Rightarrow> ctp_callback list) \<Rightarrow> (ctp_request \<Rightarrow> int) \<Rightarrow> 't eng_env \<Rightarrow> nat \<Rightarrow> nat \<Rightarrow>
     't td_ctp \<Rightarrow> 't td_ctp res" where
  "connect_from created during api env idx 0 s = Inr s"
| "connect_from created during api env idx (Suc n) s =
     (let u = ct_account_units s ! idx in
      if \<not> au_api u \<and> \<not> created idx then Inl Uncaught
      else
        res_bind (upd_unit (int idx) (\<lambda>u. u\<lparr>au_api := True\<rparr>) s) (\<lambda>s1.
        res_bind
          (if au_connected u then Inr s1
           else
             res_bind (upd_unit (int idx) (\<lambda>u. u\<lparr>au_initialized := True\<rparr>) (s1\<lparr>ct_curAccountIdx := int idx\<rparr>))
               (run_steps (run_callback api env) (during idx)))
          (connect_from created during api env (Suc idx) n)))"

definition CTDEngineCtp_connect ::
    "(nat \<Rightarrow> bool) \<Rightarrow> (nat \<Rightarrow> ctp_callback list) \<Rightarrow> (ctp_request \<Rightarrow> int) \<Rightarrow> 't eng_env \<Rightarrow>
     't td_ctp \<Rightarrow> 't td_ctp res" where
  "CTDEngineCtp_connect created during api env s =
     connect_from created during api env 0 (length (ct_account_units s)) s"

definition login_step ::
    "(account_unit \<Rightarrow> bool) \<Rightarrow> (int \<Rightarrow> account_unit \<Rightarrow> account_unit) \<Rightarrow> (account_unit \<Rightarrow> int \<Rightarrow> ctp_request) \<Rightarrow>
     (ctp_request \<Rightarrow> int) \<Rightarrow> (ctp_request \<Rightarrow> ctp_callback list) \<Rightarrow> 't eng_env \<Rightarrow> nat \<Rightarrow>
     't td_ctp \<Rightarrow> 't td_ctp res" where
  "login_step is_done set_rid mk api during env idx s =
     (let u = ct_account_units s ! idx; rid = te_request_id s in
      if is_done u then Inr s
      else
        res_bind (upd_unit (int idx) (set_rid rid) s) (\<lambda>s1.
        res_bind (request_and_wait api during env (int idx) (mk u rid) (s1\<lparr>te_request_id := rid + 1\<rparr>))
          (\<lambda>(_, s2). Inr s2)))"

fun login_from ::
    "(ctp_request \<Rightarrow> int) \<Rightarrow> (ctp_request \<Rightarrow> ctp_callback list) \<Rightarrow> 't eng_env \<Rightarrow> nat \<Rightarrow> nat \<Rightarrow>
     't td_ctp \<Rightarrow> 't td_ctp res" where
  "login_from api during env idx 0 s = Inr s"
| "login_from api during env idx (Suc n) s =
     res_bind (login_step au_authenticated (\<lambda>r u. u\<lparr>au_auth_rid := r\<rparr>)
         (\<lambda>u r. ReqAuthenticate (int idx) (au_broker_id u) (au_user_id u) (au_user_product_info u)
                  (ct_auth_code s) (ct_app_id s) r) api during env idx s) (\<lambda>s1.
     res_bind (login_step au_logged_in (\<lambda>r u. u\<lparr>au_login_rid := r\<rparr>)
         (\<lambda>u r. ReqUserLogin (int idx) (au_user_id u) (au_broker_id u) (au_passwd u)
                  (au_user_product_info u) r) api during env idx s1) (\<lambda>s2.
     res_bind (login_step au_settle_confirmed (\<lambda>r u. u\<lparr>au_settle_rid := r\<rparr>)
         (\<lambda>u r. ReqSettlementInfoConfirm (int idx) (au_broker_id u) (au_user_id u) r) api during env idx s2)
       (login_from api during env (Suc idx) n)))"

definition CTDEngineCtp_login ::
    "(ctp_request \<Rightarrow> int) \<Rightarrow> (ctp_request \<Rightarrow> ctp_callback list) \<Rightarrow> 't eng_env \<Rightarrow> 't td_ctp \<Rightarrow> 't td_ctp res" where
  "CTDEngineCtp_login api during env s = login_from api during env 0 (length (ct_account_units s)) s"

definition CTDEngineCtp_queryInstruments ::
    "(ctp_request \<Rightarrow> int) \<Rightarrow> (ctp_request \<Rightarrow> ctp_callback list) \<Rightarrow> 't eng_env \<Rightarrow> 't td_ctp \<Rightarrow>
     (bool \<times> 't td_ctp) res" where
  "CTDEngineCtp_queryInstruments api during env s =
     (let q = ReqQryInstrument 0 (te_request_id s) in
      res_bind (api_call api 0 q (s\<lparr>te_request_id := te_request_id s + 1\<rparr>)) (\<lambda>(ret, s1).
        if ret \<noteq> 0 then Inr (False, s1)
        else res_bind (run_steps (run_callback api env) (during q) s1) (\<lambda>s2.
          Inr (tb_is_init (te_base s2), s2))))"

definition CTDEngineCtp_getBaseInfo ::
    "string \<Rightarrow> (ctp_request \<Rightarrow> int) \<Rightarrow> (ctp_request \<Rightarrow> ctp_callback list) \<Rightarrow> 't eng_env \<Rightarrow> 't td_ctp \<Rightarrow>
     (bool \<times> 't td_ctp) res" where
  "CTDEngineCtp_getBaseInfo trading_day api during env s =
     CTDEngineCtp_queryInstruments api during env (s\<lparr>te_base := (te_base s)\<lparr>tb_trading_day := trading_day\<rparr>\<rparr>)"

text \<open>\<^verbatim>\<open>memset(order_track, 0, ..)\<close>, references included.\<close>

definition COrderTrackMmap_clearTrack :: "'t td_ctp \<Rightarrow> 't td_ctp" where
  "COrderTrackMmap_clearTrack s =
     s\<lparr>te_request_track := (\<lambda>_. order_track_init\<lparr>ot_order_ref := 0, ot_front_id := 0, ot_session_id := 0\<rparr>)\<rparr>"

text \<open>The queries of all accounts, one after the other; a refused or unanswered one ends them.\<close>

fun query_from ::
    "(nat \<Rightarrow> account_unit \<Rightarrow> int \<Rightarrow> ctp_request) \<Rightarrow> bool \<Rightarrow> (ctp_request \<Rightarrow> int) \<Rightarrow>
     (ctp_request \<Rightarrow> ctp_callback list) \<Rightarrow> 't eng_env \<Rightarrow> nat \<Rightarrow> nat \<Rightarrow> 't td_ctp \<Rightarrow> (bool \<times> 't td_ctp) res" where
  "query_from mk count api during env idx 0 s = Inr (True, s)"
| "query_from mk count api during env idx (Suc n) s =
     (let q = mk idx (ct_account_units s ! idx) (te_request_id s);
          s1 = s\<lparr>ct_query_complete_flag := False, ct_curAccountIdx := int idx,
                 te_request_id := (if count then te_request_id s + 1 else te_request_id s)\<rparr>
      in res_bind (api_call api (int idx) q s1) (\<lambda>(ret, s2).
           if ret \<noteq> 0 then Inr (False, s2)
           else res_bind (run_steps (run_callback api env) (during q) s2) (\<lambda>s3.
             if \<not> ct_query_complete_flag s3 then Inr (False, s3)
             else query_from mk count api during env (Suc idx) n s3)))"

definition CTDEngineCtp_updateTradedAmount ::
    "(ctp_request \<Rightarrow> int) \<Rightarrow> (ctp_request \<Rightarrow> ctp_callback list) \<Rightarrow> 't eng_env \<Rightarrow> 't td_ctp \<Rightarrow>
     (bool \<times> 't td_ctp) res" where
  "CTDEngineCtp_updateTradedAmount api during env s =
     query_from (\<lambda>idx u rid. ReqQryTrade (int idx) (au_broker_id u) (au_user_id u) rid) False
       api during env 0 (length (ct_account_units s))
       (s\<lparr>te_request_track := (\<lambda>k. (te_request_track s k)\<lparr>ot_amount_traded := 0\<rparr>)\<rparr>)"

definition CTDEngineCtp_updateOrderTrack ::
    "(ctp_request \<Rightarrow> int) \<Rightarrow> (ctp_request \<Rightarrow> ctp_callback list) \<Rightarrow> 't eng_env \<Rightarrow> 't td_ctp \<Rightarrow>
     (bool \<times> 't td_ctp) res" where
  "CTDEngineCtp_updateOrderTrack api during env s =
     (if \<not> te_track_mapped s then Inl NullDeref
      else
        (let day = tb_trading_day (te_base s);
             s1 = (if day \<noteq> te_track_day s then COrderTrackMmap_clearTrack s else s)\<lparr>te_track_day := c_str day\<rparr>
         in res_bind (query_from (\<lambda>idx u rid. ReqQryOrder (int idx) (au_broker_id u) (au_user_id u) rid) True
                        api during env 0 (length (ct_account_units s1)) s1) (\<lambda>(ok, s2).
              if \<not> ok then Inr (False, s2)
              else CTDEngineCtp_updateTradedAmount api during env
                     (s2\<lparr>te_request_id := ct_max_ref_id s2 + 1\<rparr>))))"

text \<open>\<^verbatim>\<open>init\<close> after the configuration was read: the accounts \<open>accs\<close>, each a broker, a user and a password.\<close>

definition CTDEngineCtp_init ::
    "string \<Rightarrow> string \<Rightarrow> int \<Rightarrow> (string \<times> string \<times> string) list \<Rightarrow> bool \<Rightarrow> (nat \<Rightarrow> bool) \<Rightarrow>
     (nat \<Rightarrow> ctp_callback list) \<Rightarrow> (ctp_request \<Rightarrow> int) \<Rightarrow> (ctp_request \<Rightarrow> ctp_callback list) \<Rightarrow>
     't eng_env \<Rightarrow> 't td_ctp \<Rightarrow> (bool \<times> 't td_ctp) res" where
  "CTDEngineCtp_init name myid int_user_id accs path_ok created during_connect api during env s =
     (let s1 = s\<lparr>te_name := name, ct_int_user_id := int_user_id, ct_user_product_info := myid,
                 ct_max_ref_id := te_request_id_start s - 1\<rparr>;
          s2 = s1\<lparr>ct_account_units := map (\<lambda>(b, u, p). CTDEngineCtp_load_account b u p s1) accs\<rparr>
      in if \<not> path_ok then Inr (False, s2)
         else
           res_bind (CTDEngineCtp_connect created during_connect api env s2) (\<lambda>s3.
             if \<not> CTDEngineCtp_is_connected s3 then Inr (False, s3)
             else
               res_bind (CTDEngineCtp_login api during env s3) (\<lambda>s4.
                 Inr (CTDEngineCtp_is_logged_in s4, s4))))"

section \<open>The engine as a whole\<close>

definition ctp_round ::
    "(ctp_request \<Rightarrow> int) \<Rightarrow> td_frame io_view \<Rightarrow> 't eng_env \<Rightarrow> 't td_ctp \<Rightarrow> 't td_ctp res" where
  "ctp_round api v env s =
     td_round (CTDEngineCtp_req_order_insert api env) (CTDEngineCtp_req_order_action api env) v env s"

definition CTDEngineCtp_listening ::
    "(ctp_request \<Rightarrow> int) \<Rightarrow> 't eng_env \<Rightarrow> file_env \<Rightarrow> disk \<Rightarrow> (td_frame io_view \<times> 't eng_env) list \<Rightarrow>
     't td_ctp \<Rightarrow> (disk option \<times> 't td_ctp) res" where
  "CTDEngineCtp_listening api = ITDEngine_listening (ctp_round api)"

end
