(* ===== verification/Risk_Top.thy ===== *)
theory Risk_Top
  imports Risk_Limits
begin

text \<open>
  The risk control of an account at the broker while a day goes on (\<open>top_ready\<close>): everything listed is
  registered, every pointer is good and no treap is stale. Its operations then return for all
  arguments, whatever a client asks and whatever the broker reports, and stay so. What the amounts
  in the account mean is not part of this (\<open>Acc_Inv\<close>): reports that do not fit the positions may
  make it wrong, but they do not make it follow a bad pointer.
\<close>

section \<open>The account\<close>

definition acc_linked :: "acc_base \<Rightarrow> bool" where
  "acc_linked s \<longleftrightarrow> (\<forall>h i. map_of (ab_map_instr s) h = Some i \<longrightarrow> linked (ab_map_prd s) i)"

definition acc_lists :: "instr_table \<Rightarrow> acc_base \<Rightarrow> bool" where
  "acc_lists tb s \<longleftrightarrow>
     (\<forall>h info. map_of tb h = Some info \<longrightarrow>
        um_has h (ab_map_instr s) \<and> um_has (ii_product_hash info) (ab_map_prd s))"

lemma acc_inv_linked: "acc_inv s \<Longrightarrow> acc_linked s"
  using acc_invD(3) by (auto simp: acc_linked_def)

lemma linked_ctx:
  assumes "acc_linked s" "map_of (ab_map_instr s) h = Some i"
  obtains k p where "ins_p_prd i = PtrTo k" "map_of (ab_map_prd s) k = Some p" "ins_p_acc i = PtrTo ()"
    "acc_ctx h s = mk_ctx i p (ab_mod_acc s)"
proof -
  have "linked (ab_map_prd s) i" using assms by (simp add: acc_linked_def)
  then obtain k p where
    k: "ins_p_prd i = PtrTo k" "map_of (ab_map_prd s) k = Some p" "ins_p_acc i = PtrTo ()"
    unfolding linked_def by blast
  moreover have "acc_ctx h s = mk_ctx i p (ab_mod_acc s)"
    unfolding acc_ctx_def acc_ptr_def mk_ctx_def using assms(2) k by simp
  ultimately show ?thesis by (rule that)
qed

text \<open>Acting on an instrument and putting the outcome back keeps the links and erases nothing.\<close>

lemma put_ctx_linked:
  assumes inv: "acc_linked s" and i: "map_of (ab_map_instr s) h = Some i"
    and mv: "\<And>c. live c \<Longrightarrow> moved c (act c)"
  shows "\<exists>d. act (acc_ctx h s) = Inr d \<and> acc_linked (acc_put_ctx h d s) \<and> acc_grows s (acc_put_ctx h d s)"
proof -
  obtain k p where k: "ins_p_prd i = PtrTo k" "map_of (ab_map_prd s) k = Some p" "ins_p_acc i = PtrTo ()"
    "acc_ctx h s = mk_ctx i p (ab_mod_acc s)"
    by (rule linked_ctx [OF inv i])
  obtain d where d: "act (acc_ctx h s) = Inr d" "moves (mk_ctx i p (ab_mod_acc s)) d"
    using mv [OF live_mk] unfolding moved_def k(4) by blast
  obtain i' p' a' where d': "d = mk_ctx i' p' a'"
    using moves_live [OF d(2)] unfolding live_def by blast
  have same: "ins_p_prd i' = PtrTo k" "ins_p_acc i' = PtrTo ()"
    using d(2) k by (auto simp: d' moves_mk)
  have maps: "ab_map_instr (acc_put_ctx h d s) = AList.update h i' (ab_map_instr s)"
    "ab_map_prd (acc_put_ctx h d s) = AList.update k p' (ab_map_prd s)"
    by (simp_all add: acc_put_ctx_def d' same)
  have "acc_linked (acc_put_ctx h d s)"
    using inv same unfolding acc_linked_def maps linked_def
    by (simp add: update_conv') (metis option.distinct(1))
  moreover have "acc_grows s (acc_put_ctx h d s)"
    by (auto simp: acc_grows_def maps um_has_def update_conv')
  ultimately show ?thesis using d(1) by blast
qed

lemma regInstr_listed:
  assumes "base_ok tb" "acc_lists tb s" "map_of tb h = Some info"
  shows "AccBase_regInstr tb (ii_instr info) s = (True, s)"
proof -
  note B = base_okD [OF assms(1,3)]
  show ?thesis
    using assms(2,3) B(1)
    by (simp add: AccBase_regInstr_def acc_lists_def AccBase_isExistModPrd_def AccBase_isExistModInstr_def)
qed

lemma acc_on_instr_linked:
  assumes base: "base_ok tb" and inv: "acc_linked s" "acc_lists tb s"
    and mv: "\<And>c. live c \<Longrightarrow> moved c (act c)"
  shows "\<exists>t. acc_on_instr tb h act s = Inr t \<and> acc_linked t \<and> acc_grows s t"
proof (cases "map_of tb h")
  case None
  with inv show ?thesis by (simp add: acc_on_instr_def acc_grows_def)
next
  case (Some info)
  with inv(2) obtain i where i: "map_of (ab_map_instr s) h = Some i"
    by (auto simp: acc_lists_def um_has_def)
  from put_ctx_linked [OF inv(1) i, of act, OF mv] obtain d where
    d: "act (acc_ctx h s) = Inr d" "acc_linked (acc_put_ctx h d s)" "acc_grows s (acc_put_ctx h d s)" by blast
  have "s\<lparr>ab_map_instr := um_touch mod_instr_init h (ab_map_instr s)\<rparr> = s" using i by simp
  with d Some i regInstr_listed [OF base inv(2) Some] show ?thesis
    by (simp add: acc_on_instr_def)
qed

lemma acc_lists_grows: "acc_lists tb s \<Longrightarrow> acc_grows s t \<Longrightarrow> acc_lists tb t"
  by (auto simp: acc_lists_def acc_grows_def)

section \<open>The risk control\<close>

definition prd_registered :: "'t risk_top \<Rightarrow> u32 \<Rightarrow> bool" where
  "prd_registered r k \<longleftrightarrow>
     um_has k (ab_map_prd (rt_acc_base r)) \<and>
     (\<exists>rp. map_of (rt_map_risk_prd r) k = Some rp \<and> rp_p_unit_vol rp = PtrTo k)"

definition instr_registered :: "'t risk_top \<Rightarrow> u32 \<Rightarrow> bool" where
  "instr_registered r h \<longleftrightarrow>
     um_has h (ab_map_instr (rt_acc_base r)) \<and>
     (\<exists>q. map_of (rt_map_risk_instr r) h = Some q \<and> ri_p_unit_vol q = PtrTo h)"

definition top_fresh :: "'t risk_top \<Rightarrow> bool" where
  "top_fresh r \<longleftrightarrow>
     (\<forall>h q. map_of (rt_map_risk_instr r) h = Some q \<longrightarrow> \<not> ask_stale q \<and> \<not> bid_stale q)"

definition top_ready :: "instr_table \<Rightarrow> 't risk_top \<Rightarrow> bool" where
  "top_ready tb r \<longleftrightarrow>
     acc_linked (rt_acc_base r) \<and> ra_p_mod_acc (rt_risk_acc r) = PtrTo () \<and> top_fresh r \<and>
     (\<forall>h info. map_of tb h = Some info \<longrightarrow>
        instr_registered r h \<and> prd_registered r (ii_product_hash info))"

text \<open>An order finds room among the nodes of its instrument.\<close>

definition top_room :: "u32 \<Rightarrow> 't risk_top \<Rightarrow> bool" where
  "top_room h r \<longleftrightarrow>
     (\<forall>q. map_of (rt_map_risk_instr r) h = Some q \<longrightarrow> length (vec_treap_node q) < vec_capacity q)"

lemma top_readyD:
  assumes "top_ready tb r"
  shows "acc_linked (rt_acc_base r)" "ra_p_mod_acc (rt_risk_acc r) = PtrTo ()" "top_fresh r"
    "acc_lists tb (rt_acc_base r)"
    "map_of tb h = Some info \<Longrightarrow> instr_registered r h"
    "map_of tb h = Some info \<Longrightarrow> prd_registered r (ii_product_hash info)"
  using assms by (auto simp: top_ready_def acc_lists_def instr_registered_def prd_registered_def)

lemma instr_check_total:
  assumes "instr_registered r h" "map_of (rt_map_risk_instr r) h = Some q" "top_fresh r"
  shows "\<exists>e. RiskInstrTop_check ops (rt_acc_base r) dir off px vol now q = Inr e"
proof -
  from assms(1,2) obtain i where "ri_p_unit_vol q = PtrTo h" "map_of (ab_map_instr (rt_acc_base r)) h = Some i"
    by (auto simp: instr_registered_def um_has_def)
  then have "\<exists>e. RiskInstr_check (rt_acc_base r) d off vol now q = Inr e" for d
    by (simp add: RiskInstr_check_def ri_vol_def)
  then show ?thesis using assms(2,3) by (simp add: RiskInstrTop_check_def top_fresh_def)
qed

text \<open>\<^verbatim>\<open>check\<close> returns, after one look into the map, and changes nothing.\<close>

lemma RiskTop_check_total:
  assumes base: "base_ok tb" and inv: "top_ready tb r"
  shows "\<exists>e. RiskTop_check (Suc n) ops tb now dir off px vol h r = Inr (e, r)"
proof (cases "map_of tb h")
  case None
  then show ?thesis by (simp add: RiskTop_check_def)
next
  case (Some info)
  note R = top_readyD [OF inv] and B = base_okD [OF base Some]
  from R(5) [OF Some] obtain q where q: "map_of (rt_map_risk_instr r) h = Some q"
    by (auto simp: instr_registered_def)
  from R(6) [OF Some] obtain rp p where rp: "map_of (rt_map_risk_prd r) (ii_product_hash info) = Some rp"
    "rp_p_unit_vol rp = PtrTo (ii_product_hash info)"
    "map_of (ab_map_prd (rt_acc_base r)) (ii_product_hash info) = Some p"
    by (auto simp: prd_registered_def um_has_def)
  obtain e1 where e1: "RiskInstrTop_check ops (rt_acc_base r) dir off px vol now q = Inr e1"
    using instr_check_total [OF R(5) [OF Some] q R(3)] by blast
  show ?thesis
    using Some q rp e1 R(2) B(4)
    by (simp add: RiskTop_check_def RiskPrd_check_def RiskAcc_check_def acc_ptr_def deref_def Let_def)
qed

lemma top_at_ready:
  assumes inv: "top_ready tb r"
    and f: "\<And>q. map_of (rt_map_risk_instr r) h = Some q \<or> q = risk_instr_top_init ops \<Longrightarrow>
      \<not> ask_stale q \<Longrightarrow> \<not> bid_stale q \<Longrightarrow>
      \<exists>q'. f q = Inr q' \<and> \<not> ask_stale q' \<and> \<not> bid_stale q' \<and> ri_p_unit_vol q' = ri_p_unit_vol q"
  shows "\<exists>t. top_at ops h f r = Inr t \<and> top_ready tb t"
proof -
  let ?m = "um_touch (risk_instr_top_init ops) h (rt_map_risk_instr r)"
  note R = top_readyD [OF inv]
  obtain q where q: "map_of ?m h = Some q" "map_of (rt_map_risk_instr r) h = Some q \<or> q = risk_instr_top_init ops"
    by (cases "map_of (rt_map_risk_instr r) h") (auto simp: map_of_um_touch)
  have "\<not> ask_stale q" "\<not> bid_stale q"
    using q(2) R(3) by (auto simp: top_fresh_def risk_instr_top_init_def risk_instr.defs)
  from f [OF q(2) this] obtain q' where
    q': "f q = Inr q'" "\<not> ask_stale q'" "\<not> bid_stale q'" "ri_p_unit_vol q' = ri_p_unit_vol q" by blast
  let ?t = "r\<lparr>rt_map_risk_instr := AList.update h q' ?m\<rparr>"
  have at: "top_at ops h f r = Inr ?t" using q(1) q'(1) by (simp add: top_at_def Let_def)
  have m: "map_of (AList.update h q' ?m) j = (if j = h then Some q' else map_of (rt_map_risk_instr r) j)" for j
    by (simp add: update_conv' map_of_um_touch)
  have regs: "instr_registered ?t j" if "instr_registered r j" for j
    using that q(1) q'(4) m by (auto simp: instr_registered_def map_of_um_touch)
  have prds: "prd_registered ?t k = prd_registered r k" for k by (simp add: prd_registered_def)
  have "top_fresh ?t" using R(3) q'(2,3) m by (auto simp: top_fresh_def split: if_splits)
  then have "top_ready tb ?t" using inv regs prds by (auto simp: top_ready_def)
  with at show ?thesis by blast
qed

lemma top_ready_acc:
  assumes inv: "top_ready tb r" and ab: "acc_linked ab" "acc_grows (rt_acc_base r) ab"
  shows "top_ready tb (r\<lparr>rt_acc_base := ab\<rparr>)"
  using assms unfolding top_ready_def acc_grows_def instr_registered_def prd_registered_def top_fresh_def
  by auto

lemma RiskTop_onNew_total:
  assumes base: "base_ok tb" and inv: "top_ready tb r" and room: "top_room h r"
  shows "\<exists>t. RiskTop_onNew ops tb now dir off px vol h ref r = Inr t \<and> top_ready tb t"
proof -
  note R = top_readyD [OF inv]
  from acc_on_instr_linked [OF base R(1,4), of "ModInstr_onNew dir off px vol" h] moved_onNew obtain ab where
    ab: "AccBase_onNew tb dir off px vol h (rt_acc_base r) = Inr ab" "acc_linked ab" "acc_grows (rt_acc_base r) ab"
    unfolding AccBase_onNew_def by blast
  let ?r = "r\<lparr>rt_acc_base := ab\<rparr>"
  have "\<exists>t. top_at ops h (RiskInstrTop_onNew ops dir px ref now) ?r = Inr t \<and> top_ready tb t"
  proof (rule top_at_ready [OF top_ready_acc [OF inv ab(2,3)]])
    fix q :: "'a risk_instr_top"
    assume q: "map_of (rt_map_risk_instr ?r) h = Some q \<or> q = risk_instr_top_init ops"
      "\<not> ask_stale q" "\<not> bid_stale q"
    have "length (vec_treap_node q) \<noteq> vec_capacity q"
      using q(1) room by (auto simp: top_room_def risk_instr_top_init_def risk_instr.defs)
    with q(2,3) show "\<exists>q'. RiskInstrTop_onNew ops dir px ref now q = Inr q' \<and> \<not> ask_stale q' \<and>
        \<not> bid_stale q' \<and> ri_p_unit_vol q' = ri_p_unit_vol q"
      by (simp add: RiskInstrTop_onNew_def vec_emplace_back_def Let_def RiskInstr_onNew_def)
  qed
  with ab(1) show ?thesis by (simp add: RiskTop_onNew_def)
qed

lemma top_erase_ready:
  "\<not> ask_stale q \<Longrightarrow> \<not> bid_stale q \<Longrightarrow>
   \<exists>q'. top_erase ops ref dir q = Inr q' \<and> \<not> ask_stale q' \<and> \<not> bid_stale q' \<and> ri_p_unit_vol q' = ri_p_unit_vol q"
  by (simp add: top_erase_def Let_def)

lemma RiskTop_onRtn_total:
  assumes base: "base_ok tb" and inv: "top_ready tb r"
  shows "\<exists>u. RiskTop_onRtn ops tb t m r = Inr u \<and> top_ready tb u"
proof -
  note R = top_readyD [OF inv]
  from acc_on_instr_linked [OF base R(1,4), of "rtn_act t m" "ot_instr_hash t"] moved_rtn obtain ab where
    ab: "AccBase_onRtn tb t m (rt_acc_base r) = Inr ab" "acc_linked ab" "acc_grows (rt_acc_base r) ab"
    unfolding AccBase_onRtn_def by blast
  let ?r = "r\<lparr>rt_acc_base := ab\<rparr>"
  have r: "top_ready tb ?r" by (rule top_ready_acc [OF inv ab(2,3)])
  have cxl: "\<exists>u. top_at ops (ot_instr_hash t) (RiskInstrTop_onCxl ops t) s = Inr u \<and> top_ready tb u"
    if "top_ready tb s" for s
    by (rule top_at_ready [OF that]) (simp add: RiskInstrTop_onCxl_def top_erase_ready)
  have trd: "\<exists>u. top_at ops (ot_instr_hash t) (RiskInstrTop_onTrd ops t) s = Inr u \<and> top_ready tb u"
    if "top_ready tb s" for s
    by (rule top_at_ready [OF that]) (simp add: RiskInstrTop_onTrd_def top_erase_ready)
  obtain r1 where r1: "(if rm_msg_type m AND ODS_CANCELED \<noteq> 0
      then top_at ops (ot_instr_hash t) (RiskInstrTop_onCxl ops t) ?r else Inr ?r) = Inr r1" "top_ready tb r1"
    using cxl [OF r] r by (cases "rm_msg_type m AND ODS_CANCELED \<noteq> 0") auto
  have "RiskTop_onRtn ops tb t m r =
      (if rm_msg_type m AND ODS_EXECUTION \<noteq> 0
       then top_at ops (ot_instr_hash t) (RiskInstrTop_onTrd ops t) r1 else Inr r1)"
    unfolding RiskTop_onRtn_def ab(1) res_bind_simps r1(1) ..
  with trd [OF r1(2)] r1(2) show ?thesis by (cases "rm_msg_type m AND ODS_EXECUTION \<noteq> 0") auto
qed

section \<open>Registering everything that is listed\<close>

lemma regInstr_linked:
  assumes base: "base_ok tb" and inv: "acc_linked s" and info: "map_of tb h = Some info"
    and name: "INSTR_NAME_TO_HASH name = h"
  obtains s1 where "AccBase_regInstr tb name s = (True, s1)" "acc_linked s1" "acc_grows s s1"
    "um_has h (ab_map_instr s1)" "um_has (ii_product_hash info) (ab_map_prd s1)"
proof -
  note B = base_okD [OF base info]
  let ?k = "ii_product_hash info"
  define s1 where "s1 = snd (if AccBase_isExistModPrd ?k s then (True, s)
                 else AccBase_regModPrd (ii_product info) s)"
  have s1: "(if AccBase_isExistModPrd ?k s then (True, s)
                 else AccBase_regModPrd (ii_product info) s) = (True, s1)"
    and k1: "\<exists>p. map_of (ab_map_prd s1) ?k = Some p"
    and same1: "ab_map_instr s1 = ab_map_instr s" and grows1: "acc_grows s s1"
    using B(2) by (auto simp: s1_def AccBase_isExistModPrd_def um_has_def regModPrd_new acc_grows_def)
  have inv1: "acc_linked s1"
    using inv grows1 unfolding acc_linked_def same1 linked_def acc_grows_def um_has_def by fastforce
  from k1 obtain p where p: "map_of (ab_map_prd s1) ?k = Some p" by blast
  show ?thesis
  proof (cases "map_of (ab_map_instr s1) h")
    case (Some i)
    then have "AccBase_regInstr tb name s = (True, s1)"
      using s1 info name by (simp add: AccBase_regInstr_def AccBase_isExistModInstr_def um_has_def)
    with Some inv1 grows1 k1 that [of s1] show ?thesis by (simp add: um_has_def)
  next
    case None
    note L = reg_link_new [OF None p name [symmetric] info B(3)]
    let ?s = "snd (case AccBase_regModInstr tb name s1 of (ok2, s2) \<Rightarrow>
       if \<not> ok2 then (False, s2) else (True, acc_link h ?k s2))"
    have "AccBase_regInstr tb name s = (True, ?s)"
      using s1 info name None L
      by (simp add: AccBase_regInstr_def AccBase_isExistModInstr_def um_has_def)
    moreover have "acc_linked ?s" using inv1 p unfolding L by (auto simp: acc_linked_def linked_def)
    moreover have "acc_grows s ?s" using grows1 unfolding L by (auto simp: acc_grows_def um_has_def)
    ultimately show ?thesis using k1 unfolding L by (intro that [of ?s]) (simp_all add: um_has_def L)
  qed
qed

text \<open>What holds while not everything is registered yet.\<close>

definition top_linked :: "'t risk_top \<Rightarrow> bool" where
  "top_linked r \<longleftrightarrow>
     acc_linked (rt_acc_base r) \<and> ra_p_mod_acc (rt_risk_acc r) = PtrTo () \<and> top_fresh r \<and> conf_ok (rt_j_conf r) \<and>
     (\<forall>h. um_has h (rt_map_risk_instr r) \<longrightarrow> instr_registered r h) \<and>
     (\<forall>k. um_has k (rt_map_risk_prd r) \<longrightarrow> prd_registered r k)"

definition top_keeps :: "'t risk_top \<Rightarrow> 't risk_top \<Rightarrow> bool" where
  "top_keeps r s \<longleftrightarrow>
     (\<forall>h. instr_registered r h \<longrightarrow> instr_registered s h) \<and> (\<forall>k. prd_registered r k \<longrightarrow> prd_registered s k)"

lemma registered_grows:
  "acc_grows (rt_acc_base r) ab \<Longrightarrow> instr_registered r h \<Longrightarrow> instr_registered (r\<lparr>rt_acc_base := ab\<rparr>) h"
  "acc_grows (rt_acc_base r) ab \<Longrightarrow> prd_registered r k \<Longrightarrow> prd_registered (r\<lparr>rt_acc_base := ab\<rparr>) k"
  by (auto simp: acc_grows_def instr_registered_def prd_registered_def)

lemma regRiskPrd_linked:
  assumes r: "top_linked r" and has: "um_has (INSTR_NAME_TO_HASH name) (ab_map_prd (rt_acc_base r))"
  shows "\<exists>ok t. RiskTop_regRiskPrd name r = Inr (ok, t) \<and> top_linked t \<and> top_keeps r t \<and>
    rt_acc_base t = rt_acc_base r \<and> prd_registered t (INSTR_NAME_TO_HASH name)"
proof (cases "um_has (INSTR_NAME_TO_HASH name) (rt_map_risk_prd r)")
  case True
  with r show ?thesis
    by (auto simp: RiskTop_regRiskPrd_def Let_def RiskTop_isExistRiskPrd_def top_linked_def top_keeps_def)
next
  case False
  let ?k = "INSTR_NAME_TO_HASH name"
  from r have conf: "conf_ok (rt_j_conf r)" by (simp add: top_linked_def)
  from RiskPrd_init_ok [OF conf has, of risk_prd_init] obtain ok q where
    q: "RiskPrd_init (rt_j_conf r) name (rt_acc_base r) risk_prd_init = Inr (ok, q, rt_acc_base r)"
      "rp_p_unit_vol q = PtrTo ?k" by blast
  let ?t = "r\<lparr>rt_map_risk_prd := AList.update ?k q (rt_map_risk_prd r)\<rparr>"
  have t: "RiskTop_regRiskPrd name r = Inr (ok, ?t)"
    using False q(1) by (simp add: RiskTop_regRiskPrd_def Let_def RiskTop_isExistRiskPrd_def)
  have "instr_registered ?t h = instr_registered r h" for h by (simp add: instr_registered_def)
  moreover have new: "prd_registered ?t k \<longleftrightarrow> k = ?k \<or> prd_registered r k" for k
    using has q(2) by (auto simp: prd_registered_def)
  ultimately have "top_linked ?t" "top_keeps r ?t"
    using r by (auto simp: top_linked_def top_keeps_def top_fresh_def um_has_def split: if_splits)
  with t new show ?thesis by simp
qed

lemma regRiskInstr_linked:
  assumes base: "base_ok tb" and info: "map_of tb h = Some info"
    and r: "top_linked r" and has: "um_has h (ab_map_instr (rt_acc_base r))"
  shows "\<exists>ok t. RiskTop_regRiskInstr ops tb (ii_instr info) r = Inr (ok, t) \<and> top_linked t \<and> top_keeps r t \<and>
    instr_registered t h"
proof (cases "um_has h (rt_map_risk_instr r)")
  case True
  with r base_okD(1) [OF base info] show ?thesis
    by (auto simp: RiskTop_regRiskInstr_def Let_def RiskTop_isExistRiskInstr_def top_linked_def top_keeps_def)
next
  case False
  note B = base_okD [OF base info]
  from r have conf: "conf_ok (rt_j_conf r)" by (simp add: top_linked_def)
  let ?q0 = "(risk_instr_top_init ops)\<lparr>ri_p_unit_vol := PtrTo h\<rparr>"
  have "reads (\<lambda>q. ri_p_unit_vol q = PtrTo h \<and> \<not> ask_stale q \<and> \<not> bid_stale q)
      (RiskInstr_read (rt_j_conf r) tb info ?q0)"
    unfolding RiskInstr_read_def Let_def
    by (rule reads_step, rule conf_at_ok [OF conf], simp add: conf_paths_def,
        (simp add: risk_instr_top_init_def risk_instr.defs; fail | assumption), simp)+
      (rule reads_end)
  then obtain ok q where q: "RiskInstr_init (rt_j_conf r) tb info (rt_acc_base r) (risk_instr_top_init ops) =
        Inr (ok, q, rt_acc_base r)" "ri_p_unit_vol q = PtrTo h" "\<not> ask_stale q" "\<not> bid_stale q"
    using touch_present(2) [of h "rt_acc_base r"] has B(4) by (auto simp: RiskInstr_init_def reads_def)
  let ?t = "r\<lparr>rt_map_risk_instr := AList.update h q (rt_map_risk_instr r)\<rparr>"
  have t: "RiskTop_regRiskInstr ops tb (ii_instr info) r = Inr (ok, ?t)"
    using False q(1) info B(1) by (simp add: RiskTop_regRiskInstr_def Let_def RiskTop_isExistRiskInstr_def)
  have "prd_registered ?t k = prd_registered r k" for k by (simp add: prd_registered_def)
  moreover have new: "instr_registered ?t j \<longleftrightarrow> j = h \<or> instr_registered r j" for j
    using has q(2) by (auto simp: instr_registered_def)
  moreover have "top_fresh ?t" using r q(3,4) by (auto simp: top_linked_def top_fresh_def split: if_splits)
  ultimately have "top_linked ?t" "top_keeps r ?t"
    using r by (auto simp: top_linked_def top_keeps_def um_has_def split: if_splits)
  with t new show ?thesis by simp
qed

lemma regInstr_top_linked:
  assumes base: "base_ok tb" and info: "map_of tb h = Some info" and r: "top_linked r"
  shows "\<exists>ok t. RiskTop_regInstr ops tb (ii_instr info) r = Inr (ok, t) \<and> top_linked t \<and> top_keeps r t \<and>
    (ok \<longrightarrow> instr_registered t h \<and> prd_registered t (ii_product_hash info))"
proof -
  note B = base_okD [OF base info]
  from r have "acc_linked (rt_acc_base r)" by (simp add: top_linked_def)
  then obtain ab where ab: "AccBase_regInstr tb (ii_instr info) (rt_acc_base r) = (True, ab)" "acc_linked ab"
    "acc_grows (rt_acc_base r) ab" "um_has h (ab_map_instr ab)" "um_has (ii_product_hash info) (ab_map_prd ab)"
    by (rule regInstr_linked [OF base _ info B(1)])
  let ?s1 = "r\<lparr>rt_acc_base := ab\<rparr>"
  have s1: "top_linked ?s1" "top_keeps r ?s1"
    using r ab(2) registered_grows [OF ab(3)] by (auto simp: top_linked_def top_keeps_def top_fresh_def)
  from regRiskPrd_linked [OF s1(1), of "ii_product info"] ab(5) B(2) obtain ok2 s2 where
    s2: "RiskTop_regRiskPrd (ii_product info) ?s1 = Inr (ok2, s2)" "top_linked s2" "top_keeps ?s1 s2"
      "rt_acc_base s2 = ab" "prd_registered s2 (ii_product_hash info)" by auto
  have prd: "\<exists>ok2 s2. (if RiskTop_isExistRiskPrd (ii_product_hash info) ?s1 then Inr (True, ?s1)
        else RiskTop_regRiskPrd (ii_product info) ?s1) = Inr (ok2, s2) \<and> top_linked s2 \<and> top_keeps ?s1 s2 \<and>
      rt_acc_base s2 = ab \<and> prd_registered s2 (ii_product_hash info)"
    using s1(1) s2 by (cases "RiskTop_isExistRiskPrd (ii_product_hash info) ?s1")
      (auto simp: RiskTop_isExistRiskPrd_def top_linked_def top_keeps_def)
  then obtain ok2 s2 where s2: "(if RiskTop_isExistRiskPrd (ii_product_hash info) ?s1 then Inr (True, ?s1)
        else RiskTop_regRiskPrd (ii_product info) ?s1) = Inr (ok2, s2)" "top_linked s2" "top_keeps ?s1 s2"
    "rt_acc_base s2 = ab" "prd_registered s2 (ii_product_hash info)" by blast
  have "\<exists>ok3 s3. (if RiskTop_isExistRiskInstr h s2 then Inr (True, s2)
        else RiskTop_regRiskInstr ops tb (ii_instr info) s2) = Inr (ok3, s3) \<and> top_linked s3 \<and>
      top_keeps s2 s3 \<and> instr_registered s3 h"
    using s2(2) regRiskInstr_linked [OF base info s2(2), of ops] ab(4) s2(4)
    by (cases "RiskTop_isExistRiskInstr h s2") (auto simp: RiskTop_isExistRiskInstr_def top_linked_def top_keeps_def)
  then obtain ok3 s3 where s3: "(if RiskTop_isExistRiskInstr h s2 then Inr (True, s2)
        else RiskTop_regRiskInstr ops tb (ii_instr info) s2) = Inr (ok3, s3)" "top_linked s3" "top_keeps s2 s3"
    "instr_registered s3 h" by blast
  have "RiskTop_regInstr ops tb (ii_instr info) r = (if \<not> ok2 then Inr (False, s2) else Inr (ok3, s3))"
    unfolding RiskTop_regInstr_def ab(1) Let_def B(1) using info s2(1) s3(1) by simp
  with s1(2) s2(2,3,5) s3(2-4) show ?thesis by (cases ok2) (auto simp: top_keeps_def)
qed

end
