(* ===== verification/Td_Reports.thy ===== *)
theory Td_Reports
  imports Td_Ctp Risk_Top
begin

text \<open>
  The channel of an engine as the engines use it: the log of what was committed (\<open>wr_log\<close>), a writer that is
  ready (\<open>chan_ready\<close>) or in the middle of a report (\<open>chan_filling\<close>), and the steps that write one report.
\<close>

section \<open>The log of a channel\<close>

text \<open>All frames of the pages of a writer, first page first.\<close>

fun page_walk :: "nat \<Rightarrow> 'a io_page \<Rightarrow> int \<Rightarrow> 'a list" where
  "page_walk 0 p off = []"
| "page_walk (Suc n) p off =
     (if off < pg_tail p then
        (case map_of (pg_mem p) off of
           None \<Rightarrow> []
         | Some f \<Rightarrow> fr_data f # page_walk n p (off + FRAME_HEAD_SIZE + fr_len f))
      else [])"

definition page_log :: "'a io_files \<Rightarrow> nat \<Rightarrow> 'a list" where
  "page_log files k =
     (case map_of files (int k) of
        None \<Rightarrow> [] | Some p \<Rightarrow> page_walk (nat (pg_tail p)) p PAGE_HEAD_SIZE)"

definition wr_log :: "'a io_writer \<Rightarrow> 'a list" where
  "wr_log w = concat (map (page_log (wr_files w)) [0..<nat (wr_page_num w + 1)])"

lemma page_walk_laid:
  "laid p off xs (pg_tail p) \<Longrightarrow> length xs \<le> n \<Longrightarrow> page_walk n p off = xs"
proof (induction n arbitrary: off xs)
  case (Suc n)
  show ?case
  proof (cases xs)
    case (Cons x ys)
    with Suc.prems(1) obtain f where f: "map_of (pg_mem p) off = Some f" "fr_data f = x"
      "laid p (off + FRAME_HEAD_SIZE + fr_len f) ys (pg_tail p)" by auto
    moreover from laid_le [OF Suc.prems(1)] Cons have "off < pg_tail p" by (simp add: FRAME_HEAD_SIZE_def)
    moreover from Suc.prems(2) Cons have "length ys \<le> n" by simp
    ultimately show ?thesis using Suc.IH [OF f(3)] Cons by simp
  qed (use Suc.prems(1) in simp)
qed simp

lemma page_log_ok: "map_of files (int k) = Some p \<Longrightarrow> page_ok ps p xs \<Longrightarrow> page_log files k = xs"
proof -
  assume p: "map_of files (int k) = Some p" and ok: "page_ok ps p xs"
  from ok have l: "laid p PAGE_HEAD_SIZE xs (pg_tail p)" by (simp add: page_ok_def)
  from laid_le [OF l] have "length xs \<le> nat (pg_tail p)"
    by (simp add: FRAME_HEAD_SIZE_def PAGE_HEAD_SIZE_def)
  with page_walk_laid [OF l] p show "page_log files k = xs" by (simp add: page_log_def)
qed

lemma wr_log_at:
  assumes "writer_at ps ph w pgs"
  shows "wr_log w = concat pgs"
proof -
  note W = writer_atD [OF assms]
  have "map (page_log (wr_files w)) [0..<length pgs] = map ((!) pgs) [0..<length pgs]"
  proof (intro map_cong refl)
    fix k assume "k \<in> set [0..<length pgs]"
    then have k: "k < length pgs" by simp
    from files_okD(4) [OF W(1) this] obtain p where
      "map_of (wr_files w) (int k) = Some p" "page_ok ps p (pgs ! k)" by blast
    then show "page_log (wr_files w) k = pgs ! k" by (rule page_log_ok)
  qed
  then show ?thesis by (simp add: wr_log_def W(3) map_nth)
qed

definition chan_ready :: "int \<Rightarrow> 'a io_writer \<Rightarrow> bool" where
  "chan_ready ps w \<longleftrightarrow> (\<exists>pgs. writer_at ps Ready w pgs) \<and> \<not> wr_spin w"

definition chan_filling :: "int \<Rightarrow> int \<Rightarrow> 'a io_writer \<Rightarrow> bool" where
  "chan_filling ps off w \<longleftrightarrow> (\<exists>pgs p. writer_at ps Filling w pgs \<and> wr_page w = Inr p \<and> off = pg_tail p)"

section \<open>One report\<close>

text \<open>A page has room for a report, and the system grants what the writer asks for.\<close>

definition chan_env :: "int \<Rightarrow> 't eng_env \<Rightarrow> bool" where
  "chan_env ps env \<longleftrightarrow> grants (en_io env) \<and> PAGE_HEAD_SIZE + FRAME_HEAD_SIZE + RTN_SIZE \<le> ps"

lemma rtn_prefetch_ok:
  assumes w: "chan_ready ps (te_writer s)" and env: "chan_env ps env"
  shows "\<exists>off w. rtn_prefetch env s = Inr (off, s\<lparr>te_writer := w\<rparr>) \<and> chan_filling ps off w \<and>
    wr_log w = wr_log (te_writer s)"
proof -
  from w obtain pgs where p: "writer_at ps Ready (te_writer s) pgs" "\<not> wr_spin (te_writer s)"
    by (auto simp: chan_ready_def)
  have len: "0 \<le> RTN_SIZE" by (simp add: RTN_SIZE_def)
  from prefetch_ok [OF p(1) _ len, of "en_io env" zero_rtn "en_now env"] env obtain off w1 pgs1 p1 where
    q: "CRawIOWriter_prefetch (en_io env) zero_rtn RTN_SIZE (en_now env) (te_writer s) = Inr (Some off, w1)"
      "writer_at ps Filling w1 pgs1" "concat pgs1 = concat pgs" "wr_page w1 = Inr p1" "off = pg_tail p1"
    unfolding chan_env_def by blast
  let ?w = "w1\<lparr>wr_spin := True\<rparr>"
  have w2: "writer_at ps Filling ?w pgs1" "wr_page ?w = Inr p1"
    using q(2,4) by (auto simp: writer_at_def open_at_def wr_page_def)
  have "rtn_prefetch env s = Inr (off, s\<lparr>te_writer := ?w\<rparr>)"
    using q(1) p(2) by (simp add: rtn_prefetch_def CSafeRawIOWriter_prefetch_def)
  moreover have "chan_filling ps off ?w" using w2 q(5) by (auto simp: chan_filling_def)
  moreover have "wr_log ?w = wr_log (te_writer s)"
    using wr_log_at [OF w2(1)] wr_log_at [OF p(1)] q(3) by simp
  ultimately show ?thesis by blast
qed

lemma rtn_fill_ok:
  assumes "chan_filling ps off (te_writer s)"
  shows "\<exists>w. rtn_fill off f s = s\<lparr>te_writer := w\<rparr> \<and> chan_filling ps off w \<and>
    wr_log w = wr_log (te_writer s) \<and> frame_buf zero_rtn w = f (frame_buf zero_rtn (te_writer s))"
proof -
  from assms obtain pgs p where p: "writer_at ps Filling (te_writer s) pgs" "wr_page (te_writer s) = Inr p"
    "off = pg_tail p" by (auto simp: chan_filling_def)
  let ?w = "fill_frame zero_rtn off f (te_writer s)"
  note F = fill_ok [OF p(1,2), of zero_rtn f, folded p(3)]
  from p(1,2) have op: "open_at ps (te_writer s) pgs p"
    using open_page(1) by (fastforce simp: writer_at_def)
  have "\<exists>q. wr_page ?w = Inr q \<and> pg_tail q = off"
    unfolding fill_frame_def using op p(3)
    by (simp add: open_page(2) [OF op] wr_page_def open_at_def)
  with F(1) have "chan_filling ps off ?w" by (auto simp: chan_filling_def)
  moreover have "wr_log ?w = wr_log (te_writer s)" using wr_log_at [OF F(1)] wr_log_at [OF p(1)] by simp
  ultimately show ?thesis using F(3) by (auto simp: rtn_fill_def)
qed

lemma rtn_at_ok: "chan_filling ps off (te_writer s) \<Longrightarrow> rtn_at off s = Inr (frame_buf zero_rtn (te_writer s))"
  by (auto simp: chan_filling_def rtn_at_def frame_buf_def)

lemma rtn_commit_ok:
  assumes "chan_filling ps off (te_writer s)"
  shows "\<exists>w. rtn_commit env s = Inr (s\<lparr>te_writer := w\<rparr>) \<and> chan_ready ps w \<and>
    wr_log w = wr_log (te_writer s) @ [frame_buf zero_rtn (te_writer s)]"
proof -
  from assms obtain pgs where p: "writer_at ps Filling (te_writer s) pgs" by (auto simp: chan_filling_def)
  from commit_ok [OF p, of zero_rtn "en_now env"] obtain w pgs1 where
    c: "CRawIOWriter_commit zero_rtn (en_now env) (te_writer s) = Inr w" "writer_at ps Ready w pgs1"
      "concat pgs1 = concat pgs @ [frame_buf zero_rtn (te_writer s)]" by blast
  let ?w = "w\<lparr>wr_spin := False\<rparr>"
  have w: "writer_at ps Ready ?w pgs1" using c(2) by (auto simp: writer_at_def open_at_def)
  then show ?thesis
    using c wr_log_at [OF p] wr_log_at [OF w]
    by (auto simp: rtn_commit_def CSafeRawIOWriter_commit_def chan_ready_def)
qed

lemma rtn_discard_ok:
  assumes "chan_filling ps off w"
  shows "chan_ready ps (CSafeRawIOWriter_discard w)" "wr_log (CSafeRawIOWriter_discard w) = wr_log w"
proof -
  from assms obtain pgs where p: "writer_at ps Filling w pgs" by (auto simp: chan_filling_def)
  then have w: "writer_at ps Ready (CSafeRawIOWriter_discard w) pgs"
    by (auto simp: writer_at_def open_at_def CSafeRawIOWriter_discard_def)
  then show "chan_ready ps (CSafeRawIOWriter_discard w)"
    by (auto simp: chan_ready_def CSafeRawIOWriter_discard_def)
  show "wr_log (CSafeRawIOWriter_discard w) = wr_log w" using wr_log_at [OF p] wr_log_at [OF w] by simp
qed

lemma put_rtn_ok:
  assumes w: "chan_ready ps (te_writer s)" and env: "chan_env ps env"
  shows "\<exists>b w. put_rtn env f s = Inr (or_rtn_msg (f b), s\<lparr>te_writer := w\<rparr>) \<and> chan_ready ps w \<and>
    wr_log w = wr_log (te_writer s) @ [f b]"
proof -
  obtain off w1 where p: "rtn_prefetch env s = Inr (off, s\<lparr>te_writer := w1\<rparr>)" "chan_filling ps off w1"
    "wr_log w1 = wr_log (te_writer s)" using rtn_prefetch_ok [OF w env] by blast
  let ?s1 = "s\<lparr>te_writer := w1\<rparr>"
  obtain w2 where q: "rtn_fill off f ?s1 = s\<lparr>te_writer := w2\<rparr>" "chan_filling ps off w2"
    "wr_log w2 = wr_log w1" "frame_buf zero_rtn w2 = f (frame_buf zero_rtn w1)"
    using rtn_fill_ok [of ps off ?s1 f] p(2) by auto
  let ?s2 = "s\<lparr>te_writer := w2\<rparr>"
  obtain w3 where r: "rtn_commit env ?s2 = Inr (s\<lparr>te_writer := w3\<rparr>)" "chan_ready ps w3"
    "wr_log w3 = wr_log w2 @ [frame_buf zero_rtn w2]"
    using rtn_commit_ok [of ps off ?s2 env] q(2) by auto
  have "put_rtn env f s = Inr (or_rtn_msg (f (frame_buf zero_rtn w1)), s\<lparr>te_writer := w3\<rparr>)"
    using p(1) q(1,2,4) r(1) rtn_at_ok [of ps off ?s2] by (simp add: put_rtn_def)
  with r(2,3) q(3,4) p(3) show ?thesis by auto
qed

end
