(* ===== verification/Engine_Inv.thy ===== *)
theory Engine_Inv
  imports Td_Reports
begin

text \<open>
  What the engines of all brokers share on a trading day: \<open>engine_ok\<close>, which keeps every step from a
  fault, \<open>engine_moves\<close>, a step that replaces the record of one order and sends messages, and \<open>log_ok\<close>,
  the relation between the records of the orders and the reports on the channel. \<open>K\<close> is what a derived
  engine needs of its own accounts; the locale \<open>tracked_engine\<close> says that the steps of the base class
  do not touch it.
\<close>

section \<open>What keeps an engine from a fault\<close>

definition acc_index_ok :: "int \<Rightarrow> ('t, 'a) td_engine_scheme \<Rightarrow> bool" where
  "acc_index_ok idx s \<longleftrightarrow> 0 \<le> idx \<and> nat idx < length (te_acc_utilis s)"

definition engine_ok ::
    "(('t, 'a) td_engine_scheme \<Rightarrow> bool) \<Rightarrow> int \<Rightarrow> instr_table \<Rightarrow> ('t, 'a) td_engine_scheme \<Rightarrow> bool" where
  "engine_ok K ps tb s \<longleftrightarrow>
     chan_ready ps (te_writer s) \<and> base_ok tb \<and> tb_instr_info (te_base s) = tb \<and> te_track_mapped s \<and>
     K s \<and>
     (\<forall>r \<in> set (te_acc_utilis s). top_ready tb r) \<and>
     (\<forall>k. acc_index_ok (ot_acc_id (te_request_track s k)) s)"

lemma engine_okD:
  assumes "engine_ok K ps tb s"
  shows "chan_ready ps (te_writer s)" "base_ok tb" "tb_instr_info (te_base s) = tb" "te_track_mapped s"
    "K s"
    "r \<in> set (te_acc_utilis s) \<Longrightarrow> top_ready tb r" "acc_index_ok (ot_acc_id (te_request_track s k)) s"
  using assms by (auto simp: engine_ok_def)

definition track_of :: "int \<Rightarrow> ('t, 'a) td_engine_scheme \<Rightarrow> order_track" where
  "track_of ref s = te_request_track s (track_slot ref)"

text \<open>A step that keeps the engine in order, replaces the record of one order and sends \<open>ms\<close>.\<close>

definition engine_moves ::
    "(('t, 'a) td_engine_scheme \<Rightarrow> bool) \<Rightarrow> int \<Rightarrow> instr_table \<Rightarrow> ('t, 'a) td_engine_scheme \<Rightarrow> ('t, 'a) td_engine_scheme \<Rightarrow> int \<Rightarrow> order_track \<Rightarrow> io_order_rtn list \<Rightarrow> bool" where
  "engine_moves K ps tb s t ref trk ms \<longleftrightarrow>
     engine_ok K ps tb t \<and> te_request_id t = te_request_id s \<and>
     te_request_id_start t = te_request_id_start s \<and>
     te_request_track t = (te_request_track s)(track_slot ref := trk) \<and>
     wr_log (te_writer t) = wr_log (te_writer s) @ ms"

lemma engine_moves_refl: "engine_ok K ps tb s \<Longrightarrow> engine_moves K ps tb s s ref (track_of ref s) []"
  by (simp add: engine_moves_def track_of_def)

lemma get_track_ok: "engine_ok K ps tb s \<Longrightarrow> ITDEngine_get_request_track ref s = Inr (track_of ref s)"
  by (simp add: ITDEngine_get_request_track_def track_of_def engine_okD(4))

lemma engine_moves_acc:
  "engine_moves K ps tb s t ref trk ms \<Longrightarrow> engine_ok K ps tb (t\<lparr>te_acc_utilis := u\<rparr>) \<Longrightarrow>
   engine_moves K ps tb s (t\<lparr>te_acc_utilis := u\<rparr>) ref trk ms"
  by (simp add: engine_moves_def)

lemma engine_moves_trans:
  "engine_moves K ps tb s t ref trk ms \<Longrightarrow> engine_moves K ps tb t u ref trk1 ns \<Longrightarrow>
   engine_moves K ps tb s u ref trk1 (ms @ ns)"
  by (simp add: engine_moves_def)

section \<open>The steps of the base class\<close>

locale tracked_engine =
  fixes K :: "('t, 'a) td_engine_scheme \<Rightarrow> bool"
  assumes K_writer: "K (s\<lparr>te_writer := w\<rparr>) = K s"
    and K_tracks: "K (s\<lparr>te_request_track := f\<rparr>) = K s"
    and K_filter: "K (s\<lparr>te_otidfilter := q\<rparr>) = K s"
    and K_number: "K (s\<lparr>te_request_id := i\<rparr>) = K s"
    and K_accounts: "length u = length (te_acc_utilis s) \<Longrightarrow> K (s\<lparr>te_acc_utilis := u\<rparr>) = K s"
begin

lemma upd_track_ok:
  assumes ok: "engine_ok K ps tb s" and f: "ot_acc_id (f (track_of ref s)) = ot_acc_id (track_of ref s)"
  shows "engine_moves K ps tb s (upd_request_track ref f s) ref (f (track_of ref s)) []"
  using ok f by (auto simp: engine_moves_def engine_ok_def upd_request_track_def track_of_def acc_index_ok_def K_tracks)

lemma upd_acc_ok:
  assumes ok: "engine_ok K ps tb s" and idx: "acc_index_ok idx s"
    and f: "\<And>r. top_ready tb r \<Longrightarrow> r = te_acc_utilis s ! nat idx \<Longrightarrow> \<exists>r1. f r = Inr r1 \<and> top_ready tb r1"
  shows "\<exists>u. upd_acc idx f s = Inr (s\<lparr>te_acc_utilis := u\<rparr>) \<and> engine_ok K ps tb (s\<lparr>te_acc_utilis := u\<rparr>)"
proof -
  note E = engine_okD [OF ok]
  have i: "nat idx < length (te_acc_utilis s)" using idx by (simp add: acc_index_ok_def)
  from f [OF E(6) [OF nth_mem [OF i]] refl] obtain r where
    r: "f (te_acc_utilis s ! nat idx) = Inr r" "top_ready tb r" by blast
  let ?u = "(te_acc_utilis s)[nat idx := r]"
  have "\<forall>q \<in> set ?u. top_ready tb q" using E(6) r(2) set_update_subset_insert by fastforce
  then have "engine_ok K ps tb (s\<lparr>te_acc_utilis := ?u\<rparr>)"
    using ok K_accounts [of ?u s] by (auto simp: engine_ok_def acc_index_ok_def)
  with r(1) i idx show ?thesis by (auto simp: upd_acc_def acc_index_ok_def)
qed

lemma on_rtn_ok:
  assumes ok: "engine_ok K ps tb s" and idx: "acc_index_ok idx s"
  shows "\<exists>u. ITDEngine_engine_on_rtn env idx t m s = Inr (s\<lparr>te_acc_utilis := u\<rparr>) \<and>
    engine_ok K ps tb (s\<lparr>te_acc_utilis := u\<rparr>)"
  unfolding ITDEngine_engine_on_rtn_def engine_okD(3) [OF ok]
  by (rule upd_acc_ok [OF ok idx]) (rule RiskTop_onRtn_total [OF engine_okD(2) [OF ok]])

lemma engine_filled:
  "engine_ok K ps tb s \<Longrightarrow> chan_ready ps w \<Longrightarrow> engine_ok K ps tb (s\<lparr>te_writer := w\<rparr>)"
  by (auto simp: engine_ok_def acc_index_ok_def K_writer)

lemma put_rtn_engine:
  assumes ok: "engine_ok K ps tb s" and env: "chan_env ps env"
  shows "\<exists>b w. put_rtn env f s = Inr (or_rtn_msg (f b), s\<lparr>te_writer := w\<rparr>) \<and>
    engine_moves K ps tb s (s\<lparr>te_writer := w\<rparr>) ref (track_of ref s) [f b]"
proof -
  from put_rtn_ok [OF engine_okD(1) [OF ok] env, of f] obtain b w where
    "put_rtn env f s = Inr (or_rtn_msg (f b), s\<lparr>te_writer := w\<rparr>)" "chan_ready ps w"
    "wr_log w = wr_log (te_writer s) @ [f b]" by blast
  with engine_filled [OF ok, of w] show ?thesis
    by (intro exI [of _ b] exI [of _ w]) (simp add: engine_moves_def track_of_def)
qed

lemma engine_ok_filter [simp]: "engine_ok K ps tb (s\<lparr>te_otidfilter := q\<rparr>) = engine_ok K ps tb s"
  by (simp add: engine_ok_def acc_index_ok_def K_filter)

lemma answer_ok:
  assumes ok: "engine_ok K ps tb s" and env: "chan_env ps env" and f: "\<And>b. P (f b)"
  shows "\<exists>m t. res_bind (put_rtn env f s) (\<lambda>(_, s1). Inr s1) = Inr t \<and>
    engine_moves K ps tb s t ref (track_of ref s) [m] \<and> P m"
  using put_rtn_engine [OF ok env, of f ref] f by fastforce

lemma errors_ok:
  assumes ok: "engine_ok K ps tb s" and env: "chan_env ps env"
  shows "\<exists>m t. ITDEngine_writeErrRtn_order env data e msg ty s = Inr t \<and>
      engine_moves K ps tb s t ref (track_of ref s) [m] \<and> or_to m = in_from data \<and>
      rm_local_id (or_rtn_msg m) = in_local_id data \<and> rm_msg_type (or_rtn_msg m) = ty \<and>
      rm_errid (or_rtn_msg m) = e"
    and "\<exists>m t. ITDEngine_writeErrRtn_action env act e msg ty s = Inr t \<and>
      engine_moves K ps tb s t ref (track_of ref s) [m] \<and> rm_msg_type (or_rtn_msg m) = ty"
  unfolding ITDEngine_writeErrRtn_order_def ITDEngine_writeErrRtn_action_def
  by (rule answer_ok [OF ok env], simp)+

end

section \<open>The records and the log\<close>

definition FINAL :: "int set" where
  "FINAL = {ODS_REJECT, ODS_MARKET_REJECT, ODS_CANCELED}"

definition is_report :: "int \<Rightarrow> int set \<Rightarrow> io_order_rtn \<Rightarrow> bool" where
  "is_report ref T m \<longleftrightarrow> rm_order_ref (or_rtn_msg m) = ref \<and> rm_msg_type (or_rtn_msg m) \<in> T"

definition reports :: "int \<Rightarrow> int set \<Rightarrow> io_order_rtn list \<Rightarrow> nat" where
  "reports ref T L = length (filter (is_report ref T) L)"

definition exec_vol :: "int \<Rightarrow> io_order_rtn list \<Rightarrow> int" where
  "exec_vol ref L = sum_list (map (\<lambda>m. rm_vol (or_rtn_msg m)) (filter (is_report ref {ODS_EXECUTION}) L))"

text \<open>
  An order of the day was acknowledged once; \<^verbatim>\<open>ACCEPT\<close> and \<^verbatim>\<open>MARKET_ACCEPT\<close> were reported once where the
  record has the flag, and never otherwise; at most one report ended it, and not without the record
  being closed; and the executions reported sum up to the traded volume of the record.
\<close>

definition order_log :: "int \<Rightarrow> order_track \<Rightarrow> io_order_rtn list \<Rightarrow> bool" where
  "order_log ref t L \<longleftrightarrow>
     reports ref {ODS_TDSEND} L = 1 \<and>
     reports ref {ODS_ACCEPT} L = (if ot_status t AND ODS_ACCEPT \<noteq> 0 then 1 else 0) \<and>
     reports ref {ODS_MARKET_ACCEPT} L = (if ot_status t AND ODS_MARKET_ACCEPT \<noteq> 0 then 1 else 0) \<and>
     reports ref FINAL L \<le> (if ot_status t AND ODS_CLOSED \<noteq> 0 then 1 else 0) \<and>
     exec_vol ref L = ot_vol_traded t"

definition addressed :: "int \<Rightarrow> order_track \<Rightarrow> io_order_rtn \<Rightarrow> bool" where
  "addressed ref t m \<longleftrightarrow>
     rm_order_ref (or_rtn_msg m) = ref \<and>
     or_to m = ot_from t \<and> rm_local_id (or_rtn_msg m) = ot_local_id t"

definition refusal :: "io_order_rtn \<Rightarrow> bool" where
  "refusal m \<longleftrightarrow> rm_msg_type (or_rtn_msg m) \<in> {ODS_ERR, ODS_CANCEL_REJECT}"

text \<open>
  What a history \<open>H\<close> of the reports about an order says of its record holds for every order from \<open>r0\<close> on,
  and every message refuses a request or is addressed by the record of its order.
\<close>

definition log_follows ::
    "(int \<Rightarrow> order_track \<Rightarrow> io_order_rtn list \<Rightarrow> bool) \<Rightarrow> int \<Rightarrow> ('t, 'a) td_engine_scheme \<Rightarrow> io_order_rtn list \<Rightarrow> bool" where
  "log_follows H r0 s L \<longleftrightarrow>
     te_request_id_start s \<le> r0 \<and> r0 \<le> te_request_id s \<and>
     te_request_id s \<le> te_request_id_start s + MMAP_ORDER_TRACK_SIZE \<and>
     (\<forall>m \<in> set L. refusal m \<or>
        (\<exists>ref. te_request_id_start s \<le> ref \<and> ref < te_request_id s \<and> addressed ref (track_of ref s) m)) \<and>
     (\<forall>ref. r0 \<le> ref \<longrightarrow> ref < te_request_id s \<longrightarrow> H ref (track_of ref s) L)"

abbreviation log_ok :: "int \<Rightarrow> ('t, 'a) td_engine_scheme \<Rightarrow> io_order_rtn list \<Rightarrow> bool" where
  "log_ok \<equiv> log_follows order_log"

lemmas log_ok_def = log_follows_def

lemma reports_append [simp]:
  "reports ref T (L @ [m]) = reports ref T L + (if is_report ref T m then 1 else 0)"
  "exec_vol ref (L @ [m]) = exec_vol ref L + (if is_report ref {ODS_EXECUTION} m then rm_vol (or_rtn_msg m) else 0)"
  by (simp_all add: reports_def exec_vol_def)

lemma reports_none:
  "(\<And>m. m \<in> set L \<Longrightarrow> \<not> is_report ref T m) \<Longrightarrow> reports ref T L = 0"
  "(\<And>m. m \<in> set L \<Longrightarrow> \<not> is_report ref {ODS_EXECUTION} m) \<Longrightarrow> exec_vol ref L = 0"
  by (simp_all add: reports_def exec_vol_def cong: filter_cong)

lemmas ods_defs =
  ODS_NOT_SET_def ODS_CLOSED_def ODS_SEND_def ODS_TDSEND_def ODS_CXLING_def ODS_ACCEPT_def ODS_REJECT_def
  ODS_MARKET_ACCEPT_def ODS_MARKET_REJECT_def ODS_EXECUTION_def ODS_CANCEL_REJECT_def ODS_CANCELED_def ODS_ERR_def

lemma or_and: "(x OR y) AND z = (x AND z) OR (y AND z :: int)"
  by (simp add: bit_eq_iff bit_simps) blast

text \<open>The flags that end an order contain \<^verbatim>\<open>CLOSED\<close>.\<close>

lemma final_closed:
  assumes "flag \<in> FINAL" "x AND flag = 0"
  shows "x AND ODS_CLOSED = 0"
proof -
  have "flag AND 1 = 1" using assms(1) by (auto simp: FINAL_def ods_defs)
  then have "x AND 1 = (x AND flag) AND 1" by (simp add: and.assoc)
  with assms(2) show ?thesis by (simp add: ods_defs)
qed

text \<open>What a report does to the record it is about and to the log.\<close>

definition report_follows ::
    "(int \<Rightarrow> order_track \<Rightarrow> io_order_rtn list \<Rightarrow> bool) \<Rightarrow> int \<Rightarrow> order_track \<Rightarrow> order_track \<Rightarrow> io_order_rtn list \<Rightarrow> bool" where
  "report_follows H ref t trk ms \<longleftrightarrow>
     ot_from trk = ot_from t \<and> ot_local_id trk = ot_local_id t \<and> (\<forall>m \<in> set ms. addressed ref t m) \<and>
     (\<forall>L. H ref t L \<longrightarrow> H ref trk (L @ ms))"

abbreviation reports_ok :: "int \<Rightarrow> order_track \<Rightarrow> order_track \<Rightarrow> io_order_rtn list \<Rightarrow> bool" where
  "reports_ok \<equiv> report_follows order_log"

lemmas reports_ok_def = report_follows_def

lemma reports_ok_refl [simp]: "report_follows H ref t t []"
  by (simp add: reports_ok_def)

lemma reports_ok_flag:
  assumes m: "addressed ref t m" "rm_msg_type (or_rtn_msg m) = flag"
    and flag: "flag = ODS_CANCEL_REJECT \<or> flag \<in> {ODS_ACCEPT, ODS_MARKET_ACCEPT} \<union> FINAL \<and> ot_status t AND flag = 0"
  shows "reports_ok ref t (t\<lparr>ot_status := ot_status t OR flag\<rparr>) [m]"
proof -
  have m': "is_report ref T m \<longleftrightarrow> flag \<in> T" for T using m by (simp add: is_report_def addressed_def)
  have l: "order_log ref (t\<lparr>ot_status := ot_status t OR flag\<rparr>) (L @ [m])" if l: "order_log ref t L" for L
  proof (cases "flag \<in> FINAL")
    case True
    with flag have "ot_status t AND flag = 0" by (auto simp: FINAL_def ods_defs)
    note c = final_closed [OF True this]
    with l have "reports ref FINAL L = 0" by (simp add: order_log_def)
    moreover have "flag AND ODS_ACCEPT = 0" "flag AND ODS_MARKET_ACCEPT = 0" "flag AND ODS_CLOSED \<noteq> 0"
      "flag \<noteq> ODS_TDSEND" "flag \<noteq> ODS_ACCEPT" "flag \<noteq> ODS_MARKET_ACCEPT" "flag \<noteq> ODS_EXECUTION"
      using True by (auto simp: FINAL_def ods_defs)
    ultimately show ?thesis using True l c unfolding order_log_def reports_append m' by (simp add: or_and or_eq_0_iff)
  next
    case False
    with flag have "flag = ODS_CANCEL_REJECT \<or> flag = ODS_ACCEPT \<and> ot_status t AND ODS_ACCEPT = 0 \<or>
        flag = ODS_MARKET_ACCEPT \<and> ot_status t AND ODS_MARKET_ACCEPT = 0" by blast
    then show ?thesis
      by (elim disjE conjE) (use l False in \<open>simp_all add: order_log_def m' or_and or_eq_0_iff ods_defs\<close>)
  qed
  from l m show ?thesis by (simp add: reports_ok_def)
qed

text \<open>\<^verbatim>\<open>CLOSED\<close> and \<^verbatim>\<open>CXLING\<close> may be set at any time.\<close>

lemma order_log_mark:
  "f \<in> {ODS_CLOSED, ODS_CXLING, 0} \<Longrightarrow> order_log ref t L \<Longrightarrow> order_log ref (t\<lparr>ot_status := ot_status t OR f\<rparr>) L"
  by (auto simp: order_log_def or_and or_eq_0_iff ods_defs split: if_splits)

lemma reports_ok_closed:
  "reports_ok ref (t\<lparr>ot_status := ot_status t OR ODS_CLOSED\<rparr>) trk ms \<Longrightarrow> reports_ok ref t trk ms"
  using order_log_mark [of ODS_CLOSED] by (simp add: reports_ok_def addressed_def)

text \<open>An execution.\<close>

lemma reports_ok_trade:
  assumes m: "addressed ref t m" "rm_msg_type (or_rtn_msg m) = ODS_EXECUTION" "rm_vol (or_rtn_msg m) = v"
    and f: "f \<in> {0, ODS_CLOSED}"
    and trk: "trk = t\<lparr>ot_status := ot_status t OR ODS_EXECUTION OR f, ot_vol_traded := ot_vol_traded t + v,
      ot_amount_traded := a\<rparr>"
  shows "reports_ok ref t trk [m]"
proof -
  have m': "is_report ref T m \<longleftrightarrow> ODS_EXECUTION \<in> T" for T using m by (simp add: is_report_def addressed_def)
  have "order_log ref trk (L @ [m])" if l: "order_log ref t L" for L
  proof (cases "f = 0")
    case True
    with l m(3) show ?thesis by (simp add: order_log_def trk m' or_and or_eq_0_iff FINAL_def ods_defs)
  next
    case False
    with f have "f = ODS_CLOSED" by simp
    with l m(3) show ?thesis
      by (auto simp: order_log_def trk m' or_and or_eq_0_iff FINAL_def ods_defs split: if_splits)
  qed
  with m(1) trk show ?thesis by (simp add: reports_ok_def)
qed

definition report_done ::
    "(('t, 'a) td_engine_scheme \<Rightarrow> bool) \<Rightarrow> int \<Rightarrow> instr_table \<Rightarrow> ('t, 'a) td_engine_scheme \<Rightarrow> int \<Rightarrow> ('t, 'a) td_engine_scheme res \<Rightarrow> bool" where
  "report_done K ps tb s ref r \<longleftrightarrow>
     (\<exists>t trk ms. r = Inr t \<and> engine_moves K ps tb s t ref trk ms \<and> reports_ok ref (track_of ref s) trk ms)"

lemma report_done_none: "engine_ok K ps tb s \<Longrightarrow> report_done K ps tb s ref (Inr s)"
  using engine_moves_refl reports_ok_refl by (fastforce simp: report_done_def)

section \<open>The records of a day do not share a place\<close>

lemma track_slot_mod: "track_slot i = i mod 2 ^ 18"
proof -
  have "MMAP_ORDER_TRACK_SIZE - 1 = mask 18" by (simp add: MMAP_ORDER_TRACK_SIZE_def mask_eq_exp_minus_1)
  then show ?thesis by (simp add: track_slot_def take_bit_eq_mod flip: take_bit_eq_mask)
qed

lemma track_slot_inj:
  assumes "a \<le> i" "i < a + MMAP_ORDER_TRACK_SIZE" "a \<le> j" "j < a + MMAP_ORDER_TRACK_SIZE"
    and "track_slot i = track_slot j"
  shows "i = j"
proof -
  have "\<bar>i - j\<bar> < 2 ^ 18" using assms(1-4) by (simp add: MMAP_ORDER_TRACK_SIZE_def)
  moreover have "2 ^ 18 dvd i - j" using assms(5) by (simp add: track_slot_mod mod_eq_dvd_iff)
  ultimately show ?thesis using zdvd_not_zless [of "\<bar>i - j\<bar>" "2 ^ 18"] by (cases "i = j") auto
qed

text \<open>An order that was sent: the next number, a fresh record, the acknowledgement.\<close>

definition opened ::
    "('t, 'a) td_engine_scheme \<Rightarrow> ('t, 'a) td_engine_scheme \<Rightarrow> io_order_rtn \<Rightarrow> bool" where
  "opened s t m \<longleftrightarrow>
     te_request_id t = te_request_id s + 1 \<and> te_request_id_start t = te_request_id_start s \<and>
     (\<exists>trk. te_request_track t = (te_request_track s)(track_slot (te_request_id s) := trk) \<and>
        ot_status trk = ODS_TDSEND \<and> ot_vol_traded trk = 0 \<and> addressed (te_request_id s) trk m) \<and>
     rm_msg_type (or_rtn_msg m) = ODS_TDSEND"

text \<open>
  A history of reports the engine can keep: it does not depend on the reports about other orders, on
  refusals and on the mark of a cancel under way, and an order that was just sent fulfils it.
\<close>

locale order_history =
  fixes H :: "int \<Rightarrow> order_track \<Rightarrow> io_order_rtn list \<Rightarrow> bool"
  assumes other: "(\<And>m. m \<in> set ms \<Longrightarrow> rm_order_ref (or_rtn_msg m) \<noteq> ref) \<Longrightarrow> H ref t L \<Longrightarrow> H ref t (L @ ms)"
    and refused: "refusal m \<Longrightarrow> H ref t L \<Longrightarrow> H ref t (L @ [m])"
    and cxling: "H ref t L \<Longrightarrow> H ref (t\<lparr>ot_status := ot_status t OR ODS_CXLING\<rparr>) L"
    and fresh: "ot_status trk = ODS_TDSEND \<Longrightarrow> ot_vol_traded trk = 0 \<Longrightarrow> addressed ref trk m \<Longrightarrow>
      rm_msg_type (or_rtn_msg m) = ODS_TDSEND \<Longrightarrow>
      (\<And>x. x \<in> set L \<Longrightarrow> refusal x \<or> rm_order_ref (or_rtn_msg x) \<noteq> ref) \<Longrightarrow> H ref trk (L @ [m])"
begin

lemma log_report:
  assumes l: "log_follows H r0 s L" and m: "engine_moves K ps tb s t ref trk ms"
    and r: "report_follows H ref (track_of ref s) trk ms" "ref < te_request_id s"
    and start: "te_request_id_start s \<le> ref"
  shows "log_follows H r0 t (L @ ms)"
proof -
  note M = m [unfolded engine_moves_def]
  have trk: "track_of j t = (if j = ref then trk else track_of j s)"
    if "te_request_id_start s \<le> j" "j < te_request_id s" for j
  proof -
    have "te_request_id s \<le> te_request_id_start s + MMAP_ORDER_TRACK_SIZE" using l by (simp add: log_follows_def)
    with track_slot_inj [of "te_request_id_start s" j ref] that start r(2)
    have "track_slot j = track_slot ref \<longleftrightarrow> j = ref" by auto
    with M show ?thesis by (simp add: track_of_def)
  qed
  have keep: "addressed j (track_of j t) x \<longleftrightarrow> addressed j (track_of j s) x"
    if "te_request_id_start s \<le> j" "j < te_request_id s" for j x
    using trk [OF that] r(1) by (auto simp: addressed_def report_follows_def)
  have other: "H j trk' (L @ ms)" if "H j trk' L" "j \<noteq> ref" for j trk'
    by (rule other [OF _ that(1)]) (use r(1) that(2) in \<open>auto simp: report_follows_def addressed_def\<close>)
  show ?thesis
    unfolding log_follows_def
  proof (intro conjI ballI allI impI)
    show "te_request_id_start t \<le> r0" "r0 \<le> te_request_id t"
      "te_request_id t \<le> te_request_id_start t + MMAP_ORDER_TRACK_SIZE"
      using l M by (simp_all add: log_follows_def)
  next
    fix x assume "x \<in> set (L @ ms)"
    then show "refusal x \<or> (\<exists>j\<ge>te_request_id_start t. j < te_request_id t \<and> addressed j (track_of j t) x)"
    proof (unfold set_append, elim UnE)
      assume "x \<in> set L"
      with l M keep show ?thesis unfolding log_follows_def by metis
    next
      assume "x \<in> set ms"
      with r(1) have "addressed ref (track_of ref s) x" by (simp add: report_follows_def)
      with keep start r(2) M show ?thesis by metis
    qed
  next
    fix j assume j: "r0 \<le> j" "j < te_request_id t"
    with l M have old: "H j (track_of j s) L" "te_request_id_start s \<le> j" "j < te_request_id s"
      by (auto simp: log_follows_def)
    show "H j (track_of j t) (L @ ms)"
      using trk [OF old(2,3)] old(1) r(1) other by (auto simp: report_follows_def)
  qed
qed

lemma log_refusal:
  assumes l: "log_follows H r0 s L" and m: "engine_moves K ps tb s t ref (track_of ref s) [m]" "refusal m"
  shows "log_follows H r0 t (L @ [m])"
proof -
  have same: "track_of j t = track_of j s" for j using m(1) by (simp add: engine_moves_def track_of_def)
  show ?thesis
    using l m refused [OF m(2)] unfolding log_follows_def same by (auto simp: engine_moves_def)
qed

lemma log_cxling:
  assumes l: "log_follows H r0 s L"
    and m: "engine_moves K ps tb s t ref ((track_of ref s)\<lparr>ot_status := ot_status (track_of ref s) OR ODS_CXLING\<rparr>) []"
  shows "log_follows H r0 t L"
proof -
  have trk: "track_of j t = track_of j s \<or>
      track_of j t = (track_of j s)\<lparr>ot_status := ot_status (track_of j s) OR ODS_CXLING\<rparr>" for j
    using m by (auto simp: engine_moves_def track_of_def)
  have "addressed j (track_of j t) x \<longleftrightarrow> addressed j (track_of j s) x" for j x
    using trk [of j] by (auto simp: addressed_def)
  moreover have "H j (track_of j t) L" if "H j (track_of j s) L" for j
    using trk [of j] that cxling [OF that] by auto
  ultimately show ?thesis using l m unfolding log_follows_def by (simp add: engine_moves_def)
qed

lemma log_opened:
  assumes l: "log_follows H r0 s L" and o: "opened s t m"
    and room: "te_request_id s < te_request_id_start s + MMAP_ORDER_TRACK_SIZE"
  shows "log_follows H r0 t (L @ [m])"
proof -
  let ?rid = "te_request_id s" and ?st = "te_request_id_start s"
  note D = o [unfolded opened_def]
  from D obtain trk where trk: "te_request_track t = (te_request_track s)(track_slot ?rid := trk)"
    "ot_status trk = ODS_TDSEND" "ot_vol_traded trk = 0" "addressed ?rid trk m" by blast
  have r: "?st \<le> r0" "r0 \<le> ?rid" using l by (simp_all add: log_follows_def)
  have same: "track_of j t = track_of j s" if "?st \<le> j" "j < ?rid" for j
    using track_slot_inj [of ?st j ?rid] that room by (auto simp: track_of_def trk(1))
  have new: "track_of ?rid t = trk" by (simp add: track_of_def trk(1))
  have first: "H ?rid trk (L @ [m])"
  proof (rule fresh [OF trk(2-4)])
    fix x assume "x \<in> set L"
    with l have "refusal x \<or> (\<exists>ref. ref < ?rid \<and> addressed ref (track_of ref s) x)"
      unfolding log_follows_def by blast
    then show "refusal x \<or> rm_order_ref (or_rtn_msg x) \<noteq> ?rid" by (auto simp: addressed_def)
  qed (use D in simp)
  have other: "H j (track_of j t) (L @ [m])" if "r0 \<le> j" "j < ?rid" for j
    by (rule other) (use l r same [of j] that trk(4) in \<open>auto simp: log_follows_def addressed_def\<close>)
  show ?thesis
    unfolding log_follows_def
  proof (intro conjI ballI allI impI)
    show "te_request_id_start t \<le> r0" "r0 \<le> te_request_id t"
      "te_request_id t \<le> te_request_id_start t + MMAP_ORDER_TRACK_SIZE"
      using D r room by simp_all
  next
    fix x assume x: "x \<in> set (L @ [m])"
    show "refusal x \<or> (\<exists>ref\<ge>te_request_id_start t. ref < te_request_id t \<and> addressed ref (track_of ref t) x)"
    proof (cases "x = m")
      case True
      with D trk(4) new r show ?thesis by (intro disjI2 exI [of _ ?rid]) simp
    next
      case False
      with x l have "refusal x \<or> (\<exists>ref\<ge>?st. ref < ?rid \<and> addressed ref (track_of ref s) x)"
        unfolding log_follows_def by auto
      with D same show ?thesis by (metis less_add_one less_trans)
    qed
  next
    fix j assume "r0 \<le> j" "j < te_request_id t"
    with D other first new show "H j (track_of j t) (L @ [m])" by (cases "j = ?rid") auto
  qed
qed

end

interpretation full_history: order_history order_log
proof
  fix ref t L and ms :: "io_order_rtn list"
  assume "\<And>m. m \<in> set ms \<Longrightarrow> rm_order_ref (or_rtn_msg m) \<noteq> ref" and l: "order_log ref t L"
  then have "\<not> is_report ref T x" if "x \<in> set ms" for x T using that by (auto simp: is_report_def)
  then have "reports ref T (L @ ms) = reports ref T L" "exec_vol ref (L @ ms) = exec_vol ref L" for T
    by (simp_all add: reports_def exec_vol_def cong: filter_cong)
  with l show "order_log ref t (L @ ms)" by (simp add: order_log_def)
next
  fix m ref t L assume "refusal m" and l: "order_log ref t L"
  then have "\<not> is_report ref T m" if "T \<in> {{ODS_TDSEND}, {ODS_ACCEPT}, {ODS_MARKET_ACCEPT}, FINAL, {ODS_EXECUTION}}" for T
    using that by (auto simp: refusal_def is_report_def FINAL_def ods_defs)
  with l show "order_log ref t (L @ [m])" by (simp add: order_log_def)
next
  fix ref t L assume "order_log ref t L"
  then show "order_log ref (t\<lparr>ot_status := ot_status t OR ODS_CXLING\<rparr>) L" by (rule order_log_mark [rotated]) simp
next
  fix trk ref m and L :: "io_order_rtn list"
  assume trk: "ot_status trk = ODS_TDSEND" "ot_vol_traded trk = 0" "addressed ref trk m"
    "rm_msg_type (or_rtn_msg m) = ODS_TDSEND"
    and old: "\<And>x. x \<in> set L \<Longrightarrow> refusal x \<or> rm_order_ref (or_rtn_msg x) \<noteq> ref"
  have m: "is_report ref T m \<longleftrightarrow> ODS_TDSEND \<in> T" for T using trk(3,4) by (auto simp: is_report_def addressed_def)
  have none: "\<not> is_report ref T x"
    if "x \<in> set L" "T \<in> {{ODS_TDSEND}, {ODS_ACCEPT}, {ODS_MARKET_ACCEPT}, FINAL, {ODS_EXECUTION}}" for x T
    using old [OF that(1)] that(2) by (auto simp: refusal_def is_report_def FINAL_def ods_defs)
  show "order_log ref trk (L @ [m])"
    unfolding order_log_def reports_append
    using reports_none [of L ref] none trk(1,2) by (auto simp: m FINAL_def ods_defs)
qed

lemmas log_ok_report = full_history.log_report
lemmas log_ok_refusal = full_history.log_refusal
lemmas log_ok_cxling = full_history.log_cxling
lemmas log_ok_opened = full_history.log_opened

end
