(* ===== verification/Ctp_Inv.thy ===== *)
theory Ctp_Inv
  imports Engine_Inv
begin

text \<open>
  The machine of the CTP gateway on a trading day (\<open>ctp_step\<close>): requests of the clients with the
  code the interface returns for them, and the reports of the broker, on the ground of \<open>Engine_Inv\<close>.
\<close>

section \<open>Events\<close>

text \<open>An event carries the clock; a request also the code that the call of the interface returns.\<close>

datatype ctp_event =
    ClientInsert int int input_order
  | ClientCancel int int order_action
  | FromBroker int ctp_callback

fun ctp_step :: "'t eng_env \<Rightarrow> ctp_event \<Rightarrow> 't td_ctp \<Rightarrow> 't td_ctp res" where
  "ctp_step env (ClientInsert now ret data) s =
     CTDEngineCtp_req_order_insert (\<lambda>_. ret) (env\<lparr>en_now := now\<rparr>) data s"
| "ctp_step env (ClientCancel now ret data) s =
     ITDEngine_engine_req_order_action
       (CTDEngineCtp_req_order_action (\<lambda>_. ret) (env\<lparr>en_now := now\<rparr>)) (env\<lparr>en_now := now\<rparr>) data s"
| "ctp_step env (FromBroker now cb) s = run_callback (\<lambda>_. 0) (env\<lparr>en_now := now\<rparr>) cb s"

text \<open>The order a report is about, where the gateway knows the kind of report and the state it names.\<close>

fun report_ref :: "ctp_callback \<Rightarrow> int option" where
  "report_ref (RspOrderInsert order info rid) = Some rid"
| "report_ref (RspOrderAction act info rid) = Some rid"
| "report_ref (RtnOrder order) =
     (case co_OrderStatus order of OST_Other c \<Rightarrow> None | _ \<Rightarrow> Some (atoi (co_OrderRef order)))"
| "report_ref (RtnTrade trade) = Some (atoi (cd_OrderRef trade))"
| "report_ref (ErrRtnOrderInsert order e m) = Some (atoi (ci_OrderRef order))"
| "report_ref (ErrRtnOrderAction act e m) = Some (atoi (ca_OrderRef act))"
| "report_ref _ = None"

text \<open>
  The gateway is connected, an instrument has room for one more order of the day, the day has fewer
  orders than there are records, and the broker reports on orders it was sent.
\<close>

fun ctp_legal :: "ctp_event \<Rightarrow> 't td_ctp \<Rightarrow> bool" where
  "ctp_legal (ClientInsert now ret data) s \<longleftrightarrow>
     te_request_id s < te_request_id_start s + MMAP_ORDER_TRACK_SIZE \<and>
     (acc_index_ok (in_acc_idx data) s \<longrightarrow>
        au_api (ct_account_units s ! nat (in_acc_idx data)) \<and>
        top_room (in_instr_hash data) (te_acc_utilis s ! nat (in_acc_idx data)))"
| "ctp_legal (ClientCancel now ret data) s \<longleftrightarrow>
     (acc_index_ok (oa_acc_idx data) s \<longrightarrow> au_api (ct_account_units s ! nat (oa_acc_idx data)))"
| "ctp_legal (FromBroker now cb) s \<longleftrightarrow>
     (case report_ref cb of None \<Rightarrow> False | Some ref \<Rightarrow> ref < te_request_id s)"

section \<open>The engine\<close>

text \<open>There is a unit of the interface for every account.\<close>

abbreviation ctp_units :: "'t td_ctp \<Rightarrow> bool" where
  "ctp_units \<equiv> \<lambda>s. length (te_acc_utilis s) = length (ct_account_units s)"

interpretation ctp_engine: tracked_engine ctp_units
  by unfold_locales simp_all

section \<open>The reports of the broker\<close>

lemma forward_ok:
  assumes ok: "engine_ok ctp_units ps tb s" and env: "chan_env ps env"
  shows "\<exists>t b. forward env ref flag fill s = Inr t \<and>
    engine_moves ctp_units ps tb s t ref ((track_of ref s)\<lparr>ot_status := ot_status (track_of ref s) OR flag\<rparr>)
      [fill ((track_of ref s)\<lparr>ot_status := ot_status (track_of ref s) OR flag\<rparr>) b]"
proof -
  let ?f = "\<lambda>t. t\<lparr>ot_status := ot_status t OR flag\<rparr>"
  let ?s1 = "upd_request_track ref ?f s" and ?trk = "?f (track_of ref s)"
  have m1: "engine_moves ctp_units ps tb s ?s1 ref ?trk []" by (rule ctp_engine.upd_track_ok [OF ok]) simp
  then have ok1: "engine_ok ctp_units ps tb ?s1" and trk: "track_of ref ?s1 = ?trk"
    by (simp_all add: engine_moves_def track_of_def)
  from ctp_engine.put_rtn_engine [OF ok1 env, of "fill ?trk" ref] obtain b w where
    p: "put_rtn env (fill ?trk) ?s1 = Inr (or_rtn_msg (fill ?trk b), ?s1\<lparr>te_writer := w\<rparr>)"
      "engine_moves ctp_units ps tb ?s1 (?s1\<lparr>te_writer := w\<rparr>) ref ?trk [fill ?trk b]"
    unfolding trk by blast
  let ?s2 = "?s1\<lparr>te_writer := w\<rparr>"
  have ok2: "engine_ok ctp_units ps tb ?s2" using p(2) by (simp add: engine_moves_def)
  have "acc_index_ok (ot_acc_id ?trk) ?s2"
    using engine_okD(7) [OF ok1, of "track_slot ref"] trk by (simp add: acc_index_ok_def track_of_def)
  from ctp_engine.on_rtn_ok [OF ok2 this, of env ?trk "or_rtn_msg (fill ?trk b)"] obtain u where
    u: "ITDEngine_engine_on_rtn env (ot_acc_id ?trk) ?trk (or_rtn_msg (fill ?trk b)) ?s2 =
        Inr (?s2\<lparr>te_acc_utilis := u\<rparr>)" "engine_ok ctp_units ps tb (?s2\<lparr>te_acc_utilis := u\<rparr>)" by blast
  have "forward env ref flag fill s = Inr (?s2\<lparr>te_acc_utilis := u\<rparr>)"
    using get_track_ok [OF ok1, of ref] p(1) u(1) unfolding forward_def Let_def trk by simp
  moreover have "engine_moves ctp_units ps tb s (?s2\<lparr>te_acc_utilis := u\<rparr>) ref ?trk ([] @ [fill ?trk b])"
    by (rule engine_moves_trans [OF m1 engine_moves_acc [OF p(2) u(2)]])
  ultimately show ?thesis by auto
qed

lemma order_finish_ok:
  assumes ok: "engine_ok ctp_units ps tb s" and w: "chan_filling ps off w" "wr_log w = wr_log (te_writer s)"
  shows "\<exists>t. order_finish env ref off (s\<lparr>te_writer := w\<rparr>) = Inr t \<and>
    engine_moves ctp_units ps tb s t ref (track_of ref s) [frame_buf zero_rtn w]"
proof -
  let ?s = "s\<lparr>te_writer := w\<rparr>"
  from rtn_commit_ok [of ps off ?s env] w(1) obtain w1 where
    c: "rtn_commit env ?s = Inr (s\<lparr>te_writer := w1\<rparr>)" "chan_ready ps w1"
      "wr_log w1 = wr_log w @ [frame_buf zero_rtn w]" by auto
  let ?s1 = "s\<lparr>te_writer := w1\<rparr>" and ?m = "or_rtn_msg (frame_buf zero_rtn w)"
  have ok1: "engine_ok ctp_units ps tb ?s1" by (rule ctp_engine.engine_filled [OF ok c(2)])
  have trk: "track_of ref ?s1 = track_of ref s" by (simp add: track_of_def)
  have "acc_index_ok (ot_acc_id (track_of ref s)) ?s1"
    using engine_okD(7) [OF ok, of "track_slot ref"] by (simp add: acc_index_ok_def track_of_def)
  from ctp_engine.on_rtn_ok [OF ok1 this, of env "track_of ref s" ?m] obtain u where
    u: "ITDEngine_engine_on_rtn env (ot_acc_id (track_of ref s)) (track_of ref s) ?m ?s1 =
        Inr (?s1\<lparr>te_acc_utilis := u\<rparr>)" "engine_ok ctp_units ps tb (?s1\<lparr>te_acc_utilis := u\<rparr>)" by blast
  have "order_finish env ref off ?s = Inr (?s1\<lparr>te_acc_utilis := u\<rparr>)"
    using rtn_at_ok [of ps off ?s] w(1) c(1) get_track_ok [OF ok1, of ref] u(1) trk
    by (simp add: order_finish_def)
  moreover have "engine_moves ctp_units ps tb s (?s1\<lparr>te_acc_utilis := u\<rparr>) ref (track_of ref s) [frame_buf zero_rtn w]"
    using u(2) c(3) w(2) by (simp add: engine_moves_def track_of_def)
  ultimately show ?thesis by blast
qed

lemma order_flag_ok:
  fixes ref flag :: int
  assumes ok: "engine_ok ctp_units ps tb s" and w: "chan_filling ps off w" "wr_log w = wr_log (te_writer s)"
  defines "trk \<equiv> (track_of ref s)\<lparr>ot_status := ot_status (track_of ref s) OR flag\<rparr>"
  shows "\<exists>t. order_flag env ref off flag fill (s\<lparr>te_writer := w\<rparr>) = Inr t \<and>
    (if ot_status (track_of ref s) AND flag \<noteq> 0 then engine_moves ctp_units ps tb s t ref (track_of ref s) []
     else engine_moves ctp_units ps tb s t ref trk [fill (set_type flag (frame_buf zero_rtn w))])"
proof -
  let ?s = "s\<lparr>te_writer := w\<rparr>" and ?f = "\<lambda>t. t\<lparr>ot_status := ot_status t OR flag\<rparr>"
  have get: "ITDEngine_get_request_track ref ?s = Inr (track_of ref s)"
    using engine_okD(4) [OF ok] by (simp add: ITDEngine_get_request_track_def track_of_def)
  show ?thesis
  proof (cases "ot_status (track_of ref s) AND flag \<noteq> 0")
    case True
    note D = rtn_discard_ok [OF w(1)]
    have "order_flag env ref off flag fill ?s = Inr (s\<lparr>te_writer := CSafeRawIOWriter_discard w\<rparr>)"
      using True get by (simp add: order_flag_def)
    with True ctp_engine.engine_filled [OF ok D(1)] D(2) w(2) show ?thesis
      by (simp add: engine_moves_def track_of_def)
  next
    case False
    let ?s1 = "upd_request_track ref ?f s"
    have m1: "engine_moves ctp_units ps tb s ?s1 ref trk []"
      unfolding trk_def by (rule ctp_engine.upd_track_ok [OF ok]) simp
    then have ok1: "engine_ok ctp_units ps tb ?s1" and trk: "track_of ref ?s1 = trk"
      by (simp_all add: engine_moves_def track_of_def)
    have up: "upd_request_track ref ?f ?s = ?s1\<lparr>te_writer := w\<rparr>" by (simp add: upd_request_track_def)
    from rtn_fill_ok [of ps off "?s1\<lparr>te_writer := w\<rparr>" "\<lambda>p. fill (set_type flag p)"] w(1) obtain w1 where
      f: "rtn_fill off (\<lambda>p. fill (set_type flag p)) (?s1\<lparr>te_writer := w\<rparr>) = ?s1\<lparr>te_writer := w1\<rparr>"
        "chan_filling ps off w1" "wr_log w1 = wr_log w"
        "frame_buf zero_rtn w1 = fill (set_type flag (frame_buf zero_rtn w))" by auto
    have "wr_log w1 = wr_log (te_writer ?s1)" using f(3) w(2) by (simp add: upd_request_track_def)
    from order_finish_ok [OF ok1 f(2) this, of env ref] obtain t where
      t: "order_finish env ref off (?s1\<lparr>te_writer := w1\<rparr>) = Inr t"
        "engine_moves ctp_units ps tb ?s1 t ref trk [fill (set_type flag (frame_buf zero_rtn w))]"
      unfolding trk f(4) by blast
    have "order_flag env ref off flag fill ?s = Inr t"
      using False get up f(1) t(1) by (simp add: order_flag_def)
    with False engine_moves_trans [OF m1 t(2)] show ?thesis by simp
  qed
qed

lemma track_report_addressed [simp]:
  "addressed ref t (track_report ty (t\<lparr>ot_status := x\<rparr>) name ref p)"
  "addressed ref t (error_report e p) = addressed ref t p"
  "addressed ref t (set_type ty p) = addressed ref t p"
  "addressed ref t (canceled_rest order p) = addressed ref t p"
  "addressed ref t (track_fields t name ref p)"
  "rm_msg_type (or_rtn_msg (error_report e p)) = rm_msg_type (or_rtn_msg p)"
  "rm_msg_type (or_rtn_msg (canceled_rest order p)) = rm_msg_type (or_rtn_msg p)"
  "rm_msg_type (or_rtn_msg (set_type ty p)) = ty"
  "rm_msg_type (or_rtn_msg (track_report ty t name ref p)) = ty"
  by (simp_all add: addressed_def track_report_def track_fields_def error_report_def set_type_def
      canceled_rest_def Let_def)

lemma forward_done:
  assumes ok: "engine_ok ctp_units ps tb s" and env: "chan_env ps env"
    and flag: "flag = ODS_CANCEL_REJECT \<or> flag \<in> FINAL \<and> ot_status (track_of ref s) AND flag = 0"
  shows "report_done ctp_units ps tb s ref
    (forward env ref flag (\<lambda>t p. error_report e (track_report flag t name ref p)) s)"
proof -
  let ?t = "track_of ref s"
  let ?trk = "?t\<lparr>ot_status := ot_status ?t OR flag\<rparr>"
  from forward_ok [OF ok env, of ref flag "\<lambda>t p. error_report e (track_report flag t name ref p)"]
  obtain t b where t: "forward env ref flag (\<lambda>t p. error_report e (track_report flag t name ref p)) s = Inr t"
    "engine_moves ctp_units ps tb s t ref ?trk [error_report e (track_report flag ?trk name ref b)]" by blast
  have "reports_ok ref ?t ?trk [error_report e (track_report flag ?trk name ref b)]"
    by (rule reports_ok_flag) (use flag in auto)
  with t show ?thesis unfolding report_done_def by blast
qed

lemma order_flag_done:
  assumes ok: "engine_ok ctp_units ps tb s" and w: "chan_filling ps off w" "wr_log w = wr_log (te_writer s)"
    and b: "addressed ref (track_of ref s) (frame_buf zero_rtn w)"
    and fill: "fill = (\<lambda>p. p) \<or> fill = canceled_rest order"
    and flag: "flag \<in> {ODS_ACCEPT, ODS_MARKET_ACCEPT} \<union> FINAL"
  shows "report_done ctp_units ps tb s ref (order_flag env ref off flag fill (s\<lparr>te_writer := w\<rparr>))"
proof -
  let ?t = "track_of ref s" and ?m = "fill (set_type flag (frame_buf zero_rtn w))"
  let ?trk = "?t\<lparr>ot_status := ot_status ?t OR flag\<rparr>"
  from order_flag_ok [OF ok w, of env ref flag fill] obtain t where
    t: "order_flag env ref off flag fill (s\<lparr>te_writer := w\<rparr>) = Inr t"
      "if ot_status ?t AND flag \<noteq> 0 then engine_moves ctp_units ps tb s t ref ?t [] else engine_moves ctp_units ps tb s t ref ?trk [?m]"
    by blast
  show ?thesis
  proof (cases "ot_status ?t AND flag \<noteq> 0")
    case True
    with t show ?thesis unfolding report_done_def
      by (intro exI [of _ t] exI [of _ ?t] exI [of _ "[]"]) simp
  next
    case False
    have "reports_ok ref ?t ?trk [?m]"
      by (rule reports_ok_flag) (use flag False b fill in auto)
    with t False show ?thesis unfolding report_done_def by auto
  qed
qed

lemma OnRtnOrder_done:
  assumes ok: "engine_ok ctp_units ps tb s" and env: "chan_env ps env"
    and ref: "atoi (co_OrderRef order) = ref" and named: "\<And>c. co_OrderStatus order \<noteq> OST_Other c"
  shows "report_done ctp_units ps tb s ref (CTDEngineCtp_OnRtnOrder env order s)"
proof (cases "co_UserID order = ct_int_user_id s \<and> ITDEngine_checkRequestId ref s")
  case False
  with report_done_none [OF ok] ref show ?thesis by (auto simp: CTDEngineCtp_OnRtnOrder_def Let_def)
next
  case True
  let ?t = "track_of ref s" and ?fields = "track_fields (track_of ref s) (co_InstrumentID order) ref"
  from rtn_prefetch_ok [OF engine_okD(1) [OF ok] env] obtain off w1 where
    p: "rtn_prefetch env s = Inr (off, s\<lparr>te_writer := w1\<rparr>)" "chan_filling ps off w1"
      "wr_log w1 = wr_log (te_writer s)" by blast
  from rtn_fill_ok [of ps off "s\<lparr>te_writer := w1\<rparr>" ?fields] p(2) obtain w where
    q: "rtn_fill off ?fields (s\<lparr>te_writer := w1\<rparr>) = s\<lparr>te_writer := w\<rparr>" "chan_filling ps off w"
      "wr_log w = wr_log w1" "frame_buf zero_rtn w = ?fields (frame_buf zero_rtn w1)" by auto
  have b: "addressed ref ?t (frame_buf zero_rtn w)" by (simp add: q(4))
  have log: "wr_log w = wr_log (te_writer s)" using q(3) p(3) by simp
  note D = order_flag_done [OF ok q(2) log b]
  have plain: "report_done ctp_units ps tb s ref (order_flag env ref off flag (\<lambda>p. p) (s\<lparr>te_writer := w\<rparr>))"
    if "flag \<in> {ODS_ACCEPT, ODS_MARKET_ACCEPT}" for flag
    by (rule D [where order = order]) (use that in auto)
  have cxl: "report_done ctp_units ps tb s ref (order_flag env ref off ODS_CANCELED (canceled_rest order) (s\<lparr>te_writer := w\<rparr>))"
    by (rule D [where order = order]) (auto simp: FINAL_def)
  let ?close = "\<lambda>t. t\<lparr>ot_status := ot_status t OR ODS_CLOSED\<rparr>"
  have all: "report_done ctp_units ps tb s ref (order_flag env ref off ODS_MARKET_ACCEPT (\<lambda>p. p)
      (upd_request_track ref ?close (s\<lparr>te_writer := w\<rparr>)))"
  proof -
    let ?s1 = "upd_request_track ref ?close s"
    have m: "engine_moves ctp_units ps tb s ?s1 ref (?close ?t) []" by (rule ctp_engine.upd_track_ok [OF ok]) simp
    then have ok1: "engine_ok ctp_units ps tb ?s1" and trk: "track_of ref ?s1 = ?close ?t"
      by (simp_all add: engine_moves_def track_of_def)
    have "report_done ctp_units ps tb ?s1 ref (order_flag env ref off ODS_MARKET_ACCEPT (\<lambda>p. p) (?s1\<lparr>te_writer := w\<rparr>))"
      by (rule order_flag_done [OF ok1 q(2), where order = order])
        (use log b trk in \<open>auto simp: upd_request_track_def addressed_def\<close>)
    moreover have "upd_request_track ref ?close (s\<lparr>te_writer := w\<rparr>) = ?s1\<lparr>te_writer := w\<rparr>"
      by (simp add: upd_request_track_def)
    ultimately show ?thesis
      unfolding report_done_def trk using reports_ok_closed engine_moves_trans [OF m] by fastforce
  qed
  have r: "CTDEngineCtp_OnRtnOrder env order s =
      (case co_OrderStatus order of
         OST_Unknown \<Rightarrow> order_flag env ref off ODS_ACCEPT (\<lambda>p. p) (s\<lparr>te_writer := w\<rparr>)
       | OST_Canceled \<Rightarrow> order_flag env ref off ODS_CANCELED (canceled_rest order) (s\<lparr>te_writer := w\<rparr>)
       | OST_PartTradedNotQueueing \<Rightarrow> order_flag env ref off ODS_CANCELED (canceled_rest order) (s\<lparr>te_writer := w\<rparr>)
       | OST_AllTraded \<Rightarrow> order_flag env ref off ODS_MARKET_ACCEPT (\<lambda>p. p)
           (upd_request_track ref ?close (s\<lparr>te_writer := w\<rparr>))
       | OST_NoTradeQueueing \<Rightarrow> order_flag env ref off ODS_MARKET_ACCEPT (\<lambda>p. p) (s\<lparr>te_writer := w\<rparr>)
       | OST_PartTradedQueueing \<Rightarrow> order_flag env ref off ODS_MARKET_ACCEPT (\<lambda>p. p) (s\<lparr>te_writer := w\<rparr>)
       | OST_Other c \<Rightarrow> order_finish env ref off (s\<lparr>te_writer := w\<rparr>))"
    using True ref p(1) q(1) get_track_ok [OF ok, of ref]
    by (cases "co_OrderStatus order") (simp_all add: CTDEngineCtp_OnRtnOrder_def Let_def)
  show ?thesis
    unfolding r using plain cxl all named by (cases "co_OrderStatus order") auto
qed

lemma OnRtnTrade_done:
  assumes ok: "engine_ok ctp_units ps tb s" and env: "chan_env ps env" and ref: "atoi (cd_OrderRef d) = ref"
  shows "report_done ctp_units ps tb s ref (CTDEngineCtp_OnRtnTrade env d s)"
proof (cases "cd_UserID d = ct_int_user_id s \<and> ITDEngine_checkRequestId ref s")
  case False
  with report_done_none [OF ok] ref show ?thesis by (auto simp: CTDEngineCtp_OnRtnTrade_def Let_def)
next
  case user: True
  obtain seen s1 where o: "ITDEngine_testOtId ref (strtoll0 (cd_TradeID d)) s = (seen, s1)" by fastforce
  then obtain q where s1: "s1 = s\<lparr>te_otidfilter := q\<rparr>"
    by (auto simp: ITDEngine_testOtId_def split: prod.splits)
  have ok1: "engine_ok ctp_units ps tb s1" and t1: "track_of ref s1 = track_of ref s"
    using ok by (simp_all add: s1 track_of_def)
  have m1: "engine_moves ctp_units ps tb s s1 ref (track_of ref s) []"
    using ok1 by (simp add: engine_moves_def s1 track_of_def)
  let ?t = "track_of ref s"
  show ?thesis
  proof (cases "seen \<or> ot_from ?t = 0")
    case True
    then have "CTDEngineCtp_OnRtnTrade env d s = Inr s1"
      using user ref o get_track_ok [OF ok1, of ref] t1 by (auto simp: CTDEngineCtp_OnRtnTrade_def Let_def)
    with m1 show ?thesis unfolding report_done_def using reports_ok_refl by blast
  next
    case False
    let ?f = "trade_booked d" and ?g = "trade_paid d" and ?fill = "trade_report d ref"
    let ?s2 = "upd_request_track ref ?f s1"
    have m2: "engine_moves ctp_units ps tb s1 ?s2 ref (?f ?t) []"
      unfolding t1 [symmetric] by (rule ctp_engine.upd_track_ok [OF ok1]) (simp add: trade_booked_def Let_def)
    then have ok2: "engine_ok ctp_units ps tb ?s2" and t2: "track_of ref ?s2 = ?f ?t"
      by (simp_all add: engine_moves_def track_of_def)
    from ctp_engine.put_rtn_engine [OF ok2 env, of "?fill (?f ?t)" ref] obtain b w where
      p: "put_rtn env (?fill (?f ?t)) ?s2 = Inr (or_rtn_msg (?fill (?f ?t) b), ?s2\<lparr>te_writer := w\<rparr>)"
        "engine_moves ctp_units ps tb ?s2 (?s2\<lparr>te_writer := w\<rparr>) ref (?f ?t) [?fill (?f ?t) b]"
      unfolding t2 by blast
    let ?s3 = "?s2\<lparr>te_writer := w\<rparr>" and ?m = "?fill (?f ?t) b"
    have ok3: "engine_ok ctp_units ps tb ?s3" and t3: "track_of ref ?s3 = ?f ?t"
      using p(2) t2 by (simp_all add: engine_moves_def track_of_def)
    let ?s4 = "upd_request_track ref ?g ?s3"
    have m4: "engine_moves ctp_units ps tb ?s3 ?s4 ref (?g (?f ?t)) []"
      unfolding t3 [symmetric] by (rule ctp_engine.upd_track_ok [OF ok3]) (simp add: trade_paid_def)
    then have ok4: "engine_ok ctp_units ps tb ?s4" and t4: "track_of ref ?s4 = ?g (?f ?t)"
      by (simp_all add: engine_moves_def track_of_def)
    have "acc_index_ok (ot_acc_id (?g (?f ?t))) ?s4"
      using engine_okD(7) [OF ok4, of "track_slot ref"] t4 by (simp add: track_of_def)
    from ctp_engine.on_rtn_ok [OF ok4 this, of env "?g (?f ?t)" "or_rtn_msg ?m"] obtain u where
      u: "ITDEngine_engine_on_rtn env (ot_acc_id (?g (?f ?t))) (?g (?f ?t)) (or_rtn_msg ?m) ?s4 =
          Inr (?s4\<lparr>te_acc_utilis := u\<rparr>)" "engine_ok ctp_units ps tb (?s4\<lparr>te_acc_utilis := u\<rparr>)" by blast
    have "CTDEngineCtp_OnRtnTrade env d s = Inr (?s4\<lparr>te_acc_utilis := u\<rparr>)"
      using user False ref o get_track_ok [OF ok1, of ref] get_track_ok [OF ok2, of ref]
        get_track_ok [OF ok4, of ref] p(1) u(1) unfolding t1 t2 t4
      by (simp add: CTDEngineCtp_OnRtnTrade_def Let_def)
    moreover have "engine_moves ctp_units ps tb s (?s4\<lparr>te_acc_utilis := u\<rparr>) ref (?g (?f ?t)) ([] @ [] @ [?m] @ [])"
      by (intro engine_moves_trans [OF m1] engine_moves_trans [OF m2] engine_moves_trans [OF p(2)]
          engine_moves_acc [OF m4 u(2)])
    moreover have "reports_ok ref ?t (?g (?f ?t)) [?m]"
    proof (rule reports_ok_trade)
      show "addressed ref ?t ?m" by (simp add: addressed_def trade_report_def set_type_def track_fields_def trade_booked_def Let_def)
      show "?g (?f ?t) = ?t\<lparr>ot_status := ot_status ?t OR ODS_EXECUTION OR
            (if ot_vol_traded ?t + cd_Volume d \<ge> ot_vol ?t then ODS_CLOSED else 0),
          ot_vol_traded := ot_vol_traded ?t + cd_Volume d, ot_amount_traded := ot_amount_traded (?g (?f ?t))\<rparr>"
        by (simp add: trade_booked_def trade_paid_def Let_def or.assoc)
    qed (simp_all add: trade_report_def set_type_def Let_def)
    ultimately show ?thesis unfolding report_done_def by auto
  qed
qed

text \<open>Every report of the broker is handled without a fault, and moves record and log together.\<close>

lemma report_ok:
  assumes ok: "engine_ok ctp_units ps tb s" and env: "chan_env ps env" and ref: "report_ref cb = Some ref"
  shows "report_done ctp_units ps tb s ref (run_callback api env cb s)"
proof -
  note get = get_track_ok [OF ok] and none = report_done_none [OF ok]
  have flags: "ODS_REJECT \<in> FINAL" "ODS_MARKET_REJECT \<in> FINAL" by (simp_all add: FINAL_def)
  show ?thesis
  proof (cases cb)
    case (RspOrderInsert order info rid)
    with ref forward_done [OF ok env] get none flags show ?thesis
      by (auto simp: CTDEngineCtp_OnRspOrderInsert_def split: option.split)
  next
    case (RspOrderAction act info rid)
    with ref forward_done [OF ok env] get none show ?thesis
      by (auto simp: CTDEngineCtp_OnRspOrderAction_def split: option.split)
  next
    case (RtnOrder order)
    with ref have "atoi (co_OrderRef order) = ref" "\<And>c. co_OrderStatus order \<noteq> OST_Other c"
      by (auto split: order_status.splits)
    from OnRtnOrder_done [OF ok env this] RtnOrder show ?thesis by simp
  next
    case (RtnTrade trade)
    with ref OnRtnTrade_done [OF ok env, of trade ref] show ?thesis by simp
  next
    case (ErrRtnOrderInsert order e m)
    with ref forward_done [OF ok env] get none flags show ?thesis
      by (auto simp: CTDEngineCtp_OnErrRtnOrderInsert_def Let_def)
  next
    case (ErrRtnOrderAction act e m)
    with ref forward_done [OF ok env] get none show ?thesis
      by (auto simp: CTDEngineCtp_OnErrRtnOrderAction_def Let_def)
  qed (use ref in simp_all)
qed

lemma report_ignored:
  "report_ref cb = Some ref \<Longrightarrow> \<not> ITDEngine_checkRequestId ref s \<Longrightarrow> run_callback api env cb s = Inr s"
  by (cases cb)
    (auto simp: CTDEngineCtp_OnRspOrderInsert_def CTDEngineCtp_OnRspOrderAction_def CTDEngineCtp_OnRtnOrder_def
      CTDEngineCtp_OnRtnTrade_def CTDEngineCtp_OnErrRtnOrderInsert_def CTDEngineCtp_OnErrRtnOrderAction_def
      Let_def split: order_status.splits)

section \<open>The requests of the clients\<close>

text \<open>The order as it is sent, and the code that decides about a request.\<close>

definition order_sent :: "input_order \<Rightarrow> 't td_ctp \<Rightarrow> ctp_input_order" where
  "order_sent data s =
     (au_input_order (ct_account_units s ! nat (in_acc_idx data)))
       \<lparr>ci_OrderRef := int2string (te_request_id s), ci_InstrumentID := in_instr data,
        ci_VolumeTotalOriginal := in_vol data, ci_CombOffsetFlag := in_off data,
        ci_Direction := in_dir data, ci_LimitPrice := in_price data\<rparr>"

definition insert_request :: "input_order \<Rightarrow> 't td_ctp \<Rightarrow> ctp_request" where
  "insert_request data s = ReqOrderInsert (in_acc_idx data) (order_sent data s) (te_request_id s)"

definition own_code :: "'t eng_env \<Rightarrow> input_order \<Rightarrow> 't td_ctp \<Rightarrow> int" where
  "own_code env data s =
     (if \<not> acc_index_ok (in_acc_idx data) s then -1
      else case RiskTop_check (en_fuel env) (en_ops env) (tb_instr_info (te_base s)) (en_now env)
          (in_dir data) (in_off data) (in_price data) (in_vol data) (in_instr_hash data)
          (te_acc_utilis s ! nat (in_acc_idx data)) of
        Inl _ \<Rightarrow> 0
      | Inr (e, _) \<Rightarrow> e)"

definition insert_code :: "(ctp_request \<Rightarrow> int) \<Rightarrow> 't eng_env \<Rightarrow> input_order \<Rightarrow> 't td_ctp \<Rightarrow> int" where
  "insert_code api env data s = (if own_code env data s \<noteq> 0 then own_code env data s else api (insert_request data s))"

text \<open>The engine once the order was handed to the interface.\<close>

definition handed_over :: "input_order \<Rightarrow> 't td_ctp \<Rightarrow> 't td_ctp" where
  "handed_over data s =
     (let i = nat (in_acc_idx data) in
      s\<lparr>ct_account_units := (ct_account_units s)
          [i := (ct_account_units s ! i)\<lparr>au_input_order := order_sent data s\<rparr>],
        ct_sent := ct_sent s @ [insert_request data s]\<rparr>)"

text \<open>An order that was sent: it is recorded as it was asked for, and booked.\<close>

definition order_opened ::
    "int \<Rightarrow> instr_table \<Rightarrow> 't eng_env \<Rightarrow> input_order \<Rightarrow> 't td_ctp \<Rightarrow> 't td_ctp \<Rightarrow> io_order_rtn \<Rightarrow> bool" where
  "order_opened ps tb env data s t m \<longleftrightarrow>
     engine_ok ctp_units ps tb t \<and> te_request_id t = te_request_id s + 1 \<and>
     te_request_id_start t = te_request_id_start s \<and> ct_sent t = ct_sent s @ [insert_request data s] \<and>
     (\<exists>r. RiskTop_onNew (en_ops env) tb (en_now env) (in_dir data) (in_off data) (in_price data) (in_vol data)
          (in_instr_hash data) (te_request_id s) (te_acc_utilis s ! nat (in_acc_idx data)) = Inr r \<and>
        te_acc_utilis t = (te_acc_utilis s)[nat (in_acc_idx data) := r]) \<and>
     (\<exists>trk. te_request_track t = (te_request_track s)(track_slot (te_request_id s) := trk) \<and>
        trk = insert_record data (ct_account_units s ! nat (in_acc_idx data)) (te_request_id s) (track_of (te_request_id s) s) \<and>
        ot_status trk = ODS_TDSEND \<and> ot_vol_traded trk = 0 \<and> ot_vol trk = in_vol data \<and>
        addressed (te_request_id s) trk m) \<and>
     wr_log (te_writer t) = wr_log (te_writer s) @ [m] \<and>
     or_to m = in_from data \<and> rm_local_id (or_rtn_msg m) = in_local_id data \<and>
     rm_msg_type (or_rtn_msg m) = ODS_TDSEND"

lemma order_opened_opened: "order_opened ps tb env data s t m \<Longrightarrow> opened s t m"
  by (auto simp: order_opened_def opened_def)

text \<open>An order that was refused in the state \<open>u\<close>, in which only the answer is written.\<close>

definition order_refused ::
    "int \<Rightarrow> instr_table \<Rightarrow> int \<Rightarrow> input_order \<Rightarrow> 't td_ctp \<Rightarrow> 't td_ctp \<Rightarrow> 't td_ctp \<Rightarrow> io_order_rtn \<Rightarrow> bool" where
  "order_refused ps tb e data u s t m \<longleftrightarrow>
     (\<exists>w. t = u\<lparr>te_writer := w\<rparr>) \<and>
     (\<forall>ref. engine_moves ctp_units ps tb s t ref (track_of ref s) [m]) \<and>
     or_to m = in_from data \<and> rm_local_id (or_rtn_msg m) = in_local_id data \<and>
     rm_msg_type (or_rtn_msg m) = ODS_ERR \<and> rm_errid (or_rtn_msg m) = e"

lemma put_rtn_writes: "put_rtn env f s = Inr (m, t) \<Longrightarrow> \<exists>w. t = s\<lparr>te_writer := w\<rparr>"
  by (auto simp: put_rtn_def rtn_prefetch_def rtn_fill_def rtn_commit_def res_bind_Inr_iff split: option.splits)

lemma writeErrRtn_writes: "ITDEngine_writeErrRtn_order env data e msg ty s = Inr t \<Longrightarrow> \<exists>w. t = s\<lparr>te_writer := w\<rparr>"
  by (auto simp: ITDEngine_writeErrRtn_order_def res_bind_Inr_iff dest: put_rtn_writes)

lemma refused_ok:
  assumes ok: "engine_ok ctp_units ps tb s" and env: "chan_env ps env"
  shows "\<exists>m t. ITDEngine_writeErrRtn_order env data e msg ODS_ERR s = Inr t \<and> order_refused ps tb e data s s t m"
proof -
  from ctp_engine.errors_ok(1) [OF ok env, of data e msg ODS_ERR undefined] obtain m t where
    t: "ITDEngine_writeErrRtn_order env data e msg ODS_ERR s = Inr t"
    "engine_moves ctp_units ps tb s t undefined (track_of undefined s) [m]" "or_to m = in_from data"
    "rm_local_id (or_rtn_msg m) = in_local_id data" "rm_msg_type (or_rtn_msg m) = ODS_ERR"
    "rm_errid (or_rtn_msg m) = e" by blast
  then have "engine_moves ctp_units ps tb s t ref (track_of ref s) [m]" for ref
    by (simp add: engine_moves_def track_of_def)
  moreover have "\<exists>w. t = s\<lparr>te_writer := w\<rparr>" using writeErrRtn_writes [OF t(1)] .
  ultimately show ?thesis using t unfolding order_refused_def by blast
qed

lemma list_update_same: "nat i < length xs \<Longrightarrow> x = xs ! nat i \<Longrightarrow> xs[nat i := x] = xs"
  by simp

lemma insert_ok:
  assumes ok: "engine_ok ctp_units ps tb s" and env: "chan_env ps env" and fuel: "0 < en_fuel env"
    and legal: "acc_index_ok (in_acc_idx data) s \<Longrightarrow> au_api (ct_account_units s ! nat (in_acc_idx data)) \<and>
      top_room (in_instr_hash data) (te_acc_utilis s ! nat (in_acc_idx data))"
  shows "\<exists>m t. CTDEngineCtp_req_order_insert api env data s = Inr t \<and>
    (if insert_code api env data s = 0 then order_opened ps tb env data s t m
     else order_refused ps tb (insert_code api env data s) data
       (if own_code env data s = 0 then handed_over data s else s) s t m)"
proof (cases "acc_index_ok (in_acc_idx data) s")
  case False
  from refused_ok [OF ok env, of data "-1" "''account idx err.''"] False show ?thesis
    by (auto simp: CTDEngineCtp_req_order_insert_def insert_begin_def insert_code_def own_code_def acc_index_ok_def Let_def)
next
  case idx: True
  note E = engine_okD [OF ok]
  let ?i = "nat (in_acc_idx data)" and ?rid = "te_request_id s"
  let ?r = "te_acc_utilis s ! ?i" and ?q = "insert_request data s"
  have i: "?i < length (te_acc_utilis s)" "?i < length (ct_account_units s)" "0 \<le> in_acc_idx data"
    using idx E(5) by (simp_all add: acc_index_ok_def)
  have ready: "top_ready tb ?r" by (rule E(6)) (use i in simp)
  from fuel obtain n where n: "en_fuel env = Suc n" by (cases "en_fuel env") auto
  from RiskTop_check_total [OF E(2) ready, of n "en_ops env" "en_now env"] obtain e where
    e: "RiskTop_check (en_fuel env) (en_ops env) tb (en_now env) (in_dir data) (in_off data)
          (in_price data) (in_vol data) (in_instr_hash data) ?r = Inr (e, ?r)"
    unfolding n by blast
  show ?thesis
  proof (cases "e = 0")
    case False
    with idx e E(3) have code: "insert_code api env data s = e" "own_code env data s = e"
      by (simp_all add: insert_code_def own_code_def)
    from refused_ok [OF ok env, of data e "''risk check failed''"] False i e E(3) show ?thesis
      unfolding code
      by (auto simp: CTDEngineCtp_req_order_insert_def insert_begin_def Let_def)
  next
    case True
    let ?u = "ct_account_units s ! ?i"
    let ?units = "(ct_account_units s)[?i := ?u\<lparr>au_input_order := order_sent data s\<rparr>]"
    let ?s2 = "s\<lparr>ct_account_units := ?units, ct_sent := ct_sent s @ [?q]\<rparr>"
    from idx e E(3) True have code: "insert_code api env data s = api ?q" "own_code env data s = 0"
      by (simp_all add: insert_code_def own_code_def)
    have over: "handed_over data s = ?s2" by (simp add: handed_over_def Let_def)
    have "insert_begin env data s = Inr (Some ?q, s\<lparr>ct_account_units := ?units\<rparr>)"
      using True i e E(3)
      by (simp add: insert_begin_def Let_def upd_unit_def order_sent_def insert_request_def)
    moreover have "api_call api (in_acc_idx data) ?q (s\<lparr>ct_account_units := ?units\<rparr>) = Inr (api ?q, ?s2)"
      using i legal [OF idx] by (simp add: api_call_def)
    ultimately have step: "CTDEngineCtp_req_order_insert api env data s = insert_end env data (api ?q) ?s2"
      by (simp add: CTDEngineCtp_req_order_insert_def)
    have ok2: "engine_ok ctp_units ps tb ?s2" using ok by (auto simp: engine_ok_def acc_index_ok_def)
    show ?thesis
    proof (cases "api ?q = 0")
      case False
      from refused_ok [OF ok2 env, of data "api ?q"] False show ?thesis
        unfolding step code over
        by (fastforce simp: insert_end_def order_refused_def engine_moves_def track_of_def)
    next
      case True
      let ?u2 = "?units ! ?i"
      let ?f = "insert_record data ?u2 ?rid" and ?g = "insert_ack data ?u2 ?rid"
      let ?s3 = "upd_request_track ?rid ?f ?s2"
      have ok3: "engine_ok ctp_units ps tb ?s3"
        using ok2 i by (auto simp: engine_ok_def upd_request_track_def insert_record_def acc_index_ok_def)
      from ctp_engine.put_rtn_engine [OF ok3 env, of ?g ?rid] obtain b w where
        p: "put_rtn env ?g ?s3 = Inr (or_rtn_msg (?g b), ?s3\<lparr>te_writer := w\<rparr>)"
          "engine_moves ctp_units ps tb ?s3 (?s3\<lparr>te_writer := w\<rparr>) ?rid (track_of ?rid ?s3) [?g b]" by blast
      let ?s4 = "?s3\<lparr>te_writer := w, te_request_id := ?rid + 1\<rparr>"
      have ok4: "engine_ok ctp_units ps tb ?s4"
        using p(2) by (auto simp: engine_moves_def engine_ok_def acc_index_ok_def)
      have acc4: "te_acc_utilis ?s4 = te_acc_utilis s" "tb_instr_info (te_base ?s4) = tb"
        using E(3) by (simp_all add: upd_request_track_def)
      have "acc_index_ok (in_acc_idx data) ?s4" using idx acc4(1) by (simp add: acc_index_ok_def)
      note idx4 = this
      let ?new = "RiskTop_onNew (en_ops env) tb (en_now env) (in_dir data) (in_off data) (in_price data)
        (in_vol data) (in_instr_hash data) ?rid"
      have new: "\<exists>r1. ?new r = Inr r1 \<and> top_ready tb r1"
        if "top_ready tb r" "r = te_acc_utilis ?s4 ! ?i" for r
        by (rule RiskTop_onNew_total [OF E(2) that(1)]) (use that(2) legal [OF idx] acc4(1) in simp)
      have "\<exists>u. upd_acc (in_acc_idx data) ?new ?s4 = Inr (?s4\<lparr>te_acc_utilis := u\<rparr>) \<and>
          engine_ok ctp_units ps tb (?s4\<lparr>te_acc_utilis := u\<rparr>)"
        by (rule ctp_engine.upd_acc_ok [OF ok4 idx4]) (rule new)
      then obtain u where
        u: "upd_acc (in_acc_idx data) ?new ?s4 = Inr (?s4\<lparr>te_acc_utilis := u\<rparr>)"
          "engine_ok ctp_units ps tb (?s4\<lparr>te_acc_utilis := u\<rparr>)" by blast
      have mapped: "te_track_mapped ?s2" using E(4) by simp
      have base: "tb_instr_info (te_base (?s3\<lparr>te_writer := w\<rparr>)) = tb" using acc4(2) by simp
      have "insert_end env data (api ?q) ?s2 = Inr (?s4\<lparr>te_acc_utilis := u\<rparr>)"
        unfolding insert_end_def Let_def True
        using i(2) mapped p(1) u(1) base
        by (simp add: ITDEngine_get_request_track_def)
      moreover have "order_opened ps tb env data s (?s4\<lparr>te_acc_utilis := u\<rparr>) (?g b)"
        unfolding order_opened_def
      proof (intro conjI)
        show "wr_log (te_writer (?s4\<lparr>te_acc_utilis := u\<rparr>)) = wr_log (te_writer s) @ [?g b]"
          using p(2) by (simp add: engine_moves_def upd_request_track_def)
        show "\<exists>r. ?new ?r = Inr r \<and> te_acc_utilis (?s4\<lparr>te_acc_utilis := u\<rparr>) = (te_acc_utilis s)[?i := r]"
          using u(1) i acc4(1) by (auto simp: upd_acc_def res_bind_Inr_iff dest: arg_cong [of _ _ te_acc_utilis])
        show "\<exists>trk. te_request_track (?s4\<lparr>te_acc_utilis := u\<rparr>) = (te_request_track s)(track_slot ?rid := trk) \<and>
            trk = insert_record data ?u ?rid (track_of ?rid s) \<and> ot_status trk = ODS_TDSEND \<and> ot_vol_traded trk = 0 \<and> ot_vol trk = in_vol data \<and> addressed ?rid trk (?g b)"
          by (rule exI [of _ "?f (te_request_track s (track_slot ?rid))"])
            (use i in \<open>simp add: upd_request_track_def addressed_def insert_record_def insert_ack_def track_of_def\<close>)
      qed (use u(2) in \<open>simp_all add: upd_request_track_def insert_ack_def\<close>)
      ultimately show ?thesis unfolding step code True by auto
    qed
  qed
qed

lemma cancel_ok:
  assumes ok: "engine_ok ctp_units ps tb s" and env: "chan_env ps env"
    and legal: "acc_index_ok (oa_acc_idx data) s \<Longrightarrow> au_api (ct_account_units s ! nat (oa_acc_idx data))"
  defines "ref \<equiv> oa_order_ref data"
  shows "\<exists>t. ITDEngine_engine_req_order_action (CTDEngineCtp_req_order_action api env) env data s = Inr t \<and>
    ((\<exists>m. refusal m \<and> engine_moves ctp_units ps tb s t ref (track_of ref s) [m]) \<or>
     engine_moves ctp_units ps tb s t ref ((track_of ref s)\<lparr>ot_status := ot_status (track_of ref s) OR ODS_CXLING\<rparr>) [])"
proof -
  let ?P = "\<lambda>t. (\<exists>m. refusal m \<and> engine_moves ctp_units ps tb s t ref (track_of ref s) [m]) \<or>
     engine_moves ctp_units ps tb s t ref ((track_of ref s)\<lparr>ot_status := ot_status (track_of ref s) OR ODS_CXLING\<rparr>) []"
  have err: "\<exists>t. ITDEngine_writeErrRtn_action env data e msg ty u = Inr t \<and> ?P t"
    if u: "engine_moves ctp_units ps tb s u ref (track_of ref s) []" and ty: "ty \<in> {ODS_ERR, ODS_CANCEL_REJECT}" for e msg ty u
  proof -
    from u have "engine_ok ctp_units ps tb u" and tu: "track_of ref u = track_of ref s"
      by (simp_all add: engine_moves_def track_of_def)
    from ctp_engine.errors_ok(2) [OF this(1) env, of data e msg ty ref] obtain m t where
      "ITDEngine_writeErrRtn_action env data e msg ty u = Inr t"
      "engine_moves ctp_units ps tb u t ref (track_of ref s) [m]" "rm_msg_type (or_rtn_msg m) = ty"
      unfolding tu by blast
    with engine_moves_trans [OF u this(2)] ty show ?thesis
      by (intro exI [of _ t] conjI disjI1 exI [of _ m]) (auto simp: refusal_def)
  qed
  note err0 = err [OF engine_moves_refl [OF ok]]
  note E = engine_okD [OF ok]
  show ?thesis
  proof (cases "acc_index_ok (oa_acc_idx data) s")
    case False
    then have go: "ITDEngine_engine_req_order_action (CTDEngineCtp_req_order_action api env) env data s =
        ITDEngine_writeErrRtn_action env data (-1) ''account idx err.'' ODS_ERR s"
      by (auto simp: ITDEngine_engine_req_order_action_def acc_index_ok_def)
    from err0 [where ty = ODS_ERR] show ?thesis unfolding go by simp
  next
    case idx: True
    let ?i = "nat (oa_acc_idx data)"
    have i: "0 \<le> oa_acc_idx data" "?i < length (te_acc_utilis s)" "?i < length (ct_account_units s)"
      using idx E(5) by (simp_all add: acc_index_ok_def)
    have go: "ITDEngine_engine_req_order_action (CTDEngineCtp_req_order_action api env) env data s =
        CTDEngineCtp_req_order_action api env data s"
      using i by (simp add: ITDEngine_engine_req_order_action_def)
    show ?thesis
    proof (cases "ITDEngine_checkRequestId ref s \<and> ot_front_id (track_of ref s) = oa_front_id data \<and>
        ot_session_id (track_of ref s) = oa_session_id data")
      case False
      with err0 [where ty = ODS_CANCEL_REJECT] get_track_ok [OF ok, of ref] show ?thesis
        unfolding go by (auto simp: CTDEngineCtp_req_order_action_def Let_def simp flip: ref_def)
    next
      case True
      define order where "order = (au_action_order (ct_account_units s ! ?i))
          \<lparr>ca_OrderRef := int2string ref, ca_FrontID := oa_front_id data,
           ca_SessionID := oa_session_id data, ca_InstrumentID := oa_instr data\<rparr>"
      define q where "q = ReqOrderAction (oa_acc_idx data) order ref"
      define s2 where "s2 = s\<lparr>ct_account_units := (ct_account_units s)
          [?i := (ct_account_units s ! ?i)\<lparr>au_action_order := order\<rparr>], ct_sent := ct_sent s @ [q]\<rparr>"
      have m2: "engine_moves ctp_units ps tb s s2 ref (track_of ref s) []"
        using ok by (auto simp: s2_def engine_moves_def engine_ok_def track_of_def acc_index_ok_def)
      have step: "CTDEngineCtp_req_order_action api env data s =
          (if api q = 0
           then Inr (upd_request_track ref (\<lambda>t. t\<lparr>ot_status := ot_status t OR ODS_CXLING\<rparr>) s2)
           else ITDEngine_writeErrRtn_action env data (api q) ''ctp ReqOrderAction api failed.'' ODS_CANCEL_REJECT s2)"
        using True i legal [OF idx] get_track_ok [OF ok, of ref]
        by (simp add: CTDEngineCtp_req_order_action_def Let_def upd_unit_def api_call_def ref_def order_def q_def s2_def)
      have ok2: "engine_ok ctp_units ps tb s2" and t2: "track_of ref s2 = track_of ref s"
        using m2 by (simp_all add: engine_moves_def track_of_def)
      from engine_moves_trans [OF m2 ctp_engine.upd_track_ok [OF ok2, of "\<lambda>t. t\<lparr>ot_status := ot_status t OR ODS_CXLING\<rparr>" ref]]
        err [OF m2, where ty = ODS_CANCEL_REJECT]
      show ?thesis unfolding go step t2 by (cases "api q = 0") auto
    qed
  qed
qed

section \<open>The invariant of a run\<close>

text \<open>\<open>r0\<close> and \<open>L0\<close>: the number of the first order of the run, and the log before it.\<close>

definition ctp_inv :: "int \<Rightarrow> instr_table \<Rightarrow> int \<Rightarrow> io_order_rtn list \<Rightarrow> 't td_ctp \<Rightarrow> bool" where
  "ctp_inv ps tb r0 L0 s \<longleftrightarrow>
     engine_ok ctp_units ps tb s \<and> (\<exists>L. wr_log (te_writer s) = L0 @ L \<and> log_ok r0 s L)"

definition ctp_env :: "int \<Rightarrow> 't eng_env \<Rightarrow> bool" where
  "ctp_env ps env \<longleftrightarrow> chan_env ps env \<and> 0 < en_fuel env"

lemma ctp_step_ok:
  assumes inv: "ctp_env ps env \<and> ctp_inv ps tb r0 L0 s" and legal: "ctp_legal e s"
  shows "\<exists>t. ctp_step env e s = Inr t \<and> ctp_env ps env \<and> ctp_inv ps tb r0 L0 t"
proof -
  from inv obtain L where ok: "engine_ok ctp_units ps tb s" and L: "wr_log (te_writer s) = L0 @ L" "log_ok r0 s L"
    by (auto simp: ctp_inv_def)
  have "chan_env ps env" and fuel: "0 < en_fuel env" using inv by (simp_all add: ctp_env_def)
  then have env: "chan_env ps (env\<lparr>en_now := now\<rparr>)" for now by (simp add: chan_env_def)
  have done_inv: "ctp_inv ps tb r0 L0 t" if "engine_ok ctp_units ps tb t" "wr_log (te_writer t) = wr_log (te_writer s) @ ms"
      "log_ok r0 t (L @ ms)" for t ms
    using that L(1) by (auto simp: ctp_inv_def)
  show ?thesis
  proof (cases e)
    case (ClientInsert now ret data)
    let ?env = "env\<lparr>en_now := now\<rparr>"
    have "0 < en_fuel ?env" using fuel by simp
    from insert_ok [OF ok env [of now] this, of data "\<lambda>_. ret"] legal ClientInsert obtain m t where
      t: "CTDEngineCtp_req_order_insert (\<lambda>_. ret) ?env data s = Inr t"
        "order_opened ps tb ?env data s t m \<or> (\<exists>c u. order_refused ps tb c data u s t m)"
      by (auto split: if_splits)
    from t(2) have "ctp_inv ps tb r0 L0 t"
    proof (elim disjE exE)
      assume o: "order_opened ps tb ?env data s t m"
      from log_ok_opened [OF L(2) order_opened_opened [OF o]] legal ClientInsert have "log_ok r0 t (L @ [m])" by simp
      with o show ?thesis by (intro done_inv [of t "[m]"]) (simp_all add: order_opened_def)
    next
      fix c u assume o: "order_refused ps tb c data u s t m"
      then have "engine_moves ctp_units ps tb s t 0 (track_of 0 s) [m]" "refusal m"
        by (auto simp: order_refused_def refusal_def)
      with log_ok_refusal [OF L(2) this] show ?thesis
        by (intro done_inv [of t "[m]"]) (simp_all add: engine_moves_def)
    qed
    with t(1) ClientInsert inv show ?thesis by simp
  next
    case (ClientCancel now ret data)
    let ?env = "env\<lparr>en_now := now\<rparr>"
    from cancel_ok [OF ok env [of now], of data "\<lambda>_. ret"] legal ClientCancel obtain t where
      t: "ITDEngine_engine_req_order_action (CTDEngineCtp_req_order_action (\<lambda>_. ret) ?env) ?env data s = Inr t"
        "(\<exists>m. refusal m \<and> engine_moves ctp_units ps tb s t (oa_order_ref data) (track_of (oa_order_ref data) s) [m]) \<or>
         engine_moves ctp_units ps tb s t (oa_order_ref data) ((track_of (oa_order_ref data) s)
           \<lparr>ot_status := ot_status (track_of (oa_order_ref data) s) OR ODS_CXLING\<rparr>) []"
      by auto
    from t(2) have "ctp_inv ps tb r0 L0 t"
    proof (elim disjE exE conjE)
      fix m assume "refusal m" "engine_moves ctp_units ps tb s t (oa_order_ref data) (track_of (oa_order_ref data) s) [m]"
      with log_ok_refusal [OF L(2) this(2,1)] show ?thesis
        by (intro done_inv [of t "[m]"]) (simp_all add: engine_moves_def)
    next
      assume m: "engine_moves ctp_units ps tb s t (oa_order_ref data) ((track_of (oa_order_ref data) s)
           \<lparr>ot_status := ot_status (track_of (oa_order_ref data) s) OR ODS_CXLING\<rparr>) []"
      with log_ok_cxling [OF L(2) m] show ?thesis
        by (intro done_inv [of t "[]"]) (simp_all add: engine_moves_def)
    qed
    with t(1) ClientCancel inv show ?thesis by simp
  next
    case (FromBroker now cb)
    with legal obtain ref where ref: "report_ref cb = Some ref" "ref < te_request_id s"
      by (auto split: option.splits)
    from report_ok [OF ok env ref(1), of "\<lambda>_. 0" now] obtain t trk ms where
      t: "run_callback (\<lambda>_. 0) (env\<lparr>en_now := now\<rparr>) cb s = Inr t" "engine_moves ctp_units ps tb s t ref trk ms"
        "reports_ok ref (track_of ref s) trk ms" by (auto simp: report_done_def)
    have "ctp_inv ps tb r0 L0 t"
    proof (cases "te_request_id_start s \<le> ref")
      case True
      from log_ok_report [OF L(2) t(2,3) ref(2) True] t(2) show ?thesis
        by (intro done_inv [of t ms]) (simp_all add: engine_moves_def)
    next
      case False
      then have "t = s" using report_ignored [OF ref(1), of s "\<lambda>_. 0" "env\<lparr>en_now := now\<rparr>"] t(1)
        by (simp add: ITDEngine_checkRequestId_def)
      with inv show ?thesis by simp
    qed
    with t(1) FromBroker inv show ?thesis by simp
  qed
qed

interpretation ctp_gateway: guarded_machine "ctp_step env" ctp_legal
    "\<lambda>s. ctp_env ps env \<and> ctp_inv ps tb r0 L0 s" for env ps tb r0 L0
  by unfold_locales (rule ctp_step_ok)

end
