(* ===== verification/Ctp_Start.thy ===== *)
theory Ctp_Start
  imports Ctp_Inv
begin

text \<open>
  The accounts an engine starts its day with: whatever summary was stored and whatever orders were
  tracked before, what \<^verbatim>\<open>initAccountUtilis\<close> leaves is ready (\<open>top_ready\<close>).
\<close>

section \<open>Registration\<close>

text \<open>\<^verbatim>\<open>initAccountUtilis\<close> registers everything that is listed; after it an account is ready.\<close>

lemma registration_linked:
  assumes base: "base_ok tb"
  shows "fold_res (\<lambda>(_, info). RiskTop_regInstr ops tb (ii_instr info)) xs r = Inr (True, t) \<Longrightarrow>
    set xs \<subseteq> set tb \<Longrightarrow> top_linked r \<Longrightarrow>
    top_linked t \<and> top_keeps r t \<and>
    (\<forall>(h, info) \<in> set xs. instr_registered t h \<and> prd_registered t (ii_product_hash info))"
proof (induction xs arbitrary: r)
  case Nil
  then show ?case by (simp add: top_keeps_def)
next
  case (Cons e xs)
  obtain h info where e: "e = (h, info)" by (cases e)
  have "map_of tb h = Some info" using Cons.prems(2) base by (auto simp: e base_ok_def um_ok_def)
  from regInstr_top_linked [OF base this Cons.prems(3), of ops] obtain ok r1 where
    r1: "RiskTop_regInstr ops tb (ii_instr info) r = Inr (ok, r1)" "top_linked r1" "top_keeps r r1"
      "ok \<longrightarrow> instr_registered r1 h \<and> prd_registered r1 (ii_product_hash info)" by blast
  with Cons.prems(1) have ok: ok
    and run: "fold_res (\<lambda>(_, info). RiskTop_regInstr ops tb (ii_instr info)) xs r1 = Inr (True, t)"
    by (auto simp: e split: if_splits)
  from Cons.IH [OF run _ r1(2)] Cons.prems(2) r1(3,4) ok show ?case
    by (auto simp: e top_keeps_def)
qed

lemma registration_ready:
  assumes base: "base_ok tb" and r: "top_linked r"
    and run: "fold_res (\<lambda>(_, info). RiskTop_regInstr ops tb (ii_instr info)) tb r = Inr (True, t)"
  shows "top_ready tb t"
  using registration_linked [OF base run _ r]
  by (auto simp: top_linked_def top_ready_def dest!: map_of_SomeD)

text \<open>Whatever was tracked before, the risk control of an account stays linked.\<close>

lemma acc_on_instr_any:
  assumes base: "base_ok tb" and inv: "acc_linked s" and mv: "\<And>c. live c \<Longrightarrow> moved c (act c)"
  shows "\<exists>t. acc_on_instr tb h act s = Inr t \<and> acc_linked t \<and> acc_grows s t"
proof (cases "map_of tb h")
  case None
  with inv show ?thesis by (simp add: acc_on_instr_def acc_grows_def)
next
  case (Some info)
  obtain s1 where s1: "AccBase_regInstr tb (ii_instr info) s = (True, s1)" "acc_linked s1" "acc_grows s s1"
    "um_has h (ab_map_instr s1)" by (rule regInstr_linked [OF base inv Some base_okD(1) [OF base Some]])
  then obtain i where i: "map_of (ab_map_instr s1) h = Some i" by (auto simp: um_has_def)
  from put_ctx_linked [OF s1(2) i, of act, OF mv] obtain d where
    d: "act (acc_ctx h s1) = Inr d" "acc_linked (acc_put_ctx h d s1)" "acc_grows s1 (acc_put_ctx h d s1)" by blast
  have "s1\<lparr>ab_map_instr := um_touch mod_instr_init h (ab_map_instr s1)\<rparr> = s1" using i by simp
  with d Some s1(1,3) show ?thesis by (auto simp: acc_on_instr_def acc_grows_def)
qed

lemma onOrderTrack_linked:
  assumes base: "base_ok tb" and r: "top_linked r"
  shows "\<exists>t. RiskTop_onOrderTrack tb trk r = Inr t \<and> top_linked t"
proof -
  from r have "acc_linked (rt_acc_base r)" by (simp add: top_linked_def)
  from acc_on_instr_any [OF base this, of "track_act trk" "ot_instr_hash trk"] moved_track obtain ab where
    ab: "AccBase_onOrderTrack tb trk (rt_acc_base r) = Inr ab" "acc_linked ab" "acc_grows (rt_acc_base r) ab"
    unfolding AccBase_onOrderTrack_def by blast
  have "top_linked (r\<lparr>rt_acc_base := ab\<rparr>)"
    using r ab(2) registered_grows [OF ab(3)] by (auto simp: top_linked_def top_fresh_def)
  with ab(1) show ?thesis by (auto simp: RiskTop_onOrderTrack_def)
qed

section \<open>The stored summary\<close>

lemma load_members_inv:
  assumes step: "\<And>k j s t. P s \<Longrightarrow> f k j s = (Loaded, t) \<Longrightarrow> P t"
  shows "P s \<Longrightarrow> load_members f ms s = (Loaded, t) \<Longrightarrow> P t"
proof (induction ms arbitrary: s)
  case (Cons e ms)
  obtain k j where e: "e = (k, j)" by (cases e)
  obtain r s1 where r: "f k j s = (r, s1)" by fastforce
  with Cons e have "r = Loaded" "load_members f ms s1 = (Loaded, t)" by (auto split: if_splits)
  with Cons.IH step [OF Cons.prems(1)] r show ?case by blast
qed simp

lemma load_section_inv:
  assumes "\<And>k j s t. P s \<Longrightarrow> f k j s = (Loaded, t) \<Longrightarrow> P t" "P s" "load_section j name f s = (Loaded, t)"
  shows "P t"
  using load_members_inv [of P f, OF assms(1) assms(2)] assms(3)
  by (auto simp: load_section_def split: option.splits)

lemma from_json_links:
  "ModInstr_from_json j i = (r, i') \<Longrightarrow> ins_p_prd i' = ins_p_prd i \<and> ins_p_acc i' = ins_p_acc i"
  unfolding ModInstr_from_json_def Let_def by (auto split: option.splits prod.splits if_splits)

lemma load_instr_linked:
  assumes base: "base_ok tb" and s: "acc_linked s" and l: "load_instr tb k j s = (Loaded, t)"
  shows "acc_linked t"
proof -
  let ?h = "INSTR_NAME_TO_HASH k"
  obtain ok s1 where r: "AccBase_regInstr tb k s = (ok, s1)" by fastforce
  with l have ok by (auto simp: load_instr_def split: if_splits)
  with r obtain info where info: "map_of tb ?h = Some info"
    by (auto simp: AccBase_regInstr_def Let_def split: option.splits)
  obtain s2 where s2: "AccBase_regInstr tb k s = (True, s2)" "acc_linked s2" "um_has ?h (ab_map_instr s2)"
    by (rule regInstr_linked [OF base s info refl])
  then obtain i where i: "map_of (ab_map_instr s2) ?h = Some i" by (auto simp: um_has_def)
  obtain r' i' where i': "ModInstr_from_json j i = (r', i')" by fastforce
  have "t = s2\<lparr>ab_map_instr := AList.update ?h i' (ab_map_instr s2)\<rparr>"
    using l s2(1) i i' by (simp add: load_instr_def Let_def)
  moreover have "linked (ab_map_prd s2) i'"
    using s2(2) i from_json_links [OF i'] by (simp add: acc_linked_def linked_def)
  ultimately show ?thesis using s2(2) by (auto simp: acc_linked_def)
qed

lemma load_prd_linked: "acc_linked s \<Longrightarrow> load_prd k j s = (Loaded, t) \<Longrightarrow> acc_linked t"
  by (auto simp: load_prd_def Let_def acc_linked_def linked_def map_of_um_touch split: prod.splits)
    fastforce

lemma load_linked:
  assumes base: "base_ok tb" and s: "acc_linked s" and l: "AccBase_load fe tb day d s = Some (True, t)"
  shows "acc_linked t"
proof (cases "t = s")
  case False
  with l obtain j where j: "AccBase_from_json tb j s = (Loaded, t)"
    by (auto simp: AccBase_load_def split: option.splits prod.splits if_splits)
  then obtain a s1 where s1: "load_section j ''mod_instr'' (load_instr tb) (s\<lparr>ab_mod_acc := a\<rparr>) = (Loaded, s1)"
    "load_section j ''mod_prd'' load_prd s1 = (Loaded, t)"
    by (auto simp: AccBase_from_json_def Let_def split: option.splits prod.splits if_splits)
  have "acc_linked (s\<lparr>ab_mod_acc := a\<rparr>)" using s by (simp add: acc_linked_def)
  from load_section_inv [where P = acc_linked, OF load_instr_linked [OF base] this s1(1)]
  have "acc_linked s1" .
  from load_section_inv [where P = acc_linked, OF load_prd_linked this s1(2)] show ?thesis .
qed (use s in simp)

section \<open>The accounts of an engine\<close>

lemma RiskAcc_init_links:
  assumes "conf_ok j"
  shows "reads (\<lambda>r. ra_p_mod_acc r = PtrTo ()) (RiskAcc_init j r)"
  unfolding RiskAcc_init_def
  by (rule reads_step, rule conf_at_ok [OF assms], simp add: conf_paths_def,
      (simp | assumption), simp)+
    (rule reads_end)

lemma risk_top_started:
  assumes "conf_ok c" "RiskTop_init name c risk_top_init = Inr (True, r)"
  shows "ra_p_mod_acc (rt_risk_acc r) = PtrTo () \<and> rt_map_risk_instr r = [] \<and>
    rt_map_risk_prd r = [] \<and> rt_j_conf r = c \<and> acc_linked (rt_acc_base r)"
  using assms(2) RiskAcc_init_links [OF assms(1), of risk_acc_init]
  by (auto simp: RiskTop_init_def AccBase_init_def risk_top_init_def acc_base_init_def acc_linked_def
      reads_def Let_def split: if_splits)

lemma init_account_ready:
  assumes base: "base_ok (tb_instr_info (te_base s))" and mapped: "te_track_mapped s"
    and conf: "account_conf j i = Some c" "conf_ok c"
    and run: "init_account env fe j d s i = Inr (True, t)"
  shows "top_ready (tb_instr_info (te_base s)) t"
proof -
  let ?tb = "tb_instr_info (te_base s)" and ?name = "te_name s @ ''.sub'' @ show_nat i"
  from run conf obtain r ab r2 ok3 where
    r: "RiskTop_init ?name c risk_top_init = Inr (True, r)"
      "AccBase_load fe ?tb (tb_trading_day (te_base s)) d (rt_acc_base r) = Some (True, ab)"
      "replay_tracks_top s (r\<lparr>rt_acc_base := ab\<rparr>) = Inr (ok3, r2)"
      "fold_res (\<lambda>(_, info). RiskTop_regInstr (en_ops env) ?tb (ii_instr info)) ?tb r2 = Inr (True, t)"
    by (auto simp: init_account_def Let_def res_bind_Inr_iff split: if_splits option.splits)
  from risk_top_started [OF conf(2) r(1)] have start: "top_linked (r\<lparr>rt_acc_base := ab\<rparr>)"
    using load_linked [OF base _ r(2)] conf(2)
    by (simp add: top_linked_def top_fresh_def um_has_def)
  have "top_linked v" if "fold_res (\<lambda>k r. res_bind (ITDEngine_get_request_track k s)
        (\<lambda>t. res_bind (RiskTop_onOrderTrack ?tb t r) (\<lambda>r1. Inr (True, r1)))) ks u = Inr (b, v)" "top_linked u"
    for ks u b v
    using that
  proof (induction ks arbitrary: u)
    case (Cons k ks)
    from onOrderTrack_linked [OF base Cons.prems(2), of "te_request_track s (track_slot k)"] obtain u1 where
      "RiskTop_onOrderTrack ?tb (te_request_track s (track_slot k)) u = Inr u1" "top_linked u1" by blast
    with Cons mapped show ?case by (simp add: ITDEngine_get_request_track_def)
  qed simp
  from this [OF r(3) [unfolded replay_tracks_top_def] start] registration_ready [OF base _ r(4)]
  show ?thesis by blast
qed

text \<open>The invariant of the loop over the accounts: those opened so far are ready, nothing else changes.\<close>

definition accounts_opened ::
    "instr_table \<Rightarrow> ('t, 'a) td_engine_scheme \<Rightarrow> ('t, 'a) td_engine_scheme \<Rightarrow> nat \<Rightarrow> bool" where
  "accounts_opened tb s t n \<longleftrightarrow>
     (\<exists>accs. t = s\<lparr>te_acc_utilis := accs\<rparr> \<and> length accs = n \<and> (\<forall>r \<in> set accs. top_ready tb r))"

lemma open_account:
  assumes base: "base_ok tb" and tb: "tb_instr_info (te_base s) = tb" "te_track_mapped s"
    and conf: "account_conf j i = Some c" "conf_ok c" and u: "accounts_opened tb s u n"
    and run: "res_bind (init_account env fe j d u i) (\<lambda>(ok, r).
           Inr (ok, u\<lparr>te_acc_utilis := te_acc_utilis u @ [r]\<rparr>)) = Inr (True, t)"
  shows "accounts_opened tb s t (Suc n)"
proof -
  from run obtain r where r: "init_account env fe j d u i = Inr (True, r)"
    "t = u\<lparr>te_acc_utilis := te_acc_utilis u @ [r]\<rparr>" by (auto simp: res_bind_Inr_iff)
  from u obtain accs where a: "u = s\<lparr>te_acc_utilis := accs\<rparr>" "length accs = n" "\<forall>r \<in> set accs. top_ready tb r"
    by (auto simp: accounts_opened_def)
  with base tb have "base_ok (tb_instr_info (te_base u))" "te_track_mapped u" "tb_instr_info (te_base u) = tb"
    by simp_all
  with init_account_ready [OF this(1,2) conf r(1)] r(2) a show ?thesis
    unfolding accounts_opened_def by (intro exI [of _ "accs @ [r]"]) auto
qed

lemma accounts_open:
  assumes base: "base_ok tb" and tb: "tb_instr_info (te_base s) = tb" "te_track_mapped s"
    and conf: "\<And>i. i \<in> set is \<Longrightarrow> \<exists>c. account_conf j i = Some c \<and> conf_ok c"
  shows "fold_res (\<lambda>i s. res_bind (init_account env fe j d s i) (\<lambda>(ok, r).
           Inr (ok, s\<lparr>te_acc_utilis := te_acc_utilis s @ [r]\<rparr>))) is u = Inr (True, t) \<Longrightarrow>
    accounts_opened tb s u n \<Longrightarrow> accounts_opened tb s t (n + length is)"
  using conf
proof (induction "is" arbitrary: u n)
  case (Cons i "is")
  from Cons.prems(3) [of i] obtain c where c: "account_conf j i = Some c" "conf_ok c" by auto
  from Cons.prems(1) obtain v where
    v: "res_bind (init_account env fe j d u i) (\<lambda>(ok, r).
          Inr (ok, u\<lparr>te_acc_utilis := te_acc_utilis u @ [r]\<rparr>)) = Inr (True, v)"
      "fold_res (\<lambda>i s. res_bind (init_account env fe j d s i) (\<lambda>(ok, r).
           Inr (ok, s\<lparr>te_acc_utilis := te_acc_utilis s @ [r]\<rparr>))) is v = Inr (True, t)"
    by (auto simp: res_bind_Inr_iff split: if_splits)
  from Cons.IH [OF v(2) open_account [OF base tb c Cons.prems(2) v(1)]] Cons.prems(3) show ?case by simp
qed simp

lemma initAccountUtilis_opens:
  assumes "base_ok (tb_instr_info (te_base s))" "te_track_mapped s" "te_acc_utilis s = []"
    and "\<And>i. i < n \<Longrightarrow> \<exists>c. account_conf j i = Some c \<and> conf_ok c"
    and "ITDEngine_initAccountUtilis env fe j d n s = Inr (True, t)"
  shows "accounts_opened (tb_instr_info (te_base s)) s t n"
proof -
  have "accounts_opened (tb_instr_info (te_base s)) s s 0"
    unfolding accounts_opened_def using assms(3) by (intro exI [of _ "[]"]) simp
  then show ?thesis
    using accounts_open [OF assms(1) refl assms(2), of "[0..<n]" j env fe d s t 0] assms(4,5)
    by (simp add: ITDEngine_initAccountUtilis_def)
qed

lemma accounts_opened_keeps:
  assumes "accounts_opened tb s t n"
  shows "te_request_id_start t = te_request_id_start s" "te_request_id t = te_request_id s"
    "te_request_id_end t = te_request_id_end s" "te_otidfilter t = te_otidfilter s"
    "length (te_acc_utilis t) = n"
  using assms by (auto simp: accounts_opened_def)

lemma accounts_opened_user: "accounts_opened tb s t n \<Longrightarrow> ct_int_user_id t = ct_int_user_id s"
  by (auto simp: accounts_opened_def)

section \<open>A first state\<close>

text \<open>A machine may start with the channel just opened and every record's account among those opened.\<close>

lemma chan_ready_init:
  fixes w :: "'a io_writer"
  assumes "PAGE_HEAD_SIZE \<le> ps" "ps < 2 ^ 31" "grants env"
    and "CRawIOWriter_init env nano (CRawIOWriter_new ps lock []) = Inr (ok, w)"
  shows "chan_ready ps w \<and> wr_log w = []"
proof -
  from writer_init_ok [OF assms(1-3), of nano lock] obtain w1 :: "'a io_writer" where
    "CRawIOWriter_init env nano (CRawIOWriter_new ps lock []) = Inr (True, w1)"
    "writer_at ps Ready w1 [[]]" "\<not> wr_spin w1" by blast
  with assms(4) have w: "writer_at ps Ready w [[]]" "\<not> wr_spin w" by simp_all
  with wr_log_at [OF w(1)] show ?thesis by (auto simp: chan_ready_def)
qed

lemma engine_ok_opened:
  assumes "accounts_opened (tb_instr_info (te_base s)) s t (length (ct_account_units s))"
    and "chan_ready ps (te_writer s)" "base_ok (tb_instr_info (te_base s))" "te_track_mapped s"
    and "\<And>k. 0 \<le> ot_acc_id (te_request_track s k) \<and>
      nat (ot_acc_id (te_request_track s k)) < length (ct_account_units s)"
  shows "engine_ok ctp_units ps (tb_instr_info (te_base s)) t"
  using assms by (auto simp: accounts_opened_def engine_ok_def acc_index_ok_def)

lemma top_room_code [code]:
  "top_room h r \<longleftrightarrow>
     (case map_of (rt_map_risk_instr r) h of
        None \<Rightarrow> True | Some q \<Rightarrow> length (vec_treap_node q) < vec_capacity q)"
  by (simp add: top_room_def split: option.splits)

end
