(* ===== verification/Ctp_Ids.thy ===== *)
theory Ctp_Ids
  imports Ctp_Start
begin

text \<open>
  The numbers the CTP gateway goes by: the decimal digits of an order number, and the ring in which it
  keeps the numbers of the trades it has seen of an order.
\<close>

section \<open>Numbers of orders\<close>

lemma digit_val_digit [simp]: "n < 10 \<Longrightarrow> digit_val (digit n) = n"
  by (simp add: digit_val_def digit_def)

lemma digit_plain: "digit_val c < 10 \<Longrightarrow> c \<noteq> CHR ''-'' \<and> c \<noteq> CHR ''+'' \<and> \<not> is_space c"
  by (auto simp: digit_val_def is_space_def Let_def split: if_splits)

lemma parse_base_append:
  "(\<And>c. c \<in> set xs \<Longrightarrow> digit_val c < b) \<Longrightarrow>
   parse_base b acc (xs @ ys) = parse_base b (parse_base b acc xs) ys"
  by (induction xs arbitrary: acc) auto

lemma digits_rev_digits: "c \<in> set (digits_rev n) \<Longrightarrow> \<exists>k < 10. c = digit k"
proof (induction n rule: digits_rev.induct)
  case (1 n)
  show ?case
  proof (cases "n < 10")
    case True
    with 1(2) show ?thesis by (auto simp: digits_rev.simps [of n])
  next
    case False
    with 1(2) have "c = digit (n mod 10) \<or> c \<in> set (digits_rev (n div 10))"
      by (simp add: digits_rev.simps [of n] digit_def)
    moreover have "n mod 10 < 10" by simp
    ultimately show ?thesis using 1(1) [OF False] by blast
  qed
qed

lemma parse_digits: "parse_base 10 0 (rev (digits_rev n)) = int n"
proof (induction n rule: digits_rev.induct)
  case (1 n)
  show ?case
  proof (cases "n < 10")
    case True
    then show ?thesis by (simp add: digits_rev.simps [of n])
  next
    case False
    have d: "digit n = digit (n mod 10)" by (simp add: digit_def)
    have "digit_val c < 10" if "c \<in> set (rev (digits_rev (n div 10)))" for c
      using digits_rev_digits [of c "n div 10"] that by auto
    then have "parse_base 10 0 (rev (digits_rev (n div 10)) @ [digit n]) =
        parse_base 10 (parse_base 10 0 (rev (digits_rev (n div 10)))) [digit n]" by (rule parse_base_append)
    then have "parse_base 10 0 (rev (digits_rev n)) = parse_base 10 (int (n div 10)) [digit n]"
      using False by (simp only: 1 [OF False] digits_rev.simps [of n] if_False rev.simps)
    also have "\<dots> = int n" unfolding d by simp (metis div_mult_mod_eq of_nat_add of_nat_mult of_nat_numeral)
    finally show ?thesis .
  qed
qed

lemma digits_head: "\<exists>k cs. k < 10 \<and> rev (digits_rev n) = digit k # cs"
proof -
  have "rev (digits_rev n) \<noteq> []" by (simp add: digits_rev.simps [of n])
  then obtain c cs where c: "rev (digits_rev n) = c # cs" by (cases "rev (digits_rev n)") auto
  then have "c \<in> set (digits_rev n)" by (metis list.set_intros(1) set_rev)
  with digits_rev_digits c show ?thesis by blast
qed

section \<open>Repeated trades\<close>

fun test_all :: "int list \<Rightarrow> id_queue \<Rightarrow> bool list \<times> id_queue" where
  "test_all [] q = ([], q)"
| "test_all (m # ms) q =
     (case CIDQueue_test m q of (seen, q1) \<Rightarrow> case test_all ms q1 of (bs, q2) \<Rightarrow> (seen # bs, q2))"

text \<open>The specification: a number is seen if it is among the last four accepted, newest first.\<close>

fun seen_recently :: "int list \<Rightarrow> int list \<Rightarrow> bool list" where
  "seen_recently acc [] = []"
| "seen_recently acc (m # ms) =
     (if m \<in> set (take 4 acc) then True # seen_recently acc ms else False # seen_recently (m # acc) ms)"

text \<open>Place \<open>k\<close> of the ring holds the newest accepted number whose index is \<open>k\<close> modulo 4.\<close>

definition ring_holds :: "int list \<Rightarrow> id_queue \<Rightarrow> bool" where
  "ring_holds acc q \<longleftrightarrow> iq_front q = int (length acc) \<and> length (iq_id q) = 4 \<and>
     (\<forall>i < min 4 (length acc). iq_id q ! ((length acc - Suc i) mod 4) = acc ! i)"

lemma mod_4_inj:
  assumes "i < 4" "j < 4" "i < L" "j < L" "(L - Suc i) mod 4 = (L - Suc j) mod (4 :: nat)"
  shows "i = j"
proof -
  have "k = i" if "i \<le> k" "k < 4" "k < L" "(L - Suc i) mod 4 = (L - Suc k) mod 4" for i k
  proof -
    have "4 dvd (L - Suc i) - (L - Suc k)" using that(1,4) mod_eq_dvd_iff_nat [of "L - Suc k" "L - Suc i" 4] by simp
    also have "(L - Suc i) - (L - Suc k) = k - i" using that(1,3) by simp
    finally show ?thesis using that(1,2) dvd_imp_le [of 4 "k - i"] by fastforce
  qed
  from this [of i j] this [of j i] assms show ?thesis by (metis nat_le_linear)
qed

lemma ring_set:
  assumes "ring_holds acc q"
  shows "set (take (nat (if iq_front q < 4 then iq_front q else 4)) (iq_id q)) = set (take 4 acc)"
proof -
  let ?n = "min 4 (length acc)" and ?f = "\<lambda>i. (length acc - Suc i) mod 4"
  have n: "nat (if iq_front q < 4 then iq_front q else 4) = ?n" "length (iq_id q) = 4"
    and at: "\<And>i. i < ?n \<Longrightarrow> iq_id q ! ?f i = acc ! i"
    using assms by (auto simp: ring_holds_def)
  have inj: "inj_on ?f {..<?n}"
    by (rule inj_onI) (rule mod_4_inj [where L = "length acc"], auto)
  have "?f i < ?n" if "i < ?n" for i
    using that mod_less_eq_dividend [of "length acc - Suc i" 4] mod_less_divisor [of 4 "length acc - Suc i"]
    by linarith
  then have "?f ` {..<?n} \<subseteq> {..<?n}" by auto
  then have full: "?f ` {..<?n} = {..<?n}" using inj by (intro endo_inj_surj) auto
  have "set (take ?n (iq_id q)) = (!) (iq_id q) ` {..<?n}"
    using n(2) by (simp add: nth_image [symmetric] lessThan_atLeast0)
  also have "\<dots> = (!) (iq_id q) ` ?f ` {..<?n}" by (simp only: full)
  also have "\<dots> = (!) acc ` {..<?n}" unfolding image_image by (rule image_cong [OF refl]) (simp add: at)
  also have "\<dots> = set (take ?n acc)" by (simp add: nth_image [symmetric] lessThan_atLeast0)
  finally show ?thesis unfolding n(1) by (simp add: min_def)
qed

lemma ring_push:
  assumes "ring_holds acc q"
  shows "ring_holds (m # acc) (q\<lparr>iq_id := (iq_id q)[nat (iq_front q AND 3) := m], iq_front := iq_front q + 1\<rparr>)"
proof -
  have f: "iq_front q = int (length acc)" "length (iq_id q) = 4"
    and at: "\<And>i. i < min 4 (length acc) \<Longrightarrow> iq_id q ! ((length acc - Suc i) mod 4) = acc ! i"
    using assms by (auto simp: ring_holds_def)
  have "int (length acc) AND 3 = int (length acc mod 4)"
    using take_bit_eq_mask [of 2 "int (length acc)"] by (simp add: take_bit_eq_mod mask_eq_exp_minus_1 zmod_int)
  then have place: "nat (iq_front q AND 3) = length acc mod 4" by (simp add: f(1))
  have "(iq_id q)[length acc mod 4 := m] ! ((length acc - i) mod 4) = (m # acc) ! i"
    if "i < 4" "i < Suc (length acc)" for i
  proof (cases i)
    case 0
    with f(2) show ?thesis by simp
  next
    case (Suc k)
    have "length acc mod 4 \<noteq> (length acc - Suc k) mod 4"
      using mod_4_inj [of 0 "Suc k" "Suc (length acc)"] that Suc by auto
    with at [of k] Suc that show ?thesis by (simp add: nth_list_update)
  qed
  with f place show ?thesis by (simp add: ring_holds_def)
qed

lemma put_rtn_frame: "put_rtn env f s = Inr (m, t) \<Longrightarrow> \<exists>w. t = s\<lparr>te_writer := w\<rparr>"
  by (auto simp: put_rtn_def rtn_prefetch_def rtn_fill_def rtn_commit_def res_bind_Inr_iff split: option.splits)

lemma on_rtn_frame: "ITDEngine_engine_on_rtn env i trk m s = Inr t \<Longrightarrow> \<exists>u. t = s\<lparr>te_acc_utilis := u\<rparr>"
  by (auto simp: ITDEngine_engine_on_rtn_def upd_acc_def res_bind_Inr_iff split: if_splits)

text \<open>A trade whose number was not seen changes the filter like the test, and not the range of numbers.\<close>

lemma OnRtnTrade_frame:
  assumes "CTDEngineCtp_OnRtnTrade env trade s = Inr t" "cd_UserID trade = ct_int_user_id s"
    and "ITDEngine_checkRequestId (atoi (cd_OrderRef trade)) s"
  shows "te_otidfilter t = te_otidfilter (snd (ITDEngine_testOtId (atoi (cd_OrderRef trade))
      (strtoll0 (cd_TradeID trade)) s)) \<and> ct_int_user_id t = ct_int_user_id s \<and>
    te_request_id_start t = te_request_id_start s \<and> te_request_id_end t = te_request_id_end s"
proof -
  obtain seen s1 where r: "ITDEngine_testOtId (atoi (cd_OrderRef trade)) (strtoll0 (cd_TradeID trade)) s = (seen, s1)"
    by fastforce
  then have s1: "\<exists>q. s1 = s\<lparr>te_otidfilter := q\<rparr>" by (auto simp: ITDEngine_testOtId_def split: prod.splits)
  from assms r show ?thesis using s1
    by (auto simp: CTDEngineCtp_OnRtnTrade_def res_bind_Inr_iff upd_request_track_def Let_def
        dest!: put_rtn_frame on_rtn_frame split: if_splits)
qed

lemma tested_again:
  assumes "ring_holds acc q" "CIDQueue_test m q = (b, q1)"
  shows "CIDQueue_test m q1 = (True, q1)"
proof (cases "m \<in> set (take 4 acc)")
  case True
  with ring_set [OF assms(1)] assms(2) show ?thesis by (auto simp: CIDQueue_test_def Let_def)
next
  case False
  with ring_set [OF assms(1)] assms(2) ring_push [OF assms(1), of m] have "ring_holds (m # acc) q1"
    by (auto simp: CIDQueue_test_def Let_def)
  from ring_set [OF this] show ?thesis by (simp add: CIDQueue_test_def Let_def)
qed

end
