(* ===== verification/Ctp_Example.thy ===== *)
theory Ctp_Example
  imports Ctp_Ids Risk_Properties Io_Properties
begin

text \<open>
  A concrete CTP gateway: the account it starts its day with, a day of orders and reports, and the proof
  that it is in order at the start.
\<close>

section \<open>An engine\<close>

text \<open>One account, one instrument, pages with room for two reports; the orders of the day start with number 4.\<close>

definition gw_files :: file_env where
  "gw_files = \<lparr>fe_account_base_path = ''/acc'', fe_create_path = (\<lambda>_. True), fe_can_write = (\<lambda>_. True),
     fe_can_read = (\<lambda>_. True)\<rparr>"

definition gw_env :: "tnode list eng_env" where
  "gw_env = \<lparr>en_ops = list_treap, en_fuel = 1, en_io = all_granted, en_now = 0\<rparr>"

definition gw_unit :: account_unit where
  "gw_unit =
     \<lparr>au_input_order =
        \<lparr>ci_BrokerID = ''9999'', ci_InvestorID = ''u1'', ci_UserID = 7, ci_OrderRef = [],
         ci_InstrumentID = [], ci_Direction = 0, ci_CombOffsetFlag = 0, ci_LimitPrice = 0,
         ci_VolumeTotalOriginal = 0\<rparr>,
      au_action_order =
        \<lparr>ca_BrokerID = ''9999'', ca_InvestorID = ''u1'', ca_UserID = 7, ca_OrderRef = [],
         ca_InstrumentID = [], ca_FrontID = 1, ca_SessionID = 5\<rparr>,
      au_api = True, au_front_id = 1, au_session_id = 5, au_initialized = True, au_connected = True,
      au_authenticated = True, au_settle_confirmed = True, au_logged_in = True,
      au_settle_rid = 3, au_login_rid = 2, au_auth_rid = 1,
      au_broker_id = ''9999'', au_user_id = ''u1'', au_passwd = ''p'', au_user_product_info = ''nat''\<rparr>"

definition gw_writer :: "io_order_rtn io_writer" where
  "gw_writer = (case CRawIOWriter_init all_granted 0 (CRawIOWriter_new 600 True []) of Inr (_, w) \<Rightarrow> w)"

definition gw_connected :: "tnode list td_ctp" where
  "gw_connected =
     \<lparr>te_name = ''ctp'', te_do_running = True, te_self_id = 99, te_read_pool = [], te_writer = gw_writer,
      te_acc_utilis = [], te_request_id = 4, te_request_id_start = 1, te_request_id_end = 1000,
      te_track_mapped = True, te_track_day = ''20220601'', te_request_track = (\<lambda>_. order_track_init),
      te_otidfilter = (\<lambda>_. id_queue_init), te_base = if_base, te_sys_out = [], ct_int_user_id = 7,
      ct_user_product_info = ''nat'', ct_curAccountIdx = 0, ct_account_units = [gw_unit],
      ct_auth_code = [], ct_app_id = [], ct_query_complete_flag = True, ct_max_ref_id = 3, ct_sent = []\<rparr>"

definition gw_accounts :: json where
  "gw_accounts = JObj [(''Account'', JArr [if_conf]), (''AccountDefault'', if_conf)]"

definition gw_start :: "tnode list td_ctp" where
  "gw_start = (case ITDEngine_initAccountUtilis gw_env gw_files gw_accounts [] 1 gw_connected of
     Inr (_, s) \<Rightarrow> s)"

definition gw_order :: input_order where
  "gw_order = \<lparr>in_extra_nano = 0, in_from = 17, in_local_id = 1, in_acc_idx = 0,
     in_instr_hash = INSTR_NAME_TO_HASH ''IF2206'', in_instr = ''IF2206'', in_price = 4000, in_vol = 3,
     in_dir = AT_CHAR_Buy, in_off = AT_CHAR_Open, in_stg_id = 0\<rparr>"

definition gw_report :: "order_status \<Rightarrow> int \<Rightarrow> ctp_order" where
  "gw_report st traded = \<lparr>co_UserID = 7, co_OrderRef = ''4'', co_InstrumentID = ''IF2206'',
     co_Direction = AT_CHAR_Buy, co_LimitPrice = 4000, co_VolumeTotalOriginal = 3,
     co_VolumeTraded = traded, co_VolumeTotal = 3 - traded, co_OrderStatus = st, co_StatusMsg = [],
     co_FrontID = 1, co_SessionID = 5\<rparr>"

definition gw_trade :: ctp_trade where
  "gw_trade = \<lparr>cd_UserID = 7, cd_OrderRef = ''4'', cd_TradeID = ''81'', cd_InstrumentID = ''IF2206'',
     cd_Price = 3999, cd_Volume = 2, cd_Direction = AT_CHAR_Buy, cd_OffsetFlag = AT_CHAR_Open\<rparr>"

definition gw_cancel :: order_action where
  "gw_cancel = \<lparr>oa_from = 17, oa_local_id = 1, oa_acc_idx = 0, oa_order_ref = 4, oa_front_id = 1,
     oa_session_id = 5, oa_instr_hash = INSTR_NAME_TO_HASH ''IF2206'', oa_instr = ''IF2206''\<rparr>"

definition gw_day :: "ctp_event list" where
  "gw_day =
     [ClientInsert 100 0 gw_order, ClientInsert 101 0 (gw_order\<lparr>in_acc_idx := 1\<rparr>),
      FromBroker 102 (RtnOrder (gw_report OST_Unknown 0)), FromBroker 103 (RtnOrder (gw_report OST_NoTradeQueueing 0)),
      FromBroker 104 (RtnTrade gw_trade), FromBroker 105 (RtnTrade gw_trade),
      ClientCancel 106 0 gw_cancel, FromBroker 107 (RtnOrder (gw_report OST_Canceled 2))]"

lemma gw_connected_base:
  "base_ok (tb_instr_info (te_base gw_connected))" "te_track_mapped gw_connected"
  "te_acc_utilis gw_connected = []" "tb_instr_info (te_base gw_connected) = tb_instr_info if_base"
  by (simp_all add: gw_connected_def)

lemma gw_conf: "i < 1 \<Longrightarrow> \<exists>c. account_conf gw_accounts i = Some c \<and> conf_ok c"
  by (simp add: account_conf_def gw_accounts_def json_find_def)

lemma gw_start:
  "ITDEngine_initAccountUtilis gw_env gw_files gw_accounts [] 1 gw_connected = Inr (True, gw_start)"
proof -
  have "(case ITDEngine_initAccountUtilis gw_env gw_files gw_accounts [] 1 gw_connected of
      Inr (ok, s) \<Rightarrow> ok | _ \<Rightarrow> False)" by code_simp
  then show ?thesis by (auto simp: gw_start_def split: sum.splits)
qed

lemmas gw_opened = initAccountUtilis_opens [OF gw_connected_base(1-3) gw_conf gw_start]

lemma gw_engine_ok: "ctp_env 600 gw_env" "engine_ok ctp_units 600 (tb_instr_info if_base) gw_start"
proof -
  show env: "ctp_env 600 gw_env"
    by (simp add: ctp_env_def chan_env_def gw_env_def all_granted PAGE_HEAD_SIZE_def FRAME_HEAD_SIZE_def RTN_SIZE_def)
  have "\<exists>w ok. CRawIOWriter_init all_granted 0 (CRawIOWriter_new 600 True [] :: io_order_rtn io_writer) = Inr (ok, w)"
    using writer_init_ok [OF _ _ all_granted, of 600 0 True] by (auto simp: PAGE_HEAD_SIZE_def)
  then obtain w :: "io_order_rtn io_writer" and ok where
    w: "CRawIOWriter_init all_granted 0 (CRawIOWriter_new 600 True []) = Inr (ok, w)" by blast
  from chan_ready_init [OF _ _ all_granted w] have "chan_ready 600 (te_writer gw_connected)"
    by (simp add: gw_connected_def gw_writer_def w PAGE_HEAD_SIZE_def)
  then show "engine_ok ctp_units 600 (tb_instr_info if_base) gw_start"
    using engine_ok_opened [of gw_connected gw_start 600] gw_connected_base gw_opened
    by (simp add: gw_connected_def order_track_init_def)
qed

lemma gw_ids:
  "te_request_id_start gw_start = 1" "te_request_id gw_start = 4" "te_request_id_end gw_start = 1000"
  "te_otidfilter gw_start = (\<lambda>_. id_queue_init)" "length (te_acc_utilis gw_start) = 1"
  "ct_int_user_id gw_start = 7"
  using accounts_opened_keeps [OF gw_opened] accounts_opened_user [OF gw_opened]
  by (simp_all add: gw_connected_def)

text \<open>The interface is connected, and there is room for one more order.\<close>

lemma gw_room: "top_room (in_instr_hash gw_order) (te_acc_utilis gw_start ! 0)"
  by code_simp

lemma gw_api: "au_api (ct_account_units gw_start ! 0)"
  by code_simp

end
