(* ===== verification/Ctp_Properties.thy ===== *)
theory Ctp_Properties
  imports Ctp_Example
begin

text \<open>
  What the CTP gateway promises its clients: the accounts it starts its day with, the answer to an
  order, the reports of a day, and the filter for repeated trades.
\<close>

section \<open>Start of the day\<close>

text \<open>
  C19. When \<^verbatim>\<open>initAccountUtilis\<close> succeeds, every account is ready for the day, whatever summary was stored
  for it and whatever orders the track file holds: all instruments of the base information are
  registered with the account, with its risk control and with a treap of their own, every instrument
  is linked to its product and to the account, and nothing else of the engine has changed.
\<close>

theorem accounts_start_ready:
  assumes "base_ok (tb_instr_info (te_base s))" "te_track_mapped s" "te_acc_utilis s = []"
    and "\<forall>i < n. \<exists>c. account_conf j i = Some c \<and> conf_ok c"
    and "ITDEngine_initAccountUtilis env fe j d n s = Inr (True, t)"
  shows "\<exists>accs. t = s\<lparr>te_acc_utilis := accs\<rparr> \<and> length accs = n \<and>
    (\<forall>r \<in> set accs. top_ready (tb_instr_info (te_base s)) r)"
  using initAccountUtilis_opens [OF assms(1-3) _ assms(5)] assms(4) by (simp add: accounts_opened_def)

theorem accounts_start_ready_witness:
  "\<exists>accs. gw_start = gw_connected\<lparr>te_acc_utilis := accs\<rparr> \<and> length accs = 1 \<and>
    (\<forall>r \<in> set accs. top_ready (tb_instr_info (te_base gw_connected)) r)"
  by (rule accounts_start_ready [OF gw_connected_base(1-3) _ gw_start]) (use gw_conf in blast)

section \<open>Orders and reports\<close>

text \<open>
  C15. Along every run of a day under the conditions below (orders and cancels of clients, reports of the
  broker in any order, repeated or about orders of an earlier session) the gateway does not fault, and what it sends is
  in accord with its records: each message refuses a request or is addressed to the client its order came
  from, under the client's number for it; and each order sent in the run was acknowledged exactly once, reported
  as accepted at most once by the broker and once by the exchange, ended at most once, and its
  reported executions sum up to the traded volume of its record.

  The run starts with accounts as \<^verbatim>\<open>initAccountUtilis\<close> leaves them and records that name accounts there are
  (\<open>engine_ok\<close>). The conditions (\<open>ctp_legal\<close>): a request that names an account finds its interface connected (after
  \<^verbatim>\<open>OnFrontDisconnected\<close> has released it, a request calls through a null pointer); an order finds room in the
  vector of the working orders of its instrument, which holds 1024 of a day (the next one makes it move its nodes,
  and the links of the treap dangle); the day has at most 262144 orders, one for each record; a report of the
  broker is one of those the gateway handles, about a number it has given out, with a status its switch names. A request and a
  report are steps of their own: a report that the interface's thread delivers in the middle of
  \<^verbatim>\<open>req_order_insert\<close> is not in the machine. The pages of the channel have room for a report, and the system
  grants what the writer asks for.
\<close>

theorem reports_follow_records:
  assumes "ctp_env ps env" "engine_ok ctp_units ps tb s0"
    and "te_request_id_start s0 \<le> te_request_id s0"
    and "te_request_id s0 \<le> te_request_id_start s0 + MMAP_ORDER_TRACK_SIZE"
    and "legal_run (ctp_step env) ctp_legal es s0"
  shows "\<exists>s L. run_steps (ctp_step env) es s0 = Inr s \<and>
    wr_log (te_writer s) = wr_log (te_writer s0) @ L \<and>
    (\<forall>m \<in> set L. refusal m \<or>
       (\<exists>ref. te_request_id_start s \<le> ref \<and> ref < te_request_id s \<and> addressed ref (track_of ref s) m)) \<and>
    (\<forall>ref. te_request_id s0 \<le> ref \<longrightarrow> ref < te_request_id s \<longrightarrow> order_log ref (track_of ref s) L)"
proof -
  have "ctp_env ps env \<and> ctp_inv ps tb (te_request_id s0) (wr_log (te_writer s0)) s0"
    using assms(1-4) by (auto simp: ctp_inv_def log_ok_def)
  from ctp_gateway.run_inv [OF this assms(5)] show ?thesis
    unfolding ctp_inv_def log_ok_def by blast
qed

lemma gw_legal: "legal_run (ctp_step gw_env) ctp_legal gw_day gw_start"
  by code_simp

theorem reports_follow_records_witness:
  "\<exists>s L. run_steps (ctp_step gw_env) gw_day gw_start = Inr s \<and>
    wr_log (te_writer s) = wr_log (te_writer gw_start) @ L \<and>
    (\<forall>m \<in> set L. refusal m \<or>
       (\<exists>ref. te_request_id_start s \<le> ref \<and> ref < te_request_id s \<and> addressed ref (track_of ref s) m)) \<and>
    (\<forall>ref. te_request_id gw_start \<le> ref \<longrightarrow> ref < te_request_id s \<longrightarrow> order_log ref (track_of ref s) L)"
  by (rule reports_follow_records [OF gw_engine_ok _ _ gw_legal])
    (simp_all add: gw_ids MMAP_ORDER_TRACK_SIZE_def)

text \<open>What the gateway sends on that day: the kinds, the order numbers and the volumes.\<close>

lemma gw_day_log:
  "(case run_steps (ctp_step gw_env) gw_day gw_start of
      Inl f \<Rightarrow> False
    | Inr s \<Rightarrow> map (\<lambda>m. (rm_msg_type (or_rtn_msg m), rm_order_ref (or_rtn_msg m), rm_vol (or_rtn_msg m)))
        (wr_log (te_writer s)) =
        [(ODS_TDSEND, 4, 3), (ODS_ERR, -1, 3), (ODS_ACCEPT, 4, 3), (ODS_MARKET_ACCEPT, 4, 3),
         (ODS_EXECUTION, 4, 2), (ODS_CANCELED, 4, 1)])"
  by code_simp

text \<open>
  C18. Every order of a client gets exactly one answer, under its own number for it. The gateway refuses an
  order that names no account, or that the risk control refuses, with the code of that check
  (\<open>own_code\<close>); then nothing of the engine changes but its channel: nothing is sent, booked or recorded.
  An order that passes is handed to the interface (\<open>handed_over\<close>). If that returns an error, the answer has its
  code, and nothing else changes. If it takes the order, the answer is \<^verbatim>\<open>TDSEND\<close> with the number of the
  order, which counts up, a record of what the client asked for is opened, and the order is booked in the
  account. The conditions are those of a day: where the index is valid, the account is connected and has
  room for one more order of the instrument in the vector of its risk control.
\<close>

theorem insert_is_answered:
  assumes "ctp_env ps env" "engine_ok ctp_units ps tb s"
    and "acc_index_ok (in_acc_idx data) s \<Longrightarrow> au_api (ct_account_units s ! nat (in_acc_idx data)) \<and>
      top_room (in_instr_hash data) (te_acc_utilis s ! nat (in_acc_idx data))"
  shows "\<exists>m t. CTDEngineCtp_req_order_insert api env data s = Inr t \<and>
    wr_log (te_writer t) = wr_log (te_writer s) @ [m] \<and>
    or_to m = in_from data \<and> rm_local_id (or_rtn_msg m) = in_local_id data \<and>
    (if own_code env data s \<noteq> 0
     then rm_msg_type (or_rtn_msg m) = ODS_ERR \<and> rm_errid (or_rtn_msg m) = own_code env data s \<and>
       (\<exists>w. t = s\<lparr>te_writer := w\<rparr>)
     else if api (insert_request data s) \<noteq> 0
     then rm_msg_type (or_rtn_msg m) = ODS_ERR \<and> rm_errid (or_rtn_msg m) = api (insert_request data s) \<and>
       (\<exists>w. t = (handed_over data s)\<lparr>te_writer := w\<rparr>)
     else rm_msg_type (or_rtn_msg m) = ODS_TDSEND \<and> rm_order_ref (or_rtn_msg m) = te_request_id s \<and>
       ct_sent t = ct_sent s @ [ReqOrderInsert (in_acc_idx data) (order_sent data s) (te_request_id s)] \<and>
       te_request_id t = te_request_id s + 1 \<and>
       te_request_track t = (te_request_track s)(track_slot (te_request_id s) :=
         insert_record data (ct_account_units s ! nat (in_acc_idx data)) (te_request_id s)
           (track_of (te_request_id s) s)) \<and>
       (\<exists>r. RiskTop_onNew (en_ops env) tb (en_now env) (in_dir data) (in_off data) (in_price data)
            (in_vol data) (in_instr_hash data) (te_request_id s) (te_acc_utilis s ! nat (in_acc_idx data)) = Inr r \<and>
          te_acc_utilis t = (te_acc_utilis s)[nat (in_acc_idx data) := r]))"
proof -
  have env: "chan_env ps env" "0 < en_fuel env" using assms(1) by (simp_all add: ctp_env_def)
  from insert_ok [OF assms(2) env assms(3), of api] obtain m t where
    t: "CTDEngineCtp_req_order_insert api env data s = Inr t"
      "if insert_code api env data s = 0 then order_opened ps tb env data s t m
       else order_refused ps tb (insert_code api env data s) data
         (if own_code env data s = 0 then handed_over data s else s) s t m"
    by blast
  show ?thesis
  proof (cases "insert_code api env data s = 0")
    case True
    then have ok: "own_code env data s = 0" "api (insert_request data s) = 0"
      by (auto simp: insert_code_def split: if_splits)
    from True t(2) have "order_opened ps tb env data s t m" by simp
    with t(1) ok show ?thesis
      by (intro exI [of _ m] exI [of _ t]) (auto simp: order_opened_def insert_request_def addressed_def)
  next
    case False
    with t have r: "order_refused ps tb (insert_code api env data s) data
        (if own_code env data s = 0 then handed_over data s else s) s t m" by simp
    then have "engine_moves ctp_units ps tb s t 0 (track_of 0 s) [m]" by (simp add: order_refused_def)
    with t(1) r False show ?thesis
      by (intro exI [of _ m] exI [of _ t])
        (auto simp: order_refused_def engine_moves_def insert_code_def split: if_splits)
  qed
qed

text \<open>Three orders: one too large, one the interface refuses with -3, and one that is sent.\<close>

lemma gw_codes:
  "own_code gw_env (gw_order\<lparr>in_vol := 4\<rparr>) gw_start \<noteq> 0" "own_code gw_env gw_order gw_start = 0"
  by code_simp+

theorem insert_is_answered_witness:
  "(\<exists>m w. CTDEngineCtp_req_order_insert (\<lambda>_. 0) gw_env (gw_order\<lparr>in_vol := 4\<rparr>) gw_start = Inr (gw_start\<lparr>te_writer := w\<rparr>) \<and>
      wr_log w = wr_log (te_writer gw_start) @ [m] \<and> rm_msg_type (or_rtn_msg m) = ODS_ERR) \<and>
   (\<exists>m w. CTDEngineCtp_req_order_insert (\<lambda>_. - 3) gw_env gw_order gw_start = Inr ((handed_over gw_order gw_start)\<lparr>te_writer := w\<rparr>) \<and>
      wr_log w = wr_log (te_writer gw_start) @ [m] \<and> rm_errid (or_rtn_msg m) = - 3) \<and>
   (\<exists>m t. CTDEngineCtp_req_order_insert (\<lambda>_. 0) gw_env gw_order gw_start = Inr t \<and>
      wr_log (te_writer t) = wr_log (te_writer gw_start) @ [m] \<and> or_to m = 17 \<and> rm_msg_type (or_rtn_msg m) = ODS_TDSEND \<and> te_request_id t = 5)"
proof -
  have d: "in_acc_idx (gw_order\<lparr>in_vol := v\<rparr>) = 0" "in_instr_hash (gw_order\<lparr>in_vol := v\<rparr>) = in_instr_hash gw_order"
    "in_acc_idx gw_order = 0" "in_from gw_order = 17" for v by (simp_all add: gw_order_def)
  note I = insert_is_answered [OF gw_engine_ok, unfolded d]
  from I [of "gw_order\<lparr>in_vol := 4\<rparr>" "\<lambda>_. 0", unfolded d] gw_room gw_api gw_codes(1) obtain m t where
    "CTDEngineCtp_req_order_insert (\<lambda>_. 0) gw_env (gw_order\<lparr>in_vol := 4\<rparr>) gw_start = Inr t"
    "wr_log (te_writer t) = wr_log (te_writer gw_start) @ [m]" "rm_msg_type (or_rtn_msg m) = ODS_ERR"
    "\<exists>w. t = gw_start\<lparr>te_writer := w\<rparr>" by auto
  moreover from I [of gw_order "\<lambda>_. - 3", unfolded d] gw_room gw_api gw_codes(2) obtain m1 t1 where
    "CTDEngineCtp_req_order_insert (\<lambda>_. - 3) gw_env gw_order gw_start = Inr t1"
    "wr_log (te_writer t1) = wr_log (te_writer gw_start) @ [m1]" "rm_errid (or_rtn_msg m1) = - 3"
    "\<exists>w. t1 = (handed_over gw_order gw_start)\<lparr>te_writer := w\<rparr>" by auto
  moreover from I [of gw_order "\<lambda>_. 0", unfolded d] gw_room gw_api gw_codes(2) obtain m2 t2 where
    "CTDEngineCtp_req_order_insert (\<lambda>_. 0) gw_env gw_order gw_start = Inr t2"
    "wr_log (te_writer t2) = wr_log (te_writer gw_start) @ [m2]" "or_to m2 = 17" "rm_msg_type (or_rtn_msg m2) = ODS_TDSEND" "te_request_id t2 = 5" by (auto simp: gw_ids)
  ultimately show ?thesis by fastforce
qed

section \<open>Numbers\<close>

text \<open>
  The number of an order survives its way through the interface: \<^verbatim>\<open>atoi\<close> reads back what
  \<^verbatim>\<open>int2string\<close> wrote.
\<close>

theorem order_ref_round_trip: "atoi (int2string n) = n"
proof (cases "n < 0")
  case True
  then show ?thesis by (simp add: int2string_def atoi_def parse_sign_def is_space_def parse_digits)
next
  case False
  obtain k cs where k: "k < 10" "rev (digits_rev (nat n)) = digit k # cs" using digits_head by blast
  with False digit_plain [of "digit k"] parse_digits [of "nat n"] show ?thesis
    by (simp add: int2string_def atoi_def parse_sign_def)
qed

text \<open>
  The filter for repeated trades of an order, a ring of four numbers with a running front,
  answers for every sequence of numbers what its specification does: a number is a repetition
  exactly if it is one of the last four that were accepted.
\<close>

theorem repeats_are_recent: "fst (test_all ms id_queue_init) = seen_recently [] ms"
proof -
  have "fst (test_all ms q) = seen_recently acc ms" if "ring_holds acc q" for acc q
    using that
  proof (induction ms arbitrary: acc q)
    case (Cons m ms)
    show ?case
    proof (cases "m \<in> set (take 4 acc)")
      case True
      with ring_set [OF Cons.prems] have "CIDQueue_test m q = (True, q)" by (simp add: CIDQueue_test_def Let_def)
      with True Cons.IH [OF Cons.prems] show ?thesis by (cases "test_all ms q") simp
    next
      case False
      with ring_set [OF Cons.prems] have "CIDQueue_test m q =
        (False, q\<lparr>iq_id := (iq_id q)[nat (iq_front q AND 3) := m], iq_front := iq_front q + 1\<rparr>)"
        by (simp add: CIDQueue_test_def Let_def)
      with False Cons.IH [OF ring_push [OF Cons.prems, of m]] show ?thesis by (auto split: prod.split)
    qed
  qed simp
  moreover have "ring_holds [] id_queue_init" by (simp add: ring_holds_def id_queue_init_def)
  ultimately show ?thesis by blast
qed

text \<open>
  Trade numbers that are padded with zeros are read as octal numbers up to the first 8 or 9, so
  the trade 00000019 of an order is taken for a repetition of the trade 00000018: it is
  dropped without a report, and neither the record of the order nor the account books it.
\<close>

theorem padded_trade_ids_collide:
  assumes "cd_TradeID trade1 = ''00000018''" "cd_TradeID trade2 = ''00000019''"
    and "cd_OrderRef trade1 = cd_OrderRef trade2"
    and "cd_UserID trade1 = ct_int_user_id s" "cd_UserID trade2 = ct_int_user_id s"
    and "ITDEngine_checkRequestId (atoi (cd_OrderRef trade1)) s"
    and "ring_holds acc (te_otidfilter s (track_slot (atoi (cd_OrderRef trade1))))"
    and "CTDEngineCtp_OnRtnTrade env1 trade1 s = Inr t"
  shows "CTDEngineCtp_OnRtnTrade env2 trade2 t = Inr t"
proof -
  let ?id = "atoi (cd_OrderRef trade1)"
  have ids: "strtoll0 (cd_TradeID trade1) = 1" "strtoll0 (cd_TradeID trade2) = 1"
    unfolding assms(1,2) by code_simp+
  obtain b q where q: "CIDQueue_test 1 (te_otidfilter s (track_slot ?id)) = (b, q)" by fastforce
  note frame = OnRtnTrade_frame [OF assms(8,4,6)]
  then have "te_otidfilter t (track_slot ?id) = q" using q ids(1) by (simp add: ITDEngine_testOtId_def)
  with tested_again [OF assms(7) q] have "ITDEngine_testOtId ?id 1 t = (True, t)"
    by (simp add: ITDEngine_testOtId_def fun_upd_idem)
  with frame assms(3,5,6) ids(2) show ?thesis
    by (simp add: CTDEngineCtp_OnRtnTrade_def ITDEngine_checkRequestId_def)
qed

lemma gw_filter: "ring_holds [] (te_otidfilter gw_start k)"
  by (simp add: gw_ids ring_holds_def id_queue_init_def)

theorem padded_trade_ids_collide_witness:
  "\<exists>t. CTDEngineCtp_OnRtnTrade gw_env (gw_trade\<lparr>cd_TradeID := ''00000018''\<rparr>) gw_start = Inr t \<and>
     CTDEngineCtp_OnRtnTrade gw_env (gw_trade\<lparr>cd_TradeID := ''00000019''\<rparr>) t = Inr t"
proof -
  have "(case CTDEngineCtp_OnRtnTrade gw_env (gw_trade\<lparr>cd_TradeID := ''00000018''\<rparr>) gw_start of
      Inr t \<Rightarrow> True | _ \<Rightarrow> False)" by code_simp
  then obtain t where t: "CTDEngineCtp_OnRtnTrade gw_env (gw_trade\<lparr>cd_TradeID := ''00000018''\<rparr>) gw_start = Inr t"
    by (auto split: sum.splits)
  have "atoi (cd_OrderRef gw_trade) = 4" by code_simp
  then have "CTDEngineCtp_OnRtnTrade gw_env (gw_trade\<lparr>cd_TradeID := ''00000019''\<rparr>) t = Inr t"
    using padded_trade_ids_collide [OF _ _ _ _ _ _ gw_filter t, of "gw_trade\<lparr>cd_TradeID := ''00000019''\<rparr>" gw_env]
    by (simp add: gw_ids ITDEngine_checkRequestId_def) (simp add: gw_trade_def)
  with t show ?thesis by blast
qed

end
