(* ===== verification/Hash_Table.thy ===== *)
theory Hash_Table
  imports Prelude
begin

text \<open>
  \<^verbatim>\<open>utility/CHashTable\<close>, the table in shared memory through which all strategy processes of a host are
  controlled (\<^verbatim>\<open>strategy_shared_comm.h\<close>): a fixed number of levels, each an array with a prime number of
  nodes, in which a key has one place per level. The key 0 marks a free node. The pointers the code hands
  out are indices into the array of nodes.
\<close>

section \<open>The sizes of the levels\<close>

text \<open>The loops of \<^verbatim>\<open>isPrime\<close> and \<^verbatim>\<open>calcSize\<close>, with the 32-bit arithmetic of the code.\<close>

partial_function (option) is_prime_from :: "u32 \<Rightarrow> u32 \<Rightarrow> bool option" where
  "is_prime_from i num =
     (if i * i \<le> num
      then if num mod i = 0 then Some False else is_prime_from (i + 2) num
      else Some True)"

definition CHashTable_isPrime :: "u32 \<Rightarrow> bool option" where
  "CHashTable_isPrime num =
     (if num \<noteq> 2 \<and> num mod 2 = 0 then Some False else is_prime_from 3 num)"

partial_function (option) next_prime :: "u32 \<Rightarrow> u32 option" where
  "next_prime base =
     (case CHashTable_isPrime base of
        None \<Rightarrow> None
      | Some b \<Rightarrow> if b then Some base else next_prime (base + 2))"

declare is_prime_from.simps [code] next_prime.simps [code]

fun calc_bases :: "nat \<Rightarrow> u32 \<Rightarrow> u32 list option" where
  "calc_bases 0 base = Some []"
| "calc_bases (Suc n) base =
     (case next_prime base of
        None \<Rightarrow> None
      | Some p \<Rightarrow> map_option (\<lambda>ps. p # ps) (calc_bases n (p + 2)))"

definition CHashTable_calcSize :: "u32 \<Rightarrow> nat \<Rightarrow> (u32 list \<times> u32) option" where
  "CHashTable_calcSize base deep =
     map_option (\<lambda>ps. (ps, sum_list ps)) (calc_bases deep (if base mod 2 = 0 then base + 1 else base))"

section \<open>The table\<close>

record 'v ht_node =
  hn_key :: u32
  hn_val :: 'v

record 'v hash_table =
  ht_basesize :: "u32 list"
  ht_nodes :: "'v ht_node list"
  ht_curpos :: u32
  ht_totcnt :: u32
  ht_shmkey :: u32

text \<open>
  What the system answers for a segment of shared memory: it exists with some content, it can be created,
  or neither; and whether it can be attached.
\<close>

datatype 'v shm = ShmExisting "'v ht_node list" | ShmCreated | ShmRefused

definition zero_nodes :: "'v \<Rightarrow> u32 \<Rightarrow> 'v ht_node list" where
  "zero_nodes z n = replicate (unat n) \<lparr>hn_key = 0, hn_val = z\<rparr>"

definition CHashTable_init ::
    "'v \<Rightarrow> 'v shm \<Rightarrow> bool \<Rightarrow> u32 \<Rightarrow> nat \<Rightarrow> u32 \<Rightarrow> 'v hash_table \<Rightarrow> (bool \<times> 'v hash_table) option" where
  "CHashTable_init z shm attach base deep shmkey t =
     (case CHashTable_calcSize base deep of
        None \<Rightarrow> None
      | Some (bases, totcnt) \<Rightarrow>
          (let t1 = t\<lparr>ht_basesize := bases, ht_totcnt := totcnt\<rparr>;
               nodes = (if shmkey = 0 then Some (zero_nodes z totcnt)
                        else if \<not> attach then None
                        else case shm of
                          ShmExisting ns \<Rightarrow> Some ns
                        | ShmCreated \<Rightarrow> Some (zero_nodes z totcnt)
                        | ShmRefused \<Rightarrow> None)
           in Some (case nodes of
                None \<Rightarrow> (False, t1)
              | Some ns \<Rightarrow> (True, t1\<lparr>ht_nodes := ns, ht_shmkey := shmkey\<rparr>))))"

text \<open>The node of a key in every level, first level first.\<close>

fun slots :: "u32 list \<Rightarrow> nat \<Rightarrow> u32 \<Rightarrow> nat list" where
  "slots [] off key = []"
| "slots (b # bs) off key = (off + unat (key mod b)) # slots bs (off + unat b) key"

definition node_at :: "'v hash_table \<Rightarrow> nat \<Rightarrow> 'v ht_node res" where
  "node_at t i = (if i < length (ht_nodes t) then Inr (ht_nodes t ! i) else Inl OutOfRange)"

fun get_scan :: "'v hash_table \<Rightarrow> u32 \<Rightarrow> nat list \<Rightarrow> nat option res" where
  "get_scan t key [] = Inr None"
| "get_scan t key (i # is) =
     res_bind (node_at t i) (\<lambda>n. if hn_key n = key then Inr (Some i) else get_scan t key is)"

definition CHashTable_get :: "u32 \<Rightarrow> 'v hash_table \<Rightarrow> nat option res" where
  "CHashTable_get key t = get_scan t key (slots (ht_basesize t) 0 key)"

text \<open>\<^verbatim>\<open>insert\<close> looks at every level before it takes the first free node it has seen.\<close>

fun insert_scan :: "'v hash_table \<Rightarrow> u32 \<Rightarrow> nat option \<Rightarrow> nat list \<Rightarrow> nat option res" where
  "insert_scan t key p_empty [] = Inr p_empty"
| "insert_scan t key p_empty (i # is) =
     res_bind (node_at t i) (\<lambda>n.
       if hn_key n = key then Inr (Some i)
       else insert_scan t key (if p_empty = None \<and> hn_key n = 0 then Some i else p_empty) is)"

definition CHashTable_insert :: "u32 \<Rightarrow> 'v \<Rightarrow> 'v hash_table \<Rightarrow> (nat option \<times> 'v hash_table) res" where
  "CHashTable_insert key val t =
     res_bind (insert_scan t key None (slots (ht_basesize t) 0 key)) (\<lambda>p.
       Inr (p, case p of
           None \<Rightarrow> t
         | Some i \<Rightarrow> t\<lparr>ht_nodes := (ht_nodes t)[i := \<lparr>hn_key = key, hn_val = val\<rparr>]\<rparr>))"

definition CHashTable_del :: "u32 \<Rightarrow> 'v hash_table \<Rightarrow> (bool \<times> 'v hash_table) res" where
  "CHashTable_del key t =
     res_bind (CHashTable_get key t) (\<lambda>p.
       Inr (case p of
           None \<Rightarrow> (False, t)
         | Some i \<Rightarrow> (True, t\<lparr>ht_nodes := (ht_nodes t)[i := (ht_nodes t ! i)\<lparr>hn_key := 0\<rparr>]\<rparr>)))"

definition CHashTable_first :: "'v hash_table \<Rightarrow> 'v hash_table" where
  "CHashTable_first t = t\<lparr>ht_curpos := 0\<rparr>"

definition CHashTable_next :: "'v hash_table \<Rightarrow> (nat option \<times> 'v hash_table)" where
  "CHashTable_next t =
     (if ht_curpos t < ht_totcnt t
      then (Some (unat (ht_curpos t)), t\<lparr>ht_curpos := ht_curpos t + 1\<rparr>)
      else (None, t))"

section \<open>The loops end\<close>

lemma odd_word_step:
  fixes i num :: u32
  assumes "odd (unat i)" "odd (unat num)" "i < num"
  shows "unat (i + 2) = unat i + 2" "i + 2 \<le> num" "odd (unat (i + 2))"
proof -
  have lt: "unat i < unat num" using assms(3) by (simp add: word_less_nat_alt)
  with assms(1,2) have le: "unat i + 2 \<le> unat num" by presburger
  have "unat num < 2 ^ 32" using unsigned_less [of num] by simp
  with le show u: "unat (i + 2) = unat i + 2" by (simp add: unat_word_ariths)
  with le assms(1) show "i + 2 \<le> num" "odd (unat (i + 2))" by (simp_all add: word_le_nat_alt)
qed

lemma is_prime_from_total:
  assumes "odd (unat i)" "odd (unat num)" "i \<le> num"
  shows "\<exists>b. is_prime_from i num = Some b"
  using assms
proof (induction "unat num - unat i" arbitrary: i rule: less_induct)
  case less
  show ?case
  proof (cases "i * i \<le> num \<and> num mod i \<noteq> 0")
    case True
    then have "i \<noteq> num" by auto
    with less.prems(3) have lt: "i < num" by simp
    note step = odd_word_step [OF less.prems(1,2) lt]
    have "unat num - unat (i + 2) < unat num - unat i"
      using step(1) lt by (simp add: word_less_nat_alt)
    from less.hyps [OF this step(3) less.prems(2) step(2)] True show ?thesis
      by (simp add: is_prime_from.simps [of i])
  qed (auto simp: is_prime_from.simps [of i])
qed


lemma isPrime_total: "odd (unat num) \<Longrightarrow> \<exists>b. CHashTable_isPrime num = Some b"
proof -
  assume odd: "odd (unat num)"
  show ?thesis
  proof (cases "num = 1")
    case True
    then show ?thesis by (auto simp: CHashTable_isPrime_def is_prime_from.simps [of 3] word_le_nat_alt)
  next
    case False
    then have "unat num \<noteq> 1" by (metis unat_1 word_unat_eq_iff)
    with odd have "3 \<le> unat num" by presburger
    then have "3 \<le> num" by (simp add: word_le_nat_alt)
    from is_prime_from_total [OF _ odd this] show ?thesis
      by (cases "num \<noteq> 2 \<and> num mod 2 = 0") (auto simp: CHashTable_isPrime_def)
  qed
qed

text \<open>The search goes on until it finds a size that passes; after a wrap it ends at 1.\<close>

lemma isPrime_1: "CHashTable_isPrime 1 = Some True"
  by (simp add: CHashTable_isPrime_def is_prime_from.simps [of 3] word_le_nat_alt)

lemma even_unat_iff: "even (unat w) \<longleftrightarrow> even (w :: u32)"
  using bit_unsigned_iff [of w 0, where ?'a = nat] by (simp add: bit_0)

lemma unat_minus_2: "2 \<le> unat w \<Longrightarrow> unat (w - 2) < unat (w :: u32)"
  by (simp add: unat_sub word_le_nat_alt)

lemma odd_plus_2: "odd (unat (w :: u32)) \<Longrightarrow> odd (unat (w + 2))"
  by (simp add: even_unat_iff)

lemma even_ge_2: "even (n :: nat) \<Longrightarrow> n \<noteq> 0 \<Longrightarrow> 2 \<le> n"
  by presburger

lemma next_prime_total:
  assumes "odd (unat base)"
  shows "\<exists>p. next_prime base = Some p \<and> odd (unat p)"
  using assms
proof (induction "unat (1 - base)" arbitrary: base rule: less_induct)
  case less
  obtain b where b: "CHashTable_isPrime base = Some b" using isPrime_total [OF less.prems] by blast
  show ?case
  proof (cases b)
    case True
    with b less.prems show ?thesis by (simp add: next_prime.simps [of base])
  next
    case False
    with b isPrime_1 have "base \<noteq> 1" by auto
    note odd = odd_plus_2 [OF less.prems]
    have "even (unat (1 - base))" using less.prems by (simp add: even_unat_iff)
    moreover have "unat (1 - base) \<noteq> 0" using \<open>base \<noteq> 1\<close> by (simp add: unat_eq_zero)
    ultimately have "2 \<le> unat (1 - base)" by (rule even_ge_2)
    then have "unat (1 - base - 2) < unat (1 - base)" by (rule unat_minus_2)
    moreover have "1 - (base + 2) = 1 - base - 2" by simp
    ultimately have "unat (1 - (base + 2)) < unat (1 - base)" by (simp only:)
    from less.hyps [OF this odd] b False show ?thesis by (simp add: next_prime.simps [of base])
  qed
qed

lemma calc_bases_total:
  "odd (unat base) \<Longrightarrow> \<exists>ps. calc_bases n base = Some ps \<and> length ps = n \<and> (\<forall>p \<in> set ps. odd (unat p))"
proof (induction n arbitrary: base)
  case (Suc n)
  from next_prime_total [OF Suc.prems] obtain p where p: "next_prime base = Some p" "odd (unat p)" by blast
  from Suc.IH [OF odd_plus_2 [OF p(2)]] p show ?case by auto
qed simp

lemma calcSize_total:
  "\<exists>ps. CHashTable_calcSize base deep = Some (ps, sum_list ps) \<and> length ps = deep \<and>
     (\<forall>p \<in> set ps. odd (unat p))"
proof -
  have "odd (unat (if base mod 2 = 0 then base + 1 else base))"
    by (simp add: even_unat_iff even_iff_mod_2_eq_zero [symmetric])
  from calc_bases_total [OF this, of deep] show ?thesis by (auto simp: CHashTable_calcSize_def)
qed

section \<open>The sizes are prime\<close>

lemma is_prime_from_ok:
  assumes "odd (unat i)" "odd (unat num)" "unat i \<le> 65535" "unat num < 65535 * 65535"
  shows "is_prime_from i num =
    Some (\<forall>d. unat i \<le> d \<and> odd d \<and> d * d \<le> unat num \<longrightarrow> \<not> d dvd unat num)"
  using assms
proof (induction "65535 - unat i" arbitrary: i rule: less_induct)
  case less
  have "unat i * unat i \<le> 65535 * 65535" by (rule mult_le_mono) (use less.prems in simp_all)
  then have sq: "unat (i * i) = unat i * unat i" by (simp add: unat_word_ariths)
  show ?case
  proof (cases "unat i * unat i \<le> unat num")
    case False
    then have "\<not> d * d \<le> unat num" if "unat i \<le> d" for d using that by (meson le_trans mult_le_mono)
    with False sq show ?thesis by (auto simp: is_prime_from.simps [of i] word_le_nat_alt)
  next
    case True
    with less.prems(4) have "unat i < 65535"
      by (metis le_neq_implies_less less.prems(3) linorder_not_le)
    with less.prems(1) have "unat i \<le> 65533" by presburger
    then have up: "unat (i + 2) = unat i + 2" by (simp add: unat_word_ariths)
    have mod: "num mod i = 0 \<longleftrightarrow> unat i dvd unat num"
      by (simp add: unat_eq_zero [symmetric] unat_mod dvd_eq_mod_eq_0 del: unat_eq_zero)
    show ?thesis
    proof (cases "unat i dvd unat num")
      case divides: True
      then have "is_prime_from i num = Some False"
        using True sq mod by (simp add: is_prime_from.simps [of i] word_le_nat_alt)
      with True divides less.prems(1) show ?thesis by auto
    next
      case False
      have "is_prime_from i num = is_prime_from (i + 2) num"
        using True sq mod False by (simp add: is_prime_from.simps [of i] word_le_nat_alt)
      also have "\<dots> = Some (\<forall>d. unat i + 2 \<le> d \<and> odd d \<and> d * d \<le> unat num \<longrightarrow> \<not> d dvd unat num)"
        using less.hyps [of "i + 2"] less.prems \<open>unat i \<le> 65533\<close> up by simp
      also have "(\<forall>d. unat i + 2 \<le> d \<and> odd d \<and> d * d \<le> unat num \<longrightarrow> \<not> d dvd unat num) =
          (\<forall>d. unat i \<le> d \<and> odd d \<and> d * d \<le> unat num \<longrightarrow> \<not> d dvd unat num)"
      proof -
        have "unat i \<le> d \<and> odd d \<longleftrightarrow> d = unat i \<or> unat i + 2 \<le> d \<and> odd d" for d
          using less.prems(1) by presburger
        with False show ?thesis by metis
      qed
      finally show ?thesis .
    qed
  qed
qed


lemma odd_no_divisor:
  assumes "odd n" "(3 :: nat) \<le> n"
  shows "(\<forall>d. 3 \<le> d \<and> odd d \<and> d * d \<le> n \<longrightarrow> \<not> d dvd n) \<longleftrightarrow> (\<forall>d. 1 < d \<and> d < n \<longrightarrow> \<not> d dvd n)"
    (is "?l = ?r")
proof
  assume l: ?l
  show ?r
  proof (intro allI impI notI)
    fix d assume d: "1 < d \<and> d < n" "d dvd n"
    then obtain e where e: "n = d * e" by auto
    have odd: "odd d" "odd e" using assms(1) e by auto
    have "1 < e" using d e assms(2) by (cases "e = 0 \<or> e = 1") auto
    with odd(2) have ge: "3 \<le> e" by presburger
    have "3 \<le> d" using d(1) odd(1) by presburger
    have "d * d \<le> n \<or> e * e \<le> n" unfolding e by (cases "d \<le> e") auto
    with \<open>3 \<le> d\<close> l ge odd e d(2) show False by auto
  qed
next
  assume r: ?r
  show ?l
  proof (intro allI impI notI)
    fix d assume d: "3 \<le> d \<and> odd d \<and> d * d \<le> n" "d dvd n"
    have "d * 3 \<le> d * d" using d(1) by (intro mult_le_mono) auto
    with d(1) have "d < n" by linarith
    with r d show False by auto
  qed
qed

lemma isPrime_ok:
  assumes "odd (unat num)" "unat num < 65535 * 65535" "CHashTable_isPrime num = Some True"
  shows "\<forall>d. 1 < d \<and> d < unat num \<longrightarrow> \<not> d dvd unat num"
proof (cases "unat num = 1")
  case False
  with assms(1) have ge: "3 \<le> unat num" by presburger
  have "num mod 2 \<noteq> 0" using assms(1) by (metis even_unat_iff even_iff_mod_2_eq_zero)
  with assms(3) have "is_prime_from 3 num = Some True" by (simp add: CHashTable_isPrime_def split: if_splits)
  with is_prime_from_ok [of 3 num] assms(1,2) odd_no_divisor [OF assms(1) ge] show ?thesis by simp
qed auto

lemma next_prime_ok:
  assumes "next_prime base = Some p"
  shows "CHashTable_isPrime p = Some True"
  using assms
proof (rule next_prime.raw_induct [rotated])
  fix f x y
  assume "\<And>x y. f x = Some y \<Longrightarrow> CHashTable_isPrime y = Some True"
    and "(case CHashTable_isPrime x of None \<Rightarrow> None | Some b \<Rightarrow> if b then Some x else f (x + 2)) = Some y"
  then show "CHashTable_isPrime y = Some True" by (auto split: option.splits if_splits)
qed

lemma calc_bases_ok: "calc_bases n base = Some ps \<Longrightarrow> p \<in> set ps \<Longrightarrow> CHashTable_isPrime p = Some True"
  by (induction n arbitrary: base ps) (auto split: option.splits dest: next_prime_ok)


section \<open>The table as a map\<close>

text \<open>
  The contract of a store with limited room: it behaves as a map on the keys it is for, except that it may
  refuse an insertion when at least \<open>room\<close> keys are stored.
\<close>

datatype ('k, 'v) store_op = Get 'k | Insert 'k 'v | Del 'k
datatype 'v store_answer = Got "'v option" | Stored bool | Deleted bool

fun op_key :: "('k, 'v) store_op \<Rightarrow> 'k" where
  "op_key (Get k) = k" | "op_key (Insert k v) = k" | "op_key (Del k) = k"

fun map_allows :: "nat \<Rightarrow> ('k \<rightharpoonup> 'v) \<Rightarrow> ('k, 'v) store_op \<Rightarrow> 'v store_answer \<Rightarrow> bool" where
  "map_allows room m (Get k) (Got r) \<longleftrightarrow> r = m k"
| "map_allows room m (Insert k v) (Stored ok) \<longleftrightarrow> ok \<or> m k = None \<and> room \<le> card (dom m)"
| "map_allows room m (Del k) (Deleted ok) \<longleftrightarrow> ok = (m k \<noteq> None)"
| "map_allows room m _ _ \<longleftrightarrow> False"

fun map_next :: "('k \<rightharpoonup> 'v) \<Rightarrow> ('k, 'v) store_op \<Rightarrow> 'v store_answer \<Rightarrow> ('k \<rightharpoonup> 'v)" where
  "map_next m (Insert k v) (Stored True) = m(k \<mapsto> v)"
| "map_next m (Del k) _ = m(k := None)"
| "map_next m _ _ = m"

fun map_follows :: "nat \<Rightarrow> ('k \<rightharpoonup> 'v) \<Rightarrow> (('k, 'v) store_op \<times> 'v store_answer) list \<Rightarrow> bool" where
  "map_follows room m [] \<longleftrightarrow> True"
| "map_follows room m ((p, a) # xs) \<longleftrightarrow> map_allows room m p a \<and> map_follows room (map_next m p a) xs"

primrec store_run ::
    "(('k, 'v) store_op \<Rightarrow> 's \<Rightarrow> ('v store_answer \<times> 's) res) \<Rightarrow> ('k, 'v) store_op list \<Rightarrow> 's \<Rightarrow>
     ((('k, 'v) store_op \<times> 'v store_answer) list \<times> 's) res" where
  "store_run step [] s = Inr ([], s)"
| "store_run step (p # ps) s =
     res_bind (step p s) (\<lambda>(a, s1).
     res_bind (store_run step ps s1) (\<lambda>(as, s2). Inr ((p, a) # as, s2)))"

locale bounded_store =
  fixes step :: "('k, 'v) store_op \<Rightarrow> 's \<Rightarrow> ('v store_answer \<times> 's) res"
    and abs :: "'s \<Rightarrow> 'k \<rightharpoonup> 'v"
    and inv :: "'s \<Rightarrow> bool"
    and key :: "'k \<Rightarrow> bool"
    and room :: nat
  assumes step_law: "inv s \<Longrightarrow> key (op_key p) \<Longrightarrow>
    \<exists>a t. step p s = Inr (a, t) \<and> inv t \<and> map_allows room (abs s) p a \<and> abs t = map_next (abs s) p a"
begin

lemma run_follows:
  "inv s \<Longrightarrow> \<forall>p \<in> set ps. key (op_key p) \<Longrightarrow>
   \<exists>as t. store_run step ps s = Inr (as, t) \<and> inv t \<and> map fst as = ps \<and> map_follows room (abs s) as"
proof (induction ps arbitrary: s)
  case (Cons p ps)
  from step_law [OF Cons.prems(1), of p] Cons.prems(2) obtain a t where
    t: "step p s = Inr (a, t)" "inv t" "map_allows room (abs s) p a" "abs t = map_next (abs s) p a" by auto
  from Cons.IH [OF t(2)] Cons.prems(2) t show ?case by fastforce
qed simp

end

section \<open>The table is such a store\<close>

fun ht_step :: "(u32, 'v) store_op \<Rightarrow> 'v hash_table \<Rightarrow> ('v store_answer \<times> 'v hash_table) res" where
  "ht_step (Get k) t =
     res_bind (CHashTable_get k t) (\<lambda>p. Inr (Got (map_option (\<lambda>i. hn_val (ht_nodes t ! i)) p), t))"
| "ht_step (Insert k v) t = res_bind (CHashTable_insert k v t) (\<lambda>(p, t1). Inr (Stored (p \<noteq> None), t1))"
| "ht_step (Del k) t = res_bind (CHashTable_del k t) (\<lambda>(ok, t1). Inr (Deleted ok, t1))"

abbreviation key_at :: "'v hash_table \<Rightarrow> nat \<Rightarrow> u32" where
  "key_at t i \<equiv> hn_key (ht_nodes t ! i)"

definition ht_abs :: "'v hash_table \<Rightarrow> u32 \<rightharpoonup> 'v" where
  "ht_abs t k =
     (if k = 0 then None
      else map_option (\<lambda>i. hn_val (ht_nodes t ! i)) (find (\<lambda>i. key_at t i = k) (slots (ht_basesize t) 0 k)))"

text \<open>Every stored key is at one of its places, and at one only.\<close>

definition ht_ok :: "nat \<Rightarrow> 'v hash_table \<Rightarrow> bool" where
  "ht_ok deep t \<longleftrightarrow>
     length (ht_basesize t) = deep \<and> (\<forall>b \<in> set (ht_basesize t). b \<noteq> 0) \<and>
     length (ht_nodes t) = sum_list (map unat (ht_basesize t)) \<and>
     (\<forall>i < length (ht_nodes t). key_at t i \<noteq> 0 \<longrightarrow> i \<in> set (slots (ht_basesize t) 0 (key_at t i))) \<and>
     (\<forall>i < length (ht_nodes t). \<forall>j < length (ht_nodes t).
        key_at t i \<noteq> 0 \<longrightarrow> key_at t i = key_at t j \<longrightarrow> i = j)"

lemma length_slots [simp]: "length (slots bs off k) = length bs"
  by (induction bs arbitrary: off) auto

lemma slots_range:
  "\<forall>b \<in> set bs. b \<noteq> 0 \<Longrightarrow> i \<in> set (slots bs off k) \<Longrightarrow> off \<le> i \<and> i < off + sum_list (map unat bs)"
proof (induction bs arbitrary: off)
  case (Cons b bs)
  have "unat (k mod b) < unat b"
    using Cons.prems(1) by (simp add: unat_mod word_gt_0_no unat_gt_0 word_neq_0_conv [symmetric])
  with Cons show ?case by (fastforce)
qed simp

lemma slots_distinct: "\<forall>b \<in> set bs. b \<noteq> 0 \<Longrightarrow> distinct (slots bs off k)"
proof (induction bs arbitrary: off)
  case (Cons b bs)
  have "unat (k mod b) < unat b"
    using Cons.prems(1) by (simp add: unat_mod word_gt_0_no unat_gt_0 word_neq_0_conv [symmetric])
  with Cons slots_range [of bs _ "off + unat b" k] show ?case by fastforce
qed simp

lemma get_scan_eq:
  "\<forall>i \<in> set is. i < length (ht_nodes t) \<Longrightarrow> get_scan t k is = Inr (find (\<lambda>i. key_at t i = k) is)"
  by (induction "is") (auto simp: node_at_def)

lemma insert_scan_eq:
  "\<forall>i \<in> set is. i < length (ht_nodes t) \<Longrightarrow> k \<noteq> 0 \<Longrightarrow>
   insert_scan t k e is = Inr (case find (\<lambda>i. key_at t i = k) is of
     Some i \<Rightarrow> Some i | None \<Rightarrow> case e of Some i \<Rightarrow> Some i | None \<Rightarrow> find (\<lambda>i. key_at t i = 0) is)"
  by (induction "is" arbitrary: e) (auto simp: node_at_def split: option.splits)

lemma ht_okD:
  assumes "ht_ok deep t"
  shows "length (ht_basesize t) = deep" "\<forall>b \<in> set (ht_basesize t). b \<noteq> 0"
    "\<forall>i \<in> set (slots (ht_basesize t) 0 k). i < length (ht_nodes t)"
    "i < length (ht_nodes t) \<Longrightarrow> key_at t i \<noteq> 0 \<Longrightarrow> i \<in> set (slots (ht_basesize t) 0 (key_at t i))"
    "i < length (ht_nodes t) \<Longrightarrow> j < length (ht_nodes t) \<Longrightarrow> key_at t i \<noteq> 0 \<Longrightarrow>
      key_at t i = key_at t j \<Longrightarrow> i = j"
  using assms slots_range [of "ht_basesize t" _ 0 k] by (auto simp: ht_ok_def)

lemma find_SomeD: "find P xs = Some x \<Longrightarrow> x \<in> set xs \<and> P x"
  by (auto simp: find_Some_iff)

lemma find_slot:
  assumes ok: "ht_ok deep t" and k: "k \<noteq> 0"
  shows "find (\<lambda>i. key_at t i = k) (slots (ht_basesize t) 0 k) = Some i \<longleftrightarrow>
    i < length (ht_nodes t) \<and> key_at t i = k" (is "?f = Some i \<longleftrightarrow> ?r i")
proof -
  have found: "?r j" if "?f = Some j" for j
    using find_SomeD [OF that] ht_okD(3) [OF ok, of k] by blast
  moreover have "?f = Some i" if r: "?r i"
  proof -
    have "i \<in> set (slots (ht_basesize t) 0 k)" using ht_okD(4) [OF ok conjunct1 [OF r]] conjunct2 [OF r] k by simp
    with r have "?f \<noteq> None" unfolding find_None_iff by blast
    then obtain j where j: "?f = Some j" by blast
    have "i = j"
      by (rule ht_okD(5) [OF ok conjunct1 [OF r] conjunct1 [OF found [OF j]]])
        (simp_all add: conjunct2 [OF r] conjunct2 [OF found [OF j]] k)
    with j show ?thesis by (simp only:)
  qed
  ultimately show ?thesis by blast
qed

lemma ht_abs_Some:
  assumes "ht_ok deep t"
  shows "ht_abs t k = Some v \<longleftrightarrow>
    k \<noteq> 0 \<and> (\<exists>i < length (ht_nodes t). key_at t i = k \<and> hn_val (ht_nodes t ! i) = v)"
  using find_slot [OF assms, of k] by (auto simp: ht_abs_def)

lemma ht_abs_eqI:
  assumes "ht_ok deep t" "\<And>k v. m k = Some v \<longleftrightarrow>
    k \<noteq> 0 \<and> (\<exists>i < length (ht_nodes t). key_at t i = k \<and> hn_val (ht_nodes t ! i) = v)"
  shows "ht_abs t = m"
proof
  fix k
  show "ht_abs t k = m k" using ht_abs_Some [OF assms(1), of k] assms(2) [of k]
    by (metis option.exhaust)
qed

lemma dom_ht_abs:
  assumes "ht_ok deep t"
  shows "dom (ht_abs t) = hn_key ` set (ht_nodes t) - {0}"
proof -
  have "ht_abs t k \<noteq> None \<longleftrightarrow> k \<noteq> 0 \<and> (\<exists>i < length (ht_nodes t). key_at t i = k)" for k
    using ht_abs_Some [OF assms, of k] by (cases "ht_abs t k") auto
  then show ?thesis by (auto simp: dom_def in_set_conv_nth) (metis imageI nth_mem)+
qed

text \<open>Storing a node at a place of its key where the key or no key was.\<close>

lemma put_node:
  fixes v :: 'v
  assumes ok: "ht_ok deep t" and i: "i < length (ht_nodes t)" "i \<in> set (slots (ht_basesize t) 0 k)" "k \<noteq> 0"
    and at0: "key_at t i = k \<or> key_at t i = 0 \<and> ht_abs t k = None"
  defines "u \<equiv> t\<lparr>ht_nodes := (ht_nodes t)[i := \<lparr>hn_key = k, hn_val = v\<rparr>]\<rparr>"
  shows "ht_ok deep u \<and> ht_abs u = (ht_abs t)(k \<mapsto> v)"
proof -
  have other: "key_at t j \<noteq> k" if "j < length (ht_nodes t)" "j \<noteq> i" for j
    using at0 ht_okD(5) [OF ok, of j i] ht_abs_Some [OF ok, of k] that i by (metis option.distinct(1))
  have len: "length (ht_nodes u) = length (ht_nodes t)" "ht_basesize u = ht_basesize t" by (simp_all add: u_def)
  have at: "ht_nodes u ! j = (if j = i then \<lparr>hn_key = k, hn_val = v\<rparr> else ht_nodes t ! j)" for j
    using i(1) by (simp add: u_def nth_list_update)
  have okU: "ht_ok deep u"
    using ok i other unfolding ht_ok_def len at by (auto split: if_splits)
  moreover have "ht_abs u = (ht_abs t)(k \<mapsto> v)"
  proof (rule ht_abs_eqI [OF okU])
    fix k1 and v1 :: 'v
    let ?in = "\<lambda>t :: 'v hash_table. \<exists>j < length (ht_nodes t). key_at t j = k1 \<and> hn_val (ht_nodes t ! j) = v1"
    have "?in u \<longleftrightarrow> (if k1 = k then v1 = v else ?in t)" if "k1 \<noteq> 0"
    proof (cases "k1 = k")
      case True
      then show ?thesis unfolding len at using i(1) other by auto
    next
      case False
      have "key_at u j = k1 \<longleftrightarrow> key_at t j = k1" "key_at t j = k1 \<Longrightarrow> ht_nodes u ! j = ht_nodes t ! j" for j
        using at [of j] at0 False that by (auto split: if_splits)
      with False show ?thesis by (auto simp: len)
    qed
    then show "((ht_abs t)(k \<mapsto> v)) k1 = Some v1 \<longleftrightarrow> k1 \<noteq> 0 \<and> ?in u"
      using i(3) by (auto simp: ht_abs_Some [OF ok])
  qed
  ultimately show ?thesis ..
qed

lemma clear_node:
  fixes t :: "'v hash_table"
  assumes ok: "ht_ok deep t" and i: "i < length (ht_nodes t)" "key_at t i = k" "k \<noteq> 0"
  defines "u \<equiv> t\<lparr>ht_nodes := (ht_nodes t)[i := (ht_nodes t ! i)\<lparr>hn_key := 0\<rparr>]\<rparr>"
  shows "ht_ok deep u \<and> ht_abs u = (ht_abs t)(k := None)"
proof -
  have other: "key_at t j \<noteq> k" if "j < length (ht_nodes t)" "j \<noteq> i" for j
    using ht_okD(5) [OF ok, of i j] that i by metis
  have len: "length (ht_nodes u) = length (ht_nodes t)" "ht_basesize u = ht_basesize t" by (simp_all add: u_def)
  have at: "ht_nodes u ! j = (if j = i then (ht_nodes t ! i)\<lparr>hn_key := 0\<rparr> else ht_nodes t ! j)" for j
    using i(1) by (simp add: u_def nth_list_update)
  have okU: "ht_ok deep u"
    using ok unfolding ht_ok_def len at by (auto split: if_splits)
  moreover have "ht_abs u = (ht_abs t)(k := None)"
  proof (rule ht_abs_eqI [OF okU])
    fix k1 and v1 :: 'v
    let ?in = "\<lambda>t :: 'v hash_table. \<exists>j < length (ht_nodes t). key_at t j = k1 \<and> hn_val (ht_nodes t ! j) = v1"
    have "?in u \<longleftrightarrow> k1 \<noteq> k \<and> ?in t" if "k1 \<noteq> 0"
    proof (cases "k1 = k")
      case True
      then show ?thesis unfolding len at using i(1) other that by auto
    next
      case False
      have "key_at u j = k1 \<longleftrightarrow> key_at t j = k1" "key_at t j = k1 \<Longrightarrow> ht_nodes u ! j = ht_nodes t ! j" for j
        using at [of j] i(2) False that by (auto split: if_splits)
      with False show ?thesis by (auto simp: len)
    qed
    then show "((ht_abs t)(k := None)) k1 = Some v1 \<longleftrightarrow> k1 \<noteq> 0 \<and> ?in u"
      by (auto simp: ht_abs_Some [OF ok])
  qed
  ultimately show ?thesis ..
qed

text \<open>A table that refuses a key holds other keys at all the places of the key.\<close>

lemma refused_full:
  assumes ok: "ht_ok deep t" and full: "\<forall>i \<in> set (slots (ht_basesize t) 0 k). key_at t i \<noteq> 0"
  shows "deep \<le> card (dom (ht_abs t))"
proof -
  let ?S = "set (slots (ht_basesize t) 0 k)"
  have "inj_on (key_at t) ?S"
    using ht_okD(3) [OF ok, of k] ht_okD(5) [OF ok] full by (intro inj_onI) blast
  then have "card (key_at t ` ?S) = card ?S" by (rule card_image)
  also have "card ?S = deep"
    using slots_distinct [OF ht_okD(2) [OF ok]] ht_okD(1) [OF ok] by (simp add: distinct_card)
  finally have "card (key_at t ` ?S) = deep" .
  moreover have "key_at t ` ?S \<subseteq> dom (ht_abs t)"
    using full ht_okD(3) [OF ok, of k] ht_abs_Some [OF ok] by (fastforce simp: dom_def)
  moreover have "finite (dom (ht_abs t))"
  proof (rule finite_subset)
    show "dom (ht_abs t) \<subseteq> key_at t ` {..<length (ht_nodes t)}"
      using ht_abs_Some [OF ok] by (fastforce simp: dom_def)
  qed simp
  ultimately show ?thesis using card_mono by blast
qed

lemma get_place:
  "ht_ok deep t \<Longrightarrow>
   CHashTable_get k t = Inr (find (\<lambda>i. key_at t i = k) (slots (ht_basesize t) 0 k))"
  unfolding CHashTable_get_def by (rule get_scan_eq [OF ht_okD(3)])

text \<open>An insertion overwrites the node of the key, else takes a free one, else is refused by a full table.\<close>

lemma insert_place:
  assumes ok: "ht_ok deep t" and k: "k \<noteq> 0"
  obtains (place) i where "i < length (ht_nodes t)" "i \<in> set (slots (ht_basesize t) 0 k)"
      "key_at t i = k \<or> key_at t i = 0 \<and> ht_abs t k = None"
      "CHashTable_insert k v t =
        Inr (Some i, t\<lparr>ht_nodes := (ht_nodes t)[i := \<lparr>hn_key = k, hn_val = v\<rparr>]\<rparr>)"
  | (full) "deep \<le> card (dom (ht_abs t))" "ht_abs t k = None" "CHashTable_insert k v t = Inr (None, t)"
proof -
  let ?f = "find (\<lambda>i. key_at t i = k) (slots (ht_basesize t) 0 k)"
    and ?e = "find (\<lambda>i. key_at t i = 0) (slots (ht_basesize t) 0 k)"
  note scan = insert_scan_eq [OF ht_okD(3) [OF ok] k, where e = None]
  show ?thesis
  proof (cases ?f)
    case (Some i)
    with find_slot [OF ok k, of i] have i: "i < length (ht_nodes t)" "key_at t i = k" by blast+
    with ht_okD(4) [OF ok i(1)] k have "i \<in> set (slots (ht_basesize t) 0 k)" by simp
    with place [of i] i Some scan show ?thesis by (simp add: CHashTable_insert_def)
  next
    case none: None
    then have abs: "ht_abs t k = None" by (simp add: ht_abs_def)
    show ?thesis
    proof (cases ?e)
      case (Some i)
      then have i: "i \<in> set (slots (ht_basesize t) 0 k)" "key_at t i = 0" by (auto dest: find_SomeD)
      with ht_okD(3) [OF ok, of k] have "i < length (ht_nodes t)" by blast
      with place [of i] i abs none Some scan show ?thesis by (simp add: CHashTable_insert_def)
    next
      case None
      then have "\<forall>i \<in> set (slots (ht_basesize t) 0 k). key_at t i \<noteq> 0" by (auto simp: find_None_iff)
      from full [OF refused_full [OF ok this] abs] none None scan show ?thesis
        by (simp add: CHashTable_insert_def)
    qed
  qed
qed

lemma ht_step_law:
  assumes ok: "ht_ok deep t" and key: "op_key p \<noteq> 0"
  shows "\<exists>a u. ht_step p t = Inr (a, u) \<and> ht_ok deep u \<and> map_allows deep (ht_abs t) p a \<and>
    ht_abs u = map_next (ht_abs t) p a"
proof (cases p)
  case (Get k)
  with key ok get_place [OF ok, of k] show ?thesis by (simp add: ht_abs_def)
next
  case (Del k)
  note scan = get_place [OF ok, of k]
  have k: "k \<noteq> 0" using key Del by simp
  show ?thesis
  proof (cases "find (\<lambda>i. key_at t i = k) (slots (ht_basesize t) 0 k)")
    case None
    then have "ht_abs t k = None" by (simp add: ht_abs_def)
    with None scan Del ok show ?thesis by (auto simp: CHashTable_del_def fun_upd_idem)
  next
    case (Some i)
    with find_slot [OF ok k, of i] have "i < length (ht_nodes t)" "key_at t i = k" by blast+
    from clear_node [OF ok this k] Some scan Del k show ?thesis
      by (simp add: CHashTable_del_def ht_abs_def)
  qed
next
  case (Insert k v)
  with key have k: "k \<noteq> 0" by simp
  show ?thesis
  proof (cases rule: insert_place [OF ok k, where v = v])
    case place: (1 i)
    from put_node [OF ok place(1,2) k place(3)] place(4) Insert show ?thesis by simp
  next
    case full: 2
    with ok Insert show ?thesis by simp
  qed
qed

interpretation hash_table: bounded_store ht_step ht_abs "ht_ok deep" "\<lambda>k. k \<noteq> 0" deep for deep
  by unfold_locales (rule ht_step_law)

end
