(* ===== verification/Stg_Shared.thy ===== *)
theory Stg_Shared
  imports Hash_Table Murmur Json_Value
begin

text \<open>
  \<^verbatim>\<open>strategy/StrategyShared\<close> and \<^verbatim>\<open>include/strategy_shared_comm.h\<close>: the record through which a strategy
  process is controlled. It is private to the process, or a node of the host's table in shared memory, which
  the process then follows with a pointer for as long as it runs.
\<close>

section \<open>The record and the process\<close>

record stg_node =
  sn_name :: string
  sn_start_time :: u32
  sn_is_exit :: u32
  sn_do_trade :: u32
  sn_userdata :: "64 word"

abbreviation zero_stg_node :: stg_node where
  "zero_stg_node \<equiv> \<lparr>sn_name = [], sn_start_time = 0, sn_is_exit = 0, sn_do_trade = 0, sn_userdata = 0\<rparr>"

definition SHARED_STG_NAME_MAX_SIZE :: nat where
  "SHARED_STG_NAME_MAX_SIZE = 128"

text \<open>
  \<^verbatim>\<open>strncpy\<close> copies up to the first NUL, and the last byte of the field is set to NUL afterwards. The key is
  the hash of the first 127 bytes, a NUL among them included.
\<close>

definition c_name :: "string \<Rightarrow> string" where
  "c_name s = take (SHARED_STG_NAME_MAX_SIZE - 1) (takeWhile (\<lambda>c. c \<noteq> CHR 0x00) s)"

definition tStrategyNode_setName :: "string \<Rightarrow> stg_node \<Rightarrow> stg_node" where
  "tStrategyNode_setName p n = n\<lparr>sn_name := c_name p\<rparr>"

definition SHARED_STG_STR_TO_KEY :: "string \<Rightarrow> u32" where
  "SHARED_STG_STR_TO_KEY s =
     MurmurHash2 (bytes_of (take (if length s < SHARED_STG_NAME_MAX_SIZE then length s
                                  else SHARED_STG_NAME_MAX_SIZE - 1) s)) 0x2017"

definition SHARED_STG_INIT_TABLE ::
    "stg_node shm \<Rightarrow> bool \<Rightarrow> stg_node hash_table \<Rightarrow> (bool \<times> stg_node hash_table) option" where
  "SHARED_STG_INIT_TABLE shm attach t = CHashTable_init zero_stg_node shm attach 2000 5 0x20171020 t"

text \<open>What \<^verbatim>\<open>s_p_node\<close> points at: the private record or a node of the table.\<close>

datatype node_place = OwnNode | TableNode nat

record strategy_shared =
  ss_p_node :: "node_place ptr"
  ss_name :: string
  ss_config :: string
  ss_use_shm :: bool
  ss_table :: "stg_node hash_table"
  ss_stg_node :: stg_node
  ss_is_init :: bool

section \<open>Operations\<close>

definition setStrategyConfig :: "json \<Rightarrow> string \<Rightarrow> strategy_shared \<Rightarrow> strategy_shared res" where
  "setStrategyConfig j_conf content s =
     (case json_find j_conf ''use_shm_controller'' of
        None \<Rightarrow> Inr (s\<lparr>ss_config := content\<rparr>)
      | Some v \<Rightarrow> (case json_get_bool v of
          None \<Rightarrow> Inl Uncaught
        | Some b \<Rightarrow> Inr (s\<lparr>ss_use_shm := b \<or> ss_use_shm s, ss_config := content\<rparr>)))"

definition new_stg_node :: "u32 \<Rightarrow> string \<Rightarrow> stg_node" where
  "new_stg_node now name =
     \<lparr>sn_name = c_name name, sn_start_time = now, sn_is_exit = 0, sn_do_trade = 1, sn_userdata = 0\<rparr>"

definition registerStg :: "u32 \<Rightarrow> string \<Rightarrow> strategy_shared \<Rightarrow> (bool \<times> strategy_shared) res" where
  "registerStg now name s =
     res_bind (CHashTable_insert (SHARED_STG_STR_TO_KEY name) (new_stg_node now name) (ss_table s))
       (\<lambda>(p, t). Inr (p \<noteq> None, s\<lparr>ss_table := t\<rparr>))"

definition delStg :: "string \<Rightarrow> strategy_shared \<Rightarrow> (bool \<times> strategy_shared) res" where
  "delStg name s =
     (if ss_use_shm s
      then res_bind (CHashTable_del (SHARED_STG_STR_TO_KEY name) (ss_table s))
        (\<lambda>(ok, t). Inr (ok, s\<lparr>ss_table := t\<rparr>))
      else Inr (True, s))"

definition update_p_node :: "(stg_node \<Rightarrow> stg_node) \<Rightarrow> strategy_shared \<Rightarrow> strategy_shared res" where
  "update_p_node f s =
     (case ss_p_node s of
        NullPtr \<Rightarrow> Inl NullDeref
      | DanglingPtr \<Rightarrow> Inl DanglingDeref
      | PtrTo OwnNode \<Rightarrow> Inr (s\<lparr>ss_stg_node := f (ss_stg_node s)\<rparr>)
      | PtrTo (TableNode i) \<Rightarrow>
          res_bind (node_at (ss_table s) i) (\<lambda>n.
            Inr (s\<lparr>ss_table := (ss_table s)
              \<lparr>ht_nodes := (ht_nodes (ss_table s))[i := n\<lparr>hn_val := f (hn_val n)\<rparr>]\<rparr>\<rparr>)))"

definition start_node :: "stg_node \<Rightarrow> stg_node" where
  "start_node n = n\<lparr>sn_is_exit := 0, sn_do_trade := 1, sn_userdata := 0\<rparr>"

text \<open>\<^verbatim>\<open>p->val\<close> of a null \<^verbatim>\<open>p\<close> is the fault of the branch where \<^verbatim>\<open>get\<close> finds nothing.\<close>

definition initStrategyShared ::
    "stg_node shm \<Rightarrow> bool \<Rightarrow> u32 \<Rightarrow> string \<Rightarrow> strategy_shared \<Rightarrow> (bool \<times> strategy_shared) res" where
  "initStrategyShared shm attach now name s =
     (if ss_is_init s then Inr (True, s)
      else let s1 = s\<lparr>ss_name := name, ss_p_node := PtrTo OwnNode\<rparr>;
               finish = (\<lambda>s. res_bind (update_p_node start_node s) (\<lambda>s. Inr (True, s\<lparr>ss_is_init := True\<rparr>)))
           in if \<not> ss_use_shm s1 then finish s1
              else case SHARED_STG_INIT_TABLE shm attach (ss_table s1) of
                None \<Rightarrow> Inl OutOfFuel
              | Some (ok, t) \<Rightarrow>
                  (let s2 = s1\<lparr>ss_table := t\<rparr>
                   in if \<not> ok then Inr (False, s2)
                      else res_bind (registerStg now name s2) (\<lambda>(ok, s3).
                        if \<not> ok then Inr (False, s3)
                        else res_bind (CHashTable_get (SHARED_STG_STR_TO_KEY name) (ss_table s3)) (\<lambda>p.
                          case p of
                            None \<Rightarrow> Inl NullDeref
                          | Some i \<Rightarrow> finish (s3\<lparr>ss_p_node := PtrTo (TableNode i)\<rparr>)))))"

definition getSharedData :: "strategy_shared \<Rightarrow> node_place ptr" where
  "getSharedData s = ss_p_node s"

definition getStrategyName :: "strategy_shared \<Rightarrow> string" where
  "getStrategyName s = ss_name s"

definition getStrategyConfig :: "strategy_shared \<Rightarrow> string" where
  "getStrategyConfig s = ss_config s"

section \<open>The table of the host\<close>

definition shared_bases :: "u32 list" where
  "shared_bases = [2003, 2011, 2017, 2027, 2029]"

lemma shared_sizes: "CHashTable_calcSize 2000 5 = Some (shared_bases, 10087)"
  by code_simp

end
