(* ===== verification/Host_Properties.thy ===== *)
theory Host_Properties
  imports Stg_Shared
begin

text \<open>What holds for the table that controls the strategy processes of a host.\<close>

section \<open>Fresh tables\<close>

lemma unat_sum_list:
  "sum_list (map unat bs) < 2 ^ 32 \<Longrightarrow> unat (sum_list (bs :: u32 list)) = sum_list (map unat bs)"
proof (induction bs)
  case (Cons b bs)
  then have "unat b + unat (sum_list bs) < 2 ^ 32" by simp
  with Cons show ?case by (simp add: unat_word_ariths)
qed simp

lemma ht_ok_zero:
  assumes "length bs = deep" "\<forall>b \<in> set bs. b \<noteq> 0" "sum_list (map unat bs) < 2 ^ 32"
    and "ht_basesize t = bs" "ht_nodes t = zero_nodes z (sum_list bs)"
  shows "ht_ok deep t" "ht_abs t = Map.empty"
proof -
  show ok: "ht_ok deep t"
    using assms by (simp add: ht_ok_def zero_nodes_def unat_sum_list)
  show "ht_abs t = Map.empty"
    by (rule ht_abs_eqI [OF ok]) (use assms(5) in \<open>auto simp: zero_nodes_def\<close>)
qed

lemma init_fresh:
  assumes "CHashTable_init z shm attach base deep shmkey t0 = Some (True, t)"
    and "shmkey = 0 \<or> shm = ShmCreated" "sum_list (map unat (ht_basesize t)) < 2 ^ 32"
  shows "ht_ok deep t \<and> ht_abs t = Map.empty"
proof -
  obtain ps where ps: "CHashTable_calcSize base deep = Some (ps, sum_list ps)" "length ps = deep"
    "\<forall>p \<in> set ps. odd (unat p)"
    using calcSize_total by blast
  have nz: "\<forall>b \<in> set ps. b \<noteq> 0" using ps(3) by fastforce
  have t: "ht_basesize t = ps" "ht_nodes t = zero_nodes z (sum_list ps)"
    using assms(1,2) ps(1) by (auto simp: CHashTable_init_def Let_def split: if_splits)
  show ?thesis using ht_ok_zero [OF ps(2) nz _ t] assms(3) t(1) by simp
qed

section \<open>The table\<close>

text \<open>
  C31. A fresh table is a map with limited room. Whatever sequence of \<^verbatim>\<open>get\<close>, \<^verbatim>\<open>insert\<close> and \<^verbatim>\<open>del\<close> of keys
  other than the marker 0 is run on it, no node outside the memory of the table is touched, \<^verbatim>\<open>get\<close> returns the
  value stored last and not deleted since, \<^verbatim>\<open>del\<close> says whether there was one, and \<^verbatim>\<open>insert\<close> refuses a key only
  if it is not stored and at least as many others are as the table has levels. The premise on the sizes says
  that their sum does not wrap.
\<close>

theorem strategy_table_is_map:
  assumes "CHashTable_init z shm attach base deep shmkey t0 = Some (True, t)"
    and "shmkey = 0 \<or> shm = ShmCreated" "sum_list (map unat (ht_basesize t)) < 2 ^ 32"
    and "\<forall>p \<in> set ps. op_key p \<noteq> 0"
  shows "\<exists>as t1. store_run ht_step ps t = Inr (as, t1) \<and> map fst as = ps \<and>
    map_follows deep Map.empty as"
proof -
  from init_fresh [OF assms(1-3)] have "ht_ok deep t" "ht_abs t = Map.empty" by simp_all
  with hash_table.run_follows [OF this(1) assms(4)] show ?thesis by auto
qed

definition small_table :: "nat hash_table" where
  "small_table = \<lparr>ht_basesize = [3, 5], ht_nodes = zero_nodes 0 8, ht_curpos = 0, ht_totcnt = 8, ht_shmkey = 0\<rparr>"

lemma small_init:
  "CHashTable_init (0 :: nat) ShmRefused False 2 2 0
     \<lparr>ht_basesize = [], ht_nodes = [], ht_curpos = 0, ht_totcnt = 0, ht_shmkey = 0\<rparr> = Some (True, small_table)"
  by code_simp

theorem strategy_table_is_map_witness:
  "\<exists>as t1. store_run ht_step [Insert 1 7, Insert 16 8, Insert 31 9, Get 16, Del 1, Insert 31 9] small_table =
     Inr (as, t1) \<and> length as = 6 \<and> map_follows 2 Map.empty as"
  using strategy_table_is_map [OF small_init, of "[Insert 1 7, Insert 16 8, Insert 31 9, Get 16, Del 1, Insert 31 9]"]
  by (fastforce simp: small_table_def dest: arg_cong [of _ _ length])

text \<open>The third key of the example is refused, and accepted after the first was deleted.\<close>

lemma small_table_answers:
  "map_option (map snd) (case store_run ht_step
      [Insert 1 7, Insert 16 8, Insert 31 9, Get 16, Del 1, Insert 31 9] small_table of
     Inl _ \<Rightarrow> None | Inr (as, _) \<Rightarrow> Some as) =
   Some [Stored True, Stored True, Stored False, Got (Some 8), Deleted True, Stored True]"
  by code_simp

lemma calcSize_from_1:
  assumes "base \<le> 1" "0 < deep" "CHashTable_calcSize base deep = Some (ps, k)"
  shows "hd ps = 1"
proof -
  have "unat base = 0 \<or> unat base = unat (1 :: u32)" using assms(1) by (auto simp: word_le_nat_alt)
  then have "base = 0 \<or> base = 1" by (simp only: word_unat_eq_iff unat_0)
  then have "(if base mod 2 = 0 then base + 1 else base) = 1" by auto
  moreover have "next_prime 1 = Some 1" by (simp add: next_prime.simps [of 1] isPrime_1)
  ultimately show ?thesis using assms(2,3)
    by (cases deep) (auto simp: CHashTable_calcSize_def)
qed

text \<open>
  C38. The search for the sizes of the levels always ends, although its arithmetic is that of 32 bits and may
  wrap: every base and depth gives as many sizes as levels, all odd, and every size below 65535 squared is 1 or
  prime, having no divisor but 1 and itself. From a base of at least 2, a size that is not below the base (the
  search did not wrap) is not 1; from a base of 0 or 1 the first size is 1, which \<^verbatim>\<open>isPrime\<close> accepts.
\<close>

theorem table_sizes_are_prime:
  "\<exists>ps. CHashTable_calcSize base deep = Some (ps, sum_list ps) \<and> length ps = deep \<and>
     (\<forall>p \<in> set ps. odd (unat p) \<and>
        (unat p < 65535 * 65535 \<longrightarrow> (\<forall>d. d dvd unat p \<longrightarrow> d = 1 \<or> d = unat p)) \<and>
        (2 \<le> base \<and> base \<le> p \<longrightarrow> 1 < unat p)) \<and>
     (base \<le> 1 \<and> 0 < deep \<longrightarrow> hd ps = 1)"
proof -
  obtain ps where ps: "CHashTable_calcSize base deep = Some (ps, sum_list ps)" "length ps = deep"
    "\<forall>p \<in> set ps. odd (unat p)"
    using calcSize_total by blast
  have "d = 1 \<or> d = unat p" if p: "p \<in> set ps" "unat p < 65535 * 65535" "d dvd unat p" for p d
  proof -
    have "CHashTable_isPrime p = Some True"
      using ps(1) p(1) by (auto simp: CHashTable_calcSize_def dest: calc_bases_ok split: if_splits)
    with isPrime_ok [of p] ps(3) p(1,2) have "\<not> (1 < d \<and> d < unat p)" using p(3) by blast
    moreover have "odd (unat p)" using ps(3) p(1) by blast
    then have "unat p \<noteq> 0" by (metis even_zero)
    moreover from this p(3) have "d \<le> unat p" "d \<noteq> 0" by (auto intro: dvd_imp_le)
    ultimately show ?thesis by linarith
  qed
  moreover have "1 < unat p" if "2 \<le> base" "base \<le> p" for p
    using that by (simp add: word_le_nat_alt)
  moreover have "hd ps = 1" if "base \<le> 1" "0 < deep" using calcSize_from_1 [OF that ps(1)] .
  ultimately show ?thesis using ps by blast
qed

theorem table_sizes_are_prime_witness:
  "{d. d dvd (2017 :: nat)} = {1, 2017} \<and> CHashTable_calcSize 2000 5 = Some (shared_bases, 10087)"
proof -
  have "\<forall>d. d dvd unat (2017 :: u32) \<longrightarrow> d = 1 \<or> d = unat (2017 :: u32)"
    using table_sizes_are_prime [of 2000 5] shared_sizes by (auto simp: shared_bases_def)
  then show ?thesis by (auto simp: shared_sizes)
qed

section \<open>Strategies that use it\<close>

definition shared_table :: "stg_node ht_node list \<Rightarrow> stg_node hash_table \<Rightarrow> stg_node hash_table" where
  "shared_table ns t = t\<lparr>ht_basesize := shared_bases, ht_totcnt := 10087, ht_nodes := ns, ht_shmkey := 0x20171020\<rparr>"

lemma attach_table: "SHARED_STG_INIT_TABLE (ShmExisting ns) True t = Some (True, shared_table ns t)"
  by (simp add: SHARED_STG_INIT_TABLE_def CHashTable_init_def shared_sizes shared_table_def Let_def)

lemma start_new_node: "start_node (new_stg_node now name) = new_stg_node now name"
  by (simp add: start_node_def new_stg_node_def)

text \<open>
  C32. A strategy process that attaches to the table of its host either gets a node for itself, which its
  pointer refers to from then on, or is refused because at least five other strategies are stored, and then
  the table is left as it was. The node is that of the same key if there is one, so that a second process of
  a running strategy shares its record and resets the commands in it; otherwise it was free. No other node
  changes.
\<close>

theorem strategy_takes_its_node:
  assumes "\<not> ss_is_init s" "ss_use_shm s" "SHARED_STG_STR_TO_KEY name \<noteq> 0"
    and "ht_ok 5 (shared_table ns (ss_table s))"
  shows "(\<exists>i s1. initStrategyShared (ShmExisting ns) True now name s = Inr (True, s1) \<and>
       i < length ns \<and> getSharedData s1 = PtrTo (TableNode i) \<and>
       (hn_key (ns ! i) = SHARED_STG_STR_TO_KEY name \<or>
        hn_key (ns ! i) = 0 \<and> SHARED_STG_STR_TO_KEY name \<notin> hn_key ` set ns) \<and>
       ht_nodes (ss_table s1) = ns[i := \<lparr>hn_key = SHARED_STG_STR_TO_KEY name,
         hn_val = \<lparr>sn_name = c_name name, sn_start_time = now, sn_is_exit = 0, sn_do_trade = 1,
           sn_userdata = 0\<rparr>\<rparr>]) \<or>
     (\<exists>s1. initStrategyShared (ShmExisting ns) True now name s = Inr (False, s1) \<and>
       5 \<le> card (hn_key ` set ns - {0, SHARED_STG_STR_TO_KEY name}) \<and> ht_nodes (ss_table s1) = ns)"
proof -
  let ?k = "SHARED_STG_STR_TO_KEY name" and ?t = "shared_table ns (ss_table s)"
  note ok = assms(4) and k = assms(3)
  have nodes: "ht_nodes ?t = ns" by (simp add: shared_table_def)
  have dom: "dom (ht_abs ?t) = hn_key ` set ns - {0}"
    using dom_ht_abs [OF ok] by (simp only: nodes)
  show ?thesis
  proof (cases rule: insert_place [OF ok k, where v = "new_stg_node now name"])
    case place: (1 i)
    let ?u = "?t\<lparr>ht_nodes := (ht_nodes ?t)[i := \<lparr>hn_key = ?k, hn_val = new_stg_node now name\<rparr>]\<rparr>"
    have okU: "ht_ok 5 ?u" using put_node [OF ok place(1,2) k place(3)] by blast
    have get: "CHashTable_get ?k ?u = Inr (Some i)"
      using find_slot [OF okU k, of i] place(1) by (simp add: get_place [OF okU])
    from assms(1,2) place(1) have "initStrategyShared (ShmExisting ns) True now name s =
      Inr (True, s\<lparr>ss_name := name, ss_p_node := PtrTo (TableNode i), ss_table := ?u, ss_is_init := True\<rparr>)"
      by (simp add: initStrategyShared_def attach_table registerStg_def place(4) get update_p_node_def
        node_at_def start_new_node Let_def)
    moreover have "hn_key (ns ! i) = ?k \<or> hn_key (ns ! i) = 0 \<and> ?k \<notin> hn_key ` set ns"
    proof -
      have "?k \<notin> hn_key ` set ns" if "ht_abs ?t ?k = None"
        using dom that k by (metis DiffI domIff singletonD)
      with place(3) show ?thesis by (auto simp: nodes)
    qed
    ultimately show ?thesis using place(1) by (simp add: nodes getSharedData_def new_stg_node_def)
  next
    case full: 2
    then have "5 \<le> card (hn_key ` set ns - {0, ?k})"
      unfolding dom by (metis Diff_insert2 Diff_insert0 dom domIff)
    with full(3) assms(1,2) show ?thesis
      by (simp add: initStrategyShared_def attach_table registerStg_def Let_def nodes)
  qed
qed

definition fresh_process :: strategy_shared where
  "fresh_process = \<lparr>ss_p_node = NullPtr, ss_name = [], ss_config = [], ss_use_shm = True,
     ss_table = \<lparr>ht_basesize = [], ht_nodes = [], ht_curpos = 0, ht_totcnt = 0, ht_shmkey = 0\<rparr>,
     ss_stg_node = zero_stg_node, ss_is_init = False\<rparr>"

lemma fresh_table_ok: "ht_ok 5 (shared_table (zero_nodes zero_stg_node 10087) t)"
  by (rule ht_ok_zero(1) [where bs = shared_bases]) (simp_all add: shared_table_def shared_bases_def)

lemma key_S1: "SHARED_STG_STR_TO_KEY ''S1'' \<noteq> 0"
  by code_simp

theorem strategy_takes_its_node_witness:
  "\<exists>i s1. initStrategyShared (ShmExisting (zero_nodes zero_stg_node 10087)) True 5 ''S1'' fresh_process =
     Inr (True, s1) \<and> i < 10087 \<and> getSharedData s1 = PtrTo (TableNode i)"
proof -
  have "card (hn_key ` set (zero_nodes zero_stg_node 10087) - {0, SHARED_STG_STR_TO_KEY ''S1''}) = 0"
    by (simp add: zero_nodes_def)
  with strategy_takes_its_node [OF _ _ key_S1 fresh_table_ok, of fresh_process 5] show ?thesis
    by (auto simp: fresh_process_def zero_nodes_def)
qed

end
