(* ===== verification/Md_Engine.thy ===== *)
theory Md_Engine
  imports Md_Helper Io_Channel Json_Value
begin

text \<open>
  \<^verbatim>\<open>md/IMDEngine\<close>, the process that gets the ticks of a front and writes them to a channel for all its clients,
  and its derived classes for the CTP and EES interfaces. The engine counts for every instrument the clients
  that subscribed it, and subscribes it at the front once. The vendor's interface records what it was asked
  for; its callbacks are operations here.
\<close>

section \<open>Messages\<close>

text \<open>
  Requests on the system channel (a list of names is \<^const>\<open>None\<close> where the text does not parse as one), and
  what the engine answers there: destination, source and the word sent back.
\<close>

datatype md_command =
    HeatBeat
  | QuerySubsInstr
  | SubsInstr "string list option"
  | UnsubsInstr "string list option"
  | MdReqBaseInfo
  | MdOtherCommand

record md_request =
  mq_to :: int
  mq_source :: int
  mq_back_word :: int
  mq_cmd :: md_command

datatype md_answer =
    HeatBeatAck int int int
  | RspQuerySubsInstr int int int "string list"
  | MdAck int int int
  | MdRspBaseInfo "sys_io_head \<times> td_base_info"

text \<open>A frame of the engine's channel: a tick, the start signal or a table of instruments.\<close>

record md_frame =
  mf_cmd :: int
  mf_market_data :: market_data
  mf_base_info :: td_base_info

definition IO_MARKET_DATA :: int where "IO_MARKET_DATA = 1"
definition IO_MD_START :: int where "IO_MD_START = 18"

definition zero_md_frame :: md_frame where
  "zero_md_frame =
     \<lparr>mf_cmd = 0, mf_market_data = market_data_init,
      mf_base_info = \<lparr>bi_trading_day = [], bi_instr_cnt = 0, bi_instr = []\<rparr>\<rparr>"

text \<open>\<^verbatim>\<open>sizeof(tIOMarketData)\<close>: the command and the tick with its padding.\<close>

definition MARKET_DATA_SIZE :: int where "MARKET_DATA_SIZE = 212"

section \<open>State\<close>

datatype day_night = MODE_DAY | MODE_NIGHT

record md_engine =
  me_do_running :: bool
  me_day_night_mode :: day_night
  me_subs_instr :: "(string, int) umap"
  me_name :: string
  me_self_id :: int
  me_md_writer :: "md_frame io_writer"
  me_base :: trade_base
  me_sys_out :: "md_answer list"

definition IMDEngine_new :: "int \<Rightarrow> int \<Rightarrow> trade_base \<Rightarrow> md_frame io_files \<Rightarrow> md_engine" where
  "IMDEngine_new day_begin now b files =
     \<lparr>me_do_running = True,
      me_day_night_mode =
        (if day_begin + 6 * 3600 \<le> now \<and> now \<le> day_begin + 18 * 3600 then MODE_DAY else MODE_NIGHT),
      me_subs_instr = [], me_name = [], me_self_id = 0,
      me_md_writer = CRawIOWriter_new (128 * 1024 * 1024) True files, me_base = b, me_sys_out = []\<rparr>"

section \<open>Counting subscriptions\<close>

fun count_subs :: "string list \<Rightarrow> (string, int) umap \<Rightarrow> string list \<Rightarrow> string list \<times> (string, int) umap" where
  "count_subs [] m real_subs = (real_subs, m)"
| "count_subs (i # ls) m real_subs =
     (case map_of m i of
        None \<Rightarrow> count_subs ls (AList.update i 1 m) (real_subs @ [i])
      | Some n \<Rightarrow> count_subs ls (AList.update i (n + 1) m) real_subs)"

fun count_unsubs :: "string list \<Rightarrow> (string, int) umap \<Rightarrow> string list \<Rightarrow> string list \<times> (string, int) umap" where
  "count_unsubs [] m real_unsubs = (real_unsubs, m)"
| "count_unsubs (i # ls) m real_unsubs =
     (case map_of m i of
        None \<Rightarrow> count_unsubs ls m real_unsubs
      | Some n \<Rightarrow>
          if n - 1 \<le> 0 then count_unsubs ls (AList.delete i m) (real_unsubs @ [i])
          else count_unsubs ls (AList.update i (n - 1) m) real_unsubs)"

definition IMDEngine_engine_subscribe ::
    "(string list \<Rightarrow> 'a md_engine_scheme \<Rightarrow> 'a md_engine_scheme res) \<Rightarrow> string list \<Rightarrow> 'a md_engine_scheme \<Rightarrow>
     'a md_engine_scheme res" where
  "IMDEngine_engine_subscribe subscribe instr s =
     (case count_subs (instr_set_list instr (tb_instr_info (me_base s))) (me_subs_instr s) [] of
        (real_subs, m) \<Rightarrow> subscribe real_subs (s\<lparr>me_subs_instr := m\<rparr>))"

definition IMDEngine_engine_unsubscribe ::
    "(string list \<Rightarrow> 'a md_engine_scheme \<Rightarrow> 'a md_engine_scheme res) \<Rightarrow> string list \<Rightarrow> 'a md_engine_scheme \<Rightarrow>
     'a md_engine_scheme res" where
  "IMDEngine_engine_unsubscribe unsubscribe instr s =
     (case count_unsubs (instr_set_list instr (tb_instr_info (me_base s))) (me_subs_instr s) [] of
        (real_unsubs, m) \<Rightarrow> unsubscribe real_unsubs (s\<lparr>me_subs_instr := m\<rparr>))"

text \<open>A \<^verbatim>\<open>std::map\<close> is visited in the order of its keys.\<close>

definition IMDEngine_querySubscribedInstrument :: "'a md_engine_scheme \<Rightarrow> string list" where
  "IMDEngine_querySubscribedInstrument s = sort (map fst (me_subs_instr s))"

section \<open>The event loop\<close>

text \<open>The virtual operations of the derived class.\<close>

record 's md_virtuals =
  mv_subscribe :: "string list \<Rightarrow> 's \<Rightarrow> 's res"
  mv_unsubscribe :: "string list \<Rightarrow> 's \<Rightarrow> 's res"
  mv_release :: "'s \<Rightarrow> 's"

definition md_answer_with :: "md_answer \<Rightarrow> 'a md_engine_scheme \<Rightarrow> 'a md_engine_scheme" where
  "md_answer_with a s = s\<lparr>me_sys_out := me_sys_out s @ [a]\<rparr>"

definition md_dispatch ::
    "'a md_engine_scheme md_virtuals \<Rightarrow> md_request \<Rightarrow> 'a md_engine_scheme \<Rightarrow> 'a md_engine_scheme res" where
  "md_dispatch f p s =
     (if mq_to p \<noteq> me_self_id s then Inr s
      else
        (let ack = (\<lambda>s. Inr (md_answer_with (MdAck (mq_source p) (me_self_id s) (mq_back_word p)) s)) in
         case mq_cmd p of
           HeatBeat \<Rightarrow> Inr (md_answer_with (HeatBeatAck (mq_source p) (me_self_id s) (mq_back_word p)) s)
         | QuerySubsInstr \<Rightarrow>
             Inr (md_answer_with (RspQuerySubsInstr (mq_source p) (me_self_id s) (mq_back_word p)
               (IMDEngine_querySubscribedInstrument s)) s)
         | SubsInstr None \<Rightarrow> Inr s
         | SubsInstr (Some subs) \<Rightarrow> res_bind (IMDEngine_engine_subscribe (mv_subscribe f) subs s) ack
         | UnsubsInstr None \<Rightarrow> Inr s
         | UnsubsInstr (Some unsubs) \<Rightarrow> res_bind (IMDEngine_engine_unsubscribe (mv_unsubscribe f) unsubs s) ack
         | MdReqBaseInfo \<Rightarrow>
             Inr (md_answer_with (MdRspBaseInfo
               (CTradeBaseInfo_toSysIOStruct (mq_source p) (me_self_id s) (mq_back_word p) (me_base s))) s)
         | MdOtherCommand \<Rightarrow> Inr s))"

definition IMDEngine_stop :: "'a md_engine_scheme \<Rightarrow> 'a md_engine_scheme" where
  "IMDEngine_stop s = s\<lparr>me_do_running := False\<rparr>"

text \<open>The input of a round: a request, or none, or the signal that stops the engine.\<close>

datatype md_round_in = MdIdle | MdRequest md_request | MdStopSignal

definition md_round ::
    "'a md_engine_scheme md_virtuals \<Rightarrow> md_round_in \<Rightarrow> 'a md_engine_scheme \<Rightarrow> 'a md_engine_scheme res" where
  "md_round f i s =
     (case i of
        MdIdle \<Rightarrow> Inr s
      | MdRequest p \<Rightarrow> md_dispatch f p s
      | MdStopSignal \<Rightarrow> Inr (IMDEngine_stop s))"

fun md_loop ::
    "'a md_engine_scheme md_virtuals \<Rightarrow> md_round_in list \<Rightarrow> 'a md_engine_scheme \<Rightarrow>
     (bool \<times> 'a md_engine_scheme) res" where
  "md_loop f [] s = Inr (if me_do_running s then (False, s) else (True, mv_release f s))"
| "md_loop f (i # is) s =
     (if \<not> me_do_running s then Inr (True, mv_release f s)
      else res_bind (md_round f i s) (md_loop f is))"

definition IMDEngine_writeStartSignal ::
    "io_env \<Rightarrow> int \<Rightarrow> 'a md_engine_scheme \<Rightarrow> 'a md_engine_scheme res" where
  "IMDEngine_writeStartSignal env nano s =
     res_bind (CSafeRawIOWriter_write 2 env (zero_md_frame\<lparr>mf_cmd := IO_MD_START\<rparr>) 4 nano (me_md_writer s))
       (\<lambda>(_, w). Inr (s\<lparr>me_md_writer := w\<rparr>))"

text \<open>\<open>preset\<close> is the list in the configuration, if there is one; the result says whether the loop has ended.\<close>

definition IMDEngine_runEngine ::
    "('a md_engine_scheme \<Rightarrow> (bool \<times> 'a md_engine_scheme) res) \<Rightarrow> 'a md_engine_scheme md_virtuals \<Rightarrow>
     string list option \<Rightarrow> io_env \<Rightarrow> int \<Rightarrow> md_round_in list \<Rightarrow> 'a md_engine_scheme \<Rightarrow>
     (bool \<times> 'a md_engine_scheme) res" where
  "IMDEngine_runEngine start f preset env nano ins s =
     res_bind (start s) (\<lambda>(ok, s1).
       if \<not> ok then Inr (True, mv_release f s1)
       else
         res_bind (case preset of None \<Rightarrow> Inr s1
                   | Some names \<Rightarrow> IMDEngine_engine_subscribe (mv_subscribe f) names s1) (\<lambda>s2.
         res_bind (IMDEngine_writeStartSignal env nano s2) (\<lambda>s3.
           md_loop f ins (s3\<lparr>me_do_running := True\<rparr>))))"

section \<open>Start\<close>

text \<open>\<^verbatim>\<open>setPageSize\<close> stores the size of the mapped page, which the next \<^verbatim>\<open>load\<close> overwrites.\<close>

definition CIOBase_setPageSize :: "int \<Rightarrow> 'a io_writer \<Rightarrow> 'a io_writer" where
  "CIOBase_setPageSize page_size w = w\<lparr>wr_size := to_u32 page_size\<rparr>"

text \<open>\<open>res\<close> is what the trading engine answered in time.\<close>

definition IMDEngine_getBaseInfo ::
    "(sys_io_head \<times> td_base_info) option \<Rightarrow> int \<Rightarrow> io_env \<Rightarrow> int \<Rightarrow> 'a md_engine_scheme \<Rightarrow>
     (bool \<times> 'a md_engine_scheme) res" where
  "IMDEngine_getBaseInfo res len env nano s =
     (case res of
        None \<Rightarrow> Inr (False, s)
      | Some (h, p) \<Rightarrow>
          res_bind (CTradeBaseInfo_set p (me_base s)) (\<lambda>b.
          res_bind (CSafeRawIOWriter_write 2 env (zero_md_frame\<lparr>mf_cmd := io_cmd h, mf_base_info := p\<rparr>)
                      len nano (me_md_writer s)) (\<lambda>(_, w).
            Inr (True, s\<lparr>me_base := b, me_md_writer := w\<rparr>))))"

definition json_page_size :: "json \<Rightarrow> int option option" where
  "json_page_size j =
     (case Option.bind (json_at j ''MDEngine'') (\<lambda>m. Some (json_find m ''PageSize'')) of
        None \<Rightarrow> None
      | Some None \<Rightarrow> Some None
      | Some (Some v) \<Rightarrow> map_option Some (json_get_int v))"

definition IMDEngine_initEngine ::
    "('a md_engine_scheme \<Rightarrow> bool \<times> 'a md_engine_scheme) \<Rightarrow> bool \<Rightarrow> bool \<Rightarrow> (sys_io_head \<times> td_base_info) option \<Rightarrow>
     int \<Rightarrow> io_env \<Rightarrow> int \<Rightarrow> json \<Rightarrow> 'a md_engine_scheme \<Rightarrow> (bool \<times> 'a md_engine_scheme) res" where
  "IMDEngine_initEngine init path_ok sys_ok res len env nano j s =
     (case init s of
        (False, s1) \<Rightarrow> Inr (False, s1)
      | (True, s1) \<Rightarrow>
          if \<not> path_ok then Inr (False, s1)
          else case json_page_size j of
            None \<Rightarrow> Inl Uncaught
          | Some ps \<Rightarrow>
              (let w = (case ps of None \<Rightarrow> me_md_writer s1
                        | Some n \<Rightarrow> CIOBase_setPageSize (n * (1024 * 1024)) (me_md_writer s1))
               in res_bind (CSafeRawIOWriter_init env nano w) (\<lambda>(ok, w1).
                    if \<not> ok then Inr (False, s1\<lparr>me_md_writer := w1\<rparr>)
                    else
                      (let s2 = s1\<lparr>me_md_writer := w1, me_self_id := sint (HASH_STR (me_name s1))\<rparr>
                       in if \<not> sys_ok then Inr (False, s2)
                          else IMDEngine_getBaseInfo res len env nano s2))))"

end
