(* ===== verification/Md_Fronts.thy ===== *)
theory Md_Fronts
  imports Md_Engine
begin

text \<open>
  \<^verbatim>\<open>md/CMDEngineCtp\<close> and \<^verbatim>\<open>md/CMDEngineEES\<close>: the engines on the two vendors' interfaces. The interface keeps
  the list of the calls made to it; the values it returns and the callbacks' arguments are inputs. A call of
  \<^verbatim>\<open>exit\<close> sets \<open>mc_exited\<close>.
\<close>

section \<open>The time of a tick\<close>

definition char_at :: "string \<Rightarrow> nat \<Rightarrow> int" where
  "char_at s i = (if i < length s then of_char (s ! i) else 0)"

definition getSecondsFromClockStr :: "string \<Rightarrow> int" where
  "getSecondsFromClockStr clock =
     char_at clock 0 * 36000 + char_at clock 1 * 3600 + char_at clock 3 * 600 + char_at clock 4 * 60 +
     char_at clock 6 * 10 + char_at clock 7 - 1933008"

text \<open>
  The clock of the exchange has no date. An engine started for the night session takes hours below 10 for the
  next morning, one started for the day session takes hours from 20 on for the evening before.
\<close>

definition quote_time :: "day_night \<Rightarrow> int \<Rightarrow> string \<Rightarrow> int \<Rightarrow> int" where
  "quote_time mode day_begin clock millisec =
     (let t = (getSecondsFromClockStr clock + day_begin) * 1000000000 + millisec * 1000000
      in if mode = MODE_NIGHT
         then (if char_at clock 0 = of_char (CHR ''0'') then t + 86400 * 1000000000 else t)
         else (if char_at clock 0 = of_char (CHR ''2'') then t - 86400 * 1000000000 else t))"

section \<open>Quotes\<close>

text \<open>The fields of the vendors' quotes that are read; they have the same names in both interfaces.\<close>

record depth_quote =
  dq_InstrumentID :: string
  dq_LastPrice :: double
  dq_Volume :: int
  dq_Turnover :: double
  dq_AveragePrice :: double
  dq_AskPrice1 :: double
  dq_BidPrice1 :: double
  dq_AskVolume1 :: int
  dq_BidVolume1 :: int
  dq_OpenInterest :: double
  dq_UpdateTime :: string
  dq_UpdateMillisec :: int

text \<open>What is stored in the frame; the prices and volumes of the levels from 2 on keep the memory's content.\<close>

definition fill_quote :: "day_night \<Rightarrow> int \<Rightarrow> depth_quote \<Rightarrow> md_frame \<Rightarrow> md_frame" where
  "fill_quote mode day_begin q io =
     io\<lparr>mf_cmd := IO_MARKET_DATA, mf_market_data := (mf_market_data io)
        \<lparr>md_instr_hash := INSTR_NAME_TO_HASH (c_str (dq_InstrumentID q)),
         md_last_px := dq_LastPrice q, md_cum_vol := dq_Volume q, md_cum_turnover := dq_Turnover q,
         md_avg_px := dq_AveragePrice q, md_ask_px := dq_AskPrice1 q, md_bid_px := dq_BidPrice1 q,
         md_ask_vol := dq_AskVolume1 q, md_bid_vol := dq_BidVolume1 q,
         md_open_interest := dq_OpenInterest q, md_instr_str := take 31 (c_str (dq_InstrumentID q)),
         md_exch_time := quote_time mode day_begin (dq_UpdateTime q) (dq_UpdateMillisec q)\<rparr>\<rparr>"

definition write_quote ::
    "io_env \<Rightarrow> int \<Rightarrow> int \<Rightarrow> depth_quote \<Rightarrow> 'a md_engine_scheme \<Rightarrow> 'a md_engine_scheme res" where
  "write_quote env nano day_begin q s =
     res_bind (CSafeRawIOWriter_prefetch env zero_md_frame MARKET_DATA_SIZE nano (me_md_writer s)) (\<lambda>(off, w).
       case off of
         None \<Rightarrow> Inl NullDeref
       | Some off \<Rightarrow>
           res_bind (CSafeRawIOWriter_commit zero_md_frame nano
               (fill_frame zero_md_frame off (fill_quote (me_day_night_mode s) day_begin q) w)) (\<lambda>w1.
             Inr (s\<lparr>me_md_writer := w1\<rparr>)))"

section \<open>CTP\<close>

datatype front_call =
    CallInit
  | CallLogin int
  | CallSubscribe "string list"
  | CallUnsubscribe "string list"
  | CallRelease

record md_ctp = md_engine +
  mc_api :: bool
  mc_reqid :: int
  mc_is_login :: bool
  mc_calls :: "front_call list"
  mc_exited :: bool

definition front_call :: "front_call \<Rightarrow> md_ctp \<Rightarrow> md_ctp res" where
  "front_call c s = (if mc_api s then Inr (s\<lparr>mc_calls := mc_calls s @ [c]\<rparr>) else Inl NullDeref)"

text \<open>\<open>path_ok\<close>: the directory of the vendor's files can be created.\<close>

definition CMDEngineCtp_init :: "string \<Rightarrow> bool \<Rightarrow> md_ctp \<Rightarrow> bool \<times> md_ctp" where
  "CMDEngineCtp_init name path_ok s =
     (let s1 = s\<lparr>me_name := name\<rparr>
      in if \<not> path_ok then (False, s1) else (True, s1\<lparr>mc_api := True\<rparr>))"

text \<open>The callbacks of the other thread up to the timeout decide what \<^verbatim>\<open>start\<close> returns.\<close>

definition CMDEngineCtp_start :: "(md_ctp \<Rightarrow> md_ctp res) \<Rightarrow> md_ctp \<Rightarrow> (bool \<times> md_ctp) res" where
  "CMDEngineCtp_start callbacks s =
     res_bind (front_call CallInit s) (\<lambda>s1.
     res_bind (callbacks s1) (\<lambda>s2. Inr (mc_is_login s2, s2)))"

definition CMDEngineCtp_release :: "md_ctp \<Rightarrow> md_ctp" where
  "CMDEngineCtp_release s =
     (if mc_api s then s\<lparr>mc_calls := mc_calls s @ [CallRelease], mc_api := False, mc_is_login := False\<rparr>
      else s\<lparr>mc_is_login := False\<rparr>)"

definition CMDEngineCtp_subscribe :: "string list \<Rightarrow> md_ctp \<Rightarrow> md_ctp res" where
  "CMDEngineCtp_subscribe instr s = (if instr \<noteq> [] then front_call (CallSubscribe instr) s else Inr s)"

definition CMDEngineCtp_unsubscribe :: "string list \<Rightarrow> md_ctp \<Rightarrow> md_ctp res" where
  "CMDEngineCtp_unsubscribe instr s = (if instr \<noteq> [] then front_call (CallUnsubscribe instr) s else Inr s)"

definition CMDEngineCtp_OnFrontConnected :: "int \<Rightarrow> md_ctp \<Rightarrow> md_ctp res" where
  "CMDEngineCtp_OnFrontConnected ret s =
     res_bind (front_call (CallLogin (mc_reqid s)) s) (\<lambda>s1.
       let s2 = s1\<lparr>mc_reqid := mc_reqid s + 1\<rparr> in Inr (if ret \<noteq> 0 then s2\<lparr>mc_exited := True\<rparr> else s2))"

definition CMDEngineCtp_OnFrontDisconnected :: "md_ctp \<Rightarrow> md_ctp" where
  "CMDEngineCtp_OnFrontDisconnected s = IMDEngine_stop s"

text \<open>The answer to the login is not looked at.\<close>

definition CMDEngineCtp_OnRspUserLogin :: "int option \<Rightarrow> md_ctp \<Rightarrow> md_ctp" where
  "CMDEngineCtp_OnRspUserLogin rsp s = s\<lparr>mc_is_login := True\<rparr>"

definition CMDEngineCtp_OnRspSubMarketData :: "int option \<Rightarrow> md_ctp \<Rightarrow> md_ctp res" where
  "CMDEngineCtp_OnRspSubMarketData rsp s =
     (case rsp of
        None \<Rightarrow> Inl NullDeref
      | Some errid \<Rightarrow> Inr (if errid \<noteq> 0 then s\<lparr>mc_exited := True\<rparr> else s))"

definition CMDEngineCtp_OnRspError :: "int option \<Rightarrow> md_ctp \<Rightarrow> md_ctp res" where
  "CMDEngineCtp_OnRspError rsp s = (case rsp of None \<Rightarrow> Inl NullDeref | Some errid \<Rightarrow> Inr s)"

definition CMDEngineCtp_OnRtnDepthMarketData ::
    "io_env \<Rightarrow> int \<Rightarrow> int \<Rightarrow> depth_quote \<Rightarrow> md_ctp \<Rightarrow> md_ctp res" where
  "CMDEngineCtp_OnRtnDepthMarketData env nano day_begin p_data s = write_quote env nano day_begin p_data s"

definition ctp_virtuals :: "md_ctp md_virtuals" where
  "ctp_virtuals =
     \<lparr>mv_subscribe = CMDEngineCtp_subscribe, mv_unsubscribe = CMDEngineCtp_unsubscribe,
      mv_release = CMDEngineCtp_release\<rparr>"

section \<open>EES\<close>

datatype ees_call = EesConnect | EesMulticast | EesLogin | EesRegister string | EesUnregister string
  | EesDisconnect | EesDestroy

record md_ees = md_engine +
  mx_api :: bool
  mx_is_login :: bool
  mx_calls :: "ees_call list"

definition ees_call :: "ees_call \<Rightarrow> md_ees \<Rightarrow> md_ees res" where
  "ees_call c s = (if mx_api s then Inr (s\<lparr>mx_calls := mx_calls s @ [c]\<rparr>) else Inl NullDeref)"

definition CMDEngineEES_init :: "string \<Rightarrow> md_ees \<Rightarrow> bool \<times> md_ees" where
  "CMDEngineEES_init name s = (True, s\<lparr>me_name := name, mx_api := True\<rparr>)"

definition CMDEngineEES_connectTcp :: "bool \<Rightarrow> md_ees \<Rightarrow> (bool \<times> md_ees) res" where
  "CMDEngineEES_connectTcp ret s = res_bind (ees_call EesConnect s) (\<lambda>s1. Inr (ret, s1))"

definition CMDEngineEES_initMulticast :: "bool \<Rightarrow> md_ees \<Rightarrow> (bool \<times> md_ees) res" where
  "CMDEngineEES_initMulticast ret s = res_bind (ees_call EesMulticast s) (\<lambda>s1. Inr (ret, s1))"

definition CMDEngineEES_start :: "bool \<Rightarrow> bool \<Rightarrow> (md_ees \<Rightarrow> md_ees) \<Rightarrow> md_ees \<Rightarrow> (bool \<times> md_ees) res" where
  "CMDEngineEES_start use_multicast ret callbacks s =
     res_bind ((if use_multicast then CMDEngineEES_initMulticast else CMDEngineEES_connectTcp) ret s)
       (\<lambda>(ok, s1). if \<not> ok then Inr (False, s1)
          else let s2 = callbacks s1 in Inr (mx_is_login s2, s2))"

definition CMDEngineEES_release :: "md_ees \<Rightarrow> md_ees" where
  "CMDEngineEES_release s =
     (if mx_api s
      then (let s1 = (if mx_is_login s then s\<lparr>mx_calls := mx_calls s @ [EesDisconnect], mx_is_login := False\<rparr>
                      else s)
            in s1\<lparr>mx_calls := mx_calls s1 @ [EesDestroy], mx_api := False\<rparr>)
      else s)"

fun CMDEngineEES_subscribe :: "string list \<Rightarrow> md_ees \<Rightarrow> md_ees res" where
  "CMDEngineEES_subscribe [] s = Inr s"
| "CMDEngineEES_subscribe (i # instr) s =
     res_bind (ees_call (EesRegister i) s) (CMDEngineEES_subscribe instr)"

fun CMDEngineEES_unsubscribe :: "string list \<Rightarrow> md_ees \<Rightarrow> md_ees res" where
  "CMDEngineEES_unsubscribe [] s = Inr s"
| "CMDEngineEES_unsubscribe (i # instr) s =
     res_bind (ees_call (EesUnregister i) s) (CMDEngineEES_unsubscribe instr)"

definition CMDEngineEES_OnEqsConnected :: "md_ees \<Rightarrow> md_ees res" where
  "CMDEngineEES_OnEqsConnected s = ees_call EesLogin s"

definition CMDEngineEES_OnEqsDisconnected :: "md_ees \<Rightarrow> md_ees" where
  "CMDEngineEES_OnEqsDisconnected s = IMDEngine_stop s"

definition CMDEngineEES_OnLoginResponse :: "bool \<Rightarrow> md_ees \<Rightarrow> md_ees" where
  "CMDEngineEES_OnLoginResponse bsuccess s = s\<lparr>mx_is_login := bsuccess\<rparr>"

definition CMDEngineEES_OnQuoteUpdated ::
    "io_env \<Rightarrow> int \<Rightarrow> int \<Rightarrow> depth_quote \<Rightarrow> md_ees \<Rightarrow> md_ees res" where
  "CMDEngineEES_OnQuoteUpdated env nano day_begin p_data s = write_quote env nano day_begin p_data s"

definition ees_virtuals :: "md_ees md_virtuals" where
  "ees_virtuals =
     \<lparr>mv_subscribe = CMDEngineEES_subscribe, mv_unsubscribe = CMDEngineEES_unsubscribe,
      mv_release = CMDEngineEES_release\<rparr>"

end
