(* ===== verification/Md_Comm.thy ===== *)
theory Md_Comm
  imports Md_Fronts
begin

text \<open>
  \<^verbatim>\<open>common/ATSysUtils\<close>, a request over the system channel, and \<^verbatim>\<open>md/CMDHelperComm\<close>, the client of a market
  data engine: it asks the engine for instruments, reads the engine's channel, and passes on the ticks it
  subscribed. What the engine answers, or that it does not in time, is an input, by the number of the request.
\<close>

section \<open>Requests\<close>

definition IO_UNKNOWN :: int where "IO_UNKNOWN = 0"

definition rsp_matches :: "int \<Rightarrow> int \<Rightarrow> int \<Rightarrow> int \<Rightarrow> sys_io_head \<Rightarrow> bool" where
  "rsp_matches rsp_cmd dest source back_word p \<longleftrightarrow>
     io_cmd p = rsp_cmd \<and> io_source p = dest \<and> io_to p = source \<and> io_back_word p = back_word"

text \<open>One view of the system channel for every round of the loop before the timeout.\<close>

fun sys_wait ::
    "('f \<Rightarrow> sys_io_head) \<Rightarrow> (sys_io_head \<Rightarrow> bool) \<Rightarrow> 'f io_view list \<Rightarrow> io_reader \<Rightarrow>
     ('f option \<times> io_reader) res" where
  "sys_wait head matches [] r = Inr (None, r)"
| "sys_wait head matches (v # vs) r =
     res_bind (CRawIOReader_read v r) (\<lambda>(p, r1).
       case p of
         None \<Rightarrow> sys_wait head matches vs r1
       | Some (x, len) \<Rightarrow> if matches (head x) then Inr (Some x, r1) else sys_wait head matches vs r1)"

record 'd sys_requests =
  sr_request_id :: int
  sr_written :: "(sys_io_head \<times> 'd) list"

text \<open>Where no response is expected the code builds a string from a null pointer, which throws.\<close>

definition sysRequest ::
    "('f \<Rightarrow> sys_io_head) \<Rightarrow> int \<Rightarrow> int \<Rightarrow> int \<Rightarrow> int \<Rightarrow> 'd \<Rightarrow> 'f io_view \<Rightarrow> 'f io_view list \<Rightarrow>
     'd sys_requests \<Rightarrow> ('f option \<times> 'd sys_requests) res" where
  "sysRequest head cmd rsp_cmd dest source extra_data v vs s =
     res_bind (CRawIOReader_init v ''system'' (-1) (-1) CRawIOReader_new) (\<lambda>(_, r).
       let bw = sr_request_id s + 1;
           h = \<lparr>io_cmd = cmd, io_to = dest, io_source = source, io_back_word = bw\<rparr>;
           s1 = s\<lparr>sr_request_id := bw, sr_written := sr_written s @ [(h, extra_data)]\<rparr>
       in if rsp_cmd = IO_UNKNOWN then Inl Uncaught
          else res_bind (sys_wait head (rsp_matches rsp_cmd dest source bw) vs r) (\<lambda>(x, _). Inr (x, s1)))"

section \<open>The client\<close>

record md_comm = md_helper +
  hc_self_id :: int
  hc_reader :: io_reader
  hc_md_engine_id :: int
  hc_timeout :: int
  hc_base :: trade_base
  hc_request_id :: int
  hc_sent :: "md_request list"

text \<open>The answers by the number of the request, the clock, and the callback of the day switch.\<close>

record 's md_answers =
  ma_ack :: "int \<Rightarrow> bool"
  ma_names :: "int \<Rightarrow> string list option option"
  ma_base :: "int \<Rightarrow> td_base_info option"
  ma_now :: int
  ma_switch_day :: "string \<Rightarrow> 's \<Rightarrow> 's res"

definition send_request :: "md_command \<Rightarrow> 'a md_comm_scheme \<Rightarrow> 'a md_comm_scheme" where
  "send_request c s =
     s\<lparr>hc_request_id := hc_request_id s + 1,
       hc_sent := hc_sent s @ [\<lparr>mq_to = hc_md_engine_id s, mq_source = hc_self_id s,
                              mq_back_word = hc_request_id s + 1, mq_cmd = c\<rparr>]\<rparr>"

definition CMDHelperComm_testHeatBeat ::
    "'a md_comm_scheme md_answers \<Rightarrow> 'a md_comm_scheme \<Rightarrow> bool \<times> 'a md_comm_scheme" where
  "CMDHelperComm_testHeatBeat ma s =
     (let s1 = send_request HeatBeat s in (ma_ack ma (hc_request_id s1), s1))"

text \<open>An answer that does not parse gives an empty list, as does none.\<close>

definition CMDHelperComm_getEngineSubscribedInstrument ::
    "'a md_comm_scheme md_answers \<Rightarrow> 'a md_comm_scheme \<Rightarrow> string list \<times> 'a md_comm_scheme" where
  "CMDHelperComm_getEngineSubscribedInstrument ma s =
     (let s1 = send_request QuerySubsInstr s
      in (case ma_names ma (hc_request_id s1) of Some (Some res) \<Rightarrow> res | _ \<Rightarrow> [], s1))"

definition CMDHelperComm_doSubscribe ::
    "'a md_comm_scheme md_answers \<Rightarrow> string list \<Rightarrow> 'a md_comm_scheme \<Rightarrow> bool \<times> 'a md_comm_scheme" where
  "CMDHelperComm_doSubscribe ma instr s =
     (if instr = [] then (True, s)
      else let s1 = send_request (SubsInstr (Some instr)) s in (ma_ack ma (hc_request_id s1), s1))"

definition CMDHelperComm_doUnsubscribe ::
    "'a md_comm_scheme md_answers \<Rightarrow> string list \<Rightarrow> 'a md_comm_scheme \<Rightarrow> bool \<times> 'a md_comm_scheme" where
  "CMDHelperComm_doUnsubscribe ma instr s =
     (if instr = [] then (True, s)
      else let s1 = send_request (UnsubsInstr (Some instr)) s in (ma_ack ma (hc_request_id s1), s1))"

definition run_update ::
    "'a md_comm_scheme md_answers \<Rightarrow> td_base_info \<Rightarrow> 'a md_comm_scheme \<Rightarrow> (bool \<times> 'a md_comm_scheme) res" where
  "run_update ma p s =
     res_bind (CTradeBaseInfo_update p (hc_base s)) (\<lambda>(upd, cb, b).
       res_bind (case cb of
           None \<Rightarrow> Inr (s\<lparr>hc_base := b\<rparr>)
         | Some day \<Rightarrow> ma_switch_day ma day (s\<lparr>hc_base := b\<rparr>)) (\<lambda>s1. Inr (upd, s1)))"

text \<open>The result, and the flag \<^verbatim>\<open>update\<close> where there was an answer.\<close>

definition CMDHelperComm_qryTradeBaseInfo ::
    "'a md_comm_scheme md_answers \<Rightarrow> 'a md_comm_scheme \<Rightarrow> (bool option \<times> 'a md_comm_scheme) res" where
  "CMDHelperComm_qryTradeBaseInfo ma s =
     (let s1 = send_request MdReqBaseInfo s in
      case ma_base ma (hc_request_id s1) of
        None \<Rightarrow> Inr (None, s1)
      | Some p \<Rightarrow> res_bind (run_update ma p s1) (\<lambda>(upd, s2). Inr (Some upd, s2)))"

text \<open>\<open>start\<close> is the time parsed from the configuration, -1 without one.\<close>

definition CMDHelperComm_init ::
    "md_frame io_view \<Rightarrow> 'a md_comm_scheme md_answers \<Rightarrow> bool \<Rightarrow> string \<Rightarrow> int \<Rightarrow> int \<Rightarrow> 'a md_comm_scheme \<Rightarrow>
     (bool \<times> 'a md_comm_scheme) res" where
  "CMDHelperComm_init v ma sys_ok engine timeout start s =
     (if \<not> sys_ok then Inr (False, s)
      else
        (let s1 = s\<lparr>hc_self_id := sint (HASH_STR (mh_name s)), hc_md_engine_id := sint (HASH_STR engine),
                    hc_timeout := timeout\<rparr>
         in case CMDHelperComm_testHeatBeat ma s1 of
              (False, s2) \<Rightarrow> Inr (False, s2)
            | (True, s2) \<Rightarrow>
                res_bind (CMDHelperComm_qryTradeBaseInfo ma s2) (\<lambda>(upd, s3).
                  if upd = None then Inr (False, s3)
                  else res_bind (CRawIOReader_init_from v (''md_engine/'' @ engine @ ''/md'') start (hc_reader s3)) (\<lambda>(ok, r).
                    Inr (ok, s3\<lparr>hc_reader := r\<rparr>)))))"

text \<open>\<^verbatim>\<open>getIOFrameHead(p)->nano\<close> for the frame that was read last.\<close>

definition read_nano :: "'f io_view \<Rightarrow> int \<Rightarrow> io_reader \<Rightarrow> int res" where
  "read_nano v len r =
     res_bind (rd_page v r) (\<lambda>p. Inr (fr_nano (frame_at (vw_zero v) p (rd_cursor r - FRAME_HEAD_SIZE - len))))"

definition md_started ::
    "'a md_comm_scheme md_answers \<Rightarrow> int \<Rightarrow> 'a md_comm_scheme \<Rightarrow> 'a md_comm_scheme res" where
  "md_started ma nano s =
     (if nano > ma_now ma - 5000000000
      then res_bind (CMDHelperComm_qryTradeBaseInfo ma s) (\<lambda>(upd, s1).
        Inr (if upd = Some False then snd (IMDHelper_reSubscribe (CMDHelperComm_doSubscribe ma) s1) else s1))
      else Inr s)"

text \<open>\<^verbatim>\<open>read\<close>: the next tick that was subscribed, with the time of its frame; the fuel is for the frames passed.\<close>

fun CMDHelperComm_read ::
    "nat \<Rightarrow> md_frame io_view \<Rightarrow> 'a md_comm_scheme md_answers \<Rightarrow> 'a md_comm_scheme \<Rightarrow>
     ((market_data \<times> int) option \<times> 'a md_comm_scheme) res" where
  "CMDHelperComm_read 0 v ma s = Inl OutOfFuel"
| "CMDHelperComm_read (Suc n) v ma s =
     res_bind (CRawIOReader_read v (hc_reader s)) (\<lambda>(d, r).
       let s1 = s\<lparr>hc_reader := r\<rparr> in
       case d of
         None \<Rightarrow> Inr (None, s1)
       | Some (p, len) \<Rightarrow>
           res_bind (read_nano v len r) (\<lambda>nano.
             if mf_cmd p = IO_MARKET_DATA
             then (if \<not> IMDHelper_filter (mf_market_data p) s1
                   then Inr (Some (mf_market_data p, nano), s1)
                   else CMDHelperComm_read n v ma s1)
             else if mf_cmd p = IO_MD_START
             then res_bind (md_started ma nano s1) (CMDHelperComm_read n v ma)
             else if mf_cmd p = IO_TD_RSP_BASE_INFO
             then res_bind (run_update ma (mf_base_info p) s1) (\<lambda>(_, s2). CMDHelperComm_read n v ma s2)
             else CMDHelperComm_read n v ma s1))"

definition CMDHelperComm_release ::
    "'a md_comm_scheme md_answers \<Rightarrow> 'a md_comm_scheme \<Rightarrow> 'a md_comm_scheme" where
  "CMDHelperComm_release ma s =
     (let s1 = IMDHelper_clear (CMDHelperComm_doUnsubscribe ma) s in s1\<lparr>hc_reader := rd_unload (hc_reader s1)\<rparr>)"

definition CMDHelperComm_setReadPos ::
    "md_frame io_view \<Rightarrow> int \<Rightarrow> 'a md_comm_scheme \<Rightarrow> 'a md_comm_scheme res" where
  "CMDHelperComm_setReadPos v nano s =
     res_bind (CRawIOReader_setReadPos v nano (hc_reader s)) (\<lambda>r. Inr (s\<lparr>hc_reader := r\<rparr>))"

end
