(* ===== verification/Md_World.thy ===== *)
theory Md_World
  imports Md_Comm
begin

text \<open>
  An engine and its clients together. A request of a client is written to the system channel, and the engine
  handles the requests in the order they were written; whether the answer comes in time is open. A restart of
  the engine writes a start frame to its channel, which every client reads in its own time; until it has, and
  has subscribed again, the engine knows nothing of it.
\<close>

section \<open>The machine\<close>

text \<open>
  A client with the times of the start frames it has still to read, and whether the engine that runs now has
  been told what the client has: since it joined, or since it subscribed again.
\<close>

record md_member =
  mm_comm :: md_comm
  mm_starts :: "int list"
  mm_current :: bool

text \<open>\<open>mw_preset\<close> is the list of the configuration that the engine was started with.\<close>

record 's md_world =
  mw_engine :: 's
  mw_preset :: "string list"
  mw_clients :: "md_member list"

datatype 's md_event =
    ClientJoins "md_frame io_view" string string int bool
  | ClientSubscribes nat "string list"
  | ClientUnsubscribes nat "string list"
  | ClientLeaves nat
  | EngineRestarts 's "string list option" int
  | ClientReadsStart nat int bool

fun deliver ::
    "'a md_engine_scheme md_virtuals \<Rightarrow> md_request list \<Rightarrow> 'a md_engine_scheme \<Rightarrow> 'a md_engine_scheme res" where
  "deliver f [] e = Inr e"
| "deliver f (p # ps) e = res_bind (md_dispatch f p e) (deliver f ps)"

text \<open>A step of a client, and then of the engine for what the client has sent in it.\<close>

definition client_step ::
    "'a md_engine_scheme md_virtuals \<Rightarrow> (md_member \<Rightarrow> md_member res) \<Rightarrow> nat \<Rightarrow> 'a md_engine_scheme md_world \<Rightarrow>
     'a md_engine_scheme md_world res" where
  "client_step f op c w =
     (let m = mw_clients w ! c
      in res_bind (op m) (\<lambda>m1.
         res_bind (deliver f (drop (length (hc_sent (mm_comm m))) (hc_sent (mm_comm m1))) (mw_engine w)) (\<lambda>e.
           Inr (w\<lparr>mw_engine := e, mw_clients := (mw_clients w)[c := m1]\<rparr>))))"

definition on_comm :: "(md_comm \<Rightarrow> md_comm) \<Rightarrow> md_member \<Rightarrow> md_member res" where
  "on_comm g m = Inr (m\<lparr>mm_comm := g (mm_comm m)\<rparr>)"

text \<open>
  A query for the base information that is answered in time gets what the engine sends (\<open>md_dispatch\<close>).
\<close>

definition base_answers ::
    "md_comm md_answers \<Rightarrow> int \<Rightarrow> bool \<Rightarrow> 'a md_engine_scheme \<Rightarrow> md_comm md_answers" where
  "base_answers ma now answered e =
     ma\<lparr>ma_now := now, ma_base := (\<lambda>bw. if answered
       then Some (snd (CTradeBaseInfo_toSysIOStruct 0 (me_self_id e) bw (me_base e))) else None)\<rparr>"

text \<open>\<^verbatim>\<open>read\<close> comes upon the next start frame.\<close>

definition read_start :: "md_comm md_answers \<Rightarrow> int \<Rightarrow> bool \<Rightarrow> md_member \<Rightarrow> md_member res" where
  "read_start ma now answered m =
     (case mm_starts m of
        [] \<Rightarrow> Inr m
      | nano # rest \<Rightarrow>
          res_bind (md_started ma nano (mm_comm m)) (\<lambda>k.
            Inr (m\<lparr>mm_comm := k, mm_starts := rest,
                   mm_current := mm_current m \<or> (answered \<and> nano > now - 5000000000)\<rparr>)))"

text \<open>A client of a new process, and the part of \<^verbatim>\<open>runEngine\<close> before the loop that subscribes.\<close>

definition CMDHelperComm_new :: "string \<Rightarrow> md_comm" where
  "CMDHelperComm_new name =
     \<lparr>mh_subs_instr_hash_map = [], mh_name = name, hc_self_id = 0, hc_reader = CRawIOReader_new,
      hc_md_engine_id = 0, hc_timeout = 5, hc_base = trade_base_init, hc_request_id = 0, hc_sent = []\<rparr>"

definition preset_subscribe ::
    "'a md_engine_scheme md_virtuals \<Rightarrow> string list option \<Rightarrow> 'a md_engine_scheme \<Rightarrow> 'a md_engine_scheme res" where
  "preset_subscribe f preset e =
     (case preset of None \<Rightarrow> Inr e | Some names \<Rightarrow> IMDEngine_engine_subscribe (mv_subscribe f) names e)"

fun world_step ::
    "'a md_engine_scheme md_virtuals \<Rightarrow> md_comm md_answers \<Rightarrow> 'a md_engine_scheme md_event \<Rightarrow>
     'a md_engine_scheme md_world \<Rightarrow> 'a md_engine_scheme md_world res" where
  "world_step f ma (ClientJoins v name engine timeout answered) w =
     res_bind (CMDHelperComm_init v (base_answers ma 0 answered (mw_engine w)) True engine timeout (-1)
       (CMDHelperComm_new name)) (\<lambda>(ok, k).
     res_bind (deliver f (hc_sent k) (mw_engine w)) (\<lambda>e.
       Inr (w\<lparr>mw_engine := e, mw_clients := mw_clients w @
         (if ok then [\<lparr>mm_comm = k, mm_starts = [], mm_current = True\<rparr>] else [])\<rparr>)))"
| "world_step f ma (ClientSubscribes c names) w =
     client_step f (on_comm (\<lambda>k. snd (IMDHelper_subscribe (CMDHelperComm_doSubscribe ma)
       (tb_instr_info (hc_base k)) names k))) c w"
| "world_step f ma (ClientUnsubscribes c names) w =
     client_step f (on_comm (\<lambda>k. snd (IMDHelper_unsubscribe (CMDHelperComm_doUnsubscribe ma)
       (tb_instr_info (hc_base k)) names k))) c w"
| "world_step f ma (ClientLeaves c) w = client_step f (on_comm (CMDHelperComm_release ma)) c w"
| "world_step f ma (EngineRestarts e preset nano) w =
     res_bind (preset_subscribe f preset e) (\<lambda>e1.
       Inr (w\<lparr>mw_engine := e1, mw_preset := (case preset of None \<Rightarrow> [] | Some names \<Rightarrow> names),
              mw_clients := map (\<lambda>m. m\<lparr>mm_starts := mm_starts m @ [nano], mm_current := False\<rparr>) (mw_clients w)\<rparr>))"
| "world_step f ma (ClientReadsStart c now answered) w =
     client_step f (read_start (base_answers ma now answered (mw_engine w)) now answered) c w"

section \<open>Counting\<close>

lemma filter_fresh:
  "i \<notin> set ls \<Longrightarrow> (\<And>j. j \<noteq> i \<Longrightarrow> P j = Q j) \<Longrightarrow> filter P ls = filter Q ls"
  by (rule filter_cong) metis+

lemma count_subs_ok: "um_ok m \<Longrightarrow> um_ok (snd (count_subs ls m acc))"
  by (induction ls arbitrary: m acc) (auto split: option.splits)

lemma count_subs_real:
  "distinct ls \<Longrightarrow> fst (count_subs ls m acc) = acc @ filter (\<lambda>i. map_of m i = None) ls"
proof (induction ls arbitrary: m acc)
  case (Cons i ls)
  then have "filter (\<lambda>j. map_of (AList.update i x m) j = None) ls = filter (\<lambda>j. map_of m j = None) ls" for x
    by (intro filter_fresh [of i]) (auto simp: um_lookup)
  with Cons show ?case by (cases "map_of m i") simp_all
qed simp

lemma count_subs_map:
  "distinct ls \<Longrightarrow> map_of (snd (count_subs ls m acc)) i =
     (if i \<in> set ls then Some (case map_of m i of None \<Rightarrow> 1 | Some n \<Rightarrow> n + 1) else map_of m i)"
  by (induction ls arbitrary: m acc) (auto simp: um_lookup split: option.split)

lemma count_unsubs_ok: "um_ok m \<Longrightarrow> um_ok (snd (count_unsubs ls m acc))"
  by (induction ls arbitrary: m acc) (auto split: option.splits)

lemma count_unsubs_real:
  "distinct ls \<Longrightarrow> fst (count_unsubs ls m acc) =
     acc @ filter (\<lambda>i. case map_of m i of None \<Rightarrow> False | Some n \<Rightarrow> n \<le> 1) ls"
proof (induction ls arbitrary: m acc)
  case (Cons i ls)
  let ?P = "\<lambda>m j. case map_of m j of None \<Rightarrow> False | Some n \<Rightarrow> n \<le> (1 :: int)"
  have "filter (?P (AList.update i x m)) ls = filter (?P m) ls" for x
    using Cons.prems by (intro filter_fresh [of i]) (auto simp: um_lookup)
  moreover have "filter (?P (AList.delete i m)) ls = filter (?P m) ls"
    using Cons.prems by (intro filter_fresh [of i]) (auto simp: um_lookup)
  ultimately show ?case using Cons by (cases "map_of m i") simp_all
qed simp

lemma count_unsubs_map:
  "distinct ls \<Longrightarrow> map_of (snd (count_unsubs ls m acc)) i =
     (if i \<in> set ls then (case map_of m i of None \<Rightarrow> None | Some n \<Rightarrow> if n \<le> 1 then None else Some (n - 1))
      else map_of m i)"
  by (induction ls arbitrary: m acc) (auto simp: um_lookup split: option.split)

text \<open>Names of listed instruments mean themselves, where no instrument is named like a product.\<close>

definition listed :: "instr_table \<Rightarrow> string set" where
  "listed tb = ii_instr ` snd ` set tb"

definition names_apart :: "instr_table \<Rightarrow> bool" where
  "names_apart tb \<longleftrightarrow> base_ok tb \<and>
     (\<forall>info \<in> snd ` set tb. \<not> is_all (ii_instr info) \<and> ii_instr info \<notin> ii_product ` snd ` set tb)"

lemma instr_set_shown: "set (instr_set_list names tb) \<subseteq> listed tb" "distinct (instr_set_list names tb)"
proof -
  have sub: "CTradeBaseInfo_productToInstrSet names tb \<subseteq> listed tb"
    unfolding productToInstrSet_expansion expansion_def listed_def by auto
  moreover from this have "finite (CTradeBaseInfo_productToInstrSet names tb)"
    by (rule finite_subset) (simp add: listed_def)
  ultimately show "set (instr_set_list names tb) \<subseteq> listed tb" "distinct (instr_set_list names tb)"
    by (simp_all add: instr_set_list_def)
qed

lemma instr_set_iff: "i \<in> set (instr_set_list names tb) \<longleftrightarrow> i \<in> CTradeBaseInfo_productToInstrSet names tb"
proof -
  have "CTradeBaseInfo_productToInstrSet names tb \<subseteq> listed tb"
    unfolding productToInstrSet_expansion expansion_def listed_def by auto
  then have "finite (CTradeBaseInfo_productToInstrSet names tb)"
    by (rule finite_subset) (simp add: listed_def)
  then show ?thesis by (simp add: instr_set_list_def)
qed

lemma instr_set_same:
  assumes "names_apart tb" "set ls \<subseteq> listed tb"
  shows "set (instr_set_list ls tb) = set ls"
proof -
  have "CTradeBaseInfo_productToInstrSet ls tb = set ls"
    unfolding productToInstrSet_expansion
  proof (intro set_eqI iffI)
    fix i assume "i \<in> expansion ls tb"
    then obtain info j where "info \<in> snd ` set tb" "i = ii_instr info" "j \<in> set ls"
      "j = ii_instr info \<or> j = ii_product info \<or> is_all j" by (auto simp: expansion_def)
    moreover from this obtain info2 where "info2 \<in> snd ` set tb" "j = ii_instr info2"
      using assms(2) by (auto simp: listed_def)
    moreover from calculation assms(1) have "\<not> is_all j" "j \<noteq> ii_product info"
      unfolding names_apart_def by auto
    ultimately show "i \<in> set ls" by simp
  next
    fix i assume i: "i \<in> set ls"
    with assms(2) have "i \<in> ii_instr ` snd ` set tb" unfolding listed_def by blast
    then obtain info where "info \<in> snd ` set tb" "i = ii_instr info" by (rule imageE)
    with i show "i \<in> expansion ls tb" unfolding expansion_def by blast
  qed
  then show ?thesis by (simp add: instr_set_list_def)
qed

lemma hash_inj:
  assumes "names_apart tb"
  shows "inj_on INSTR_NAME_TO_HASH (listed tb)"
proof (rule inj_onI)
  fix x y assume "x \<in> listed tb" "y \<in> listed tb" and eq: "INSTR_NAME_TO_HASH x = INSTR_NAME_TO_HASH y"
  then obtain h1 i1 h2 i2 where e: "(h1, i1) \<in> set tb" "x = ii_instr i1" "(h2, i2) \<in> set tb" "y = ii_instr i2"
    by (auto simp: listed_def)
  have m: "map_of tb h1 = Some i1" "map_of tb h2 = Some i2"
    using assms e by (auto simp: names_apart_def base_ok_def um_ok_def)
  have base: "base_ok tb" using assms by (simp add: names_apart_def)
  have "h1 = h2" using base_okD(1) [OF base m(1)] base_okD(1) [OF base m(2)] eq e by simp
  with m e show "x = y" by simp
qed

text \<open>A date that fits the field of the datagram.\<close>

definition day_ok :: "string \<Rightarrow> bool" where
  "day_ok d \<longleftrightarrow> d \<noteq> [] \<and> length d \<le> 11 \<and> CHR 0x00 \<notin> set d"

lemma day_sent:
  assumes "day_ok d"
  shows "take 11 (c_str d) = d"
proof -
  have "c_str d = d" using assms unfolding c_str_def day_ok_def by (intro takeWhile_eq_all_conv [THEN iffD2]) auto
  then show ?thesis using assms by (simp add: day_ok_def)
qed

section \<open>A client's map\<close>

text \<open>The instruments a client has subscribed.\<close>

definition has_subs :: "('a md_helper_scheme) \<Rightarrow> string \<Rightarrow> bool" where
  "has_subs k i \<longleftrightarrow> um_has (INSTR_NAME_TO_HASH i) (mh_subs_instr_hash_map k)"

definition client_ok :: "instr_table \<Rightarrow> string \<Rightarrow> int \<Rightarrow> md_comm \<Rightarrow> bool" where
  "client_ok tb d eid k \<longleftrightarrow> tb_instr_info (hc_base k) = tb \<and> tb_trading_day (hc_base k) = d \<and> hc_md_engine_id k = eid \<and>
     um_ok (mh_subs_instr_hash_map k) \<and>
     (\<forall>(h, i) \<in> set (mh_subs_instr_hash_map k). h = INSTR_NAME_TO_HASH i \<and> i \<in> listed tb)"

lemma client_names:
  assumes "client_ok tb d eid k" "names_apart tb"
  shows "distinct (map snd (mh_subs_instr_hash_map k))"
    "set (map snd (mh_subs_instr_hash_map k)) = {i \<in> listed tb. has_subs k i}"
proof -
  let ?m = "mh_subs_instr_hash_map k"
  have keys: "map fst ?m = map INSTR_NAME_TO_HASH (map snd ?m)"
    using assms(1) by (auto simp: client_ok_def)
  have "distinct (map fst ?m)" using assms(1) by (simp add: client_ok_def um_ok_def)
  then have "distinct (map INSTR_NAME_TO_HASH (map snd ?m))" by (simp only: keys)
  then show "distinct (map snd ?m)" using distinct_map by blast
  have "i \<in> set (map snd ?m) \<longleftrightarrow> i \<in> listed tb \<and> has_subs k i" for i
  proof
    assume "i \<in> set (map snd ?m)"
    then obtain h where "(h, i) \<in> set ?m" by auto
    then show "i \<in> listed tb \<and> has_subs k i"
      using assms(1) by (force simp: client_ok_def has_subs_def um_has_def um_ok_def)
  next
    assume i: "i \<in> listed tb \<and> has_subs k i"
    then obtain j where "(INSTR_NAME_TO_HASH i, j) \<in> set ?m"
      by (auto simp: has_subs_def um_has_def dest: map_of_SomeD)
    moreover from this have "INSTR_NAME_TO_HASH i = INSTR_NAME_TO_HASH j" "j \<in> listed tb"
      using assms(1) by (auto simp: client_ok_def)
    ultimately show "i \<in> set (map snd ?m)" using i hash_inj [OF assms(2)] by (force simp: inj_on_def)
  qed
  then show "set (map snd ?m) = {i \<in> listed tb. has_subs k i}" by blast
qed

section \<open>The front\<close>

text \<open>
  What an engine relies on in its front: the two requests change the set of subscribed instruments as they
  should and nothing else of the engine, and that set does not depend on the engine's own counts and answers.
\<close>

locale md_front =
  fixes f :: "'a md_engine_scheme md_virtuals"
    and front :: "'a md_engine_scheme \<Rightarrow> string set"
    and ready :: "'a md_engine_scheme \<Rightarrow> bool"
  assumes front_subscribe: "ready s \<Longrightarrow> \<exists>t. mv_subscribe f ls s = Inr t \<and> ready t \<and>
      front t = front s \<union> set ls \<and> me_subs_instr t = me_subs_instr s \<and> me_base t = me_base s \<and>
      me_self_id t = me_self_id s"
    and front_unsubscribe: "ready s \<Longrightarrow> \<exists>t. mv_unsubscribe f ls s = Inr t \<and> ready t \<and>
      front t = front s - set ls \<and> me_subs_instr t = me_subs_instr s \<and> me_base t = me_base s \<and>
      me_self_id t = me_self_id s"
    and front_frame: "front (s\<lparr>me_subs_instr := m\<rparr>) = front s" "front (s\<lparr>me_sys_out := out\<rparr>) = front s"
      "ready (s\<lparr>me_subs_instr := m\<rparr>) = ready s" "ready (s\<lparr>me_sys_out := out\<rparr>) = ready s"
begin

text \<open>The engine counts \<open>n\<close> subscriptions of every listed instrument.\<close>

definition engine_at :: "instr_table \<Rightarrow> string \<Rightarrow> int \<Rightarrow> 'a md_engine_scheme \<Rightarrow> (string \<Rightarrow> int) \<Rightarrow> bool" where
  "engine_at tb d eid e n \<longleftrightarrow> ready e \<and> tb_instr_info (me_base e) = tb \<and> tb_trading_day (me_base e) = d \<and>
     me_self_id e = eid \<and> um_ok (me_subs_instr e) \<and>
     (\<forall>i. map_of (me_subs_instr e) i = (if i \<in> listed tb \<and> 0 < n i then Some (n i) else None)) \<and>
     front e = {i \<in> listed tb. 0 < n i}"

lemma engine_at_cong: "(\<And>i. i \<in> listed tb \<Longrightarrow> n i = m i) \<Longrightarrow> engine_at tb d eid e n = engine_at tb d eid e m"
proof -
  assume eq: "\<And>i. i \<in> listed tb \<Longrightarrow> n i = m i"
  then have "(if i \<in> listed tb \<and> 0 < n i then Some (n i) else None) =
      (if i \<in> listed tb \<and> 0 < m i then Some (m i) else None)" for i using eq [of i] by auto
  moreover have "{i \<in> listed tb. 0 < n i} = {i \<in> listed tb. 0 < m i}" using eq by auto
  ultimately show ?thesis by (simp only: engine_at_def)
qed

lemma engine_subscribe_names:
  assumes "engine_at tb d eid e n" "\<And>i. 0 \<le> n i"
  shows "\<exists>e1. IMDEngine_engine_subscribe (mv_subscribe f) ls e = Inr e1 \<and>
    engine_at tb d eid e1 (\<lambda>i. n i + of_bool (i \<in> set (instr_set_list ls tb)))"
proof -
  let ?ls = "instr_set_list ls tb" and ?m = "me_subs_instr e"
  note ls = instr_set_shown [of ls tb]
  let ?s = "e\<lparr>me_subs_instr := snd (count_subs ?ls ?m [])\<rparr>" and ?r = "fst (count_subs ?ls ?m [])"
  have E: "ready e" "tb_instr_info (me_base e) = tb" "tb_trading_day (me_base e) = d" "me_self_id e = eid" "um_ok ?m"
    "\<And>i. map_of ?m i = (if i \<in> listed tb \<and> 0 < n i then Some (n i) else None)"
    "front e = {i \<in> listed tb. 0 < n i}"
    using assms(1) by (auto simp: engine_at_def)
  from front_subscribe [of ?s ?r] E(1) obtain t where t: "mv_subscribe f ?r ?s = Inr t" "ready t"
    "front t = front e \<union> set ?r" "me_subs_instr t = snd (count_subs ?ls ?m [])" "me_base t = me_base e"
    "me_self_id t = eid"
    by (auto simp: front_frame E(4))
  have zero: "n i = 0" if "\<not> 0 < n i" for i using assms(2) [of i] that by simp
  have "map_of (me_subs_instr t) i =
      (if i \<in> listed tb \<and> 0 < n i + of_bool (i \<in> set ?ls) then Some (n i + of_bool (i \<in> set ?ls)) else None)" for i
    using ls(1) zero [of i] assms(2) [of i] by (auto simp: t(4) count_subs_map [OF ls(2)] E(6))
  moreover have "front t = {i \<in> listed tb. 0 < n i + of_bool (i \<in> set ?ls)}"
    using ls(1) by (auto simp: t(3) count_subs_real [OF ls(2)] E(6,7)) (use assms(2) zero in force)+
  ultimately have "engine_at tb d eid t (\<lambda>i. n i + of_bool (i \<in> set ?ls))"
    using t(2,5,6) E(2,3) count_subs_ok [OF E(5), of ?ls "[]"] by (simp add: engine_at_def t(4))
  with t(1) show ?thesis by (simp add: IMDEngine_engine_subscribe_def E(2) split_def)
qed

lemma engine_subscribe_ok:
  assumes "engine_at tb d eid e n" "names_apart tb" "set ls \<subseteq> listed tb" "\<And>i. 0 \<le> n i"
  shows "\<exists>e1. IMDEngine_engine_subscribe (mv_subscribe f) ls e = Inr e1 \<and>
    engine_at tb d eid e1 (\<lambda>i. n i + of_bool (i \<in> set ls))"
  using engine_subscribe_names [OF assms(1,4), of ls] by (simp add: instr_set_same [OF assms(2,3)])

lemma engine_unsubscribe_ok:
  assumes "engine_at tb d eid e n" "names_apart tb" "set ls \<subseteq> listed tb" "\<And>i. i \<in> set ls \<Longrightarrow> 1 \<le> n i"
  shows "\<exists>e1. IMDEngine_engine_unsubscribe (mv_unsubscribe f) ls e = Inr e1 \<and>
    engine_at tb d eid e1 (\<lambda>i. n i - of_bool (i \<in> set ls))"
proof -
  let ?ls = "instr_set_list ls tb" and ?m = "me_subs_instr e"
  have ls: "distinct ?ls" "set ?ls = set ls" using instr_set_shown instr_set_same [OF assms(2,3)] by auto
  let ?s = "e\<lparr>me_subs_instr := snd (count_unsubs ?ls ?m [])\<rparr>" and ?r = "fst (count_unsubs ?ls ?m [])"
  have E: "ready e" "tb_instr_info (me_base e) = tb" "tb_trading_day (me_base e) = d" "me_self_id e = eid" "um_ok ?m"
    "\<And>i. map_of ?m i = (if i \<in> listed tb \<and> 0 < n i then Some (n i) else None)"
    "front e = {i \<in> listed tb. 0 < n i}"
    using assms(1) by (auto simp: engine_at_def)
  from front_unsubscribe [of ?s ?r] E(1) obtain t where t: "mv_unsubscribe f ?r ?s = Inr t" "ready t"
    "front t = front e - set ?r" "me_subs_instr t = snd (count_unsubs ?ls ?m [])" "me_base t = me_base e"
    "me_self_id t = eid"
    by (auto simp: front_frame E(4))
  have "map_of (me_subs_instr t) i =
      (if i \<in> listed tb \<and> 0 < n i - of_bool (i \<in> set ls) then Some (n i - of_bool (i \<in> set ls)) else None)" for i
    using assms(3) assms(4) [of i] by (auto simp: t(4) count_unsubs_map [OF ls(1)] ls(2) E(6))
  moreover have "front t = {i \<in> listed tb. 0 < n i - of_bool (i \<in> set ls)}"
    using assms(3) by (auto simp: t(3) count_unsubs_real [OF ls(1)] ls(2) E(6,7))
  ultimately have "engine_at tb d eid t (\<lambda>i. n i - of_bool (i \<in> set ls))"
    using t(2,5,6) E(2,3) count_unsubs_ok [OF E(5), of ?ls "[]"] by (simp add: engine_at_def t(4))
  with t(1) show ?thesis by (simp add: IMDEngine_engine_unsubscribe_def E(2) split_def)
qed

lemma engine_at_answer [simp]: "engine_at tb d eid (md_answer_with a e) n = engine_at tb d eid e n"
  by (simp add: engine_at_def md_answer_with_def front_frame)

lemma deliver_subscribe:
  assumes "engine_at tb d eid e n" "names_apart tb" "set ls \<subseteq> listed tb" "\<And>i. 0 \<le> n i"
    and "ps = (if ls = [] then [] else [\<lparr>mq_to = eid, mq_source = src, mq_back_word = bw, mq_cmd = SubsInstr (Some ls)\<rparr>])"
  shows "\<exists>e1. deliver f ps e = Inr e1 \<and> engine_at tb d eid e1 (\<lambda>i. n i + of_bool (i \<in> set ls))"
proof (cases "ls = []")
  case False
  from engine_subscribe_ok [OF assms(1-4)] obtain e1 where
    "IMDEngine_engine_subscribe (mv_subscribe f) ls e = Inr e1"
    "engine_at tb d eid e1 (\<lambda>i. n i + of_bool (i \<in> set ls))" by blast
  moreover have "me_self_id e = eid" using assms(1) by (simp add: engine_at_def)
  ultimately show ?thesis using False by (simp add: assms(5) md_dispatch_def)
qed (use assms(1,5) in simp)

lemma deliver_unsubscribe:
  assumes "engine_at tb d eid e n" "names_apart tb" "set ls \<subseteq> listed tb" "\<And>i. i \<in> set ls \<Longrightarrow> 1 \<le> n i"
    and "ps = (if ls = [] then [] else [\<lparr>mq_to = eid, mq_source = src, mq_back_word = bw, mq_cmd = UnsubsInstr (Some ls)\<rparr>])"
  shows "\<exists>e1. deliver f ps e = Inr e1 \<and> engine_at tb d eid e1 (\<lambda>i. n i - of_bool (i \<in> set ls))"
proof (cases "ls = []")
  case False
  from engine_unsubscribe_ok [OF assms(1-4)] obtain e1 where
    "IMDEngine_engine_unsubscribe (mv_unsubscribe f) ls e = Inr e1"
    "engine_at tb d eid e1 (\<lambda>i. n i - of_bool (i \<in> set ls))" by blast
  moreover have "me_self_id e = eid" using assms(1) by (simp add: engine_at_def)
  ultimately show ?thesis using False by (simp add: assms(5) md_dispatch_def)
qed (use assms(1,5) in simp)

end

section \<open>The steps of a client\<close>

text \<open>How many clients that the engine knows of have an instrument.\<close>

definition counted :: "md_member \<Rightarrow> string \<Rightarrow> bool" where
  "counted m i \<longleftrightarrow> mm_current m \<and> has_subs (mm_comm m) i"

definition subscribers :: "md_member list \<Rightarrow> string \<Rightarrow> int" where
  "subscribers ms i = sum_list (map (\<lambda>m. of_bool (counted m i)) ms)"

lemma subscribers_nonneg: "0 \<le> subscribers ms i"
  by (auto simp: subscribers_def intro!: sum_list_nonneg)

lemma subscribers_pos: "0 < subscribers ms i \<longleftrightarrow> (\<exists>m \<in> set ms. counted m i)"
proof (induction ms)
  case (Cons m ms)
  then show ?case using subscribers_nonneg [of ms i] by (auto simp: subscribers_def)
qed (simp add: subscribers_def)

lemma subscribers_upd:
  "c < length ms \<Longrightarrow> subscribers (ms[c := m]) i =
     subscribers ms i - of_bool (counted (ms ! c) i) + of_bool (counted m i)"
  unfolding subscribers_def
  by (induction ms arbitrary: c) (auto split: nat.split)

text \<open>Subscribing sends exactly the names that are new to the client.\<close>

lemma all_update: "\<forall>e \<in> set m. Q e \<Longrightarrow> Q (k, v) \<Longrightarrow> \<forall>e \<in> set (AList.update k v m). Q e"
  by (induction m) auto

lemma all_fold_update:
  "\<forall>e \<in> set m. Q e \<Longrightarrow> \<forall>i \<in> set ls. Q (h i, i) \<Longrightarrow>
   \<forall>e \<in> set (fold (\<lambda>i m. AList.update (h i) i m) ls m). Q e"
proof (induction ls arbitrary: m)
  case (Cons i ls)
  then have "\<forall>e \<in> set (AList.update (h i) i m). Q e" by (intro all_update) simp_all
  with Cons show ?case by simp
qed simp

lemma fold_update_ok: "um_ok m \<Longrightarrow> um_ok (fold (\<lambda>i m. AList.update (h i) i m) ls m)"
  by (induction ls arbitrary: m) simp_all

lemma fold_update_has:
  "um_has k (fold (\<lambda>i m. AList.update (h i) i m) ls m) \<longleftrightarrow> um_has k m \<or> k \<in> h ` set ls"
  by (induction ls arbitrary: m) (auto simp: um_has_def um_lookup)

lemma hash_mem:
  assumes "names_apart tb" "i \<in> listed tb" "set ls \<subseteq> listed tb"
  shows "INSTR_NAME_TO_HASH i \<in> INSTR_NAME_TO_HASH ` set ls \<longleftrightarrow> i \<in> set ls"
  using hash_inj [OF assms(1)] assms(2,3) by (auto simp: inj_on_def)

lemma client_subscribe:
  assumes "client_ok tb d eid k" "names_apart tb"
    and "k1 = snd (IMDHelper_subscribe (CMDHelperComm_doSubscribe ma) (tb_instr_info (hc_base k)) names k)"
  obtains ls bw where "set ls \<subseteq> listed tb" "client_ok tb d eid k1"
    "\<And>i. i \<in> listed tb \<Longrightarrow> has_subs k1 i \<longleftrightarrow> has_subs k i \<or> i \<in> set ls" "\<And>i. i \<in> set ls \<Longrightarrow> \<not> has_subs k i"
    "hc_sent k1 = hc_sent k @ (if ls = [] then [] else
       [\<lparr>mq_to = eid, mq_source = hc_self_id k, mq_back_word = bw, mq_cmd = SubsInstr (Some ls)\<rparr>])"
proof -
  let ?names = "instr_set_list names tb" and ?m = "mh_subs_instr_hash_map k"
  define ls where "ls = filter (\<lambda>i. \<not> um_has (INSTR_NAME_TO_HASH i) ?m) ?names"
  let ?m1 = "fold (\<lambda>i m. AList.update (INSTR_NAME_TO_HASH i) i m) ls ?m"
  note names = instr_set_shown [of names tb]
  have sub: "set ls \<subseteq> listed tb" using names(1) by (auto simp: ls_def)
  have day: "tb_trading_day (hc_base k) = d" using assms(1) by (simp add: client_ok_def)
  have K: "tb_instr_info (hc_base k) = tb" "hc_md_engine_id k = eid" "um_ok ?m"
    "\<forall>(h, i) \<in> set ?m. h = INSTR_NAME_TO_HASH i \<and> i \<in> listed tb"
    using assms(1) by (auto simp: client_ok_def)
  have add: "add_subs ?names ?m [] = (ls, ?m1)"
    using add_subs_eq [OF names(2) inj_on_subset [OF hash_inj [OF assms(2)] names(1)], of ?m "[]"]
    by (simp add: ls_def)
  have k1: "k1 = snd (CMDHelperComm_doSubscribe ma ls (k\<lparr>mh_subs_instr_hash_map := ?m1\<rparr>))"
    using assms(3) by (simp add: IMDHelper_subscribe_def K(1) add)
  have f: "mh_subs_instr_hash_map k1 = ?m1" "hc_base k1 = hc_base k" "hc_md_engine_id k1 = eid"
    "hc_sent k1 = hc_sent k @ (if ls = [] then [] else
       [\<lparr>mq_to = eid, mq_source = hc_self_id k, mq_back_word = hc_request_id k + 1, mq_cmd = SubsInstr (Some ls)\<rparr>])"
    by (simp_all add: k1 CMDHelperComm_doSubscribe_def send_request_def Let_def K(2))
  have "\<forall>e \<in> set ?m1. case e of (h, i) \<Rightarrow> h = INSTR_NAME_TO_HASH i \<and> i \<in> listed tb"
    by (rule all_fold_update) (use K(4) sub in auto)
  then have ok: "client_ok tb d eid k1" using fold_update_ok [OF K(3)] by (simp add: client_ok_def f K(1) day)
  have has: "has_subs k1 i \<longleftrightarrow> has_subs k i \<or> i \<in> set ls" if "i \<in> listed tb" for i
    using hash_mem [OF assms(2) that sub] by (simp add: has_subs_def f fold_update_has)
  have new: "\<not> has_subs k i" if "i \<in> set ls" for i using that by (simp add: ls_def has_subs_def)
  from sub ok has new f(4) show ?thesis by (rule that)
qed

lemma del_subs_real:
  "distinct names \<Longrightarrow> inj_on INSTR_NAME_TO_HASH (set names) \<Longrightarrow>
   fst (del_subs names m new) = new @ filter (\<lambda>i. um_has (INSTR_NAME_TO_HASH i) m) names"
proof (induction names arbitrary: m new)
  case (Cons i ls)
  have "filter (\<lambda>j. um_has (INSTR_NAME_TO_HASH j) (AList.delete (INSTR_NAME_TO_HASH i) m)) ls =
      filter (\<lambda>j. um_has (INSTR_NAME_TO_HASH j) m) ls"
    by (rule filter_cong) (use Cons.prems in \<open>auto simp: um_has_def um_lookup inj_on_def\<close>)
  with Cons show ?case by (auto simp: um_has_def Let_def split: option.splits)
qed simp

lemma del_subs_ok: "um_ok m \<Longrightarrow> um_ok (snd (del_subs names m new))"
  by (induction names arbitrary: m new) (auto simp: Let_def split: option.splits)

lemma del_subs_all: "\<forall>e \<in> set m. Q e \<Longrightarrow> \<forall>e \<in> set (snd (del_subs names m new)). Q e"
proof (induction names arbitrary: m new)
  case (Cons i ls)
  have "\<forall>e \<in> set (AList.delete (INSTR_NAME_TO_HASH i) m). Q e"
    using Cons.prems by (induction m) auto
  with Cons show ?case by (auto simp: Let_def split: option.splits)
qed simp

lemma client_unsubscribe:
  assumes "client_ok tb d eid k" "names_apart tb"
    and "k1 = snd (IMDHelper_unsubscribe (CMDHelperComm_doUnsubscribe ma) (tb_instr_info (hc_base k)) names k)"
  obtains ls bw where "set ls \<subseteq> listed tb" "client_ok tb d eid k1"
    "\<And>i. i \<in> listed tb \<Longrightarrow> has_subs k1 i \<longleftrightarrow> has_subs k i \<and> i \<notin> set ls" "\<And>i. i \<in> set ls \<Longrightarrow> has_subs k i"
    "hc_sent k1 = hc_sent k @ (if ls = [] then [] else
       [\<lparr>mq_to = eid, mq_source = hc_self_id k, mq_back_word = bw, mq_cmd = UnsubsInstr (Some ls)\<rparr>])"
proof -
  let ?names = "instr_set_list names tb" and ?m = "mh_subs_instr_hash_map k"
  define ls where "ls = filter (\<lambda>i. um_has (INSTR_NAME_TO_HASH i) ?m) ?names"
  let ?m1 = "snd (del_subs ?names ?m [])"
  note names = instr_set_shown [of names tb]
  have sub: "set ls \<subseteq> listed tb" using names(1) by (auto simp: ls_def)
  have day: "tb_trading_day (hc_base k) = d" using assms(1) by (simp add: client_ok_def)
  have K: "tb_instr_info (hc_base k) = tb" "hc_md_engine_id k = eid" "um_ok ?m"
    "\<forall>(h, i) \<in> set ?m. h = INSTR_NAME_TO_HASH i \<and> i \<in> listed tb"
    using assms(1) by (auto simp: client_ok_def)
  have del: "del_subs ?names ?m [] = (ls, ?m1)"
    using del_subs_real [OF names(2) inj_on_subset [OF hash_inj [OF assms(2)] names(1)], of ?m "[]"]
    by (simp add: ls_def prod_eq_iff)
  have k1: "k1 = snd (CMDHelperComm_doUnsubscribe ma ls (k\<lparr>mh_subs_instr_hash_map := ?m1\<rparr>))"
    unfolding assms(3) IMDHelper_unsubscribe_def K(1) by (subst del) simp
  have f: "mh_subs_instr_hash_map k1 = ?m1" "hc_base k1 = hc_base k" "hc_md_engine_id k1 = eid"
    "hc_sent k1 = hc_sent k @ (if ls = [] then [] else
       [\<lparr>mq_to = eid, mq_source = hc_self_id k, mq_back_word = hc_request_id k + 1, mq_cmd = UnsubsInstr (Some ls)\<rparr>])"
    by (simp_all add: k1 CMDHelperComm_doUnsubscribe_def send_request_def Let_def K(2))
  have "\<forall>e \<in> set ?m1. case e of (h, i) \<Rightarrow> h = INSTR_NAME_TO_HASH i \<and> i \<in> listed tb"
    by (rule del_subs_all) (use K(4) in auto)
  then have ok: "client_ok tb d eid k1" using del_subs_ok [OF K(3)] by (simp add: client_ok_def f K(1) day)
  have has: "has_subs k1 i \<longleftrightarrow> has_subs k i \<and> i \<notin> set ls" if "i \<in> listed tb" for i
    using hash_mem [OF assms(2) that names(1)]
    by (auto simp: has_subs_def f um_has_def del_subs_keeps [OF K(3)] ls_def)
  have old: "has_subs k i" if "i \<in> set ls" for i using that by (simp add: ls_def has_subs_def)
  from sub ok has old f(4) show ?thesis by (rule that)
qed

text \<open>What a client that leaves gives up, and what one subscribes again: all it has.\<close>

definition all_names :: "md_comm \<Rightarrow> string list" where
  "all_names k = map snd (mh_subs_instr_hash_map k)"

lemma client_release:
  assumes "client_ok tb d eid k" "k1 = CMDHelperComm_release ma k"
  obtains bw where "client_ok tb d eid k1" "\<And>i. \<not> has_subs k1 i"
    "hc_sent k1 = hc_sent k @ (if all_names k = [] then [] else
       [\<lparr>mq_to = eid, mq_source = hc_self_id k, mq_back_word = bw, mq_cmd = UnsubsInstr (Some (all_names k))\<rparr>])"
proof (rule that [of "hc_request_id k + 1"])
  show "client_ok tb d eid k1" "\<And>i. \<not> has_subs k1 i"
    "hc_sent k1 = hc_sent k @ (if all_names k = [] then [] else
       [\<lparr>mq_to = eid, mq_source = hc_self_id k, mq_back_word = hc_request_id k + 1,
         mq_cmd = UnsubsInstr (Some (all_names k))\<rparr>])"
    using assms by (simp_all add: client_ok_def has_subs_def um_has_def all_names_def CMDHelperComm_release_def
      IMDHelper_clear_def IMDHelper_getSubscribedInstrument_def CMDHelperComm_doUnsubscribe_def send_request_def
      Let_def)
qed

lemma client_reads_start:
  assumes "client_ok tb d eid k" "names_apart tb" "day_ok d"
    and "tb_instr_info (me_base e) = tb" "tb_trading_day (me_base e) = d"
  obtains k1 bw where "md_started (base_answers ma now answered e) nano k = Inr k1" "client_ok tb d eid k1"
    "\<And>i. has_subs k1 i = has_subs k i"
    "hc_sent k1 = hc_sent k @ (if nano > now - 5000000000
       then \<lparr>mq_to = eid, mq_source = hc_self_id k, mq_back_word = hc_request_id k + 1, mq_cmd = MdReqBaseInfo\<rparr> #
         (if answered \<and> all_names k \<noteq> []
          then [\<lparr>mq_to = eid, mq_source = hc_self_id k, mq_back_word = bw, mq_cmd = SubsInstr (Some (all_names k))\<rparr>]
          else [])
       else [])"
proof -
  let ?a = "base_answers ma now answered e" and ?s = "send_request MdReqBaseInfo k"
  let ?t = "snd (IMDHelper_reSubscribe (CMDHelperComm_doSubscribe ?a) ?s)"
  have day: "take 11 (c_str d) = d" by (rule day_sent [OF assms(3)])
  have K: "hc_md_engine_id k = eid" "tb_trading_day (hc_base k) = d" using assms(1) by (simp_all add: client_ok_def)
  have qry: "CMDHelperComm_qryTradeBaseInfo ?a k = Inr (if answered then Some False else None, ?s)"
    by (simp add: CMDHelperComm_qryTradeBaseInfo_def base_answers_def run_update_def CTradeBaseInfo_update_def
      CTradeBaseInfo_toSysIOStruct_def send_request_def assms(5) day K(2))
  show ?thesis
  proof (cases "nano > now - 5000000000")
    case True
    with qry have run: "md_started ?a nano k = Inr (if answered then ?t else ?s)"
      by (simp add: md_started_def base_answers_def)
    show ?thesis
      by (rule that [OF run, of "hc_request_id k + 2"])
        (use assms(1) True in \<open>simp_all add: client_ok_def has_subs_def all_names_def K(1) IMDHelper_reSubscribe_def
          IMDHelper_getSubscribedInstrument_def CMDHelperComm_doSubscribe_def send_request_def Let_def\<close>)
  next
    case False
    then have run: "md_started ?a nano k = Inr k" by (simp add: md_started_def base_answers_def)
    show ?thesis by (rule that [OF run]) (use assms(1) False in simp_all)
  qed
qed

text \<open>A client that joins asks for nothing but the base information, and has it then.\<close>

definition opens :: "md_frame io_view \<Rightarrow> string \<Rightarrow> bool" where
  "opens v engine =
     (case CRawIOReader_init_from v (''md_engine/'' @ engine @ ''/md'') (-1) CRawIOReader_new of
        Inl _ \<Rightarrow> False | Inr _ \<Rightarrow> True)"

lemma client_joins:
  assumes "names_apart tb" "day_ok d" "tb_instr_info (me_base e) = tb" "tb_trading_day (me_base e) = d"
    and "sint (HASH_STR engine) = eid" "opens v engine"
  obtains ok k where
    "CMDHelperComm_init v (base_answers ma now answered e) True engine timeout (-1) (CMDHelperComm_new name) = Inr (ok, k)"
    "\<forall>p \<in> set (hc_sent k). mq_cmd p \<in> {HeatBeat, MdReqBaseInfo}"
    "ok \<Longrightarrow> client_ok tb d eid k" "\<And>i. \<not> has_subs k i"
proof -
  let ?a = "base_answers ma now answered e"
  let ?s1 = "(CMDHelperComm_new name)\<lparr>hc_self_id := sint (HASH_STR name), hc_md_engine_id := eid, hc_timeout := timeout\<rparr>"
  let ?s3 = "send_request MdReqBaseInfo (send_request HeatBeat ?s1)"
  let ?b = "(hc_base ?s3)\<lparr>tb_trading_day := d, tb_instr_info := tb, tb_is_init := True\<rparr>"
  have day: "take 11 (c_str d) = d" by (rule day_sent [OF assms(2)])
  obtain opened r where r: "CRawIOReader_init_from v (''md_engine/'' @ engine @ ''/md'') (-1) CRawIOReader_new = Inr (opened, r)"
    using assms(6) by (auto simp: opens_def split: sum.splits)
  have "CTradeBaseInfo_set (snd (CTradeBaseInfo_toSysIOStruct 0 (me_self_id e) bw (me_base e))) (hc_base ?s3) = Inr ?b" for bw
    using set_toSysIOStruct [of "me_base e" 0 "me_self_id e" bw "hc_base ?s3"] assms(1-4)
    by (simp add: names_apart_def day_ok_def)
  moreover have nonempty: "[] \<noteq> d" using assms(2) by (auto simp: day_ok_def)
  ultimately have qry: "CMDHelperComm_qryTradeBaseInfo ?a (send_request HeatBeat ?s1) =
      Inr (if answered then (Some True, ?s3\<lparr>hc_base := ?b\<rparr>) else (None, ?s3))"
    using nonempty assms(4) day by (simp add: Let_def CMDHelperComm_qryTradeBaseInfo_def base_answers_def run_update_def
      CTradeBaseInfo_update_def CTradeBaseInfo_toSysIOStruct_def send_request_def CMDHelperComm_new_def
      trade_base_init_def)
  define k where "k = (if \<not> ma_ack ma 1 then send_request HeatBeat ?s1 else if \<not> answered then ?s3
    else ?s3\<lparr>hc_base := ?b, hc_reader := r\<rparr>)"
  have run: "CMDHelperComm_init v ?a True engine timeout (-1) (CMDHelperComm_new name) =
      Inr (ma_ack ma 1 \<and> answered \<and> opened, k)"
    using qry r assms(5) by (simp add: CMDHelperComm_init_def CMDHelperComm_testHeatBeat_def k_def Let_def
      base_answers_def send_request_def CMDHelperComm_new_def)
  show ?thesis
    by (rule that [OF run])
      (auto simp: k_def send_request_def CMDHelperComm_new_def client_ok_def has_subs_def um_has_def)
qed

lemma all_names_iff:
  "client_ok tb d eid k \<Longrightarrow> names_apart tb \<Longrightarrow> i \<in> set (all_names k) \<longleftrightarrow> i \<in> listed tb \<and> has_subs k i"
  using client_names(2) by (auto simp: all_names_def)


section \<open>The invariant\<close>

text \<open>
  What the events are about: a client that changes what it has is one the engine knows of, a client reads a
  start frame that is there, and one the engine knows of already does not come upon a start frame of the last
  five seconds; a client joins the engine that runs, by its name, and finds its channel readable; and an engine
  that is restarted has no subscriptions.
\<close>

fun world_legal ::
    "('a md_engine_scheme \<Rightarrow> bool) \<Rightarrow> 'a md_engine_scheme md_event \<Rightarrow> 'a md_engine_scheme md_world \<Rightarrow> bool" where
  "world_legal fresh (ClientJoins v name engine timeout answered) w \<longleftrightarrow>
     sint (HASH_STR engine) = me_self_id (mw_engine w) \<and> opens v engine"
| "world_legal fresh (ClientSubscribes c names) w \<longleftrightarrow> c < length (mw_clients w) \<and> mm_current (mw_clients w ! c)"
| "world_legal fresh (ClientUnsubscribes c names) w \<longleftrightarrow> c < length (mw_clients w) \<and> mm_current (mw_clients w ! c)"
| "world_legal fresh (ClientLeaves c) w \<longleftrightarrow> c < length (mw_clients w) \<and> mm_current (mw_clients w ! c)"
| "world_legal fresh (EngineRestarts e preset nano) w \<longleftrightarrow> fresh e"
| "world_legal fresh (ClientReadsStart c now answered) w \<longleftrightarrow> c < length (mw_clients w) \<and>
     (case mm_starts (mw_clients w ! c) of
        [] \<Rightarrow> False
      | nano # rest \<Rightarrow> mm_current (mw_clients w ! c) \<longrightarrow> nano \<le> now - 5000000000)"

text \<open>The subscriptions there should be: those of the clients the engine knows of, and its own.\<close>

definition demand :: "instr_table \<Rightarrow> 's md_world \<Rightarrow> string \<Rightarrow> int" where
  "demand tb w i = subscribers (mw_clients w) i + of_bool (i \<in> set (instr_set_list (mw_preset w) tb))"

lemma demand_nonneg: "0 \<le> demand tb w i"
  using subscribers_nonneg [of "mw_clients w" i] by (simp add: demand_def)

lemma clients_upd: "\<forall>m \<in> set ms. P m \<Longrightarrow> P m1 \<Longrightarrow> \<forall>m \<in> set (ms[c := m1]). P m"
  using set_update_subset_insert [of ms c m1] by blast

lemma client_step_to:
  assumes "op (mw_clients w ! c) = Inr m1" "deliver f ps (mw_engine w) = Inr e"
    and "hc_sent (mm_comm m1) = hc_sent (mm_comm (mw_clients w ! c)) @ ps"
  shows "client_step f op c w = Inr (w\<lparr>mw_engine := e, mw_clients := (mw_clients w)[c := m1]\<rparr>)"
  by (simp add: client_step_def Let_def assms)

context md_front
begin

definition world_inv :: "instr_table \<Rightarrow> string \<Rightarrow> int \<Rightarrow> 'a md_engine_scheme md_world \<Rightarrow> bool" where
  "world_inv tb d eid w \<longleftrightarrow> names_apart tb \<and> day_ok d \<and> engine_at tb d eid (mw_engine w) (demand tb w) \<and>
     (\<forall>m \<in> set (mw_clients w). client_ok tb d eid (mm_comm m))"

definition fresh :: "instr_table \<Rightarrow> string \<Rightarrow> int \<Rightarrow> 'a md_engine_scheme \<Rightarrow> bool" where
  "fresh tb d eid e \<longleftrightarrow> ready e \<and> tb_instr_info (me_base e) = tb \<and> tb_trading_day (me_base e) = d \<and>
     me_self_id e = eid \<and> me_subs_instr e = [] \<and> front e = {}"

lemma fresh_at: "fresh tb d eid e \<Longrightarrow> engine_at tb d eid e (\<lambda>_. 0)"
  by (simp add: fresh_def engine_at_def)

lemma preset_ok:
  assumes "fresh tb d eid e"
  shows "\<exists>e1. preset_subscribe f preset e = Inr e1 \<and> engine_at tb d eid e1
    (\<lambda>i. of_bool (i \<in> set (instr_set_list (case preset of None \<Rightarrow> [] | Some names \<Rightarrow> names) tb)))"
proof (cases preset)
  case None
  have "instr_set_list [] tb = []" by (simp add: instr_set_list_def CTradeBaseInfo_productToInstrSet_def)
  with None fresh_at [OF assms] show ?thesis by (simp add: preset_subscribe_def)
next
  case (Some names)
  with engine_subscribe_names [OF fresh_at [OF assms], of names] show ?thesis by (simp add: preset_subscribe_def)
qed

lemma world_inv_upd:
  assumes "world_inv tb d eid w" "c < length (mw_clients w)" "client_ok tb d eid (mm_comm m1)" "engine_at tb d eid e n"
    and "\<And>i. i \<in> listed tb \<Longrightarrow> n i = demand tb w i - of_bool (counted (mw_clients w ! c) i) + of_bool (counted m1 i)"
  shows "world_inv tb d eid (w\<lparr>mw_engine := e, mw_clients := (mw_clients w)[c := m1]\<rparr>)"
proof -
  let ?w = "w\<lparr>mw_engine := e, mw_clients := (mw_clients w)[c := m1]\<rparr>"
  have "engine_at tb d eid e (demand tb ?w)"
    using assms(4) engine_at_cong [of tb n "demand tb ?w" d eid e] assms(5) subscribers_upd [OF assms(2)]
    by (simp add: demand_def)
  moreover have "\<forall>m \<in> set ((mw_clients w)[c := m1]). client_ok tb d eid (mm_comm m)"
    by (rule clients_upd) (use assms(1,3) in \<open>simp_all add: world_inv_def\<close>)
  ultimately show ?thesis using assms(1) by (simp add: world_inv_def)
qed

lemma subscribes_ok:
  assumes inv: "world_inv tb d eid w" and c: "c < length (mw_clients w)" "mm_current (mw_clients w ! c)"
  shows "\<exists>w1. world_step f ma (ClientSubscribes c names) w = Inr w1 \<and> world_inv tb d eid w1"
proof -
  let ?m = "mw_clients w ! c"
  let ?op = "\<lambda>k. snd (IMDHelper_subscribe (CMDHelperComm_doSubscribe ma) (tb_instr_info (hc_base k)) names k)"
  have W: "names_apart tb" "engine_at tb d eid (mw_engine w) (demand tb w)" "client_ok tb d eid (mm_comm ?m)"
    using inv c(1) by (simp_all add: world_inv_def)
  obtain ls bw where L: "set ls \<subseteq> listed tb" "client_ok tb d eid (?op (mm_comm ?m))"
    "\<And>i. i \<in> listed tb \<Longrightarrow> has_subs (?op (mm_comm ?m)) i \<longleftrightarrow> has_subs (mm_comm ?m) i \<or> i \<in> set ls"
    "\<And>i. i \<in> set ls \<Longrightarrow> \<not> has_subs (mm_comm ?m) i"
    "hc_sent (?op (mm_comm ?m)) = hc_sent (mm_comm ?m) @ (if ls = [] then [] else
      [\<lparr>mq_to = eid, mq_source = hc_self_id (mm_comm ?m), mq_back_word = bw, mq_cmd = SubsInstr (Some ls)\<rparr>])"
    using client_subscribe [OF W(3,1) refl] by blast
  from deliver_subscribe [OF W(2,1) L(1) demand_nonneg refl] obtain e where
    e: "deliver f (if ls = [] then [] else
      [\<lparr>mq_to = eid, mq_source = hc_self_id (mm_comm ?m), mq_back_word = bw, mq_cmd = SubsInstr (Some ls)\<rparr>])
      (mw_engine w) = Inr e"
    "engine_at tb d eid e (\<lambda>i. demand tb w i + of_bool (i \<in> set ls))" by blast
  let ?m1 = "?m\<lparr>mm_comm := ?op (mm_comm ?m)\<rparr>"
  have "world_step f ma (ClientSubscribes c names) w =
      Inr (w\<lparr>mw_engine := e, mw_clients := (mw_clients w)[c := ?m1]\<rparr>)"
    unfolding world_step.simps by (rule client_step_to [OF _ e(1)]) (simp_all add: on_comm_def L(5))
  moreover have "world_inv tb d eid (w\<lparr>mw_engine := e, mw_clients := (mw_clients w)[c := ?m1]\<rparr>)"
    by (rule world_inv_upd [OF inv c(1) _ e(2)]) (use L(2-4) c(2) in \<open>auto simp: counted_def\<close>)
  ultimately show ?thesis by blast
qed

text \<open>Both ways to give up instruments: some names, or all when the client leaves.\<close>

lemma gives_up_ok:
  assumes inv: "world_inv tb d eid w" and c: "c < length (mw_clients w)" "mm_current (mw_clients w ! c)"
    and L: "set ls \<subseteq> listed tb" "client_ok tb d eid (op (mm_comm (mw_clients w ! c)))"
    "\<And>i. i \<in> listed tb \<Longrightarrow> has_subs (op (mm_comm (mw_clients w ! c))) i \<longleftrightarrow>
        has_subs (mm_comm (mw_clients w ! c)) i \<and> i \<notin> set ls"
    "\<And>i. i \<in> set ls \<Longrightarrow> has_subs (mm_comm (mw_clients w ! c)) i"
    "hc_sent (op (mm_comm (mw_clients w ! c))) = hc_sent (mm_comm (mw_clients w ! c)) @ (if ls = [] then [] else
      [\<lparr>mq_to = eid, mq_source = src, mq_back_word = bw, mq_cmd = UnsubsInstr (Some ls)\<rparr>])"
  shows "\<exists>w1. client_step f (on_comm op) c w = Inr w1 \<and> world_inv tb d eid w1"
proof -
  let ?m = "mw_clients w ! c"
  have W: "names_apart tb" "engine_at tb d eid (mw_engine w) (demand tb w)"
    using inv by (simp_all add: world_inv_def)
  have pos: "1 \<le> demand tb w i" if "i \<in> set ls" for i
  proof -
    have "counted ?m i" using L(4) [OF that] c(2) by (simp add: counted_def)
    then have "0 < subscribers (mw_clients w) i" unfolding subscribers_pos using c(1) nth_mem by blast
    then show ?thesis by (simp add: demand_def)
  qed
  from deliver_unsubscribe [OF W(2,1) L(1) pos refl] obtain e where
    e: "deliver f (if ls = [] then [] else
      [\<lparr>mq_to = eid, mq_source = src, mq_back_word = bw, mq_cmd = UnsubsInstr (Some ls)\<rparr>]) (mw_engine w) = Inr e"
    "engine_at tb d eid e (\<lambda>i. demand tb w i - of_bool (i \<in> set ls))" by blast
  let ?m1 = "?m\<lparr>mm_comm := op (mm_comm ?m)\<rparr>"
  have "client_step f (on_comm op) c w = Inr (w\<lparr>mw_engine := e, mw_clients := (mw_clients w)[c := ?m1]\<rparr>)"
    by (rule client_step_to [OF _ e(1)]) (simp_all add: on_comm_def L(5))
  moreover have "world_inv tb d eid (w\<lparr>mw_engine := e, mw_clients := (mw_clients w)[c := ?m1]\<rparr>)"
    by (rule world_inv_upd [OF inv c(1) _ e(2)]) (use L(2-4) c(2) in \<open>auto simp: counted_def\<close>)
  ultimately show ?thesis by blast
qed

lemma unsubscribes_ok:
  assumes "world_inv tb d eid w" "c < length (mw_clients w)" "mm_current (mw_clients w ! c)"
  shows "\<exists>w1. world_step f ma (ClientUnsubscribes c names) w = Inr w1 \<and> world_inv tb d eid w1"
proof -
  have W: "client_ok tb d eid (mm_comm (mw_clients w ! c))" "names_apart tb"
    using assms(1,2) by (simp_all add: world_inv_def)
  show ?thesis unfolding world_step.simps
    by (rule client_unsubscribe [OF W refl, of ma names]) (rule gives_up_ok [OF assms])
qed

lemma leaves_ok:
  assumes "world_inv tb d eid w" "c < length (mw_clients w)" "mm_current (mw_clients w ! c)"
  shows "\<exists>w1. world_step f ma (ClientLeaves c) w = Inr w1 \<and> world_inv tb d eid w1"
proof -
  let ?k = "mm_comm (mw_clients w ! c)"
  have W: "client_ok tb d eid ?k" "names_apart tb" using assms(1,2) by (simp_all add: world_inv_def)
  note N = all_names_iff [OF W]
  obtain bw where L: "client_ok tb d eid (CMDHelperComm_release ma ?k)" "\<And>i. \<not> has_subs (CMDHelperComm_release ma ?k) i"
    "hc_sent (CMDHelperComm_release ma ?k) = hc_sent ?k @ (if all_names ?k = [] then [] else
      [\<lparr>mq_to = eid, mq_source = hc_self_id ?k, mq_back_word = bw, mq_cmd = UnsubsInstr (Some (all_names ?k))\<rparr>])"
    using client_release [OF W(1) refl] by blast
  show ?thesis unfolding world_step.simps
    by (rule gives_up_ok [where op = "CMDHelperComm_release ma", OF assms _ L(1) _ _ L(3)]) (use L(2) N in auto)
qed

lemma reads_start_ok:
  assumes inv: "world_inv tb d eid w" and c: "c < length (mw_clients w)" "mm_starts (mw_clients w ! c) = nano # rest"
    and late: "mm_current (mw_clients w ! c) \<Longrightarrow> nano \<le> now - 5000000000"
  shows "\<exists>w1. world_step f ma (ClientReadsStart c now answered) w = Inr w1 \<and> world_inv tb d eid w1"
proof -
  let ?m = "mw_clients w ! c" and ?fresh = "nano > now - 5000000000"
  have W: "client_ok tb d eid (mm_comm ?m)" "names_apart tb" "day_ok d"
    "engine_at tb d eid (mw_engine w) (demand tb w)"
    using inv c(1) by (simp_all add: world_inv_def)
  then have E: "tb_instr_info (me_base (mw_engine w)) = tb" "tb_trading_day (me_base (mw_engine w)) = d"
    "me_self_id (mw_engine w) = eid" by (simp_all add: engine_at_def)
  let ?ls = "if ?fresh \<and> answered then all_names (mm_comm ?m) else []"
  obtain k1 bw where K: "md_started (base_answers ma now answered (mw_engine w)) nano (mm_comm ?m) = Inr k1"
    "client_ok tb d eid k1" "\<And>i. has_subs k1 i = has_subs (mm_comm ?m) i"
    "hc_sent k1 = hc_sent (mm_comm ?m) @ (if ?fresh
       then \<lparr>mq_to = eid, mq_source = hc_self_id (mm_comm ?m), mq_back_word = hc_request_id (mm_comm ?m) + 1,
             mq_cmd = MdReqBaseInfo\<rparr> #
         (if answered \<and> all_names (mm_comm ?m) \<noteq> []
          then [\<lparr>mq_to = eid, mq_source = hc_self_id (mm_comm ?m), mq_back_word = bw,
                mq_cmd = SubsInstr (Some (all_names (mm_comm ?m)))\<rparr>]
          else [])
       else [])" (is "_ = _ @ ?ps")
    using client_reads_start [OF W(1-3) E(1,2)] by blast
  have ls: "set ?ls \<subseteq> listed tb" using all_names_iff [OF W(1,2)] by auto
  have ans: "engine_at tb d eid (md_answer_with a (mw_engine w)) (demand tb w)" for a using W(4) by simp
  obtain e where e: "deliver f ?ps (mw_engine w) = Inr e"
    "engine_at tb d eid e (\<lambda>i. demand tb w i + of_bool (i \<in> set ?ls))"
  proof (cases ?fresh)
    case True
    let ?p = "\<lparr>mq_to = eid, mq_source = hc_self_id (mm_comm ?m), mq_back_word = bw, mq_cmd = SubsInstr (Some ?ls)\<rparr>"
    let ?rsp = "MdRspBaseInfo (CTradeBaseInfo_toSysIOStruct (hc_self_id (mm_comm ?m)) eid
      (hc_request_id (mm_comm ?m) + 1) (me_base (mw_engine w)))"
    from deliver_subscribe [OF ans W(2) ls demand_nonneg refl] obtain e where
      e: "deliver f (if ?ls = [] then [] else [?p]) (md_answer_with ?rsp (mw_engine w)) = Inr e"
      "engine_at tb d eid e (\<lambda>i. demand tb w i + of_bool (i \<in> set ?ls))" by blast
    have "(if answered \<and> all_names (mm_comm ?m) \<noteq> [] then [\<lparr>mq_to = eid, mq_source = hc_self_id (mm_comm ?m),
        mq_back_word = bw, mq_cmd = SubsInstr (Some (all_names (mm_comm ?m)))\<rparr>] else []) =
      (if ?ls = [] then [] else [?p])" using True by simp
    with True e(1) E(3) have "deliver f ?ps (mw_engine w) = Inr e" by (simp add: md_dispatch_def)
    then show ?thesis using e(2) by (rule that)
  next
    case False
    with W(4) that show ?thesis by simp
  qed
  let ?m1 = "?m\<lparr>mm_comm := k1, mm_starts := rest, mm_current := mm_current ?m \<or> (answered \<and> ?fresh)\<rparr>"
  have "world_step f ma (ClientReadsStart c now answered) w =
      Inr (w\<lparr>mw_engine := e, mw_clients := (mw_clients w)[c := ?m1]\<rparr>)"
    unfolding world_step.simps by (rule client_step_to [OF _ e(1)]) (simp_all add: read_start_def c(2) K(1,4))
  moreover have "world_inv tb d eid (w\<lparr>mw_engine := e, mw_clients := (mw_clients w)[c := ?m1]\<rparr>)"
    by (rule world_inv_upd [OF inv c(1) _ e(2)])
      (use K(2,3) late all_names_iff [OF W(1,2)] in \<open>auto simp: counted_def\<close>)
  ultimately show ?thesis by blast
qed

lemma deliver_queries:
  assumes "engine_at tb d eid e n" "\<forall>p \<in> set ps. mq_cmd p \<in> {HeatBeat, MdReqBaseInfo}"
  shows "\<exists>e1. deliver f ps e = Inr e1 \<and> engine_at tb d eid e1 n"
  using assms
proof (induction ps arbitrary: e)
  case (Cons p ps)
  then have "\<exists>e1. md_dispatch f p e = Inr e1 \<and> engine_at tb d eid e1 n" by (auto simp: md_dispatch_def)
  then obtain e1 where e1: "md_dispatch f p e = Inr e1" "engine_at tb d eid e1 n" by blast
  with Cons.IH [OF e1(2)] Cons.prems(2) show ?case by simp
qed simp

lemma joins_ok:
  assumes inv: "world_inv tb d eid w"
    and legal: "sint (HASH_STR engine) = me_self_id (mw_engine w)" "opens v engine"
  shows "\<exists>w1. world_step f ma (ClientJoins v name engine timeout answered) w = Inr w1 \<and> world_inv tb d eid w1"
proof -
  have W: "names_apart tb" "day_ok d" "engine_at tb d eid (mw_engine w) (demand tb w)"
    "\<forall>m \<in> set (mw_clients w). client_ok tb d eid (mm_comm m)"
    using inv by (simp_all add: world_inv_def)
  then have E: "tb_instr_info (me_base (mw_engine w)) = tb" "tb_trading_day (me_base (mw_engine w)) = d"
    "sint (HASH_STR engine) = eid" using legal(1) by (simp_all add: engine_at_def)
  obtain ok k where k: "CMDHelperComm_init v (base_answers ma 0 answered (mw_engine w)) True engine timeout (-1)
      (CMDHelperComm_new name) = Inr (ok, k)"
    "\<forall>p \<in> set (hc_sent k). mq_cmd p \<in> {HeatBeat, MdReqBaseInfo}"
    "ok \<Longrightarrow> client_ok tb d eid k" "\<And>i. \<not> has_subs k i"
    using client_joins [OF W(1,2) E legal(2)] by blast
  from deliver_queries [OF W(3) k(2)] obtain e where e: "deliver f (hc_sent k) (mw_engine w) = Inr e"
    "engine_at tb d eid e (demand tb w)" by blast
  let ?w = "w\<lparr>mw_engine := e, mw_clients := mw_clients w @
    (if ok then [\<lparr>mm_comm = k, mm_starts = [], mm_current = True\<rparr>] else [])\<rparr>"
  have "demand tb ?w = demand tb w" using k(4) by (simp add: fun_eq_iff demand_def subscribers_def counted_def)
  then have "world_inv tb d eid ?w" using W(1,2,4) e(2) k(3) by (auto simp: world_inv_def)
  with k(1) e(1) show ?thesis by simp
qed

lemma world_step_ok:
  assumes inv: "world_inv tb d eid w" and legal: "world_legal (fresh tb d eid) ev w"
  shows "\<exists>w1. world_step f ma ev w = Inr w1 \<and> world_inv tb d eid w1"
proof (cases ev)
  case (EngineRestarts e preset nano)
  let ?names = "case preset of None \<Rightarrow> [] | Some names \<Rightarrow> names"
  from preset_ok [of tb d eid e preset] legal EngineRestarts obtain e1 where
    e1: "preset_subscribe f preset e = Inr e1" "engine_at tb d eid e1 (\<lambda>i. of_bool (i \<in> set (instr_set_list ?names tb)))"
    by auto
  let ?w = "w\<lparr>mw_engine := e1, mw_preset := ?names,
    mw_clients := map (\<lambda>m. m\<lparr>mm_starts := mm_starts m @ [nano], mm_current := False\<rparr>) (mw_clients w)\<rparr>"
  have "demand tb ?w = (\<lambda>i. of_bool (i \<in> set (instr_set_list ?names tb)))"
    by (simp add: fun_eq_iff demand_def subscribers_def counted_def comp_def)
  with e1(2) inv have "world_inv tb d eid ?w" by (auto simp: world_inv_def)
  with EngineRestarts e1(1) show ?thesis by simp
next
  case (ClientReadsStart c now answered)
  with legal obtain nano rest where "mm_starts (mw_clients w ! c) = nano # rest" "c < length (mw_clients w)"
    "mm_current (mw_clients w ! c) \<Longrightarrow> nano \<le> now - 5000000000"
    by (auto split: list.splits)
  with reads_start_ok [OF inv] ClientReadsStart show ?thesis by blast
qed (use inv legal subscribes_ok unsubscribes_ok leaves_ok joins_ok in auto)

end

sublocale md_front \<subseteq> world: guarded_machine "world_step f ma" "world_legal (fresh tb d eid)" "world_inv tb d eid"
  for ma tb d eid
  by unfold_locales (rule world_step_ok)

section \<open>The two vendors\<close>

text \<open>What the vendors' interfaces were asked for, read as a set of subscribed instruments.\<close>

definition ctp_front_set :: "front_call list \<Rightarrow> string set" where
  "ctp_front_set calls =
     fold (\<lambda>c A. case c of CallSubscribe ls \<Rightarrow> A \<union> set ls | CallUnsubscribe ls \<Rightarrow> A - set ls | _ \<Rightarrow> A) calls {}"

definition ees_front_set :: "ees_call list \<Rightarrow> string set" where
  "ees_front_set calls =
     fold (\<lambda>c A. case c of EesRegister i \<Rightarrow> insert i A | EesUnregister i \<Rightarrow> A - {i} | _ \<Rightarrow> A) calls {}"

lemma ees_subscribe_ok:
  "mx_api s \<Longrightarrow> \<exists>t. CMDEngineEES_subscribe ls s = Inr t \<and> mx_api t \<and>
     ees_front_set (mx_calls t) = ees_front_set (mx_calls s) \<union> set ls \<and>
     me_subs_instr t = me_subs_instr s \<and> me_base t = me_base s \<and> me_self_id t = me_self_id s"
proof (induction ls arbitrary: s)
  case (Cons i ls)
  have "mx_api (s\<lparr>mx_calls := mx_calls s @ [EesRegister i]\<rparr>)" using Cons.prems by simp
  from Cons.IH [OF this] Cons.prems show ?case by (auto simp: ees_call_def ees_front_set_def)
qed auto

lemma ees_unsubscribe_ok:
  "mx_api s \<Longrightarrow> \<exists>t. CMDEngineEES_unsubscribe ls s = Inr t \<and> mx_api t \<and>
     ees_front_set (mx_calls t) = ees_front_set (mx_calls s) - set ls \<and>
     me_subs_instr t = me_subs_instr s \<and> me_base t = me_base s \<and> me_self_id t = me_self_id s"
proof (induction ls arbitrary: s)
  case (Cons i ls)
  have "mx_api (s\<lparr>mx_calls := mx_calls s @ [EesUnregister i]\<rparr>)" using Cons.prems by simp
  from Cons.IH [OF this] Cons.prems show ?case by (auto simp: ees_call_def ees_front_set_def)
qed auto

interpretation ctp_front: md_front ctp_virtuals "\<lambda>s. ctp_front_set (mc_calls s)" mc_api
  by unfold_locales
    (auto simp: ctp_virtuals_def CMDEngineCtp_subscribe_def CMDEngineCtp_unsubscribe_def front_call_def
      ctp_front_set_def)

interpretation ees_front: md_front ees_virtuals "\<lambda>s. ees_front_set (mx_calls s)" mx_api
  by unfold_locales (auto simp: ees_virtuals_def intro: ees_subscribe_ok ees_unsubscribe_ok)

end
