(* ===== verification/Md_Properties.thy ===== *)
theory Md_Properties
  imports Md_World Io_Properties
begin

text \<open>
  What holds for the distribution of market data: the times of the ticks, the counts of an engine against its
  clients' subscriptions, and what a client reads from the engine's channel.
\<close>

section \<open>The time of a tick\<close>

text \<open>The clock of the exchange at a second of its day.\<close>

definition clock_digit :: "int \<Rightarrow> char" where
  "clock_digit n = char_of (48 + n)"

definition clock_str :: "int \<Rightarrow> string" where
  "clock_str s =
     [clock_digit (s div 36000), clock_digit (s div 3600 mod 10), CHR '':'',
      clock_digit (s div 600 mod 6), clock_digit (s div 60 mod 10), CHR '':'',
      clock_digit (s div 10 mod 6), clock_digit (s mod 10)]"

text \<open>The arithmetic of hours, minutes and days, over plain variables.\<close>

lemma first_digit:
  fixes s e r :: int
  assumes "s = 36000 * e + r" "0 \<le> r" "r < 36000" "0 \<le> s" "s < 86400"
  shows "0 \<le> e" "e < 10" "48 + e = 48 \<longleftrightarrow> s < 36000" "48 + e = 50 \<longleftrightarrow> 72000 \<le> s"
proof -
  show e: "0 \<le> e" and "e < 10" using assms by linarith+
  show "48 + e = 48 \<longleftrightarrow> s < 36000" using assms e by (intro iffI) linarith+
  show "48 + e = 50 \<longleftrightarrow> 72000 \<le> s" using assms e by (intro iffI) linarith+
qed

lemma digits_sum:
  fixes s :: int
  assumes "s = 10 * a + m1" "a = 6 * b + m2" "b = 10 * c + m3" "c = 6 * d + m4" "d = 10 * e + m5"
  shows "(48 + e) * 36000 + (48 + m5) * 3600 + (48 + m4) * 600 + (48 + m3) * 60 + (48 + m2) * 10 + (48 + m1) -
    1933008 = s"
  using assms by simp

lemma shifted_day:
  fixes s t q b :: int
  assumes "t = 86400 * q + s" "0 \<le> s" "s < 86400"
  shows "s + b + (if s < 36000 then 86400 else 0) = b + t \<longleftrightarrow> 36000 \<le> t \<and> t < 36000 + 86400"
    "s + b - (if 72000 \<le> s then 86400 else 0) = b + t \<longleftrightarrow> 72000 - 86400 \<le> t \<and> t < 72000"
proof -
  consider "q \<le> -2" | "q = -1" | "q = 0" | "q = 1" | "2 \<le> q" by linarith
  then show "s + b + (if s < 36000 then 86400 else 0) = b + t \<longleftrightarrow> 36000 \<le> t \<and> t < 36000 + 86400"
    using assms by cases auto
  consider "q \<le> -2" | "q = -1" | "q = 0" | "1 \<le> q" by linarith
  then show "s + b - (if 72000 \<le> s then 86400 else 0) = b + t \<longleftrightarrow> 72000 - 86400 \<le> t \<and> t < 72000"
    using assms by cases auto
qed

lemma clock_chars:
  assumes "0 \<le> s" "s < 86400"
  shows "char_at (clock_str s) 0 = 48 + s div 36000" "char_at (clock_str s) 1 = 48 + s div 3600 mod 10"
    "char_at (clock_str s) 3 = 48 + s div 600 mod 6" "char_at (clock_str s) 4 = 48 + s div 60 mod 10"
    "char_at (clock_str s) 6 = 48 + s div 10 mod 6" "char_at (clock_str s) 7 = 48 + s mod 10"
proof -
  have d: "of_char (clock_digit n) = 48 + n" if "0 \<le> n" "n < 10" for n :: int
    using that by (simp add: clock_digit_def)
  have "0 \<le> s div 36000" "s div 36000 < 10"
    by (rule first_digit [of s _ "s mod 36000"], use assms in simp_all)+
  moreover have "0 \<le> x mod 6 \<and> x mod 6 < 10" for x :: int using pos_mod_bound [of 6 x] by simp
  ultimately have b: "0 \<le> s div 36000 \<and> s div 36000 < 10" "0 \<le> s div 600 mod 6 \<and> s div 600 mod 6 < 10"
    "0 \<le> s div 10 mod 6 \<and> s div 10 mod 6 < 10" by blast+
  show "char_at (clock_str s) 0 = 48 + s div 36000" "char_at (clock_str s) 1 = 48 + s div 3600 mod 10"
    "char_at (clock_str s) 3 = 48 + s div 600 mod 6" "char_at (clock_str s) 4 = 48 + s div 60 mod 10"
    "char_at (clock_str s) 6 = 48 + s div 10 mod 6" "char_at (clock_str s) 7 = 48 + s mod 10"
    using b by (simp_all add: char_at_def clock_str_def d)
qed

lemma clock_seconds:
  assumes "0 \<le> s" "s < 86400"
  shows "getSecondsFromClockStr (clock_str s) = s"
proof -
  let ?a = "s div 10" and ?b = "s div 60" and ?c = "s div 600" and ?d = "s div 3600" and ?e = "s div 36000"
  have d: "?b = ?a div 6" "?c = ?b div 10" "?d = ?c div 6" "?e = ?d div 10"
    by (simp_all add: zdiv_zmult2_eq [symmetric])
  show ?thesis unfolding getSecondsFromClockStr_def clock_chars [OF assms]
    by (rule digits_sum [where a = ?a and b = ?b and c = ?c and d = ?d and e = ?e]) (simp_all only: mult_div_mod_eq d)
qed

text \<open>
  The exchange's clock has no date, so the engine completes it. For a tick at second \<open>t\<close> after the midnight
  before the start of the engine, the time stored in the tick is the true one exactly if the tick falls into the
  24 hours from 10:00 of that day for an engine started for the night session, or from 20:00 of the day before
  for one started for the day session. An engine of the night session that runs on after 10:00 of the next
  morning stores times one day too early from then on.
\<close>

theorem quote_time_is_true:
  "quote_time mode day_begin (clock_str (t mod 86400)) ms = (day_begin + t) * 1000000000 + ms * 1000000 \<longleftrightarrow>
   (case mode of MODE_NIGHT \<Rightarrow> 36000 \<le> t \<and> t < 36000 + 86400 | MODE_DAY \<Rightarrow> 72000 - 86400 \<le> t \<and> t < 72000)"
proof -
  let ?s = "t mod 86400"
  have s: "0 \<le> ?s" "?s < 86400" by simp_all
  have c: "of_char (CHR ''0'') = (48 :: int)" "of_char (CHR ''2'') = (50 :: int)" by simp_all
  have first: "char_at (clock_str ?s) 0 = 48 \<longleftrightarrow> ?s < 36000" "char_at (clock_str ?s) 0 = 50 \<longleftrightarrow> 72000 \<le> ?s"
    unfolding clock_chars(1) [OF s]
    by (rule first_digit(3) [of ?s _ "?s mod 36000"] first_digit(4) [of ?s _ "?s mod 36000"]; use s in simp)+
  have scale: "x * 1000000000 + m = y * 1000000000 + m \<longleftrightarrow> x = y" for x y m :: int by simp
  note day = shifted_day [of t "t div 86400" ?s, OF mult_div_mod_eq [symmetric] s]
  show ?thesis
  proof (cases mode)
    case MODE_NIGHT
    then have "quote_time mode day_begin (clock_str ?s) ms =
        (?s + day_begin + (if ?s < 36000 then 86400 else 0)) * 1000000000 + ms * 1000000"
      by (simp add: quote_time_def clock_seconds [OF s] c first algebra_simps)
    then show ?thesis unfolding scale using MODE_NIGHT by (simp only: scale day(1) day_night.case)
  next
    case MODE_DAY
    then have "quote_time mode day_begin (clock_str ?s) ms =
        (?s + day_begin - (if 72000 \<le> ?s then 86400 else 0)) * 1000000000 + ms * 1000000"
      by (simp add: quote_time_def clock_seconds [OF s] c first algebra_simps)
    then show ?thesis unfolding scale using MODE_DAY by (simp only: scale day(2) day_night.case)
  qed
qed

section \<open>The counts\<close>

definition ctp_fresh :: "instr_table \<Rightarrow> string \<Rightarrow> int \<Rightarrow> md_ctp \<Rightarrow> bool" where
  "ctp_fresh tb d eid e \<longleftrightarrow> mc_api e \<and> tb_instr_info (me_base e) = tb \<and> tb_trading_day (me_base e) = d \<and>
     me_self_id e = eid \<and> me_subs_instr e = [] \<and> ctp_front_set (mc_calls e) = {}"

lemma ctp_fresh_eq: "ctp_front.fresh = ctp_fresh"
  by (simp add: fun_eq_iff ctp_fresh_def ctp_front.fresh_def)

definition engine_alone :: "'s \<Rightarrow> 's md_world" where
  "engine_alone e = \<lparr>mw_engine = e, mw_preset = [], mw_clients = []\<rparr>"

lemma subscribers_length: "subscribers ms i = int (length (filter (\<lambda>m. counted m i) ms))"
  by (induction ms) (auto simp: subscribers_def)

lemma counted_names:
  assumes "client_ok tb d eid (mm_comm m)" "names_apart tb"
  shows "mm_current m \<and> i \<in> set (IMDHelper_getSubscribedInstrument (mm_comm m)) \<longleftrightarrow> i \<in> listed tb \<and> counted m i"
  using all_names_iff [OF assms] by (auto simp: counted_def all_names_def IMDHelper_getSubscribedInstrument_def)

text \<open>What the invariant of the world says in terms of the clients' lists.\<close>

lemma ctp_world_counts:
  assumes "ctp_front.world_inv tb d eid w"
  shows "map_of (me_subs_instr (mw_engine w)) i =
      (let n = int (length (filter (\<lambda>m. mm_current m \<and> i \<in> set (IMDHelper_getSubscribedInstrument (mm_comm m)))
                 (mw_clients w))) + of_bool (i \<in> CTradeBaseInfo_productToInstrSet (mw_preset w) tb)
       in if n = 0 then None else Some n)" (is ?count)
    and "ctp_front_set (mc_calls (mw_engine w)) =
      (\<Union>m \<in> {m \<in> set (mw_clients w). mm_current m}. set (IMDHelper_getSubscribedInstrument (mm_comm m))) \<union>
      CTradeBaseInfo_productToInstrSet (mw_preset w) tb" (is ?front)
proof -
  have apart: "names_apart tb" and at: "ctp_front.engine_at tb d eid (mw_engine w) (demand tb w)"
    and ok: "\<And>m. m \<in> set (mw_clients w) \<Longrightarrow> client_ok tb d eid (mm_comm m)"
    using assms by (simp_all add: ctp_front.world_inv_def)
  note names = counted_names [OF ok apart]
  have preset: "CTradeBaseInfo_productToInstrSet (mw_preset w) tb \<subseteq> listed tb"
    using instr_set_shown(1) instr_set_iff by blast
  have "filter (\<lambda>m. mm_current m \<and> i \<in> set (IMDHelper_getSubscribedInstrument (mm_comm m))) (mw_clients w) =
      filter (\<lambda>m. i \<in> listed tb \<and> counted m i) (mw_clients w)" for i
    by (rule filter_cong) (simp_all add: names)
  then have len: "int (length (filter (\<lambda>m. mm_current m \<and> i \<in> set (IMDHelper_getSubscribedInstrument (mm_comm m)))
      (mw_clients w))) + of_bool (i \<in> CTradeBaseInfo_productToInstrSet (mw_preset w) tb) =
      (if i \<in> listed tb then demand tb w i else 0)" for i
    using preset by (auto simp: demand_def subscribers_length instr_set_iff)
  have "map_of (me_subs_instr (mw_engine w)) i = (let n = (if i \<in> listed tb then demand tb w i else 0)
      in if n = 0 then None else Some n)"
    using at demand_nonneg [of tb w i] by (simp add: ctp_front.engine_at_def Let_def)
  with len show ?count by simp
  have "0 < demand tb w i \<longleftrightarrow>
      (\<exists>m \<in> set (mw_clients w). counted m i) \<or> i \<in> CTradeBaseInfo_productToInstrSet (mw_preset w) tb" for i
    using subscribers_nonneg [of "mw_clients w" i] subscribers_pos [of "mw_clients w" i]
    by (auto simp: demand_def instr_set_iff)
  then have "ctp_front_set (mc_calls (mw_engine w)) = {i \<in> listed tb.
      (\<exists>m \<in> set (mw_clients w). counted m i) \<or> i \<in> CTradeBaseInfo_productToInstrSet (mw_preset w) tb}"
    using at by (simp add: ctp_front.engine_at_def)
  moreover have "(\<Union>m \<in> {m \<in> set (mw_clients w). mm_current m}. set (IMDHelper_getSubscribedInstrument (mm_comm m))) =
      {i. \<exists>m \<in> set (mw_clients w). mm_current m \<and> i \<in> set (IMDHelper_getSubscribedInstrument (mm_comm m))}" by auto
  moreover have "\<dots> = {i. \<exists>m \<in> set (mw_clients w). i \<in> listed tb \<and> counted m i}" using names by auto
  ultimately show ?front using preset by auto
qed

text \<open>
  C21. Clients of one trading day join a market data engine, subscribe and unsubscribe instruments, products or
  all, and leave, and the engine is restarted, with or without a list in its configuration: it forgets what its
  clients have, and each of them comes upon the start frame in its own time, asks for the base information and,
  if the frame is younger than five seconds and an answer comes, subscribes again what it has
  (\<^verbatim>\<open>md_started\<close>). Then no step faults, the engine's count of an instrument is the number of its current clients
  that have it, the list of its configuration counted like one more client, and the instruments
  subscribed at the front are exactly those. A client is current since it joined the running engine, or since it
  subscribed again; one that comes too late or gets no answer is not, and is not counted. The
  legal runs (\<open>world_legal\<close>) are those where only current clients change what they have and no current client
  comes upon a fresh start frame: its subscriptions would be counted twice (\<open>early_subscription_is_counted_twice\<close>).
  A client that joins names this engine and finds its channel readable. No instrument is named like a product, or
  \<^verbatim>\<open>all\<close> (\<open>names_apart\<close>), so that the engine takes the names a client sends for instruments. A change of the day
  and \<^verbatim>\<open>forceUnsubscribe\<close>, which takes away what other clients have, are not in the machine.
\<close>

theorem engine_counts_its_clients:
  assumes "names_apart tb" "day_ok d" "ctp_fresh tb d eid e"
    and "legal_run (world_step ctp_virtuals ma) (world_legal (ctp_fresh tb d eid)) es (engine_alone e)"
  shows "\<exists>w. run_steps (world_step ctp_virtuals ma) es (engine_alone e) = Inr w \<and>
    (\<forall>i. map_of (me_subs_instr (mw_engine w)) i =
      (let n = int (length (filter (\<lambda>m. mm_current m \<and> i \<in> set (IMDHelper_getSubscribedInstrument (mm_comm m)))
                 (mw_clients w))) + of_bool (i \<in> CTradeBaseInfo_productToInstrSet (mw_preset w) tb)
       in if n = 0 then None else Some n)) \<and>
    ctp_front_set (mc_calls (mw_engine w)) =
      (\<Union>m \<in> {m \<in> set (mw_clients w). mm_current m}. set (IMDHelper_getSubscribedInstrument (mm_comm m))) \<union>
      CTradeBaseInfo_productToInstrSet (mw_preset w) tb"
proof -
  have "demand tb (engine_alone e) = (\<lambda>_. 0)"
    by (simp add: fun_eq_iff demand_def engine_alone_def subscribers_def instr_set_list_def
      CTradeBaseInfo_productToInstrSet_def)
  then have "ctp_front.world_inv tb d eid (engine_alone e)"
    using assms(1-3) ctp_front.fresh_at [of tb d eid e]
    by (simp add: ctp_front.world_inv_def ctp_fresh_eq engine_alone_def)
  from ctp_front.world.run_inv [OF this, unfolded ctp_fresh_eq, OF assms(4)] obtain w where
    w: "run_steps (world_step ctp_virtuals ma) es (engine_alone e) = Inr w" "ctp_front.world_inv tb d eid w" by blast
  with ctp_world_counts [OF w(2)] show ?thesis by blast
qed

definition md_info :: "string \<Rightarrow> string \<Rightarrow> instrument_info" where
  "md_info i p = \<lparr>ii_instr_hash = INSTR_NAME_TO_HASH i, ii_instr = i, ii_exch = 4, ii_product = p,
     ii_product_hash = INSTR_NAME_TO_HASH p, ii_vol_multiple = 10, ii_tick_price = 1, ii_expire_date = [],
     ii_is_trading = True\<rparr>"

definition md_tb :: instr_table where
  "md_tb = [(INSTR_NAME_TO_HASH ''rb2210'', md_info ''rb2210'' ''rb''), (INSTR_NAME_TO_HASH ''hc2210'', md_info ''hc2210'' ''hc'')]"

lemma md_tb_apart: "names_apart md_tb"
proof -
  have "um_ok md_tb" by code_simp
  then show ?thesis by (simp add: names_apart_def base_ok_def info_ok_def md_tb_def md_info_def is_all_def)
qed

definition md_base :: trade_base where
  "md_base = trade_base_init\<lparr>tb_trading_day := ''20211213'', tb_instr_info := md_tb, tb_is_init := True\<rparr>"

definition md_engine0 :: md_ctp where
  "md_engine0 = \<lparr>me_do_running = True, me_day_night_mode = MODE_DAY, me_subs_instr = [], me_name = ''md'',
     me_self_id = sint (HASH_STR ''md''), me_md_writer = CRawIOWriter_new 4096 True [],
     me_base = md_base, me_sys_out = [],
     mc_api = True, mc_reqid = 0, mc_is_login = True, mc_calls = [], mc_exited = False\<rparr>"

definition md_client0 :: "string \<Rightarrow> md_comm" where
  "md_client0 name = \<lparr>mh_subs_instr_hash_map = [], mh_name = name, hc_self_id = 1, hc_reader = CRawIOReader_new,
     hc_md_engine_id = sint (HASH_STR ''md''), hc_timeout = 5, hc_base = md_base,
     hc_request_id = 0, hc_sent = []\<rparr>"

definition md_yes :: "md_comm md_answers" where
  "md_yes = \<lparr>ma_ack = (\<lambda>_. True), ma_names = (\<lambda>_. None), ma_base = (\<lambda>_. None), ma_now = 0,
     ma_switch_day = (\<lambda>_ s. Inr s)\<rparr>"

text \<open>
  Two clients join and subscribe; the engine is restarted with a list of its own; one client reads the start
  frame at once and goes on, the other one six seconds later.
\<close>

definition md_joins :: "string \<Rightarrow> md_ctp md_event" where
  "md_joins name = ClientJoins (view_of zero_md_frame (\<lambda>_. True) []) name ''md'' 5 True"

definition md_events :: "md_ctp md_event list" where
  "md_events = [md_joins ''a'', md_joins ''b'', ClientSubscribes 0 [''rb''], ClientSubscribes 1 [''all''],
     EngineRestarts md_engine0 (Some [''rb'']) 100, ClientReadsStart 0 101 True,
     ClientUnsubscribes 0 [''rb2210''], ClientSubscribes 0 [''hc2210''], ClientReadsStart 1 6000000100 True]"

lemma md_legal: "legal_run (world_step ctp_virtuals md_yes)
   (world_legal (ctp_fresh md_tb ''20211213'' (sint (HASH_STR ''md'')))) md_events (engine_alone md_engine0)"
  by code_simp

theorem engine_counts_its_clients_witness:
  "\<exists>w. run_steps (world_step ctp_virtuals md_yes) md_events (engine_alone md_engine0) = Inr w \<and>
    ctp_front_set (mc_calls (mw_engine w)) =
      (\<Union>m \<in> {m \<in> set (mw_clients w). mm_current m}. set (IMDHelper_getSubscribedInstrument (mm_comm m))) \<union>
      CTradeBaseInfo_productToInstrSet (mw_preset w) md_tb"
proof -
  have "ctp_fresh md_tb ''20211213'' (sint (HASH_STR ''md'')) md_engine0"
    by (simp add: ctp_fresh_def md_engine0_def md_base_def ctp_front_set_def)
  moreover have "day_ok ''20211213''" by (simp add: day_ok_def)
  ultimately show ?thesis using engine_counts_its_clients [OF md_tb_apart _ _ md_legal] by blast
qed

lemma md_events_end:
  "(case run_steps (world_step ctp_virtuals md_yes) md_events (engine_alone md_engine0) of
      Inl f \<Rightarrow> False
    | Inr w \<Rightarrow> map mm_current (mw_clients w) = [True, False] \<and>
        map (\<lambda>m. IMDHelper_getSubscribedInstrument (mm_comm m)) (mw_clients w) =
          [[''hc2210''], [''hc2210'', ''rb2210'']] \<and>
        map_of (me_subs_instr (mw_engine w)) ''hc2210'' = Some 1 \<and>
        map_of (me_subs_instr (mw_engine w)) ''rb2210'' = Some 1)"
  by code_simp

text \<open>
  A client that subscribes after a restart of its engine and before it comes upon the start frame subscribes
  twice: the engine counts two where there is one client, and keeps one when the client has left.
\<close>

lemma early_subscription_is_counted_twice:
  "(case run_steps (world_step ctp_virtuals md_yes)
        [md_joins ''a'', EngineRestarts md_engine0 None 100, ClientSubscribes 0 [''rb2210''], ClientReadsStart 0 101 True]
        (engine_alone md_engine0) of
      Inl f \<Rightarrow> False
    | Inr w \<Rightarrow> length (mw_clients w) = 1 \<and> map_of (me_subs_instr (mw_engine w)) ''rb2210'' = Some 2 \<and>
        (case world_step ctp_virtuals md_yes (ClientLeaves 0) w of
           Inl f \<Rightarrow> False | Inr w1 \<Rightarrow> map_of (me_subs_instr (mw_engine w1)) ''rb2210'' = Some 1))"
  by code_simp

section \<open>Reading\<close>

definition wanted :: "'a md_helper_scheme \<Rightarrow> md_frame \<Rightarrow> bool" where
  "wanted k x \<longleftrightarrow> mf_cmd x = IO_MARKET_DATA \<and> \<not> IMDHelper_filter (mf_market_data x) k"

text \<open>The ticks a client gets by calling \<^verbatim>\<open>read\<close> until it returns nothing.\<close>

fun read_ticks ::
    "nat \<Rightarrow> nat \<Rightarrow> md_frame io_view \<Rightarrow> md_comm md_answers \<Rightarrow> md_comm \<Rightarrow> (market_data list \<times> md_comm) res" where
  "read_ticks 0 n v ma k = Inl OutOfFuel"
| "read_ticks (Suc m) n v ma k =
     res_bind (CMDHelperComm_read n v ma k) (\<lambda>(d, k1).
       case d of
         None \<Rightarrow> Inr ([], k1)
       | Some (t, nano) \<Rightarrow> res_bind (read_ticks m n v ma k1) (\<lambda>(ts, k2). Inr (t # ts, k2)))"

lemma read_seen_page:
  "read_seen v st r = Inr (Some (x, len), r1) \<Longrightarrow> \<exists>p. rd_page v r1 = Inr p"
proof (induction v st r rule: read_seen.induct)
  case (1 v st r)
  show ?case
  proof (cases "rd_fd r")
    case False
    with "1.prems" obtain r2 where a: "CRawIOReader_load v (rd_page_num r) r = (True, r2)"
      "read_seen v (case rd_page v r2 of Inl _ \<Rightarrow> 0 | Inr p \<Rightarrow> pg_status p) r2 = Inr (Some (x, len), r1)"
      by (auto simp: read_seen.simps [of v st r] split: prod.splits bool.splits)
    show ?thesis by (rule "1.IH"(2) [OF False sym [OF a(1)] refl a(2)])
  next
    case True
    with "1.prems" obtain p where p: "rd_page v r = Inr p"
      by (auto simp: read_seen.simps [of v st r] split: sum.splits)
    show ?thesis
    proof (cases "rd_cursor r < pg_tail p")
      case True
      with \<open>rd_fd r\<close> p "1.prems" have "\<exists>c. r1 = r\<lparr>rd_cursor := c\<rparr>"
        by (auto simp: read_seen.simps [of v st r] Let_def split: if_splits)
      with p show ?thesis by (auto simp: rd_page_def)
    next
      case False
      with \<open>rd_fd r\<close> p "1.prems" obtain r2 where a: "st = PAGE_STATUS_FINISH" "next_page v r = (True, r2)"
        "read_seen v (case rd_page v r2 of Inl _ \<Rightarrow> 0 | Inr p \<Rightarrow> pg_status p) r2 = Inr (Some (x, len), r1)"
        by (auto simp: read_seen.simps [of v st r] split: prod.splits bool.splits if_splits)
      show ?thesis
        by (rule "1.IH"(1) [OF \<open>rd_fd r\<close> p False a(1) sym [OF a(2)] refl a(3)])
    qed
  qed
qed

lemma read_nano_ok:
  "CRawIOReader_read v r = Inr (Some (x, len), r1) \<Longrightarrow> \<exists>nano. read_nano v len r1 = Inr nano"
  unfolding CRawIOReader_read_def read_nano_def by (auto dest: read_seen_page)

text \<open>
  Frames and answers of the client's trading day: then neither a base information in the channel nor a start of
  the engine changes what the client has or knows.
\<close>

definition of_the_day :: "'a md_comm_scheme \<Rightarrow> td_base_info \<Rightarrow> bool" where
  "of_the_day k p \<longleftrightarrow> bi_trading_day p = tb_trading_day (hc_base k)"

definition same_client :: "md_comm \<Rightarrow> md_comm \<Rightarrow> bool" where
  "same_client k1 k \<longleftrightarrow> mh_subs_instr_hash_map k1 = mh_subs_instr_hash_map k \<and> hc_base k1 = hc_base k"

lemma same_client_simps [simp]:
  "same_client k k" "same_client (k\<lparr>hc_reader := r\<rparr>) k"
  by (simp_all add: same_client_def)

lemma same_client_trans: "same_client k2 k1 \<Longrightarrow> same_client k1 k \<Longrightarrow> same_client k2 k"
  by (simp add: same_client_def)

lemma same_wanted: "same_client k1 k \<Longrightarrow> wanted k1 = wanted k" "same_client k1 k \<Longrightarrow> of_the_day k1 = of_the_day k"
  by (simp_all add: fun_eq_iff same_client_def wanted_def IMDHelper_filter_def of_the_day_def)

lemma started_same:
  assumes "\<forall>n p. ma_base ma n = Some p \<longrightarrow> of_the_day k p"
  shows "\<exists>k1. md_started ma nano k = Inr k1 \<and> hc_reader k1 = hc_reader k \<and> same_client k1 k"
proof (cases "ma_base ma (hc_request_id k + 1)")
  case None
  then show ?thesis
    by (simp add: md_started_def CMDHelperComm_qryTradeBaseInfo_def send_request_def same_client_def)
next
  case (Some p)
  with assms have "bi_trading_day p = tb_trading_day (hc_base k)" by (simp add: of_the_day_def)
  with Some show ?thesis
    by (simp add: md_started_def CMDHelperComm_qryTradeBaseInfo_def send_request_def same_client_def run_update_def
      CTradeBaseInfo_update_def IMDHelper_reSubscribe_def CMDHelperComm_doSubscribe_def Let_def)
qed

text \<open>One call.\<close>

lemma comm_read_passes:
  assumes "CRawIOReader_read v (hc_reader k) = Inr (Some (x, len), r)"
    and "\<not> wanted k x" "mf_cmd x = IO_TD_RSP_BASE_INFO \<longrightarrow> of_the_day k (mf_base_info x)"
    and "\<forall>n p. ma_base ma n = Some p \<longrightarrow> of_the_day k p"
  shows "\<exists>k1. CMDHelperComm_read (Suc m) v ma k = CMDHelperComm_read m v ma k1 \<and> hc_reader k1 = r \<and> same_client k1 k"
proof -
  let ?k = "k\<lparr>hc_reader := r\<rparr>"
  obtain nano where nano: "read_nano v len r = Inr nano" using read_nano_ok [OF assms(1)] by blast
  have same: "wanted ?k = wanted k" "of_the_day ?k = of_the_day k" by (simp_all add: same_wanted)
  then obtain k1 where k1: "md_started ma nano ?k = Inr k1" "hc_reader k1 = r" "same_client k1 ?k"
    using started_same [of ma ?k nano] assms(4) by auto
  have k: "same_client k1 k" by (rule same_client_trans [OF k1(3)]) simp
  consider "mf_cmd x = IO_MARKET_DATA" | "mf_cmd x = IO_MD_START" "mf_cmd x \<noteq> IO_MARKET_DATA"
    | "mf_cmd x = IO_TD_RSP_BASE_INFO" "mf_cmd x \<noteq> IO_MARKET_DATA" "mf_cmd x \<noteq> IO_MD_START"
    | "mf_cmd x \<noteq> IO_MARKET_DATA" "mf_cmd x \<noteq> IO_MD_START" "mf_cmd x \<noteq> IO_TD_RSP_BASE_INFO" by blast
  then show ?thesis
  proof cases
    case 1
    with assms(1,2) nano have "CMDHelperComm_read (Suc m) v ma k = CMDHelperComm_read m v ma ?k"
      by (simp add: wanted_def IMDHelper_filter_def)
    then show ?thesis by (intro exI [of _ ?k]) simp
  next
    case 2
    with assms(1) nano k1(1) have "CMDHelperComm_read (Suc m) v ma k = CMDHelperComm_read m v ma k1" by simp
    then show ?thesis using k1(2) k by blast
  next
    case 3
    with assms(3) have "run_update ma (mf_base_info x) ?k = Inr (False, ?k)"
      by (simp add: run_update_def CTradeBaseInfo_update_def of_the_day_def)
    with 3 assms(1) nano have "CMDHelperComm_read (Suc m) v ma k = CMDHelperComm_read m v ma ?k" by simp
    then show ?thesis by (intro exI [of _ ?k]) simp
  next
    case 4
    with assms(1) nano have "CMDHelperComm_read (Suc m) v ma k = CMDHelperComm_read m v ma ?k" by simp
    then show ?thesis by (intro exI [of _ ?k]) simp
  qed
qed

lemma comm_read_ok:
  assumes "chan_inv ps zero_md_frame s" "drop (iow_skip s) (iow_log s) = iow_got s @ rest"
    and "\<forall>x \<in> set rest. mf_cmd x = IO_TD_RSP_BASE_INFO \<longrightarrow> of_the_day k (mf_base_info x)"
    and "\<forall>n p. ma_base ma n = Some p \<longrightarrow> of_the_day k p" "length rest < n" "hc_reader k = iow_reader s"
    and "v = view_of zero_md_frame (\<lambda>_. True) (wr_files (iow_writer s))"
  shows "\<exists>d k1 s1 rest1. CMDHelperComm_read n v ma k = Inr (d, k1) \<and> hc_reader k1 = iow_reader s1 \<and>
    same_client k1 k \<and> chan_inv ps zero_md_frame s1 \<and> iow_writer s1 = iow_writer s \<and>
    drop (iow_skip s1) (iow_log s1) = iow_got s1 @ rest1 \<and> (\<exists>xs. rest = xs @ rest1) \<and>
    (case d of
       None \<Rightarrow> filter (wanted k) rest = []
     | Some (t, _) \<Rightarrow> length rest1 < length rest \<and>
         map mf_market_data (filter (wanted k) rest) = t # map mf_market_data (filter (wanted k) rest1))"
  using assms
proof (induction rest arbitrary: s k n)
  case Nil
  then obtain m where n: "n = Suc m" by (cases n) auto
  from next_frame [OF Nil.prems(1,2)] obtain r where r:
    "CRawIOReader_read v (iow_reader s) = Inr (None, r)"
    "chan_inv ps zero_md_frame (s\<lparr>iow_reader := r, iow_seen := None\<rparr>)"
    by (auto simp: Nil.prems(7))
  then have "CMDHelperComm_read n v ma k = Inr (None, k\<lparr>hc_reader := r\<rparr>)"
    by (simp add: n Nil.prems(6))
  with r(2) Nil.prems(2) show ?case
    by (intro exI [of _ None] exI [of _ "k\<lparr>hc_reader := r\<rparr>"] exI [of _ "s\<lparr>iow_reader := r, iow_seen := None\<rparr>"]
        exI [of _ "[]"]) simp
next
  case (Cons x rest)
  then obtain m where n: "n = Suc m" by (cases n) auto
  from next_frame [OF Cons.prems(1,2)] obtain len r where r:
    "CRawIOReader_read v (iow_reader s) = Inr (Some (x, len), r)"
    "chan_inv ps zero_md_frame (s\<lparr>iow_reader := r, iow_seen := None, iow_got := iow_got s @ [x]\<rparr>)"
    by (auto simp: Cons.prems(7))
  let ?s = "s\<lparr>iow_reader := r, iow_seen := None, iow_got := iow_got s @ [x]\<rparr>" and ?k = "k\<lparr>hc_reader := r\<rparr>"
  obtain nano where nano: "read_nano v len r = Inr nano" using read_nano_ok [OF r(1)] by blast
  have drop: "drop (iow_skip ?s) (iow_log ?s) = iow_got ?s @ rest" using Cons.prems(2) by simp
  show ?case
  proof (cases "wanted k x")
    case True
    then have "CMDHelperComm_read n v ma k = Inr (Some (mf_market_data x, nano), ?k)"
      using r(1) nano by (simp add: n Cons.prems(6) wanted_def IMDHelper_filter_def)
    with r(2) drop True show ?thesis
      by (intro exI [of _ "Some (mf_market_data x, nano)"] exI [of _ ?k] exI [of _ ?s] exI [of _ rest]) simp
  next
    case False
    have "CRawIOReader_read v (hc_reader k) = Inr (Some (x, len), r)" using r(1) by (simp add: Cons.prems(6))
    from comm_read_passes [OF this False _ Cons.prems(4), of m] Cons.prems(3) obtain k2 where
      k2: "CMDHelperComm_read n v ma k = CMDHelperComm_read m v ma k2" "hc_reader k2 = iow_reader ?s" "same_client k2 k"
      by (auto simp: n)
    have "\<exists>d k1 s1 rest1. CMDHelperComm_read m v ma k2 = Inr (d, k1) \<and> hc_reader k1 = iow_reader s1 \<and>
      same_client k1 k2 \<and> chan_inv ps zero_md_frame s1 \<and> iow_writer s1 = iow_writer ?s \<and>
      drop (iow_skip s1) (iow_log s1) = iow_got s1 @ rest1 \<and> (\<exists>xs. rest = xs @ rest1) \<and>
      (case d of
         None \<Rightarrow> filter (wanted k2) rest = []
       | Some (t, _) \<Rightarrow> length rest1 < length rest \<and>
           map mf_market_data (filter (wanted k2) rest) = t # map mf_market_data (filter (wanted k2) rest1))"
      by (rule Cons.IH [OF r(2) drop _ _ _ k2(2)]) (use Cons.prems n same_wanted(2) [OF k2(3)] in auto)
    then obtain d k1 s1 rest1 xs where I: "CMDHelperComm_read m v ma k2 = Inr (d, k1)" "hc_reader k1 = iow_reader s1"
      "same_client k1 k2" "chan_inv ps zero_md_frame s1" "iow_writer s1 = iow_writer ?s"
      "drop (iow_skip s1) (iow_log s1) = iow_got s1 @ rest1" "rest = xs @ rest1"
      "case d of
         None \<Rightarrow> filter (wanted k) rest = []
       | Some (t, _) \<Rightarrow> length rest1 < length rest \<and>
           map mf_market_data (filter (wanted k) rest) = t # map mf_market_data (filter (wanted k) rest1)"
      unfolding same_wanted(1) [OF k2(3)] by blast
    have "x # rest = (x # xs) @ rest1" using I(7) by simp
    with I False k2(1) same_client_trans [OF I(3) k2(3)] show ?thesis
      by (intro exI [of _ d] exI [of _ k1] exI [of _ s1] exI [of _ rest1])
        (auto split: option.splits intro: exI [of _ "x # xs"])
  qed
qed

lemma read_ticks_ok:
  assumes "chan_inv ps zero_md_frame s" "drop (iow_skip s) (iow_log s) = iow_got s @ rest"
    and "\<forall>x \<in> set rest. mf_cmd x = IO_TD_RSP_BASE_INFO \<longrightarrow> of_the_day k (mf_base_info x)"
    and "\<forall>n p. ma_base ma n = Some p \<longrightarrow> of_the_day k p" "length rest < n" "length rest < m"
    and "hc_reader k = iow_reader s" "v = view_of zero_md_frame (\<lambda>_. True) (wr_files (iow_writer s))"
  shows "\<exists>k1. read_ticks m n v ma k = Inr (map mf_market_data (filter (wanted k) rest), k1) \<and> same_client k1 k"
  using assms
proof (induction m arbitrary: s k rest)
  case (Suc m)
  from comm_read_ok [OF Suc.prems(1-5,7,8)] obtain d k1 s1 rest1 xs where I:
    "CMDHelperComm_read n v ma k = Inr (d, k1)" "hc_reader k1 = iow_reader s1" "same_client k1 k"
    "chan_inv ps zero_md_frame s1" "iow_writer s1 = iow_writer s"
    "drop (iow_skip s1) (iow_log s1) = iow_got s1 @ rest1" "rest = xs @ rest1"
    "case d of
       None \<Rightarrow> filter (wanted k) rest = []
     | Some (t, _) \<Rightarrow> length rest1 < length rest \<and>
         map mf_market_data (filter (wanted k) rest) = t # map mf_market_data (filter (wanted k) rest1)"
    by blast
  show ?case
  proof (cases d)
    case None
    with I show ?thesis by simp
  next
    case (Some y)
    obtain t nano where y: "y = (t, nano)" by (cases y)
    have lt: "length rest1 < n" "length rest1 < m" using I(8) Some y Suc.prems(5,6) by auto
    have "\<exists>k2. read_ticks m n v ma k1 = Inr (map mf_market_data (filter (wanted k1) rest1), k2) \<and> same_client k2 k1"
      by (rule Suc.IH [OF I(4,6)]) (use Suc.prems(3,4,8) lt I(2,5,7) same_wanted(2) [OF I(3)] in auto)
    then show ?thesis using I(1,8) Some y same_wanted(1) [OF I(3)] same_client_trans [OF _ I(3)] by auto
  qed
qed simp

text \<open>
  C26. A client that attaches to the channel of an engine gets, by calling \<^verbatim>\<open>read\<close> until it returns nothing,
  exactly the ticks of the instruments it has subscribed among the frames that were committed since it came and
  that it has not read yet, in their order, wherever the writer stands, pages are switched and frames half
  filled. The frames between the ticks may be of any kind: of a start of the engine, whose time may be fresh, so that the
  client asks for the base information and subscribes again, or of base information. The base information, in the channel and in the
  answers, is that of the client's trading day (\<open>of_the_day\<close>); then the client has the same instruments after it.
  What a change of the day does is up to the callback of the client. The fuel for the loop in \<^verbatim>\<open>read\<close> is one
  more than the number of unread frames.
\<close>

theorem client_reads_its_ticks:
  assumes "PAGE_HEAD_SIZE \<le> ps" "ps < 2 ^ 31" "grants env" "chan_start env ps nano zero_md_frame = Inr s0"
    and "legal_run (chan_step env zero_md_frame) chan_legal es s0"
    and "run_steps (chan_step env zero_md_frame) es s0 = Inr s"
    and "drop (iow_skip s) (iow_log s) = iow_got s @ rest" "hc_reader k = iow_reader s"
    and "\<forall>x \<in> set rest. mf_cmd x = IO_TD_RSP_BASE_INFO \<longrightarrow> of_the_day k (mf_base_info x)"
    and "\<forall>n p. ma_base ma n = Some p \<longrightarrow> of_the_day k p"
  shows "\<exists>k1. read_ticks (Suc (length rest)) (Suc (length rest))
      (view_of zero_md_frame (\<lambda>_. True) (wr_files (iow_writer s))) ma k =
    Inr (map mf_market_data (filter (\<lambda>x. mf_cmd x = IO_MARKET_DATA \<and> \<not> IMDHelper_filter (mf_market_data x) k) rest), k1) \<and>
    IMDHelper_getSubscribedInstrument k1 = IMDHelper_getSubscribedInstrument k"
proof -
  have "grants env \<and> chan_inv ps zero_md_frame s0" using chan_start_inv [OF assms(1-3), of nano zero_md_frame] assms(3,4) by auto
  from channel.run_inv [OF this assms(5)] assms(6) have inv: "chan_inv ps zero_md_frame s" by auto
  have "wanted k = (\<lambda>x. mf_cmd x = IO_MARKET_DATA \<and> \<not> IMDHelper_filter (mf_market_data x) k)"
    by (simp add: fun_eq_iff wanted_def)
  with read_ticks_ok [OF inv assms(7,9,10) lessI lessI assms(8) refl] show ?thesis
    by (auto simp: same_client_def IMDHelper_getSubscribedInstrument_def)
qed

text \<open>The channel as an engine writes it: the base information, the start, and two ticks.\<close>

definition md_traffic :: "md_frame io_event list" where
  "md_traffic =
     [Attach ''md'',
      Reserve 600, FillIn (\<lambda>_. zero_md_frame\<lparr>mf_cmd := IO_TD_RSP_BASE_INFO,
        mf_base_info := snd (CTradeBaseInfo_toSysIOStruct 0 0 0 md_base)\<rparr>), CommitFrame 98,
      Reserve 4, FillIn (\<lambda>_. zero_md_frame\<lparr>mf_cmd := IO_MD_START\<rparr>), CommitFrame 99,
      Reserve 212, FillIn (fill_quote MODE_DAY 0
        \<lparr>dq_InstrumentID = ''rb2210'', dq_LastPrice = 4000, dq_Volume = 1, dq_Turnover = 40000, dq_AveragePrice = 4000,
         dq_AskPrice1 = 4001, dq_BidPrice1 = 3999, dq_AskVolume1 = 3, dq_BidVolume1 = 2, dq_OpenInterest = 9,
         dq_UpdateTime = ''09:00:01'', dq_UpdateMillisec = 500\<rparr>), CommitFrame 100,
      Reserve 212, FillIn (\<lambda>x. x\<lparr>mf_cmd := IO_MARKET_DATA, mf_market_data := market_data_init\<rparr>), CommitFrame 101]"

definition md_start :: "md_frame io_world" where
  "md_start = (case chan_start all_granted 4096 1 zero_md_frame of Inr s \<Rightarrow> s)"

lemma md_start: "chan_start all_granted 4096 1 zero_md_frame = Inr md_start"
  using chan_start_inv [OF _ _ all_granted, of 4096 1 zero_md_frame] by (auto simp: md_start_def PAGE_HEAD_SIZE_def)

lemma md_traffic_legal: "legal_run (chan_step all_granted zero_md_frame) chan_legal md_traffic md_start"
  unfolding md_traffic_def md_start_def by code_simp

definition md_end :: "md_frame io_world" where
  "md_end = (case run_steps (chan_step all_granted zero_md_frame) md_traffic md_start of Inr s \<Rightarrow> s)"

lemma md_end: "run_steps (chan_step all_granted zero_md_frame) md_traffic md_start = Inr md_end"
  using channel.run_inv [OF _ md_traffic_legal, of 4096] chan_start_inv [OF _ _ all_granted, of 4096 1 zero_md_frame]
    md_start all_granted by (auto simp: md_end_def PAGE_HEAD_SIZE_def)

lemma md_end_log: "iow_skip md_end = 0" "iow_got md_end = []" "length (iow_log md_end) = 4"
  "map mf_cmd (iow_log md_end) = [IO_TD_RSP_BASE_INFO, IO_MD_START, IO_MARKET_DATA, IO_MARKET_DATA]"
  "\<forall>x \<in> set (iow_log md_end). mf_cmd x = IO_TD_RSP_BASE_INFO \<longrightarrow> bi_trading_day (mf_base_info x) = ''20211213''"
  "map (\<lambda>x. md_instr_hash (mf_market_data x)) (drop 2 (iow_log md_end)) = [INSTR_NAME_TO_HASH ''rb2210'', 0]"
  unfolding md_end_def md_start_def md_traffic_def by code_simp+

definition md_reader_client :: md_comm where
  "md_reader_client = (md_client0 ''a'')\<lparr>hc_reader := iow_reader md_end,
     mh_subs_instr_hash_map := [(INSTR_NAME_TO_HASH ''rb2210'', ''rb2210'')]\<rparr>"

text \<open>The start frame is fresh and the query is answered, so the client subscribes again on its way.\<close>

definition md_answering :: "md_comm md_answers" where
  "md_answering = base_answers md_yes 99 True md_engine0"

lemma md_answering_day: "ma_base md_answering n = Some p \<Longrightarrow> bi_trading_day p = ''20211213''"
proof -
  have "take 11 (c_str ''20211213'') = ''20211213''" by code_simp
  then show "ma_base md_answering n = Some p \<Longrightarrow> bi_trading_day p = ''20211213''"
    by (auto simp: md_answering_def base_answers_def CTradeBaseInfo_toSysIOStruct_def md_engine0_def md_base_def)
qed

theorem client_reads_its_ticks_witness:
  "\<exists>t k1. read_ticks 5 5 (view_of zero_md_frame (\<lambda>_. True) (wr_files (iow_writer md_end))) md_answering md_reader_client =
     Inr ([t], k1) \<and> md_instr_hash t = INSTR_NAME_TO_HASH ''rb2210''"
proof -
  obtain a b x y where log: "iow_log md_end = [a, b, x, y]"
    using md_end_log(3) by (auto simp: length_Suc_conv eval_nat_numeral)
  then have h: "md_instr_hash (mf_market_data x) = INSTR_NAME_TO_HASH ''rb2210''" "md_instr_hash (mf_market_data y) = 0"
    using md_end_log(6) by simp_all
  have c: "mf_cmd a \<noteq> IO_MARKET_DATA" "mf_cmd b \<noteq> IO_MARKET_DATA" "mf_cmd x = IO_MARKET_DATA" "mf_cmd y = IO_MARKET_DATA"
    using md_end_log(4) by (simp_all add: log IO_TD_RSP_BASE_INFO_def IO_MARKET_DATA_def IO_MD_START_def)
  have nz: "INSTR_NAME_TO_HASH ''rb2210'' \<noteq> 0" by code_simp
  have day: "of_the_day md_reader_client p \<longleftrightarrow> bi_trading_day p = ''20211213''" for p
    by (simp add: of_the_day_def md_reader_client_def md_client0_def md_base_def)
  have "\<exists>k1. read_ticks (Suc (length [a, b, x, y])) (Suc (length [a, b, x, y]))
      (view_of zero_md_frame (\<lambda>_. True) (wr_files (iow_writer md_end))) md_answering md_reader_client =
    Inr (map mf_market_data (filter (\<lambda>x. mf_cmd x = IO_MARKET_DATA \<and>
      \<not> IMDHelper_filter (mf_market_data x) md_reader_client) [a, b, x, y]), k1) \<and>
    IMDHelper_getSubscribedInstrument k1 = IMDHelper_getSubscribedInstrument md_reader_client"
    by (rule client_reads_its_ticks [OF _ _ all_granted md_start md_traffic_legal md_end])
      (use md_end_log(5) md_answering_day in
        \<open>simp_all add: PAGE_HEAD_SIZE_def md_end_log(1,2) log day, simp_all add: md_reader_client_def\<close>)
  with h c nz show ?thesis
    by (auto simp: IMDHelper_filter_def um_has_def md_reader_client_def eval_nat_numeral)
qed

section \<open>The size of the pages\<close>

lemma load_sized:
  "CRawIOWriter_load env num (w\<lparr>wr_size := n\<rparr>) = (True, w1) \<Longrightarrow> CRawIOWriter_load env num w = (True, w1)"
  by (auto simp: CRawIOWriter_load_def Let_def split: if_splits option.splits)

lemma store_init_sized:
  assumes "CRawIOWriter_init env nano (w\<lparr>wr_size := n\<rparr>) = Inr (True, w1)"
  shows "CRawIOWriter_init env nano w = Inr (True, w1)"
proof -
  let ?u = "CIOBase_unload w" and ?k = "CIOBase_getTailNum (wr_files w)"
  have u: "CIOBase_unload (w\<lparr>wr_size := n\<rparr>) = ?u\<lparr>wr_size := n\<rparr>" "wr_files ?u = wr_files w"
    by (simp_all add: CIOBase_unload_def)
  have swap: "?u\<lparr>wr_size := n, wr_page_num := ?k\<rparr> = (?u\<lparr>wr_page_num := ?k\<rparr>)\<lparr>wr_size := n\<rparr>" by simp
  show ?thesis
  proof (cases "?k \<ge> 0")
    case True
    with assms obtain w3 where w3: "CRawIOWriter_load env ?k ((?u\<lparr>wr_page_num := ?k\<rparr>)\<lparr>wr_size := n\<rparr>) = (True, w3)"
      by (auto simp: CRawIOWriter_init_def u swap Let_def split: prod.splits bool.splits)
    with load_sized [OF w3] assms True show ?thesis by (simp add: CRawIOWriter_init_def u swap Let_def)
  next
    case False
    with assms have c: "CRawIOWriter_createNextPage env nano ((?u\<lparr>wr_page_num := ?k\<rparr>)\<lparr>wr_size := n\<rparr>) = (True, w1)"
      by (simp add: CRawIOWriter_init_def u swap Let_def)
    then obtain w3 where w3: "CRawIOWriter_load env (?k + 1) ((?u\<lparr>wr_page_num := ?k\<rparr>)\<lparr>wr_size := n\<rparr>) = (True, w3)"
      "fill_head nano w3 = w1"
      by (auto simp: CRawIOWriter_createNextPage_def split: prod.splits bool.splits)
    with load_sized [OF w3(1)] have "CRawIOWriter_createNextPage env nano (?u\<lparr>wr_page_num := ?k\<rparr>) = (True, w1)"
      by (simp add: CRawIOWriter_createNextPage_def)
    with False show ?thesis by (simp add: CRawIOWriter_init_def u(2) Let_def)
  qed
qed

text \<open>
  The size of the pages that the configuration of an engine may give has no effect: \<^verbatim>\<open>setPageSize\<close> stores it
  in the field for the size of the mapped page, and opening the channel overwrites that with the default size
  or the size of the file. An engine that starts with the setting starts with exactly the same writer without.
\<close>

theorem page_size_setting_is_lost:
  assumes "CRawIOWriter_init env nano (CIOBase_setPageSize n w) = Inr (True, w1)"
  shows "CRawIOWriter_init env nano w = Inr (True, w1)"
  by (rule store_init_sized [OF assms [unfolded CIOBase_setPageSize_def]])

theorem page_size_setting_is_lost_witness:
  "\<exists>w1. CRawIOWriter_init all_granted 1 (CIOBase_setPageSize (64 * 1024 * 1024) (CRawIOWriter_new 4096 True [])) =
      Inr (True, w1) \<and> CRawIOWriter_init all_granted 1 (CRawIOWriter_new 4096 True []) = Inr (True, w1 :: nat io_writer) \<and>
    wr_size w1 = 4096"
proof -
  let ?r = "CRawIOWriter_init all_granted 1 (CIOBase_setPageSize (64 * 1024 * 1024) (CRawIOWriter_new 4096 True [])) ::
    (bool \<times> nat io_writer) res"
  have "(case ?r of Inr (True, w1) \<Rightarrow> wr_size w1 = 4096 | _ \<Rightarrow> False)" by code_simp
  then obtain w1 where w1: "?r = Inr (True, w1)" "wr_size w1 = 4096"
    by (auto split: sum.splits bool.splits)
  from page_size_setting_is_lost [OF w1(1)] w1 show ?thesis by blast
qed

end
