(* ===== verification/Ring_Buffer.thy ===== *)
theory Ring_Buffer
  imports Prelude
begin

text \<open>
  \<^verbatim>\<open>server_utils/CBuffer\<close>: the ring buffer under the sockets. Its two counters only grow, in 32 bits;
  the place of a byte is its count modulo the size. A pointer into the buffer is its offset. The
  buffer is related to the queue of bytes it holds; that needs a size that divides \<open>2 ^ 32\<close>, since
  the counters wrap there.
\<close>

section \<open>The code\<close>

type_synonym byte = "8 word"

record c_buffer =
  bf_p :: "byte list"
  bf_size :: u32
  bf_head :: u32
  bf_tail :: u32

text \<open>\<^verbatim>\<open>malloc\<close> and \<^verbatim>\<open>realloc\<close> leave memory with any content (\<open>junk\<close>).\<close>

definition CBuffer_new :: "(nat \<Rightarrow> byte) \<Rightarrow> u32 \<Rightarrow> c_buffer" where
  "CBuffer_new junk n = \<lparr>bf_p = map junk [0..<unat n], bf_size = n, bf_head = 0, bf_tail = 0\<rparr>"

definition CBuffer_resize :: "(nat \<Rightarrow> byte) \<Rightarrow> u32 \<Rightarrow> c_buffer \<Rightarrow> c_buffer" where
  "CBuffer_resize junk n b =
     b\<lparr>bf_p := take (unat n) (bf_p b) @ map junk [length (bf_p b)..<unat n], bf_size := n\<rparr>"

definition CBuffer_len :: "c_buffer \<Rightarrow> u32" where
  "CBuffer_len b = bf_tail b - bf_head b"

definition CBuffer_left :: "c_buffer \<Rightarrow> u32" where
  "CBuffer_left b = bf_size b - CBuffer_len b"

definition CBuffer_empty :: "c_buffer \<Rightarrow> bool" where
  "CBuffer_empty b \<longleftrightarrow> bf_head b = bf_tail b"

definition CBuffer_full :: "c_buffer \<Rightarrow> bool" where
  "CBuffer_full b \<longleftrightarrow> CBuffer_len b = bf_size b"

definition CBuffer_clear :: "c_buffer \<Rightarrow> c_buffer" where
  "CBuffer_clear b = b\<lparr>bf_head := 0, bf_tail := 0\<rparr>"

text \<open>\<^verbatim>\<open>memcpy\<close> (or \<^verbatim>\<open>read\<close>) into the memory: outside of it is the fault \<open>OutOfRange\<close>.\<close>

definition store_at :: "nat \<Rightarrow> byte list \<Rightarrow> byte list \<Rightarrow> byte list res" where
  "store_at m bs mem =
     (if m + length bs \<le> length mem then Inr (take m mem @ bs @ drop (m + length bs) mem)
      else Inl OutOfRange)"

definition CBuffer_cycleWrite :: "byte list \<Rightarrow> c_buffer \<Rightarrow> (bool \<times> c_buffer) res" where
  "CBuffer_cycleWrite bs b =
     (let len = word_of_nat (length bs); l = CBuffer_left b
      in if l > len then
           (let m = bf_tail b mod bf_size b; ml = min (bf_size b - m) len
            in res_bind (store_at (unat m) (take (unat ml) bs) (bf_p b)) (\<lambda>mem.
               res_bind (store_at 0 (drop (unat ml) bs) mem) (\<lambda>mem.
               Inr (True, b\<lparr>bf_p := mem, bf_tail := bf_tail b + len\<rparr>))))
         else Inr (False, b))"

text \<open>The first unread byte and how many follow it without a turn.\<close>

definition CBuffer_cycleRead :: "c_buffer \<Rightarrow> u32 \<times> u32" where
  "CBuffer_cycleRead b =
     (bf_head b mod bf_size b, min (CBuffer_len b) (bf_size b - bf_head b mod bf_size b))"

definition CBuffer_commitRead :: "u32 \<Rightarrow> c_buffer \<Rightarrow> c_buffer" where
  "CBuffer_commitRead n b = b\<lparr>bf_head := bf_head b + n\<rparr>"

definition CBuffer_commitWrite :: "u32 \<Rightarrow> c_buffer \<Rightarrow> c_buffer" where
  "CBuffer_commitWrite n b = b\<lparr>bf_tail := bf_tail b + n\<rparr>"

text \<open>The two blocks of \<^verbatim>\<open>readv\<close> and \<^verbatim>\<open>writev\<close>, each an offset and a length.\<close>

definition CBuffer_getLeftVec :: "c_buffer \<Rightarrow> (u32 \<times> u32) list" where
  "CBuffer_getLeftVec b =
     (let m = bf_tail b mod bf_size b
      in if CBuffer_len b < m then [(m, bf_size b - m), (0, m + bf_head b - bf_tail b)]
         else [(m, CBuffer_left b), (0, 0)])"

definition CBuffer_getDataVec :: "c_buffer \<Rightarrow> (u32 \<times> u32) list" where
  "CBuffer_getDataVec b =
     (let m = bf_head b mod bf_size b
      in if CBuffer_len b > bf_size b - m
         then [(m, bf_size b - m), (0, CBuffer_len b + m - bf_size b)]
         else [(m, CBuffer_len b), (0, 0)])"

definition block_at :: "c_buffer \<Rightarrow> u32 \<times> u32 \<Rightarrow> byte list" where
  "block_at b v = take (unat (snd v)) (drop (unat (fst v)) (bf_p b))"

section \<open>The queue in the buffer\<close>

definition bf_ok :: "c_buffer \<Rightarrow> bool" where
  "bf_ok b \<longleftrightarrow> length (bf_p b) = unat (bf_size b) \<and> unat (bf_size b) dvd 2 ^ 32 \<and>
     CBuffer_len b \<le> bf_size b"

definition bf_data :: "c_buffer \<Rightarrow> byte list" where
  "bf_data b =
     map (\<lambda>i. bf_p b ! ((unat (bf_head b) + i) mod unat (bf_size b))) [0..<unat (CBuffer_len b)]"

definition bf_room :: "c_buffer \<Rightarrow> nat" where
  "bf_room b = unat (bf_size b) - length (bf_data b)"

lemma bf_okD:
  assumes "bf_ok b"
  shows "length (bf_p b) = unat (bf_size b)" "0 < unat (bf_size b)" "unat (bf_size b) dvd 2 ^ 32"
    "unat (CBuffer_len b) \<le> unat (bf_size b)" "length (bf_data b) = unat (CBuffer_len b)"
proof -
  show "length (bf_p b) = unat (bf_size b)" "unat (bf_size b) dvd 2 ^ 32"
    "unat (CBuffer_len b) \<le> unat (bf_size b)" "length (bf_data b) = unat (CBuffer_len b)"
    using assms by (auto simp: bf_ok_def bf_data_def word_le_nat_alt)
  show "0 < unat (bf_size b)"
    by (rule ccontr) (use assms in \<open>auto simp: bf_ok_def\<close>)
qed

text \<open>The place of a count does not see the wrap.\<close>

lemma place_wrap:
  fixes h k :: u32
  assumes "n dvd 2 ^ 32"
  shows "unat (h + k) mod n = (unat h + unat k) mod n"
  using assms mod_mod_cancel [of n "2 ^ 32" "unat h + unat k"] by (simp add: unat_word_ariths(1))

lemma place_tail:
  assumes "bf_ok b"
  shows "unat (bf_tail b) mod unat (bf_size b) =
    (unat (bf_head b) + length (bf_data b)) mod unat (bf_size b)"
proof -
  have "bf_tail b = bf_head b + CBuffer_len b" by (simp add: CBuffer_len_def)
  then show ?thesis using place_wrap [OF bf_okD(3) [OF assms]] bf_okD(5) [OF assms] by metis
qed

lemma bf_room_eq: "bf_ok b \<Longrightarrow> unat (CBuffer_left b) = bf_room b"
  using bf_okD [of b] by (auto simp: CBuffer_left_def bf_room_def unat_sub word_le_nat_alt)

text \<open>
  Writing at a place and going on at the front: the byte at \<open>i\<close> is the one of the data that
  falls there modulo the size, or the old one.
\<close>

lemma ring_store:
  assumes "m < n" "length mem = n" "length bs \<le> n" "k \<le> n - m" "k < n - m \<Longrightarrow> length bs \<le> k"
  obtains mem1 mem2 where
    "store_at m (take k bs) mem = Inr mem1" "store_at 0 (drop k bs) mem1 = Inr mem2" "length mem2 = n"
    "\<And>i. i < n \<Longrightarrow> mem2 ! i =
      (let j = (if m \<le> i then i - m else i + n - m) in if j < length bs then bs ! j else mem ! i)"
proof
  let ?mem1 = "take m mem @ take k bs @ drop (m + length (take k bs)) mem"
  let ?mem2 = "drop k bs @ drop (length (drop k bs)) ?mem1"
  show "store_at m (take k bs) mem = Inr ?mem1" using assms by (simp add: store_at_def)
  show "store_at 0 (drop k bs) ?mem1 = Inr ?mem2" using assms by (simp add: store_at_def)
  have "length ?mem1 = n" using assms by (cases "length bs \<le> k") auto
  moreover have "length (drop k bs @ drop (length (drop k bs)) mem1) = n" if "length mem1 = n" for mem1
    using that assms(3) by simp
  ultimately show "length ?mem2 = n" by blast
  show "?mem2 ! i = (let j = (if m \<le> i then i - m else i + n - m) in if j < length bs then bs ! j else mem ! i)"
    if "i < n" for i
  proof (cases "length bs \<le> k")
    case True
    with assms that show ?thesis by (auto simp: nth_append Let_def)
  next
    case False
    with assms(4,5) have k: "k = n - m" by (cases "k < n - m") auto
    with False assms that show ?thesis by (auto simp: nth_append Let_def add.commute)
  qed
qed

text \<open>So writing at the tail appends.\<close>

definition put_ring :: "nat \<Rightarrow> byte list \<Rightarrow> c_buffer \<Rightarrow> c_buffer res" where
  "put_ring k bs b =
     res_bind (store_at (unat (bf_tail b mod bf_size b)) (take k bs) (bf_p b)) (\<lambda>mem.
     res_bind (store_at 0 (drop k bs) mem) (\<lambda>mem.
     Inr (b\<lparr>bf_p := mem, bf_tail := bf_tail b + word_of_nat (length bs)\<rparr>)))"

lemma turn_back:
  fixes t j n :: nat
  assumes "t < n" "j < n"
  shows "(if t \<le> (t + j) mod n then (t + j) mod n - t else (t + j) mod n + n - t) = j"
  using assms by (cases "t + j < n") (auto simp: mod_if)

lemma ring_place:
  fixes h len n i :: nat
  assumes "0 < n" "i < len + L" "len + L \<le> n" and "t = (h + len) mod n"
  shows "(if t \<le> (h + i) mod n then (h + i) mod n - t else (h + i) mod n + n - t) =
    (if i < len then n - len + i else i - len)"
proof -
  have ti: "t < n" "(h + i) mod n < n" using assms(1,4) by auto
  let ?j = "if i < len then n - len + i else i - len"
  have j: "?j < n" using assms(1-3) by auto
  have "(t + ?j) mod n = (h + i) mod n"
  proof (cases "i < len")
    case True
    then have "(t + ?j) mod n = (h + len + (n - len + i)) mod n"
      by (simp only: assms(4) mod_add_left_eq if_True)
    also have "h + len + (n - len + i) = h + i + n" using True assms(2,3) by simp
    finally show ?thesis by simp
  next
    case False
    then have "(t + ?j) mod n = (h + len + (i - len)) mod n"
      by (simp only: assms(4) mod_add_left_eq if_False)
    with False show ?thesis by simp
  qed
  then show ?thesis using turn_back [OF ti(1) j] by (simp only:)
qed

lemma put_ring_ok:
  assumes ok: "bf_ok b" and room: "length bs \<le> bf_room b"
    and k: "k \<le> unat (bf_size b) - unat (bf_tail b mod bf_size b)"
      "k < unat (bf_size b) - unat (bf_tail b mod bf_size b) \<Longrightarrow> length bs \<le> k"
  obtains b' where "put_ring k bs b = Inr b'" "bf_ok b'" "bf_size b' = bf_size b"
    "bf_head b' = bf_head b" "bf_data b' = bf_data b @ bs"
proof -
  let ?n = "unat (bf_size b)" and ?m = "unat (bf_tail b mod bf_size b)"
  note okD = bf_okD [OF ok]
  have m: "?m < ?n" "?m = (unat (bf_head b) + length (bf_data b)) mod ?n"
    using place_tail [OF ok] okD(2) by (simp_all add: unat_mod)
  have fit: "length (bf_data b) + length bs \<le> ?n" "length bs \<le> ?n"
    using room okD(4,5) by (auto simp: bf_room_def)
  have "?n < 2 ^ 32" using unsigned_less [of "bf_size b"] by simp
  with fit(2) have small: "length bs < 2 ^ 32" "?n < 2 ^ 32" by auto
  obtain mem1 mem2 where st: "store_at ?m (take k bs) (bf_p b) = Inr mem1"
      "store_at 0 (drop k bs) mem1 = Inr mem2" "length mem2 = ?n"
    and nth: "\<And>i. i < ?n \<Longrightarrow> mem2 ! i =
      (let j = (if ?m \<le> i then i - ?m else i + ?n - ?m) in if j < length bs then bs ! j else bf_p b ! i)"
    using ring_store [OF m(1) okD(1) fit(2) k] by blast
  let ?b = "b\<lparr>bf_p := mem2, bf_tail := bf_tail b + word_of_nat (length bs)\<rparr>"
  have put: "put_ring k bs b = Inr ?b" using st by (simp add: put_ring_def)
  have len: "unat (CBuffer_len ?b) = length (bf_data b) + length bs"
  proof -
    have "CBuffer_len ?b = CBuffer_len b + word_of_nat (length bs)" by (simp add: CBuffer_len_def)
    moreover have "unat (CBuffer_len b) + length bs < 2 ^ 32" using fit small okD(5) by simp
    ultimately show ?thesis
      using okD(5) small by (simp add: unat_word_ariths unat_of_nat take_bit_eq_mod)
  qed
  have ok': "bf_ok ?b" using ok len fit st(3) by (simp add: bf_ok_def word_le_nat_alt)
  have "bf_data ?b = bf_data b @ bs"
  proof (rule nth_equalityI)
    show "length (bf_data ?b) = length (bf_data b @ bs)" using bf_okD(5) [OF ok'] len by simp
    fix i assume "i < length (bf_data ?b)"
    then have i: "i < length (bf_data b) + length bs" using bf_okD(5) [OF ok'] len by simp
    let ?i = "(unat (bf_head b) + i) mod ?n"
    have "bf_data ?b ! i = mem2 ! ?i" using i len by (simp add: bf_data_def)
    also have "\<dots> = (let j = (if i < length (bf_data b) then ?n - length (bf_data b) + i else i - length (bf_data b))
        in if j < length bs then bs ! j else bf_p b ! ?i)"
      using nth [of ?i] ring_place [OF okD(2) i fit(1) m(2)] okD(2) by (simp add: Let_def)
    also have "\<dots> = (bf_data b @ bs) ! i"
      using i fit okD(5) by (auto simp: Let_def nth_append bf_data_def)
    finally show "bf_data ?b ! i = (bf_data b @ bs) ! i" .
  qed
  with put ok' that show ?thesis by simp
qed

lemma unat_min: "unat (min x y) = min (unat x) (unat y)" for x y :: "'a::len word"
  by (auto simp: min_def word_le_nat_alt)

lemma tail_place: "bf_ok b \<Longrightarrow> unat (bf_tail b mod bf_size b) < unat (bf_size b)"
  using bf_okD(2) by (simp add: unat_mod)

lemma unat_minus_place:
  "bf_ok b \<Longrightarrow> unat (bf_size b - x mod bf_size b) = unat (bf_size b) - unat x mod unat (bf_size b)"
  using bf_okD(2) [of b] by (subst unat_sub) (auto simp: word_le_nat_alt unat_mod less_imp_le)

lemma cycleWrite_ok:
  assumes ok: "bf_ok b" and small: "length bs < 2 ^ 32"
  obtains c where "CBuffer_cycleWrite bs b = Inr (length bs < bf_room b, c)" "bf_ok c"
    "bf_size c = bf_size b"
    "bf_data c = (if length bs < bf_room b then bf_data b @ bs else bf_data b)"
proof (cases "length bs < bf_room b")
  case True
  let ?k = "unat (min (bf_size b - bf_tail b mod bf_size b) (word_of_nat (length bs)))"
  have len: "unat (word_of_nat (length bs) :: u32) = length bs"
    using small by (simp add: unat_of_nat take_bit_eq_mod)
  have k: "?k = min (unat (bf_size b) - unat (bf_tail b mod bf_size b)) (length bs)"
    by (simp add: unat_min unat_minus_place [OF ok] len unat_mod)
  obtain c where c: "put_ring ?k bs b = Inr c" "bf_ok c" "bf_size c = bf_size b" "bf_data c = bf_data b @ bs"
    using put_ring_ok [OF ok, of bs ?k] True k by auto
  have "CBuffer_left b > word_of_nat (length bs)"
    using True by (simp add: word_less_nat_alt len bf_room_eq [OF ok])
  then have "CBuffer_cycleWrite bs b = res_bind (put_ring ?k bs b) (\<lambda>c. Inr (True, c))"
    by (simp add: CBuffer_cycleWrite_def put_ring_def Let_def res_bind_def split: sum.split)
  with that c True show ?thesis by simp
next
  case False
  have "unat (word_of_nat (length bs) :: u32) = length bs"
    using small by (simp add: unat_of_nat take_bit_eq_mod)
  then have "\<not> CBuffer_left b > word_of_nat (length bs)"
    using False by (simp add: word_less_nat_alt bf_room_eq [OF ok])
  then have "CBuffer_cycleWrite bs b = Inr (length bs < bf_room b, b)"
    using False by (simp add: CBuffer_cycleWrite_def)
  with that [of b] ok False show ?thesis by simp
qed

text \<open>Reading: the memory from the place of the head is the front of the queue.\<close>

lemma nth_data: "i < length (bf_data b) \<Longrightarrow>
   bf_data b ! i = bf_p b ! ((unat (bf_head b) + i) mod unat (bf_size b))"
  by (simp add: bf_data_def)

lemma front_block:
  assumes ok: "bf_ok b" and n: "n \<le> length (bf_data b)" "unat (bf_head b) mod unat (bf_size b) + n \<le> unat (bf_size b)"
  shows "take n (drop (unat (bf_head b mod bf_size b)) (bf_p b)) = take n (bf_data b)"
proof (rule nth_equalityI)
  show "length (take n (drop (unat (bf_head b mod bf_size b)) (bf_p b))) = length (take n (bf_data b))"
    using bf_okD(1) [OF ok] n by (simp add: unat_mod)
  fix i assume "i < length (take n (drop (unat (bf_head b mod bf_size b)) (bf_p b)))"
  then have i: "i < n" by simp
  have "(unat (bf_head b) + i) mod unat (bf_size b) = unat (bf_head b) mod unat (bf_size b) + i"
  proof -
    have "(unat (bf_head b) + i) mod unat (bf_size b) =
        (unat (bf_head b) mod unat (bf_size b) + i) mod unat (bf_size b)" by (simp add: mod_add_left_eq)
    with i n(2) show ?thesis by simp
  qed
  with i n show "take n (drop (unat (bf_head b mod bf_size b)) (bf_p b)) ! i = take n (bf_data b) ! i"
    by (simp add: nth_data unat_mod bf_okD(1) [OF ok])
qed

lemma cycleRead_ok:
  assumes ok: "bf_ok b"
  obtains n where "unat (snd (CBuffer_cycleRead b)) = n" "block_at b (CBuffer_cycleRead b) = take n (bf_data b)"
    "n \<le> length (bf_data b)" "n = 0 \<longleftrightarrow> bf_data b = []"
proof -
  let ?n = "min (length (bf_data b)) (unat (bf_size b) - unat (bf_head b) mod unat (bf_size b))"
  have n: "unat (snd (CBuffer_cycleRead b)) = ?n"
    by (simp add: CBuffer_cycleRead_def unat_min unat_minus_place [OF ok] bf_okD(5) [OF ok])
  have "unat (bf_head b) mod unat (bf_size b) < unat (bf_size b)" using bf_okD(2) [OF ok] by simp
  then have fit: "unat (bf_head b) mod unat (bf_size b) + ?n \<le> unat (bf_size b)" by linarith
  then have "block_at b (CBuffer_cycleRead b) = take ?n (bf_data b)"
    using front_block [OF ok _ fit] n by (simp add: block_at_def CBuffer_cycleRead_def)
  moreover have "?n = 0 \<longleftrightarrow> bf_data b = []"
    using \<open>unat (bf_head b) mod unat (bf_size b) < unat (bf_size b)\<close>
    by (auto simp: min_def split: if_splits)
  ultimately show ?thesis using that n by simp
qed

lemma commitRead_ok:
  assumes ok: "bf_ok b" and n: "unat n \<le> length (bf_data b)"
  shows "bf_ok (CBuffer_commitRead n b)" "bf_data (CBuffer_commitRead n b) = drop (unat n) (bf_data b)"
proof -
  note okD = bf_okD [OF ok]
  have len: "unat (CBuffer_len (CBuffer_commitRead n b)) = length (bf_data b) - unat n"
  proof -
    have "CBuffer_len (CBuffer_commitRead n b) = CBuffer_len b - n"
      by (simp add: CBuffer_len_def CBuffer_commitRead_def)
    moreover have "n \<le> CBuffer_len b" using n okD(5) by (simp add: word_le_nat_alt)
    ultimately show ?thesis using okD(5) by (simp add: unat_sub)
  qed
  show ok': "bf_ok (CBuffer_commitRead n b)"
    using ok len okD(4,5) by (simp add: bf_ok_def word_le_nat_alt CBuffer_commitRead_def)
  show "bf_data (CBuffer_commitRead n b) = drop (unat n) (bf_data b)"
  proof (rule nth_equalityI)
    show "length (bf_data (CBuffer_commitRead n b)) = length (drop (unat n) (bf_data b))"
      using bf_okD(5) [OF ok'] len by simp
    fix i assume "i < length (bf_data (CBuffer_commitRead n b))"
    then have i: "unat n + i < length (bf_data b)" using bf_okD(5) [OF ok'] len by simp
    have "bf_data (CBuffer_commitRead n b) ! i =
        bf_p b ! ((unat (bf_head b + n) + i) mod unat (bf_size b))"
      using i bf_okD(5) [OF ok'] len by (simp add: nth_data) (simp add: CBuffer_commitRead_def)
    also have "(unat (bf_head b + n) + i) mod unat (bf_size b) =
        (unat (bf_head b + n) mod unat (bf_size b) + i) mod unat (bf_size b)"
      by (simp only: mod_add_left_eq)
    also have "\<dots> = (unat (bf_head b) + unat n + i) mod unat (bf_size b)"
      by (simp only: place_wrap [OF okD(3)] mod_add_left_eq)
    finally show "bf_data (CBuffer_commitRead n b) ! i = drop (unat n) (bf_data b) ! i"
      using i by (simp add: nth_data add.assoc)
  qed
qed

lemma clear_ok: "bf_ok b \<Longrightarrow> bf_ok (CBuffer_clear b)" "bf_data (CBuffer_clear b) = []"
  by (simp_all add: bf_ok_def bf_data_def CBuffer_clear_def CBuffer_len_def word_le_nat_alt)

lemma new_ok:
  assumes "unat n dvd 2 ^ 32"
  shows "bf_ok (CBuffer_new junk n)" "bf_data (CBuffer_new junk n) = []"
  using assms by (simp_all add: bf_ok_def bf_data_def CBuffer_new_def CBuffer_len_def word_le_nat_alt)

section \<open>The two blocks of a vector call\<close>

text \<open>\<^verbatim>\<open>readv\<close> into the free blocks and \<^verbatim>\<open>writev\<close> from the filled ones.\<close>

definition CBuffer_fillVec :: "byte list \<Rightarrow> c_buffer \<Rightarrow> c_buffer res" where
  "CBuffer_fillVec bs b =
     (case CBuffer_getLeftVec b of
        (m, l) # (m2, l2) # _ \<Rightarrow>
          res_bind (store_at (unat m) (take (unat l) bs) (bf_p b)) (\<lambda>mem.
          res_bind (store_at (unat m2) (drop (unat l) bs) mem) (\<lambda>mem.
          Inr (CBuffer_commitWrite (word_of_nat (length bs)) (b\<lparr>bf_p := mem\<rparr>))))
      | _ \<Rightarrow> Inl OutOfRange)"

lemma left_vec_room:
  assumes ok: "bf_ok b"
  shows "sum_list (map (unat \<circ> snd) (CBuffer_getLeftVec b)) = bf_room b"
proof -
  let ?n = "unat (bf_size b)" and ?m = "unat (bf_tail b mod bf_size b)"
  have m: "?m < ?n" by (rule tail_place [OF ok])
  show ?thesis
  proof (cases "CBuffer_len b < bf_tail b mod bf_size b")
    case True
    have "bf_tail b mod bf_size b + bf_head b - bf_tail b = bf_tail b mod bf_size b - CBuffer_len b"
      by (simp add: CBuffer_len_def)
    then have "unat (bf_tail b mod bf_size b + bf_head b - bf_tail b) = ?m - length (bf_data b)"
      by (simp only: unat_sub [OF less_imp_le [OF True]] bf_okD(5) [OF ok])
    with True m bf_okD(4,5) [OF ok] show ?thesis
      by (simp add: CBuffer_getLeftVec_def Let_def unat_minus_place [OF ok] bf_room_def word_less_nat_alt unat_mod)
  next
    case False
    then show ?thesis by (simp add: CBuffer_getLeftVec_def Let_def bf_room_eq [OF ok])
  qed
qed

lemma fill_vec_ok:
  assumes ok: "bf_ok b" and room: "length bs \<le> bf_room b"
  obtains c where "CBuffer_fillVec bs b = Inr c" "bf_ok c" "bf_size c = bf_size b"
    "bf_data c = bf_data b @ bs"
proof -
  let ?n = "unat (bf_size b)" and ?m = "unat (bf_tail b mod bf_size b)"
  obtain l m2 l2 where v: "CBuffer_getLeftVec b = [(bf_tail b mod bf_size b, l), (m2, l2)]" "m2 = 0"
    and l: "unat l \<le> ?n - ?m" "unat l < ?n - ?m \<Longrightarrow> length bs \<le> unat l"
  proof (cases "CBuffer_len b < bf_tail b mod bf_size b")
    case True
    then show ?thesis using that unat_minus_place [OF ok, of "bf_tail b"]
      by (simp add: CBuffer_getLeftVec_def Let_def unat_mod)
  next
    case False
    then have "?m \<le> unat (CBuffer_len b)" by (simp add: word_le_nat_alt not_less)
    with False show ?thesis using that room bf_room_eq [OF ok] bf_okD(5) [OF ok]
      by (simp add: CBuffer_getLeftVec_def Let_def bf_room_def)
  qed
  have "CBuffer_fillVec bs b = put_ring (unat l) bs b"
    by (simp add: CBuffer_fillVec_def v put_ring_def CBuffer_commitWrite_def)
  with put_ring_ok [OF ok room l] that show ?thesis by metis
qed

lemma data_vec_data:
  assumes ok: "bf_ok b"
  shows "concat (map (block_at b) (CBuffer_getDataVec b)) = bf_data b"
proof -
  let ?n = "unat (bf_size b)" and ?m = "unat (bf_head b) mod unat (bf_size b)"
  note okD = bf_okD [OF ok]
  have m: "?m < ?n" using okD(2) by simp
  have gt: "CBuffer_len b > bf_size b - bf_head b mod bf_size b \<longleftrightarrow> ?n - ?m < length (bf_data b)"
    by (simp add: word_less_nat_alt unat_minus_place [OF ok] okD(5))
  show ?thesis
  proof (cases "?n - ?m < length (bf_data b)")
    case False
    then have "take (length (bf_data b)) (drop (unat (bf_head b mod bf_size b)) (bf_p b)) = bf_data b"
      using front_block [OF ok, of "length (bf_data b)"] m by simp
    with False gt show ?thesis
      by (simp add: CBuffer_getDataVec_def Let_def block_at_def okD(5))
  next
    case True
    let ?k = "?n - ?m"
    have "unat (CBuffer_len b + bf_head b mod bf_size b - bf_size b) = length (bf_data b) - ?k"
    proof -
      have "CBuffer_len b + bf_head b mod bf_size b - bf_size b =
          CBuffer_len b - (bf_size b - bf_head b mod bf_size b)" by simp
      moreover have "bf_size b - bf_head b mod bf_size b \<le> CBuffer_len b"
        using True gt by simp
      ultimately show ?thesis
        by (simp only: unat_sub unat_minus_place [OF ok] okD(5))
    qed
    then have vec: "concat (map (block_at b) (CBuffer_getDataVec b)) =
        take ?k (drop ?m (bf_p b)) @ take (length (bf_data b) - ?k) (bf_p b)"
      using True gt by (simp add: CBuffer_getDataVec_def Let_def block_at_def unat_minus_place [OF ok] unat_mod)
    have front: "take ?k (drop ?m (bf_p b)) = take ?k (bf_data b)"
      using front_block [OF ok, of ?k] True m by (simp add: unat_mod)
    have "take (length (bf_data b) - ?k) (bf_p b) = drop ?k (bf_data b)"
    proof (rule nth_equalityI)
      show "length (take (length (bf_data b) - ?k) (bf_p b)) = length (drop ?k (bf_data b))"
        using okD(1,4,5) by simp
      fix i assume "i < length (take (length (bf_data b) - ?k) (bf_p b))"
      then have "i < length (bf_data b) - ?k" "i < ?n"
        by (simp_all only: length_take okD(1) min_less_iff_conj)
      then have i: "?k + i < length (bf_data b)" "i < ?n" by linarith+
      have "drop ?k (bf_data b) ! i = bf_data b ! (?k + i)" using True by (intro nth_drop) simp
      also have "\<dots> = bf_p b ! ((?m + ?k + i) mod ?n)"
        by (simp only: nth_data [OF i(1)] mod_add_left_eq add.assoc)
      also have "(?m + ?k + i) mod ?n = i" using m i(2) by simp
      also have "bf_p b ! i = take (length (bf_data b) - ?k) (bf_p b) ! i"
        using i(1) by (intro nth_take [symmetric]) linarith
      finally show "take (length (bf_data b) - ?k) (bf_p b) ! i = drop ?k (bf_data b) ! i" by (rule sym)
    qed
    with vec front show ?thesis by simp
  qed
qed

section \<open>What its users rely on\<close>

text \<open>
  The contract of a queue of bytes, as the sockets use it: a write is done whole or not at all, the
  block that is offered is the front of the queue. The machine records what was accepted and what
  was taken.
\<close>

datatype queue_op = Put "byte list" | Take nat | Clear

fun queue_step ::
    "(byte list \<Rightarrow> 'b \<Rightarrow> (bool \<times> 'b) res) \<Rightarrow> ('b \<Rightarrow> byte list) \<Rightarrow> (nat \<Rightarrow> 'b \<Rightarrow> 'b) \<Rightarrow> ('b \<Rightarrow> 'b) \<Rightarrow>
     queue_op \<Rightarrow> 'b \<times> byte list \<times> byte list \<Rightarrow> ('b \<times> byte list \<times> byte list) res" where
  "queue_step put block commit clr (Put bs) (b, accepted, taken) =
     res_bind (put bs b) (\<lambda>(done, c). Inr (c, if done then accepted @ bs else accepted, taken))"
| "queue_step put block commit clr (Take n) (b, accepted, taken) =
     Inr (commit n b, accepted, taken @ take n (block b))"
| "queue_step put block commit clr Clear (b, accepted, taken) = Inr (clr b, [], [])"

fun queue_legal :: "('b \<Rightarrow> byte list) \<Rightarrow> queue_op \<Rightarrow> 'b \<times> byte list \<times> byte list \<Rightarrow> bool" where
  "queue_legal block (Put bs) (b, _) \<longleftrightarrow> length bs < 2 ^ 32"
| "queue_legal block (Take n) (b, _) \<longleftrightarrow> n \<le> length (block b)"
| "queue_legal block Clear (b, _) \<longleftrightarrow> True"

definition queue_inv :: "('b \<Rightarrow> bool) \<Rightarrow> ('b \<Rightarrow> byte list) \<Rightarrow> 'b \<times> byte list \<times> byte list \<Rightarrow> bool" where
  "queue_inv ok content s = (case s of (b, accepted, taken) \<Rightarrow> ok b \<and> accepted = taken @ content b)"

locale byte_queue =
  fixes ok :: "'b \<Rightarrow> bool" and content :: "'b \<Rightarrow> byte list" and room :: "'b \<Rightarrow> nat"
    and put :: "byte list \<Rightarrow> 'b \<Rightarrow> (bool \<times> 'b) res" and block :: "'b \<Rightarrow> byte list"
    and commit :: "nat \<Rightarrow> 'b \<Rightarrow> 'b" and clr :: "'b \<Rightarrow> 'b"
  assumes put: "ok b \<Longrightarrow> length bs < 2 ^ 32 \<Longrightarrow>
      \<exists>c. put bs b = Inr (length bs < room b, c) \<and> ok c \<and>
        content c = (if length bs < room b then content b @ bs else content b)"
    and block: "ok b \<Longrightarrow> \<exists>n. block b = take n (content b) \<and> (n = 0 \<longrightarrow> content b = [])"
    and commit: "ok b \<Longrightarrow> n \<le> length (block b) \<Longrightarrow>
      ok (commit n b) \<and> content (commit n b) = drop n (content b)"
    and clr: "ok b \<Longrightarrow> ok (clr b) \<and> content (clr b) = []"
begin

lemma block_front:
  assumes "ok b" "n \<le> length (block b)"
  shows "take n (block b) = take n (content b)"
proof -
  from block [OF assms(1)] obtain k where "block b = take k (content b)" by blast
  with assms(2) show ?thesis by (simp add: min_absorb1)
qed

lemma block_some: "ok b \<Longrightarrow> content b \<noteq> [] \<Longrightarrow> block b \<noteq> []"
  using block by fastforce

lemma queue_law:
  assumes "queue_inv ok content s" "queue_legal block e s"
  shows "\<exists>t. queue_step put block commit clr e s = Inr t \<and> queue_inv ok content t"
proof -
  obtain b accepted taken where s: "s = (b, accepted, taken)" by (cases s)
  with assms(1) have b: "ok b" "accepted = taken @ content b" by (simp_all add: queue_inv_def)
  show ?thesis
  proof (cases e)
    case (Put bs)
    with put [OF b(1)] assms(2) b s show ?thesis by (fastforce simp: queue_inv_def)
  next
    case (Take n)
    with commit [OF b(1)] block_front [OF b(1)] assms(2) b s show ?thesis
      by (fastforce simp: queue_inv_def)
  next
    case Clear
    with clr [OF b(1)] s show ?thesis by (simp add: queue_inv_def)
  qed
qed

end

sublocale byte_queue \<subseteq> fifo: guarded_machine "queue_step put block commit clr" "queue_legal block"
    "queue_inv ok content"
  by unfold_locales (rule queue_law)

definition front_block_of :: "c_buffer \<Rightarrow> byte list" where
  "front_block_of b = block_at b (CBuffer_cycleRead b)"

lemma front_block_ok:
  assumes "bf_ok b"
  obtains n where "front_block_of b = take n (bf_data b)" "n \<le> length (bf_data b)" "n = 0 \<longleftrightarrow> bf_data b = []"
    "unat (snd (CBuffer_cycleRead b)) = n"
  using cycleRead_ok [OF assms] unfolding front_block_of_def by metis

interpretation ring: byte_queue bf_ok bf_data bf_room CBuffer_cycleWrite front_block_of
    "\<lambda>n. CBuffer_commitRead (word_of_nat n)" CBuffer_clear
proof
  fix b :: c_buffer and bs n
  assume b: "bf_ok b"
  show "\<exists>c. CBuffer_cycleWrite bs b = Inr (length bs < bf_room b, c) \<and> bf_ok c \<and>
      bf_data c = (if length bs < bf_room b then bf_data b @ bs else bf_data b)" if "length bs < 2 ^ 32"
    using cycleWrite_ok [OF b that] by metis
  show "\<exists>n. front_block_of b = take n (bf_data b) \<and> (n = 0 \<longrightarrow> bf_data b = [])"
    using front_block_ok [OF b] by metis
  show "bf_ok (CBuffer_commitRead (word_of_nat n) b) \<and>
      bf_data (CBuffer_commitRead (word_of_nat n) b) = drop n (bf_data b)" if n: "n \<le> length (front_block_of b)"
  proof -
    have le: "n \<le> length (bf_data b)" using front_block_ok [OF b] n by (metis length_take min.bounded_iff)
    moreover have "unat (bf_size b) < 2 ^ 32" using unsigned_less [of "bf_size b"] by simp
    ultimately have "unat (word_of_nat n :: u32) = n"
      using bf_okD(4,5) [OF b] by (simp add: unat_of_nat take_bit_eq_mod)
    with commitRead_ok [OF b, of "word_of_nat n"] le show ?thesis by simp
  qed
  show "bf_ok (CBuffer_clear b) \<and> bf_data (CBuffer_clear b) = []" using clear_ok(1) [OF b] clear_ok(2) by simp
qed

end
