(* ===== verification/Service.thy ===== *)
theory Service
  imports Ring_Buffer
begin

unbundle bit_operations_syntax

text \<open>
  \<^verbatim>\<open>server_utils/CSocket\<close> and \<^verbatim>\<open>server_utils/CService\<close>: a socket watched by libev, with a buffer for
  each direction. A service collects a head of fixed length, asks \<^verbatim>\<open>processHead\<close> how long the package
  is, collects that, and hands it to \<^verbatim>\<open>processPkg\<close>. What the kernel answers to \<^verbatim>\<open>read\<close>, \<^verbatim>\<open>write\<close>,
  \<^verbatim>\<open>connect\<close> and \<^verbatim>\<open>getsockopt\<close> is an input; virtual functions are a record of functions. Names
  of libev and errno keep their values.
\<close>

section \<open>Sockets\<close>

definition EV_READ :: u32 where "EV_READ = 1"
definition EV_WRITE :: u32 where "EV_WRITE = 2"
definition EV_ERROR :: u32 where "EV_ERROR = 0x80000000"
definition EAGAIN :: int where "EAGAIN = 11"
definition ECONNRESET :: int where "ECONNRESET = 104"
definition ETIMEDOUT :: int where "ETIMEDOUT = 110"

datatype rd_state = READ_HEAD | READ_BODY
datatype ev_callback = CbReadWrite | CbConnect

record service =
  sv_fd :: int
  sv_watch :: bool
  sv_events :: u32
  sv_cb :: ev_callback
  sv_timer :: bool
  sv_head_size :: u32
  sv_pkg_size :: u32
  sv_state :: rd_state
  sv_rbuf :: c_buffer
  sv_wbuf :: c_buffer

definition CService_new :: "(nat \<Rightarrow> byte) \<Rightarrow> (nat \<Rightarrow> byte) \<Rightarrow> u32 \<Rightarrow> u32 \<Rightarrow> service" where
  "CService_new rjunk wjunk rn wn =
     \<lparr>sv_fd = -1, sv_watch = False, sv_events = 0, sv_cb = CbReadWrite, sv_timer = False,
      sv_head_size = 0, sv_pkg_size = 0, sv_state = READ_HEAD, sv_rbuf = CBuffer_new rjunk rn,
      sv_wbuf = CBuffer_new wjunk wn\<rparr>"

definition CSocket_stop :: "'z service_scheme \<Rightarrow> 'z service_scheme" where
  "CSocket_stop s = (if sv_watch s then s\<lparr>sv_watch := False\<rparr> else s)"

definition CSocket_start :: "u32 \<Rightarrow> 'z service_scheme \<Rightarrow> 'z service_scheme" where
  "CSocket_start ev s = (CSocket_stop s)\<lparr>sv_watch := True, sv_cb := CbReadWrite, sv_events := ev\<rparr>"

definition CSocket_stop_events :: "u32 \<Rightarrow> 'z service_scheme \<Rightarrow> 'z service_scheme" where
  "CSocket_stop_events ev s =
     (if sv_watch s then
        (let e = sv_events s AND NOT ev
         in if e \<noteq> 0 then (if e \<noteq> sv_events s then CSocket_start e s else s) else CSocket_stop s)
      else s)"

definition CSocket_addEvent :: "u32 \<Rightarrow> 'z service_scheme \<Rightarrow> 'z service_scheme" where
  "CSocket_addEvent ev s =
     (let e = (if sv_watch s then sv_events s OR ev else ev)
      in if e \<noteq> 0 \<and> (\<not> sv_watch s \<or> e \<noteq> sv_events s) then CSocket_start e s else s)"

definition CSocket_close :: "'z service_scheme \<Rightarrow> 'z service_scheme" where
  "CSocket_close s = (if sv_fd s \<ge> 0 then (CSocket_stop s)\<lparr>sv_fd := -1\<rparr> else s)"

section \<open>Services\<close>

definition CService_close :: "'z service_scheme \<Rightarrow> 'z service_scheme" where
  "CService_close s =
     (CSocket_close s)\<lparr>sv_state := READ_HEAD, sv_rbuf := CBuffer_clear (sv_rbuf s),
        sv_wbuf := CBuffer_clear (sv_wbuf s)\<rparr>"

definition CService_sendData :: "byte list \<Rightarrow> 'z service_scheme \<Rightarrow> (int \<times> 'z service_scheme) res" where
  "CService_sendData bs s =
     (if bs \<noteq> [] then
        res_bind (CBuffer_cycleWrite bs (sv_wbuf s)) (\<lambda>(done, b).
          Inr (if done then (int (length bs), CSocket_addEvent EV_WRITE (s\<lparr>sv_wbuf := b\<rparr>)) else (-1, s)))
      else Inr (-1, s))"

definition CService_setHeadSize :: "u32 \<Rightarrow> 'z service_scheme \<Rightarrow> bool \<times> 'z service_scheme" where
  "CService_setHeadSize n s =
     (if n \<le> bf_size (sv_rbuf s) then (True, s\<lparr>sv_head_size := n\<rparr>) else (False, s))"

definition CService_setPkgSize :: "u32 \<Rightarrow> 'z service_scheme \<Rightarrow> bool \<times> 'z service_scheme" where
  "CService_setPkgSize n s =
     (if n \<le> bf_size (sv_rbuf s) then (True, s\<lparr>sv_pkg_size := n\<rparr>) else (False, s))"

text \<open>The virtual functions a service calls on itself.\<close>

record 's service_virtuals =
  vs_processHead :: "byte list \<Rightarrow> 's \<Rightarrow> int \<times> 's"
  vs_processPkg :: "byte list \<Rightarrow> 's \<Rightarrow> (int \<times> 's) res"
  vs_close :: "'s \<Rightarrow> 's res"
  vs_onConnected :: "'s \<Rightarrow> 's res"
  vs_onConnectErr :: "int \<Rightarrow> 's \<Rightarrow> 's res"

text \<open>\<^verbatim>\<open>CService\<close> itself: every package is an error, and a failed connection is closed.\<close>

definition CService_virtuals :: "'z service_scheme service_virtuals" where
  "CService_virtuals =
     \<lparr>vs_processHead = \<lambda>_ s. (-1, s), vs_processPkg = \<lambda>_ s. Inr (-1, s), vs_close = \<lambda>s. Inr (CService_close s),
      vs_onConnected = Inr, vs_onConnectErr = \<lambda>_ s. Inr (CService_close s)\<rparr>"

subsection \<open>Receiving\<close>

text \<open>
  What the kernel holds for the socket: segments as they arrived (an empty one is the end of the
  stream) and errors. One \<^verbatim>\<open>read\<close> returns at most one segment; with nothing left it would block.
\<close>

datatype seg = Data "byte list" | Broken int

fun sock_read :: "nat \<Rightarrow> seg list \<Rightarrow> (int + byte list) \<times> seg list" where
  "sock_read n [] = (Inl EAGAIN, [])"
| "sock_read n (Broken e # segs) = (Inl e, segs)"
| "sock_read n (Data bs # segs) =
     (if length bs \<le> n then (Inr bs, segs) else (Inr (take n bs), Data (drop n bs) # segs))"

primrec seg_weight :: "seg \<Rightarrow> nat" where
  "seg_weight (Data bs) = Suc (length bs)"
| "seg_weight (Broken e) = 1"

lemma sock_read_weight:
  "0 < n \<Longrightarrow> sock_read n segs = (r, rest) \<Longrightarrow> segs \<noteq> [] \<Longrightarrow>
     sum_list (map seg_weight rest) < sum_list (map seg_weight segs)"
  by (induction n segs rule: sock_read.induct) (auto split: if_splits)

text \<open>
  The part of the loop after \<open>tail_ += ret\<close>: whether to go on, the length waited for, the state.
\<close>

definition read_arrived ::
    "'z service_scheme service_virtuals \<Rightarrow> u32 \<Rightarrow> 'z service_scheme \<Rightarrow> (bool \<times> u32 \<times> 'z service_scheme) res" where
  "read_arrived v len s =
     (if bf_tail (sv_rbuf s) = len then
        res_bind
          (if sv_state s = READ_HEAD then
             (case vs_processHead v (take (unat (bf_tail (sv_rbuf s))) (bf_p (sv_rbuf s))) s of (r, s1) \<Rightarrow>
                if r < 0 then res_bind (vs_close v s1) (\<lambda>s2. Inr (False, len, s2))
                else Inr (True, sv_pkg_size s1, s1\<lparr>sv_state := READ_BODY\<rparr>))
           else Inr (True, len, s))
          (\<lambda>(go, len1, s1).
             if go \<and> bf_tail (sv_rbuf s1) \<ge> len1 \<and> sv_state s1 = READ_BODY then
               res_bind (vs_processPkg v (take (unat (bf_tail (sv_rbuf s1))) (bf_p (sv_rbuf s1))) s1) (\<lambda>(r, s2).
                 if r < 0 then res_bind (vs_close v s2) (\<lambda>s3. Inr (False, len1, s3))
                 else Inr (True, sv_head_size s2,
                   s2\<lparr>sv_state := READ_HEAD, sv_rbuf := (sv_rbuf s2)\<lparr>bf_tail := 0\<rparr>\<rparr>))
             else Inr (go, len1, s1))
      else Inr (True, len, s))"

definition read_put :: "byte list \<Rightarrow> 'z service_scheme \<Rightarrow> 'z service_scheme res" where
  "read_put bs s =
     res_bind (store_at (unat (bf_tail (sv_rbuf s))) bs (bf_p (sv_rbuf s))) (\<lambda>mem.
       Inr (s\<lparr>sv_rbuf := (sv_rbuf s)\<lparr>bf_p := mem, bf_tail := bf_tail (sv_rbuf s) + word_of_nat (length bs)\<rparr>\<rparr>))"

lemma read_loop_weight:
  assumes "bf_tail (sv_rbuf s) < len" "sock_read (unat (len - bf_tail (sv_rbuf s))) segs = (Inr bs, rest)"
  shows "sum_list (map seg_weight rest) < sum_list (map seg_weight segs)"
proof (rule sock_read_weight [OF _ assms(2)])
  show "0 < unat (len - bf_tail (sv_rbuf s))" using assms(1) by (simp add: unat_gt_0)
  show "segs \<noteq> []" using assms(2) by auto
qed

text \<open>The result says whether the socket is still served, and what the kernel still holds.\<close>

function read_loop ::
    "'z service_scheme service_virtuals \<Rightarrow> u32 \<Rightarrow> seg list \<Rightarrow> 'z service_scheme \<Rightarrow>
     (bool \<times> 'z service_scheme \<times> seg list) res" where
  "read_loop v len segs s =
     (if bf_tail (sv_rbuf s) < len then
        (case sock_read (unat (len - bf_tail (sv_rbuf s))) segs of
           (Inr bs, rest) \<Rightarrow>
             if bs \<noteq> [] then
               res_bind (read_put bs s) (\<lambda>s1.
               res_bind (read_arrived v len s1) (\<lambda>(go, len1, s2).
                 if go then read_loop v len1 rest s2 else Inr (False, s2, rest)))
             else res_bind (vs_close v s) (\<lambda>s1. Inr (False, s1, rest))
         | (Inl e, rest) \<Rightarrow>
             if e \<noteq> EAGAIN then res_bind (vs_close v s) (\<lambda>s1. Inr (False, s1, rest))
             else Inr (True, s, rest))
      else Inr (True, s, segs))"
  by pat_completeness auto

termination
  by (relation "measure (\<lambda>(_, _, segs, _). sum_list (map seg_weight segs))")
    (auto intro: read_loop_weight [OF _ sym])

declare read_loop.simps [simp del]

definition CService_read_cb ::
    "'z service_scheme service_virtuals \<Rightarrow> seg list \<Rightarrow> 'z service_scheme \<Rightarrow>
     (bool \<times> 'z service_scheme \<times> seg list) res" where
  "CService_read_cb v segs s =
     read_loop v (if sv_state s = READ_HEAD then sv_head_size s else sv_pkg_size s) segs s"

subsection \<open>Sending\<close>

text \<open>What the kernel answers to each \<^verbatim>\<open>write\<close>; after the last answer it would block.\<close>

datatype wrote = Wrote nat | WriteErr int

fun write_loop ::
    "'z service_scheme service_virtuals \<Rightarrow> wrote list \<Rightarrow> 'z service_scheme \<Rightarrow> byte list \<Rightarrow>
     (bool \<times> 'z service_scheme \<times> byte list) res" where
  "write_loop v [] s sent = Inr (True, s, sent)"
| "write_loop v (Wrote k # ws) s sent =
     (let block = front_block_of (sv_wbuf s); n = min k (length block)
      in if n > 0 then
           (let s1 = s\<lparr>sv_wbuf := CBuffer_commitRead (word_of_nat n) (sv_wbuf s)\<rparr>
            in if snd (CBuffer_cycleRead (sv_wbuf s1)) > 0 then write_loop v ws s1 (sent @ take n block)
               else Inr (True, CSocket_stop_events EV_WRITE s1, sent @ take n block))
         else res_bind (vs_close v s) (\<lambda>s1. Inr (False, s1, sent)))"
| "write_loop v (WriteErr e # ws) s sent =
     (if e \<noteq> EAGAIN then res_bind (vs_close v s) (\<lambda>s1. Inr (False, s1, sent)) else Inr (True, s, sent))"

definition CService_write_cb ::
    "'z service_scheme service_virtuals \<Rightarrow> wrote list \<Rightarrow> 'z service_scheme \<Rightarrow>
     (bool \<times> 'z service_scheme \<times> byte list) res" where
  "CService_write_cb v ws s =
     (if CBuffer_len (sv_wbuf s) > 0 then write_loop v ws s []
      else Inr (True, CSocket_stop_events EV_WRITE s, []))"

definition CSocket_read_write_cb ::
    "'z service_scheme service_virtuals \<Rightarrow> u32 \<Rightarrow> seg list \<Rightarrow> wrote list \<Rightarrow> 'z service_scheme \<Rightarrow>
     ('z service_scheme \<times> byte list) res" where
  "CSocket_read_write_cb v events segs ws s =
     res_bind (if events AND EV_ERROR \<noteq> 0 then vs_close v s else Inr s) (\<lambda>s1.
     res_bind (if events AND EV_READ \<noteq> 0 \<and> sv_fd s1 \<ge> 0
               then res_bind (CService_read_cb v segs s1) (\<lambda>(_, s2, _). Inr s2) else Inr s1) (\<lambda>s2.
     if events AND EV_WRITE \<noteq> 0 \<and> sv_fd s2 \<ge> 0
     then res_bind (CService_write_cb v ws s2) (\<lambda>(_, s3, sent). Inr (s3, sent))
     else Inr (s2, [])))"

subsection \<open>Connecting\<close>

text \<open>The answers of \<^verbatim>\<open>socket\<close> and \<^verbatim>\<open>connect\<close>.\<close>

datatype connect_ret = Connected | InProgress | ConnectFailed int

record connect_env =
  ce_socket :: int
  ce_connect :: connect_ret

definition CService_connect ::
    "'z service_scheme service_virtuals \<Rightarrow> connect_env \<Rightarrow> int \<Rightarrow> 'z service_scheme \<Rightarrow>
     (bool \<times> 'z service_scheme) res" where
  "CService_connect v env timeout s =
     (let s1 = (if sv_fd s < 0 then s\<lparr>sv_fd := ce_socket env\<rparr> else s)
      in if sv_fd s < 0 \<and> ce_socket env = -1 then Inr (False, s1)
         else case ce_connect env of
           ConnectFailed e \<Rightarrow> Inr (False, s1\<lparr>sv_fd := -1\<rparr>)
         | InProgress \<Rightarrow>
             (let s2 = (CSocket_start EV_WRITE s1)\<lparr>sv_cb := CbConnect\<rparr>
              in Inr (True, if timeout > 0 then s2\<lparr>sv_timer := True\<rparr> else s2))
         | Connected \<Rightarrow> res_bind (vs_onConnected v s1) (\<lambda>s2. Inr (True, s2)))"

text \<open>\<^verbatim>\<open>getsockopt\<close> fails with an errno or reports the error of the connection.\<close>

definition CService_connect_cb ::
    "'z service_scheme service_virtuals \<Rightarrow> int + int \<Rightarrow> 'z service_scheme \<Rightarrow> 'z service_scheme res" where
  "CService_connect_cb v so_error s =
     (let s1 = CSocket_stop (s\<lparr>sv_timer := False\<rparr>)
      in case so_error of
           Inl e \<Rightarrow> vs_onConnectErr v e s1
         | Inr err \<Rightarrow> if err \<noteq> 0 then vs_onConnectErr v err s1 else vs_onConnected v s1)"

definition CService_connect_timeout_cb ::
    "'z service_scheme service_virtuals \<Rightarrow> 'z service_scheme \<Rightarrow> 'z service_scheme res" where
  "CService_connect_timeout_cb v s = vs_onConnectErr v ETIMEDOUT (CSocket_stop (s\<lparr>sv_timer := False\<rparr>))"

section \<open>Packages do not depend on how the bytes arrive\<close>

text \<open>
  The reference: a service that is given its bytes one at a time. \<open>need\<close> is the length it waits for.
\<close>

definition need :: "'z service_scheme \<Rightarrow> u32" where
  "need s = (if sv_state s = READ_HEAD then sv_head_size s else sv_pkg_size s)"

primrec eat ::
    "'z service_scheme service_virtuals \<Rightarrow> byte list \<Rightarrow> 'z service_scheme \<Rightarrow> (bool \<times> 'z service_scheme) res" where
  "eat v [] s = Inr (True, s)"
| "eat v (b # bs) s =
     res_bind (read_put [b] s) (\<lambda>s1.
     res_bind (read_arrived v (need s) s1) (\<lambda>(go, _, s2). if go then eat v bs s2 else Inr (False, s2)))"

lemma eat_append:
  "eat v (xs @ ys) s = res_bind (eat v xs s) (\<lambda>(go, t). if go then eat v ys t else Inr (False, t))"
  by (induction xs arbitrary: s) (simp_all add: res_bind_def split: sum.split prod.split)

definition frame_inv :: "'z service_scheme \<Rightarrow> bool" where
  "frame_inv s \<longleftrightarrow> length (bf_p (sv_rbuf s)) = unat (bf_size (sv_rbuf s)) \<and> 0 < sv_head_size s \<and>
     sv_head_size s \<le> bf_size (sv_rbuf s) \<and> need s \<le> bf_size (sv_rbuf s) \<and>
     bf_tail (sv_rbuf s) < need s"

text \<open>What a service relies on from its own virtual functions: they leave the framing alone.\<close>

locale framed_service =
  fixes v :: "'z service_scheme service_virtuals"
  assumes head_keeps: "vs_processHead v p s = (r, t) \<Longrightarrow> 0 \<le> r \<Longrightarrow>
      sv_rbuf t = sv_rbuf s \<and> sv_head_size t = sv_head_size s \<and> sv_pkg_size t \<le> bf_size (sv_rbuf s)"
    and pkg_keeps: "vs_processPkg v p s = Inr (r, t) \<Longrightarrow> 0 \<le> r \<Longrightarrow>
      sv_rbuf t = sv_rbuf s \<and> sv_head_size t = sv_head_size s"
begin

lemma read_put_tail:
  assumes "frame_inv s" "length bs \<le> unat (need s - bf_tail (sv_rbuf s))"
  shows "\<exists>mem. length mem = length (bf_p (sv_rbuf s)) \<and> read_put bs s = Inr (s\<lparr>sv_rbuf := (sv_rbuf s)
    \<lparr>bf_p := mem, bf_tail := bf_tail (sv_rbuf s) + word_of_nat (length bs)\<rparr>\<rparr>)"
proof -
  have "unat (need s - bf_tail (sv_rbuf s)) = unat (need s) - unat (bf_tail (sv_rbuf s))"
    using assms(1) by (simp add: frame_inv_def unat_sub less_imp_le)
  then have "unat (bf_tail (sv_rbuf s)) + length bs \<le> length (bf_p (sv_rbuf s))"
    using assms by (auto simp: frame_inv_def word_less_nat_alt word_le_nat_alt)
  then show ?thesis unfolding read_put_def store_at_def
    by (intro exI [of _ "take (unat (bf_tail (sv_rbuf s))) (bf_p (sv_rbuf s)) @ bs @
      drop (unat (bf_tail (sv_rbuf s)) + length bs) (bf_p (sv_rbuf s))"]) simp
qed

lemma arrived_inv:
  assumes "read_arrived v (need s) s = Inr (True, len, t)"
    and "length (bf_p (sv_rbuf s)) = unat (bf_size (sv_rbuf s))" "0 < sv_head_size s"
      "sv_head_size s \<le> bf_size (sv_rbuf s)" "need s \<le> bf_size (sv_rbuf s)" "bf_tail (sv_rbuf s) \<le> need s"
  shows "frame_inv t \<and> len = need t"
proof (cases "bf_tail (sv_rbuf s) = need s")
  case False
  with assms(1) have "t = s" "len = need s" by (auto simp: read_arrived_def)
  moreover have "frame_inv s" using False assms(2-) by (simp add: frame_inv_def order_less_le)
  ultimately show ?thesis by simp
next
  case full: True
  let ?p = "\<lambda>s. take (unat (bf_tail (sv_rbuf s))) (bf_p (sv_rbuf s))"
  have pkg: "frame_inv t \<and> len = need t"
    if mid: "sv_rbuf s1 = sv_rbuf s" "sv_head_size s1 = sv_head_size s" "sv_state s1 = READ_BODY"
        "sv_pkg_size s1 \<le> bf_size (sv_rbuf s)"
      and step: "(if bf_tail (sv_rbuf s1) \<ge> sv_pkg_size s1 then
          res_bind (vs_processPkg v (?p s1) s1) (\<lambda>(r, s2).
            if r < 0 then res_bind (vs_close v s2) (\<lambda>s3. Inr (False, sv_pkg_size s1, s3))
            else Inr (True, sv_head_size s2, s2\<lparr>sv_state := READ_HEAD, sv_rbuf := (sv_rbuf s2)\<lparr>bf_tail := 0\<rparr>\<rparr>))
        else Inr (True, sv_pkg_size s1, s1)) = Inr (True, len, t)" for s1
  proof (cases "bf_tail (sv_rbuf s1) \<ge> sv_pkg_size s1")
    case True
    with step obtain r s2 where "vs_processPkg v (?p s1) s1 = Inr (r, s2)" "0 \<le> r" "len = sv_head_size s2"
        "t = s2\<lparr>sv_state := READ_HEAD, sv_rbuf := (sv_rbuf s2)\<lparr>bf_tail := 0\<rparr>\<rparr>"
      by (auto simp: res_bind_Inr_iff split: if_splits)
    with pkg_keeps [OF this(1,2)] mid assms(2-4) show ?thesis by (simp add: frame_inv_def need_def)
  next
    case False
    with step mid assms(2-4) show ?thesis by (auto simp: frame_inv_def need_def)
  qed
  show ?thesis
  proof (cases "sv_state s")
    case READ_HEAD
    obtain r s1 where h: "vs_processHead v (?p s) s = (r, s1)" by (metis surj_pair)
    then have r: "0 \<le> r" using assms(1) full READ_HEAD
      by (auto simp: read_arrived_def res_bind_def split: if_splits sum.splits)
    from head_keeps [OF h r] show ?thesis
      using assms(1) full READ_HEAD h r by (intro pkg [of "s1\<lparr>sv_state := READ_BODY\<rparr>"]) (simp_all add: read_arrived_def cong: if_cong)
  next
    case READ_BODY
    with assms(1,5) full show ?thesis by (intro pkg [of s]) (simp_all add: read_arrived_def need_def)
  qed
qed

lemma unat_tail_add:
  assumes "frame_inv s" "n \<le> unat (need s - bf_tail (sv_rbuf s))"
  shows "unat (bf_tail (sv_rbuf s) + word_of_nat n) = unat (bf_tail (sv_rbuf s)) + n"
    "unat (bf_tail (sv_rbuf s)) + n \<le> unat (need s)"
proof -
  have "unat (need s - bf_tail (sv_rbuf s)) = unat (need s) - unat (bf_tail (sv_rbuf s))"
    "unat (bf_tail (sv_rbuf s)) < unat (need s)"
    using assms(1) by (simp_all add: frame_inv_def unat_sub less_imp_le word_less_nat_alt)
  then show le: "unat (bf_tail (sv_rbuf s)) + n \<le> unat (need s)" using assms(2) by linarith
  moreover have "unat (need s) < 2 ^ 32" using unsigned_less [of "need s"] by simp
  ultimately show "unat (bf_tail (sv_rbuf s) + word_of_nat n) = unat (bf_tail (sv_rbuf s)) + n"
    by (simp add: unat_word_ariths unat_of_nat take_bit_eq_mod)
qed

lemma read_put_inv:
  assumes "frame_inv s" "length bs \<le> unat (need s - bf_tail (sv_rbuf s))" "read_put bs s = Inr s1"
  shows "need s1 = need s" "sv_head_size s1 = sv_head_size s" "sv_state s1 = sv_state s"
    "bf_size (sv_rbuf s1) = bf_size (sv_rbuf s)" "length (bf_p (sv_rbuf s1)) = unat (bf_size (sv_rbuf s1))"
    "unat (bf_tail (sv_rbuf s1)) = unat (bf_tail (sv_rbuf s)) + length bs" "bf_tail (sv_rbuf s1) \<le> need s"
proof -
  obtain mem where m: "length mem = length (bf_p (sv_rbuf s))" "s1 = s\<lparr>sv_rbuf := (sv_rbuf s)
    \<lparr>bf_p := mem, bf_tail := bf_tail (sv_rbuf s) + word_of_nat (length bs)\<rparr>\<rparr>"
    using read_put_tail [OF assms(1,2)] assms(3) by auto
  show "need s1 = need s" "sv_head_size s1 = sv_head_size s" "sv_state s1 = sv_state s"
    "bf_size (sv_rbuf s1) = bf_size (sv_rbuf s)" "length (bf_p (sv_rbuf s1)) = unat (bf_size (sv_rbuf s1))"
    using m assms(1) by (simp_all add: need_def frame_inv_def)
  show "unat (bf_tail (sv_rbuf s1)) = unat (bf_tail (sv_rbuf s)) + length bs" "bf_tail (sv_rbuf s1) \<le> need s"
    using unat_tail_add [OF assms(1,2)] by (simp_all add: m word_le_nat_alt)
qed

lemma read_put_Cons:
  assumes "frame_inv s" "length (b # bs) \<le> unat (need s - bf_tail (sv_rbuf s))" "read_put [b] s = Inr s1"
  shows "read_put (b # bs) s = read_put bs s1"
proof -
  let ?t = "bf_tail (sv_rbuf s)" and ?p = "bf_p (sv_rbuf s)"
  have room: "unat ?t + length (b # bs) \<le> length ?p"
    using unat_tail_add(2) [OF assms(1,2)] assms(1) by (auto simp: frame_inv_def word_le_nat_alt)
  have t: "unat (?t + 1) = Suc (unat ?t)" "unat (1 + ?t) = Suc (unat ?t)"
    using unat_tail_add(1) [OF assms(1), of 1] assms(2) by (simp_all add: add.commute)
  have "s1 = s\<lparr>sv_rbuf := (sv_rbuf s)\<lparr>bf_p := take (unat ?t) ?p @ b # drop (Suc (unat ?t)) ?p, bf_tail := ?t + 1\<rparr>\<rparr>"
    using assms(3) room by (auto simp: read_put_def store_at_def split: if_splits)
  with room show ?thesis
    by (simp add: read_put_def store_at_def t Suc_diff_le min_def add.commute add.left_commute)
qed

lemma eat_chunk:
  assumes "frame_inv s" "bs \<noteq> []" "length bs \<le> unat (need s - bf_tail (sv_rbuf s))"
  shows "eat v bs s = res_bind (read_put bs s) (\<lambda>s1.
    res_bind (read_arrived v (need s) s1) (\<lambda>(go, _, s2). Inr (go, s2)))"
  using assms
proof (induction bs arbitrary: s)
  case (Cons b bs)
  show ?case
  proof (cases "bs = []")
    case True
    then show ?thesis
      by (simp add: res_bind_def split: sum.split prod.split)
  next
    case False
    have one: "length [b] \<le> unat (need s - bf_tail (sv_rbuf s))"
      "length bs < unat (need s - bf_tail (sv_rbuf s))" using Cons.prems(3) by auto
    obtain s1 where s1: "read_put [b] s = Inr s1" using read_put_tail [OF Cons.prems(1) one(1)] by auto
    note P = read_put_inv [OF Cons.prems(1) one(1) s1]
    have lt: "bf_tail (sv_rbuf s1) < need s"
      using P(6) one False Cons.prems(1)
      by (simp add: word_less_nat_alt frame_inv_def unat_sub less_imp_le less_diff_conv length_greater_0_conv [symmetric]
          del: length_greater_0_conv)
    then have inv: "frame_inv s1" using P Cons.prems(1) by (simp add: frame_inv_def)
    have "unat (need s1 - bf_tail (sv_rbuf s1)) = unat (need s) - unat (bf_tail (sv_rbuf s1))"
      "unat (need s - bf_tail (sv_rbuf s)) = unat (need s) - unat (bf_tail (sv_rbuf s))"
      using lt P(1) Cons.prems(1) by (simp_all add: unat_sub less_imp_le frame_inv_def)
    then have "length bs \<le> unat (need s1 - bf_tail (sv_rbuf s1))" using one P(6) by simp
    from Cons.IH [OF inv False this] have "eat v bs s1 = res_bind (read_put bs s1) (\<lambda>s2.
        res_bind (read_arrived v (need s) s2) (\<lambda>(go, _, s3). Inr (go, s3)))" by (simp add: P(1))
    moreover have "bf_tail (sv_rbuf s1) \<noteq> need s" using lt by auto
    then have "read_arrived v (need s) s1 = Inr (True, need s, s1)" by (simp add: read_arrived_def)
    ultimately show ?thesis using s1 read_put_Cons [OF Cons.prems(1,3) s1] by simp
  qed
qed simp

lemma eat_inv: "frame_inv s \<Longrightarrow> eat v bs s = Inr (True, t) \<Longrightarrow> frame_inv t"
proof (induction bs arbitrary: s)
  case (Cons b bs)
  then obtain s1 len s2 where st: "read_put [b] s = Inr s1" "read_arrived v (need s) s1 = Inr (True, len, s2)"
      "eat v bs s2 = Inr (True, t)" by (auto simp: res_bind_Inr_iff split: if_splits)
  have "length [b] \<le> unat (need s - bf_tail (sv_rbuf s))"
    using Cons.prems(1) by (auto simp: frame_inv_def Suc_le_eq unat_gt_0)
  note P = read_put_inv [OF Cons.prems(1) this st(1)]
  have "frame_inv s2"
    using arrived_inv [of s1 len s2] st(2) P Cons.prems(1) by (simp add: frame_inv_def)
  from Cons.IH [OF this st(3)] show ?case .
qed simp

text \<open>Reading however many segments is eating their bytes.\<close>

lemma read_loop_eats:
  assumes "frame_inv s" "[] \<notin> set chunks"
  shows "map_sum id (\<lambda>(go, t, _). (go, t)) (read_loop v (need s) (map Data chunks) s) = eat v (concat chunks) s"
  using assms
proof (induction "sum_list (map seg_weight (map Data chunks))" arbitrary: chunks s rule: less_induct)
  case less
  let ?n = "unat (need s - bf_tail (sv_rbuf s))"
  have lt: "bf_tail (sv_rbuf s) < need s" "0 < ?n" using less.prems(1) by (auto simp: frame_inv_def unat_gt_0)
  show ?case
  proof (cases chunks)
    case Nil
    with lt show ?thesis by (subst read_loop.simps) simp
  next
    case (Cons c cs)
    define bs rest where "bs = take ?n c" and "rest = (if length c \<le> ?n then cs else drop ?n c # cs)"
    have c: "c \<noteq> []" using less.prems(2) Cons by auto
    have sr: "sock_read ?n (map Data chunks) = (Inr bs, map Data rest)" by (simp add: Cons bs_def rest_def)
    have bs: "bs \<noteq> []" "length bs \<le> ?n" "concat chunks = bs @ concat rest" "[] \<notin> set rest"
      using c lt less.prems(2) Cons by (auto simp: bs_def rest_def)
    have w: "sum_list (map seg_weight (map Data rest)) < sum_list (map seg_weight (map Data chunks))"
      by (rule read_loop_weight [OF lt(1) sr])
    obtain s1 where s1: "read_put bs s = Inr s1" using read_put_tail [OF less.prems(1) bs(2)] by auto
    note P = read_put_inv [OF less.prems(1) bs(2) s1]
    have eat: "eat v (concat chunks) s = res_bind (read_arrived v (need s) s1)
        (\<lambda>(go, _, s2). if go then eat v (concat rest) s2 else Inr (False, s2))"
      unfolding bs(3) eat_append eat_chunk [OF less.prems(1) bs(1,2)] s1
      by (simp add: res_bind_def split: sum.split prod.split)
    have loop: "read_loop v (need s) (map Data chunks) s = res_bind (read_arrived v (need s) s1)
        (\<lambda>(go, len, s2). if go then read_loop v len (map Data rest) s2 else Inr (False, s2, map Data rest))"
      by (subst read_loop.simps) (simp add: lt sr bs(1) s1)
    show ?thesis
    proof (cases "read_arrived v (need s) s1")
      case (Inl e)
      with eat loop show ?thesis by simp
    next
      case (Inr x)
      obtain go len s2 where x: "x = (go, len, s2)" by (cases x)
      show ?thesis
      proof (cases go)
        case True
        have "frame_inv s2 \<and> len = need s2"
          using arrived_inv [of s1 len s2] Inr x True P less.prems(1) by (simp add: frame_inv_def)
        with less.hyps [OF w _ bs(4), of s2] eat loop Inr x True show ?thesis by simp
      next
        case False
        with eat loop Inr x show ?thesis by simp
      qed
    qed
  qed
qed

end

end
