(* ===== verification/Signal_Agent.thy ===== *)
theory Signal_Agent
  imports Service Io_Channel "HOL-Library.Char_ord"
begin

text \<open>
  \<^verbatim>\<open>signal_agent\<close>: signals (channels of frames) are mirrored from one host to another. The agent of the
  host that has them (\<^verbatim>\<open>CSignalServer\<close>) reads the channels and sends each frame over a socket; the
  agent of the other host (\<^verbatim>\<open>CSignalRequester\<close>) asks for signals by name and writes the frames it
  gets into channels of its own. \<^verbatim>\<open>CSignalAgent\<close> runs both. The clock (\<^verbatim>\<open>g_system_time_ns\<close>) is an
  argument.
\<close>

section \<open>The protocol\<close>

definition SA_STX :: byte where "SA_STX = 0x88"
definition SA_VER :: byte where "SA_VER = 1"
definition SACMD_REQ_SIG :: byte where "SACMD_REQ_SIG = 1"
definition SACMD_SIGNAL_DATA :: byte where "SACMD_SIGNAL_DATA = 2"
definition SACMD_REQ_HEATBEAT :: byte where "SACMD_REQ_HEATBEAT = 3"
definition SACMD_REP_HEATBEAT :: byte where "SACMD_REP_HEATBEAT = 4"

lemmas sa_consts =
  SA_STX_def SA_VER_def SACMD_REQ_SIG_def SACMD_SIGNAL_DATA_def SACMD_REQ_HEATBEAT_def SACMD_REP_HEATBEAT_def

text \<open>The sizes of \<^verbatim>\<open>tSACmdHead\<close>, and of \<^verbatim>\<open>tSARequestSignal\<close> and \<^verbatim>\<open>tSASignalData\<close> without their arrays.\<close>

definition SA_HEAD :: nat where "SA_HEAD = 7"
definition SA_DATA :: nat where "SA_DATA = 11"

text \<open>An \<^verbatim>\<open>int\<close> in a packed structure: four bytes, the lowest first.\<close>

definition int_bytes :: "u32 \<Rightarrow> byte list" where
  "int_bytes w =
     [word_of_nat (unat w), word_of_nat (unat w div 256), word_of_nat (unat w div 256 ^ 2),
      word_of_nat (unat w div 256 ^ 3)]"

definition bytes_int :: "byte list \<Rightarrow> u32" where
  "bytes_int bs =
     word_of_nat (unat (bs ! 0) + 256 * unat (bs ! 1) + 256 ^ 2 * unat (bs ! 2) + 256 ^ 3 * unat (bs ! 3))"

lemma length_int_bytes [simp]: "length (int_bytes w) = 4"
  by (simp add: int_bytes_def)

lemma bytes_int_bytes [simp]: "bytes_int (int_bytes w @ bs) = w"
proof -
  have split: "n mod 256 + 256 * (n div 256 mod 256) + 65536 * (n div 65536 mod 256) +
      16777216 * (n div 16777216 mod 256) = n mod 4294967296" for n :: nat
    using mod_mult2_eq [of n 256 256] mod_mult2_eq [of n 65536 256] mod_mult2_eq [of n 16777216 256]
    by simp
  have byte: "unat (word_of_nat n :: byte) = n mod 256" for n by (simp add: unat_of_nat take_bit_eq_mod)
  have "unat w < 2 ^ 32" using unsigned_less [of w] by simp
  then have w: "unat w mod 4294967296 = unat w" by simp
  have "bytes_int (int_bytes w @ bs) = word_of_nat (unat w mod 256 + 256 * (unat w div 256 mod 256) +
      65536 * (unat w div 65536 mod 256) + 16777216 * (unat w div 16777216 mod 256))"
    unfolding bytes_int_def int_bytes_def by (simp only: append_Cons nth_Cons_0 byte) (simp add: byte)
  then show ?thesis unfolding split w by simp
qed

definition sa_head :: "byte \<Rightarrow> u32 \<Rightarrow> byte list" where
  "sa_head cmd len = [SA_STX, SA_VER, cmd] @ int_bytes len"

lemma length_sa_head [simp]: "length (sa_head cmd len) = SA_HEAD"
  by (simp add: sa_head_def SA_HEAD_def)

definition str_bytes :: "string \<Rightarrow> byte list" where
  "str_bytes s = map (\<lambda>c. word_of_nat (of_char c)) s"

definition bytes_str :: "byte list \<Rightarrow> string" where
  "bytes_str bs = map (\<lambda>b. char_of (unat b)) bs"

lemma bytes_str_bytes [simp]: "bytes_str (str_bytes s) = s"
  by (induction s) (simp_all add: bytes_str_def str_bytes_def unat_of_nat take_bit_eq_mod)

text \<open>Both ends take the length of a package from its head.\<close>

definition sa_processHead :: "byte list \<Rightarrow> 'z service_scheme \<Rightarrow> int \<times> 'z service_scheme" where
  "sa_processHead p s =
     (if \<not> (p ! 0 = SA_STX \<and> p ! 1 = SA_VER) then (-1, s)
      else case CService_setPkgSize (bytes_int (drop 3 p)) s of
        (False, s1) \<Rightarrow> (-1, s1)
      | (True, s1) \<Rightarrow> (0, s1))"

section \<open>CSignalServer\<close>

record signal_server = service +
  ss_alive :: int
  ss_timeout :: int
  ss_readers :: "io_reader list"
  ss_names :: "string set"

definition SIGNAL_BASE_DIR :: string where
  "SIGNAL_BASE_DIR = ''signal/''"

definition CSignalServer_new ::
    "(nat \<Rightarrow> byte) \<Rightarrow> (nat \<Rightarrow> byte) \<Rightarrow> int \<Rightarrow> int \<Rightarrow> int \<Rightarrow> u32 \<Rightarrow> signal_server" where
  "CSignalServer_new rjunk wjunk now fd timeout buf_size =
     (let s = CService_new rjunk wjunk 4096 buf_size;
          s1 = snd (CService_setHeadSize (word_of_nat SA_HEAD) (s\<lparr>sv_fd := fd\<rparr>))
      in service.extend s1
           \<lparr>ss_alive = now + timeout, ss_timeout = timeout, ss_readers = [], ss_names = {}\<rparr>)"

definition CSignalServer_addReader ::
    "byte list io_view \<Rightarrow> string \<Rightarrow> 'z signal_server_scheme \<Rightarrow> 'z signal_server_scheme res" where
  "CSignalServer_addReader v name s =
     (if name \<notin> ss_names s then
        res_bind (CRawIOReader_init v (SIGNAL_BASE_DIR @ name) (-1) (-1) CRawIOReader_new) (\<lambda>(_, r).
          Inr (s\<lparr>ss_readers := ss_readers s @ [r], ss_names := insert name (ss_names s)\<rparr>))
      else Inr s)"

text \<open>The names of a request, each up to its null; they are read in the receive buffer.\<close>

fun add_readers ::
    "nat \<Rightarrow> byte list io_view \<Rightarrow> byte list \<Rightarrow> 'z signal_server_scheme \<Rightarrow> 'z signal_server_scheme res" where
  "add_readers 0 v p_name s = Inr s"
| "add_readers (Suc n) v p_name s =
     (if 0 \<notin> set p_name then Inl OutOfRange
      else res_bind (CSignalServer_addReader v (bytes_str (takeWhile (\<lambda>b. b \<noteq> 0) p_name)) s) (\<lambda>s1.
        add_readers n v (tl (dropWhile (\<lambda>b. b \<noteq> 0) p_name)) s1))"

definition CSignalServer_processPkg ::
    "byte list io_view \<Rightarrow> int \<Rightarrow> byte list \<Rightarrow> 'z signal_server_scheme \<Rightarrow> (int \<times> 'z signal_server_scheme) res" where
  "CSignalServer_processPkg v now p s =
     (let s1 = s\<lparr>ss_alive := now\<rparr>; mem = bf_p (sv_rbuf s); cmd = mem ! 2
      in if cmd = SACMD_REQ_SIG then
           res_bind (add_readers (nat (sint (bytes_int (drop SA_HEAD mem)))) v (drop SA_DATA mem) s1) (\<lambda>s2. Inr (0, s2))
         else if cmd = SACMD_REQ_HEATBEAT then
           res_bind (CService_sendData (sa_head SACMD_REP_HEATBEAT 0) s1) (\<lambda>(_, s2). Inr (0, s2))
         else Inr (-1, s1))"

definition CSignalServer_virtuals ::
    "byte list io_view \<Rightarrow> int \<Rightarrow> 'z signal_server_scheme service_virtuals" where
  "CSignalServer_virtuals v now =
     \<lparr>vs_processHead = sa_processHead, vs_processPkg = CSignalServer_processPkg v now,
      vs_close = \<lambda>s. Inr (CService_close s), vs_onConnected = Inr,
      vs_onConnectErr = \<lambda>_ s. Inr (CService_close s)\<rparr>"

text \<open>
  \<^verbatim>\<open>tryRead\<close>. The results of \<^verbatim>\<open>sendData\<close> are not looked at. The fuel of the inner loop counts the
  frames; one more than there are unread is enough.
\<close>

fun send_frames ::
    "nat \<Rightarrow> byte list io_view \<Rightarrow> nat \<Rightarrow> io_reader \<Rightarrow> 'z signal_server_scheme \<Rightarrow>
     (io_reader \<times> 'z signal_server_scheme) res" where
  "send_frames 0 v i r s = Inl OutOfFuel"
| "send_frames (Suc n) v i r s =
     res_bind (CRawIOReader_getCurFrame v r) (\<lambda>(frame, r1).
       case frame of
         None \<Rightarrow> Inr (r1, s)
       | Some f \<Rightarrow>
           (let data_size = word_of_nat SA_DATA + word_of_int (fr_len f) :: u32 in
            if CBuffer_left (sv_wbuf s) \<ge> data_size then
              res_bind (CService_sendData (sa_head SACMD_SIGNAL_DATA data_size @ int_bytes (word_of_nat i)) s) (\<lambda>(_, s1).
              res_bind (CService_sendData (take (nat (fr_len f)) (fr_data f)) s1) (\<lambda>(_, s2).
              res_bind (CRawIOReader_passFrame v r1) (\<lambda>r2. send_frames n v i r2 s2)))
            else if bf_size (sv_wbuf s) < data_size then
              res_bind (CRawIOReader_passFrame v r1) (\<lambda>r2. send_frames n v i r2 s)
            else Inr (r1, s)))"

fun try_readers ::
    "nat \<Rightarrow> byte list io_view \<Rightarrow> bool \<Rightarrow> nat \<Rightarrow> nat \<Rightarrow> 'z signal_server_scheme \<Rightarrow> 'z signal_server_scheme res" where
  "try_readers n v scan_unload i 0 s = Inr s"
| "try_readers n v scan_unload i (Suc cnt) s =
     res_bind
       (if \<not> rd_fd (ss_readers s ! i) \<and> \<not> scan_unload then Inr s
        else res_bind (send_frames n v i (ss_readers s ! i) s) (\<lambda>(r, s1).
          Inr (s1\<lparr>ss_readers := (ss_readers s1)[i := r]\<rparr>)))
       (try_readers n v scan_unload (Suc i) cnt)"

definition CSignalServer_tryRead ::
    "nat \<Rightarrow> byte list io_view \<Rightarrow> bool \<Rightarrow> 'z signal_server_scheme \<Rightarrow> 'z signal_server_scheme res" where
  "CSignalServer_tryRead n v scan_unload s = try_readers n v scan_unload 0 (length (ss_readers s)) s"

definition CSignalServer_isOK :: "int \<Rightarrow> 'z signal_server_scheme \<Rightarrow> bool" where
  "CSignalServer_isOK now s \<longleftrightarrow> sv_fd s \<ge> 0 \<and> ss_alive s + ss_timeout s > now"

section \<open>CSignalRequester\<close>

record signal_requester = service +
  sq_writers :: "byte list io_writer list"
  sq_connected :: bool
  sq_alive :: int
  sq_heartbeat :: int
  sq_timeout :: int
  sq_names :: "string list"

definition CSignalRequester_new ::
    "(nat \<Rightarrow> byte) \<Rightarrow> (nat \<Rightarrow> byte) \<Rightarrow> int \<Rightarrow> u32 \<Rightarrow> signal_requester" where
  "CSignalRequester_new rjunk wjunk timeout buf_size =
     service.extend (snd (CService_setHeadSize (word_of_nat SA_HEAD) (CService_new rjunk wjunk buf_size 4096)))
       \<lparr>sq_writers = [], sq_connected = False, sq_alive = 0, sq_heartbeat = 0, sq_timeout = timeout, sq_names = []\<rparr>"

text \<open>
  A frame is copied out of the receive buffer; a length that runs over its end, as the difference
  of a package shorter than its structure does, is a fault. The fuel of \<^verbatim>\<open>write\<close> is two.
\<close>

definition CSignalRequester_processPkg ::
    "io_env \<Rightarrow> int \<Rightarrow> byte list \<Rightarrow> 'z signal_requester_scheme \<Rightarrow> (int \<times> 'z signal_requester_scheme) res" where
  "CSignalRequester_processPkg env now p s =
     (let s1 = s\<lparr>sq_alive := now\<rparr>; mem = bf_p (sv_rbuf s); cmd = mem ! 2
      in if cmd = SACMD_SIGNAL_DATA then
           (let idx = unat (bytes_int (drop SA_HEAD mem));
                len = unat (word_of_nat (length p) - word_of_nat SA_DATA :: u32)
            in if idx \<ge> length (sq_writers s) then Inl OutOfRange
               else if SA_DATA + len > length mem then Inl OutOfRange
               else res_bind (CRawIOWriter_write 2 env (take len (drop SA_DATA mem)) (int len) now
                      (sq_writers s ! idx)) (\<lambda>(_, w).
                    Inr (0, s1\<lparr>sq_writers := (sq_writers s)[idx := w]\<rparr>)))
         else if cmd = SACMD_REP_HEATBEAT then Inr (0, s1)
         else Inr (-1, s1))"

fun send_names :: "string list \<Rightarrow> 'z service_scheme \<Rightarrow> 'z service_scheme res" where
  "send_names [] s = Inr s"
| "send_names (i # is) s = res_bind (CService_sendData (str_bytes i @ [0]) s) (\<lambda>(_, s1). send_names is s1)"

definition CSignalRequester_sendRequest :: "'z signal_requester_scheme \<Rightarrow> 'z signal_requester_scheme res" where
  "CSignalRequester_sendRequest s =
     (let len = SA_DATA + sum_list (map (\<lambda>i. length i + 1) (sq_names s))
      in res_bind (CService_sendData (sa_head SACMD_REQ_SIG (word_of_nat len) @
             int_bytes (word_of_nat (length (sq_names s)))) s) (\<lambda>(_, s1).
         send_names (sq_names s) s1))"

definition CSignalRequester_onConnected ::
    "int \<Rightarrow> 'z signal_requester_scheme \<Rightarrow> 'z signal_requester_scheme res" where
  "CSignalRequester_onConnected now s =
     res_bind (CSignalRequester_sendRequest (s\<lparr>sq_connected := True\<rparr>)) (\<lambda>s1.
       Inr ((CSocket_addEvent EV_READ s1)\<lparr>sq_alive := now\<rparr>))"

text \<open>\<^verbatim>\<open>close\<close> and \<^verbatim>\<open>onConnectErr\<close> connect again, the latter after a timer unless the timer just ran out.\<close>

definition requester_base :: "int \<Rightarrow> 'z signal_requester_scheme service_virtuals" where
  "requester_base now = CService_virtuals\<lparr>vs_onConnected := CSignalRequester_onConnected now\<rparr>"

definition CSignalRequester_reconnect ::
    "int \<Rightarrow> connect_env \<Rightarrow> 'z signal_requester_scheme \<Rightarrow> 'z signal_requester_scheme res" where
  "CSignalRequester_reconnect now env s =
     res_bind (CService_connect (requester_base now) env (sq_timeout s div 1000000000)
         (CService_close (s\<lparr>sq_connected := False\<rparr>))) (\<lambda>(_, s1). Inr s1)"

definition CSignalRequester_close ::
    "int \<Rightarrow> connect_env \<Rightarrow> 'z signal_requester_scheme \<Rightarrow> 'z signal_requester_scheme res" where
  "CSignalRequester_close now env s = CSignalRequester_reconnect now env s"

definition CSignalRequester_onConnectErr ::
    "int \<Rightarrow> connect_env \<Rightarrow> int \<Rightarrow> 'z signal_requester_scheme \<Rightarrow> 'z signal_requester_scheme res" where
  "CSignalRequester_onConnectErr now env err s =
     (if err = ETIMEDOUT then CSignalRequester_reconnect now env s
      else Inr ((CService_close (s\<lparr>sq_connected := False\<rparr>))\<lparr>sv_timer := True\<rparr>))"

definition CSignalRequester_timeout ::
    "int \<Rightarrow> connect_env \<Rightarrow> 'z signal_requester_scheme \<Rightarrow> 'z signal_requester_scheme res" where
  "CSignalRequester_timeout now env s =
     res_bind (CService_connect (requester_base now) env (sq_timeout s div 1000000000) (s\<lparr>sv_timer := False\<rparr>))
       (\<lambda>(_, s1). Inr s1)"

definition CSignalRequester_virtuals ::
    "io_env \<Rightarrow> connect_env \<Rightarrow> int \<Rightarrow> 'z signal_requester_scheme service_virtuals" where
  "CSignalRequester_virtuals ioenv env now =
     \<lparr>vs_processHead = sa_processHead, vs_processPkg = CSignalRequester_processPkg ioenv now,
      vs_close = CSignalRequester_close now env, vs_onConnected = CSignalRequester_onConnected now,
      vs_onConnectErr = CSignalRequester_onConnectErr now env\<rparr>"

definition CSignalRequester_tryHeartBeat ::
    "int \<Rightarrow> 'z signal_requester_scheme \<Rightarrow> 'z signal_requester_scheme res" where
  "CSignalRequester_tryHeartBeat now s =
     (if sq_connected s \<and> sq_heartbeat s + sq_timeout s div 2 < now then
        res_bind (CService_sendData (sa_head SACMD_REQ_HEATBEAT 0) s) (\<lambda>(_, s1). Inr (s1\<lparr>sq_heartbeat := now\<rparr>))
      else Inr s)"

definition CSignalRequester_testOK ::
    "int \<Rightarrow> connect_env \<Rightarrow> 'z signal_requester_scheme \<Rightarrow> (bool \<times> 'z signal_requester_scheme) res" where
  "CSignalRequester_testOK now env s =
     (if sq_connected s \<and> sq_alive s + sq_timeout s > now then Inr (True, s)
      else if sq_connected s then
        res_bind (CSignalRequester_reconnect now env s) (\<lambda>s1. Inr (False, s1))
      else Inr (False, s))"

text \<open>A writer per signal, each of pages of 64 MB; then the first attempt to connect.\<close>

definition SIGNAL_PAGE_SIZE :: int where
  "SIGNAL_PAGE_SIZE = 64 * 1024 * 1024"

fun init_writers ::
    "io_env \<Rightarrow> (string \<Rightarrow> byte list io_files) \<Rightarrow> string \<Rightarrow> int \<Rightarrow> string list \<Rightarrow> 'z signal_requester_scheme \<Rightarrow>
     (bool \<times> 'z signal_requester_scheme) res" where
  "init_writers env files prefix now [] s = Inr (True, s)"
| "init_writers env files prefix now (name # names) s =
     res_bind (CRawIOWriter_init env now
         (CRawIOWriter_new SIGNAL_PAGE_SIZE True (files (SIGNAL_BASE_DIR @ prefix @ name)))) (\<lambda>(_, w).
       if wr_fd w then
         init_writers env files prefix now names
           (s\<lparr>sq_writers := sq_writers s @ [w], sq_names := sq_names s @ [name]\<rparr>)
       else Inr (False, s))"

definition CSignalRequester_init ::
    "io_env \<Rightarrow> connect_env \<Rightarrow> (string \<Rightarrow> byte list io_files) \<Rightarrow> string \<Rightarrow> int \<Rightarrow> string list \<Rightarrow>
     'z signal_requester_scheme \<Rightarrow> (bool \<times> 'z signal_requester_scheme) res" where
  "CSignalRequester_init ioenv env files prefix now signals s =
     res_bind (init_writers ioenv files prefix now signals s) (\<lambda>(ok, s1).
       if ok then
         res_bind (CService_connect (requester_base now) env (sq_timeout s1 div 1000000000) s1) (\<lambda>(_, s2). Inr (True, s2))
       else Inr (False, s1))"

section \<open>CSignalAgent\<close>

record signal_agent =
  sa_servers :: "signal_server list"
  sa_requesters :: "signal_requester list"
  sa_scan_period :: int
  sa_unload_scan_period :: int
  sa_timeout :: int
  sa_lst_scan :: int
  sa_lst_scan_unload :: int
  sa_buf_size :: u32

definition CSignalAgent_onAccept :: "(nat \<Rightarrow> byte) \<Rightarrow> (nat \<Rightarrow> byte) \<Rightarrow> int \<Rightarrow> int \<Rightarrow> signal_agent \<Rightarrow> signal_agent" where
  "CSignalAgent_onAccept rjunk wjunk now fd a =
     a\<lparr>sa_servers := sa_servers a @
        [CSocket_start EV_READ (CSignalServer_new rjunk wjunk now fd (sa_timeout a) (sa_buf_size a))]\<rparr>"

fun serve_all ::
    "nat \<Rightarrow> byte list io_view \<Rightarrow> int \<Rightarrow> bool \<Rightarrow> signal_server list \<Rightarrow> signal_server list res" where
  "serve_all n v now scan_unload [] = Inr []"
| "serve_all n v now scan_unload (s # ss) =
     (if \<not> CSignalServer_isOK now s then serve_all n v now scan_unload ss
      else res_bind (CSignalServer_tryRead n v scan_unload s) (\<lambda>s1.
           res_bind (serve_all n v now scan_unload ss) (\<lambda>ss1. Inr (s1 # ss1))))"

fun test_all :: "int \<Rightarrow> connect_env \<Rightarrow> signal_requester list \<Rightarrow> signal_requester list res" where
  "test_all now env [] = Inr []"
| "test_all now env (r # rs) =
     res_bind (CSignalRequester_testOK now env r) (\<lambda>(_, r1).
     res_bind (CSignalRequester_tryHeartBeat now r1) (\<lambda>r2.
     res_bind (test_all now env rs) (\<lambda>rs1. Inr (r2 # rs1))))"

definition CSignalAgent_process ::
    "nat \<Rightarrow> byte list io_view \<Rightarrow> connect_env \<Rightarrow> int \<Rightarrow> signal_agent \<Rightarrow> signal_agent res" where
  "CSignalAgent_process n v env now a =
     res_bind
       (if sa_lst_scan a + sa_scan_period a < now then
          (let scan_unload = sa_lst_scan_unload a + sa_unload_scan_period a < now
           in res_bind (serve_all n v now scan_unload (sa_servers a)) (\<lambda>ss.
              Inr (a\<lparr>sa_lst_scan := now, sa_servers := ss,
                     sa_lst_scan_unload := (if scan_unload then now else sa_lst_scan_unload a)\<rparr>)))
        else Inr a) (\<lambda>a1.
     res_bind (test_all now env (sa_requesters a1)) (\<lambda>rs. Inr (a1\<lparr>sa_requesters := rs\<rparr>)))"

end
