(* ===== verification/Io_Current.thy ===== *)
theory Io_Current
  imports Io_Channel
begin

text \<open>
  Reading a channel by its current frame: \<^verbatim>\<open>getCurFrame\<close> shows it without moving on, \<^verbatim>\<open>passFrame\<close>
  moves on. Together they are \<^verbatim>\<open>read\<close>, so a reader that uses them gets the same queue.
\<close>

section \<open>Current frames and read\<close>

definition past_frame :: "'a io_frame \<Rightarrow> io_reader \<Rightarrow> io_reader" where
  "past_frame f r = r\<lparr>rd_cursor := rd_cursor r + FRAME_HEAD_SIZE + fr_len f\<rparr>"

lemma read_is_getCur:
  "CRawIOReader_read v r = res_bind (CRawIOReader_getCurFrame v r) (\<lambda>(d, r1).
     Inr (case d of None \<Rightarrow> (None, r1) | Some f \<Rightarrow> (Some (fr_data f, fr_len f), past_frame f r1)))"
proof (induction v r rule: CRawIOReader_getCurFrame.induct)
  case (1 v r)
  note sim = CRawIOReader_getCurFrame.simps [of v r] and rsim = read_seen.simps [of v _ r]
  show ?case
  proof (cases "rd_fd r")
    case True
    show ?thesis
    proof (cases "rd_page v r")
      case (Inl e)
      with True show ?thesis by (simp add: CRawIOReader_read_def sim rsim)
    next
      case (Inr p)
      then have st: "seen_status v r = pg_status p" by (simp add: seen_status_def)
      show ?thesis
      proof (cases "rd_cursor r < pg_tail p \<or> pg_status p \<noteq> PAGE_STATUS_FINISH")
        case stay: True
        with True Inr st show ?thesis
          by (auto simp: CRawIOReader_read_def sim rsim Let_def past_frame_def)
      next
        case False
        obtain b r1 where np: "next_page v r = (b, r1)" by (metis surj_pair)
        show ?thesis
        proof (cases b)
          case yes: True
          have "CRawIOReader_read v r = CRawIOReader_read v r1"
            unfolding CRawIOReader_read_def rsim using True Inr st False np yes
            by (simp add: seen_status_def)
          moreover have "CRawIOReader_getCurFrame v r = CRawIOReader_getCurFrame v r1"
            unfolding sim using True Inr False np yes by simp
          moreover have "\<not> rd_cursor r < pg_tail p" "pg_status p = PAGE_STATUS_FINISH" using False by auto
          ultimately show ?thesis using "1.IH"(1) [OF True Inr _ _ np [symmetric] ] yes by simp
        next
          case no: False
          with True Inr st False np show ?thesis
            by (simp add: CRawIOReader_read_def sim rsim)
        qed
      qed
    qed
  next
    case False
    obtain b r1 where ld: "CRawIOReader_load v (rd_page_num r) r = (b, r1)" by (metis surj_pair)
    show ?thesis
    proof (cases b)
      case yes: True
      have "CRawIOReader_read v r = CRawIOReader_read v r1"
        unfolding CRawIOReader_read_def rsim using False ld yes by (simp add: seen_status_def)
      moreover have "CRawIOReader_getCurFrame v r = CRawIOReader_getCurFrame v r1"
        unfolding sim using False ld yes by simp
      ultimately show ?thesis using "1.IH"(2) [OF False ld [symmetric]] yes by simp
    next
      case no: False
      with False ld show ?thesis by (simp add: CRawIOReader_read_def sim rsim)
    qed
  qed
qed

section \<open>Where the reader stands\<close>

text \<open>Opening a page, and stepping from a finished page to the next, pass no frame.\<close>

lemma load_at:
  assumes ok: "files_ok ps (vw_files v (rd_prefix r)) pgs" and r: "rd_page_num r = int k" "\<not> rd_fd r"
    and k: "k \<le> length pgs" "k = length pgs \<longrightarrow> finished (vw_files v (rd_prefix r)) (int k - 1)"
    and ld: "CRawIOReader_load v (int k) r = (b, r1)"
  shows "rd_prefix r1 = rd_prefix r" "reader_at (vw_files v (rd_prefix r)) pgs r1 (concat (take k pgs))"
    "b \<Longrightarrow> rd_fd r1"
proof -
  note L = load_page [OF ok r k]
  show "rd_prefix r1 = rd_prefix r" using load_prefix [of v "int k" r] ld by simp
  show "reader_at (vw_files v (rd_prefix r)) pgs r1 (concat (take k pgs))"
  proof (cases "k < length pgs \<and> vw_open v (rd_prefix r) (int k)")
    case True
    then have "r1 = r\<lparr>rd_fd := True, rd_buf := PtrTo (int k), rd_cursor := PAGE_HEAD_SIZE\<rparr>"
      using L(1) ld by simp
    then show ?thesis using L(3) True by simp
  next
    case False
    then show ?thesis using L(2) ld by simp
  qed
  show "rd_fd r1" if b
    using ld that by (auto simp: CRawIOReader_load_def split: option.splits if_splits)
qed

lemma next_page_at:
  assumes ok: "files_ok ps (vw_files v (rd_prefix r)) pgs"
    and at: "reader_at (vw_files v (rd_prefix r)) pgs r xs"
    and page: "rd_fd r" "rd_page v r = Inr p" "\<not> rd_cursor r < pg_tail p" "pg_status p = PAGE_STATUS_FINISH"
    and np: "next_page v r = (b, r1)"
  shows "rd_prefix r1 = rd_prefix r" "reader_at (vw_files v (rd_prefix r)) pgs r1 xs"
proof -
  let ?F = "vw_files v (rd_prefix r)" and ?r = "rd_unload (r\<lparr>rd_page_num := rd_page_num r + 1\<rparr>)"
  from at page(1) obtain k q fs gs where k: "rd_page_num r = int k" "k < length pgs" "rd_buf r = PtrTo (int k)"
      "map_of ?F (int k) = Some q" "pgs ! k = fs @ gs" "laid q (rd_cursor r) gs (pg_tail q)"
      "xs = concat (take k pgs) @ fs"
    by (auto simp: reader_at_def)
  with page(2) have q: "q = p" by (simp add: rd_page_def)
  have "gs = []"
  proof (rule ccontr)
    assume "gs \<noteq> []"
    then have "rd_cursor r < pg_tail q" using laid_le [OF k(6)] by (cases gs) (auto simp: FRAME_HEAD_SIZE_def)
    with page(3) q show False by simp
  qed
  then have xs: "xs = concat (take (Suc k) pgs)" using k(2,5,7) by (simp add: take_Suc_conv_app_nth)
  have r: "rd_page_num ?r = int (Suc k)" "\<not> rd_fd ?r" "rd_prefix ?r = rd_prefix r"
    using page(1) k(1) by (simp_all add: rd_unload_def)
  have "finished ?F (int k)" using k(4) q page(4) by (simp add: finished_def)
  moreover have "int (Suc k) - 1 = int k" by simp
  ultimately have fin: "Suc k = length pgs \<longrightarrow> finished ?F (int (Suc k) - 1)" by (simp only: simp_thms)
  have ld: "CRawIOReader_load v (int (Suc k)) ?r = (b, r1)"
    using np by (simp add: next_page_def k(1) add_ac)
  have "Suc k \<le> length pgs" using k(2) by simp
  from load_at [OF _ r(1,2) this, of ps v, unfolded r(3), OF ok fin ld] xs
  show "rd_prefix r1 = rd_prefix r" "reader_at ?F pgs r1 xs" by simp_all
qed

lemma getCur_at:
  assumes "files_ok ps (vw_files v (rd_prefix r)) pgs" "reader_at (vw_files v (rd_prefix r)) pgs r xs"
    and "CRawIOReader_getCurFrame v r = Inr (d, r1)"
  shows "rd_prefix r1 = rd_prefix r \<and> reader_at (vw_files v (rd_prefix r)) pgs r1 xs"
  using assms
proof (induction v r arbitrary: rule: CRawIOReader_getCurFrame.induct)
  case (1 v r)
  let ?F = "vw_files v (rd_prefix r)"
  note sim = CRawIOReader_getCurFrame.simps [of v r]
  show ?case
  proof (cases "rd_fd r")
    case True
    then obtain k p fs gs where p: "map_of ?F (int k) = Some p" "rd_buf r = PtrTo (int k)"
        "laid p (rd_cursor r) gs (pg_tail p)"
      using "1.prems"(2) by (auto simp: reader_at_def)
    have page: "rd_page v r = Inr p" using p by (simp add: rd_page_def)
    show ?thesis
    proof (cases "rd_cursor r < pg_tail p")
      case lt: True
      then obtain x hs where "gs = x # hs" using p(3) by (cases gs) auto
      then have "CIOBase_checkFrameValid (frame_at (vw_zero v) p (rd_cursor r))"
        using p(3) by (auto simp: frame_at_def CIOBase_checkFrameValid_def)
      then have "r1 = r" using "1.prems"(3) True page lt by (auto simp: sim Let_def)
      with "1.prems"(2) show ?thesis by simp
    next
      case ge: False
      show ?thesis
      proof (cases "pg_status p = PAGE_STATUS_FINISH")
        case fin: True
        obtain b r2 where np: "next_page v r = (b, r2)" by (metis surj_pair)
        note N = next_page_at [OF "1.prems"(1,2) True page ge fin np]
        show ?thesis
        proof (cases b)
          case yes: True
          then have "CRawIOReader_getCurFrame v r2 = Inr (d, r1)"
            using "1.prems"(3) True page ge fin np by (simp add: sim)
          with "1.IH"(1) [OF True page ge fin np [symmetric]] N "1.prems"(1) yes show ?thesis by simp
        next
          case False
          then have "r1 = r2" using "1.prems"(3) True page ge fin np by (simp add: sim)
          with N show ?thesis by simp
        qed
      next
        case False
        then have "r1 = r" using "1.prems"(3) True page ge by (simp add: sim)
        with "1.prems"(2) show ?thesis by simp
      qed
    qed
  next
    case closed: False
    then obtain k where k: "rd_page_num r = int k" "k \<le> length pgs" "k = length pgs \<longrightarrow> finished ?F (int k - 1)"
        "xs = concat (take k pgs)"
      using "1.prems"(2) by (auto simp: reader_at_def)
    obtain b r2 where ld: "CRawIOReader_load v (int k) r = (b, r2)" by (metis surj_pair)
    note L = load_at [OF "1.prems"(1) k(1) closed k(2,3) ld]
    show ?thesis
    proof (cases b)
      case True
      then have "CRawIOReader_getCurFrame v r2 = Inr (d, r1)"
        using "1.prems"(3) closed ld k(1) by (simp add: sim)
      with "1.IH"(2) [OF closed, of b r2] ld k L "1.prems"(1) True show ?thesis by simp
    next
      case False
      then have "r1 = r2" using "1.prems"(3) closed ld k(1) by (simp add: sim)
      with L k(4) show ?thesis by simp
    qed
  qed
qed

text \<open>A shown frame is in the mapped page, and passing it is moving past it.\<close>

lemma getCur_frame:
  "CRawIOReader_getCurFrame v r = Inr (Some f, r1) \<Longrightarrow>
   \<exists>p. rd_fd r1 \<and> rd_page v r1 = Inr p \<and> rd_cursor r1 < pg_tail p \<and>
     f = frame_at (vw_zero v) p (rd_cursor r1) \<and> CIOBase_checkFrameValid f"
proof (induction v r rule: CRawIOReader_getCurFrame.induct)
  case (1 v r)
  note sim = CRawIOReader_getCurFrame.simps [of v r]
  show ?case
  proof (cases "rd_fd r")
    case True
    then obtain p where page: "rd_page v r = Inr p" using "1.prems" unfolding sim by (cases "rd_page v r") auto
    show ?thesis
    proof (cases "rd_cursor r < pg_tail p")
      case lt: True
      with "1.prems" True page show ?thesis unfolding sim by (auto simp: Let_def split: if_splits)
    next
      case False
      then obtain r2 where "pg_status p = PAGE_STATUS_FINISH" "next_page v r = (True, r2)"
          "CRawIOReader_getCurFrame v r2 = Inr (Some f, r1)"
        using "1.prems" True page unfolding sim by (auto split: if_splits prod.splits bool.splits)
      with "1.IH"(1) [OF True page False] show ?thesis by simp
    qed
  next
    case False
    then obtain r2 where "CRawIOReader_load v (rd_page_num r) r = (True, r2)"
        "CRawIOReader_getCurFrame v r2 = Inr (Some f, r1)"
      using "1.prems" unfolding sim by (auto split: prod.splits bool.splits)
    with "1.IH"(2) [OF False] show ?thesis by simp
  qed
qed

lemma pass_cur:
  assumes "CRawIOReader_getCurFrame v r = Inr (Some f, r1)"
  shows "CRawIOReader_passFrame v r1 = Inr (past_frame f r1)"
  using getCur_frame [OF assms] by (auto simp: CRawIOReader_passFrame_def past_frame_def add_ac)

text \<open>
  One step of a reader that stands behind the frames \<open>xs\<close>: it is shown nothing, and then, if every
  page opens, there is nothing more; or it is shown the next frame.
\<close>

lemma cur_step:
  assumes ok: "files_ok ps (vw_files v (rd_prefix r)) pgs" and at: "reader_at (vw_files v (rd_prefix r)) pgs r xs"
  obtains (nothing) r1 where "CRawIOReader_getCurFrame v r = Inr (None, r1)" "rd_prefix r1 = rd_prefix r"
      "reader_at (vw_files v (rd_prefix r)) pgs r1 xs"
      "(\<forall>n. vw_open v (rd_prefix r) n) \<Longrightarrow> xs = concat pgs"
  | (frame) f r1 where "CRawIOReader_getCurFrame v r = Inr (Some f, r1)" "rd_prefix r1 = rd_prefix r"
      "reader_at (vw_files v (rd_prefix r)) pgs r1 xs" "CRawIOReader_passFrame v r1 = Inr (past_frame f r1)"
      "reader_at (vw_files v (rd_prefix r)) pgs (past_frame f r1) (xs @ [fr_data f])"
proof -
  from read_seen_ok [OF ok at, of "seen_status v r", folded CRawIOReader_read_def] obtain d r2 where
    rd: "CRawIOReader_read v r = Inr (d, r2)"
      "reader_at (vw_files v (rd_prefix r)) pgs r2 (xs @ (case d of None \<Rightarrow> [] | Some (x, _) \<Rightarrow> [x]))"
      "d = None \<Longrightarrow> (\<forall>n. vw_open v (rd_prefix r) n) \<Longrightarrow> xs = concat pgs" by auto
  then obtain c r1 where c: "CRawIOReader_getCurFrame v r = Inr (c, r1)"
      "(d, r2) = (case c of None \<Rightarrow> (None, r1) | Some f \<Rightarrow> (Some (fr_data f, fr_len f), past_frame f r1))"
    unfolding read_is_getCur by (auto simp: res_bind_Inr_iff)
  note at1 = getCur_at [OF ok at c(1)]
  show ?thesis
  proof (cases c)
    case None
    with c rd at1 show ?thesis by (intro that(1) [of r1]) simp_all
  next
    case (Some f)
    with that(2) [of f r1] c rd(2) at1 pass_cur [of v r f r1] show ?thesis by simp
  qed
qed

end
