(* ===== verification/Signal_World.thy ===== *)
theory Signal_World
  imports Signal_Agent Io_Current
begin

text \<open>
  The agents of two hosts and the socket between them: strategies publish frames into signals, the
  server reads them and queues packages, the kernel carries bytes, the requester collects packages
  and writes the frames into its own channels. Here is what each of the steps does to the bytes
  under way; the machine and its invariant are in \<open>Signal_Machine\<close>.
\<close>

section \<open>Sizes of frames\<close>

text \<open>The length in the head of a frame is that of its data.\<close>

definition page_sized :: "byte list io_page \<Rightarrow> bool" where
  "page_sized p \<longleftrightarrow> (\<forall>off f. map_of (pg_mem p) off = Some f \<longrightarrow> fr_len f = int (length (fr_data f)))"

definition sized :: "byte list io_files \<Rightarrow> bool" where
  "sized files \<longleftrightarrow> (\<forall>n p. map_of files n = Some p \<longrightarrow> page_sized p)"

lemma page_sized_fields [simp]:
  "page_sized (p\<lparr>pf_size := a\<rparr>) = page_sized p" "page_sized (p\<lparr>pg_status := a\<rparr>) = page_sized p"
  "page_sized (p\<lparr>pg_version := a\<rparr>) = page_sized p" "page_sized (p\<lparr>pg_size := a\<rparr>) = page_sized p"
  "page_sized (p\<lparr>pg_tail := a\<rparr>) = page_sized p" "page_sized (p\<lparr>pg_start_nano := a\<rparr>) = page_sized p"
  "page_sized (p\<lparr>pg_stop_nano := a\<rparr>) = page_sized p" "page_sized (p\<lparr>pg_last_nano := a\<rparr>) = page_sized p"
  "page_sized empty_page"
  by (simp_all add: page_sized_def empty_page_def)

lemma sizedD: "sized files \<Longrightarrow> map_of files n = Some p \<Longrightarrow> page_sized p"
  by (auto simp: sized_def)

lemma sized_update: "sized files \<Longrightarrow> page_sized p \<Longrightarrow> sized (AList.update n p files)"
  by (auto simp: sized_def)

lemma sized_upd_page:
  "sized (wr_files w) \<Longrightarrow> (\<And>p. page_sized p \<Longrightarrow> page_sized (g p)) \<Longrightarrow> sized (wr_files (upd_page g w))"
  by (auto simp: upd_page_def split: ptr.splits option.splits intro!: sized_update dest: sizedD)

lemma sized_unload [simp]: "wr_files (CIOBase_unload w) = wr_files w"
  by (simp add: CIOBase_unload_def)

lemma sized_close: "sized (wr_files w) \<Longrightarrow> sized (wr_files (close_page nano w))"
  by (simp add: close_page_def sized_upd_page)

lemma sized_load:
  assumes "sized (wr_files w)"
  shows "sized (wr_files (snd (CRawIOWriter_load env n w)))"
proof -
  have t: "sized (um_touch empty_page n (wr_files w))"
    using assms by (auto simp: um_touch_def intro: sized_update split: option.split)
  show ?thesis using assms
    by (auto simp: CRawIOWriter_load_def Let_def t intro!: sized_update dest: sizedD [OF t] split: option.split)
qed

lemma sized_create:
  assumes "sized (wr_files w)" "CRawIOWriter_createNextPage env nano w = (b, w1)"
  shows "sized (wr_files w1)"
proof -
  obtain c w2 where ld: "CRawIOWriter_load env (wr_page_num w + 1) w = (c, w2)" by (metis surj_pair)
  with sized_load [OF assms(1), of env "wr_page_num w + 1"] have "sized (wr_files w2)" by simp
  with assms(2) ld show ?thesis
    by (cases c) (auto simp: CRawIOWriter_createNextPage_def fill_head_def intro: sized_upd_page)
qed

lemma sized_write:
  "sized (wr_files w) \<Longrightarrow> len = int (length data) \<Longrightarrow>
   CRawIOWriter_write n env data len nano w = Inr (b, w1) \<Longrightarrow> sized (wr_files w1)"
proof (induction n env data len nano w rule: CRawIOWriter_write.induct)
  case (2 n env data len nano w)
  then obtain p where p: "wr_page w = Inr p" by (auto simp: res_bind_Inr_iff)
  let ?t = "to_u32 (pg_tail p + FRAME_HEAD_SIZE + len)"
  show ?case
  proof (cases "?t \<le> wr_size w")
    case True
    with "2.prems"(3) p have "w1 = upd_page (\<lambda>p. (put_frame (pg_tail p)
        \<lparr>fr_magic = FRAME_HEAD_MAGIC, fr_len = len, fr_nano = nano, fr_data = data\<rparr> p)
        \<lparr>pg_last_nano := nano, pg_tail := ?t\<rparr>) w" by (auto simp: Let_def)
    moreover have "page_sized (put_frame off \<lparr>fr_magic = FRAME_HEAD_MAGIC, fr_len = len, fr_nano = nano, fr_data = data\<rparr> q)"
      if "page_sized q" for q off
      using that "2.prems"(2) by (auto simp: page_sized_def put_frame_def)
    ultimately show ?thesis using "2.prems"(1) by (simp add: sized_upd_page)
  next
    case False
    obtain c w2 where c: "CRawIOWriter_createNextPage env nano (close_page nano w) = (c, w2)" by (metis surj_pair)
    note s2 = sized_create [OF sized_close [OF "2.prems"(1)] c]
    show ?thesis
    proof (cases "c \<and> len \<le> (wr_size w2 - PAGE_HEAD_SIZE - FRAME_HEAD_SIZE) mod 2 ^ 64")
      case True
      then have "CRawIOWriter_write n env data len nano w2 = Inr (b, w1)"
        using "2.prems"(3) p False c by (simp add: Let_def)
      with "2.IH" [OF refl False c [symmetric]] True s2 "2.prems"(2) show ?thesis by simp
    next
      case no: False
      then have "w1 = w2" using "2.prems"(3) p False c by (auto simp: Let_def split: bool.splits)
      with s2 show ?thesis by simp
    qed
  qed
qed simp

lemma sized_frame:
  assumes "sized (vw_files v (rd_prefix r1))" "CRawIOReader_getCurFrame v r = Inr (Some f, r1)"
  shows "fr_len f = int (length (fr_data f))"
proof -
  from getCur_frame [OF assms(2)] obtain p where p: "rd_page v r1 = Inr p"
      "f = frame_at (vw_zero v) p (rd_cursor r1)" "CIOBase_checkFrameValid f" by blast
  then obtain n where "map_of (vw_files v (rd_prefix r1)) n = Some p"
    by (auto simp: rd_page_def deref_def split: ptr.splits option.splits)
  with assms(1) have "page_sized p" by (rule sizedD)
  with p(2,3) show ?thesis
    by (auto simp: page_sized_def frame_at_def CIOBase_checkFrameValid_def FRAME_HEAD_MAGIC_def split: option.splits)
qed

lemma cur_frame_small:
  fixes F :: "'a io_files"
  assumes ok: "files_ok ps F pgs"
    and r: "reader_at F pgs r1 xs" "reader_at F pgs (past_frame f r1) ys" "rd_fd r1"
  shows "fr_len f \<le> ps"
proof -
  obtain q :: "'a io_page" and gs where "laid q PAGE_HEAD_SIZE gs (rd_cursor r1)"
    using r(1) unfolding reader_at_def if_P [OF r(3)] by blast
  from laid_le [OF this] have c: "0 \<le> rd_cursor r1" by (simp add: page_consts)
  from r(2,3) obtain k p hs where p: "k < length pgs" "map_of F (int k) = Some p"
      "laid p (rd_cursor r1 + FRAME_HEAD_SIZE + fr_len f) hs (pg_tail p)"
    by (auto simp: reader_at_def past_frame_def)
  have "pg_tail p \<le> ps" using files_okD(4) [OF ok p(1)] p(2) by (auto simp: page_ok_def)
  with laid_le [OF p(3)] c show ?thesis by (simp add: page_consts)
qed

section \<open>The server sends whole packages\<close>

text \<open>The packages of the stream from the server: a frame of signal \<open>i\<close>, or the answer to a heart beat.\<close>

datatype sa_pkg = SigPkg nat "byte list" | BeatPkg

fun enc :: "sa_pkg \<Rightarrow> byte list" where
  "enc (SigPkg i d) = sa_head SACMD_SIGNAL_DATA (word_of_nat (SA_DATA + length d)) @ int_bytes (word_of_nat i) @ d"
| "enc BeatPkg = sa_head SACMD_REP_HEATBEAT 0"

text \<open>
  What \<^verbatim>\<open>tryRead\<close> is to do with the unread frames of a signal, by the size and the free room of the
  buffer: the frames it sends, those it leaves, and the room that remains. A frame larger than the
  buffer is skipped. A frame that would fill the buffer to the last byte is no case of the plan.
\<close>

fun send_plan :: "nat \<Rightarrow> nat \<Rightarrow> byte list list \<Rightarrow> (byte list list \<times> byte list list \<times> nat) option" where
  "send_plan sz room [] = Some ([], [], room)"
| "send_plan sz room (d # ds) =
     (let l = SA_DATA + length d in
      if l = room then None
      else if l < room then map_option (\<lambda>(sent, rest, room1). (d # sent, rest, room1)) (send_plan sz (room - l) ds)
      else if sz < l then send_plan sz room ds
      else Some ([], d # ds, room))"

text \<open>A step of the sending side touches the outgoing buffer and the watcher only.\<close>

definition hide_sending :: "'z service_scheme \<Rightarrow> 'z service_scheme" where
  "hide_sending s =
     s\<lparr>sv_wbuf := \<lparr>bf_p = [], bf_size = 0, bf_head = 0, bf_tail = 0\<rparr>, sv_watch := False, sv_events := 0,
       sv_cb := CbReadWrite\<rparr>"

definition sends :: "'z service_scheme \<Rightarrow> byte list \<Rightarrow> 'z service_scheme \<Rightarrow> bool" where
  "sends s bs t \<longleftrightarrow> hide_sending t = hide_sending s \<and> bf_ok (sv_wbuf t) \<and>
     bf_size (sv_wbuf t) = bf_size (sv_wbuf s) \<and> bf_data (sv_wbuf t) = bf_data (sv_wbuf s) @ bs"

lemma sends_refl: "bf_ok (sv_wbuf s) \<Longrightarrow> sends s [] s"
  by (simp add: sends_def)

lemma sends_trans: "sends s bs t \<Longrightarrow> sends t cs u \<Longrightarrow> sends s (bs @ cs) u"
  by (simp add: sends_def)

lemma sends_buf:
  "sends s bs t \<Longrightarrow> bf_ok (sv_wbuf t) \<and> bf_size (sv_wbuf t) = bf_size (sv_wbuf s) \<and>
     bf_data (sv_wbuf t) = bf_data (sv_wbuf s) @ bs"
  by (simp add: sends_def)

lemma hide_sending_simps [simp]:
  "hide_sending (s\<lparr>sv_wbuf := b\<rparr>) = hide_sending s" "hide_sending (s\<lparr>sv_watch := w\<rparr>) = hide_sending s"
  "hide_sending (s\<lparr>sv_events := e\<rparr>) = hide_sending s" "hide_sending (s\<lparr>sv_cb := c\<rparr>) = hide_sending s"
  by (simp_all add: hide_sending_def)

lemma sends_room: "sends s bs t \<Longrightarrow> bf_room (sv_wbuf t) = bf_room (sv_wbuf s) - length bs"
  using sends_buf [of s bs t] by (simp add: bf_room_def)

lemma addEvent_sends: "sends s bs t \<Longrightarrow> sends s bs (CSocket_addEvent ev t)"
  by (simp add: sends_def CSocket_addEvent_def CSocket_start_def CSocket_stop_def Let_def)

lemma sendData_ok:
  assumes "bf_ok (sv_wbuf s)" "length bs < 2 ^ 32" "length bs < bf_room (sv_wbuf s)"
  shows "\<exists>ret t. CService_sendData bs s = Inr (ret, t) \<and> sends s bs t"
proof (cases "bs = []")
  case True
  with assms(1) show ?thesis by (simp add: CService_sendData_def sends_refl)
next
  case False
  obtain c where c: "CBuffer_cycleWrite bs (sv_wbuf s) = Inr (True, c)" "bf_ok c"
      "bf_size c = bf_size (sv_wbuf s)" "bf_data c = bf_data (sv_wbuf s) @ bs"
    using cycleWrite_ok [OF assms(1,2)] assms(3) by auto
  then have "sends s bs (s\<lparr>sv_wbuf := c\<rparr>)" by (simp add: sends_def)
  with False c(1) addEvent_sends [of s bs] show ?thesis by (simp add: CService_sendData_def)
qed

text \<open>What a reader of signal \<open>i\<close> sees: all its pages, with room for the heads of frames.\<close>

definition sees :: "byte list io_view \<Rightarrow> int \<Rightarrow> io_reader \<Rightarrow> byte list list list \<Rightarrow> bool" where
  "sees v ps r pgs \<longleftrightarrow> files_ok ps (vw_files v (rd_prefix r)) pgs \<and> sized (vw_files v (rd_prefix r)) \<and>
     (\<forall>n. vw_open v (rd_prefix r) n) \<and> ps < 2 ^ 31"

lemma unat_data_size:
  assumes "len = int k" "len < 2 ^ 31"
  shows "unat (word_of_nat SA_DATA + word_of_int len :: u32) = SA_DATA + k"
    "word_of_nat SA_DATA + word_of_int len = (word_of_nat (SA_DATA + k) :: u32)"
proof -
  show "word_of_nat SA_DATA + word_of_int len = (word_of_nat (SA_DATA + k) :: u32)"
    using assms(1) by simp
  moreover have "SA_DATA + k < 2 ^ 32" using assms by (simp add: SA_DATA_def)
  ultimately show "unat (word_of_nat SA_DATA + word_of_int len :: u32) = SA_DATA + k"
    by (simp add: unat_of_nat take_bit_eq_mod del: of_nat_add)
qed

lemma send_frames_ok:
  assumes "sees v ps r pgs" "reader_at (vw_files v (rd_prefix r)) pgs r xs" "concat pgs = xs @ ys"
    and "bf_ok (sv_wbuf s)" "length ys < n"
    and "send_plan (unat (bf_size (sv_wbuf s))) (bf_room (sv_wbuf s)) ys = Some (sent, rest, room)"
  shows "\<exists>r1 s1 zs. send_frames n v i r s = Inr (r1, s1) \<and> rd_prefix r1 = rd_prefix r \<and>
    reader_at (vw_files v (rd_prefix r)) pgs r1 zs \<and> concat pgs = zs @ rest \<and>
    sends s (concat (map (\<lambda>d. enc (SigPkg i d)) sent)) s1 \<and> bf_room (sv_wbuf s1) = room"
  using assms
proof (induction n arbitrary: r s xs ys sent rest room)
  case (Suc n)
  let ?F = "vw_files v (rd_prefix r)" and ?size = "unat (bf_size (sv_wbuf s))"
  from Suc.prems(1) have V: "files_ok ps ?F pgs" "sized ?F" "\<forall>n. vw_open v (rd_prefix r) n" "ps < 2 ^ 31"
    by (simp_all add: sees_def)
  show ?case
  proof (cases rule: cur_step [OF V(1) Suc.prems(2)])
    case (1 r1)
    have "xs = concat pgs" by (rule 1(4)) (rule V(3))
    with Suc.prems(3) have "ys = []" by (metis append_self_conv)
    with Suc.prems(6) have "sent = []" "rest = []" "room = bf_room (sv_wbuf s)" by simp_all
    moreover have "send_frames (Suc n) v i r s = Inr (r1, s)" using 1(1) by simp
    ultimately show ?thesis
      using 1(2,3) Suc.prems(3) \<open>ys = []\<close> sends_refl [OF Suc.prems(4)] by auto
  next
    case (2 f r1)
    let ?d = "fr_data f"
    from reader_at_prefix [OF 2(5)] Suc.prems(3) obtain ys1 where ys: "ys = ?d # ys1" by auto
    have len: "fr_len f = int (length ?d)" by (rule sized_frame [OF _ 2(1)]) (simp add: 2(2) V(2))
    have "rd_fd r1" using getCur_frame [OF 2(1)] by blast
    from cur_frame_small [OF V(1) 2(3,5) this] V(4) have small: "fr_len f < 2 ^ 31" by (rule le_less_trans)
    let ?l = "SA_DATA + length ?d"
    define size where "size = (word_of_nat SA_DATA + word_of_int (fr_len f) :: u32)"
    have sz: "unat size = ?l" "size = word_of_nat ?l"
      unfolding size_def by (rule unat_data_size [OF len small])+
    have left: "CBuffer_left (sv_wbuf s) \<ge> size \<longleftrightarrow> ?l \<le> bf_room (sv_wbuf s)"
      unfolding word_le_nat_alt bf_room_eq [OF Suc.prems(4)] sz(1) ..
    have big: "bf_size (sv_wbuf s) < size \<longleftrightarrow> ?size < ?l" unfolding word_less_nat_alt sz(1) ..
    have past: "rd_prefix (past_frame f r1) = rd_prefix r" using 2(2) by (simp add: past_frame_def)
    have V1: "sees v ps (past_frame f r1) pgs" using Suc.prems(1) past by (simp add: sees_def)
    have at1: "reader_at (vw_files v (rd_prefix (past_frame f r1))) pgs (past_frame f r1) (xs @ [?d])"
      using 2(5) past by simp
    have next_xs: "concat pgs = (xs @ [?d]) @ ys1" "length ys1 < n" using Suc.prems(3,5) ys by simp_all
    note IH = Suc.IH [OF V1 at1 next_xs(1) _ next_xs(2), unfolded past]
    have ne: "?l \<noteq> bf_room (sv_wbuf s)" using Suc.prems(6) ys by (auto simp: Let_def)
    have step: "send_frames (Suc n) v i r s =
        (if CBuffer_left (sv_wbuf s) \<ge> size then
           res_bind (CService_sendData (sa_head SACMD_SIGNAL_DATA size @ int_bytes (word_of_nat i)) s) (\<lambda>(_, s1).
           res_bind (CService_sendData ?d s1) (\<lambda>(_, s2). send_frames n v i (past_frame f r1) s2))
         else if bf_size (sv_wbuf s) < size then send_frames n v i (past_frame f r1) s
         else Inr (r1, s))"
      using 2(1,4) unfolding size_def by (simp add: Let_def len)
    consider (send) "?l < bf_room (sv_wbuf s)" | (skip) "bf_room (sv_wbuf s) < ?l" "?size < ?l"
      | (wait) "bf_room (sv_wbuf s) < ?l" "\<not> ?size < ?l" using ne by linarith
    then show ?thesis
    proof cases
      case send
      let ?head = "sa_head SACMD_SIGNAL_DATA size @ int_bytes (word_of_nat i)"
      have head: "length ?head = SA_DATA" by (simp add: SA_HEAD_def SA_DATA_def)
      obtain x s1 where s1: "CService_sendData ?head s = Inr (x, s1)" "sends s ?head s1"
        using sendData_ok [OF Suc.prems(4), of ?head] send head by (auto simp: SA_DATA_def)
      have "length ?d < bf_room (sv_wbuf s1)" using sends_room [OF s1(2)] send head by simp
      moreover have "length ?d < 2 ^ 32" using small len by simp
      ultimately obtain y s2 where s2: "CService_sendData ?d s1 = Inr (y, s2)" "sends s1 ?d s2"
        using sendData_ok [of s1 ?d] sends_buf [OF s1(2)] by blast
      note both = sends_trans [OF s1(2) s2(2)]
      have wb2: "bf_ok (sv_wbuf s2)" "bf_size (sv_wbuf s2) = bf_size (sv_wbuf s)"
        "bf_room (sv_wbuf s2) = bf_room (sv_wbuf s) - ?l"
        using sends_buf [OF both] sends_room [OF both] head by simp_all
      obtain sent1 where sent: "sent = ?d # sent1"
          "send_plan (unat (bf_size (sv_wbuf s2))) (bf_room (sv_wbuf s2)) ys1 = Some (sent1, rest, room)"
        using Suc.prems(6) ys send wb2 by (auto simp: Let_def)
      from IH [OF wb2(1) sent(2)] obtain r3 s3 zs where r3:
          "send_frames n v i (past_frame f r1) s2 = Inr (r3, s3)" "rd_prefix r3 = rd_prefix r"
          "reader_at ?F pgs r3 zs" "concat pgs = zs @ rest" "bf_room (sv_wbuf s3) = room"
          "sends s2 (concat (map (\<lambda>d. enc (SigPkg i d)) sent1)) s3" by blast
      have "sends s (concat (map (\<lambda>d. enc (SigPkg i d)) sent)) s3"
        using sends_trans [OF both r3(6)] by (simp add: sent(1) sz(2))
      moreover have "send_frames (Suc n) v i r s = Inr (r3, s3)"
        using step left send s1(1) s2(1) r3(1) by simp
      ultimately show ?thesis using r3(2-5) by blast
    next
      case skip
      then have "send_frames (Suc n) v i r s = send_frames n v i (past_frame f r1) s"
        using step left big by simp
      moreover have "send_plan ?size (bf_room (sv_wbuf s)) ys1 = Some (sent, rest, room)"
        using Suc.prems(6) ys skip by (simp add: Let_def)
      ultimately show ?thesis using IH [OF Suc.prems(4)] by simp
    next
      case wait
      then have "send_frames (Suc n) v i r s = Inr (r1, s)" using step left big by simp
      moreover have "sent = []" "rest = ys" "room = bf_room (sv_wbuf s)"
        using Suc.prems(6) ys wait by (auto simp: Let_def)
      ultimately show ?thesis using 2(2,3) Suc.prems(3) sends_refl [OF Suc.prems(4)] by auto
    qed
  qed
qed simp

lemma send_plan_split:
  "send_plan sz room ys = Some (sent, rest, room1) \<Longrightarrow> room \<le> sz \<Longrightarrow>
   \<exists>c. ys = c @ rest \<and> sent = filter (\<lambda>d. SA_DATA + length d \<le> sz) c \<and> room1 \<le> sz"
proof (induction sz room ys arbitrary: sent rest rule: send_plan.induct)
  case (2 sz room d ds)
  let ?l = "SA_DATA + length d"
  have ne: "?l \<noteq> room" using "2.prems"(1) by (auto simp: Let_def)
  then consider "?l < room" | "room < ?l" "sz < ?l" | "room < ?l" "\<not> sz < ?l" by linarith
  then show ?case
  proof cases
    case 1
    with "2.prems"(1) obtain sent1 where "send_plan sz (room - ?l) ds = Some (sent1, rest, room1)" "sent = d # sent1"
      by (auto simp: Let_def)
    moreover have "room - ?l \<le> sz" using "2.prems"(2) by simp
    ultimately obtain c where "ds = c @ rest"
        "sent1 = filter (\<lambda>d. SA_DATA + length d \<le> sz) c" "room1 \<le> sz"
      using "2.IH"(1) [OF refl ne 1] by blast
    with \<open>sent = d # sent1\<close> 1 "2.prems"(2) show ?thesis by (intro exI [of _ "d # c"]) simp
  next
    case 2
    with "2.prems" "2.IH"(2) [OF refl ne] obtain c where "ds = c @ rest"
        "sent = filter (\<lambda>d. SA_DATA + length d \<le> sz) c" "room1 \<le> sz" by (auto simp: Let_def)
    with 2 show ?thesis by (intro exI [of _ "d # c"]) simp
  next
    case 3
    with "2.prems" show ?thesis by (auto simp: Let_def)
  qed
qed simp

section \<open>The requester collects packages\<close>

interpretation requester: framed_service "CSignalRequester_virtuals ioenv env now"
proof
  fix p r and s t :: "'a signal_requester_scheme"
  assume "vs_processHead (CSignalRequester_virtuals ioenv env now) p s = (r, t)" "0 \<le> r"
  then show "sv_rbuf t = sv_rbuf s \<and> sv_head_size t = sv_head_size s \<and> sv_pkg_size t \<le> bf_size (sv_rbuf s)"
    by (auto simp: CSignalRequester_virtuals_def sa_processHead_def CService_setPkgSize_def split: if_splits)
next
  fix p r and s t :: "'a signal_requester_scheme"
  assume "vs_processPkg (CSignalRequester_virtuals ioenv env now) p s = Inr (r, t)" "0 \<le> r"
  then show "sv_rbuf t = sv_rbuf s \<and> sv_head_size t = sv_head_size s"
    by (auto simp: CSignalRequester_virtuals_def CSignalRequester_processPkg_def Let_def res_bind_Inr_iff split: if_splits)
qed

fun pkg_len :: "sa_pkg \<Rightarrow> u32" where
  "pkg_len (SigPkg i d) = word_of_nat (SA_DATA + length d)"
| "pkg_len BeatPkg = 0"

text \<open>The service holds \<open>r\<close>, a beginning of package \<open>m\<close>.\<close>

definition collects :: "'z service_scheme \<Rightarrow> byte list \<Rightarrow> sa_pkg \<Rightarrow> bool" where
  "collects s r m \<longleftrightarrow> frame_inv s \<and> sv_head_size s = word_of_nat SA_HEAD \<and>
     take (unat (bf_tail (sv_rbuf s))) (bf_p (sv_rbuf s)) = r \<and>
     (if length r < SA_HEAD then sv_state s = READ_HEAD else sv_state s = READ_BODY \<and> sv_pkg_size s = pkg_len m)"

definition hide_receiving :: "'z service_scheme \<Rightarrow> 'z service_scheme" where
  "hide_receiving s =
     s\<lparr>sv_rbuf := \<lparr>bf_p = [], bf_size = 0, bf_head = 0, bf_tail = 0\<rparr>, sv_state := READ_HEAD, sv_pkg_size := 0\<rparr>"

lemma hide_receiving_simps [simp]:
  "hide_receiving (s\<lparr>sv_rbuf := b\<rparr>) = hide_receiving s" "hide_receiving (s\<lparr>sv_state := st\<rparr>) = hide_receiving s"
  "hide_receiving (s\<lparr>sv_pkg_size := n\<rparr>) = hide_receiving s"
  by (simp_all add: hide_receiving_def)

lemma collects_tail:
  assumes "collects s r m"
  shows "unat (bf_tail (sv_rbuf s)) = length r" "length (bf_p (sv_rbuf s)) = unat (bf_size (sv_rbuf s))"
    "take (length r) (bf_p (sv_rbuf s)) = r" "length r < unat (bf_size (sv_rbuf s))"
proof -
  have lt: "unat (bf_tail (sv_rbuf s)) < unat (bf_size (sv_rbuf s))"
    and len: "length (bf_p (sv_rbuf s)) = unat (bf_size (sv_rbuf s))"
    using assms by (auto simp: collects_def frame_inv_def word_less_nat_alt word_le_nat_alt)
  show "length (bf_p (sv_rbuf s)) = unat (bf_size (sv_rbuf s))" by (rule len)
  have r: "r = take (unat (bf_tail (sv_rbuf s))) (bf_p (sv_rbuf s))" using assms by (simp add: collects_def)
  show t: "unat (bf_tail (sv_rbuf s)) = length r" unfolding r using lt len by simp
  show "take (length r) (bf_p (sv_rbuf s)) = r" using r t by simp
  show "length r < unat (bf_size (sv_rbuf s))" using lt t by simp
qed

lemma put_byte:
  assumes "collects s r m"
  shows "\<exists>mem. read_put [b] s = Inr (s\<lparr>sv_rbuf := (sv_rbuf s)\<lparr>bf_p := mem, bf_tail := bf_tail (sv_rbuf s) + 1\<rparr>\<rparr>) \<and>
    take (Suc (length r)) mem = r @ [b] \<and> length mem = unat (bf_size (sv_rbuf s)) \<and>
    unat (bf_tail (sv_rbuf s) + 1) = Suc (length r)"
proof -
  note C = collects_tail [OF assms]
  let ?mem = "take (length r) (bf_p (sv_rbuf s)) @ [b] @ drop (Suc (length r)) (bf_p (sv_rbuf s))"
  have "unat (bf_size (sv_rbuf s)) < 2 ^ 32" using unsigned_less [of "bf_size (sv_rbuf s)"] by simp
  then have "unat (bf_tail (sv_rbuf s) + 1) = Suc (length r)"
    using C(1,4) by (simp add: unat_word_ariths)
  moreover have "read_put [b] s = Inr (s\<lparr>sv_rbuf := (sv_rbuf s)\<lparr>bf_p := ?mem, bf_tail := bf_tail (sv_rbuf s) + 1\<rparr>\<rparr>)"
    using C by (simp add: read_put_def store_at_def)
  moreover have "take (Suc (length r)) ?mem = r @ [b]" "length ?mem = unat (bf_size (sv_rbuf s))"
    using C by simp_all
  ultimately show ?thesis by blast
qed

lemma length_enc: "length (enc m) = (case m of SigPkg i d \<Rightarrow> SA_DATA + length d | BeatPkg \<Rightarrow> SA_HEAD)"
  by (cases m) (simp_all add: SA_HEAD_def SA_DATA_def)

lemma unat_pkg_len:
  assumes "length (enc (SigPkg i d)) < 2 ^ 32"
  shows "unat (pkg_len (SigPkg i d)) = length (enc (SigPkg i d))"
proof -
  have "length (enc (SigPkg i d)) = SA_DATA + length d" by (simp add: length_enc del: enc.simps)
  with assms show ?thesis by (simp add: unat_of_nat take_bit_eq_mod del: enc.simps of_nat_add)
qed

lemma enc_head: "\<exists>cmd d. enc m = sa_head cmd (pkg_len m) @ d"
  by (cases m) auto

lemma length_head_bytes: "length (sa_head cmd len) = 7"
  by (simp add: SA_HEAD_def)

lemma sa_processHead_ok:
  assumes "p = sa_head cmd len" "len \<le> bf_size (sv_rbuf s)"
  shows "sa_processHead p s = (0, s\<lparr>sv_pkg_size := len\<rparr>)"
  using assms bytes_int_bytes [of len "[]"]
  by (simp add: sa_processHead_def sa_head_def CService_setPkgSize_def)

lemma read_arrived_wait:
  "bf_tail (sv_rbuf s) \<noteq> len \<Longrightarrow> read_arrived v len s = Inr (True, len, s)"
  by (simp add: read_arrived_def)

text \<open>A byte that does not complete the package is kept; the last of the head sets the length.\<close>

lemma eat_byte:
  assumes c: "collects s r m" and enc: "r @ b # rest = enc m" and rest: "rest \<noteq> []"
    and fit: "pkg_len m \<le> bf_size (sv_rbuf s)" "length (enc m) < 2 ^ 32"
    and v: "vs_processHead v = sa_processHead"
  shows "\<exists>t. eat v [b] s = Inr (True, t) \<and> collects t (r @ [b]) m \<and> hide_receiving t = hide_receiving s \<and>
    bf_size (sv_rbuf t) = bf_size (sv_rbuf s)"
proof -
  obtain mem where put: "read_put [b] s = Inr (s\<lparr>sv_rbuf := (sv_rbuf s)\<lparr>bf_p := mem, bf_tail := bf_tail (sv_rbuf s) + 1\<rparr>\<rparr>)"
      "take (Suc (length r)) mem = r @ [b]" "length mem = unat (bf_size (sv_rbuf s))"
      "unat (bf_tail (sv_rbuf s) + 1) = Suc (length r)"
    using put_byte [OF c] by blast
  let ?s1 = "s\<lparr>sv_rbuf := (sv_rbuf s)\<lparr>bf_p := mem, bf_tail := bf_tail (sv_rbuf s) + 1\<rparr>\<rparr>"
  have seven: "unat (word_of_nat SA_HEAD :: u32) = 7" by (simp add: SA_HEAD_def)
  have inv: "frame_inv s" "sv_head_size s = word_of_nat SA_HEAD" using c by (simp_all add: collects_def)
  have long: "Suc (length r) < length (enc m)" using arg_cong [OF enc, of length] rest by (cases rest) auto
  consider (head) "Suc (length r) < SA_HEAD" | (split) "Suc (length r) = SA_HEAD" | (body) "SA_HEAD \<le> length r"
    by linarith
  then show ?thesis
  proof cases
    case head
    then have n: "need s = word_of_nat SA_HEAD" using c by (simp add: collects_def need_def)
    then have ne: "bf_tail (sv_rbuf s) + 1 \<noteq> need s" using put(4) seven head by (auto simp: SA_HEAD_def)
    have "eat v [b] s = Inr (True, ?s1)" using put(1) ne by (simp add: read_arrived_wait)
    moreover have "collects ?s1 (r @ [b]) m"
      using c head put(2-4) seven n inv
      by (simp add: collects_def frame_inv_def need_def word_less_nat_alt SA_HEAD_def)
    ultimately show ?thesis by (intro exI [of _ ?s1]) simp
  next
    case split
    then have n: "need s = word_of_nat SA_HEAD" "sv_state s = READ_HEAD"
      using c by (simp_all add: collects_def need_def)
    have full: "bf_tail (sv_rbuf s) + 1 = need s" using put(4) seven n split by (simp add: word_unat_eq_iff SA_HEAD_def)
    obtain cmd d where e: "enc m = sa_head cmd (pkg_len m) @ d" using enc_head by blast
    have "r @ [b] = take 7 (enc m)" using split by (simp add: enc [symmetric] SA_HEAD_def)
    also have "\<dots> = sa_head cmd (pkg_len m)" by (simp add: e SA_HEAD_def)
    finally have p: "take (unat (bf_tail (sv_rbuf s) + 1)) mem = sa_head cmd (pkg_len m)" using put(2,4) by simp
    obtain i dd where m: "m = SigPkg i dd" using long split by (cases m) (auto simp: length_enc)
    have lm: "unat (pkg_len m) = length (enc m)" using m fit(2) by (simp only: unat_pkg_len)
    let ?t = "?s1\<lparr>sv_pkg_size := pkg_len m, sv_state := READ_BODY\<rparr>"
    have "\<not> pkg_len m \<le> bf_tail (sv_rbuf s) + 1" using put(4) lm long by (simp add: word_le_nat_alt)
    then have "read_arrived v (need s) ?s1 = Inr (True, pkg_len m, ?t)"
      using full n(2) v sa_processHead_ok [OF p, of ?s1] fit(1) by (simp add: read_arrived_def)
    then have "eat v [b] s = Inr (True, ?t)" using put(1) by simp
    moreover have "collects ?t (r @ [b]) m"
      using c split put(2-4) inv lm long fit(1)
      by (simp add: collects_def frame_inv_def need_def word_less_nat_alt)
    ultimately show ?thesis by (intro exI [of _ ?t]) simp
  next
    case body
    then have st: "sv_state s = READ_BODY" "sv_pkg_size s = pkg_len m" "need s = pkg_len m"
      using c by (simp_all add: collects_def need_def)
    obtain i dd where m: "m = SigPkg i dd" using long body by (cases m) (auto simp: length_enc)
    have lm: "unat (pkg_len m) = length (enc m)" using m fit(2) by (simp only: unat_pkg_len)
    have ne: "bf_tail (sv_rbuf s) + 1 \<noteq> need s" using put(4) lm long st by auto
    have "eat v [b] s = Inr (True, ?s1)" using put(1) ne by (simp add: read_arrived_wait)
    moreover have "collects ?s1 (r @ [b]) m"
      using c body put(2-4) st inv lm long
      by (simp add: collects_def frame_inv_def need_def word_less_nat_alt)
    ultimately show ?thesis by (intro exI [of _ ?s1]) simp
  qed
qed

text \<open>The last byte hands the package to \<^verbatim>\<open>processPkg\<close>.\<close>

lemma eat_last:
  assumes c: "collects s r m" and enc: "r @ [b] = enc m"
    and fit: "pkg_len m \<le> bf_size (sv_rbuf s)" "length (enc m) < 2 ^ 32"
    and v: "vs_processHead v = sa_processHead"
  shows "\<exists>s1. eat v [b] s = res_bind (vs_processPkg v (enc m) s1) (\<lambda>(ret, s2).
      if ret < 0 then res_bind (vs_close v s2) (\<lambda>s3. Inr (False, s3))
      else Inr (True, s2\<lparr>sv_state := READ_HEAD, sv_rbuf := (sv_rbuf s2)\<lparr>bf_tail := 0\<rparr>\<rparr>)) \<and>
    hide_receiving s1 = hide_receiving s \<and> bf_size (sv_rbuf s1) = bf_size (sv_rbuf s) \<and>
    take (length (enc m)) (bf_p (sv_rbuf s1)) = enc m \<and> length (bf_p (sv_rbuf s1)) = unat (bf_size (sv_rbuf s1)) \<and>
    sv_head_size s1 = sv_head_size s"
proof -
  obtain mem where put: "read_put [b] s = Inr (s\<lparr>sv_rbuf := (sv_rbuf s)\<lparr>bf_p := mem, bf_tail := bf_tail (sv_rbuf s) + 1\<rparr>\<rparr>)"
      "take (Suc (length r)) mem = r @ [b]" "length mem = unat (bf_size (sv_rbuf s))"
      "unat (bf_tail (sv_rbuf s) + 1) = Suc (length r)"
    using put_byte [OF c] by blast
  let ?s1 = "s\<lparr>sv_rbuf := (sv_rbuf s)\<lparr>bf_p := mem, bf_tail := bf_tail (sv_rbuf s) + 1\<rparr>\<rparr>"
  have seven: "unat (word_of_nat SA_HEAD :: u32) = 7" by (simp add: SA_HEAD_def)
  have len: "Suc (length r) = length (enc m)" using arg_cong [OF enc, of length] by simp
  have p: "take (unat (bf_tail (sv_rbuf s) + 1)) mem = enc m" using put(2,4) enc by simp
  show ?thesis
  proof (cases m)
    case (SigPkg i d)
    then have "SA_HEAD \<le> length r" using len by (simp add: length_enc SA_HEAD_def SA_DATA_def)
    then have st: "sv_state s = READ_BODY" "sv_pkg_size s = pkg_len m" "need s = pkg_len m"
      using c by (simp_all add: collects_def need_def)
    have "unat (pkg_len m) = length (enc m)" using SigPkg fit(2) by (simp only: unat_pkg_len)
    then have full: "bf_tail (sv_rbuf s) + 1 = need s" using put(4) len st(3) by (simp add: word_unat_eq_iff)
    have "eat v [b] s = res_bind (vs_processPkg v (enc m) ?s1) (\<lambda>(ret, s2).
        if ret < 0 then res_bind (vs_close v s2) (\<lambda>s3. Inr (False, s3))
        else Inr (True, s2\<lparr>sv_state := READ_HEAD, sv_rbuf := (sv_rbuf s2)\<lparr>bf_tail := 0\<rparr>\<rparr>))"
      using put(1) full st p by (simp add: read_arrived_def res_bind_def split: sum.split prod.split)
    with put(2,3) len enc show ?thesis by (intro exI [of _ ?s1]) simp
  next
    case BeatPkg
    then have r: "Suc (length r) = SA_HEAD" using len by (simp add: length_enc)
    then have n: "need s = word_of_nat SA_HEAD" "sv_state s = READ_HEAD"
      using c by (simp_all add: collects_def need_def)
    have full: "bf_tail (sv_rbuf s) + 1 = need s" using put(4) seven n r by (simp add: word_unat_eq_iff SA_HEAD_def)
    let ?s2 = "?s1\<lparr>sv_pkg_size := 0, sv_state := READ_BODY\<rparr>"
    have hd: "sa_processHead (enc m) ?s1 = (0, ?s1\<lparr>sv_pkg_size := 0\<rparr>)"
      by (rule sa_processHead_ok [of _ SACMD_REP_HEATBEAT]) (simp_all add: BeatPkg)
    have "eat v [b] s = res_bind (vs_processPkg v (enc m) ?s2) (\<lambda>(ret, s2).
        if ret < 0 then res_bind (vs_close v s2) (\<lambda>s3. Inr (False, s3))
        else Inr (True, s2\<lparr>sv_state := READ_HEAD, sv_rbuf := (sv_rbuf s2)\<lparr>bf_tail := 0\<rparr>\<rparr>))"
      using put(1) full n p hd v by (simp add: read_arrived_def res_bind_def split: sum.split prod.split)
    with put(2,3) len enc show ?thesis by (intro exI [of _ ?s2]) simp
  qed
qed

section \<open>Packages become frames\<close>

definition mirrors :: "int \<Rightarrow> byte list io_writer list \<Rightarrow> byte list list list \<Rightarrow> bool" where
  "mirrors ps ws logs \<longleftrightarrow> length ws = length logs \<and>
     (\<forall>i < length ws. \<exists>pgs. writer_at ps Ready (ws ! i) pgs \<and> concat pgs = logs ! i)"

fun log_pkg :: "sa_pkg \<Rightarrow> byte list list list \<Rightarrow> byte list list list" where
  "log_pkg (SigPkg i d) logs = logs[i := logs ! i @ [d]]"
| "log_pkg BeatPkg logs = logs"

lemma length_log_pkg [simp]: "length (log_pkg m logs) = length logs"
  by (cases m) simp_all

text \<open>A package the requester can take: a signal it asked for, a frame that fits its buffer.\<close>

fun pkg_fits :: "nat \<Rightarrow> nat \<Rightarrow> sa_pkg \<Rightarrow> bool" where
  "pkg_fits cnt sz (SigPkg i d) \<longleftrightarrow> i < cnt \<and> SA_DATA + length d \<le> sz"
| "pkg_fits cnt sz BeatPkg \<longleftrightarrow> True"

lemma fits_small:
  fixes b :: c_buffer
  assumes "pkg_fits cnt (unat (bf_size b)) m" "SA_HEAD \<le> unat (bf_size b)"
  shows "length (enc m) < 2 ^ 32" "pkg_len m \<le> bf_size b" "length (enc m) \<le> unat (bf_size b)"
proof -
  have sz: "unat (bf_size b) < 2 ^ 32" using unsigned_less [of "bf_size b"] by simp
  show le: "length (enc m) \<le> unat (bf_size b)" using assms by (cases m) (simp_all add: length_enc del: enc.simps)
  with sz show small: "length (enc m) < 2 ^ 32" by simp
  show "pkg_len m \<le> bf_size b"
  proof (cases m)
    case (SigPkg i d)
    then show ?thesis using le unat_pkg_len small by (simp add: word_le_nat_alt del: enc.simps pkg_len.simps)
  qed simp
qed

lemma processPkg_mirrors:
  fixes s :: signal_requester
  assumes mir: "mirrors ps (sq_writers s) logs" and env: "grants ioenv"
    and mem: "take (length (enc m)) (bf_p (sv_rbuf s)) = enc m" "length (bf_p (sv_rbuf s)) = unat (bf_size (sv_rbuf s))"
    and fit: "pkg_fits (length (sq_writers s)) (unat (bf_size (sv_rbuf s))) m"
    and size: "SA_HEAD \<le> unat (bf_size (sv_rbuf s))" "int (unat (bf_size (sv_rbuf s))) + 54 \<le> ps"
    and cnt: "length (sq_writers s) < 2 ^ 32"
  shows "\<exists>ws. CSignalRequester_processPkg ioenv now (enc m) s = Inr (0, s\<lparr>sq_alive := now, sq_writers := ws\<rparr>) \<and>
    mirrors ps ws (log_pkg m logs)"
proof -
  obtain rest where p: "bf_p (sv_rbuf s) = enc m @ rest" using mem(1) by (metis append_take_drop_id)
  show ?thesis
  proof (cases m)
    case BeatPkg
    then have "bf_p (sv_rbuf s) ! 2 = SACMD_REP_HEATBEAT" by (simp add: p sa_head_def)
    then show ?thesis using mir BeatPkg
      by (intro exI [of _ "sq_writers s"]) (simp add: CSignalRequester_processPkg_def sa_consts Let_def)
  next
    case (SigPkg i d)
    have i: "i < length (sq_writers s)" "SA_DATA + length d \<le> unat (bf_size (sv_rbuf s))" using fit SigPkg by simp_all
    have cmd: "bf_p (sv_rbuf s) ! 2 = SACMD_SIGNAL_DATA" by (simp add: p SigPkg sa_head_def)
    have "drop SA_HEAD (bf_p (sv_rbuf s)) = int_bytes (word_of_nat i) @ d @ rest" by (simp add: p SigPkg)
    then have idx: "unat (bytes_int (drop SA_HEAD (bf_p (sv_rbuf s)))) = i"
      using i(1) cnt by (simp add: unat_of_nat take_bit_eq_mod)
    have data: "drop SA_DATA (bf_p (sv_rbuf s)) = d @ rest" by (simp add: p SigPkg SA_DATA_def SA_HEAD_def)
    have plen: "length (enc m) = SA_DATA + length d" by (simp add: SigPkg length_enc del: enc.simps)
    have "unat (bf_size (sv_rbuf s)) < 2 ^ 32" using unsigned_less [of "bf_size (sv_rbuf s)"] by simp
    with i(2) have "length d < 2 ^ 32" by linarith
    then have len: "unat (word_of_nat (length (enc m)) - word_of_nat SA_DATA :: u32) = length d"
      by (simp add: plen unat_of_nat take_bit_eq_mod)
    obtain pgs where w: "writer_at ps Ready (sq_writers s ! i) pgs" "concat pgs = logs ! i"
      using mir i(1) by (auto simp: mirrors_def)
    have room: "PAGE_HEAD_SIZE + FRAME_HEAD_SIZE + int (length d) \<le> ps"
      using i(2) size(2) unfolding page_consts SA_DATA_def by linarith
    from write_ok [OF w(1) env _ room, of 0 d now] obtain w1 pgs1 where
      w1: "CRawIOWriter_write 2 ioenv d (int (length d)) now (sq_writers s ! i) = Inr (True, w1)"
        "writer_at ps Ready w1 pgs1" "concat pgs1 = concat pgs @ [d]"
      by (auto simp: numeral_2_eq_2)
    have "CSignalRequester_processPkg ioenv now (enc m) s =
        Inr (0, s\<lparr>sq_alive := now, sq_writers := (sq_writers s)[i := w1]\<rparr>)"
      using w1(1) i mem(2) by (simp add: CSignalRequester_processPkg_def Let_def cmd idx len data)
    moreover have "\<exists>pgs. writer_at ps Ready ((sq_writers s)[i := w1] ! j) pgs \<and> concat pgs = log_pkg m logs ! j"
      if "j < length (sq_writers s)" for j
      using mir w1(2,3) w(2) SigPkg that by (cases "j = i") (auto simp: mirrors_def)
    then have "mirrors ps ((sq_writers s)[i := w1]) (log_pkg m logs)"
      using mir by (simp add: mirrors_def)
    ultimately show ?thesis by blast
  qed
qed

definition requester_ok :: "int \<Rightarrow> signal_requester \<Rightarrow> bool" where
  "requester_ok ps s \<longleftrightarrow> SA_HEAD \<le> unat (bf_size (sv_rbuf s)) \<and> int (unat (bf_size (sv_rbuf s))) + 54 \<le> ps \<and>
     length (sq_writers s) < 2 ^ 32"

lemma requester_okD:
  assumes "requester_ok ps s" "pkg_fits (length (sq_writers s)) (unat (bf_size (sv_rbuf s))) m"
  shows "pkg_len m \<le> bf_size (sv_rbuf s)" "length (enc m) < 2 ^ 32"
  using fits_small [of "length (sq_writers s)" "sv_rbuf s" m] assms by (simp_all add: requester_ok_def)

text \<open>Two states that differ in what receiving changes have the same writers.\<close>

lemma hidden_writers:
  fixes s t :: signal_requester
  assumes "hide_receiving t = hide_receiving s"
  shows "sq_writers t = sq_writers s"
proof -
  have "sq_writers (hide_receiving s) = sq_writers s" for s :: signal_requester
    by (simp add: hide_receiving_def)
  with assms show ?thesis by metis
qed

lemma eat_part:
  fixes s :: signal_requester
  assumes "collects s r m" "r @ bs @ rest = enc m" "rest \<noteq> []"
    and "requester_ok ps s" "pkg_fits (length (sq_writers s)) (unat (bf_size (sv_rbuf s))) m"
    and v: "vs_processHead v = sa_processHead"
  shows "\<exists>t. eat v bs s = Inr (True, t) \<and> collects t (r @ bs) m \<and> sq_writers t = sq_writers s \<and>
    bf_size (sv_rbuf t) = bf_size (sv_rbuf s)"
  using assms(1-5)
proof (induction bs arbitrary: r s)
  case (Cons b bs)
  have "r @ b # (bs @ rest) = enc m" "bs @ rest \<noteq> []" using Cons.prems(2,3) by simp_all
  from eat_byte [OF Cons.prems(1) this requester_okD [OF Cons.prems(4,5)] v] obtain t where
    t: "eat v [b] s = Inr (True, t)" "collects t (r @ [b]) m" "sq_writers t = sq_writers s"
      "bf_size (sv_rbuf t) = bf_size (sv_rbuf s)" using hidden_writers by blast
  have "(r @ [b]) @ bs @ rest = enc m" using Cons.prems(2) by simp
  moreover have "requester_ok ps t" "pkg_fits (length (sq_writers t)) (unat (bf_size (sv_rbuf t))) m"
    using Cons.prems(4,5) t(3,4) by (simp_all add: requester_ok_def)
  ultimately obtain u where "eat v bs t = Inr (True, u)" "collects u ((r @ [b]) @ bs) m"
      "sq_writers u = sq_writers t" "bf_size (sv_rbuf u) = bf_size (sv_rbuf t)"
    using Cons.IH [OF t(2) _ Cons.prems(3)] by blast
  with t show ?case using eat_append [of v "[b]" bs s] by simp
qed simp

lemma eat_pkg:
  fixes s :: signal_requester
  assumes c: "collects s r m" and enc: "r @ bs = enc m" "bs \<noteq> []"
    and ok: "requester_ok ps s" and fit: "pkg_fits (length (sq_writers s)) (unat (bf_size (sv_rbuf s))) m"
    and mir: "mirrors ps (sq_writers s) logs" and env: "grants ioenv"
  shows "\<exists>t. eat (CSignalRequester_virtuals ioenv cenv now) bs s = Inr (True, t) \<and> collects t [] m1 \<and>
    requester_ok ps t \<and> length (sq_writers t) = length (sq_writers s) \<and>
    bf_size (sv_rbuf t) = bf_size (sv_rbuf s) \<and> mirrors ps (sq_writers t) (log_pkg m logs)"
proof -
  let ?v = "CSignalRequester_virtuals ioenv cenv now :: signal_requester service_virtuals"
  have v: "vs_processHead ?v = sa_processHead" "vs_processPkg ?v = CSignalRequester_processPkg ioenv now"
    by (simp_all add: CSignalRequester_virtuals_def)
  obtain cs b where bs: "bs = cs @ [b]" using enc(2) by (metis rev_exhaust)
  have "r @ cs @ [b] = enc m" using enc(1) bs by simp
  from eat_part [OF c this _ ok fit v(1)] obtain s1 where
    s1: "eat ?v cs s = Inr (True, s1)" "collects s1 (r @ cs) m" "sq_writers s1 = sq_writers s"
      "bf_size (sv_rbuf s1) = bf_size (sv_rbuf s)" by blast
  have fit1: "requester_ok ps s1" "pkg_fits (length (sq_writers s1)) (unat (bf_size (sv_rbuf s1))) m"
    using ok fit s1(3,4) by (simp_all add: requester_ok_def)
  have "(r @ cs) @ [b] = enc m" using enc(1) bs by simp
  from eat_last [OF s1(2) this requester_okD [OF fit1] v(1)] obtain s2 where
    s2: "eat ?v [b] s1 = res_bind (CSignalRequester_processPkg ioenv now (enc m) s2) (\<lambda>(ret, s2).
        if ret < 0 then res_bind (vs_close ?v s2) (\<lambda>s3. Inr (False, s3))
        else Inr (True, s2\<lparr>sv_state := READ_HEAD, sv_rbuf := (sv_rbuf s2)\<lparr>bf_tail := 0\<rparr>\<rparr>))"
      "hide_receiving s2 = hide_receiving s1" "bf_size (sv_rbuf s2) = bf_size (sv_rbuf s1)"
      "take (length (enc m)) (bf_p (sv_rbuf s2)) = enc m" "length (bf_p (sv_rbuf s2)) = unat (bf_size (sv_rbuf s2))"
      "sv_head_size s2 = sv_head_size s1"
    unfolding v(2) by blast
  note w2 = hidden_writers [OF s2(2)]
  have "\<exists>ws. CSignalRequester_processPkg ioenv now (enc m) s2 = Inr (0, s2\<lparr>sq_alive := now, sq_writers := ws\<rparr>) \<and>
      mirrors ps ws (log_pkg m logs)"
  proof (rule processPkg_mirrors)
    show "mirrors ps (sq_writers s2) logs" using mir s1(3) w2 by simp
    show "pkg_fits (length (sq_writers s2)) (unat (bf_size (sv_rbuf s2))) m" using fit1(2) w2 s2(3) by simp
    show "SA_HEAD \<le> unat (bf_size (sv_rbuf s2))" "int (unat (bf_size (sv_rbuf s2))) + 54 \<le> ps"
      "length (sq_writers s2) < 2 ^ 32"
      using fit1(1) unfolding requester_ok_def w2 s2(3) by blast+
  qed (rule env s2(4,5))+
  then obtain ws where ws: "CSignalRequester_processPkg ioenv now (enc m) s2 = Inr (0, s2\<lparr>sq_alive := now, sq_writers := ws\<rparr>)"
      "mirrors ps ws (log_pkg m logs)" by blast
  let ?t = "s2\<lparr>sq_alive := now, sq_writers := ws, sv_state := READ_HEAD, sv_rbuf := (sv_rbuf s2)\<lparr>bf_tail := 0\<rparr>\<rparr>"
  have "eat ?v bs s = Inr (True, ?t)"
    unfolding bs eat_append using s1(1) s2(1) ws(1) by simp
  moreover have "length ws = length (sq_writers s)" using ws(2) mir by (simp add: mirrors_def)
  moreover have h: "sv_head_size s2 = word_of_nat SA_HEAD" using s2(6) s1(2) by (simp add: collects_def)
  have "collects ?t [] m1"
    using h s2(5) fit1(1) s2(3)
    by (simp add: collects_def frame_inv_def need_def requester_ok_def word_less_nat_alt word_le_nat_alt SA_HEAD_def)
  ultimately show ?thesis using ws(2) ok s1 s2 by (intro exI [of _ ?t]) (simp add: requester_ok_def)
qed

end
