(* ===== verification/Signal_Machine.thy ===== *)
theory Signal_Machine
  imports Signal_World
begin

text \<open>
  Signals between two hosts: the machine of publishing strategies, the server, the socket and the
  requester, how it starts, and its invariant.
\<close>

section \<open>A stream of packages\<close>

definition pending :: "signal_requester \<Rightarrow> byte list \<Rightarrow> sa_pkg list \<Rightarrow> bool" where
  "pending s r msgs \<longleftrightarrow>
     (case msgs of [] \<Rightarrow> collects s r BeatPkg \<and> r = [] | m # _ \<Rightarrow> collects s r m \<and> length r < length (enc m))"

lemma enc_nonempty: "0 < length (enc m)"
  by (cases m) (simp_all add: length_enc SA_HEAD_def SA_DATA_def del: enc.simps)

lemma pending_start: "(\<And>m. collects s [] m) \<Longrightarrow> pending s [] msgs"
  using enc_nonempty by (auto simp: pending_def split: list.split)

lemma eat_stream:
  assumes "pending s r msgs" "r @ bs @ rest = concat (map enc msgs)" "requester_ok ps s"
    and "\<forall>m \<in> set msgs. pkg_fits (length (sq_writers s)) (unat (bf_size (sv_rbuf s))) m"
    and "mirrors ps (sq_writers s) logs" and env: "grants ioenv"
  shows "\<exists>k t r1. eat (CSignalRequester_virtuals ioenv cenv now) bs s = Inr (True, t) \<and>
    r1 @ rest = concat (map enc (drop k msgs)) \<and> pending t r1 (drop k msgs) \<and> requester_ok ps t \<and>
    length (sq_writers t) = length (sq_writers s) \<and> bf_size (sv_rbuf t) = bf_size (sv_rbuf s) \<and>
    mirrors ps (sq_writers t) (fold log_pkg (take k msgs) logs)"
  using assms(1-5)
proof (induction msgs arbitrary: s r bs logs)
  case Nil
  then show ?case by (intro exI [of _ 0] exI [of _ s] exI [of _ r]) simp
next
  case (Cons m msgs)
  let ?v = "CSignalRequester_virtuals ioenv cenv now :: signal_requester service_virtuals"
  have c: "collects s r m" "length r < length (enc m)" using Cons.prems(1) by (simp_all add: pending_def)
  have v: "vs_processHead ?v = sa_processHead" by (simp add: CSignalRequester_virtuals_def)
  have fit: "pkg_fits (length (sq_writers s)) (unat (bf_size (sv_rbuf s))) m" using Cons.prems(4) by simp
  show ?case
  proof (cases "length (r @ bs) < length (enc m)")
    case True
    have "r @ bs = take (length (r @ bs)) (enc m)"
    proof -
      have "r @ bs = take (length (r @ bs)) (concat (map enc (m # msgs)))"
        using Cons.prems(2) by (metis append.assoc append_eq_conv_conj)
      then show ?thesis using True by simp
    qed
    then have "r @ bs @ drop (length (r @ bs)) (enc m) = enc m" "drop (length (r @ bs)) (enc m) \<noteq> []"
      using True by (metis append.assoc append_take_drop_id) (use True in simp)
    from eat_part [OF c(1) this Cons.prems(3) fit v] obtain t where
      t: "eat ?v bs s = Inr (True, t)" "collects t (r @ bs) m" "sq_writers t = sq_writers s"
        "bf_size (sv_rbuf t) = bf_size (sv_rbuf s)" by blast
    with True Cons.prems(2,3,5) show ?thesis
      by (intro exI [of _ 0] exI [of _ t] exI [of _ "r @ bs"]) (simp add: pending_def requester_ok_def)
  next
    case False
    define b1 b2 where "b1 = take (length (enc m) - length r) bs" and "b2 = drop (length (enc m) - length r) bs"
    have bs: "bs = b1 @ b2" by (simp add: b1_def b2_def)
    have l: "length (r @ b1) = length (enc m)" "b1 \<noteq> []" using False c(2) by (auto simp: b1_def)
    have split: "(r @ b1) @ (b2 @ rest) = enc m @ concat (map enc msgs)" using Cons.prems(2) bs by simp
    then have e: "r @ b1 = enc m" "b2 @ rest = concat (map enc msgs)"
      using append_eq_append_conv [of "r @ b1" "enc m"] l(1) by blast+
    obtain t where t: "eat ?v b1 s = Inr (True, t)" "requester_ok ps t"
        "length (sq_writers t) = length (sq_writers s)" "bf_size (sv_rbuf t) = bf_size (sv_rbuf s)"
        "mirrors ps (sq_writers t) (log_pkg m logs)" "collects t [] m"
      using eat_pkg [OF c(1) e(1) l(2) Cons.prems(3) fit Cons.prems(5) env] by blast
    have any: "collects t [] m1" for m1 using t(6) by (simp add: collects_def SA_HEAD_def)
    have "pending t [] msgs" by (rule pending_start) (rule any)
    moreover have "[] @ b2 @ rest = concat (map enc msgs)" using e(2) by simp
    moreover have "\<forall>m \<in> set msgs. pkg_fits (length (sq_writers t)) (unat (bf_size (sv_rbuf t))) m"
      using Cons.prems(4) t(3,4) by simp
    ultimately obtain k u r1 where u: "eat ?v b2 t = Inr (True, u)" "r1 @ rest = concat (map enc (drop k msgs))"
        "pending u r1 (drop k msgs)" "requester_ok ps u" "length (sq_writers u) = length (sq_writers t)"
        "bf_size (sv_rbuf u) = bf_size (sv_rbuf t)"
        "mirrors ps (sq_writers u) (fold log_pkg (take k msgs) (log_pkg m logs))"
      using Cons.IH [OF _ _ t(2) _ t(5), of "[]" b2] by blast
    have "eat ?v bs s = Inr (True, u)" unfolding bs eat_append using t(1) u(1) by simp
    with u t(3,4) show ?thesis by (intro exI [of _ "Suc k"] exI [of _ u] exI [of _ r1]) simp
  qed
qed

section \<open>The machine\<close>

text \<open>
  The channels the strategies publish into, the server, the bytes the kernel carries, the requester;
  and, to state the property, what was published in each signal and how much of it the server read.
\<close>

record sig_world =
  gw_src :: "byte list io_writer list"
  gw_srv :: signal_server
  gw_net :: "byte list"
  gw_req :: signal_requester
  gw_pub :: "byte list list list"
  gw_seen :: "nat list"

datatype sig_event =
  Publish nat "byte list" int
  | Serve bool
  | Answer int "byte list"
  | Flush "nat list"
  | Deliver "byte list list" int

definition files_of :: "string list \<Rightarrow> byte list io_writer list \<Rightarrow> string \<Rightarrow> byte list io_files" where
  "files_of names srcs path =
     (case map_of (zip (map (\<lambda>n. SIGNAL_BASE_DIR @ n) names) (map wr_files srcs)) path of
        None \<Rightarrow> [] | Some f \<Rightarrow> f)"

definition view_all :: "string list \<Rightarrow> byte list io_writer list \<Rightarrow> byte list io_view" where
  "view_all names srcs = \<lparr>vw_files = files_of names srcs, vw_open = (\<lambda>_ _. True), vw_zero = []\<rparr>"

definition unread :: "sig_world \<Rightarrow> nat \<Rightarrow> byte list list" where
  "unread w i = drop (gw_seen w ! i) (gw_pub w ! i)"

text \<open>The plan for all signals, one after the other: which are read, and what is unread.\<close>

fun serve_plan ::
    "nat \<Rightarrow> nat \<Rightarrow> (bool \<times> byte list list) list \<Rightarrow> ((byte list list \<times> byte list list) list \<times> nat) option" where
  "serve_plan sz room [] = Some ([], room)"
| "serve_plan sz room ((False, ys) # yss) =
     map_option (\<lambda>(ps, r). (([], ys) # ps, r)) (serve_plan sz room yss)"
| "serve_plan sz room ((True, ys) # yss) =
     (case send_plan sz room ys of
        None \<Rightarrow> None
      | Some (sent, rest, room1) \<Rightarrow> map_option (\<lambda>(ps, r). ((sent, rest) # ps, r)) (serve_plan sz room1 yss))"

definition plan_of :: "bool \<Rightarrow> sig_world \<Rightarrow> ((byte list list \<times> byte list list) list \<times> nat) option" where
  "plan_of scan w =
     serve_plan (unat (bf_size (sv_wbuf (gw_srv w)))) (bf_room (sv_wbuf (gw_srv w)))
       (map (\<lambda>i. (rd_fd (ss_readers (gw_srv w) ! i) \<or> scan, unread w i)) [0..<length (gw_src w)])"

definition unread_fuel :: "sig_world \<Rightarrow> nat" where
  "unread_fuel w = Suc (sum_list (map length (gw_pub w)))"

fun sig_step :: "io_env \<Rightarrow> io_env \<Rightarrow> connect_env \<Rightarrow> string list \<Rightarrow> sig_event \<Rightarrow> sig_world \<Rightarrow> sig_world res" where
  "sig_step senv renv cenv names (Publish i d nano) w =
     res_bind (CRawIOWriter_write 2 senv d (int (length d)) nano (gw_src w ! i)) (\<lambda>(_, wr).
       Inr (w\<lparr>gw_src := (gw_src w)[i := wr], gw_pub := (gw_pub w)[i := gw_pub w ! i @ [d]]\<rparr>))"
| "sig_step senv renv cenv names (Serve scan) w =
     res_bind (CSignalServer_tryRead (unread_fuel w) (view_all names (gw_src w)) scan (gw_srv w)) (\<lambda>s.
       Inr (w\<lparr>gw_srv := s, gw_seen := (case plan_of scan w of
          None \<Rightarrow> gw_seen w
        | Some (ps, _) \<Rightarrow> map (\<lambda>i. length (gw_pub w ! i) - length (snd (ps ! i))) [0..<length ps])\<rparr>))"
| "sig_step senv renv cenv names (Answer now mem) w =
     res_bind (CSignalServer_processPkg (view_all names (gw_src w)) now (take SA_HEAD mem)
         ((gw_srv w)\<lparr>sv_rbuf := (sv_rbuf (gw_srv w))\<lparr>bf_p := mem\<rparr>\<rparr>)) (\<lambda>(_, s). Inr (w\<lparr>gw_srv := s\<rparr>))"
| "sig_step senv renv cenv names (Flush ks) w =
     res_bind (CService_write_cb (CSignalServer_virtuals (view_all names (gw_src w)) 0) (map Wrote ks) (gw_srv w))
       (\<lambda>(_, s, sent). Inr (w\<lparr>gw_srv := s, gw_net := gw_net w @ sent\<rparr>))"
| "sig_step senv renv cenv names (Deliver chunks now) w =
     res_bind (CService_read_cb (CSignalRequester_virtuals renv cenv now) (map Data chunks) (gw_req w))
       (\<lambda>(_, s, _). Inr (w\<lparr>gw_req := s, gw_net := drop (length (concat chunks)) (gw_net w)\<rparr>))"

text \<open>
  The connection lasts: the kernel takes bytes and gives those it took. A frame fits a page of its
  channel. What the server is to send never fills its buffer exactly (see below for what happens
  then). A heart beat is a package of the requester in the receive buffer of the server.
\<close>

fun sig_legal :: "int \<Rightarrow> sig_event \<Rightarrow> sig_world \<Rightarrow> bool" where
  "sig_legal ps (Publish i d nano) w \<longleftrightarrow>
     i < length (gw_src w) \<and> PAGE_HEAD_SIZE + FRAME_HEAD_SIZE + int (length d) \<le> ps"
| "sig_legal ps (Serve scan) w \<longleftrightarrow> plan_of scan w \<noteq> None"
| "sig_legal ps (Answer now mem) w \<longleftrightarrow> take SA_HEAD mem = sa_head SACMD_REQ_HEATBEAT 0"
| "sig_legal ps (Flush ks) w \<longleftrightarrow> 0 \<notin> set ks"
| "sig_legal ps (Deliver chunks now) w \<longleftrightarrow>
     [] \<notin> set chunks \<and> concat chunks = take (length (concat chunks)) (gw_net w)"

section \<open>The start\<close>

text \<open>
  Channels with a backlog of frames, a server that was asked for all of them, a requester with fresh
  channels of its own.
\<close>

fun write_all :: "io_env \<Rightarrow> int \<Rightarrow> byte list list \<Rightarrow> byte list io_writer \<Rightarrow> byte list io_writer res" where
  "write_all env nano [] w = Inr w"
| "write_all env nano (d # ds) w =
     res_bind (CRawIOWriter_write 2 env d (int (length d)) nano w) (\<lambda>(_, w1). write_all env nano ds w1)"

fun open_sources :: "io_env \<Rightarrow> int \<Rightarrow> int \<Rightarrow> byte list list list \<Rightarrow> byte list io_writer list res" where
  "open_sources env ps nano [] = Inr []"
| "open_sources env ps nano (ds # dss) =
     res_bind (CRawIOWriter_init env nano (CRawIOWriter_new ps True [])) (\<lambda>(_, w).
     res_bind (write_all env nano ds w) (\<lambda>w1.
     res_bind (open_sources env ps nano dss) (\<lambda>ws. Inr (w1 # ws))))"

definition request_bytes :: "string list \<Rightarrow> byte list" where
  "request_bytes names =
     sa_head SACMD_REQ_SIG (word_of_nat (SA_DATA + sum_list (map (\<lambda>i. length i + 1) names))) @
     int_bytes (word_of_nat (length names)) @ concat (map (\<lambda>n. str_bytes n @ [0]) names)"

definition sig_start ::
    "io_env \<Rightarrow> io_env \<Rightarrow> string list \<Rightarrow> int \<Rightarrow> u32 \<Rightarrow> u32 \<Rightarrow> byte list list list \<Rightarrow> int \<Rightarrow> sig_world res" where
  "sig_start senv renv names ps wsize rsize backlog now =
     res_bind (open_sources senv ps now backlog) (\<lambda>srcs.
     res_bind (CSignalServer_processPkg (view_all names srcs) now (request_bytes names)
         ((CSignalServer_new (\<lambda>_. 0) (\<lambda>_. 0) now 7 5000000000 wsize)\<lparr>sv_rbuf :=
            \<lparr>bf_p = request_bytes names @ replicate (4096 - length (request_bytes names)) 0, bf_size = 4096,
             bf_head = 0, bf_tail = 0\<rparr>\<rparr>)) (\<lambda>(_, srv).
     res_bind (init_writers renv (\<lambda>_. []) [] now names (CSignalRequester_new (\<lambda>_. 0) (\<lambda>_. 0) 5000000000 rsize))
       (\<lambda>(_, req).
     Inr \<lparr>gw_src = srcs, gw_srv = srv, gw_net = [], gw_req = req, gw_pub = map (\<lambda>_. []) names,
          gw_seen = map (\<lambda>_. 0) names\<rparr>)))"

section \<open>The invariant\<close>

definition fits :: "nat \<Rightarrow> byte list \<Rightarrow> bool" where
  "fits sz d \<longleftrightarrow> SA_DATA + length d \<le> sz"

text \<open>The frames of signal \<open>i\<close> and its reader: everything was read up to the frames unread.\<close>

definition source_at ::
    "int \<Rightarrow> string \<Rightarrow> byte list io_writer \<Rightarrow> io_reader \<Rightarrow> byte list list \<Rightarrow> nat \<Rightarrow> bool" where
  "source_at ps name w r pub seen \<longleftrightarrow> ps < 2 ^ 31 \<and> sized (wr_files w) \<and> rd_prefix r = SIGNAL_BASE_DIR @ name \<and>
     seen \<le> length pub \<and>
     (\<exists>pgs skip. writer_at ps Ready w pgs \<and> concat pgs = skip @ pub \<and>
        reader_at (wr_files w) pgs r (skip @ take seen pub))"

text \<open>
  The bytes the requester holds, those under way and those the server has queued are packages,
  and writing the frames in them makes the channels equal to what the server has read.
\<close>

definition stream_at ::
    "int \<Rightarrow> nat \<Rightarrow> nat \<Rightarrow> signal_requester \<Rightarrow> byte list \<Rightarrow> byte list list list \<Rightarrow> bool" where
  "stream_at rps n sz req under_way want \<longleftrightarrow>
     (\<exists>r msgs logs. pending req r msgs \<and> r @ under_way = concat (map enc msgs) \<and>
        (\<forall>m \<in> set msgs. pkg_fits n sz m) \<and> mirrors rps (sq_writers req) logs \<and> fold log_pkg msgs logs = want)"

definition sig_inv :: "string list \<Rightarrow> int \<Rightarrow> nat \<Rightarrow> sig_world \<Rightarrow> bool" where
  "sig_inv names ps sz w \<longleftrightarrow>
     length (gw_src w) = length names \<and> length (gw_pub w) = length names \<and> length (gw_seen w) = length names \<and>
     length (ss_readers (gw_srv w)) = length names \<and> length (sq_writers (gw_req w)) = length names \<and>
     (\<forall>i < length names. source_at ps (names ! i) (gw_src w ! i) (ss_readers (gw_srv w) ! i) (gw_pub w ! i)
        (gw_seen w ! i)) \<and>
     bf_ok (sv_wbuf (gw_srv w)) \<and> unat (bf_size (sv_wbuf (gw_srv w))) = sz \<and>
     requester_ok SIGNAL_PAGE_SIZE (gw_req w) \<and> sz \<le> unat (bf_size (sv_rbuf (gw_req w))) \<and>
     stream_at SIGNAL_PAGE_SIZE (length names) sz (gw_req w) (gw_net w @ bf_data (sv_wbuf (gw_srv w)))
       (map (\<lambda>i. filter (fits sz) (take (gw_seen w ! i) (gw_pub w ! i))) [0..<length names])"

subsection \<open>The stream\<close>

lemma stream_more:
  assumes "stream_at rps n sz req uw want" "\<forall>m \<in> set ms. pkg_fits n sz m"
  shows "stream_at rps n sz req (uw @ concat (map enc ms)) (fold log_pkg ms want)"
proof -
  from assms(1) obtain r msgs logs where s: "pending req r msgs" "r @ uw = concat (map enc msgs)"
      "\<forall>m \<in> set msgs. pkg_fits n sz m" "mirrors rps (sq_writers req) logs" "fold log_pkg msgs logs = want"
    unfolding stream_at_def by blast
  have "pending req r (msgs @ ms)"
  proof (cases "msgs = []")
    case True
    with s(1) have "collects req [] BeatPkg" "r = []" by (auto simp: pending_def)
    then have "collects req [] m" for m by (simp add: collects_def SA_HEAD_def)
    with \<open>r = []\<close> True show ?thesis by (auto intro: pending_start)
  next
    case False
    with s(1) show ?thesis by (cases msgs) (simp_all add: pending_def)
  qed
  moreover have "r @ uw @ concat (map enc ms) = concat (map enc (msgs @ ms))" using s(2) by simp
  ultimately show ?thesis using s(3-5) assms(2) unfolding stream_at_def
    by (intro exI [of _ r] exI [of _ "msgs @ ms"] exI [of _ logs]) (auto simp: ball_Un)
qed

lemma pkg_fits_mono: "pkg_fits n sz m \<Longrightarrow> sz \<le> sz1 \<Longrightarrow> pkg_fits n sz1 m"
  by (cases m) simp_all

lemma stream_read:
  assumes s: "stream_at rps n sz req (bs @ rest) want" and ok: "requester_ok rps req"
    and n: "length (sq_writers req) = n" "sz \<le> unat (bf_size (sv_rbuf req))" and env: "grants ioenv"
  shows "\<exists>t. eat (CSignalRequester_virtuals ioenv cenv now) bs req = Inr (True, t) \<and>
    stream_at rps n sz t rest want \<and> requester_ok rps t \<and> length (sq_writers t) = n \<and>
    bf_size (sv_rbuf t) = bf_size (sv_rbuf req)"
proof -
  from s obtain r msgs logs where m: "pending req r msgs" "r @ bs @ rest = concat (map enc msgs)"
      "\<forall>m \<in> set msgs. pkg_fits n sz m" "mirrors rps (sq_writers req) logs" "fold log_pkg msgs logs = want"
    unfolding stream_at_def by blast
  have "\<forall>m \<in> set msgs. pkg_fits (length (sq_writers req)) (unat (bf_size (sv_rbuf req))) m"
    using m(3) n pkg_fits_mono by blast
  from eat_stream [OF m(1,2) ok this m(4) env, of cenv now] obtain k t r1 where
    t: "eat (CSignalRequester_virtuals ioenv cenv now) bs req = Inr (True, t)"
      "r1 @ rest = concat (map enc (drop k msgs))" "pending t r1 (drop k msgs)" "requester_ok rps t"
      "length (sq_writers t) = length (sq_writers req)" "bf_size (sv_rbuf t) = bf_size (sv_rbuf req)"
      "mirrors rps (sq_writers t) (fold log_pkg (take k msgs) logs)" by blast
  have "fold log_pkg (drop k msgs) (fold log_pkg (take k msgs) logs) = fold log_pkg (take k msgs @ drop k msgs) logs"
    by (simp only: fold_append comp_def)
  then have "stream_at rps n sz t rest want"
    unfolding stream_at_def using t(2,3,7) m(3,5) in_set_dropD
    by (intro exI [of _ r1] exI [of _ "drop k msgs"] exI [of _ "fold log_pkg (take k msgs) logs"]) (auto dest: in_set_dropD)
  with t n show ?thesis by auto
qed

lemma log_grows:
  "i < length logs \<Longrightarrow> \<exists>rest. fold log_pkg msgs logs ! i = logs ! i @ rest"
proof (induction msgs arbitrary: logs)
  case (Cons m msgs)
  from Cons.IH [of "log_pkg m logs"] Cons.prems obtain rest where
    r: "fold log_pkg msgs (log_pkg m logs) ! i = log_pkg m logs ! i @ rest" by auto
  have "\<exists>d. log_pkg m logs ! i = logs ! i @ d"
  proof (cases m)
    case (SigPkg j d)
    with Cons.prems show ?thesis by (cases "j = i") simp_all
  qed simp
  with r show ?case by auto
qed simp

lemma stream_logs:
  assumes "stream_at rps n sz req uw want" "length (sq_writers req) = n"
  shows "\<exists>logs. mirrors rps (sq_writers req) logs \<and> (\<forall>i < n. \<exists>rest. logs ! i @ rest = want ! i) \<and>
    (uw = [] \<longrightarrow> logs = want)"
proof -
  from assms(1) obtain r msgs logs where m: "pending req r msgs" "r @ uw = concat (map enc msgs)"
      "mirrors rps (sq_writers req) logs" "fold log_pkg msgs logs = want" unfolding stream_at_def by blast
  have "length logs = n" using m(3) assms(2) by (simp add: mirrors_def)
  then have "\<exists>rest. logs ! i @ rest = want ! i" if "i < n" for i
    using log_grows [of i logs msgs] that m(4) by metis
  moreover have "logs = want" if "uw = []"
  proof (cases msgs)
    case Nil with m(4) show ?thesis by simp
  next
    case (Cons x xs)
    with m(1) have "length r < length (enc x)" by (simp add: pending_def)
    moreover have "r = enc x @ concat (map enc xs)" using m(2) that Cons by simp
    ultimately show ?thesis by simp
  qed
  ultimately show ?thesis using m(3) by blast
qed

subsection \<open>Serving\<close>

definition reader_ready :: "byte list io_view \<Rightarrow> int \<Rightarrow> io_reader \<Rightarrow> byte list list list \<Rightarrow> byte list list \<Rightarrow> bool" where
  "reader_ready v ps r pgs ys \<longleftrightarrow>
     sees v ps r pgs \<and> (\<exists>xs. reader_at (vw_files v (rd_prefix r)) pgs r xs \<and> concat pgs = xs @ ys)"

fun plan_pkgs :: "nat \<Rightarrow> (byte list list \<times> byte list list) list \<Rightarrow> sa_pkg list" where
  "plan_pkgs i [] = []"
| "plan_pkgs i ((sent, rest) # ps) = map (SigPkg i) sent @ plan_pkgs (Suc i) ps"

lemma send_ready:
  assumes "reader_ready v ps r pgs ys" "bf_ok (sv_wbuf s)" "length ys < n"
    and "send_plan (unat (bf_size (sv_wbuf s))) (bf_room (sv_wbuf s)) ys = Some (sent, rest, room)"
  shows "\<exists>r1 s1. send_frames n v i r s = Inr (r1, s1) \<and> rd_prefix r1 = rd_prefix r \<and>
    reader_ready v ps r1 pgs rest \<and> sends s (concat (map enc (map (SigPkg i) sent))) s1 \<and>
    bf_room (sv_wbuf s1) = room"
proof -
  from assms(1) obtain xs where "sees v ps r pgs" "reader_at (vw_files v (rd_prefix r)) pgs r xs" "concat pgs = xs @ ys"
    unfolding reader_ready_def by blast
  from send_frames_ok [OF this assms(2-4), of i] obtain r1 s1 zs where
    "send_frames n v i r s = Inr (r1, s1)" "rd_prefix r1 = rd_prefix r"
    "reader_at (vw_files v (rd_prefix r)) pgs r1 zs" "concat pgs = zs @ rest"
    "sends s (concat (map (\<lambda>d. enc (SigPkg i d)) sent)) s1" "bf_room (sv_wbuf s1) = room" by blast
  with \<open>sees v ps r pgs\<close> show ?thesis
    by (intro exI [of _ r1] exI [of _ s1]) (auto simp: reader_ready_def sees_def comp_def simp del: enc.simps)
qed

lemma sends_readers:
  fixes s t :: "'z signal_server_scheme"
  assumes "sends s bs t"
  shows "ss_readers t = ss_readers s"
proof -
  have "ss_readers (hide_sending u) = ss_readers u" for u :: "'z signal_server_scheme"
    by (simp add: hide_sending_def)
  with assms show ?thesis unfolding sends_def by metis
qed

lemma try_readers_ok:
  assumes "\<forall>k < length yss. reader_ready v ps (ss_readers s ! (i + k)) (pgs (i + k)) (snd (yss ! k)) \<and>
      fst (yss ! k) = (rd_fd (ss_readers s ! (i + k)) \<or> scan) \<and> length (snd (yss ! k)) < n"
    and "i + length yss \<le> length (ss_readers s)" "bf_ok (sv_wbuf s)"
    and "serve_plan (unat (bf_size (sv_wbuf s))) (bf_room (sv_wbuf s)) yss = Some (plans, room)"
  shows "\<exists>s1. try_readers n v scan i (length yss) s = Inr s1 \<and> bf_ok (sv_wbuf s1) \<and>
    bf_size (sv_wbuf s1) = bf_size (sv_wbuf s) \<and>
    bf_data (sv_wbuf s1) = bf_data (sv_wbuf s) @ concat (map enc (plan_pkgs i plans)) \<and>
    length (ss_readers s1) = length (ss_readers s) \<and> (\<forall>j < i. ss_readers s1 ! j = ss_readers s ! j) \<and>
    (\<forall>k < length yss. rd_prefix (ss_readers s1 ! (i + k)) = rd_prefix (ss_readers s ! (i + k)) \<and>
       reader_ready v ps (ss_readers s1 ! (i + k)) (pgs (i + k)) (snd (plans ! k)))"
  using assms
proof (induction yss arbitrary: i s plans)
  case Nil
  then show ?case by simp
next
  case (Cons y yss)
  obtain go ys where y: "y = (go, ys)" by (cases y)
  have now: "reader_ready v ps (ss_readers s ! i) (pgs i) ys" "go = (rd_fd (ss_readers s ! i) \<or> scan)"
      "length ys < n" "i < length (ss_readers s)"
    using Cons.prems(1,2) y by (auto dest: spec [of _ 0])
  have later: "reader_ready v ps (ss_readers s ! (Suc i + k)) (pgs (Suc i + k)) (snd (yss ! k)) \<and>
      fst (yss ! k) = (rd_fd (ss_readers s ! (Suc i + k)) \<or> scan) \<and> length (snd (yss ! k)) < n"
    if "k < length yss" for k using Cons.prems(1) that by (auto dest: spec [of _ "Suc k"])
  obtain sent rest room1 plans1 where plan:
      "(if go then send_plan (unat (bf_size (sv_wbuf s))) (bf_room (sv_wbuf s)) ys = Some (sent, rest, room1)
        else sent = [] \<and> rest = ys \<and> room1 = bf_room (sv_wbuf s))"
      "serve_plan (unat (bf_size (sv_wbuf s))) room1 yss = Some (plans1, room)" "plans = (sent, rest) # plans1"
    using Cons.prems(4) y by (cases go) (auto split: option.splits)
  have "\<exists>s1. (if \<not> rd_fd (ss_readers s ! i) \<and> \<not> scan then Inr s
        else res_bind (send_frames n v i (ss_readers s ! i) s) (\<lambda>(r, s1).
          Inr (s1\<lparr>ss_readers := (ss_readers s1)[i := r]\<rparr>))) = Inr s1 \<and> bf_ok (sv_wbuf s1) \<and>
      bf_size (sv_wbuf s1) = bf_size (sv_wbuf s) \<and> bf_room (sv_wbuf s1) = room1 \<and>
      bf_data (sv_wbuf s1) = bf_data (sv_wbuf s) @ concat (map enc (map (SigPkg i) sent)) \<and>
      (\<exists>r. ss_readers s1 = (ss_readers s)[i := r] \<and> rd_prefix r = rd_prefix (ss_readers s ! i) \<and>
         reader_ready v ps r (pgs i) rest)"
  proof (cases go)
    case False
    then show ?thesis using plan(1) now Cons.prems(3) by (auto intro!: exI [of _ s] exI [of _ "ss_readers s ! i"])
  next
    case True
    with plan(1) have "send_plan (unat (bf_size (sv_wbuf s))) (bf_room (sv_wbuf s)) ys = Some (sent, rest, room1)" by simp
    from send_ready [OF now(1) Cons.prems(3) now(3) this, of i] obtain r1 s1 where
      r1: "send_frames n v i (ss_readers s ! i) s = Inr (r1, s1)" "rd_prefix r1 = rd_prefix (ss_readers s ! i)"
        "reader_ready v ps r1 (pgs i) rest" "sends s (concat (map enc (map (SigPkg i) sent))) s1"
        "bf_room (sv_wbuf s1) = room1" by blast
    with True now(2) sends_buf [OF r1(4)] sends_readers [OF r1(4)] show ?thesis
      by (intro exI [of _ "s1\<lparr>ss_readers := (ss_readers s1)[i := r1]\<rparr>"]) auto
  qed
  then obtain s1 r where s1: "(if \<not> rd_fd (ss_readers s ! i) \<and> \<not> scan then Inr s
        else res_bind (send_frames n v i (ss_readers s ! i) s) (\<lambda>(r, s1).
          Inr (s1\<lparr>ss_readers := (ss_readers s1)[i := r]\<rparr>))) = Inr s1" "bf_ok (sv_wbuf s1)"
      "bf_size (sv_wbuf s1) = bf_size (sv_wbuf s)" "bf_room (sv_wbuf s1) = room1"
      "bf_data (sv_wbuf s1) = bf_data (sv_wbuf s) @ concat (map enc (map (SigPkg i) sent))"
      "ss_readers s1 = (ss_readers s)[i := r]" "rd_prefix r = rd_prefix (ss_readers s ! i)"
      "reader_ready v ps r (pgs i) rest" by blast
  have "serve_plan (unat (bf_size (sv_wbuf s1))) (bf_room (sv_wbuf s1)) yss = Some (plans1, room)"
    using plan(2) s1(3,4) by simp
  with Cons.IH [of s1 "Suc i" plans1] later Cons.prems(2) s1(2,6) obtain s2 where
    s2: "try_readers n v scan (Suc i) (length yss) s1 = Inr s2" "bf_ok (sv_wbuf s2)"
      "bf_size (sv_wbuf s2) = bf_size (sv_wbuf s1)"
      "bf_data (sv_wbuf s2) = bf_data (sv_wbuf s1) @ concat (map enc (plan_pkgs (Suc i) plans1))"
      "length (ss_readers s2) = length (ss_readers s1)" "\<forall>j < Suc i. ss_readers s2 ! j = ss_readers s1 ! j"
      "\<forall>k < length yss. rd_prefix (ss_readers s2 ! (Suc i + k)) = rd_prefix (ss_readers s1 ! (Suc i + k)) \<and>
        reader_ready v ps (ss_readers s2 ! (Suc i + k)) (pgs (Suc i + k)) (snd (plans1 ! k))" by auto
  have each: "rd_prefix (ss_readers s2 ! (i + k)) = rd_prefix (ss_readers s ! (i + k)) \<and>
      reader_ready v ps (ss_readers s2 ! (i + k)) (pgs (i + k)) (snd (plans ! k))" if "k < length (y # yss)" for k
  proof (cases k)
    case 0
    with s2(6) s1(6-8) now(4) plan(3) show ?thesis by simp
  next
    case (Suc j)
    with s2(7) that s1(6) plan(3) show ?thesis by auto
  qed
  have "try_readers n v scan i (length (y # yss)) s = Inr s2" using s1(1) s2(1) by simp
  moreover have "bf_data (sv_wbuf s2) = bf_data (sv_wbuf s) @ concat (map enc (plan_pkgs i plans))"
    using s2(4) s1(5) plan(3) by simp
  moreover have "\<forall>j < i. ss_readers s2 ! j = ss_readers s ! j" using s2(6) s1(6) by simp
  ultimately show ?case using s2(2,3,5) s1(3,6) each by (intro exI [of _ s2]) simp
qed

lemma serve_plan_split:
  "serve_plan sz room yss = Some (plans, room1) \<Longrightarrow> room \<le> sz \<Longrightarrow>
   length plans = length yss \<and> (\<forall>k < length yss. \<exists>c. snd (yss ! k) = c @ snd (plans ! k) \<and>
     fst (plans ! k) = filter (fits sz) c)"
proof (induction yss arbitrary: room plans)
  case (Cons y yss)
  obtain go ys where y: "y = (go, ys)" by (cases y)
  obtain sent rest room2 plans1 where plan:
      "(if go then send_plan sz room ys = Some (sent, rest, room2) else sent = [] \<and> rest = ys \<and> room2 = room)"
      "serve_plan sz room2 yss = Some (plans1, room1)" "plans = (sent, rest) # plans1"
    using Cons.prems(1) y by (cases go) (auto split: option.splits)
  have one: "\<exists>c. ys = c @ rest \<and> sent = filter (fits sz) c \<and> room2 \<le> sz"
  proof (cases go)
    case True
    with plan(1) send_plan_split [of sz room ys sent rest room2] Cons.prems(2) show ?thesis by (simp add: fits_def [abs_def])
  next
    case False
    with plan(1) Cons.prems(2) show ?thesis by (intro exI [of _ "[]"]) simp
  qed
  with Cons.IH [OF plan(2)] have len: "length plans1 = length yss"
    and IH: "\<forall>k < length yss. \<exists>c. snd (yss ! k) = c @ snd (plans1 ! k) \<and> fst (plans1 ! k) = filter (fits sz) c"
    by auto
  have "\<exists>c. snd ((y # yss) ! k) = c @ snd (plans ! k) \<and> fst (plans ! k) = filter (fits sz) c"
    if "k < length (y # yss)" for k
    using one IH that y plan(3) by (cases k) auto
  with len plan(3) show ?case by simp
qed simp

lemma fold_log_one:
  "i < length want \<Longrightarrow> fold log_pkg (map (SigPkg i) ds) want = want[i := want ! i @ ds]"
  by (induction ds arbitrary: want) simp_all

lemma fold_log_plan:
  "i + length plans \<le> length want \<Longrightarrow>
   fold log_pkg (plan_pkgs i plans) want =
     map (\<lambda>j. want ! j @ (if i \<le> j \<and> j < i + length plans then fst (plans ! (j - i)) else [])) [0..<length want]"
proof (induction plans arbitrary: i want)
  case Nil
  then show ?case by (auto intro!: nth_equalityI)
next
  case (Cons p plans)
  obtain sent rest where p: "p = (sent, rest)" by (cases p)
  let ?w = "want[i := want ! i @ sent]"
  have i: "i < length want" using Cons.prems by simp
  have "fold log_pkg (plan_pkgs i (p # plans)) want = fold log_pkg (plan_pkgs (Suc i) plans) ?w"
    using fold_log_one [OF i] by (simp add: p)
  also have "\<dots> = map (\<lambda>j. ?w ! j @ (if Suc i \<le> j \<and> j < Suc i + length plans then fst (plans ! (j - Suc i)) else []))
      [0..<length ?w]" using Cons.prems by (intro Cons.IH) simp
  also have "\<dots> = map (\<lambda>j. want ! j @ (if i \<le> j \<and> j < i + length (p # plans) then fst ((p # plans) ! (j - i)) else []))
      [0..<length want]"
  proof (rule nth_equalityI)
    fix j assume "j < length (map (\<lambda>j. ?w ! j @ (if Suc i \<le> j \<and> j < Suc i + length plans then fst (plans ! (j - Suc i)) else []))
      [0..<length ?w])"
    then have j: "j < length want" by simp
    have "j = i \<or> j < i \<or> Suc i \<le> j" by linarith
    then show "map (\<lambda>j. ?w ! j @ (if Suc i \<le> j \<and> j < Suc i + length plans then fst (plans ! (j - Suc i)) else []))
        [0..<length ?w] ! j =
      map (\<lambda>j. want ! j @ (if i \<le> j \<and> j < i + length (p # plans) then fst ((p # plans) ! (j - i)) else []))
        [0..<length want] ! j"
    proof (elim disjE)
      assume "Suc i \<le> j"
      then obtain k where "j = Suc i + k" using le_Suc_ex by blast
      with j show ?thesis by simp
    qed (use j p in simp_all)
  qed simp
  finally show ?case .
qed

lemma plan_pkgs_fit:
  assumes "i + length plans \<le> n" "\<forall>k < length plans. \<forall>d \<in> set (fst (plans ! k)). fits sz d"
  shows "\<forall>m \<in> set (plan_pkgs i plans). pkg_fits n sz m"
  using assms
proof (induction plans arbitrary: i)
  case (Cons p plans)
  obtain sent rest where p: "p = (sent, rest)" by (cases p)
  have "\<forall>k < length plans. \<forall>d \<in> set (fst (plans ! k)). fits sz d" using Cons.prems(2) by (auto dest: spec [of _ "Suc _"])
  with Cons.IH [of "Suc i"] Cons.prems p show ?case by (auto simp: fits_def dest: spec [of _ 0])
qed simp

section \<open>Every step keeps it\<close>

subsection \<open>Publishing\<close>

lemma source_publish:
  assumes s: "source_at ps name w r pub seen" and env: "grants env"
    and room: "PAGE_HEAD_SIZE + FRAME_HEAD_SIZE + int (length d) \<le> ps"
  shows "\<exists>w1. CRawIOWriter_write 2 env d (int (length d)) nano w = Inr (True, w1) \<and>
    source_at ps name w1 r (pub @ [d]) seen"
proof -
  from s obtain pgs skip where p: "writer_at ps Ready w pgs" "concat pgs = skip @ pub"
      "reader_at (wr_files w) pgs r (skip @ take seen pub)" by (auto simp: source_at_def)
  from write_ok [OF p(1) env _ room, of 0 d nano] obtain w1 pgs1 where
    w1: "CRawIOWriter_write 2 env d (int (length d)) nano w = Inr (True, w1)" "writer_at ps Ready w1 pgs1"
      "concat pgs1 = concat pgs @ [d]" "keeps_readers (wr_files w) pgs (wr_files w1) pgs1"
    by (auto simp: numeral_2_eq_2)
  have "sized (wr_files w1)" using sized_write [OF _ refl w1(1)] s by (simp add: source_at_def)
  moreover have "reader_at (wr_files w1) pgs1 r (skip @ take seen (pub @ [d]))"
    using w1(4) p(3) s by (simp add: keeps_readers_def source_at_def)
  ultimately show ?thesis using w1(1-3) p(2) s unfolding source_at_def by auto
qed

subsection \<open>Serving\<close>

lemma view_files:
  assumes "distinct names" "length srcs = length names" "i < length names"
  shows "vw_files (view_all names srcs) (SIGNAL_BASE_DIR @ names ! i) = wr_files (srcs ! i)"
proof -
  let ?ks = "map (\<lambda>n. SIGNAL_BASE_DIR @ n) names" and ?fs = "map wr_files srcs"
  have "distinct ?ks" using assms(1) by (simp add: distinct_map inj_on_def)
  then have "map_of (zip ?ks ?fs) (?ks ! i) = Some (?fs ! i)" using assms by (intro map_of_zip_nth) simp_all
  with assms(2,3) show ?thesis by (simp add: view_all_def files_of_def)
qed

lemma drop_split:
  assumes "drop k xs = c @ rest"
  shows "xs = (take k xs @ c) @ rest" "take (length xs - length rest) xs = take k xs @ c"
proof -
  have "take k xs @ drop k xs = xs" by simp
  then show e: "xs = (take k xs @ c) @ rest" unfolding assms by simp
  have "take (length (a @ rest) - length rest) (a @ rest) = a" for a by simp
  from this [of "take k xs @ c", folded e] show "take (length xs - length rest) xs = take k xs @ c" .
qed

lemma source_ready:
  assumes s: "source_at ps name w r pub seen"
    and v: "vw_files v (SIGNAL_BASE_DIR @ name) = wr_files w" "\<forall>n. vw_open v (SIGNAL_BASE_DIR @ name) n"
  shows "\<exists>pgs. reader_ready v ps r pgs (drop seen pub) \<and>
    (\<forall>r1 c rest. rd_prefix r1 = rd_prefix r \<longrightarrow> reader_ready v ps r1 pgs rest \<longrightarrow> drop seen pub = c @ rest \<longrightarrow>
       source_at ps name w r1 pub (length pub - length rest))"
proof -
  from s obtain pgs skip where p: "writer_at ps Ready w pgs" "concat pgs = skip @ pub"
      "reader_at (wr_files w) pgs r (skip @ take seen pub)" "ps < 2 ^ 31" "sized (wr_files w)"
      "rd_prefix r = SIGNAL_BASE_DIR @ name" "seen \<le> length pub" by (auto simp: source_at_def)
  have "reader_ready v ps r pgs (drop seen pub)"
    unfolding reader_ready_def sees_def
    using p v writer_atD(1) [OF p(1)] by (auto intro!: exI [of _ "skip @ take seen pub"])
  moreover have "source_at ps name w r1 pub (length pub - length rest)"
    if r1: "rd_prefix r1 = rd_prefix r" "reader_ready v ps r1 pgs rest" "drop seen pub = c @ rest" for r1 c rest
  proof -
    note pub = drop_split [OF r1(3)]
    obtain xs where xs: "reader_at (wr_files w) pgs r1 xs" "concat pgs = xs @ rest"
      using r1(1,2) p(6) v(1) by (auto simp: reader_ready_def)
    have "skip @ pub = xs @ rest" using p(2) xs(2) by simp
    then have "xs = skip @ take seen pub @ c" using pub(1) by (metis append.assoc append_same_eq)
    then show ?thesis using p r1(1) xs(1) pub(2) unfolding source_at_def
      by (auto intro!: exI [of _ pgs] exI [of _ skip])
  qed
  ultimately show ?thesis by blast
qed

lemma unread_short: "i < length (gw_pub w) \<Longrightarrow> length (unread w i) < unread_fuel w"
proof -
  assume i: "i < length (gw_pub w)"
  then have "length (gw_pub w ! i) \<le> sum_list (map length (gw_pub w))"
    by (intro member_le_sum_list) auto
  then show ?thesis by (simp add: unread_def unread_fuel_def)
qed

lemma serve_inv:
  assumes inv: "sig_inv names ps sz w" and names: "distinct names" "length names < 2 ^ 32"
    and plan: "plan_of scan w \<noteq> None"
  shows "\<exists>t. sig_step senv renv cenv names (Serve scan) w = Inr t \<and> sig_inv names ps sz t"
proof -
  let ?n = "length names" and ?s = "gw_srv w" and ?v = "view_all names (gw_src w)"
  let ?y = "\<lambda>i. (rd_fd (ss_readers ?s ! i) \<or> scan, unread w i)"
  let ?yss = "map ?y [0..<?n]"
  have I: "length (gw_src w) = ?n" "length (gw_pub w) = ?n" "length (gw_seen w) = ?n" "length (ss_readers ?s) = ?n"
      "bf_ok (sv_wbuf ?s)" "unat (bf_size (sv_wbuf ?s)) = sz"
      "\<forall>i < ?n. source_at ps (names ! i) (gw_src w ! i) (ss_readers ?s ! i) (gw_pub w ! i) (gw_seen w ! i)"
    using inv by (simp_all add: sig_inv_def)
  from plan I(1) obtain plans room where pl: "plan_of scan w = Some (plans, room)"
      "serve_plan sz (bf_room (sv_wbuf ?s)) ?yss = Some (plans, room)"
    by (auto simp: plan_of_def I(6))
  have "bf_room (sv_wbuf ?s) \<le> sz" by (simp add: bf_room_def I(6))
  from serve_plan_split [OF pl(2) this] have lp: "length plans = ?n"
    and sp: "\<And>i. i < ?n \<Longrightarrow> \<exists>c. unread w i = c @ snd (plans ! i) \<and> fst (plans ! i) = filter (fits sz) c"
    by auto
  have "\<forall>i. \<exists>pgs. i < ?n \<longrightarrow> reader_ready ?v ps (ss_readers ?s ! i) pgs (unread w i) \<and>
      (\<forall>r1 c rest. rd_prefix r1 = rd_prefix (ss_readers ?s ! i) \<longrightarrow> reader_ready ?v ps r1 pgs rest \<longrightarrow>
         unread w i = c @ rest \<longrightarrow>
         source_at ps (names ! i) (gw_src w ! i) r1 (gw_pub w ! i) (length (gw_pub w ! i) - length rest))"
  proof
    fix i show "\<exists>pgs. i < ?n \<longrightarrow> reader_ready ?v ps (ss_readers ?s ! i) pgs (unread w i) \<and>
      (\<forall>r1 c rest. rd_prefix r1 = rd_prefix (ss_readers ?s ! i) \<longrightarrow> reader_ready ?v ps r1 pgs rest \<longrightarrow>
         unread w i = c @ rest \<longrightarrow>
         source_at ps (names ! i) (gw_src w ! i) r1 (gw_pub w ! i) (length (gw_pub w ! i) - length rest))"
    proof (cases "i < ?n")
      case True
      have "\<forall>n. vw_open ?v (SIGNAL_BASE_DIR @ names ! i) n" by (simp add: view_all_def)
      from source_ready [OF I(7) [rule_format, OF True] view_files [OF names(1) I(1) True] this]
      show ?thesis unfolding unread_def by blast
    qed blast
  qed
  then obtain P where P: "\<And>i. i < ?n \<Longrightarrow> reader_ready ?v ps (ss_readers ?s ! i) (P i) (unread w i)"
    "\<And>i r1 c rest. i < ?n \<Longrightarrow> rd_prefix r1 = rd_prefix (ss_readers ?s ! i) \<Longrightarrow> reader_ready ?v ps r1 (P i) rest \<Longrightarrow>
         unread w i = c @ rest \<Longrightarrow>
         source_at ps (names ! i) (gw_src w ! i) r1 (gw_pub w ! i) (length (gw_pub w ! i) - length rest)"
    by metis
  have pre: "\<forall>k < length ?yss. reader_ready ?v ps (ss_readers ?s ! (0 + k)) (P (0 + k)) (snd (?yss ! k)) \<and>
      fst (?yss ! k) = (rd_fd (ss_readers ?s ! (0 + k)) \<or> scan) \<and> length (snd (?yss ! k)) < unread_fuel w"
    using P(1) unread_short I(2) by simp
  have "0 + length ?yss \<le> length (ss_readers ?s)" using I(4) by simp
  from try_readers_ok [OF pre this I(5)] pl(2) I(6) obtain s1 where
    s1: "CSignalServer_tryRead (unread_fuel w) ?v scan ?s = Inr s1" "bf_ok (sv_wbuf s1)"
      "bf_size (sv_wbuf s1) = bf_size (sv_wbuf ?s)"
      "bf_data (sv_wbuf s1) = bf_data (sv_wbuf ?s) @ concat (map enc (plan_pkgs 0 plans))"
      "length (ss_readers s1) = ?n"
      "\<And>i. i < ?n \<Longrightarrow> rd_prefix (ss_readers s1 ! i) = rd_prefix (ss_readers ?s ! i) \<and>
        reader_ready ?v ps (ss_readers s1 ! i) (P i) (snd (plans ! i))"
    by (auto simp: CSignalServer_tryRead_def I(4))
  define seen where "seen = map (\<lambda>i. length (gw_pub w ! i) - length (snd (plans ! i))) [0..<length plans]"
  let ?t = "w\<lparr>gw_srv := s1, gw_seen := seen\<rparr>"
  have step: "sig_step senv renv cenv names (Serve scan) w = Inr ?t" using s1(1) pl(1) by (simp add: seen_def)
  have src: "source_at ps (names ! i) (gw_src w ! i) (ss_readers s1 ! i) (gw_pub w ! i) (seen ! i)" if "i < ?n" for i
    using sp [OF that] s1(6) [OF that] P(2) [OF that] that lp by (auto simp: seen_def)
  let ?want = "\<lambda>sn. map (\<lambda>i. filter (fits sz) (take (sn ! i) (gw_pub w ! i))) [0..<?n]"
  have want: "fold log_pkg (plan_pkgs 0 plans) (?want (gw_seen w)) = ?want seen"
  proof -
    have "filter (fits sz) (take (gw_seen w ! i) (gw_pub w ! i)) @ fst (plans ! i) =
        filter (fits sz) (take (seen ! i) (gw_pub w ! i))" if i: "i < ?n" for i
    proof -
      from sp [OF i] obtain c where c: "unread w i = c @ snd (plans ! i)" "fst (plans ! i) = filter (fits sz) c" by blast
      have "take (seen ! i) (gw_pub w ! i) = take (gw_seen w ! i) (gw_pub w ! i) @ c"
        using drop_split(2) [OF c(1) [unfolded unread_def]] i lp by (simp add: seen_def)
      with c(2) show ?thesis by simp
    qed
    moreover have "fold log_pkg (plan_pkgs 0 plans) (?want (gw_seen w)) =
        map (\<lambda>j. ?want (gw_seen w) ! j @ (if 0 \<le> j \<and> j < 0 + length plans then fst (plans ! (j - 0)) else []))
          [0..<length (?want (gw_seen w))]"
      by (rule fold_log_plan) (simp add: lp)
    ultimately show ?thesis using lp by (auto intro!: nth_equalityI)
  qed
  have "\<forall>m \<in> set (plan_pkgs 0 plans). pkg_fits ?n sz m"
  proof (rule plan_pkgs_fit)
    show "\<forall>k < length plans. \<forall>d \<in> set (fst (plans ! k)). fits sz d" using sp lp by fastforce
  qed (simp add: lp)
  note fit = this
  have "stream_at SIGNAL_PAGE_SIZE ?n sz (gw_req w) (gw_net w @ bf_data (sv_wbuf ?s)) (?want (gw_seen w))"
    using inv unfolding sig_inv_def by blast
  from stream_more [OF this fit, unfolded want append_assoc, folded s1(4)]
  have stream: "stream_at SIGNAL_PAGE_SIZE ?n sz (gw_req w) (gw_net w @ bf_data (sv_wbuf s1)) (?want seen)" .
  have "length seen = ?n" by (simp add: seen_def lp)
  with stream have "sig_inv names ps sz ?t"
    using inv src s1(2,3,5) unfolding sig_inv_def by simp
  with step show ?thesis by blast
qed

lemma publish_inv:
  assumes inv: "sig_inv names ps sz w" and env: "grants senv"
    and legal: "i < length (gw_src w)" "PAGE_HEAD_SIZE + FRAME_HEAD_SIZE + int (length d) \<le> ps"
  shows "\<exists>t. sig_step senv renv cenv names (Publish i d nano) w = Inr t \<and> sig_inv names ps sz t"
proof -
  have I: "length (gw_src w) = length names" "length (gw_pub w) = length names"
      "\<forall>i < length names. source_at ps (names ! i) (gw_src w ! i) (ss_readers (gw_srv w) ! i) (gw_pub w ! i) (gw_seen w ! i)"
    using inv by (simp_all add: sig_inv_def)
  have at: "source_at ps (names ! i) (gw_src w ! i) (ss_readers (gw_srv w) ! i) (gw_pub w ! i) (gw_seen w ! i)"
    using I legal(1) by simp
  from source_publish [OF at env legal(2), of nano] obtain w1 where
    w1: "CRawIOWriter_write 2 senv d (int (length d)) nano (gw_src w ! i) = Inr (True, w1)"
      "source_at ps (names ! i) w1 (ss_readers (gw_srv w) ! i) (gw_pub w ! i @ [d]) (gw_seen w ! i)" by blast
  let ?pub = "(gw_pub w)[i := gw_pub w ! i @ [d]]"
  have "take (gw_seen w ! j) (?pub ! j) = take (gw_seen w ! j) (gw_pub w ! j)" if "j < length names" for j
    using at that by (cases "j = i") (simp_all add: source_at_def I(2))
  then have same: "map (\<lambda>j. filter (fits sz) (take (gw_seen w ! j) (?pub ! j))) [0..<length names] =
      map (\<lambda>j. filter (fits sz) (take (gw_seen w ! j) (gw_pub w ! j))) [0..<length names]" by simp
  have "source_at ps (names ! j) ((gw_src w)[i := w1] ! j) (ss_readers (gw_srv w) ! j) (?pub ! j) (gw_seen w ! j)"
    if "j < length names" for j
    using w1(2) I that by (cases "j = i") simp_all
  note src = this
  have "stream_at SIGNAL_PAGE_SIZE (length names) sz (gw_req w) (gw_net w @ bf_data (sv_wbuf (gw_srv w)))
      (map (\<lambda>j. filter (fits sz) (take (gw_seen w ! j) (?pub ! j))) [0..<length names])"
    using inv unfolding sig_inv_def same by blast
  with inv src have "sig_inv names ps sz (w\<lparr>gw_src := (gw_src w)[i := w1], gw_pub := ?pub\<rparr>)"
    unfolding sig_inv_def by simp
  with w1(1) show ?thesis by simp
qed

subsection \<open>Answering heart beats, sending, receiving\<close>

text \<open>A step that gives the server another buffer and leaves its readers.\<close>

lemma server_inv:
  assumes inv: "sig_inv names ps sz w"
    and s: "ss_readers s = ss_readers (gw_srv w)" "bf_ok (sv_wbuf s)" "bf_size (sv_wbuf s) = bf_size (sv_wbuf (gw_srv w))"
    and net: "net @ bf_data (sv_wbuf s) = (gw_net w @ bf_data (sv_wbuf (gw_srv w))) @ concat (map enc ms)"
    and ms: "set ms \<subseteq> {BeatPkg}"
  shows "sig_inv names ps sz (w\<lparr>gw_srv := s, gw_net := net\<rparr>)"
proof -
  let ?want = "map (\<lambda>i. filter (fits sz) (take (gw_seen w ! i) (gw_pub w ! i))) [0..<length names]"
  have st: "stream_at SIGNAL_PAGE_SIZE (length names) sz (gw_req w) (gw_net w @ bf_data (sv_wbuf (gw_srv w))) ?want"
    using inv unfolding sig_inv_def by blast
  have fit: "\<forall>m \<in> set ms. pkg_fits (length names) sz m" using ms by auto
  have same: "fold log_pkg ms logs = logs" for logs using ms by (induction ms) auto
  from stream_more [OF st fit, unfolded same, folded net]
  have "stream_at SIGNAL_PAGE_SIZE (length names) sz (gw_req w) (net @ bf_data (sv_wbuf s)) ?want" .
  with inv s show ?thesis unfolding sig_inv_def by simp
qed

lemma answer_inv:
  assumes inv: "sig_inv names ps sz w" and legal: "take SA_HEAD mem = sa_head SACMD_REQ_HEATBEAT 0"
  shows "\<exists>t. sig_step senv renv cenv names (Answer now mem) w = Inr t \<and> sig_inv names ps sz t"
proof -
  let ?s = "gw_srv w"
  let ?s1 = "?s\<lparr>sv_rbuf := (sv_rbuf ?s)\<lparr>bf_p := mem\<rparr>, ss_alive := now\<rparr>"
  have ok: "bf_ok (sv_wbuf ?s)" using inv by (simp add: sig_inv_def)
  obtain rest where mem: "mem = sa_head SACMD_REQ_HEATBEAT 0 @ rest" using legal by (metis append_take_drop_id)
  have cmd: "mem ! 2 = SACMD_REQ_HEATBEAT" by (simp add: mem sa_head_def)
  let ?bs = "sa_head SACMD_REP_HEATBEAT 0"
  have len: "length ?bs < 2 ^ 32" by (simp add: SA_HEAD_def)
  obtain c where c: "CBuffer_cycleWrite ?bs (sv_wbuf ?s) = Inr (length ?bs < bf_room (sv_wbuf ?s), c)" "bf_ok c"
      "bf_size c = bf_size (sv_wbuf ?s)"
      "bf_data c = (if length ?bs < bf_room (sv_wbuf ?s) then bf_data (sv_wbuf ?s) @ ?bs else bf_data (sv_wbuf ?s))"
    using cycleWrite_ok [OF ok len] by blast
  have ne: "?bs \<noteq> []" by (simp add: sa_head_def)
  define s2 where "s2 = (if length ?bs < bf_room (sv_wbuf ?s) then CSocket_addEvent EV_WRITE (?s1\<lparr>sv_wbuf := c\<rparr>) else ?s1)"
  have s2: "ss_readers s2 = ss_readers ?s" "bf_ok (sv_wbuf s2)" "bf_size (sv_wbuf s2) = bf_size (sv_wbuf ?s)"
    "bf_data (sv_wbuf s2) = bf_data (sv_wbuf ?s) @
       concat (map enc (if length ?bs < bf_room (sv_wbuf ?s) then [BeatPkg] else []))"
    using c(2-4) ok
    by (simp_all add: s2_def CSocket_addEvent_def CSocket_start_def CSocket_stop_def Let_def)
  have "sig_step senv renv cenv names (Answer now mem) w = Inr (w\<lparr>gw_srv := s2\<rparr>)"
    using c(1) cmd ne
    by (simp add: CSignalServer_processPkg_def Let_def sa_consts CService_sendData_def s2_def)
  moreover have "sig_inv names ps sz (w\<lparr>gw_srv := s2, gw_net := gw_net w\<rparr>)"
    by (rule server_inv [OF inv s2(1-3), where ms = "if length ?bs < bf_room (sv_wbuf ?s) then [BeatPkg] else []"])
      (auto simp: s2(4))
  ultimately show ?thesis by simp
qed

lemma stop_events_hides [simp]: "hide_sending (CSocket_stop_events ev s) = hide_sending s"
  "sv_wbuf (CSocket_stop_events ev s) = sv_wbuf s"
  by (simp_all add: CSocket_stop_events_def CSocket_start_def CSocket_stop_def Let_def)

lemma write_loop_ok:
  assumes "bf_ok (sv_wbuf s)" "bf_data (sv_wbuf s) \<noteq> []" "0 \<notin> set ks"
  shows "\<exists>s1 out. write_loop v (map Wrote ks) s sent = Inr (True, s1, sent @ out) \<and> bf_ok (sv_wbuf s1) \<and>
    bf_size (sv_wbuf s1) = bf_size (sv_wbuf s) \<and> bf_data (sv_wbuf s) = out @ bf_data (sv_wbuf s1) \<and>
    hide_sending s1 = hide_sending s"
  using assms
proof (induction ks arbitrary: s sent)
  case (Cons k ks)
  let ?b = "sv_wbuf s"
  define n where "n = min k (length (front_block_of ?b))"
  let ?s1 = "s\<lparr>sv_wbuf := CBuffer_commitRead (word_of_nat n) ?b\<rparr>" and ?out = "take n (front_block_of ?b)"
  have n: "0 < n" "n \<le> length (front_block_of ?b)"
    using ring.block_some [OF Cons.prems(1,2)] Cons.prems(3) by (auto simp: n_def)
  note C = ring.commit [OF Cons.prems(1) n(2)]
  have data: "bf_data ?b = ?out @ bf_data (sv_wbuf ?s1)"
    using C ring.block_front [OF Cons.prems(1) n(2)] by simp
  have size: "bf_size (sv_wbuf ?s1) = bf_size ?b" by (simp add: CBuffer_commitRead_def)
  have ok1: "bf_ok (sv_wbuf ?s1)" using C by simp
  have more: "snd (CBuffer_cycleRead (sv_wbuf ?s1)) > 0 \<longleftrightarrow> bf_data (sv_wbuf ?s1) \<noteq> []"
  proof -
    obtain m where "m = 0 \<longleftrightarrow> bf_data (sv_wbuf ?s1) = []" "unat (snd (CBuffer_cycleRead (sv_wbuf ?s1))) = m"
      using front_block_ok [OF ok1] by metis
    then show ?thesis by (auto simp: word_less_nat_alt)
  qed
  have step: "write_loop v (map Wrote (k # ks)) s sent =
      (if bf_data (sv_wbuf ?s1) \<noteq> [] then write_loop v (map Wrote ks) ?s1 (sent @ ?out)
       else Inr (True, CSocket_stop_events EV_WRITE ?s1, sent @ ?out))"
    by (simp only: list.map write_loop.simps Let_def n_def [symmetric] n(1) if_True more)
  show ?case
  proof (cases "bf_data (sv_wbuf ?s1) = []")
    case True
    with step data ok1 size show ?thesis
      by (intro exI [of _ "CSocket_stop_events EV_WRITE ?s1"] exI [of _ ?out]) simp
  next
    case False
    have "0 \<notin> set ks" using Cons.prems(3) by simp
    from Cons.IH [OF ok1 False this, of "sent @ ?out"] obtain s2 out where
      s2: "write_loop v (map Wrote ks) ?s1 (sent @ ?out) = Inr (True, s2, (sent @ ?out) @ out)" "bf_ok (sv_wbuf s2)"
        "bf_size (sv_wbuf s2) = bf_size (sv_wbuf ?s1)" "bf_data (sv_wbuf ?s1) = out @ bf_data (sv_wbuf s2)"
        "hide_sending s2 = hide_sending ?s1" by blast
    with step False data size show ?thesis
      by (intro exI [of _ s2] exI [of _ "?out @ out"]) simp
  qed
qed simp

lemma flush_inv:
  assumes inv: "sig_inv names ps sz w" and legal: "0 \<notin> set ks"
  shows "\<exists>t. sig_step senv renv cenv names (Flush ks) w = Inr t \<and> sig_inv names ps sz t"
proof -
  let ?s = "gw_srv w" and ?v = "CSignalServer_virtuals (view_all names (gw_src w)) 0 :: signal_server service_virtuals"
  have ok: "bf_ok (sv_wbuf ?s)" using inv by (simp add: sig_inv_def)
  have "\<exists>s1 out. CService_write_cb ?v (map Wrote ks) ?s = Inr (True, s1, out) \<and> bf_ok (sv_wbuf s1) \<and>
      bf_size (sv_wbuf s1) = bf_size (sv_wbuf ?s) \<and> bf_data (sv_wbuf ?s) = out @ bf_data (sv_wbuf s1) \<and>
      hide_sending s1 = hide_sending ?s"
  proof (cases "bf_data (sv_wbuf ?s) = []")
    case True
    then have "CBuffer_len (sv_wbuf ?s) = 0" using bf_okD(5) [OF ok] by (simp add: unat_eq_0)
    with True ok show ?thesis by (simp add: CService_write_cb_def)
  next
    case False
    then have "CBuffer_len (sv_wbuf ?s) > 0"
      using bf_okD(5) [OF ok] by (auto simp: word_neq_0_conv [symmetric])
    with write_loop_ok [OF ok False legal, of ?v "[]"] show ?thesis by (simp add: CService_write_cb_def)
  qed
  then obtain s1 out where s1: "CService_write_cb ?v (map Wrote ks) ?s = Inr (True, s1, out)" "bf_ok (sv_wbuf s1)"
      "bf_size (sv_wbuf s1) = bf_size (sv_wbuf ?s)" "bf_data (sv_wbuf ?s) = out @ bf_data (sv_wbuf s1)"
      "hide_sending s1 = hide_sending ?s" by blast
  have "ss_readers (hide_sending u) = ss_readers u" for u :: signal_server by (simp add: hide_sending_def)
  with s1(5) have r: "ss_readers s1 = ss_readers ?s" by metis
  have "sig_inv names ps sz (w\<lparr>gw_srv := s1, gw_net := gw_net w @ out\<rparr>)"
    by (rule server_inv [OF inv r s1(2,3), where ms = "[]"]) (simp_all add: s1(4))
  with s1(1) show ?thesis by simp
qed

lemma deliver_inv:
  assumes inv: "sig_inv names ps sz w" and env: "grants renv"
    and legal: "[] \<notin> set chunks" "concat chunks = take (length (concat chunks)) (gw_net w)"
  shows "\<exists>t. sig_step senv renv cenv names (Deliver chunks now) w = Inr t \<and> sig_inv names ps sz t"
proof -
  let ?v = "CSignalRequester_virtuals renv cenv now :: signal_requester service_virtuals" and ?q = "gw_req w"
  let ?rest = "drop (length (concat chunks)) (gw_net w)"
  let ?want = "map (\<lambda>i. filter (fits sz) (take (gw_seen w ! i) (gw_pub w ! i))) [0..<length names]"
  have I: "requester_ok SIGNAL_PAGE_SIZE ?q" "length (sq_writers ?q) = length names" "sz \<le> unat (bf_size (sv_rbuf ?q))"
      "stream_at SIGNAL_PAGE_SIZE (length names) sz ?q (gw_net w @ bf_data (sv_wbuf (gw_srv w))) ?want"
    using inv unfolding sig_inv_def by blast+
  have net: "gw_net w @ bf_data (sv_wbuf (gw_srv w)) = concat chunks @ ?rest @ bf_data (sv_wbuf (gw_srv w))"
    using legal(2) by (metis append.assoc append_take_drop_id)
  obtain r msgs where "pending ?q r msgs" using I(4) unfolding stream_at_def by blast
  then have "frame_inv ?q" by (cases msgs) (simp_all add: pending_def collects_def)
  from requester.read_loop_eats [OF this legal(1), of renv cenv now] stream_read [OF I(4) [unfolded net] I(1-3) env, of cenv now]
  obtain t where t: "map_sum id (\<lambda>(go, t, _). (go, t)) (read_loop ?v (need ?q) (map Data chunks) ?q) = Inr (True, t)"
      "stream_at SIGNAL_PAGE_SIZE (length names) sz t (?rest @ bf_data (sv_wbuf (gw_srv w))) ?want"
      "requester_ok SIGNAL_PAGE_SIZE t" "length (sq_writers t) = length names"
      "bf_size (sv_rbuf t) = bf_size (sv_rbuf ?q)" by auto
  from t(1) obtain rest where "CService_read_cb ?v (map Data chunks) ?q = Inr (True, t, rest)"
    by (cases "read_loop ?v (need ?q) (map Data chunks) ?q") (auto simp: CService_read_cb_def need_def)
  then have "sig_step senv renv cenv names (Deliver chunks now) w = Inr (w\<lparr>gw_req := t, gw_net := ?rest\<rparr>)" by simp
  moreover have "sig_inv names ps sz (w\<lparr>gw_req := t, gw_net := ?rest\<rparr>)"
    using inv t(2-5) unfolding sig_inv_def by simp
  ultimately show ?thesis by blast
qed

text \<open>The machine. The names are distinct and the kernels of both hosts grant the files.\<close>

definition sig_world_inv :: "io_env \<Rightarrow> io_env \<Rightarrow> string list \<Rightarrow> int \<Rightarrow> nat \<Rightarrow> sig_world \<Rightarrow> bool" where
  "sig_world_inv senv renv names ps sz w \<longleftrightarrow>
     grants senv \<and> grants renv \<and> distinct names \<and> length names < 2 ^ 32 \<and> sig_inv names ps sz w"

interpretation signals: guarded_machine "sig_step senv renv cenv names" "sig_legal ps"
    "sig_world_inv senv renv names ps sz"
proof
  fix w e
  assume "sig_world_inv senv renv names ps sz w" and legal: "sig_legal ps e w"
  then have W: "grants senv" "grants renv" "distinct names" "length names < 2 ^ 32" "sig_inv names ps sz w"
    by (simp_all add: sig_world_inv_def)
  have "\<exists>t. sig_step senv renv cenv names e w = Inr t \<and> sig_inv names ps sz t"
  proof (cases e)
    case (Publish i d nano)
    with legal publish_inv [OF W(5,1)] show ?thesis by simp
  next
    case (Serve scan)
    with legal serve_inv [OF W(5,3,4)] show ?thesis by simp
  next
    case (Answer now mem)
    with legal answer_inv [OF W(5)] show ?thesis by simp
  next
    case (Flush ks)
    with legal flush_inv [OF W(5)] show ?thesis by simp
  next
    case (Deliver chunks now)
    with legal deliver_inv [OF W(5,2)] show ?thesis by (simp del: sig_step.simps)
  qed
  with W show "\<exists>t. sig_step senv renv cenv names e w = Inr t \<and> sig_world_inv senv renv names ps sz t"
    by (auto simp: sig_world_inv_def)
qed

section \<open>The start has it\<close>

lemma init_sized:
  assumes "CRawIOWriter_init env nano (CRawIOWriter_new ps t []) = Inr (b, w)"
  shows "sized (wr_files w)"
proof -
  let ?w = "CRawIOWriter_new ps t [] :: byte list io_writer"
  have "wr_files (CIOBase_unload ?w) = []" by (simp add: CRawIOWriter_new_def)
  then have c: "CRawIOWriter_createNextPage env nano ((CIOBase_unload ?w)\<lparr>wr_page_num := -1\<rparr>) = (b, w)"
    using assms by (simp add: CRawIOWriter_init_def Let_def CIOBase_getTailNum_def)
  show ?thesis by (rule sized_create [OF _ c]) (simp add: CRawIOWriter_new_def sized_def)
qed

lemma fresh_writer:
  assumes "PAGE_HEAD_SIZE \<le> ps" "ps < 2 ^ 31" "grants env"
  shows "\<exists>w. CRawIOWriter_init env nano (CRawIOWriter_new ps t []) = Inr (True, w) \<and>
    writer_at ps Ready w [[]] \<and> sized (wr_files w) \<and> wr_fd w"
proof -
  from writer_init_ok [OF assms, of nano t] obtain w :: "byte list io_writer" where
    w: "CRawIOWriter_init env nano (CRawIOWriter_new ps t []) = Inr (True, w)" "writer_at ps Ready w [[]]" by blast
  moreover have "wr_fd w" using writer_atD(4) [OF w(2)] by (auto simp: open_at_def)
  ultimately show ?thesis using init_sized by blast
qed

lemma write_all_ok:
  assumes "writer_at ps Ready w pgs" "sized (wr_files w)" "grants env"
    and "\<forall>d \<in> set ds. PAGE_HEAD_SIZE + FRAME_HEAD_SIZE + int (length d) \<le> ps"
  shows "\<exists>w1 pgs1. write_all env nano ds w = Inr w1 \<and> writer_at ps Ready w1 pgs1 \<and> sized (wr_files w1) \<and>
    concat pgs1 = concat pgs @ ds"
  using assms
proof (induction ds arbitrary: w pgs)
  case (Cons d ds)
  have room: "PAGE_HEAD_SIZE + FRAME_HEAD_SIZE + int (length d) \<le> ps" using Cons.prems(4) by simp
  from write_ok [OF Cons.prems(1,3) _ room, of 0 d nano] obtain w1 pgs1 where
    w1: "CRawIOWriter_write 2 env d (int (length d)) nano w = Inr (True, w1)" "writer_at ps Ready w1 pgs1"
      "concat pgs1 = concat pgs @ [d]" by (auto simp: numeral_2_eq_2)
  from Cons.IH [OF w1(2) sized_write [OF Cons.prems(2) refl w1(1)] Cons.prems(3)] Cons.prems(4) w1
  show ?case by simp
qed auto

definition source_ok :: "int \<Rightarrow> byte list io_writer \<Rightarrow> byte list list \<Rightarrow> bool" where
  "source_ok ps w ds \<longleftrightarrow> sized (wr_files w) \<and> (\<exists>pgs. writer_at ps Ready w pgs \<and> concat pgs = ds)"

lemma open_sources_ok:
  assumes "PAGE_HEAD_SIZE \<le> ps" "ps < 2 ^ 31" "grants env"
    and "\<forall>ds \<in> set dss. \<forall>d \<in> set ds. PAGE_HEAD_SIZE + FRAME_HEAD_SIZE + int (length d) \<le> ps"
  shows "\<exists>ws. open_sources env ps nano dss = Inr ws \<and> list_all2 (source_ok ps) ws dss"
  using assms(4)
proof (induction dss)
  case (Cons ds dss)
  obtain w where w: "CRawIOWriter_init env nano (CRawIOWriter_new ps True []) = Inr (True, w)"
      "writer_at ps Ready w [[]]" "sized (wr_files w)"
    using fresh_writer [OF assms(1-3), of nano True] by blast
  from write_all_ok [OF w(2,3) assms(3)] Cons.prems obtain w1 pgs1 where
    w1: "write_all env nano ds w = Inr w1" "writer_at ps Ready w1 pgs1" "sized (wr_files w1)" "concat pgs1 = ds"
    by fastforce
  with Cons w(1) show ?case by (auto simp: source_ok_def)
qed simp

lemma attach_path:
  assumes w: "writer_at ps Ready w pgs" and v: "vw_files v path = wr_files w" "\<forall>n. vw_open v path n"
  shows "\<exists>r. CRawIOReader_init v path (-1) (-1) CRawIOReader_new = Inr (True, r) \<and> rd_prefix r = path \<and>
    reader_at (wr_files w) pgs r (concat pgs)"
proof -
  let ?u = "view_of (vw_zero v) (\<lambda>_. True) (wr_files w)"
  from attach_ok [OF w, of "vw_zero v" path] obtain r where
    r: "CRawIOReader_init ?u path (-1) (-1) CRawIOReader_new = Inr (True, r)" "reader_at (wr_files w) pgs r (concat pgs)"
    by blast
  have "CRawIOReader_init v path (-1) (-1) CRawIOReader_new = CRawIOReader_init ?u path (-1) (-1) CRawIOReader_new"
    by (simp add: CRawIOReader_init_def CRawIOReader_load_def CRawIOReader_seekTime.simps [of v "-1"]
        CRawIOReader_seekTime.simps [of ?u "-1"] rd_tail_def rd_page_def v Let_def rd_unload_def CRawIOReader_new_def
        split: option.split)
  moreover have "rd_prefix r = path"
    using r(1) by (auto simp: CRawIOReader_init_def CRawIOReader_load_def CRawIOReader_seekTime.simps [of ?u "-1"]
        rd_tail_def res_bind_Inr_iff rd_unload_def Let_def split: option.splits if_splits)
  ultimately show ?thesis using r by metis
qed

lemma str_bytes_no_null: "CHR 0x00 \<notin> set s \<Longrightarrow> 0 \<notin> set (str_bytes s)"
proof
  assume s: "CHR 0x00 \<notin> set s" "0 \<in> set (str_bytes s)"
  then obtain c where c: "c \<in> set s" "(word_of_nat (of_char c) :: byte) = 0" by (auto simp: str_bytes_def)
  then have "of_char c mod 256 = (0::nat)" by (simp only: word_of_nat_eq_0_iff mod_eq_0_iff_dvd) simp
  then have "of_char c = (0::nat)" by (simp only: of_char_mod_256)
  then have "char_of (of_char c :: nat) = CHR 0x00" by (simp add: char_of_def)
  then have "c = CHR 0x00" by simp
  with s c show False by simp
qed

lemma take_name:
  assumes "CHR 0x00 \<notin> set n"
  shows "0 \<in> set (str_bytes n @ 0 # bs)" "takeWhile (\<lambda>b. b \<noteq> 0) (str_bytes n @ 0 # bs) = str_bytes n"
    "tl (dropWhile (\<lambda>b. b \<noteq> 0) (str_bytes n @ 0 # bs)) = bs"
proof -
  have "\<forall>b \<in> set (str_bytes n). b \<noteq> 0" using str_bytes_no_null [OF assms] by metis
  then show "takeWhile (\<lambda>b. b \<noteq> 0) (str_bytes n @ 0 # bs) = str_bytes n"
    "tl (dropWhile (\<lambda>b. b \<noteq> 0) (str_bytes n @ 0 # bs)) = bs"
    by (simp_all add: takeWhile_append dropWhile_append)
qed simp

lemma add_readers_ok:
  assumes "\<forall>n \<in> set ns. CHR 0x00 \<notin> set n \<and>
      CRawIOReader_init v (SIGNAL_BASE_DIR @ n) (-1) (-1) CRawIOReader_new = Inr (True, R n)"
    and "distinct ns" "set ns \<inter> ss_names s = {}"
  shows "add_readers (length ns) v (concat (map (\<lambda>n. str_bytes n @ [0]) ns) @ junk) s =
    Inr (s\<lparr>ss_readers := ss_readers s @ map R ns, ss_names := set ns \<union> ss_names s\<rparr>)"
  using assms
proof (induction ns arbitrary: s)
  case (Cons n ns)
  have n: "CHR 0x00 \<notin> set n" "n \<notin> ss_names s"
      "CRawIOReader_init v (SIGNAL_BASE_DIR @ n) (-1) (-1) CRawIOReader_new = Inr (True, R n)"
    using Cons.prems by auto
  let ?s1 = "s\<lparr>ss_readers := ss_readers s @ [R n], ss_names := insert n (ss_names s)\<rparr>"
  have "add_readers (length ns) v (concat (map (\<lambda>n. str_bytes n @ [0]) ns) @ junk) ?s1 =
      Inr (?s1\<lparr>ss_readers := ss_readers ?s1 @ map R ns, ss_names := set ns \<union> ss_names ?s1\<rparr>)"
    using Cons.prems by (intro Cons.IH) auto
  with n take_name [OF n(1), of "concat (map (\<lambda>n. str_bytes n @ [0]) ns) @ junk"] show ?case
    by (simp add: CSignalServer_addReader_def)
qed simp

lemma init_writers_ok:
  assumes "CRawIOWriter_init env now (CRawIOWriter_new SIGNAL_PAGE_SIZE True []) = Inr (True, W)" "wr_fd W"
  shows "init_writers env (\<lambda>_. []) pre now ns s =
    Inr (True, s\<lparr>sq_writers := sq_writers s @ map (\<lambda>_. W) ns, sq_names := sq_names s @ ns\<rparr>)"
  using assms by (induction ns arbitrary: s) simp_all

lemma new_requester_pending:
  assumes "SA_HEAD \<le> unat rsize"
  shows "pending ((CSignalRequester_new rj wj timeout rsize)\<lparr>sq_writers := ws, sq_names := ns\<rparr>) [] []"
  using assms
  by (simp add: pending_def collects_def frame_inv_def CSignalRequester_new_def CService_setHeadSize_def CService_new_def
      CBuffer_new_def need_def service.defs word_le_nat_alt word_less_nat_alt SA_HEAD_def)

text \<open>
  What has to hold of the set-up: distinct names without a null, a request that fits the buffer of
  the server, a backlog that fits the pages, and buffer sizes that divide \<open>2 ^ 32\<close>, not larger on the
  sending side than on the receiving side and small enough for the pages of the requester.
\<close>

definition set_up :: "string list \<Rightarrow> int \<Rightarrow> u32 \<Rightarrow> u32 \<Rightarrow> byte list list list \<Rightarrow> bool" where
  "set_up names ps wsize rsize backlog \<longleftrightarrow>
     distinct names \<and> (\<forall>n \<in> set names. CHR 0x00 \<notin> set n) \<and> length (request_bytes names) \<le> 4096 \<and>
     PAGE_HEAD_SIZE \<le> ps \<and> ps < 2 ^ 31 \<and> length backlog = length names \<and>
     (\<forall>ds \<in> set backlog. \<forall>d \<in> set ds. PAGE_HEAD_SIZE + FRAME_HEAD_SIZE + int (length d) \<le> ps) \<and>
     unat wsize dvd 2 ^ 32 \<and> wsize \<le> rsize \<and> SA_HEAD \<le> unat rsize \<and> int (unat rsize) + 54 \<le> SIGNAL_PAGE_SIZE"

lemma request_parts:
  assumes "length (request_bytes names) \<le> 4096"
  shows "(request_bytes names @ pad) ! 2 = SACMD_REQ_SIG"
    "nat (sint (bytes_int (drop SA_HEAD (request_bytes names @ pad)))) = length names"
    "drop SA_DATA (request_bytes names @ pad) = concat (map (\<lambda>n. str_bytes n @ [0]) names) @ pad"
    "length names < 2 ^ 31"
proof -
  show "(request_bytes names @ pad) ! 2 = SACMD_REQ_SIG" by (simp add: request_bytes_def sa_head_def)
  show "drop SA_DATA (request_bytes names @ pad) = concat (map (\<lambda>n. str_bytes n @ [0]) names) @ pad"
    by (simp add: request_bytes_def SA_DATA_def SA_HEAD_def)
  have "length names \<le> length (concat (map (\<lambda>n. str_bytes n @ [0]) names))" by (induction names) simp_all
  then show n: "length names < 2 ^ 31" using assms by (simp add: request_bytes_def)
  have "drop SA_HEAD (request_bytes names @ pad) =
      int_bytes (word_of_nat (length names)) @ concat (map (\<lambda>n. str_bytes n @ [0]) names) @ pad"
    by (simp add: request_bytes_def)
  then have "bytes_int (drop SA_HEAD (request_bytes names @ pad)) = word_of_nat (length names)"
    by (simp only: bytes_int_bytes)
  then show "nat (sint (bytes_int (drop SA_HEAD (request_bytes names @ pad)))) = length names"
    using n by (simp add: signed_of_nat signed_take_bit_int_eq_self)
qed

lemma request_ok:
  assumes names: "length (request_bytes names) \<le> 4096" "distinct names" and s: "ss_names s = {}"
    and mem: "bf_p (sv_rbuf s) = request_bytes names @ pad"
    and init: "\<forall>n \<in> set names. CHR 0x00 \<notin> set n \<and>
      CRawIOReader_init v (SIGNAL_BASE_DIR @ n) (-1) (-1) CRawIOReader_new = Inr (True, Q n)"
  shows "CSignalServer_processPkg v now p s =
    Inr (0, s\<lparr>ss_alive := now, ss_readers := ss_readers s @ map Q names, ss_names := set names\<rparr>)"
proof -
  note R = request_parts(1-3) [OF names(1), of pad]
  have "add_readers (length names) v (concat (map (\<lambda>n. str_bytes n @ [0]) names) @ pad) (s\<lparr>ss_alive := now\<rparr>) =
      Inr (s\<lparr>ss_alive := now, ss_readers := ss_readers s @ map Q names, ss_names := set names\<rparr>)"
    using add_readers_ok [where s = "s\<lparr>ss_alive := now\<rparr>" and junk = pad, OF init names(2)] s by simp
  then show ?thesis
    unfolding CSignalServer_processPkg_def Let_def mem R(1-3) by simp
qed

lemma sig_start_ok:
  assumes set_up: "set_up names ps wsize rsize backlog" and env: "grants senv" "grants renv"
  shows "\<exists>w. sig_start senv renv names ps wsize rsize backlog now = Inr w \<and>
    sig_world_inv senv renv names ps (unat wsize) w \<and> gw_pub w = map (\<lambda>_. []) names"
proof -
  let ?n = "length names"
  have S: "distinct names" "\<forall>n \<in> set names. CHR 0x00 \<notin> set n" "length (request_bytes names) \<le> 4096"
      "PAGE_HEAD_SIZE \<le> ps" "ps < 2 ^ 31" "length backlog = ?n" "unat wsize dvd 2 ^ 32" "wsize \<le> rsize"
      "SA_HEAD \<le> unat rsize" "int (unat rsize) + 54 \<le> SIGNAL_PAGE_SIZE"
      "\<forall>ds \<in> set backlog. \<forall>d \<in> set ds. PAGE_HEAD_SIZE + FRAME_HEAD_SIZE + int (length d) \<le> ps"
    using set_up by (simp_all add: set_up_def)
  obtain srcs where srcs: "open_sources senv ps now backlog = Inr srcs" "list_all2 (source_ok ps) srcs backlog"
    using open_sources_ok [OF S(4,5) env(1) S(11)] by blast
  have ls: "length srcs = ?n" using list_all2_lengthD [OF srcs(2)] S(6) by simp
  let ?v = "view_all names srcs"
  have "\<exists>r. i < ?n \<longrightarrow> CRawIOReader_init ?v (SIGNAL_BASE_DIR @ names ! i) (-1) (-1) CRawIOReader_new = Inr (True, r) \<and>
      source_at ps (names ! i) (srcs ! i) r [] 0" for i
  proof (cases "i < ?n")
    case True
    then obtain pgs where p: "writer_at ps Ready (srcs ! i) pgs" "sized (wr_files (srcs ! i))"
      using list_all2_nthD [OF srcs(2)] ls by (auto simp: source_ok_def)
    have "\<forall>n. vw_open ?v (SIGNAL_BASE_DIR @ names ! i) n" by (simp add: view_all_def)
    from attach_path [OF p(1) view_files [OF S(1) ls True] this] p S(5) show ?thesis
      by (auto simp: source_at_def intro!: exI [of _ pgs] exI [of _ "concat pgs"])
  qed simp
  then obtain R where R: "\<And>i. i < ?n \<Longrightarrow>
      CRawIOReader_init ?v (SIGNAL_BASE_DIR @ names ! i) (-1) (-1) CRawIOReader_new = Inr (True, R i) \<and>
      source_at ps (names ! i) (srcs ! i) (R i) [] 0" by metis
  define Q where "Q n = snd (projr (CRawIOReader_init ?v (SIGNAL_BASE_DIR @ n) (-1) (-1) CRawIOReader_new))" for n
  have Q: "Q (names ! i) = R i" if "i < ?n" for i using R [OF that] by (simp add: Q_def)
  have init: "\<forall>n \<in> set names. CHR 0x00 \<notin> set n \<and>
      CRawIOReader_init ?v (SIGNAL_BASE_DIR @ n) (-1) (-1) CRawIOReader_new = Inr (True, Q n)"
    using S(2) R by (fastforce simp: in_set_conv_nth Q_def)
  let ?mem = "request_bytes names @ replicate (4096 - length (request_bytes names)) 0"
  let ?s = "(CSignalServer_new (\<lambda>_. 0) (\<lambda>_. 0) now 7 5000000000 wsize)\<lparr>sv_rbuf :=
      \<lparr>bf_p = ?mem, bf_size = 4096, bf_head = 0, bf_tail = 0\<rparr>\<rparr>"
  let ?s1 = "?s\<lparr>ss_alive := now, ss_readers := map Q names, ss_names := set names\<rparr>"
  have srv: "CSignalServer_processPkg ?v now (request_bytes names) ?s = Inr (0, ?s1)"
    using request_ok [OF S(3,1) _ _ init, of ?s] by (simp add: CSignalServer_new_def Let_def service.defs)
  have wbuf: "sv_wbuf ?s1 = CBuffer_new (\<lambda>_. 0) wsize"
    by (simp add: CSignalServer_new_def CService_new_def CService_setHeadSize_def Let_def service.defs)
  have "PAGE_HEAD_SIZE \<le> SIGNAL_PAGE_SIZE" "SIGNAL_PAGE_SIZE < 2 ^ 31" by (simp_all add: page_consts SIGNAL_PAGE_SIZE_def)
  from fresh_writer [OF this env(2), of now True] obtain W :: "byte list io_writer" where
    W: "CRawIOWriter_init renv now (CRawIOWriter_new SIGNAL_PAGE_SIZE True []) = Inr (True, W)"
      "writer_at SIGNAL_PAGE_SIZE Ready W [[]]" "wr_fd W" by blast
  let ?q = "CSignalRequester_new (\<lambda>_. 0) (\<lambda>_. 0) 5000000000 rsize"
  let ?q1 = "?q\<lparr>sq_writers := map (\<lambda>_. W) names, sq_names := names\<rparr>"
  have q: "init_writers renv (\<lambda>_. []) [] now names ?q = Inr (True, ?q1)"
    using init_writers_ok [OF W(1,3), of "[]" names ?q] by (simp add: CSignalRequester_new_def service.defs)
  have rbuf: "bf_size (sv_rbuf ?q1) = rsize"
    by (simp add: CSignalRequester_new_def CService_new_def CService_setHeadSize_def CBuffer_new_def service.defs)
  let ?w = "\<lparr>gw_src = srcs, gw_srv = ?s1, gw_net = [], gw_req = ?q1, gw_pub = map (\<lambda>_. []) names,
    gw_seen = map (\<lambda>_. 0) names\<rparr>"
  have n32: "?n < 2 ^ 32" using request_parts(4) [OF S(3)] by simp
  have "pending ?q1 [] []" by (rule new_requester_pending [OF S(9)])
  moreover have "mirrors SIGNAL_PAGE_SIZE (map (\<lambda>_. W) names) (map (\<lambda>_. []) names)"
    using W(2) by (auto simp: mirrors_def intro!: exI [of _ "[[]]"])
  ultimately have "stream_at SIGNAL_PAGE_SIZE ?n (unat wsize) ?q1 [] (map (\<lambda>_. []) names)"
    unfolding stream_at_def by (intro exI [of _ "[]"] exI [of _ "[]"] exI [of _ "map (\<lambda>_. []) names"]) simp
  moreover have "map (\<lambda>i. filter (fits (unat wsize)) (take (map (\<lambda>_. 0) names ! i) (map (\<lambda>_. []) names ! i))) [0..<?n] =
      map (\<lambda>_. []) names" by (auto intro!: nth_equalityI)
  moreover have "requester_ok SIGNAL_PAGE_SIZE ?q1" unfolding requester_ok_def rbuf using S(9,10) n32 by simp
  moreover have "unat wsize \<le> unat (bf_size (sv_rbuf ?q1))" unfolding rbuf using S(8) by (simp add: word_le_nat_alt)
  moreover have "source_at ps (names ! i) (srcs ! i) (ss_readers ?s1 ! i) (map (\<lambda>_. []) names ! i) (map (\<lambda>_. 0) names ! i)"
    if "i < ?n" for i using R [OF that] Q [OF that] that by simp
  moreover have "bf_size (sv_wbuf ?s1) = wsize" unfolding wbuf by (simp add: CBuffer_new_def)
  ultimately have "sig_inv names ps (unat wsize) ?w"
    unfolding sig_inv_def using ls wbuf new_ok [OF S(7), of "\<lambda>_. 0"] by simp
  then have "sig_world_inv senv renv names ps (unat wsize) ?w"
    using env S(1) n32 by (simp add: sig_world_inv_def)
  moreover have "sig_start senv renv names ps wsize rsize backlog now = Inr ?w"
    unfolding sig_start_def srcs(1) by (simp add: srv q)
  ultimately show ?thesis by auto
qed

end
