(* ===== verification/Signal_Properties.thy ===== *)
theory Signal_Properties
  imports Signal_Machine Io_Properties
begin

text \<open>
  What the buffer, the services and the signal agents promise, and where they break the promise.
\<close>

section \<open>Examples\<close>

text \<open>
  Two signals; a frame from before the request, a frame larger than the buffer, a heart beat, and
  whatever of the bytes sent arrived in one piece.
\<close>

definition sw_names :: "string list" where
  "sw_names = [''ma'', ''rsi'']"

lemma sw_set_up: "set_up sw_names 200 32 64 [[[9, 9]], []]"
  by (simp add: set_up_def sw_names_def request_bytes_def SA_HEAD_def str_bytes_def page_consts SIGNAL_PAGE_SIZE_def)

lemma add_readers_wbuf: "add_readers n v p s = Inr t \<Longrightarrow> sv_wbuf t = sv_wbuf s"
  by (induction n v p s rule: add_readers.induct)
    (auto simp: CSignalServer_addReader_def res_bind_Inr_iff split: if_splits)

lemma start_wbuf:
  assumes "sig_start senv renv names ps wsize rsize backlog now = Inr w"
  shows "sv_wbuf (gw_srv w) = CBuffer_new (\<lambda>_. 0) wsize" "gw_seen w = map (\<lambda>_. 0) names"
proof -
  let ?mem = "request_bytes names @ replicate (4096 - length (request_bytes names)) 0"
  have cmd: "?mem ! 2 = SACMD_REQ_SIG" by (simp add: request_bytes_def sa_head_def)
  from assms obtain v t n p s where "add_readers n v p s = Inr t" "gw_srv w = t" "gw_seen w = map (\<lambda>_. 0) names"
      "sv_wbuf s = CBuffer_new (\<lambda>_. 0) wsize"
    by (auto simp: sig_start_def CSignalServer_processPkg_def Let_def cmd res_bind_Inr_iff CSignalServer_new_def
        CService_setHeadSize_def CService_new_def service.defs)
  then show "sv_wbuf (gw_srv w) = CBuffer_new (\<lambda>_. 0) wsize" "gw_seen w = map (\<lambda>_. 0) names"
    using add_readers_wbuf by metis+
qed

section \<open>The buffer is a queue\<close>

text \<open>
  C29. \<^verbatim>\<open>CBuffer\<close> of a size that divides \<open>2 ^ 32\<close> is a queue of bytes. Under every sequence of writes,
  takes from the offered block and clears, with counters that wrap around, no access leaves the
  memory, the bytes accepted are those taken followed by those in the buffer, a write is accepted,
  and then whole, exactly if it is shorter than the free room, and a block is offered unless the
  buffer is empty.
\<close>

theorem ring_buffer_is_queue:
  assumes "unat n dvd 2 ^ 32"
    and "legal_run (queue_step CBuffer_cycleWrite front_block_of (\<lambda>k. CBuffer_commitRead (word_of_nat k)) CBuffer_clear)
      (queue_legal front_block_of) ops (CBuffer_new junk n, [], [])"
  shows "\<exists>b accepted taken.
    run_steps (queue_step CBuffer_cycleWrite front_block_of (\<lambda>k. CBuffer_commitRead (word_of_nat k)) CBuffer_clear) ops
      (CBuffer_new junk n, [], []) = Inr (b, accepted, taken) \<and>
    accepted = taken @ bf_data b \<and>
    (\<forall>bs. length bs < 2 ^ 32 \<longrightarrow> (\<exists>c. CBuffer_cycleWrite bs b = Inr (length bs < bf_room b, c) \<and>
       bf_data c = (if length bs < bf_room b then bf_data b @ bs else bf_data b))) \<and>
    (\<exists>k. front_block_of b = take k (bf_data b) \<and> (k = 0 \<longrightarrow> bf_data b = []))"
proof -
  have "queue_inv bf_ok bf_data (CBuffer_new junk n, [], [])" using new_ok [OF assms(1)] by (simp add: queue_inv_def)
  from ring.fifo.run_inv [OF this assms(2)] obtain b accepted taken where
    r: "run_steps (queue_step CBuffer_cycleWrite front_block_of (\<lambda>k. CBuffer_commitRead (word_of_nat k)) CBuffer_clear) ops
      (CBuffer_new junk n, [], []) = Inr (b, accepted, taken)" "bf_ok b" "accepted = taken @ bf_data b"
    by (auto simp: queue_inv_def)
  from ring.put [OF r(2)] ring.block [OF r(2)] r show ?thesis by blast
qed

theorem ring_buffer_is_queue_witness:
  "\<exists>b accepted taken.
    run_steps (queue_step CBuffer_cycleWrite front_block_of (\<lambda>k. CBuffer_commitRead (word_of_nat k)) CBuffer_clear)
      [Put [1, 2, 3], Take 2, Put [4, 5], Put [6, 7, 8], Take 2, Take 1]
      (CBuffer_new (\<lambda>_. 0) 4, [], []) = Inr (b, accepted, taken) \<and>
    accepted = taken @ bf_data b"
proof -
  let ?ops = "[Put [1, 2, 3], Take 2, Put [4, 5], Put [6, 7, 8], Take 2, Take 1]"
  have "unat (4 :: u32) dvd 2 ^ 32" by simp
  moreover have "legal_run (queue_step CBuffer_cycleWrite front_block_of (\<lambda>k. CBuffer_commitRead (word_of_nat k)) CBuffer_clear)
      (queue_legal front_block_of) ?ops (CBuffer_new (\<lambda>_. 0) 4, [], [])"
    by (simp add: CBuffer_new_def CBuffer_cycleWrite_def CBuffer_commitRead_def front_block_of_def block_at_def
        CBuffer_cycleRead_def CBuffer_left_def CBuffer_len_def put_ring_def store_at_def upt_rec)
  ultimately show ?thesis using ring_buffer_is_queue [of 4 ?ops "\<lambda>_. 0"] by blast
qed

section \<open>Packages\<close>

text \<open>
  C30. However the network cuts a stream into segments, the requester ends in the same state: what
  \<^verbatim>\<open>read_cb\<close> does with the segments is what it does with any other segments of the same bytes,
  faults and closed connections included.
\<close>

theorem packages_do_not_depend_on_segments:
  fixes s :: signal_requester
  assumes "frame_inv s" "[] \<notin> set xs" "[] \<notin> set ys" "concat xs = concat ys"
  shows "map_sum id (\<lambda>(go, t, _). (go, t)) (CService_read_cb (CSignalRequester_virtuals ioenv cenv now) (map Data xs) s) =
    map_sum id (\<lambda>(go, t, _). (go, t)) (CService_read_cb (CSignalRequester_virtuals ioenv cenv now) (map Data ys) s)"
  using requester.read_loop_eats [OF assms(1,2), of ioenv cenv now]
    requester.read_loop_eats [OF assms(1,3), of ioenv cenv now] assms(4)
  by (simp add: CService_read_cb_def need_def)

definition fresh_requester :: signal_requester where
  "fresh_requester = CSignalRequester_new (\<lambda>_. 0) (\<lambda>_. 0) 5000000000 16"

theorem packages_do_not_depend_on_segments_witness:
  "map_sum id (\<lambda>(go, t, _). (go, t)) (CService_read_cb (CSignalRequester_virtuals all_granted \<lparr>ce_socket = 7, ce_connect = Connected\<rparr> 1)
      (map Data [[0x88, 1, 4, 0, 0], [0, 0, 0x88]]) fresh_requester) =
    map_sum id (\<lambda>(go, t, _). (go, t)) (CService_read_cb (CSignalRequester_virtuals all_granted \<lparr>ce_socket = 7, ce_connect = Connected\<rparr> 1)
      (map Data [[0x88], [1, 4, 0, 0, 0, 0], [0x88]]) fresh_requester)"
  by (rule packages_do_not_depend_on_segments)
    (simp_all add: fresh_requester_def frame_inv_def need_def CSignalRequester_new_def CService_setHeadSize_def CService_new_def
      CBuffer_new_def service.defs SA_HEAD_def)

section \<open>Signals\<close>

text \<open>
  C28. Signals are mirrored, as long as no package fills the buffer exactly. In every legal run of the two
  agents (frames published, channels scanned, heart beats answered, bytes taken and delivered by the kernel in
  whatever pieces) no step faults, and the channels the requester writes hold the frames published since the
  request that fit the buffer of the server: each signal in its channel, in order, none twice and none damaged,
  and all of them once nothing is unread or under way.

  The conditions (\<open>sig_legal\<close>, \<open>set_up\<close>): a scan comes upon no frame whose package is exactly as long as the
  free room of the buffer (\<open>plan_of\<close>; of such a frame the head is queued and the data lost, so the
  requester takes what follows for the data: \<open>exact_fit_loses_data\<close> below); the connection lasts; a published frame fits a page of its
  channel; the server receives nothing but heart beats after the request; the buffers have a size that divides 2 ^ 32 at the
  sender, and the receive buffer is at least as large; the names are distinct and the request fits 4096 bytes.
\<close>

theorem signals_are_mirrored:
  assumes "set_up names ps wsize rsize backlog" "grants senv" "grants renv"
    and "sig_start senv renv names ps wsize rsize backlog now = Inr w0"
    and "legal_run (sig_step senv renv cenv names) (sig_legal ps) es w0"
  shows "\<exists>w logs. run_steps (sig_step senv renv cenv names) es w0 = Inr w \<and>
    mirrors SIGNAL_PAGE_SIZE (sq_writers (gw_req w)) logs \<and>
    (\<forall>i < length names. \<exists>rest.
       logs ! i @ rest = filter (\<lambda>d. SA_DATA + length d \<le> unat wsize) (gw_pub w ! i) \<and>
       (unread w i = [] \<longrightarrow> gw_net w = [] \<longrightarrow> bf_data (sv_wbuf (gw_srv w)) = [] \<longrightarrow> rest = []))"
proof -
  have "sig_world_inv senv renv names ps (unat wsize) w0" using sig_start_ok [OF assms(1-3), of now] assms(4) by auto
  from signals.run_inv [OF this assms(5)] obtain w where
    w: "run_steps (sig_step senv renv cenv names) es w0 = Inr w" "sig_inv names ps (unat wsize) w"
    by (auto simp: sig_world_inv_def)
  let ?want = "map (\<lambda>i. filter (fits (unat wsize)) (take (gw_seen w ! i) (gw_pub w ! i))) [0..<length names]"
  have s: "stream_at SIGNAL_PAGE_SIZE (length names) (unat wsize) (gw_req w)
      (gw_net w @ bf_data (sv_wbuf (gw_srv w))) ?want" "length (sq_writers (gw_req w)) = length names"
    using w(2) unfolding sig_inv_def by blast+
  from stream_logs [OF this] obtain logs where
    l: "mirrors SIGNAL_PAGE_SIZE (sq_writers (gw_req w)) logs" "\<forall>i < length names. \<exists>rest. logs ! i @ rest = ?want ! i"
      "gw_net w @ bf_data (sv_wbuf (gw_srv w)) = [] \<longrightarrow> logs = ?want" by blast
  have "\<exists>rest. logs ! i @ rest = filter (\<lambda>d. SA_DATA + length d \<le> unat wsize) (gw_pub w ! i) \<and>
      (unread w i = [] \<longrightarrow> gw_net w = [] \<longrightarrow> bf_data (sv_wbuf (gw_srv w)) = [] \<longrightarrow> rest = [])"
    if i: "i < length names" for i
  proof -
    obtain rest where rest: "logs ! i @ rest = filter (fits (unat wsize)) (take (gw_seen w ! i) (gw_pub w ! i))"
      using l(2) i by auto
    have "filter (fits (unat wsize)) (gw_pub w ! i) =
        filter (fits (unat wsize)) (take (gw_seen w ! i) (gw_pub w ! i)) @ filter (fits (unat wsize)) (unread w i)"
      by (metis append_take_drop_id filter_append unread_def)
    with rest l(3) i show ?thesis
      by (intro exI [of _ "rest @ filter (fits (unat wsize)) (unread w i)"]) (auto simp: fits_def [abs_def])
  qed
  with w(1) l(1) show ?thesis by blast
qed

theorem signals_are_mirrored_witness:
  "\<exists>w0 d w logs. sig_start all_granted all_granted sw_names 200 32 64 [[[9, 9]], []] 1000 = Inr w0 \<and>
    run_steps (sig_step all_granted all_granted \<lparr>ce_socket = 7, ce_connect = Connected\<rparr> sw_names)
      [Publish 0 [1, 2, 3] 1001, Publish 1 (replicate 30 7) 1002, Publish 1 [4] 1003, Serve True, Flush [5],
       Answer 1004 (sa_head SACMD_REQ_HEATBEAT 0), Flush [100], d] w0 = Inr w \<and>
    mirrors SIGNAL_PAGE_SIZE (sq_writers (gw_req w)) logs \<and>
    (\<exists>rest. logs ! 1 @ rest = filter (\<lambda>d. SA_DATA + length d \<le> 32) (gw_pub w ! 1))"
proof -
  let ?step = "sig_step all_granted all_granted \<lparr>ce_socket = 7, ce_connect = Connected\<rparr> sw_names"
  let ?inv = "sig_world_inv all_granted all_granted sw_names 200 (unat (32 :: u32))"
  from sig_start_ok [OF sw_set_up all_granted all_granted, of 1000] obtain w0 where
    w0: "sig_start all_granted all_granted sw_names 200 32 64 [[[9, 9]], []] 1000 = Inr w0" "?inv w0"
      "gw_pub w0 = map (\<lambda>_. []) sw_names" by blast
  note go = signals.step_ok [of all_granted all_granted sw_names 200 "unat (32 :: u32)"]
  have n: "length (gw_src w0) = 2" using w0(2) by (simp add: sig_world_inv_def sig_inv_def sw_names_def)
  have room: "bf_size (sv_wbuf (gw_srv w0)) = 32" "bf_room (sv_wbuf (gw_srv w0)) = 32" "gw_seen w0 = [0, 0]"
    using start_wbuf [OF w0(1)] by (simp_all add: bf_room_def bf_data_def CBuffer_new_def CBuffer_len_def sw_names_def)
  have l1: "sig_legal 200 (Publish 0 [1, 2, 3] 1001) w0" using n by (simp add: page_consts)
  from go [OF w0(2) l1] obtain w1 where w1: "?step (Publish 0 [1, 2, 3] 1001) w0 = Inr w1" "?inv w1" by blast
  then have k1: "gw_srv w1 = gw_srv w0" "gw_pub w1 = [[[1, 2, 3]], []]" "gw_seen w1 = [0, 0]" "length (gw_src w1) = 2"
    using w0(3) room n by (auto simp: res_bind_Inr_iff sw_names_def)
  have l2: "sig_legal 200 (Publish 1 (replicate 30 7) 1002) w1" using k1 by (simp add: page_consts)
  from go [OF w1(2) l2] obtain w2 where w2: "?step (Publish 1 (replicate 30 7) 1002) w1 = Inr w2" "?inv w2" by blast
  then have k2: "gw_srv w2 = gw_srv w0" "gw_pub w2 = [[[1, 2, 3]], [replicate 30 7]]" "gw_seen w2 = [0, 0]"
      "length (gw_src w2) = 2"
    using k1 by (auto simp: res_bind_Inr_iff)
  have l3: "sig_legal 200 (Publish 1 [4] 1003) w2" using k2 by (simp add: page_consts)
  from go [OF w2(2) l3] obtain w3 where w3: "?step (Publish 1 [4] 1003) w2 = Inr w3" "?inv w3" by blast
  then have k3: "gw_srv w3 = gw_srv w0" "gw_pub w3 = [[[1, 2, 3]], [replicate 30 7, [4]]]" "gw_seen w3 = [0, 0]"
      "length (gw_src w3) = 2"
    using k2 by (auto simp: res_bind_Inr_iff)
  have l4: "sig_legal 200 (Serve True) w3"
    using k3 room by (simp add: plan_of_def unread_def upt_rec SA_DATA_def Let_def)
  from go [OF w3(2) l4] obtain w4 where w4: "?step (Serve True) w3 = Inr w4" "?inv w4" by blast
  have l5: "sig_legal 200 (Flush [5]) w4" by simp
  from go [OF w4(2) l5] obtain w5 where w5: "?step (Flush [5]) w4 = Inr w5" "?inv w5" by blast
  have l6: "sig_legal 200 (Answer 1004 (sa_head SACMD_REQ_HEATBEAT 0)) w5" by (simp add: sa_head_def SA_HEAD_def int_bytes_def)
  from go [OF w5(2) l6] obtain w6 where w6: "?step (Answer 1004 (sa_head SACMD_REQ_HEATBEAT 0)) w5 = Inr w6" "?inv w6" by blast
  have l7: "sig_legal 200 (Flush [100]) w6" by simp
  from go [OF w6(2) l7] obtain w7 where w7: "?step (Flush [100]) w6 = Inr w7" "?inv w7" by blast
  let ?d = "Deliver (if gw_net w7 = [] then [] else [gw_net w7]) 1005"
  let ?es = "[Publish 0 [1, 2, 3] 1001, Publish 1 (replicate 30 7) 1002, Publish 1 [4] 1003, Serve True, Flush [5],
    Answer 1004 (sa_head SACMD_REQ_HEATBEAT 0), Flush [100], ?d]"
  have "sig_legal 200 ?d w7" by simp
  then have "legal_run ?step (sig_legal 200) ?es w0"
    by (simp only: legal_run.simps l1 l2 l3 l4 l5 l6 l7 w1(1) w2(1) w3(1) w4(1) w5(1) w6(1) w7(1) sum.case simp_thms)
      (simp split: sum.split)
  from signals_are_mirrored [OF sw_set_up all_granted all_granted w0(1) this] obtain w logs where
    w: "run_steps ?step ?es w0 = Inr w" "mirrors SIGNAL_PAGE_SIZE (sq_writers (gw_req w)) logs"
      "\<forall>i < length sw_names. \<exists>rest. logs ! i @ rest = filter (\<lambda>d. SA_DATA + length d \<le> unat (32 :: u32)) (gw_pub w ! i) \<and>
        (unread w i = [] \<longrightarrow> gw_net w = [] \<longrightarrow> bf_data (sv_wbuf (gw_srv w)) = [] \<longrightarrow> rest = [])" by blast
  from w(3) [rule_format, of 1] obtain rest where
    "logs ! 1 @ rest = filter (\<lambda>d. SA_DATA + length d \<le> 32) (gw_pub w ! 1)"
    by (auto simp: sw_names_def)
  with w0(1) w(1,2) show ?thesis by (intro exI conjI)
qed

section \<open>Where the promises end\<close>

text \<open>
  A frame whose package is as long as the free room passes the test of \<^verbatim>\<open>tryRead\<close>, but the buffer
  refuses to be filled: the head of the package is queued and its data is lost, and the requester
  takes what is queued next for the data.
\<close>

lemma exact_fit_loses_data:
  assumes "CRawIOReader_getCurFrame v r = Inr (Some f, r1)" "fr_len f = int (length (fr_data f))" "fr_data f \<noteq> []"
    and "bf_ok (sv_wbuf s)" "SA_DATA + length (fr_data f) = bf_room (sv_wbuf s)"
  shows "\<exists>s1. send_frames (Suc n) v i r s = res_bind (CRawIOReader_passFrame v r1) (\<lambda>r2. send_frames n v i r2 s1) \<and>
    bf_data (sv_wbuf s1) = bf_data (sv_wbuf s) @
      sa_head SACMD_SIGNAL_DATA (word_of_nat (bf_room (sv_wbuf s))) @ int_bytes (word_of_nat i)"
proof -
  let ?d = "fr_data f" and ?room = "bf_room (sv_wbuf s)"
  have "unat (bf_size (sv_wbuf s)) < 2 ^ 32" using unsigned_less [of "bf_size (sv_wbuf s)"] by simp
  then have small: "?room < 2 ^ 32" by (simp add: bf_room_def)
  have size: "word_of_nat SA_DATA + word_of_int (fr_len f) = (word_of_nat ?room :: u32)"
    using assms(2,5) by (metis of_int_of_nat_eq of_nat_add)
  have left: "CBuffer_left (sv_wbuf s) \<ge> word_of_nat ?room"
    using bf_room_eq [OF assms(4)] small by (simp add: word_le_nat_alt unat_of_nat take_bit_eq_mod)
  let ?head = "sa_head SACMD_SIGNAL_DATA (word_of_nat ?room) @ int_bytes (word_of_nat i)"
  have head: "length ?head = SA_DATA" by (simp add: SA_HEAD_def SA_DATA_def)
  have "SA_DATA < ?room" unfolding assms(5) [symmetric] using assms(3) by (cases ?d) simp_all
  then have "length ?head < ?room" by (simp only: head)
  moreover have "length ?head < 2 ^ 32" unfolding head by (simp add: SA_DATA_def)
  ultimately obtain x s1 where s1: "CService_sendData ?head s = Inr (x, s1)" "sends s ?head s1"
    using sendData_ok [OF assms(4), of ?head] by blast
  have room1: "bf_room (sv_wbuf s1) = length ?d" using sends_room [OF s1(2)] head assms(5) by simp
  have ok1: "bf_ok (sv_wbuf s1)" using sends_buf [OF s1(2)] by simp
  have "length ?d < 2 ^ 32" using small assms(5) by simp
  from cycleWrite_ok [OF ok1 this] room1 obtain c where "CBuffer_cycleWrite ?d (sv_wbuf s1) = Inr (False, c)" by auto
  then have "CService_sendData ?d s1 = Inr (-1, s1)" using assms(3) by (simp add: CService_sendData_def)
  with s1(1) left have "send_frames (Suc n) v i r s = res_bind (CRawIOReader_passFrame v r1) (\<lambda>r2. send_frames n v i r2 s1)"
    using assms(1,2) size by (simp add: Let_def)
  moreover have "bf_data (sv_wbuf s1) = bf_data (sv_wbuf s) @ ?head" using sends_buf [OF s1(2)] by blast
  ultimately show ?thesis by blast
qed

text \<open>
  A requester whose new connection is refused at once stays disconnected for ever: \<^verbatim>\<open>close\<close> ends
  without a socket, a watched event or a timer, and from then on neither \<^verbatim>\<open>testOK\<close> nor \<^verbatim>\<open>tryHeartBeat\<close>
  does anything, at any time and whatever the network offers.
\<close>

theorem refused_requester_gives_up:
  assumes "0 \<le> sv_fd s" "\<not> sv_timer s"
  shows "\<exists>t. CSignalRequester_close now \<lparr>ce_socket = fd, ce_connect = ConnectFailed e\<rparr> s = Inr t \<and>
    sv_fd t = -1 \<and> \<not> sv_watch t \<and> \<not> sv_timer t \<and>
    (\<forall>later env. CSignalRequester_testOK later env t = Inr (False, t) \<and> CSignalRequester_tryHeartBeat later t = Inr t)"
  using assms
  by (simp add: CSignalRequester_close_def CSignalRequester_reconnect_def CService_connect_def Let_def CService_close_def
      CSocket_close_def CSocket_stop_def CSignalRequester_testOK_def CSignalRequester_tryHeartBeat_def)

theorem refused_requester_gives_up_witness:
  "\<exists>t. CSignalRequester_close 9 \<lparr>ce_socket = 7, ce_connect = ConnectFailed 101\<rparr>
      (fresh_requester\<lparr>sv_fd := 5, sv_watch := True, sq_connected := True\<rparr>) = Inr t \<and>
    (\<forall>later env. CSignalRequester_testOK later env t = Inr (False, t))"
proof -
  have "0 \<le> sv_fd (fresh_requester\<lparr>sv_fd := 5, sv_watch := True, sq_connected := True\<rparr>)"
    "\<not> sv_timer (fresh_requester\<lparr>sv_fd := 5, sv_watch := True, sq_connected := True\<rparr>)"
    by (simp_all add: fresh_requester_def CSignalRequester_new_def CService_setHeadSize_def CService_new_def service.defs)
  from refused_requester_gives_up [OF this, of 9 7 101] show ?thesis by blast
qed

end
