(* ===== verification/Td_Comm.thy ===== *)
theory Td_Comm
  imports Td_Engine
begin

text \<open>
  \<^verbatim>\<open>td/CTDHelperComm\<close>, the client of a trading engine: the list of orders of \<^verbatim>\<open>ITDHelper\<close> whose
  orders and cancels are frames in a channel of its own, and whose reports are read in the channel of
  the engine. What the engine answers to a request over the system channel, or that it does not in
  time, is an input, by the number of the request.
\<close>

section \<open>State\<close>

record td_comm = td_helper +
  hm_self_id :: int
  hm_tdsend_path :: string
  hm_writer :: "td_frame io_writer"
  hm_reader :: io_reader
  hm_td_engine_id :: int
  hm_timeout :: int
  hm_base :: trade_base
  hm_request_id :: int
  hm_sent :: "td_frame list"

record 's td_answers =
  ta_ack :: "int \<Rightarrow> bool"
  ta_base :: "int \<Rightarrow> td_base_info option"
  ta_tracks :: "int \<Rightarrow> order_track list option"
  ta_switch_day :: "string \<Rightarrow> 's \<Rightarrow> 's res"

text \<open>The sizes of the packed structures \<^verbatim>\<open>tIOInputOrderField\<close> and \<^verbatim>\<open>tIOrderAction\<close>.\<close>

definition INPUT_ORDER_SIZE :: int where "INPUT_ORDER_SIZE = 77"
definition ORDER_ACTION_SIZE :: int where "ORDER_ACTION_SIZE = 75"

text \<open>A request is written under the next number.\<close>

definition sys_request :: "td_command \<Rightarrow> 'a td_comm_scheme \<Rightarrow> 'a td_comm_scheme" where
  "sys_request c s =
     s\<lparr>hm_request_id := hm_request_id s + 1,
       hm_sent := hm_sent s @ [SysFrame (hm_td_engine_id s) (hm_self_id s) (hm_request_id s + 1) c]\<rparr>"

definition CTDHelperComm_notifyTDEngineAdd ::
    "'a td_comm_scheme td_answers \<Rightarrow> 'a td_comm_scheme \<Rightarrow> bool \<times> 'a td_comm_scheme" where
  "CTDHelperComm_notifyTDEngineAdd ta s =
     (let s1 = sys_request (AddClient (c_str (hm_tdsend_path s))) s in (ta_ack ta (hm_request_id s1), s1))"

definition CTDHelperComm_notifyTDEngineRemove :: "'a td_comm_scheme \<Rightarrow> 'a td_comm_scheme" where
  "CTDHelperComm_notifyTDEngineRemove s =
     (if hm_td_engine_id s \<noteq> 0 \<and> hm_self_id s \<noteq> 0
      then s\<lparr>hm_sent := hm_sent s @ [SysFrame (hm_td_engine_id s) (hm_self_id s) 0 RemoveClient]\<rparr>
      else s)"

definition CTDHelperComm_release :: "'a td_comm_scheme \<Rightarrow> 'a td_comm_scheme" where
  "CTDHelperComm_release s = CTDHelperComm_notifyTDEngineRemove s"

definition CTDHelperComm_qryTradeBaseInfo ::
    "'a td_comm_scheme td_answers \<Rightarrow> 'a td_comm_scheme \<Rightarrow> (bool \<times> 'a td_comm_scheme) res" where
  "CTDHelperComm_qryTradeBaseInfo ta s =
     (let s1 = sys_request ReqBaseInfo s in
      case ta_base ta (hm_request_id s1) of
        None \<Rightarrow> Inr (False, s1)
      | Some p \<Rightarrow>
          res_bind (CTradeBaseInfo_update p (hm_base s1)) (\<lambda>(_, cb, b).
          res_bind (case cb of
              None \<Rightarrow> Inr (s1\<lparr>hm_base := b\<rparr>)
            | Some day \<Rightarrow> ta_switch_day ta day (s1\<lparr>hm_base := b\<rparr>)) (\<lambda>s2. Inr (True, s2))))"

definition CTDHelperComm_qryOrderTrack ::
    "'a td_comm_scheme td_answers \<Rightarrow> 'a td_comm_scheme \<Rightarrow> bool \<times> 'a td_comm_scheme" where
  "CTDHelperComm_qryOrderTrack ta s =
     (let s1 = sys_request ReqOrderTrack s in
      case ta_tracks ta (hm_request_id s1) of
        None \<Rightarrow> (False, s1)
      | Some ts \<Rightarrow> (True, s1\<lparr>th_order_track := ts\<rparr>))"

definition td_send_dir :: "string \<Rightarrow> string" where
  "td_send_dir name = ''strategy/'' @ name"

definition CTDHelperComm_createTdSendPath :: "bool \<Rightarrow> string \<Rightarrow> string" where
  "CTDHelperComm_createTdSendPath made name = (if made then td_send_dir name @ ''/tdsend'' else [])"

section \<open>init\<close>

text \<open>
  \<open>made\<close> and \<open>sys_ok\<close> say whether the directory could be made and the system channel initialised;
  \<open>ioenv\<close> is what the system grants for the pages of the writer, \<open>v\<close> what the reader sees.
\<close>

definition CTDHelperComm_init ::
    "bool \<Rightarrow> bool \<Rightarrow> io_env \<Rightarrow> io_order_rtn io_view \<Rightarrow> 'a td_comm_scheme td_answers \<Rightarrow> int \<Rightarrow> string \<Rightarrow> int \<Rightarrow>
     'a td_comm_scheme \<Rightarrow> (bool \<times> 'a td_comm_scheme) res" where
  "CTDHelperComm_init made sys_ok ioenv v ta now engine timeout s =
     (let s1 = s\<lparr>hm_self_id := sint (HASH_STR (th_name s)),
                 hm_tdsend_path := CTDHelperComm_createTdSendPath made (th_name s)\<rparr>
      in if hm_tdsend_path s1 = [] then Inr (False, s1)
         else res_bind (CRawIOWriter_init ioenv now (hm_writer s1)) (\<lambda>(ok, w).
           let s2 = s1\<lparr>hm_writer := w\<rparr>
           in if \<not> ok \<or> \<not> sys_ok then Inr (False, s2)
              else
                (case CTDHelperComm_notifyTDEngineAdd ta
                       (s2\<lparr>hm_td_engine_id := sint (HASH_STR engine), hm_timeout := timeout\<rparr>) of
                   (False, s3) \<Rightarrow> Inr (False, s3)
                 | (True, s3) \<Rightarrow>
                     res_bind (CRawIOReader_init_from v (''td_engine/'' @ engine @ ''/tdsend'') (-1) (hm_reader s3)) (\<lambda>(_, r).
                     let s4 = s3\<lparr>hm_reader := r\<rparr>
                     in res_bind (if tb_is_init (hm_base s4) then Inr (True, s4)
                                  else CTDHelperComm_qryTradeBaseInfo ta s4) (\<lambda>(ok, s5).
                        Inr (if ok then CTDHelperComm_qryOrderTrack ta s5 else (False, s5)))))))"

section \<open>Orders and reports\<close>

text \<open>Storing through the null pointer of a failed \<^verbatim>\<open>prefetch\<close> is a fault.\<close>

definition send_frame ::
    "io_env \<Rightarrow> int \<Rightarrow> int \<Rightarrow> td_frame \<Rightarrow> 'a td_comm_scheme \<Rightarrow> 'a td_comm_scheme res" where
  "send_frame ioenv now len p s =
     res_bind (CRawIOWriter_prefetch ioenv OtherFrame len now (hm_writer s)) (\<lambda>(off, w).
       case off of
         None \<Rightarrow> Inl NullDeref
       | Some off \<Rightarrow>
           res_bind (CRawIOWriter_commit OtherFrame now (fill_frame OtherFrame off (\<lambda>_. p) w)) (\<lambda>w1.
             Inr (s\<lparr>hm_writer := w1\<rparr>)))"

definition order_frame :: "int \<Rightarrow> int \<Rightarrow> nat \<Rightarrow> order_track \<Rightarrow> td_frame" where
  "order_frame self md_time track_id order =
     OrderFrame
       \<lparr>in_extra_nano = md_time, in_from = self, in_local_id = int track_id, in_acc_idx = ot_acc_id order,
        in_instr_hash = ot_instr_hash order, in_instr = ot_instr order, in_price = ot_price order,
        in_vol = ot_vol order, in_dir = ot_dir order mod 256, in_off = ot_off order mod 256,
        in_stg_id = ot_stg_id order\<rparr>"

definition action_frame :: "int \<Rightarrow> nat \<Rightarrow> order_track \<Rightarrow> td_frame" where
  "action_frame self track_id order =
     ActionFrame
       \<lparr>oa_from = self, oa_local_id = int track_id, oa_acc_idx = ot_acc_id order,
        oa_order_ref = ot_order_ref order, oa_front_id = ot_front_id order,
        oa_session_id = ot_session_id order, oa_instr_hash = ot_instr_hash order,
        oa_instr = ot_instr order\<rparr>"

definition CTDHelperComm_doSendOrder ::
    "io_env \<Rightarrow> int \<Rightarrow> int \<Rightarrow> nat \<Rightarrow> 'a td_comm_scheme \<Rightarrow> 'a td_comm_scheme res" where
  "CTDHelperComm_doSendOrder ioenv now md_time track_id s =
     res_bind (ITDHelper_getOrderTrack (int track_id) s) (\<lambda>order.
       send_frame ioenv now INPUT_ORDER_SIZE (order_frame (hm_self_id s) md_time track_id order) s)"

definition CTDHelperComm_doDelOrder ::
    "io_env \<Rightarrow> int \<Rightarrow> nat \<Rightarrow> 'a td_comm_scheme \<Rightarrow> 'a td_comm_scheme res" where
  "CTDHelperComm_doDelOrder ioenv now track_id s =
     res_bind (ITDHelper_getOrderTrack (int track_id) s) (\<lambda>order.
       send_frame ioenv now ORDER_ACTION_SIZE (action_frame (hm_self_id s) track_id order) s)"

definition CTDHelperComm_doGetRtn ::
    "io_order_rtn io_view \<Rightarrow> 'a td_comm_scheme td_answers \<Rightarrow> 'a td_comm_scheme \<Rightarrow>
     (rtn_msg option \<times> 'a td_comm_scheme) res" where
  "CTDHelperComm_doGetRtn v ta s =
     res_bind (CRawIOReader_read v (hm_reader s)) (\<lambda>(d, r).
       let s1 = s\<lparr>hm_reader := r\<rparr> in
       case d of
         None \<Rightarrow> Inr (None, s1)
       | Some (p, len) \<Rightarrow>
           if or_cmd p = IO_ORDER_RTN then
             Inr (if or_to p = hm_self_id s1 then Some (or_rtn_msg p) else None, s1)
           else if or_cmd p = IO_TD_START then Inr (None, snd (CTDHelperComm_notifyTDEngineAdd ta s1))
           else Inr (None, s1))"

text \<open>The operations a strategy calls, with the virtual functions of this class.\<close>

definition CTDHelperComm_sendOrder ::
    "io_env \<Rightarrow> int \<Rightarrow> int \<Rightarrow> string \<Rightarrow> double \<Rightarrow> int \<Rightarrow> int \<Rightarrow> int \<Rightarrow> int \<Rightarrow> int \<Rightarrow> u32 \<Rightarrow>
     'a td_comm_scheme \<Rightarrow> (int \<times> 'a td_comm_scheme) res" where
  "CTDHelperComm_sendOrder ioenv now md_time =
     ITDHelper_sendOrder (CTDHelperComm_doSendOrder ioenv now md_time)"

definition CTDHelperComm_deleteOrder ::
    "io_env \<Rightarrow> int \<Rightarrow> int \<Rightarrow> 'a td_comm_scheme \<Rightarrow> (int \<times> 'a td_comm_scheme) res" where
  "CTDHelperComm_deleteOrder ioenv now = ITDHelper_deleteOrder (CTDHelperComm_doDelOrder ioenv now)"

definition CTDHelperComm_getRtn ::
    "io_order_rtn io_view \<Rightarrow> 'a td_comm_scheme td_answers \<Rightarrow> 'a td_comm_scheme \<Rightarrow>
     (rtn_msg option \<times> 'a td_comm_scheme) res" where
  "CTDHelperComm_getRtn v ta s =
     res_bind (CTDHelperComm_doGetRtn v ta s) (\<lambda>(p, s1). Inr (ITDHelper_getRtn (\<lambda>s. (p, s)) s1))"

section \<open>Sending\<close>

text \<open>A frame that fits a page is appended to the channel, whole, and nothing else changes.\<close>

lemma send_frame_ok:
  assumes w: "writer_at ps Ready (hm_writer s) pgs" and env: "grants ioenv"
    and len: "0 \<le> len" "PAGE_HEAD_SIZE + FRAME_HEAD_SIZE + len \<le> ps"
  shows "\<exists>w1 pgs1. send_frame ioenv now len p s = Inr (s\<lparr>hm_writer := w1\<rparr>) \<and> writer_at ps Ready w1 pgs1 \<and>
    concat pgs1 = concat pgs @ [p]"
proof -
  from prefetch_ok [OF w env len, of OtherFrame now] obtain off w1 pgs1 q where
    w1: "CRawIOWriter_prefetch ioenv OtherFrame len now (hm_writer s) = Inr (Some off, w1)"
      "writer_at ps Filling w1 pgs1" "concat pgs1 = concat pgs" "wr_page w1 = Inr q" "off = pg_tail q" by blast
  note F = fill_ok [OF w1(2,4), of OtherFrame "\<lambda>_. p"]
  from commit_ok [OF F(1), of OtherFrame now] obtain w2 pgs2 where
    w2: "CRawIOWriter_commit OtherFrame now (fill_frame OtherFrame (pg_tail q) (\<lambda>_. p) w1) = Inr w2"
      "writer_at ps Ready w2 pgs2"
      "concat pgs2 = concat pgs1 @ [frame_buf OtherFrame (fill_frame OtherFrame (pg_tail q) (\<lambda>_. p) w1)]" by blast
  with w1 F(3) show ?thesis by (intro exI [of _ w2] exI [of _ pgs2]) (simp add: send_frame_def)
qed

section \<open>Reports\<close>

text \<open>Reading a channel with one call after the other; what comes back, in order.\<close>

fun poll ::
    "nat \<Rightarrow> io_order_rtn io_view \<Rightarrow> 'a td_comm_scheme td_answers \<Rightarrow> 'a td_comm_scheme \<Rightarrow>
     (rtn_msg list \<times> 'a td_comm_scheme) res" where
  "poll 0 v ta s = Inr ([], s)"
| "poll (Suc n) v ta s =
     res_bind (CTDHelperComm_getRtn v ta s) (\<lambda>(p, s1).
     res_bind (poll n v ta s1) (\<lambda>(ps, s2). Inr ((case p of None \<Rightarrow> [] | Some m \<Rightarrow> [m]) @ ps, s2)))"

text \<open>The reports of a channel that concern the orders of a client.\<close>

definition mine :: "int \<Rightarrow> nat \<Rightarrow> io_order_rtn \<Rightarrow> bool" where
  "mine self cnt p \<longleftrightarrow> or_cmd p = IO_ORDER_RTN \<and> or_to p = self \<and> 0 \<le> rm_local_id (or_rtn_msg p) \<and>
     nat (rm_local_id (or_rtn_msg p)) < cnt"

definition book_rtn :: "rtn_msg \<Rightarrow> order_track list \<Rightarrow> order_track list" where
  "book_rtn m ts = ts[nat (rm_local_id m) := track_rtn m (ts ! nat (rm_local_id m))]"

lemma length_book_rtn [simp]: "length (book_rtn m ts) = length ts"
  by (simp add: book_rtn_def)

lemma next_read:
  assumes ok: "files_ok ps (vw_files v (rd_prefix r)) pgs" and at: "reader_at (vw_files v (rd_prefix r)) pgs r xs"
  shows "\<exists>d r1. CRawIOReader_read v r = Inr (d, r1) \<and> rd_prefix r1 = rd_prefix r \<and>
    reader_at (vw_files v (rd_prefix r)) pgs r1 (xs @ (case d of None \<Rightarrow> [] | Some (x, _) \<Rightarrow> [x])) \<and>
    (d = None \<longrightarrow> (\<forall>n. vw_open v (rd_prefix r) n) \<longrightarrow> xs = concat pgs)"
proof -
  have "seen_status v r = PAGE_STATUS_FINISH \<longrightarrow> rd_fd r \<longrightarrow> seen_status v r = PAGE_STATUS_FINISH" by simp
  from read_seen_ok [OF ok at this] show ?thesis unfolding CRawIOReader_read_def by blast
qed

lemma read_next:
  assumes ok: "files_ok ps (vw_files v (rd_prefix r)) pgs" and at: "reader_at (vw_files v (rd_prefix r)) pgs r xs"
    and pgs: "concat pgs = xs @ ys" and opn: "\<forall>n. vw_open v (rd_prefix r) n"
  shows "\<exists>d r1. CRawIOReader_read v r = Inr (d, r1) \<and> rd_prefix r1 = rd_prefix r \<and>
    (case ys of
       [] \<Rightarrow> d = None \<and> reader_at (vw_files v (rd_prefix r)) pgs r1 xs
     | y # _ \<Rightarrow> (\<exists>len. d = Some (y, len)) \<and> reader_at (vw_files v (rd_prefix r)) pgs r1 (xs @ [y]))"
proof -
  from next_read [OF ok at] obtain d r1 where d: "CRawIOReader_read v r = Inr (d, r1)" "rd_prefix r1 = rd_prefix r"
      "reader_at (vw_files v (rd_prefix r)) pgs r1 (xs @ (case d of None \<Rightarrow> [] | Some (x, _) \<Rightarrow> [x]))"
      "d = None \<longrightarrow> (\<forall>n. vw_open v (rd_prefix r) n) \<longrightarrow> xs = concat pgs"
    by (elim exE conjE)
  show ?thesis
  proof (cases d)
    case None
    with d(4) opn have "xs = xs @ ys" unfolding pgs [symmetric] by blast
    then have "ys = []" by simp
    with None d(1-3) show ?thesis by (intro exI [of _ d] exI [of _ r1]) simp
  next
    case (Some e)
    obtain x len where e: "e = (x, len)" by (cases e)
    with Some d(3) have at1: "reader_at (vw_files v (rd_prefix r)) pgs r1 (xs @ [x])" by simp
    from reader_at_prefix [OF this] pgs obtain zs where "ys = x # zs" by auto
    with Some e d(1,2) at1 show ?thesis by (intro exI [of _ d] exI [of _ r1]) simp
  qed
qed

lemma getRtn_step:
  assumes ok: "files_ok ps (vw_files v (rd_prefix (hm_reader s))) pgs"
    and at: "reader_at (vw_files v (rd_prefix (hm_reader s))) pgs (hm_reader s) xs"
    and pgs: "concat pgs = xs @ ys" and opn: "\<forall>n. vw_open v (rd_prefix (hm_reader s)) n"
  shows "\<exists>r1 m t. CTDHelperComm_getRtn v ta s = Inr (m, t) \<and> hm_reader t = r1 \<and>
    rd_prefix r1 = rd_prefix (hm_reader s) \<and> hm_self_id t = hm_self_id s \<and>
    (case ys of
       [] \<Rightarrow> m = None \<and> th_order_track t = th_order_track s \<and>
         reader_at (vw_files v (rd_prefix (hm_reader s))) pgs r1 xs
     | y # _ \<Rightarrow>
         reader_at (vw_files v (rd_prefix (hm_reader s))) pgs r1 (xs @ [y]) \<and>
         (if mine (hm_self_id s) (length (th_order_track s)) y
          then m = Some (or_rtn_msg y) \<and> th_order_track t = book_rtn (or_rtn_msg y) (th_order_track s)
          else m = None \<and> th_order_track t = th_order_track s))"
proof -
  from read_next [OF assms] obtain d r1 where d: "CRawIOReader_read v (hm_reader s) = Inr (d, r1)"
      "rd_prefix r1 = rd_prefix (hm_reader s)"
      "case ys of
         [] \<Rightarrow> d = None \<and> reader_at (vw_files v (rd_prefix (hm_reader s))) pgs r1 xs
       | y # _ \<Rightarrow> (\<exists>len. d = Some (y, len)) \<and> reader_at (vw_files v (rd_prefix (hm_reader s))) pgs r1 (xs @ [y])"
    by (elim exE conjE)
  show ?thesis
  proof (cases ys)
    case Nil
    with d show ?thesis by (simp add: CTDHelperComm_getRtn_def CTDHelperComm_doGetRtn_def ITDHelper_getRtn_def)
  next
    case (Cons y ys1)
    with d show ?thesis
      by (auto simp: CTDHelperComm_getRtn_def CTDHelperComm_doGetRtn_def ITDHelper_getRtn_def mine_def book_rtn_def
          upd_track_def Let_def CTDHelperComm_notifyTDEngineAdd_def sys_request_def IO_ORDER_RTN_def IO_TD_START_def)
  qed
qed

lemma poll_reads:
  assumes "files_ok ps (vw_files v (rd_prefix (hm_reader s))) pgs"
    and "reader_at (vw_files v (rd_prefix (hm_reader s))) pgs (hm_reader s) xs"
    and "concat pgs = xs @ ys" "\<forall>n. vw_open v (rd_prefix (hm_reader s)) n" "length ys \<le> n"
  shows "\<exists>t. poll n v ta s = Inr (map or_rtn_msg (filter (mine (hm_self_id s) (length (th_order_track s))) ys), t) \<and>
    th_order_track t = fold book_rtn (map or_rtn_msg (filter (mine (hm_self_id s) (length (th_order_track s))) ys))
      (th_order_track s) \<and>
    reader_at (vw_files v (rd_prefix (hm_reader s))) pgs (hm_reader t) (concat pgs)"
  using assms
proof (induction n arbitrary: s xs ys)
  case 0
  then show ?case by simp
next
  case (Suc n)
  from getRtn_step [OF Suc.prems(1-4), of ta] obtain r1 m s1 where
    g: "CTDHelperComm_getRtn v ta s = Inr (m, s1)" "hm_reader s1 = r1" "rd_prefix r1 = rd_prefix (hm_reader s)"
      "hm_self_id s1 = hm_self_id s"
      "case ys of
         [] \<Rightarrow> m = None \<and> th_order_track s1 = th_order_track s \<and>
           reader_at (vw_files v (rd_prefix (hm_reader s))) pgs r1 xs
       | y # _ \<Rightarrow>
           reader_at (vw_files v (rd_prefix (hm_reader s))) pgs r1 (xs @ [y]) \<and>
           (if mine (hm_self_id s) (length (th_order_track s)) y
            then m = Some (or_rtn_msg y) \<and> th_order_track s1 = book_rtn (or_rtn_msg y) (th_order_track s)
            else m = None \<and> th_order_track s1 = th_order_track s)"
    by (elim exE conjE)
  note same = g(3) [folded g(2)]
  note IH = Suc.IH [of s1, unfolded same, OF Suc.prems(1) _ _ Suc.prems(4)]
  show ?case
  proof (cases ys)
    case Nil
    with g(2,5) have "reader_at (vw_files v (rd_prefix (hm_reader s))) pgs (hm_reader s1) xs" by simp
    from IH [OF this Suc.prems(3)] Nil g show ?thesis by auto
  next
    case (Cons y ys1)
    with g(2,5) have "reader_at (vw_files v (rd_prefix (hm_reader s))) pgs (hm_reader s1) (xs @ [y])" by simp
    from IH [OF this, of ys1] Suc.prems(3,5) Cons obtain t where
      t: "poll n v ta s1 = Inr (map or_rtn_msg (filter (mine (hm_self_id s1) (length (th_order_track s1))) ys1), t)"
        "th_order_track t = fold book_rtn (map or_rtn_msg (filter (mine (hm_self_id s1) (length (th_order_track s1))) ys1))
          (th_order_track s1)"
        "reader_at (vw_files v (rd_prefix (hm_reader s))) pgs (hm_reader t) (concat pgs)" by auto
    have len: "length (th_order_track s1) = length (th_order_track s)" using g(5) Cons by (auto split: if_splits)
    with t g(1,4,5) Cons show ?thesis by (auto split: if_splits)
  qed
qed

end
