(* ===== verification/Client_Properties.thy ===== *)
theory Client_Properties
  imports Td_Comm Io_Properties
begin

text \<open>What a client of a trading engine can rely on: its orders go out, its reports come in.\<close>

section \<open>Orders\<close>

text \<open>
  An order that a client places gets the next number of its list and goes out as exactly one frame
  of its channel, with all its fields and under that number; the orders before it keep their numbers
  and records. The page size only has to leave room for the frame.
\<close>

theorem orders_go_out_once:
  assumes "writer_at ps Ready (hm_writer s) pgs" "grants ioenv"
    and "PAGE_HEAD_SIZE + FRAME_HEAD_SIZE + INPUT_ORDER_SIZE \<le> ps"
  shows "\<exists>t pgs1. CTDHelperComm_sendOrder ioenv now md_time instr price vol dir off acc stg h s =
      Inr (int (length (th_order_track s)), t) \<and>
    writer_at ps Ready (hm_writer t) pgs1 \<and>
    concat pgs1 = concat pgs @ [OrderFrame
      \<lparr>in_extra_nano = md_time, in_from = hm_self_id s, in_local_id = int (length (th_order_track s)),
       in_acc_idx = acc, in_instr_hash = h, in_instr = take 30 (c_str instr), in_price = price, in_vol = vol,
       in_dir = dir mod 256, in_off = off mod 256, in_stg_id = stg\<rparr>] \<and>
    length (th_order_track t) = Suc (length (th_order_track s)) \<and>
    take (length (th_order_track s)) (th_order_track t) = th_order_track s"
proof -
  let ?n = "length (th_order_track s)"
  let ?track = "order_track_init
      \<lparr>ot_status := ODS_SEND, ot_instr_hash := h, ot_instr := take 30 (c_str instr), ot_price := price,
       ot_vol := vol, ot_dir := dir, ot_off := off, ot_stg_id := stg, ot_acc_id := acc, ot_local_id := int ?n\<rparr>"
  let ?s = "s\<lparr>th_order_track := th_order_track s @ [?track]\<rparr>"
  have "writer_at ps Ready (hm_writer ?s) pgs" "0 \<le> INPUT_ORDER_SIZE" using assms(1) by (simp_all add: INPUT_ORDER_SIZE_def)
  from send_frame_ok [OF this(1) assms(2) this(2) assms(3), of now "order_frame (hm_self_id s) md_time ?n ?track"]
  obtain w1 pgs1 where w: "send_frame ioenv now INPUT_ORDER_SIZE (order_frame (hm_self_id s) md_time ?n ?track) ?s =
      Inr (?s\<lparr>hm_writer := w1\<rparr>)" "writer_at ps Ready w1 pgs1"
      "concat pgs1 = concat pgs @ [order_frame (hm_self_id s) md_time ?n ?track]" by blast
  have "CTDHelperComm_sendOrder ioenv now md_time instr price vol dir off acc stg h s =
      Inr (int ?n, ?s\<lparr>hm_writer := w1\<rparr>)"
    using w(1) by (simp add: CTDHelperComm_sendOrder_def ITDHelper_sendOrder_def CTDHelperComm_doSendOrder_def
        ITDHelper_getOrderTrack_def Let_def)
  with w(2,3) show ?thesis
    by (intro exI [of _ "?s\<lparr>hm_writer := w1\<rparr>"] exI [of _ pgs1]) (simp add: order_frame_def order_track_init_def)
qed

definition new_client :: "td_frame io_writer \<Rightarrow> io_reader \<Rightarrow> td_comm" where
  "new_client w r =
     \<lparr>th_order_track = [order_track_init\<lparr>ot_vol := 5\<rparr>], th_name = ''stg'', hm_self_id = 77, hm_tdsend_path = [],
      hm_writer = w, hm_reader = r, hm_td_engine_id = 1, hm_timeout = 3, hm_base = trade_base_init,
      hm_request_id = 0, hm_sent = []\<rparr>"

theorem orders_go_out_once_witness:
  "\<exists>w t. CTDHelperComm_sendOrder all_granted 100 99 ''ag1912'' 4321 2 48 48 0 0 7 (new_client w CRawIOReader_new) = Inr (1, t)"
proof -
  have ps: "PAGE_HEAD_SIZE \<le> 200" "(200 :: int) < 2 ^ 31" by (simp_all add: page_consts)
  obtain w :: "td_frame io_writer" where w: "writer_at 200 Ready w [[]]"
    using writer_init_ok [OF ps all_granted, of 1 True] by blast
  then have "writer_at 200 Ready (hm_writer (new_client w CRawIOReader_new)) [[]]" by (simp add: new_client_def)
  from orders_go_out_once [OF this all_granted, of 100 99 "''ag1912''" 4321 2 48 48 0 0 7] show ?thesis
    by (auto simp: page_consts INPUT_ORDER_SIZE_def new_client_def)
qed

text \<open>A cancel goes out as one frame with the identity the engine gave the order.\<close>

lemma cancels_go_out_once:
  assumes "writer_at ps Ready (hm_writer s) pgs" "grants ioenv"
    and "PAGE_HEAD_SIZE + FRAME_HEAD_SIZE + ORDER_ACTION_SIZE \<le> ps"
    and "0 \<le> k" "nat k < length (th_order_track s)" "0 \<le> ot_order_ref (th_order_track s ! nat k)"
      "ot_status (th_order_track s ! nat k) AND (ODS_TDSEND OR ODS_EXECUTION OR ODS_ACCEPT OR ODS_MARKET_ACCEPT) \<noteq> 0"
      "ot_status (th_order_track s ! nat k) AND ODS_CLOSED = 0"
  shows "\<exists>t pgs1. CTDHelperComm_deleteOrder ioenv now k s = Inr (0, t) \<and> writer_at ps Ready (hm_writer t) pgs1 \<and>
    concat pgs1 = concat pgs @ [action_frame (hm_self_id s) (nat k) (th_order_track s ! nat k)]"
proof -
  have "0 \<le> ORDER_ACTION_SIZE" by (simp add: ORDER_ACTION_SIZE_def)
  from send_frame_ok [OF assms(1,2) this assms(3), of now "action_frame (hm_self_id s) (nat k) (th_order_track s ! nat k)"]
  obtain w1 pgs1 where "send_frame ioenv now ORDER_ACTION_SIZE
      (action_frame (hm_self_id s) (nat k) (th_order_track s ! nat k)) s = Inr (s\<lparr>hm_writer := w1\<rparr>)"
      "writer_at ps Ready w1 pgs1"
      "concat pgs1 = concat pgs @ [action_frame (hm_self_id s) (nat k) (th_order_track s ! nat k)]" by blast
  with assms(4-) show ?thesis
    by (intro exI [of _ "upd_track (nat k) (\<lambda>t. t\<lparr>ot_status := ot_status t OR ODS_CXLING\<rparr>) (s\<lparr>hm_writer := w1\<rparr>)"] exI [of _ pgs1])
      (simp add: CTDHelperComm_deleteOrder_def ITDHelper_deleteOrder_def CTDHelperComm_doDelOrder_def
        ITDHelper_getOrderTrack_def upd_track_def Let_def)
qed

section \<open>Reports\<close>

text \<open>
  C27. A client that calls \<^verbatim>\<open>getRtn\<close> as often as the channel of its engine has unread frames gets exactly
  the reports addressed to it for orders it has, in their order and each once, and its records are what
  these reports make of them one after the other; reports for others, start signals of the engine and
  page switches lose nothing.
\<close>

theorem client_gets_its_reports:
  assumes "writer_at ps ph w pgs" "vw_files v (rd_prefix (hm_reader s)) = wr_files w"
    and "\<forall>n. vw_open v (rd_prefix (hm_reader s)) n"
    and "reader_at (wr_files w) pgs (hm_reader s) xs" "concat pgs = xs @ ys"
  shows "\<exists>t. poll (length ys) v ta s =
      Inr (map or_rtn_msg (filter (mine (hm_self_id s) (length (th_order_track s))) ys), t) \<and>
    th_order_track t = fold book_rtn (map or_rtn_msg (filter (mine (hm_self_id s) (length (th_order_track s))) ys))
      (th_order_track s) \<and>
    reader_at (wr_files w) pgs (hm_reader t) (concat pgs)"
  using poll_reads [of ps v s pgs xs ys "length ys" ta] writer_atD(1) [OF assms(1)] assms(2-5) by simp

definition no_answers :: "td_comm td_answers" where
  "no_answers = \<lparr>ta_ack = (\<lambda>_. False), ta_base = (\<lambda>_. None), ta_tracks = (\<lambda>_. None), ta_switch_day = (\<lambda>_ s. Inr s)\<rparr>"

definition some_rtn :: "int \<Rightarrow> io_order_rtn" where
  "some_rtn dest = \<lparr>or_cmd = IO_ORDER_RTN, or_to = dest, or_rtn_msg = rtn_msg_init\<lparr>rm_msg_type := ODS_EXECUTION, rm_vol := 2\<rparr>\<rparr>"

text \<open>Three frames for other and own orders, written after the client came, across a page switch.\<close>

theorem client_gets_its_reports_witness:
  "\<exists>(w :: io_order_rtn io_writer) r t. poll 3 (view_of zero_rtn (\<lambda>_. True) (wr_files w)) no_answers (new_client (CRawIOWriter_new 300 True []) r) =
      Inr ([or_rtn_msg (some_rtn 77), or_rtn_msg (some_rtn 77)], t) \<and>
    map ot_vol_traded (th_order_track t) = [4]"
proof -
  have ps: "PAGE_HEAD_SIZE \<le> 300" "(300 :: int) < 2 ^ 31" by (simp_all add: page_consts)
  have room: "0 \<le> RTN_SIZE" "PAGE_HEAD_SIZE + FRAME_HEAD_SIZE + RTN_SIZE \<le> 300" by (simp_all add: page_consts RTN_SIZE_def)
  obtain w :: "io_order_rtn io_writer" where w: "writer_at 300 Ready w [[]]"
    using writer_init_ok [OF ps all_granted, of 1 True] by blast
  from attach_ok [OF w, of zero_rtn "''td''"] obtain r where r: "reader_at (wr_files w) [[]] r []" by auto
  from write_ok [OF w all_granted room, of 0 "some_rtn 77" 2] obtain w1 p1 where
    w1: "writer_at 300 Ready w1 p1" "concat p1 = [some_rtn 77]" "keeps_readers (wr_files w) [[]] (wr_files w1) p1"
    by auto
  from write_ok [OF w1(1) all_granted room, of 0 "some_rtn 5" 3] obtain w2 p2 where
    w2: "writer_at 300 Ready w2 p2" "concat p2 = [some_rtn 77, some_rtn 5]" "keeps_readers (wr_files w1) p1 (wr_files w2) p2"
    using w1(2) by auto
  from write_ok [OF w2(1) all_granted room, of 0 "some_rtn 77" 4] obtain w3 p3 where
    w3: "writer_at 300 Ready w3 p3" "concat p3 = [] @ [some_rtn 77, some_rtn 5, some_rtn 77]"
      "keeps_readers (wr_files w2) p2 (wr_files w3) p3"
    using w2(2) by auto
  have "reader_at (wr_files w3) p3 (hm_reader (new_client (CRawIOWriter_new 300 True []) r)) []"
    using r w1(3) w2(3) w3(3) by (simp add: keeps_readers_def new_client_def)
  note at = this
  have "vw_files (view_of zero_rtn (\<lambda>_. True) (wr_files w3)) (rd_prefix (hm_reader (new_client (CRawIOWriter_new 300 True []) r))) = wr_files w3"
    "\<forall>n. vw_open (view_of zero_rtn (\<lambda>_. True) (wr_files w3)) (rd_prefix (hm_reader (new_client (CRawIOWriter_new 300 True []) r))) n"
    by simp_all
  from client_gets_its_reports [OF w3(1) this at w3(2), of no_answers] obtain t where
    "poll 3 (view_of zero_rtn (\<lambda>_. True) (wr_files w3)) no_answers (new_client (CRawIOWriter_new 300 True []) r) =
      Inr ([or_rtn_msg (some_rtn 77), or_rtn_msg (some_rtn 77)], t) \<and> map ot_vol_traded (th_order_track t) = [4]"
    by (auto simp: mine_def some_rtn_def new_client_def rtn_msg_init_def book_rtn_def track_rtn_def Let_def
        IO_ORDER_RTN_def order_track_init_def numeral_3_eq_3)
  then show ?thesis by (intro exI)
qed

end
