(* ===== verification/Td_Ees.thy ===== *)
theory Td_Ees
  imports Td_Reports
begin

text \<open>
  \<^verbatim>\<open>td/CTDEngineEES\<close> and \<^verbatim>\<open>td/CTDEngineEESV2\<close>, the engines on two versions of the EES interface. The
  two classes are the same but for the address they connect to and three reports of the market, which
  in the second version do not carry the number of the order (\<open>v2\<close>).

  As for the CTP gateway, the interface is a vendor library: what the code hands to it is recorded
  (\<open>es_sent\<close>), its return codes and callbacks are inputs, and its structures have the fields the code
  reads or computes. A waiting loop is the sequence of callbacks that arrive while it waits.
\<close>

section \<open>Reports about tracked orders\<close>

text \<open>
  The steps of a report in the derived engines: the record of the order is changed, the message is
  written from it and completed, and the risk control is told.
\<close>

definition report_track ::
    "'t eng_env \<Rightarrow> int \<Rightarrow> (order_track \<Rightarrow> order_track) \<Rightarrow> (order_track \<Rightarrow> rtn_msg \<Rightarrow> rtn_msg) \<Rightarrow>
     ('t, 'a) td_engine_scheme \<Rightarrow> ('t, 'a) td_engine_scheme res" where
  "report_track env ref f fill s =
     (let s1 = upd_request_track ref f s in
      res_bind (ITDEngine_get_request_track ref s1) (\<lambda>t.
      res_bind (put_rtn env (\<lambda>p. let q = ITDEngine_writeRtnFromTrack t p in
                  q\<lparr>or_rtn_msg := fill t (or_rtn_msg q)\<rparr>) s1) (\<lambda>(m, s2).
        ITDEngine_engine_on_rtn env (ot_acc_id t) t m s2)))"

definition add_status :: "int \<Rightarrow> order_track \<Rightarrow> order_track" where
  "add_status flag t = t\<lparr>ot_status := ot_status t OR flag\<rparr>"

definition strncpy_msg :: "string \<Rightarrow> rtn_msg \<Rightarrow> rtn_msg" where
  "strncpy_msg msg m = m\<lparr>rm_msg := take 80 (c_str msg)\<rparr>"

text \<open>\<^verbatim>\<open>otmmap_.clearTrack()\<close>: \<^verbatim>\<open>memset(order_track, 0, ..)\<close>, references included.\<close>

definition clear_track :: "('t, 'a) td_engine_scheme \<Rightarrow> ('t, 'a) td_engine_scheme" where
  "clear_track s =
     s\<lparr>te_request_track := (\<lambda>_. order_track_init\<lparr>ot_order_ref := 0, ot_front_id := 0, ot_session_id := 0\<rparr>)\<rparr>"

text \<open>The first lines of \<^verbatim>\<open>updateOrderTrack\<close>: records of another day are cleared. \<^verbatim>\<open>getBuf()\<close> may be null.\<close>

definition open_track_day :: "('t, 'a) td_engine_scheme \<Rightarrow> ('t, 'a) td_engine_scheme res" where
  "open_track_day s =
     (if \<not> te_track_mapped s then Inl NullDeref
      else
        (let day = tb_trading_day (te_base s) in
         Inr ((if day \<noteq> te_track_day s then clear_track s else s)\<lparr>te_track_day := c_str day\<rparr>)))"

definition clear_amounts :: "('t, 'a) td_engine_scheme \<Rightarrow> ('t, 'a) td_engine_scheme" where
  "clear_amounts s = s\<lparr>te_request_track := (\<lambda>k. (te_request_track s k)\<lparr>ot_amount_traded := 0\<rparr>)\<rparr>"

section \<open>Structures of the interface\<close>

datatype ees_side =
    EES_open_long
  | EES_close_today_long
  | EES_close_today_short
  | EES_open_short
  | EES_close_ovn_short
  | EES_close_ovn_long
  | EES_other_side int

record ees_order =
  eo_Account :: string
  eo_Side :: ees_side
  eo_Symbol :: string
  eo_Exchange :: int
  eo_Price :: double
  eo_Qty :: int
  eo_ClientOrderToken :: int

record ees_cancel =
  ec_Account :: string
  ec_Quantity :: int
  ec_MarketOrderToken :: int

text \<open>The bits of an order's state the code tests.\<close>

record ees_status =
  st_cxl_requested :: bool
  st_cancelled :: bool
  st_executed :: bool
  st_mkt_accept :: bool
  st_shengli_accept :: bool
  st_closed :: bool

record ees_query_order =
  eq_ClientOrderToken :: int
  eq_MarketOrderToken :: int
  eq_symbol :: string
  eq_Price :: double
  eq_Quantity :: int
  eq_SideType :: ees_side
  eq_FilledQty :: int
  eq_OrderStatus :: ees_status

record ees_symbol =
  ey_symbol :: string
  ey_ExchangeID :: int
  ey_ProdID :: string
  ey_VolumeMultiple :: int
  ey_PriceTick :: double
  ey_ExpireDate :: int
  ey_IsTrading :: bool

record ees_execution =
  ee_ClientOrderToken :: int
  ee_MarketOrderToken :: int
  ee_ExecutionID :: int
  ee_Price :: double
  ee_Quantity :: int

datatype ees_request =
    ConnServer int int
  | UserLogon int string string string
  | QueryUserAccount int
  | QuerySymbolList
  | QueryAccountOrder int string
  | QueryAccountOrderExecution int string
  | EnterOrder int ees_order
  | CancelOrder int ees_cancel
  | DisConnServer int

text \<open>
  The vendor's side: what each call returns, whether it hands out an interface object, the size of
  its field for a symbol, and the structures as its constructors leave them.
\<close>

record ees_vendor =
  ev_ret :: "ees_request \<Rightarrow> int"
  ev_create :: "int \<Rightarrow> bool"
  ev_symbol_size :: nat
  ev_order :: ees_order
  ev_cancel :: ees_cancel

section \<open>State\<close>

text \<open>An account of the configuration: login, password, address of the network card and local port.\<close>

type_synonym ees_conf = "string \<times> string \<times> string \<times> int"

record ees_unit =
  eu_api :: bool
  eu_order :: ees_order
  eu_action_order :: ees_cancel
  eu_connected :: bool
  eu_logged_in :: bool

record 't td_ees = "'t td_engine" +
  es_account_units :: "ees_unit list"
  es_curAccountIdx :: int
  es_query_complete_flag :: bool
  es_max_ref_id :: int
  es_sent :: "ees_request list"

definition es_unit :: "int \<Rightarrow> 't td_ees \<Rightarrow> ees_unit res" where
  "es_unit idx s =
     (if 0 \<le> idx \<and> nat idx < length (es_account_units s) then Inr (es_account_units s ! nat idx)
      else Inl OutOfRange)"

definition upd_es_unit :: "int \<Rightarrow> (ees_unit \<Rightarrow> ees_unit) \<Rightarrow> 't td_ees \<Rightarrow> 't td_ees res" where
  "upd_es_unit idx f s =
     res_bind (es_unit idx s) (\<lambda>u. Inr (s\<lparr>es_account_units := (es_account_units s)[nat idx := f u]\<rparr>))"

definition ees_call :: "ees_vendor \<Rightarrow> int \<Rightarrow> ees_request \<Rightarrow> 't td_ees \<Rightarrow> (int \<times> 't td_ees) res" where
  "ees_call ev idx q s =
     res_bind (es_unit idx s) (\<lambda>u.
       if eu_api u then Inr (ev_ret ev q, s\<lparr>es_sent := es_sent s @ [q]\<rparr>) else Inl NullDeref)"

definition CTDEngineEES_is_connected :: "'t td_ees \<Rightarrow> bool" where
  "CTDEngineEES_is_connected s = list_all eu_connected (es_account_units s)"

definition CTDEngineEES_is_logged_in :: "'t td_ees \<Rightarrow> bool" where
  "CTDEngineEES_is_logged_in s = list_all eu_logged_in (es_account_units s)"

text \<open>\<^verbatim>\<open>release\<close> disconnects what is connected and destroys every object.\<close>

definition CTDEngineEES_release :: "'t td_ees \<Rightarrow> 't td_ees res" where
  "CTDEngineEES_release s =
     (if list_ex (\<lambda>u. eu_connected u \<and> \<not> eu_api u) (es_account_units s) then Inl NullDeref
      else Inr (s\<lparr>es_sent := es_sent s @ map (\<lambda>i. DisConnServer (int i))
                    (filter (\<lambda>i. eu_connected (es_account_units s ! i)) [0..<length (es_account_units s)]),
                  es_account_units := map (\<lambda>u. u\<lparr>eu_api := False, eu_connected := False,
                    eu_logged_in := (if eu_connected u then False else eu_logged_in u)\<rparr>)
                    (es_account_units s)\<rparr>))"

section \<open>Callbacks of the connection\<close>

definition CTDEngineEES_OnConnection :: "int \<Rightarrow> 't td_ees \<Rightarrow> 't td_ees res" where
  "CTDEngineEES_OnConnection errNo s =
     (if errNo \<noteq> 0 then Inr s
      else upd_es_unit (es_curAccountIdx s) (\<lambda>u. u\<lparr>eu_connected := True\<rparr>) s)"

definition CTDEngineEES_OnDisConnection :: "'t td_ees \<Rightarrow> 't td_ees res" where
  "CTDEngineEES_OnDisConnection s =
     CTDEngineEES_release (s\<lparr>es_account_units :=
         map (\<lambda>u. u\<lparr>eu_connected := False, eu_logged_in := False\<rparr>) (es_account_units s),
       te_do_running := False\<rparr>)"

text \<open>The logon brings the trading day and the greatest number used so far.\<close>

definition CTDEngineEES_OnUserLogon :: "int \<Rightarrow> int \<Rightarrow> int \<Rightarrow> 't td_ees \<Rightarrow> 't td_ees res" where
  "CTDEngineEES_OnUserLogon result day max_token s =
     (if result \<noteq> 0 then Inr s
      else
        res_bind (upd_es_unit (es_curAccountIdx s) (\<lambda>u. u\<lparr>eu_logged_in := True\<rparr>) s) (\<lambda>s1.
          let m = (if es_max_ref_id s1 > max_token then es_max_ref_id s1 else max_token) in
          Inr (s1\<lparr>te_base := (te_base s1)\<lparr>tb_trading_day := int2string day\<rparr>,
                 es_max_ref_id := m,
                 te_request_id := (if m + 1 > te_request_id s1 then m + 1 else te_request_id s1)\<rparr>)))"

definition CTDEngineEES_OnQueryUserAccount :: "string \<Rightarrow> bool \<Rightarrow> 't td_ees \<Rightarrow> 't td_ees res" where
  "CTDEngineEES_OnQueryUserAccount account fin s =
     upd_es_unit (es_curAccountIdx s) (\<lambda>u.
       if fin then u\<lparr>eu_logged_in := True\<rparr>
       else u\<lparr>eu_order := (eu_order u)\<lparr>eo_Account := c_str account\<rparr>,
              eu_action_order := (eu_action_order u)\<lparr>ec_Account := c_str account, ec_Quantity := 0\<rparr>\<rparr>) s"

definition CTDEngineEES_OnQuerySymbol :: "ees_symbol \<Rightarrow> bool \<Rightarrow> 't td_ees \<Rightarrow> 't td_ees" where
  "CTDEngineEES_OnQuerySymbol y fin s =
     (if fin then s\<lparr>te_base := (te_base s)\<lparr>tb_is_init := True\<rparr>\<rparr>
      else
        (let h = INSTR_NAME_TO_HASH (c_str (ey_symbol y));
             product = take 30 (c_str (ey_ProdID y));
             info = \<lparr>ii_instr_hash = h, ii_instr = take 30 (c_str (ey_symbol y)), ii_exch = ey_ExchangeID y,
                     ii_product = product, ii_product_hash = INSTR_NAME_TO_HASH product,
                     ii_vol_multiple = ey_VolumeMultiple y, ii_tick_price = ey_PriceTick y,
                     ii_expire_date = take 8 (int2string (ey_ExpireDate y)), ii_is_trading = ey_IsTrading y\<rparr>
         in s\<lparr>te_base := (te_base s)\<lparr>tb_instr_info := AList.update h info (tb_instr_info (te_base s))\<rparr>\<rparr>))"

section \<open>Orders of earlier runs\<close>

definition side_dir_off :: "ees_side \<Rightarrow> (int \<times> int) option" where
  "side_dir_off side =
     (case side of
        EES_open_long \<Rightarrow> Some (AT_CHAR_Buy, AT_CHAR_Open)
      | EES_close_today_long \<Rightarrow> Some (AT_CHAR_Sell, AT_CHAR_CloseToday)
      | EES_close_today_short \<Rightarrow> Some (AT_CHAR_Buy, AT_CHAR_CloseToday)
      | EES_open_short \<Rightarrow> Some (AT_CHAR_Sell, AT_CHAR_Open)
      | EES_close_ovn_short \<Rightarrow> Some (AT_CHAR_Buy, AT_CHAR_CloseYesterday)
      | EES_close_ovn_long \<Rightarrow> Some (AT_CHAR_Sell, AT_CHAR_CloseYesterday)
      | EES_other_side _ \<Rightarrow> None)"

definition queried_status :: "ees_query_order \<Rightarrow> int" where
  "queried_status q =
     (let st = eq_OrderStatus q;
          has = (\<lambda>b flag x. if b then x OR flag else x :: int)
      in has (eq_FilledQty q \<ge> eq_Quantity q) ODS_CLOSED
          ((\<lambda>x. if st_closed st
                then (if \<not> st_shengli_accept st then x OR ODS_REJECT
                      else if \<not> st_mkt_accept st then x OR ODS_MARKET_REJECT else x)
                else x)
            (has (st_shengli_accept st) ODS_ACCEPT
              (has (st_mkt_accept st) ODS_MARKET_ACCEPT
                (has (st_executed st) ODS_EXECUTION
                  (has (st_cancelled st) ODS_CANCELED
                    (has (st_cxl_requested st) ODS_CXLING ODS_TDSEND)))))))"

definition queried_track :: "int \<Rightarrow> ees_query_order \<Rightarrow> order_track \<Rightarrow> order_track" where
  "queried_track acc q t =
     (let name = take 30 (c_str (eq_symbol q));
          t1 = t\<lparr>ot_instr := name, ot_instr_hash := INSTR_NAME_TO_HASH name, ot_price := eq_Price q,
                 ot_vol := eq_Quantity q\<rparr>;
          t2 = (case side_dir_off (eq_SideType q) of
                  None \<Rightarrow> t1 | Some (dir, off) \<Rightarrow> t1\<lparr>ot_dir := dir, ot_off := off\<rparr>)
      in t2\<lparr>ot_vol_traded := eq_FilledQty q, ot_acc_id := acc, ot_order_ref := eq_ClientOrderToken q,
            ot_front_id := eq_MarketOrderToken q, ot_session_id := 1, ot_status := queried_status q\<rparr>)"

definition CTDEngineEES_OnQueryTradeOrder :: "ees_query_order \<Rightarrow> bool \<Rightarrow> 't td_ees \<Rightarrow> 't td_ees res" where
  "CTDEngineEES_OnQueryTradeOrder q fin s =
     (if fin then Inr (s\<lparr>es_query_complete_flag := True\<rparr>)
      else
        (let ref = eq_ClientOrderToken q in
         if \<not> ITDEngine_checkRequestId ref s then Inr s
         else
           res_bind (ITDEngine_get_request_track ref s) (\<lambda>_.
             let s1 = upd_request_track ref (queried_track (es_curAccountIdx s) q) s in
             Inr (s1\<lparr>es_max_ref_id := (if ref > es_max_ref_id s1 then ref else es_max_ref_id s1)\<rparr>))))"

definition CTDEngineEES_OnQueryTradeOrderExec :: "int \<Rightarrow> double \<Rightarrow> int \<Rightarrow> bool \<Rightarrow> 't td_ees \<Rightarrow> 't td_ees res" where
  "CTDEngineEES_OnQueryTradeOrderExec ref price qty fin s =
     (if fin then Inr (s\<lparr>es_query_complete_flag := True\<rparr>)
      else if \<not> ITDEngine_checkRequestId ref s then Inr s
      else
        res_bind (ITDEngine_get_request_track ref s) (\<lambda>_.
          Inr (upd_request_track ref (\<lambda>t. t\<lparr>ot_amount_traded := ot_amount_traded t + price * of_int qty\<rparr>) s)))"

section \<open>Reports of the broker and the market\<close>

text \<open>The number of the market for an order: \<^verbatim>\<open>front_id\<close>, known where \<^verbatim>\<open>session_id\<close> is set.\<close>

definition market_token :: "int \<Rightarrow> order_track \<Rightarrow> order_track" where
  "market_token token t = t\<lparr>ot_front_id := token, ot_session_id := 1\<rparr>"

definition CTDEngineEES_OnOrderAccept :: "'t eng_env \<Rightarrow> int \<Rightarrow> int \<Rightarrow> 't td_ees \<Rightarrow> 't td_ees res" where
  "CTDEngineEES_OnOrderAccept env ref token s =
     (if \<not> ITDEngine_checkRequestId ref s then Inr s
      else
        res_bind (ITDEngine_get_request_track ref s) (\<lambda>t.
          if ot_status t AND ODS_ACCEPT \<noteq> 0 then Inr s
          else report_track env ref (\<lambda>t. market_token token (add_status ODS_ACCEPT t))
                 (\<lambda>_ m. m\<lparr>rm_msg_type := ODS_ACCEPT\<rparr>) s))"

definition CTDEngineEES_OnOrderReject :: "'t eng_env \<Rightarrow> int \<Rightarrow> int \<Rightarrow> 't td_ees \<Rightarrow> 't td_ees res" where
  "CTDEngineEES_OnOrderReject env ref reason s =
     (if \<not> ITDEngine_checkRequestId ref s then Inr s
      else
        res_bind (ITDEngine_get_request_track ref s) (\<lambda>t.
          if ot_status t AND ODS_REJECT \<noteq> 0 then Inr s
          else report_track env ref (add_status ODS_REJECT)
                 (\<lambda>_ m. m\<lparr>rm_msg_type := ODS_REJECT, rm_errid := reason\<rparr>) s))"

text \<open>What the two versions share of the market's answer, once they know the order.\<close>

definition market_accepted :: "'t eng_env \<Rightarrow> int \<Rightarrow> int \<Rightarrow> 't td_ees \<Rightarrow> 't td_ees res" where
  "market_accepted env ref token s =
     res_bind (ITDEngine_get_request_track ref s) (\<lambda>t.
       if ot_status t AND ODS_MARKET_ACCEPT \<noteq> 0 then Inr s
       else report_track env ref (\<lambda>t. market_token token (add_status ODS_MARKET_ACCEPT t))
              (\<lambda>_ m. m\<lparr>rm_msg_type := ODS_MARKET_ACCEPT\<rparr>) s)"

definition market_rejected :: "'t eng_env \<Rightarrow> int \<Rightarrow> int \<Rightarrow> string \<Rightarrow> 't td_ees \<Rightarrow> 't td_ees res" where
  "market_rejected env ref token reason s =
     res_bind (ITDEngine_get_request_track ref s) (\<lambda>t.
       if ot_status t AND ODS_MARKET_REJECT \<noteq> 0 then Inr s
       else report_track env ref (\<lambda>t. market_token token (add_status ODS_MARKET_REJECT t))
              (\<lambda>_ m. strncpy_msg reason (m\<lparr>rm_msg_type := ODS_MARKET_REJECT, rm_errid := -1\<rparr>)) s)"

definition CTDEngineEES_OnOrderMarketAccept :: "'t eng_env \<Rightarrow> int \<Rightarrow> int \<Rightarrow> 't td_ees \<Rightarrow> 't td_ees res" where
  "CTDEngineEES_OnOrderMarketAccept env ref token s =
     (if \<not> ITDEngine_checkRequestId ref s then Inr s else market_accepted env ref token s)"

definition CTDEngineEES_OnOrderMarketReject ::
    "'t eng_env \<Rightarrow> int \<Rightarrow> int \<Rightarrow> string \<Rightarrow> 't td_ees \<Rightarrow> 't td_ees res" where
  "CTDEngineEES_OnOrderMarketReject env ref token reason s =
     (if \<not> ITDEngine_checkRequestId ref s then Inr s else market_rejected env ref token reason s)"

text \<open>The newest order with a number of the market.\<close>

definition find_token :: "int \<Rightarrow> ('t, 'a) td_engine_scheme \<Rightarrow> int option res" where
  "find_token token s =
     (let ids = rev [te_request_id_start s..te_request_id s - 1] in
      if ids \<noteq> [] \<and> \<not> te_track_mapped s then Inl NullDeref
      else Inr (List.find (\<lambda>i. let t = te_request_track s (track_slot i) in
             ot_session_id t \<noteq> 0 \<and> ot_front_id t = token) ids))"

definition CTDEngineEESV2_OnOrderMarketAccept :: "'t eng_env \<Rightarrow> int \<Rightarrow> 't td_ees \<Rightarrow> 't td_ees res" where
  "CTDEngineEESV2_OnOrderMarketAccept env token s =
     res_bind (find_token token s) (\<lambda>r.
       case r of None \<Rightarrow> Inr s | Some ref \<Rightarrow> market_accepted env ref token s)"

definition CTDEngineEESV2_OnOrderMarketReject ::
    "'t eng_env \<Rightarrow> int \<Rightarrow> string \<Rightarrow> 't td_ees \<Rightarrow> 't td_ees res" where
  "CTDEngineEESV2_OnOrderMarketReject env token reason s =
     res_bind (find_token token s) (\<lambda>r.
       case r of None \<Rightarrow> Inr s | Some ref \<Rightarrow> market_rejected env ref token reason s)"

definition executed_track :: "ees_execution \<Rightarrow> order_track \<Rightarrow> order_track" where
  "executed_track x t =
     (let t1 = market_token (ee_MarketOrderToken x) ((add_status ODS_EXECUTION t)
                 \<lparr>ot_vol_traded := ot_vol_traded t + ee_Quantity x,
                  ot_amount_traded := ot_amount_traded t + ee_Price x * of_int (ee_Quantity x)\<rparr>)
      in if ot_vol_traded t1 \<ge> ot_vol t1 then add_status ODS_CLOSED t1 else t1)"

definition CTDEngineEES_OnOrderExecution :: "'t eng_env \<Rightarrow> ees_execution \<Rightarrow> 't td_ees \<Rightarrow> 't td_ees res" where
  "CTDEngineEES_OnOrderExecution env x s =
     (let ref = ee_ClientOrderToken x in
      if \<not> ITDEngine_checkRequestId ref s then Inr s
      else
        (case ITDEngine_testOtId ref (ee_ExecutionID x) s of (seen, s1) \<Rightarrow>
           if seen then Inr s1
           else report_track env ref (executed_track x)
                  (\<lambda>_ m. m\<lparr>rm_msg_type := ODS_EXECUTION, rm_price := ee_Price x, rm_vol := ee_Quantity x\<rparr>) s1))"

definition CTDEngineEES_OnOrderCxled ::
    "bool \<Rightarrow> 't eng_env \<Rightarrow> int \<Rightarrow> int \<Rightarrow> int \<Rightarrow> int \<Rightarrow> 't td_ees \<Rightarrow> 't td_ees res" where
  "CTDEngineEES_OnOrderCxled v2 env ref token decrement reason s =
     (if \<not> ITDEngine_checkRequestId ref s then Inr s
      else
        res_bind (ITDEngine_get_request_track ref s) (\<lambda>t.
          if ot_status t AND ODS_CANCELED \<noteq> 0 then Inr s
          else report_track env ref
                 (\<lambda>t. let t1 = add_status ODS_CANCELED t in if v2 then t1 else market_token token t1)
                 (\<lambda>_ m. m\<lparr>rm_msg_type := ODS_CANCELED, rm_vol := decrement, rm_errid := reason\<rparr>) s))"

definition CTDEngineEES_OnCxlOrderReject ::
    "'t eng_env \<Rightarrow> int \<Rightarrow> int \<Rightarrow> string \<Rightarrow> 't td_ees \<Rightarrow> 't td_ees res" where
  "CTDEngineEES_OnCxlOrderReject env token reason text s =
     res_bind (find_token token s) (\<lambda>r.
       case r of
         None \<Rightarrow> Inr s
       | Some ref \<Rightarrow>
           report_track env ref (\<lambda>t. market_token token (add_status ODS_CANCEL_REJECT t))
             (\<lambda>_ m. strncpy_msg text (m\<lparr>rm_msg_type := ODS_CANCEL_REJECT, rm_errid := reason\<rparr>)) s)"

section \<open>Requests of the clients\<close>

text \<open>An offset the two \<^verbatim>\<open>switch\<close> statements do not name leaves the side the order field had.\<close>

definition order_side :: "int \<Rightarrow> int \<Rightarrow> ees_side \<Rightarrow> ees_side" where
  "order_side dir off old =
     (if dir = AT_CHAR_Buy then
        (if off = AT_CHAR_Open then EES_open_long
         else if off = AT_CHAR_CloseToday then EES_close_today_short
         else if off = AT_CHAR_CloseYesterday \<or> off = AT_CHAR_Close then EES_close_ovn_short
         else old)
      else
        (if off = AT_CHAR_Open then EES_open_short
         else if off = AT_CHAR_CloseToday then EES_close_today_long
         else if off = AT_CHAR_CloseYesterday \<or> off = AT_CHAR_Close then EES_close_ovn_long
         else old))"

definition ees_record :: "input_order \<Rightarrow> int \<Rightarrow> order_track \<Rightarrow> order_track" where
  "ees_record data rid t =
     t\<lparr>ot_status := ODS_TDSEND, ot_instr_hash := in_instr_hash data, ot_instr := in_instr data,
       ot_price := in_price data, ot_vol := in_vol data, ot_dir := in_dir data,
       ot_off := in_off data, ot_vol_traded := 0, ot_from := in_from data,
       ot_local_id := in_local_id data, ot_acc_id := in_acc_idx data, ot_order_ref := rid,
       ot_front_id := 0, ot_session_id := 0, ot_stg_id := in_stg_id data\<rparr>"

definition ees_ack :: "input_order \<Rightarrow> int \<Rightarrow> io_order_rtn \<Rightarrow> io_order_rtn" where
  "ees_ack data rid p =
     \<lparr>or_cmd = IO_ORDER_RTN, or_to = in_from data,
      or_rtn_msg = (or_rtn_msg p)
        \<lparr>rm_msg_type := ODS_TDSEND, rm_local_id := in_local_id data,
         rm_instr_hash := in_instr_hash data, rm_instr := in_instr data,
         rm_price := in_price data, rm_vol := in_vol data, rm_dir := in_dir data,
         rm_off := in_off data, rm_order_ref := rid, rm_front_id := 0, rm_session_id := 0\<rparr>\<rparr>"

text \<open>After a successful send: the record, the answer to the client and the risk control.\<close>

definition order_entered ::
    "'t eng_env \<Rightarrow> input_order \<Rightarrow> ('t, 'a) td_engine_scheme \<Rightarrow> ('t, 'a) td_engine_scheme res" where
  "order_entered env data s =
     (let rid = te_request_id s in
      res_bind (ITDEngine_get_request_track rid s) (\<lambda>_.
      res_bind (put_rtn env (ees_ack data rid) (upd_request_track rid (ees_record data rid) s)) (\<lambda>(_, s2).
        upd_acc (in_acc_idx data) (RiskTop_onNew (en_ops env) (tb_instr_info (te_base s2)) (en_now env)
            (in_dir data) (in_off data) (in_price data) (in_vol data) (in_instr_hash data) rid)
          (s2\<lparr>te_request_id := rid + 1\<rparr>))))"

text \<open>The order in the account's field before and after its instrument is looked up.\<close>

definition sided_order :: "ees_vendor \<Rightarrow> input_order \<Rightarrow> ees_order \<Rightarrow> ees_order" where
  "sided_order ev data o1 =
     o1\<lparr>eo_Side := order_side (in_dir data) (in_off data) (eo_Side o1),
        eo_Symbol := take (ev_symbol_size ev - 1) (c_str (in_instr data))\<rparr>"

definition filled_order :: "ees_vendor \<Rightarrow> input_order \<Rightarrow> int \<Rightarrow> int \<Rightarrow> ees_order \<Rightarrow> ees_order" where
  "filled_order ev data exch rid o1 =
     (sided_order ev data o1)\<lparr>eo_Exchange := exch, eo_Price := in_price data, eo_Qty := in_vol data,
        eo_ClientOrderToken := rid\<rparr>"

text \<open>\<^verbatim>\<open>acc_utilis_[acc_idx]\<close> and \<^verbatim>\<open>account_units_[acc_idx]\<close> are not checked here.\<close>

definition CTDEngineEES_req_order_insert ::
    "ees_vendor \<Rightarrow> 't eng_env \<Rightarrow> input_order \<Rightarrow> 't td_ees \<Rightarrow> 't td_ees res" where
  "CTDEngineEES_req_order_insert ev env data s =
     (let idx = in_acc_idx data; tb = tb_instr_info (te_base s) in
      if \<not> (0 \<le> idx \<and> nat idx < length (te_acc_utilis s)) then Inl OutOfRange
      else
        res_bind (RiskTop_check (en_fuel env) (en_ops env) tb (en_now env)
            (in_dir data) (in_off data) (in_price data) (in_vol data) (in_instr_hash data)
            (te_acc_utilis s ! nat idx)) (\<lambda>(ret, r).
          let s1 = s\<lparr>te_acc_utilis := (te_acc_utilis s)[nat idx := r]\<rparr> in
          if ret \<noteq> 0 then ITDEngine_writeErrRtn_order env data ret ''risk check failed'' ODS_ERR s1
          else
            (case map_of tb (in_instr_hash data) of
               None \<Rightarrow>
                 res_bind (upd_es_unit idx (\<lambda>u. u\<lparr>eu_order := sided_order ev data (eu_order u)\<rparr>) s1)
                   (ITDEngine_writeErrRtn_order env data (-1) ''instrument not found in base info list'' ODS_ERR)
             | Some info \<Rightarrow>
                 res_bind (upd_es_unit idx (\<lambda>u. u\<lparr>eu_order :=
                     filled_order ev data (ii_exch info) (te_request_id s1) (eu_order u)\<rparr>) s1) (\<lambda>s2.
                 res_bind (es_unit idx s2) (\<lambda>u.
                 res_bind (ees_call ev idx (EnterOrder idx (eu_order u)) s2) (\<lambda>(code, s3).
                   if code = 0 then order_entered env data s3
                   else ITDEngine_writeErrRtn_order env data code ''EES EnterOrder failed.'' ODS_ERR s3))))))"

definition CTDEngineEES_req_order_action ::
    "ees_vendor \<Rightarrow> 't eng_env \<Rightarrow> order_action \<Rightarrow> 't td_ees \<Rightarrow> 't td_ees res" where
  "CTDEngineEES_req_order_action ev env data s =
     (let rid = oa_order_ref data; idx = oa_acc_idx data in
      if \<not> ITDEngine_checkRequestId rid s then
        ITDEngine_writeErrRtn_action env data (-1)
          ''cancel order reject by TDEngine: order_ref range err.'' ODS_CANCEL_REJECT s
      else
        res_bind (ITDEngine_get_request_track rid s) (\<lambda>t.
          if ot_session_id t = 0 then
            ITDEngine_writeErrRtn_action env data (-3) ''cancel failed: ees not get MarketToken yet.''
              ODS_CANCEL_REJECT s
          else
            res_bind (upd_es_unit idx (\<lambda>u. u\<lparr>eu_action_order :=
                (eu_action_order u)\<lparr>ec_MarketOrderToken := oa_front_id data\<rparr>\<rparr>) s) (\<lambda>s1.
            res_bind (es_unit idx s1) (\<lambda>u.
            res_bind (ees_call ev idx (CancelOrder idx (eu_action_order u)) s1) (\<lambda>(ret, s2).
              if ret = 0 then Inr (upd_request_track rid (add_status ODS_CXLING) s2)
              else ITDEngine_writeErrRtn_action env data (-3) ''ees CancelOrder api failed.''
                     ODS_CANCEL_REJECT s2)))))"

section \<open>Callbacks as inputs\<close>

datatype ees_callback =
    OnConnection int
  | OnDisConnection
  | OnUserLogon int int int
  | OnQueryUserAccount string bool
  | OnQuerySymbol ees_symbol bool
  | OnQueryTradeOrder ees_query_order bool
  | OnQueryTradeOrderExec int double int bool
  | OnOrderAccept int int
  | OnOrderReject int int
  | OnOrderMarketAccept int int
  | OnOrderMarketReject int int string
  | OnOrderExecution ees_execution
  | OnOrderCxled int int int int
  | OnCxlOrderReject int int string

fun ees_run_callback :: "bool \<Rightarrow> 't eng_env \<Rightarrow> ees_callback \<Rightarrow> 't td_ees \<Rightarrow> 't td_ees res" where
  "ees_run_callback v2 env (OnConnection e) s = CTDEngineEES_OnConnection e s"
| "ees_run_callback v2 env OnDisConnection s = CTDEngineEES_OnDisConnection s"
| "ees_run_callback v2 env (OnUserLogon r day m) s = CTDEngineEES_OnUserLogon r day m s"
| "ees_run_callback v2 env (OnQueryUserAccount a fin) s = CTDEngineEES_OnQueryUserAccount a fin s"
| "ees_run_callback v2 env (OnQuerySymbol y fin) s = Inr (CTDEngineEES_OnQuerySymbol y fin s)"
| "ees_run_callback v2 env (OnQueryTradeOrder q fin) s = CTDEngineEES_OnQueryTradeOrder q fin s"
| "ees_run_callback v2 env (OnQueryTradeOrderExec ref p q fin) s =
     CTDEngineEES_OnQueryTradeOrderExec ref p q fin s"
| "ees_run_callback v2 env (OnOrderAccept ref token) s = CTDEngineEES_OnOrderAccept env ref token s"
| "ees_run_callback v2 env (OnOrderReject ref reason) s = CTDEngineEES_OnOrderReject env ref reason s"
| "ees_run_callback v2 env (OnOrderMarketAccept ref token) s =
     (if v2 then CTDEngineEESV2_OnOrderMarketAccept env token s
      else CTDEngineEES_OnOrderMarketAccept env ref token s)"
| "ees_run_callback v2 env (OnOrderMarketReject ref token reason) s =
     (if v2 then CTDEngineEESV2_OnOrderMarketReject env token reason s
      else CTDEngineEES_OnOrderMarketReject env ref token reason s)"
| "ees_run_callback v2 env (OnOrderExecution x) s = CTDEngineEES_OnOrderExecution env x s"
| "ees_run_callback v2 env (OnOrderCxled ref token dec reason) s =
     CTDEngineEES_OnOrderCxled v2 env ref token dec reason s"
| "ees_run_callback v2 env (OnCxlOrderReject token reason text) s =
     CTDEngineEES_OnCxlOrderReject env token reason text s"

section \<open>Start of the engine\<close>

type_synonym ees_answers = "ees_request \<Rightarrow> ees_callback list"

text \<open>
  \<^verbatim>\<open>connect\<close> from account \<open>idx\<close> on, with the local ports of the first version; a refused connection
  ends the loop.
\<close>

fun ees_connect_from ::
    "bool \<Rightarrow> ees_vendor \<Rightarrow> ees_answers \<Rightarrow> 't eng_env \<Rightarrow> ees_conf list \<Rightarrow> nat \<Rightarrow> 't td_ees \<Rightarrow> 't td_ees res" where
  "ees_connect_from v2 ev during env [] idx s = Inr s"
| "ees_connect_from v2 ev during env ((login, passwd, mac, port) # accs) idx s =
     res_bind (es_unit (int idx) s) (\<lambda>u.
       if \<not> eu_api u \<and> \<not> ev_create ev (int idx) then Inl Uncaught
       else
         res_bind (upd_es_unit (int idx) (\<lambda>u. u\<lparr>eu_api := True\<rparr>) s) (\<lambda>s1.
           if eu_connected u then ees_connect_from v2 ev during env accs (Suc idx) s1
           else
             (let q = ConnServer (int idx) (if v2 then 0 else port) in
              res_bind (ees_call ev (int idx) q (s1\<lparr>es_curAccountIdx := int idx\<rparr>)) (\<lambda>(ret, s2).
                if ret \<noteq> 0 then Inr s2
                else res_bind (run_steps (ees_run_callback v2 env) (during q) s2)
                       (ees_connect_from v2 ev during env accs (Suc idx))))))"

definition CTDEngineEES_connect ::
    "bool \<Rightarrow> ees_vendor \<Rightarrow> ees_answers \<Rightarrow> 't eng_env \<Rightarrow> ees_conf list \<Rightarrow> 't td_ees \<Rightarrow> 't td_ees res" where
  "CTDEngineEES_connect v2 ev during env accs s =
     (let fresh = \<lparr>eu_api = False, eu_order = ev_order ev, eu_action_order = ev_cancel ev,
                   eu_connected = False, eu_logged_in = False\<rparr>;
          us = es_account_units s
      in ees_connect_from v2 ev during env accs 0
           (s\<lparr>es_account_units := take (length accs) us @ replicate (length accs - length us) fresh\<rparr>))"

text \<open>A request of \<^verbatim>\<open>login\<close> and the wait for \<^verbatim>\<open>logged_in\<close>; \<open>False\<close> where it is refused or times out.\<close>

definition ees_login_step ::
    "bool \<Rightarrow> ees_vendor \<Rightarrow> ees_answers \<Rightarrow> 't eng_env \<Rightarrow> nat \<Rightarrow> ees_request \<Rightarrow> 't td_ees \<Rightarrow>
     (bool \<times> 't td_ees) res" where
  "ees_login_step v2 ev during env idx q s =
     res_bind (ees_call ev (int idx) q s) (\<lambda>(ret, s1).
       if ret \<noteq> 0 then Inr (False, s1)
       else
         res_bind (run_steps (ees_run_callback v2 env) (during q) s1) (\<lambda>s2.
         res_bind (es_unit (int idx) s2) (\<lambda>u. Inr (eu_logged_in u, s2))))"

fun ees_login_from ::
    "bool \<Rightarrow> ees_vendor \<Rightarrow> ees_answers \<Rightarrow> 't eng_env \<Rightarrow> ees_conf list \<Rightarrow> nat \<Rightarrow> 't td_ees \<Rightarrow> 't td_ees res" where
  "ees_login_from v2 ev during env [] idx s = Inr s"
| "ees_login_from v2 ev during env ((login, passwd, mac, port) # accs) idx s =
     res_bind (es_unit (int idx) s) (\<lambda>u.
       if eu_logged_in u then ees_login_from v2 ev during env accs (Suc idx) s
       else
         res_bind (ees_login_step v2 ev during env idx (UserLogon (int idx) login passwd mac)
             (s\<lparr>es_curAccountIdx := int idx\<rparr>)) (\<lambda>(ok, s1).
           if \<not> ok then Inr s1
           else
             res_bind (upd_es_unit (int idx) (\<lambda>u. u\<lparr>eu_logged_in := False\<rparr>) s1) (\<lambda>s2.
             res_bind (ees_login_step v2 ev during env idx (QueryUserAccount (int idx)) s2) (\<lambda>(ok, s3).
               if \<not> ok then Inr s3
               else ees_login_from v2 ev during env accs (Suc idx) s3))))"

definition CTDEngineEES_login ::
    "bool \<Rightarrow> ees_vendor \<Rightarrow> ees_answers \<Rightarrow> 't eng_env \<Rightarrow> ees_conf list \<Rightarrow> 't td_ees \<Rightarrow> 't td_ees res" where
  "CTDEngineEES_login v2 ev during env accs s =
     ees_login_from v2 ev during env (take (length (es_account_units s)) accs) 0 s"

definition CTDEngineEES_init ::
    "bool \<Rightarrow> ees_vendor \<Rightarrow> ees_answers \<Rightarrow> 't eng_env \<Rightarrow> ees_conf list \<Rightarrow> 't td_ees \<Rightarrow> (bool \<times> 't td_ees) res" where
  "CTDEngineEES_init v2 ev during env accs s =
     res_bind (CTDEngineEES_connect v2 ev during env accs
         (s\<lparr>es_max_ref_id := te_request_id_start s - 1\<rparr>)) (\<lambda>s1.
       if \<not> CTDEngineEES_is_connected s1 then Inr (False, s1)
       else
         res_bind (CTDEngineEES_login v2 ev during env accs s1) (\<lambda>s2.
           Inr (CTDEngineEES_is_logged_in s2, s2)))"

definition CTDEngineEES_queryInstruments ::
    "bool \<Rightarrow> ees_vendor \<Rightarrow> ees_answers \<Rightarrow> 't eng_env \<Rightarrow> 't td_ees \<Rightarrow> (bool \<times> 't td_ees) res" where
  "CTDEngineEES_queryInstruments v2 ev during env s =
     res_bind (ees_call ev 0 QuerySymbolList s) (\<lambda>(ret, s1).
       if ret \<noteq> 0 then Inr (False, s1)
       else
         res_bind (run_steps (ees_run_callback v2 env) (during QuerySymbolList) s1) (\<lambda>s2.
           Inr (tb_is_init (te_base s2), s2)))"

text \<open>The queries of all accounts, one after the other; a refused or unanswered one ends them.\<close>

fun ees_query_from ::
    "(int \<Rightarrow> string \<Rightarrow> ees_request) \<Rightarrow> bool \<Rightarrow> ees_vendor \<Rightarrow> ees_answers \<Rightarrow> 't eng_env \<Rightarrow> ees_conf list \<Rightarrow>
     nat \<Rightarrow> 't td_ees \<Rightarrow> (bool \<times> 't td_ees) res" where
  "ees_query_from mk v2 ev during env [] idx s = Inr (True, s)"
| "ees_query_from mk v2 ev during env ((login, passwd, mac, port) # accs) idx s =
     (let q = mk (int idx) login in
      res_bind (ees_call ev (int idx) q (s\<lparr>es_query_complete_flag := False, es_curAccountIdx := int idx\<rparr>))
        (\<lambda>(ret, s1).
          if ret \<noteq> 0 then Inr (False, s1)
          else
            res_bind (run_steps (ees_run_callback v2 env) (during q) s1) (\<lambda>s2.
              if \<not> es_query_complete_flag s2 then Inr (False, s2)
              else ees_query_from mk v2 ev during env accs (Suc idx) s2)))"

definition CTDEngineEES_updateTradedAmount ::
    "bool \<Rightarrow> ees_vendor \<Rightarrow> ees_answers \<Rightarrow> 't eng_env \<Rightarrow> ees_conf list \<Rightarrow> 't td_ees \<Rightarrow> (bool \<times> 't td_ees) res" where
  "CTDEngineEES_updateTradedAmount v2 ev during env accs s =
     (if \<not> te_track_mapped s then Inl NullDeref
      else ees_query_from QueryAccountOrderExecution v2 ev during env
             (take (length (es_account_units s)) accs) 0 (clear_amounts s))"

definition CTDEngineEES_updateOrderTrack ::
    "bool \<Rightarrow> ees_vendor \<Rightarrow> ees_answers \<Rightarrow> 't eng_env \<Rightarrow> ees_conf list \<Rightarrow> 't td_ees \<Rightarrow> (bool \<times> 't td_ees) res" where
  "CTDEngineEES_updateOrderTrack v2 ev during env accs s =
     res_bind (open_track_day s) (\<lambda>s1.
     res_bind (ees_query_from QueryAccountOrder v2 ev during env (take (length (es_account_units s)) accs) 0 s1)
       (\<lambda>(ok, s2).
         if \<not> ok then Inr (False, s2)
         else
           (let m = es_max_ref_id s2 + 1 in
            CTDEngineEES_updateTradedAmount v2 ev during env accs
              (s2\<lparr>te_request_id := (if m > te_request_id s2 then m else te_request_id s2)\<rparr>))))"

section \<open>The engine as a whole\<close>

definition ees_round ::
    "ees_vendor \<Rightarrow> td_frame io_view \<Rightarrow> 't eng_env \<Rightarrow> 't td_ees \<Rightarrow> 't td_ees res" where
  "ees_round ev v env s =
     td_round (CTDEngineEES_req_order_insert ev env) (CTDEngineEES_req_order_action ev env) v env s"

definition CTDEngineEES_listening ::
    "ees_vendor \<Rightarrow> 't eng_env \<Rightarrow> file_env \<Rightarrow> disk \<Rightarrow> (td_frame io_view \<times> 't eng_env) list \<Rightarrow>
     't td_ees \<Rightarrow> (disk option \<times> 't td_ees) res" where
  "CTDEngineEES_listening ev = ITDEngine_listening (ees_round ev)"

end
