(* ===== verification/Ees_Inv.thy ===== *)
theory Ees_Inv
  imports Engine_Inv Td_Ees
begin

text \<open>
  The machine of the EES gateways on a trading day (\<open>ees_step\<close>, of either version of the interface):
  requests of the clients with the code the interface returns for them, and the reports of broker and
  market. Its invariant is that of the CTP gateway on the ground of \<open>Engine_Inv\<close>, and that an order
  with a number of the market is recorded under its own number (\<open>known_refs\<close>).
\<close>

section \<open>The steps the derived engines share\<close>

definition report_frame :: "(order_track \<Rightarrow> rtn_msg \<Rightarrow> rtn_msg) \<Rightarrow> order_track \<Rightarrow> io_order_rtn \<Rightarrow> io_order_rtn" where
  "report_frame fill t p =
     (let q = ITDEngine_writeRtnFromTrack t p in q\<lparr>or_rtn_msg := fill t (or_rtn_msg q)\<rparr>)"

text \<open>What a caller may add to a message keeps whom it is for.\<close>

definition keeps_address :: "(order_track \<Rightarrow> rtn_msg \<Rightarrow> rtn_msg) \<Rightarrow> bool" where
  "keeps_address fill \<longleftrightarrow> (\<forall>t m. rm_order_ref (fill t m) = rm_order_ref m \<and> rm_local_id (fill t m) = rm_local_id m)"

lemma report_frame_addressed:
  assumes "keeps_address fill" "ot_order_ref trk = ref" "ot_from trk = ot_from t" "ot_local_id trk = ot_local_id t"
  shows "addressed ref t (report_frame fill trk b)"
  using assms by (simp add: addressed_def report_frame_def ITDEngine_writeRtnFromTrack_def keeps_address_def)

text \<open>The numbers under which orders are recorded: those of the day, and those the market knows.\<close>

definition known_refs :: "int \<Rightarrow> ('t, 'a) td_engine_scheme \<Rightarrow> bool" where
  "known_refs r0 s \<longleftrightarrow>
     (\<forall>ref. te_request_id_start s \<le> ref \<longrightarrow> ref < te_request_id s \<longrightarrow>
        r0 \<le> ref \<or> ot_session_id (track_of ref s) \<noteq> 0 \<longrightarrow> ot_order_ref (track_of ref s) = ref)"

lemma engine_moves_tracks:
  assumes "engine_moves K ps tb s t ref trk ms"
  shows "track_of j t = (if track_slot j = track_slot ref then trk else track_of j s)"
    "te_request_id t = te_request_id s" "te_request_id_start t = te_request_id_start s"
  using assms by (simp_all add: engine_moves_def track_of_def)

lemma known_refs_same:
  assumes "engine_moves K ps tb s t ref trk ms" "known_refs r0 s"
    and "ot_order_ref trk = ot_order_ref (track_of ref s)" "ot_session_id trk = ot_session_id (track_of ref s)"
  shows "known_refs r0 t"
proof -
  have "ot_order_ref (track_of j t) = ot_order_ref (track_of j s) \<and>
      ot_session_id (track_of j t) = ot_session_id (track_of j s)" for j
    using engine_moves_tracks(1) [OF assms(1), of j] assms(3,4) by (simp add: track_of_def)
  with assms(2) engine_moves_tracks(2,3) [OF assms(1)] show ?thesis unfolding known_refs_def by metis
qed

lemma known_refs_report:
  assumes m: "engine_moves K ps tb s t ref trk ms" and k: "known_refs r0 s"
    and ref: "te_request_id_start s \<le> ref" "ref < te_request_id s"
    and size: "te_request_id s \<le> te_request_id_start s + MMAP_ORDER_TRACK_SIZE"
    and trk: "ot_order_ref trk = ref"
  shows "known_refs r0 t"
  unfolding known_refs_def
proof (intro allI impI)
  fix j assume j: "te_request_id_start t \<le> j" "j < te_request_id t"
    and sess: "r0 \<le> j \<or> ot_session_id (track_of j t) \<noteq> 0"
  note T = engine_moves_tracks [OF m]
  show "ot_order_ref (track_of j t) = j"
  proof (cases "j = ref")
    case False
    then have "track_slot j \<noteq> track_slot ref"
      using track_slot_inj [of "te_request_id_start s" j ref] j T(2,3) ref size by auto
    then have same: "track_of j t = track_of j s" by (simp add: T(1))
    show ?thesis using k j sess T(2,3) unfolding known_refs_def same by metis
  qed (use T(1) trk in simp)
qed

lemma known_refs_opened:
  assumes o: "opened s t m" and k: "known_refs r0 s"
    and room: "te_request_id s < te_request_id_start s + MMAP_ORDER_TRACK_SIZE"
    and new: "ot_order_ref (track_of (te_request_id s) t) = te_request_id s"
  shows "known_refs r0 t"
  unfolding known_refs_def
proof (intro allI impI)
  fix j assume j: "te_request_id_start t \<le> j" "j < te_request_id t"
    and sess: "r0 \<le> j \<or> ot_session_id (track_of j t) \<noteq> 0"
  let ?rid = "te_request_id s"
  from o have id: "te_request_id t = ?rid + 1" "te_request_id_start t = te_request_id_start s"
    by (simp_all add: opened_def)
  show "ot_order_ref (track_of j t) = j"
  proof (cases "j = ?rid")
    case False
    with j id have j': "te_request_id_start s \<le> j" "j < ?rid" by simp_all
    with room track_slot_inj [of "te_request_id_start s" j ?rid] False
    have "track_slot j \<noteq> track_slot ?rid" by auto
    with o have same: "track_of j t = track_of j s" by (auto simp: opened_def track_of_def)
    show ?thesis using k j' sess unfolding known_refs_def same by metis
  qed (use new in simp)
qed

context tracked_engine
begin

lemma report_track_ok:
  assumes ok: "engine_ok K ps tb s" and env: "chan_env ps env"
    and f: "ot_acc_id (f (track_of ref s)) = ot_acc_id (track_of ref s)"
  shows "\<exists>t b. report_track env ref f fill s = Inr t \<and>
    engine_moves K ps tb s t ref (f (track_of ref s)) [report_frame fill (f (track_of ref s)) b]"
proof -
  let ?s1 = "upd_request_track ref f s" and ?trk = "f (track_of ref s)"
  have m1: "engine_moves K ps tb s ?s1 ref ?trk []" by (rule upd_track_ok [where f = f, OF ok f])
  then have ok1: "engine_ok K ps tb ?s1" and trk: "track_of ref ?s1 = ?trk"
    by (simp_all add: engine_moves_def track_of_def)
  from put_rtn_engine [OF ok1 env, of "report_frame fill ?trk" ref] obtain b w where
    p: "put_rtn env (report_frame fill ?trk) ?s1 = Inr (or_rtn_msg (report_frame fill ?trk b), ?s1\<lparr>te_writer := w\<rparr>)"
      "engine_moves K ps tb ?s1 (?s1\<lparr>te_writer := w\<rparr>) ref ?trk [report_frame fill ?trk b]"
    unfolding trk by blast
  let ?s2 = "?s1\<lparr>te_writer := w\<rparr>" and ?m = "or_rtn_msg (report_frame fill ?trk b)"
  have ok2: "engine_ok K ps tb ?s2" using p(2) by (simp add: engine_moves_def)
  have "acc_index_ok (ot_acc_id ?trk) ?s2"
    using engine_okD(7) [OF ok1, of "track_slot ref"] trk by (simp add: acc_index_ok_def track_of_def)
  from on_rtn_ok [OF ok2 this, of env ?trk ?m] obtain u where
    u: "ITDEngine_engine_on_rtn env (ot_acc_id ?trk) ?trk ?m ?s2 = Inr (?s2\<lparr>te_acc_utilis := u\<rparr>)"
      "engine_ok K ps tb (?s2\<lparr>te_acc_utilis := u\<rparr>)" by blast
  have "report_track env ref f fill s = Inr (?s2\<lparr>te_acc_utilis := u\<rparr>)"
    using get_track_ok [OF ok1, of ref] p(1) u(1)
    by (simp add: report_track_def report_frame_def [abs_def] Let_def trk)
  moreover have "engine_moves K ps tb s (?s2\<lparr>te_acc_utilis := u\<rparr>) ref ?trk ([] @ [report_frame fill ?trk b])"
    by (rule engine_moves_trans [OF m1 engine_moves_acc [OF p(2) u(2)]])
  ultimately show ?thesis by auto
qed

text \<open>The end of an insert: the order gets the next number, a record and an answer.\<close>

lemma order_entered_ok:
  assumes ok: "engine_ok K ps tb s" and env: "chan_env ps env" and idx: "acc_index_ok (in_acc_idx data) s"
    and room: "top_room (in_instr_hash data) (te_acc_utilis s ! nat (in_acc_idx data))"
  shows "\<exists>m t. order_entered env data s = Inr t \<and> engine_ok K ps tb t \<and> opened s t m \<and>
    wr_log (te_writer t) = wr_log (te_writer s) @ [m] \<and> or_to m = in_from data \<and>
    rm_local_id (or_rtn_msg m) = in_local_id data \<and>
    ot_order_ref (track_of (te_request_id s) t) = te_request_id s"
proof -
  let ?rid = "te_request_id s" and ?i = "nat (in_acc_idx data)"
  let ?f = "ees_record data ?rid" and ?g = "ees_ack data ?rid"
  let ?s3 = "upd_request_track ?rid ?f s"
  note E = engine_okD [OF ok]
  have ok3: "engine_ok K ps tb ?s3"
    using ok idx by (auto simp: engine_ok_def upd_request_track_def ees_record_def acc_index_ok_def K_tracks)
  from put_rtn_engine [OF ok3 env, of ?g ?rid] obtain b w where
    p: "put_rtn env ?g ?s3 = Inr (or_rtn_msg (?g b), ?s3\<lparr>te_writer := w\<rparr>)"
      "engine_moves K ps tb ?s3 (?s3\<lparr>te_writer := w\<rparr>) ?rid (track_of ?rid ?s3) [?g b]" by blast
  let ?s4 = "?s3\<lparr>te_writer := w, te_request_id := ?rid + 1\<rparr>"
  have ok4: "engine_ok K ps tb ?s4"
    using p(2) by (auto simp: engine_moves_def engine_ok_def acc_index_ok_def K_number)
  have acc4: "te_acc_utilis ?s4 = te_acc_utilis s" "tb_instr_info (te_base ?s4) = tb"
    using E(3) by (simp_all add: upd_request_track_def)
  have idx4: "acc_index_ok (in_acc_idx data) ?s4" using idx acc4(1) by (simp add: acc_index_ok_def)
  let ?new = "RiskTop_onNew (en_ops env) tb (en_now env) (in_dir data) (in_off data) (in_price data)
    (in_vol data) (in_instr_hash data) ?rid"
  have new: "\<exists>r1. ?new r = Inr r1 \<and> top_ready tb r1" if "top_ready tb r" "r = te_acc_utilis ?s4 ! ?i" for r
    by (rule RiskTop_onNew_total [OF E(2) that(1)]) (use that(2) room acc4(1) in simp)
  have "\<exists>u. upd_acc (in_acc_idx data) ?new ?s4 = Inr (?s4\<lparr>te_acc_utilis := u\<rparr>) \<and>
      engine_ok K ps tb (?s4\<lparr>te_acc_utilis := u\<rparr>)"
    by (rule upd_acc_ok [OF ok4 idx4]) (rule new)
  then obtain u where
    u: "upd_acc (in_acc_idx data) ?new ?s4 = Inr (?s4\<lparr>te_acc_utilis := u\<rparr>)"
      "engine_ok K ps tb (?s4\<lparr>te_acc_utilis := u\<rparr>)" by blast
  let ?t = "?s4\<lparr>te_acc_utilis := u\<rparr>"
  have base: "tb_instr_info (te_base (?s3\<lparr>te_writer := w\<rparr>)) = tb" using acc4(2) by simp
  have "order_entered env data s = Inr ?t"
    using get_track_ok [OF ok, of ?rid] p(1) u(1) base by (simp add: order_entered_def Let_def)
  moreover have "opened s ?t (?g b)"
    unfolding opened_def
  proof (intro conjI)
    show "\<exists>trk. te_request_track ?t = (te_request_track s)(track_slot ?rid := trk) \<and>
        ot_status trk = ODS_TDSEND \<and> ot_vol_traded trk = 0 \<and> addressed ?rid trk (?g b)"
      by (rule exI [of _ "?f (te_request_track s (track_slot ?rid))"])
        (simp add: upd_request_track_def addressed_def ees_record_def ees_ack_def)
  qed (simp_all add: upd_request_track_def ees_ack_def)
  moreover have "wr_log (te_writer ?t) = wr_log (te_writer s) @ [?g b]"
    using p(2) by (simp add: engine_moves_def upd_request_track_def)
  moreover have "ot_order_ref (track_of ?rid ?t) = ?rid"
    by (simp add: track_of_def upd_request_track_def ees_record_def)
  ultimately show ?thesis
    using u(2) by (intro exI [of _ "?g b"] exI [of _ ?t]) (simp add: ees_ack_def)
qed

text \<open>Refusals: of an order, and of a cancel after steps that left records and log alone.\<close>

lemma order_error_ok:
  assumes ok: "engine_ok K ps tb s" and env: "chan_env ps env"
  shows "\<exists>m t. ITDEngine_writeErrRtn_order env data e msg ODS_ERR s = Inr t \<and>
    (\<forall>ref. engine_moves K ps tb s t ref (track_of ref s) [m]) \<and> or_to m = in_from data \<and>
    rm_local_id (or_rtn_msg m) = in_local_id data \<and> rm_msg_type (or_rtn_msg m) = ODS_ERR \<and>
    rm_errid (or_rtn_msg m) = e"
proof -
  from errors_ok(1) [OF ok env, of data e msg ODS_ERR undefined] obtain m t where
    t: "ITDEngine_writeErrRtn_order env data e msg ODS_ERR s = Inr t"
    "engine_moves K ps tb s t undefined (track_of undefined s) [m]" "or_to m = in_from data"
    "rm_local_id (or_rtn_msg m) = in_local_id data" "rm_msg_type (or_rtn_msg m) = ODS_ERR"
    "rm_errid (or_rtn_msg m) = e" by blast
  then have "engine_moves K ps tb s t ref (track_of ref s) [m]" for ref
    by (simp add: engine_moves_def track_of_def)
  with t show ?thesis by blast
qed

lemma action_error_ok:
  assumes u: "engine_moves K ps tb s u ref (track_of ref s) []" and env: "chan_env ps env"
    and ty: "ty \<in> {ODS_ERR, ODS_CANCEL_REJECT}"
  shows "\<exists>m t. ITDEngine_writeErrRtn_action env data e msg ty u = Inr t \<and> refusal m \<and>
    engine_moves K ps tb s t ref (track_of ref s) [m]"
proof -
  from u have "engine_ok K ps tb u" and tu: "track_of ref u = track_of ref s"
    by (simp_all add: engine_moves_def track_of_def)
  from errors_ok(2) [OF this(1) env, of data e msg ty ref] obtain m t where
    "ITDEngine_writeErrRtn_action env data e msg ty u = Inr t"
    "engine_moves K ps tb u t ref (track_of ref s) [m]" "rm_msg_type (or_rtn_msg m) = ty"
    unfolding tu by blast
  with engine_moves_trans [OF u this(2)] ty show ?thesis by (auto simp: refusal_def)
qed

end

lemma find_token_ok:
  assumes "te_track_mapped s"
  shows "\<exists>r. find_token token s = Inr r \<and>
    (\<forall>ref. r = Some ref \<longrightarrow> te_request_id_start s \<le> ref \<and> ref < te_request_id s \<and>
       ot_session_id (track_of ref s) \<noteq> 0 \<and> ot_front_id (track_of ref s) = token)"
proof -
  have "x \<in> set xs \<and> P x" if "List.find P xs = Some x" for P and xs :: "int list" and x
    using that by (auto simp: find_Some_iff)
  from this [of _ "rev [te_request_id_start s..te_request_id s - 1]"] assms show ?thesis
    by (fastforce simp: find_token_def Let_def track_of_def)
qed

section \<open>Events\<close>

datatype ees_event =
    EesInsert int int input_order
  | EesCancel int int order_action
  | EesReport int ees_callback

fun ees_step :: "bool \<Rightarrow> ees_vendor \<Rightarrow> 't eng_env \<Rightarrow> ees_event \<Rightarrow> 't td_ees \<Rightarrow> 't td_ees res" where
  "ees_step v2 ev env (EesInsert now ret data) s =
     CTDEngineEES_req_order_insert (ev\<lparr>ev_ret := \<lambda>_. ret\<rparr>) (env\<lparr>en_now := now\<rparr>) data s"
| "ees_step v2 ev env (EesCancel now ret data) s =
     ITDEngine_engine_req_order_action
       (CTDEngineEES_req_order_action (ev\<lparr>ev_ret := \<lambda>_. ret\<rparr>) (env\<lparr>en_now := now\<rparr>)) (env\<lparr>en_now := now\<rparr>) data s"
| "ees_step v2 ev env (EesReport now cb) s = ees_run_callback v2 (env\<lparr>en_now := now\<rparr>) cb s"

text \<open>The order a report is about: by its number, or by the number of the market.\<close>

datatype ees_ref = ByRef int | ByToken

fun ees_report_ref :: "bool \<Rightarrow> ees_callback \<Rightarrow> ees_ref option" where
  "ees_report_ref v2 (OnOrderAccept ref token) = Some (ByRef ref)"
| "ees_report_ref v2 (OnOrderReject ref reason) = Some (ByRef ref)"
| "ees_report_ref v2 (OnOrderMarketAccept ref token) = Some (if v2 then ByToken else ByRef ref)"
| "ees_report_ref v2 (OnOrderMarketReject ref token reason) = Some (if v2 then ByToken else ByRef ref)"
| "ees_report_ref v2 (OnOrderExecution x) = Some (ByRef (ee_ClientOrderToken x))"
| "ees_report_ref v2 (OnOrderCxled ref token dec reason) = Some (ByRef ref)"
| "ees_report_ref v2 (OnCxlOrderReject token reason words) = Some ByToken"
| "ees_report_ref v2 _ = None"

text \<open>
  Orders name an account there is and an instrument with room for one more order of the day, the day
  has fewer orders than there are records, and reports with a number are about recorded orders.
\<close>

fun ees_legal :: "bool \<Rightarrow> ees_event \<Rightarrow> 't td_ees \<Rightarrow> bool" where
  "ees_legal v2 (EesInsert now ret data) s \<longleftrightarrow>
     te_request_id s < te_request_id_start s + MMAP_ORDER_TRACK_SIZE \<and>
     acc_index_ok (in_acc_idx data) s \<and> eu_api (es_account_units s ! nat (in_acc_idx data)) \<and>
     top_room (in_instr_hash data) (te_acc_utilis s ! nat (in_acc_idx data))"
| "ees_legal v2 (EesCancel now ret data) s \<longleftrightarrow>
     (acc_index_ok (oa_acc_idx data) s \<longrightarrow> eu_api (es_account_units s ! nat (oa_acc_idx data)))"
| "ees_legal v2 (EesReport now cb) s \<longleftrightarrow>
     (case ees_report_ref v2 cb of
        None \<Rightarrow> False
      | Some ByToken \<Rightarrow> True
      | Some (ByRef ref) \<Rightarrow> ref < te_request_id s \<and> ot_order_ref (track_of ref s) = ref)"

section \<open>The engine\<close>

abbreviation ees_units :: "'t td_ees \<Rightarrow> bool" where
  "ees_units \<equiv> \<lambda>s. length (te_acc_utilis s) = length (es_account_units s)"

interpretation ees_engine: tracked_engine ees_units
  by unfold_locales simp_all

section \<open>The reports of broker and market\<close>

text \<open>
  A report that is handled: nothing happens, or the record of an order of the range moves together
  with the log.
\<close>

definition ees_done :: "int \<Rightarrow> instr_table \<Rightarrow> 't td_ees \<Rightarrow> 't td_ees res \<Rightarrow> bool" where
  "ees_done ps tb s r \<longleftrightarrow>
     (\<exists>t ref trk ms. r = Inr t \<and> engine_moves ees_units ps tb s t ref trk ms \<and>
        (ms = [] \<and> trk = track_of ref s \<or>
         te_request_id_start s \<le> ref \<and> ref < te_request_id s \<and> ot_order_ref trk = ref \<and>
         reports_ok ref (track_of ref s) trk ms))"

lemma ees_done_none: "engine_ok ees_units ps tb s \<Longrightarrow> ees_done ps tb s (Inr s)"
  unfolding ees_done_def using engine_moves_refl by blast

text \<open>The order a report is about.\<close>

definition recorded :: "int \<Rightarrow> ('t, 'a) td_engine_scheme \<Rightarrow> bool" where
  "recorded ref s \<longleftrightarrow>
     te_request_id_start s \<le> ref \<and> ref < te_request_id s \<and> ot_order_ref (track_of ref s) = ref"

lemma reports_ok_token:
  "reports_ok ref t trk ms \<Longrightarrow> reports_ok ref t (market_token token trk) ms"
  by (simp add: reports_ok_def order_log_def market_token_def)

lemma report_track_done:
  assumes ok: "engine_ok ees_units ps tb s" and env: "chan_env ps env" and ref: "recorded ref s"
    and f: "ot_acc_id (f (track_of ref s)) = ot_acc_id (track_of ref s)" "ot_order_ref (f (track_of ref s)) = ref"
    and r: "\<And>b. reports_ok ref (track_of ref s) (f (track_of ref s)) [report_frame fill (f (track_of ref s)) b]"
  shows "ees_done ps tb s (report_track env ref f fill s)"
proof -
  from ees_engine.report_track_ok [OF ok env, of f ref fill] f(1) obtain t b where
    "report_track env ref f fill s = Inr t"
    "engine_moves ees_units ps tb s t ref (f (track_of ref s)) [report_frame fill (f (track_of ref s)) b]" by blast
  with ref f(2) r [of b] show ?thesis unfolding ees_done_def recorded_def by blast
qed

lemma track_flag_done:
  assumes ok: "engine_ok ees_units ps tb s" and env: "chan_env ps env" and ref: "recorded ref s"
    and flag: "flag = ODS_CANCEL_REJECT \<or>
      flag \<in> {ODS_ACCEPT, ODS_MARKET_ACCEPT} \<union> FINAL \<and> ot_status (track_of ref s) AND flag = 0"
    and f: "f = add_status flag \<or> f = (\<lambda>t. market_token token (add_status flag t))"
    and fill: "keeps_address fill" "\<And>t m. rm_msg_type (fill t m) = flag"
  shows "ees_done ps tb s (report_track env ref f fill s)"
proof (rule report_track_done [OF ok env ref])
  let ?t = "track_of ref s"
  have same: "ot_from (f ?t) = ot_from ?t" "ot_local_id (f ?t) = ot_local_id ?t" "ot_acc_id (f ?t) = ot_acc_id ?t"
    "ot_order_ref (f ?t) = ref"
    using f ref by (auto simp: add_status_def market_token_def recorded_def)
  then show "ot_acc_id (f ?t) = ot_acc_id ?t" "ot_order_ref (f ?t) = ref" by simp_all
  fix b
  let ?m = "report_frame fill (f ?t) b"
  have "addressed ref ?t ?m" by (rule report_frame_addressed [OF fill(1) same(4,1,2)])
  moreover have "rm_msg_type (or_rtn_msg ?m) = flag" by (simp add: report_frame_def Let_def fill(2))
  ultimately have "reports_ok ref ?t (?t\<lparr>ot_status := ot_status ?t OR flag\<rparr>) [?m]"
    by (rule reports_ok_flag [OF _ _ flag])
  then have "reports_ok ref ?t (add_status flag ?t) [?m]" by (simp add: add_status_def)
  with f reports_ok_token [of ref ?t "add_status flag ?t" "[?m]" token] show "reports_ok ref ?t (f ?t) [?m]" by auto
qed

lemma strncpy_msg_simps [simp]:
  "rm_msg_type (strncpy_msg x m) = rm_msg_type m" "rm_order_ref (strncpy_msg x m) = rm_order_ref m"
  "rm_local_id (strncpy_msg x m) = rm_local_id m"
  by (simp_all add: strncpy_msg_def)

lemma keeps_address_simps [simp]:
  "keeps_address (\<lambda>_ m. m\<lparr>rm_msg_type := ty\<rparr>)"
  "keeps_address (\<lambda>_ m. m\<lparr>rm_msg_type := ty, rm_errid := e\<rparr>)"
  "keeps_address (\<lambda>_ m. strncpy_msg msg (m\<lparr>rm_msg_type := ty, rm_errid := e\<rparr>))"
  "keeps_address (\<lambda>_ m. m\<lparr>rm_msg_type := ty, rm_vol := v, rm_errid := e\<rparr>)"
  "keeps_address (\<lambda>_ m. m\<lparr>rm_msg_type := ty, rm_price := p, rm_vol := v\<rparr>)"
  by (simp_all add: keeps_address_def)

lemma final_flags: "ODS_REJECT \<in> FINAL" "ODS_MARKET_REJECT \<in> FINAL" "ODS_CANCELED \<in> FINAL"
  by (simp_all add: FINAL_def)

lemma market_done:
  assumes ok: "engine_ok ees_units ps tb s" and env: "chan_env ps env" and ref: "recorded ref s"
  shows "ees_done ps tb s (market_accepted env ref token s)"
    and "ees_done ps tb s (market_rejected env ref token reason s)"
proof -
  note T = track_flag_done [OF ok env ref, where token = token]
  show "ees_done ps tb s (market_accepted env ref token s)"
    using ees_done_none [OF ok] T [of ODS_MARKET_ACCEPT, OF _ disjI2 [OF refl]]
    by (simp add: market_accepted_def get_track_ok [OF ok])
  show "ees_done ps tb s (market_rejected env ref token reason s)"
    using ees_done_none [OF ok] T [of ODS_MARKET_REJECT, OF _ disjI2 [OF refl]]
    by (simp add: market_rejected_def get_track_ok [OF ok] final_flags)
qed

lemma execution_done:
  assumes ok: "engine_ok ees_units ps tb s" and env: "chan_env ps env" and ref: "recorded (ee_ClientOrderToken x) s"
  shows "ees_done ps tb s (CTDEngineEES_OnOrderExecution env x s)"
proof -
  let ?ref = "ee_ClientOrderToken x"
  let ?t = "track_of ?ref s" and ?f = "executed_track x"
  obtain seen s1 where o: "ITDEngine_testOtId ?ref (ee_ExecutionID x) s = (seen, s1)" by fastforce
  then obtain q where s1: "s1 = s\<lparr>te_otidfilter := q\<rparr>"
    by (auto simp: ITDEngine_testOtId_def split: prod.splits)
  have ok1: "engine_ok ees_units ps tb s1" and t1: "track_of ref s1 = track_of ref s" for ref
    using ok by (simp_all add: s1 track_of_def)
  have m1: "engine_moves ees_units ps tb s s1 ref (track_of ref s) []" for ref
    using ok1 by (simp add: engine_moves_def s1 track_of_def)
  have ref1: "recorded ?ref s1" using ref by (simp add: recorded_def s1 track_of_def)
  show ?thesis
  proof (cases "ITDEngine_checkRequestId ?ref s \<and> \<not> seen")
    case False
    then have "CTDEngineEES_OnOrderExecution env x s = Inr s \<or> CTDEngineEES_OnOrderExecution env x s = Inr s1"
      using o by (auto simp: CTDEngineEES_OnOrderExecution_def Let_def)
    with ees_done_none [OF ok] m1 show ?thesis unfolding ees_done_def by blast
  next
    case True
    let ?fill = "\<lambda>_ m. m\<lparr>rm_msg_type := ODS_EXECUTION, rm_price := ee_Price x, rm_vol := ee_Quantity x\<rparr>"
    let ?g = "if ot_vol_traded ?t + ee_Quantity x \<ge> ot_vol ?t then ODS_CLOSED else 0"
    define trk where "trk = ?t\<lparr>ot_status := ot_status ?t OR ODS_EXECUTION OR ?g,
      ot_vol_traded := ot_vol_traded ?t + ee_Quantity x,
      ot_amount_traded := ot_amount_traded ?t + ee_Price x * of_int (ee_Quantity x)\<rparr>"
    have ft: "?f ?t = market_token (ee_MarketOrderToken x) trk"
      by (simp add: executed_track_def market_token_def add_status_def trk_def Let_def or.assoc)
    have "ees_done ps tb s1 (report_track env ?ref ?f ?fill s1)"
    proof (rule report_track_done [OF ok1 env ref1], unfold t1 ft)
      show "ot_acc_id (market_token (ee_MarketOrderToken x) trk) = ot_acc_id ?t"
        "ot_order_ref (market_token (ee_MarketOrderToken x) trk) = ?ref"
        using ref by (simp_all add: market_token_def trk_def recorded_def)
      fix b
      let ?m = "report_frame ?fill (market_token (ee_MarketOrderToken x) trk) b"
      have "addressed ?ref ?t ?m"
        by (rule report_frame_addressed) (use ref in \<open>simp_all add: market_token_def trk_def recorded_def\<close>)
      from reports_ok_trade [OF this _ _ _ trk_def]
      show "reports_ok ?ref ?t (market_token (ee_MarketOrderToken x) trk) [?m]"
        by (intro reports_ok_token) (simp add: report_frame_def Let_def)
    qed
    moreover have "CTDEngineEES_OnOrderExecution env x s = report_track env ?ref ?f ?fill s1"
      using True o by (simp add: CTDEngineEES_OnOrderExecution_def Let_def)
    moreover have "engine_moves ees_units ps tb s t r trk' ms" if "engine_moves ees_units ps tb s1 t r trk' ms" for t r trk' ms
      using engine_moves_trans [OF m1 that] by simp
    ultimately show ?thesis unfolding ees_done_def t1 by (simp add: s1) blast
  qed
qed

lemma ees_report_ok:
  assumes ok: "engine_ok ees_units ps tb s" and env: "chan_env ps env" and k: "known_refs r0 s"
    and ref: "ees_report_ref v2 cb = Some q" "\<And>ref. q = ByRef ref \<Longrightarrow> ref < te_request_id s \<and> ot_order_ref (track_of ref s) = ref"
  shows "ees_done ps tb s (ees_run_callback v2 env cb s)"
proof -
  note none = ees_done_none [OF ok] and get = get_track_ok [OF ok]
  have rec: "recorded ref s" if "q = ByRef ref" "ITDEngine_checkRequestId ref s" for ref
    using ref(2) [OF that(1)] that(2) by (simp add: recorded_def ITDEngine_checkRequestId_def)
  have tok: "ees_done ps tb s (res_bind (find_token token s) (\<lambda>r. case r of None \<Rightarrow> Inr s | Some ref \<Rightarrow> g ref))"
    if g: "\<And>ref. recorded ref s \<Longrightarrow> ees_done ps tb s (g ref)" for token and g :: "int \<Rightarrow> 'a td_ees res"
  proof -
    from find_token_ok [OF engine_okD(4) [OF ok], of token] obtain r where r: "find_token token s = Inr r"
      "\<And>ref. r = Some ref \<Longrightarrow> te_request_id_start s \<le> ref \<and> ref < te_request_id s \<and> ot_session_id (track_of ref s) \<noteq> 0"
      by blast
    show ?thesis
    proof (cases r)
      case (Some ref)
      with r(2) k have "recorded ref s" by (auto simp: recorded_def known_refs_def)
      with g r(1) Some show ?thesis by simp
    qed (use none r(1) in simp)
  qed
  show ?thesis
  proof (cases cb)
    case (OnOrderAccept ref token)
    with assms(4) have "q = ByRef ref" by simp
    with rec [OF this] OnOrderAccept none track_flag_done [OF ok env, of ref ODS_ACCEPT, OF _ _ disjI2 [OF refl]]
    show ?thesis by (simp add: CTDEngineEES_OnOrderAccept_def get)
  next
    case (OnOrderReject ref reason)
    with assms(4) have "q = ByRef ref" by simp
    with rec [OF this] OnOrderReject none track_flag_done [OF ok env, of ref ODS_REJECT, OF _ _ disjI1 [OF refl]]
    show ?thesis by (simp add: CTDEngineEES_OnOrderReject_def get final_flags)
  next
    case (OnOrderMarketAccept ref token)
    show ?thesis
    proof (cases v2)
      case True
      with OnOrderMarketAccept tok [OF market_done(1) [OF ok env]] show ?thesis
        by (simp add: CTDEngineEESV2_OnOrderMarketAccept_def)
    next
      case False
      with OnOrderMarketAccept assms(4) have "q = ByRef ref" by simp
      with False OnOrderMarketAccept rec [OF this] none market_done(1) [OF ok env] show ?thesis
        by (simp add: CTDEngineEES_OnOrderMarketAccept_def)
    qed
  next
    case (OnOrderMarketReject ref token reason)
    show ?thesis
    proof (cases v2)
      case True
      with OnOrderMarketReject tok [OF market_done(2) [OF ok env]] show ?thesis
        by (simp add: CTDEngineEESV2_OnOrderMarketReject_def)
    next
      case False
      with OnOrderMarketReject assms(4) have "q = ByRef ref" by simp
      with False OnOrderMarketReject rec [OF this] none market_done(2) [OF ok env] show ?thesis
        by (simp add: CTDEngineEES_OnOrderMarketReject_def)
    qed
  next
    case (OnOrderExecution x)
    with assms(4) have "q = ByRef (ee_ClientOrderToken x)" by simp
    with rec [OF this] execution_done [OF ok env, of x] none OnOrderExecution show ?thesis
      by (cases "ITDEngine_checkRequestId (ee_ClientOrderToken x) s")
        (simp_all add: CTDEngineEES_OnOrderExecution_def Let_def)
  next
    case (OnOrderCxled ref token dec reason)
    with assms(4) have "q = ByRef ref" by simp
    with rec [OF this] OnOrderCxled none show ?thesis
      by (cases v2) (auto simp: CTDEngineEES_OnOrderCxled_def get final_flags Let_def
          intro!: track_flag_done [OF ok env, where flag = ODS_CANCELED and token = token])
  next
    case (OnCxlOrderReject token reason words)
    have "ees_done ps tb s (report_track env ref (\<lambda>t. market_token token (add_status ODS_CANCEL_REJECT t))
        (\<lambda>_ m. strncpy_msg words (m\<lparr>rm_msg_type := ODS_CANCEL_REJECT, rm_errid := reason\<rparr>)) s)"
      if "recorded ref s" for ref
      by (rule track_flag_done [OF ok env that, where token = token]) simp_all
    from tok [OF this] OnCxlOrderReject show ?thesis by (simp add: CTDEngineEES_OnCxlOrderReject_def)
  qed (use ref(1) in simp_all)
qed

section \<open>The requests of the clients\<close>

lemma units_move:
  "engine_ok ees_units ps tb s \<Longrightarrow> length us = length (es_account_units s) \<Longrightarrow>
   engine_moves ees_units ps tb s (s\<lparr>es_account_units := us, es_sent := q\<rparr>) ref (track_of ref s) []"
  by (auto simp: engine_moves_def engine_ok_def track_of_def acc_index_ok_def)

text \<open>The answer to an order: it is opened, or refused with an error code.\<close>

definition ees_answered ::
    "int \<Rightarrow> instr_table \<Rightarrow> input_order \<Rightarrow> int \<Rightarrow> 't td_ees \<Rightarrow> 't td_ees \<Rightarrow> io_order_rtn \<Rightarrow> bool" where
  "ees_answered ps tb data code s t m \<longleftrightarrow>
     engine_ok ees_units ps tb t \<and> wr_log (te_writer t) = wr_log (te_writer s) @ [m] \<and>
     or_to m = in_from data \<and> rm_local_id (or_rtn_msg m) = in_local_id data \<and>
     (if code = 0
      then opened s t m \<and> ot_order_ref (track_of (te_request_id s) t) = te_request_id s
      else (\<forall>ref. engine_moves ees_units ps tb s t ref (track_of ref s) [m]) \<and>
        rm_msg_type (or_rtn_msg m) = ODS_ERR \<and> rm_errid (or_rtn_msg m) = code)"

definition ees_code :: "ees_vendor \<Rightarrow> 't eng_env \<Rightarrow> input_order \<Rightarrow> 't td_ees \<Rightarrow> int" where
  "ees_code ev env data s =
     (let i = nat (in_acc_idx data); tb = tb_instr_info (te_base s) in
      case RiskTop_check (en_fuel env) (en_ops env) tb (en_now env)
          (in_dir data) (in_off data) (in_price data) (in_vol data) (in_instr_hash data) (te_acc_utilis s ! i) of
        Inl _ \<Rightarrow> 0
      | Inr (e, _) \<Rightarrow>
          if e \<noteq> 0 then e
          else (case map_of tb (in_instr_hash data) of
                  None \<Rightarrow> -1
                | Some info \<Rightarrow> ev_ret ev (EnterOrder (in_acc_idx data)
                    (filled_order ev data (ii_exch info) (te_request_id s) (eu_order (es_account_units s ! i))))))"

lemma ees_insert_ok:
  assumes ok: "engine_ok ees_units ps tb s" and env: "chan_env ps env" and fuel: "0 < en_fuel env"
    and idx: "acc_index_ok (in_acc_idx data) s" and api: "eu_api (es_account_units s ! nat (in_acc_idx data))"
    and room: "top_room (in_instr_hash data) (te_acc_utilis s ! nat (in_acc_idx data))"
  shows "\<exists>m t. CTDEngineEES_req_order_insert ev env data s = Inr t \<and> ees_answered ps tb data (ees_code ev env data s) s t m"
proof -
  note E = engine_okD [OF ok]
  let ?i = "nat (in_acc_idx data)"
  let ?r = "te_acc_utilis s ! ?i" and ?u = "es_account_units s ! ?i"
  have i: "0 \<le> in_acc_idx data" "?i < length (te_acc_utilis s)" "?i < length (es_account_units s)"
    using idx E(5) by (simp_all add: acc_index_ok_def)
  have ready: "top_ready tb ?r" by (rule E(6)) (use i in simp)
  from fuel obtain n where n: "en_fuel env = Suc n" by (cases "en_fuel env") auto
  from RiskTop_check_total [OF E(2) ready, of n "en_ops env" "en_now env"] obtain e where
    e: "RiskTop_check (en_fuel env) (en_ops env) tb (en_now env) (in_dir data) (in_off data)
          (in_price data) (in_vol data) (in_instr_hash data) ?r = Inr (e, ?r)"
    unfolding n by blast
  have refused: "\<exists>m t. ITDEngine_writeErrRtn_order env data code msg ODS_ERR u = Inr t \<and> ees_answered ps tb data code s t m"
    if u: "u = s\<lparr>es_account_units := us, es_sent := q\<rparr>" "length us = length (es_account_units s)" "code \<noteq> 0"
    for code msg u us q
  proof -
    note m = units_move [OF ok u(2), of q, folded u(1)]
    then have ok_u: "engine_ok ees_units ps tb u" and tu: "track_of ref u = track_of ref s" for ref
      by (simp_all add: engine_moves_def track_of_def)
    from ees_engine.order_error_ok [OF ok_u env, of data code msg] obtain x t where
      t: "ITDEngine_writeErrRtn_order env data code msg ODS_ERR u = Inr t"
        "\<And>ref. engine_moves ees_units ps tb u t ref (track_of ref s) [x]" "or_to x = in_from data"
        "rm_local_id (or_rtn_msg x) = in_local_id data" "rm_msg_type (or_rtn_msg x) = ODS_ERR"
        "rm_errid (or_rtn_msg x) = code" unfolding tu by blast
    have moves: "engine_moves ees_units ps tb s t ref (track_of ref s) [x]" for ref
      using engine_moves_trans [OF m t(2)] by simp
    then have "engine_ok ees_units ps tb t" "wr_log (te_writer t) = wr_log (te_writer s) @ [x]"
      by (simp_all add: engine_moves_def)
    with moves t u(3) show ?thesis by (auto simp: ees_answered_def)
  qed
  show ?thesis
  proof (cases "e = 0")
    case False
    from refused [where u = s and us = "es_account_units s" and q = "es_sent s" and code = e and msg = "''risk check failed''"] False i e E(3) show ?thesis
      by (simp add: CTDEngineEES_req_order_insert_def ees_code_def Let_def)
  next
    case True
    note e = e [unfolded True]
    show ?thesis
    proof (cases "map_of tb (in_instr_hash data)")
      case None
      let ?us = "(es_account_units s)[?i := ?u\<lparr>eu_order := sided_order ev data (eu_order ?u)\<rparr>]"
      from refused [where u = "s\<lparr>es_account_units := ?us\<rparr>" and us = ?us and q = "es_sent s" and code = "-1"
          and msg = "''instrument not found in base info list''"] None i e E(3)
      show ?thesis by (simp add: CTDEngineEES_req_order_insert_def ees_code_def Let_def upd_es_unit_def es_unit_def)
    next
      case (Some info)
      define order where "order = filled_order ev data (ii_exch info) (te_request_id s) (eu_order ?u)"
      define us where "us = (es_account_units s)[?i := ?u\<lparr>eu_order := order\<rparr>]"
      define s2 where "s2 = s\<lparr>es_account_units := us, es_sent := es_sent s @ [EnterOrder (in_acc_idx data) order]\<rparr>"
      have code: "ees_code ev env data s = ev_ret ev (EnterOrder (in_acc_idx data) order)"
        using e Some E(3) by (simp add: ees_code_def order_def)
      have step: "CTDEngineEES_req_order_insert ev env data s =
          (if ees_code ev env data s = 0 then order_entered env data s2
           else ITDEngine_writeErrRtn_order env data (ees_code ev env data s) ''EES EnterOrder failed.'' ODS_ERR s2)"
        unfolding code using Some i e E(3) api
        by (simp add: CTDEngineEES_req_order_insert_def Let_def upd_es_unit_def es_unit_def ees_call_def
            order_def us_def s2_def)
      have us: "length us = length (es_account_units s)" by (simp add: us_def)
      show ?thesis
      proof (cases "ees_code ev env data s = 0")
        case False
        from refused [OF s2_def us False, of "''EES EnterOrder failed.''"] False show ?thesis by (simp add: step)
      next
        case True
        note m = units_move [OF ok us, of "es_sent s @ [EnterOrder (in_acc_idx data) order]", folded s2_def]
        then have ok2: "engine_ok ees_units ps tb s2" by (simp add: engine_moves_def)
        have same: "acc_index_ok (in_acc_idx data) s2" "te_acc_utilis s2 = te_acc_utilis s" "te_request_id s2 = te_request_id s"
          "te_writer s2 = te_writer s" and op: "opened s2 t x = opened s t x" for t x
          using idx by (simp_all add: s2_def acc_index_ok_def opened_def)
        from ees_engine.order_entered_ok [OF ok2 env same(1), unfolded same(2-4) op, OF room] True show ?thesis
          by (auto simp: step ees_answered_def)
      qed
    qed
  qed
qed

lemma ees_cancel_ok:
  assumes ok: "engine_ok ees_units ps tb s" and env: "chan_env ps env"
    and legal: "acc_index_ok (oa_acc_idx data) s \<Longrightarrow> eu_api (es_account_units s ! nat (oa_acc_idx data))"
  defines "ref \<equiv> oa_order_ref data"
  shows "\<exists>t. ITDEngine_engine_req_order_action (CTDEngineEES_req_order_action ev env) env data s = Inr t \<and>
    ((\<exists>m. refusal m \<and> engine_moves ees_units ps tb s t ref (track_of ref s) [m]) \<or>
     engine_moves ees_units ps tb s t ref (add_status ODS_CXLING (track_of ref s)) [])"
proof -
  note E = engine_okD [OF ok]
  note refl = engine_moves_refl [OF ok, of ref]
  let ?P = "\<lambda>t. (\<exists>m. refusal m \<and> engine_moves ees_units ps tb s t ref (track_of ref s) [m]) \<or>
     engine_moves ees_units ps tb s t ref (add_status ODS_CXLING (track_of ref s)) []"
  have err: "\<exists>t. ITDEngine_writeErrRtn_action env data e msg ty u = Inr t \<and> ?P t"
    if "engine_moves ees_units ps tb s u ref (track_of ref s) []" "ty \<in> {ODS_ERR, ODS_CANCEL_REJECT}" for e msg ty u
    using ees_engine.action_error_ok [OF that(1) env that(2), of data e msg] by blast
  let ?i = "nat (oa_acc_idx data)"
  show ?thesis
  proof (cases "acc_index_ok (oa_acc_idx data) s")
    case False
    then have go: "ITDEngine_engine_req_order_action (CTDEngineEES_req_order_action ev env) env data s =
        ITDEngine_writeErrRtn_action env data (-1) ''account idx err.'' ODS_ERR s"
      by (auto simp: ITDEngine_engine_req_order_action_def acc_index_ok_def)
    from err [OF refl, where ty = ODS_ERR] show ?thesis unfolding go by blast
  next
    case idx: True
    have i: "0 \<le> oa_acc_idx data" "?i < length (te_acc_utilis s)" "?i < length (es_account_units s)"
      using idx E(5) by (simp_all add: acc_index_ok_def)
    have go: "ITDEngine_engine_req_order_action (CTDEngineEES_req_order_action ev env) env data s =
        CTDEngineEES_req_order_action ev env data s"
      using i by (simp add: ITDEngine_engine_req_order_action_def)
    show ?thesis
    proof (cases "ITDEngine_checkRequestId ref s \<and> ot_session_id (track_of ref s) \<noteq> 0")
      case False
      with err [OF refl, where ty = ODS_CANCEL_REJECT] get_track_ok [OF ok, of ref] show ?thesis
        unfolding go by (auto simp: CTDEngineEES_req_order_action_def Let_def simp flip: ref_def)
    next
      case True
      define order where "order = (eu_action_order (es_account_units s ! ?i))\<lparr>ec_MarketOrderToken := oa_front_id data\<rparr>"
      define q where "q = CancelOrder (oa_acc_idx data) order"
      define us where "us = (es_account_units s)[?i := (es_account_units s ! ?i)\<lparr>eu_action_order := order\<rparr>]"
      define s2 where "s2 = s\<lparr>es_account_units := us, es_sent := es_sent s @ [q]\<rparr>"
      have m2: "engine_moves ees_units ps tb s s2 ref (track_of ref s) []"
        unfolding s2_def by (rule units_move [OF ok]) (simp add: us_def)
      have step: "CTDEngineEES_req_order_action ev env data s =
          (if ev_ret ev q = 0 then Inr (upd_request_track ref (add_status ODS_CXLING) s2)
           else ITDEngine_writeErrRtn_action env data (-3) ''ees CancelOrder api failed.'' ODS_CANCEL_REJECT s2)"
        using True i legal [OF idx] get_track_ok [OF ok, of ref]
        by (simp add: CTDEngineEES_req_order_action_def Let_def upd_es_unit_def es_unit_def ees_call_def
            ref_def order_def q_def us_def s2_def)
      have ok2: "engine_ok ees_units ps tb s2" and t2: "track_of ref s2 = track_of ref s"
        using m2 by (simp_all add: engine_moves_def track_of_def)
      from engine_moves_trans [OF m2 ees_engine.upd_track_ok [OF ok2, of "add_status ODS_CXLING" ref]]
      have "engine_moves ees_units ps tb s (upd_request_track ref (add_status ODS_CXLING) s2) ref
          (add_status ODS_CXLING (track_of ref s)) []" by (simp add: t2 add_status_def)
      with err [OF m2, where ty = ODS_CANCEL_REJECT] show ?thesis unfolding go step by (cases "ev_ret ev q = 0") auto
    qed
  qed
qed

section \<open>The invariant of a run\<close>

definition ees_inv :: "int \<Rightarrow> instr_table \<Rightarrow> int \<Rightarrow> io_order_rtn list \<Rightarrow> 't td_ees \<Rightarrow> bool" where
  "ees_inv ps tb r0 L0 s \<longleftrightarrow>
     engine_ok ees_units ps tb s \<and> known_refs r0 s \<and> (\<exists>L. wr_log (te_writer s) = L0 @ L \<and> log_ok r0 s L)"

definition ees_env :: "int \<Rightarrow> 't eng_env \<Rightarrow> bool" where
  "ees_env ps env \<longleftrightarrow> chan_env ps env \<and> 0 < en_fuel env"

lemma ees_inv_moves:
  assumes m: "engine_moves ees_units ps tb s t ref trk ms" and k: "known_refs r0 t"
    and L: "wr_log (te_writer s) = L0 @ L" "log_ok r0 t (L @ ms)"
  shows "ees_inv ps tb r0 L0 t"
  using m k L by (auto simp: ees_inv_def engine_moves_def)

lemma ees_step_ok:
  assumes inv: "ees_env ps env \<and> ees_inv ps tb r0 L0 s" and legal: "ees_legal v2 e s"
  shows "\<exists>t. ees_step v2 ev env e s = Inr t \<and> ees_env ps env \<and> ees_inv ps tb r0 L0 t"
proof -
  from inv obtain L where ok: "engine_ok ees_units ps tb s" and k: "known_refs r0 s"
    and L: "wr_log (te_writer s) = L0 @ L" "log_ok r0 s L" by (auto simp: ees_inv_def)
  have "chan_env ps env" and fuel: "0 < en_fuel env" using inv by (simp_all add: ees_env_def)
  then have env: "chan_env ps (env\<lparr>en_now := now\<rparr>)" for now by (simp add: chan_env_def)
  have refused: "ees_inv ps tb r0 L0 t"
    if "engine_moves ees_units ps tb s t ref (track_of ref s) [m]" "refusal m" for t ref m
    by (rule ees_inv_moves [OF that(1) known_refs_same [OF that(1) k] L(1) log_ok_refusal [OF L(2) that]]) simp_all
  show ?thesis
  proof (cases e)
    case (EesInsert now ret data)
    let ?env = "env\<lparr>en_now := now\<rparr>" and ?ev = "ev\<lparr>ev_ret := \<lambda>_. ret\<rparr>"
    have "0 < en_fuel ?env" using fuel by simp
    from ees_insert_ok [OF ok env [of now] this, of data ?ev] legal EesInsert obtain m t where
      t: "CTDEngineEES_req_order_insert ?ev ?env data s = Inr t"
        "ees_answered ps tb data (ees_code ?ev ?env data s) s t m" by auto
    have "ees_inv ps tb r0 L0 t"
    proof (cases "ees_code ?ev ?env data s = 0")
      case True
      with t(2) have o: "opened s t m" "ot_order_ref (track_of (te_request_id s) t) = te_request_id s"
        and t2: "engine_ok ees_units ps tb t" "wr_log (te_writer t) = wr_log (te_writer s) @ [m]"
        by (simp_all add: ees_answered_def)
      have room: "te_request_id s < te_request_id_start s + MMAP_ORDER_TRACK_SIZE" using legal EesInsert by simp
      from log_ok_opened [OF L(2) o(1) room] known_refs_opened [OF o(1) k room o(2)] t2 L(1) show ?thesis
        by (auto simp: ees_inv_def)
    next
      case False
      with t(2) have "engine_moves ees_units ps tb s t 0 (track_of 0 s) [m]" "refusal m"
        by (simp_all add: ees_answered_def refusal_def)
      then show ?thesis by (rule refused)
    qed
    with t(1) EesInsert inv show ?thesis by simp
  next
    case (EesCancel now ret data)
    let ?env = "env\<lparr>en_now := now\<rparr>" and ?ev = "ev\<lparr>ev_ret := \<lambda>_. ret\<rparr>" and ?ref = "oa_order_ref data"
    from ees_cancel_ok [OF ok env [of now], of data ?ev] legal EesCancel obtain t where
      t: "ITDEngine_engine_req_order_action (CTDEngineEES_req_order_action ?ev ?env) ?env data s = Inr t"
        "(\<exists>m. refusal m \<and> engine_moves ees_units ps tb s t ?ref (track_of ?ref s) [m]) \<or>
         engine_moves ees_units ps tb s t ?ref (add_status ODS_CXLING (track_of ?ref s)) []" by auto
    from t(2) have "ees_inv ps tb r0 L0 t"
    proof (elim disjE exE conjE)
      assume m: "engine_moves ees_units ps tb s t ?ref (add_status ODS_CXLING (track_of ?ref s)) []"
      from log_ok_cxling [OF L(2) m [unfolded add_status_def]] known_refs_same [OF m k] L(1) m show ?thesis
        by (intro ees_inv_moves [OF m]) (simp_all add: add_status_def)
    qed (rule refused)
    with t(1) EesCancel inv show ?thesis by simp
  next
    case (EesReport now cb)
    let ?env = "env\<lparr>en_now := now\<rparr>"
    from legal EesReport obtain q where q: "ees_report_ref v2 cb = Some q"
      "\<And>ref. q = ByRef ref \<Longrightarrow> ref < te_request_id s \<and> ot_order_ref (track_of ref s) = ref"
      by (auto split: option.splits ees_ref.splits)
    from ees_report_ok [OF ok env [of now] k q] obtain t ref trk ms where
      t: "ees_run_callback v2 ?env cb s = Inr t" "engine_moves ees_units ps tb s t ref trk ms"
      "ms = [] \<and> trk = track_of ref s \<or>
       te_request_id_start s \<le> ref \<and> ref < te_request_id s \<and> ot_order_ref trk = ref \<and> reports_ok ref (track_of ref s) trk ms"
      unfolding ees_done_def by blast
    have "known_refs r0 t \<and> log_ok r0 t (L @ ms)" using t(3)
    proof (elim disjE conjE)
      assume same: "ms = []" "trk = track_of ref s"
      have "track_of j t = track_of j s" for j using t(2) same by (simp add: engine_moves_def track_of_def)
      with L(2) t(2) same known_refs_same [OF t(2) k] show ?thesis by (simp add: log_ok_def engine_moves_def)
    next
      assume r: "te_request_id_start s \<le> ref" "ref < te_request_id s" "ot_order_ref trk = ref"
        "reports_ok ref (track_of ref s) trk ms"
      have "te_request_id s \<le> te_request_id_start s + MMAP_ORDER_TRACK_SIZE" using L(2) by (simp add: log_ok_def)
      from known_refs_report [OF t(2) k r(1,2) this r(3)] log_ok_report [OF L(2) t(2) r(4,2,1)] show ?thesis ..
    qed
    with ees_inv_moves [OF t(2) _ L(1)] t(1) EesReport inv show ?thesis by simp
  qed
qed

interpretation ees_gateway: guarded_machine "ees_step v2 ev env" "ees_legal v2"
    "\<lambda>s. ees_env ps env \<and> ees_inv ps tb r0 L0 s" for v2 ev env ps tb r0 L0
  by unfold_locales (rule ees_step_ok)

end
