(* ===== verification/Ees_Properties.thy ===== *)
theory Ees_Properties
  imports Ees_Inv Ctp_Example
begin

text \<open>
  What the EES gateways promise their clients: reports in accord with the records, sides that keep
  direction and offset, new numbers after a logon; and where they promise less than the CTP gateway.
\<close>

section \<open>An engine\<close>

text \<open>The account and the records of the example of the CTP gateway on an EES interface.\<close>

definition ee_vendor :: ees_vendor where
  "ee_vendor = \<lparr>ev_ret = (\<lambda>_. 0), ev_create = (\<lambda>_. True), ev_symbol_size = 20,
     ev_order = \<lparr>eo_Account = [], eo_Side = EES_other_side 0, eo_Symbol = [], eo_Exchange = 0, eo_Price = 0,
       eo_Qty = 0, eo_ClientOrderToken = 0\<rparr>,
     ev_cancel = \<lparr>ec_Account = [], ec_Quantity = 0, ec_MarketOrderToken = 0\<rparr>\<rparr>"

definition ee_start :: "tnode list td_ees" where
  "ee_start = td_engine.extend (td_engine.truncate (clear_track gw_start))
     \<lparr>es_account_units = [\<lparr>eu_api = True, eu_order = ev_order ee_vendor, eu_action_order = ev_cancel ee_vendor,
        eu_connected = True, eu_logged_in = True\<rparr>],
      es_curAccountIdx = 0, es_query_complete_flag = True, es_max_ref_id = 3, es_sent = []\<rparr>"

lemma ee_start_simps [simp]:
  "te_writer ee_start = te_writer gw_start" "te_base ee_start = te_base gw_start"
  "te_track_mapped ee_start = te_track_mapped gw_start" "te_acc_utilis ee_start = te_acc_utilis gw_start"
  "te_request_track ee_start = te_request_track (clear_track gw_start)" "te_request_id ee_start = 4"
  "te_request_id_start ee_start = 1" "length (es_account_units ee_start) = 1"
  "eu_api (es_account_units ee_start ! 0)"
  using gw_ids by (simp_all add: ee_start_def clear_track_def td_engine.defs)

lemma ee_engine_ok: "ees_env 600 gw_env" "engine_ok ees_units 600 (tb_instr_info if_base) ee_start"
proof -
  show "ees_env 600 gw_env" using gw_engine_ok(1) by (simp add: ees_env_def ctp_env_def)
  have "length (te_acc_utilis ee_start) = length (es_account_units ee_start)" using gw_ids(5) by simp
  moreover have "0 < length (te_acc_utilis gw_start)" using gw_ids(5) by simp
  ultimately show "engine_ok ees_units 600 (tb_instr_info if_base) ee_start"
    using engine_okD(1-4,6) [OF gw_engine_ok(2)] unfolding engine_ok_def acc_index_ok_def ee_start_simps
    by (simp add: clear_track_def order_track_init_def)
qed

lemma ee_known: "known_refs 4 ee_start"
  by (simp add: known_refs_def track_of_def clear_track_def)

definition ee_day :: "ees_event list" where
  "ee_day =
     [EesInsert 100 0 gw_order, EesReport 101 (OnOrderMarketAccept 4 77),
      EesReport 102 (OnCxlOrderReject 77 5 ''too late'')]"

lemma ee_legal: "legal_run (ees_step True ee_vendor gw_env) (ees_legal True) ee_day ee_start"
  using gw_room gw_ids(5)
  by (simp add: ee_day_def acc_index_ok_def MMAP_ORDER_TRACK_SIZE_def gw_order_def split: sum.split)

section \<open>Reports\<close>

text \<open>
  C16. The EES gateways, both versions, keep the promise of the CTP gateway: along every run of a day under the
  conditions below (orders and cancels of clients with whatever the interface answers, reports of broker and
  market in any order and as often as they like) no step faults; each message refuses a request or is
  addressed to the client its order came from, under the client's number for it; and each order sent in the run
  was acknowledged exactly once, reported as accepted at most once by the broker and once by the market, ended at
  most once, and its reported executions sum up to the traded volume of its record. Reports by the number of the
  market find the order they are about.

  The run starts with accounts as \<^verbatim>\<open>initAccountUtilis\<close> leaves them and records that name accounts there are
  (\<open>engine_ok\<close>). The conditions (\<open>ees_legal\<close>): an order names an account there is (the gateway does not check the index and
  reads out of range, \<open>account_index_is_unchecked\<close>); the interface of that account is connected, for a cancel as well;
  the vector of the working orders of its instrument has room for it, at most 1024 on a day
  (the next one leaves dangling links); the day has at most 262144 orders; a report by the number
  of an order is about one that is recorded under that number. A request and a report are steps of their own.
  The pages of the channel have room for a report, and the system grants what the writer asks for.
\<close>

theorem ees_reports_follow_records:
  assumes "ees_env ps env" "engine_ok ees_units ps tb s0" "known_refs (te_request_id s0) s0"
    and "te_request_id_start s0 \<le> te_request_id s0"
    and "te_request_id s0 \<le> te_request_id_start s0 + MMAP_ORDER_TRACK_SIZE"
    and "legal_run (ees_step v2 ev env) (ees_legal v2) es s0"
  shows "\<exists>s L. run_steps (ees_step v2 ev env) es s0 = Inr s \<and>
    wr_log (te_writer s) = wr_log (te_writer s0) @ L \<and>
    (\<forall>m \<in> set L. refusal m \<or>
       (\<exists>ref. te_request_id_start s \<le> ref \<and> ref < te_request_id s \<and> addressed ref (track_of ref s) m)) \<and>
    (\<forall>ref. te_request_id s0 \<le> ref \<longrightarrow> ref < te_request_id s \<longrightarrow>
       order_log ref (track_of ref s) L \<and> ot_order_ref (track_of ref s) = ref)"
proof -
  have "ees_env ps env \<and> ees_inv ps tb (te_request_id s0) (wr_log (te_writer s0)) s0"
    using assms(1-5) by (auto simp: ees_inv_def log_ok_def)
  from ees_gateway.run_inv [OF this assms(6)] obtain s L where
    r: "run_steps (ees_step v2 ev env) es s0 = Inr s" "wr_log (te_writer s) = wr_log (te_writer s0) @ L"
      "known_refs (te_request_id s0) s" "log_ok (te_request_id s0) s L"
    unfolding ees_inv_def by blast
  then show ?thesis unfolding log_ok_def known_refs_def by (intro exI [of _ s] exI [of _ L]) auto
qed

theorem ees_reports_follow_records_witness:
  "\<exists>s L. run_steps (ees_step True ee_vendor gw_env) ee_day ee_start = Inr s \<and>
    wr_log (te_writer s) = wr_log (te_writer ee_start) @ L \<and>
    (\<forall>m \<in> set L. refusal m \<or>
       (\<exists>ref. te_request_id_start s \<le> ref \<and> ref < te_request_id s \<and> addressed ref (track_of ref s) m)) \<and>
    (\<forall>ref. te_request_id ee_start \<le> ref \<longrightarrow> ref < te_request_id s \<longrightarrow>
       order_log ref (track_of ref s) L \<and> ot_order_ref (track_of ref s) = ref)"
  by (rule ees_reports_follow_records [OF ee_engine_ok _ _ _ ee_legal])
    (simp_all add: ee_known MMAP_ORDER_TRACK_SIZE_def)

section \<open>Sides\<close>

text \<open>
  The side of the interface keeps what the client asked for: an order found again by a query after a
  restart has the direction and the offset of the request, a plain close as a close of yesterday's
  position.
\<close>

theorem side_keeps_direction_and_offset:
  assumes "dir \<in> {AT_CHAR_Buy, AT_CHAR_Sell}"
    and "off \<in> {AT_CHAR_Open, AT_CHAR_CloseToday, AT_CHAR_CloseYesterday, AT_CHAR_Close}"
  shows "side_dir_off (order_side dir off old) =
    Some (dir, if off = AT_CHAR_Close then AT_CHAR_CloseYesterday else off)"
  using assms by (auto simp: order_side_def side_dir_off_def AT_CHAR_Buy_def AT_CHAR_Sell_def
      AT_CHAR_Open_def AT_CHAR_CloseToday_def AT_CHAR_CloseYesterday_def AT_CHAR_Close_def)

theorem side_keeps_direction_and_offset_witness:
  "side_dir_off (order_side AT_CHAR_Sell AT_CHAR_Close EES_open_long) = Some (AT_CHAR_Sell, AT_CHAR_CloseYesterday)"
  using side_keeps_direction_and_offset [of AT_CHAR_Sell AT_CHAR_Close EES_open_long] by simp

text \<open>An offset the statements do not name sends the order on the side of the order before it.\<close>

lemma unnamed_offset_repeats_side:
  "off \<notin> {AT_CHAR_Open, AT_CHAR_CloseToday, AT_CHAR_CloseYesterday, AT_CHAR_Close} \<Longrightarrow>
   eo_Side (filled_order ev (data\<lparr>in_off := off\<rparr>) exch rid o1) = eo_Side o1"
  by (simp add: filled_order_def sided_order_def order_side_def)

section \<open>Numbers and accounts\<close>

text \<open>After a logon no order gets a number that the broker has seen, nor one given out before.\<close>

lemma logon_numbers_are_new:
  "CTDEngineEES_OnUserLogon 0 day max_token s = Inr t \<Longrightarrow>
   max_token < te_request_id t \<and> es_max_ref_id s < te_request_id t \<and> te_request_id s \<le> te_request_id t"
  by (auto simp: CTDEngineEES_OnUserLogon_def upd_es_unit_def res_bind_Inr_iff Let_def)

text \<open>An order that names no account of the engine is not refused: the vectors are read out of range.\<close>

lemma account_index_is_unchecked:
  "\<not> acc_index_ok (in_acc_idx data) s \<Longrightarrow> CTDEngineEES_req_order_insert ev env data s = Inl OutOfRange"
  by (auto simp: CTDEngineEES_req_order_insert_def acc_index_ok_def Let_def)

end
