(* ===== verification/Td_Xt.thy ===== *)
theory Td_Xt
  imports Td_Ees
begin

text \<open>
  \<^verbatim>\<open>td/CTDEngineXt\<close>, the engine on the XT interface. It numbers its requests and its orders from one
  counter; the interface reports on an order by a number of its own, which the engine maps back
  (\<open>xt_order2request\<close>). As for the other gateways, the interface is recorded and its callbacks are
  inputs; where the code stores the vendor's number of a state in a message, the structure has that
  number as a field of its own.
\<close>

section \<open>Structures of the interface\<close>

datatype xt_operation =
    OPT_OPEN_LONG
  | OPT_CLOSE_SHORT_HISTORY
  | OPT_CLOSE_SHORT_TODAY
  | OPT_OPEN_SHORT
  | OPT_CLOSE_LONG_HISTORY
  | OPT_CLOSE_LONG_TODAY
  | OPT_NONE

record xt_ordinary_order =
  xi_AccountID :: string
  xi_Market :: string
  xi_Instrument :: string
  xi_Volume :: int
  xi_OperationType :: xt_operation
  xi_Price :: double

datatype xt_command_status =
    OCS_REJECTED
  | OCS_FROCE_COMPLETED
  | OCS_CHECKFAILED
  | OCS_FINISHED
  | OCS_STOPPED
  | OCS_OTHER

record xt_order_info =
  xo_OrderID :: int
  xo_Status :: xt_command_status
  xo_StatusCode :: int
  xo_Msg :: string

datatype xt_entrust_status =
    ENTRUST_WAIT_END
  | ENTRUST_UNREPORTED
  | ENTRUST_WAIT_REPORTING
  | ENTRUST_REPORTED
  | ENTRUST_UNKNOWN
  | ENTRUST_REPORTED_CANCEL
  | ENTRUST_PARTSUCC_CANCEL
  | ENTRUST_PART_CANCEL
  | ENTRUST_PART_SUCC
  | ENTRUST_ACCEPT
  | ENTRUST_CONFIRMED
  | ENTRUST_DETERMINED
  | ENTRUST_PREPARE_ORDER
  | ENTRUST_SUCCEEDED
  | ENTRUST_PREPARE_CANCELED
  | ENTRUST_CANCELED
  | ENTRUST_JUNK
  | ENTRUST_OTHER

record xt_order_detail =
  xd_OrderID :: int
  xd_OrderStatus :: xt_entrust_status
  xd_StatusCode :: int
  xd_ErrorMsg :: string
  xd_InstrumentID :: string
  xd_LimitPrice :: double
  xd_TotalVolume :: int
  xd_is_buy :: bool
  xd_TradedVolume :: int

record xt_deal_detail =
  xe_OrderID :: int
  xe_TradeID :: string
  xe_AveragePrice :: double
  xe_Volume :: int

record xt_instrument =
  xn_InstrumentID :: string
  xn_ExchangeID :: string
  xn_ProductID :: string
  xn_PriceTick :: double
  xn_EndDelivDate :: string
  xn_not_suspended :: bool

text \<open>\<^verbatim>\<open>XtError\<close>: nothing for success, else the number and the message.\<close>

type_synonym xt_error = "(int \<times> string) option"

datatype xt_request =
    XtUserLogin int string string int
  | XtUserLogout int string string int
  | XtReqAccountDetail int string int
  | XtReqPriceDataByMarket string int
  | XtReqOrderDetail int string int
  | XtReqDealDetail int string int
  | XtOrder int xt_ordinary_order int
  | XtCancel int int int

section \<open>State\<close>

record xt_unit =
  xu_input_order :: xt_ordinary_order
  xu_api :: bool
  xu_initialized :: bool
  xu_connected :: bool
  xu_logged_in :: bool
  xu_login_rid :: int
  xu_account_id :: string
  xu_user_id :: string
  xu_passwd :: string

record 't td_xt = "'t td_engine" +
  xt_curAccountIdx :: int
  xt_account_units :: "xt_unit list"
  xt_query_complete_flag :: bool
  xt_order2request :: "(int, int) umap"
  xt_sent :: "xt_request list"

definition xt_unit :: "int \<Rightarrow> 't td_xt \<Rightarrow> xt_unit res" where
  "xt_unit idx s =
     (if 0 \<le> idx \<and> nat idx < length (xt_account_units s) then Inr (xt_account_units s ! nat idx)
      else Inl OutOfRange)"

definition upd_xt_unit :: "int \<Rightarrow> (xt_unit \<Rightarrow> xt_unit) \<Rightarrow> 't td_xt \<Rightarrow> 't td_xt res" where
  "upd_xt_unit idx f s =
     res_bind (xt_unit idx s) (\<lambda>u. Inr (s\<lparr>xt_account_units := (xt_account_units s)[nat idx := f u]\<rparr>))"

text \<open>A call through the \<^verbatim>\<open>api\<close> pointer of an account; the calls return nothing.\<close>

definition xt_call :: "int \<Rightarrow> xt_request \<Rightarrow> 't td_xt \<Rightarrow> 't td_xt res" where
  "xt_call idx q s =
     res_bind (xt_unit idx s) (\<lambda>u.
       if xu_api u then Inr (s\<lparr>xt_sent := xt_sent s @ [q]\<rparr>) else Inl NullDeref)"

definition CTDEngineXt_load_account :: "string \<times> string \<times> string \<Rightarrow> xt_unit" where
  "CTDEngineXt_load_account c =
     (case c of (account, user, passwd) \<Rightarrow>
        \<lparr>xu_input_order = \<lparr>xi_AccountID = account, xi_Market = [], xi_Instrument = [], xi_Volume = 0,
            xi_OperationType = OPT_NONE, xi_Price = 0\<rparr>,
         xu_api = False, xu_initialized = False, xu_connected = False, xu_logged_in = False,
         xu_login_rid = 0, xu_account_id = account, xu_user_id = user, xu_passwd = passwd\<rparr>)"

definition CTDEngineXt_is_connected :: "'t td_xt \<Rightarrow> bool" where
  "CTDEngineXt_is_connected s = list_all xu_connected (xt_account_units s)"

definition CTDEngineXt_is_logged_in :: "'t td_xt \<Rightarrow> bool" where
  "CTDEngineXt_is_logged_in s = list_all xu_logged_in (xt_account_units s)"

fun xt_logout_from :: "nat \<Rightarrow> nat \<Rightarrow> 't td_xt \<Rightarrow> 't td_xt res" where
  "xt_logout_from idx 0 s = Inr s"
| "xt_logout_from idx (Suc n) s =
     (let u = xt_account_units s ! idx; rid = te_request_id s in
      if xu_logged_in u then
        res_bind (upd_xt_unit (int idx) (\<lambda>u. u\<lparr>xu_login_rid := rid\<rparr>) s) (\<lambda>s1.
        res_bind (xt_call (int idx) (XtUserLogout (int idx) (xu_user_id u) (xu_passwd u) rid)
            (s1\<lparr>te_request_id := rid + 1\<rparr>))
          (xt_logout_from (Suc idx) n))
      else xt_logout_from (Suc idx) n s)"

definition CTDEngineXt_logout :: "'t td_xt \<Rightarrow> 't td_xt res" where
  "CTDEngineXt_logout s = xt_logout_from 0 (length (xt_account_units s)) s"

definition CTDEngineXt_release_api :: "'t td_xt \<Rightarrow> 't td_xt" where
  "CTDEngineXt_release_api s =
     s\<lparr>xt_account_units := map (\<lambda>u. u\<lparr>xu_api := False, xu_initialized := False, xu_connected := False,
         xu_logged_in := False\<rparr>) (xt_account_units s)\<rparr>"

definition CTDEngineXt_release :: "'t td_xt \<Rightarrow> 't td_xt res" where
  "CTDEngineXt_release s = res_bind (CTDEngineXt_logout s) (\<lambda>s1. Inr (CTDEngineXt_release_api s1))"

section \<open>Callbacks of the connection\<close>

definition CTDEngineXt_onConnected :: "bool \<Rightarrow> 't td_xt \<Rightarrow> 't td_xt res" where
  "CTDEngineXt_onConnected success s =
     (if success then upd_xt_unit (xt_curAccountIdx s) (\<lambda>u. u\<lparr>xu_connected := True\<rparr>) s
      else Inr (s\<lparr>xt_account_units := map (\<lambda>u. u\<lparr>xu_connected := False, xu_logged_in := False\<rparr>)
                   (xt_account_units s)\<rparr>))"

definition CTDEngineXt_onRtnLoginStatus :: "string \<Rightarrow> bool \<Rightarrow> 't td_xt \<Rightarrow> 't td_xt res" where
  "CTDEngineXt_onRtnLoginStatus accountID status_ok s =
     (if \<not> status_ok then Inr s
      else upd_xt_unit (xt_curAccountIdx s) (\<lambda>u.
             (if c_str (xu_account_id u) \<noteq> c_str accountID
              then u\<lparr>xu_account_id := c_str accountID,
                     xu_input_order := (xu_input_order u)\<lparr>xi_AccountID := c_str accountID\<rparr>\<rparr>
              else u)\<lparr>xu_logged_in := True\<rparr>) s)"

text \<open>The first account that logged out with the number.\<close>

fun log_out_first :: "int \<Rightarrow> xt_unit list \<Rightarrow> xt_unit list" where
  "log_out_first rid [] = []"
| "log_out_first rid (u # us) =
     (if xu_login_rid u = rid then u\<lparr>xu_logged_in := False\<rparr> # us else u # log_out_first rid us)"

definition CTDEngineXt_onUserLogout :: "int \<Rightarrow> xt_error \<Rightarrow> 't td_xt \<Rightarrow> 't td_xt" where
  "CTDEngineXt_onUserLogout rid err s =
     (if \<not> ITDEngine_checkRequestId rid s \<or> err \<noteq> None then s
      else s\<lparr>xt_account_units := log_out_first rid (xt_account_units s)\<rparr>)"

definition CTDEngineXt_onReqAccountDetail :: "int \<Rightarrow> string \<Rightarrow> xt_error \<Rightarrow> 't td_xt \<Rightarrow> 't td_xt" where
  "CTDEngineXt_onReqAccountDetail rid trading_date err s =
     (if \<not> ITDEngine_checkRequestId rid s \<or> err \<noteq> None then s
      else s\<lparr>te_base := (te_base s)\<lparr>tb_trading_day := c_str trading_date\<rparr>, xt_query_complete_flag := True\<rparr>)"

text \<open>The multiplier of a product, which the interface does not tell: \<^verbatim>\<open>strcasecmp\<close> with fixed names.\<close>

definition lower :: "char \<Rightarrow> char" where
  "lower c = (let n = of_char c :: nat in if 65 \<le> n \<and> n \<le> 90 then char_of (n + 32) else c)"

definition multiple_table :: "(string list \<times> int) list" where
  "multiple_table =
     [([''ni'', ''sn'', ''niefp'', ''snefp''], 1),
      ([''cy'', ''sf'', ''sm'', ''ta'', ''al'', ''cu'', ''l'', ''pb'', ''pp'', ''v'', ''zn'', ''cf'',
        ''znefp'', ''alefp'', ''cuefp'', ''pbefp''], 5),
      ([''ap'', ''ma'', ''b'', ''bu'', ''cs'', ''hc'', ''jd'', ''p'', ''rb'', ''ru'', ''wr'', ''oi'',
        ''rm'', ''rs'', ''sr'', ''a'', ''c'', ''m'', ''y'', ''src'', ''srp'', ''m_o'', ''rbefp'', ''ruefp'',
        ''wrefp'', ''buefp'', ''fuefp'', ''hcefp''], 10),
      ([''ag'', ''agefp''], 15),
      ([''fg'', ''jr'', ''lr'', ''ri'', ''wh''], 20),
      ([''fu'', ''pm''], 50),
      ([''jm''], 60),
      ([''zc'', ''i'', ''j''], 100),
      ([''ic''], 200),
      ([''ih'', ''if''], 300),
      ([''bb'', ''fb''], 500),
      ([''au'', ''sc'', ''auefp'', ''scefp''], 1000),
      ([''tf'', ''t'', ''ts''], 10000)]"

definition CTDEngineXt_getMultipleByPrd :: "string \<Rightarrow> int" where
  "CTDEngineXt_getMultipleByPrd prd =
     (case List.find (\<lambda>(names, m). map lower (c_str prd) \<in> set names) multiple_table of
        None \<Rightarrow> 1 | Some (_, m) \<Rightarrow> m)"

definition CTDEngineXt_onReqCInstrumentDetail ::
    "int \<Rightarrow> xt_instrument \<Rightarrow> bool \<Rightarrow> xt_error \<Rightarrow> 't td_xt \<Rightarrow> 't td_xt" where
  "CTDEngineXt_onReqCInstrumentDetail rid i is_last err s =
     (if \<not> ITDEngine_checkRequestId rid s \<or> err \<noteq> None then s
      else if is_last then s\<lparr>xt_query_complete_flag := True\<rparr>
      else
        (let h = INSTR_NAME_TO_HASH (c_str (xn_InstrumentID i));
             product = take 31 (c_str (xn_ProductID i));
             info = \<lparr>ii_instr_hash = h, ii_instr = take 31 (c_str (xn_InstrumentID i)),
                     ii_exch = exchangeStr2int (c_str (xn_ExchangeID i)), ii_product = product,
                     ii_product_hash = INSTR_NAME_TO_HASH product,
                     ii_vol_multiple = CTDEngineXt_getMultipleByPrd product, ii_tick_price = xn_PriceTick i,
                     ii_expire_date = take 9 (c_str (xn_EndDelivDate i)), ii_is_trading = xn_not_suspended i\<rparr>
         in s\<lparr>te_base := (te_base s)\<lparr>tb_instr_info := AList.update h info (tb_instr_info (te_base s))\<rparr>\<rparr>))"

section \<open>Reports\<close>

text \<open>\<^verbatim>\<open>onOrder\<close>, the answer to an order; a success brings the number of the interface.\<close>

definition CTDEngineXt_onOrder ::
    "'t eng_env \<Rightarrow> int \<Rightarrow> int \<Rightarrow> xt_error \<Rightarrow> 't td_xt \<Rightarrow> 't td_xt res" where
  "CTDEngineXt_onOrder env rid orderID err s =
     (if \<not> ITDEngine_checkRequestId rid s then Inr s
      else
        (case err of
           None \<Rightarrow>
             res_bind (report_track env rid
                 (\<lambda>t. (add_status ODS_ACCEPT t)\<lparr>ot_front_id := 1, ot_session_id := orderID\<rparr>)
                 (\<lambda>_ m. m\<lparr>rm_msg_type := ODS_ACCEPT\<rparr>) s) (\<lambda>s1.
               Inr (s1\<lparr>xt_order2request := AList.update orderID rid (xt_order2request s1)\<rparr>))
         | Some (code, msg) \<Rightarrow>
             report_track env rid (add_status ODS_REJECT)
               (\<lambda>_ m. strncpy_msg msg (m\<lparr>rm_msg_type := ODS_REJECT, rm_errid := code\<rparr>)) s))"

definition CTDEngineXt_onRtnOrderError ::
    "'t eng_env \<Rightarrow> int \<Rightarrow> int \<Rightarrow> string \<Rightarrow> 't td_xt \<Rightarrow> 't td_xt res" where
  "CTDEngineXt_onRtnOrderError env rid code msg s =
     (if \<not> ITDEngine_checkRequestId rid s then Inr s
      else
        res_bind (ITDEngine_get_request_track rid s) (\<lambda>t.
          if ot_status t AND ODS_REJECT \<noteq> 0 then Inr s
          else report_track env rid (add_status ODS_REJECT)
                 (\<lambda>_ m. strncpy_msg msg (m\<lparr>rm_msg_type := ODS_REJECT, rm_errid := code\<rparr>)) s))"

text \<open>A report of a flag that is sent once, with the vendor's number of the state and a message.\<close>

definition report_once ::
    "'t eng_env \<Rightarrow> int \<Rightarrow> int \<Rightarrow> (order_track \<Rightarrow> rtn_msg \<Rightarrow> rtn_msg) \<Rightarrow> int \<Rightarrow> string \<Rightarrow> 't td_xt \<Rightarrow> 't td_xt res" where
  "report_once env ref flag fill code msg s =
     res_bind (ITDEngine_get_request_track ref s) (\<lambda>t.
       if ot_status t AND flag \<noteq> 0 then Inr s
       else report_track env ref (add_status flag)
              (\<lambda>t m. strncpy_msg msg (fill t (m\<lparr>rm_msg_type := flag, rm_errid := code\<rparr>))) s)"

definition rest_volume :: "order_track \<Rightarrow> rtn_msg \<Rightarrow> rtn_msg" where
  "rest_volume t m = m\<lparr>rm_vol := ot_vol t - ot_vol_traded t\<rparr>"

definition CTDEngineXt_onRtnOrder :: "'t eng_env \<Rightarrow> xt_order_info \<Rightarrow> 't td_xt \<Rightarrow> 't td_xt res" where
  "CTDEngineXt_onRtnOrder env d s =
     (case map_of (xt_order2request s) (xo_OrderID d) of
        None \<Rightarrow> Inr s
      | Some ref \<Rightarrow>
          (case xo_Status d of
             OCS_REJECTED \<Rightarrow> report_once env ref ODS_REJECT (\<lambda>_ m. m) (xo_StatusCode d) (xo_Msg d) s
           | OCS_FROCE_COMPLETED \<Rightarrow> report_once env ref ODS_REJECT (\<lambda>_ m. m) (xo_StatusCode d) (xo_Msg d) s
           | OCS_CHECKFAILED \<Rightarrow> report_once env ref ODS_REJECT (\<lambda>_ m. m) (xo_StatusCode d) (xo_Msg d) s
           | OCS_FINISHED \<Rightarrow> report_once env ref ODS_CLOSED (\<lambda>_ m. m) (xo_StatusCode d) (xo_Msg d) s
           | OCS_STOPPED \<Rightarrow> report_once env ref ODS_CANCELED rest_volume (xo_StatusCode d) (xo_Msg d) s
           | OCS_OTHER \<Rightarrow> Inr s))"

definition entrust_accepted :: "xt_entrust_status set" where
  "entrust_accepted =
     {ENTRUST_WAIT_END, ENTRUST_UNREPORTED, ENTRUST_WAIT_REPORTING, ENTRUST_REPORTED, ENTRUST_UNKNOWN,
      ENTRUST_REPORTED_CANCEL, ENTRUST_PARTSUCC_CANCEL, ENTRUST_PART_CANCEL, ENTRUST_PART_SUCC,
      ENTRUST_ACCEPT, ENTRUST_CONFIRMED, ENTRUST_DETERMINED, ENTRUST_PREPARE_ORDER}"

definition CTDEngineXt_onRtnOrderDetail :: "'t eng_env \<Rightarrow> xt_order_detail \<Rightarrow> 't td_xt \<Rightarrow> 't td_xt res" where
  "CTDEngineXt_onRtnOrderDetail env d s =
     (case map_of (xt_order2request s) (xd_OrderID d) of
        None \<Rightarrow> Inr s
      | Some ref \<Rightarrow>
          res_bind (ITDEngine_get_request_track ref s) (\<lambda>_.
            if xd_OrderStatus d \<in> entrust_accepted then
              report_track env ref (add_status ODS_MARKET_ACCEPT)
                (\<lambda>_ m. m\<lparr>rm_errid := xd_StatusCode d, rm_msg_type := ODS_MARKET_ACCEPT\<rparr>) s
            else
              (case xd_OrderStatus d of
                 ENTRUST_SUCCEEDED \<Rightarrow>
                   Inr (upd_request_track ref (\<lambda>t. add_status ODS_CLOSED (add_status ODS_EXECUTION t)) s)
               | ENTRUST_PREPARE_CANCELED \<Rightarrow>
                   report_once env ref ODS_CANCELED rest_volume (xd_StatusCode d) (xd_ErrorMsg d) s
               | ENTRUST_CANCELED \<Rightarrow>
                   report_once env ref ODS_CANCELED rest_volume (xd_StatusCode d) (xd_ErrorMsg d) s
               | ENTRUST_JUNK \<Rightarrow>
                   report_track env ref (add_status ODS_MARKET_REJECT)
                     (\<lambda>_ m. m\<lparr>rm_errid := xd_StatusCode d, rm_msg_type := ODS_MARKET_REJECT\<rparr>) s
               | _ \<Rightarrow> Inr s)))"

definition deal_booked :: "xt_deal_detail \<Rightarrow> order_track \<Rightarrow> order_track" where
  "deal_booked d t =
     (let t1 = (add_status ODS_EXECUTION t)
            \<lparr>ot_vol_traded := ot_vol_traded t + xe_Volume d,
             ot_amount_traded := ot_amount_traded t + xe_AveragePrice d * of_int (xe_Volume d)\<rparr>
      in if ot_vol_traded t1 \<ge> ot_vol t1 then add_status ODS_CLOSED t1 else t1)"

definition CTDEngineXt_onRtnDealDetail :: "'t eng_env \<Rightarrow> xt_deal_detail \<Rightarrow> 't td_xt \<Rightarrow> 't td_xt res" where
  "CTDEngineXt_onRtnDealDetail env d s =
     (case map_of (xt_order2request s) (xe_OrderID d) of
        None \<Rightarrow> Inr s
      | Some ref \<Rightarrow>
          (case ITDEngine_testOtId ref (strtoll0 (xe_TradeID d)) s of (seen, s1) \<Rightarrow>
             if seen then Inr s1
             else report_track env ref (deal_booked d)
                    (\<lambda>_ m. m\<lparr>rm_msg_type := ODS_EXECUTION, rm_price := xe_AveragePrice d,
                            rm_vol := xe_Volume d\<rparr>) s1))"

definition CTDEngineXt_onCancel :: "'t eng_env \<Rightarrow> int \<Rightarrow> xt_error \<Rightarrow> 't td_xt \<Rightarrow> 't td_xt res" where
  "CTDEngineXt_onCancel env rid err s =
     (if \<not> ITDEngine_checkRequestId rid s then Inr s
      else
        (case err of
           None \<Rightarrow> Inr s
         | Some (code, msg) \<Rightarrow>
             report_track env rid (add_status ODS_CANCEL_REJECT)
               (\<lambda>_ m. strncpy_msg msg (m\<lparr>rm_msg_type := ODS_CANCEL_REJECT, rm_errid := code\<rparr>)) s))"

definition CTDEngineXt_onRtnCancelError ::
    "'t eng_env \<Rightarrow> int \<Rightarrow> int \<Rightarrow> string \<Rightarrow> 't td_xt \<Rightarrow> 't td_xt res" where
  "CTDEngineXt_onRtnCancelError env rid code msg s =
     (if \<not> ITDEngine_checkRequestId rid s then Inr s
      else
        res_bind (ITDEngine_get_request_track rid s) (\<lambda>t.
          if ot_from t = 0 then Inr s
          else report_track env rid (add_status ODS_CANCEL_REJECT)
                 (\<lambda>_ m. strncpy_msg msg (m\<lparr>rm_msg_type := ODS_CANCEL_REJECT, rm_errid := code\<rparr>)) s))"

section \<open>Requests of the clients\<close>

definition CTDEngineXt_ConvJarvisOffsetToXtOffset :: "int \<Rightarrow> int \<Rightarrow> xt_operation" where
  "CTDEngineXt_ConvJarvisOffsetToXtOffset dir off =
     (if dir = AT_CHAR_Buy then
        (if off = AT_CHAR_Open then OPT_OPEN_LONG
         else if off = AT_CHAR_CloseYesterday then OPT_CLOSE_SHORT_HISTORY else OPT_CLOSE_SHORT_TODAY)
      else
        (if off = AT_CHAR_Open then OPT_OPEN_SHORT
         else if off = AT_CHAR_CloseYesterday then OPT_CLOSE_LONG_HISTORY else OPT_CLOSE_LONG_TODAY))"

definition xt_filled_order :: "input_order \<Rightarrow> string \<Rightarrow> xt_ordinary_order \<Rightarrow> xt_ordinary_order" where
  "xt_filled_order data market o1 =
     o1\<lparr>xi_Market := market, xi_Instrument := c_str (in_instr data), xi_Volume := in_vol data,
        xi_OperationType := CTDEngineXt_ConvJarvisOffsetToXtOffset (in_dir data) (in_off data),
        xi_Price := in_price data\<rparr>"

text \<open>After the call the record, the answer and the risk control, as in the EES engine (\<open>order_entered\<close>).\<close>

definition CTDEngineXt_req_order_insert ::
    "'t eng_env \<Rightarrow> input_order \<Rightarrow> 't td_xt \<Rightarrow> 't td_xt res" where
  "CTDEngineXt_req_order_insert env data s =
     (let idx = in_acc_idx data; tb = tb_instr_info (te_base s) in
      if \<not> (0 \<le> idx \<and> nat idx < length (te_acc_utilis s))
      then ITDEngine_writeErrRtn_order env data (-1) ''account idx err.'' ODS_ERR s
      else
        res_bind (RiskTop_check (en_fuel env) (en_ops env) tb (en_now env)
            (in_dir data) (in_off data) (in_price data) (in_vol data) (in_instr_hash data)
            (te_acc_utilis s ! nat idx)) (\<lambda>(ret, r).
          let s1 = s\<lparr>te_acc_utilis := (te_acc_utilis s)[nat idx := r]\<rparr> in
          if ret \<noteq> 0 then ITDEngine_writeErrRtn_order env data ret ''risk check failed'' ODS_ERR s1
          else
            (case map_of tb (in_instr_hash data) of
               None \<Rightarrow>
                 ITDEngine_writeErrRtn_order env data (-1) ''instrument not found in base info list'' ODS_ERR s1
             | Some info \<Rightarrow>
                 res_bind (xt_unit idx s1) (\<lambda>_.
                   case exchangeint2str (ii_exch info) of
                     None \<Rightarrow> Inl NullDeref
                   | Some market \<Rightarrow>
                       res_bind (upd_xt_unit idx (\<lambda>u. u\<lparr>xu_input_order :=
                           xt_filled_order data market (xu_input_order u)\<rparr>) s1) (\<lambda>s2.
                       res_bind (xt_unit idx s2) (\<lambda>u.
                       res_bind (xt_call idx (XtOrder idx (xu_input_order u) (te_request_id s2)) s2)
                         (order_entered env data)))))))"

definition CTDEngineXt_req_order_action ::
    "'t eng_env \<Rightarrow> order_action \<Rightarrow> 't td_xt \<Rightarrow> 't td_xt res" where
  "CTDEngineXt_req_order_action env data s =
     (let rid = oa_order_ref data in
      if \<not> ITDEngine_checkRequestId rid s then
        ITDEngine_writeErrRtn_action env data (-1)
          ''cancel order reject by TDEngine: order_ref range err.'' ODS_CANCEL_REJECT s
      else
        res_bind (ITDEngine_get_request_track rid s) (\<lambda>t.
          if ot_front_id t = 1 then
            res_bind (xt_call (oa_acc_idx data) (XtCancel (oa_acc_idx data) (ot_session_id t) rid) s) (\<lambda>s1.
              Inr (upd_request_track rid (add_status ODS_CXLING) s1))
          else
            ITDEngine_writeErrRtn_action env data (-3) ''cancel failed: xt not get OrderId yet.''
              ODS_CANCEL_REJECT s))"

section \<open>Orders of earlier runs\<close>

text \<open>The first record with a number of the interface, among all there are.\<close>

definition CTDEngineXt_findOrderId :: "int \<Rightarrow> 't td_xt \<Rightarrow> int option res" where
  "CTDEngineXt_findOrderId order_id s =
     (if \<not> te_track_mapped s then Inl NullDeref
      else Inr (List.find (\<lambda>i. ot_front_id (te_request_track s i) = 1 \<and>
             ot_session_id (te_request_track s i) = order_id) [0..MMAP_ORDER_TRACK_SIZE - 1]))"

definition detail_flags :: "xt_entrust_status \<Rightarrow> int" where
  "detail_flags st =
     (case st of
        ENTRUST_WAIT_END \<Rightarrow> ODS_ACCEPT OR ODS_MARKET_ACCEPT
      | ENTRUST_UNREPORTED \<Rightarrow> ODS_ACCEPT OR ODS_MARKET_ACCEPT
      | ENTRUST_WAIT_REPORTING \<Rightarrow> ODS_ACCEPT OR ODS_MARKET_ACCEPT
      | ENTRUST_REPORTED \<Rightarrow> ODS_ACCEPT OR ODS_MARKET_ACCEPT
      | ENTRUST_UNKNOWN \<Rightarrow> ODS_ACCEPT OR ODS_MARKET_ACCEPT
      | ENTRUST_ACCEPT \<Rightarrow> ODS_ACCEPT OR ODS_MARKET_ACCEPT
      | ENTRUST_CONFIRMED \<Rightarrow> ODS_ACCEPT OR ODS_MARKET_ACCEPT
      | ENTRUST_DETERMINED \<Rightarrow> ODS_ACCEPT OR ODS_MARKET_ACCEPT
      | ENTRUST_PREPARE_ORDER \<Rightarrow> ODS_ACCEPT OR ODS_MARKET_ACCEPT
      | ENTRUST_REPORTED_CANCEL \<Rightarrow> ODS_ACCEPT OR ODS_MARKET_ACCEPT OR ODS_CXLING
      | ENTRUST_PARTSUCC_CANCEL \<Rightarrow> ODS_ACCEPT OR ODS_MARKET_ACCEPT OR ODS_CXLING
      | ENTRUST_PART_CANCEL \<Rightarrow> ODS_ACCEPT OR ODS_MARKET_ACCEPT OR ODS_CXLING
      | ENTRUST_SUCCEEDED \<Rightarrow> ODS_CLOSED OR (ODS_ACCEPT OR ODS_MARKET_ACCEPT OR ODS_EXECUTION)
      | ENTRUST_PART_SUCC \<Rightarrow> ODS_ACCEPT OR ODS_MARKET_ACCEPT OR ODS_EXECUTION
      | ENTRUST_CANCELED \<Rightarrow> ODS_CANCELED
      | ENTRUST_PREPARE_CANCELED \<Rightarrow> ODS_CANCELED
      | ENTRUST_JUNK \<Rightarrow> ODS_MARKET_REJECT
      | ENTRUST_OTHER \<Rightarrow> 0)"

definition detail_track :: "int \<Rightarrow> xt_order_detail \<Rightarrow> order_track \<Rightarrow> order_track" where
  "detail_track acc d t =
     (let name = take 31 (c_str (xd_InstrumentID d)) in
      t\<lparr>ot_status := ot_status t OR ODS_TDSEND OR detail_flags (xd_OrderStatus d), ot_instr := name,
        ot_instr_hash := INSTR_NAME_TO_HASH name, ot_price := xd_LimitPrice d,
        ot_vol := xd_TotalVolume d, ot_dir := (if xd_is_buy d then AT_CHAR_Buy else AT_CHAR_Sell),
        ot_vol_traded := xd_TradedVolume d, ot_acc_id := acc, ot_front_id := 1,
        ot_session_id := xd_OrderID d\<rparr>)"

definition CTDEngineXt_onReqOrderDetail ::
    "int \<Rightarrow> xt_order_detail option \<Rightarrow> bool \<Rightarrow> xt_error \<Rightarrow> 't td_xt \<Rightarrow> 't td_xt res" where
  "CTDEngineXt_onReqOrderDetail rid data is_last err s =
     (if \<not> ITDEngine_checkRequestId rid s \<or> err \<noteq> None then Inr s
      else
        (let s1 = (if is_last then s\<lparr>xt_query_complete_flag := True\<rparr> else s) in
         case data of
           None \<Rightarrow> Inr s1
         | Some d \<Rightarrow>
             res_bind (CTDEngineXt_findOrderId (xd_OrderID d) s1) (\<lambda>r.
               case r of
                 None \<Rightarrow> Inr s1
               | Some i \<Rightarrow>
                   Inr (upd_request_track i (detail_track (xt_curAccountIdx s1) d)
                     (s1\<lparr>xt_order2request := AList.update (xd_OrderID d) i (xt_order2request s1)\<rparr>)))))"

definition CTDEngineXt_onReqDealDetail ::
    "int \<Rightarrow> xt_deal_detail option \<Rightarrow> bool \<Rightarrow> xt_error \<Rightarrow> 't td_xt \<Rightarrow> 't td_xt res" where
  "CTDEngineXt_onReqDealDetail rid data is_last err s =
     (if \<not> ITDEngine_checkRequestId rid s \<or> err \<noteq> None then Inr s
      else
        (let s1 = (if is_last then s\<lparr>xt_query_complete_flag := True\<rparr> else s) in
         case data of
           None \<Rightarrow> Inr s1
         | Some d \<Rightarrow>
             res_bind (CTDEngineXt_findOrderId (xe_OrderID d) s1) (\<lambda>r.
               case r of
                 None \<Rightarrow> Inr s1
               | Some i \<Rightarrow>
                   Inr (upd_request_track i (\<lambda>t. t\<lparr>ot_amount_traded :=
                     ot_amount_traded t + xe_AveragePrice d * of_int (xe_Volume d)\<rparr>) s1))))"

section \<open>Callbacks as inputs\<close>

datatype xt_callback =
    XtOnConnected bool
  | XtOnUserLogin int xt_error
  | XtOnUserLogout int xt_error
  | XtOnRtnLoginStatus string bool
  | XtOnReqAccountDetail int string xt_error
  | XtOnReqCInstrumentDetail int xt_instrument bool xt_error
  | XtOnReqOrderDetail int "xt_order_detail option" bool xt_error
  | XtOnReqDealDetail int "xt_deal_detail option" bool xt_error
  | XtOnOrder int int xt_error
  | XtOnCancel int xt_error
  | XtOnRtnOrderError int int string
  | XtOnRtnCancelError int int string
  | XtOnRtnOrder xt_order_info
  | XtOnRtnOrderDetail xt_order_detail
  | XtOnRtnDealDetail xt_deal_detail

text \<open>\<^verbatim>\<open>onUserLogin\<close> only writes to the log.\<close>

fun xt_run_callback :: "'t eng_env \<Rightarrow> xt_callback \<Rightarrow> 't td_xt \<Rightarrow> 't td_xt res" where
  "xt_run_callback env (XtOnConnected success) s = CTDEngineXt_onConnected success s"
| "xt_run_callback env (XtOnUserLogin rid err) s = Inr s"
| "xt_run_callback env (XtOnUserLogout rid err) s = Inr (CTDEngineXt_onUserLogout rid err s)"
| "xt_run_callback env (XtOnRtnLoginStatus acc ok) s = CTDEngineXt_onRtnLoginStatus acc ok s"
| "xt_run_callback env (XtOnReqAccountDetail rid day err) s =
     Inr (CTDEngineXt_onReqAccountDetail rid day err s)"
| "xt_run_callback env (XtOnReqCInstrumentDetail rid i is_last err) s =
     Inr (CTDEngineXt_onReqCInstrumentDetail rid i is_last err s)"
| "xt_run_callback env (XtOnReqOrderDetail rid d is_last err) s =
     CTDEngineXt_onReqOrderDetail rid d is_last err s"
| "xt_run_callback env (XtOnReqDealDetail rid d is_last err) s =
     CTDEngineXt_onReqDealDetail rid d is_last err s"
| "xt_run_callback env (XtOnOrder rid orderID err) s = CTDEngineXt_onOrder env rid orderID err s"
| "xt_run_callback env (XtOnCancel rid err) s = CTDEngineXt_onCancel env rid err s"
| "xt_run_callback env (XtOnRtnOrderError rid code msg) s = CTDEngineXt_onRtnOrderError env rid code msg s"
| "xt_run_callback env (XtOnRtnCancelError rid code msg) s = CTDEngineXt_onRtnCancelError env rid code msg s"
| "xt_run_callback env (XtOnRtnOrder d) s = CTDEngineXt_onRtnOrder env d s"
| "xt_run_callback env (XtOnRtnOrderDetail d) s = CTDEngineXt_onRtnOrderDetail env d s"
| "xt_run_callback env (XtOnRtnDealDetail d) s = CTDEngineXt_onRtnDealDetail env d s"

section \<open>Start of the engine\<close>

text \<open>What the interface does at the start: objects, their configuration, and what arrives meanwhile.\<close>

record xt_vendor =
  xv_create :: "nat \<Rightarrow> bool"
  xv_config :: "nat \<Rightarrow> bool"
  xv_init :: "nat \<Rightarrow> bool"
  xv_connecting :: "nat \<Rightarrow> xt_callback list"
  xv_during :: "xt_request \<Rightarrow> xt_callback list"

definition xt_wait :: "xt_vendor \<Rightarrow> 't eng_env \<Rightarrow> int \<Rightarrow> xt_request \<Rightarrow> 't td_xt \<Rightarrow> 't td_xt res" where
  "xt_wait xv env idx q s = res_bind (xt_call idx q s) (run_steps (xt_run_callback env) (xv_during xv q))"

fun xt_connect_from :: "xt_vendor \<Rightarrow> 't eng_env \<Rightarrow> nat \<Rightarrow> nat \<Rightarrow> 't td_xt \<Rightarrow> 't td_xt res" where
  "xt_connect_from xv env idx 0 s = Inr s"
| "xt_connect_from xv env idx (Suc n) s =
     (let u = xt_account_units s ! idx in
      if \<not> xu_api u \<and> \<not> (xv_create xv idx \<and> xv_config xv idx) then Inl Uncaught
      else
        res_bind (upd_xt_unit (int idx) (\<lambda>u. u\<lparr>xu_api := True\<rparr>) s) (\<lambda>s1.
        res_bind
          (if xu_connected u then Inr s1
           else
             res_bind (upd_xt_unit (int idx) (\<lambda>u. u\<lparr>xu_initialized := (xu_initialized u \<or> xv_init xv idx)\<rparr>)
                 (s1\<lparr>xt_curAccountIdx := int idx\<rparr>))
               (run_steps (xt_run_callback env) (xv_connecting xv idx)))
          (xt_connect_from xv env (Suc idx) n)))"

text \<open>\<^verbatim>\<open>login\<close> uses \<^verbatim>\<open>curAccountIdx_\<close> itself as the index of the loop.\<close>

fun xt_login_from :: "xt_vendor \<Rightarrow> 't eng_env \<Rightarrow> nat \<Rightarrow> nat \<Rightarrow> 't td_xt \<Rightarrow> 't td_xt res" where
  "xt_login_from xv env idx 0 s = Inr (s\<lparr>xt_curAccountIdx := int idx\<rparr>)"
| "xt_login_from xv env idx (Suc n) s =
     (let u = xt_account_units s ! idx; rid = te_request_id s; s1 = s\<lparr>xt_curAccountIdx := int idx\<rparr> in
      if xu_logged_in u then xt_login_from xv env (Suc idx) n s1
      else
        res_bind (xt_wait xv env (int idx) (XtUserLogin (int idx) (xu_user_id u) (xu_passwd u) rid)
            (s1\<lparr>te_request_id := rid + 1\<rparr>))
          (xt_login_from xv env (Suc idx) n))"

definition CTDEngineXt_init ::
    "string \<Rightarrow> (string \<times> string \<times> string) list \<Rightarrow> xt_vendor \<Rightarrow> 't eng_env \<Rightarrow> 't td_xt \<Rightarrow>
     (bool \<times> 't td_xt) res" where
  "CTDEngineXt_init name accs xv env s =
     (let s1 = s\<lparr>te_name := name, xt_account_units := map CTDEngineXt_load_account accs\<rparr>;
          n = length accs
      in res_bind (xt_connect_from xv env 0 n s1) (\<lambda>s2.
           if \<not> CTDEngineXt_is_connected s2 then Inr (False, s2)
           else res_bind (xt_login_from xv env 0 n s2) (\<lambda>s3. Inr (CTDEngineXt_is_logged_in s3, s3))))"

fun xt_query_markets :: "xt_vendor \<Rightarrow> 't eng_env \<Rightarrow> string list \<Rightarrow> 't td_xt \<Rightarrow> (bool \<times> 't td_xt) res" where
  "xt_query_markets xv env [] s = Inr (True, s\<lparr>te_base := (te_base s)\<lparr>tb_is_init := True\<rparr>\<rparr>)"
| "xt_query_markets xv env (e # es) s =
     (let rid = te_request_id s in
      res_bind (xt_wait xv env 0 (XtReqPriceDataByMarket e rid)
          (s\<lparr>xt_query_complete_flag := False, te_request_id := rid + 1\<rparr>)) (\<lambda>s1.
        if xt_query_complete_flag s1 then xt_query_markets xv env es s1 else Inr (False, s1)))"

definition CTDEngineXt_getBaseInfo ::
    "string list \<Rightarrow> xt_vendor \<Rightarrow> 't eng_env \<Rightarrow> 't td_xt \<Rightarrow> (bool \<times> 't td_xt) res" where
  "CTDEngineXt_getBaseInfo exchs xv env s =
     (let rid = te_request_id s in
      res_bind (xt_unit 0 s) (\<lambda>u.
      res_bind (xt_wait xv env 0 (XtReqAccountDetail 0 (xu_account_id u) rid)
          (s\<lparr>xt_query_complete_flag := False, te_request_id := rid + 1\<rparr>)) (\<lambda>s1.
        if xt_query_complete_flag s1 then xt_query_markets xv env exchs s1 else Inr (False, s1))))"

text \<open>The queries of all accounts; only the first kind counts the number of the request up.\<close>

fun xt_query_from ::
    "(int \<Rightarrow> string \<Rightarrow> int \<Rightarrow> xt_request) \<Rightarrow> bool \<Rightarrow> xt_vendor \<Rightarrow> 't eng_env \<Rightarrow> nat \<Rightarrow> nat \<Rightarrow> 't td_xt \<Rightarrow>
     (bool \<times> 't td_xt) res" where
  "xt_query_from mk count xv env idx 0 s = Inr (True, s)"
| "xt_query_from mk count xv env idx (Suc n) s =
     (let rid = te_request_id s in
      res_bind (xt_unit (int idx) s) (\<lambda>u.
      res_bind (xt_wait xv env (int idx) (mk (int idx) (xu_account_id u) rid)
          (s\<lparr>xt_query_complete_flag := False, xt_curAccountIdx := int idx,
             te_request_id := (if count then rid + 1 else rid)\<rparr>)) (\<lambda>s1.
        if xt_query_complete_flag s1 then xt_query_from mk count xv env (Suc idx) n s1
        else Inr (False, s1))))"

definition CTDEngineXt_updateTradedAmount ::
    "xt_vendor \<Rightarrow> 't eng_env \<Rightarrow> 't td_xt \<Rightarrow> (bool \<times> 't td_xt) res" where
  "CTDEngineXt_updateTradedAmount xv env s =
     (if \<not> te_track_mapped s then Inl NullDeref
      else xt_query_from XtReqDealDetail False xv env 0 (length (xt_account_units s)) (clear_amounts s))"

definition CTDEngineXt_updateOrderTrack ::
    "xt_vendor \<Rightarrow> 't eng_env \<Rightarrow> 't td_xt \<Rightarrow> (bool \<times> 't td_xt) res" where
  "CTDEngineXt_updateOrderTrack xv env s =
     res_bind (open_track_day s) (\<lambda>s1.
     res_bind (xt_query_from XtReqOrderDetail True xv env 0 (length (xt_account_units s1)) s1) (\<lambda>(ok, s2).
       if \<not> ok then Inr (False, s2)
       else CTDEngineXt_updateTradedAmount xv env
              (s2\<lparr>te_request_id := te_request_id_start s2 + int (length (xt_order2request s2))\<rparr>)))"

section \<open>The engine as a whole\<close>

definition xt_round :: "td_frame io_view \<Rightarrow> 't eng_env \<Rightarrow> 't td_xt \<Rightarrow> 't td_xt res" where
  "xt_round v env s =
     td_round (CTDEngineXt_req_order_insert env) (CTDEngineXt_req_order_action env) v env s"

definition CTDEngineXt_listening ::
    "'t eng_env \<Rightarrow> file_env \<Rightarrow> disk \<Rightarrow> (td_frame io_view \<times> 't eng_env) list \<Rightarrow>
     't td_xt \<Rightarrow> (disk option \<times> 't td_xt) res" where
  "CTDEngineXt_listening = ITDEngine_listening xt_round"

end
