(* ===== verification/Xt_Inv.thy ===== *)
theory Xt_Inv
  imports Ees_Inv Td_Xt
begin

text \<open>
  The machine of the XT gateway on a trading day (\<open>xt_step\<close>). The interface reports on an order by a
  number of its own; the invariant says that the map from these numbers leads to recorded orders
  (\<open>refs_ok\<close>). The gateway repeats what it is told about acceptance and rejection, so the history it
  keeps is weaker than that of the other gateways (\<open>deal_log\<close>): one acknowledgement, at most one
  cancellation, and executions that sum up to the traded volume.
\<close>

section \<open>The history of an order\<close>

definition deal_log :: "int \<Rightarrow> order_track \<Rightarrow> io_order_rtn list \<Rightarrow> bool" where
  "deal_log ref t L \<longleftrightarrow>
     reports ref {ODS_TDSEND} L = 1 \<and> exec_vol ref L = ot_vol_traded t \<and>
     reports ref {ODS_CANCELED} L \<le> (if ot_status t AND ODS_CANCELED \<noteq> 0 then 1 else 0)"

interpretation deal_history: order_history deal_log
proof
  fix ref t L and ms :: "io_order_rtn list"
  assume "\<And>m. m \<in> set ms \<Longrightarrow> rm_order_ref (or_rtn_msg m) \<noteq> ref" and l: "deal_log ref t L"
  then have "\<not> is_report ref T x" if "x \<in> set ms" for x T using that by (auto simp: is_report_def)
  then have "reports ref T (L @ ms) = reports ref T L" "exec_vol ref (L @ ms) = exec_vol ref L" for T
    by (simp_all add: reports_def exec_vol_def cong: filter_cong)
  with l show "deal_log ref t (L @ ms)" by (simp add: deal_log_def)
next
  fix m ref t L assume "refusal m" and l: "deal_log ref t L"
  then have "\<not> is_report ref T m" if "T \<in> {{ODS_TDSEND}, {ODS_CANCELED}, {ODS_EXECUTION}}" for T
    using that by (auto simp: refusal_def is_report_def ods_defs)
  with l show "deal_log ref t (L @ [m])" by (simp add: deal_log_def)
next
  fix ref t L assume "deal_log ref t L"
  then show "deal_log ref (t\<lparr>ot_status := ot_status t OR ODS_CXLING\<rparr>) L"
    by (auto simp: deal_log_def or_and or_eq_0_iff split: if_splits)
next
  fix trk ref m and L :: "io_order_rtn list"
  assume trk: "ot_status trk = ODS_TDSEND" "ot_vol_traded trk = 0" "addressed ref trk m"
    "rm_msg_type (or_rtn_msg m) = ODS_TDSEND"
    and old: "\<And>x. x \<in> set L \<Longrightarrow> refusal x \<or> rm_order_ref (or_rtn_msg x) \<noteq> ref"
  have m: "is_report ref T m \<longleftrightarrow> ODS_TDSEND \<in> T" for T using trk(3,4) by (auto simp: is_report_def addressed_def)
  have "\<not> is_report ref T x" if "x \<in> set L" "T \<in> {{ODS_TDSEND}, {ODS_CANCELED}, {ODS_EXECUTION}}" for x T
    using old [OF that(1)] that(2) by (auto simp: refusal_def is_report_def ods_defs)
  then show "deal_log ref trk (L @ [m])"
    unfolding deal_log_def reports_append using reports_none [of L ref] trk(1,2) by (auto simp: m ods_defs)
qed

text \<open>A report that is not an execution, and an execution.\<close>

definition flags_grow :: "order_track \<Rightarrow> order_track \<Rightarrow> bool" where
  "flags_grow t trk \<longleftrightarrow> ot_from trk = ot_from t \<and> ot_local_id trk = ot_local_id t \<and> ot_acc_id trk = ot_acc_id t \<and>
     ot_order_ref trk = ot_order_ref t \<and> (\<exists>f. ot_status trk = ot_status t OR f)"

lemma flags_grow_add [simp]: "flags_grow t (add_status f t)"
  "flags_grow t (t\<lparr>ot_status := ot_status t OR f\<rparr>)"
  by (auto simp: flags_grow_def add_status_def)

lemma deal_flag:
  assumes g: "flags_grow t trk" "ot_vol_traded trk = ot_vol_traded t" and m: "addressed ref t m"
    and ty: "rm_msg_type (or_rtn_msg m) \<notin> {ODS_TDSEND, ODS_EXECUTION}"
    and cxl: "rm_msg_type (or_rtn_msg m) = ODS_CANCELED \<Longrightarrow>
      ot_status t AND ODS_CANCELED = 0 \<and> ot_status trk AND ODS_CANCELED \<noteq> 0"
  shows "report_follows deal_log ref t trk [m]"
proof -
  have m': "is_report ref T m \<longleftrightarrow> rm_msg_type (or_rtn_msg m) \<in> T" for T
    using m by (simp add: is_report_def addressed_def)
  obtain f where f: "ot_status trk = ot_status t OR f" using g(1) by (auto simp: flags_grow_def)
  have "deal_log ref trk (L @ [m])" if "deal_log ref t L" for L
    using that ty cxl g(2)
    by (cases "rm_msg_type (or_rtn_msg m) = ODS_CANCELED")
      (auto simp: deal_log_def m' f or_and or_eq_0_iff split: if_splits)
  with g m show ?thesis by (simp add: report_follows_def flags_grow_def)
qed

lemma deal_trade:
  assumes g: "flags_grow t trk" "ot_vol_traded trk = ot_vol_traded t + v" and m: "addressed ref t m"
    "rm_msg_type (or_rtn_msg m) = ODS_EXECUTION" "rm_vol (or_rtn_msg m) = v"
  shows "report_follows deal_log ref t trk [m]"
proof -
  have m': "is_report ref T m \<longleftrightarrow> ODS_EXECUTION \<in> T" for T using m by (simp add: is_report_def addressed_def)
  obtain f where f: "ot_status trk = ot_status t OR f" using g(1) by (auto simp: flags_grow_def)
  have "deal_log ref trk (L @ [m])" if "deal_log ref t L" for L
    using that g(2) m(3) by (auto simp: deal_log_def m' f or_and or_eq_0_iff ods_defs split: if_splits)
  with g m show ?thesis by (simp add: report_follows_def flags_grow_def)
qed

lemma deal_silent:
  assumes "flags_grow t trk" "ot_vol_traded trk = ot_vol_traded t"
  shows "report_follows deal_log ref t trk []"
  using assms by (auto simp: report_follows_def flags_grow_def deal_log_def or_and or_eq_0_iff split: if_splits)

section \<open>Events\<close>

datatype xt_event =
    XtInsert int input_order
  | XtCancelReq int order_action
  | XtReport int xt_callback

fun xt_step :: "'t eng_env \<Rightarrow> xt_event \<Rightarrow> 't td_xt \<Rightarrow> 't td_xt res" where
  "xt_step env (XtInsert now data) s = CTDEngineXt_req_order_insert (env\<lparr>en_now := now\<rparr>) data s"
| "xt_step env (XtCancelReq now data) s =
     ITDEngine_engine_req_order_action (CTDEngineXt_req_order_action (env\<lparr>en_now := now\<rparr>)) (env\<lparr>en_now := now\<rparr>) data s"
| "xt_step env (XtReport now cb) s = xt_run_callback (env\<lparr>en_now := now\<rparr>) cb s"

text \<open>Reports come by the number of the order or by that of the interface; the others belong to the start.\<close>

fun xt_report_ref :: "xt_callback \<Rightarrow> ees_ref option" where
  "xt_report_ref (XtOnOrder rid orderID err) = Some (ByRef rid)"
| "xt_report_ref (XtOnCancel rid err) = Some (ByRef rid)"
| "xt_report_ref (XtOnRtnOrderError rid code msg) = Some (ByRef rid)"
| "xt_report_ref (XtOnRtnCancelError rid code msg) = Some (ByRef rid)"
| "xt_report_ref (XtOnRtnOrder d) = Some ByToken"
| "xt_report_ref (XtOnRtnOrderDetail d) = Some ByToken"
| "xt_report_ref (XtOnRtnDealDetail d) = Some ByToken"
| "xt_report_ref _ = None"

definition exchange_named :: "u32 \<Rightarrow> ('t, 'a) td_engine_scheme \<Rightarrow> bool" where
  "exchange_named h s \<longleftrightarrow>
     (case map_of (tb_instr_info (te_base s)) h of None \<Rightarrow> True | Some info \<Rightarrow> exchangeint2str (ii_exch info) \<noteq> None)"

fun xt_legal :: "xt_event \<Rightarrow> 't td_xt \<Rightarrow> bool" where
  "xt_legal (XtInsert now data) s \<longleftrightarrow>
     te_request_id s < te_request_id_start s + MMAP_ORDER_TRACK_SIZE \<and> exchange_named (in_instr_hash data) s \<and>
     (acc_index_ok (in_acc_idx data) s \<longrightarrow> xu_api (xt_account_units s ! nat (in_acc_idx data)) \<and>
        top_room (in_instr_hash data) (te_acc_utilis s ! nat (in_acc_idx data)))"
| "xt_legal (XtCancelReq now data) s \<longleftrightarrow>
     (acc_index_ok (oa_acc_idx data) s \<longrightarrow> xu_api (xt_account_units s ! nat (oa_acc_idx data)))"
| "xt_legal (XtReport now cb) s \<longleftrightarrow>
     (case xt_report_ref cb of
        None \<Rightarrow> False
      | Some ByToken \<Rightarrow> True
      | Some (ByRef ref) \<Rightarrow> ref < te_request_id s \<and> ot_order_ref (track_of ref s) = ref)"

section \<open>The engine\<close>

text \<open>A unit for every account, and the map of the interface's numbers, which the base class leaves alone.\<close>

abbreviation xt_units :: "(int, int) umap \<Rightarrow> 't td_xt \<Rightarrow> bool" where
  "xt_units m \<equiv> \<lambda>s. length (te_acc_utilis s) = length (xt_account_units s) \<and> xt_order2request s = m"

interpretation xt_engine: tracked_engine "xt_units m" for m
  by unfold_locales simp_all

lemma recorded_moves:
  assumes "engine_moves K ps tb s t ref trk ms" "ot_order_ref trk = ot_order_ref (track_of ref s)" "recorded j s"
  shows "recorded j t"
  using assms(2,3) engine_moves_tracks [OF assms(1)] by (auto simp: recorded_def track_of_def)

lemma recorded_opened:
  assumes o: "opened s t m" and room: "te_request_id s < te_request_id_start s + MMAP_ORDER_TRACK_SIZE"
    and j: "recorded j s"
  shows "recorded j t"
proof -
  from j have range: "te_request_id_start s \<le> j" "j < te_request_id s" by (simp_all add: recorded_def)
  with room track_slot_inj [of "te_request_id_start s" j "te_request_id s"]
  have "track_slot j \<noteq> track_slot (te_request_id s)" by auto
  with o j show ?thesis by (auto simp: opened_def recorded_def track_of_def)
qed

definition refs_ok :: "(int, int) umap \<Rightarrow> ('t, 'a) td_engine_scheme \<Rightarrow> bool" where
  "refs_ok m s \<longleftrightarrow> (\<forall>k ref. map_of m k = Some ref \<longrightarrow> recorded ref s)"

lemma refs_okD: "refs_ok m s \<Longrightarrow> map_of m k = Some ref \<Longrightarrow> recorded ref s"
  by (simp add: refs_ok_def)

lemma refs_ok_update: "refs_ok m s \<Longrightarrow> recorded ref s \<Longrightarrow> refs_ok (AList.update k ref m) s"
  by (simp add: refs_ok_def update_conv')

section \<open>Reports\<close>

text \<open>A report that is handled: the record of one recorded order moves together with the log.\<close>

definition xt_done ::
    "(int, int) umap \<Rightarrow> int \<Rightarrow> instr_table \<Rightarrow> 't td_xt \<Rightarrow> 't td_xt res \<Rightarrow> bool" where
  "xt_done m ps tb s r \<longleftrightarrow>
     (\<exists>t ref trk ms. r = Inr t \<and> engine_moves (xt_units m) ps tb s t ref trk ms \<and>
        ot_order_ref trk = ot_order_ref (track_of ref s) \<and>
        (ms = [] \<and> trk = track_of ref s \<or>
         recorded ref s \<and> report_follows deal_log ref (track_of ref s) trk ms))"

lemma xt_done_none: "engine_ok (xt_units m) ps tb s \<Longrightarrow> xt_done m ps tb s (Inr s)"
  unfolding xt_done_def using engine_moves_refl by blast

lemma xt_done_after:
  assumes "\<And>j. engine_moves (xt_units m) ps tb s s1 j (track_of j s) []" "xt_done m ps tb s1 r"
  shows "xt_done m ps tb s r"
proof -
  from assms(2) obtain t ref trk ms where
    t: "r = Inr t" "engine_moves (xt_units m) ps tb s1 t ref trk ms" "ot_order_ref trk = ot_order_ref (track_of ref s1)"
      "ms = [] \<and> trk = track_of ref s1 \<or>
       recorded ref s1 \<and> report_follows deal_log ref (track_of ref s1) trk ms"
    unfolding xt_done_def by blast
  have s1: "track_of j s1 = track_of j s" "recorded j s1 = recorded j s" for j
    using assms(1) [of j] by (simp_all add: engine_moves_def recorded_def track_of_def)
  have "engine_moves (xt_units m) ps tb s t ref trk ms" using engine_moves_trans [OF assms(1) t(2)] by simp
  with t(1,3,4) show ?thesis unfolding xt_done_def s1 by blast
qed

lemma xt_report_done:
  assumes ok: "engine_ok (xt_units m) ps tb s" and env: "chan_env ps env" and ref: "recorded ref s"
    and g: "flags_grow (track_of ref s) (f (track_of ref s))" and fill: "keeps_address fill"
    and r: "\<And>b. addressed ref (track_of ref s) (report_frame fill (f (track_of ref s)) b) \<Longrightarrow>
      report_follows deal_log ref (track_of ref s) (f (track_of ref s)) [report_frame fill (f (track_of ref s)) b]"
  shows "xt_done m ps tb s (report_track env ref f fill s)"
proof -
  let ?trk = "f (track_of ref s)"
  have same: "ot_acc_id ?trk = ot_acc_id (track_of ref s)" "ot_order_ref ?trk = ot_order_ref (track_of ref s)"
    "ot_from ?trk = ot_from (track_of ref s)" "ot_local_id ?trk = ot_local_id (track_of ref s)"
    using g by (simp_all add: flags_grow_def)
  from xt_engine.report_track_ok [OF ok env, of f ref fill] same(1) obtain t b where
    t: "report_track env ref f fill s = Inr t"
      "engine_moves (xt_units m) ps tb s t ref ?trk [report_frame fill ?trk b]" by blast
  have "ot_order_ref ?trk = ref" using ref same(2) by (simp add: recorded_def)
  from r [OF report_frame_addressed [OF fill this same(3,4)], of b] ref t same(2) show ?thesis
    unfolding xt_done_def by blast
qed

text \<open>A report of flags, which may be repeated except for a cancellation.\<close>

lemma xt_flag_done:
  assumes ok: "engine_ok (xt_units m) ps tb s" and env: "chan_env ps env" and ref: "recorded ref s"
    and g: "flags_grow (track_of ref s) (f (track_of ref s))"
      "ot_vol_traded (f (track_of ref s)) = ot_vol_traded (track_of ref s)"
    and fill: "keeps_address fill" "\<And>t x. rm_msg_type (fill t x) = flag" "flag \<notin> {ODS_TDSEND, ODS_EXECUTION}"
    and cxl: "flag = ODS_CANCELED \<Longrightarrow> ot_status (track_of ref s) AND ODS_CANCELED = 0 \<and>
      ot_status (f (track_of ref s)) AND ODS_CANCELED \<noteq> 0"
  shows "xt_done m ps tb s (report_track env ref f fill s)"
proof (rule xt_report_done [where f = f and fill = fill, OF ok env ref g(1) fill(1)])
  fix b assume a: "addressed ref (track_of ref s) (report_frame fill (f (track_of ref s)) b)"
  have "rm_msg_type (or_rtn_msg (report_frame fill (f (track_of ref s)) b)) = flag"
    by (simp add: report_frame_def Let_def fill(2))
  with fill(3) cxl show "report_follows deal_log ref (track_of ref s) (f (track_of ref s))
      [report_frame fill (f (track_of ref s)) b]" by (intro deal_flag [OF g a]) auto
qed

lemma report_once_done:
  assumes ok: "engine_ok (xt_units m) ps tb s" and env: "chan_env ps env" and ref: "recorded ref s"
    and flag: "flag \<in> {ODS_REJECT, ODS_CLOSED, ODS_CANCELED}" and fill: "keeps_address fill"
      "\<And>t x. rm_msg_type (fill t x) = rm_msg_type x"
  shows "xt_done m ps tb s (report_once env ref flag fill code msg s)"
proof (cases "ot_status (track_of ref s) AND flag = 0")
  case False
  with xt_done_none [OF ok] show ?thesis by (simp add: report_once_def get_track_ok [OF ok])
next
  case True
  have k: "keeps_address (\<lambda>t x. strncpy_msg msg (fill t (x\<lparr>rm_msg_type := flag, rm_errid := code\<rparr>)))"
    using fill(1) by (simp add: keeps_address_def)
  have "xt_done m ps tb s (report_track env ref (add_status flag)
      (\<lambda>t x. strncpy_msg msg (fill t (x\<lparr>rm_msg_type := flag, rm_errid := code\<rparr>))) s)"
    by (rule xt_flag_done [OF ok env ref _ _ k, of _ flag])
      (use flag True in \<open>auto simp: fill(2) add_status_def or_and or_eq_0_iff ods_defs\<close>)
  with True show ?thesis by (simp add: report_once_def get_track_ok [OF ok])
qed

lemma xt_order_done:
  assumes ok: "engine_ok (xt_units m) ps tb s" and env: "chan_env ps env" and ref: "recorded ref s"
  shows "xt_done m ps tb s (report_track env ref (add_status ODS_REJECT)
      (\<lambda>_ x. strncpy_msg msg (x\<lparr>rm_msg_type := ODS_REJECT, rm_errid := code\<rparr>)) s)"
    and "xt_done m ps tb s (report_track env ref (add_status ODS_CANCEL_REJECT)
      (\<lambda>_ x. strncpy_msg msg (x\<lparr>rm_msg_type := ODS_CANCEL_REJECT, rm_errid := code\<rparr>)) s)"
    and "xt_done m ps tb s (report_track env ref
      (\<lambda>t. (add_status ODS_ACCEPT t)\<lparr>ot_front_id := 1, ot_session_id := k\<rparr>) (\<lambda>_ x. x\<lparr>rm_msg_type := ODS_ACCEPT\<rparr>) s)"
    and "ty \<in> {ODS_MARKET_ACCEPT, ODS_MARKET_REJECT} \<Longrightarrow> xt_done m ps tb s (report_track env ref (add_status ty)
      (\<lambda>_ x. x\<lparr>rm_errid := code, rm_msg_type := ty\<rparr>) s)"
  by (rule xt_flag_done [OF ok env ref, where flag = ODS_REJECT]
      xt_flag_done [OF ok env ref, where flag = ODS_CANCEL_REJECT] xt_flag_done [OF ok env ref, where flag = ODS_ACCEPT]
      xt_flag_done [OF ok env ref, where flag = ty];
    auto simp: add_status_def flags_grow_def keeps_address_def ods_defs)+

lemma xt_deal_done:
  assumes ok: "engine_ok (xt_units m) ps tb s" and env: "chan_env ps env" and refs: "refs_ok (xt_order2request s) s"
  shows "xt_done m ps tb s (CTDEngineXt_onRtnDealDetail env d s)"
proof (cases "map_of (xt_order2request s) (xe_OrderID d)")
  case None
  with xt_done_none [OF ok] show ?thesis by (simp add: CTDEngineXt_onRtnDealDetail_def)
next
  case (Some ref)
  note ref = refs_okD [OF refs Some]
  obtain seen s1 where o: "ITDEngine_testOtId ref (strtoll0 (xe_TradeID d)) s = (seen, s1)" by fastforce
  then obtain q where s1: "s1 = s\<lparr>te_otidfilter := q\<rparr>"
    by (auto simp: ITDEngine_testOtId_def split: prod.splits)
  have ok1: "engine_ok (xt_units m) ps tb s1" using ok by (simp add: s1)
  have m1: "engine_moves (xt_units m) ps tb s s1 j (track_of j s) []" for j
    using ok1 by (simp add: engine_moves_def s1 track_of_def)
  have t1: "track_of j s1 = track_of j s" "recorded j s1 = recorded j s" for j
    by (simp_all add: s1 recorded_def track_of_def)
  show ?thesis
  proof (cases seen)
    case True
    with m1 o Some show ?thesis unfolding xt_done_def by (auto simp: CTDEngineXt_onRtnDealDetail_def)
  next
    case False
    let ?fill = "\<lambda>_ x. x\<lparr>rm_msg_type := ODS_EXECUTION, rm_price := xe_AveragePrice d, rm_vol := xe_Volume d\<rparr>"
    let ?t = "track_of ref s"
    have g: "flags_grow ?t (deal_booked d ?t)" "ot_vol_traded (deal_booked d ?t) = ot_vol_traded ?t + xe_Volume d"
      by (auto simp: deal_booked_def add_status_def flags_grow_def Let_def or.assoc)
    have ref1: "recorded ref s1" and g1: "flags_grow (track_of ref s1) (deal_booked d (track_of ref s1))"
      using ref g(1) by (simp_all add: t1)
    have "xt_done m ps tb s1 (report_track env ref (deal_booked d) ?fill s1)"
    proof (rule xt_report_done [where f = "deal_booked d" and fill = ?fill, OF ok1 env ref1 g1])
      fix b assume a: "addressed ref (track_of ref s1) (report_frame ?fill (deal_booked d (track_of ref s1)) b)"
      show "report_follows deal_log ref (track_of ref s1) (deal_booked d (track_of ref s1))
          [report_frame ?fill (deal_booked d (track_of ref s1)) b]"
        by (rule deal_trade [OF g [folded t1(1)] a]) (simp_all add: report_frame_def Let_def)
    qed simp
    moreover have "CTDEngineXt_onRtnDealDetail env d s = report_track env ref (deal_booked d) ?fill s1"
      using Some o False by (simp add: CTDEngineXt_onRtnDealDetail_def)
    ultimately show ?thesis using xt_done_after [OF m1] by simp
  qed
qed

lemma xt_moves_map:
  "engine_ok (xt_units m) ps tb t \<Longrightarrow> engine_ok (xt_units m') ps tb (t\<lparr>xt_order2request := m'\<rparr>)"
  by (auto simp: engine_ok_def acc_index_ok_def)

text \<open>The answer to an order brings the number of the interface.\<close>

definition xt_handled :: "int \<Rightarrow> instr_table \<Rightarrow> 't td_xt \<Rightarrow> 't td_xt res \<Rightarrow> bool" where
  "xt_handled ps tb s r \<longleftrightarrow>
     (\<exists>t k ref. (r = Inr t \<or> recorded ref s \<and> r = Inr (t\<lparr>xt_order2request := AList.update k ref (xt_order2request t)\<rparr>)) \<and>
        xt_done (xt_order2request s) ps tb s (Inr t))"

lemma xt_handledI: "xt_done (xt_order2request s) ps tb s r \<Longrightarrow> xt_handled ps tb s r"
  unfolding xt_handled_def by (auto simp: xt_done_def)

lemma xt_order_handled:
  assumes ok: "engine_ok (xt_units (xt_order2request s)) ps tb s" and env: "chan_env ps env"
    and ref: "ITDEngine_checkRequestId rid s \<Longrightarrow> recorded rid s"
  shows "xt_handled ps tb s (CTDEngineXt_onOrder env rid orderID err s)"
proof (cases "ITDEngine_checkRequestId rid s")
  case False
  with xt_handledI [OF xt_done_none [OF ok]] show ?thesis by (simp add: CTDEngineXt_onOrder_def)
next
  case True
  note ref = ref [OF True]
  show ?thesis
  proof (cases err)
    case None
    from xt_order_done(3) [OF ok env ref, of orderID] obtain t where
      "report_track env rid (\<lambda>t. (add_status ODS_ACCEPT t)\<lparr>ot_front_id := 1, ot_session_id := orderID\<rparr>)
          (\<lambda>_ x. x\<lparr>rm_msg_type := ODS_ACCEPT\<rparr>) s = Inr t"
      "xt_done (xt_order2request s) ps tb s (Inr t)" unfolding xt_done_def by blast
    with True None ref show ?thesis unfolding xt_handled_def by (auto simp: CTDEngineXt_onOrder_def)
  next
    case (Some e)
    with xt_handledI [OF xt_order_done(1) [OF ok env ref]] True show ?thesis
      by (cases e) (simp add: CTDEngineXt_onOrder_def)
  qed
qed

lemma xt_rtn_order_done:
  assumes ok: "engine_ok (xt_units m) ps tb s" and env: "chan_env ps env" and refs: "refs_ok (xt_order2request s) s"
  shows "xt_done m ps tb s (CTDEngineXt_onRtnOrder env d s)"
proof (cases "map_of (xt_order2request s) (xo_OrderID d)")
  case None
  with xt_done_none [OF ok] show ?thesis by (simp add: CTDEngineXt_onRtnOrder_def)
next
  case (Some ref)
  note once = report_once_done [OF ok env refs_okD [OF refs Some]]
  have "keeps_address (\<lambda>_ x. x)" "keeps_address rest_volume" by (simp_all add: keeps_address_def rest_volume_def)
  with Some xt_done_none [OF ok] show ?thesis
    by (auto simp: CTDEngineXt_onRtnOrder_def rest_volume_def split: xt_command_status.split intro!: once)
qed

lemma xt_silent_done:
  assumes ok: "engine_ok (xt_units m) ps tb s" and ref: "recorded ref s"
  shows "xt_done m ps tb s (Inr (upd_request_track ref (\<lambda>t. add_status ODS_CLOSED (add_status ODS_EXECUTION t)) s))"
proof -
  let ?f = "\<lambda>t. add_status ODS_CLOSED (add_status ODS_EXECUTION t)" and ?t = "track_of ref s"
  have f: "flags_grow ?t (?f ?t)" "ot_vol_traded (?f ?t) = ot_vol_traded ?t"
    by (auto simp: add_status_def flags_grow_def or.assoc)
  from xt_engine.upd_track_ok [where f = ?f, OF ok] f(1)
  have "engine_moves (xt_units m) ps tb s (upd_request_track ref ?f s) ref (?f ?t) []" by (simp add: flags_grow_def)
  with ref deal_silent [OF f] f(1) show ?thesis unfolding xt_done_def flags_grow_def by blast
qed

lemma xt_detail_done:
  assumes ok: "engine_ok (xt_units m) ps tb s" and env: "chan_env ps env" and refs: "refs_ok (xt_order2request s) s"
  shows "xt_done m ps tb s (CTDEngineXt_onRtnOrderDetail env d s)"
proof (cases "map_of (xt_order2request s) (xd_OrderID d)")
  case None
  with xt_done_none [OF ok] show ?thesis by (simp add: CTDEngineXt_onRtnOrderDetail_def)
next
  case (Some ref)
  note ref = refs_okD [OF refs Some]
  note once = report_once_done [OF ok env ref]
  have "keeps_address rest_volume" by (simp add: keeps_address_def rest_volume_def)
  with Some xt_done_none [OF ok] get_track_ok [OF ok, of ref] show ?thesis
    by (auto simp: CTDEngineXt_onRtnOrderDetail_def rest_volume_def split: xt_entrust_status.split
        intro!: once xt_silent_done [OF ok ref] xt_order_done(4) [OF ok env ref])
qed

lemma xt_report_ok:
  assumes ok: "engine_ok (xt_units (xt_order2request s)) ps tb s" and env: "chan_env ps env"
    and refs: "refs_ok (xt_order2request s) s"
    and cb: "xt_report_ref cb = Some q" "\<And>ref. q = ByRef ref \<Longrightarrow> ref < te_request_id s \<and> ot_order_ref (track_of ref s) = ref"
  shows "xt_handled ps tb s (xt_run_callback env cb s)"
proof -
  note none = xt_done_none [OF ok]
  have rec: "recorded ref s" if "q = ByRef ref" "ITDEngine_checkRequestId ref s" for ref
    using cb(2) [OF that(1)] that(2) by (simp add: recorded_def ITDEngine_checkRequestId_def)
  note D = xt_order_done [OF ok env] get_track_ok [OF ok]
  show ?thesis
  proof (cases cb)
    case (XtOnOrder rid orderID err)
    with cb(1) rec [of rid] show ?thesis by (simp add: xt_order_handled [OF ok env])
  next
    case (XtOnCancel rid err)
    with cb(1) rec [of rid] show ?thesis
      by (auto simp: CTDEngineXt_onCancel_def intro!: xt_handledI none D split: option.split)
  next
    case (XtOnRtnOrderError rid code msg)
    with cb(1) rec [of rid] show ?thesis
      by (auto simp: CTDEngineXt_onRtnOrderError_def D(5) intro!: xt_handledI none D)
  next
    case (XtOnRtnCancelError rid code msg)
    with cb(1) rec [of rid] show ?thesis
      by (auto simp: CTDEngineXt_onRtnCancelError_def D(5) intro!: xt_handledI none D)
  qed (use cb(1) in \<open>auto intro!: xt_handledI xt_rtn_order_done [OF ok env refs] xt_detail_done [OF ok env refs]
      xt_deal_done [OF ok env refs]\<close>)
qed

section \<open>The requests of the clients\<close>

lemma xt_sent_move:
  "engine_ok (xt_units m) ps tb s \<Longrightarrow> length us = length (xt_account_units s) \<Longrightarrow>
   engine_moves (xt_units m) ps tb s (s\<lparr>xt_account_units := us, xt_sent := q\<rparr>) ref (track_of ref s) []"
  by (auto simp: engine_moves_def engine_ok_def track_of_def acc_index_ok_def)

text \<open>The answer to an order: it is opened, or refused.\<close>

definition xt_answered :: "int \<Rightarrow> instr_table \<Rightarrow> 't td_xt \<Rightarrow> 't td_xt \<Rightarrow> bool" where
  "xt_answered ps tb s t \<longleftrightarrow>
     (\<exists>m. engine_ok (xt_units (xt_order2request s)) ps tb t \<and> wr_log (te_writer t) = wr_log (te_writer s) @ [m] \<and>
        (opened s t m \<and> ot_order_ref (track_of (te_request_id s) t) = te_request_id s \<or>
         refusal m \<and> (\<forall>ref. engine_moves (xt_units (xt_order2request s)) ps tb s t ref (track_of ref s) [m])))"

lemma xt_insert_ok:
  assumes ok: "engine_ok (xt_units (xt_order2request s)) ps tb s" and env: "chan_env ps env" and fuel: "0 < en_fuel env"
    and named: "exchange_named (in_instr_hash data) s"
    and api: "acc_index_ok (in_acc_idx data) s \<Longrightarrow> xu_api (xt_account_units s ! nat (in_acc_idx data)) \<and>
      top_room (in_instr_hash data) (te_acc_utilis s ! nat (in_acc_idx data))"
  shows "\<exists>t. CTDEngineXt_req_order_insert env data s = Inr t \<and> xt_answered ps tb s t"
proof -
  note E = engine_okD [OF ok]
  let ?i = "nat (in_acc_idx data)"
  let ?r = "te_acc_utilis s ! ?i" and ?u = "xt_account_units s ! ?i"
  have refused: "\<exists>t. ITDEngine_writeErrRtn_order env data code msg ODS_ERR s = Inr t \<and> xt_answered ps tb s t" for code msg
  proof -
    from xt_engine.order_error_ok [OF ok env, of data code msg] obtain x t where
      t: "ITDEngine_writeErrRtn_order env data code msg ODS_ERR s = Inr t"
        "\<And>ref. engine_moves (xt_units (xt_order2request s)) ps tb s t ref (track_of ref s) [x]"
        "rm_msg_type (or_rtn_msg x) = ODS_ERR" by blast
    then have "engine_ok (xt_units (xt_order2request s)) ps tb t" "wr_log (te_writer t) = wr_log (te_writer s) @ [x]"
      by (simp_all add: engine_moves_def)
    with t show ?thesis by (auto simp: xt_answered_def refusal_def)
  qed
  show ?thesis
  proof (cases "acc_index_ok (in_acc_idx data) s")
    case False
    with refused show ?thesis by (auto simp: CTDEngineXt_req_order_insert_def acc_index_ok_def Let_def)
  next
    case idx: True
    then have i: "0 \<le> in_acc_idx data" "?i < length (te_acc_utilis s)" "?i < length (xt_account_units s)"
      using E(5) by (simp_all add: acc_index_ok_def)
    have ready: "top_ready tb ?r" by (rule E(6)) (use i in simp)
    from fuel obtain n where n: "en_fuel env = Suc n" by (cases "en_fuel env") auto
    from RiskTop_check_total [OF E(2) ready, of n "en_ops env" "en_now env"] obtain e where
      e: "RiskTop_check (en_fuel env) (en_ops env) tb (en_now env) (in_dir data) (in_off data)
            (in_price data) (in_vol data) (in_instr_hash data) ?r = Inr (e, ?r)"
      unfolding n by blast
    show ?thesis
    proof (cases "e = 0 \<and> map_of tb (in_instr_hash data) \<noteq> None")
      case False
      with refused i e E(3) show ?thesis by (auto simp: CTDEngineXt_req_order_insert_def Let_def)
    next
      case True
      then obtain info where info: "map_of tb (in_instr_hash data) = Some info" by blast
      with named E(3) obtain market where market: "exchangeint2str (ii_exch info) = Some market"
        by (auto simp: exchange_named_def)
      define order where "order = xt_filled_order data market (xu_input_order ?u)"
      define us where "us = (xt_account_units s)[?i := ?u\<lparr>xu_input_order := order\<rparr>]"
      define s2 where "s2 = s\<lparr>xt_account_units := us,
        xt_sent := xt_sent s @ [XtOrder (in_acc_idx data) order (te_request_id s)]\<rparr>"
      have step: "CTDEngineXt_req_order_insert env data s = order_entered env data s2"
        using True info market i e E(3) api [OF idx]
        by (simp add: CTDEngineXt_req_order_insert_def Let_def upd_xt_unit_def xt_unit_def xt_call_def
            order_def us_def s2_def)
      have "engine_moves (xt_units (xt_order2request s)) ps tb s s2 0 (track_of 0 s) []"
        unfolding s2_def by (rule xt_sent_move [OF ok]) (simp add: us_def)
      then have ok2: "engine_ok (xt_units (xt_order2request s)) ps tb s2" by (simp add: engine_moves_def)
      have same: "acc_index_ok (in_acc_idx data) s2" "te_acc_utilis s2 = te_acc_utilis s" "te_request_id s2 = te_request_id s"
        "te_writer s2 = te_writer s" and op: "opened s2 t x = opened s t x" for t x
        using idx by (simp_all add: s2_def acc_index_ok_def opened_def)
      from xt_engine.order_entered_ok [OF ok2 env same(1), unfolded same(2-4) op] api [OF idx] show ?thesis
        unfolding step xt_answered_def by blast
    qed
  qed
qed

lemma xt_cancel_ok:
  assumes ok: "engine_ok (xt_units m) ps tb s" and env: "chan_env ps env"
    and legal: "acc_index_ok (oa_acc_idx data) s \<Longrightarrow> xu_api (xt_account_units s ! nat (oa_acc_idx data))"
  defines "ref \<equiv> oa_order_ref data"
  shows "\<exists>t. ITDEngine_engine_req_order_action (CTDEngineXt_req_order_action env) env data s = Inr t \<and>
    ((\<exists>x. refusal x \<and> engine_moves (xt_units m) ps tb s t ref (track_of ref s) [x]) \<or>
     engine_moves (xt_units m) ps tb s t ref (add_status ODS_CXLING (track_of ref s)) [])"
proof -
  note start = engine_moves_refl [OF ok, of ref]
  have err: "\<exists>t. ITDEngine_writeErrRtn_action env data e msg ty s = Inr t \<and>
      ((\<exists>x. refusal x \<and> engine_moves (xt_units m) ps tb s t ref (track_of ref s) [x]) \<or>
       engine_moves (xt_units m) ps tb s t ref (add_status ODS_CXLING (track_of ref s)) [])"
    if "ty \<in> {ODS_ERR, ODS_CANCEL_REJECT}" for e msg ty
    using xt_engine.action_error_ok [OF start env that, of data e msg] by blast
  let ?i = "nat (oa_acc_idx data)"
  show ?thesis
  proof (cases "acc_index_ok (oa_acc_idx data) s")
    case False
    then have go: "ITDEngine_engine_req_order_action (CTDEngineXt_req_order_action env) env data s =
        ITDEngine_writeErrRtn_action env data (-1) ''account idx err.'' ODS_ERR s"
      by (auto simp: ITDEngine_engine_req_order_action_def acc_index_ok_def)
    from err [where ty = ODS_ERR] show ?thesis unfolding go by blast
  next
    case idx: True
    have i: "0 \<le> oa_acc_idx data" "?i < length (te_acc_utilis s)" "?i < length (xt_account_units s)"
      using idx engine_okD(5) [OF ok] by (simp_all add: acc_index_ok_def)
    have go: "ITDEngine_engine_req_order_action (CTDEngineXt_req_order_action env) env data s =
        CTDEngineXt_req_order_action env data s"
      using i by (simp add: ITDEngine_engine_req_order_action_def)
    show ?thesis
    proof (cases "ITDEngine_checkRequestId ref s \<and> ot_front_id (track_of ref s) = 1")
      case False
      with err [where ty = ODS_CANCEL_REJECT] get_track_ok [OF ok, of ref] show ?thesis
        unfolding go by (auto simp: CTDEngineXt_req_order_action_def Let_def simp flip: ref_def)
    next
      case True
      define s2 where "s2 = s\<lparr>xt_account_units := xt_account_units s,
        xt_sent := xt_sent s @ [XtCancel (oa_acc_idx data) (ot_session_id (track_of ref s)) ref]\<rparr>"
      have m2: "engine_moves (xt_units m) ps tb s s2 ref (track_of ref s) []"
        unfolding s2_def by (rule xt_sent_move [OF ok refl])
      have step: "CTDEngineXt_req_order_action env data s = Inr (upd_request_track ref (add_status ODS_CXLING) s2)"
        using True i legal [OF idx] get_track_ok [OF ok, of ref]
        by (simp add: CTDEngineXt_req_order_action_def Let_def xt_unit_def xt_call_def s2_def flip: ref_def)
      have ok2: "engine_ok (xt_units m) ps tb s2" and t2: "track_of ref s2 = track_of ref s"
        using m2 by (simp_all add: engine_moves_def track_of_def)
      from engine_moves_trans [OF m2 xt_engine.upd_track_ok [OF ok2, of "add_status ODS_CXLING" ref]]
      show ?thesis unfolding go step by (simp add: t2 add_status_def)
    qed
  qed
qed

section \<open>The invariant of a run\<close>

definition xt_inv :: "int \<Rightarrow> instr_table \<Rightarrow> int \<Rightarrow> io_order_rtn list \<Rightarrow> 't td_xt \<Rightarrow> bool" where
  "xt_inv ps tb r0 L0 s \<longleftrightarrow>
     engine_ok (xt_units (xt_order2request s)) ps tb s \<and> refs_ok (xt_order2request s) s \<and>
     (\<exists>L. wr_log (te_writer s) = L0 @ L \<and> log_follows deal_log r0 s L)"

lemma engine_ok_map: "engine_ok (xt_units m) ps tb s \<Longrightarrow> engine_ok (xt_units (xt_order2request s)) ps tb s"
  by (simp add: engine_ok_def)

lemma xt_inv_moves:
  assumes m: "engine_moves (xt_units (xt_order2request s)) ps tb s t ref trk ms"
    and trk: "ot_order_ref trk = ot_order_ref (track_of ref s)"
    and inv: "refs_ok (xt_order2request s) s" "wr_log (te_writer s) = L0 @ L" "log_follows deal_log r0 t (L @ ms)"
  shows "xt_inv ps tb r0 L0 t"
proof -
  have t: "engine_ok (xt_units (xt_order2request s)) ps tb t" "wr_log (te_writer t) = L0 @ L @ ms"
    using m inv(2) by (simp_all add: engine_moves_def)
  from engine_okD(5) [OF t(1)] have "xt_order2request t = xt_order2request s" by simp
  with inv(1) recorded_moves [OF m trk] have "refs_ok (xt_order2request t) t" by (auto simp: refs_ok_def)
  with engine_ok_map [OF t(1)] t(2) inv(3) show ?thesis by (auto simp: xt_inv_def)
qed

lemma xt_inv_named:
  assumes "xt_inv ps tb r0 L0 t" "recorded ref t"
  shows "xt_inv ps tb r0 L0 (t\<lparr>xt_order2request := AList.update k ref (xt_order2request t)\<rparr>)"
proof -
  let ?t = "t\<lparr>xt_order2request := AList.update k ref (xt_order2request t)\<rparr>"
  have same: "recorded j ?t = recorded j t" "track_of j ?t = track_of j t" for j
    by (simp_all add: recorded_def track_of_def)
  have "refs_ok (xt_order2request ?t) ?t"
    using refs_ok_update [of "xt_order2request t" t ref k] assms by (simp add: xt_inv_def refs_ok_def same)
  with assms(1) xt_moves_map show ?thesis by (auto simp: xt_inv_def log_follows_def same)
qed

lemma xt_step_ok:
  assumes inv: "ees_env ps env \<and> xt_inv ps tb r0 L0 s" and legal: "xt_legal e s"
  shows "\<exists>t. xt_step env e s = Inr t \<and> ees_env ps env \<and> xt_inv ps tb r0 L0 t"
proof -
  let ?m = "xt_order2request s"
  from inv obtain L where ok: "engine_ok (xt_units ?m) ps tb s" and refs: "refs_ok ?m s"
    and L: "wr_log (te_writer s) = L0 @ L" "log_follows deal_log r0 s L" by (auto simp: xt_inv_def)
  have "chan_env ps env" and fuel: "0 < en_fuel env" using inv by (simp_all add: ees_env_def)
  then have env: "chan_env ps (env\<lparr>en_now := now\<rparr>)" for now by (simp add: chan_env_def)
  have refused: "xt_inv ps tb r0 L0 t"
    if "engine_moves (xt_units ?m) ps tb s t ref (track_of ref s) [x]" "refusal x" for t ref x
    by (rule xt_inv_moves [OF that(1) refl refs L(1) deal_history.log_refusal [OF L(2) that]])
  show ?thesis
  proof (cases e)
    case (XtInsert now data)
    let ?env = "env\<lparr>en_now := now\<rparr>"
    have "0 < en_fuel ?env" using fuel by simp
    from xt_insert_ok [OF ok env [of now] this, of data] legal XtInsert obtain t x where
      t: "CTDEngineXt_req_order_insert ?env data s = Inr t" "engine_ok (xt_units ?m) ps tb t"
        "wr_log (te_writer t) = wr_log (te_writer s) @ [x]"
        "opened s t x \<or> refusal x \<and> engine_moves (xt_units ?m) ps tb s t 0 (track_of 0 s) [x]"
      unfolding xt_answered_def by auto
    from t(4) have "xt_inv ps tb r0 L0 t"
    proof (elim disjE conjE)
      assume o: "opened s t x"
      have room: "te_request_id s < te_request_id_start s + MMAP_ORDER_TRACK_SIZE" using legal XtInsert by simp
      have "xt_order2request t = ?m" using engine_okD(5) [OF t(2)] by simp
      with refs recorded_opened [OF o room] have "refs_ok (xt_order2request t) t" by (auto simp: refs_ok_def)
      with deal_history.log_opened [OF L(2) o room] engine_ok_map [OF t(2)] t(3) L(1) show ?thesis
        by (auto simp: xt_inv_def)
    qed (rule refused)
    with t(1) XtInsert inv show ?thesis by simp
  next
    case (XtCancelReq now data)
    let ?env = "env\<lparr>en_now := now\<rparr>" and ?ref = "oa_order_ref data"
    from xt_cancel_ok [OF ok env [of now], of data] legal XtCancelReq obtain t where
      t: "ITDEngine_engine_req_order_action (CTDEngineXt_req_order_action ?env) ?env data s = Inr t"
        "(\<exists>x. refusal x \<and> engine_moves (xt_units ?m) ps tb s t ?ref (track_of ?ref s) [x]) \<or>
         engine_moves (xt_units ?m) ps tb s t ?ref (add_status ODS_CXLING (track_of ?ref s)) []" by auto
    from t(2) have "xt_inv ps tb r0 L0 t"
    proof (elim disjE exE conjE)
      assume m: "engine_moves (xt_units ?m) ps tb s t ?ref (add_status ODS_CXLING (track_of ?ref s)) []"
      from deal_history.log_cxling [OF L(2) m [unfolded add_status_def]] show ?thesis
        by (intro xt_inv_moves [OF m _ refs L(1)]) (simp_all add: add_status_def)
    qed (rule refused)
    with t(1) XtCancelReq inv show ?thesis by simp
  next
    case (XtReport now cb)
    let ?env = "env\<lparr>en_now := now\<rparr>"
    from legal XtReport obtain q where q: "xt_report_ref cb = Some q"
      "\<And>ref. q = ByRef ref \<Longrightarrow> ref < te_request_id s \<and> ot_order_ref (track_of ref s) = ref"
      by (auto split: option.splits ees_ref.splits)
    from xt_report_ok [OF ok env [of now] refs q] obtain t k j where
      t: "xt_done ?m ps tb s (Inr t)" "xt_run_callback ?env cb s = Inr t \<or> recorded j s \<and>
        xt_run_callback ?env cb s = Inr (t\<lparr>xt_order2request := AList.update k j (xt_order2request t)\<rparr>)"
      unfolding xt_handled_def by blast
    from t(1) obtain ref trk ms where
      m: "engine_moves (xt_units ?m) ps tb s t ref trk ms" "ot_order_ref trk = ot_order_ref (track_of ref s)"
        "ms = [] \<and> trk = track_of ref s \<or> recorded ref s \<and> report_follows deal_log ref (track_of ref s) trk ms"
      unfolding xt_done_def by blast
    have "log_follows deal_log r0 t (L @ ms)" using m(3)
    proof (elim disjE conjE)
      assume same: "ms = []" "trk = track_of ref s"
      have "track_of j t = track_of j s" for j using m(1) same by (simp add: engine_moves_def track_of_def)
      with L(2) m(1) same show ?thesis by (simp add: log_follows_def engine_moves_def)
    next
      assume "recorded ref s" "report_follows deal_log ref (track_of ref s) trk ms"
      with deal_history.log_report [OF L(2) m(1)] show ?thesis by (simp add: recorded_def)
    qed
    note t_inv = xt_inv_moves [OF m(1,2) refs L(1) this]
    from t(2) xt_inv_named [OF t_inv recorded_moves [OF m(1,2)]] t_inv inv XtReport show ?thesis by auto
  qed
qed

interpretation xt_gateway: guarded_machine "xt_step env" xt_legal "\<lambda>s. ees_env ps env \<and> xt_inv ps tb r0 L0 s"
    for env ps tb r0 L0
  by unfold_locales (rule xt_step_ok)

end
