(* ===== verification/Xt_Properties.thy ===== *)
theory Xt_Properties
  imports Xt_Inv Ees_Properties
begin

text \<open>
  What the XT gateway promises its clients: less than the other gateways about acceptance and rejection,
  which it repeats as often as it is told, and the same about executions, cancellations and addresses.
\<close>

section \<open>An engine\<close>

text \<open>The account of the other examples on an XT interface, with an order of the interface's number 900.\<close>

definition xe_start :: "tnode list td_xt" where
  "xe_start = td_engine.extend ((td_engine.truncate (clear_track gw_start))
       \<lparr>te_request_track := (\<lambda>_. order_track_init)(track_slot 3 := order_track_init\<lparr>ot_order_ref := 3, ot_from := 17,
          ot_status := ODS_TDSEND OR ODS_ACCEPT, ot_vol := 5, ot_front_id := 1, ot_session_id := 900\<rparr>)\<rparr>)
     \<lparr>xt_curAccountIdx = 0,
      xt_account_units = [\<lparr>xu_input_order = xu_input_order (CTDEngineXt_load_account (''u1'', ''u1'', ''p'')),
        xu_api = True, xu_initialized = True, xu_connected = True, xu_logged_in = True, xu_login_rid = 1,
        xu_account_id = ''u1'', xu_user_id = ''u1'', xu_passwd = ''p''\<rparr>],
      xt_query_complete_flag = True, xt_order2request = [(900, 3)], xt_sent = []\<rparr>"

lemma xe_start_simps [simp]:
  "te_writer xe_start = te_writer gw_start" "te_base xe_start = te_base gw_start"
  "te_track_mapped xe_start = te_track_mapped gw_start" "te_acc_utilis xe_start = te_acc_utilis gw_start"
  "te_request_id xe_start = 4" "te_request_id_start xe_start = 1" "length (xt_account_units xe_start) = 1"
  "xu_api (xt_account_units xe_start ! 0)" "xt_order2request xe_start = [(900, 3)]"
  "ot_order_ref (track_of 3 xe_start) = 3" "ot_acc_id (te_request_track xe_start k) = 0"
  using gw_ids by (simp_all add: xe_start_def clear_track_def td_engine.defs track_of_def order_track_init_def)

lemma xe_engine_ok: "engine_ok (xt_units (xt_order2request xe_start)) 600 (tb_instr_info if_base) xe_start"
proof -
  have "length (te_acc_utilis xe_start) = length (xt_account_units xe_start)" using gw_ids(5) by simp
  moreover have "0 < length (te_acc_utilis gw_start)" using gw_ids(5) by simp
  ultimately show ?thesis
    using engine_okD(1-4,6) [OF gw_engine_ok(2)] unfolding engine_ok_def acc_index_ok_def xe_start_simps by simp
qed

lemma xe_refs: "refs_ok (xt_order2request xe_start) xe_start"
  by (simp add: refs_ok_def recorded_def)

lemma xe_named: "exchange_named (in_instr_hash gw_order) xe_start"
proof -
  obtain accs where "gw_start = gw_connected\<lparr>te_acc_utilis := accs\<rparr>"
    using gw_opened unfolding accounts_opened_def by blast
  from arg_cong [OF this, of te_base] have "te_base gw_start = te_base gw_connected" by simp
  then have "te_base gw_start = if_base" by (simp add: gw_connected_def)
  moreover have "case map_of (tb_instr_info if_base) (in_instr_hash gw_order) of None \<Rightarrow> True
      | Some info \<Rightarrow> exchangeint2str (ii_exch info) \<noteq> None" by code_simp
  ultimately show ?thesis by (simp add: exchange_named_def)
qed

definition xe_deal :: "string \<Rightarrow> xt_deal_detail" where
  "xe_deal trade = \<lparr>xe_OrderID = 900, xe_TradeID = trade, xe_AveragePrice = 3999, xe_Volume = 2\<rparr>"

definition xe_day :: "xt_event list" where
  "xe_day =
     [XtInsert 100 gw_order, XtReport 101 (XtOnRtnDealDetail (xe_deal ''7'')),
      XtReport 102 (XtOnRtnDealDetail (xe_deal ''7'')),
      XtReport 103 (XtOnRtnOrder \<lparr>xo_OrderID = 900, xo_Status = OCS_STOPPED, xo_StatusCode = 1, xo_Msg = ''stop''\<rparr>)]"

lemma xe_legal: "legal_run (xt_step gw_env) xt_legal xe_day xe_start"
  using gw_room gw_ids(5) xe_named
  by (simp add: xe_day_def acc_index_ok_def MMAP_ORDER_TRACK_SIZE_def gw_order_def split: sum.split)

section \<open>Reports\<close>

text \<open>
  C17. Along every run of a day of the XT gateway under the conditions below (requests of clients and reports of
  the interface in any order and as often as it likes) no step faults; each message refuses a request or is
  addressed to the client its order came from, under the client's number for it; each order sent in the run was
  acknowledged exactly once, cancelled at most once and not without its record saying so, and its
  reported executions sum up to the traded volume of its record; and every number of the interface the
  gateway knows leads to an order recorded under its own number.

  The run starts with accounts as \<^verbatim>\<open>initAccountUtilis\<close> leaves them and records that name accounts there are
  (\<open>engine_ok\<close>). The conditions (\<open>xt_legal\<close>): a request that names an account finds its interface connected; an order finds room
  in the vector of the working orders of its instrument, at most 1024 on a day
  (the next one leaves dangling links), and the exchange of its instrument is one that has a name
  (\<^verbatim>\<open>exchangeint2str\<close> returns null for the others, from which the gateway builds a string); the day has at most
  262144 orders; a report by the number of an order is about one that is recorded under that number. A request
  and a report are steps of their own. The pages of the channel have room for a report, and the system grants
  what the writer asks for.
\<close>

theorem xt_deals_reach_their_client:
  assumes "ees_env ps env" "engine_ok (xt_units (xt_order2request s0)) ps tb s0"
    and "refs_ok (xt_order2request s0) s0" "te_request_id_start s0 \<le> te_request_id s0"
    and "te_request_id s0 \<le> te_request_id_start s0 + MMAP_ORDER_TRACK_SIZE"
    and "legal_run (xt_step env) xt_legal es s0"
  shows "\<exists>s L. run_steps (xt_step env) es s0 = Inr s \<and>
    wr_log (te_writer s) = wr_log (te_writer s0) @ L \<and>
    (\<forall>m \<in> set L. refusal m \<or>
       (\<exists>ref. te_request_id_start s \<le> ref \<and> ref < te_request_id s \<and> addressed ref (track_of ref s) m)) \<and>
    (\<forall>ref. te_request_id s0 \<le> ref \<longrightarrow> ref < te_request_id s \<longrightarrow> deal_log ref (track_of ref s) L) \<and>
    refs_ok (xt_order2request s) s"
proof -
  have "ees_env ps env \<and> xt_inv ps tb (te_request_id s0) (wr_log (te_writer s0)) s0"
    using assms(1-5) by (auto simp: xt_inv_def log_follows_def)
  from xt_gateway.run_inv [OF this assms(6)] obtain s L where
    "run_steps (xt_step env) es s0 = Inr s" "wr_log (te_writer s) = wr_log (te_writer s0) @ L"
      "refs_ok (xt_order2request s) s" "log_follows deal_log (te_request_id s0) s L"
    unfolding xt_inv_def by blast
  then show ?thesis unfolding log_follows_def by blast
qed

theorem xt_deals_reach_their_client_witness:
  "\<exists>s L. run_steps (xt_step gw_env) xe_day xe_start = Inr s \<and>
    wr_log (te_writer s) = wr_log (te_writer xe_start) @ L \<and>
    (\<forall>m \<in> set L. refusal m \<or>
       (\<exists>ref. te_request_id_start s \<le> ref \<and> ref < te_request_id s \<and> addressed ref (track_of ref s) m)) \<and>
    (\<forall>ref. te_request_id xe_start \<le> ref \<longrightarrow> ref < te_request_id s \<longrightarrow> deal_log ref (track_of ref s) L) \<and>
    refs_ok (xt_order2request s) s"
  by (rule xt_deals_reach_their_client [OF ee_engine_ok(1) xe_engine_ok xe_refs _ _ xe_legal])
    (simp_all add: MMAP_ORDER_TRACK_SIZE_def)

section \<open>Start of the engine\<close>

text \<open>
  The login counts with \<^verbatim>\<open>curAccountIdx_\<close> itself, so a status that comes after it is written behind the
  last account.
\<close>

lemma login_leaves_index: "xt_login_from xv env idx n s = Inr t \<Longrightarrow> xt_curAccountIdx t = int (idx + n)"
  by (induction n arbitrary: idx s) (auto simp: res_bind_Inr_iff Let_def split: if_splits)

lemma status_after_login_out_of_range:
  assumes "xt_login_from xv env 0 n s = Inr t" "length (xt_account_units t) = n"
  shows "CTDEngineXt_onRtnLoginStatus acc True t = Inl OutOfRange" "CTDEngineXt_onConnected True t = Inl OutOfRange"
  using assms login_leaves_index [OF assms(1)]
  by (simp_all add: CTDEngineXt_onRtnLoginStatus_def CTDEngineXt_onConnected_def upd_xt_unit_def xt_unit_def)

text \<open>
  A start on the day of the records at a broker that knows no order of the account, as after orders that
  were all refused: the next order gets the first number of the range, although its record is in use.
\<close>

definition nothing_found :: xt_vendor where
  "nothing_found = \<lparr>xv_create = (\<lambda>_. True), xv_config = (\<lambda>_. True), xv_init = (\<lambda>_. True), xv_connecting = (\<lambda>_. []),
     xv_during = (\<lambda>q. case q of
         XtReqOrderDetail i acc rid \<Rightarrow> [XtOnReqOrderDetail rid None True None]
       | XtReqDealDetail i acc rid \<Rightarrow> [XtOnReqDealDetail rid None True None]
       | _ \<Rightarrow> [])\<rparr>"

lemma restart_reuses_numbers:
  fixes s :: "'t td_xt"
  assumes "te_track_mapped s" "tb_trading_day (te_base s) = te_track_day s" "xt_order2request s = []"
    and "xt_account_units s = [u]" "xu_api u"
    and "te_request_id_start s \<le> te_request_id s" "te_request_id s < te_request_id_end s"
  shows "\<exists>t. CTDEngineXt_updateOrderTrack nothing_found env s = Inr (True, t) \<and>
    te_request_id t = te_request_id_start s \<and>
    track_of (te_request_id t) t = (track_of (te_request_id_start s) s)\<lparr>ot_amount_traded := 0\<rparr>"
  using assms
  by (simp add: CTDEngineXt_updateOrderTrack_def CTDEngineXt_updateTradedAmount_def open_track_day_def nothing_found_def
      xt_wait_def xt_call_def xt_unit_def CTDEngineXt_onReqOrderDetail_def CTDEngineXt_onReqDealDetail_def
      ITDEngine_checkRequestId_def clear_amounts_def track_of_def Let_def)

end
