(* ===== verification/Stg_Process.thy ===== *)
theory Stg_Process
  imports Stg_Core Td_Engine
begin

text \<open>
  \<^verbatim>\<open>strategy/CStrategyProcess\<close>, a process that runs several strategies: one connection to the market
  data and one to the trading engine, a list of strategies each with an account of its own, and the
  maps from instruments and bars to the strategies that want them.

  The helpers, the callbacks and the programs over the interface are those of \<^verbatim>\<open>CStrategy\<close>
  (\<open>Stg_Core\<close>). A \<^verbatim>\<open>CStrategyBase*\<close> is the number of the object among those the program made
  (\<open>cp_objs\<close>); \<^verbatim>\<open>self_id_\<close>, the place in the list of strategies, is another number.
\<close>

section \<open>The state\<close>

record 'u base_stg =
  sb_self_id :: int
  sb_risk :: "risk_stg option"
  sb_user :: 'u

record ('h, 'm, 'u) stg_process =
  cp_md :: 'm
  cp_td :: 'h
  cp_objs :: "'u base_stg list"
  cp_strategy_list :: "nat list"
  cp_instr_info_map :: "(u32, subs_instr_info \<times> nat list) umap"
  cp_subs_bar_info :: "(bar_maker \<times> nat list) list"
  cp_is_exit :: bool
  cp_do_trade :: bool
  cp_trading_day :: string
  cp_acc_save_day :: string
  cp_base :: trade_base
  cp_bar_helper :: bar_helper
  cp_disk :: disk

text \<open>The slots of \<^verbatim>\<open>CStrategyBase\<close>, one set for each object.\<close>

record ('s, 'u) base_slots =
  b_on_tick :: "market_data \<Rightarrow> 'u \<Rightarrow> ('s, 'u) stg_prog"
  b_on_time :: "int \<Rightarrow> 'u \<Rightarrow> ('s, 'u) stg_prog"
  b_on_rtn :: "rtn_msg \<Rightarrow> 'u \<Rightarrow> ('s, 'u) stg_prog"
  b_on_bar :: "bar2 \<Rightarrow> 'u \<Rightarrow> ('s, 'u) stg_prog"
  b_on_switch_day :: "string \<Rightarrow> 'u \<Rightarrow> ('s, 'u) stg_prog"

record ('h, 'm, 'u) proc_env =
  pe_fuel :: nat
  pe_td :: "'h td_ops"
  pe_md :: "'m md_ops"
  pe_slots :: "nat \<Rightarrow> (('h, 'm, 'u) stg_process, 'u) base_slots"
  pe_files :: file_env

text \<open>\<^verbatim>\<open>p_risk_stg_\<close> of an object, null before \<^verbatim>\<open>add\<close>.\<close>

definition risk_of :: "nat \<Rightarrow> ('h, 'm, 'u) stg_process \<Rightarrow> risk_stg res" where
  "risk_of k s =
     (if \<not> k < length (cp_objs s) then Inl DanglingDeref
      else (case sb_risk (cp_objs s ! k) of None \<Rightarrow> Inl NullDeref | Some r \<Rightarrow> Inr r))"

definition upd_obj ::
    "nat \<Rightarrow> ('u base_stg \<Rightarrow> 'u base_stg) \<Rightarrow> ('h, 'm, 'u) stg_process \<Rightarrow> ('h, 'm, 'u) stg_process" where
  "upd_obj k f s = s\<lparr>cp_objs := (cp_objs s)[k := f (cp_objs s ! k)]\<rparr>"

definition put_risk :: "nat \<Rightarrow> risk_stg \<Rightarrow> ('h, 'm, 'u) stg_process \<Rightarrow> ('h, 'm, 'u) stg_process" where
  "put_risk k r = upd_obj k (\<lambda>b. b\<lparr>sb_risk := Some r\<rparr>)"

section \<open>Adding a strategy\<close>

text \<open>
  \<^verbatim>\<open>j_conf["Account"]\<close>, its element where the profile is in range, else \<^verbatim>\<open>j_conf["AccountDefault"]\<close>. The
  comparison is unsigned, so a negative profile takes the default.
\<close>

definition profile_conf :: "json \<Rightarrow> int \<Rightarrow> json option" where
  "profile_conf j i =
     (if i < 0 then (case json_at j ''Account'' of None \<Rightarrow> None | Some _ \<Rightarrow> json_at j ''AccountDefault'')
      else account_conf j (nat i))"

definition show_int :: "int \<Rightarrow> string" where
  "show_int i = (if i < 0 then CHR ''-'' # show_nat (nat (- i)) else show_nat (nat i))"

definition tracks_of :: "int \<Rightarrow> order_track list \<Rightarrow> order_track list" where
  "tracks_of self_id ts = filter (\<lambda>t. ot_stg_id t = self_id) ts"

text \<open>
  The result is the place in the list, or \<open>-1\<close> where the account cannot be set up, or \<^verbatim>\<open>false\<close>, which
  is \<open>0\<close>, where its file cannot be read. The object stays in the list in every case.
\<close>

definition CStrategyProcess_add ::
    "('h, 'm, 'u) proc_env \<Rightarrow> json \<Rightarrow> nat \<Rightarrow> int \<Rightarrow> ('h, 'm, 'u) stg_process \<Rightarrow>
     (int \<times> ('h, 'm, 'u) stg_process) res" where
  "CStrategyProcess_add env j_conf k profile_id s =
     (let id = int (length (cp_strategy_list s));
          s1 = upd_obj k (\<lambda>b. b\<lparr>sb_self_id := id\<rparr>) (s\<lparr>cp_strategy_list := cp_strategy_list s @ [k]\<rparr>)
      in case (profile_conf j_conf profile_id, json_at j_conf ''name'') of
           (Some acc_conf, Some (JStr name)) \<Rightarrow>
             res_bind (RiskStg_init (name @ SUB_ACCOUNT_FILE_SUFFIX @ show_int profile_id) acc_conf risk_stg_init) (\<lambda>(ok, r).
               if \<not> ok then Inr (-1, put_risk k r s1)
               else
                 res_bind (RiskStg_load (pe_files env) (tb_instr_info (cp_base s1))
                     (tb_trading_day (cp_base s1)) (cp_disk s1) r) (\<lambda>(ok2, r2).
                   if \<not> ok2 then Inr (0, put_risk k r2 s1)
                   else
                     res_bind (replay_tracks (tb_instr_info (cp_base s1))
                         (tracks_of id (tdo_order_track (pe_td env) (cp_td s1))) r2) (\<lambda>r3.
                       Inr (id, put_risk k r3 s1))))
         | _ \<Rightarrow> Inl Uncaught)"

section \<open>Subscriptions\<close>

text \<open>One instrument: a new entry, or a further strategy of an entry, is registered with the account.\<close>

fun proc_subscribe_loop ::
    "nat \<Rightarrow> string list \<Rightarrow> ('h, 'm, 'u) stg_process \<Rightarrow> (bool \<times> ('h, 'm, 'u) stg_process) res" where
  "proc_subscribe_loop k [] s = Inr (True, s)"
| "proc_subscribe_loop k (i # ls) s =
     (let hash = INSTR_NAME_TO_HASH i in
      case (case map_of (cp_instr_info_map s) hash of
              None \<Rightarrow>
                (case touch_info hash (cp_base s) of (info, b) \<Rightarrow>
                   (True, s\<lparr>cp_base := b, cp_instr_info_map := AList.update hash
                      (\<lparr>base_info = info, lst_tick = last_tick_init\<rparr>, [k]) (cp_instr_info_map s)\<rparr>))
            | Some (info, stgs) \<Rightarrow>
                if k \<in> set stgs then (False, s)
                else (True, s\<lparr>cp_instr_info_map :=
                        AList.update hash (info, stgs @ [k]) (cp_instr_info_map s)\<rparr>)) of
        (isNew, s1) \<Rightarrow>
          if \<not> isNew then proc_subscribe_loop k ls s1
          else
            res_bind (risk_of k s1) (\<lambda>r.
            res_bind (RiskStg_regInstr (tb_instr_info (cp_base s1)) i r) (\<lambda>(ok, r1).
              if \<not> ok then Inr (False, put_risk k r1 s1)
              else proc_subscribe_loop k ls (put_risk k r1 s1))))"

definition CStrategyProcess_subscribe ::
    "('h, 'm, 'u) proc_env \<Rightarrow> nat \<Rightarrow> string \<Rightarrow> ('h, 'm, 'u) stg_process \<Rightarrow>
     (bool \<times> ('h, 'm, 'u) stg_process) res" where
  "CStrategyProcess_subscribe env k instruments s =
     (if instruments = [] then Inr (True, s)
      else
       (let destination = split_tokens [] instruments; tb = tb_instr_info (cp_base s) in
        case mdo_subscribe (pe_md env) tb destination (cp_md s) of (ok, md) \<Rightarrow>
          (let s1 = s\<lparr>cp_md := md\<rparr> in
           if \<not> ok then Inr (False, s1)
           else if CTradeBaseInfo_productToInstrSet destination tb = {} then Inr (False, s1)
           else proc_subscribe_loop k (instr_set_list destination tb) s1)))"

text \<open>
  \<^verbatim>\<open>subsBar\<close>: a bar maker of the same instrument and cycle is shared, otherwise one is made; its
  instrument is looked up under the hash of the argument, which inserts an empty entry for a name
  that is no instrument.
\<close>

definition bar_index :: "int \<Rightarrow> string \<Rightarrow> (bar_maker \<times> nat list) list \<Rightarrow> nat option" where
  "bar_index interval instrument bars =
     List.find (\<lambda>n. bm_cycle_sec (fst (bars ! n)) = interval \<and> bm_instr (fst (bars ! n)) = instrument)
       [0..<length bars]"

definition CStrategyProcess_subsBar ::
    "('h, 'm, 'u) proc_env \<Rightarrow> nat \<Rightarrow> string \<Rightarrow> int \<Rightarrow> ('h, 'm, 'u) stg_process \<Rightarrow>
     (bool \<times> ('h, 'm, 'u) stg_process) res" where
  "CStrategyProcess_subsBar env k instrument interval_min s =
     res_bind (CStrategyProcess_subscribe env k instrument s) (\<lambda>(ok, s1).
       if \<not> ok then Inr (False, s1)
       else case bar_index interval_min instrument (cp_subs_bar_info s1) of
         Some n \<Rightarrow>
           (case cp_subs_bar_info s1 ! n of (m, stgs) \<Rightarrow>
              Inr (True, s1\<lparr>cp_subs_bar_info := (cp_subs_bar_info s1)[n := (m, stgs @ [k])]\<rparr>))
       | None \<Rightarrow>
           (case touch_info (INSTR_NAME_TO_HASH instrument) (cp_base s1) of (info, b) \<Rightarrow>
              res_bind (BarMaker_new (pe_fuel env) (cp_bar_helper s1) info interval_min) (\<lambda>m.
                Inr (True, s1\<lparr>cp_base := b, cp_subs_bar_info := cp_subs_bar_info s1 @ [(m, [k])]\<rparr>))))"

section \<open>Orders\<close>

definition CStrategyProcess_getSubsInstrInfo ::
    "u32 \<Rightarrow> ('h, 'm, 'u) stg_process \<Rightarrow> subs_instr_info option" where
  "CStrategyProcess_getSubsInstrInfo instr_hash s =
     map_option fst (map_of (cp_instr_info_map s) instr_hash)"

definition CStrategyProcess_getLastTick :: "u32 \<Rightarrow> ('h, 'm, 'u) stg_process \<Rightarrow> last_tick option" where
  "CStrategyProcess_getLastTick instr_hash s =
     map_option lst_tick (CStrategyProcess_getSubsInstrInfo instr_hash s)"

text \<open>\<^verbatim>\<open>CStrategyBase::sendOrder\<close>: the order carries the number of the strategy.\<close>

definition CStrategyBase_sendOrder ::
    "('h, 'm, 'u) proc_env \<Rightarrow> nat \<Rightarrow> u32 \<Rightarrow> double \<Rightarrow> int \<Rightarrow> int \<Rightarrow> int \<Rightarrow> int \<Rightarrow> ('h, 'm, 'u) stg_process \<Rightarrow>
     (int \<times> ('h, 'm, 'u) stg_process) res" where
  "CStrategyBase_sendOrder env k instr_hash price vol dir off acc_idx s =
     (if \<not> cp_do_trade s then Inr (-1, s)
      else case CStrategyProcess_getSubsInstrInfo instr_hash s of
        None \<Rightarrow> Inr (-1, s)
      | Some sub \<Rightarrow>
          (let tb = tb_instr_info (cp_base s) in
           res_bind (risk_of k s) (\<lambda>r0.
           res_bind (RiskStg_check (pe_fuel env) tb dir off price vol sub r0) (\<lambda>(ret, off1, r).
             if ret \<noteq> 0 then Inr (ret, put_risk k r s)
             else
               res_bind (tdo_sendOrder (pe_td env) (ii_instr (base_info sub)) price vol dir off1
                   acc_idx (sb_self_id (cp_objs s ! k)) instr_hash (cp_td s)) (\<lambda>(ret1, td).
               res_bind (RiskStg_onNew tb dir off1 price vol instr_hash (lt_exch_time (lst_tick sub)) r) (\<lambda>r1.
                 Inr (ret1, put_risk k r1 (s\<lparr>cp_td := td\<rparr>))))))))"

definition CStrategyProcess_cancelOrder ::
    "('h, 'm, 'u) proc_env \<Rightarrow> int \<Rightarrow> ('h, 'm, 'u) stg_process \<Rightarrow> (int \<times> ('h, 'm, 'u) stg_process) res" where
  "CStrategyProcess_cancelOrder env order_id s =
     res_bind (tdo_deleteOrder (pe_td env) order_id (cp_td s)) (\<lambda>(ret, td). Inr (ret, s\<lparr>cp_td := td\<rparr>))"

definition CStrategyProcess_stop :: "('h, 'm, 'u) stg_process \<Rightarrow> ('h, 'm, 'u) stg_process" where
  "CStrategyProcess_stop s = s\<lparr>cp_is_exit := True\<rparr>"

text \<open>A callback of object \<open>k\<close>.\<close>

primrec run_base_prog ::
    "('h, 'm, 'u) proc_env \<Rightarrow> nat \<Rightarrow> (('h, 'm, 'u) stg_process, 'u) stg_prog \<Rightarrow> ('h, 'm, 'u) stg_process \<Rightarrow>
     ('h, 'm, 'u) stg_process res" where
  "run_base_prog env k (Done u) s = Inr (upd_obj k (\<lambda>b. b\<lparr>sb_user := u\<rparr>) s)"
| "run_base_prog env k (Look f) s = run_base_prog env k (f s) s"
| "run_base_prog env k (SendOrder h price vol dir off acc_idx f) s =
     res_bind (CStrategyBase_sendOrder env k h price vol dir off acc_idx s)
       (\<lambda>(ret, s1). run_base_prog env k (f ret) s1)"
| "run_base_prog env k (CancelOrder order_id f) s =
     res_bind (CStrategyProcess_cancelOrder env order_id s) (\<lambda>(ret, s1). run_base_prog env k (f ret) s1)"
| "run_base_prog env k (Subscribe instruments f) s =
     res_bind (CStrategyProcess_subscribe env k instruments s) (\<lambda>(ok, s1). run_base_prog env k (f ok) s1)"
| "run_base_prog env k (SubsBar instrument interval_min f) s =
     res_bind (CStrategyProcess_subsBar env k instrument interval_min s)
       (\<lambda>(ok, s1). run_base_prog env k (f ok) s1)"
| "run_base_prog env k (Stop p) s = run_base_prog env k p (CStrategyProcess_stop s)"

text \<open>A virtual call through a pointer.\<close>

definition call_base ::
    "('h, 'm, 'u) proc_env \<Rightarrow> ((('h, 'm, 'u) stg_process, 'u) base_slots \<Rightarrow> 'u \<Rightarrow> (('h, 'm, 'u) stg_process, 'u) stg_prog) \<Rightarrow>
     nat \<Rightarrow> ('h, 'm, 'u) stg_process \<Rightarrow> ('h, 'm, 'u) stg_process res" where
  "call_base env f k s =
     (if k < length (cp_objs s)
      then run_base_prog env k (f (pe_slots env k) (sb_user (cp_objs s ! k))) s
      else Inl DanglingDeref)"

text \<open>
  A loop over a vector of strategies. \<open>vec\<close> reads the vector: a callback that appends to it, or grows
  the vector it is stored in, invalidates the iterators of the loop.
\<close>

fun call_each ::
    "(('h, 'm, 'u) stg_process \<Rightarrow> 'x) \<Rightarrow> (nat \<Rightarrow> ('h, 'm, 'u) stg_process \<Rightarrow> ('h, 'm, 'u) stg_process res) \<Rightarrow>
     nat list \<Rightarrow> ('h, 'm, 'u) stg_process \<Rightarrow> ('h, 'm, 'u) stg_process res" where
  "call_each vec f [] s = Inr s"
| "call_each vec f (k # ks) s =
     res_bind (f k s) (\<lambda>s1. if vec s1 = vec s then call_each vec f ks s1 else Inl DanglingDeref)"

section \<open>Bars\<close>

definition bar_shape :: "('h, 'm, 'u) stg_process \<Rightarrow> nat list list" where
  "bar_shape s = map snd (cp_subs_bar_info s)"

definition put_maker :: "nat \<Rightarrow> bar_maker \<Rightarrow> ('h, 'm, 'u) stg_process \<Rightarrow> ('h, 'm, 'u) stg_process" where
  "put_maker n m s = s\<lparr>cp_subs_bar_info := (cp_subs_bar_info s)[n := (m, snd (cp_subs_bar_info s ! n))]\<rparr>"

text \<open>\<^verbatim>\<open>while (nullptr != (pbar = b.first.GetBar())) for (auto s : b.second) s->on_bar(pbar)\<close>\<close>

fun proc_get_bars ::
    "nat \<Rightarrow> ('h, 'm, 'u) proc_env \<Rightarrow> nat \<Rightarrow> ('h, 'm, 'u) stg_process \<Rightarrow> ('h, 'm, 'u) stg_process res" where
  "proc_get_bars 0 env n s = Inl OutOfFuel"
| "proc_get_bars (Suc fuel) env n s =
     (case BarMaker_GetBar (fst (cp_subs_bar_info s ! n)) of (pbar, m) \<Rightarrow>
        (let s1 = put_maker n m s in
         case pbar of
           None \<Rightarrow> Inr s1
         | Some b \<Rightarrow>
             res_bind (call_each bar_shape (call_base env (\<lambda>u. b_on_bar u b))
                 (snd (cp_subs_bar_info s1 ! n)) s1)
               (proc_get_bars fuel env n)))"

fun proc_bars_on_tick ::
    "('h, 'm, 'u) proc_env \<Rightarrow> market_data \<Rightarrow> nat list \<Rightarrow> ('h, 'm, 'u) stg_process \<Rightarrow>
     ('h, 'm, 'u) stg_process res" where
  "proc_bars_on_tick env pmd [] s = Inr s"
| "proc_bars_on_tick env pmd (n # ns) s =
     (case BarMaker_OnTick pmd (cp_bar_helper s, fst (cp_subs_bar_info s ! n)) of (bh, m) \<Rightarrow>
        res_bind (proc_get_bars (pe_fuel env) env n (put_maker n m (s\<lparr>cp_bar_helper := bh\<rparr>)))
          (proc_bars_on_tick env pmd ns))"

fun proc_bars_on_finish ::
    "('h, 'm, 'u) proc_env \<Rightarrow> nat list \<Rightarrow> ('h, 'm, 'u) stg_process \<Rightarrow> ('h, 'm, 'u) stg_process res" where
  "proc_bars_on_finish env [] s = Inr s"
| "proc_bars_on_finish env (n # ns) s =
     res_bind (proc_get_bars (pe_fuel env) env n
         (put_maker n (BarMaker_OnFinish (cp_bar_helper s) (fst (cp_subs_bar_info s ! n))) s))
       (proc_bars_on_finish env ns)"

definition CStrategyProcess_barOnFinish ::
    "('h, 'm, 'u) proc_env \<Rightarrow> ('h, 'm, 'u) stg_process \<Rightarrow> ('h, 'm, 'u) stg_process res" where
  "CStrategyProcess_barOnFinish env s = proc_bars_on_finish env [0..<length (cp_subs_bar_info s)] s"

section \<open>Ticks, reports, time\<close>

definition CStrategyProcess_on_tick ::
    "('h, 'm, 'u) proc_env \<Rightarrow> market_data \<Rightarrow> ('h, 'm, 'u) stg_process \<Rightarrow> ('h, 'm, 'u) stg_process res" where
  "CStrategyProcess_on_tick env pmd s =
     (let h = md_instr_hash pmd in
      res_bind (tdo_on_tick (pe_td env) pmd (cp_td s)) (\<lambda>td.
        let s1 = s\<lparr>cp_td := td\<rparr> in
        case map_of (cp_instr_info_map s1) h of
          None \<Rightarrow> Inr s1
        | Some (info, stgs) \<Rightarrow>
            res_bind (call_each (\<lambda>s. map_option snd (map_of (cp_instr_info_map s) h))
                (call_base env (\<lambda>u. b_on_tick u pmd)) stgs
                (s1\<lparr>cp_instr_info_map := AList.update h (info\<lparr>lst_tick := last_tick_of pmd\<rparr>, stgs)
                      (cp_instr_info_map s1)\<rparr>)) (\<lambda>s2.
              proc_bars_on_tick env pmd [0..<length (cp_subs_bar_info s2)] s2)))"

definition CStrategyProcess_on_time ::
    "('h, 'm, 'u) proc_env \<Rightarrow> int \<Rightarrow> ('h, 'm, 'u) stg_process \<Rightarrow> ('h, 'm, 'u) stg_process res" where
  "CStrategyProcess_on_time env nano s =
     call_each cp_strategy_list (call_base env (\<lambda>u. b_on_time u nano)) (cp_strategy_list s)
       (s\<lparr>cp_td := tdo_on_time (pe_td env) nano (cp_td s)\<rparr>)"

definition proc_order_track ::
    "('h, 'm, 'u) proc_env \<Rightarrow> int \<Rightarrow> ('h, 'm, 'u) stg_process \<Rightarrow> order_track res" where
  "proc_order_track env idx s =
     (let ts = tdo_order_track (pe_td env) (cp_td s) in
      if 0 \<le> idx \<and> nat idx < length ts then Inr (ts ! nat idx) else Inl OutOfRange)"

text \<open>A report goes to the strategy whose number its order carries: \<^verbatim>\<open>strategy_list_[stg_id]\<close>, unchecked.\<close>

definition CStrategyProcess_on_rtn ::
    "('h, 'm, 'u) proc_env \<Rightarrow> rtn_msg \<Rightarrow> ('h, 'm, 'u) stg_process \<Rightarrow> ('h, 'm, 'u) stg_process res" where
  "CStrategyProcess_on_rtn env prtn s =
     res_bind (proc_order_track env (rm_local_id prtn) s) (\<lambda>t.
       let id = ot_stg_id t in
       if \<not> (0 \<le> id \<and> nat id < length (cp_strategy_list s)) then Inl OutOfRange
       else
         (let k = cp_strategy_list s ! nat id in
          res_bind (risk_of k s) (\<lambda>r.
          res_bind (RiskStg_onRtn (tb_instr_info (cp_base s)) t prtn r) (\<lambda>r1.
            call_base env (\<lambda>u. b_on_rtn u prtn) k (put_risk k r1 s)))))"

section \<open>Day switch and event loop\<close>

text \<open>The part of the day switch for one strategy, where the day is newer than the last one saved.\<close>

definition switch_strategy ::
    "('h, 'm, 'u) proc_env \<Rightarrow> string \<Rightarrow> nat \<Rightarrow> ('h, 'm, 'u) stg_process \<Rightarrow> ('h, 'm, 'u) stg_process res" where
  "switch_strategy env day k s =
     res_bind (risk_of k s) (\<lambda>r.
     res_bind (RiskStg_save (pe_files env) (cp_acc_save_day s) False r (cp_disk s)) (\<lambda>(_, d).
       let s1 = s\<lparr>cp_disk := d\<rparr> in
       res_bind (if cp_trading_day s1 \<noteq> []
                 then res_bind (RiskStg_onSwitchDay r) (\<lambda>r1. Inr (put_risk k r1 s1))
                 else Inr s1)
         (call_base env (\<lambda>u. b_on_switch_day u day) k)))"

definition CStrategyProcess_pre_on_switch_day ::
    "('h, 'm, 'u) proc_env \<Rightarrow> string \<Rightarrow> ('h, 'm, 'u) stg_process \<Rightarrow> ('h, 'm, 'u) stg_process res" where
  "CStrategyProcess_pre_on_switch_day env day s =
     res_bind (CStrategyProcess_barOnFinish env s) (\<lambda>s1.
       let s2 = s1\<lparr>cp_md := mdo_clearMap (pe_md env) (cp_md s1),
                   cp_td := tdo_on_switch_day (pe_td env) day (cp_td s1),
                   cp_instr_info_map := [], cp_subs_bar_info := [],
                   cp_acc_save_day := (if cp_acc_save_day s1 = [] then day else cp_acc_save_day s1)\<rparr>
       in res_bind (if cp_acc_save_day s2 < day
                    then call_each cp_strategy_list (switch_strategy env day) (cp_strategy_list s2) s2
                    else Inr s2) (\<lambda>s3.
            Inr (s3\<lparr>cp_trading_day := day,
                    cp_acc_save_day := (if cp_acc_save_day s3 < day then day else cp_acc_save_day s3)\<rparr>)))"

text \<open>One round; \<open>read\<close> is \<^verbatim>\<open>p_md_helper_->read\<close>, which may switch the day.\<close>

definition CStrategyProcess_round ::
    "('h, 'm, 'u) proc_env \<Rightarrow> (('h, 'm, 'u) stg_process \<Rightarrow> (market_data option \<times> ('h, 'm, 'u) stg_process) res) \<Rightarrow>
     cycle_in \<Rightarrow> ('h, 'm, 'u) stg_process \<Rightarrow> ('h, 'm, 'u) stg_process res" where
  "CStrategyProcess_round env read inp s =
     res_bind (read s) (\<lambda>(pmd, s1).
     res_bind (case pmd of None \<Rightarrow> Inr s1 | Some u \<Rightarrow> CStrategyProcess_on_tick env u s1) (\<lambda>s2.
     case tdo_getRtn (pe_td env) (cp_td s2) of (prtn, td) \<Rightarrow>
       (let s3 = s2\<lparr>cp_td := td\<rparr> in
        res_bind (case prtn of None \<Rightarrow> Inr s3 | Some m \<Rightarrow> CStrategyProcess_on_rtn env m s3) (\<lambda>s4.
        if pmd = None \<and> prtn = None then CStrategyProcess_on_time env (ci_nano inp) s4 else Inr s4))))"

definition proc_flags :: "cycle_in \<Rightarrow> ('h, 'm, 'u) stg_process \<Rightarrow> ('h, 'm, 'u) stg_process" where
  "proc_flags inp s =
     s\<lparr>cp_is_exit := (cp_is_exit s \<or> ci_stop inp),
       cp_do_trade := (case ci_do_trade inp of None \<Rightarrow> cp_do_trade s | Some b \<Rightarrow> b)\<rparr>"

text \<open>The loop, with one input for every round it may take.\<close>

fun proc_loop ::
    "('h, 'm, 'u) proc_env \<Rightarrow> (('h, 'm, 'u) stg_process \<Rightarrow> (market_data option \<times> ('h, 'm, 'u) stg_process) res) \<Rightarrow>
     cycle_in list \<Rightarrow> ('h, 'm, 'u) stg_process \<Rightarrow> ('h, 'm, 'u) stg_process res" where
  "proc_loop env read [] s = (if cp_is_exit s then Inr s else Inl OutOfFuel)"
| "proc_loop env read (inp # ins) s =
     (if cp_is_exit s then Inr s
      else res_bind (CStrategyProcess_round env read inp (proc_flags inp s)) (proc_loop env read ins))"

definition CStrategyProcess_run ::
    "('h, 'm, 'u) proc_env \<Rightarrow> (('h, 'm, 'u) stg_process \<Rightarrow> (market_data option \<times> ('h, 'm, 'u) stg_process) res) \<Rightarrow>
     cycle_in list \<Rightarrow> ('h, 'm, 'u) stg_process \<Rightarrow> ('h, 'm, 'u) stg_process res" where
  "CStrategyProcess_run env read ins s =
     res_bind (CStrategyProcess_pre_on_switch_day env (tb_trading_day (cp_base s)) s) (\<lambda>s1.
     res_bind (proc_loop env read ins (s1\<lparr>cp_is_exit := False\<rparr>)) (CStrategyProcess_barOnFinish env))"

text \<open>\<^verbatim>\<open>release\<close>: the accounts that exist are saved, the lists are emptied.\<close>

fun save_each ::
    "('h, 'm, 'u) proc_env \<Rightarrow> nat list \<Rightarrow> ('h, 'm, 'u) stg_process \<Rightarrow> ('h, 'm, 'u) stg_process res" where
  "save_each env [] s = Inr s"
| "save_each env (k # ks) s =
     (if \<not> k < length (cp_objs s) then Inl DanglingDeref
      else case sb_risk (cp_objs s ! k) of
        None \<Rightarrow> save_each env ks s
      | Some r \<Rightarrow>
          res_bind (RiskStg_save (pe_files env) (cp_acc_save_day s) True r (cp_disk s))
            (\<lambda>(_, d). save_each env ks (s\<lparr>cp_disk := d\<rparr>)))"

definition CStrategyProcess_release ::
    "('h, 'm, 'u) proc_env \<Rightarrow> ('h, 'm, 'u) stg_process \<Rightarrow> ('h, 'm, 'u) stg_process res" where
  "CStrategyProcess_release env s =
     res_bind (if cp_trading_day s \<noteq> [] \<and> cp_acc_save_day s \<le> cp_trading_day s
               then save_each env (cp_strategy_list s) s else Inr s) (\<lambda>s1.
       Inr (s1\<lparr>cp_strategy_list := [], cp_instr_info_map := []\<rparr>))"

end
