(* ===== verification/Process_Inv.thy ===== *)
theory Process_Inv
  imports Stg_Inv Stg_Process
begin

text \<open>
  A trading day of a process with several strategies. The helper is shared; an order carries the number
  of its strategy (\<open>routed_helper\<close>, an extension of \<open>order_helper\<close>), and the account of a strategy is held
  against the orders with its number: \<open>proc_inv\<close> is the invariant of \<open>Stg_Inv\<close> once for every strategy.

  As there, the strategies are arbitrary programs that ask for what the risk control can judge and
  start no bars during the day. They may subscribe at any time: the loop over the strategies of an
  instrument survives that, because the strategy that runs is one of them (\<open>keeps_entries\<close>).
\<close>

section \<open>The orders of a strategy\<close>

lemma filter_update:
  assumes "k < length xs" "P (xs ! k)" "P x"
  shows "filter P (xs[k := x]) = (filter P xs)[length (filter P (take k xs)) := x]"
    "length (filter P (take k xs)) < length (filter P xs)"
    "filter P xs ! length (filter P (take k xs)) = xs ! k"
proof -
  have xs: "xs = take k xs @ xs ! k # drop (Suc k) xs" by (rule id_take_nth_drop [OF assms(1)])
  then have f: "filter P xs = filter P (take k xs) @ xs ! k # filter P (drop (Suc k) xs)"
    using assms(2) by (metis filter.simps(2) filter_append)
  show "filter P (xs[k := x]) = (filter P xs)[length (filter P (take k xs)) := x]"
    unfolding f upd_conv_take_nth_drop [OF assms(1)] using assms(3) by (simp add: list_update_append)
  show "length (filter P (take k xs)) < length (filter P xs)"
    "filter P xs ! length (filter P (take k xs)) = xs ! k" unfolding f by simp_all
qed

lemma filter_update_other:
  assumes "k < length xs" "\<not> P (xs ! k)" "\<not> P x"
  shows "filter P (xs[k := x]) = filter P xs"
  using assms(2,3) id_take_nth_drop [OF assms(1)] unfolding upd_conv_take_nth_drop [OF assms(1)]
  by (metis filter.simps(2) filter_append)

lemma tracks_of_snoc: "tracks_of i (ts @ [t]) = tracks_of i ts @ (if ot_stg_id t = i then [t] else [])"
  by (simp add: tracks_of_def)

definition same_stgs :: "order_track list \<Rightarrow> order_track list \<Rightarrow> bool" where
  "same_stgs ts us \<longleftrightarrow> (\<forall>i. list_all2 same_life (tracks_of i ts) (tracks_of i us)) \<and>
     ot_stg_id ` set us = ot_stg_id ` set ts"

lemma same_stgsI:
  assumes "list_all2 same_life ts us" "map ot_stg_id us = map ot_stg_id ts"
  shows "same_stgs ts us"
proof -
  have "list_all2 same_life (tracks_of i ts) (tracks_of i us)" for i
    using assms by (induction rule: list_all2_induct) (auto simp: tracks_of_def)
  moreover have "ot_stg_id ` set us = ot_stg_id ` set ts" using arg_cong [OF assms(2), of set] by simp
  ultimately show ?thesis by (simp add: same_stgs_def)
qed

lemma same_stgs_refl [simp]: "same_stgs ts ts"
  by (rule same_stgsI) (simp_all add: list_all2_refl)

lemma track_rtn_stg [simp]: "ot_stg_id (track_rtn m t) = ot_stg_id t"
  by (simp add: track_rtn_def Let_def)

section \<open>The contract of the helper\<close>

locale routed_helper = order_helper +
  assumes send_stg: "hinv h \<Longrightarrow> dir_known dir \<Longrightarrow> 0 < vol \<Longrightarrow>
      tdo_sendOrder ops instr price vol dir off acc_id stgid hash h = Inr (ret, h1) \<Longrightarrow>
      tdo_order_track ops h1 = tdo_order_track ops h @ [t] \<Longrightarrow> ot_stg_id t = stgid"
    and delete_stg: "hinv h \<Longrightarrow> tdo_deleteOrder ops order_id h = Inr (ret, h1) \<Longrightarrow>
      map ot_stg_id (tdo_order_track ops h1) = map ot_stg_id (tdo_order_track ops h)"

section \<open>The invariant\<close>

text \<open>Strategy \<open>i\<close>, the object \<open>b\<close>, follows the orders with its number.\<close>

definition strategy_ok ::
    "trade_base \<Rightarrow> (nat \<Rightarrow> u32 \<Rightarrow> int) \<Rightarrow> order_track list \<Rightarrow> nat \<Rightarrow> 'u base_stg \<Rightarrow> bool" where
  "strategy_ok base start ts i b \<longleftrightarrow>
     sb_self_id b = int i \<and> (\<exists>r. sb_risk b = Some r \<and> orders_inv base (start i) (tracks_of (int i) ts) r)"

definition listed :: "nat list \<Rightarrow> ('h, 'm, 'u) stg_process \<Rightarrow> bool" where
  "listed ks s \<longleftrightarrow> set ks \<subseteq> set (cp_strategy_list s)"

definition proc_inv ::
    "'h td_ops \<Rightarrow> ('h \<Rightarrow> bool) \<Rightarrow> (nat \<Rightarrow> u32 \<Rightarrow> int) \<Rightarrow> ('h, 'm, 'u) stg_process \<Rightarrow> bool" where
  "proc_inv ops hinv start s \<longleftrightarrow>
     hinv (cp_td s) \<and> distinct (cp_strategy_list s) \<and>
     (\<forall>k \<in> set (cp_strategy_list s). k < length (cp_objs s)) \<and>
     (\<forall>i < length (cp_strategy_list s). strategy_ok (cp_base s) start (tdo_order_track ops (cp_td s)) i
        (cp_objs s ! (cp_strategy_list s ! i))) \<and>
     (\<forall>t \<in> set (tdo_order_track ops (cp_td s)).
        0 \<le> ot_stg_id t \<and> nat (ot_stg_id t) < length (cp_strategy_list s)) \<and>
     (\<forall>h info ks. map_of (cp_instr_info_map s) h = Some (info, ks) \<longrightarrow>
        map_of (tb_instr_info (cp_base s)) h = Some (base_info info) \<and> listed ks s) \<and>
     (\<forall>b \<in> set (cp_subs_bar_info s). listed (snd b) s)"

lemma proc_invD:
  assumes "proc_inv ops hinv start s"
  shows "hinv (cp_td s)" "distinct (cp_strategy_list s)"
    "k \<in> set (cp_strategy_list s) \<Longrightarrow> k < length (cp_objs s)"
    "i < length (cp_strategy_list s) \<Longrightarrow> strategy_ok (cp_base s) start (tdo_order_track ops (cp_td s)) i
        (cp_objs s ! (cp_strategy_list s ! i))"
    "t \<in> set (tdo_order_track ops (cp_td s)) \<Longrightarrow> 0 \<le> ot_stg_id t \<and> nat (ot_stg_id t) < length (cp_strategy_list s)"
    "map_of (cp_instr_info_map s) h = Some (info, ks) \<Longrightarrow> map_of (tb_instr_info (cp_base s)) h = Some (base_info info)"
    "map_of (cp_instr_info_map s) h = Some (info, ks) \<Longrightarrow> listed ks s"
    "b \<in> set (cp_subs_bar_info s) \<Longrightarrow> listed (snd b) s"
  using assms unfolding proc_inv_def by blast+

lemma proc_inv_frame [simp]:
  "proc_inv ops hinv start (s\<lparr>cp_md := x1\<rparr>) = proc_inv ops hinv start s"
  "proc_inv ops hinv start (s\<lparr>cp_is_exit := x2\<rparr>) = proc_inv ops hinv start s"
  "proc_inv ops hinv start (s\<lparr>cp_do_trade := x3\<rparr>) = proc_inv ops hinv start s"
  "proc_inv ops hinv start (s\<lparr>cp_bar_helper := x4\<rparr>) = proc_inv ops hinv start s"
  by (simp_all add: proc_inv_def listed_def)

text \<open>The number of a strategy and its object.\<close>

lemma strategy_at:
  assumes "proc_inv ops hinv start s" "k \<in> set (cp_strategy_list s)"
  obtains i r where "i < length (cp_strategy_list s)" "cp_strategy_list s ! i = k" "k < length (cp_objs s)"
    "sb_self_id (cp_objs s ! k) = int i" "sb_risk (cp_objs s ! k) = Some r" "risk_of k s = Inr r"
    "orders_inv (cp_base s) (start i) (tracks_of (int i) (tdo_order_track ops (cp_td s))) r"
proof -
  from assms(2) obtain i where i: "i < length (cp_strategy_list s)" "cp_strategy_list s ! i = k"
    by (auto simp: in_set_conv_nth)
  from proc_invD(4) [OF assms(1) i(1)] proc_invD(3) [OF assms] i that show thesis
    by (auto simp: strategy_ok_def risk_of_def)
qed

text \<open>A step of strategy \<open>i\<close>: its account and its orders move, the orders of the others live on as they were.\<close>

lemma proc_inv_step:
  assumes inv: "proc_inv ops hinv start s" and i: "i < length (cp_strategy_list s)" "cp_strategy_list s ! i = k"
    and td: "hinv td" "\<And>j. j \<noteq> int i \<Longrightarrow>
      list_all2 same_life (tracks_of j (tdo_order_track ops (cp_td s))) (tracks_of j (tdo_order_track ops td))"
    and ids: "\<And>t. t \<in> set (tdo_order_track ops td) \<Longrightarrow> 0 \<le> ot_stg_id t \<and> nat (ot_stg_id t) < length (cp_strategy_list s)"
    and r: "orders_inv (cp_base s) (start i) (tracks_of (int i) (tdo_order_track ops td)) r"
  shows "proc_inv ops hinv start (put_risk k r (s\<lparr>cp_td := td\<rparr>))"
proof -
  note D = proc_invD [OF inv]
  let ?ls = "cp_strategy_list s" and ?ts = "tdo_order_track ops td"
  let ?objs = "(cp_objs s)[k := (cp_objs s ! k)\<lparr>sb_risk := Some r\<rparr>]"
  have k: "k < length (cp_objs s)" using D(3) [of k] i by auto
  have "strategy_ok (cp_base s) start ?ts j (?objs ! (?ls ! j))" if j: "j < length ?ls" for j
  proof (cases "j = i")
    case True
    with D(4) [OF i(1)] i(2) k r show ?thesis by (simp add: strategy_ok_def)
  next
    case False
    then have "?ls ! j \<noteq> k" using D(2) i j by (auto simp: nth_eq_iff_index_eq)
    with D(4) [OF j] False td(2) [of "int j"] orders_inv_same_life show ?thesis
      by (fastforce simp: strategy_ok_def)
  qed
  with D td(1) ids show ?thesis
    by (auto simp: proc_inv_def put_risk_def upd_obj_def listed_def)
qed

lemma proc_inv_td:
  assumes inv: "proc_inv ops hinv start s" and td: "hinv td"
    "same_stgs (tdo_order_track ops (cp_td s)) (tdo_order_track ops td)"
  shows "proc_inv ops hinv start (s\<lparr>cp_td := td\<rparr>)"
proof -
  note D = proc_invD [OF inv]
  have "strategy_ok (cp_base s) start (tdo_order_track ops td) i (cp_objs s ! (cp_strategy_list s ! i))"
    if "i < length (cp_strategy_list s)" for i
    using D(4) [OF that] td(2) orders_inv_same_life by (fastforce simp: strategy_ok_def same_stgs_def)
  moreover have "0 \<le> ot_stg_id t \<and> nat (ot_stg_id t) < length (cp_strategy_list s)"
    if "t \<in> set (tdo_order_track ops td)" for t
  proof -
    from that td(2) have "ot_stg_id t \<in> ot_stg_id ` set (tdo_order_track ops (cp_td s))"
      by (auto simp: same_stgs_def)
    with D(5) show ?thesis by auto
  qed
  ultimately show ?thesis using D td(1) by (simp add: proc_inv_def listed_def)
qed

text \<open>Only the account of a strategy moves, or only its own state.\<close>

lemma proc_inv_risk:
  assumes "proc_inv ops hinv start s" "i < length (cp_strategy_list s)" "cp_strategy_list s ! i = k"
    "orders_inv (cp_base s) (start i) (tracks_of (int i) (tdo_order_track ops (cp_td s))) r"
  shows "proc_inv ops hinv start (put_risk k r s)"
  using proc_inv_step [OF assms(1-3), of "cp_td s" r] assms(4) proc_invD(1,5) [OF assms(1)]
  by (simp add: list_all2_refl)

lemma nth_update_here: "xs[k := x] ! n = (if n = k \<and> k < length xs then x else xs ! n)"
  by (cases "n = k \<and> k < length xs") (auto simp: list_update_beyond)

lemma proc_inv_user:
  "proc_inv ops hinv start s \<Longrightarrow> proc_inv ops hinv start (upd_obj k (\<lambda>b. b\<lparr>sb_user := u\<rparr>) s)"
proof -
  assume inv: "proc_inv ops hinv start s"
  have "sb_self_id ((cp_objs s)[k := (cp_objs s ! k)\<lparr>sb_user := u\<rparr>] ! n) = sb_self_id (cp_objs s ! n)"
    "sb_risk ((cp_objs s)[k := (cp_objs s ! k)\<lparr>sb_user := u\<rparr>] ! n) = sb_risk (cp_objs s ! n)" for n
    using nth_update_here [of "cp_objs s" k "(cp_objs s ! k)\<lparr>sb_user := u\<rparr>" n] by simp_all
  with inv show ?thesis by (simp add: proc_inv_def upd_obj_def listed_def strategy_ok_def)
qed

text \<open>What the steps of a callback leave alone.\<close>

definition proc_keeps :: "('h, 'm, 'u) stg_process \<Rightarrow> ('h, 'm, 'u) stg_process \<Rightarrow> bool" where
  "proc_keeps s t \<longleftrightarrow>
     cp_strategy_list t = cp_strategy_list s \<and> cp_subs_bar_info t = cp_subs_bar_info s \<and>
     length (cp_objs t) = length (cp_objs s) \<and> cp_base t = cp_base s"

lemma proc_keeps_refl [simp]: "proc_keeps s s"
  by (simp add: proc_keeps_def)

lemma proc_keeps_trans: "proc_keeps s t \<Longrightarrow> proc_keeps t u \<Longrightarrow> proc_keeps s u"
  by (simp add: proc_keeps_def)

lemma proc_keeps_upd [simp]:
  "proc_keeps s (put_risk k r t) = proc_keeps s t" "proc_keeps s (upd_obj k f t) = proc_keeps s t"
  "proc_keeps s (t\<lparr>cp_td := x1\<rparr>) = proc_keeps s t" "proc_keeps s (t\<lparr>cp_md := x2\<rparr>) = proc_keeps s t"
  "proc_keeps s (t\<lparr>cp_is_exit := x3\<rparr>) = proc_keeps s t" "proc_keeps s (t\<lparr>cp_instr_info_map := x4\<rparr>) = proc_keeps s t"
  by (simp_all add: proc_keeps_def put_risk_def upd_obj_def)

lemma risk_of_frame [simp]:
  "risk_of k (s\<lparr>cp_instr_info_map := x1\<rparr>) = risk_of k s" "risk_of k (s\<lparr>cp_td := x2\<rparr>) = risk_of k s"
  by (simp_all add: risk_of_def)

section \<open>Programs\<close>

definition legal_base :: "('s, 'u) base_slots \<Rightarrow> bool" where
  "legal_base u \<longleftrightarrow>
     (\<forall>pmd x. legal_prog (b_on_tick u pmd x)) \<and> (\<forall>b x. legal_prog (b_on_bar u b x)) \<and>
     (\<forall>m x. legal_prog (b_on_rtn u m x)) \<and> (\<forall>n x. legal_prog (b_on_time u n x))"

lemma legal_baseD:
  assumes "legal_base u"
  shows "legal_prog (b_on_tick u pmd x)" "legal_prog (b_on_bar u b x)"
    "legal_prog (b_on_rtn u m x)" "legal_prog (b_on_time u n x)"
  using assms by (simp_all add: legal_base_def)

text \<open>The strategies of an instrument stay the same while one of them runs.\<close>

definition keeps_entries :: "nat \<Rightarrow> ('h, 'm, 'u) stg_process \<Rightarrow> ('h, 'm, 'u) stg_process \<Rightarrow> bool" where
  "keeps_entries k s t \<longleftrightarrow>
     (\<forall>h info ks. map_of (cp_instr_info_map s) h = Some (info, ks) \<longrightarrow> k \<in> set ks \<longrightarrow>
        (\<exists>info'. map_of (cp_instr_info_map t) h = Some (info', ks)))"

lemma keeps_entries_same: "cp_instr_info_map t = cp_instr_info_map s \<Longrightarrow> keeps_entries k s t"
  by (simp add: keeps_entries_def)

lemma keeps_entries_trans: "keeps_entries k s t \<Longrightarrow> keeps_entries k t u \<Longrightarrow> keeps_entries k s u"
  unfolding keeps_entries_def by metis

text \<open>A step by strategy \<open>k\<close> that went well.\<close>

definition proc_done ::
    "'h td_ops \<Rightarrow> ('h \<Rightarrow> bool) \<Rightarrow> (nat \<Rightarrow> u32 \<Rightarrow> int) \<Rightarrow> ('h, 'm, 'u) stg_process \<Rightarrow> ('h, 'm, 'u) stg_process \<Rightarrow> bool" where
  "proc_done ops hinv start s t \<longleftrightarrow> proc_inv ops hinv start t \<and> proc_keeps s t"

lemma proc_done_trans:
  "proc_done ops hinv start s t \<Longrightarrow> proc_done ops hinv start t u \<Longrightarrow> proc_done ops hinv start s u"
  using proc_keeps_trans by (auto simp: proc_done_def)

lemma proc_subscribe_loop_ok:
  assumes "proc_inv ops hinv start s" "k \<in> set (cp_strategy_list s)"
    and "\<And>i. i \<in> set names \<Longrightarrow> \<exists>info. map_of (tb_instr_info (cp_base s)) (INSTR_NAME_TO_HASH i) = Some info \<and>
      ii_instr info = i"
  shows "\<exists>ok t. proc_subscribe_loop k names s = Inr (ok, t) \<and> proc_done ops hinv start s t \<and> keeps_entries k s t"
  using assms
proof (induction names arbitrary: s)
  case (Cons i ls)
  let ?h = "INSTR_NAME_TO_HASH i" and ?tb = "tb_instr_info (cp_base s)"
  note D = proc_invD [OF Cons.prems(1)]
  obtain info where info: "map_of ?tb ?h = Some info" "ii_instr info = i" using Cons.prems(3) by auto
  have touch: "touch_info ?h (cp_base s) = (info, cp_base s)" using info(1) by (simp add: touch_info_def)
  have registered: "\<exists>ok t. proc_subscribe_loop k (i # ls) s = Inr (ok, t) \<and> proc_done ops hinv start s t \<and>
      keeps_entries k s t"
    if v: "map_of ?tb ?h = Some (base_info (fst v))" "listed (snd v) s"
      and new: "\<And>info ks. map_of (cp_instr_info_map s) ?h = Some (info, ks) \<Longrightarrow> k \<notin> set ks"
      and step: "\<And>r ok r1. risk_of k s = Inr r \<Longrightarrow> RiskStg_regInstr ?tb i r = Inr (ok, r1) \<Longrightarrow>
        proc_subscribe_loop k (i # ls) s =
          (let t = put_risk k r1 (s\<lparr>cp_instr_info_map := AList.update ?h v (cp_instr_info_map s)\<rparr>)
           in if \<not> ok then Inr (False, t) else proc_subscribe_loop k ls t)" for v
  proof -
    let ?s1 = "s\<lparr>cp_instr_info_map := AList.update ?h v (cp_instr_info_map s)\<rparr>"
    have inv1: "proc_inv ops hinv start ?s1"
      using Cons.prems(1) v by (auto simp: proc_inv_def listed_def split: if_splits)
    obtain n r where n: "n < length (cp_strategy_list s)" "cp_strategy_list s ! n = k" "risk_of k s = Inr r"
      "orders_inv (cp_base s) (start n) (tracks_of (int n) (tdo_order_track ops (cp_td s))) r"
      by (rule strategy_at [OF Cons.prems(1,2)])
    from orders_inv_reg [OF n(4) info(1)] info(2) obtain ok r1 where
      r1: "RiskStg_regInstr ?tb i r = Inr (ok, r1)"
        "orders_inv (cp_base s) (start n) (tracks_of (int n) (tdo_order_track ops (cp_td s))) r1" by auto
    let ?t = "put_risk k r1 ?s1"
    have inv2: "proc_inv ops hinv start ?t"
      by (rule proc_inv_risk [OF inv1]) (use n r1(2) in simp_all)
    have keeps: "proc_keeps s ?t" by simp
    then have "k \<in> set (cp_strategy_list ?t)" "cp_base ?t = cp_base s"
      using Cons.prems(2) by (simp_all add: proc_keeps_def)
    with Cons.IH [OF inv2] Cons.prems(3) obtain ok2 u where
      u: "proc_subscribe_loop k ls ?t = Inr (ok2, u)" "proc_done ops hinv start ?t u" "keeps_entries k ?t u" by auto
    have t: "proc_done ops hinv start s ?t" using inv2 keeps by (simp add: proc_done_def)
    have e: "keeps_entries k s ?t" using new by (auto simp: keeps_entries_def put_risk_def upd_obj_def)
    show ?thesis
      unfolding step [OF n(3) r1(1)] Let_def
      using u t e proc_done_trans [OF t u(2)] keeps_entries_trans [OF e u(3)] by (cases ok) auto
  qed
  have single: "listed [k] s" using Cons.prems(2) by (simp add: listed_def)
  show ?case
  proof (cases "map_of (cp_instr_info_map s) ?h")
    case None
    show ?thesis
      by (rule registered [of "(\<lparr>base_info = info, lst_tick = last_tick_init\<rparr>, [k])"])
        (use None info single touch in \<open>simp_all add: Let_def\<close>)
  next
    case (Some v)
    obtain b ks where v: "v = (b, ks)" by (cases v)
    note D' = D(6,7) [OF Some [unfolded v]]
    show ?thesis
    proof (cases "k \<in> set ks")
      case True
      with Cons.IH [OF Cons.prems(1,2)] Cons.prems(3) Some v show ?thesis by simp
    next
      case False
      show ?thesis
        by (rule registered [of "(b, ks @ [k])"])
          (use D' single False Some v in \<open>simp_all add: Let_def listed_def\<close>)
    qed
  qed
qed (auto simp: proc_done_def keeps_entries_same)

lemma proc_subscribe_ok:
  assumes inv: "proc_inv ops hinv start s" and k: "k \<in> set (cp_strategy_list s)"
  shows "\<exists>ok t. CStrategyProcess_subscribe env k instruments s = Inr (ok, t) \<and> proc_done ops hinv start s t \<and>
    keeps_entries k s t"
proof -
  obtain ok md where md: "mdo_subscribe (pe_md env) (tb_instr_info (cp_base s)) (split_tokens [] instruments)
      (cp_md s) = (ok, md)" by fastforce
  obtain i r where "orders_inv (cp_base s) (start i) (tracks_of (int i) (tdo_order_track ops (cp_td s))) r"
    by (rule strategy_at [OF inv k])
  then have base: "base_ok (tb_instr_info (cp_base s))" using risk_invD(1) orders_invD(1) by blast
  let ?s1 = "s\<lparr>cp_md := md\<rparr>"
  have s1: "proc_done ops hinv start s ?s1" using inv by (simp add: proc_done_def)
  then have "proc_inv ops hinv start ?s1" by (simp add: proc_done_def)
  from proc_subscribe_loop_ok [OF this, of k "instr_set_list (split_tokens [] instruments)
      (tb_instr_info (cp_base s))"] instr_set_listed [OF base] k
  obtain ok1 t where "proc_subscribe_loop k (instr_set_list (split_tokens [] instruments)
      (tb_instr_info (cp_base s))) ?s1 = Inr (ok1, t)" "proc_done ops hinv start ?s1 t" "keeps_entries k ?s1 t" by auto
  moreover have "keeps_entries k s ?s1" by (simp add: keeps_entries_same)
  ultimately show ?thesis
    using proc_done_trans [OF s1] keeps_entries_trans [of k s ?s1 t] s1 md inv
    by (auto simp: CStrategyProcess_subscribe_def Let_def proc_done_def keeps_entries_same)
qed

context routed_helper begin

lemma proc_sendOrder_ok:
  assumes env: "pe_td env = ops" "2 \<le> pe_fuel env" and inv: "proc_inv ops hinv start s" and k: "k \<in> set (cp_strategy_list s)"
    and ask: "dir_known dir" "0 < vol" "off \<in> {AT_CHAR_Open, AT_CHAR_Auto, AT_CHAR_Close}"
  shows "\<exists>ret t. CStrategyBase_sendOrder env k h price vol dir off acc_idx s = Inr (ret, t) \<and>
    proc_done ops hinv start s t \<and> cp_instr_info_map t = cp_instr_info_map s"
proof (cases "cp_do_trade s \<and> um_has h (cp_instr_info_map s)")
  case False
  with inv show ?thesis
    by (cases "map_of (cp_instr_info_map s) h")
      (auto simp: CStrategyBase_sendOrder_def CStrategyProcess_getSubsInstrInfo_def um_has_def proc_done_def)
next
  case True
  then obtain sub ks where sub: "cp_do_trade s" "map_of (cp_instr_info_map s) h = Some (sub, ks)"
    by (auto simp: um_has_def)
  let ?tb = "tb_instr_info (cp_base s)" and ?ts = "tdo_order_track ops (cp_td s)"
  note D = proc_invD [OF inv]
  obtain i r0 where i: "i < length (cp_strategy_list s)" "cp_strategy_list s ! i = k" "k < length (cp_objs s)"
    "sb_self_id (cp_objs s ! k) = int i" "risk_of k s = Inr r0"
    "orders_inv (cp_base s) (start i) (tracks_of (int i) ?ts) r0"
    by (rule strategy_at [OF inv k])
  obtain ret off1 r where c:
    "RiskStg_check (pe_fuel env) ?tb dir off price vol sub r0 = Inr (ret, off1, r)"
    "orders_inv (cp_base s) (start i) (tracks_of (int i) ?ts) r"
    "ret = 0 \<Longrightarrow> \<exists>oid t td1 r1. tdo_sendOrder ops (ii_instr (base_info sub)) price vol dir off1 acc_idx (int i) h (cp_td s) =
         Inr (oid, td1) \<and> hinv td1 \<and> tdo_order_track ops td1 = ?ts @ [t] \<and>
       RiskStg_onNew ?tb dir off1 price vol h (lt_exch_time (lst_tick sub)) r = Inr r1 \<and>
       orders_inv (cp_base s) (start i) (tracks_of (int i) ?ts @ [t]) r1"
    using place_order [OF D(1) i(6) D(6) [OF sub(2)] env(2) ask] by blast
  show ?thesis
  proof (cases "ret = 0")
    case False
    have "CStrategyBase_sendOrder env k h price vol dir off acc_idx s = Inr (ret, put_risk k r s)"
      using sub i(5) c(1) False by (simp add: CStrategyBase_sendOrder_def CStrategyProcess_getSubsInstrInfo_def)
    with proc_inv_risk [OF inv i(1,2) c(2)] show ?thesis by (simp add: proc_done_def) (simp add: put_risk_def upd_obj_def)
  next
    case True
    with c(3) obtain oid t td1 r1 where
      t: "tdo_sendOrder ops (ii_instr (base_info sub)) price vol dir off1 acc_idx (int i) h (cp_td s) = Inr (oid, td1)"
      "hinv td1" "tdo_order_track ops td1 = ?ts @ [t]"
      "RiskStg_onNew ?tb dir off1 price vol h (lt_exch_time (lst_tick sub)) r = Inr r1"
      "orders_inv (cp_base s) (start i) (tracks_of (int i) ?ts @ [t]) r1" by blast
    have stg: "ot_stg_id t = int i" by (rule send_stg [OF D(1) ask(1,2) t(1,3)])
    have "proc_inv ops hinv start (put_risk k r1 (s\<lparr>cp_td := td1\<rparr>))"
      by (rule proc_inv_step [OF inv i(1,2) t(2)])
        (use t(3,5) stg D(5) i(1) in \<open>auto simp: tracks_of_snoc list_all2_refl\<close>)
    moreover have "CStrategyBase_sendOrder env k h price vol dir off acc_idx s =
        Inr (oid, put_risk k r1 (s\<lparr>cp_td := td1\<rparr>))"
      using sub i(4,5) c(1) True t env(1)
      by (simp add: CStrategyBase_sendOrder_def CStrategyProcess_getSubsInstrInfo_def)
    ultimately show ?thesis by (simp add: proc_done_def) (simp add: put_risk_def upd_obj_def)
  qed
qed

lemma proc_cancelOrder_ok:
  assumes env: "pe_td env = ops" and inv: "proc_inv ops hinv start s"
  shows "\<exists>ret t. CStrategyProcess_cancelOrder env order_id s = Inr (ret, t) \<and>
    proc_done ops hinv start s t \<and> cp_instr_info_map t = cp_instr_info_map s"
proof -
  note D = proc_invD [OF inv]
  obtain ret td where td: "tdo_deleteOrder ops order_id (cp_td s) = Inr (ret, td)" "hinv td"
    "list_all2 same_life (tdo_order_track ops (cp_td s)) (tdo_order_track ops td)"
    using delete_ok [OF D(1)] by blast
  from proc_inv_td [OF inv td(2) same_stgsI [OF td(3) delete_stg [OF D(1) td(1)]]] td(1) env show ?thesis
    by (simp add: CStrategyProcess_cancelOrder_def proc_done_def)
qed

lemma run_base_prog_ok:
  assumes env: "pe_td env = ops" "2 \<le> pe_fuel env"
  shows "legal_prog p \<Longrightarrow> proc_inv ops hinv start s \<Longrightarrow> k \<in> set (cp_strategy_list s) \<Longrightarrow>
    \<exists>t. run_base_prog env k p s = Inr t \<and> proc_done ops hinv start s t \<and>
      keeps_entries k s t"
proof (induction p arbitrary: s)
  case (Done u)
  then show ?case using proc_inv_user by (simp add: proc_done_def) (simp add: keeps_entries_def upd_obj_def)
next
  case (Look f)
  then show ?case by simp
next
  case (SendOrder h price vol dir off acc_idx f)
  then have ask: "dir_known dir" "0 < vol" "off \<in> {AT_CHAR_Open, AT_CHAR_Auto, AT_CHAR_Close}"
    and f: "\<And>ret. legal_prog (f ret)" by simp_all
  obtain ret s1 where s1: "CStrategyBase_sendOrder env k h price vol dir off acc_idx s = Inr (ret, s1)"
    "proc_done ops hinv start s s1" "cp_instr_info_map s1 = cp_instr_info_map s"
    using proc_sendOrder_ok [OF env SendOrder.prems(2,3) ask] by blast
  have inv1: "proc_inv ops hinv start s1" "k \<in> set (cp_strategy_list s1)"
    using s1(2) SendOrder.prems(3) by (simp_all add: proc_done_def proc_keeps_def)
  from SendOrder.IH [OF rangeI f inv1, of ret] s1(1) proc_done_trans [OF s1(2)]
    keeps_entries_trans [OF keeps_entries_same [OF s1(3)]] show ?case by fastforce
next
  case (CancelOrder order_id f)
  then have f: "\<And>ret. legal_prog (f ret)" by simp
  obtain ret s1 where s1: "CStrategyProcess_cancelOrder env order_id s = Inr (ret, s1)"
    "proc_done ops hinv start s s1" "cp_instr_info_map s1 = cp_instr_info_map s"
    using proc_cancelOrder_ok [OF env(1) CancelOrder.prems(2)] by blast
  have inv1: "proc_inv ops hinv start s1" "k \<in> set (cp_strategy_list s1)"
    using s1(2) CancelOrder.prems(3) by (simp_all add: proc_done_def proc_keeps_def)
  from CancelOrder.IH [OF rangeI f inv1, of ret] s1(1) proc_done_trans [OF s1(2)]
    keeps_entries_trans [OF keeps_entries_same [OF s1(3)]] show ?case by fastforce
next
  case (Subscribe instruments f)
  then have f: "\<And>ok. legal_prog (f ok)" by simp
  obtain ok s1 where s1: "CStrategyProcess_subscribe env k instruments s = Inr (ok, s1)"
    "proc_done ops hinv start s s1" "keeps_entries k s s1"
    using proc_subscribe_ok [OF Subscribe.prems(2,3)] by blast
  have inv1: "proc_inv ops hinv start s1" "k \<in> set (cp_strategy_list s1)"
    using s1(2) Subscribe.prems(3) by (simp_all add: proc_done_def proc_keeps_def)
  from Subscribe.IH [OF rangeI f inv1, of ok] s1(1) proc_done_trans [OF s1(2)] keeps_entries_trans [OF s1(3)] show ?case by fastforce
next
  case (Stop p)
  from Stop.IH [of "CStrategyProcess_stop s"] Stop.prems show ?case
    by (auto simp: CStrategyProcess_stop_def proc_done_def proc_keeps_def keeps_entries_def)
qed simp_all

text \<open>A loop over strategies of the list, whose vector the calls leave alone.\<close>

lemma call_each_ok:
  assumes step: "\<And>k s. k \<in> set ks \<Longrightarrow> proc_inv ops hinv start s \<Longrightarrow> k \<in> set (cp_strategy_list s) \<Longrightarrow> vec s = v \<Longrightarrow>
      \<exists>t. f k s = Inr t \<and> proc_done ops hinv start s t \<and> vec t = v"
  shows "proc_inv ops hinv start s \<Longrightarrow> listed ks s \<Longrightarrow> vec s = v \<Longrightarrow>
    \<exists>t. call_each vec f ks s = Inr t \<and> proc_done ops hinv start s t \<and> vec t = v"
  using step
proof (induction ks arbitrary: s)
  case (Cons k ks)
  have "k \<in> set (cp_strategy_list s)" using Cons.prems(2) by (simp add: listed_def)
  with Cons.prems(1,3,4) obtain t where t: "f k s = Inr t" "proc_done ops hinv start s t" "vec t = v"
    by fastforce
  have "proc_inv ops hinv start t" "listed ks t"
    using t(2) Cons.prems(2) by (auto simp: proc_done_def proc_keeps_def listed_def)
  from Cons.IH [OF this t(3)] Cons.prems(4) obtain u where
    "call_each vec f ks t = Inr u" "proc_done ops hinv start t u" "vec u = v" by auto
  with t Cons.prems(3) proc_done_trans [OF t(2) this(2)] show ?case by simp
qed (simp add: proc_done_def)

lemma call_base_ok:
  assumes env: "pe_td env = ops" "2 \<le> pe_fuel env" and inv: "proc_inv ops hinv start s" and k: "k \<in> set (cp_strategy_list s)"
    and legal: "\<And>x. legal_prog (f (pe_slots env k) x)"
  shows "\<exists>t. call_base env f k s = Inr t \<and> proc_done ops hinv start s t \<and> keeps_entries k s t"
  using run_base_prog_ok [OF env legal inv k] proc_invD(3) [OF inv k] by (fastforce simp: call_base_def)

section \<open>Bars\<close>

lemma proc_inv_maker:
  "proc_inv ops hinv start s \<Longrightarrow> n < length (cp_subs_bar_info s) \<Longrightarrow> proc_inv ops hinv start (put_maker n m s)"
  using set_update_subset_insert [of "cp_subs_bar_info s" n "(m, snd (cp_subs_bar_info s ! n))"]
  by (auto simp: proc_inv_def put_maker_def listed_def dest!: subsetD)

definition same_list :: "('h, 'm, 'u) stg_process \<Rightarrow> ('h, 'm, 'u) stg_process \<Rightarrow> bool" where
  "same_list s t \<longleftrightarrow> cp_strategy_list t = cp_strategy_list s \<and>
     length (cp_subs_bar_info t) = length (cp_subs_bar_info s)"

lemma proc_get_bars_ok:
  assumes env: "pe_td env = ops" "2 \<le> pe_fuel env" "\<And>k. legal_base (pe_slots env k)"
    and inv: "proc_inv ops hinv start s" and n: "n < length (cp_subs_bar_info s)"
  shows "\<exists>t. proc_get_bars (pe_fuel env) env n s = Inr t \<and> proc_inv ops hinv start t \<and> same_list s t"
proof -
  obtain fu where fu: "pe_fuel env = Suc (Suc fu)" using env(2) by (metis add_2_eq_Suc le_Suc_ex)
  obtain pbar m where g: "BarMaker_GetBar (fst (cp_subs_bar_info s ! n)) = (pbar, m)" by fastforce
  let ?s1 = "put_maker n m s"
  have inv1: "proc_inv ops hinv start ?s1" by (rule proc_inv_maker [OF inv n])
  have same1: "same_list s ?s1" by (simp add: same_list_def put_maker_def)
  show ?thesis
  proof (cases pbar)
    case None
    with g fu inv1 same1 show ?thesis by (simp add: Let_def)
  next
    case (Some b)
    let ?ks = "snd (cp_subs_bar_info ?s1 ! n)"
    have "cp_subs_bar_info ?s1 ! n \<in> set (cp_subs_bar_info ?s1)"
      using n by (intro nth_mem) (simp add: put_maker_def)
    from proc_invD(8) [OF inv1 this] have ks: "listed ?ks ?s1" .
    have "\<exists>t. call_base env (\<lambda>u. b_on_bar u b) k u = Inr t \<and> proc_done ops hinv start u t \<and> bar_shape t = bar_shape ?s1"
      if "k \<in> set ?ks" "proc_inv ops hinv start u" "k \<in> set (cp_strategy_list u)" "bar_shape u = bar_shape ?s1" for k u
    proof -
      from call_base_ok [OF env(1,2) that(2,3), of "\<lambda>u. b_on_bar u b"] legal_baseD(2) [OF env(3)] obtain t where
        t: "call_base env (\<lambda>u. b_on_bar u b) k u = Inr t" "proc_done ops hinv start u t" by blast
      then have "bar_shape t = bar_shape u" by (simp add: proc_done_def proc_keeps_def bar_shape_def)
      with t that(4) show ?thesis by auto
    qed
    from call_each_ok [where f = "call_base env (\<lambda>u. b_on_bar u b)" and vec = bar_shape, OF this inv1 ks refl] obtain t where
      t0: "call_each bar_shape (call_base env (\<lambda>u. b_on_bar u b)) ?ks ?s1 = Inr t" "proc_done ops hinv start ?s1 t" by blast
    then have t: "call_each bar_shape (call_base env (\<lambda>u. b_on_bar u b)) ?ks ?s1 = Inr t"
      "proc_inv ops hinv start t" "proc_keeps ?s1 t" unfolding proc_done_def by blast+
    have bars: "cp_subs_bar_info t = cp_subs_bar_info ?s1" using t(3) by (simp add: proc_keeps_def)
    have nt: "n < length (cp_subs_bar_info t)" using n bars by (simp add: put_maker_def)
    have "BarMaker_GetBar (fst (cp_subs_bar_info t ! n)) = (None, m)"
      using GetBar_again [OF g] n bars by (simp add: put_maker_def)
    with g fu Some t(1) have "proc_get_bars (pe_fuel env) env n s = Inr (put_maker n m t)" by (simp add: Let_def)
    moreover have "same_list s (put_maker n m t)"
      using same1 t(3) bars by (simp add: same_list_def proc_keeps_def put_maker_def)
    ultimately show ?thesis using proc_inv_maker [OF t(2) nt] by blast
  qed
qed

lemma proc_bars_on_tick_ok:
  assumes env: "pe_td env = ops" "2 \<le> pe_fuel env" "\<And>k. legal_base (pe_slots env k)"
  shows "proc_inv ops hinv start s \<Longrightarrow> \<forall>n \<in> set ns. n < length (cp_subs_bar_info s) \<Longrightarrow>
    \<exists>t. proc_bars_on_tick env pmd ns s = Inr t \<and> proc_inv ops hinv start t \<and> same_list s t"
proof (induction ns arbitrary: s)
  case (Cons n ns)
  obtain bh m where bh: "BarMaker_OnTick pmd (cp_bar_helper s, fst (cp_subs_bar_info s ! n)) = (bh, m)" by fastforce
  let ?s1 = "put_maker n m (s\<lparr>cp_bar_helper := bh\<rparr>)"
  have "proc_inv ops hinv start ?s1" by (rule proc_inv_maker) (use Cons.prems in simp_all)
  moreover have "n < length (cp_subs_bar_info ?s1)" using Cons.prems by (simp add: put_maker_def)
  ultimately obtain t where t: "proc_get_bars (pe_fuel env) env n ?s1 = Inr t" "proc_inv ops hinv start t" "same_list ?s1 t"
    using proc_get_bars_ok [OF env] by blast
  have same: "same_list s t" using t(3) by (simp add: same_list_def put_maker_def)
  then have "\<forall>n \<in> set ns. n < length (cp_subs_bar_info t)" using Cons.prems(2) by (simp add: same_list_def)
  from Cons.IH [OF t(2) this] bh t(1) same show ?case by (auto simp: same_list_def)
qed (simp add: same_list_def)

section \<open>Rounds of the event loop\<close>

lemma proc_on_tick_ok:
  assumes env: "pe_td env = ops" "2 \<le> pe_fuel env" "\<And>k. legal_base (pe_slots env k)"
    and inv: "proc_inv ops hinv start s"
  shows "\<exists>t. CStrategyProcess_on_tick env pmd s = Inr t \<and> proc_inv ops hinv start t \<and>
    cp_strategy_list t = cp_strategy_list s"
proof -
  note D = proc_invD [OF inv]
  let ?h = "md_instr_hash pmd"
  obtain td where td: "tdo_on_tick ops pmd (cp_td s) = Inr td" "hinv td"
    "tdo_order_track ops td = tdo_order_track ops (cp_td s)"
    using tick_ok [OF D(1)] by blast
  have inv1: "proc_inv ops hinv start (s\<lparr>cp_td := td\<rparr>)" by (rule proc_inv_td [OF inv td(2)]) (simp add: td(3))
  show ?thesis
  proof (cases "map_of (cp_instr_info_map s) ?h")
    case None
    with td(1) env(1) inv1 show ?thesis by (simp add: CStrategyProcess_on_tick_def Let_def)
  next
    case (Some v)
    obtain info ks where v: "v = (info, ks)" by (cases v)
    note D' = D(6,7) [OF Some [unfolded v]]
    let ?vec = "\<lambda>s. map_option snd (map_of (cp_instr_info_map s) ?h)"
    let ?s2 = "s\<lparr>cp_td := td, cp_instr_info_map := AList.update ?h (info\<lparr>lst_tick := last_tick_of pmd\<rparr>, ks)
        (cp_instr_info_map s)\<rparr>"
    have inv2: "proc_inv ops hinv start ?s2"
      using inv1 D' by (auto simp: proc_inv_def listed_def split: if_splits)
    have ks: "listed ks ?s2" using D'(2) by (simp add: listed_def)
    have "\<exists>t. call_base env (\<lambda>u. b_on_tick u pmd) k u = Inr t \<and> proc_done ops hinv start u t \<and> ?vec t = Some ks"
      if "k \<in> set ks" "proc_inv ops hinv start u" "k \<in> set (cp_strategy_list u)" "?vec u = Some ks" for k u
      using call_base_ok [OF env(1,2) that(2,3), of "\<lambda>u. b_on_tick u pmd"] legal_baseD(1) [OF env(3)] that(1,4)
      by (fastforce simp: keeps_entries_def)
    from call_each_ok [where f = "call_base env (\<lambda>u. b_on_tick u pmd)" and vec = ?vec, OF this inv2 ks] obtain t where
      t: "call_each ?vec (call_base env (\<lambda>u. b_on_tick u pmd)) ks ?s2 = Inr t" "proc_inv ops hinv start t"
      "cp_strategy_list t = cp_strategy_list s" by (auto simp: proc_done_def proc_keeps_def)
    from proc_bars_on_tick_ok [OF env t(2), of "[0..<length (cp_subs_bar_info t)]" pmd] td(1) t(1) Some v env(1)
    show ?thesis using t(3) by (auto simp: CStrategyProcess_on_tick_def Let_def same_list_def)
  qed
qed

lemma proc_on_time_ok:
  assumes env: "pe_td env = ops" "2 \<le> pe_fuel env" "\<And>k. legal_base (pe_slots env k)"
    and inv: "proc_inv ops hinv start s"
  shows "\<exists>t. CStrategyProcess_on_time env nano s = Inr t \<and> proc_inv ops hinv start t \<and>
    cp_strategy_list t = cp_strategy_list s"
proof -
  let ?s1 = "s\<lparr>cp_td := tdo_on_time ops nano (cp_td s)\<rparr>"
  have inv1: "proc_inv ops hinv start ?s1"
    by (rule proc_inv_td [OF inv]) (use time_ok [OF proc_invD(1) [OF inv]] in simp_all)
  have "\<exists>t. call_base env (\<lambda>u. b_on_time u nano) k u = Inr t \<and> proc_done ops hinv start u t \<and>
      cp_strategy_list t = cp_strategy_list s"
    if "k \<in> set (cp_strategy_list s)" "proc_inv ops hinv start u" "k \<in> set (cp_strategy_list u)"
      "cp_strategy_list u = cp_strategy_list s" for k u
    using call_base_ok [OF env(1,2) that(2,3), of "\<lambda>u. b_on_time u nano"] legal_baseD(4) [OF env(3)] that(4)
    by (fastforce simp: proc_done_def proc_keeps_def)
  from call_each_ok [where f = "call_base env (\<lambda>u. b_on_time u nano)" and vec = cp_strategy_list, OF this inv1,
    of "cp_strategy_list s"] env(1)
  show ?thesis by (auto simp: CStrategyProcess_on_time_def listed_def proc_done_def)
qed

lemma proc_on_rtn_ok:
  assumes env: "pe_td env = ops" "2 \<le> pe_fuel env" "\<And>k. legal_base (pe_slots env k)"
    and inv: "proc_inv ops hinv start s" and get: "tdo_getRtn ops (cp_td s) = (prtn, td)"
  shows "\<exists>t. (case prtn of None \<Rightarrow> Inr (s\<lparr>cp_td := td\<rparr>)
      | Some m \<Rightarrow> CStrategyProcess_on_rtn env m (s\<lparr>cp_td := td\<rparr>)) = Inr t \<and> proc_inv ops hinv start t \<and>
    cp_strategy_list t = cp_strategy_list s"
proof -
  note D = proc_invD [OF inv]
  let ?ts = "tdo_order_track ops (cp_td s)" and ?s = "s\<lparr>cp_td := td\<rparr>"
  show ?thesis
  proof (cases prtn)
    case None
    with rtn_ok [OF D(1)] get have "hinv td" "tdo_order_track ops td = ?ts" by auto
    with None proc_inv_td [OF inv] show ?thesis by simp
  next
    case (Some m)
    obtain n l where m: "hinv td" "rm_local_id m = int n" "n < length ?ts"
      "tdo_order_track ops td = ?ts[n := track_rtn m (?ts ! n)]"
      "life_step (ot_vol (?ts ! n)) m (life_of (?ts ! n)) = Some l"
      using rtn_ok [OF D(1)] get Some by auto
    let ?t = "track_rtn m (?ts ! n)" and ?id = "ot_stg_id (?ts ! n)"
    have id: "0 \<le> ?id" "nat ?id < length (cp_strategy_list s)" using D(5) [OF nth_mem [OF m(3)]] by simp_all
    let ?k = "cp_strategy_list s ! nat ?id"
    have k: "?k \<in> set (cp_strategy_list s)" using id(2) by simp
    let ?P = "\<lambda>t. ot_stg_id t = int (nat ?id)"
    let ?n = "length (tracks_of (int (nat ?id)) (take n ?ts))"
    note own = filter_update [of n ?ts ?P ?t, OF m(3), folded tracks_of_def]
    have own: "tracks_of (int (nat ?id)) (tdo_order_track ops td) = (tracks_of (int (nat ?id)) ?ts)[?n := ?t]"
      "?n < length (tracks_of (int (nat ?id)) ?ts)" "tracks_of (int (nat ?id)) ?ts ! ?n = ?ts ! n"
      using own id(1) m(4) by simp_all
    have others: "tracks_of j (tdo_order_track ops td) = tracks_of j ?ts" if "j \<noteq> int (nat ?id)" for j
      unfolding m(4) tracks_of_def by (rule filter_update_other [OF m(3)]) (use that id(1) in simp_all)
    have "strategy_ok (cp_base s) start ?ts (nat ?id) (cp_objs s ! ?k)" by (rule D(4) [OF id(2)])
    then obtain r where r: "sb_risk (cp_objs s ! ?k) = Some r"
      "orders_inv (cp_base s) (start (nat ?id)) (tracks_of (int (nat ?id)) ?ts) r" by (auto simp: strategy_ok_def)
    from orders_inv_report [OF r(2) own(2), unfolded own(3), OF m(5), folded own(1)] obtain r1 where
      r1: "RiskStg_onRtn (tb_instr_info (cp_base s)) ?t m r = Inr r1"
        "orders_inv (cp_base s) (start (nat ?id)) (tracks_of (int (nat ?id)) (tdo_order_track ops td)) r1" by blast
    have ids: "0 \<le> ot_stg_id u \<and> nat (ot_stg_id u) < length (cp_strategy_list s)"
      if "u \<in> set (tdo_order_track ops td)" for u
      using that set_update_subset_insert [of ?ts n ?t] D(5) id m(4) by auto
    have inv1: "proc_inv ops hinv start (put_risk ?k r1 ?s)"
      by (rule proc_inv_step [OF inv id(2) refl m(1)]) (use ids others r1(2) in \<open>simp_all add: list_all2_refl\<close>)
    have "?k \<in> set (cp_strategy_list (put_risk ?k r1 ?s))" using k by (simp add: put_risk_def upd_obj_def)
    from call_base_ok [OF env(1,2) inv1 this, of "\<lambda>u. b_on_rtn u m"] legal_baseD(3) [OF env(3)]
    obtain t where t: "call_base env (\<lambda>u. b_on_rtn u m) ?k (put_risk ?k r1 ?s) = Inr t" "proc_inv ops hinv start t"
      "cp_strategy_list t = cp_strategy_list s" by (auto simp: proc_done_def proc_keeps_def put_risk_def upd_obj_def)
    have "proc_order_track env (rm_local_id m) ?s = Inr ?t"
      using m(2-4) env(1) by (simp add: proc_order_track_def Let_def)
    moreover have "risk_of ?k ?s = Inr r" using r(1) D(3) [OF k] by (simp add: risk_of_def)
    ultimately show ?thesis using Some id r1(1) t by (simp add: CStrategyProcess_on_rtn_def Let_def)
  qed
qed

text \<open>A round, for any reader of ticks that keeps the invariant.\<close>

lemma proc_round_ok:
  assumes env: "pe_td env = ops" "2 \<le> pe_fuel env" "\<And>k. legal_base (pe_slots env k)"
    and read: "\<exists>pmd s1. read s = Inr (pmd, s1) \<and> proc_inv ops hinv start s1 \<and> cp_strategy_list s1 = ls"
  shows "\<exists>t. CStrategyProcess_round env read inp s = Inr t \<and> proc_inv ops hinv start t \<and> cp_strategy_list t = ls"
proof -
  obtain pmd s1 where s1: "read s = Inr (pmd, s1)" "proc_inv ops hinv start s1" "cp_strategy_list s1 = ls" using read by blast
  obtain s2 where s2: "(case pmd of None \<Rightarrow> Inr s1 | Some u \<Rightarrow> CStrategyProcess_on_tick env u s1) = Inr s2"
    "proc_inv ops hinv start s2" "cp_strategy_list s2 = ls"
    using proc_on_tick_ok [OF env s1(2)] s1(2,3) by (cases pmd) auto
  obtain prtn td where g: "tdo_getRtn ops (cp_td s2) = (prtn, td)" by fastforce
  from proc_on_rtn_ok [OF env s2(2) g] obtain s4 where
    s4: "(case prtn of None \<Rightarrow> Inr (s2\<lparr>cp_td := td\<rparr>)
      | Some m \<Rightarrow> CStrategyProcess_on_rtn env m (s2\<lparr>cp_td := td\<rparr>)) = Inr s4" "proc_inv ops hinv start s4"
    "cp_strategy_list s4 = ls" using s2(3) by auto
  have "CStrategyProcess_round env read inp s =
      (if pmd = None \<and> prtn = None then CStrategyProcess_on_time env (ci_nano inp) s4 else Inr s4)"
    using s4(1) unfolding CStrategyProcess_round_def s1(1) res_bind_simps prod.case s2(1)
    by (simp add: g env(1) Let_def)
  with proc_on_time_ok [OF env s4(2), of "ci_nano inp"] s4(2,3) show ?thesis by auto
qed

end

end
