(* ===== verification/Process_Properties.thy ===== *)
theory Process_Properties
  imports Process_Inv Stg_Properties
begin

text \<open>
  Several strategies in one process against the simulated exchange, which routes orders as
  \<open>routed_helper\<close> asks, and what the process does to subscriptions made before it runs.
\<close>

section \<open>The simulated exchange keeps the number of the strategy\<close>

interpretation fake_router: routed_helper fake_ops fake_inv
proof unfold_locales
  fix h h1 :: td_fake and dir vol off acc_id stgid ret :: int and instr price hash and t :: order_track
  assume "fake_inv h" "dir_known dir" "0 < vol"
    "tdo_sendOrder fake_ops instr price vol dir off acc_id stgid hash h = Inr (ret, h1)"
    "tdo_order_track fake_ops h1 = tdo_order_track fake_ops h @ [t]"
  with sendOrder_inv [of h dir vol instr price off acc_id stgid hash] show "ot_stg_id t = stgid" by auto
next
  fix h h1 :: td_fake and order_id ret :: int
  assume "fake_inv h" "tdo_deleteOrder fake_ops order_id h = Inr (ret, h1)"
  moreover have "(map ot_stg_id ts)[k := ot_stg_id (ts ! k)] = map ot_stg_id ts" for ts k
    by (metis list_update_id map_update)
  ultimately show "map ot_stg_id (tdo_order_track fake_ops h1) = map ot_stg_id (tdo_order_track fake_ops h)"
    using deleteOrder_inv [of h order_id] by (auto simp: map_update)
qed

section \<open>A trading day\<close>

definition proc_fake_env ::
    "nat \<Rightarrow> 'm md_ops \<Rightarrow> (nat \<Rightarrow> ((td_fake, 'm, 'u) stg_process, 'u) base_slots) \<Rightarrow> file_env \<Rightarrow>
     (td_fake, 'm, 'u) proc_env" where
  "proc_fake_env n md slots fe =
     \<lparr>pe_fuel = Suc (Suc n), pe_td = fake_ops, pe_md = md, pe_slots = slots, pe_files = fe\<rparr>"

definition proc_day_step ::
    "(td_fake, 'm, 'u) proc_env \<Rightarrow> market_data option \<times> cycle_in \<Rightarrow> (td_fake, 'm, 'u) stg_process \<Rightarrow>
     (td_fake, 'm, 'u) stg_process res" where
  "proc_day_step env e s =
     (case e of (pmd, inp) \<Rightarrow> CStrategyProcess_round env (\<lambda>s. Inr (pmd, s)) inp (proc_flags inp s))"

definition proc_day_legal ::
    "(nat \<Rightarrow> ('s, 'u) base_slots) \<Rightarrow> market_data option \<times> cycle_in \<Rightarrow> 'x \<Rightarrow> bool" where
  "proc_day_legal slots e s \<longleftrightarrow> (\<forall>k. legal_base (slots k))"

interpretation process_day: guarded_machine "proc_day_step (proc_fake_env n md slots fe)" "proc_day_legal slots"
    "\<lambda>s. proc_inv fake_ops fake_inv start s \<and> cp_strategy_list s = ls"
    for n md slots fe start ls
proof
  fix s :: "(td_fake, 'a, 'b) stg_process" and e
  assume s: "proc_inv fake_ops fake_inv start s \<and> cp_strategy_list s = ls" and e: "proc_day_legal slots e s"
  let ?s = "proc_flags (snd e) s"
  have inv: "proc_inv fake_ops fake_inv start ?s \<and> cp_strategy_list ?s = ls" using s by (simp add: proc_flags_def)
  have "\<exists>t. CStrategyProcess_round (proc_fake_env n md slots fe) (\<lambda>s. Inr (fst e, s)) (snd e) ?s = Inr t \<and>
      proc_inv fake_ops fake_inv start t \<and> cp_strategy_list t = ls"
    by (rule fake_router.proc_round_ok) (use e inv in \<open>simp_all add: proc_fake_env_def proc_day_legal_def\<close>)
  then show "\<exists>t. proc_day_step (proc_fake_env n md slots fe) e s = Inr t \<and>
      proc_inv fake_ops fake_inv start t \<and> cp_strategy_list t = ls"
    by (simp add: proc_day_step_def split_def)
qed

text \<open>A process at the start of a day: portfolios without working orders, an exchange without orders.\<close>

definition at_rest :: "trade_base \<Rightarrow> risk_stg \<Rightarrow> bool" where
  "at_rest base r \<longleftrightarrow> risk_inv (tb_instr_info base) r \<and> book_rel [] \<lparr>aw_base = base, aw_acc = rs_acc_base r\<rparr>"

definition process_at_rest :: "(td_fake, 'm, 'u) stg_process \<Rightarrow> bool" where
  "process_at_rest s \<longleftrightarrow>
     (\<exists>name wait. cp_td s = td_fake_init name wait) \<and> distinct (cp_strategy_list s) \<and>
     (\<forall>i < length (cp_strategy_list s). cp_strategy_list s ! i < length (cp_objs s) \<and>
        sb_self_id (cp_objs s ! (cp_strategy_list s ! i)) = int i \<and>
        (\<exists>r. sb_risk (cp_objs s ! (cp_strategy_list s ! i)) = Some r \<and> at_rest (cp_base s) r)) \<and>
     (\<forall>h info ks. map_of (cp_instr_info_map s) h = Some (info, ks) \<longrightarrow>
        map_of (tb_instr_info (cp_base s)) h = Some (base_info info) \<and> listed ks s) \<and>
     (\<forall>b \<in> set (cp_subs_bar_info s). listed (snd b) s)"

text \<open>The account of the strategy in place \<open>i\<close>.\<close>

definition risk_at :: "nat \<Rightarrow> ('h, 'm, 'u) stg_process \<Rightarrow> risk_stg" where
  "risk_at i s = the (sb_risk (cp_objs s ! (cp_strategy_list s ! i)))"

lemma process_start_inv:
  assumes "process_at_rest s"
  shows "proc_inv fake_ops fake_inv (\<lambda>i h. net_vol (acc_vol h (rs_acc_base (risk_at i s)))) s"
proof -
  from assms obtain name wait where td: "cp_td s = td_fake_init name wait" by (auto simp: process_at_rest_def)
  then have none: "tdo_order_track fake_ops (cp_td s) = []" and inv: "fake_inv (cp_td s)"
    using fake_inv_init [of name wait] by (simp_all add: td_fake_init_def)
  have "strategy_ok (cp_base s) (\<lambda>i h. net_vol (acc_vol h (rs_acc_base (risk_at i s)))) [] i
      (cp_objs s ! (cp_strategy_list s ! i))" if "i < length (cp_strategy_list s)" for i
    using assms that idle_account by (fastforce simp: process_at_rest_def at_rest_def strategy_ok_def risk_at_def tracks_of_def)
  with assms none inv show ?thesis
    by (auto simp: proc_inv_def process_at_rest_def in_set_conv_nth)
qed

section \<open>Properties\<close>

text \<open>
  C6. The strategies of a process do not disturb each other. Any number of strategies whose callbacks
  are legal programs (they may subscribe at any time, also in a tick) trade a whole day through one
  connection to the simulated exchange, from any portfolios without working orders, under any ticks
  and flags, and no step faults. Every order belongs to one strategy of the list, and at the end of
  every run the account of each strategy is what its own orders say: the net position of an instrument
  is that of the morning plus what they traded, the working volume of every direction and offset is
  what its open orders have left, and the number of unfilled orders is the number of its open orders,
  all within the limits of the strategy.
\<close>

theorem strategies_keep_their_accounts:
  assumes "process_at_rest s0" "\<And>k. legal_base (slots k)"
  shows "\<exists>s. run_steps (proc_day_step (proc_fake_env n md slots fe)) es s0 = Inr s \<and>
    cp_strategy_list s = cp_strategy_list s0 \<and>
    (\<forall>t \<in> set (th_order_track (cp_td s)). 0 \<le> ot_stg_id t \<and> nat (ot_stg_id t) < length (cp_strategy_list s)) \<and>
    (\<forall>i < length (cp_strategy_list s). \<exists>r ab ts.
       sb_risk (cp_objs s ! (cp_strategy_list s ! i)) = Some r \<and> ab = rs_acc_base r \<and>
       ts = filter (\<lambda>t. ot_stg_id t = int i) (th_order_track (cp_td s)) \<and>
       (\<forall>h. pos_long (acc_vol h ab) - pos_short (acc_vol h ab) =
          pos_long (acc_vol h (rs_acc_base (risk_at i s0))) - pos_short (acc_vol h (rs_acc_base (risk_at i s0))) +
          (\<Sum>t\<leftarrow>ts. if ot_instr_hash t = h then
             (if ot_dir t = AT_CHAR_Buy then ot_vol_traded t else - ot_vol_traded t) else 0)) \<and>
       (\<forall>h dir off. dir_known dir \<longrightarrow> off_known off \<longrightarrow> ing_vol dir off (acc_vol h ab) =
          (\<Sum>t\<leftarrow>filter track_open ts. if ot_instr_hash t = h \<and> ot_dir t = dir \<and> ot_off t = off
             then ot_vol t - ot_vol_traded t else 0)) \<and>
       unfilled_order_cnt (ab_mod_acc ab) = int (length (filter track_open ts)) \<and>
       (\<forall>h q. map_of (rs_map_risk_instr r) h = Some q \<longrightarrow> in_limits (ri_limits q) (acc_vol h ab)) \<and>
       unfilled_order_cnt (ab_mod_acc ab) \<le> max 0 (unfilled_ord_cnt_threshold (rs_risk_acc r)))"
proof -
  let ?start = "\<lambda>i h. net_vol (acc_vol h (rs_acc_base (risk_at i s0)))"
  have legal: "legal_run (proc_day_step (proc_fake_env n md slots fe)) (proc_day_legal slots) es s0"
    by (rule process_day.always_legal_run [of ?start s0 "cp_strategy_list s0"])
      (use process_start_inv [OF assms(1)] assms(2) in \<open>simp_all add: proc_day_legal_def\<close>)
  from process_day.run_inv [OF conjI [OF process_start_inv [OF assms(1)] refl] legal] obtain s where
    s: "run_steps (proc_day_step (proc_fake_env n md slots fe)) es s0 = Inr s"
      "proc_inv fake_ops fake_inv ?start s" "cp_strategy_list s = cp_strategy_list s0" by blast
  note D = proc_invD [OF s(2)]
  have own: "\<exists>r. sb_risk (cp_objs s ! (cp_strategy_list s ! i)) = Some r \<and>
      orders_inv (cp_base s) (?start i) (filter (\<lambda>t. ot_stg_id t = int i) (th_order_track (cp_td s))) r"
    if "i < length (cp_strategy_list s)" for i
    using D(4) [OF that] by (auto simp: strategy_ok_def tracks_of_def)
  have facts: "(\<forall>h. pos_long (acc_vol h (rs_acc_base r)) - pos_short (acc_vol h (rs_acc_base r)) =
          pos_long (acc_vol h (rs_acc_base (risk_at i s0))) - pos_short (acc_vol h (rs_acc_base (risk_at i s0))) +
          net_of h ts) \<and>
      (\<forall>h dir off. dir_known dir \<longrightarrow> off_known off \<longrightarrow> ing_vol dir off (acc_vol h (rs_acc_base r)) =
          um_sum (book_left h dir off) (book_of ts)) \<and>
      unfilled_order_cnt (ab_mod_acc (rs_acc_base r)) = int (length (book_of ts)) \<and>
      (\<forall>h q. map_of (rs_map_risk_instr r) h = Some q \<longrightarrow> in_limits (ri_limits q) (acc_vol h (rs_acc_base r))) \<and>
      unfilled_order_cnt (ab_mod_acc (rs_acc_base r)) \<le> max 0 (unfilled_ord_cnt_threshold (rs_risk_acc r))"
    if o: "orders_inv (cp_base s) (?start i) ts r" for i ts r
  proof -
    note O = orders_invD [OF o]
    note R = book_relD [OF O(2)] and I = risk_invD [OF O(1)]
    have "in_limits (ri_limits q) (acc_vol h (rs_acc_base r))" if "map_of (rs_map_risk_instr r) h = Some q" for h q
      using I(9) [of h] that by (simp add: lims_of_def)
    with O(5) R(4,5) I(11) show ?thesis by (simp add: net_vol_def)
  qed
  show ?thesis
  proof (intro exI [of _ s] conjI allI impI)
    fix i assume "i < length (cp_strategy_list s)"
    from own [OF this] facts obtain r where
      r: "sb_risk (cp_objs s ! (cp_strategy_list s ! i)) = Some r" and
      o: "orders_inv (cp_base s) (?start i) (filter (\<lambda>t. ot_stg_id t = int i) (th_order_track (cp_td s))) r" by blast
    from facts [OF o] r show "\<exists>r ab ts.
       sb_risk (cp_objs s ! (cp_strategy_list s ! i)) = Some r \<and> ab = rs_acc_base r \<and>
       ts = filter (\<lambda>t. ot_stg_id t = int i) (th_order_track (cp_td s)) \<and>
       (\<forall>h. pos_long (acc_vol h ab) - pos_short (acc_vol h ab) =
          pos_long (acc_vol h (rs_acc_base (risk_at i s0))) - pos_short (acc_vol h (rs_acc_base (risk_at i s0))) +
          (\<Sum>t\<leftarrow>ts. if ot_instr_hash t = h then
             (if ot_dir t = AT_CHAR_Buy then ot_vol_traded t else - ot_vol_traded t) else 0)) \<and>
       (\<forall>h dir off. dir_known dir \<longrightarrow> off_known off \<longrightarrow> ing_vol dir off (acc_vol h ab) =
          (\<Sum>t\<leftarrow>filter track_open ts. if ot_instr_hash t = h \<and> ot_dir t = dir \<and> ot_off t = off
             then ot_vol t - ot_vol_traded t else 0)) \<and>
       unfilled_order_cnt (ab_mod_acc ab) = int (length (filter track_open ts)) \<and>
       (\<forall>h q. map_of (rs_map_risk_instr r) h = Some q \<longrightarrow> in_limits (ri_limits q) (acc_vol h ab)) \<and>
       unfilled_order_cnt (ab_mod_acc ab) \<le> max 0 (unfilled_ord_cnt_threshold (rs_risk_acc r))"
      unfolding um_sum_book_from length_book_from net_of_def by blast
  qed (use s(1,3) D(5) in simp_all)
qed

section \<open>An example\<close>

text \<open>Two strategies on one instrument: the first buys, the second sells and subscribes in every tick.\<close>

definition two_slots :: "nat \<Rightarrow> ((td_fake, unit, unit) stg_process, unit) base_slots" where
  "two_slots k =
     \<lparr>b_on_tick = (\<lambda>pmd u.
        if k = 0 then SendOrder (md_instr_hash pmd) 4002 2 AT_CHAR_Buy AT_CHAR_Open 0 (\<lambda>_. Done u)
        else Subscribe ''IF'' (\<lambda>_. SendOrder (md_instr_hash pmd) 4000 1 AT_CHAR_Sell AT_CHAR_Open 0 (\<lambda>_. Done u))),
      b_on_time = (\<lambda>_. Done), b_on_rtn = (\<lambda>_. Done), b_on_bar = (\<lambda>_. Done), b_on_switch_day = (\<lambda>_. Done)\<rparr>"

definition two_start :: "(td_fake, unit, unit) stg_process" where
  "two_start =
     (let r = cs_risk_stg if_stg in
      \<lparr>cp_md = (), cp_td = td_fake_init ''fake'' 0,
       cp_objs = [\<lparr>sb_self_id = 0, sb_risk = Some r, sb_user = ()\<rparr>, \<lparr>sb_self_id = 1, sb_risk = Some r, sb_user = ()\<rparr>],
       cp_strategy_list = [0, 1], cp_instr_info_map = map (\<lambda>(h, info). (h, (info, [0, 1]))) if_subs,
       cp_subs_bar_info = [], cp_is_exit = False, cp_do_trade = True, cp_trading_day = ''20220601'',
       cp_acc_save_day = ''20220601'', cp_base = if_base, cp_bar_helper = bar_helper_init, cp_disk = []\<rparr>)"

lemma map_of_pair: "map_of (map (\<lambda>(h, x). (h, (x, y))) m) k = map_option (\<lambda>x. (x, y)) (map_of m k)"
  by (induction m) auto

lemma two_at_rest: "process_at_rest two_start"
proof -
  have "at_rest if_base (cs_risk_stg if_stg)"
    using if_stg_start(1,2) by (simp add: at_rest_def if_stg_def)
  moreover have "map_of (tb_instr_info if_base) h = Some (base_info info)" if "map_of if_subs h = Some info" for h info
    using if_stg_start(4) that by (simp add: if_stg_def)
  ultimately show ?thesis
    by (auto simp: process_at_rest_def two_start_def Let_def listed_def map_of_pair less_Suc_eq)
qed

lemma two_legal: "legal_base (two_slots k)"
  by (simp add: legal_base_def two_slots_def dir_known_def)

theorem strategies_keep_their_accounts_witness:
  "\<exists>s r ab ts. run_steps (proc_day_step (proc_fake_env 0 if_md_ops two_slots if_files)) if_rounds two_start = Inr s \<and>
    sb_risk (cp_objs s ! 1) = Some r \<and> ab = rs_acc_base r \<and>
    ts = filter (\<lambda>t. ot_stg_id t = 1) (th_order_track (cp_td s)) \<and>
    unfilled_order_cnt (ab_mod_acc ab) = int (length (filter track_open ts))"
proof -
  have ls: "cp_strategy_list two_start = [0, 1]" by (simp add: two_start_def Let_def)
  show ?thesis
    using strategies_keep_their_accounts [where slots = two_slots and n = 0 and md = if_md_ops and fe = if_files and
      es = if_rounds, OF two_at_rest two_legal]
  proof (elim exE conjE, goal_cases)
    case run: (1 s)
    have "1 < length (cp_strategy_list s)" using run(2) ls by simp
    from run(4) [rule_format, OF this] show ?case
    proof (elim exE conjE, goal_cases)
      case (1 r ab ts)
      then show ?case
        using run(1,2) ls by (intro exI [of _ s] exI [of _ r] exI [of _ ab] exI [of _ ts]) simp
    qed
  qed
qed

section \<open>Subscriptions before the run\<close>

text \<open>
  What the strategies subscribed to before \<^verbatim>\<open>run\<close> is gone when the loop starts on a first day: the switch
  to the day empties the maps and calls no strategy, so no order passes and no tick is handed on.
\<close>

lemma subscriptions_before_run_are_lost:
  assumes "cp_acc_save_day s = []" "cp_subs_bar_info s = []"
  shows "\<exists>t. CStrategyProcess_pre_on_switch_day env day s = Inr t \<and> cp_instr_info_map t = [] \<and>
    cp_subs_bar_info t = [] \<and> cp_objs t = cp_objs s \<and>
    (\<forall>k h px vol dir off acc. CStrategyBase_sendOrder env k h px vol dir off acc t = Inr (-1, t))"
  using assms
  by (simp add: CStrategyProcess_pre_on_switch_day_def CStrategyProcess_barOnFinish_def
      CStrategyBase_sendOrder_def CStrategyProcess_getSubsInstrInfo_def Let_def)

end
