(* ===== verification/Td_EesV2.thy ===== *)
theory Td_EesV2
  imports Td_Ees
begin

text \<open>
  \<^verbatim>\<open>td/CTDEngineEESV2\<close>, the class for the second version of the EES interface (also called
  \<^verbatim>\<open>CTDEngineEES\<close>). Its text is that of the first version but for the address it connects to, the
  market's answers and the cancels; so its operations are those of \<open>Td_Ees\<close> with \<open>v2\<close> set.
\<close>

definition CTDEngineEESV2_is_connected :: "'t td_ees \<Rightarrow> bool" where
  "CTDEngineEESV2_is_connected = CTDEngineEES_is_connected"

definition CTDEngineEESV2_is_logged_in :: "'t td_ees \<Rightarrow> bool" where
  "CTDEngineEESV2_is_logged_in = CTDEngineEES_is_logged_in"

definition CTDEngineEESV2_release :: "'t td_ees \<Rightarrow> 't td_ees res" where
  "CTDEngineEESV2_release = CTDEngineEES_release"

definition CTDEngineEESV2_OnConnection :: "int \<Rightarrow> 't td_ees \<Rightarrow> 't td_ees res" where
  "CTDEngineEESV2_OnConnection = CTDEngineEES_OnConnection"

definition CTDEngineEESV2_OnDisConnection :: "'t td_ees \<Rightarrow> 't td_ees res" where
  "CTDEngineEESV2_OnDisConnection = CTDEngineEES_OnDisConnection"

definition CTDEngineEESV2_OnUserLogon :: "int \<Rightarrow> int \<Rightarrow> int \<Rightarrow> 't td_ees \<Rightarrow> 't td_ees res" where
  "CTDEngineEESV2_OnUserLogon = CTDEngineEES_OnUserLogon"

definition CTDEngineEESV2_OnQueryUserAccount :: "string \<Rightarrow> bool \<Rightarrow> 't td_ees \<Rightarrow> 't td_ees res" where
  "CTDEngineEESV2_OnQueryUserAccount = CTDEngineEES_OnQueryUserAccount"

definition CTDEngineEESV2_OnQuerySymbol :: "ees_symbol \<Rightarrow> bool \<Rightarrow> 't td_ees \<Rightarrow> 't td_ees" where
  "CTDEngineEESV2_OnQuerySymbol = CTDEngineEES_OnQuerySymbol"

definition CTDEngineEESV2_OnQueryTradeOrder :: "ees_query_order \<Rightarrow> bool \<Rightarrow> 't td_ees \<Rightarrow> 't td_ees res" where
  "CTDEngineEESV2_OnQueryTradeOrder = CTDEngineEES_OnQueryTradeOrder"

definition CTDEngineEESV2_OnQueryTradeOrderExec :: "int \<Rightarrow> double \<Rightarrow> int \<Rightarrow> bool \<Rightarrow> 't td_ees \<Rightarrow> 't td_ees res" where
  "CTDEngineEESV2_OnQueryTradeOrderExec = CTDEngineEES_OnQueryTradeOrderExec"

definition CTDEngineEESV2_OnOrderAccept :: "'t eng_env \<Rightarrow> int \<Rightarrow> int \<Rightarrow> 't td_ees \<Rightarrow> 't td_ees res" where
  "CTDEngineEESV2_OnOrderAccept = CTDEngineEES_OnOrderAccept"

definition CTDEngineEESV2_OnOrderReject :: "'t eng_env \<Rightarrow> int \<Rightarrow> int \<Rightarrow> 't td_ees \<Rightarrow> 't td_ees res" where
  "CTDEngineEESV2_OnOrderReject = CTDEngineEES_OnOrderReject"

definition CTDEngineEESV2_OnOrderExecution :: "'t eng_env \<Rightarrow> ees_execution \<Rightarrow> 't td_ees \<Rightarrow> 't td_ees res" where
  "CTDEngineEESV2_OnOrderExecution = CTDEngineEES_OnOrderExecution"

definition CTDEngineEESV2_OnOrderCxled ::
    "'t eng_env \<Rightarrow> int \<Rightarrow> int \<Rightarrow> int \<Rightarrow> int \<Rightarrow> 't td_ees \<Rightarrow> 't td_ees res" where
  "CTDEngineEESV2_OnOrderCxled = CTDEngineEES_OnOrderCxled True"

definition CTDEngineEESV2_OnCxlOrderReject ::
    "'t eng_env \<Rightarrow> int \<Rightarrow> int \<Rightarrow> string \<Rightarrow> 't td_ees \<Rightarrow> 't td_ees res" where
  "CTDEngineEESV2_OnCxlOrderReject = CTDEngineEES_OnCxlOrderReject"

definition CTDEngineEESV2_req_order_insert ::
    "ees_vendor \<Rightarrow> 't eng_env \<Rightarrow> input_order \<Rightarrow> 't td_ees \<Rightarrow> 't td_ees res" where
  "CTDEngineEESV2_req_order_insert = CTDEngineEES_req_order_insert"

definition CTDEngineEESV2_req_order_action ::
    "ees_vendor \<Rightarrow> 't eng_env \<Rightarrow> order_action \<Rightarrow> 't td_ees \<Rightarrow> 't td_ees res" where
  "CTDEngineEESV2_req_order_action = CTDEngineEES_req_order_action"

definition CTDEngineEESV2_connect ::
    "ees_vendor \<Rightarrow> ees_answers \<Rightarrow> 't eng_env \<Rightarrow> ees_conf list \<Rightarrow> 't td_ees \<Rightarrow> 't td_ees res" where
  "CTDEngineEESV2_connect = CTDEngineEES_connect True"

definition CTDEngineEESV2_login ::
    "ees_vendor \<Rightarrow> ees_answers \<Rightarrow> 't eng_env \<Rightarrow> ees_conf list \<Rightarrow> 't td_ees \<Rightarrow> 't td_ees res" where
  "CTDEngineEESV2_login = CTDEngineEES_login True"

definition CTDEngineEESV2_init ::
    "ees_vendor \<Rightarrow> ees_answers \<Rightarrow> 't eng_env \<Rightarrow> ees_conf list \<Rightarrow> 't td_ees \<Rightarrow> (bool \<times> 't td_ees) res" where
  "CTDEngineEESV2_init = CTDEngineEES_init True"

definition CTDEngineEESV2_queryInstruments ::
    "ees_vendor \<Rightarrow> ees_answers \<Rightarrow> 't eng_env \<Rightarrow> 't td_ees \<Rightarrow> (bool \<times> 't td_ees) res" where
  "CTDEngineEESV2_queryInstruments = CTDEngineEES_queryInstruments True"

definition CTDEngineEESV2_updateTradedAmount ::
    "ees_vendor \<Rightarrow> ees_answers \<Rightarrow> 't eng_env \<Rightarrow> ees_conf list \<Rightarrow> 't td_ees \<Rightarrow> (bool \<times> 't td_ees) res" where
  "CTDEngineEESV2_updateTradedAmount = CTDEngineEES_updateTradedAmount True"

definition CTDEngineEESV2_updateOrderTrack ::
    "ees_vendor \<Rightarrow> ees_answers \<Rightarrow> 't eng_env \<Rightarrow> ees_conf list \<Rightarrow> 't td_ees \<Rightarrow> (bool \<times> 't td_ees) res" where
  "CTDEngineEESV2_updateOrderTrack = CTDEngineEES_updateOrderTrack True"

end
