(* ===== verification/Spec2Isabelle.thy ===== *)
theory Spec2Isabelle
  imports Bar_Properties Base_Properties Risk_Properties Exchange_Properties Stg_Properties Io_Properties Ctp_Properties
    Host_Properties Md_Properties Signal_Properties Client_Properties Ees_Properties Xt_Properties Process_Properties
    Td_EesV2
begin

text \<open>
  A verification of nat_framework, a framework for automated trading of Chinese futures, from the
  strategy that decides on an order to the gateway that sends it to a broker, and from the front that
  delivers a tick back to the strategy.

  The program and its parts. A strategy process (\<^verbatim>\<open>src/strategy\<close>) receives ticks and the reports of its
  orders and calls the slots of its author. For an order, its risk control (\<^verbatim>\<open>src/risk\<close>, \<^verbatim>\<open>RiskStg\<close>)
  chooses an offset and applies the rules of instrument, product and account; a passed order is booked in
  the account (\<^verbatim>\<open>src/account\<close>, \<^verbatim>\<open>AccBase\<close>) and handed to a trading helper (\<^verbatim>\<open>src/td/ITDHelper\<close>): the
  simulated exchange \<^verbatim>\<open>CTDHelperFake\<close>, or \<^verbatim>\<open>CTDHelperComm\<close>, which writes it as a frame into a channel of
  memory mapped pages (\<^verbatim>\<open>src/io\<close>). The trading engine (\<^verbatim>\<open>src/td/ITDEngine\<close>) reads the channels of its
  clients, checks the order once more against the account at the broker (\<^verbatim>\<open>RiskTop\<close>, which also prevents
  trades with oneself), sends it through the interface of a vendor (CTP, two versions of EES, XT), keeps a
  record of it, and writes what broker and market report into its own channel, addressed to the client.
  Market data take the same way: an engine (\<^verbatim>\<open>src/md/IMDEngine\<close>) subscribes instruments at a front and writes
  the ticks into a channel, its clients (\<^verbatim>\<open>CMDHelperComm\<close>) read and filter them, the bars are built from
  them (\<^verbatim>\<open>src/bar\<close>). All processes share the table of instruments (\<^verbatim>\<open>src/common/CTradeBaseInfo\<close>), keyed by
  the hash of a name, and talk about set-up over a system channel (\<^verbatim>\<open>ATSysUtils\<close>). The host controls its
  strategy processes through a hash table in shared memory (\<^verbatim>\<open>src/utility/CHashTable\<close>), and signals are
  mirrored between hosts by a pair of agents over a socket (\<^verbatim>\<open>src/signal_agent\<close>, \<^verbatim>\<open>src/server_utils\<close>).

  Theories and code.
  \<^item> Prelude: pointers, faults and results, unordered maps as association lists, runs of fallible
    machines and the contract \<open>guarded_machine\<close>.
  \<^item> Trade_Types, Murmur, Json_Value, Trade_Base: codes and structures of \<^verbatim>\<open>include/ATConstants.h\<close> and
    \<^verbatim>\<open>include/ATStructure.h\<close>, the hash, JSON values with the contract \<open>persistent\<close>, the base information.
    Base_Properties: hash, product lists, exchange of the table.
  \<^item> Account_Units, Mod_Instr, Acc_Base: \<^verbatim>\<open>account/*\<close>. Acc_Inv, Acc_World: the invariant of an account, its
    machine, and the simulation of the book of open orders. Account_Properties.
  \<^item> Risk_Units, Risk_Self_Trade, Risk, Risk_Top: \<^verbatim>\<open>risk/*\<close>. Risk_Limits: the order path and the invariant of
    the limits. Risk_Properties.
  \<^item> Bars, Bar_Properties: \<^verbatim>\<open>bar/*\<close>.
  \<^item> Td_Helper, Td_Fake: \<^verbatim>\<open>td/ITDHelper\<close>, \<^verbatim>\<open>td/CTDHelperFake\<close>. Td_Fake_Inv, Td_Matching,
    Exchange_Properties: what exchange and client keep, and how a tick is shared out.
  \<^item> Md_Helper, Stg_Core: \<^verbatim>\<open>md/IMDHelper\<close>, \<^verbatim>\<open>strategy/CStrategy\<close>. Stg_Orders, Stg_Inv, Stg_Properties: the
    account of a strategy follows the orders of its helper. Stg_Process: \<^verbatim>\<open>strategy/CStrategyProcess\<close> and
    \<^verbatim>\<open>CStrategyBase\<close>; Process_Inv, Process_Properties: the same once for every strategy of a process.
  \<^item> Io_Pages, Io_Channel, Io_Current, Io_Properties: \<^verbatim>\<open>io/CIOBase\<close>, \<^verbatim>\<open>CRawIOWriter\<close>, \<^verbatim>\<open>CRawIOReader\<close>,
    \<^verbatim>\<open>CReaderPool\<close>; a channel is a queue.
  \<^item> Td_Engine, Td_Ctp, Td_Ees, Td_EesV2, Td_Xt: \<^verbatim>\<open>td/ITDEngine\<close> and its four derived classes. Td_Reports,
    Engine_Inv: what they share on a trading day, for any derived class. Ctp_Inv, Ctp_Start, Ctp_Ids,
    Ctp_Example, Ctp_Properties; Ees_Inv, Ees_Properties; Xt_Inv, Xt_Properties: the machines of the gateways.
    Td_Comm, Client_Properties: \<^verbatim>\<open>td/CTDHelperComm\<close>, the client of an engine.
  \<^item> Md_Engine, Md_Fronts, Md_Comm, Md_World, Md_Properties: \<^verbatim>\<open>md/IMDEngine\<close>, \<^verbatim>\<open>CMDEngineCtp\<close>,
    \<^verbatim>\<open>CMDEngineEES\<close>, \<^verbatim>\<open>CMDHelperComm\<close>, and an engine together with its clients, who join, subscribe, leave and,
    after a restart of the engine, subscribe again when they come upon its start frame.
  \<^item> Hash_Table, Stg_Shared, Host_Properties: \<^verbatim>\<open>utility/CHashTable\<close>, \<^verbatim>\<open>strategy/StrategyShared\<close>.
  \<^item> Ring_Buffer, Service: \<^verbatim>\<open>server_utils/CBuffer\<close>, \<^verbatim>\<open>CSocket\<close>, \<^verbatim>\<open>CService\<close>. Signal_Agent, Signal_World,
    Signal_Machine, Signal_Properties: \<^verbatim>\<open>signal_agent/*\<close>, and two agents with the socket between them.

  How code is modelled. A class is a record, a derived class a record that extends it; a method is a
  function from the object (and what it reads elsewhere) to the new object, under the name
  \<^verbatim>\<open>Class_method\<close>; virtual methods are arguments or records of functions. A raw pointer is \<open>NullPtr\<close>, a key into
  the map that owns the object, or \<open>DanglingPtr\<close> once that entry was erased; following a bad one, an
  index out of range and an exception that nothing catches are faults (\<open>Inl\<close>), so that a theorem of the
  form \<open>\<exists>s. f x = Inr s\<close> says the code does not do it. An \<^verbatim>\<open>int\<close> that counts lots, orders or seconds is an unbounded
  integer (the code does not check for overflow either, and the theorems are about values far below it);
  a conversion that narrows, every hash and every counter that wraps is at its width. (The one exception is the
  \<^verbatim>\<open>get<int>\<close> of a stored JSON number: it casts 64 bits to 32, the model returns the number; the program stores
  only values of type \<^verbatim>\<open>int\<close>.) A \<^verbatim>\<open>double\<close> is a
  rational: the theorems are about the formulas, not about rounding. A map iterates in the order of its
  association list, and no theorem depends on that order. A callback of a strategy is a program over
  its interface (\<open>stg_prog\<close>); a waiting loop is the sequence of callbacks that arrive while it waits.

  Locales and their interpretations.
  \<^item> \<open>guarded_machine\<close> (a legal event from a state of the invariant neither faults nor leaves it): the account
    (\<open>account\<close>), the order path (\<open>strategy\<close>), working orders (\<open>self_trade\<close>), the exchange (\<open>exchange\<close>), days of a
    strategy and of a process (\<open>trading_day\<close>, \<open>process_day\<close>), the channel (\<open>channel\<close>), the gateways
    (\<open>ctp_gateway\<close>, \<open>ees_gateway\<close>, \<open>xt_gateway\<close>), the signals (\<open>signals\<close>). Theorems about runs are its \<open>run_inv\<close>.
  \<^item> \<open>persistent\<close>: the seven stored classes; restart theorems are its \<open>reload\<close>.
  \<^item> \<open>order_helper\<close> and its extension \<open>routed_helper\<close> (what a strategy, and a process of several, relies on in a
    trading helper): the simulated exchange.
  \<^item> \<open>tracked_engine\<close> (the steps of the engine's base class leave a derived class alone): CTP, EES, XT.
  \<^item> \<open>order_history\<close> (a history of reports an engine can keep for each order): \<open>full_history\<close> of the CTP and EES
    gateways, the weaker \<open>deal_history\<close> of XT, which repeats acceptance and rejection.
  \<^item> \<open>md_front\<close> (what an engine relies on in its front): the CTP and the EES front; by a \<open>sublocale\<close> the world of
    engine and clients is a guarded machine (restarts, joins and start frames included).
  \<^item> \<open>bounded_store\<close>: the hash table. \<open>byte_queue\<close>: the ring buffer. \<open>framed_service\<close>: the requester.

  Groups of lemmas. \<open>shifts\<close>, \<open>moves\<close> and \<open>moved\<close> carry the equality of the three levels of an account through
  the operations; \<open>acc_inv\<close> its links and books; \<open>book_rel\<close> the open orders; \<open>in_limits\<close>, \<open>order_fits\<close> and
  \<open>risk_inv\<close> the limits; \<open>top_inv\<close>, \<open>top_ready\<close> the account at the broker; \<open>span_fits\<close>, \<open>maker_ok\<close> the bars; \<open>fake_inv\<close> the
  exchange; \<open>orders_inv\<close> the account against the orders of a helper; \<open>writer_at\<close>, \<open>reader_at\<close> the channels;
  \<open>engine_ok\<close>, \<open>engine_moves\<close>, \<open>log_follows\<close> the engines; \<open>ht_ok\<close> the table; \<open>stream_at\<close>, \<open>sig_inv\<close> the signals.

  Conditions of the runs. A theorem about runs is about legal runs, and the text before it says what is legal
  and what the code does otherwise: trades fit the positions they close, base information lists what it counts
  (\<open>acc_legal\<close>); the interface of a gateway is connected, orders of the EES gateways name an account there is, an
  instrument has at most 1024 orders of a day at the broker, requests and reports do not interleave within
  one handler (\<open>ctp_legal\<close>, \<open>ees_legal\<close>, \<open>xt_legal\<close>); clients of market data belong to one trading day and change
  their subscriptions only while the engine knows them (\<open>world_legal\<close>); no package of the signal server is as
  long as the free room of its buffer and the connection lasts (\<open>sig_legal\<close>). Lemmas show the faults beyond:
  \<open>refused_instrument_faults_next_time\<close>, \<open>account_index_is_unchecked\<close>, \<open>early_subscription_is_counted_twice\<close>,
  \<open>exact_fit_loses_data\<close>.

  Bounds and fuel. The registration loops of \<^verbatim>\<open>RiskStg::check\<close> and \<^verbatim>\<open>RiskTop::check\<close> take fuel for the number of
  their tests: two and one are enough for a table in order. The loop that cuts a trading period into
  bars needs the number of cycles of the period, and no fuel is enough for a cycle of zero. A page is larger than its
  head (45 bytes), a head of a frame (20) and the longest frame, and smaller than \<open>2 ^ 31\<close>; a write then needs
  fuel two. A client that reads until nothing comes needs one read more than there are unread frames, the server
  of signals one round more than unread frames. A day of an engine has at most 262144 orders, an instrument at most
  1024 at the broker (what happens beyond is proved too). The size of a ring buffer divides \<open>2 ^ 32\<close>.

  Parameters. The treap of boost (\<open>treap_ops\<close>, with its documented behaviour \<open>treap_ok\<close>, instantiated by a
  list), the file system and what it grants (\<open>file_env\<close>, \<open>io_env\<close>), the clock, the interfaces of the vendors (return
  codes and callbacks are inputs, calls are recorded), what the kernel answers on a socket, and what the system
  process answers over its channel. JSON values are those the vendored library documents.

  Not modelled, and why: the execution models (numerical research over Python objects), loggers (output only),
  the encryption of configuration files (calls into OpenSSL) and their loading (the values are arguments),
  dumps of market data and their replay (file formats of recorded ticks), the Python bindings (no logic),
  the tunnel agent and the command-line tools (interpreters of commands around the core), timers and locks of
  the operating system, tests, and the vendored JSON library. They are listed in the manifest.
\<close>

section \<open>Accounts under risk control\<close>

lemma um_sum_add:
  "um_sum (\<lambda>v. f v + g v) m = um_sum f m + um_sum g (m :: ('k, 'v) umap)"
  by (simp add: um_sum_def split_def sum_list_addf)

text \<open>
  C8. Along every run of orders, reports and ticks of a strategy its account stays in order, and
  the limits of a product bound what its instruments hold together: the sum over the instruments
  of the product of position plus working open orders stays within the product's limit, on the
  long and on the short side.
\<close>

theorem product_limit_bounds_its_instruments:
  assumes "base_ok tb" "conf_ok j" "margin_ok tb j" "ra_p_mod_acc ra = PtrTo ()"
    and "\<forall>h sub. map_of subs h = Some sub \<longrightarrow> map_of tb h = Some (base_info sub)"
    and "legal_run (stg_step send (Suc (Suc n)) tb) stg_legal es (strategy_start j ra subs)"
  shows "\<exists>s. run_steps (stg_step send (Suc (Suc n)) tb) es (strategy_start j ra subs) = Inr s \<and>
    acc_inv (rs_acc_base (st_risk_stg s)) \<and>
    (\<forall>k rp. map_of (rs_map_risk_prd (st_risk_stg s)) k = Some rp \<longrightarrow>
       um_sum (\<lambda>i. if ins_p_prd i = PtrTo k then pos_long (ins_vol i) + pos_long_td_opn_ing (ins_vol i)
           else 0) (ab_map_instr (rs_acc_base (st_risk_stg s))) \<le> max 0 (rp_long_volume_threshold rp) \<and>
       um_sum (\<lambda>i. if ins_p_prd i = PtrTo k then pos_short (ins_vol i) + pos_short_td_opn_ing (ins_vol i)
           else 0) (ab_map_instr (rs_acc_base (st_risk_stg s))) \<le> max 0 (rp_short_volume_threshold rp))"
proof -
  have "stg_inv tb (strategy_start j ra subs)"
    by (rule stg_inv_start) (use assms(1-5) in auto)
  from strategy.run_inv [OF this assms(6)] obtain s where
    s: "run_steps (stg_step send (Suc (Suc n)) tb) es (strategy_start j ra subs) = Inr s"
      "risk_inv tb (st_risk_stg s)"
    by (auto simp: stg_inv_def)
  let ?ab = "rs_acc_base (st_risk_stg s)"
  note D = risk_invD [OF s(2)]
  have total: "um_sum (\<lambda>i. if ins_p_prd i = PtrTo k then f (ins_vol i) + g (ins_vol i) else 0)
      (ab_map_instr ?ab) = f (acc_prd_vol k ?ab) + g (acc_prd_vol k ?ab)"
    if "map_of (rs_map_risk_prd (st_risk_stg s)) k = Some rp" "f \<in> vol_fields" "g \<in> vol_fields"
    for k rp and f g :: "unit_vol \<Rightarrow> int"
  proof -
    have "um_has k (ab_map_prd ?ab)" using D(8) [OF that(1)] by simp
    then obtain p where p: "map_of (ab_map_prd ?ab) k = Some p" by (auto simp: um_has_def)
    have "(\<lambda>i. if ins_p_prd i = PtrTo k then f (ins_vol i) + g (ins_vol i) else 0) =
        (\<lambda>i. of_prd k (\<lambda>i. f (ins_vol i)) i + of_prd k (\<lambda>i. g (ins_vol i)) i)"
      by (auto simp: of_prd_def)
    with acc_invD(5) [OF D(2) p] that(2,3) p show ?thesis
      by (simp add: prd_totals_def um_sum_add acc_prd_vol_def)
  qed
  have fields: "pos_long \<in> vol_fields" "pos_long_td_opn_ing \<in> vol_fields" "pos_short \<in> vol_fields"
    "pos_short_td_opn_ing \<in> vol_fields"
    by (simp_all add: vol_fields_def)
  have lims: "in_limits (rp_limits rp) (acc_prd_vol k ?ab)"
    if "map_of (rs_map_risk_prd (st_risk_stg s)) k = Some rp" for k rp
    using D(10) [of k] that by (simp add: lims_of_def)
  have "\<forall>k rp. map_of (rs_map_risk_prd (st_risk_stg s)) k = Some rp \<longrightarrow>
       um_sum (\<lambda>i. if ins_p_prd i = PtrTo k then pos_long (ins_vol i) + pos_long_td_opn_ing (ins_vol i)
           else 0) (ab_map_instr ?ab) \<le> max 0 (rp_long_volume_threshold rp) \<and>
       um_sum (\<lambda>i. if ins_p_prd i = PtrTo k then pos_short (ins_vol i) + pos_short_td_opn_ing (ins_vol i)
           else 0) (ab_map_instr ?ab) \<le> max 0 (rp_short_volume_threshold rp)"
  proof (intro allI impI)
    fix k rp assume m: "map_of (rs_map_risk_prd (st_risk_stg s)) k = Some rp"
    show "um_sum (\<lambda>i. if ins_p_prd i = PtrTo k then pos_long (ins_vol i) + pos_long_td_opn_ing (ins_vol i)
           else 0) (ab_map_instr ?ab) \<le> max 0 (rp_long_volume_threshold rp) \<and>
       um_sum (\<lambda>i. if ins_p_prd i = PtrTo k then pos_short (ins_vol i) + pos_short_td_opn_ing (ins_vol i)
           else 0) (ab_map_instr ?ab) \<le> max 0 (rp_short_volume_threshold rp)"
      unfolding total [OF m fields(1,2)] total [OF m fields(3,4)]
      using lims [OF m] by (simp add: in_limits_def rp_limits_def exp_defs)
  qed
  with s(1) D(2) show ?thesis by blast
qed

theorem product_limit_bounds_its_instruments_witness:
  "\<exists>s. run_steps (stg_step (\<lambda>_ _ _ _ _ _ _ _. 1) (Suc (Suc 0)) (tb_instr_info if_base)) if_orders
      (strategy_start if_conf if_risk_acc if_subs) = Inr s \<and> acc_inv (rs_acc_base (st_risk_stg s))"
  using product_limit_bounds_its_instruments [OF if_base_ok if_conf_ok if_start if_orders_legal]
  by blast

end
